(* ===== verification/Prelude.thy ===== *)
theory Prelude
  imports Main "HOL-Library.Word"
begin

text \<open>
  Shared vocabulary of the development: the names of the machine types, the outcome of a
  Rust call (\<open>Ok\<close>, \<open>Err\<close> or a panic), the state-passing combinators
  that stand for \<^verbatim>\<open>?\<close> and sequencing, the return codes of the Tock
  kernel, big- and little-endian byte strings, and the generic lemmas on them.
\<close>

unbundle bit_operations_syntax

section \<open>Machine types\<close>

type_synonym byte = "8 word"
type_synonym u16 = "16 word"
type_synonym u24 = "24 word"
type_synonym u32 = "32 word"
type_synonym u64 = "64 word"

text \<open>
  \<^verbatim>\<open>usize\<close> is 32 bits wide on the chip. Lengths and indices are natural
  numbers; where the source checks or can exceed the width, the bound is written out.
\<close>

abbreviation usize_max :: nat where
  "usize_max \<equiv> 4294967295"

named_theorems wire_simps \<open>equations that evaluate readers, writers and codecs\<close>
named_theorems flash_simps \<open>equations of the flash drivers\<close>

section \<open>Outcomes and state passing\<close>

text \<open>
  A Rust call returns a value, returns an error or panics. Stateful code is a function
  from the state before to the outcome and the state after; \<open>eff_bind\<close> is
  sequencing with the early return of \<^verbatim>\<open>?\<close>.
\<close>

datatype ('e, 'a) outcome = Ok 'a | Err 'e | Panic

type_synonym ('s, 'e, 'a) eff = "'s \<Rightarrow> ('e, 'a) outcome \<times> 's"

definition ret :: "'a \<Rightarrow> ('s, 'e, 'a) eff" where
  "ret a s = (Ok a, s)"

definition throw :: "'e \<Rightarrow> ('s, 'e, 'a) eff" where
  "throw e s = (Err e, s)"

definition panic :: "('s, 'e, 'a) eff" where
  "panic s = (Panic, s)"

definition eff_bind :: "('s, 'e, 'a) eff \<Rightarrow> ('a \<Rightarrow> ('s, 'e, 'b) eff) \<Rightarrow> ('s, 'e, 'b) eff" where
  "eff_bind m f s = (case m s of (Ok a, s') \<Rightarrow> f a s' | (Err e, s') \<Rightarrow> (Err e, s') | (Panic, s') \<Rightarrow> (Panic, s'))"

definition map_err :: "('e \<Rightarrow> 'f) \<Rightarrow> ('s, 'e, 'a) eff \<Rightarrow> ('s, 'f, 'a) eff" where
  "map_err g m s = (case m s of (Ok a, s') \<Rightarrow> (Ok a, s') | (Err e, s') \<Rightarrow> (Err (g e), s') | (Panic, s') \<Rightarrow> (Panic, s'))"

definition ok_or :: "'a option \<Rightarrow> 'e \<Rightarrow> ('s, 'e, 'a) eff" where
  "ok_or x e = (case x of Some a \<Rightarrow> ret a | None \<Rightarrow> throw e)"

fun is_ok :: "('e, 'a) outcome \<Rightarrow> bool" where
  "is_ok (Ok _) = True"
| "is_ok _ = False"

fun is_panic :: "('e, 'a) outcome \<Rightarrow> bool" where
  "is_panic Panic = True"
| "is_panic _ = False"

lemma ret_apply [simp, wire_simps]: "ret a s = (Ok a, s)"
  by (simp add: ret_def)

lemma throw_apply [simp, wire_simps]: "throw e s = (Err e, s)"
  by (simp add: throw_def)

lemma panic_apply [simp, wire_simps]: "panic s = (Panic, s)"
  by (simp add: panic_def)

lemma eff_bind_Ok [simp, wire_simps]: "m s = (Ok a, s') \<Longrightarrow> eff_bind m f s = f a s'"
  by (simp add: eff_bind_def)

lemma eff_bind_Err [simp, wire_simps]: "m s = (Err e, s') \<Longrightarrow> eff_bind m f s = (Err e, s')"
  by (simp add: eff_bind_def)

lemma eff_bind_Panic [simp, wire_simps]: "m s = (Panic, s') \<Longrightarrow> eff_bind m f s = (Panic, s')"
  by (simp add: eff_bind_def)

lemma map_err_Ok [simp, wire_simps]: "m s = (Ok a, s') \<Longrightarrow> map_err g m s = (Ok a, s')"
  by (simp add: map_err_def)

lemma map_err_Err [simp, wire_simps]: "m s = (Err e, s') \<Longrightarrow> map_err g m s = (Err (g e), s')"
  by (simp add: map_err_def)

lemma ok_or_Some [simp, wire_simps]: "ok_or (Some a) e = ret a"
  by (simp add: ok_or_def)

lemma ok_or_None [simp, wire_simps]: "ok_or None e = throw e"
  by (simp add: ok_or_def)

lemma eff_bind_ret [simp]: "eff_bind (ret a) f = f a"
  by (rule ext) simp

lemma eff_bind_assoc: "eff_bind (eff_bind m f) g = eff_bind m (\<lambda>a. eff_bind (f a) g)"
  by (rule ext) (simp add: eff_bind_def split: prod.split outcome.split)

lemma eff_bind_Ok_iff:
  "eff_bind m f s = (Ok b, t) \<longleftrightarrow> (\<exists>a s'. m s = (Ok a, s') \<and> f a s' = (Ok b, t))"
  by (auto simp: eff_bind_def split: prod.splits outcome.splits)

lemma map_err_Ok_iff: "map_err g m s = (Ok b, t) \<longleftrightarrow> m s = (Ok b, t)"
  by (auto simp: map_err_def split: prod.splits outcome.splits)

lemma ok_or_Ok_iff: "ok_or x e s = (Ok b, t) \<longleftrightarrow> x = Some b \<and> t = s"
  by (auto simp: ok_or_def split: option.splits)

lemma ret_Ok_iff: "ret a s = (Ok b, t) \<longleftrightarrow> a = b \<and> t = s"
  by auto

lemmas eff_Ok_iffs = eff_bind_Ok_iff map_err_Ok_iff ok_or_Ok_iff ret_Ok_iff

text \<open>
  Code that may wait forever: \<open>None\<close> is "does not return". \<open>returning\<close> embeds code
  that always returns.
\<close>

type_synonym ('s, 'e, 'a) peff = "'s \<Rightarrow> (('e, 'a) outcome \<times> 's) option"

definition returning :: "('s, 'e, 'a) eff \<Rightarrow> ('s, 'e, 'a) peff" where
  "returning m s = Some (m s)"

definition peff_bind :: "('s, 'e, 'a) peff \<Rightarrow> ('a \<Rightarrow> ('s, 'e, 'b) peff) \<Rightarrow> ('s, 'e, 'b) peff" where
  "peff_bind m f s = (case m s of None \<Rightarrow> None
     | Some (Ok a, s') \<Rightarrow> f a s' | Some (Err e, s') \<Rightarrow> Some (Err e, s') | Some (Panic, s') \<Rightarrow> Some (Panic, s'))"

lemma returning_apply [simp]: "returning m s = Some (m s)"
  by (simp add: returning_def)

lemma peff_bind_Ok [simp]: "m s = Some (Ok a, s') \<Longrightarrow> peff_bind m f s = f a s'"
  by (simp add: peff_bind_def)

lemma peff_bind_Err [simp]: "m s = Some (Err e, s') \<Longrightarrow> peff_bind m f s = Some (Err e, s')"
  by (simp add: peff_bind_def)

lemma peff_bind_Panic [simp]: "m s = Some (Panic, s') \<Longrightarrow> peff_bind m f s = Some (Panic, s')"
  by (simp add: peff_bind_def)

lemma peff_bind_None [simp]: "m s = None \<Longrightarrow> peff_bind m f s = None"
  by (simp add: peff_bind_def)

lemma peff_bind_Ok_iff:
  "peff_bind m f s = Some (Ok b, t) \<longleftrightarrow> (\<exists>a s'. m s = Some (Ok a, s') \<and> f a s' = Some (Ok b, t))"
  by (auto simp: peff_bind_def split: option.splits prod.splits outcome.splits)

lemma if_apply: "(if b then f else g) x = (if b then f x else g x)"
  by simp

text \<open>
  Code that only moves the state along a reflexive and transitive relation, whatever it returns; the rules follow the
  structure of the code.
\<close>

named_theorems moves_intros \<open>rules for code that moves the state along a relation\<close>

definition moves :: "('s \<Rightarrow> 's \<Rightarrow> bool) \<Rightarrow> ('s, 'e, 'a) peff \<Rightarrow> bool" where
  "moves R m \<longleftrightarrow> (\<forall>s r s'. m s = Some (r, s') \<longrightarrow> R s s')"

lemma movesI: "(\<And>s r s'. m s = Some (r, s') \<Longrightarrow> R s s') \<Longrightarrow> moves R m"
  by (auto simp: moves_def)

lemma moves_bind [moves_intros]:
  assumes "transp R" and "moves R m" and "\<And>a. moves R (f a)"
  shows "moves R (peff_bind m f)"
proof (rule movesI)
  fix s r s'
  assume "peff_bind m f s = Some (r, s')"
  then show "R s s'"
    using assms(2,3) transpD [OF assms(1)]
    by (fastforce simp: peff_bind_def moves_def split: option.splits prod.splits outcome.splits)
qed

lemma moves_eff_bind [moves_intros]:
  assumes "transp R" and "moves R (returning m)" and "\<And>a. moves R (returning (f a))"
  shows "moves R (returning (eff_bind m f))"
proof (rule movesI)
  fix s r s'
  assume "returning (eff_bind m f) s = Some (r, s')"
  then show "R s s'"
    using assms(2,3) transpD [OF assms(1)]
    by (fastforce simp: eff_bind_def moves_def split: prod.splits outcome.splits)
qed

lemma moves_simple [moves_intros]:
  assumes "reflp R"
  shows "moves R (returning (ret a))" and "moves R (returning (throw e))" and "moves R (returning panic)"
  using assms by (auto intro!: movesI simp: reflpD)

section \<open>Return codes of the Tock kernel\<close>

text \<open>
  \<^verbatim>\<open>kernel::ReturnCode\<close> belongs to the Tock kernel. The constructors are the
  ones this repository mentions.
\<close>

datatype ReturnCode =
    SuccessWithValue nat | SUCCESS | FAIL | EBUSY | EALREADY | EOFF | ERESERVE | EINVAL | ESIZE
  | ECANCEL | ENOMEM | ENOSUPPORT | ENODEVICE | EUNINSTALLED | ENOACK

section \<open>Byte strings of integers\<close>

text \<open>
  \<open>be_bytes k n\<close> is the big-endian string of the low \<open>k\<close> bytes of
  \<open>n\<close> and \<open>be_val\<close> reads such a string; the little-endian forms are
  their reversals.
\<close>

primrec be_bytes :: "nat \<Rightarrow> nat \<Rightarrow> byte list" where
  "be_bytes 0 n = []"
| "be_bytes (Suc k) n = be_bytes k (n div 256) @ [word_of_nat n]"

definition be_val :: "byte list \<Rightarrow> nat" where
  "be_val bs = foldl (\<lambda>a b. a * 256 + unat b) 0 bs"

definition le_bytes :: "nat \<Rightarrow> nat \<Rightarrow> byte list" where
  "le_bytes k n = rev (be_bytes k n)"

definition le_val :: "byte list \<Rightarrow> nat" where
  "le_val bs = be_val (rev bs)"

lemma length_be_bytes [simp]: "length (be_bytes k n) = k"
  by (induction k arbitrary: n) auto

lemma length_le_bytes [simp]: "length (le_bytes k n) = k"
  by (simp add: le_bytes_def)

lemma be_val_Nil [simp]: "be_val [] = 0"
  by (simp add: be_val_def)

lemma be_val_snoc [simp]: "be_val (bs @ [b]) = be_val bs * 256 + unat b"
  by (simp add: be_val_def)

lemma unat_byte_of_nat: "unat (word_of_nat n :: byte) = n mod 256"
  by (simp add: unat_of_nat)

lemma be_val_be_bytes [simp]: "be_val (be_bytes k n) = n mod 256 ^ k"
proof (induction k arbitrary: n)
  case 0
  then show ?case by simp
next
  case (Suc k)
  have "n mod (256 * 256 ^ k) = 256 * (n div 256 mod 256 ^ k) + n mod 256"
    by (rule mod_mult2_eq)
  then show ?case
    using Suc.IH by (simp add: unat_byte_of_nat)
qed

lemma be_bytes_be_val [simp]: "length bs = k \<Longrightarrow> be_bytes k (be_val bs) = bs"
proof (induction bs arbitrary: k rule: rev_induct)
  case Nil
  then show ?case by simp
next
  case (snoc b bs)
  have lt: "unat b < 256"
    using unsigned_less [of b] by simp
  have "(be_val bs * 256 + unat b) div 256 = be_val bs"
    using lt by simp
  moreover have "(word_of_nat (be_val bs * 256 + unat b) :: byte) = b"
  proof (rule word_unat_eq_iff [THEN iffD2])
    show "unat (word_of_nat (be_val bs * 256 + unat b) :: byte) = unat b"
      unfolding unat_byte_of_nat using lt by simp
  qed
  ultimately show ?case
    using snoc by auto
qed

lemma be_val_less: "be_val bs < 256 ^ length bs"
proof (induction bs rule: rev_induct)
  case Nil
  then show ?case by simp
next
  case (snoc b bs)
  have "unat b < 256"
    using unsigned_less [of b] by simp
  with snoc show ?case by simp
qed

lemma le_val_le_bytes [simp]: "le_val (le_bytes k n) = n mod 256 ^ k"
  by (simp add: le_val_def le_bytes_def)

lemma le_bytes_le_val [simp]: "length bs = k \<Longrightarrow> le_bytes k (le_val bs) = bs"
  by (simp add: le_val_def le_bytes_def)

lemma word_of_nat_mod_id: "LENGTH('a::len) = 8 * k \<Longrightarrow> (word_of_nat (unat (w :: 'a word) mod 256 ^ k) :: 'a word) = w"
proof -
  assume len: "LENGTH('a) = 8 * k"
  have "(256 :: nat) ^ k = 2 ^ LENGTH('a)"
    by (simp add: len power_mult)
  then have "unat w mod 256 ^ k = unat w"
    using unsigned_less [of w] by simp
  then show ?thesis by simp
qed

lemma unat_word_of_be_val:
  "LENGTH('a::len) = 8 * k \<Longrightarrow> length bs = k \<Longrightarrow> unat (word_of_nat (be_val bs) :: 'a word) = be_val bs"
proof -
  assume len: "LENGTH('a) = 8 * k" and bs: "length bs = k"
  have "(256 :: nat) ^ k = 2 ^ LENGTH('a)"
    by (simp add: len power_mult)
  then have "be_val bs < 2 ^ LENGTH('a)"
    using be_val_less [of bs] bs by simp
  then show ?thesis
    by (simp add: unat_of_nat)
qed

lemma unat_word_of_le_val:
  "LENGTH('a::len) = 8 * k \<Longrightarrow> length bs = k \<Longrightarrow> unat (word_of_nat (le_val bs) :: 'a word) = le_val bs"
  using unat_word_of_be_val [of k "rev bs"] by (simp add: le_val_def)

section \<open>Lists\<close>

lemma ball_interval_shift: "(\<forall>w\<in>{a..<a + n}. P w) \<longleftrightarrow> (\<forall>i<n. P (a + i :: nat))"
proof
  assume a: "\<forall>i<n. P (a + i)"
  show "\<forall>w\<in>{a..<a + n}. P w"
  proof
    fix w assume "w \<in> {a..<a + n}"
    then have "w - a < n" "a + (w - a) = w" by auto
    with a show "P w" by metis
  qed
qed auto

lemma take_eq_append: "length xs = n \<Longrightarrow> take n (xs @ ys) = xs \<and> drop n (xs @ ys) = ys"
  by simp

end
