(* ===== verification/Wire_Io.thy ===== *)
theory Wire_Io
  imports Prelude
begin

text \<open>
  The byte-oriented I/O layer of \<^verbatim>\<open>shared-lib/spiutils/src/io.rs\<close>:
  errors, the reader over a byte slice, big- and little-endian integers, and the three
  writers (a mutable slice, a \<open>Cursor\<close> and the adapter over \<^verbatim>\<open>std::io::Write\<close>).

  The trait \<^verbatim>\<open>Write\<close> is a parameter of every generic writing function,
  its method \<open>write_bytes\<close>. The locale \<open>bounded_writer\<close> states what
  the code relies on (a write happens completely or not at all) and is interpreted on the
  slice and on the cursor. The trait \<^verbatim>\<open>Read\<close> is used on byte slices only, so the
  reader is the slice that is left to read.
\<close>

section \<open>Errors and the slice reader\<close>

datatype io_error = BufferExhausted | Internal

type_synonym reader = "byte list"

definition read_bytes :: "nat \<Rightarrow> (reader, io_error, byte list) eff" where
  "read_bytes n s =
     (if length s < n then (Err BufferExhausted, s) else (Ok (take n s), drop n s))"

definition remaining_data :: "reader \<Rightarrow> nat" where
  "remaining_data s = length s"

lemma read_bytes_append [simp, wire_simps]: "length bs = n \<Longrightarrow> read_bytes n (bs @ r) = (Ok bs, r)"
  by (simp add: read_bytes_def)

lemma read_bytes_short: "length s < n \<Longrightarrow> read_bytes n s = (Err BufferExhausted, s)"
  by (simp add: read_bytes_def)

lemma read_bytes_Ok_iff: "read_bytes n s = (Ok bs, r) \<longleftrightarrow> s = bs @ r \<and> length bs = n"
  by (auto simp: read_bytes_def)

section \<open>Integers on the wire\<close>

text \<open>
  \<open>BE_read\<close> and \<open>LE_read\<close> are the reads of the vendored byteorder crate:
  they assert that the slice holds enough bytes.
\<close>

definition BE_read :: "nat \<Rightarrow> byte list \<Rightarrow> ('s, 'e, 'a::len word) eff" where
  "BE_read k bs = (if k \<le> length bs then ret (word_of_nat (be_val (take k bs))) else panic)"

definition LE_read :: "nat \<Rightarrow> byte list \<Rightarrow> ('s, 'e, 'a::len word) eff" where
  "LE_read k bs = (if k \<le> length bs then ret (word_of_nat (le_val (take k bs))) else panic)"

definition read_be_u8 :: "(reader, io_error, byte) eff" where
  "read_be_u8 = eff_bind (read_bytes 1) (\<lambda>bs. case bs of [] \<Rightarrow> panic | b # _ \<Rightarrow> ret b)"

definition read_be_u16 :: "(reader, io_error, u16) eff" where
  "read_be_u16 = eff_bind (read_bytes 2) (BE_read 2)"

text \<open>\<^verbatim>\<open>ux::u24::new\<close> asserts that its argument fits.\<close>

definition u24_new :: "u32 \<Rightarrow> ('s, 'e, u24) eff" where
  "u24_new v = (if unat v \<le> 16777215 then ret (ucast v) else panic)"

definition read_be_u24 :: "(reader, io_error, u24) eff" where
  "read_be_u24 = eff_bind (read_bytes 3) (\<lambda>bs. eff_bind (BE_read 3 bs) u24_new)"

definition read_be_u32 :: "(reader, io_error, u32) eff" where
  "read_be_u32 = eff_bind (read_bytes 4) (BE_read 4)"

definition read_be_u64 :: "(reader, io_error, u64) eff" where
  "read_be_u64 = eff_bind (read_bytes 8) (BE_read 8)"

definition read_le_u32 :: "(reader, io_error, u32) eff" where
  "read_le_u32 = eff_bind (read_bytes 4) (LE_read 4)"

definition read_le_u64 :: "(reader, io_error, u64) eff" where
  "read_le_u64 = eff_bind (read_bytes 8) (LE_read 8)"

type_synonym 'w write_op = "byte list \<Rightarrow> ('w, io_error, unit) eff"

definition write_be_u8 :: "'w write_op \<Rightarrow> byte \<Rightarrow> ('w, io_error, unit) eff" where
  "write_be_u8 wb v = wb [v]"

definition write_be_u16 :: "'w write_op \<Rightarrow> u16 \<Rightarrow> ('w, io_error, unit) eff" where
  "write_be_u16 wb v = wb (be_bytes 2 (unat v))"

definition write_be_u24 :: "'w write_op \<Rightarrow> u24 \<Rightarrow> ('w, io_error, unit) eff" where
  "write_be_u24 wb v = wb (be_bytes 3 (unat v))"

definition write_be_u32 :: "'w write_op \<Rightarrow> u32 \<Rightarrow> ('w, io_error, unit) eff" where
  "write_be_u32 wb v = wb (be_bytes 4 (unat v))"

definition write_be_u64 :: "'w write_op \<Rightarrow> u64 \<Rightarrow> ('w, io_error, unit) eff" where
  "write_be_u64 wb v = wb (be_bytes 8 (unat v))"

definition write_le_u32 :: "'w write_op \<Rightarrow> u32 \<Rightarrow> ('w, io_error, unit) eff" where
  "write_le_u32 wb v = wb (le_bytes 4 (unat v))"

definition write_le_u64 :: "'w write_op \<Rightarrow> u64 \<Rightarrow> ('w, io_error, unit) eff" where
  "write_le_u64 wb v = wb (le_bytes 8 (unat v))"

subsection \<open>Reading back what was written\<close>

lemma BE_read_exact:
  "length bs = k \<Longrightarrow> BE_read k bs s = (Ok (word_of_nat (be_val bs)), s)"
  by (simp add: BE_read_def)

lemma LE_read_exact:
  "length bs = k \<Longrightarrow> LE_read k bs s = (Ok (word_of_nat (le_val bs)), s)"
  by (simp add: LE_read_def)

lemma read_be_u8_Cons [simp, wire_simps]: "read_be_u8 (b # r) = (Ok b, r)"
proof -
  have "read_bytes 1 (b # r) = (Ok [b], r)"
    using read_bytes_append [of "[b]" 1 r] by simp
  then show ?thesis by (simp add: read_be_u8_def)
qed

lemma read_be_u16_be [simp, wire_simps]: "read_be_u16 (be_bytes 2 (unat v) @ r) = (Ok v, r)"
  using word_of_nat_mod_id [of 2 v] by (simp add: read_be_u16_def BE_read_exact)

lemma read_be_u32_be [simp, wire_simps]: "read_be_u32 (be_bytes 4 (unat v) @ r) = (Ok v, r)"
  using word_of_nat_mod_id [of 4 v] by (simp add: read_be_u32_def BE_read_exact)

lemma read_be_u64_be [simp, wire_simps]: "read_be_u64 (be_bytes 8 (unat v) @ r) = (Ok v, r)"
  using word_of_nat_mod_id [of 8 v] by (simp add: read_be_u64_def BE_read_exact)

lemma read_le_u32_le [simp, wire_simps]: "read_le_u32 (le_bytes 4 (unat v) @ r) = (Ok v, r)"
  using word_of_nat_mod_id [of 4 v] by (simp add: read_le_u32_def LE_read_exact)

lemma read_le_u64_le [simp, wire_simps]: "read_le_u64 (le_bytes 8 (unat v) @ r) = (Ok v, r)"
  using word_of_nat_mod_id [of 8 v] by (simp add: read_le_u64_def LE_read_exact)

lemma u24_new_small: "n < 16777216 \<Longrightarrow> u24_new (word_of_nat n) s = (Ok (word_of_nat n), s)"
proof -
  assume n: "n < 16777216"
  have u: "unat (word_of_nat n :: u32) = n"
    using n by (simp add: unat_of_nat)
  have "(ucast (word_of_nat n :: u32) :: u24) = word_of_nat n"
    using n by (simp add: unsigned_of_nat take_bit_nat_eq_self)
  then show ?thesis
    using u n by (simp add: u24_new_def)
qed

lemma read_be_u24_any: "length bs = 3 \<Longrightarrow> read_be_u24 (bs @ r) = (Ok (word_of_nat (be_val bs)), r)"
  using be_val_less [of bs] by (simp add: read_be_u24_def BE_read_exact u24_new_small)

lemma read_be_u24_be [simp, wire_simps]: "read_be_u24 (be_bytes 3 (unat v) @ r) = (Ok v, r)"
  using word_of_nat_mod_id [of 3 v] by (simp add: read_be_u24_any)

subsection \<open>Every accepted input is the encoding of what was read\<close>

lemma BE_read_Ok_iff:
  "BE_read k bs s = (Ok v, t) \<longleftrightarrow> k \<le> length bs \<and> v = word_of_nat (be_val (take k bs)) \<and> t = s"
  by (auto simp: BE_read_def)

lemma LE_read_Ok_iff:
  "LE_read k bs s = (Ok v, t) \<longleftrightarrow> k \<le> length bs \<and> v = word_of_nat (le_val (take k bs)) \<and> t = s"
  by (auto simp: LE_read_def)

lemma read_be_u8_Ok_iff: "read_be_u8 s = (Ok b, r) \<longleftrightarrow> s = b # r"
proof
  assume "read_be_u8 s = (Ok b, r)"
  then obtain bs r' where "read_bytes 1 s = (Ok bs, r')"
    and ok: "(case bs of [] \<Rightarrow> panic | c # _ \<Rightarrow> ret c) r' = (Ok b :: (io_error, byte) outcome, r)"
    unfolding read_be_u8_def eff_bind_Ok_iff by blast
  moreover from this have "s = bs @ r'" "length bs = 1"
    by (simp_all only: read_bytes_Ok_iff)
  ultimately show "s = b # r"
    by (cases bs) auto
qed simp

lemma read_be_u16_Ok_iff: "read_be_u16 s = (Ok v, r) \<longleftrightarrow> s = be_bytes 2 (unat v) @ r"
proof
  assume "read_be_u16 s = (Ok v, r)"
  then obtain bs where bs: "s = bs @ r" "length bs = 2" "v = word_of_nat (be_val bs)"
    by (auto simp: read_be_u16_def eff_bind_Ok_iff read_bytes_Ok_iff BE_read_Ok_iff)
  then show "s = be_bytes 2 (unat v) @ r"
    using unat_word_of_be_val [of 2 bs, where ?'a = 16] by simp
qed simp

lemma read_be_u24_Ok_iff: "read_be_u24 s = (Ok v, r) \<longleftrightarrow> s = be_bytes 3 (unat v) @ r"
proof
  assume ok: "read_be_u24 s = (Ok v, r)"
  then obtain bs where "s = bs @ r" "length bs = 3"
    by (auto simp: read_be_u24_def eff_bind_Ok_iff read_bytes_Ok_iff BE_read_Ok_iff u24_new_def
        split: if_splits)
  moreover from this ok have "v = word_of_nat (be_val bs)"
    by (simp add: read_be_u24_any)
  ultimately show "s = be_bytes 3 (unat v) @ r"
    using unat_word_of_be_val [of 3 bs, where ?'a = 24] by simp
qed simp

lemma read_be_u32_Ok_iff: "read_be_u32 s = (Ok v, r) \<longleftrightarrow> s = be_bytes 4 (unat v) @ r"
proof
  assume "read_be_u32 s = (Ok v, r)"
  then obtain bs where bs: "s = bs @ r" "length bs = 4" "v = word_of_nat (be_val bs)"
    by (auto simp: read_be_u32_def eff_bind_Ok_iff read_bytes_Ok_iff BE_read_Ok_iff)
  then show "s = be_bytes 4 (unat v) @ r"
    using unat_word_of_be_val [of 4 bs, where ?'a = 32] by simp
qed simp

lemma read_le_u32_Ok_iff: "read_le_u32 s = (Ok v, r) \<longleftrightarrow> s = le_bytes 4 (unat v) @ r"
proof
  assume "read_le_u32 s = (Ok v, r)"
  then obtain bs where bs: "s = bs @ r" "length bs = 4" "v = word_of_nat (le_val bs)"
    by (auto simp: read_le_u32_def eff_bind_Ok_iff read_bytes_Ok_iff LE_read_Ok_iff)
  then show "s = le_bytes 4 (unat v) @ r"
    using unat_word_of_le_val [of 4 bs, where ?'a = 32] by simp
qed simp

lemma read_le_u64_Ok_iff: "read_le_u64 s = (Ok v, r) \<longleftrightarrow> s = le_bytes 8 (unat v) @ r"
proof
  assume "read_le_u64 s = (Ok v, r)"
  then obtain bs where bs: "s = bs @ r" "length bs = 8" "v = word_of_nat (le_val bs)"
    by (auto simp: read_le_u64_def eff_bind_Ok_iff read_bytes_Ok_iff LE_read_Ok_iff)
  then show "s = le_bytes 8 (unat v) @ r"
    using unat_word_of_le_val [of 8 bs, where ?'a = 64] by simp
qed simp

lemmas read_Ok_iffs =
  read_be_u8_Ok_iff read_be_u16_Ok_iff read_be_u24_Ok_iff read_be_u32_Ok_iff
  read_le_u32_Ok_iff read_le_u64_Ok_iff

section \<open>The writer over a mutable slice\<close>

text \<open>
  Writing to \<^verbatim>\<open>&mut [u8]\<close> fills the front of the slice and leaves the reference
  pointing at the rest: the state is what has been written and the slice that is left.
\<close>

record slice_writer =
  sw_done :: "byte list"
  sw_rest :: "byte list"

definition slice_write_bytes :: "slice_writer write_op" where
  "slice_write_bytes buf w =
     (if length (sw_rest w) < length buf then (Err BufferExhausted, w)
      else (Ok (), w\<lparr>sw_done := sw_done w @ buf, sw_rest := drop (length buf) (sw_rest w)\<rparr>))"

section \<open>The cursor\<close>

record Cursor =
  cur_buf :: "byte list"
  cursor :: nat

definition Cursor_new :: "byte list \<Rightarrow> Cursor" where
  "Cursor_new buf = \<lparr>cur_buf = buf, cursor = 0\<rparr>"

text \<open>
  \<open>consume\<close> hands out a mutable window of the buffer; the window is given by its
  bounds and the caller writes through it.
\<close>

definition Cursor_consume :: "nat \<Rightarrow> Cursor \<Rightarrow> (nat \<times> nat) option \<times> Cursor" where
  "Cursor_consume n c =
     (let e = cursor c + n in
      if usize_max < e then (None, c)
      else if length (cur_buf c) < e then (None, c)
      else (Some (cursor c, e), c\<lparr>cursor := e\<rparr>))"

definition Cursor_consumed_len :: "Cursor \<Rightarrow> nat" where
  "Cursor_consumed_len c = cursor c"

definition Cursor_consumed_bytes :: "Cursor \<Rightarrow> byte list" where
  "Cursor_consumed_bytes c = take (cursor c) (cur_buf c)"

definition Cursor_take_consumed_bytes :: "Cursor \<Rightarrow> byte list \<times> Cursor" where
  "Cursor_take_consumed_bytes c =
     (take (cursor c) (cur_buf c), \<lparr>cur_buf = drop (cursor c) (cur_buf c), cursor = 0\<rparr>)"

definition Cursor_write_bytes :: "Cursor write_op" where
  "Cursor_write_bytes buf c =
     (case Cursor_consume (length buf) c of
        (None, c') \<Rightarrow> (Err BufferExhausted, c')
      | (Some (s, e), c') \<Rightarrow> (Ok (), c'\<lparr>cur_buf := take s (cur_buf c') @ buf @ drop e (cur_buf c')\<rparr>))"

text \<open>The invariant the source states: the cursor lies within the buffer.\<close>

definition Cursor_inv :: "Cursor \<Rightarrow> bool" where
  "Cursor_inv c \<longleftrightarrow> cursor c \<le> length (cur_buf c) \<and> length (cur_buf c) \<le> usize_max"

section \<open>The interface of a bounded writer\<close>

text \<open>
  \<open>avail\<close> is the room that is left and \<open>out\<close> what has been written. A
  write that fits appends its bytes; one that does not reports \<open>BufferExhausted\<close> and
  changes nothing.
\<close>

fun write_seq :: "'w write_op \<Rightarrow> byte list list \<Rightarrow> ('w, io_error, unit) eff" where
  "write_seq wb [] = ret ()"
| "write_seq wb (c # cs) = eff_bind (wb c) (\<lambda>_. write_seq wb cs)"

lemma write_seq_append: "write_seq wb (cs @ ds) = eff_bind (write_seq wb cs) (\<lambda>_. write_seq wb ds)"
  by (induction cs) (simp_all add: eff_bind_assoc)

locale bounded_writer =
  fixes write_bytes :: "'w write_op"
    and inv :: "'w \<Rightarrow> bool"
    and avail :: "'w \<Rightarrow> nat"
    and out :: "'w \<Rightarrow> byte list"
  assumes write_fits: "inv w \<Longrightarrow> length bs \<le> avail w \<Longrightarrow>
      \<exists>w'. write_bytes bs w = (Ok (), w') \<and> inv w' \<and> out w' = out w @ bs \<and> avail w' = avail w - length bs"
    and write_full: "inv w \<Longrightarrow> avail w < length bs \<Longrightarrow> write_bytes bs w = (Err BufferExhausted, w)"
begin

lemma write_seq_fits:
  assumes "inv w" and "length (concat cs) \<le> avail w"
  shows "\<exists>w'. write_seq write_bytes cs w = (Ok (), w') \<and> inv w' \<and> out w' = out w @ concat cs
     \<and> avail w' = avail w - length (concat cs)"
  using assms
proof (induction cs arbitrary: w)
  case Nil
  then show ?case by simp
next
  case (Cons c cs)
  then obtain w1 where w1: "write_bytes c w = (Ok (), w1)" "inv w1" "out w1 = out w @ c"
      "avail w1 = avail w - length c"
    using write_fits [of w c] by auto
  have "length (concat cs) \<le> avail w1"
    using Cons.prems w1 by simp
  with Cons.IH w1 obtain w' where
    "write_seq write_bytes cs w1 = (Ok (), w')" "inv w'" "out w' = out w1 @ concat cs"
    "avail w' = avail w1 - length (concat cs)"
    by blast
  with w1 show ?case by simp
qed

lemma write_seq_full:
  assumes "inv w" and "avail w < length (concat cs)"
  shows "\<exists>w' ds. write_seq write_bytes cs w = (Err BufferExhausted, w') \<and> inv w' \<and> out w' = out w @ concat ds
     \<and> (\<exists>rest. cs = ds @ rest \<and> rest \<noteq> [])"
  using assms
proof (induction cs arbitrary: w)
  case Nil
  then show ?case by simp
next
  case (Cons c cs)
  show ?case
  proof (cases "length c \<le> avail w")
    case False
    then have "write_seq write_bytes (c # cs) w = (Err BufferExhausted, w)"
      using write_full Cons.prems by simp
    then show ?thesis using Cons.prems by (intro exI [of _ w] exI [of _ "[]"]) simp
  next
    case True
    then obtain w1 where w1: "write_bytes c w = (Ok (), w1)" "inv w1" "out w1 = out w @ c"
        "avail w1 = avail w - length c"
      using write_fits [of w c] Cons.prems by auto
    have "avail w1 < length (concat cs)"
      using Cons.prems w1 True by simp
    with Cons.IH w1 obtain w' ds rest where "write_seq write_bytes cs w1 = (Err BufferExhausted, w')"
        "inv w'" "out w' = out w1 @ concat ds" "cs = ds @ rest" "rest \<noteq> []"
      by blast
    with w1 show ?thesis by (intro exI [of _ w'] exI [of _ "c # ds"]) simp
  qed
qed

end

interpretation slice_w: bounded_writer slice_write_bytes "\<lambda>_. True" "\<lambda>w. length (sw_rest w)" sw_done
  by unfold_locales (auto simp: slice_write_bytes_def)

lemma Cursor_write_fits:
  assumes "Cursor_inv c" and "cursor c + length bs \<le> length (cur_buf c)"
  shows "Cursor_write_bytes bs c =
    (Ok (), c\<lparr>cursor := cursor c + length bs,
             cur_buf := take (cursor c) (cur_buf c) @ bs @ drop (cursor c + length bs) (cur_buf c)\<rparr>)"
  using assms by (simp add: Cursor_write_bytes_def Cursor_consume_def Cursor_inv_def Let_def)

interpretation cursor_w: bounded_writer Cursor_write_bytes Cursor_inv
  "\<lambda>c. length (cur_buf c) - cursor c" Cursor_consumed_bytes
proof
  fix c :: Cursor and bs :: "byte list"
  assume inv: "Cursor_inv c" and fits: "length bs \<le> length (cur_buf c) - cursor c"
  let ?c = "c\<lparr>cursor := cursor c + length bs,
             cur_buf := take (cursor c) (cur_buf c) @ bs @ drop (cursor c + length bs) (cur_buf c)\<rparr>"
  from inv have "cursor c \<le> length (cur_buf c)"
    by (simp add: Cursor_inv_def)
  with fits have le: "cursor c + length bs \<le> length (cur_buf c)"
    by linarith
  then have "Cursor_write_bytes bs c = (Ok (), ?c)"
    using Cursor_write_fits inv by blast
  moreover have "Cursor_inv ?c" "Cursor_consumed_bytes ?c = Cursor_consumed_bytes c @ bs"
    "length (cur_buf ?c) - cursor ?c = length (cur_buf c) - cursor c - length bs"
    using inv le by (auto simp: Cursor_inv_def Cursor_consumed_bytes_def)
  ultimately show "\<exists>c'. Cursor_write_bytes bs c = (Ok (), c') \<and> Cursor_inv c' \<and>
      Cursor_consumed_bytes c' = Cursor_consumed_bytes c @ bs \<and>
      length (cur_buf c') - cursor c' = length (cur_buf c) - cursor c - length bs"
    by blast
next
  fix c :: Cursor and bs :: "byte list"
  assume "Cursor_inv c" and "length (cur_buf c) - cursor c < length bs"
  then show "Cursor_write_bytes bs c = (Err BufferExhausted, c)"
    by (auto simp: Cursor_write_bytes_def Cursor_consume_def Cursor_inv_def Let_def)
qed

lemma Cursor_new_inv [simp]: "length buf \<le> usize_max \<Longrightarrow> Cursor_inv (Cursor_new buf)"
  by (simp add: Cursor_inv_def Cursor_new_def)

lemma Cursor_new_sel [simp]: "cur_buf (Cursor_new buf) = buf" "cursor (Cursor_new buf) = 0"
  "Cursor_consumed_bytes (Cursor_new buf) = []"
  by (simp_all add: Cursor_new_def Cursor_consumed_bytes_def)

lemma consumed_len_bytes: "Cursor_inv c \<Longrightarrow> Cursor_consumed_len c = length (Cursor_consumed_bytes c)"
  by (simp add: Cursor_inv_def Cursor_consumed_len_def Cursor_consumed_bytes_def)

end
