(* ===== verification/Std_Write.thy ===== *)
theory Std_Write
  imports Wire_Io
begin

text \<open>
  The adapter \<^verbatim>\<open>StdWrite\<close> of \<^verbatim>\<open>io.rs\<close>: it drives a
  \<^verbatim>\<open>std::io::Write\<close> until every byte is written. The inner writer is a
  parameter; a call writes some bytes, is interrupted or fails. The loop has no bound of its
  own, so the model is a partial function and \<open>None\<close> is "does not return".
\<close>

datatype std_result = Written nat | Interrupted | Failed

type_synonym 'w std_write = "byte list \<Rightarrow> 'w \<Rightarrow> std_result \<times> 'w"

partial_function (option) StdWrite_write_bytes ::
    "'w std_write \<Rightarrow> byte list \<Rightarrow> 'w \<Rightarrow> ((io_error, unit) outcome \<times> 'w) option" where
  "StdWrite_write_bytes wr buf w =
     (if buf = [] then Some (Ok (), w)
      else case wr buf w of
             (Written len, w') \<Rightarrow>
               (if length buf < len then Some (Panic, w')
                else StdWrite_write_bytes wr (drop len buf) w')
           | (Interrupted, w') \<Rightarrow> StdWrite_write_bytes wr buf w'
           | (Failed, w') \<Rightarrow> Some (Err Internal, w'))"

lemma StdWrite_Nil [simp]: "StdWrite_write_bytes wr [] w = Some (Ok (), w)"
  by (subst StdWrite_write_bytes.simps) simp

text \<open>
  The standard library writes to \<^verbatim>\<open>&mut [u8]\<close> as much as fits and reports the
  number of bytes; a full slice accepts zero bytes.
\<close>

definition std_slice_write :: "slice_writer std_write" where
  "std_slice_write buf w =
     (let amt = min (length buf) (length (sw_rest w)) in
      (Written amt, w\<lparr>sw_done := sw_done w @ take amt buf, sw_rest := drop amt (sw_rest w)\<rparr>))"

text \<open>The inner writers the adapter is sound for: each call makes progress or fails.\<close>

locale progressing_writer =
  fixes wr :: "'w std_write" and out :: "'w \<Rightarrow> byte list"
  assumes progress: "buf \<noteq> [] \<Longrightarrow> wr buf w = (r, w') \<Longrightarrow>
      (\<exists>len. r = Written len \<and> 0 < len \<and> len \<le> length buf \<and> out w' = out w @ take len buf)
      \<or> (r = Failed \<and> out w' = out w)"
begin

lemma returns:
  "\<exists>o' w' n. StdWrite_write_bytes wr buf w = Some (o', w') \<and> n \<le> length buf \<and> out w' = out w @ take n buf
     \<and> (o' = Ok () \<and> n = length buf \<or> o' = Err Internal)"
proof (induction buf arbitrary: w rule: length_induct)
  case (1 buf)
  show ?case
  proof (cases "buf = []")
    case True
    then show ?thesis by (intro exI [of _ "Ok ()"] exI [of _ w]) auto
  next
    case False
    obtain r w1 where w1: "wr buf w = (r, w1)"
      by force
    from progress [OF False w1] consider
        (some) len where "r = Written len" "0 < len" "len \<le> length buf" "out w1 = out w @ take len buf"
      | (fail) "r = Failed" "out w1 = out w"
      by blast
    then show ?thesis
    proof cases
      case fail
      then have "StdWrite_write_bytes wr buf w = Some (Err Internal, w1)"
        using False w1 by (subst StdWrite_write_bytes.simps) simp
      with fail show ?thesis by (intro exI [of _ "Err Internal"] exI [of _ w1] exI [of _ 0]) simp
    next
      case some
      then have "length (drop len buf) < length buf" using False by simp
      then obtain o' w' n where r: "StdWrite_write_bytes wr (drop len buf) w1 = Some (o', w')"
          "n \<le> length (drop len buf)" "out w' = out w1 @ take n (drop len buf)"
          "o' = Ok () \<and> n = length (drop len buf) \<or> o' = Err Internal"
        using 1 by meson
      have "StdWrite_write_bytes wr buf w = StdWrite_write_bytes wr (drop len buf) w1"
        using False w1 some by (subst StdWrite_write_bytes.simps) simp
      with r some show ?thesis
        by (intro exI [of _ o'] exI [of _ w'] exI [of _ "len + n"]) (auto simp: take_add)
    qed
  qed
qed

end

text \<open>A growing vector accepts every byte: the progress law holds for it.\<close>

definition std_vec_write :: "byte list std_write" where
  "std_vec_write buf w = (Written (length buf), w @ buf)"

interpretation vec_w: progressing_writer std_vec_write "\<lambda>w. w"
  by unfold_locales (auto simp: std_vec_write_def)

lemma std_slice_full_loops:
  assumes ret: "StdWrite_write_bytes std_slice_write buf w = Some r"
  shows "length buf \<le> length (sw_rest w)"
proof -
  have "wr = std_slice_write \<longrightarrow> length buf \<le> length (sw_rest w)"
    if "StdWrite_write_bytes wr buf w = Some r" for wr and buf and w :: slice_writer and r
  proof (rule StdWrite_write_bytes.raw_induct
      [where P = "\<lambda>wr buf w r. wr = std_slice_write \<longrightarrow> length buf \<le> length (sw_rest w)", OF _ that])
    fix f wr buf r and w :: slice_writer
    assume IH: "\<And>wr buf w r. f wr buf w = Some r \<Longrightarrow> wr = std_slice_write \<longrightarrow> length buf \<le> length (sw_rest w)"
      and eq: "(if buf = [] then Some (Ok (), w)
        else case wr buf w of (Written len, w') \<Rightarrow> (if length buf < len then Some (Panic, w') else f wr (drop len buf) w')
          | (Interrupted, w') \<Rightarrow> f wr buf w' | (Failed, w') \<Rightarrow> Some (Err Internal, w')) = Some r"
    show "wr = std_slice_write \<longrightarrow> length buf \<le> length (sw_rest w)"
    proof (cases "buf = []")
      case False
      show ?thesis
      proof
        assume wr: "wr = std_slice_write"
        let ?amt = "min (length buf) (length (sw_rest w))"
        from eq False wr obtain w' where "f std_slice_write (drop ?amt buf) w' = Some r"
          and "sw_rest w' = drop ?amt (sw_rest w)"
          by (auto simp: std_slice_write_def Let_def split: if_splits)
        with IH have "length (drop ?amt buf) \<le> length (drop ?amt (sw_rest w))"
          by metis
        then show "length buf \<le> length (sw_rest w)" by (auto simp: min_def split: if_splits)
      qed
    qed simp
  qed
  with ret show ?thesis by blast
qed

section \<open>Properties\<close>

text \<open>Writing to a growing vector through \<open>StdWrite\<close> always returns, and every byte has arrived.\<close>

theorem StdWrite_vec_total: "StdWrite_write_bytes std_vec_write buf w = Some (Ok (), w @ buf)"
  by (cases "buf = []") (simp_all add: StdWrite_write_bytes.simps [of _ buf] std_vec_write_def)

text \<open>A \<^verbatim>\<open>std::io::Write\<close> that can accept zero bytes makes the adapter loop: writing
  more bytes to a standard slice writer than it has room for never returns (the standard library's own
  \<^verbatim>\<open>write_all\<close> reports an error there).\<close>

theorem StdWrite_full_slice_diverges:
  assumes "length (sw_rest w) < length buf"
  shows "StdWrite_write_bytes std_slice_write buf w = None"
  using std_slice_full_loops [of buf w] assms
  by (cases "StdWrite_write_bytes std_slice_write buf w") auto

theorem StdWrite_full_slice_diverges_witness:
  "StdWrite_write_bytes std_slice_write [1, 2] \<lparr>sw_done = [], sw_rest = [0]\<rparr> = None"
  using StdWrite_full_slice_diverges [of "\<lparr>sw_done = [], sw_rest = [0]\<rparr>" "[1, 2]"] by simp

end
