(* ===== verification/Bit_Buf.thy ===== *)
theory Bit_Buf
  imports Wire_Io
begin

text \<open>
  The bit queue \<open>BitBuf\<close> of \<^verbatim>\<open>shared-lib/spiutils/src/io.rs\<close>: up to
  eight bits held in the low end of a byte, written at the least significant end and read
  from the most significant end of the occupied part. It refines a queue of booleans.
\<close>

record BitBuf =
  bb_len :: byte
  bb_bits :: byte

text \<open>
  The shift is on a 32-bit \<^verbatim>\<open>usize\<close> and every caller passes at most 8, so
  \<open>2 ^ n - 1\<close> is computed exactly before the truncation to a byte.
\<close>

definition inverse_popcnt :: "nat \<Rightarrow> byte" where
  "inverse_popcnt n = word_of_nat (2 ^ n - 1)"

definition BitBuf_new :: BitBuf where
  "BitBuf_new = \<lparr>bb_len = 0, bb_bits = 0\<rparr>"

definition BitBuf_from_bits :: "byte \<Rightarrow> BitBuf" where
  "BitBuf_from_bits b = \<lparr>bb_len = 8, bb_bits = b\<rparr>"

definition BitBuf_len :: "BitBuf \<Rightarrow> nat" where
  "BitBuf_len b = unat (bb_len b)"

definition read_bits :: "nat \<Rightarrow> (BitBuf, io_error, byte) eff" where
  "read_bits n b =
     (if BitBuf_len b < n then (Err BufferExhausted, b)
      else if n = 0 then (Ok 0, b)
      else let mask = inverse_popcnt n;
               offset = BitBuf_len b - n;
               val = drop_bit offset (bb_bits b) AND mask
           in (Ok val, b\<lparr>bb_bits := bb_bits b AND NOT (push_bit offset mask),
                         bb_len := bb_len b - word_of_nat n\<rparr>))"

definition read_bit :: "(BitBuf, io_error, bool) eff" where
  "read_bit = eff_bind (read_bits 1) (\<lambda>b. ret (b \<noteq> 0))"

text \<open>\<^verbatim>\<open>wrapping_shl\<close> takes the shift distance modulo the width.\<close>

definition wrapping_shl :: "byte \<Rightarrow> nat \<Rightarrow> byte" where
  "wrapping_shl b n = push_bit (n mod 8) b"

definition write_bits :: "nat \<Rightarrow> byte \<Rightarrow> (BitBuf, io_error, unit) eff" where
  "write_bits n v b =
     (if 8 < BitBuf_len b + n then (Err BufferExhausted, b)
      else (Ok (), b\<lparr>bb_bits := wrapping_shl (bb_bits b) n OR (v AND inverse_popcnt n),
                     bb_len := bb_len b + word_of_nat n\<rparr>))"

definition write_bit :: "bool \<Rightarrow> (BitBuf, io_error, unit) eff" where
  "write_bit v = write_bits 1 (if v then 1 else 0)"

definition write_zero_bits :: "nat \<Rightarrow> (BitBuf, io_error, unit) eff" where
  "write_zero_bits n = write_bits n 0"

section \<open>Invariant and abstraction\<close>

definition BitBuf_inv :: "BitBuf \<Rightarrow> bool" where
  "BitBuf_inv b \<longleftrightarrow> BitBuf_len b \<le> 8 \<and> (\<forall>i\<ge>BitBuf_len b. \<not> bit (bb_bits b) i)"

text \<open>The low \<open>n\<close> bits of a byte, most significant first.\<close>

definition msb_bits :: "nat \<Rightarrow> byte \<Rightarrow> bool list" where
  "msb_bits n v = map (\<lambda>i. bit v (n - 1 - i)) [0..<n]"

definition bitq :: "BitBuf \<Rightarrow> bool list" where
  "bitq b = msb_bits (BitBuf_len b) (bb_bits b)"

lemma length_msb_bits [simp]: "length (msb_bits n v) = n"
  by (simp add: msb_bits_def)

lemma nth_msb_bits [simp]: "i < n \<Longrightarrow> msb_bits n v ! i = bit v (n - 1 - i)"
  by (simp add: msb_bits_def)

lemma bit_inverse_popcnt: "bit (inverse_popcnt n) i \<longleftrightarrow> i < n \<and> i < 8"
proof -
  have "inverse_popcnt n = mask n"
    by (simp add: inverse_popcnt_def mask_eq_exp_minus_1 of_nat_diff)
  then show ?thesis
    by (auto simp: bit_mask_iff)
qed

lemma byte_bit_imp_less: "bit (v :: byte) i \<Longrightarrow> i < 8"
  using bit_imp_le_length [of v i] by simp

lemma BitBuf_new_inv: "BitBuf_inv BitBuf_new"
  by (simp add: BitBuf_inv_def BitBuf_new_def BitBuf_len_def)

lemma BitBuf_from_bits_inv: "BitBuf_inv (BitBuf_from_bits v)"
  by (auto simp: BitBuf_inv_def BitBuf_from_bits_def BitBuf_len_def dest: byte_bit_imp_less)

lemma bit_wrapping_shl:
  assumes "\<forall>i\<ge>k. \<not> bit v i" and "k + n \<le> 8"
  shows "bit (wrapping_shl v n) i \<longleftrightarrow> n \<le> i \<and> bit v (i - n)"
proof (cases "n = 8")
  case True
  then have "\<not> bit v i" for i using assms by simp
  then show ?thesis by (simp add: wrapping_shl_def bit_push_bit_iff)
next
  case False
  then have "n < 8" using assms by simp
  then show ?thesis
    using assms by (auto simp: wrapping_shl_def bit_push_bit_iff not_le dest: byte_bit_imp_less)
      (metis Nat.le_diff_conv2 add.commute add_leE assms(2) byte_bit_imp_less dual_order.trans le_add_diff_inverse2 nat_le_linear not_le)
qed

lemma write_bits_len:
  assumes "BitBuf_inv b" "BitBuf_len b + n \<le> 8"
  shows "unat (bb_len b + word_of_nat n) = BitBuf_len b + n"
  using assms by (simp add: BitBuf_len_def unat_word_ariths unat_of_nat)

lemma read_bits_len:
  assumes "n \<le> BitBuf_len b" "BitBuf_len b \<le> 8"
  shows "unat (bb_len b - word_of_nat n) = BitBuf_len b - n"
proof -
  have "unat (word_of_nat n :: byte) = n"
    using assms by (simp add: unat_of_nat)
  then show ?thesis
    using assms by (simp add: BitBuf_len_def unat_sub word_le_nat_alt)
qed

section \<open>Refinement of a queue of booleans\<close>

lemma write_bits_refines:
  assumes inv: "BitBuf_inv b" and fits: "BitBuf_len b + n \<le> 8"
  shows "\<exists>b'. write_bits n v b = (Ok (), b') \<and> BitBuf_inv b' \<and> bitq b' = bitq b @ msb_bits n v"
proof -
  let ?b = "b\<lparr>bb_bits := wrapping_shl (bb_bits b) n OR (v AND inverse_popcnt n),
             bb_len := bb_len b + word_of_nat n\<rparr>"
  have len: "BitBuf_len ?b = BitBuf_len b + n"
    using write_bits_len [OF inv fits] by (simp add: BitBuf_len_def)
  have shl: "bit (wrapping_shl (bb_bits b) n) i \<longleftrightarrow> n \<le> i \<and> bit (bb_bits b) (i - n)" for i
    using bit_wrapping_shl inv fits by (simp add: BitBuf_inv_def)
  have bits: "bit (wrapping_shl (bb_bits b) n OR (v AND inverse_popcnt n)) i
      \<longleftrightarrow> (if i < n then bit v i else bit (bb_bits b) (i - n))" for i
    using fits by (auto simp: bit_simps bit_inverse_popcnt shl dest: byte_bit_imp_less)
  have "bitq ?b = bitq b @ msb_bits n v"
  proof (rule nth_equalityI)
    show "length (bitq ?b) = length (bitq b @ msb_bits n v)"
      by (simp add: bitq_def len)
  next
    fix i
    assume "i < length (bitq ?b)"
    then have i: "i < BitBuf_len b + n"
      by (simp add: bitq_def len)
    have "BitBuf_len b + n - 1 - i - n = BitBuf_len b - 1 - i"
      by linarith
    moreover have "n - 1 - (i - BitBuf_len b) = BitBuf_len b + n - 1 - i" if "BitBuf_len b \<le> i"
      using that by linarith
    ultimately show "bitq ?b ! i = (bitq b @ msb_bits n v) ! i"
      unfolding bitq_def len using i
      by (cases "i < BitBuf_len b") (simp_all add: nth_append bits not_less, linarith+)
  qed
  moreover have "BitBuf_inv ?b"
    using inv fits unfolding BitBuf_inv_def len by (auto simp: bits)
  moreover have "write_bits n v b = (Ok (), ?b)"
    using fits by (simp add: write_bits_def)
  ultimately show ?thesis by blast
qed

lemma read_bits_refines:
  assumes inv: "BitBuf_inv b" and n: "n \<le> BitBuf_len b"
  shows "\<exists>v b'. read_bits n b = (Ok v, b') \<and> BitBuf_inv b' \<and> bitq b' = drop n (bitq b)
    \<and> msb_bits n v = take n (bitq b) \<and> (\<forall>i\<ge>n. \<not> bit v i)"
proof (cases "n = 0")
  case True
  then show ?thesis using inv by (simp add: read_bits_def msb_bits_def)
next
  case False
  let ?o = "BitBuf_len b - n"
  let ?v = "drop_bit ?o (bb_bits b) AND inverse_popcnt n"
  let ?b = "b\<lparr>bb_bits := bb_bits b AND NOT (push_bit ?o (inverse_popcnt n)),
             bb_len := bb_len b - word_of_nat n\<rparr>"
  have le8: "BitBuf_len b \<le> 8"
    using inv by (simp add: BitBuf_inv_def)
  have len: "BitBuf_len ?b = ?o"
    using read_bits_len [OF n le8] by (simp add: BitBuf_len_def)
  have v: "bit ?v i \<longleftrightarrow> i < n \<and> bit (bb_bits b) (?o + i)" for i
    using n le8 by (auto simp: bit_simps bit_inverse_popcnt)
  have occ: "i < BitBuf_len b" if "bit (bb_bits b) i" for i
    using inv that by (auto simp: BitBuf_inv_def not_less [symmetric])
  have bits: "bit (bb_bits b AND NOT (push_bit ?o (inverse_popcnt n))) i \<longleftrightarrow> i < ?o \<and> bit (bb_bits b) i" for i
    using n occ [of i] by (auto simp: bit_simps bit_inverse_popcnt dest: byte_bit_imp_less)
  have "bitq ?b = drop n (bitq b)"
  proof (rule nth_equalityI)
    show "length (bitq ?b) = length (drop n (bitq b))"
      by (simp add: bitq_def len)
  next
    fix i
    assume "i < length (bitq ?b)"
    then have "i < ?o" by (simp add: bitq_def len)
    then show "bitq ?b ! i = drop n (bitq b) ! i"
      unfolding bitq_def len using n by (auto simp: bits)
  qed
  moreover have "msb_bits n ?v = take n (bitq b)"
  proof (rule nth_equalityI)
    show "length (msb_bits n ?v) = length (take n (bitq b))"
      using n by (simp add: bitq_def)
  next
    fix i
    assume "i < length (msb_bits n ?v)"
    then have "i < n" by simp
    then show "msb_bits n ?v ! i = take n (bitq b) ! i"
      using n by (simp add: bitq_def v)
  qed
  moreover have "BitBuf_inv ?b"
    using le8 n unfolding BitBuf_inv_def len by (auto simp: bits)
  moreover have "read_bits n b = (Ok ?v, ?b)"
    using False n by (simp add: read_bits_def Let_def)
  ultimately show ?thesis using v by (intro exI [of _ ?v] exI [of _ ?b]) auto
qed

lemma msb_bits_inject:
  assumes "msb_bits n v = msb_bits n w" "\<forall>i\<ge>n. \<not> bit v i" "\<forall>i\<ge>n. \<not> bit w i"
  shows "v = w"
proof (rule bit_word_eqI)
  fix i
  show "bit v i \<longleftrightarrow> bit w i"
  proof (cases "i < n")
    case True
    then have "msb_bits n v ! (n - 1 - i) = msb_bits n w ! (n - 1 - i)"
      using assms by simp
    with True show ?thesis by simp
  qed (use assms in auto)
qed

text \<open>A sequence of writes, and the same sequence of reads.\<close>

fun write_all :: "(nat \<times> byte) list \<Rightarrow> (BitBuf, io_error, unit) eff" where
  "write_all [] = ret ()"
| "write_all ((n, v) # fs) = eff_bind (write_bits n v) (\<lambda>_. write_all fs)"

fun read_all :: "nat list \<Rightarrow> (BitBuf, io_error, byte list) eff" where
  "read_all [] = ret []"
| "read_all (n # ns) = eff_bind (read_bits n) (\<lambda>v. eff_bind (read_all ns) (\<lambda>vs. ret (v # vs)))"

lemma write_all_refines:
  assumes "BitBuf_inv b" and "BitBuf_len b + sum_list (map fst fs) \<le> 8"
  shows "\<exists>b'. write_all fs b = (Ok (), b') \<and> BitBuf_inv b'
    \<and> bitq b' = bitq b @ concat (map (\<lambda>(n, v). msb_bits n v) fs)"
  using assms
proof (induction fs arbitrary: b)
  case Nil
  then show ?case by simp
next
  case (Cons f fs)
  obtain n v where f: "f = (n, v)"
    by force
  from Cons.prems f obtain b1 where b1: "write_bits n v b = (Ok (), b1)" "BitBuf_inv b1"
      "bitq b1 = bitq b @ msb_bits n v"
    using write_bits_refines [of b n v] by auto
  have "BitBuf_len b1 = BitBuf_len b + n"
    using arg_cong [OF b1(3), of length] by (simp add: bitq_def)
  with Cons.IH [of b1] b1 Cons.prems f show ?case by auto
qed

lemma read_all_refines:
  assumes "BitBuf_inv b" and "bitq b = concat (map (\<lambda>(n, v). msb_bits n v) fs) @ q"
    and "\<forall>(n, v) \<in> set fs. n \<le> 8"
  shows "\<exists>b'. read_all (map fst fs) b = (Ok (map (\<lambda>(n, v). v AND inverse_popcnt n) fs), b')
    \<and> BitBuf_inv b' \<and> bitq b' = q"
  using assms
proof (induction fs arbitrary: b)
  case Nil
  then show ?case by simp
next
  case (Cons f fs)
  obtain n v where f: "f = (n, v)"
    by force
  let ?rest = "concat (map (\<lambda>(n, v). msb_bits n v) fs) @ q"
  have bq: "bitq b = msb_bits n v @ ?rest"
    using Cons.prems f by simp
  have "BitBuf_len b = length (bitq b)"
    by (simp add: bitq_def)
  then have "n \<le> BitBuf_len b"
    unfolding bq by simp
  then obtain w b1 where b1: "read_bits n b = (Ok w, b1)" "BitBuf_inv b1" "bitq b1 = drop n (bitq b)"
      "msb_bits n w = take n (bitq b)" "\<forall>i\<ge>n. \<not> bit w i"
    using read_bits_refines Cons.prems(1) by blast
  have "msb_bits n (v AND inverse_popcnt n) = msb_bits n v"
    using Cons.prems(3) f by (intro nth_equalityI) (auto simp: bit_simps bit_inverse_popcnt)
  then have w: "w = v AND inverse_popcnt n"
    using b1 bq by (intro msb_bits_inject) (auto simp: bit_simps bit_inverse_popcnt)
  have "bitq b1 = ?rest"
    using b1 bq by simp
  then obtain b' where "read_all (map fst fs) b1 = (Ok (map (\<lambda>(n, v). v AND inverse_popcnt n) fs), b')"
      "BitBuf_inv b'" "bitq b' = q"
    using Cons.IH [of b1] b1 Cons.prems(3) f by auto
  with b1 w f show ?case by simp
qed

section \<open>Properties\<close>

text \<open>A bit buffer is a first-in first-out queue of bits: fields of at most eight bits in all,
  written one after the other into an empty buffer, are read back in the same order, each cut to its
  width, and leave the buffer empty.\<close>

theorem BitBuf_fifo:
  assumes "sum_list (map fst fs) \<le> 8"
  shows "\<exists>b b'. write_all fs BitBuf_new = (Ok (), b) \<and> BitBuf_len b = sum_list (map fst fs)
    \<and> read_all (map fst fs) b = (Ok (map (\<lambda>(n, v). v AND inverse_popcnt n) fs), b') \<and> BitBuf_len b' = 0"
proof -
  have new: "bitq BitBuf_new = []" "BitBuf_len BitBuf_new = 0"
    by (simp_all add: bitq_def BitBuf_new_def BitBuf_len_def msb_bits_def)
  obtain b where b: "write_all fs BitBuf_new = (Ok (), b)" "BitBuf_inv b"
      "bitq b = concat (map (\<lambda>(n, v). msb_bits n v) fs)"
    using write_all_refines [OF BitBuf_new_inv, of fs] assms new by auto
  have len: "BitBuf_len x = length (bitq x)" for x
    by (simp add: bitq_def)
  have "\<forall>(n, v) \<in> set fs. n \<le> 8"
    using assms member_le_sum_list [of _ "map fst fs"] by (fastforce simp: image_iff)
  then obtain b' where "read_all (map fst fs) b = (Ok (map (\<lambda>(n, v). v AND inverse_popcnt n) fs), b')"
      "bitq b' = []"
    using read_all_refines [of b fs "[]"] b by auto
  moreover have "length (bitq b) = sum_list (map fst fs)"
    unfolding b(3) by (simp add: length_concat comp_def case_prod_unfold)
  ultimately show ?thesis
    using b len by auto
qed

theorem BitBuf_fifo_witness:
  "\<exists>b b'. write_all [(3, 5), (4, 9), (1, 255)] BitBuf_new = (Ok (), b) \<and> BitBuf_len b = 8
    \<and> read_all [3, 4, 1] b = (Ok [5, 9, 1], b') \<and> BitBuf_len b' = 0"
  using BitBuf_fifo [of "[(3, 5), (4, 9), (1, 255)]"] by (simp add: inverse_popcnt_def)

text \<open>The error branches of the bit buffer: a read of more bits than it holds and a write of
  more than it has room for report an exhausted buffer and leave it as it was, and these are the only
  errors.\<close>

theorem BitBuf_errors:
  assumes "BitBuf_inv b"
  shows "(fst (read_bits n b) = Err BufferExhausted \<longleftrightarrow> BitBuf_len b < n)
    \<and> (BitBuf_len b < n \<longrightarrow> snd (read_bits n b) = b)
    \<and> (fst (write_bits n v b) = Err BufferExhausted \<longleftrightarrow> 8 - BitBuf_len b < n)
    \<and> (8 - BitBuf_len b < n \<longrightarrow> snd (write_bits n v b) = b)
    \<and> (is_ok (fst (read_bits n b)) \<or> fst (read_bits n b) = Err BufferExhausted)"
  using assms by (auto simp: read_bits_def write_bits_def BitBuf_inv_def Let_def)

theorem BitBuf_errors_witness:
  "fst (read_bits 9 (BitBuf_from_bits 0xab)) = Err BufferExhausted
   \<and> snd (write_bits 1 1 (BitBuf_from_bits 0xab)) = BitBuf_from_bits 0xab"
proof -
  have len: "BitBuf_len (BitBuf_from_bits 0xab) = 8"
    by (simp add: BitBuf_from_bits_def BitBuf_len_def)
  show ?thesis
    using BitBuf_errors [where b = "BitBuf_from_bits 0xab" and n = 9]
      BitBuf_errors [where b = "BitBuf_from_bits 0xab" and n = 1 and v = 1]
      BitBuf_from_bits_inv [of "0xab"] len by simp
qed

end
