(* ===== verification/Wire.thy ===== *)
theory Wire
  imports Wire_Io
begin

text \<open>
  The wire format traits of \<^verbatim>\<open>shared-lib/spiutils/src/protocol/wire.rs\<close>:
  the two error types with their conversions from an I/O error, the generic implementation
  for C-like enums, and the interfaces as locales. \<open>wire_enum\<close> states the two
  identities the trait documents, \<open>wire_codec\<close> that a decoder undoes an encoder, and
  \<open>wire_message\<close> that the writing function produces that encoding; the consequences
  for the cursor and the slice writer are proved here once.
\<close>

section \<open>Errors\<close>

datatype FromWireError = FromIo io_error | OutOfRange

datatype ToWireError = ToIo io_error | InvalidData

definition from_io :: "('s, io_error, 'a) eff \<Rightarrow> ('s, FromWireError, 'a) eff" where
  "from_io = map_err FromIo"

definition to_io :: "('s, io_error, 'a) eff \<Rightarrow> ('s, ToWireError, 'a) eff" where
  "to_io = map_err ToIo"

lemma from_io_Ok [simp, wire_simps]: "m s = (Ok a, s') \<Longrightarrow> from_io m s = (Ok a, s')"
  by (simp add: from_io_def)

lemma from_io_Err [simp, wire_simps]: "m s = (Err e, s') \<Longrightarrow> from_io m s = (Err (FromIo e), s')"
  by (simp add: from_io_def)

lemma from_io_Ok_iff: "from_io m s = (Ok a, t) \<longleftrightarrow> m s = (Ok a, t)"
  by (simp add: from_io_def map_err_Ok_iff)

lemma to_io_Ok_iff: "to_io m s = (Ok a, t) \<longleftrightarrow> m s = (Ok a, t)"
  by (simp add: to_io_def map_err_Ok_iff)

lemma to_io_ret [wire_simps]: "to_io (ret a) = ret a"
  by (rule ext) (simp add: to_io_def)

lemma to_io_bind [wire_simps]: "to_io (eff_bind m f) = eff_bind (to_io m) (\<lambda>a. to_io (f a))"
  by (rule ext) (simp add: to_io_def map_err_def eff_bind_def split: prod.split outcome.split)

text \<open>A message of no bytes still returns; a chain of writes is a sequence of chunks.\<close>

lemma eff_bind_unit_ret [simp]: "eff_bind m (\<lambda>_. ret ()) = (m :: ('s, 'e, unit) eff)"
  by (rule ext) (simp add: eff_bind_def split: prod.split outcome.split)

lemma eff_bind_unit_ret2 [simp]: "eff_bind m ret = m"
  by (rule ext) (simp add: eff_bind_def split: prod.split outcome.split)

section \<open>Enums on the wire\<close>

definition WireEnum_from_wire ::
    "(reader, io_error, 'v) eff \<Rightarrow> ('v \<Rightarrow> 'e option) \<Rightarrow> (reader, FromWireError, 'e) eff" where
  "WireEnum_from_wire read_from from_wire_value =
     eff_bind (from_io read_from) (\<lambda>wire. ok_or (from_wire_value wire) OutOfRange)"

definition WireEnum_to_wire ::
    "('v \<Rightarrow> ('w, io_error, unit) eff) \<Rightarrow> ('e \<Rightarrow> 'v) \<Rightarrow> 'e \<Rightarrow> ('w, ToWireError, unit) eff" where
  "WireEnum_to_wire write_to to_wire_value x =
     eff_bind (to_io (write_to (to_wire_value x))) (\<lambda>_. ret ())"

datatype WireEnumFromStrError = WireEnumFromStrError

definition WireEnum_from_str :: "(string \<Rightarrow> 'e option) \<Rightarrow> string \<Rightarrow> (WireEnumFromStrError, 'e) outcome" where
  "WireEnum_from_str from_name s = (case from_name s of Some v \<Rightarrow> Ok v | None \<Rightarrow> Err WireEnumFromStrError)"

text \<open>
  The contract of an enum on the wire: the two identities of the trait's documentation, and
  that nothing else is accepted.
\<close>

locale wire_enum =
  fixes to_wire_value :: "'e \<Rightarrow> 'v"
    and from_wire_value :: "'v \<Rightarrow> 'e option"
    and enum_name :: "'e \<Rightarrow> string"
    and from_name :: "string \<Rightarrow> 'e option"
  assumes wire_identity: "from_wire_value (to_wire_value x) = Some x"
    and wire_exact: "from_wire_value v = Some x \<Longrightarrow> v = to_wire_value x"
    and name_identity: "from_name (enum_name x) = Some x"
    and name_exact: "from_name s = Some x \<Longrightarrow> s = enum_name x"
begin

lemma to_wire_value_inject: "to_wire_value x = to_wire_value y \<longleftrightarrow> x = y"
  by (metis option.inject wire_identity)

lemma from_wire_value_iff: "from_wire_value v = Some x \<longleftrightarrow> v = to_wire_value x"
  using wire_identity wire_exact by blast

lemma enum_name_inject: "enum_name x = enum_name y \<longleftrightarrow> x = y"
  by (metis option.inject name_identity)

lemma from_str_enum_name: "WireEnum_from_str from_name (enum_name x) = Ok x"
  by (simp add: WireEnum_from_str_def name_identity)

lemma from_str_Err_iff: "WireEnum_from_str from_name s = Err WireEnumFromStrError \<longleftrightarrow> s \<notin> range enum_name"
  using name_identity name_exact by (auto simp: WireEnum_from_str_def split: option.splits)

lemma enum_read:
  assumes "read_from s = (Ok v, r)"
  shows "WireEnum_from_wire read_from from_wire_value s =
    (case from_wire_value v of Some x \<Rightarrow> (Ok x, r) | None \<Rightarrow> (Err OutOfRange, r))"
  using assms by (simp add: WireEnum_from_wire_def split: option.split)

end

section \<open>Codecs and messages\<close>

text \<open>
  What a message of \<open>len\<close> bytes promises of an empty cursor over \<open>buf\<close>:
  if the buffer is long enough, writing succeeds with exactly \<open>len\<close> bytes, and
  reading those bytes, whatever follows them, gives the message back; if it is not, writing
  reports an exhausted buffer.
\<close>

definition cursor_roundtrips ::
    "(reader, FromWireError, 'a) eff \<Rightarrow> ('a \<Rightarrow> (Cursor, ToWireError, unit) eff) \<Rightarrow> nat \<Rightarrow> byte list \<Rightarrow> 'a \<Rightarrow> bool" where
  "cursor_roundtrips from_wire to_wire len buf x \<longleftrightarrow>
     (if len \<le> length buf
      then \<exists>c. to_wire x (Cursor_new buf) = (Ok (), c) \<and> Cursor_consumed_len c = len
             \<and> (\<forall>r. from_wire (Cursor_consumed_bytes c @ r) = (Ok x, r))
      else fst (to_wire x (Cursor_new buf)) = Err (ToIo BufferExhausted))"

text \<open>
  \<open>enc x\<close> is the list of byte strings the writing function of \<open>x\<close>
  emits, in order; \<open>valid\<close> are the values it accepts.
\<close>

locale wire_codec =
  fixes valid :: "'a \<Rightarrow> bool"
    and enc :: "'a \<Rightarrow> byte list list"
    and from_wire :: "(reader, FromWireError, 'a) eff"
  assumes dec_enc: "valid x \<Longrightarrow> from_wire (concat (enc x) @ r) = (Ok x, r)"
begin

lemma enc_prefix_free:
  assumes "valid x" "valid y" "concat (enc x) @ r = concat (enc y) @ s"
  shows "x = y \<and> r = s"
proof -
  have "(Ok x :: (FromWireError, 'a) outcome, r) = (Ok y, s)"
    using dec_enc [OF assms(1), of r] dec_enc [OF assms(2), of s] unfolding assms(3) by (rule trans [OF sym])
  then show ?thesis by simp
qed

end

locale wire_codec_exact = wire_codec +
  assumes enc_dec: "from_wire s = (Ok x, r) \<Longrightarrow> valid x \<and> s = concat (enc x) @ r"
begin

lemma from_wire_Ok_iff: "from_wire s = (Ok x, r) \<longleftrightarrow> valid x \<and> s = concat (enc x) @ r"
proof
  assume "from_wire s = (Ok x, r)"
  then show "valid x \<and> s = concat (enc x) @ r" by (rule enc_dec)
next
  assume "valid x \<and> s = concat (enc x) @ r"
  then show "from_wire s = (Ok x, r)" using dec_enc [of x r] by simp
qed

end

locale wire_message = wire_codec +
  fixes to_wire_cursor :: "'a \<Rightarrow> (Cursor, ToWireError, unit) eff"
    and to_wire_slice :: "'a \<Rightarrow> (slice_writer, ToWireError, unit) eff"
  assumes cursor_seq: "valid x \<Longrightarrow> to_wire_cursor x = to_io (write_seq Cursor_write_bytes (enc x))"
    and slice_seq: "valid x \<Longrightarrow> to_wire_slice x = to_io (write_seq slice_write_bytes (enc x))"
begin

lemma cursor_fits:
  assumes "valid x" "Cursor_inv c" "length (concat (enc x)) \<le> length (cur_buf c) - cursor c"
  shows "\<exists>c'. to_wire_cursor x c = (Ok (), c') \<and> Cursor_inv c'
    \<and> Cursor_consumed_bytes c' = Cursor_consumed_bytes c @ concat (enc x)"
  using cursor_w.write_seq_fits [OF assms(2), of "enc x"] assms cursor_seq [OF assms(1)]
  by (auto simp: to_io_Ok_iff)

lemma cursor_roundtrip:
  assumes "valid x" "length buf \<le> usize_max" "length (concat (enc x)) \<le> length buf"
  shows "\<exists>c. to_wire_cursor x (Cursor_new buf) = (Ok (), c)
    \<and> Cursor_consumed_bytes c = concat (enc x) \<and> from_wire (Cursor_consumed_bytes c @ r) = (Ok x, r)"
  using cursor_fits [of x "Cursor_new buf"] assms dec_enc by auto

lemma cursor_short:
  assumes "valid x" "length buf \<le> usize_max" "length buf < length (concat (enc x))"
  shows "fst (to_wire_cursor x (Cursor_new buf)) = Err (ToIo BufferExhausted)"
  using cursor_w.write_seq_full [of "Cursor_new buf" "enc x"] assms cursor_seq [OF assms(1)]
  by (auto simp: to_io_def)

lemma cursor_roundtrips:
  assumes "valid x" "length buf \<le> usize_max" "length (concat (enc x)) = len"
  shows "cursor_roundtrips from_wire to_wire_cursor len buf x"
proof (cases "len \<le> length buf")
  case True
  with cursor_fits [of x "Cursor_new buf"] assms obtain c where
    "to_wire_cursor x (Cursor_new buf) = (Ok (), c)" "Cursor_inv c" "Cursor_consumed_bytes c = concat (enc x)"
    by auto
  moreover from this(2,3) have "Cursor_consumed_len c = len"
    using assms(3) by (metis consumed_len_bytes)
  ultimately show ?thesis
    using True dec_enc [OF assms(1)] by (auto simp: cursor_roundtrips_def)
next
  case False
  then show ?thesis
    using cursor_short [of x buf] assms by (simp add: cursor_roundtrips_def)
qed

lemma slice_roundtrip:
  assumes "valid x" "length (concat (enc x)) \<le> length buf"
  shows "\<exists>w. to_wire_slice x \<lparr>sw_done = [], sw_rest = buf\<rparr> = (Ok (), w)
    \<and> sw_done w = concat (enc x) \<and> from_wire (sw_done w @ r) = (Ok x, r)"
  using slice_w.write_seq_fits [where w = "\<lparr>sw_done = [], sw_rest = buf\<rparr>" and cs = "enc x"] assms
    slice_seq [OF assms(1)] dec_enc [OF assms(1)] by (auto simp: to_io_Ok_iff)

end

lemmas to_wire_seq_simps = to_io_bind to_io_ret

lemmas codec_iffs = eff_bind_Ok_iff from_io_Ok_iff ok_or_Ok_iff ret_Ok_iff read_Ok_iffs

end
