(* ===== verification/Firmware_Protocol.thy ===== *)
theory Firmware_Protocol
  imports Wire
begin

text \<open>
  The firmware update protocol: \<^verbatim>\<open>protocol/firmware.rs\<close>,
  \<^verbatim>\<open>driver/firmware.rs\<close> and \<^verbatim>\<open>compat/firmware.rs\<close> of
  \<^verbatim>\<open>shared-lib/spiutils/src\<close>. Each type has its record, its reader and its
  writer, in the order of the source; the encoding \<open>_enc\<close>, the list of byte strings
  the writer emits, is the specification the two are proved against through the locales
  \<open>wire_codec_exact\<close> and \<open>wire_message\<close>.
\<close>

section \<open>Content type and header\<close>

datatype fw_ContentType =
    UpdatePrepareRequest_T
  | UpdatePrepareResponse_T
  | WriteChunkRequest_T
  | WriteChunkResponse_T
  | InactiveSegmentsInfoRequest_T
  | InactiveSegmentsInfoResponse_T
  | RebootRequest_T
  | RebootResponse_T

fun fw_ContentType_to_wire_value :: "fw_ContentType \<Rightarrow> byte" where
  "fw_ContentType_to_wire_value UpdatePrepareRequest_T = 0x01"
| "fw_ContentType_to_wire_value UpdatePrepareResponse_T = 0x02"
| "fw_ContentType_to_wire_value WriteChunkRequest_T = 0x03"
| "fw_ContentType_to_wire_value WriteChunkResponse_T = 0x04"
| "fw_ContentType_to_wire_value InactiveSegmentsInfoRequest_T = 0x05"
| "fw_ContentType_to_wire_value InactiveSegmentsInfoResponse_T = 0x06"
| "fw_ContentType_to_wire_value RebootRequest_T = 0x07"
| "fw_ContentType_to_wire_value RebootResponse_T = 0x08"

definition fw_ContentType_from_wire_value :: "byte \<Rightarrow> fw_ContentType option" where
  "fw_ContentType_from_wire_value w =
     (if w = 0x01 then Some UpdatePrepareRequest_T
      else if w = 0x02 then Some UpdatePrepareResponse_T
      else if w = 0x03 then Some WriteChunkRequest_T
      else if w = 0x04 then Some WriteChunkResponse_T
      else if w = 0x05 then Some InactiveSegmentsInfoRequest_T
      else if w = 0x06 then Some InactiveSegmentsInfoResponse_T
      else if w = 0x07 then Some RebootRequest_T
      else if w = 0x08 then Some RebootResponse_T
      else None)"

fun fw_ContentType_name :: "fw_ContentType \<Rightarrow> string" where
  "fw_ContentType_name UpdatePrepareRequest_T = ''UpdatePrepareRequest''"
| "fw_ContentType_name UpdatePrepareResponse_T = ''UpdatePrepareResponse''"
| "fw_ContentType_name WriteChunkRequest_T = ''WriteChunkRequest''"
| "fw_ContentType_name WriteChunkResponse_T = ''WriteChunkResponse''"
| "fw_ContentType_name InactiveSegmentsInfoRequest_T = ''InactiveSegmentsInfoRequest''"
| "fw_ContentType_name InactiveSegmentsInfoResponse_T = ''InactiveSegmentsInfoResponse''"
| "fw_ContentType_name RebootRequest_T = ''RebootRequest''"
| "fw_ContentType_name RebootResponse_T = ''RebootResponse''"

definition fw_ContentType_from_name :: "string \<Rightarrow> fw_ContentType option" where
  "fw_ContentType_from_name s =
     (if s = ''UpdatePrepareRequest'' then Some UpdatePrepareRequest_T
      else if s = ''UpdatePrepareResponse'' then Some UpdatePrepareResponse_T
      else if s = ''WriteChunkRequest'' then Some WriteChunkRequest_T
      else if s = ''WriteChunkResponse'' then Some WriteChunkResponse_T
      else if s = ''InactiveSegmentsInfoRequest'' then Some InactiveSegmentsInfoRequest_T
      else if s = ''InactiveSegmentsInfoResponse'' then Some InactiveSegmentsInfoResponse_T
      else if s = ''RebootRequest'' then Some RebootRequest_T
      else if s = ''RebootResponse'' then Some RebootResponse_T
      else None)"

interpretation fw_ct: wire_enum fw_ContentType_to_wire_value fw_ContentType_from_wire_value
  fw_ContentType_name fw_ContentType_from_name
proof
  fix x v s
  show "fw_ContentType_from_wire_value (fw_ContentType_to_wire_value x) = Some x"
    by (cases x) (simp_all add: fw_ContentType_from_wire_value_def)
  show "fw_ContentType_from_wire_value v = Some x \<Longrightarrow> v = fw_ContentType_to_wire_value x"
    by (auto simp: fw_ContentType_from_wire_value_def split: if_splits)
  show "fw_ContentType_from_name (fw_ContentType_name x) = Some x"
    by (cases x) (simp_all add: fw_ContentType_from_name_def)
  show "fw_ContentType_from_name s = Some x \<Longrightarrow> s = fw_ContentType_name x"
    by (auto simp: fw_ContentType_from_name_def split: if_splits)
qed

record fw_Header =
  fw_content :: fw_ContentType

definition fw_HEADER_LEN :: nat where
  "fw_HEADER_LEN = 1"

definition fw_Header_from_wire :: "(reader, FromWireError, fw_Header) eff" where
  "fw_Header_from_wire =
     eff_bind (from_io read_be_u8) (\<lambda>content_u8.
     eff_bind (ok_or (fw_ContentType_from_wire_value content_u8) OutOfRange) (\<lambda>content.
     ret \<lparr>fw_content = content\<rparr>))"

definition fw_Header_to_wire :: "'w write_op \<Rightarrow> fw_Header \<Rightarrow> ('w, ToWireError, unit) eff" where
  "fw_Header_to_wire wb x =
     eff_bind (to_io (write_be_u8 wb (fw_ContentType_to_wire_value (fw_content x)))) (\<lambda>_.
     ret ())"

definition fw_Header_enc :: "fw_Header \<Rightarrow> byte list list" where
  "fw_Header_enc x = [[fw_ContentType_to_wire_value (fw_content x)]]"

lemma fw_Header_to_wire_seq: "fw_Header_to_wire wb x = to_io (write_seq wb (fw_Header_enc x))"
  by (simp add: fw_Header_to_wire_def fw_Header_enc_def write_be_u8_def to_wire_seq_simps)

interpretation fw_hdr: wire_codec_exact "\<lambda>_. True" fw_Header_enc fw_Header_from_wire
  by unfold_locales
    (auto simp: fw_Header_from_wire_def fw_Header_enc_def fw_ct.wire_identity fw_ct.from_wire_value_iff codec_iffs)

interpretation fw_hdr_m: wire_message "\<lambda>_. True" fw_Header_enc fw_Header_from_wire
  "fw_Header_to_wire Cursor_write_bytes" "fw_Header_to_wire slice_write_bytes"
  by unfold_locales (simp_all add: fw_Header_to_wire_seq)

section \<open>Segments\<close>

datatype SegmentAndLocation =
    Unknown
  | RoA
  | RoB
  | RwA
  | RwB

fun SegmentAndLocation_to_wire_value :: "SegmentAndLocation \<Rightarrow> byte" where
  "SegmentAndLocation_to_wire_value Unknown = 0xff"
| "SegmentAndLocation_to_wire_value RoA = 0x01"
| "SegmentAndLocation_to_wire_value RoB = 0x02"
| "SegmentAndLocation_to_wire_value RwA = 0x03"
| "SegmentAndLocation_to_wire_value RwB = 0x04"

definition SegmentAndLocation_from_wire_value :: "byte \<Rightarrow> SegmentAndLocation option" where
  "SegmentAndLocation_from_wire_value w =
     (if w = 0xff then Some Unknown
      else if w = 0x01 then Some RoA
      else if w = 0x02 then Some RoB
      else if w = 0x03 then Some RwA
      else if w = 0x04 then Some RwB
      else None)"

fun SegmentAndLocation_name :: "SegmentAndLocation \<Rightarrow> string" where
  "SegmentAndLocation_name Unknown = ''Unknown''"
| "SegmentAndLocation_name RoA = ''RoA''"
| "SegmentAndLocation_name RoB = ''RoB''"
| "SegmentAndLocation_name RwA = ''RwA''"
| "SegmentAndLocation_name RwB = ''RwB''"

definition SegmentAndLocation_from_name :: "string \<Rightarrow> SegmentAndLocation option" where
  "SegmentAndLocation_from_name s =
     (if s = ''Unknown'' then Some Unknown
      else if s = ''RoA'' then Some RoA
      else if s = ''RoB'' then Some RoB
      else if s = ''RwA'' then Some RwA
      else if s = ''RwB'' then Some RwB
      else None)"

interpretation sal: wire_enum SegmentAndLocation_to_wire_value SegmentAndLocation_from_wire_value
  SegmentAndLocation_name SegmentAndLocation_from_name
proof
  fix x v s
  show "SegmentAndLocation_from_wire_value (SegmentAndLocation_to_wire_value x) = Some x"
    by (cases x) (simp_all add: SegmentAndLocation_from_wire_value_def)
  show "SegmentAndLocation_from_wire_value v = Some x \<Longrightarrow> v = SegmentAndLocation_to_wire_value x"
    by (auto simp: SegmentAndLocation_from_wire_value_def split: if_splits)
  show "SegmentAndLocation_from_name (SegmentAndLocation_name x) = Some x"
    by (cases x) (simp_all add: SegmentAndLocation_from_name_def)
  show "SegmentAndLocation_from_name s = Some x \<Longrightarrow> s = SegmentAndLocation_name x"
    by (auto simp: SegmentAndLocation_from_name_def split: if_splits)
qed

text \<open>\<^verbatim>\<open>mem::size_of\<close> of \<^verbatim>\<open>u8\<close> plus four \<^verbatim>\<open>u32\<close>.\<close>

record SegmentInfo =
  seg_identifier :: SegmentAndLocation
  seg_address :: u32
  seg_size :: u32
  seg_start_page :: u32
  seg_page_count :: u32

definition SEGMENT_INFO_LEN :: nat where
  "SEGMENT_INFO_LEN = 1 + 4 * 4"

definition SegmentInfo_from_wire :: "(reader, FromWireError, SegmentInfo) eff" where
  "SegmentInfo_from_wire =
     eff_bind (from_io read_be_u8) (\<lambda>sal_u8.
     eff_bind (ok_or (SegmentAndLocation_from_wire_value sal_u8) OutOfRange) (\<lambda>identifier_v.
     eff_bind (from_io read_be_u32) (\<lambda>address_v.
     eff_bind (from_io read_be_u32) (\<lambda>size_v.
     eff_bind (from_io read_be_u32) (\<lambda>start_page_v.
     eff_bind (from_io read_be_u32) (\<lambda>page_count_v.
     ret \<lparr>seg_identifier = identifier_v, seg_address = address_v, seg_size = size_v, seg_start_page = start_page_v, seg_page_count = page_count_v\<rparr>))))))"

definition SegmentInfo_to_wire :: "'w write_op \<Rightarrow> SegmentInfo \<Rightarrow> ('w, ToWireError, unit) eff" where
  "SegmentInfo_to_wire wb x =
     eff_bind (to_io (write_be_u8 wb (SegmentAndLocation_to_wire_value (seg_identifier x)))) (\<lambda>_.
     eff_bind (to_io (write_be_u32 wb (seg_address x))) (\<lambda>_.
     eff_bind (to_io (write_be_u32 wb (seg_size x))) (\<lambda>_.
     eff_bind (to_io (write_be_u32 wb (seg_start_page x))) (\<lambda>_.
     eff_bind (to_io (write_be_u32 wb (seg_page_count x))) (\<lambda>_.
     ret ())))))"

definition SegmentInfo_enc :: "SegmentInfo \<Rightarrow> byte list list" where
  "SegmentInfo_enc x = [[SegmentAndLocation_to_wire_value (seg_identifier x)]] @ [be_bytes 4 (unat (seg_address x))] @ [be_bytes 4 (unat (seg_size x))] @ [be_bytes 4 (unat (seg_start_page x))] @ [be_bytes 4 (unat (seg_page_count x))]"

lemma SegmentInfo_to_wire_seq: "SegmentInfo_to_wire wb x = to_io (write_seq wb (SegmentInfo_enc x))"
  by (simp add: SegmentInfo_to_wire_def SegmentInfo_enc_def write_be_u32_def write_be_u8_def to_wire_seq_simps)

interpretation seg: wire_codec_exact "\<lambda>_. True" SegmentInfo_enc SegmentInfo_from_wire
  by unfold_locales
    (auto simp: SegmentInfo_from_wire_def SegmentInfo_enc_def sal.wire_identity sal.from_wire_value_iff codec_iffs)

interpretation seg_m: wire_message "\<lambda>_. True" SegmentInfo_enc SegmentInfo_from_wire
  "SegmentInfo_to_wire Cursor_write_bytes" "SegmentInfo_to_wire slice_write_bytes"
  by unfold_locales (simp_all add: SegmentInfo_to_wire_seq)

definition UNKNOWN_SEGMENT :: SegmentInfo where
  "UNKNOWN_SEGMENT = \<lparr>seg_identifier = Unknown, seg_address = 0, seg_size = 0, seg_start_page = 0, seg_page_count = 0\<rparr>"

record RuntimeSegmentInfo =
  active_ro :: SegmentInfo
  active_rw :: SegmentInfo
  inactive_ro :: SegmentInfo
  inactive_rw :: SegmentInfo

definition RUNTIME_SEGMENT_INFO_LEN :: nat where
  "RUNTIME_SEGMENT_INFO_LEN = 4 * SEGMENT_INFO_LEN"

definition RuntimeSegmentInfo_from_wire :: "(reader, FromWireError, RuntimeSegmentInfo) eff" where
  "RuntimeSegmentInfo_from_wire =
     eff_bind SegmentInfo_from_wire (\<lambda>active_ro_v.
     eff_bind SegmentInfo_from_wire (\<lambda>active_rw_v.
     eff_bind SegmentInfo_from_wire (\<lambda>inactive_ro_v.
     eff_bind SegmentInfo_from_wire (\<lambda>inactive_rw_v.
     ret \<lparr>active_ro = active_ro_v, active_rw = active_rw_v, inactive_ro = inactive_ro_v, inactive_rw = inactive_rw_v\<rparr>))))"

definition RuntimeSegmentInfo_to_wire :: "'w write_op \<Rightarrow> RuntimeSegmentInfo \<Rightarrow> ('w, ToWireError, unit) eff" where
  "RuntimeSegmentInfo_to_wire wb x =
     eff_bind (SegmentInfo_to_wire wb (active_ro x)) (\<lambda>_.
     eff_bind (SegmentInfo_to_wire wb (active_rw x)) (\<lambda>_.
     eff_bind (SegmentInfo_to_wire wb (inactive_ro x)) (\<lambda>_.
     eff_bind (SegmentInfo_to_wire wb (inactive_rw x)) (\<lambda>_.
     ret ()))))"

definition RuntimeSegmentInfo_enc :: "RuntimeSegmentInfo \<Rightarrow> byte list list" where
  "RuntimeSegmentInfo_enc x = SegmentInfo_enc (active_ro x) @ SegmentInfo_enc (active_rw x) @ SegmentInfo_enc (inactive_ro x) @ SegmentInfo_enc (inactive_rw x)"

lemma RuntimeSegmentInfo_to_wire_seq: "RuntimeSegmentInfo_to_wire wb x = to_io (write_seq wb (RuntimeSegmentInfo_enc x))"
  by (simp add: RuntimeSegmentInfo_to_wire_def RuntimeSegmentInfo_enc_def SegmentInfo_to_wire_seq write_seq_append to_wire_seq_simps)

interpretation rsi: wire_codec_exact "\<lambda>_. True" RuntimeSegmentInfo_enc RuntimeSegmentInfo_from_wire
  by unfold_locales
    (auto simp: RuntimeSegmentInfo_from_wire_def RuntimeSegmentInfo_enc_def seg.from_wire_Ok_iff codec_iffs seg.dec_enc)

interpretation rsi_m: wire_message "\<lambda>_. True" RuntimeSegmentInfo_enc RuntimeSegmentInfo_from_wire
  "RuntimeSegmentInfo_to_wire Cursor_write_bytes" "RuntimeSegmentInfo_to_wire slice_write_bytes"
  by unfold_locales (simp_all add: RuntimeSegmentInfo_to_wire_seq)

definition UNKNOWN_RUNTIME_SEGMENT_INFO :: RuntimeSegmentInfo where
  "UNKNOWN_RUNTIME_SEGMENT_INFO =
     \<lparr>active_ro = UNKNOWN_SEGMENT, active_rw = UNKNOWN_SEGMENT,
      inactive_ro = UNKNOWN_SEGMENT, inactive_rw = UNKNOWN_SEGMENT\<rparr>"

section \<open>Inactive segments\<close>

text \<open>The request carries no fields: a message of no bytes.\<close>

datatype InactiveSegmentsInfoRequest = InactiveSegmentsInfoRequest

definition INACTIVE_SEGMENTS_INFO_REQUEST_LEN :: nat where
  "INACTIVE_SEGMENTS_INFO_REQUEST_LEN = 0"

definition InactiveSegmentsInfoRequest_from_wire :: "(reader, FromWireError, InactiveSegmentsInfoRequest) eff" where
  "InactiveSegmentsInfoRequest_from_wire = ret InactiveSegmentsInfoRequest"

definition InactiveSegmentsInfoRequest_to_wire ::
    "'w write_op \<Rightarrow> InactiveSegmentsInfoRequest \<Rightarrow> ('w, ToWireError, unit) eff" where
  "InactiveSegmentsInfoRequest_to_wire wb x = ret ()"

record InactiveSegmentsInfoResponse =
  isr_ro :: SegmentInfo
  isr_rw :: SegmentInfo

definition INACTIVE_SEGMENTS_INFO_RESPONSE_LEN :: nat where
  "INACTIVE_SEGMENTS_INFO_RESPONSE_LEN = 2 * SEGMENT_INFO_LEN"

definition InactiveSegmentsInfoResponse_from_wire :: "(reader, FromWireError, InactiveSegmentsInfoResponse) eff" where
  "InactiveSegmentsInfoResponse_from_wire =
     eff_bind SegmentInfo_from_wire (\<lambda>ro.
     eff_bind SegmentInfo_from_wire (\<lambda>rw.
     ret \<lparr>isr_ro = ro, isr_rw = rw\<rparr>))"

definition InactiveSegmentsInfoResponse_to_wire :: "'w write_op \<Rightarrow> InactiveSegmentsInfoResponse \<Rightarrow> ('w, ToWireError, unit) eff" where
  "InactiveSegmentsInfoResponse_to_wire wb x =
     eff_bind (SegmentInfo_to_wire wb (isr_ro x)) (\<lambda>_.
     eff_bind (SegmentInfo_to_wire wb (isr_rw x)) (\<lambda>_.
     ret ()))"

definition InactiveSegmentsInfoResponse_enc :: "InactiveSegmentsInfoResponse \<Rightarrow> byte list list" where
  "InactiveSegmentsInfoResponse_enc x = SegmentInfo_enc (isr_ro x) @ SegmentInfo_enc (isr_rw x)"

lemma InactiveSegmentsInfoResponse_to_wire_seq: "InactiveSegmentsInfoResponse_to_wire wb x = to_io (write_seq wb (InactiveSegmentsInfoResponse_enc x))"
  by (simp add: InactiveSegmentsInfoResponse_to_wire_def InactiveSegmentsInfoResponse_enc_def SegmentInfo_to_wire_seq write_seq_append to_wire_seq_simps)

interpretation isr: wire_codec_exact "\<lambda>_. True" InactiveSegmentsInfoResponse_enc InactiveSegmentsInfoResponse_from_wire
  by unfold_locales
    (auto simp: InactiveSegmentsInfoResponse_from_wire_def InactiveSegmentsInfoResponse_enc_def seg.from_wire_Ok_iff codec_iffs seg.dec_enc)

interpretation isr_m: wire_message "\<lambda>_. True" InactiveSegmentsInfoResponse_enc InactiveSegmentsInfoResponse_from_wire
  "InactiveSegmentsInfoResponse_to_wire Cursor_write_bytes" "InactiveSegmentsInfoResponse_to_wire slice_write_bytes"
  by unfold_locales (simp_all add: InactiveSegmentsInfoResponse_to_wire_seq)

section \<open>Build information\<close>

record BuildInfo =
  epoch :: u32
  major :: u32
  minor :: u32
  timestamp :: u64

definition BUILD_INFO_OFFSET :: nat where
  "BUILD_INFO_OFFSET = 860"

definition BUILD_INFO_LEN :: nat where
  "BUILD_INFO_LEN = 3 * 4 + 8"

definition BuildInfo_from_wire :: "(reader, FromWireError, BuildInfo) eff" where
  "BuildInfo_from_wire =
     eff_bind (from_io read_le_u32) (\<lambda>epoch_v.
     eff_bind (from_io read_le_u32) (\<lambda>major_v.
     eff_bind (from_io read_le_u32) (\<lambda>minor_v.
     eff_bind (from_io read_le_u64) (\<lambda>timestamp_v.
     ret \<lparr>epoch = epoch_v, major = major_v, minor = minor_v, timestamp = timestamp_v\<rparr>))))"

definition BuildInfo_to_wire :: "'w write_op \<Rightarrow> BuildInfo \<Rightarrow> ('w, ToWireError, unit) eff" where
  "BuildInfo_to_wire wb x =
     eff_bind (to_io (write_le_u32 wb (epoch x))) (\<lambda>_.
     eff_bind (to_io (write_le_u32 wb (major x))) (\<lambda>_.
     eff_bind (to_io (write_le_u32 wb (minor x))) (\<lambda>_.
     eff_bind (to_io (write_le_u64 wb (timestamp x))) (\<lambda>_.
     ret ()))))"

definition BuildInfo_enc :: "BuildInfo \<Rightarrow> byte list list" where
  "BuildInfo_enc x = [le_bytes 4 (unat (epoch x))] @ [le_bytes 4 (unat (major x))] @ [le_bytes 4 (unat (minor x))] @ [le_bytes 8 (unat (timestamp x))]"

lemma BuildInfo_to_wire_seq: "BuildInfo_to_wire wb x = to_io (write_seq wb (BuildInfo_enc x))"
  by (simp add: BuildInfo_to_wire_def BuildInfo_enc_def write_le_u32_def write_le_u64_def to_wire_seq_simps)

interpretation bi: wire_codec_exact "\<lambda>_. True" BuildInfo_enc BuildInfo_from_wire
  by unfold_locales
    (auto simp: BuildInfo_from_wire_def BuildInfo_enc_def codec_iffs)

interpretation bi_m: wire_message "\<lambda>_. True" BuildInfo_enc BuildInfo_from_wire
  "BuildInfo_to_wire Cursor_write_bytes" "BuildInfo_to_wire slice_write_bytes"
  by unfold_locales (simp_all add: BuildInfo_to_wire_seq)

record FirmwareInfo =
  fi_segment_and_location :: SegmentAndLocation
  fi_build_info :: BuildInfo

definition FIRMWARE_INFO_LEN :: nat where
  "FIRMWARE_INFO_LEN = 1 + BUILD_INFO_LEN"

definition FirmwareInfo_from_wire :: "(reader, FromWireError, FirmwareInfo) eff" where
  "FirmwareInfo_from_wire =
     eff_bind (from_io read_be_u8) (\<lambda>sal_u8.
     eff_bind (ok_or (SegmentAndLocation_from_wire_value sal_u8) OutOfRange) (\<lambda>segment_and_location.
     eff_bind BuildInfo_from_wire (\<lambda>build_info.
     ret \<lparr>fi_segment_and_location = segment_and_location, fi_build_info = build_info\<rparr>)))"

definition FirmwareInfo_to_wire :: "'w write_op \<Rightarrow> FirmwareInfo \<Rightarrow> ('w, ToWireError, unit) eff" where
  "FirmwareInfo_to_wire wb x =
     eff_bind (to_io (write_be_u8 wb (SegmentAndLocation_to_wire_value (fi_segment_and_location x)))) (\<lambda>_.
     eff_bind (BuildInfo_to_wire wb (fi_build_info x)) (\<lambda>_.
     ret ()))"

definition FirmwareInfo_enc :: "FirmwareInfo \<Rightarrow> byte list list" where
  "FirmwareInfo_enc x = [[SegmentAndLocation_to_wire_value (fi_segment_and_location x)]] @ BuildInfo_enc (fi_build_info x)"

lemma FirmwareInfo_to_wire_seq: "FirmwareInfo_to_wire wb x = to_io (write_seq wb (FirmwareInfo_enc x))"
  by (simp add: FirmwareInfo_to_wire_def FirmwareInfo_enc_def write_be_u8_def BuildInfo_to_wire_seq write_seq_append to_wire_seq_simps)

interpretation fi: wire_codec_exact "\<lambda>_. True" FirmwareInfo_enc FirmwareInfo_from_wire
  by unfold_locales
    (auto simp: FirmwareInfo_from_wire_def FirmwareInfo_enc_def sal.wire_identity sal.from_wire_value_iff bi.from_wire_Ok_iff codec_iffs bi.dec_enc)

interpretation fi_m: wire_message "\<lambda>_. True" FirmwareInfo_enc FirmwareInfo_from_wire
  "FirmwareInfo_to_wire Cursor_write_bytes" "FirmwareInfo_to_wire slice_write_bytes"
  by unfold_locales (simp_all add: FirmwareInfo_to_wire_seq)

section \<open>Preparing an update\<close>

record UpdatePrepareRequest =
  upq_segment_and_location :: SegmentAndLocation

definition UPDATE_PREPARE_REQUEST_LEN :: nat where
  "UPDATE_PREPARE_REQUEST_LEN = 1"

definition UpdatePrepareRequest_from_wire :: "(reader, FromWireError, UpdatePrepareRequest) eff" where
  "UpdatePrepareRequest_from_wire =
     eff_bind (from_io read_be_u8) (\<lambda>sal_u8.
     eff_bind (ok_or (SegmentAndLocation_from_wire_value sal_u8) OutOfRange) (\<lambda>segment_and_location.
     ret \<lparr>upq_segment_and_location = segment_and_location\<rparr>))"

definition UpdatePrepareRequest_to_wire :: "'w write_op \<Rightarrow> UpdatePrepareRequest \<Rightarrow> ('w, ToWireError, unit) eff" where
  "UpdatePrepareRequest_to_wire wb x =
     eff_bind (to_io (write_be_u8 wb (SegmentAndLocation_to_wire_value (upq_segment_and_location x)))) (\<lambda>_.
     ret ())"

definition UpdatePrepareRequest_enc :: "UpdatePrepareRequest \<Rightarrow> byte list list" where
  "UpdatePrepareRequest_enc x = [[SegmentAndLocation_to_wire_value (upq_segment_and_location x)]]"

lemma UpdatePrepareRequest_to_wire_seq: "UpdatePrepareRequest_to_wire wb x = to_io (write_seq wb (UpdatePrepareRequest_enc x))"
  by (simp add: UpdatePrepareRequest_to_wire_def UpdatePrepareRequest_enc_def write_be_u8_def to_wire_seq_simps)

interpretation upq: wire_codec_exact "\<lambda>_. True" UpdatePrepareRequest_enc UpdatePrepareRequest_from_wire
  by unfold_locales
    (auto simp: UpdatePrepareRequest_from_wire_def UpdatePrepareRequest_enc_def sal.wire_identity sal.from_wire_value_iff codec_iffs)

interpretation upq_m: wire_message "\<lambda>_. True" UpdatePrepareRequest_enc UpdatePrepareRequest_from_wire
  "UpdatePrepareRequest_to_wire Cursor_write_bytes" "UpdatePrepareRequest_to_wire slice_write_bytes"
  by unfold_locales (simp_all add: UpdatePrepareRequest_to_wire_seq)

datatype UpdatePrepareResult =
    Success_UP
  | Error_UP
  | InvalidSegmentAndLocation_UP

fun UpdatePrepareResult_to_wire_value :: "UpdatePrepareResult \<Rightarrow> byte" where
  "UpdatePrepareResult_to_wire_value Success_UP = 0x00"
| "UpdatePrepareResult_to_wire_value Error_UP = 0x01"
| "UpdatePrepareResult_to_wire_value InvalidSegmentAndLocation_UP = 0x02"

definition UpdatePrepareResult_from_wire_value :: "byte \<Rightarrow> UpdatePrepareResult option" where
  "UpdatePrepareResult_from_wire_value w =
     (if w = 0x00 then Some Success_UP
      else if w = 0x01 then Some Error_UP
      else if w = 0x02 then Some InvalidSegmentAndLocation_UP
      else None)"

fun UpdatePrepareResult_name :: "UpdatePrepareResult \<Rightarrow> string" where
  "UpdatePrepareResult_name Success_UP = ''Success''"
| "UpdatePrepareResult_name Error_UP = ''Error''"
| "UpdatePrepareResult_name InvalidSegmentAndLocation_UP = ''InvalidSegmentAndLocation''"

definition UpdatePrepareResult_from_name :: "string \<Rightarrow> UpdatePrepareResult option" where
  "UpdatePrepareResult_from_name s =
     (if s = ''Success'' then Some Success_UP
      else if s = ''Error'' then Some Error_UP
      else if s = ''InvalidSegmentAndLocation'' then Some InvalidSegmentAndLocation_UP
      else None)"

interpretation upr: wire_enum UpdatePrepareResult_to_wire_value UpdatePrepareResult_from_wire_value
  UpdatePrepareResult_name UpdatePrepareResult_from_name
proof
  fix x v s
  show "UpdatePrepareResult_from_wire_value (UpdatePrepareResult_to_wire_value x) = Some x"
    by (cases x) (simp_all add: UpdatePrepareResult_from_wire_value_def)
  show "UpdatePrepareResult_from_wire_value v = Some x \<Longrightarrow> v = UpdatePrepareResult_to_wire_value x"
    by (auto simp: UpdatePrepareResult_from_wire_value_def split: if_splits)
  show "UpdatePrepareResult_from_name (UpdatePrepareResult_name x) = Some x"
    by (cases x) (simp_all add: UpdatePrepareResult_from_name_def)
  show "UpdatePrepareResult_from_name s = Some x \<Longrightarrow> s = UpdatePrepareResult_name x"
    by (auto simp: UpdatePrepareResult_from_name_def split: if_splits)
qed

record UpdatePrepareResponse =
  upp_segment_and_location :: SegmentAndLocation
  upp_max_chunk_length :: u16
  upp_result :: UpdatePrepareResult

definition UPDATE_PREPARE_RESPONSE_LEN :: nat where
  "UPDATE_PREPARE_RESPONSE_LEN = 4"

definition UpdatePrepareResponse_from_wire :: "(reader, FromWireError, UpdatePrepareResponse) eff" where
  "UpdatePrepareResponse_from_wire =
     eff_bind (from_io read_be_u8) (\<lambda>sal_u8.
     eff_bind (ok_or (SegmentAndLocation_from_wire_value sal_u8) OutOfRange) (\<lambda>segment_and_location.
     eff_bind (from_io read_be_u16) (\<lambda>max_chunk_length.
     eff_bind (from_io read_be_u8) (\<lambda>result_u8.
     eff_bind (ok_or (UpdatePrepareResult_from_wire_value result_u8) OutOfRange) (\<lambda>result.
     ret \<lparr>upp_segment_and_location = segment_and_location, upp_max_chunk_length = max_chunk_length, upp_result = result\<rparr>)))))"

definition UpdatePrepareResponse_to_wire :: "'w write_op \<Rightarrow> UpdatePrepareResponse \<Rightarrow> ('w, ToWireError, unit) eff" where
  "UpdatePrepareResponse_to_wire wb x =
     eff_bind (to_io (write_be_u8 wb (SegmentAndLocation_to_wire_value (upp_segment_and_location x)))) (\<lambda>_.
     eff_bind (to_io (write_be_u16 wb (upp_max_chunk_length x))) (\<lambda>_.
     eff_bind (to_io (write_be_u8 wb (UpdatePrepareResult_to_wire_value (upp_result x)))) (\<lambda>_.
     ret ())))"

definition UpdatePrepareResponse_enc :: "UpdatePrepareResponse \<Rightarrow> byte list list" where
  "UpdatePrepareResponse_enc x = [[SegmentAndLocation_to_wire_value (upp_segment_and_location x)]] @ [be_bytes 2 (unat (upp_max_chunk_length x))] @ [[UpdatePrepareResult_to_wire_value (upp_result x)]]"

lemma UpdatePrepareResponse_to_wire_seq: "UpdatePrepareResponse_to_wire wb x = to_io (write_seq wb (UpdatePrepareResponse_enc x))"
  by (simp add: UpdatePrepareResponse_to_wire_def UpdatePrepareResponse_enc_def write_be_u16_def write_be_u8_def to_wire_seq_simps)

interpretation upp: wire_codec_exact "\<lambda>_. True" UpdatePrepareResponse_enc UpdatePrepareResponse_from_wire
  by unfold_locales
    (auto simp: UpdatePrepareResponse_from_wire_def UpdatePrepareResponse_enc_def sal.wire_identity upr.wire_identity sal.from_wire_value_iff upr.from_wire_value_iff codec_iffs)

interpretation upp_m: wire_message "\<lambda>_. True" UpdatePrepareResponse_enc UpdatePrepareResponse_from_wire
  "UpdatePrepareResponse_to_wire Cursor_write_bytes" "UpdatePrepareResponse_to_wire slice_write_bytes"
  by unfold_locales (simp_all add: UpdatePrepareResponse_to_wire_seq)

section \<open>Writing a chunk\<close>

text \<open>
  The request takes everything that is left of the input as its data, so it is not
  self-delimiting: the length comes from the enclosing payload header.
\<close>

record WriteChunkRequest =
  wcq_segment_and_location :: SegmentAndLocation
  wcq_offset :: u32
  wcq_data :: "byte list"

definition WRITE_CHUNK_REQUEST_LEN :: nat where
  "WRITE_CHUNK_REQUEST_LEN = 5"

definition WriteChunkRequest_from_wire :: "(reader, FromWireError, WriteChunkRequest) eff" where
  "WriteChunkRequest_from_wire =
     eff_bind (from_io read_be_u8) (\<lambda>sal_u8.
     eff_bind (ok_or (SegmentAndLocation_from_wire_value sal_u8) OutOfRange) (\<lambda>segment_and_location.
     eff_bind (from_io read_be_u32) (\<lambda>offset.
     eff_bind (\<lambda>r. ret (remaining_data r) r) (\<lambda>data_len.
     eff_bind (from_io (read_bytes data_len)) (\<lambda>data.
     ret \<lparr>wcq_segment_and_location = segment_and_location, wcq_offset = offset, wcq_data = data\<rparr>)))))"

definition WriteChunkRequest_to_wire :: "'w write_op \<Rightarrow> WriteChunkRequest \<Rightarrow> ('w, ToWireError, unit) eff" where
  "WriteChunkRequest_to_wire wb x =
     eff_bind (to_io (write_be_u8 wb (SegmentAndLocation_to_wire_value (wcq_segment_and_location x)))) (\<lambda>_.
     eff_bind (to_io (write_be_u32 wb (wcq_offset x))) (\<lambda>_.
     eff_bind (to_io (wb (wcq_data x))) (\<lambda>_.
     ret ())))"

definition WriteChunkRequest_enc :: "WriteChunkRequest \<Rightarrow> byte list list" where
  "WriteChunkRequest_enc x =
     [[SegmentAndLocation_to_wire_value (wcq_segment_and_location x)], be_bytes 4 (unat (wcq_offset x)), wcq_data x]"

lemma WriteChunkRequest_to_wire_seq: "WriteChunkRequest_to_wire wb x = to_io (write_seq wb (WriteChunkRequest_enc x))"
  by (simp add: WriteChunkRequest_to_wire_def WriteChunkRequest_enc_def write_be_u8_def write_be_u32_def to_wire_seq_simps)

lemma WriteChunkRequest_dec_enc: "WriteChunkRequest_from_wire (concat (WriteChunkRequest_enc x)) = (Ok x, [])"
  using read_bytes_append [of "wcq_data x" "length (wcq_data x)" "[]"]
  by (simp add: WriteChunkRequest_from_wire_def WriteChunkRequest_enc_def sal.wire_identity remaining_data_def)

datatype WriteChunkResult =
    Success_WC
  | Error_WC
  | InvalidSegmentAndLocation_WC
  | InvalidOffset_WC
  | DataTooLong_WC
  | CompareFailed_WC

fun WriteChunkResult_to_wire_value :: "WriteChunkResult \<Rightarrow> byte" where
  "WriteChunkResult_to_wire_value Success_WC = 0x00"
| "WriteChunkResult_to_wire_value Error_WC = 0x01"
| "WriteChunkResult_to_wire_value InvalidSegmentAndLocation_WC = 0x02"
| "WriteChunkResult_to_wire_value InvalidOffset_WC = 0x03"
| "WriteChunkResult_to_wire_value DataTooLong_WC = 0x04"
| "WriteChunkResult_to_wire_value CompareFailed_WC = 0x05"

definition WriteChunkResult_from_wire_value :: "byte \<Rightarrow> WriteChunkResult option" where
  "WriteChunkResult_from_wire_value w =
     (if w = 0x00 then Some Success_WC
      else if w = 0x01 then Some Error_WC
      else if w = 0x02 then Some InvalidSegmentAndLocation_WC
      else if w = 0x03 then Some InvalidOffset_WC
      else if w = 0x04 then Some DataTooLong_WC
      else if w = 0x05 then Some CompareFailed_WC
      else None)"

fun WriteChunkResult_name :: "WriteChunkResult \<Rightarrow> string" where
  "WriteChunkResult_name Success_WC = ''Success''"
| "WriteChunkResult_name Error_WC = ''Error''"
| "WriteChunkResult_name InvalidSegmentAndLocation_WC = ''InvalidSegmentAndLocation''"
| "WriteChunkResult_name InvalidOffset_WC = ''InvalidOffset''"
| "WriteChunkResult_name DataTooLong_WC = ''DataTooLong''"
| "WriteChunkResult_name CompareFailed_WC = ''CompareFailed''"

definition WriteChunkResult_from_name :: "string \<Rightarrow> WriteChunkResult option" where
  "WriteChunkResult_from_name s =
     (if s = ''Success'' then Some Success_WC
      else if s = ''Error'' then Some Error_WC
      else if s = ''InvalidSegmentAndLocation'' then Some InvalidSegmentAndLocation_WC
      else if s = ''InvalidOffset'' then Some InvalidOffset_WC
      else if s = ''DataTooLong'' then Some DataTooLong_WC
      else if s = ''CompareFailed'' then Some CompareFailed_WC
      else None)"

interpretation wcr: wire_enum WriteChunkResult_to_wire_value WriteChunkResult_from_wire_value
  WriteChunkResult_name WriteChunkResult_from_name
proof
  fix x v s
  show "WriteChunkResult_from_wire_value (WriteChunkResult_to_wire_value x) = Some x"
    by (cases x) (simp_all add: WriteChunkResult_from_wire_value_def)
  show "WriteChunkResult_from_wire_value v = Some x \<Longrightarrow> v = WriteChunkResult_to_wire_value x"
    by (auto simp: WriteChunkResult_from_wire_value_def split: if_splits)
  show "WriteChunkResult_from_name (WriteChunkResult_name x) = Some x"
    by (cases x) (simp_all add: WriteChunkResult_from_name_def)
  show "WriteChunkResult_from_name s = Some x \<Longrightarrow> s = WriteChunkResult_name x"
    by (auto simp: WriteChunkResult_from_name_def split: if_splits)
qed

record WriteChunkResponse =
  wcp_segment_and_location :: SegmentAndLocation
  wcp_offset :: u32
  wcp_result :: WriteChunkResult

definition WRITE_CHUNK_RESPONSE_LEN :: nat where
  "WRITE_CHUNK_RESPONSE_LEN = 6"

definition WriteChunkResponse_from_wire :: "(reader, FromWireError, WriteChunkResponse) eff" where
  "WriteChunkResponse_from_wire =
     eff_bind (from_io read_be_u8) (\<lambda>sal_u8.
     eff_bind (ok_or (SegmentAndLocation_from_wire_value sal_u8) OutOfRange) (\<lambda>segment_and_location.
     eff_bind (from_io read_be_u32) (\<lambda>offset.
     eff_bind (from_io read_be_u8) (\<lambda>result_u8.
     eff_bind (ok_or (WriteChunkResult_from_wire_value result_u8) OutOfRange) (\<lambda>result.
     ret \<lparr>wcp_segment_and_location = segment_and_location, wcp_offset = offset, wcp_result = result\<rparr>)))))"

definition WriteChunkResponse_to_wire :: "'w write_op \<Rightarrow> WriteChunkResponse \<Rightarrow> ('w, ToWireError, unit) eff" where
  "WriteChunkResponse_to_wire wb x =
     eff_bind (to_io (write_be_u8 wb (SegmentAndLocation_to_wire_value (wcp_segment_and_location x)))) (\<lambda>_.
     eff_bind (to_io (write_be_u32 wb (wcp_offset x))) (\<lambda>_.
     eff_bind (to_io (write_be_u8 wb (WriteChunkResult_to_wire_value (wcp_result x)))) (\<lambda>_.
     ret ())))"

definition WriteChunkResponse_enc :: "WriteChunkResponse \<Rightarrow> byte list list" where
  "WriteChunkResponse_enc x = [[SegmentAndLocation_to_wire_value (wcp_segment_and_location x)]] @ [be_bytes 4 (unat (wcp_offset x))] @ [[WriteChunkResult_to_wire_value (wcp_result x)]]"

lemma WriteChunkResponse_to_wire_seq: "WriteChunkResponse_to_wire wb x = to_io (write_seq wb (WriteChunkResponse_enc x))"
  by (simp add: WriteChunkResponse_to_wire_def WriteChunkResponse_enc_def write_be_u32_def write_be_u8_def to_wire_seq_simps)

interpretation wcp: wire_codec_exact "\<lambda>_. True" WriteChunkResponse_enc WriteChunkResponse_from_wire
  by unfold_locales
    (auto simp: WriteChunkResponse_from_wire_def WriteChunkResponse_enc_def sal.wire_identity wcr.wire_identity sal.from_wire_value_iff wcr.from_wire_value_iff codec_iffs)

interpretation wcp_m: wire_message "\<lambda>_. True" WriteChunkResponse_enc WriteChunkResponse_from_wire
  "WriteChunkResponse_to_wire Cursor_write_bytes" "WriteChunkResponse_to_wire slice_write_bytes"
  by unfold_locales (simp_all add: WriteChunkResponse_to_wire_seq)

section \<open>Reboot\<close>

datatype RebootTime =
    Immediate
  | Delayed

fun RebootTime_to_wire_value :: "RebootTime \<Rightarrow> byte" where
  "RebootTime_to_wire_value Immediate = 0x00"
| "RebootTime_to_wire_value Delayed = 0x01"

definition RebootTime_from_wire_value :: "byte \<Rightarrow> RebootTime option" where
  "RebootTime_from_wire_value w =
     (if w = 0x00 then Some Immediate
      else if w = 0x01 then Some Delayed
      else None)"

fun RebootTime_name :: "RebootTime \<Rightarrow> string" where
  "RebootTime_name Immediate = ''Immediate''"
| "RebootTime_name Delayed = ''Delayed''"

definition RebootTime_from_name :: "string \<Rightarrow> RebootTime option" where
  "RebootTime_from_name s =
     (if s = ''Immediate'' then Some Immediate
      else if s = ''Delayed'' then Some Delayed
      else None)"

interpretation rbt: wire_enum RebootTime_to_wire_value RebootTime_from_wire_value
  RebootTime_name RebootTime_from_name
proof
  fix x v s
  show "RebootTime_from_wire_value (RebootTime_to_wire_value x) = Some x"
    by (cases x) (simp_all add: RebootTime_from_wire_value_def)
  show "RebootTime_from_wire_value v = Some x \<Longrightarrow> v = RebootTime_to_wire_value x"
    by (auto simp: RebootTime_from_wire_value_def split: if_splits)
  show "RebootTime_from_name (RebootTime_name x) = Some x"
    by (cases x) (simp_all add: RebootTime_from_name_def)
  show "RebootTime_from_name s = Some x \<Longrightarrow> s = RebootTime_name x"
    by (auto simp: RebootTime_from_name_def split: if_splits)
qed

record RebootRequest =
  rbq_time :: RebootTime

definition REBOOT_REQUEST_LEN :: nat where
  "REBOOT_REQUEST_LEN = 1"

definition RebootRequest_from_wire :: "(reader, FromWireError, RebootRequest) eff" where
  "RebootRequest_from_wire =
     eff_bind (from_io read_be_u8) (\<lambda>time_u8.
     eff_bind (ok_or (RebootTime_from_wire_value time_u8) OutOfRange) (\<lambda>time.
     ret \<lparr>rbq_time = time\<rparr>))"

definition RebootRequest_to_wire :: "'w write_op \<Rightarrow> RebootRequest \<Rightarrow> ('w, ToWireError, unit) eff" where
  "RebootRequest_to_wire wb x =
     eff_bind (to_io (write_be_u8 wb (RebootTime_to_wire_value (rbq_time x)))) (\<lambda>_.
     ret ())"

definition RebootRequest_enc :: "RebootRequest \<Rightarrow> byte list list" where
  "RebootRequest_enc x = [[RebootTime_to_wire_value (rbq_time x)]]"

lemma RebootRequest_to_wire_seq: "RebootRequest_to_wire wb x = to_io (write_seq wb (RebootRequest_enc x))"
  by (simp add: RebootRequest_to_wire_def RebootRequest_enc_def write_be_u8_def to_wire_seq_simps)

interpretation rbq: wire_codec_exact "\<lambda>_. True" RebootRequest_enc RebootRequest_from_wire
  by unfold_locales
    (auto simp: RebootRequest_from_wire_def RebootRequest_enc_def rbt.wire_identity rbt.from_wire_value_iff codec_iffs)

interpretation rbq_m: wire_message "\<lambda>_. True" RebootRequest_enc RebootRequest_from_wire
  "RebootRequest_to_wire Cursor_write_bytes" "RebootRequest_to_wire slice_write_bytes"
  by unfold_locales (simp_all add: RebootRequest_to_wire_seq)

datatype RebootResult =
    Success_RB
  | Error_RB

fun RebootResult_to_wire_value :: "RebootResult \<Rightarrow> byte" where
  "RebootResult_to_wire_value Success_RB = 0x00"
| "RebootResult_to_wire_value Error_RB = 0x01"

definition RebootResult_from_wire_value :: "byte \<Rightarrow> RebootResult option" where
  "RebootResult_from_wire_value w =
     (if w = 0x00 then Some Success_RB
      else if w = 0x01 then Some Error_RB
      else None)"

fun RebootResult_name :: "RebootResult \<Rightarrow> string" where
  "RebootResult_name Success_RB = ''Success''"
| "RebootResult_name Error_RB = ''Error''"

definition RebootResult_from_name :: "string \<Rightarrow> RebootResult option" where
  "RebootResult_from_name s =
     (if s = ''Success'' then Some Success_RB
      else if s = ''Error'' then Some Error_RB
      else None)"

interpretation rbr: wire_enum RebootResult_to_wire_value RebootResult_from_wire_value
  RebootResult_name RebootResult_from_name
proof
  fix x v s
  show "RebootResult_from_wire_value (RebootResult_to_wire_value x) = Some x"
    by (cases x) (simp_all add: RebootResult_from_wire_value_def)
  show "RebootResult_from_wire_value v = Some x \<Longrightarrow> v = RebootResult_to_wire_value x"
    by (auto simp: RebootResult_from_wire_value_def split: if_splits)
  show "RebootResult_from_name (RebootResult_name x) = Some x"
    by (cases x) (simp_all add: RebootResult_from_name_def)
  show "RebootResult_from_name s = Some x \<Longrightarrow> s = RebootResult_name x"
    by (auto simp: RebootResult_from_name_def split: if_splits)
qed

record RebootResponse =
  rbp_time :: RebootTime
  rbp_result :: RebootResult

definition REBOOT_RESPONSE_LEN :: nat where
  "REBOOT_RESPONSE_LEN = 2"

definition RebootResponse_from_wire :: "(reader, FromWireError, RebootResponse) eff" where
  "RebootResponse_from_wire =
     eff_bind (from_io read_be_u8) (\<lambda>time_u8.
     eff_bind (ok_or (RebootTime_from_wire_value time_u8) OutOfRange) (\<lambda>time.
     eff_bind (from_io read_be_u8) (\<lambda>result_u8.
     eff_bind (ok_or (RebootResult_from_wire_value result_u8) OutOfRange) (\<lambda>result.
     ret \<lparr>rbp_time = time, rbp_result = result\<rparr>))))"

definition RebootResponse_to_wire :: "'w write_op \<Rightarrow> RebootResponse \<Rightarrow> ('w, ToWireError, unit) eff" where
  "RebootResponse_to_wire wb x =
     eff_bind (to_io (write_be_u8 wb (RebootTime_to_wire_value (rbp_time x)))) (\<lambda>_.
     eff_bind (to_io (write_be_u8 wb (RebootResult_to_wire_value (rbp_result x)))) (\<lambda>_.
     ret ()))"

definition RebootResponse_enc :: "RebootResponse \<Rightarrow> byte list list" where
  "RebootResponse_enc x = [[RebootTime_to_wire_value (rbp_time x)]] @ [[RebootResult_to_wire_value (rbp_result x)]]"

lemma RebootResponse_to_wire_seq: "RebootResponse_to_wire wb x = to_io (write_seq wb (RebootResponse_enc x))"
  by (simp add: RebootResponse_to_wire_def RebootResponse_enc_def write_be_u8_def to_wire_seq_simps)

interpretation rbp: wire_codec_exact "\<lambda>_. True" RebootResponse_enc RebootResponse_from_wire
  by unfold_locales
    (auto simp: RebootResponse_from_wire_def RebootResponse_enc_def rbr.wire_identity rbt.wire_identity rbr.from_wire_value_iff rbt.from_wire_value_iff codec_iffs)

interpretation rbp_m: wire_message "\<lambda>_. True" RebootResponse_enc RebootResponse_from_wire
  "RebootResponse_to_wire Cursor_write_bytes" "RebootResponse_to_wire slice_write_bytes"
  by unfold_locales (simp_all add: RebootResponse_to_wire_seq)

section \<open>Sizes\<close>

text \<open>The length constants of the source are the lengths of the encodings.\<close>

lemma length_fw_Header_enc [simp]: "length (concat (fw_Header_enc x)) = fw_HEADER_LEN"
  by (simp add: fw_Header_enc_def fw_HEADER_LEN_def)

lemma length_SegmentInfo_enc [simp]: "length (concat (SegmentInfo_enc x)) = SEGMENT_INFO_LEN"
  by (simp add: SegmentInfo_enc_def SEGMENT_INFO_LEN_def)

lemma length_RuntimeSegmentInfo_enc [simp]: "length (concat (RuntimeSegmentInfo_enc x)) = RUNTIME_SEGMENT_INFO_LEN"
  using length_SegmentInfo_enc by (simp add: RuntimeSegmentInfo_enc_def RUNTIME_SEGMENT_INFO_LEN_def)

lemma length_InactiveSegmentsInfoResponse_enc [simp]:
  "length (concat (InactiveSegmentsInfoResponse_enc x)) = INACTIVE_SEGMENTS_INFO_RESPONSE_LEN"
  using length_SegmentInfo_enc
  by (simp add: InactiveSegmentsInfoResponse_enc_def INACTIVE_SEGMENTS_INFO_RESPONSE_LEN_def)

lemma length_BuildInfo_enc [simp]: "length (concat (BuildInfo_enc x)) = BUILD_INFO_LEN"
  by (simp add: BuildInfo_enc_def BUILD_INFO_LEN_def)

lemma length_FirmwareInfo_enc [simp]: "length (concat (FirmwareInfo_enc x)) = FIRMWARE_INFO_LEN"
  using length_BuildInfo_enc by (simp add: FirmwareInfo_enc_def FIRMWARE_INFO_LEN_def)

lemma length_UpdatePrepareRequest_enc [simp]: "length (concat (UpdatePrepareRequest_enc x)) = UPDATE_PREPARE_REQUEST_LEN"
  by (simp add: UpdatePrepareRequest_enc_def UPDATE_PREPARE_REQUEST_LEN_def)

lemma length_UpdatePrepareResponse_enc [simp]: "length (concat (UpdatePrepareResponse_enc x)) = UPDATE_PREPARE_RESPONSE_LEN"
  by (simp add: UpdatePrepareResponse_enc_def UPDATE_PREPARE_RESPONSE_LEN_def)

lemma length_WriteChunkRequest_enc [simp]:
  "length (concat (WriteChunkRequest_enc x)) = WRITE_CHUNK_REQUEST_LEN + length (wcq_data x)"
  by (simp add: WriteChunkRequest_enc_def WRITE_CHUNK_REQUEST_LEN_def)

lemma length_WriteChunkResponse_enc [simp]: "length (concat (WriteChunkResponse_enc x)) = WRITE_CHUNK_RESPONSE_LEN"
  by (simp add: WriteChunkResponse_enc_def WRITE_CHUNK_RESPONSE_LEN_def)

lemma length_RebootRequest_enc [simp]: "length (concat (RebootRequest_enc x)) = REBOOT_REQUEST_LEN"
  by (simp add: RebootRequest_enc_def REBOOT_REQUEST_LEN_def)

lemma length_RebootResponse_enc [simp]: "length (concat (RebootResponse_enc x)) = REBOOT_RESPONSE_LEN"
  by (simp add: RebootResponse_enc_def REBOOT_RESPONSE_LEN_def)

section \<open>Properties\<close>

text \<open>C40. Every fixed-size message of the firmware update protocol round-trips through a cursor:
  into a buffer of at least the declared length it writes exactly that many bytes, and those bytes decode
  to the message whatever follows; a shorter buffer gives the exhausted-buffer error.\<close>

theorem firmware_messages_roundtrip:
  assumes "length buf \<le> usize_max"
  shows "(cursor_roundtrips fw_Header_from_wire (fw_Header_to_wire Cursor_write_bytes) fw_HEADER_LEN buf hdr)
    \<and> (cursor_roundtrips InactiveSegmentsInfoResponse_from_wire
       (InactiveSegmentsInfoResponse_to_wire Cursor_write_bytes) INACTIVE_SEGMENTS_INFO_RESPONSE_LEN buf info)
    \<and> (cursor_roundtrips FirmwareInfo_from_wire (FirmwareInfo_to_wire Cursor_write_bytes) FIRMWARE_INFO_LEN buf fw)
    \<and> (cursor_roundtrips UpdatePrepareRequest_from_wire
       (UpdatePrepareRequest_to_wire Cursor_write_bytes) UPDATE_PREPARE_REQUEST_LEN buf prep)
    \<and> (cursor_roundtrips UpdatePrepareResponse_from_wire
       (UpdatePrepareResponse_to_wire Cursor_write_bytes) UPDATE_PREPARE_RESPONSE_LEN buf prepared)
    \<and> (cursor_roundtrips WriteChunkResponse_from_wire
       (WriteChunkResponse_to_wire Cursor_write_bytes) WRITE_CHUNK_RESPONSE_LEN buf written)
    \<and> (cursor_roundtrips RebootRequest_from_wire
       (RebootRequest_to_wire Cursor_write_bytes) REBOOT_REQUEST_LEN buf reboot)
    \<and> (cursor_roundtrips RebootResponse_from_wire
       (RebootResponse_to_wire Cursor_write_bytes) REBOOT_RESPONSE_LEN buf rebooting)
    \<and> (cursor_roundtrips RuntimeSegmentInfo_from_wire
       (RuntimeSegmentInfo_to_wire Cursor_write_bytes) RUNTIME_SEGMENT_INFO_LEN buf segs)"
  using assms
  by (simp only: simp_thms fw_hdr_m.cursor_roundtrips isr_m.cursor_roundtrips fi_m.cursor_roundtrips
      upq_m.cursor_roundtrips upp_m.cursor_roundtrips wcp_m.cursor_roundtrips rbq_m.cursor_roundtrips
      rbp_m.cursor_roundtrips rsi_m.cursor_roundtrips length_fw_Header_enc length_InactiveSegmentsInfoResponse_enc
      length_FirmwareInfo_enc length_UpdatePrepareRequest_enc length_UpdatePrepareResponse_enc
      length_WriteChunkResponse_enc length_RebootRequest_enc length_RebootResponse_enc
      length_RuntimeSegmentInfo_enc)

theorem firmware_messages_roundtrip_witness:
  "cursor_roundtrips RuntimeSegmentInfo_from_wire (RuntimeSegmentInfo_to_wire Cursor_write_bytes)
     RUNTIME_SEGMENT_INFO_LEN (replicate 80 0) UNKNOWN_RUNTIME_SEGMENT_INFO"
  using firmware_messages_roundtrip [where buf = "replicate 80 0" and segs = UNKNOWN_RUNTIME_SEGMENT_INFO] by simp

text \<open>The chunk request carries its data to the end of the message: written into any buffer
  with room for it and read back, it is the same request, with data of any length.\<close>

theorem WriteChunkRequest_roundtrip:
  assumes "length buf \<le> usize_max" and "WRITE_CHUNK_REQUEST_LEN + length (wcq_data x) \<le> length buf"
  shows "\<exists>c. WriteChunkRequest_to_wire Cursor_write_bytes x (Cursor_new buf) = (Ok (), c)
    \<and> WriteChunkRequest_from_wire (Cursor_consumed_bytes c) = (Ok x, [])"
  using cursor_w.write_seq_fits [of "Cursor_new buf" "WriteChunkRequest_enc x"] assms
    WriteChunkRequest_dec_enc [of x]
  by (auto simp: WriteChunkRequest_to_wire_seq to_io_Ok_iff simp del: length_concat)

theorem WriteChunkRequest_roundtrip_witness:
  "\<exists>c. WriteChunkRequest_to_wire Cursor_write_bytes
      \<lparr>wcq_segment_and_location = RoA, wcq_offset = 64, wcq_data = [1, 2, 3]\<rparr> (Cursor_new (replicate 8 0)) = (Ok (), c)
    \<and> WriteChunkRequest_from_wire (Cursor_consumed_bytes c)
      = (Ok \<lparr>wcq_segment_and_location = RoA, wcq_offset = 64, wcq_data = [1, 2, 3]\<rparr>, [])"
  by (rule WriteChunkRequest_roundtrip) (simp_all add: WRITE_CHUNK_REQUEST_LEN_def)

text \<open>Decoding is exact: a decoder accepts precisely the byte strings its encoder produces
  (with anything after them), so that each message has one encoding and a value outside an enum is
  refused with \<open>OutOfRange\<close>.\<close>

theorem firmware_decoding_exact:
  shows "(SegmentInfo_from_wire s = (Ok segment, r) \<longleftrightarrow> s = concat (SegmentInfo_enc segment) @ r)
    \<and> (FirmwareInfo_from_wire s = (Ok fw, r) \<longleftrightarrow> s = concat (FirmwareInfo_enc fw) @ r)
    \<and> (UpdatePrepareResponse_from_wire s = (Ok prepared, r) \<longleftrightarrow> s = concat (UpdatePrepareResponse_enc prepared) @ r)
    \<and> (WriteChunkResponse_from_wire s = (Ok written, r) \<longleftrightarrow> s = concat (WriteChunkResponse_enc written) @ r)
    \<and> (RebootResponse_from_wire s = (Ok rebooting, r) \<longleftrightarrow> s = concat (RebootResponse_enc rebooting) @ r)
    \<and> (fst (fw_Header_from_wire [w]) = Err OutOfRange \<longleftrightarrow> w \<notin> range fw_ContentType_to_wire_value)"
proof -
  have "fst (fw_Header_from_wire [w]) = Err OutOfRange \<longleftrightarrow> w \<notin> range fw_ContentType_to_wire_value"
    using fw_ct.from_wire_value_iff [of w] fw_ct.wire_identity
    by (cases "fw_ContentType_from_wire_value w") (auto simp: fw_Header_from_wire_def)
  then show ?thesis
    by (simp only: seg.from_wire_Ok_iff fi.from_wire_Ok_iff upp.from_wire_Ok_iff wcp.from_wire_Ok_iff
        rbp.from_wire_Ok_iff simp_thms)
qed

end
