(* ===== verification/Flash_Protocol.thy ===== *)
theory Flash_Protocol
  imports Wire
begin

text \<open>
  The SPI flash command protocol of \<^verbatim>\<open>protocol/flash.rs\<close>: address modes, op
  codes and the command header, generic in the address type. What the header relies on of
  an address type is the locale \<open>spi_address\<close>, interpreted on 24-bit and on 32-bit
  addresses.
\<close>

section \<open>Address modes\<close>

datatype AddressMode = ThreeByte | FourByte

definition AddressMode_try_from :: "nat \<Rightarrow> AddressMode option" where
  "AddressMode_try_from item = (if item = 0 then Some ThreeByte else if item = 1 then Some FourByte else None)"

fun usize_from_AddressMode :: "AddressMode \<Rightarrow> nat" where
  "usize_from_AddressMode ThreeByte = 0"
| "usize_from_AddressMode FourByte = 1"

lemma AddressMode_roundtrip: "AddressMode_try_from n = Some m \<longleftrightarrow> n = usize_from_AddressMode m"
  by (cases m) (auto simp: AddressMode_try_from_def)

section \<open>Op codes\<close>

datatype OpCode =
    Nop
  | WriteStatusRegister
  | ReadStatusRegister
  | WriteDisable
  | WriteEnable
  | WriteSuspend
  | WriteResume
  | SectorErase
  | BlockErase32KB
  | BlockErase64KB
  | ChipErase
  | ChipErase2
  | PageProgram
  | ReadJedec
  | ReadSfdp
  | NormalRead
  | FastRead
  | FastRead4B
  | FastReadDualOutput
  | Enter4ByteAddressMode
  | Exit4ByteAddressMode

fun OpCode_to_wire_value :: "OpCode \<Rightarrow> byte" where
  "OpCode_to_wire_value Nop = 0x00"
| "OpCode_to_wire_value WriteStatusRegister = 0x01"
| "OpCode_to_wire_value ReadStatusRegister = 0x05"
| "OpCode_to_wire_value WriteDisable = 0x04"
| "OpCode_to_wire_value WriteEnable = 0x06"
| "OpCode_to_wire_value WriteSuspend = 0xb0"
| "OpCode_to_wire_value WriteResume = 0x30"
| "OpCode_to_wire_value SectorErase = 0x20"
| "OpCode_to_wire_value BlockErase32KB = 0x52"
| "OpCode_to_wire_value BlockErase64KB = 0xd8"
| "OpCode_to_wire_value ChipErase = 0xc7"
| "OpCode_to_wire_value ChipErase2 = 0x60"
| "OpCode_to_wire_value PageProgram = 0x02"
| "OpCode_to_wire_value ReadJedec = 0x9f"
| "OpCode_to_wire_value ReadSfdp = 0x5a"
| "OpCode_to_wire_value NormalRead = 0x03"
| "OpCode_to_wire_value FastRead = 0x0b"
| "OpCode_to_wire_value FastRead4B = 0x0c"
| "OpCode_to_wire_value FastReadDualOutput = 0x3b"
| "OpCode_to_wire_value Enter4ByteAddressMode = 0xb7"
| "OpCode_to_wire_value Exit4ByteAddressMode = 0xe9"

definition OpCode_from_wire_value :: "byte \<Rightarrow> OpCode option" where
  "OpCode_from_wire_value w =
     (if w = 0x00 then Some Nop
      else if w = 0x01 then Some WriteStatusRegister
      else if w = 0x05 then Some ReadStatusRegister
      else if w = 0x04 then Some WriteDisable
      else if w = 0x06 then Some WriteEnable
      else if w = 0xb0 then Some WriteSuspend
      else if w = 0x30 then Some WriteResume
      else if w = 0x20 then Some SectorErase
      else if w = 0x52 then Some BlockErase32KB
      else if w = 0xd8 then Some BlockErase64KB
      else if w = 0xc7 then Some ChipErase
      else if w = 0x60 then Some ChipErase2
      else if w = 0x02 then Some PageProgram
      else if w = 0x9f then Some ReadJedec
      else if w = 0x5a then Some ReadSfdp
      else if w = 0x03 then Some NormalRead
      else if w = 0x0b then Some FastRead
      else if w = 0x0c then Some FastRead4B
      else if w = 0x3b then Some FastReadDualOutput
      else if w = 0xb7 then Some Enter4ByteAddressMode
      else if w = 0xe9 then Some Exit4ByteAddressMode
      else None)"

fun OpCode_name :: "OpCode \<Rightarrow> string" where
  "OpCode_name Nop = ''Nop''"
| "OpCode_name WriteStatusRegister = ''WriteStatusRegister''"
| "OpCode_name ReadStatusRegister = ''ReadStatusRegister''"
| "OpCode_name WriteDisable = ''WriteDisable''"
| "OpCode_name WriteEnable = ''WriteEnable''"
| "OpCode_name WriteSuspend = ''WriteSuspend''"
| "OpCode_name WriteResume = ''WriteResume''"
| "OpCode_name SectorErase = ''SectorErase''"
| "OpCode_name BlockErase32KB = ''BlockErase32KB''"
| "OpCode_name BlockErase64KB = ''BlockErase64KB''"
| "OpCode_name ChipErase = ''ChipErase''"
| "OpCode_name ChipErase2 = ''ChipErase2''"
| "OpCode_name PageProgram = ''PageProgram''"
| "OpCode_name ReadJedec = ''ReadJedec''"
| "OpCode_name ReadSfdp = ''ReadSfdp''"
| "OpCode_name NormalRead = ''NormalRead''"
| "OpCode_name FastRead = ''FastRead''"
| "OpCode_name FastRead4B = ''FastRead4B''"
| "OpCode_name FastReadDualOutput = ''FastReadDualOutput''"
| "OpCode_name Enter4ByteAddressMode = ''Enter4ByteAddressMode''"
| "OpCode_name Exit4ByteAddressMode = ''Exit4ByteAddressMode''"

definition OpCode_from_name :: "string \<Rightarrow> OpCode option" where
  "OpCode_from_name s =
     (if s = ''Nop'' then Some Nop
      else if s = ''WriteStatusRegister'' then Some WriteStatusRegister
      else if s = ''ReadStatusRegister'' then Some ReadStatusRegister
      else if s = ''WriteDisable'' then Some WriteDisable
      else if s = ''WriteEnable'' then Some WriteEnable
      else if s = ''WriteSuspend'' then Some WriteSuspend
      else if s = ''WriteResume'' then Some WriteResume
      else if s = ''SectorErase'' then Some SectorErase
      else if s = ''BlockErase32KB'' then Some BlockErase32KB
      else if s = ''BlockErase64KB'' then Some BlockErase64KB
      else if s = ''ChipErase'' then Some ChipErase
      else if s = ''ChipErase2'' then Some ChipErase2
      else if s = ''PageProgram'' then Some PageProgram
      else if s = ''ReadJedec'' then Some ReadJedec
      else if s = ''ReadSfdp'' then Some ReadSfdp
      else if s = ''NormalRead'' then Some NormalRead
      else if s = ''FastRead'' then Some FastRead
      else if s = ''FastRead4B'' then Some FastRead4B
      else if s = ''FastReadDualOutput'' then Some FastReadDualOutput
      else if s = ''Enter4ByteAddressMode'' then Some Enter4ByteAddressMode
      else if s = ''Exit4ByteAddressMode'' then Some Exit4ByteAddressMode
      else None)"

interpretation opc: wire_enum OpCode_to_wire_value OpCode_from_wire_value
  OpCode_name OpCode_from_name
proof
  fix x v s
  show "OpCode_from_wire_value (OpCode_to_wire_value x) = Some x"
    by (cases x) (simp_all add: OpCode_from_wire_value_def)
  show "OpCode_from_wire_value v = Some x \<Longrightarrow> v = OpCode_to_wire_value x"
    by (auto simp: OpCode_from_wire_value_def split: if_splits)
  show "OpCode_from_name (OpCode_name x) = Some x"
    by (cases x) (simp_all add: OpCode_from_name_def)
  show "OpCode_from_name s = Some x \<Longrightarrow> s = OpCode_name x"
    by (auto simp: OpCode_from_name_def split: if_splits)
qed

text \<open>The derived ordering of the enum is the order of the discriminants.\<close>

instantiation OpCode :: linorder
begin

definition less_eq_OpCode :: "OpCode \<Rightarrow> OpCode \<Rightarrow> bool" where
  "less_eq_OpCode x y \<longleftrightarrow> OpCode_to_wire_value x \<le> OpCode_to_wire_value y"

definition less_OpCode :: "OpCode \<Rightarrow> OpCode \<Rightarrow> bool" where
  "less_OpCode x y \<longleftrightarrow> OpCode_to_wire_value x < OpCode_to_wire_value y"

instance
proof
  fix x y z :: OpCode
  show "x < y \<longleftrightarrow> x \<le> y \<and> \<not> y \<le> x"
    unfolding less_eq_OpCode_def less_OpCode_def by (rule less_le_not_le)
  show "x \<le> x"
    unfolding less_eq_OpCode_def by (rule order.refl)
  show "x \<le> y \<Longrightarrow> y \<le> z \<Longrightarrow> x \<le> z"
    unfolding less_eq_OpCode_def by (rule order.trans)
  show "x \<le> y \<Longrightarrow> y \<le> x \<Longrightarrow> x = y"
    unfolding less_eq_OpCode_def by (rule opc.to_wire_value_inject [THEN iffD1], rule order.antisym)
  show "x \<le> y \<or> y \<le> x"
    unfolding less_eq_OpCode_def by (rule linear)
qed

end

fun has_address :: "OpCode \<Rightarrow> bool" where
  "has_address SectorErase = True"
| "has_address BlockErase32KB = True"
| "has_address BlockErase64KB = True"
| "has_address PageProgram = True"
| "has_address ReadSfdp = True"
| "has_address NormalRead = True"
| "has_address FastRead = True"
| "has_address FastRead4B = True"
| "has_address FastReadDualOutput = True"
| "has_address _ = False"

fun has_dummy_byte :: "OpCode \<Rightarrow> bool" where
  "has_dummy_byte FastRead = True"
| "has_dummy_byte FastRead4B = True"
| "has_dummy_byte FastReadDualOutput = True"
| "has_dummy_byte _ = False"

fun has_data :: "OpCode \<Rightarrow> bool" where
  "has_data PageProgram = True"
| "has_data _ = False"

fun wait_busy_clear :: "OpCode \<Rightarrow> bool" where
  "wait_busy_clear WriteSuspend = True"
| "wait_busy_clear WriteResume = True"
| "wait_busy_clear SectorErase = True"
| "wait_busy_clear BlockErase32KB = True"
| "wait_busy_clear BlockErase64KB = True"
| "wait_busy_clear ChipErase = True"
| "wait_busy_clear ChipErase2 = True"
| "wait_busy_clear PageProgram = True"
| "wait_busy_clear _ = False"

lemma has_dummy_byte_has_address: "has_dummy_byte c \<Longrightarrow> has_address c"
  by (cases c) simp_all

definition DUMMY_BYTE_VALUE :: byte where
  "DUMMY_BYTE_VALUE = 0xff"

section \<open>Addresses\<close>

text \<open>
  \<^verbatim>\<open>Address::try_from\<close> for the two address types; the bounds of
  \<^verbatim>\<open>ux::u24\<close> are 0 and \<open>0xffffff\<close>.
\<close>

definition u24_try_from :: "u32 \<Rightarrow> u24 option" where
  "u24_try_from val = (if 0 \<le> val \<and> val \<le> 0xffffff then Some (ucast val) else None)"

definition u32_try_from :: "u32 \<Rightarrow> u32 option" where
  "u32_try_from val = Some val"

locale spi_address =
  fixes read_addr :: "(reader, io_error, 'a) eff"
    and addr_bytes :: "'a \<Rightarrow> byte list"
    and into_u32 :: "'a \<Rightarrow> u32"
    and try_from :: "u32 \<Rightarrow> 'a option"
  assumes read_addr_Ok_iff: "read_addr s = (Ok a, r) \<longleftrightarrow> s = addr_bytes a @ r"
    and try_from_iff: "try_from v = Some a \<longleftrightarrow> into_u32 a = v"
begin

lemma read_addr_append: "read_addr (addr_bytes a @ r) = (Ok a, r)"
  by (simp add: read_addr_Ok_iff)

lemma try_from_into: "try_from (into_u32 a) = Some a"
  by (simp add: try_from_iff)

lemma into_u32_inject: "into_u32 a = into_u32 b \<longleftrightarrow> a = b"
  by (metis option.inject try_from_into)

end

lemma u24_ucast_ucast: "(ucast (ucast (a :: u24) :: u32) :: u24) = a"
  by (rule bit_word_eqI) (auto simp: bit_ucast_iff)

lemma u32_ucast_ucast: "v \<le> 0xffffff \<Longrightarrow> ucast (ucast (v :: u32) :: u24) = v"
proof -
  assume "v \<le> 0xffffff"
  then have "unat v < 2 ^ 24"
    by (simp add: word_le_nat_alt)
  then show ?thesis
    by (intro word_unat_eq_iff [THEN iffD2])
      (simp add: unsigned_ucast_eq unsigned_take_bit_eq take_bit_nat_eq_self)
qed

lemma u24_le: "ucast (a :: u24) \<le> (0xffffff :: u32)"
  using unsigned_less [of a, where ?'a = nat] by (simp add: word_le_nat_alt unsigned_ucast_eq take_bit_nat_eq_self)

interpretation addr24: spi_address read_be_u24 "\<lambda>a. be_bytes 3 (unat a)" ucast u24_try_from
proof
  fix s a r v
  show "read_be_u24 s = (Ok a, r) \<longleftrightarrow> s = be_bytes 3 (unat a) @ r"
    by (rule read_be_u24_Ok_iff)
  show "u24_try_from v = Some a \<longleftrightarrow> ucast a = v"
    using u24_le [of a] u24_ucast_ucast [of a] u32_ucast_ucast [of v] by (auto simp: u24_try_from_def)
qed

interpretation addr32: spi_address read_be_u32 "\<lambda>a. be_bytes 4 (unat a)" "\<lambda>a. a" u32_try_from
  by unfold_locales (auto simp: read_be_u32_Ok_iff u32_try_from_def)

section \<open>The command header\<close>

record 'a flash_Header =
  opcode :: OpCode
  haddress :: "'a option"

definition get_address :: "('a \<Rightarrow> u32) \<Rightarrow> 'a flash_Header \<Rightarrow> u32 option" where
  "get_address into_u32 h = map_option into_u32 (haddress h)"

definition flash_Header_from_wire ::
    "(reader, io_error, 'a) eff \<Rightarrow> (reader, FromWireError, 'a flash_Header) eff" where
  "flash_Header_from_wire read_addr =
     eff_bind (from_io read_be_u8) (\<lambda>opcode_u8.
     eff_bind (ok_or (OpCode_from_wire_value opcode_u8) OutOfRange) (\<lambda>op.
     eff_bind (if has_address op then eff_bind (from_io read_addr) (\<lambda>a. ret (Some a)) else ret None) (\<lambda>addr.
     eff_bind (if has_dummy_byte op then eff_bind (from_io read_be_u8) (\<lambda>_. ret ()) else ret ()) (\<lambda>_.
     ret \<lparr>opcode = op, haddress = addr\<rparr>))))"

definition flash_Header_to_wire ::
    "('a \<Rightarrow> ('w, io_error, unit) eff) \<Rightarrow> 'w write_op \<Rightarrow> 'a flash_Header \<Rightarrow> ('w, ToWireError, unit) eff" where
  "flash_Header_to_wire write_addr wb h =
     eff_bind (to_io (write_be_u8 wb (OpCode_to_wire_value (opcode h)))) (\<lambda>_.
     eff_bind (if has_address (opcode h)
               then (case haddress h of None \<Rightarrow> throw InvalidData | Some a \<Rightarrow> to_io (write_addr a))
               else ret ()) (\<lambda>_.
     eff_bind (if has_dummy_byte (opcode h) then to_io (write_be_u8 wb DUMMY_BYTE_VALUE) else ret ()) (\<lambda>_.
     ret ())))"

text \<open>The headers that survive the wire: an address exactly where the op code has one.\<close>

definition flash_Header_valid :: "'a flash_Header \<Rightarrow> bool" where
  "flash_Header_valid h \<longleftrightarrow> (has_address (opcode h) \<longleftrightarrow> haddress h \<noteq> None)"

definition flash_Header_enc :: "('a \<Rightarrow> byte list) \<Rightarrow> 'a flash_Header \<Rightarrow> byte list list" where
  "flash_Header_enc addr_bytes h =
     [[OpCode_to_wire_value (opcode h)]]
     @ (if has_address (opcode h) then [addr_bytes (the (haddress h))] else [])
     @ (if has_dummy_byte (opcode h) then [[DUMMY_BYTE_VALUE]] else [])"

lemma flash_Header_to_wire_seq:
  assumes "flash_Header_valid h"
  shows "flash_Header_to_wire (\<lambda>a. wb (addr_bytes a)) wb h = to_io (write_seq wb (flash_Header_enc addr_bytes h))"
  using assms
  by (auto simp: flash_Header_to_wire_def flash_Header_enc_def flash_Header_valid_def write_be_u8_def
      to_wire_seq_simps)

context spi_address begin

lemma header_dec_enc:
  assumes "flash_Header_valid h"
  shows "flash_Header_from_wire read_addr (concat (flash_Header_enc addr_bytes h) @ r) = (Ok h, r)"
  using assms
  by (auto simp: flash_Header_from_wire_def flash_Header_enc_def flash_Header_valid_def opc.wire_identity
      read_addr_append)

lemma header_from_wire_valid:
  assumes "flash_Header_from_wire read_addr s = (Ok h, r)"
  shows "flash_Header_valid h"
  using assms
  by (auto simp: flash_Header_from_wire_def flash_Header_valid_def codec_iffs split: if_splits)

lemma header_from_wire_length:
  assumes "flash_Header_from_wire read_addr s = (Ok h, r)"
  shows "length s = length (concat (flash_Header_enc addr_bytes h)) + length r"
  using assms
  by (auto simp: flash_Header_from_wire_def flash_Header_enc_def codec_iffs read_addr_Ok_iff split: if_splits)

end

lemma flash_Header24_to_wire_seq:
  assumes "flash_Header_valid h"
  shows "flash_Header_to_wire (write_be_u24 wb) wb h
    = to_io (write_seq wb (flash_Header_enc (\<lambda>a. be_bytes 3 (unat a)) h))"
  using flash_Header_to_wire_seq [OF assms, of wb "\<lambda>a. be_bytes 3 (unat a)"]
  by (simp add: write_be_u24_def [abs_def])

lemma flash_Header32_to_wire_seq:
  assumes "flash_Header_valid h"
  shows "flash_Header_to_wire (write_be_u32 wb) wb h
    = to_io (write_seq wb (flash_Header_enc (\<lambda>a. be_bytes 4 (unat a)) h))"
  using flash_Header_to_wire_seq [OF assms, of wb "\<lambda>a. be_bytes 4 (unat a)"]
  by (simp add: write_be_u32_def [abs_def])

interpretation hdr24: wire_message flash_Header_valid "flash_Header_enc (\<lambda>a. be_bytes 3 (unat a))"
  "flash_Header_from_wire read_be_u24"
  "flash_Header_to_wire (write_be_u24 Cursor_write_bytes) Cursor_write_bytes"
  "flash_Header_to_wire (write_be_u24 slice_write_bytes) slice_write_bytes"
  by unfold_locales (simp_all add: addr24.header_dec_enc flash_Header24_to_wire_seq)

interpretation hdr32: wire_message flash_Header_valid "flash_Header_enc (\<lambda>a. be_bytes 4 (unat a))"
  "flash_Header_from_wire read_be_u32"
  "flash_Header_to_wire (write_be_u32 Cursor_write_bytes) Cursor_write_bytes"
  "flash_Header_to_wire (write_be_u32 slice_write_bytes) slice_write_bytes"
  by unfold_locales (simp_all add: addr32.header_dec_enc flash_Header32_to_wire_seq)

lemma header_missing_address:
  assumes "has_address (opcode h)" "haddress h = None" "write_be_u8 wb (OpCode_to_wire_value (opcode h)) w = (Ok (), w')"
  shows "flash_Header_to_wire write_addr wb h w = (Err InvalidData, w')"
  using assms by (simp add: flash_Header_to_wire_def to_io_def)

section \<open>Properties\<close>

text \<open>A flash command header round-trips in both address widths, with the address and the
  dummy byte present exactly for the op codes that have them.\<close>

theorem flash_header_roundtrip:
  assumes "flash_Header_valid h24" and "flash_Header_valid h32" and "length buf \<le> usize_max"
  shows "(cursor_roundtrips (flash_Header_from_wire read_be_u24)
       (flash_Header_to_wire (write_be_u24 Cursor_write_bytes) Cursor_write_bytes)
       (1 + (if has_address (opcode h24) then 3 else 0) + (if has_dummy_byte (opcode h24) then 1 else 0)) buf h24)
    \<and> (cursor_roundtrips (flash_Header_from_wire read_be_u32)
       (flash_Header_to_wire (write_be_u32 Cursor_write_bytes) Cursor_write_bytes)
       (1 + (if has_address (opcode h32) then 4 else 0) + (if has_dummy_byte (opcode h32) then 1 else 0)) buf h32)"
  using assms by (auto intro!: hdr24.cursor_roundtrips hdr32.cursor_roundtrips simp: flash_Header_enc_def)

theorem flash_header_roundtrip_witness:
  "cursor_roundtrips (flash_Header_from_wire read_be_u24)
      (flash_Header_to_wire (write_be_u24 Cursor_write_bytes) Cursor_write_bytes) 5 (replicate 5 0)
      \<lparr>opcode = FastRead, haddress = Some 0x123456\<rparr>"
  using flash_header_roundtrip [of "\<lparr>opcode = FastRead, haddress = Some 0x123456\<rparr>"
      "\<lparr>opcode = ChipErase, haddress = None\<rparr>" "replicate 5 0"]
  by (simp add: flash_Header_valid_def)

text \<open>Converting a 32-bit address to a three-byte one succeeds exactly when it fits, and the
  result denotes the same address.\<close>

theorem u24_try_from_spec:
  shows "(u24_try_from v = (if unat v < 2 ^ 24 then Some (ucast v) else None))
    \<and> (u24_try_from v = Some a \<longleftrightarrow> ucast a = v)"
proof
  show "u24_try_from v = (if unat v < 2 ^ 24 then Some (ucast v) else None)"
    by (auto simp: u24_try_from_def word_le_nat_alt)
  show "u24_try_from v = Some a \<longleftrightarrow> ucast a = v"
    by (rule addr24.try_from_iff)
qed

end
