(* ===== verification/Payload.thy ===== *)
theory Payload
  imports Wire
begin

text \<open>
  The payload envelope of \<^verbatim>\<open>protocol/payload.rs\<close> with its CRC-8, and the error
  messages of \<^verbatim>\<open>protocol/error.rs\<close>.
\<close>

section \<open>CRC-8\<close>

record Crc8 =
  crc :: u16

definition Crc8_init :: Crc8 where
  "Crc8_init = \<lparr>crc = 0\<rparr>"

definition Crc8_get :: "Crc8 \<Rightarrow> byte" where
  "Crc8_get c = ucast (drop_bit 8 (crc c) AND 0xff)"

text \<open>One round of the inner loop and one byte of the outer loop.\<close>

definition crc_round :: "u16 \<Rightarrow> u16" where
  "crc_round c = push_bit 1 (if c AND 0x8000 \<noteq> 0 then c XOR push_bit 3 0x1070 else c)"

definition crc_byte :: "u16 \<Rightarrow> byte \<Rightarrow> u16" where
  "crc_byte c b = (crc_round ^^ 8) (c XOR push_bit 8 (ucast b))"

definition Crc8_add :: "Crc8 \<Rightarrow> byte list \<Rightarrow> Crc8" where
  "Crc8_add c data = c\<lparr>crc := foldl crc_byte (crc c) data\<rparr>"

section \<open>Content type and header\<close>

datatype pl_ContentType =
    Error_PL
  | Manticore_PL
  | Firmware_PL

fun pl_ContentType_to_wire_value :: "pl_ContentType \<Rightarrow> byte" where
  "pl_ContentType_to_wire_value Error_PL = 0x00"
| "pl_ContentType_to_wire_value Manticore_PL = 0x01"
| "pl_ContentType_to_wire_value Firmware_PL = 0x02"

definition pl_ContentType_from_wire_value :: "byte \<Rightarrow> pl_ContentType option" where
  "pl_ContentType_from_wire_value w =
     (if w = 0x00 then Some Error_PL
      else if w = 0x01 then Some Manticore_PL
      else if w = 0x02 then Some Firmware_PL
      else None)"

fun pl_ContentType_name :: "pl_ContentType \<Rightarrow> string" where
  "pl_ContentType_name Error_PL = ''Error''"
| "pl_ContentType_name Manticore_PL = ''Manticore''"
| "pl_ContentType_name Firmware_PL = ''Firmware''"

definition pl_ContentType_from_name :: "string \<Rightarrow> pl_ContentType option" where
  "pl_ContentType_from_name s =
     (if s = ''Error'' then Some Error_PL
      else if s = ''Manticore'' then Some Manticore_PL
      else if s = ''Firmware'' then Some Firmware_PL
      else None)"

interpretation pl_ct: wire_enum pl_ContentType_to_wire_value pl_ContentType_from_wire_value
  pl_ContentType_name pl_ContentType_from_name
proof
  fix x v s
  show "pl_ContentType_from_wire_value (pl_ContentType_to_wire_value x) = Some x"
    by (cases x) (simp_all add: pl_ContentType_from_wire_value_def)
  show "pl_ContentType_from_wire_value v = Some x \<Longrightarrow> v = pl_ContentType_to_wire_value x"
    by (auto simp: pl_ContentType_from_wire_value_def split: if_splits)
  show "pl_ContentType_from_name (pl_ContentType_name x) = Some x"
    by (cases x) (simp_all add: pl_ContentType_from_name_def)
  show "pl_ContentType_from_name s = Some x \<Longrightarrow> s = pl_ContentType_name x"
    by (auto simp: pl_ContentType_from_name_def split: if_splits)
qed

record pl_Header =
  pl_content :: pl_ContentType
  pl_content_len :: u16
  pl_checksum :: byte

definition pl_HEADER_LEN :: nat where
  "pl_HEADER_LEN = 4"

definition pl_Header_from_wire :: "(reader, FromWireError, pl_Header) eff" where
  "pl_Header_from_wire =
     eff_bind (from_io read_be_u8) (\<lambda>content_u8.
     eff_bind (ok_or (pl_ContentType_from_wire_value content_u8) OutOfRange) (\<lambda>content.
     eff_bind (from_io read_be_u16) (\<lambda>content_len.
     eff_bind (from_io read_be_u8) (\<lambda>checksum.
     ret \<lparr>pl_content = content, pl_content_len = content_len, pl_checksum = checksum\<rparr>))))"

definition pl_Header_to_wire :: "'w write_op \<Rightarrow> pl_Header \<Rightarrow> ('w, ToWireError, unit) eff" where
  "pl_Header_to_wire wb x =
     eff_bind (to_io (write_be_u8 wb (pl_ContentType_to_wire_value (pl_content x)))) (\<lambda>_.
     eff_bind (to_io (write_be_u16 wb (pl_content_len x))) (\<lambda>_.
     eff_bind (to_io (write_be_u8 wb (pl_checksum x))) (\<lambda>_.
     ret ())))"

definition pl_Header_enc :: "pl_Header \<Rightarrow> byte list list" where
  "pl_Header_enc x = [[pl_ContentType_to_wire_value (pl_content x)]] @ [be_bytes 2 (unat (pl_content_len x))] @ [[pl_checksum x]]"

lemma pl_Header_to_wire_seq: "pl_Header_to_wire wb x = to_io (write_seq wb (pl_Header_enc x))"
  by (simp add: pl_Header_to_wire_def pl_Header_enc_def write_be_u16_def write_be_u8_def to_wire_seq_simps)

interpretation pl_hdr: wire_codec_exact "\<lambda>_. True" pl_Header_enc pl_Header_from_wire
  by unfold_locales
    (auto simp: pl_Header_from_wire_def pl_Header_enc_def pl_ct.wire_identity pl_ct.from_wire_value_iff codec_iffs)

interpretation pl_hdr_m: wire_message "\<lambda>_. True" pl_Header_enc pl_Header_from_wire
  "pl_Header_to_wire Cursor_write_bytes" "pl_Header_to_wire slice_write_bytes"
  by unfold_locales (simp_all add: pl_Header_to_wire_seq)

text \<open>The checksum covers the first \<open>content_len\<close> bytes of the payload: slicing past its end panics.\<close>

definition compute_checksum :: "pl_Header \<Rightarrow> byte list \<Rightarrow> ('s, 'e, byte) eff" where
  "compute_checksum header payload =
     (if length payload < unat (pl_content_len header) then panic
      else ret (Crc8_get
        (Crc8_add
          (Crc8_add
            (Crc8_add Crc8_init [pl_ContentType_to_wire_value (pl_content header)])
            (be_bytes 2 (unat (pl_content_len header))))
          (take (unat (pl_content_len header)) payload))))"

section \<open>Error messages\<close>

datatype er_ContentType =
    BadChecksum_T
  | ContentTypeNotSupported_T

fun er_ContentType_to_wire_value :: "er_ContentType \<Rightarrow> byte" where
  "er_ContentType_to_wire_value BadChecksum_T = 0x01"
| "er_ContentType_to_wire_value ContentTypeNotSupported_T = 0x02"

definition er_ContentType_from_wire_value :: "byte \<Rightarrow> er_ContentType option" where
  "er_ContentType_from_wire_value w =
     (if w = 0x01 then Some BadChecksum_T
      else if w = 0x02 then Some ContentTypeNotSupported_T
      else None)"

fun er_ContentType_name :: "er_ContentType \<Rightarrow> string" where
  "er_ContentType_name BadChecksum_T = ''BadChecksum''"
| "er_ContentType_name ContentTypeNotSupported_T = ''ContentTypeNotSupported''"

definition er_ContentType_from_name :: "string \<Rightarrow> er_ContentType option" where
  "er_ContentType_from_name s =
     (if s = ''BadChecksum'' then Some BadChecksum_T
      else if s = ''ContentTypeNotSupported'' then Some ContentTypeNotSupported_T
      else None)"

interpretation er_ct: wire_enum er_ContentType_to_wire_value er_ContentType_from_wire_value
  er_ContentType_name er_ContentType_from_name
proof
  fix x v s
  show "er_ContentType_from_wire_value (er_ContentType_to_wire_value x) = Some x"
    by (cases x) (simp_all add: er_ContentType_from_wire_value_def)
  show "er_ContentType_from_wire_value v = Some x \<Longrightarrow> v = er_ContentType_to_wire_value x"
    by (auto simp: er_ContentType_from_wire_value_def split: if_splits)
  show "er_ContentType_from_name (er_ContentType_name x) = Some x"
    by (cases x) (simp_all add: er_ContentType_from_name_def)
  show "er_ContentType_from_name s = Some x \<Longrightarrow> s = er_ContentType_name x"
    by (auto simp: er_ContentType_from_name_def split: if_splits)
qed

record er_Header =
  er_content :: er_ContentType

definition er_HEADER_LEN :: nat where
  "er_HEADER_LEN = 1"

definition er_Header_from_wire :: "(reader, FromWireError, er_Header) eff" where
  "er_Header_from_wire =
     eff_bind (from_io read_be_u8) (\<lambda>content_u8.
     eff_bind (ok_or (er_ContentType_from_wire_value content_u8) OutOfRange) (\<lambda>content.
     ret \<lparr>er_content = content\<rparr>))"

definition er_Header_to_wire :: "'w write_op \<Rightarrow> er_Header \<Rightarrow> ('w, ToWireError, unit) eff" where
  "er_Header_to_wire wb x =
     eff_bind (to_io (write_be_u8 wb (er_ContentType_to_wire_value (er_content x)))) (\<lambda>_.
     ret ())"

definition er_Header_enc :: "er_Header \<Rightarrow> byte list list" where
  "er_Header_enc x = [[er_ContentType_to_wire_value (er_content x)]]"

lemma er_Header_to_wire_seq: "er_Header_to_wire wb x = to_io (write_seq wb (er_Header_enc x))"
  by (simp add: er_Header_to_wire_def er_Header_enc_def write_be_u8_def to_wire_seq_simps)

interpretation er_hdr: wire_codec_exact "\<lambda>_. True" er_Header_enc er_Header_from_wire
  by unfold_locales
    (auto simp: er_Header_from_wire_def er_Header_enc_def er_ct.wire_identity er_ct.from_wire_value_iff codec_iffs)

interpretation er_hdr_m: wire_message "\<lambda>_. True" er_Header_enc er_Header_from_wire
  "er_Header_to_wire Cursor_write_bytes" "er_Header_to_wire slice_write_bytes"
  by unfold_locales (simp_all add: er_Header_to_wire_seq)

datatype BadChecksum = BadChecksum

definition BAD_CHECKSUM_LEN :: nat where
  "BAD_CHECKSUM_LEN = 0"

definition BadChecksum_from_wire :: "(reader, FromWireError, BadChecksum) eff" where
  "BadChecksum_from_wire = ret BadChecksum"

definition BadChecksum_to_wire :: "'w write_op \<Rightarrow> BadChecksum \<Rightarrow> ('w, ToWireError, unit) eff" where
  "BadChecksum_to_wire wb x = ret ()"

datatype ContentTypeNotSupported = ContentTypeNotSupported

definition CONTENT_TYPE_NOT_SUPPORTED_LEN :: nat where
  "CONTENT_TYPE_NOT_SUPPORTED_LEN = 0"

definition ContentTypeNotSupported_from_wire :: "(reader, FromWireError, ContentTypeNotSupported) eff" where
  "ContentTypeNotSupported_from_wire = ret ContentTypeNotSupported"

definition ContentTypeNotSupported_to_wire :: "'w write_op \<Rightarrow> ContentTypeNotSupported \<Rightarrow> ('w, ToWireError, unit) eff" where
  "ContentTypeNotSupported_to_wire wb x = ret ()"

lemma length_pl_Header_enc [simp]: "length (concat (pl_Header_enc x)) = pl_HEADER_LEN"
  by (simp add: pl_Header_enc_def pl_HEADER_LEN_def)

lemma length_er_Header_enc [simp]: "length (concat (er_Header_enc x)) = er_HEADER_LEN"
  by (simp add: er_Header_enc_def er_HEADER_LEN_def)

section \<open>The checksum is the CRC-8 of polynomial 0x07\<close>

text \<open>
  The reference is the eight-bit shift register of \<open>x^8 + x^2 + x + 1\<close>, most
  significant bit first, starting at zero. The code keeps it in the upper half of a
  sixteen-bit register (\<open>widen\<close>).
\<close>

definition crc8_ref_round :: "byte \<Rightarrow> byte" where
  "crc8_ref_round c = (if bit c 7 then push_bit 1 c XOR 0x07 else push_bit 1 c)"

definition crc8_ref :: "byte \<Rightarrow> byte list \<Rightarrow> byte" where
  "crc8_ref = foldl (\<lambda>c b. (crc8_ref_round ^^ 8) (c XOR b))"

lemma crc_bit15: "(c :: u16) AND 0x8000 \<noteq> 0 \<longleftrightarrow> bit c 15"
  using and_exp_eq_0_iff_not_bit [of c 15] by simp

lemma crc_poly: "push_bit 1 ((c :: u16) XOR push_bit 3 0x1070) = push_bit 1 c XOR push_bit 8 7"
proof -
  have "push_bit 1 (push_bit 3 0x1070 :: u16) = push_bit 8 7"
    by simp
  then show ?thesis
    by (simp only: push_bit_xor)
qed

abbreviation widen :: "byte \<Rightarrow> u16" where
  "widen c \<equiv> push_bit 8 (ucast c)"

lemma widen_push: "push_bit 1 (widen c) = widen (push_bit 1 c)"
proof (rule bit_word_eqI)
  fix n assume "n < LENGTH(16)"
  then show "bit (push_bit 1 (widen c)) n = bit (widen (push_bit 1 c)) n"
    unfolding bit_push_bit_iff bit_ucast_iff by auto
qed

lemma widen_xor: "widen (c XOR d) = widen c XOR widen d"
  by (rule bit_word_eqI) (auto simp: bit_push_bit_iff bit_ucast_iff bit_xor_iff)

lemma crc_round_widen: "crc_round (widen c) = widen (crc8_ref_round c)"
proof -
  have "bit (widen c) 15 \<longleftrightarrow> bit c 7"
    by (simp add: bit_push_bit_iff bit_ucast_iff)
  moreover have "widen 7 = push_bit 8 7"
    by simp
  ultimately show ?thesis
    unfolding crc_round_def crc8_ref_round_def crc_bit15
    by (cases "bit c 7") (simp_all only: crc_poly widen_push widen_xor if_True if_False)
qed

lemma crc_rounds_widen: "(crc_round ^^ k) (widen c) = widen ((crc8_ref_round ^^ k) c)"
  by (induction k) (simp_all add: crc_round_widen)

lemma crc_bytes_widen: "foldl crc_byte (widen c) data = widen (crc8_ref c data)"
  by (induction data arbitrary: c)
    (simp_all add: crc8_ref_def crc_byte_def crc_rounds_widen flip: widen_xor)

lemma ref_round_xor: "crc8_ref_round (c XOR d) = crc8_ref_round c XOR crc8_ref_round d"
  by (auto simp: crc8_ref_round_def bit_xor_iff push_bit_xor ac_simps)

lemma ref_rounds_xor: "(crc8_ref_round ^^ k) (c XOR d) = (crc8_ref_round ^^ k) c XOR (crc8_ref_round ^^ k) d"
  by (induction k) (simp_all add: ref_round_xor)

lemma ref_round_eq_0_iff: "crc8_ref_round c = 0 \<longleftrightarrow> c = 0"
proof
  assume 0: "crc8_ref_round c = 0"
  show "c = 0"
  proof (cases "bit c 7")
    case True
    moreover have "bit (push_bit 1 c XOR 7) 0"
      unfolding bit_xor_iff bit_push_bit_iff by simp
    ultimately show ?thesis using 0 by (simp add: crc8_ref_round_def)
  next
    case False
    then have "push_bit 1 c = 0" using 0 by (simp add: crc8_ref_round_def)
    then have b: "\<not> bit (push_bit 1 c) (Suc n)" for n
      by (simp only: bit_0_eq) simp
    show ?thesis
    proof (rule bit_word_eqI)
      fix n assume "n < LENGTH(8)"
      then show "bit c n = bit 0 n"
        using b [of n, unfolded bit_push_bit_iff] False by (cases "n = 7") auto
    qed
  qed
qed (simp add: crc8_ref_round_def)

lemma ref_rounds_eq_0_iff: "(crc8_ref_round ^^ k) c = 0 \<longleftrightarrow> c = 0"
  by (induction k) (simp_all add: ref_round_eq_0_iff)

lemma xor_eq_0_iff_word: "(a :: 'a::len word) XOR b = 0 \<longleftrightarrow> a = b"
  by (metis xor.right_neutral xor_self_eq xor.assoc)
lemma xor_cancel_left_word: "(a :: 'a::len word) XOR b = a XOR c \<longleftrightarrow> b = c"
  by (metis xor.assoc xor.left_neutral xor_self_eq)

lemma crc8_ref_Cons: "crc8_ref c (b # bs) = crc8_ref ((crc8_ref_round ^^ 8) (c XOR b)) bs"
  by (simp add: crc8_ref_def)

lemma crc8_ref_append: "crc8_ref c (xs @ ys) = crc8_ref (crc8_ref c xs) ys"
  by (simp add: crc8_ref_def)

lemma ref_rounds_inject: "(crc8_ref_round ^^ k) c = (crc8_ref_round ^^ k) d \<longleftrightarrow> c = d"
proof -
  have "(crc8_ref_round ^^ k) c = (crc8_ref_round ^^ k) d \<longleftrightarrow> (crc8_ref_round ^^ k) (c XOR d) = 0"
    by (simp only: ref_rounds_xor xor_eq_0_iff_word)
  then show ?thesis
    by (simp only: ref_rounds_eq_0_iff xor_eq_0_iff_word)
qed

text \<open>The register after a message is an injective function of the register before it.\<close>

lemma crc8_ref_inject: "crc8_ref c bs = crc8_ref d bs \<longleftrightarrow> c = d"
proof (induction bs arbitrary: c d)
  case Nil
  then show ?case by (simp add: crc8_ref_def)
next
  case (Cons b bs)
  then show ?case
    by (simp only: crc8_ref_Cons ref_rounds_inject xor.commute [of _ b] xor_cancel_left_word)
qed

lemma crc8_ref_one_byte:
  "crc8_ref c (xs @ b # ys) = crc8_ref c (xs @ b' # ys) \<longleftrightarrow> b = b'"
  by (simp only: crc8_ref_append crc8_ref_Cons crc8_ref_inject ref_rounds_inject xor_cancel_left_word)

lemma Crc8_get_widen: "Crc8_get \<lparr>crc = widen c\<rparr> = c"
proof -
  have "ucast (drop_bit 8 (widen c) AND 0xff) = c"
  proof (rule bit_word_eqI)
    fix n assume "n < LENGTH(8)"
    moreover have "bit (0xff :: u16) n \<longleftrightarrow> n < 8" if "n < 16" for n
      using bit_mask_iff [of 8 n, where ?'a = u16] that by (simp add: mask_eq_exp_minus_1)
    ultimately show "bit (ucast (drop_bit 8 (widen c) AND 0xff) :: byte) n = bit c n"
      by (simp add: bit_simps)
  qed
  then show ?thesis
    by (simp add: Crc8_get_def)
qed

lemma Crc8_add_widen: "Crc8_add \<lparr>crc = widen c\<rparr> data = \<lparr>crc = widen (crc8_ref c data)\<rparr>"
  by (simp add: Crc8_add_def crc_bytes_widen)

lemma Crc8_init_widen: "Crc8_init = \<lparr>crc = widen 0\<rparr>"
  by (simp add: Crc8_init_def)

definition checksum_input :: "pl_Header \<Rightarrow> byte list \<Rightarrow> byte list" where
  "checksum_input h payload =
     [pl_ContentType_to_wire_value (pl_content h)] @ be_bytes 2 (unat (pl_content_len h))
     @ take (unat (pl_content_len h)) payload"

lemma compute_checksum_ref:
  "compute_checksum h payload =
     (if length payload < unat (pl_content_len h) then panic else ret (crc8_ref 0 (checksum_input h payload)))"
  by (simp only: compute_checksum_def checksum_input_def Crc8_init_widen Crc8_add_widen Crc8_get_widen
      crc8_ref_append)

section \<open>Properties\<close>

text \<open>C39. The checksum of a payload is the CRC-8 of polynomial \<open>x^8 + x^2 + x + 1\<close>, from
  zero, over the content type, the big-endian length and the first \<open>content_len\<close> bytes of
  the content, and the computation panics exactly when the content is shorter than the header says.\<close>

theorem compute_checksum_spec:
  "compute_checksum h payload s =
     (if length payload < unat (pl_content_len h) then (Panic, s)
      else (Ok (crc8_ref 0 (checksum_input h payload)), s))"
  by (simp add: compute_checksum_ref)

text \<open>The checksum detects every corruption confined to one byte of the content: two contents
  that differ in exactly one covered byte have different checksums, and bytes beyond
  \<open>content_len\<close> do not matter.\<close>

theorem checksum_detects_byte:
  assumes "i < unat (pl_content_len h)" and "unat (pl_content_len h) \<le> length payload" and "b \<noteq> payload ! i"
  shows "((fst (compute_checksum h (payload[i := b]) (s :: 's)) :: ('e, byte) outcome) \<noteq> fst (compute_checksum h payload s))
    \<and> ((fst (compute_checksum h (payload @ junk) s) :: ('e, byte) outcome) = fst (compute_checksum h payload s))"
proof -
  let ?n = "unat (pl_content_len h)" and ?d = "take (unat (pl_content_len h)) payload"
  let ?p = "[pl_ContentType_to_wire_value (pl_content h)] @ be_bytes 2 ?n"
  have i: "i < length ?d"
    using assms by simp
  have "checksum_input h payload = (?p @ take i ?d) @ ?d ! i # drop (Suc i) ?d"
    using id_take_nth_drop [OF i] by (simp add: checksum_input_def)
  moreover have "checksum_input h (payload[i := b]) = (?p @ take i ?d) @ b # drop (Suc i) ?d"
    using upd_conv_take_nth_drop [OF i, of b] assms by (simp add: checksum_input_def take_update_swap)
  ultimately have "crc8_ref 0 (checksum_input h (payload[i := b])) = crc8_ref 0 (checksum_input h payload)
      \<longleftrightarrow> b = ?d ! i"
    by (simp only: crc8_ref_one_byte)
  then have "(fst (compute_checksum h (payload[i := b]) s) :: ('e, byte) outcome) \<noteq> fst (compute_checksum h payload s)"
    using assms by (simp add: compute_checksum_ref)
  moreover have "(fst (compute_checksum h (payload @ junk) s) :: ('e, byte) outcome) = fst (compute_checksum h payload s)"
    using assms by (simp add: compute_checksum_ref checksum_input_def)
  ultimately show ?thesis ..
qed

theorem checksum_detects_byte_witness:
  "(fst (compute_checksum \<lparr>pl_content = Firmware_PL, pl_content_len = 2, pl_checksum = 0\<rparr> [1, 3, 9] (0 :: nat)) :: (unit, byte) outcome)
   \<noteq> fst (compute_checksum \<lparr>pl_content = Firmware_PL, pl_content_len = 2, pl_checksum = 0\<rparr> [1, 2, 9] (0 :: nat))"
  using checksum_detects_byte [where i = 1 and b = 3 and payload = "[1, 2, 9]" and s = "0 :: nat" and ?'e = unit
      and h = "\<lparr>pl_content = Firmware_PL, pl_content_len = 2, pl_checksum = 0\<rparr>"] by simp

end
