(* ===== verification/Driver_Config.thy ===== *)
theory Driver_Config
  imports Wire
begin

text \<open>
  The structures user space and kernel exchange about resets and the SPI device:
  \<^verbatim>\<open>driver/reset.rs\<close> and \<^verbatim>\<open>driver/spi_device.rs\<close>.
\<close>

section \<open>Reset source\<close>

record ResetSource =
  power_on_reset :: bool
  low_power_reset :: bool
  watchdog_reset :: bool
  lockup_reset :: bool
  sysreset :: bool
  software_reset :: bool
  fast_burnout_circuit :: bool
  security_breach_reset :: bool

definition RESET_SOURCE_LEN :: nat where
  "RESET_SOURCE_LEN = 8"

definition ResetSource_from_wire :: "(reader, FromWireError, ResetSource) eff" where
  "ResetSource_from_wire =
     eff_bind (from_io read_be_u8) (\<lambda>b0.
     eff_bind (from_io read_be_u8) (\<lambda>b1.
     eff_bind (from_io read_be_u8) (\<lambda>b2.
     eff_bind (from_io read_be_u8) (\<lambda>b3.
     eff_bind (from_io read_be_u8) (\<lambda>b4.
     eff_bind (from_io read_be_u8) (\<lambda>b5.
     eff_bind (from_io read_be_u8) (\<lambda>b6.
     eff_bind (from_io read_be_u8) (\<lambda>b7.
     ret \<lparr>power_on_reset = (b0 \<noteq> 0),
          low_power_reset = (b1 \<noteq> 0),
          watchdog_reset = (b2 \<noteq> 0),
          lockup_reset = (b3 \<noteq> 0),
          sysreset = (b4 \<noteq> 0),
          software_reset = (b5 \<noteq> 0),
          fast_burnout_circuit = (b6 \<noteq> 0),
          security_breach_reset = (b7 \<noteq> 0)\<rparr>))))))))"

definition ResetSource_to_wire :: "'w write_op \<Rightarrow> ResetSource \<Rightarrow> ('w, ToWireError, unit) eff" where
  "ResetSource_to_wire wb x =
     eff_bind (to_io (write_be_u8 wb (if power_on_reset x then 1 else 0))) (\<lambda>_.
     eff_bind (to_io (write_be_u8 wb (if low_power_reset x then 1 else 0))) (\<lambda>_.
     eff_bind (to_io (write_be_u8 wb (if watchdog_reset x then 1 else 0))) (\<lambda>_.
     eff_bind (to_io (write_be_u8 wb (if lockup_reset x then 1 else 0))) (\<lambda>_.
     eff_bind (to_io (write_be_u8 wb (if sysreset x then 1 else 0))) (\<lambda>_.
     eff_bind (to_io (write_be_u8 wb (if software_reset x then 1 else 0))) (\<lambda>_.
     eff_bind (to_io (write_be_u8 wb (if fast_burnout_circuit x then 1 else 0))) (\<lambda>_.
     eff_bind (to_io (write_be_u8 wb (if security_breach_reset x then 1 else 0))) (\<lambda>_.
     ret ()))))))))"

definition ResetSource_enc :: "ResetSource \<Rightarrow> byte list list" where
  "ResetSource_enc x =
     [[if power_on_reset x then 1 else 0],
      [if low_power_reset x then 1 else 0],
      [if watchdog_reset x then 1 else 0],
      [if lockup_reset x then 1 else 0],
      [if sysreset x then 1 else 0],
      [if software_reset x then 1 else 0],
      [if fast_burnout_circuit x then 1 else 0],
      [if security_breach_reset x then 1 else 0]]"

lemma ResetSource_to_wire_seq: "ResetSource_to_wire wb x = to_io (write_seq wb (ResetSource_enc x))"
  by (simp add: ResetSource_to_wire_def ResetSource_enc_def write_be_u8_def to_wire_seq_simps)

interpretation rsrc: wire_message "\<lambda>_. True" ResetSource_enc ResetSource_from_wire
  "ResetSource_to_wire Cursor_write_bytes" "ResetSource_to_wire slice_write_bytes"
  by unfold_locales (simp_all add: ResetSource_to_wire_seq ResetSource_from_wire_def ResetSource_enc_def)

section \<open>SPI device configuration\<close>

datatype HandlerMode = Disabled | UserSpace | KernelSpace

definition HandlerMode_default :: HandlerMode where
  "HandlerMode_default = Disabled"

definition HandlerMode_try_from :: "nat \<Rightarrow> HandlerMode option" where
  "HandlerMode_try_from item =
     (if item = 0 then Some Disabled else if item = 1 then Some UserSpace
      else if item = 2 then Some KernelSpace else None)"

record AddressConfig =
  flash_virtual_base :: u32
  flash_physical_base :: u32
  flash_physical_size :: u32
  ram_virtual_base :: u32
  virtual_size :: u32

definition ADDRESS_CONFIG_LEN :: nat where
  "ADDRESS_CONFIG_LEN = 5 * 4"

definition AddressConfig_from_wire :: "(reader, FromWireError, AddressConfig) eff" where
  "AddressConfig_from_wire =
     eff_bind (from_io read_be_u32) (\<lambda>flash_virtual_base_v.
     eff_bind (from_io read_be_u32) (\<lambda>flash_physical_base_v.
     eff_bind (from_io read_be_u32) (\<lambda>flash_physical_size_v.
     eff_bind (from_io read_be_u32) (\<lambda>ram_virtual_base_v.
     eff_bind (from_io read_be_u32) (\<lambda>virtual_size_v.
     ret \<lparr>flash_virtual_base = flash_virtual_base_v, flash_physical_base = flash_physical_base_v, flash_physical_size = flash_physical_size_v, ram_virtual_base = ram_virtual_base_v, virtual_size = virtual_size_v\<rparr>)))))"

definition AddressConfig_to_wire :: "'w write_op \<Rightarrow> AddressConfig \<Rightarrow> ('w, ToWireError, unit) eff" where
  "AddressConfig_to_wire wb x =
     eff_bind (to_io (write_be_u32 wb (flash_virtual_base x))) (\<lambda>_.
     eff_bind (to_io (write_be_u32 wb (flash_physical_base x))) (\<lambda>_.
     eff_bind (to_io (write_be_u32 wb (flash_physical_size x))) (\<lambda>_.
     eff_bind (to_io (write_be_u32 wb (ram_virtual_base x))) (\<lambda>_.
     eff_bind (to_io (write_be_u32 wb (virtual_size x))) (\<lambda>_.
     ret ())))))"

definition AddressConfig_enc :: "AddressConfig \<Rightarrow> byte list list" where
  "AddressConfig_enc x = [be_bytes 4 (unat (flash_virtual_base x))] @ [be_bytes 4 (unat (flash_physical_base x))] @ [be_bytes 4 (unat (flash_physical_size x))] @ [be_bytes 4 (unat (ram_virtual_base x))] @ [be_bytes 4 (unat (virtual_size x))]"

lemma AddressConfig_to_wire_seq: "AddressConfig_to_wire wb x = to_io (write_seq wb (AddressConfig_enc x))"
  by (simp add: AddressConfig_to_wire_def AddressConfig_enc_def write_be_u32_def to_wire_seq_simps)

interpretation acfg: wire_codec_exact "\<lambda>_. True" AddressConfig_enc AddressConfig_from_wire
  by unfold_locales
    (auto simp: AddressConfig_from_wire_def AddressConfig_enc_def codec_iffs)

interpretation acfg_m: wire_message "\<lambda>_. True" AddressConfig_enc AddressConfig_from_wire
  "AddressConfig_to_wire Cursor_write_bytes" "AddressConfig_to_wire slice_write_bytes"
  by unfold_locales (simp_all add: AddressConfig_to_wire_seq)

lemma length_ResetSource_enc [simp]: "length (concat (ResetSource_enc x)) = RESET_SOURCE_LEN"
  by (simp add: ResetSource_enc_def RESET_SOURCE_LEN_def)

lemma length_AddressConfig_enc [simp]: "length (concat (AddressConfig_enc x)) = ADDRESS_CONFIG_LEN"
  by (simp add: AddressConfig_enc_def ADDRESS_CONFIG_LEN_def)

end
