(* ===== verification/Flash_Hw.thy ===== *)
theory Flash_Hw
  imports Prelude
begin

text \<open>
  The hardware side of the flash driver under \<^verbatim>\<open>kernel/h1/src/hil/flash\<close>: the
  \<^verbatim>\<open>Hardware\<close> trait as a dictionary of operations over a hardware state, its
  implementation on the controller registers (\<^verbatim>\<open>h1_hw.rs\<close>), and the fake flash
  module of the unit tests (\<^verbatim>\<open>fake.rs\<close>) with its operation log. The alarm
  of the kernel is a dictionary too, with the mock alarm of
  \<^verbatim>\<open>userspace/flash_test/src/mock_alarm.rs\<close> as an instance.
\<close>

section \<open>The interfaces\<close>

datatype Bank = Zero | One

text \<open>
  \<open>set_write_data\<close> indexes a 32-word array: \<open>None\<close> is the panic on longer
  data.
\<close>

record 'h Hardware =
  is_programming :: "'h \<Rightarrow> bool"
  hw_read :: "nat \<Rightarrow> 'h \<Rightarrow> ReturnCode"
  read_error :: "'h \<Rightarrow> u16 \<times> 'h"
  set_transaction :: "nat \<Rightarrow> nat \<Rightarrow> 'h \<Rightarrow> 'h"
  set_write_data :: "u32 list \<Rightarrow> 'h \<Rightarrow> 'h option"
  trigger :: "u32 \<Rightarrow> Bank \<Rightarrow> 'h \<Rightarrow> 'h"

record 'a Alarm =
  frequency :: u32
  now :: "'a \<Rightarrow> u32"
  set_alarm :: "u32 \<Rightarrow> u32 \<Rightarrow> 'a \<Rightarrow> 'a"
  disarm :: "'a \<Rightarrow> 'a"

section \<open>The mock alarm\<close>

record MockAlarm =
  current_time :: u32
  setpoint :: "u32 option"

definition MockAlarm_new :: MockAlarm where
  "MockAlarm_new = \<lparr>current_time = 0, setpoint = Some 0\<rparr>"

definition MockAlarm_set_time :: "u32 \<Rightarrow> MockAlarm \<Rightarrow> MockAlarm" where
  "MockAlarm_set_time new_time a = a\<lparr>current_time := new_time\<rparr>"

definition MockAlarm_is_armed :: "MockAlarm \<Rightarrow> bool" where
  "MockAlarm_is_armed a = (setpoint a \<noteq> None)"

definition MockAlarm_get_alarm :: "MockAlarm \<Rightarrow> u32" where
  "MockAlarm_get_alarm a = (case setpoint a of Some t \<Rightarrow> t | None \<Rightarrow> 0)"

definition mock_alarm :: "MockAlarm Alarm" where
  "mock_alarm = \<lparr>frequency = 256000, now = current_time,
     set_alarm = (\<lambda>reference dt a. a\<lparr>setpoint := Some (reference + dt)\<rparr>),
     disarm = (\<lambda>a. a\<lparr>setpoint := None\<rparr>)\<rparr>"

section \<open>The flash controller\<close>

definition H1_FLASH_START :: nat where
  "H1_FLASH_START = 0x40000"

definition H1_FLASH_BANK_SIZE :: nat where
  "H1_FLASH_BANK_SIZE = 0x40000"

definition H1_FLASH_SIZE :: nat where
  "H1_FLASH_SIZE = 0x80000"

definition H1_FLASH_PAGE_SIZE :: nat where
  "H1_FLASH_PAGE_SIZE = 0x800"

text \<open>
  The registers the driver touches, and the memory map it reads the flash through (a word
  per byte address). What the controller does between two accesses is left open.
\<close>

record H1bHw =
  pe_control_0 :: u32
  pe_control_1 :: u32
  transaction_parameters :: u32
  h1_write_data :: "u32 list"
  program_erase_enable :: u32
  error_code :: u32
  memory :: "nat \<Rightarrow> u32"

text \<open>The fields of the transaction register: offset in bits 0 to 15, bank in bit 16, size in bits 17 to 21.\<close>

definition TransactionParameters_val :: "nat \<Rightarrow> nat \<Rightarrow> u32" where
  "TransactionParameters_val off sz =
     (word_of_nat off AND mask 16) OR push_bit 17 (word_of_nat sz AND mask 5)"

fun set_words :: "nat \<Rightarrow> u32 list \<Rightarrow> u32 list \<Rightarrow> u32 list option" where
  "set_words i [] ws = Some ws"
| "set_words i (v # vs) ws = (if i < length ws then set_words (Suc i) vs (ws[i := v]) else None)"

definition H1bHw_read :: "nat \<Rightarrow> H1bHw \<Rightarrow> ReturnCode" where
  "H1bHw_read offset h =
     (if H1_FLASH_SIZE < offset then ESIZE
      else SuccessWithValue (unat (memory h (H1_FLASH_START + 4 * offset))))"

definition H1bHw_hardware :: "H1bHw Hardware" where
  "H1bHw_hardware =
     \<lparr>is_programming = (\<lambda>h. pe_control_0 h \<noteq> 0 \<or> pe_control_1 h \<noteq> 0),
      hw_read = H1bHw_read,
      read_error = (\<lambda>h. (ucast (error_code h), h)),
      set_transaction = (\<lambda>off sz h.
        h\<lparr>transaction_parameters := TransactionParameters_val off sz\<rparr>),
      set_write_data = (\<lambda>data h.
        map_option (\<lambda>ws. h\<lparr>h1_write_data := ws\<rparr>) (set_words 0 data (h1_write_data h))),
      trigger = (\<lambda>op bank h. case bank of
          Zero \<Rightarrow> h\<lparr>program_erase_enable := 0xb11924e1, pe_control_0 := op\<rparr>
        | One \<Rightarrow> h\<lparr>program_erase_enable := 0xb11924e1, pe_control_1 := op\<rparr>)\<rparr>"

section \<open>The fake flash module\<close>

record LogEntry =
  entry_value :: u32
  bank :: "Bank option"
  bank_offset :: nat

record FakeHw =
  fake_error :: u16
  fake_opcode :: u32
  transaction_bank :: "Bank option"
  transaction_bank_offset :: nat
  transaction_size :: nat
  fake_write_data :: "u32 list"
  log :: "LogEntry list"

definition LOG_CAPACITY :: nat where
  "LOG_CAPACITY = 9"

definition ERASE_OPCODE :: u32 where
  "ERASE_OPCODE = 0x31415927"

definition WRITE_OPCODE :: u32 where
  "WRITE_OPCODE = 0x27182818"

definition FakeHw_new :: FakeHw where
  "FakeHw_new = \<lparr>fake_error = 0, fake_opcode = 0, transaction_bank = None, transaction_bank_offset = 0,
     transaction_size = 0, fake_write_data = replicate 32 0, log = []\<rparr>"

definition inject_result :: "u16 \<Rightarrow> FakeHw \<Rightarrow> FakeHw" where
  "inject_result e h = h\<lparr>fake_error := e, fake_opcode := 0\<rparr>"

text \<open>
  The backwards scan of \<open>finish_operation\<close>, over the log from its newest entry:
  whether the operation would set a bit that an earlier write cleared.
\<close>

fun write_conflict :: "FakeHw \<Rightarrow> LogEntry list \<Rightarrow> bool" where
  "write_conflict h [] = False"
| "write_conflict h (e # es) =
     (if entry_value e = 0xffffffff then False
      else if bank e = transaction_bank h \<and> transaction_bank_offset h \<le> bank_offset e
              \<and> bank_offset e < transaction_bank_offset h + transaction_size h
              \<and> fake_write_data h ! (bank_offset e - transaction_bank_offset h) AND NOT (entry_value e) \<noteq> 0
           then True
           else write_conflict h es)"

definition finish_operation :: "FakeHw \<Rightarrow> FakeHw" where
  "finish_operation h0 =
     (let h = (if fake_opcode h0 = ERASE_OPCODE then h0\<lparr>transaction_size := 1\<rparr> else h0) in
      if LOG_CAPACITY < length (log h) + transaction_size h then inject_result 0x8 h
      else if write_conflict h (rev (log h)) then inject_result 0x8 h
      else h\<lparr>log := log h @ map (\<lambda>i. \<lparr>entry_value = (if fake_opcode h = ERASE_OPCODE then 0xffffffff
                                                else fake_write_data h ! i),
                                      bank = transaction_bank h,
                                      bank_offset = transaction_bank_offset h + i\<rparr>)
                                [0..<transaction_size h],
             fake_opcode := 0\<rparr>)"

fun replay :: "Bank \<Rightarrow> nat \<Rightarrow> LogEntry list \<Rightarrow> u32" where
  "replay b off [] = 0xffffffff"
| "replay b off (e # es) =
     (if entry_value e = 0xffffffff
      then if bank e = Some b \<and> bank_offset e \<le> off \<and> off < bank_offset e + 512 then 0xffffffff
           else replay b off es
      else if bank e = Some b \<and> off = bank_offset e then entry_value e
           else replay b off es)"

definition FakeHw_read :: "nat \<Rightarrow> FakeHw \<Rightarrow> ReturnCode" where
  "FakeHw_read offset h =
     (let words = H1_FLASH_BANK_SIZE div 4 in
      SuccessWithValue (unat (replay (if offset < words then Zero else One) (offset mod words) (rev (log h)))))"

definition FakeHw_hardware :: "FakeHw Hardware" where
  "FakeHw_hardware =
     \<lparr>is_programming = (\<lambda>h. fake_opcode h \<noteq> 0),
      hw_read = FakeHw_read,
      read_error = (\<lambda>h. (fake_error h, h\<lparr>fake_error := 0\<rparr>)),
      set_transaction = (\<lambda>off sz h.
        h\<lparr>transaction_bank_offset := off, transaction_size := (sz + 1) mod 2 ^ 32\<rparr>),
      set_write_data = (\<lambda>data h.
        map_option (\<lambda>ws. h\<lparr>fake_write_data := ws\<rparr>) (set_words 0 data (fake_write_data h))),
      trigger = (\<lambda>op b h. h\<lparr>transaction_bank := Some b, fake_opcode := op\<rparr>)\<rparr>"

section \<open>Lemmas\<close>

lemma set_words_eq:
  "i \<le> length ws \<Longrightarrow> set_words i vs ws =
     (if i + length vs \<le> length ws then Some (take i ws @ vs @ drop (i + length vs) ws) else None)"
proof (induction vs arbitrary: i ws)
  case Nil
  then show ?case by simp
next
  case (Cons v vs)
  show ?case
  proof (cases "i < length ws")
    case True
    then have "set_words (Suc i) vs (ws[i := v]) =
      (if Suc i + length vs \<le> length ws
       then Some (take (Suc i) (ws[i := v]) @ vs @ drop (Suc i + length vs) (ws[i := v])) else None)"
      using Cons.IH [of "Suc i" "ws[i := v]"] by simp
    moreover have "take (Suc i) (ws[i := v]) = take i ws @ [v]"
      using True by (simp add: take_Suc_conv_app_nth)
    ultimately show ?thesis
      using True by simp
  next
    case False
    with Cons.prems show ?thesis by simp
  qed
qed

lemma set_words_0:
  "set_words 0 vs ws = (if length vs \<le> length ws then Some (vs @ drop (length vs) ws) else None)"
  using set_words_eq [of 0 ws vs] by simp

end
