(* ===== verification/Smart_Program.thy ===== *)
theory Smart_Program
  imports Flash_Hw
begin

text \<open>
  The smart programming state machine of \<^verbatim>\<open>hil/flash/smart_program.rs\<close>. A step
  runs on any hardware and any alarm; between two steps the hardware may do anything, which is
  an arbitrary function on its state in the run below.
\<close>

datatype SmartProgramState =
    Init byte bool u32
  | Running byte bool u32
  | Finished ReturnCode

definition SmartProgramState_init :: "byte \<Rightarrow> bool \<Rightarrow> u32 \<Rightarrow> SmartProgramState" where
  "SmartProgramState_init max_attempts final_pulse_needed timeout_nanoseconds =
     Init max_attempts final_pulse_needed timeout_nanoseconds"

fun return_code :: "SmartProgramState \<Rightarrow> ReturnCode option" where
  "return_code (Finished code) = Some code"
| "return_code _ = None"

definition decode_error :: "u16 \<Rightarrow> ReturnCode" where
  "decode_error error_flags = (if error_flags AND 2 \<noteq> 0 then ESIZE else FAIL)"

definition div_round_up :: "u64 \<Rightarrow> u64 \<Rightarrow> u64" where
  "div_round_up numerator denominator =
     numerator div denominator + (if numerator mod denominator = 0 then 0 else 1)"

text \<open>The number of ticks is computed in 64 bits and cut to 32.\<close>

definition program_timeout_ticks :: "u32 \<Rightarrow> u32 \<Rightarrow> u32" where
  "program_timeout_ticks freq timeout_nanoseconds =
     ucast (div_round_up (ucast freq * ucast timeout_nanoseconds) 1000000000)"

definition set_program_timeout :: "'a Alarm \<Rightarrow> u32 \<Rightarrow> 'a \<Rightarrow> 'a" where
  "set_program_timeout A timeout_nanoseconds a =
     set_alarm A (now A a) (program_timeout_ticks (frequency A) timeout_nanoseconds) a"

fun smart_step :: "'a Alarm \<Rightarrow> 'h Hardware \<Rightarrow> u32 \<Rightarrow> Bank \<Rightarrow> SmartProgramState \<Rightarrow> 'a \<times> 'h
    \<Rightarrow> SmartProgramState \<times> 'a \<times> 'h" where
  "smart_step A H op bk (Init attempts final timeout) (a, h) =
     (Running (attempts - 1) final timeout, set_program_timeout A timeout a, trigger H op bk h)"
| "smart_step A H op bk (Running attempts final timeout) (a, h) =
     (if is_programming H h then (Finished FAIL, disarm A a, h)
      else case read_error H h of (error, h) \<Rightarrow>
        if error = 0 then
          if final then (Running 0 False timeout, set_program_timeout A timeout a, trigger H op bk h)
          else (Finished SUCCESS, disarm A a, h)
        else if 0 < attempts then
          (Running (attempts - 1) final timeout, set_program_timeout A timeout a, trigger H op bk h)
        else (Finished (decode_error error), disarm A a, h))"
| "smart_step A H op bk (Finished code) (a, h) = (Finished code, a, h)"

section \<open>Timeouts\<close>

lemma u64_times_bound: "unat (ucast (x :: u32) * ucast (y :: u32) :: u64) = unat x * unat y"
proof -
  have "unat x * unat y < 2 ^ 64"
  proof -
    have "unat x * unat y < 2 ^ 32 * 2 ^ 32"
      using unsigned_less [of x] unsigned_less [of y] by (intro mult_strict_mono) auto
    then show ?thesis by simp
  qed
  moreover have "take_bit 64 (unat (z :: u32)) = unat z" for z
    by (rule take_bit_nat_eq_self, rule less_trans [OF unsigned_less]) simp
  ultimately show ?thesis
    by (simp add: unat_word_ariths unsigned_ucast_eq)
qed

lemma unat_div_round_up:
  assumes "0 < unat d" and "unat n div unat d < 2 ^ 63"
  shows "unat (div_round_up n d) = unat n div unat d + (if unat n mod unat d = 0 then 0 else 1)"
proof -
  have "n mod d = 0 \<longleftrightarrow> unat n mod unat d = 0"
    by (simp add: word_unat_eq_iff unat_mod_distrib)
  with assms show ?thesis
    by (simp add: div_round_up_def unat_div_distrib unat_word_ariths unsigned_less)
qed

lemma round_up_bounds:
  fixes p d n :: nat
  assumes "0 < d" and "p \<le> d * n" and q: "q = p div d + (if p mod d = 0 then 0 else 1)"
  shows "q \<le> n \<and> p \<le> q * d \<and> q * d < p + d"
proof (cases "p mod d = 0")
  case True
  then have pq: "p = d * q" using q by auto
  then have "d * q \<le> d * n" using assms(2) by simp
  then have "q \<le> n" using assms(1) by simp
  then show ?thesis using pq assms(1) by (simp add: mult.commute)
next
  case False
  have p: "p = d * (p div d) + p mod d" by simp
  have "d * (p div d) < d * n"
    using False p assms(2) by linarith
  then have "p div d < n" by simp
  moreover have "q * d = d * (p div d) + d"
    using q False by simp
  moreover have "q = Suc (p div d)" and "0 < p mod d" and "p mod d < d"
    using q False assms(1) by auto
  ultimately show ?thesis
    using p by linarith
qed

section \<open>Progress\<close>

text \<open>How many more steps a state takes at most, whatever the hardware does.\<close>

fun steps_left :: "SmartProgramState \<Rightarrow> nat" where
  "steps_left (Init attempts final _) =
     (if attempts = 0 then 256 else unat attempts) + (if final then 1 else 0) + 1"
| "steps_left (Running attempts final _) = unat attempts + (if final then 1 else 0) + 1"
| "steps_left (Finished _) = 0"

lemma unat_minus_one_byte: "0 < (x :: byte) \<Longrightarrow> unat (x - 1) = unat x - 1"
  by (simp add: unat_minus_one word_gt_0)

lemma smart_step_decreases:
  assumes "smart_step A H op bk st (a, h) = (st', a', h')" and "return_code st = None"
  shows "steps_left st' < steps_left st"
proof (cases st)
  case (Init m f t)
  have "m = 0 \<Longrightarrow> unat (m - 1) = 255"
    by (simp add: unsigned_minus_1_eq_mask mask_eq_exp_minus_1)
  moreover have "m \<noteq> 0 \<Longrightarrow> unat (m - 1) < unat m"
    by (metis unat_minus_one_byte word_gt_0 unat_gt_0 diff_less zero_less_one)
  ultimately show ?thesis
    using Init assms by (cases "m = 0") auto
next
  case (Running m f t)
  have "0 < m \<Longrightarrow> unat (m - 1) < unat m"
    by (metis unat_minus_one_byte word_gt_0 unat_gt_0 diff_less zero_less_one)
  with Running assms show ?thesis
    by (auto split: if_splits prod.splits)
next
  case (Finished c)
  with assms show ?thesis by auto
qed

text \<open>
  A run: the environment acts on the hardware, then a step is made, until the machine is
  finished. The result counts the steps.
\<close>

fun smart_run :: "'a Alarm \<Rightarrow> 'h Hardware \<Rightarrow> u32 \<Rightarrow> Bank \<Rightarrow> ('h \<Rightarrow> 'h) list \<Rightarrow> SmartProgramState \<Rightarrow> 'a \<times> 'h
    \<Rightarrow> SmartProgramState \<times> 'a \<times> 'h" where
  "smart_run A H op bk [] st (a, h) = (st, a, h)"
| "smart_run A H op bk (e # es) st (a, h) =
     (case smart_step A H op bk st (a, e h) of (st', a', h') \<Rightarrow> smart_run A H op bk es st' (a', h'))"

lemma smart_run_finishes:
  assumes "steps_left st \<le> length es"
  shows "\<exists>code. fst (smart_run A H op bk es st (a, h)) = Finished code"
  using assms
proof (induction es arbitrary: st a h)
  case Nil
  then show ?case by (cases st) auto
next
  case (Cons e es)
  obtain st' a' h' where step: "smart_step A H op bk st (a, e h) = (st', a', h')"
    by (metis prod.exhaust)
  have "steps_left st' \<le> length es"
  proof (cases "return_code st")
    case None
    then show ?thesis using smart_step_decreases [OF step] Cons.prems by simp
  next
    case (Some c)
    then have "st = Finished c" by (cases st) auto
    then show ?thesis using step by auto
  qed
  then show ?case using Cons.IH step by simp
qed

section \<open>Pulses\<close>

text \<open>The same hardware with a counter of the pulses it was told to make.\<close>

definition counting :: "'h Hardware \<Rightarrow> ('h \<times> nat) Hardware" where
  "counting H = \<lparr>is_programming = (\<lambda>(h, n). is_programming H h),
     hw_read = (\<lambda>off (h, n). hw_read H off h),
     read_error = (\<lambda>(h, n). case read_error H h of (e, h') \<Rightarrow> (e, (h', n))),
     set_transaction = (\<lambda>off sz (h, n). (set_transaction H off sz h, n)),
     set_write_data = (\<lambda>d (h, n). map_option (\<lambda>h'. (h', n)) (set_write_data H d h)),
     trigger = (\<lambda>op b (h, n). (trigger H op b h, Suc n))\<rparr>"

definition counting_env :: "('h \<Rightarrow> 'h) \<Rightarrow> 'h \<times> nat \<Rightarrow> 'h \<times> nat" where
  "counting_env e hn = (e (fst hn), snd hn)"

lemma counting_env_Pair [simp]: "counting_env e (h, n) = (e h, n)"
  by (simp add: counting_env_def)

fun pulses_due :: "SmartProgramState \<Rightarrow> nat" where
  "pulses_due (Init _ final _) = (if final then 2 else 1)"
| "pulses_due (Running _ final _) = (if final then 1 else 0)"
| "pulses_due (Finished _) = 0"

lemma smart_step_pulses:
  assumes "smart_step A (counting H) op bk st (a, (h, n)) = (st', a', (h', n'))"
  shows "n' + (steps_left st' - 1) \<le> n + (steps_left st - 1)"
    and "st' = Finished SUCCESS \<or> return_code st' = None \<Longrightarrow> n + pulses_due st \<le> n' + pulses_due st'"
proof -
  have dec: "return_code st = None \<Longrightarrow> steps_left st' < steps_left st"
    using smart_step_decreases [OF assms] .
  show "n' + (steps_left st' - 1) \<le> n + (steps_left st - 1)"
    using assms dec by (cases st) (auto simp: counting_def split: if_splits prod.splits)
  show "st' = Finished SUCCESS \<or> return_code st' = None \<Longrightarrow> n + pulses_due st \<le> n' + pulses_due st'"
    using assms by (cases st) (auto simp: counting_def decode_error_def split: if_splits prod.splits)
qed

lemma smart_run_Finished [simp]: "fst (smart_run A H op bk es (Finished c) (a, h)) = Finished c"
  by (induction es arbitrary: h) auto

lemma smart_run_Cons:
  assumes "smart_step A H op bk st (a, e h) = (st', a', h')"
  shows "smart_run A H op bk (e # es) st (a, h) = smart_run A H op bk es st' (a', h')"
  using assms by simp

lemma smart_run_max_pulses:
  assumes "smart_run A (counting H) op bk (map counting_env es) st (a, (h, n)) = (st', a', (h', n'))"
  shows "n' + (steps_left st' - 1) \<le> n + (steps_left st - 1)"
  using assms
proof (induction es arbitrary: st a h n)
  case Nil
  then show ?case by simp
next
  case (Cons e es)
  obtain st1 a1 h1 n1 where s: "smart_step A (counting H) op bk st (a, (e h, n)) = (st1, a1, (h1, n1))"
    by (metis prod.exhaust)
  then have "n1 + (steps_left st1 - 1) \<le> n + (steps_left st - 1)"
    by (rule smart_step_pulses(1))
  moreover have "n' + (steps_left st' - 1) \<le> n1 + (steps_left st1 - 1)"
    using Cons.IH [of st1 a1 h1 n1] Cons.prems s by simp
  ultimately show ?case by simp
qed

lemma smart_run_min_pulses:
  assumes "smart_run A (counting H) op bk (map counting_env es) st (a, (h, n)) = (Finished SUCCESS, a', (h', n'))"
  shows "n + pulses_due st \<le> n'"
  using assms
proof (induction es arbitrary: st a h n)
  case Nil
  then show ?case by simp
next
  case (Cons e es)
  obtain st1 a1 h1 n1 where s: "smart_step A (counting H) op bk st (a, (e h, n)) = (st1, a1, (h1, n1))"
    by (metis prod.exhaust)
  have r: "smart_run A (counting H) op bk (map counting_env es) st1 (a1, (h1, n1)) = (Finished SUCCESS, a', (h', n'))"
    using Cons.prems s by simp
  have "st1 = Finished SUCCESS \<or> return_code st1 = None"
    using r by (cases st1) (auto dest: arg_cong [of _ _ fst])
  then have "n + pulses_due st \<le> n1 + pulses_due st1"
    using smart_step_pulses(2) [OF s] by blast
  moreover have "n1 + pulses_due st1 \<le> n'"
    using Cons.IH [OF r] .
  ultimately show ?case by simp
qed

section \<open>Properties\<close>

text \<open>C37. Smart programming always ends: whatever the hardware does between the steps, a program of
  \<open>m\<close> attempts is finished after its start and at most \<open>m\<close> alarms, one more if it needs
  a final pulse (so at most 9 for a write and 45 for an erase).\<close>

theorem smart_program_terminates:
  assumes "0 < m" and "unat m + (if final then 1 else 0) \<le> length es"
  shows "\<exists>code. fst (smart_run A H op bk (e0 # es) (SmartProgramState_init m final timeout) (a, h)) = Finished code"
proof (rule smart_run_finishes)
  show "steps_left (SmartProgramState_init m final timeout) \<le> length (e0 # es)"
    using assms by (auto simp: SmartProgramState_init_def)
qed

theorem smart_program_terminates_witness:
  "\<exists>code. fst (smart_run mock_alarm FakeHw_hardware WRITE_OPCODE Zero (id # replicate 9 finish_operation)
      (SmartProgramState_init 8 True 100) (MockAlarm_new, FakeHw_new)) = Finished code"
  by (rule smart_program_terminates) simp_all

text \<open>The number of programming pulses is bounded by the attempts plus the final pulse, and success
  is reported only after the pulses the program asks for: two for a write, whose final pulse is never skipped.\<close>

theorem smart_program_pulses:
  assumes "0 < m"
    and "smart_run A (counting H) op bk (map counting_env es) (SmartProgramState_init m final timeout) (a, (h, 0))
      = (st, a', (h', pulses))"
  shows "pulses \<le> unat m + (if final then 1 else 0)
    \<and> (st = Finished SUCCESS \<longrightarrow> (if final then 2 else 1) \<le> pulses)"
proof -
  have "m \<noteq> 0" using assms(1) by auto
  then have "pulses \<le> unat m + (if final then 1 else 0)"
    using smart_run_max_pulses [OF assms(2)] by (simp add: SmartProgramState_init_def)
  moreover have "(if final then 2 else 1) \<le> pulses" if "st = Finished SUCCESS"
    using smart_run_min_pulses [OF assms(2) [unfolded that]] by (simp add: SmartProgramState_init_def)
  ultimately show ?thesis by blast
qed

theorem smart_program_pulses_witness:
  "\<exists>st a' h' pulses. smart_run mock_alarm (counting FakeHw_hardware) WRITE_OPCODE Zero
      (map counting_env (replicate 10 finish_operation))
      (SmartProgramState_init 8 True 100) (MockAlarm_new, (FakeHw_new, 0)) = (st, a', (h', pulses))
    \<and> pulses \<le> 9"
proof -
  obtain st a' h' pulses where r: "smart_run mock_alarm (counting FakeHw_hardware) WRITE_OPCODE Zero
      (map counting_env (replicate 10 finish_operation))
      (SmartProgramState_init 8 True 100) (MockAlarm_new, (FakeHw_new, 0)) = (st, a', (h', pulses))"
    using prod.exhaust by metis
  have "pulses \<le> 9"
    using smart_program_pulses [OF _ r] by simp
  with r show ?thesis by blast
qed

text \<open>The timeout of a pulse is the requested time rounded up to whole ticks: for an alarm of at
  most one gigahertz the tick count loses nothing in its 32 bits, never ends early, and is less than one tick late.\<close>

theorem program_timeout_rounds_up:
  assumes "unat freq \<le> 1000000000"
  shows "unat freq * unat ns \<le> unat (program_timeout_ticks freq ns) * 1000000000
    \<and> unat (program_timeout_ticks freq ns) * 1000000000 < unat freq * unat ns + 1000000000"
proof -
  let ?p = "unat freq * unat ns" and ?d = "div_round_up (ucast freq * ucast ns) 1000000000"
  have le: "?p \<le> 1000000000 * unat ns"
    using assms by simp
  have ns: "unat ns < 4294967296"
    using unsigned_less [of ns] by simp
  have "?p div 1000000000 \<le> unat ns"
    using div_le_mono [OF le, of 1000000000] by simp
  then have d: "unat ?d = ?p div 1000000000 + (if ?p mod 1000000000 = 0 then 0 else 1)"
    using unat_div_round_up [of 1000000000 "ucast freq * ucast ns"] ns by (simp add: u64_times_bound)
  have b: "unat ?d \<le> unat ns \<and> ?p \<le> unat ?d * 1000000000 \<and> unat ?d * 1000000000 < ?p + 1000000000"
    by (rule round_up_bounds [OF _ le d]) simp
  then have "unat ?d < 4294967296"
    using ns by linarith
  then have "unat (program_timeout_ticks freq ns) = unat ?d"
    by (simp add: program_timeout_ticks_def unsigned_ucast_eq take_bit_nat_eq_self)
  with b show ?thesis by simp
qed

theorem program_timeout_rounds_up_witness:
  "unat (program_timeout_ticks 256000 3353267) = 859"
  using program_timeout_rounds_up [of 256000 3353267] by simp

end
