(* ===== verification/Flash_Driver.thy ===== *)
theory Flash_Driver
  imports Smart_Program
begin

text \<open>
  The flash driver \<^verbatim>\<open>FlashImpl\<close> of \<^verbatim>\<open>hil/flash/driver.rs\<close>, for any
  hardware and alarm, and the \<^verbatim>\<open>Flash\<close> trait as a dictionary. The client's callbacks
  are the last thing the alarm handler does, so they are returned as events.
\<close>

section \<open>The Flash trait\<close>

datatype flash_event = EraseDone ReturnCode | WriteDone "u32 list" ReturnCode

text \<open>A write hands the buffer over and gets it back when the driver refuses.\<close>

record 's Flash =
  flash_erase :: "nat \<Rightarrow> ('s, unit, ReturnCode) eff"
  flash_read :: "nat \<Rightarrow> 's \<Rightarrow> ReturnCode"
  flash_write :: "nat \<Rightarrow> u32 list \<Rightarrow> ('s, unit, ReturnCode \<times> u32 list option) eff"

section \<open>The driver\<close>

definition WORDS_PER_PAGE :: nat where
  "WORDS_PER_PAGE = 512"

definition MAX_WRITE_SIZE :: nat where
  "MAX_WRITE_SIZE = 32"

definition WORDS_PER_BANK :: nat where
  "WORDS_PER_BANK = 0x10000"

record ('a, 'h) FlashImpl =
  fl_alarm :: 'a
  fl_client :: bool
  write_data :: "u32 list option"
  write_pos :: nat
  write_len :: nat
  write_bank :: Bank
  write_bank_target :: nat
  hw :: 'h
  smart_program_state :: "SmartProgramState option"
  fl_opcode :: u32

definition FlashImpl_new :: "'a \<Rightarrow> 'h \<Rightarrow> ('a, 'h) FlashImpl" where
  "FlashImpl_new a h = \<lparr>fl_alarm = a, fl_client = False, write_data = None, write_pos = 0, write_len = 0,
     write_bank = Zero, write_bank_target = 0, hw = h, smart_program_state = None, fl_opcode = 0\<rparr>"

definition get_bank_from_target :: "nat \<Rightarrow> Bank option" where
  "get_bank_from_target target =
     (if target < WORDS_PER_BANK then Some Zero
      else if target < 2 * WORDS_PER_BANK then Some One
      else None)"

definition program_in_progress :: "('a, 'h) FlashImpl \<Rightarrow> bool" where
  "program_in_progress d = (smart_program_state d \<noteq> None)"

text \<open>\<^verbatim>\<open>size - 1\<close> on a 32-bit \<^verbatim>\<open>usize\<close> wraps for an empty write.\<close>

definition smart_program :: "'a Alarm \<Rightarrow> 'h Hardware \<Rightarrow> u32 \<Rightarrow> byte \<Rightarrow> bool \<Rightarrow> u32 \<Rightarrow> Bank \<Rightarrow> nat \<Rightarrow> nat
    \<Rightarrow> ('a, 'h) FlashImpl \<Rightarrow> ('a, 'h) FlashImpl" where
  "smart_program A H op max_attempts final_pulse_needed timeout_nanoseconds bk bank_target sz d =
     (case smart_step A H op bk (SmartProgramState_init max_attempts final_pulse_needed timeout_nanoseconds)
             (fl_alarm d, set_transaction H bank_target ((sz + usize_max) mod 2 ^ 32) (hw d)) of
        (st, a, h) \<Rightarrow> d\<lparr>fl_alarm := a, hw := h, smart_program_state := Some st, fl_opcode := op\<rparr>)"

text \<open>The page number times the page size is a 32-bit product.\<close>

definition FlashImpl_erase :: "'a Alarm \<Rightarrow> 'h Hardware \<Rightarrow> nat \<Rightarrow> (('a, 'h) FlashImpl, unit, ReturnCode) eff" where
  "FlashImpl_erase A H page d =
     (if program_in_progress d then (Ok EBUSY, d)
      else let target = page * WORDS_PER_PAGE mod 2 ^ 32 in
        case get_bank_from_target target of
          None \<Rightarrow> (Ok EINVAL, d)
        | Some bk \<Rightarrow>
            (Ok SUCCESS,
             smart_program A H ERASE_OPCODE 45 False 3353267 bk (target mod WORDS_PER_BANK) 1
               (d\<lparr>write_bank := bk, write_bank_target := target mod WORDS_PER_BANK\<rparr>)))"

definition FlashImpl_read :: "'h Hardware \<Rightarrow> nat \<Rightarrow> ('a, 'h) FlashImpl \<Rightarrow> ReturnCode" where
  "FlashImpl_read H word d = hw_read H word (hw d)"

definition FlashImpl_write :: "'a Alarm \<Rightarrow> 'h Hardware \<Rightarrow> nat \<Rightarrow> u32 list
    \<Rightarrow> (('a, 'h) FlashImpl, unit, ReturnCode \<times> u32 list option) eff" where
  "FlashImpl_write A H target data d =
     (let wlen = min (length data) MAX_WRITE_SIZE in
      if MAX_WRITE_SIZE < length data then (Ok (ESIZE, Some data), d)
      else if program_in_progress d then (Ok (EBUSY, Some data), d)
      else case get_bank_from_target target of
        None \<Rightarrow> (Ok (EINVAL, Some data), d)
      | Some bk \<Rightarrow>
          (let d1 = d\<lparr>write_pos := 0, write_bank := bk, write_bank_target := target mod WORDS_PER_BANK,
                     write_len := wlen\<rparr> in
           case set_write_data H (take wlen data) (hw d1) of
             None \<Rightarrow> (Panic, d1)
           | Some h \<Rightarrow>
               (Ok (SUCCESS, None),
                smart_program A H WRITE_OPCODE 8 True (48734 + word_of_nat wlen * 3734) bk
                  (target mod WORDS_PER_BANK) wlen (d1\<lparr>hw := h, write_data := Some data\<rparr>))))"

definition FlashImpl_set_client :: "('a, 'h) FlashImpl \<Rightarrow> ('a, 'h) FlashImpl" where
  "FlashImpl_set_client d = d\<lparr>fl_client := True\<rparr>"

definition FlashImpl_alarm :: "'a Alarm \<Rightarrow> 'h Hardware \<Rightarrow> (('a, 'h) FlashImpl, unit, flash_event option) eff" where
  "FlashImpl_alarm A H d =
     (case smart_program_state d of
        None \<Rightarrow> (Ok None, d)
      | Some state \<Rightarrow>
          (case smart_step A H (fl_opcode d) (write_bank d) state (fl_alarm d, hw d) of (state, a, h) \<Rightarrow>
           let d = d\<lparr>smart_program_state := None, fl_alarm := a, hw := h\<rparr> in
           case return_code state of
             None \<Rightarrow> (Ok None, d\<lparr>smart_program_state := Some state\<rparr>)
           | Some code \<Rightarrow>
               if \<not> fl_client d then (Ok None, d)
               else if fl_opcode d = WRITE_OPCODE then
                 let subwrite_end = write_pos d + write_len d;
                     fullwrite_end = (case write_data d of None \<Rightarrow> 0 | Some w \<Rightarrow> length w) in
                 if fullwrite_end \<le> subwrite_end \<or> code \<noteq> SUCCESS then
                   (case write_data d of
                      None \<Rightarrow> (Panic, d)
                    | Some w \<Rightarrow> (Ok (Some (WriteDone w code)), d\<lparr>write_data := None\<rparr>))
                 else
                   let next_len = min MAX_WRITE_SIZE (fullwrite_end - subwrite_end);
                       next_end = subwrite_end + next_len;
                       target = write_bank_target d + subwrite_end;
                       d = d\<lparr>write_pos := subwrite_end\<rparr> in
                   (case (case write_data d of None \<Rightarrow> Some (hw d)
                          | Some w \<Rightarrow> set_write_data H (take next_len (drop subwrite_end w)) (hw d)) of
                      None \<Rightarrow> (Panic, d)
                    | Some h \<Rightarrow>
                        (Ok None,
                         smart_program A H WRITE_OPCODE 8 True (48734 + word_of_nat next_len * 3734)
                           (write_bank d) target next_len (d\<lparr>hw := h\<rparr>)))
               else (Ok (Some (EraseDone code)), d)))"

definition FlashImpl_flash :: "'a Alarm \<Rightarrow> 'h Hardware \<Rightarrow> ('a, 'h) FlashImpl Flash" where
  "FlashImpl_flash A H = \<lparr>flash_erase = FlashImpl_erase A H, flash_read = FlashImpl_read H, flash_write = FlashImpl_write A H\<rparr>"

section \<open>Invariant\<close>

text \<open>
  A program in progress is waiting for an alarm, and a write in progress owns a buffer that
  is written in one piece.
\<close>

fun is_running :: "SmartProgramState \<Rightarrow> bool" where
  "is_running (Running _ _ _) = True"
| "is_running _ = False"

definition write_pending :: "('a, 'h) FlashImpl \<Rightarrow> u32 list \<Rightarrow> bool" where
  "write_pending d w \<longleftrightarrow> write_data d = Some w \<and> write_pos d = 0 \<and> write_len d = length w \<and> length w \<le> MAX_WRITE_SIZE"

lemma write_pending_upd [simp]:
  "write_pending (d\<lparr>fl_alarm := a, hw := h, smart_program_state := s\<rparr>) = write_pending d"
  by (rule ext) (simp add: write_pending_def)

lemma ex_write_pending:
  "Ex (write_pending d) \<longleftrightarrow> write_data d \<noteq> None \<and> write_pos d = 0 \<and> write_len d = length (the (write_data d))
     \<and> length (the (write_data d)) \<le> MAX_WRITE_SIZE"
  by (auto simp: write_pending_def)

definition FlashImpl_inv :: "('a, 'h) FlashImpl \<Rightarrow> bool" where
  "FlashImpl_inv d \<longleftrightarrow>
     (case smart_program_state d of None \<Rightarrow> True
      | Some st \<Rightarrow> is_running st \<and> (fl_opcode d = WRITE_OPCODE \<longrightarrow> (\<exists>w. write_pending d w)))"

lemma opcodes_differ [simp]: "ERASE_OPCODE \<noteq> WRITE_OPCODE" "WRITE_OPCODE \<noteq> ERASE_OPCODE"
  by (simp_all add: ERASE_OPCODE_def WRITE_OPCODE_def)

lemma smart_step_running:
  assumes "is_running st" and "smart_step A H op bk st (a, h) = (st', a', h')"
  shows "is_running st' \<or> (\<exists>code. st' = Finished code)"
  using assms by (cases st) (auto split: if_splits prod.splits)

lemma return_code_running [simp]: "is_running st \<Longrightarrow> return_code st = None"
  by (cases st) auto

text \<open>What the driver relies on in the hardware: a write buffer of 32 words.\<close>

locale flash_hardware =
  fixes H :: "'h Hardware" and hw_inv :: "'h \<Rightarrow> bool"
  assumes set_write_data_ok: "hw_inv h \<Longrightarrow> length data \<le> 32 \<Longrightarrow> \<exists>h'. set_write_data H data h = Some h' \<and> hw_inv h'"
    and trigger_inv: "hw_inv h \<Longrightarrow> hw_inv (trigger H op bk h)"
    and set_transaction_inv: "hw_inv h \<Longrightarrow> hw_inv (set_transaction H off sz h)"
    and read_error_inv: "hw_inv h \<Longrightarrow> hw_inv (snd (read_error H h))"
begin

lemma smart_step_hw_inv:
  assumes "hw_inv h" and "smart_step A H op bk st (a, h) = (st', a', h')"
  shows "hw_inv h'"
  using assms read_error_inv [OF assms(1)] trigger_inv
  by (cases st) (auto split: if_splits prod.splits)

lemma smart_program_inv:
  assumes "hw_inv (hw d)"
  shows "\<exists>a h. smart_program A H op m f t bk off sz d =
      d\<lparr>fl_alarm := a, hw := h, smart_program_state := Some (Running (m - 1) f t), fl_opcode := op\<rparr> \<and> hw_inv h"
proof -
  let ?h = "trigger H op bk (set_transaction H off ((sz + usize_max) mod 2 ^ 32) (hw d))"
  have "smart_program A H op m f t bk off sz d =
      d\<lparr>fl_alarm := set_program_timeout A t (fl_alarm d), hw := ?h,
        smart_program_state := Some (Running (m - 1) f t), fl_opcode := op\<rparr>"
    by (simp add: smart_program_def SmartProgramState_init_def)
  moreover have "hw_inv ?h"
    using assms trigger_inv set_transaction_inv by simp
  ultimately show ?thesis by blast
qed

lemma erase_inv:
  assumes "FlashImpl_inv d" and "hw_inv (hw d)"
  shows "\<exists>rc d'. FlashImpl_erase A H page d = (Ok rc, d') \<and> FlashImpl_inv d' \<and> hw_inv (hw d')
    \<and> (if rc = SUCCESS then \<not> program_in_progress d \<and> fl_opcode d' = ERASE_OPCODE \<and> fl_client d' = fl_client d
          \<and> (\<exists>st. smart_program_state d' = Some st \<and> steps_left st \<le> 45)
       else d' = d)"
proof (cases "program_in_progress d \<or> get_bank_from_target (page * WORDS_PER_PAGE mod 2 ^ 32) = None")
  case True
  then show ?thesis using assms by (auto simp: FlashImpl_erase_def)
next
  case False
  then obtain bk where bk: "get_bank_from_target (page * WORDS_PER_PAGE mod 2 ^ 32) = Some bk" by auto
  let ?t = "page * WORDS_PER_PAGE mod 2 ^ 32 mod WORDS_PER_BANK"
  let ?d = "d\<lparr>write_bank := bk, write_bank_target := ?t\<rparr>"
  obtain a h where "smart_program A H ERASE_OPCODE 45 False 3353267 bk ?t 1 ?d =
      ?d\<lparr>fl_alarm := a, hw := h, smart_program_state := Some (Running (45 - 1) False 3353267), fl_opcode := ERASE_OPCODE\<rparr>"
      "hw_inv h"
    using smart_program_inv [of ?d A ERASE_OPCODE 45 False 3353267 bk ?t 1] assms by auto
  then show ?thesis
    using False bk by (auto simp: FlashImpl_erase_def Let_def FlashImpl_inv_def program_in_progress_def)
qed

lemma write_inv:
  assumes "FlashImpl_inv d" and "hw_inv (hw d)"
  shows "\<exists>rc r d'. FlashImpl_write A H target data d = (Ok (rc, r), d') \<and> FlashImpl_inv d' \<and> hw_inv (hw d')
    \<and> (if rc = SUCCESS then r = None \<and> \<not> program_in_progress d \<and> fl_client d' = fl_client d
          \<and> (\<exists>st. smart_program_state d' = Some st \<and> steps_left st \<le> 9)
          \<and> fl_opcode d' = WRITE_OPCODE \<and> write_data d' = Some data
       else r = Some data \<and> d' = d)"
proof (cases "MAX_WRITE_SIZE < length data \<or> program_in_progress d \<or> get_bank_from_target target = None")
  case True
  then show ?thesis
    using assms
    by (cases "MAX_WRITE_SIZE < length data"; cases "program_in_progress d") (auto simp: FlashImpl_write_def Let_def)
next
  case False
  then obtain bk where bk: "get_bank_from_target target = Some bk" by auto
  have len: "length data \<le> 32" using False by (simp add: MAX_WRITE_SIZE_def)
  let ?t = "target mod WORDS_PER_BANK"
  let ?d = "d\<lparr>write_pos := 0, write_bank := bk, write_bank_target := ?t, write_len := length data\<rparr>"
  obtain h1 where h1: "set_write_data H data (hw d) = Some h1" "hw_inv h1"
    using set_write_data_ok [OF assms(2) len] by auto
  let ?n = "48734 + word_of_nat (length data) * 3734 :: u32"
  let ?d1 = "?d\<lparr>hw := h1, write_data := Some data\<rparr>"
  obtain a h where "smart_program A H WRITE_OPCODE 8 True ?n bk ?t (length data) ?d1 =
      ?d1\<lparr>fl_alarm := a, hw := h, smart_program_state := Some (Running (8 - 1) True ?n), fl_opcode := WRITE_OPCODE\<rparr>"
      "hw_inv h"
    using smart_program_inv [of ?d1 A WRITE_OPCODE 8 True ?n bk ?t "length data"] h1 by auto
  then show ?thesis
    using False bk h1
    by (auto simp: FlashImpl_write_def Let_def FlashImpl_inv_def program_in_progress_def ex_write_pending min_def)
qed

lemma alarm_inv:
  assumes "FlashImpl_inv d" and "hw_inv (hw d)" and st: "smart_program_state d = Some st"
    and cl: "fl_client d"
  shows "\<exists>ev d'. FlashImpl_alarm A H d = (Ok ev, d') \<and> FlashImpl_inv d' \<and> hw_inv (hw d') \<and> fl_client d'
    \<and> (ev = None \<and> fl_opcode d' = fl_opcode d \<and> write_data d' = write_data d
          \<and> (\<exists>st'. smart_program_state d' = Some st' \<and> steps_left st' < steps_left st)
       \<or> smart_program_state d' = None \<and> (\<exists>code. if fl_opcode d = WRITE_OPCODE
            then ev = Some (WriteDone (the (write_data d)) code) else ev = Some (EraseDone code)))"
proof -
  have run: "is_running st" and w: "fl_opcode d = WRITE_OPCODE \<Longrightarrow> \<exists>w. write_pending d w"
    using assms by (auto simp: FlashImpl_inv_def)
  obtain st' a' h' where s: "smart_step A H (fl_opcode d) (write_bank d) st (fl_alarm d, hw d) = (st', a', h')"
    by (metis prod.exhaust)
  have h': "hw_inv h'" using smart_step_hw_inv [OF assms(2) s] .
  from smart_step_running [OF run s] consider "is_running st'" | code where "st' = Finished code"
    by blast
  then show ?thesis
  proof cases
    case 1
    then show ?thesis
      using s st h' w cl smart_step_decreases [OF s] run
      by (auto simp: FlashImpl_alarm_def FlashImpl_inv_def Let_def)
  next
    case 2
    then show ?thesis
      using s st h' w cl
      by (cases "fl_opcode d = WRITE_OPCODE")
        (auto simp: FlashImpl_alarm_def FlashImpl_inv_def write_pending_def)
  qed
qed

end

section \<open>Runs of the driver\<close>

text \<open>The event that ends the operation in progress.\<close>

definition done_event :: "('a, 'h) FlashImpl \<Rightarrow> ReturnCode \<Rightarrow> flash_event" where
  "done_event d code = (if fl_opcode d = WRITE_OPCODE then WriteDone (the (write_data d)) code else EraseDone code)"

text \<open>Alarms in sequence, the hardware being acted on before each; the events are collected.\<close>

fun alarm_run :: "'a Alarm \<Rightarrow> 'h Hardware \<Rightarrow> ('h \<Rightarrow> 'h) list \<Rightarrow> (('a, 'h) FlashImpl, unit, flash_event list) eff" where
  "alarm_run A H [] = ret []"
| "alarm_run A H (e # es) = (\<lambda>d.
     eff_bind (FlashImpl_alarm A H) (\<lambda>ev.
     eff_bind (alarm_run A H es) (\<lambda>evs.
     ret ((case ev of None \<Rightarrow> [] | Some v \<Rightarrow> [v]) @ evs))) (d\<lparr>hw := e (hw d)\<rparr>))"

lemma alarm_run_idle:
  "smart_program_state d = None \<Longrightarrow> \<exists>d'. alarm_run A H es d = (Ok [], d') \<and> smart_program_state d' = None"
proof (induction es arbitrary: d)
  case Nil
  then show ?case by simp
next
  case (Cons e es)
  then have "FlashImpl_alarm A H (d\<lparr>hw := e (hw d)\<rparr>) = (Ok None, d\<lparr>hw := e (hw d)\<rparr>)"
    by (simp add: FlashImpl_alarm_def)
  with Cons show ?case by (auto simp: eff_bind_Ok_iff)
qed

context flash_hardware begin

lemma alarm_run_completes:
  assumes "FlashImpl_inv d" and "hw_inv (hw d)" and "smart_program_state d = Some st" and "fl_client d"
    and "steps_left st \<le> length es" and "\<And>e h. e \<in> set es \<Longrightarrow> hw_inv h \<Longrightarrow> hw_inv (e h)"
  shows "\<exists>code d'. alarm_run A H es d = (Ok [done_event d code], d') \<and> \<not> program_in_progress d'"
  using assms
proof (induction es arbitrary: d st)
  case Nil
  then show ?case by (cases st) (auto simp: FlashImpl_inv_def)
next
  case (Cons e es)
  let ?d = "d\<lparr>hw := e (hw d)\<rparr>"
  have "FlashImpl_inv ?d"
    using Cons.prems(1) by (auto simp: FlashImpl_inv_def ex_write_pending split: option.splits)
  moreover have "hw_inv (hw ?d)" "smart_program_state ?d = Some st" "fl_client ?d"
    using Cons.prems by auto
  ultimately obtain ev d1 where d1: "FlashImpl_alarm A H ?d = (Ok ev, d1)" "FlashImpl_inv d1" "hw_inv (hw d1)" "fl_client d1"
      "ev = None \<and> fl_opcode d1 = fl_opcode d \<and> write_data d1 = write_data d
          \<and> (\<exists>st'. smart_program_state d1 = Some st' \<and> steps_left st' < steps_left st)
       \<or> smart_program_state d1 = None \<and> (\<exists>code. if fl_opcode d = WRITE_OPCODE
            then ev = Some (WriteDone (the (write_data d)) code) else ev = Some (EraseDone code))"
    using alarm_inv [of ?d st A] by auto
  from d1(5) consider
      (more) st' where "ev = None" "fl_opcode d1 = fl_opcode d" "write_data d1 = write_data d"
        "smart_program_state d1 = Some st'" "steps_left st' < steps_left st"
    | (finished) code where "smart_program_state d1 = None"
        "ev = Some (done_event d code)"
    by (auto simp: done_event_def split: if_splits)
  then show ?case
  proof cases
    case more
    then have "\<exists>code d'. alarm_run A H es d1 = (Ok [done_event d1 code], d') \<and> \<not> program_in_progress d'"
      using Cons.IH [of d1 st'] Cons.prems d1 by simp
    moreover have "done_event d1 = done_event d"
      using more by (simp add: done_event_def fun_eq_iff)
    ultimately show ?thesis using d1(1) more by auto
  next
    case finished
    with alarm_run_idle [of d1 A H es] show ?thesis
      using d1(1) by (auto simp: program_in_progress_def)
  qed
qed

end

interpretation h1_hw: flash_hardware H1bHw_hardware "\<lambda>h. length (h1_write_data h) = 32"
  by unfold_locales (auto simp: H1bHw_hardware_def set_words_0 split: Bank.split)

interpretation fake_hw: flash_hardware FakeHw_hardware "\<lambda>h. length (fake_write_data h) = 32"
  by unfold_locales (auto simp: FakeHw_hardware_def set_words_0)

section \<open>Properties\<close>

definition H1_ok :: "('a, H1bHw) FlashImpl \<Rightarrow> bool" where
  "H1_ok d \<longleftrightarrow> FlashImpl_inv d \<and> length (h1_write_data (hw d)) = 32"

definition H1_env_ok :: "(H1bHw \<Rightarrow> H1bHw) list \<Rightarrow> bool" where
  "H1_env_ok es \<longleftrightarrow> (\<forall>e\<in>set es. \<forall>h. length (h1_write_data (e h)) = length (h1_write_data h))"

text \<open>A controller that finishes every operation at once and without an error.\<close>

definition instant_finish :: "H1bHw \<Rightarrow> H1bHw" where
  "instant_finish h = h\<lparr>pe_control_0 := 0, pe_control_1 := 0, error_code := 0\<rparr>"

definition H1_reset :: H1bHw where
  "H1_reset = \<lparr>pe_control_0 = 0, pe_control_1 = 0, transaction_parameters = 0, h1_write_data = replicate 32 0,
     program_erase_enable = 0, error_code = 0, memory = (\<lambda>_. 0xffffffff)\<rparr>"

definition driver_start :: "(MockAlarm, H1bHw) FlashImpl" where
  "driver_start = FlashImpl_set_client (FlashImpl_new MockAlarm_new H1_reset)"

lemma driver_start_ok: "H1_ok driver_start \<and> fl_client driver_start"
  by (simp add: H1_ok_def driver_start_def FlashImpl_set_client_def FlashImpl_new_def FlashImpl_inv_def H1_reset_def)

lemma instant_finish_ok: "H1_env_ok (replicate n instant_finish)"
  by (simp add: H1_env_ok_def instant_finish_def)

text \<open>C36. An accepted flash write completes: whatever the controller does, within nine alarms the client
  gets exactly one \<open>write_done\<close> carrying its own buffer, and the driver is free again; nothing panics.\<close>

theorem flash_write_completes:
  assumes "H1_ok d" and "fl_client d" and "FlashImpl_write A H1bHw_hardware target data d = (Ok (SUCCESS, r), d')"
    and "9 \<le> length es" and "H1_env_ok es"
  shows "\<exists>code d''. alarm_run A H1bHw_hardware es d' = (Ok [WriteDone data code], d'') \<and> \<not> program_in_progress d''"
proof -
  obtain st where st: "FlashImpl_inv d'" "length (h1_write_data (hw d')) = 32" "smart_program_state d' = Some st"
      "steps_left st \<le> 9" "fl_client d'" "fl_opcode d' = WRITE_OPCODE" "write_data d' = Some data"
    using h1_hw.write_inv [of d A target data] assms(1-3) by (auto simp: H1_ok_def)
  have "\<And>e h. e \<in> set es \<Longrightarrow> length (h1_write_data h) = 32 \<Longrightarrow> length (h1_write_data (e h)) = 32"
    using assms(5) by (simp add: H1_env_ok_def)
  then have "\<exists>code d''. alarm_run A H1bHw_hardware es d' = (Ok [done_event d' code], d'') \<and> \<not> program_in_progress d''"
    using h1_hw.alarm_run_completes [OF st(1-3) st(5), of es A] st(4) assms(4) by simp
  then show ?thesis
    using st by (simp add: done_event_def)
qed

theorem flash_write_completes_witness:
  "\<exists>d' code d''. FlashImpl_write mock_alarm H1bHw_hardware 0x10200 [1, 2, 3] driver_start = (Ok (SUCCESS, None), d')
    \<and> alarm_run mock_alarm H1bHw_hardware (replicate 9 instant_finish) d' = (Ok [WriteDone [1, 2, 3] code], d'')
    \<and> \<not> program_in_progress d''"
proof -
  obtain d' where w: "FlashImpl_write mock_alarm H1bHw_hardware 0x10200 [1, 2, 3] driver_start = (Ok (SUCCESS, None), d')"
    by (simp add: FlashImpl_write_def driver_start_def FlashImpl_set_client_def FlashImpl_new_def H1_reset_def
        program_in_progress_def get_bank_from_target_def WORDS_PER_BANK_def MAX_WRITE_SIZE_def Let_def
        H1bHw_hardware_def set_words_0)
  then show ?thesis
    using flash_write_completes [OF _ _ w _ instant_finish_ok [of 9]] driver_start_ok by auto
qed

text \<open>An accepted erase completes within 45 alarms with exactly one \<open>erase_done\<close>, and leaves the
  driver free.\<close>

theorem flash_erase_completes:
  assumes "H1_ok d" and "fl_client d" and "FlashImpl_erase A H1bHw_hardware page d = (Ok SUCCESS, d')"
    and "45 \<le> length es" and "H1_env_ok es"
  shows "\<exists>code d''. alarm_run A H1bHw_hardware es d' = (Ok [EraseDone code], d'') \<and> \<not> program_in_progress d''"
proof -
  obtain st where st: "FlashImpl_inv d'" "length (h1_write_data (hw d')) = 32" "smart_program_state d' = Some st"
      "steps_left st \<le> 45" "fl_client d'" "fl_opcode d' = ERASE_OPCODE"
    using h1_hw.erase_inv [of d A page] assms(1-3) by (auto simp: H1_ok_def)
  have "\<And>e h. e \<in> set es \<Longrightarrow> length (h1_write_data h) = 32 \<Longrightarrow> length (h1_write_data (e h)) = 32"
    using assms(5) by (simp add: H1_env_ok_def)
  then have "\<exists>code d''. alarm_run A H1bHw_hardware es d' = (Ok [done_event d' code], d'') \<and> \<not> program_in_progress d''"
    using h1_hw.alarm_run_completes [OF st(1-3) st(5), of es A] st(4) assms(4) by simp
  then show ?thesis
    using st by (simp add: done_event_def)
qed

theorem flash_erase_completes_witness:
  "\<exists>d' code d''. FlashImpl_erase mock_alarm H1bHw_hardware 254 driver_start = (Ok SUCCESS, d')
    \<and> alarm_run mock_alarm H1bHw_hardware (replicate 45 instant_finish) d' = (Ok [EraseDone code], d'')
    \<and> \<not> program_in_progress d''"
proof -
  obtain d' where w: "FlashImpl_erase mock_alarm H1bHw_hardware 254 driver_start = (Ok SUCCESS, d')"
    by (simp add: FlashImpl_erase_def driver_start_def FlashImpl_set_client_def FlashImpl_new_def H1_reset_def
        program_in_progress_def get_bank_from_target_def WORDS_PER_BANK_def WORDS_PER_PAGE_def Let_def)
  then show ?thesis
    using flash_erase_completes [OF _ _ w _ instant_finish_ok [of 45]] driver_start_ok by auto
qed

text \<open>The driver admits a write exactly when it has at most 32 words, no program is running and the target
  lies in one of the two banks, and then the controller is set up for it: the words are in its buffer, the
  transaction register holds the offset within the bank and the size less one, and the opcode is in the control
  register of the target's bank. A refused write hands the buffer back and changes nothing.\<close>

theorem flash_write_setup:
  assumes "H1_ok d"
  shows "\<exists>rc r d'. FlashImpl_write A H1bHw_hardware target data d = (Ok (rc, r), d') \<and>
    (if length data \<le> 32 \<and> \<not> program_in_progress d \<and> target < 0x20000
     then rc = SUCCESS \<and> r = None
       \<and> take (length data) (h1_write_data (hw d')) = data
       \<and> transaction_parameters (hw d') = TransactionParameters_val (target mod 0x10000) ((length data + usize_max) mod 2 ^ 32)
       \<and> (if target < 0x10000 then pe_control_0 (hw d') = WRITE_OPCODE \<and> pe_control_1 (hw d') = pe_control_1 (hw d)
          else pe_control_1 (hw d') = WRITE_OPCODE \<and> pe_control_0 (hw d') = pe_control_0 (hw d))
     else rc \<noteq> SUCCESS \<and> r = Some data \<and> d' = d)"
proof (cases "length data \<le> 32 \<and> \<not> program_in_progress d \<and> target < 0x20000")
  case True
  then have "set_words 0 data (h1_write_data (hw d)) = Some (data @ drop (length data) (h1_write_data (hw d)))"
    using assms by (simp add: H1_ok_def set_words_0)
  with True show ?thesis
    by (auto simp: FlashImpl_write_def Let_def get_bank_from_target_def WORDS_PER_BANK_def MAX_WRITE_SIZE_def
        min_def smart_program_def SmartProgramState_init_def H1bHw_hardware_def)
next
  case False
  then show ?thesis
    by (auto simp: FlashImpl_write_def Let_def get_bank_from_target_def WORDS_PER_BANK_def MAX_WRITE_SIZE_def)
qed

theorem flash_write_setup_witness:
  "\<exists>d'. FlashImpl_write mock_alarm H1bHw_hardware 0x10200 [1, 2, 3] driver_start = (Ok (SUCCESS, None), d')
    \<and> take 3 (h1_write_data (hw d')) = [1, 2, 3] \<and> pe_control_1 (hw d') = WRITE_OPCODE"
proof -
  have "\<not> program_in_progress driver_start"
    by (simp add: driver_start_def FlashImpl_set_client_def FlashImpl_new_def program_in_progress_def)
  then show ?thesis
    using flash_write_setup [of driver_start mock_alarm "0x10200" "[1, 2, 3]"] driver_start_ok
    by (auto simp: numeral_3_eq_3)
qed

text \<open>The page number of an erase is multiplied by the page size in 32 bits, so that page numbers that
  differ by a multiple of \<open>2 ^ 23\<close> erase the same page: the range check sees only the wrapped product.\<close>

theorem flash_erase_wraps:
  "FlashImpl_erase A H (page + k * 2 ^ 23) d = FlashImpl_erase A H page d"
proof -
  have "(page + k * 2 ^ 23) * WORDS_PER_PAGE mod 2 ^ 32 = page * WORDS_PER_PAGE mod 2 ^ 32"
    by (simp add: WORDS_PER_PAGE_def algebra_simps)
  then show ?thesis by (simp only: FlashImpl_erase_def)
qed

end
