(* ===== verification/Mux_Flash.thy ===== *)
theory Mux_Flash
  imports Flash_Driver
begin

text \<open>
  The flash virtualizer of \<^verbatim>\<open>hil/flash/virtual_flash.rs\<close>: users queue one operation
  each and the mux runs them one at a time on any \<^verbatim>\<open>Flash\<close> driver. Users are numbered;
  the linked list of users is the list \<open>users\<close>, newest first. A completion callback runs
  the client's own requests before the mux looks for more work, so it takes those requests as
  an argument.
\<close>

section \<open>State\<close>

datatype Operation = Idle | Write nat | Erase nat

record FlashUser =
  buffer :: "u32 list option"
  u_write_len :: nat
  u_write_pos :: nat
  operation :: Operation
  u_client :: bool

record 's MuxFlash =
  driver :: 's
  users :: "nat list"
  user :: "nat \<Rightarrow> FlashUser"
  in_flight :: "nat option"

definition FlashUser_new :: FlashUser where
  "FlashUser_new = \<lparr>buffer = None, u_write_len = 0, u_write_pos = 0, operation = Idle, u_client = False\<rparr>"

definition MuxFlash_new :: "'s \<Rightarrow> 's MuxFlash" where
  "MuxFlash_new s = \<lparr>driver = s, users = [], user = (\<lambda>_. FlashUser_new), in_flight = None\<rparr>"

definition upd_user :: "nat \<Rightarrow> (FlashUser \<Rightarrow> FlashUser) \<Rightarrow> 's MuxFlash \<Rightarrow> 's MuxFlash" where
  "upd_user u f m = m\<lparr>user := (user m)(u := f (user m u))\<rparr>"

definition on_driver :: "('s, 'e, 'a) eff \<Rightarrow> ('s MuxFlash, 'e, 'a) eff" where
  "on_driver f m = (case f (driver m) of (r, s) \<Rightarrow> (r, m\<lparr>driver := s\<rparr>))"

section \<open>Operations\<close>

text \<open>The driver's return codes are dropped, as is a buffer it hands back.\<close>

definition do_next_op :: "'s Flash \<Rightarrow> ('s MuxFlash, unit, unit) eff" where
  "do_next_op D m =
     (if in_flight m \<noteq> None then (Ok (), m)
      else case find (\<lambda>u. operation (user m u) \<noteq> Idle) (users m) of
        None \<Rightarrow> (Ok (), m)
      | Some u \<Rightarrow>
          eff_bind
            (case buffer (user m u) of
               None \<Rightarrow> (case operation (user m u) of
                  Erase page_number \<Rightarrow> eff_bind (on_driver (flash_erase D page_number)) (\<lambda>_. ret ())
                | _ \<Rightarrow> ret ())
             | Some buf \<Rightarrow> (case operation (user m u) of
                  Write offset \<Rightarrow> eff_bind (on_driver (flash_write D offset buf)) (\<lambda>_. ret ())
                | Erase page_number \<Rightarrow> eff_bind (on_driver (flash_erase D page_number)) (\<lambda>_. ret ())
                | Idle \<Rightarrow> ret ()))
            (\<lambda>_ m'. (Ok (), m'\<lparr>in_flight := Some u\<rparr>))
            (upd_user u (\<lambda>x. x\<lparr>buffer := None\<rparr>) m))"

definition FlashUser_erase :: "'s Flash \<Rightarrow> nat \<Rightarrow> nat \<Rightarrow> ('s MuxFlash, unit, ReturnCode) eff" where
  "FlashUser_erase D u page m =
     (if operation (user m u) \<noteq> Idle then (Ok EBUSY, m)
      else eff_bind (do_next_op D) (\<lambda>_. ret SUCCESS) (upd_user u (\<lambda>x. x\<lparr>operation := Erase page\<rparr>) m))"

definition FlashUser_read :: "'s Flash \<Rightarrow> nat \<Rightarrow> 's MuxFlash \<Rightarrow> ReturnCode" where
  "FlashUser_read D word m = flash_read D word (driver m)"

definition FlashUser_write :: "'s Flash \<Rightarrow> nat \<Rightarrow> nat \<Rightarrow> u32 list \<Rightarrow> ('s MuxFlash, unit, ReturnCode \<times> u32 list option) eff" where
  "FlashUser_write D u target data m =
     (if operation (user m u) \<noteq> Idle then (Ok (EBUSY, Some data), m)
      else eff_bind (do_next_op D) (\<lambda>_. ret (SUCCESS, None))
             (upd_user u (\<lambda>x. x\<lparr>u_write_pos := target, u_write_len := length data, buffer := Some data,
                               operation := Write target\<rparr>) m))"

definition FlashUser_set_client :: "nat \<Rightarrow> 's MuxFlash \<Rightarrow> 's MuxFlash" where
  "FlashUser_set_client u m = upd_user u (\<lambda>x. x\<lparr>u_client := True\<rparr>) (m\<lparr>users := u # users m\<rparr>)"

text \<open>The user's part of a completion: it is idle again and its client, if any, is told.\<close>

definition FlashUser_done :: "nat \<Rightarrow> flash_event \<Rightarrow> 's MuxFlash \<Rightarrow> (nat \<times> flash_event) list \<times> 's MuxFlash" where
  "FlashUser_done u ev m =
     (if u_client (user m u) then [(u, ev)] else [], upd_user u (\<lambda>x. x\<lparr>operation := Idle\<rparr>) m)"

datatype mux_request = ReqErase nat nat | ReqWrite nat nat "u32 list"

fun mux_request_run :: "'s Flash \<Rightarrow> mux_request \<Rightarrow> ('s MuxFlash, unit, unit) eff" where
  "mux_request_run D (ReqErase u page) = eff_bind (FlashUser_erase D u page) (\<lambda>_. ret ())"
| "mux_request_run D (ReqWrite u target data) = eff_bind (FlashUser_write D u target data) (\<lambda>_. ret ())"

fun mux_requests_run :: "'s Flash \<Rightarrow> mux_request list \<Rightarrow> ('s MuxFlash, unit, unit) eff" where
  "mux_requests_run D [] = ret ()"
| "mux_requests_run D (q # qs) = eff_bind (mux_request_run D q) (\<lambda>_. mux_requests_run D qs)"

text \<open>
  \<^verbatim>\<open>erase_done\<close> and \<^verbatim>\<open>write_done\<close> of the mux: the event goes to the
  user in flight, whose client makes the requests \<open>qs\<close>, then the next operation starts.
\<close>

definition MuxFlash_done :: "'s Flash \<Rightarrow> flash_event \<Rightarrow> mux_request list \<Rightarrow> ('s MuxFlash, unit, (nat \<times> flash_event) list) eff" where
  "MuxFlash_done D ev qs m =
     (case in_flight m of
        None \<Rightarrow> eff_bind (do_next_op D) (\<lambda>_. ret []) m
      | Some u \<Rightarrow>
          (case FlashUser_done u ev (m\<lparr>in_flight := None\<rparr>) of (evs, m1) \<Rightarrow>
             eff_bind (mux_requests_run D qs) (\<lambda>_. eff_bind (do_next_op D) (\<lambda>_. ret evs)) m1))"

text \<open>
  An interrupt of the driver: \<open>pump\<close> is its alarm handler, whose event (if any) is the
  completion callback of the mux.
\<close>

definition MuxFlash_alarm :: "'s Flash \<Rightarrow> ('s, unit, flash_event option) eff \<Rightarrow> mux_request list
    \<Rightarrow> ('s MuxFlash, unit, (nat \<times> flash_event) list) eff" where
  "MuxFlash_alarm D pump qs =
     eff_bind (on_driver pump) (\<lambda>ev. case ev of None \<Rightarrow> ret [] | Some v \<Rightarrow> MuxFlash_done D v qs)"

section \<open>The contract of a driver, and the mux over it\<close>

text \<open>
  A driver takes an operation only when it is not busy, is busy until the event that ends it,
  and never panics.
\<close>

locale flash_provider =
  fixes D :: "'s Flash" and pump :: "('s, unit, flash_event option) eff"
    and drv_inv :: "'s \<Rightarrow> bool" and busy :: "'s \<Rightarrow> bool"
  assumes erase_law: "drv_inv s \<Longrightarrow> \<exists>rc s'. flash_erase D page s = (Ok rc, s') \<and> drv_inv s'
      \<and> (if rc = SUCCESS then \<not> busy s \<and> busy s' else s' = s)"
    and write_law: "drv_inv s \<Longrightarrow> \<exists>rc r s'. flash_write D target data s = (Ok (rc, r), s') \<and> drv_inv s'
      \<and> (if rc = SUCCESS then r = None \<and> \<not> busy s \<and> busy s' else r = Some data \<and> s' = s)"
    and pump_law: "drv_inv s \<Longrightarrow> \<exists>ev s'. pump s = (Ok ev, s') \<and> drv_inv s'
      \<and> (if busy s then (ev = None) = busy s' else ev = None \<and> s' = s)"
begin

text \<open>
  The driver works only for the user in flight, that user is waiting, and when nothing is in
  flight nobody waits.
\<close>

definition mux_inv :: "'s MuxFlash \<Rightarrow> bool" where
  "mux_inv m \<longleftrightarrow> drv_inv (driver m) \<and> (busy (driver m) \<longrightarrow> in_flight m \<noteq> None)
     \<and> (case in_flight m of None \<Rightarrow> \<forall>u\<in>set (users m). operation (user m u) = Idle
        | Some u \<Rightarrow> u \<in> set (users m) \<and> operation (user m u) \<noteq> Idle)"

text \<open>The part of the invariant that holds while the mux looks for work.\<close>

definition mux_pre :: "'s MuxFlash \<Rightarrow> bool" where
  "mux_pre m \<longleftrightarrow> drv_inv (driver m) \<and> (busy (driver m) \<longrightarrow> in_flight m \<noteq> None)
     \<and> (\<forall>u. in_flight m = Some u \<longrightarrow> u \<in> set (users m) \<and> operation (user m u) \<noteq> Idle)"

lemma mux_inv_pre: "mux_inv m \<Longrightarrow> mux_pre m"
  by (auto simp: mux_inv_def mux_pre_def split: option.splits)

lemma on_driver_erase:
  assumes "drv_inv (driver m)"
  shows "\<exists>s. eff_bind (on_driver (flash_erase D page)) (\<lambda>_. ret ()) m = (Ok (), m\<lparr>driver := s\<rparr>) \<and> drv_inv s"
  using erase_law [OF assms, of page] by (auto simp: on_driver_def eff_bind_Ok_iff)

lemma on_driver_write:
  assumes "drv_inv (driver m)"
  shows "\<exists>s. eff_bind (on_driver (flash_write D target data)) (\<lambda>_. ret ()) m = (Ok (), m\<lparr>driver := s\<rparr>) \<and> drv_inv s"
  using write_law [OF assms, of target data] by (auto simp: on_driver_def eff_bind_Ok_iff)

lemma same_driver:
  assumes "drv_inv (driver m)"
  shows "\<exists>s. (ret () m :: (unit, unit) outcome \<times> 's MuxFlash) = (Ok (), m\<lparr>driver := s\<rparr>) \<and> drv_inv s"
  using assms by (intro exI [of _ "driver m"]) simp

lemma do_next_op_inv:
  assumes "mux_pre m"
  shows "\<exists>m'. do_next_op D m = (Ok (), m') \<and> mux_inv m' \<and> users m' = users m"
proof (cases "in_flight m")
  case (Some u)
  then show ?thesis using assms by (auto simp: do_next_op_def mux_pre_def mux_inv_def)
next
  case None
  show ?thesis
  proof (cases "find (\<lambda>u. operation (user m u) \<noteq> Idle) (users m)")
    case none: None
    then have "do_next_op D m = (Ok (), m)"
      using None by (simp add: do_next_op_def)
    then show ?thesis
      using assms None none by (auto simp: mux_pre_def mux_inv_def find_None_iff)
  next
    case (Some u)
    then have u: "u \<in> set (users m)" "operation (user m u) \<noteq> Idle"
      by (auto simp: find_Some_iff)
    let ?m = "upd_user u (\<lambda>x. x\<lparr>buffer := None\<rparr>) m"
    have inv: "drv_inv (driver ?m)" using assms by (simp add: mux_pre_def upd_user_def)
    let ?act = "case buffer (user m u) of
        None \<Rightarrow> (case operation (user m u) of
          Erase page_number \<Rightarrow> eff_bind (on_driver (flash_erase D page_number)) (\<lambda>_. ret ())
        | _ \<Rightarrow> ret ())
      | Some buf \<Rightarrow> (case operation (user m u) of
          Write offset \<Rightarrow> eff_bind (on_driver (flash_write D offset buf)) (\<lambda>_. ret ())
        | Erase page_number \<Rightarrow> eff_bind (on_driver (flash_erase D page_number)) (\<lambda>_. ret ())
        | Idle \<Rightarrow> ret ())"
    have "\<exists>s. ?act ?m = (Ok (), ?m\<lparr>driver := s\<rparr>) \<and> drv_inv s"
      using on_driver_erase [OF inv] on_driver_write [OF inv] same_driver [OF inv]
      by (auto simp only: split: option.split Operation.split)
    then obtain s where s: "?act ?m = (Ok (), ?m\<lparr>driver := s\<rparr>)" "drv_inv s" by blast
    have "do_next_op D m = (Ok (), ?m\<lparr>driver := s, in_flight := Some u\<rparr>)"
      unfolding do_next_op_def Some option.case eff_bind_def s(1) using None by simp
    then show ?thesis
      using u s(2) by (auto simp: mux_inv_def upd_user_def)
  qed
qed

lemma erase_req_inv:
  assumes "mux_pre m"
  shows "\<exists>rc m'. FlashUser_erase D u page m = (Ok rc, m') \<and> mux_pre m'
    \<and> (operation (user m u) \<noteq> Idle \<longrightarrow> rc = EBUSY \<and> m' = m) \<and> (operation (user m u) = Idle \<longrightarrow> rc = SUCCESS \<and> mux_inv m')"
proof (cases "operation (user m u) = Idle")
  case False
  then show ?thesis using assms by (simp add: FlashUser_erase_def)
next
  case True
  let ?m = "upd_user u (\<lambda>x. x\<lparr>operation := Erase page\<rparr>) m"
  have "mux_pre ?m" using assms by (auto simp: mux_pre_def upd_user_def)
  from do_next_op_inv [OF this] mux_inv_pre True show ?thesis
    by (auto simp: FlashUser_erase_def eff_bind_Ok_iff)
qed

lemma write_req_inv:
  assumes "mux_pre m"
  shows "\<exists>rc r m'. FlashUser_write D u target data m = (Ok (rc, r), m') \<and> mux_pre m'
    \<and> (operation (user m u) \<noteq> Idle \<longrightarrow> rc = EBUSY \<and> r = Some data \<and> m' = m)
    \<and> (operation (user m u) = Idle \<longrightarrow> rc = SUCCESS \<and> r = None \<and> mux_inv m')"
proof (cases "operation (user m u) = Idle")
  case False
  then show ?thesis using assms by (simp add: FlashUser_write_def)
next
  case True
  let ?m = "upd_user u (\<lambda>x. x\<lparr>u_write_pos := target, u_write_len := length data, buffer := Some data,
                               operation := Write target\<rparr>) m"
  have "mux_pre ?m" using assms by (auto simp: mux_pre_def upd_user_def)
  from do_next_op_inv [OF this] mux_inv_pre True show ?thesis
    by (auto simp: FlashUser_write_def eff_bind_Ok_iff)
qed

lemma requests_inv: "mux_pre m \<Longrightarrow> \<exists>m'. mux_requests_run D qs m = (Ok (), m') \<and> mux_pre m'"
proof (induction qs arbitrary: m)
  case Nil
  then show ?case by simp
next
  case (Cons q qs)
  have "\<exists>m1. mux_request_run D q m = (Ok (), m1) \<and> mux_pre m1"
    using erase_req_inv [OF Cons.prems] write_req_inv [OF Cons.prems]
    by (cases q) (fastforce simp: eff_bind_Ok_iff)+
  then obtain m1 where "mux_request_run D q m = (Ok (), m1)" "mux_pre m1" by blast
  then show ?case using Cons.IH [of m1] by simp
qed

lemma done_inv:
  assumes "mux_pre m" and "\<not> busy (driver m)"
  shows "\<exists>evs m'. MuxFlash_done D ev qs m = (Ok evs, m') \<and> mux_inv m'"
proof (cases "in_flight m")
  case None
  then show ?thesis using do_next_op_inv [OF assms(1)] by (auto simp: MuxFlash_done_def eff_bind_Ok_iff)
next
  case (Some u)
  obtain evs m1 where m1: "FlashUser_done u ev (m\<lparr>in_flight := None\<rparr>) = (evs, m1)"
    by (metis prod.exhaust)
  then have "mux_pre m1"
    using assms by (auto simp: FlashUser_done_def mux_pre_def upd_user_def)
  from requests_inv [OF this, of qs] obtain m2 where m2: "mux_requests_run D qs m1 = (Ok (), m2)" "mux_pre m2"
    by blast
  from do_next_op_inv [OF m2(2)] obtain m3 where "do_next_op D m2 = (Ok (), m3)" "mux_inv m3"
    by blast
  then show ?thesis using Some m1 m2 by (simp add: MuxFlash_done_def)
qed

lemma alarm_mux_inv:
  assumes "mux_inv m"
  shows "\<exists>evs m'. MuxFlash_alarm D pump qs m = (Ok evs, m') \<and> mux_inv m'"
proof -
  obtain ev s where p: "pump (driver m) = (Ok ev, s)" "drv_inv s"
      "if busy (driver m) then (ev = None) = busy s else ev = None \<and> s = driver m"
    using pump_law [of "driver m"] assms by (auto simp: mux_inv_def)
  have od: "on_driver pump m = (Ok ev, m\<lparr>driver := s\<rparr>)"
    using p by (simp add: on_driver_def)
  show ?thesis
  proof (cases ev)
    case None
    then have "mux_inv (m\<lparr>driver := s\<rparr>)"
      using assms p by (auto simp: mux_inv_def split: option.splits if_splits)
    with None od show ?thesis by (auto simp: MuxFlash_alarm_def)
  next
    case (Some v)
    then have "mux_pre (m\<lparr>driver := s\<rparr>)" "\<not> busy s"
      using mux_inv_pre [OF assms] p by (auto simp: mux_pre_def split: if_splits)
    with done_inv [of "m\<lparr>driver := s\<rparr>" v qs] Some od show ?thesis by (auto simp: MuxFlash_alarm_def)
  qed
qed

end

section \<open>The mux over the H1 flash driver\<close>

interpretation h1_mux: flash_provider "FlashImpl_flash A H1bHw_hardware" "FlashImpl_alarm A H1bHw_hardware"
  "\<lambda>d. H1_ok d \<and> fl_client d" program_in_progress
proof
  fix s :: "('a, H1bHw) FlashImpl" and page target data
  assume s: "H1_ok s \<and> fl_client s"
  then have i: "FlashImpl_inv s" "length (h1_write_data (hw s)) = 32" by (auto simp: H1_ok_def)
  show "\<exists>rc s'. flash_erase (FlashImpl_flash A H1bHw_hardware) page s = (Ok rc, s') \<and> (H1_ok s' \<and> fl_client s')
      \<and> (if rc = SUCCESS then \<not> program_in_progress s \<and> program_in_progress s' else s' = s)"
    using h1_hw.erase_inv [OF i, of A page] s
    by (fastforce simp: FlashImpl_flash_def H1_ok_def program_in_progress_def split: if_splits)
  show "\<exists>rc r s'. flash_write (FlashImpl_flash A H1bHw_hardware) target data s = (Ok (rc, r), s') \<and> (H1_ok s' \<and> fl_client s')
      \<and> (if rc = SUCCESS then r = None \<and> \<not> program_in_progress s \<and> program_in_progress s' else r = Some data \<and> s' = s)"
    using h1_hw.write_inv [OF i, of A target data] s
    by (fastforce simp: FlashImpl_flash_def H1_ok_def program_in_progress_def split: if_splits)
  show "\<exists>ev s'. FlashImpl_alarm A H1bHw_hardware s = (Ok ev, s') \<and> (H1_ok s' \<and> fl_client s')
      \<and> (if program_in_progress s then (ev = None) = program_in_progress s' else ev = None \<and> s' = s)"
  proof (cases "smart_program_state s")
    case None
    then show ?thesis using s by (simp add: FlashImpl_alarm_def program_in_progress_def)
  next
    case (Some st)
    from h1_hw.alarm_inv [OF i Some, of A] s show ?thesis
      by (auto simp: H1_ok_def program_in_progress_def Some split: if_splits)
  qed
qed

text \<open>
  The steps of the system: requests of users, alarms (with what the clients ask for in their
  callbacks), and anything the controller does to its own registers. A step is labelled with the
  completions delivered to clients.
\<close>

inductive mux_step :: "'a Alarm \<Rightarrow> ('a, H1bHw) FlashImpl MuxFlash \<Rightarrow> (nat \<times> flash_event) list
    \<Rightarrow> ('a, H1bHw) FlashImpl MuxFlash \<Rightarrow> bool" for A where
  erase: "FlashUser_erase (FlashImpl_flash A H1bHw_hardware) u page m = (Ok rc, m') \<Longrightarrow> mux_step A m [] m'"
| wr: "FlashUser_write (FlashImpl_flash A H1bHw_hardware) u target data m = (Ok r, m') \<Longrightarrow> mux_step A m [] m'"
| alarm: "MuxFlash_alarm (FlashImpl_flash A H1bHw_hardware) (FlashImpl_alarm A H1bHw_hardware) qs m = (Ok evs, m')
    \<Longrightarrow> mux_step A m evs m'"
| hardware: "length (h1_write_data h) = 32 \<Longrightarrow> mux_step A m [] (m\<lparr>driver := (driver m)\<lparr>hw := h\<rparr>\<rparr>)"

definition mux_next :: "'a Alarm \<Rightarrow> ('a, H1bHw) FlashImpl MuxFlash \<Rightarrow> ('a, H1bHw) FlashImpl MuxFlash \<Rightarrow> bool" where
  "mux_next A m m' \<longleftrightarrow> (\<exists>evs. mux_step A m evs m')"

inductive mux_reachable :: "'a Alarm \<Rightarrow> ('a, H1bHw) FlashImpl MuxFlash \<Rightarrow> bool" for A where
  start: "H1_ok d \<Longrightarrow> fl_client d \<Longrightarrow> \<not> program_in_progress d \<Longrightarrow>
    mux_reachable A (fold FlashUser_set_client us (MuxFlash_new d))"
| step: "mux_reachable A m \<Longrightarrow> mux_next A m m' \<Longrightarrow> mux_reachable A m'"

abbreviation h1_mux_inv :: "('a, H1bHw) FlashImpl MuxFlash \<Rightarrow> bool" where
  "h1_mux_inv \<equiv> h1_mux.mux_inv"

lemma fold_set_client:
  "driver (fold FlashUser_set_client us m) = driver m \<and> in_flight (fold FlashUser_set_client us m) = in_flight m
   \<and> (\<forall>u. operation (user (fold FlashUser_set_client us m) u) = operation (user m u))"
proof (induction us arbitrary: m)
  case Nil
  then show ?case by simp
next
  case (Cons x us)
  then show ?case using Cons [of "FlashUser_set_client x m"] by (simp add: FlashUser_set_client_def upd_user_def)
qed

lemma mux_step_inv:
  assumes "mux_step A m evs m'" and "h1_mux_inv m"
  shows "h1_mux_inv m'"
  using assms(1)
proof cases
  case (erase u page rc)
  then show ?thesis
    using h1_mux.erase_req_inv [OF h1_mux.mux_inv_pre [OF assms(2)], of A u page] assms(2)
    by (cases "operation (user m u) = Idle") auto
next
  case (wr u target data r)
  then show ?thesis
    using h1_mux.write_req_inv [OF h1_mux.mux_inv_pre [OF assms(2)], of A u target data] assms(2)
    by (cases "operation (user m u) = Idle") auto
next
  case (alarm qs)
  then show ?thesis using h1_mux.alarm_mux_inv [OF assms(2), of A qs] by auto
next
  case (hardware h)
  then have "FlashImpl_inv ((driver m)\<lparr>hw := h\<rparr>) = FlashImpl_inv (driver m)"
    by (cases "smart_program_state (driver m)") (simp_all add: FlashImpl_inv_def ex_write_pending)
  with hardware assms(2) show ?thesis
    unfolding h1_mux.mux_inv_def by (cases "in_flight m") (simp_all add: H1_ok_def program_in_progress_def)
qed

lemma mux_reachable_inv: "mux_reachable A m \<Longrightarrow> h1_mux_inv m"
proof (induction rule: mux_reachable.induct)
  case (start d us)
  then show ?case
    using fold_set_client [of us "MuxFlash_new d"]
    by (simp add: h1_mux.mux_inv_def MuxFlash_new_def FlashUser_new_def)
next
  case (step m m')
  then show ?case using mux_step_inv by (auto simp: mux_next_def)
qed

section \<open>A refused operation\<close>

text \<open>The driver idle with a user in flight: no step leaves this state, and none completes anything.\<close>

definition mux_stuck :: "nat \<Rightarrow> ('a, H1bHw) FlashImpl MuxFlash \<Rightarrow> bool" where
  "mux_stuck u m \<longleftrightarrow> in_flight m = Some u \<and> smart_program_state (driver m) = None"

lemma mux_stuck_step:
  assumes "mux_stuck u m" and "mux_step A m evs m'"
  shows "evs = [] \<and> mux_stuck u m'"
  using assms(2,1)
  by cases (auto simp: mux_stuck_def FlashUser_erase_def FlashUser_write_def do_next_op_def upd_user_def
      MuxFlash_alarm_def on_driver_def FlashImpl_alarm_def eff_bind_Ok_iff split: if_splits)

lemma mux_stuck_run:
  assumes "mux_stuck u m" and "(mux_next A)\<^sup>*\<^sup>* m m'"
  shows "mux_stuck u m'"
  using assms(2,1) by (induction) (auto simp: mux_next_def dest: mux_stuck_step)

section \<open>Properties\<close>

text \<open>C8. In every reachable state of the mux over the H1 driver, a program in progress belongs to the one user in
  flight, who is waiting for it; when nothing is in flight no user is waiting; and every request and every
  alarm returns without a panic.\<close>

theorem mux_exclusive:
  assumes "mux_reachable A m"
  shows "(program_in_progress (driver m) \<longrightarrow> in_flight m \<noteq> None)
    \<and> (\<forall>u. in_flight m = Some u \<longrightarrow> operation (user m u) \<noteq> Idle)
    \<and> (in_flight m = None \<longrightarrow> (\<forall>u\<in>set (users m). operation (user m u) = Idle))
    \<and> (\<exists>rc m'. FlashUser_erase (FlashImpl_flash A H1bHw_hardware) u page m = (Ok rc, m'))
    \<and> (\<exists>rc r m'. FlashUser_write (FlashImpl_flash A H1bHw_hardware) u target data m = (Ok (rc, r), m'))
    \<and> (\<exists>evs m'. MuxFlash_alarm (FlashImpl_flash A H1bHw_hardware) (FlashImpl_alarm A H1bHw_hardware) qs m = (Ok evs, m'))"
proof -
  have inv: "h1_mux_inv m" using mux_reachable_inv [OF assms] .
  then have "(program_in_progress (driver m) \<longrightarrow> in_flight m \<noteq> None)
    \<and> (\<forall>u. in_flight m = Some u \<longrightarrow> operation (user m u) \<noteq> Idle)
    \<and> (in_flight m = None \<longrightarrow> (\<forall>u\<in>set (users m). operation (user m u) = Idle))"
    by (simp add: h1_mux.mux_inv_def split: option.splits)
  moreover note h1_mux.erase_req_inv [OF h1_mux.mux_inv_pre [OF inv], of A u page]
    h1_mux.write_req_inv [OF h1_mux.mux_inv_pre [OF inv], of A u target data] h1_mux.alarm_mux_inv [OF inv, of A qs]
  ultimately show ?thesis by blast
qed

definition mux_start :: "(MockAlarm, H1bHw) FlashImpl MuxFlash" where
  "mux_start = fold FlashUser_set_client [0, 1] (MuxFlash_new driver_start)"

lemma driver_start_idle: "smart_program_state driver_start = None"
  by (simp add: driver_start_def FlashImpl_set_client_def FlashImpl_new_def)

lemma mux_start_reachable: "mux_reachable mock_alarm mux_start"
  unfolding mux_start_def using driver_start_ok driver_start_idle
  by (intro mux_reachable.start) (simp_all add: program_in_progress_def)

theorem mux_exclusive_witness:
  "\<exists>rc m'. FlashUser_erase (FlashImpl_flash mock_alarm H1bHw_hardware) 1 254 mux_start = (Ok rc, m')"
  using mux_exclusive [OF mux_start_reachable, of 1 254] by simp

text \<open>The mux drops the return code of the driver: an erase of a page the driver refuses is answered with
  \<open>SUCCESS\<close> and leaves its user in flight forever, with the driver idle. From then on no request of any
  user reaches the driver and no client gets a completion.\<close>

theorem mux_refused_erase_wedges:
  assumes "in_flight m = None" and "\<forall>v\<in>set (users m). operation (user m v) = Idle"
    and "u \<in> set (users m)" and "buffer (user m u) = None"
    and "\<not> program_in_progress (driver m)" and "256 \<le> page" and "page < 2 ^ 23"
  shows "\<exists>m1. FlashUser_erase (FlashImpl_flash A H1bHw_hardware) u page m = (Ok SUCCESS, m1)
    \<and> driver m1 = driver m
    \<and> (\<forall>m2. (mux_next A)\<^sup>*\<^sup>* m1 m2 \<longrightarrow> in_flight m2 = Some u \<and> \<not> program_in_progress (driver m2)
         \<and> (\<forall>evs m3. mux_step A m2 evs m3 \<longrightarrow> evs = []))"
proof -
  let ?m = "upd_user u (\<lambda>x. x\<lparr>operation := Erase page\<rparr>) m"
  have idle: "smart_program_state (driver m) = None"
    using assms(5) by (simp add: program_in_progress_def)
  have "page * 512 mod 2 ^ 32 = page * 512"
    using assms(7) by simp
  then have refuse: "flash_erase (FlashImpl_flash A H1bHw_hardware) page (driver m) = (Ok EINVAL, driver m)"
    using assms(5,6) by (simp add: FlashImpl_flash_def FlashImpl_erase_def WORDS_PER_PAGE_def WORDS_PER_BANK_def
        get_bank_from_target_def Let_def)
  obtain v where v: "find (\<lambda>x. operation (user ?m x) \<noteq> Idle) (users m) = Some v"
    using assms(3) by (cases "find (\<lambda>x. operation (user ?m x) \<noteq> Idle) (users m)") (auto simp: find_None_iff upd_user_def)
  then have "v = u"
    using assms(2) by (auto simp: find_Some_iff upd_user_def split: if_splits)
  with v have f: "find (\<lambda>x. operation (user ?m x) \<noteq> Idle) (users ?m) = Some u"
    by (simp add: upd_user_def)
  define m1 where "m1 = (upd_user u (\<lambda>x. x\<lparr>buffer := None\<rparr>) ?m)\<lparr>in_flight := Some u\<rparr>"
  have "do_next_op (FlashImpl_flash A H1bHw_hardware) ?m = (Ok (), m1)"
    unfolding do_next_op_def f m1_def using assms(1,4) refuse
    by (simp add: upd_user_def eff_bind_def on_driver_def)
  then have "FlashUser_erase (FlashImpl_flash A H1bHw_hardware) u page m = (Ok SUCCESS, m1)"
    using assms(2,3) by (simp add: FlashUser_erase_def)
  moreover have "driver m1 = driver m" "mux_stuck u m1"
    using idle by (simp_all add: m1_def upd_user_def mux_stuck_def)
  moreover have "in_flight m2 = Some u \<and> \<not> program_in_progress (driver m2) \<and> (\<forall>evs m3. mux_step A m2 evs m3 \<longrightarrow> evs = [])"
    if "(mux_next A)\<^sup>*\<^sup>* m1 m2" for m2
  proof -
    have "mux_stuck u m2" by (rule mux_stuck_run [OF \<open>mux_stuck u m1\<close> that])
    then show ?thesis
      using mux_stuck_step by (auto simp: mux_stuck_def program_in_progress_def) blast
  qed
  ultimately show ?thesis by blast
qed

theorem mux_refused_erase_wedges_witness:
  "\<exists>m1. FlashUser_erase (FlashImpl_flash mock_alarm H1bHw_hardware) 1 300 mux_start = (Ok SUCCESS, m1)
    \<and> (\<forall>m2. (mux_next mock_alarm)\<^sup>*\<^sup>* m1 m2 \<longrightarrow> in_flight m2 = Some 1)"
  using mux_refused_erase_wedges [of mux_start 1 300 mock_alarm] driver_start_idle
  by (auto simp: mux_start_def FlashUser_set_client_def MuxFlash_new_def upd_user_def FlashUser_new_def
      program_in_progress_def)

end
