(* ===== verification/Nv_Counter.thy ===== *)
theory Nv_Counter
  imports Flash_Driver
begin

text \<open>
  The non-volatile counter of \<^verbatim>\<open>kernel/h1/src/nvcounter\<close>: page decoding and striking
  (\<^verbatim>\<open>internal.rs\<close>) and the capsule \<^verbatim>\<open>FlashCounter\<close>
  (\<^verbatim>\<open>capsule.rs\<close>) over any \<^verbatim>\<open>Flash\<close> driver. Every client
  callback is the last action of its handler, so a handler returns the callback it makes.
\<close>

section \<open>Pages\<close>

definition COUNTS_PER_WORD :: nat where
  "COUNTS_PER_WORD = 8"

definition COUNTS_PER_PAGE :: nat where
  "COUNTS_PER_PAGE = COUNTS_PER_WORD * WORDS_PER_PAGE"

datatype Task = Initialize | Increment

datatype Page = High | Low

fun page_number :: "Page \<Rightarrow> nat" where
  "page_number High = 254"
| "page_number Low = 255"

text \<open>The count a word other than all ones stands for.\<close>

definition decode_word :: "u32 \<Rightarrow> nat" where
  "decode_word value =
     (if value AND 0x3CFFFFFF = 0x3CFFFFFF then 1
      else if value AND 0xC3FFFFFF = 0x00FFFFFF then 2
      else if value AND 0xFF3CFFFF = 0x003CFFFF then 3
      else if value AND 0xFFC3FFFF = 0x0000FFFF then 4
      else if value AND 0xFFFF3CFF = 0x00003CFF then 5
      else if value AND 0xFFFFC3FF = 0x000000FF then 6
      else if value AND 0xFFFFFF3C = 0x0000003C then 7
      else 8)"

text \<open>The loop over the words below \<open>i\<close>, from the last to the first.\<close>

fun find_current :: "(nat \<Rightarrow> ReturnCode) \<Rightarrow> nat \<Rightarrow> nat \<times> nat" where
  "find_current rd 0 = (0, 0)"
| "find_current rd (Suc i) =
     (case rd i of
        SuccessWithValue value \<Rightarrow>
          if (word_of_nat value :: u32) \<noteq> 0xFFFFFFFF then (i, decode_word (word_of_nat value))
          else find_current rd i
      | _ \<Rightarrow> (0, 0))"

definition read_page_count :: "'s Flash \<Rightarrow> Page \<Rightarrow> 's \<Rightarrow> nat" where
  "read_page_count D page s =
     (let page_offset = page_number page * WORDS_PER_PAGE in
      case find_current (\<lambda>i. flash_read D (page_offset + i) s) WORDS_PER_PAGE of
        (current_index, current_count) \<Rightarrow> COUNTS_PER_WORD * current_index + current_count)"

definition WRITE_PATTERNS :: "u32 list" where
  "WRITE_PATTERNS = [0x3CFFFFFF, 0x00FFFFFF, 0x003CFFFF, 0x0000FFFF, 0x00003CFF, 0x000000FF, 0x0000003C, 0x00000000]"

text \<open>The buffer is a one-word array; a driver that hands back another length makes the conversion panic.\<close>

definition start_increment :: "'s Flash \<Rightarrow> Page \<Rightarrow> nat \<Rightarrow> u32 \<Rightarrow> ('s, unit, ReturnCode \<times> u32 option) eff" where
  "start_increment D page current_value buf s =
     (if COUNTS_PER_PAGE \<le> current_value then (Ok (ESIZE, Some buf), s)
      else let word_to_write = current_value div COUNTS_PER_WORD;
               buf = WRITE_PATTERNS ! (current_value mod COUNTS_PER_WORD) in
        eff_bind (flash_write D (WORDS_PER_PAGE * page_number page + word_to_write) [buf]) (\<lambda>(code, b).
          case b of
            None \<Rightarrow> ret (code, None)
          | Some [w] \<Rightarrow> ret (code, Some w)
          | Some _ \<Rightarrow> panic) s)"

definition page_empty :: "'s Flash \<Rightarrow> Page \<Rightarrow> 's \<Rightarrow> bool" where
  "page_empty D page s =
     (let page_start = page_number page * WORDS_PER_PAGE;
          page_end = page_start + WORDS_PER_PAGE in
      list_all (\<lambda>word. flash_read D word s = SuccessWithValue 0xFFFFFFFF) [page_start..<page_end])"

definition low_page_full :: "'s Flash \<Rightarrow> 's \<Rightarrow> bool" where
  "low_page_full D s =
     (flash_read D (page_number Low * WORDS_PER_PAGE + WORDS_PER_PAGE - 1) s = SuccessWithValue 0)"

definition counter_value :: "nat \<Rightarrow> nat \<Rightarrow> nat" where
  "counter_value high_count low_count =
     (let (h, l) = (if odd high_count then ((high_count + 1) mod 2 ^ 32, 0) else (high_count, low_count)) in
      ((COUNTS_PER_PAGE + 1) * (h div 2) + l) mod 2 ^ 32)"

section \<open>The capsule\<close>

datatype nv_event = InitializeDone ReturnCode | IncrementDone ReturnCode

record 's FlashCounter =
  nv_client :: bool
  flash :: 's
  write_buffer :: "u32 option"
  task :: "Task option"

definition FlashCounter_new :: "u32 \<Rightarrow> 's \<Rightarrow> 's FlashCounter" where
  "FlashCounter_new buf s = \<lparr>nv_client = False, flash = s, write_buffer = Some buf, task = None\<rparr>"

definition FlashCounter_set_client :: "'s FlashCounter \<Rightarrow> 's FlashCounter" where
  "FlashCounter_set_client c = c\<lparr>nv_client := True\<rparr>"

definition on_flash :: "('s, 'e, 'a) eff \<Rightarrow> ('s FlashCounter, 'e, 'a) eff" where
  "on_flash f c = (case f (flash c) of (r, s) \<Rightarrow> (r, c\<lparr>flash := s\<rparr>))"

definition notify :: "nv_event \<Rightarrow> ('s FlashCounter, unit, nv_event option) eff" where
  "notify ev c = (Ok (if nv_client c then Some ev else None), c)"

definition set_task :: "Task option \<Rightarrow> ('s FlashCounter, unit, unit) eff" where
  "set_task t c = (Ok (), c\<lparr>task := t\<rparr>)"

text \<open>Starting an increment with the buffer of the capsule: \<^verbatim>\<open>take().unwrap()\<close>, and the buffer put back if there is one.\<close>

definition strike :: "'s Flash \<Rightarrow> Page \<Rightarrow> nat \<Rightarrow> ('s FlashCounter, unit, ReturnCode \<times> u32 option) eff" where
  "strike D page count c =
     (case write_buffer c of
        None \<Rightarrow> (Panic, c)
      | Some buf \<Rightarrow>
          eff_bind (on_flash (start_increment D page count buf))
            (\<lambda>(code, b) c. (Ok (code, b), c\<lparr>write_buffer := b\<rparr>)) (c\<lparr>write_buffer := None\<rparr>))"

definition FlashCounter_initialize :: "'s Flash \<Rightarrow> ('s FlashCounter, unit, ReturnCode) eff" where
  "FlashCounter_initialize D c =
     (if task c \<noteq> None then (Ok EBUSY, c)
      else eff_bind (on_flash (flash_erase D (page_number Low))) (\<lambda>code.
        if code = SUCCESS \<or> code = EBUSY
        then eff_bind (set_task (Some Initialize)) (\<lambda>_. ret SUCCESS)
        else ret code) c)"

definition read_and_increment :: "'s Flash \<Rightarrow> ('s FlashCounter, unit, ReturnCode) eff" where
  "read_and_increment D c =
     (if task c \<noteq> None then (Ok EBUSY, c)
      else
        let high_count = read_page_count D High (flash c);
            low_count = read_page_count D Low (flash c);
            success = eff_bind (set_task (Some Increment))
              (\<lambda>_. ret (SuccessWithValue (counter_value high_count low_count)));
            finish = (\<lambda>code. if code = SUCCESS \<or> code = EBUSY then success else ret code) in
        if odd high_count \<and> low_count = 0 then
          (if write_buffer c \<noteq> None then eff_bind (strike D High high_count) (\<lambda>(code, _). finish code) c
           else success c)
        else if odd high_count then
          eff_bind (on_flash (flash_erase D (page_number Low))) finish c
        else
          eff_bind (strike D Low low_count) (\<lambda>(code, _).
            if code = ESIZE then eff_bind (strike D High high_count) (\<lambda>(code, _). finish code)
            else finish code) c)"

definition erase_done :: "'s Flash \<Rightarrow> ReturnCode \<Rightarrow> ('s FlashCounter, unit, nv_event option) eff" where
  "erase_done D code c =
     (if code \<noteq> SUCCESS then
        (case task c of
           Some Initialize \<Rightarrow> notify (InitializeDone FAIL) (c\<lparr>task := None\<rparr>)
         | Some Increment \<Rightarrow> notify (IncrementDone FAIL) (c\<lparr>task := None\<rparr>)
         | None \<Rightarrow> (Ok None, c\<lparr>task := None\<rparr>))
      else if task c = Some Initialize then
        (if page_empty D High (flash c) then notify (InitializeDone SUCCESS) (c\<lparr>task := None\<rparr>)
         else eff_bind (on_flash (flash_erase D (page_number High))) (\<lambda>code.
           if code = SUCCESS then ret None
           else eff_bind (set_task None) (\<lambda>_. notify (InitializeDone code))) c)
      else
        eff_bind (strike D High (read_page_count D High (flash c))) (\<lambda>(_, b) c.
          if b = None then (Ok None, c)
          else if task c = Some Increment then notify (IncrementDone FAIL) (c\<lparr>task := None\<rparr>)
          else (Ok None, c\<lparr>task := None\<rparr>)) c)"

definition write_done :: "'s Flash \<Rightarrow> u32 list \<Rightarrow> ReturnCode \<Rightarrow> ('s FlashCounter, unit, nv_event option) eff" where
  "write_done D data code c0 =
     (if length data \<noteq> 1 then (Panic, c0)
      else
        let c = c0\<lparr>write_buffer := Some (hd data)\<rparr> in
        if code \<noteq> SUCCESS \<and> task c = Some Increment then notify (IncrementDone code) (c\<lparr>task := None\<rparr>)
        else if task c = None then (Ok None, c)
        else if task c = Some Initialize then
          eff_bind (on_flash (flash_erase D (page_number Low * WORDS_PER_PAGE))) (\<lambda>code.
            if code = SUCCESS then ret None
            else eff_bind (set_task None) (\<lambda>_. notify (InitializeDone code))) c
        else if page_empty D Low (flash c) then
          eff_bind (strike D Low (read_page_count D Low (flash c))) (\<lambda>(increment_code, _).
            if increment_code \<noteq> SUCCESS
            then eff_bind (set_task None) (\<lambda>_. notify (IncrementDone increment_code))
            else ret None) c
        else
          eff_bind (set_task None) (\<lambda>_ c.
            eff_bind
              (if low_page_full D (flash c) \<and> odd (read_page_count D High (flash c))
               then eff_bind (on_flash (flash_erase D (page_number Low))) (\<lambda>_. ret ())
               else ret ())
              (\<lambda>_. notify (IncrementDone SUCCESS)) c) c)"

end
