(* ===== verification/Nv_Page.thy ===== *)
theory Nv_Page
  imports Nv_Counter
begin

text \<open>
  What a page of the counter denotes, whatever its contents: the count is found from the last
  struck word, striking raises it by one, and a strike that is interrupted leaves the old count, the
  new one, or (where an earlier strike of the same word was interrupted too) a full word.
\<close>

section \<open>Words as sets of bits\<close>

definition subw :: "u32 \<Rightarrow> u32 \<Rightarrow> bool" where
  "subw a b \<longleftrightarrow> a AND b = a"

lemma subw_refl [simp]: "subw a a"
  by (simp add: subw_def)

lemma subw_bits: "subw a b \<longleftrightarrow> (\<forall>n. bit a n \<longrightarrow> bit b n)"
proof
  assume "subw a b"
  then show "\<forall>n. bit a n \<longrightarrow> bit b n"
    by (metis bit_and_iff subw_def)
next
  assume "\<forall>n. bit a n \<longrightarrow> bit b n"
  then show "subw a b"
    unfolding subw_def by (intro bit_word_eqI) (auto simp: bit_and_iff)
qed

lemma all_ones: "(0xFFFFFFFF :: u32) = - 1"
  by simp

lemma subw_trans: "subw a b \<Longrightarrow> subw b c \<Longrightarrow> subw a c"
  by (auto simp: subw_bits)

lemma subw_antisym: "subw a b \<Longrightarrow> subw b a \<Longrightarrow> a = b"
  by (metis and.commute subw_def)

lemma masked_eq_iff:
  assumes "u AND m = x" and "u OR m = 0xFFFFFFFF"
  shows "v AND m = x \<longleftrightarrow> subw x v \<and> subw v u"
proof -
  have x: "bit x n \<longleftrightarrow> bit u n \<and> bit m n" for n
    by (simp flip: assms(1) add: bit_and_iff)
  have "bit (u OR m) n" if "n < 32" for n
    unfolding assms(2) all_ones using that by simp
  then have c: "bit u n \<or> bit m n" if "n < 32" for n
    using that by (simp add: bit_or_iff)
  have len: "bit w n \<Longrightarrow> n < 32" for w :: u32 and n
    using bit_imp_le_length [of w n] by simp
  have "v AND m = x \<longleftrightarrow> (\<forall>n. bit v n \<and> bit m n \<longleftrightarrow> bit x n)"
  proof
    assume "v AND m = x"
    then show "\<forall>n. bit v n \<and> bit m n \<longleftrightarrow> bit x n"
      by (simp add: bit_and_iff [symmetric])
  next
    assume a: "\<forall>n. bit v n \<and> bit m n \<longleftrightarrow> bit x n"
    show "v AND m = x"
      by (rule bit_word_eqI) (simp add: bit_and_iff a)
  qed
  also have "\<dots> \<longleftrightarrow> subw x v \<and> subw v u"
    unfolding subw_bits using x c len by blast
  finally show ?thesis .
qed

section \<open>The strike patterns\<close>

text \<open>The word after \<open>c\<close> strikes.\<close>

definition struck :: "nat \<Rightarrow> u32" where
  "struck c = (0xFFFFFFFF # WRITE_PATTERNS) ! c"

definition dec :: "u32 \<Rightarrow> nat" where
  "dec v = (if v = 0xFFFFFFFF then 0 else decode_word v)"

lemma struck_simps [simp]:
  "struck 0 = 0xFFFFFFFF" "struck 1 = 0x3CFFFFFF" "struck (Suc 0) = 0x3CFFFFFF" "struck (Suc (Suc 0)) = 0x00FFFFFF" "struck 2 = 0x00FFFFFF"
  "struck 3 = 0x003CFFFF" "struck 4 = 0x0000FFFF" "struck 5 = 0x00003CFF" "struck 6 = 0x000000FF"
  "struck 7 = 0x0000003C" "struck 8 = 0"
  by (simp_all add: struck_def WRITE_PATTERNS_def)

lemma WRITE_PATTERNS_struck: "c < 8 \<Longrightarrow> WRITE_PATTERNS ! c = struck (Suc c)"
  by (simp add: struck_def)

lemma all_below_8: "(\<forall>c<8. P (c :: nat)) \<longleftrightarrow> P 0 \<and> P 1 \<and> P 2 \<and> P 3 \<and> P 4 \<and> P 5 \<and> P 6 \<and> P 7"
  by (simp add: All_less_Suc eval_nat_numeral conj_ac)

lemma struck_Suc_subw: "c < 8 \<Longrightarrow> subw (struck (Suc c)) (struck c)"
  using all_below_8 [of "\<lambda>c. subw (struck (Suc c)) (struck c)"] by (simp add: subw_def)

lemma struck_antimono:
  assumes "i \<le> j" and "j \<le> 8"
  shows "subw (struck j) (struck i)"
  using assms
proof (induction j rule: dec_induct)
  case base
  then show ?case by simp
next
  case (step j)
  then show ?case using struck_Suc_subw [of j] subw_trans by auto
qed

lemma subw_all_ones [simp]: "subw v 0xFFFFFFFF"
  unfolding all_ones subw_def by simp

lemma masks:
  "v AND 0x3CFFFFFF = 0x3CFFFFFF \<longleftrightarrow> subw (struck 1) v"
  "v AND 0xC3FFFFFF = 0x00FFFFFF \<longleftrightarrow> subw (struck 2) v \<and> subw v (struck 1)"
  "v AND 0xFF3CFFFF = 0x003CFFFF \<longleftrightarrow> subw (struck 3) v \<and> subw v (struck 2)"
  "v AND 0xFFC3FFFF = 0x0000FFFF \<longleftrightarrow> subw (struck 4) v \<and> subw v (struck 3)"
  "v AND 0xFFFF3CFF = 0x00003CFF \<longleftrightarrow> subw (struck 5) v \<and> subw v (struck 4)"
  "v AND 0xFFFFC3FF = 0x000000FF \<longleftrightarrow> subw (struck 6) v \<and> subw v (struck 5)"
  "v AND 0xFFFFFF3C = 0x0000003C \<longleftrightarrow> subw (struck 7) v \<and> subw v (struck 6)"
proof -
  show "v AND 0x3CFFFFFF = 0x3CFFFFFF \<longleftrightarrow> subw (struck 1) v"
    by (simp add: subw_def and.commute)
qed (simp_all only: struck_simps, (rule masked_eq_iff; simp)+)

text \<open>A word that is not all ones denotes the strike it lies at or below, and is a full word otherwise.\<close>

lemma dec_tests:
  assumes "v \<noteq> 0xFFFFFFFF"
  shows "dec v =
    (if subw (struck 1) v then 1
     else if subw (struck 2) v \<and> subw v (struck 1) then 2
     else if subw (struck 3) v \<and> subw v (struck 2) then 3
     else if subw (struck 4) v \<and> subw v (struck 3) then 4
     else if subw (struck 5) v \<and> subw v (struck 4) then 5
     else if subw (struck 6) v \<and> subw v (struck 5) then 6
     else if subw (struck 7) v \<and> subw v (struck 6) then 7
     else 8)"
  using assms unfolding dec_def decode_word_def masks by (simp only: if_False)

lemma dec_bounds: "dec v \<le> 8" "dec v = 0 \<longleftrightarrow> v = 0xFFFFFFFF"
  by (auto simp: dec_def decode_word_def)

lemma struck_le: "i \<le> j \<Longrightarrow> j \<le> 8 \<Longrightarrow> subw (struck i) v \<Longrightarrow> subw v (struck j) \<Longrightarrow> struck i = struck j \<and> v = struck j"
  by (meson struck_antimono subw_antisym subw_trans)

lemma dec_struck: "c \<le> 8 \<Longrightarrow> dec (struck c) = c"
proof (cases "c = 8")
  case True
  then show ?thesis by (simp add: dec_def decode_word_def)
next
  case False
  moreover have "\<forall>c<8. dec (struck c) = c"
    unfolding all_below_8 by (simp add: dec_def decode_word_def)
  moreover assume "c \<le> 8"
  ultimately show ?thesis by simp
qed

lemma dec_lower:
  assumes "dec v = c" and "c < 8"
  shows "subw (struck c) v \<and> (0 < c \<longrightarrow> subw v (struck (c - 1)) \<and> v \<noteq> struck (c - 1))"
proof (cases "v = 0xFFFFFFFF")
  case True
  then have "c = 0" using assms(1) dec_bounds(2) [of v] by simp
  then show ?thesis using True by simp
next
  case False
  then have "subw (struck c) v \<and> (0 < c \<longrightarrow> subw v (struck (c - 1)))"
    using assms unfolding dec_tests [OF False] by (auto split: if_splits)
  moreover have "v \<noteq> struck (c - 1)" if "0 < c"
  proof
    assume "v = struck (c - 1)"
    then have "dec v = c - 1" using assms(2) dec_struck by simp
    then show False using assms(1) that by simp
  qed
  ultimately show ?thesis by blast
qed

text \<open>A strike that completes, and one that is interrupted.\<close>

lemma strike_full:
  assumes "dec v = c" and "c < 8"
  shows "v AND struck (Suc c) = struck (Suc c)"
proof -
  have "subw (struck (Suc c)) v"
    using dec_lower [OF assms] struck_Suc_subw [OF assms(2)] subw_trans by blast
  then show ?thesis by (simp add: subw_def and.commute)
qed

lemma strike_torn:
  assumes c: "dec v = c" "c < 8" and torn: "subw (struck (Suc c)) v'" "subw v' v"
  shows "dec v' = c \<or> dec v' = Suc c \<or> 0 < c \<and> dec v' = 8"
proof (cases "dec v' = 8")
  case True
  have "0 < c"
  proof (rule ccontr)
    assume "\<not> 0 < c"
    then have "subw (struck 1) v'" using torn by simp
    moreover have "v' \<noteq> 0xFFFFFFFF" using True by (auto simp: dec_def)
    ultimately show False using True dec_tests [of v'] by simp
  qed
  then show ?thesis using True by simp
next
  case False
  define d where "d = dec v'"
  have d8: "d < 8" using False dec_bounds(1) [of v'] d_def by simp
  note dl = dec_lower [OF d_def [symmetric] d8] and cl = dec_lower [OF c]
  have "\<not> d < c"
  proof
    assume less: "d < c"
    have "subw (struck d) v" using dl torn(2) subw_trans by blast
    moreover have "subw v (struck (c - 1))" "v \<noteq> struck (c - 1)" using cl less by auto
    moreover have "d \<le> c - 1" "c - 1 \<le> 8" using less c by auto
    ultimately show False using struck_le by blast
  qed
  moreover have "\<not> Suc c < d"
  proof
    assume less: "Suc c < d"
    then have "subw v' (struck (d - 1))" "v' \<noteq> struck (d - 1)" using dl by auto
    moreover have "Suc c \<le> d - 1" "d - 1 \<le> 8" using less d8 by auto
    ultimately show False using struck_le torn(1) by blast
  qed
  ultimately show ?thesis using d_def by linarith
qed

section \<open>Pages\<close>

text \<open>The count of the first \<open>n\<close> words of a page.\<close>

fun page_count :: "(nat \<Rightarrow> u32) \<Rightarrow> nat \<Rightarrow> nat" where
  "page_count f 0 = 0"
| "page_count f (Suc i) = (if f i \<noteq> 0xFFFFFFFF then 8 * i + dec (f i) else page_count f i)"

lemma page_count_le: "page_count f n \<le> 8 * n"
  by (induction n) (use dec_bounds in \<open>auto simp: le_SucI\<close>)

lemma page_count_cong: "(\<And>i. i < n \<Longrightarrow> f i = g i) \<Longrightarrow> page_count f n = page_count g n"
  by (induction n) auto

lemma page_count_eq:
  assumes "i < n" and "f i \<noteq> 0xFFFFFFFF" and "\<And>j. i < j \<Longrightarrow> j < n \<Longrightarrow> f j = 0xFFFFFFFF"
  shows "page_count f n = 8 * i + dec (f i)"
  using assms
proof (induction n)
  case 0
  then show ?case by simp
next
  case (Suc n)
  show ?case
  proof (cases "i = n")
    case True
    then show ?thesis using Suc.prems by simp
  next
    case False
    then show ?thesis using Suc by simp
  qed
qed

lemma page_count_0_iff: "page_count f n = 0 \<longleftrightarrow> (\<forall>i<n. f i = 0xFFFFFFFF)"
  using dec_bounds(2) by (induction n) (auto simp: less_Suc_eq)

text \<open>The word that the next strike goes to, and the words after it.\<close>

lemma page_count_next:
  assumes "page_count f n = k" and "k < 8 * n"
  shows "dec (f (k div 8)) = k mod 8 \<and> (\<forall>j. k div 8 < j \<and> j < n \<longrightarrow> f j = 0xFFFFFFFF)"
  using assms
proof (induction n)
  case 0
  then show ?case by simp
next
  case (Suc n)
  show ?case
  proof (cases "f n = 0xFFFFFFFF")
    case True
    then have k: "page_count f n = k" using Suc.prems by simp
    show ?thesis
    proof (cases "k < 8 * n")
      case less: True
      then show ?thesis using Suc.IH [OF k less] True by (auto simp: less_Suc_eq)
    next
      case False
      then have "k = 8 * n" using page_count_le [of f n] k by simp
      then show ?thesis using True dec_bounds(2) [of "f n"] by (auto simp: less_Suc_eq)
    qed
  next
    case False
    then have k: "k = 8 * n + dec (f n)" using Suc.prems by simp
    then have "dec (f n) < 8" using Suc.prems by simp
    then show ?thesis using k by auto
  qed
qed

lemma page_strike_full:
  assumes "page_count f n = k" and "k < 8 * n"
  shows "page_count (f(k div 8 := f (k div 8) AND struck (Suc (k mod 8)))) n = Suc k"
proof -
  let ?i = "k div 8" and ?c = "k mod 8"
  have nx: "dec (f ?i) = ?c" "\<forall>j. ?i < j \<and> j < n \<longrightarrow> f j = 0xFFFFFFFF"
    using page_count_next [OF assms] by auto
  have v: "f ?i AND struck (Suc ?c) = struck (Suc ?c)"
    by (rule strike_full [OF nx(1)]) simp
  have c: "Suc ?c \<le> 8" by (simp add: Suc_le_eq)
  have "struck (Suc ?c) \<noteq> 0xFFFFFFFF"
    using dec_struck [OF c] dec_bounds(2) [of "struck (Suc ?c)"] by simp
  then have "page_count (f(?i := struck (Suc ?c))) n = 8 * ?i + dec (struck (Suc ?c))"
    using page_count_eq [of ?i n "f(?i := struck (Suc ?c))"] nx assms(2) by auto
  then show ?thesis
    unfolding v dec_struck [OF c] by simp
qed

lemma page_strike_torn:
  assumes "page_count f n = k" and "k < 8 * n"
    and "subw (struck (Suc (k mod 8))) v'" and "subw v' (f (k div 8))"
  shows "page_count (f(k div 8 := v')) n \<in> {k, Suc k, 8 * Suc (k div 8)}"
proof -
  let ?i = "k div 8" and ?c = "k mod 8"
  have nx: "dec (f ?i) = ?c" "\<forall>j. ?i < j \<and> j < n \<longrightarrow> f j = 0xFFFFFFFF"
    using page_count_next [OF assms(1,2)] by auto
  have d: "dec v' = ?c \<or> dec v' = Suc ?c \<or> 0 < ?c \<and> dec v' = 8"
    by (rule strike_torn [OF nx(1) _ assms(3,4)]) simp
  show ?thesis
  proof (cases "v' = 0xFFFFFFFF")
    case True
    then have "f ?i = 0xFFFFFFFF" using assms(4) subw_antisym by simp
    then have "f(?i := v') = f" using True by (simp add: fun_upd_idem)
    then show ?thesis using assms(1) by simp
  next
    case False
    then have "page_count (f(?i := v')) n = 8 * ?i + dec v'"
      using page_count_eq [of ?i n "f(?i := v')"] nx assms(2) by auto
    then show ?thesis using d by auto
  qed
qed

end
