(* ===== verification/Nv_System.thy ===== *)
theory Nv_System
  imports Nv_Page
begin

text \<open>
  The counter on a flash that behaves as the \<^verbatim>\<open>Flash\<close> trait documents: an erase
  sets a page to ones, a write can only clear bits, one operation runs at a time, and an operation
  can fail or be cut off by a loss of power with its cells anywhere on the way. Completions, progress
  of the cells, calls and resets interleave freely.
\<close>

section \<open>The flash contract\<close>

datatype dev_op = DErase nat | DWrite nat "u32 list"

text \<open>\<open>base\<close> is the contents when the operation in progress began.\<close>

record FlashDev =
  cells :: "nat \<Rightarrow> u32"
  base :: "nat \<Rightarrow> u32"
  pending :: "dev_op option"

definition FLASH_WORDS :: nat where
  "FLASH_WORDS = 0x20000"

definition dev_erase :: "nat \<Rightarrow> (FlashDev, unit, ReturnCode) eff" where
  "dev_erase page s =
     (if pending s \<noteq> None then (Ok EBUSY, s)
      else if FLASH_WORDS \<le> page * WORDS_PER_PAGE then (Ok EINVAL, s)
      else (Ok SUCCESS, s\<lparr>pending := Some (DErase page)\<rparr>))"

definition dev_write :: "nat \<Rightarrow> u32 list \<Rightarrow> (FlashDev, unit, ReturnCode \<times> u32 list option) eff" where
  "dev_write target data s =
     (if MAX_WRITE_SIZE < length data then (Ok (ESIZE, Some data), s)
      else if pending s \<noteq> None then (Ok (EBUSY, Some data), s)
      else if FLASH_WORDS \<le> target then (Ok (EINVAL, Some data), s)
      else (Ok (SUCCESS, None), s\<lparr>pending := Some (DWrite target data)\<rparr>))"

definition dev_read :: "nat \<Rightarrow> FlashDev \<Rightarrow> ReturnCode" where
  "dev_read offset s = (if offset < FLASH_WORDS then SuccessWithValue (unat (cells s offset)) else ESIZE)"

definition dev_flash :: "FlashDev Flash" where
  "dev_flash = \<lparr>flash_erase = dev_erase, flash_read = dev_read, flash_write = dev_write\<rparr>"

fun dev_full :: "dev_op \<Rightarrow> (nat \<Rightarrow> u32) \<Rightarrow> nat \<Rightarrow> u32" where
  "dev_full (DErase p) b i = (if i div WORDS_PER_PAGE = p then 0xFFFFFFFF else b i)"
| "dev_full (DWrite t d) b i = (if t \<le> i \<and> i < t + length d then b i AND d ! (i - t) else b i)"

text \<open>The contents an operation can leave behind: an erase anything in its page, a write any subset of the bits it clears.\<close>

fun dev_partial :: "dev_op \<Rightarrow> (nat \<Rightarrow> u32) \<Rightarrow> (nat \<Rightarrow> u32) \<Rightarrow> bool" where
  "dev_partial (DErase p) b m \<longleftrightarrow> (\<forall>i. i div WORDS_PER_PAGE \<noteq> p \<longrightarrow> m i = b i)"
| "dev_partial (DWrite t d) b m \<longleftrightarrow>
     (\<forall>i. if t \<le> i \<and> i < t + length d then subw (b i AND d ! (i - t)) (m i) \<and> subw (m i) (b i) else m i = b i)"

lemma subw_and: "subw (a AND b) a"
  by (simp add: subw_bits bit_and_iff)

lemma dev_partial_full: "dev_partial op b (dev_full op b)"
  by (cases op) (auto simp: subw_and)

lemma dev_partial_refl: "dev_partial op b b"
  by (cases op) (auto simp: subw_and)

section \<open>The value of the counter in flash\<close>

definition page_word :: "Page \<Rightarrow> (nat \<Rightarrow> u32) \<Rightarrow> nat \<Rightarrow> u32" where
  "page_word p m i = m (WORDS_PER_PAGE * page_number p + i)"

definition pcount :: "Page \<Rightarrow> (nat \<Rightarrow> u32) \<Rightarrow> nat" where
  "pcount p m = page_count (page_word p m) WORDS_PER_PAGE"

definition nv_value :: "(nat \<Rightarrow> u32) \<Rightarrow> nat" where
  "nv_value m = counter_value (pcount High m) (pcount Low m)"

lemma pcount_le: "pcount p m \<le> 4096"
  using page_count_le [of "page_word p m" WORDS_PER_PAGE] by (simp add: pcount_def WORDS_PER_PAGE_def)

lemma counter_value_exact:
  assumes "h \<le> 4096" and "l \<le> 4096"
  shows "counter_value h l = (if odd h then 4097 * ((h + 1) div 2) else 4097 * (h div 2) + l)"
proof -
  have "(h + 1) div 2 \<le> 2048" and "h div 2 \<le> 2048"
    using assms by auto
  then show ?thesis
    using assms by (auto simp: counter_value_def COUNTS_PER_PAGE_def COUNTS_PER_WORD_def WORDS_PER_PAGE_def Let_def)
qed

lemma find_current_page_count:
  assumes "\<And>i. i < n \<Longrightarrow> rd i = SuccessWithValue (unat (f i))"
  shows "find_current rd n = (i, c) \<Longrightarrow> 8 * i + c = page_count f n"
  using assms
proof (induction n)
  case 0
  then show ?case by simp
next
  case (Suc n)
  then show ?case by (auto simp: dec_def split: if_splits)
qed

lemma page_in_flash: "i < WORDS_PER_PAGE \<Longrightarrow> WORDS_PER_PAGE * page_number p + i < FLASH_WORDS"
  by (cases p) (simp_all add: WORDS_PER_PAGE_def FLASH_WORDS_def)

lemma read_page_count_dev [simp]: "read_page_count dev_flash p s = pcount p (cells s)"
proof -
  let ?rd = "\<lambda>i. flash_read dev_flash (page_number p * WORDS_PER_PAGE + i) s"
  obtain i c where ic: "find_current ?rd WORDS_PER_PAGE = (i, c)"
    by force
  have "8 * i + c = page_count (page_word p (cells s)) WORDS_PER_PAGE"
    by (rule find_current_page_count [OF _ ic])
      (simp add: dev_flash_def dev_read_def page_word_def mult.commute page_in_flash)
  then show ?thesis
    using ic by (simp add: read_page_count_def pcount_def COUNTS_PER_WORD_def)
qed

lemma unat_all_ones: "unat (v :: u32) = 0xFFFFFFFF \<longleftrightarrow> v = 0xFFFFFFFF"
  by (simp add: word_unat_eq_iff)

lemma page_empty_dev [simp]: "page_empty dev_flash p s \<longleftrightarrow> pcount p (cells s) = 0"
proof -
  have "page_empty dev_flash p s \<longleftrightarrow> (\<forall>i<WORDS_PER_PAGE. page_word p (cells s) i = 0xFFFFFFFF)"
    by (simp add: page_empty_def list_all_iff Let_def ball_interval_shift dev_flash_def dev_read_def page_word_def
        mult.commute page_in_flash unat_all_ones)
  then show ?thesis by (simp add: pcount_def page_count_0_iff)
qed

section \<open>Strikes on the device\<close>

text \<open>The write of one strike.\<close>

definition strike_op :: "Page \<Rightarrow> nat \<Rightarrow> dev_op" where
  "strike_op p k = DWrite (WORDS_PER_PAGE * page_number p + k div 8) [struck (Suc (k mod 8))]"

lemma page_word_other:
  "p \<noteq> q \<Longrightarrow> i < WORDS_PER_PAGE \<Longrightarrow> j < WORDS_PER_PAGE \<Longrightarrow>
   WORDS_PER_PAGE * page_number p + i \<noteq> WORDS_PER_PAGE * page_number q + j"
  by (cases p; cases q) (auto simp: WORDS_PER_PAGE_def)

lemma strike_word_index: "k < 4096 \<Longrightarrow> k div 8 < WORDS_PER_PAGE"
  by (simp add: WORDS_PER_PAGE_def)

lemma strike_partial_word:
  assumes "dev_partial (strike_op p k) b m" and "k < 4096"
  shows "page_word p m = (page_word p b)(k div 8 := page_word p m (k div 8))"
    and "subw (page_word p b (k div 8) AND struck (Suc (k mod 8))) (page_word p m (k div 8))"
    and "subw (page_word p m (k div 8)) (page_word p b (k div 8))"
proof -
  let ?t = "WORDS_PER_PAGE * page_number p + k div 8"
  have m: "if i = ?t then subw (b i AND struck (Suc (k mod 8))) (m i) \<and> subw (m i) (b i) else m i = b i" for i
    using assms(1) [unfolded strike_op_def dev_partial.simps, rule_format, of i]
    by (cases "i = ?t") auto
  show "page_word p m = (page_word p b)(k div 8 := page_word p m (k div 8))"
  proof
    fix i
    show "page_word p m i = ((page_word p b)(k div 8 := page_word p m (k div 8))) i"
      using m [of "WORDS_PER_PAGE * page_number p + i"] by (cases "i = k div 8") (auto simp: page_word_def)
  qed
  show "subw (page_word p b (k div 8) AND struck (Suc (k mod 8))) (page_word p m (k div 8))"
    "subw (page_word p m (k div 8)) (page_word p b (k div 8))"
    using m [of ?t] by (auto simp: page_word_def)
qed

lemma strike_torn_count:
  assumes part: "dev_partial (strike_op p k) b m" and k: "pcount p b = k" "k < 4096"
  shows "pcount p m \<in> {k, Suc k, 8 * Suc (k div 8)}"
proof -
  have k8: "k < 8 * WORDS_PER_PAGE" using k by (simp add: WORDS_PER_PAGE_def)
  have cnt: "page_count (page_word p b) WORDS_PER_PAGE = k" using k by (simp add: pcount_def)
  have "page_word p b (k div 8) AND struck (Suc (k mod 8)) = struck (Suc (k mod 8))"
    using page_count_next [OF cnt k8] by (intro strike_full) auto
  then show ?thesis
    using page_strike_torn [OF cnt k8, of "page_word p m (k div 8)"] strike_partial_word [OF part k(2)]
    unfolding pcount_def by metis
qed

lemma strike_full_count:
  assumes k: "pcount p b = k" "k < 4096"
  shows "pcount p (dev_full (strike_op p k) b) = Suc k"
proof -
  have "page_word p (dev_full (strike_op p k) b)
      = (page_word p b)(k div 8 := page_word p b (k div 8) AND struck (Suc (k mod 8)))"
    by (auto simp: fun_eq_iff page_word_def strike_op_def)
  then show ?thesis
    using page_strike_full [of "page_word p b" WORDS_PER_PAGE k] k
    by (simp add: pcount_def WORDS_PER_PAGE_def)
qed

lemma strike_other_page:
  assumes "dev_partial (strike_op p k) b m" and "k < 4096" and "p \<noteq> q"
  shows "pcount q m = pcount q b"
  unfolding pcount_def
proof (rule page_count_cong)
  fix i assume "i < WORDS_PER_PAGE"
  then have "WORDS_PER_PAGE * page_number q + i \<noteq> WORDS_PER_PAGE * page_number p + k div 8"
    using page_word_other [of q p i "k div 8"] assms strike_word_index by simp
  then show "page_word q m i = page_word q b i"
    using assms(1) [unfolded strike_op_def dev_partial.simps, rule_format, of "WORDS_PER_PAGE * page_number q + i"]
    by (simp add: page_word_def split: if_splits)
qed

lemma page_of_word: "i < WORDS_PER_PAGE \<Longrightarrow> (WORDS_PER_PAGE * page_number p + i) div WORDS_PER_PAGE = page_number p"
  by (simp add: WORDS_PER_PAGE_def)

lemma erase_other_page:
  assumes "dev_partial (DErase (page_number p)) b m" and "p \<noteq> q"
  shows "pcount q m = pcount q b"
  unfolding pcount_def
proof (rule page_count_cong)
  fix i assume "i < WORDS_PER_PAGE"
  moreover have "page_number q \<noteq> page_number p" using assms(2) by (cases p; cases q) auto
  ultimately show "page_word q m i = page_word q b i"
    using assms(1) by (simp add: page_word_def page_of_word)
qed

lemma erase_full_count: "pcount p (dev_full (DErase (page_number p)) b) = 0"
  by (simp add: pcount_def page_count_0_iff page_word_def page_of_word)

section \<open>Steps\<close>

datatype nv_label = Internal | Call ReturnCode | Event "nv_event option" | Reset

fun op_done :: "dev_op \<Rightarrow> ReturnCode \<Rightarrow> (FlashDev FlashCounter, unit, nv_event option) eff" where
  "op_done (DErase _) code = erase_done dev_flash code"
| "op_done (DWrite _ d) code = write_done dev_flash d code"

definition settle :: "(nat \<Rightarrow> u32) \<Rightarrow> FlashDev FlashCounter \<Rightarrow> FlashDev FlashCounter" where
  "settle m c = c\<lparr>flash := \<lparr>cells = m, base = m, pending = None\<rparr>\<rparr>"

definition boot :: "u32 \<Rightarrow> (nat \<Rightarrow> u32) \<Rightarrow> FlashDev FlashCounter" where
  "boot buf m = FlashCounter_set_client (FlashCounter_new buf \<lparr>cells = m, base = m, pending = None\<rparr>)"

text \<open>
  A call of \<^verbatim>\<open>read_and_increment\<close>; progress of the cells; the completion of an
  operation, in full when it is reported successful; a reset, which loses everything but the cells.
\<close>

inductive nv_step :: "FlashDev FlashCounter \<Rightarrow> nv_label \<Rightarrow> FlashDev FlashCounter \<Rightarrow> bool" where
  call: "read_and_increment dev_flash c = (Ok rc, c') \<Longrightarrow> nv_step c (Call rc) c'"
| progress: "pending (flash c) = Some op \<Longrightarrow> dev_partial op (base (flash c)) m
    \<Longrightarrow> nv_step c Internal (c\<lparr>flash := (flash c)\<lparr>cells := m\<rparr>\<rparr>)"
| finish: "pending (flash c) = Some op \<Longrightarrow> dev_partial op (base (flash c)) m
    \<Longrightarrow> (code = SUCCESS \<Longrightarrow> m = dev_full op (base (flash c)))
    \<Longrightarrow> op_done op code (settle m c) = (Ok ev, c') \<Longrightarrow> nv_step c (Event ev) c'"
| reset: "nv_step c Reset (boot buf (cells (flash c)))"

inductive nv_trace :: "FlashDev FlashCounter \<Rightarrow> nv_label list \<Rightarrow> FlashDev FlashCounter \<Rightarrow> bool" where
  nil: "nv_trace c [] c"
| snoc: "nv_trace c ls c1 \<Longrightarrow> nv_step c1 l c2 \<Longrightarrow> nv_trace c (ls @ [l]) c2"

section \<open>Invariant\<close>

text \<open>The steps of an increment, in the terms of the capsule's documentation.\<close>

datatype phase = Resting | Incr1 | Rollover1 | Rollover2 | Rollover3

fun phase_ok :: "phase \<Rightarrow> FlashDev FlashCounter \<Rightarrow> bool" where
  "phase_ok Resting c \<longleftrightarrow> pending (flash c) = None \<and> cells (flash c) = base (flash c) \<and> write_buffer c \<noteq> None \<and> task c = None"
| "phase_ok Incr1 c \<longleftrightarrow> pending (flash c) = Some (strike_op Low (pcount Low (base (flash c))))
     \<and> pcount Low (base (flash c)) < 4096 \<and> even (pcount High (base (flash c)))
     \<and> write_buffer c = None \<and> task c = Some Increment"
| "phase_ok Rollover1 c \<longleftrightarrow> pending (flash c) = Some (strike_op High (pcount High (base (flash c))))
     \<and> pcount Low (base (flash c)) = 4096 \<and> even (pcount High (base (flash c))) \<and> pcount High (base (flash c)) < 4096
     \<and> write_buffer c = None \<and> task c = Some Increment"
| "phase_ok Rollover2 c \<longleftrightarrow> pending (flash c) = Some (DErase (page_number Low))
     \<and> odd (pcount High (base (flash c))) \<and> write_buffer c \<noteq> None \<and> task c \<noteq> Some Initialize"
| "phase_ok Rollover3 c \<longleftrightarrow> pending (flash c) = Some (strike_op High (pcount High (base (flash c))))
     \<and> pcount Low (base (flash c)) = 0 \<and> odd (pcount High (base (flash c)))
     \<and> write_buffer c = None \<and> task c \<noteq> Some Initialize"

definition nv_inv :: "FlashDev FlashCounter \<Rightarrow> bool" where
  "nv_inv c \<longleftrightarrow> nv_client c \<and> (\<exists>ph. phase_ok ph c)
     \<and> (\<forall>op. pending (flash c) = Some op \<longrightarrow> dev_partial op (base (flash c)) (cells (flash c)))"

abbreviation stored :: "FlashDev FlashCounter \<Rightarrow> nat" where
  "stored c \<equiv> nv_value (base (flash c))"

lemma boot_inv: "nv_inv (boot buf m)"
  by (auto simp: nv_inv_def boot_def FlashCounter_new_def FlashCounter_set_client_def intro: exI [of _ Resting])

section \<open>The value across a strike\<close>

lemma nv_value_eq:
  "nv_value m = (if odd (pcount High m) then 4097 * ((pcount High m + 1) div 2)
     else 4097 * (pcount High m div 2) + pcount Low m)"
  unfolding nv_value_def by (rule counter_value_exact [OF pcount_le pcount_le])

lemma nv_value_le: "nv_value m \<le> 8394752"
proof -
  have "pcount High m \<le> 4096" "pcount Low m \<le> 4096" by (rule pcount_le)+
  moreover have "odd (pcount High m) \<Longrightarrow> pcount High m \<noteq> 4096" by auto
  ultimately have "odd (pcount High m) \<Longrightarrow> (pcount High m + 1) div 2 \<le> 2048" "pcount High m div 2 \<le> 2048"
    by auto
  then show ?thesis
    using pcount_le [of Low m] by (auto simp: nv_value_eq)
qed

lemma odd_half_le: "(h :: nat) \<le> h' \<Longrightarrow> (h + 1) div 2 \<le> (h' + 1) div 2"
  by simp

lemma nv_value_high_mono:
  assumes "pcount High b \<le> pcount High m" and "pcount Low m = pcount Low b"
    and "pcount Low b = 0 \<or> even (pcount High b)"
  shows "nv_value b \<le> nv_value m"
proof -
  let ?h = "pcount High b" and ?h' = "pcount High m"
  consider "even ?h" "even ?h'" | "even ?h" "odd ?h'" | "odd ?h" "odd ?h'" | "odd ?h" "even ?h'" by blast
  then show ?thesis
  proof cases
    case 2
    then have "?h div 2 + 1 \<le> (?h' + 1) div 2" using assms(1) by (auto elim!: evenE oddE)
    then have "4097 * (?h div 2) + 4097 \<le> 4097 * ((?h' + 1) div 2)" by simp
    then show ?thesis using 2 pcount_le [of Low b] by (simp add: nv_value_eq)
  next
    case 4
    then have "(?h + 1) div 2 \<le> ?h' div 2" using assms(1) by (auto elim!: evenE oddE)
    then show ?thesis using 4 by (simp add: nv_value_eq)
  qed (use assms in \<open>simp_all add: nv_value_eq div_le_mono\<close>)
qed

lemma strike_torn_ge:
  assumes "dev_partial (strike_op p k) b m" and "pcount p b = k" and "k < 4096"
  shows "k \<le> pcount p m"
  using strike_torn_count [OF assms] by auto

lemma strike_low_mono:
  assumes "dev_partial (strike_op Low k) b m" and "pcount Low b = k" and "k < 4096"
  shows "nv_value b \<le> nv_value m"
  using strike_torn_ge [OF assms] strike_other_page [OF assms(1,3), of High] assms(2) by (simp add: nv_value_eq)

lemma strike_high_mono:
  assumes "dev_partial (strike_op High k) b m" and "pcount High b = k" and "k < 4096"
    and "pcount Low b = 0 \<or> even k"
  shows "nv_value b \<le> nv_value m"
  using strike_torn_ge [OF assms(1-3)] strike_other_page [OF assms(1,3), of Low] assms nv_value_high_mono by simp

lemma erase_low_same:
  assumes "dev_partial (DErase (page_number Low)) b m" and "odd (pcount High b)"
  shows "nv_value m = nv_value b"
  using erase_other_page [OF assms(1), of High] assms(2) by (simp add: nv_value_eq)

section \<open>Strikes by the capsule\<close>

lemma COUNTS_PER_PAGE_4096: "COUNTS_PER_PAGE = 4096"
  by (simp add: COUNTS_PER_PAGE_def COUNTS_PER_WORD_def WORDS_PER_PAGE_def)

lemma start_increment_dev:
  "start_increment dev_flash p k buf s =
     (if 4096 \<le> k then (Ok (ESIZE, Some buf), s)
      else if pending s \<noteq> None then (Ok (EBUSY, Some (struck (Suc (k mod 8)))), s)
      else (Ok (SUCCESS, None), s\<lparr>pending := Some (strike_op p k)\<rparr>))"
proof (cases "4096 \<le> k")
  case True
  then show ?thesis by (simp add: start_increment_def COUNTS_PER_PAGE_4096)
next
  case False
  then have "WORDS_PER_PAGE * page_number p + k div 8 < FLASH_WORDS"
    using page_in_flash [of "k div 8" p] strike_word_index [of k] by simp
  moreover have "WRITE_PATTERNS ! (k mod 8) = struck (Suc (k mod 8))"
    by (simp add: WRITE_PATTERNS_struck)
  ultimately show ?thesis
    using False
    by (simp add: start_increment_def COUNTS_PER_PAGE_4096 COUNTS_PER_WORD_def dev_flash_def dev_write_def
        MAX_WRITE_SIZE_def strike_op_def Let_def eff_bind_def)
qed

lemma strike_dev:
  "strike dev_flash p k c =
     (case write_buffer c of None \<Rightarrow> (Panic, c)
      | Some buf \<Rightarrow>
          if 4096 \<le> k then (Ok (ESIZE, Some buf), c)
          else if pending (flash c) \<noteq> None then (Ok (EBUSY, Some (struck (Suc (k mod 8)))), c\<lparr>write_buffer := Some (struck (Suc (k mod 8)))\<rparr>)
          else (Ok (SUCCESS, None), c\<lparr>write_buffer := None, flash := (flash c)\<lparr>pending := Some (strike_op p k)\<rparr>\<rparr>))"
  by (cases "write_buffer c"; cases c) (simp_all add: strike_def on_flash_def start_increment_dev eff_bind_def)

lemma erase_low_dev:
  "on_flash (flash_erase dev_flash 255) c =
     (if pending (flash c) \<noteq> None then (Ok EBUSY, c)
      else (Ok SUCCESS, c\<lparr>flash := (flash c)\<lparr>pending := Some (DErase 255)\<rparr>\<rparr>))"
  by (cases c) (simp add: on_flash_def dev_flash_def dev_erase_def FLASH_WORDS_def WORDS_PER_PAGE_def)

lemmas nv_dev_simps = strike_dev erase_low_dev set_task_def notify_def eff_bind_def

section \<open>Every step keeps the invariant\<close>

lemma nv_invI:
  assumes "nv_client c" and "phase_ok ph c"
    and "\<And>op. pending (flash c) = Some op \<Longrightarrow> dev_partial op (base (flash c)) (cells (flash c))"
  shows "nv_inv c"
  using assms by (auto simp: nv_inv_def)

text \<open>What a call does in each phase.\<close>

definition call_ok :: "FlashDev FlashCounter \<Rightarrow> ReturnCode \<Rightarrow> FlashDev FlashCounter \<Rightarrow> bool" where
  "call_ok c rc c' \<longleftrightarrow> nv_inv c' \<and> base (flash c') = base (flash c)
     \<and> (\<forall>v. rc = SuccessWithValue v \<longrightarrow> v = stored c \<and> task c' = Some Increment)
     \<and> (task c = Some Increment \<longrightarrow> c' = c)"

lemma call_busy:
  assumes "nv_inv c" and "task c \<noteq> None" and "read_and_increment dev_flash c = (Ok rc, c')"
  shows "call_ok c rc c'"
  using assms by (auto simp: read_and_increment_def call_ok_def)

lemma call_resting:
  assumes "nv_inv c" and ph: "phase_ok Resting c" and "read_and_increment dev_flash c = (Ok rc, c')"
  shows "call_ok c rc c'"
proof -
  obtain buf where buf: "write_buffer c = Some buf" using ph by auto
  let ?h = "pcount High (cells (flash c))" and ?l = "pcount Low (cells (flash c))"
  have h: "?h \<le> 4096" and l: "?l \<le> 4096" by (rule pcount_le)+
  have odd_less: "odd ?h \<Longrightarrow> ?h < 4096" using h by (cases "?h = 4096") auto
  have cl: "nv_client c" using assms(1) by (simp add: nv_inv_def)
  have val: "counter_value ?h ?l = stored c" using ph by (simp add: nv_value_def)
  consider (roll3) "odd ?h" "?l = 0" | (roll2) "odd ?h" "?l \<noteq> 0" | (incr) "even ?h" "?l < 4096"
    | (roll1) "even ?h" "?l = 4096" "?h < 4096" | (full) "?l = 4096" "?h = 4096"
    using h l by fastforce
  then show ?thesis
  proof cases
    case roll3
    then show ?thesis
      using assms(3) ph buf odd_less cl val
      by (auto simp: read_and_increment_def nv_dev_simps Let_def call_ok_def dev_partial_refl
          intro!: nv_invI [where ph = Rollover3])
  next
    case roll2
    then show ?thesis
      using assms(3) ph buf cl val
      by (auto simp: read_and_increment_def nv_dev_simps Let_def call_ok_def dev_partial_refl
          intro!: nv_invI [where ph = Rollover2] simp del: dev_partial.simps)
  next
    case incr
    then show ?thesis
      using assms(3) ph buf cl val
      by (auto simp: read_and_increment_def nv_dev_simps Let_def call_ok_def dev_partial_refl
          intro!: nv_invI [where ph = Incr1])
  next
    case roll1
    then show ?thesis
      using assms(3) ph buf cl val
      by (auto simp: read_and_increment_def nv_dev_simps Let_def call_ok_def dev_partial_refl
          intro!: nv_invI [where ph = Rollover1])
  next
    case full
    then have "rc = ESIZE \<and> c' = c"
      using assms(3) ph buf by (auto simp: read_and_increment_def nv_dev_simps Let_def)
    then show ?thesis using assms(1) ph by (auto simp: call_ok_def)
  qed
qed

lemma call_rollover2:
  assumes "nv_inv c" and ph: "phase_ok Rollover2 c" "task c = None" and "read_and_increment dev_flash c = (Ok rc, c')"
  shows "call_ok c rc c'"
proof -
  obtain buf where buf: "write_buffer c = Some buf" using ph by auto
  have part: "dev_partial (DErase (page_number Low)) (base (flash c)) (cells (flash c))" and cl: "nv_client c"
    using assms(1) ph by (auto simp: nv_inv_def)
  have h: "pcount High (cells (flash c)) = pcount High (base (flash c))"
    using erase_other_page [OF part] by simp
  have "pcount High (base (flash c)) \<noteq> 4096" using ph by auto
  then have h4: "pcount High (base (flash c)) < 4096" using pcount_le [of High "base (flash c)"] by simp
  have "counter_value (pcount High (cells (flash c))) (pcount Low (cells (flash c))) = stored c"
    using erase_low_same [OF part] ph by (simp add: nv_value_def)
  then show ?thesis
    using assms(4) ph buf cl part h h4
    by (cases "pcount Low (cells (flash c)) = 0")
      (auto simp: read_and_increment_def nv_dev_simps Let_def call_ok_def
        intro!: nv_invI [where ph = Rollover2] simp del: dev_partial.simps)
qed

lemma call_rollover3:
  assumes "nv_inv c" and ph: "phase_ok Rollover3 c" "task c = None" and "read_and_increment dev_flash c = (Ok rc, c')"
  shows "call_ok c rc c'"
proof -
  let ?k = "pcount High (base (flash c))"
  have part: "dev_partial (strike_op High ?k) (base (flash c)) (cells (flash c))" and cl: "nv_client c"
    using assms(1) ph by (auto simp: nv_inv_def)
  have "?k \<noteq> 4096" using ph by auto
  then have k: "?k < 4096" using pcount_le [of High "base (flash c)"] by simp
  have low: "pcount Low (cells (flash c)) = 0"
    using strike_other_page [OF part k, of Low] ph by simp
  have "odd (pcount High (cells (flash c)))"
  proof (rule ccontr)
    assume "\<not> odd (pcount High (cells (flash c)))"
    then show False using assms(4) ph low by (auto simp: read_and_increment_def nv_dev_simps Let_def)
  qed
  moreover have "pcount High (cells (flash c)) \<in> {?k, Suc ?k, 8 * Suc (?k div 8)}"
    by (rule strike_torn_count [OF part _ k]) simp
  ultimately have h: "pcount High (cells (flash c)) = ?k" using ph by auto
  then have "counter_value (pcount High (cells (flash c))) (pcount Low (cells (flash c))) = stored c"
    using low ph by (simp add: nv_value_def)
  then show ?thesis
    using assms(4) ph cl part h low
    by (auto simp: read_and_increment_def nv_dev_simps Let_def call_ok_def
        intro!: nv_invI [where ph = Rollover3] simp del: dev_partial.simps)
qed

lemma call_step:
  assumes "nv_inv c" and "read_and_increment dev_flash c = (Ok rc, c')"
  shows "call_ok c rc c'"
proof -
  obtain ph where ph: "phase_ok ph c" using assms(1) by (auto simp: nv_inv_def)
  show ?thesis
  proof (cases "task c")
    case None
    then show ?thesis
      using call_resting call_rollover2 call_rollover3 assms ph by (cases ph) auto
  next
    case (Some t)
    then show ?thesis using call_busy assms by simp
  qed
qed

text \<open>What a completion does in each phase: \<open>m\<close> is what the operation left in the cells.\<close>

definition finish_ok :: "FlashDev FlashCounter \<Rightarrow> (nat \<Rightarrow> u32) \<Rightarrow> nv_event option \<Rightarrow> FlashDev FlashCounter \<Rightarrow> bool" where
  "finish_ok c m ev c' \<longleftrightarrow> nv_inv c' \<and> base (flash c') = m \<and> cells (flash c') = m \<and> stored c \<le> nv_value m
     \<and> (ev = Some (IncrementDone SUCCESS) \<longrightarrow> nv_value m = Suc (stored c) \<and> task c = Some Increment)
     \<and> (ev = None \<and> task c = Some Increment \<longrightarrow> nv_value m = stored c \<and> task c' = Some Increment)"

lemma settle_simps [simp]:
  "flash (settle m c) = \<lparr>cells = m, base = m, pending = None\<rparr>" "task (settle m c) = task c"
  "write_buffer (settle m c) = write_buffer c" "nv_client (settle m c) = nv_client c"
  by (simp_all add: settle_def)

text \<open>A failed write of a wanted increment.\<close>

lemma write_failed:
  assumes "nv_client c" and "task c = Some Increment" and "code \<noteq> SUCCESS"
  shows "write_done dev_flash [w] code (settle m c)
    = (Ok (Some (IncrementDone code)), (settle m c)\<lparr>write_buffer := Some w, task := None\<rparr>)"
  using assms by (simp add: write_done_def notify_def Let_def)

lemma rested_inv: "nv_client c \<Longrightarrow> nv_inv ((settle m c)\<lparr>write_buffer := Some w, task := None\<rparr>)"
  by (rule nv_invI [where ph = Resting]) auto

lemma finish_failed_write:
  assumes "nv_client c" and "task c = Some Increment" and "code \<noteq> SUCCESS" and "stored c \<le> nv_value m"
    and "write_done dev_flash [w] code (settle m c) = (Ok ev, c')"
  shows "finish_ok c m ev c'"
  using assms write_failed [OF assms(1-3), where w = w and m = m] rested_inv [OF assms(1), where m = m and w = w] by (auto simp: finish_ok_def)

lemma finish_incr1:
  assumes inv: "nv_inv c" and ph: "phase_ok Incr1 c" and part: "dev_partial (strike_op Low (pcount Low (base (flash c)))) (base (flash c)) m"
    and full: "code = SUCCESS \<Longrightarrow> m = dev_full (strike_op Low (pcount Low (base (flash c)))) (base (flash c))"
    and fin: "write_done dev_flash [w] code (settle m c) = (Ok ev, c')"
  shows "finish_ok c m ev c'"
proof -
  let ?k = "pcount Low (base (flash c))"
  have k: "?k < 4096" and cl: "nv_client c" and t: "task c = Some Increment" using ph inv by (auto simp: nv_inv_def)
  have high: "pcount High m = pcount High (base (flash c))" using strike_other_page [OF part k] by simp
  have mono: "stored c \<le> nv_value m" using strike_low_mono [OF part _ k] by simp
  show ?thesis
  proof (cases "code = SUCCESS")
    case False
    then show ?thesis using finish_failed_write cl t mono fin by blast
  next
    case True
    have low: "pcount Low m = Suc ?k" using full True strike_full_count [OF refl k] by simp
    then have "ev = Some (IncrementDone SUCCESS)" "c' = (settle m c)\<lparr>write_buffer := Some w, task := None\<rparr>"
      using fin True t cl high ph by (auto simp: write_done_def nv_dev_simps Let_def)
    moreover have "nv_value m = Suc (stored c)" using low high ph by (simp add: nv_value_eq)
    ultimately show ?thesis using rested_inv [OF cl, where m = m and w = w] t by (auto simp: finish_ok_def)
  qed
qed

lemma finish_rollover1:
  assumes inv: "nv_inv c" and ph: "phase_ok Rollover1 c" and part: "dev_partial (strike_op High (pcount High (base (flash c)))) (base (flash c)) m"
    and full: "code = SUCCESS \<Longrightarrow> m = dev_full (strike_op High (pcount High (base (flash c)))) (base (flash c))"
    and fin: "write_done dev_flash [w] code (settle m c) = (Ok ev, c')"
  shows "finish_ok c m ev c'"
proof -
  let ?k = "pcount High (base (flash c))"
  have k: "?k < 4096" and cl: "nv_client c" and t: "task c = Some Increment" using ph inv by (auto simp: nv_inv_def)
  have low: "pcount Low m = 4096" using strike_other_page [OF part k, of Low] ph by simp
  have mono: "stored c \<le> nv_value m" using strike_high_mono [OF part _ k] ph by simp
  show ?thesis
  proof (cases "code = SUCCESS")
    case False
    then show ?thesis using finish_failed_write cl t mono fin by blast
  next
    case True
    have high: "pcount High m = Suc ?k" using full True strike_full_count [OF refl k] by simp
    have v: "nv_value m = Suc (stored c)" using high low ph by (auto simp: nv_value_eq elim!: evenE)
    let ?c = "(settle m c)\<lparr>write_buffer := Some w, task := None\<rparr>"
    let ?c2 = "?c\<lparr>flash := (flash ?c)\<lparr>pending := Some (DErase 255)\<rparr>\<rparr>"
    have "ev = Some (IncrementDone SUCCESS)" "c' = (if low_page_full dev_flash (flash ?c) then ?c2 else ?c)"
      using fin True t cl high low ph by (auto simp: write_done_def nv_dev_simps Let_def split: if_splits)
    moreover have "nv_inv ?c2"
      using cl high ph by (intro nv_invI [where ph = Rollover2]) (auto simp: dev_partial_refl simp del: dev_partial.simps)
    ultimately show ?thesis using rested_inv [OF cl, where m = m and w = w] t v by (auto simp: finish_ok_def)
  qed
qed

lemma finish_rollover2:
  assumes inv: "nv_inv c" and ph: "phase_ok Rollover2 c" and part: "dev_partial (DErase (page_number Low)) (base (flash c)) m"
    and full: "code = SUCCESS \<Longrightarrow> m = dev_full (DErase (page_number Low)) (base (flash c))"
    and fin: "erase_done dev_flash code (settle m c) = (Ok ev, c')"
  shows "finish_ok c m ev c'"
proof -
  have cl: "nv_client c" and t: "task c \<noteq> Some Initialize" using ph inv by (auto simp: nv_inv_def)
  obtain buf where buf: "write_buffer c = Some buf" using ph by auto
  have v: "nv_value m = stored c" using erase_low_same [OF part] ph by simp
  have high: "pcount High m = pcount High (base (flash c))" using erase_other_page [OF part] by simp
  have "pcount High (base (flash c)) \<noteq> 4096" using ph by auto
  then have h4: "pcount High m < 4096" using high pcount_le [of High m] by simp
  have sc: "(settle m c)\<lparr>write_buffer := Some buf\<rparr> = settle m c" using buf by (cases c) (simp add: settle_def)
  show ?thesis
  proof (cases "code = SUCCESS")
    case False
    have "c' = (settle m c)\<lparr>task := None\<rparr>" "ev = (if task c = None then None else Some (IncrementDone FAIL))"
      using False fin t cl by (auto simp: erase_done_def notify_def split: option.splits Task.splits)
    moreover have "nv_inv ((settle m c)\<lparr>task := None\<rparr>)"
      using cl buf by (intro nv_invI [where ph = Resting]) auto
    ultimately show ?thesis using v by (auto simp: finish_ok_def)
  next
    case True
    then have low: "pcount Low m = 0" using full erase_full_count [of Low "base (flash c)"] by simp
    let ?c = "(settle m c)\<lparr>write_buffer := None, flash := (flash (settle m c))\<lparr>pending := Some (strike_op High (pcount High m))\<rparr>\<rparr>"
    have "ev = None" "c' = ?c"
      using True fin t buf h4 by (auto simp: erase_done_def nv_dev_simps)
    moreover have "nv_inv ?c"
      using cl t low high ph by (intro nv_invI [where ph = Rollover3]) (auto simp: dev_partial_refl)
    ultimately show ?thesis using v by (auto simp: finish_ok_def)
  qed
qed

lemma finish_rollover3:
  assumes inv: "nv_inv c" and ph: "phase_ok Rollover3 c" and part: "dev_partial (strike_op High (pcount High (base (flash c)))) (base (flash c)) m"
    and full: "code = SUCCESS \<Longrightarrow> m = dev_full (strike_op High (pcount High (base (flash c)))) (base (flash c))"
    and fin: "write_done dev_flash [w] code (settle m c) = (Ok ev, c')"
  shows "finish_ok c m ev c'"
proof -
  let ?k = "pcount High (base (flash c))"
  have cl: "nv_client c" and t: "task c \<noteq> Some Initialize" using ph inv by (auto simp: nv_inv_def)
  have "?k \<noteq> 4096" using ph by auto
  then have k: "?k < 4096" using pcount_le [of High "base (flash c)"] by simp
  have low: "pcount Low m = 0" using strike_other_page [OF part k, of Low] ph by simp
  have mono: "stored c \<le> nv_value m" using strike_high_mono [OF part _ k] ph by simp
  consider (none) "task c = None" | (failed) "task c = Some Increment" "code \<noteq> SUCCESS"
    | (again) "task c = Some Increment" "code = SUCCESS"
    using t by (cases "task c"; cases "the (task c)") auto
  then show ?thesis
  proof cases
    case none
    then have "ev = None" "c' = (settle m c)\<lparr>write_buffer := Some w\<rparr>"
      using fin by (auto simp: write_done_def Let_def)
    moreover have "nv_inv ((settle m c)\<lparr>write_buffer := Some w\<rparr>)"
      using cl none by (intro nv_invI [where ph = Resting]) auto
    ultimately show ?thesis using mono none by (auto simp: finish_ok_def)
  next
    case failed
    then show ?thesis using finish_failed_write cl mono fin by blast
  next
    case again
    have high: "pcount High m = Suc ?k" using full again strike_full_count [OF refl k] by simp
    have v: "nv_value m = stored c" using high low ph by (auto simp: nv_value_eq elim!: oddE)
    let ?c = "(settle m c)\<lparr>write_buffer := None, flash := (flash (settle m c))\<lparr>pending := Some (strike_op Low 0)\<rparr>\<rparr>"
    have "ev = None" "c' = ?c"
      using again fin low by (auto simp: write_done_def nv_dev_simps Let_def)
    moreover have "nv_inv ?c"
      using cl again low high ph by (intro nv_invI [where ph = Incr1]) (auto simp: dev_partial_refl)
    ultimately show ?thesis using v again by (auto simp: finish_ok_def)
  qed
qed

lemma finish_step:
  assumes inv: "nv_inv c" and op: "pending (flash c) = Some op" and part: "dev_partial op (base (flash c)) m"
    and full: "code = SUCCESS \<Longrightarrow> m = dev_full op (base (flash c))"
    and fin: "op_done op code (settle m c) = (Ok ev, c')"
  shows "finish_ok c m ev c'"
proof -
  obtain ph where ph: "phase_ok ph c" using inv by (auto simp: nv_inv_def)
  show ?thesis
  proof (cases ph)
    case Resting
    then show ?thesis using ph op by simp
  next
    case Incr1
    with ph op have "op = strike_op Low (pcount Low (base (flash c)))" by simp
    with ph Incr1 part full fin show ?thesis
      by (intro finish_incr1 [OF inv]) (auto simp: strike_op_def)
  next
    case Rollover1
    with ph op have "op = strike_op High (pcount High (base (flash c)))" by simp
    with ph Rollover1 part full fin show ?thesis
      by (intro finish_rollover1 [OF inv]) (auto simp: strike_op_def)
  next
    case Rollover2
    with ph op have "op = DErase (page_number Low)" by simp
    with ph Rollover2 part full fin show ?thesis
      by (intro finish_rollover2 [OF inv]) auto
  next
    case Rollover3
    with ph op have "op = strike_op High (pcount High (base (flash c)))" by simp
    with ph Rollover3 part full fin show ?thesis
      by (intro finish_rollover3 [OF inv]) (auto simp: strike_op_def)
  qed
qed

section \<open>Runs\<close>

text \<open>Whatever an operation leaves behind, the value does not fall.\<close>

lemma partial_mono:
  assumes "nv_inv c" and "pending (flash c) = Some op" and "dev_partial op (base (flash c)) m"
  shows "stored c \<le> nv_value m"
proof -
  obtain ph where ph: "phase_ok ph c" using assms(1) by (auto simp: nv_inv_def)
  have odd_less: "odd (pcount High (base (flash c))) \<Longrightarrow> pcount High (base (flash c)) < 4096"
    using pcount_le [of High "base (flash c)"] by (cases "pcount High (base (flash c)) = 4096") auto
  show ?thesis
  proof (cases ph)
    case Incr1
    then show ?thesis using ph assms strike_low_mono [OF _ refl, of "base (flash c)" m] by simp
  next
    case Rollover1
    then show ?thesis using ph assms strike_high_mono [OF _ refl, of "base (flash c)" m] by simp
  next
    case Rollover2
    then show ?thesis using ph assms erase_low_same [of "base (flash c)" m] by simp
  next
    case Rollover3
    then show ?thesis using ph assms odd_less strike_high_mono [OF _ refl, of "base (flash c)" m] by simp
  qed (use ph assms in simp)
qed

lemma cells_mono: "nv_inv c \<Longrightarrow> stored c \<le> nv_value (cells (flash c))"
proof (cases "pending (flash c)")
  case None
  assume "nv_inv c"
  then obtain ph where "phase_ok ph c" by (auto simp: nv_inv_def)
  with None show ?thesis by (cases ph) auto
next
  case (Some op)
  assume "nv_inv c"
  with Some show ?thesis by (intro partial_mono) (auto simp: nv_inv_def)
qed

definition increments :: "nv_label list \<Rightarrow> nat" where
  "increments ls = length (filter (\<lambda>l. l = Event (Some (IncrementDone SUCCESS))) ls)"

lemma phase_ok_cells: "phase_ok ph (c\<lparr>flash := (flash c)\<lparr>cells := m\<rparr>\<rparr>) \<longleftrightarrow> (if ph = Resting then pending (flash c) = None \<and> m = base (flash c) \<and> write_buffer c \<noteq> None \<and> task c = None else phase_ok ph c)"
  by (cases ph) auto

lemma nv_step_sound:
  assumes "nv_inv c" and "nv_step c l c'"
  shows "nv_inv c' \<and> stored c + increments [l] \<le> stored c'"
  using assms(2)
proof cases
  case (call rc)
  with call_step [OF assms(1)] show ?thesis by (auto simp: call_ok_def increments_def)
next
  case (progress op m)
  from assms(1) obtain ph where ph: "phase_ok ph c" by (auto simp: nv_inv_def)
  with progress have "ph \<noteq> Resting" by auto
  with ph progress assms(1) show ?thesis
    by (auto simp: increments_def nv_inv_def phase_ok_cells simp del: phase_ok.simps intro!: exI [of _ ph])
next
  case (finish op m code ev)
  with finish_step [OF assms(1) finish(2,3) finish(4) finish(5)] show ?thesis
    by (auto simp: finish_ok_def increments_def)
next
  case (reset buf)
  then show ?thesis
    using boot_inv cells_mono [OF assms(1)]
    by (simp add: increments_def boot_def FlashCounter_new_def FlashCounter_set_client_def)
qed

lemma increments_append: "increments (xs @ ys) = increments xs + increments ys"
  by (simp add: increments_def)

lemma nv_trace_sound:
  assumes "nv_trace c ls c'" and "nv_inv c"
  shows "nv_inv c' \<and> stored c + increments ls \<le> stored c'"
  using assms
proof induction
  case (nil c)
  then show ?case by (simp add: increments_def)
next
  case (snoc c ls c1 l c2)
  then show ?case using nv_step_sound [of c1 l c2] by (auto simp: increments_append)
qed

text \<open>The labels of an increment that has not ended.\<close>

fun quiet :: "nv_label \<Rightarrow> bool" where
  "quiet Internal = True"
| "quiet (Call _) = True"
| "quiet (Event ev) = (ev = None)"
| "quiet Reset = False"

lemma quiet_step:
  assumes "nv_inv c" and "task c = Some Increment" and "nv_step c l c'" and "quiet l"
  shows "stored c' = stored c \<and> task c' = Some Increment"
  using assms(3)
proof cases
  case (call rc)
  with call_step [OF assms(1)] assms(2) show ?thesis by (auto simp: call_ok_def)
next
  case (progress op m)
  then show ?thesis using assms(2) by simp
next
  case (finish op m code ev)
  with finish_step [OF assms(1) finish(2,3) finish(4) finish(5)] assms(2,4) show ?thesis
    by (auto simp: finish_ok_def)
next
  case reset
  then show ?thesis using assms(4) by simp
qed

lemma quiet_trace:
  assumes "nv_trace c ls c'" and "nv_inv c" and "task c = Some Increment" and "list_all quiet ls"
  shows "nv_inv c' \<and> stored c' = stored c \<and> task c' = Some Increment"
  using assms
proof induction
  case (nil c)
  then show ?case by simp
next
  case (snoc c ls c1 l c2)
  then show ?case using quiet_step [of c1 l c2] nv_step_sound [of c1 l c2] by auto
qed

end
