(* ===== verification/Nv_Safety.thy ===== *)
theory Nv_Safety
  imports Nv_System
begin

text \<open>
  What the counter guarantees: no rollback over any run with interruptions, exact increments,
  the range of its values, completion of an increment, and initialization; and the two runs in which the
  capsule does not do what its comments say.
\<close>

section \<open>Completions\<close>

text \<open>The operation in progress ends successfully.\<close>

definition complete :: "(FlashDev FlashCounter, unit, nv_event option) eff" where
  "complete c = (case pending (flash c) of None \<Rightarrow> (Ok None, c)
     | Some op \<Rightarrow> op_done op SUCCESS (settle (dev_full op (base (flash c))) c))"

lemma complete_step:
  assumes "complete c = (Ok ev, c')" and "pending (flash c) = Some op"
  shows "nv_step c (Event ev) c'"
  by (rule nv_step.finish [where op = op and m = "dev_full op (base (flash c))" and code = SUCCESS])
    (use assms in \<open>simp_all add: complete_def dev_partial_full\<close>)

lemma complete_incr1:
  assumes "phase_ok Incr1 c" and "nv_client c"
  shows "\<exists>c'. complete c = (Ok (Some (IncrementDone SUCCESS)), c') \<and> phase_ok Resting c'
    \<and> cells (flash c') = dev_full (strike_op Low (pcount Low (base (flash c)))) (base (flash c))"
proof -
  let ?k = "pcount Low (base (flash c))" and ?m = "dev_full (strike_op Low (pcount Low (base (flash c)))) (base (flash c))"
  have "pcount Low ?m = Suc ?k" using strike_full_count [OF refl] assms by simp
  moreover have "pcount High ?m = pcount High (base (flash c))"
    using strike_other_page [where p = Low and k = ?k and q = High, OF dev_partial_full] assms by simp
  ultimately show ?thesis
    using assms by (simp add: complete_def strike_op_def [of Low ?k] write_done_def nv_dev_simps Let_def)
qed

lemma complete_rollover1:
  assumes "phase_ok Rollover1 c" and "nv_client c"
  shows "\<exists>c'. complete c = (Ok (Some (IncrementDone SUCCESS)), c')
    \<and> (base (flash c) 131071 = 0 \<longrightarrow> phase_ok Rollover2 c' \<and> task c' = None \<and> nv_client c')"
proof -
  let ?k = "pcount High (base (flash c))" and ?m = "dev_full (strike_op High (pcount High (base (flash c)))) (base (flash c))"
  have high: "pcount High ?m = Suc ?k" using strike_full_count [OF refl] assms by simp
  have low: "pcount Low ?m = 4096"
    using strike_other_page [where p = High and k = ?k and q = Low, OF dev_partial_full] assms by simp
  have last: "?m 131071 = base (flash c) 131071"
    using strike_word_index [of ?k] assms by (simp add: strike_op_def WORDS_PER_PAGE_def)
  have dn: "complete c = (if low_page_full dev_flash \<lparr>cells = ?m, base = ?m, pending = None\<rparr>
      then (Ok (Some (IncrementDone SUCCESS)), (settle ?m c)\<lparr>write_buffer := Some (struck (Suc (?k mod 8))), task := None,
        flash := \<lparr>cells = ?m, base = ?m, pending = Some (DErase 255)\<rparr>\<rparr>)
      else (Ok (Some (IncrementDone SUCCESS)), (settle ?m c)\<lparr>write_buffer := Some (struck (Suc (?k mod 8))), task := None\<rparr>))"
    using assms high low
    by (simp add: complete_def strike_op_def [of High ?k] write_done_def nv_dev_simps Let_def settle_def)
  have "low_page_full dev_flash \<lparr>cells = ?m, base = ?m, pending = None\<rparr>" if "base (flash c) 131071 = 0"
    using last that by (simp add: low_page_full_def dev_flash_def dev_read_def WORDS_PER_PAGE_def FLASH_WORDS_def)
  then show ?thesis using dn high assms by auto
qed

lemma complete_rollover2:
  assumes "phase_ok Rollover2 c" and "nv_client c"
  shows "\<exists>c'. complete c = (Ok None, c') \<and> phase_ok Rollover3 c' \<and> task c' = task c \<and> nv_client c'"
proof -
  let ?m = "dev_full (DErase (page_number Low)) (base (flash c))"
  obtain buf where buf: "write_buffer c = Some buf" using assms by auto
  have high: "pcount High ?m = pcount High (base (flash c))"
    using erase_other_page [where p = Low and q = High, OF dev_partial_full] by simp
  have "pcount High (base (flash c)) \<noteq> 4096" using assms by auto
  then have h4: "pcount High ?m < 4096" using high pcount_le [of High ?m] by simp
  have "pcount Low ?m = 0" by (rule erase_full_count)
  then show ?thesis
    using assms high h4 buf by (simp add: complete_def erase_done_def nv_dev_simps)
qed

lemma complete_rollover3:
  assumes "phase_ok Rollover3 c" and "nv_client c" and "task c = Some Increment"
  shows "\<exists>c'. complete c = (Ok None, c') \<and> phase_ok Incr1 c' \<and> nv_client c'"
proof -
  let ?k = "pcount High (base (flash c))" and ?m = "dev_full (strike_op High (pcount High (base (flash c)))) (base (flash c))"
  have "?k \<noteq> 4096" using assms by auto
  then have k: "?k < 4096" using pcount_le [of High "base (flash c)"] by simp
  have high: "pcount High ?m = Suc ?k" using strike_full_count [OF refl k] .
  have low: "pcount Low ?m = 0"
    using strike_other_page [where p = High and k = ?k and q = Low, OF dev_partial_full k] assms by simp
  show ?thesis
    using assms high low by (simp add: complete_def strike_op_def [of High ?k] write_done_def nv_dev_simps Let_def)
qed

text \<open>The event of the last of \<open>n\<close> completions.\<close>

fun complete_n :: "nat \<Rightarrow> (FlashDev FlashCounter, unit, nv_event option) eff" where
  "complete_n 0 = ret None"
| "complete_n (Suc n) = eff_bind complete (\<lambda>ev. if n = 0 then ret ev else complete_n n)"

section \<open>A concrete run\<close>

definition erased :: "nat \<Rightarrow> u32" where
  "erased i = 0xFFFFFFFF"

lemma pcount_erased [simp]: "pcount p erased = 0"
  by (simp add: pcount_def page_count_0_iff page_word_def erased_def)

lemma boot_resting: "phase_ok Resting (boot buf m) \<and> nv_client (boot buf m) \<and> cells (flash (boot buf m)) = m"
  by (simp add: boot_def FlashCounter_new_def FlashCounter_set_client_def)

lemma call_incr1:
  assumes "phase_ok Resting c" and "even (pcount High (cells (flash c)))" and "pcount Low (cells (flash c)) < 4096"
  shows "\<exists>c'. read_and_increment dev_flash c = (Ok (SuccessWithValue (nv_value (cells (flash c)))), c')
    \<and> phase_ok Incr1 c' \<and> base (flash c') = base (flash c) \<and> nv_client c' = nv_client c"
  using assms by (auto simp: read_and_increment_def nv_dev_simps Let_def nv_value_def)

lemma fresh_run:
  "\<exists>c1 c2 c3 v. nv_step (boot 0 erased) (Call (SuccessWithValue 0)) c1
    \<and> nv_step c1 (Event (Some (IncrementDone SUCCESS))) c2 \<and> nv_step c2 (Call (SuccessWithValue v)) c3"
proof -
  let ?c = "boot 0 erased"
  have c: "phase_ok Resting ?c" "nv_client ?c" "cells (flash ?c) = erased" "base (flash ?c) = erased"
    using boot_resting [of 0 erased] by auto
  have "nv_value erased = 0" by (simp add: nv_value_eq)
  with call_incr1 [OF c(1)] c obtain c1 where c1: "read_and_increment dev_flash ?c = (Ok (SuccessWithValue 0), c1)"
      "phase_ok Incr1 c1" "base (flash c1) = erased" "nv_client c1"
    by auto
  from complete_incr1 [OF c1(2,4)] c1(3) obtain c2 where c2: "complete c1 = (Ok (Some (IncrementDone SUCCESS)), c2)"
      "phase_ok Resting c2" "cells (flash c2) = dev_full (strike_op Low 0) erased"
    by auto
  have "pcount Low (dev_full (strike_op Low 0) erased) = Suc 0" using strike_full_count [of Low erased 0] by simp
  moreover have "pcount High (dev_full (strike_op Low 0) erased) = 0"
    using strike_other_page [where p = Low and k = 0 and q = High and b = erased, OF dev_partial_full] by simp
  ultimately obtain c3 v where "read_and_increment dev_flash c2 = (Ok (SuccessWithValue v), c3)"
    using call_incr1 [OF c2(2)] c2(3) by auto
  then show ?thesis
    using nv_step.call [OF c1(1)] complete_step [OF c2(1)] c1(2) nv_step.call by auto blast
qed

section \<open>A rollover in the background\<close>

definition low_full :: "nat \<Rightarrow> u32" where
  "low_full i = (if 130560 \<le> i then 0 else 0xFFFFFFFF)"

lemma pcount_low_full: "pcount High low_full = 0" "pcount Low low_full = 4096"
proof -
  show "pcount High low_full = 0"
    by (simp add: pcount_def page_count_0_iff page_word_def low_full_def WORDS_PER_PAGE_def)
  have "pcount Low low_full = 8 * 511 + dec (page_word Low low_full 511)"
    unfolding pcount_def
    by (rule page_count_eq) (simp_all add: WORDS_PER_PAGE_def page_word_def low_full_def)
  then show "pcount Low low_full = 4096"
    by (simp add: WORDS_PER_PAGE_def page_word_def low_full_def dec_def decode_word_def)
qed

lemma call_to_rollover1:
  assumes "phase_ok Resting c" and "even (pcount High (cells (flash c)))" and "pcount Low (cells (flash c)) = 4096"
    and "pcount High (cells (flash c)) < 4096"
  shows "\<exists>c'. read_and_increment dev_flash c = (Ok (SuccessWithValue (nv_value (cells (flash c)))), c')
    \<and> phase_ok Rollover1 c' \<and> base (flash c') = base (flash c) \<and> nv_client c' = nv_client c"
  using assms by (auto simp: read_and_increment_def nv_dev_simps Let_def nv_value_def)

lemma rollover3_reachable:
  "\<exists>ls c. nv_trace (boot 0 low_full) ls c \<and> phase_ok Rollover3 c \<and> task c = None"
proof -
  let ?c = "boot 0 low_full"
  have c: "phase_ok Resting ?c" "nv_client ?c" "cells (flash ?c) = low_full" "base (flash ?c) = low_full"
    using boot_resting [of 0 low_full] by auto
  then obtain c1 rc where c1: "read_and_increment dev_flash ?c = (Ok rc, c1)" "phase_ok Rollover1 c1"
      "base (flash c1) = low_full" "nv_client c1"
    using call_to_rollover1 [OF c(1)] pcount_low_full by auto
  then obtain c2 ev where c2: "complete c1 = (Ok ev, c2)" "phase_ok Rollover2 c2" "task c2 = None" "nv_client c2"
    using complete_rollover1 [of c1] by (auto simp: low_full_def)
  then obtain c3 where c3: "complete c2 = (Ok None, c3)" "phase_ok Rollover3 c3" "task c3 = None"
    using complete_rollover2 [of c2] by auto
  have "nv_trace ?c ([] @ [Call rc]) c1" by (rule nv_trace.snoc [OF nv_trace.nil nv_step.call [OF c1(1)]])
  moreover have "nv_step c1 (Event ev) c2" using complete_step [OF c2(1)] c1(2) by simp
  moreover have "nv_step c2 (Event None) c3" using complete_step [OF c3(1)] c2(2) by simp
  ultimately have "nv_trace ?c ((([] @ [Call rc]) @ [Event ev]) @ [Event None]) c3"
    by (blast intro: nv_trace.snoc)
  then show ?thesis using c3 by blast
qed

section \<open>Properties\<close>

text \<open>C2. The counter never rolls back: over any run of calls, partial and completed flash operations, failures and
  resets, from any flash contents, a value that is read later is at least the one read earlier plus the increments reported
  as successful in between.\<close>

theorem nv_no_rollback:
  assumes "nv_trace (boot buf m) ls0 c" and "nv_step c (Call (SuccessWithValue v)) c1"
    and "nv_trace c1 ls c2" and "nv_step c2 (Call (SuccessWithValue v')) c3"
  shows "v + increments ls \<le> v'"
proof -
  have inv: "nv_inv c" using nv_trace_sound [OF assms(1) boot_inv] by simp
  have c1: "nv_inv c1" using nv_step_sound [OF inv assms(2)] by simp
  have c2: "nv_inv c2" "stored c1 + increments ls \<le> stored c2" using nv_trace_sound [OF assms(3) c1] by auto
  have "v = stored c" "stored c1 = stored c"
    using assms(2) call_step [OF inv] by (auto elim!: nv_step.cases simp: call_ok_def)
  moreover have "v' = stored c2"
    using assms(4) call_step [OF c2(1)] by (auto elim!: nv_step.cases simp: call_ok_def)
  ultimately show ?thesis using c2 by simp
qed

theorem nv_no_rollback_witness:
  "\<exists>c1 c2 c3 v. nv_step (boot 0 erased) (Call (SuccessWithValue 0)) c1
    \<and> nv_step c1 (Event (Some (IncrementDone SUCCESS))) c2 \<and> nv_step c2 (Call (SuccessWithValue v)) c3 \<and> 1 \<le> v"
proof -
  obtain c1 c2 c3 v where s: "nv_step (boot 0 erased) (Call (SuccessWithValue 0)) c1"
      "nv_step c1 (Event (Some (IncrementDone SUCCESS))) c2" "nv_step c2 (Call (SuccessWithValue v)) c3"
    using fresh_run by blast
  have "nv_trace c1 [Event (Some (IncrementDone SUCCESS))] c2"
    using nv_trace.snoc [OF nv_trace.nil s(2)] by simp
  from nv_no_rollback [OF nv_trace.nil s(1) this s(3)] have "1 \<le> v" by (simp add: increments_def)
  with s show ?thesis by blast
qed

text \<open>An increment is exact: when the client is told that its increment succeeded, the flash holds the value it was
  given by the call plus one, however many rollover steps ran in between.\<close>

theorem nv_increment_exact:
  assumes "nv_trace (boot buf m) ls0 c" and "nv_step c (Call (SuccessWithValue v)) c1"
    and "nv_trace c1 ls c2" and "list_all quiet ls" and "nv_step c2 (Event (Some (IncrementDone SUCCESS))) c3"
  shows "nv_value (cells (flash c3)) = v + 1"
proof -
  have inv: "nv_inv c" using nv_trace_sound [OF assms(1) boot_inv] by simp
  have c1: "nv_inv c1" "v = stored c1" "task c1 = Some Increment"
    using assms(2) call_step [OF inv] by (auto elim!: nv_step.cases simp: call_ok_def)
  have c2: "nv_inv c2" "stored c2 = v" using quiet_trace [OF assms(3) c1(1,3) assms(4)] c1(2) by auto
  from assms(5) show ?thesis
  proof cases
    case (finish op m' code)
    then have f: "finish_ok c2 m' (Some (IncrementDone SUCCESS)) c3"
      using finish_step [OF c2(1) finish(1,2) finish(3) finish(4)] by simp
    then show ?thesis using c2 by (simp add: finish_ok_def)
  qed
qed

theorem nv_increment_exact_witness:
  "\<exists>c1 c2. nv_step (boot 0 erased) (Call (SuccessWithValue 0)) c1
    \<and> nv_step c1 (Event (Some (IncrementDone SUCCESS))) c2 \<and> nv_value (cells (flash c2)) = 1"
proof -
  obtain c1 c2 where s: "nv_step (boot 0 erased) (Call (SuccessWithValue 0)) c1"
      "nv_step c1 (Event (Some (IncrementDone SUCCESS))) c2"
    using fresh_run by blast
  from nv_increment_exact [OF nv_trace.nil s(1) nv_trace.nil _ s(2)] have "nv_value (cells (flash c2)) = 1" by simp
  with s show ?thesis by blast
qed

text \<open>A strike of a page is safe against interruption, whatever the page held: if it completes, the count is one
  higher; if it is cut off anywhere, the count that is read back is the old one, the new one, or the end of the
  word, never less than before.\<close>

theorem nv_strike_safe:
  assumes "start_increment dev_flash p (read_page_count dev_flash p s) buf s = (Ok (SUCCESS, None), s')"
    and "base s = cells s" and "pending s' = Some op" and "dev_partial op (base s') torn"
  shows "read_page_count dev_flash p (s'\<lparr>cells := dev_full op (base s')\<rparr>) = Suc (read_page_count dev_flash p s)
    \<and> read_page_count dev_flash p (s'\<lparr>cells := torn\<rparr>) \<in>
        {read_page_count dev_flash p s, Suc (read_page_count dev_flash p s), 8 * Suc (read_page_count dev_flash p s div 8)}
    \<and> read_page_count dev_flash p s \<le> read_page_count dev_flash p (s'\<lparr>cells := torn\<rparr>)"
proof -
  let ?k = "pcount p (cells s)"
  have k: "?k < 4096" and op: "op = strike_op p ?k" and b: "base s' = cells s"
    using assms(1-3) by (auto simp: start_increment_dev split: if_splits)
  show ?thesis
    using strike_full_count [OF refl k] strike_torn_count [OF _ refl k, of torn] strike_torn_ge [OF _ refl k, of torn]
      assms(4) op b by simp
qed

theorem nv_strike_safe_witness:
  "read_page_count dev_flash Low \<lparr>cells = dev_full (strike_op Low 0) erased, base = erased, pending = Some (strike_op Low 0)\<rparr> = 1"
proof -
  let ?s = "\<lparr>cells = erased, base = erased, pending = None\<rparr>"
  have "start_increment dev_flash Low (read_page_count dev_flash Low ?s) 0 ?s
      = (Ok (SUCCESS, None), ?s\<lparr>pending := Some (strike_op Low 0)\<rparr>)"
    by (simp add: start_increment_dev)
  from nv_strike_safe [OF this, of "strike_op Low 0" erased] show ?thesis
    by (simp add: dev_partial_refl)
qed

text \<open>The value of the counter is \<open>4097 * \<lceil>high / 2\<rceil>\<close>, plus the low count when the high count is even; it
  never exceeds 8394752, so that no 32-bit operation wraps.\<close>

theorem nv_counter_range:
  "counter_value (read_page_count dev_flash High s) (read_page_count dev_flash Low s)
     = 4097 * ((read_page_count dev_flash High s + 1) div 2)
       + (if even (read_page_count dev_flash High s) then read_page_count dev_flash Low s else 0)
   \<and> counter_value (read_page_count dev_flash High s) (read_page_count dev_flash Low s) \<le> 8394752"
  using nv_value_eq [of "cells s"] nv_value_le [of "cells s"] by (auto simp: nv_value_def)

text \<open>C35. A requested increment completes: with every flash operation successful, at most three completions after the
  call the client is told so and the value has grown by one.\<close>

theorem nv_increment_completes:
  assumes "nv_trace (boot buf m) ls c" and "task c = Some Increment"
  shows "\<exists>n c'. n \<le> 3 \<and> complete_n n c = (Ok (Some (IncrementDone SUCCESS)), c')
    \<and> nv_value (cells (flash c')) = Suc (stored c)"
proof -
  have inv: "nv_inv c" using nv_trace_sound [OF assms(1) boot_inv] by simp
  have one: "\<exists>c'. complete d = (Ok (Some (IncrementDone SUCCESS)), c') \<and> nv_value (cells (flash c')) = Suc (stored d)"
    if d: "nv_inv d" "phase_ok Incr1 d \<or> phase_ok Rollover1 d" for d
  proof -
    have cl: "nv_client d" using d by (simp add: nv_inv_def)
    obtain c' op where c': "complete d = (Ok (Some (IncrementDone SUCCESS)), c')" "pending (flash d) = Some op"
      using complete_incr1 [of d] complete_rollover1 [of d] d cl by auto
    from finish_step [OF d(1) c'(2) dev_partial_full _ , of SUCCESS "Some (IncrementDone SUCCESS)" c'] c'
    have "finish_ok d (dev_full op (base (flash d))) (Some (IncrementDone SUCCESS)) c'" by (simp add: complete_def)
    then show ?thesis using c' by (simp add: finish_ok_def)
  qed
  have more: "\<exists>c'. complete d = (Ok None, c') \<and> nv_inv c' \<and> stored c' = stored d \<and> task c' = Some Increment
      \<and> (phase_ok Rollover2 d \<longrightarrow> phase_ok Rollover3 c') \<and> (phase_ok Rollover3 d \<longrightarrow> phase_ok Incr1 c')"
    if d: "nv_inv d" "phase_ok Rollover2 d \<or> phase_ok Rollover3 d" "task d = Some Increment" for d
  proof -
    have cl: "nv_client d" using d by (simp add: nv_inv_def)
    obtain c' op where c': "complete d = (Ok None, c')" "pending (flash d) = Some op"
        "phase_ok Rollover2 d \<longrightarrow> phase_ok Rollover3 c'" "phase_ok Rollover3 d \<longrightarrow> phase_ok Incr1 c'"
      using complete_rollover2 [of d] complete_rollover3 [of d] d cl by auto
    from quiet_step [OF d(1,3) complete_step [OF c'(1,2)]] nv_step_sound [OF d(1) complete_step [OF c'(1,2)]] c'
    show ?thesis by auto
  qed
  obtain ph where ph: "phase_ok ph c" using inv by (auto simp: nv_inv_def)
  have from3: "\<exists>c'. complete_n 2 d = (Ok (Some (IncrementDone SUCCESS)), c') \<and> nv_value (cells (flash c')) = Suc (stored d)"
    if d: "nv_inv d" "phase_ok Rollover3 d" "task d = Some Increment" for d
  proof -
    obtain d1 where "complete d = (Ok None, d1)" "nv_inv d1" "stored d1 = stored d" "phase_ok Incr1 d1"
      using more [of d] d by blast
    moreover with one [of d1] obtain c' where "complete d1 = (Ok (Some (IncrementDone SUCCESS)), c')"
      "nv_value (cells (flash c')) = Suc (stored d1)" by blast
    ultimately show ?thesis by (simp add: numeral_2_eq_2)
  qed
  show ?thesis
  proof (cases ph)
    case Resting
    then show ?thesis using ph assms(2) by simp
  next
    case Incr1
    then show ?thesis using one [of c] inv ph by (intro exI [of _ 1]) auto
  next
    case Rollover1
    then show ?thesis using one [of c] inv ph by (intro exI [of _ 1]) auto
  next
    case Rollover2
    with more [of c] inv ph assms(2) obtain d where d: "complete c = (Ok None, d)" "nv_inv d" "stored d = stored c"
        "task d = Some Increment" "phase_ok Rollover3 d" by blast
    with from3 [of d] show ?thesis by (intro exI [of _ 3]) (auto simp: numeral_3_eq_3 numeral_2_eq_2)
  next
    case Rollover3
    then show ?thesis using from3 [of c] inv ph assms(2) by (intro exI [of _ 2]) auto
  qed
qed

theorem nv_increment_completes_witness:
  "\<exists>c n c'. nv_step (boot 0 erased) (Call (SuccessWithValue 0)) c \<and> n \<le> 3
    \<and> complete_n n c = (Ok (Some (IncrementDone SUCCESS)), c')"
proof -
  obtain c where s: "nv_step (boot 0 erased) (Call (SuccessWithValue 0)) c"
    using fresh_run by blast
  then have "task c = Some Increment"
    using call_step [OF boot_inv] by (auto elim!: nv_step.cases simp: call_ok_def)
  moreover have "nv_trace (boot 0 erased) [Call (SuccessWithValue 0)] c"
    using nv_trace.snoc [OF nv_trace.nil s] by simp
  ultimately show ?thesis
    using nv_increment_completes [of 0 erased "[Call (SuccessWithValue 0)]" c] s by blast
qed

text \<open>Initialization sets the counter to zero from any contents: the call is accepted, and after at most two
  successful erases the client is told so and the value is 0.\<close>

theorem nv_initialize_zero:
  "\<exists>c1 n c2. FlashCounter_initialize dev_flash (boot buf m) = (Ok SUCCESS, c1) \<and> n \<le> 2
    \<and> complete_n n c1 = (Ok (Some (InitializeDone SUCCESS)), c2) \<and> nv_value (cells (flash c2)) = 0"
proof -
  let ?c1 = "(boot buf m)\<lparr>task := Some Initialize, flash := \<lparr>cells = m, base = m, pending = Some (DErase 255)\<rparr>\<rparr>"
  let ?m1 = "dev_full (DErase (page_number Low)) m" and ?m2 = "dev_full (DErase (page_number High)) (dev_full (DErase (page_number Low)) m)"
  have c1: "FlashCounter_initialize dev_flash (boot buf m) = (Ok SUCCESS, ?c1)"
    by (simp add: FlashCounter_initialize_def boot_def FlashCounter_new_def FlashCounter_set_client_def nv_dev_simps)
  have low1: "pcount Low ?m1 = 0" by (rule erase_full_count)
  have cl: "nv_client (boot buf m)" using boot_resting by blast
  show ?thesis
  proof (cases "pcount High ?m1 = 0")
    case True
    have "complete_n 1 ?c1 = (Ok (Some (InitializeDone SUCCESS)), (settle ?m1 ?c1)\<lparr>task := None\<rparr>)"
      using True cl by (simp add: complete_def erase_done_def notify_def eff_bind_def settle_def)
    moreover have "nv_value ?m1 = 0" using True low1 by (simp add: nv_value_eq)
    ultimately show ?thesis using c1 by (intro exI [of _ ?c1] exI [of _ 1] exI conjI) (assumption | simp)+
  next
    case False
    have high2: "pcount High ?m2 = 0" by (rule erase_full_count)
    have low2: "pcount Low ?m2 = 0"
      using erase_other_page [where p = High and q = Low, OF dev_partial_full] low1 by simp
    let ?c2 = "(settle ?m1 ?c1)\<lparr>flash := \<lparr>cells = ?m1, base = ?m1, pending = Some (DErase 254)\<rparr>\<rparr>"
    have "complete ?c1 = (Ok None, ?c2)"
      using False by (simp add: complete_def erase_done_def eff_bind_def settle_def on_flash_def dev_flash_def
          dev_erase_def FLASH_WORDS_def WORDS_PER_PAGE_def page_empty_dev [unfolded dev_flash_def])
    moreover have "complete ?c2 = (Ok (Some (InitializeDone SUCCESS)), (settle ?m2 ?c2)\<lparr>task := None\<rparr>)"
      using high2 cl by (simp add: complete_def erase_done_def notify_def eff_bind_def settle_def)
    ultimately have "complete_n 2 ?c1 = (Ok (Some (InitializeDone SUCCESS)), (settle ?m2 ?c2)\<lparr>task := None\<rparr>)"
      by (simp add: numeral_2_eq_2)
    moreover have "nv_value ?m2 = 0" using high2 low2 by (simp add: nv_value_eq)
    ultimately show ?thesis using c1 by (intro exI [of _ ?c1] exI [of _ 2] exI conjI) (assumption | simp)+
  qed
qed

text \<open>An initialization requested while the last step of a rollover runs in the background is accepted, but the capsule
  then asks for the erase of page \<open>255 * 512\<close>, which the flash refuses: the client is told that the initialization failed and the
  counter keeps its value.\<close>

theorem nv_initialize_during_rollover3:
  assumes "nv_trace (boot buf m) ls c" and "phase_ok Rollover3 c" and "task c = None"
  shows "\<exists>c1 c2. FlashCounter_initialize dev_flash c = (Ok SUCCESS, c1)
    \<and> complete c1 = (Ok (Some (InitializeDone EINVAL)), c2) \<and> nv_value (cells (flash c2)) = stored c"
proof -
  let ?k = "pcount High (base (flash c))" and ?m = "dev_full (strike_op High (pcount High (base (flash c)))) (base (flash c))"
  let ?c1 = "c\<lparr>task := Some Initialize\<rparr>"
  have inv: "nv_inv c" using nv_trace_sound [OF assms(1) boot_inv] by simp
  then have cl: "nv_client c" by (simp add: nv_inv_def)
  have "?k \<noteq> 4096" using assms(2) by auto
  then have k: "?k < 4096" using pcount_le [of High "base (flash c)"] by simp
  have "pcount High ?m = Suc ?k" using strike_full_count [OF refl k] .
  moreover have "pcount Low ?m = 0"
    using strike_other_page [where p = High and k = ?k and q = Low, OF dev_partial_full k] assms by simp
  ultimately have v: "nv_value ?m = stored c" using assms(2) by (auto simp: nv_value_eq elim!: oddE)
  have "FlashCounter_initialize dev_flash c = (Ok SUCCESS, ?c1)"
    using assms by (simp add: FlashCounter_initialize_def nv_dev_simps)
  moreover have "complete ?c1 = (Ok (Some (InitializeDone EINVAL)), (settle ?m c)\<lparr>write_buffer := Some (struck (Suc (?k mod 8))), task := None\<rparr>)"
    using assms cl by (simp add: complete_def strike_op_def [of High ?k] write_done_def Let_def eff_bind_def on_flash_def
        dev_flash_def dev_erase_def FLASH_WORDS_def WORDS_PER_PAGE_def set_task_def notify_def settle_def)
  ultimately show ?thesis using v by (intro exI conjI) (assumption | simp)+
qed

theorem nv_initialize_during_rollover3_witness:
  "\<exists>c c1 c2. FlashCounter_initialize dev_flash c = (Ok SUCCESS, c1) \<and> complete c1 = (Ok (Some (InitializeDone EINVAL)), c2)"
  using rollover3_reachable nv_initialize_during_rollover3 by blast

text \<open>The capsule can panic: between the moment the flash has finished the last strike of a background rollover and its
  completion callback, the high count reads even and the buffer is still with the flash, and a call of
  \<^verbatim>\<open>read_and_increment\<close> unwraps a missing buffer.\<close>

theorem nv_read_can_panic:
  "\<exists>ls c. nv_trace (boot 0 low_full) ls c \<and> fst (read_and_increment dev_flash c) = Panic"
proof -
  obtain ls c where c: "nv_trace (boot 0 low_full) ls c" "phase_ok Rollover3 c" "task c = None"
    using rollover3_reachable by blast
  let ?k = "pcount High (base (flash c))" and ?m = "dev_full (strike_op High (pcount High (base (flash c)))) (base (flash c))"
  let ?c = "c\<lparr>flash := (flash c)\<lparr>cells := ?m\<rparr>\<rparr>"
  have "?k \<noteq> 4096" using c(2) by auto
  then have k: "?k < 4096" using pcount_le [of High "base (flash c)"] by simp
  have "pcount High ?m = Suc ?k" using strike_full_count [OF refl k] .
  then have "fst (read_and_increment dev_flash ?c) = Panic"
    using c by (simp add: read_and_increment_def nv_dev_simps Let_def)
  moreover have "nv_step c Internal ?c"
    using c(2) by (intro nv_step.progress [where op = "strike_op High ?k"] dev_partial_full) simp
  then have "nv_trace (boot 0 low_full) (ls @ [Internal]) ?c" by (rule nv_trace.snoc [OF c(1)])
  ultimately show ?thesis by blast
qed

end
