(* ===== verification/User_Devices.thy ===== *)
theory User_Devices
  imports Firmware_Protocol Flash_Protocol Driver_Config
begin

text \<open>
  The device modules of the user-space application \<^verbatim>\<open>userspace/otpilot\<close>: flash, SPI device,
  SPI host with its H1 extensions, reset, global security and fuses. Each is a static object behind a trait; the traits are
  records of operations on one state, as the code reaches them through \<^verbatim>\<open>dyn\<close> references. The system calls of
  \<^verbatim>\<open>libtock\<close> are a parameter. The operations are those of initialised objects: the program initialises every
  object on its first use, before its event loop starts.
\<close>

section \<open>System calls\<close>

text \<open>
  A command gives a value or an error. \<open>sys_allow\<close> shares a buffer, \<open>sys_shared\<close> is its present
  content and \<open>sys_unallow\<close> takes it back when the share goes out of scope. \<open>sys_yield\<close> waits for the next
  callback, for ever when there is none.
\<close>

record upcall =
  up_driver :: nat
  up_nr :: nat
  up_arg1 :: u32
  up_arg2 :: u32
  up_arg3 :: u32

record 'k Syscalls =
  sys_command :: "nat \<Rightarrow> nat \<Rightarrow> nat \<Rightarrow> nat \<Rightarrow> 'k \<Rightarrow> nat option \<times> 'k"
  sys_subscribe :: "nat \<Rightarrow> nat \<Rightarrow> 'k \<Rightarrow> bool \<times> 'k"
  sys_allow :: "nat \<Rightarrow> nat \<Rightarrow> byte list \<Rightarrow> 'k \<Rightarrow> bool \<times> 'k"
  sys_shared :: "nat \<Rightarrow> nat \<Rightarrow> 'k \<Rightarrow> byte list"
  sys_unallow :: "nat \<Rightarrow> nat \<Rightarrow> 'k \<Rightarrow> byte list \<times> 'k"
  sys_yield :: "'k \<Rightarrow> (upcall \<times> 'k) option"

datatype TockError = SyscallError | FormatError

section \<open>The static objects\<close>

record UserFlashImpl =
  operation_result :: int
  operation_done :: bool

text \<open>The receive buffers are shared with the kernel for the whole run: their contents belong to the kernel's state.\<close>

record SpiDeviceImpl =
  received_len :: nat
  is_busy :: bool
  is_write_enable :: bool
  address_mode :: AddressMode

record SpiHostImpl =
  read_write_length :: nat
  read_write_done :: bool

record 'k Userland =
  ul_flash :: UserFlashImpl
  ul_device :: SpiDeviceImpl
  ul_host :: SpiHostImpl
  ul_segments :: RuntimeSegmentInfo
  kern :: 'k

definition Userland_new :: "'k \<Rightarrow> 'k Userland" where
  "Userland_new k = \<lparr>ul_flash = \<lparr>operation_result = - 1, operation_done = False\<rparr>,
     ul_device = \<lparr>received_len = 0, is_busy = False, is_write_enable = False, address_mode = ThreeByte\<rparr>,
     ul_host = \<lparr>read_write_length = 0, read_write_done = False\<rparr>,
     ul_segments = UNKNOWN_RUNTIME_SEGMENT_INFO, kern = k\<rparr>"

definition command :: "'k Syscalls \<Rightarrow> nat \<Rightarrow> nat \<Rightarrow> nat \<Rightarrow> nat \<Rightarrow> ('k Userland, TockError, nat) eff" where
  "command S driver nr a b u = (case sys_command S driver nr a b (kern u) of
     (None, k) \<Rightarrow> (Err SyscallError, u\<lparr>kern := k\<rparr>) | (Some v, k) \<Rightarrow> (Ok v, u\<lparr>kern := k\<rparr>))"

definition subscribe :: "'k Syscalls \<Rightarrow> nat \<Rightarrow> nat \<Rightarrow> ('k Userland, TockError, unit) eff" where
  "subscribe S driver nr u = (case sys_subscribe S driver nr (kern u) of
     (ok, k) \<Rightarrow> (if ok then Ok () else Err SyscallError, u\<lparr>kern := k\<rparr>))"

definition allow :: "'k Syscalls \<Rightarrow> nat \<Rightarrow> nat \<Rightarrow> byte list \<Rightarrow> ('k Userland, TockError, unit) eff" where
  "allow S driver nr buf u = (case sys_allow S driver nr buf (kern u) of
     (ok, k) \<Rightarrow> (if ok then Ok () else Err SyscallError, u\<lparr>kern := k\<rparr>))"

text \<open>A share that ends with its scope, however the scope is left: the result and what the buffer then holds.\<close>

definition with_share :: "'k Syscalls \<Rightarrow> nat \<Rightarrow> nat \<Rightarrow> byte list \<Rightarrow> ('k Userland, TockError, 'a) eff
    \<Rightarrow> 'k Userland \<Rightarrow> ((TockError, 'a) outcome \<times> byte list) \<times> 'k Userland" where
  "with_share S driver nr buf body u =
     (case allow S driver nr buf u of
        (Ok _, u) \<Rightarrow> (case body u of (r, u) \<Rightarrow>
           case sys_unallow S driver nr (kern u) of (buf, k) \<Rightarrow> ((r, buf), u\<lparr>kern := k\<rparr>))
      | (Err e, u) \<Rightarrow> ((Err e, buf), u)
      | (Panic, u) \<Rightarrow> ((Panic, buf), u))"

section \<open>Callbacks\<close>

definition FLASH_DRIVER_NUMBER :: nat where "FLASH_DRIVER_NUMBER = 0x40040"
definition DEVICE_DRIVER_NUMBER :: nat where "DEVICE_DRIVER_NUMBER = 0x40030"
definition HOST_DRIVER_NUMBER :: nat where "HOST_DRIVER_NUMBER = 0x20001"
definition HOST_H1_DRIVER_NUMBER :: nat where "HOST_H1_DRIVER_NUMBER = 0x40020"
definition RESET_DRIVER_NUMBER :: nat where "RESET_DRIVER_NUMBER = 0x40070"
definition GLOBALSEC_DRIVER_NUMBER :: nat where "GLOBALSEC_DRIVER_NUMBER = 0x40060"
definition FUSE_DRIVER_NUMBER :: nat where "FUSE_DRIVER_NUMBER = 0x40050"

lemmas driver_numbers = FLASH_DRIVER_NUMBER_def DEVICE_DRIVER_NUMBER_def HOST_DRIVER_NUMBER_def HOST_H1_DRIVER_NUMBER_def
  RESET_DRIVER_NUMBER_def GLOBALSEC_DRIVER_NUMBER_def FUSE_DRIVER_NUMBER_def

definition UserFlash_operation_done :: "u32 \<Rightarrow> UserFlashImpl \<Rightarrow> UserFlashImpl" where
  "UserFlash_operation_done result f = f\<lparr>operation_result := sint result, operation_done := True\<rparr>"

definition data_received :: "u32 \<Rightarrow> u32 \<Rightarrow> u32 \<Rightarrow> SpiDeviceImpl \<Rightarrow> SpiDeviceImpl" where
  "data_received arg1 arg2 arg3 d = d\<lparr>received_len := unat arg1, is_busy := arg2 \<noteq> 0, is_write_enable := arg3 \<noteq> 0\<rparr>"

definition address_mode_changed :: "u32 \<Rightarrow> SpiDeviceImpl \<Rightarrow> SpiDeviceImpl" where
  "address_mode_changed arg1 d = (case AddressMode_try_from (unat arg1) of Some m \<Rightarrow> d\<lparr>address_mode := m\<rparr> | None \<Rightarrow> d)"

definition SpiHost_read_write_done :: "SpiHostImpl \<Rightarrow> SpiHostImpl" where
  "SpiHost_read_write_done h = h\<lparr>read_write_done := True\<rparr>"

text \<open>The kernel runs the function subscribed under the number of the callback.\<close>

definition dispatch :: "upcall \<Rightarrow> 'k Userland \<Rightarrow> 'k Userland" where
  "dispatch c u =
     (if up_driver c = FLASH_DRIVER_NUMBER \<and> up_nr c = 0
        then u\<lparr>ul_flash := UserFlash_operation_done (up_arg1 c) (ul_flash u)\<rparr>
      else if up_driver c = DEVICE_DRIVER_NUMBER \<and> up_nr c = 0
        then u\<lparr>ul_device := data_received (up_arg1 c) (up_arg2 c) (up_arg3 c) (ul_device u)\<rparr>
      else if up_driver c = DEVICE_DRIVER_NUMBER \<and> up_nr c = 1
        then u\<lparr>ul_device := address_mode_changed (up_arg1 c) (ul_device u)\<rparr>
      else if up_driver c = HOST_DRIVER_NUMBER \<and> up_nr c = 0
        then u\<lparr>ul_host := SpiHost_read_write_done (ul_host u)\<rparr>
      else u)"

definition yieldk :: "'k Syscalls \<Rightarrow> 'k Userland \<Rightarrow> 'k Userland option" where
  "yieldk S u = map_option (\<lambda>(c, k). dispatch c (u\<lparr>kern := k\<rparr>)) (sys_yield S (kern u))"

text \<open>The waiting loops: yield until a flag is set.\<close>

partial_function (option) yield_until :: "'k Syscalls \<Rightarrow> ('k Userland \<Rightarrow> bool) \<Rightarrow> 'k Userland \<Rightarrow> 'k Userland option" where
  "yield_until S p u = (if p u then Some u else Option.bind (yieldk S u) (yield_until S p))"

section \<open>Flash\<close>

text \<open>
  The trait \<^verbatim>\<open>Flash\<close>: an error of a system call is \<open>False\<close> or
  \<open>None\<close>; a read gives the buffer back; \<open>u_wait\<close> may not return.
\<close>

definition MAX_BUFFER_LENGTH :: nat where
  "MAX_BUFFER_LENGTH = 128"

record 's UFlash =
  u_read :: "nat \<Rightarrow> byte list \<Rightarrow> nat \<Rightarrow> 's \<Rightarrow> byte list option \<times> 's"
  u_write :: "nat \<Rightarrow> byte list \<Rightarrow> nat \<Rightarrow> 's \<Rightarrow> bool \<times> 's"
  u_erase :: "nat \<Rightarrow> 's \<Rightarrow> bool \<times> 's"
  u_wait :: "'s \<Rightarrow> 's option"
  u_result :: "'s \<Rightarrow> int"
  u_clear :: "'s \<Rightarrow> 's"

definition UserFlash_initialize :: "'k Syscalls \<Rightarrow> ('k Userland, TockError, unit) eff" where
  "UserFlash_initialize S = eff_bind (command S FLASH_DRIVER_NUMBER 0 0 0) (\<lambda>_. subscribe S FLASH_DRIVER_NUMBER 0)"

definition UserFlash_read :: "'k Syscalls \<Rightarrow> nat \<Rightarrow> byte list \<Rightarrow> nat \<Rightarrow> 'k Userland \<Rightarrow> byte list option \<times> 'k Userland" where
  "UserFlash_read S offset buf len u =
     (case with_share S FLASH_DRIVER_NUMBER 1 buf (command S FLASH_DRIVER_NUMBER 3 offset len) u of
        ((r, buf), u) \<Rightarrow> (if is_ok r then Some buf else None, u))"

definition start_operation :: "'k Userland \<Rightarrow> 'k Userland" where
  "start_operation u = u\<lparr>ul_flash := \<lparr>operation_result = - 1, operation_done = False\<rparr>\<rparr>"

definition UserFlash_write :: "'k Syscalls \<Rightarrow> nat \<Rightarrow> byte list \<Rightarrow> nat \<Rightarrow> 'k Userland \<Rightarrow> bool \<times> 'k Userland" where
  "UserFlash_write S offset buf len u =
     (case with_share S FLASH_DRIVER_NUMBER 0 buf (\<lambda>u. command S FLASH_DRIVER_NUMBER 2 offset len (start_operation u)) u of
        ((r, _), u) \<Rightarrow> (is_ok r, u))"

definition UserFlash_erase :: "'k Syscalls \<Rightarrow> nat \<Rightarrow> 'k Userland \<Rightarrow> bool \<times> 'k Userland" where
  "UserFlash_erase S page u =
     (case command S FLASH_DRIVER_NUMBER 1 page 0 (start_operation u) of (r, u) \<Rightarrow> (is_ok r, u))"

definition UserFlash_wait :: "'k Syscalls \<Rightarrow> 'k Userland \<Rightarrow> 'k Userland option" where
  "UserFlash_wait S = yield_until S (\<lambda>u. operation_done (ul_flash u))"

definition UserFlash_clear :: "'k Userland \<Rightarrow> 'k Userland" where
  "UserFlash_clear u = u\<lparr>ul_flash := (ul_flash u)\<lparr>operation_done := False\<rparr>\<rparr>"

definition user_flash :: "'k Syscalls \<Rightarrow> 'k Userland UFlash" where
  "user_flash S = \<lparr>u_read = UserFlash_read S, u_write = UserFlash_write S, u_erase = UserFlash_erase S,
     u_wait = UserFlash_wait S, u_result = (\<lambda>u. operation_result (ul_flash u)), u_clear = UserFlash_clear\<rparr>"

section \<open>SPI device\<close>

definition MAX_READ_BUFFER_SIZE :: nat where
  "MAX_READ_BUFFER_SIZE = 512"

text \<open>The trait \<^verbatim>\<open>SpiDevice\<close>, as far as it is used while the program runs.\<close>

record 's SpiDevice =
  have_transaction :: "'s \<Rightarrow> bool"
  device_read_buffer :: "('s, TockError, byte list) eff"
  is_busy_set :: "'s \<Rightarrow> bool"
  is_write_enable_set :: "'s \<Rightarrow> bool"
  end_transaction :: "'s \<Rightarrow> 's"
  end_transaction_with_status :: "bool \<Rightarrow> bool \<Rightarrow> ('s, TockError, unit) eff"
  end_transaction_with_data :: "byte list \<Rightarrow> bool \<Rightarrow> bool \<Rightarrow> ('s, TockError, unit) eff"
  get_address_mode :: "'s \<Rightarrow> AddressMode"

definition bool_arg :: "bool \<Rightarrow> nat" where
  "bool_arg b = (if b then 1 else 0)"

definition ignore_result :: "('s, 'e, 'a) eff \<Rightarrow> ('s, 'e, unit) eff" where
  "ignore_result m = eff_bind m (\<lambda>_. ret ())"

definition with_write_share :: "'k Syscalls \<Rightarrow> nat \<Rightarrow> nat \<Rightarrow> byte list \<Rightarrow> ('k Userland, TockError, 'a) eff \<Rightarrow> ('k Userland, TockError, 'a) eff" where
  "with_write_share S driver nr buf body u = (case with_share S driver nr buf body u of ((r, _), u) \<Rightarrow> (r, u))"

definition SpiDevice_initialize :: "'k Syscalls \<Rightarrow> ('k Userland, TockError, unit) eff" where
  "SpiDevice_initialize S =
     eff_bind (command S DEVICE_DRIVER_NUMBER 0 0 0) (\<lambda>_.
     eff_bind (subscribe S DEVICE_DRIVER_NUMBER 1) (\<lambda>_.
     eff_bind (command S DEVICE_DRIVER_NUMBER 4 0 0) (\<lambda>address_mode_val.
     eff_bind (ok_or (AddressMode_try_from address_mode_val) FormatError) (\<lambda>m.
     eff_bind (\<lambda>u. (Ok (), u\<lparr>ul_device := (ul_device u)\<lparr>address_mode := m\<rparr>\<rparr>)) (\<lambda>_.
     eff_bind (allow S DEVICE_DRIVER_NUMBER 1 (replicate MAX_READ_BUFFER_SIZE 0)) (\<lambda>_.
     subscribe S DEVICE_DRIVER_NUMBER 0))))))"

definition SpiDevice_end_transaction :: "'k Userland \<Rightarrow> 'k Userland" where
  "SpiDevice_end_transaction u = u\<lparr>ul_device := (ul_device u)\<lparr>received_len := 0\<rparr>\<rparr>"

text \<open>Slicing the buffer beyond its length panics.\<close>

definition SpiDevice_get_read_buffer :: "'k Syscalls \<Rightarrow> ('k Userland, TockError, byte list) eff" where
  "SpiDevice_get_read_buffer S u =
     (let buf = sys_shared S DEVICE_DRIVER_NUMBER 1 (kern u); n = received_len (ul_device u) in
      if n \<le> length buf then (Ok (take n buf), u) else (Panic, u))"

definition SpiDevice_end_transaction_with_status :: "'k Syscalls \<Rightarrow> bool \<Rightarrow> bool \<Rightarrow> ('k Userland, TockError, unit) eff" where
  "SpiDevice_end_transaction_with_status S clear_busy clear_write_enable u =
     ignore_result (command S DEVICE_DRIVER_NUMBER 2 (bool_arg clear_busy) (bool_arg clear_write_enable)) (SpiDevice_end_transaction u)"

definition SpiDevice_end_transaction_with_data :: "'k Syscalls \<Rightarrow> byte list \<Rightarrow> bool \<Rightarrow> bool \<Rightarrow> ('k Userland, TockError, unit) eff" where
  "SpiDevice_end_transaction_with_data S write_buffer clear_busy clear_write_enable u =
     with_write_share S DEVICE_DRIVER_NUMBER 0 write_buffer
       (ignore_result (command S DEVICE_DRIVER_NUMBER 1 (bool_arg clear_busy) (bool_arg clear_write_enable))) (SpiDevice_end_transaction u)"

definition SpiDevice_set_address_mode :: "'k Syscalls \<Rightarrow> AddressMode \<Rightarrow> ('k Userland, TockError, unit) eff" where
  "SpiDevice_set_address_mode S m =
     eff_bind (command S DEVICE_DRIVER_NUMBER 3 (usize_from_AddressMode m) 0) (\<lambda>_.
     (\<lambda>u. (Ok (), u\<lparr>ul_device := (ul_device u)\<lparr>address_mode := m\<rparr>\<rparr>)))"

fun usize_from_HandlerMode :: "HandlerMode \<Rightarrow> nat" where
  "usize_from_HandlerMode Disabled = 0"
| "usize_from_HandlerMode UserSpace = 1"
| "usize_from_HandlerMode KernelSpace = 2"

definition SpiDevice_set_address_mode_handling :: "'k Syscalls \<Rightarrow> HandlerMode \<Rightarrow> ('k Userland, TockError, unit) eff" where
  "SpiDevice_set_address_mode_handling S m = ignore_result (command S DEVICE_DRIVER_NUMBER 5 (usize_from_HandlerMode m) 0)"

definition SpiDevice_set_jedec_id :: "'k Syscalls \<Rightarrow> byte list \<Rightarrow> ('k Userland, TockError, unit) eff" where
  "SpiDevice_set_jedec_id S data = with_write_share S DEVICE_DRIVER_NUMBER 0 data (ignore_result (command S DEVICE_DRIVER_NUMBER 6 0 0))"

definition SpiDevice_set_sfdp :: "'k Syscalls \<Rightarrow> byte list \<Rightarrow> ('k Userland, TockError, unit) eff" where
  "SpiDevice_set_sfdp S data = with_write_share S DEVICE_DRIVER_NUMBER 0 data (ignore_result (command S DEVICE_DRIVER_NUMBER 7 0 0))"

definition SpiDevice_configure_addresses :: "'k Syscalls \<Rightarrow> AddressConfig \<Rightarrow> ('k Userland, TockError, unit) eff" where
  "SpiDevice_configure_addresses S address_config =
     (case AddressConfig_to_wire Cursor_write_bytes address_config (Cursor_new (replicate ADDRESS_CONFIG_LEN 0)) of
        (Ok _, c) \<Rightarrow> with_write_share S DEVICE_DRIVER_NUMBER 0 (cur_buf c) (ignore_result (command S DEVICE_DRIVER_NUMBER 8 0 0))
      | (Err _, _) \<Rightarrow> throw FormatError
      | (Panic, _) \<Rightarrow> panic)"

definition user_device :: "'k Syscalls \<Rightarrow> 'k Userland SpiDevice" where
  "user_device S = \<lparr>have_transaction = (\<lambda>u. received_len (ul_device u) \<noteq> 0), device_read_buffer = SpiDevice_get_read_buffer S,
     is_busy_set = (\<lambda>u. is_busy (ul_device u)), is_write_enable_set = (\<lambda>u. is_write_enable (ul_device u)),
     end_transaction = SpiDevice_end_transaction, end_transaction_with_status = SpiDevice_end_transaction_with_status S,
     end_transaction_with_data = SpiDevice_end_transaction_with_data S, get_address_mode = (\<lambda>u. address_mode (ul_device u))\<rparr>"

section \<open>SPI host\<close>

definition MAX_READ_BUFFER_LENGTH :: nat where
  "MAX_READ_BUFFER_LENGTH = 128"

text \<open>The traits \<^verbatim>\<open>SpiHost\<close> and \<^verbatim>\<open>SpiHostH1\<close>.\<close>

record 's SpiHost =
  read_write_bytes :: "byte list \<Rightarrow> nat \<Rightarrow> ('s, TockError, unit) eff"
  wait_read_write_done :: "'s \<Rightarrow> 's option"
  host_read_buffer :: "('s, TockError, byte list) eff"

record 's SpiHostH1 =
  set_passthrough :: "bool \<Rightarrow> ('s, TockError, unit) eff"
  set_wait_busy_clear_in_transactions :: "bool \<Rightarrow> ('s, TockError, unit) eff"

definition SpiHost_initialize :: "'k Syscalls \<Rightarrow> ('k Userland, TockError, unit) eff" where
  "SpiHost_initialize S = eff_bind (command S HOST_DRIVER_NUMBER 0 0 0) (\<lambda>_.
     allow S HOST_DRIVER_NUMBER 0 (replicate MAX_READ_BUFFER_LENGTH 0))"

definition SpiHost_read_write_bytes :: "'k Syscalls \<Rightarrow> byte list \<Rightarrow> nat \<Rightarrow> ('k Userland, TockError, unit) eff" where
  "SpiHost_read_write_bytes S write_buffer len =
     with_write_share S HOST_DRIVER_NUMBER 1 write_buffer
       (eff_bind (\<lambda>u. (Ok (), u\<lparr>ul_host := \<lparr>read_write_length = len, read_write_done = False\<rparr>\<rparr>)) (\<lambda>_.
        eff_bind (subscribe S HOST_DRIVER_NUMBER 0) (\<lambda>_.
        ignore_result (\<lambda>u. command S HOST_DRIVER_NUMBER 2 (read_write_length (ul_host u)) 0 u))))"

definition SpiHost_wait_read_write_done :: "'k Syscalls \<Rightarrow> 'k Userland \<Rightarrow> 'k Userland option" where
  "SpiHost_wait_read_write_done S = yield_until S (\<lambda>u. read_write_done (ul_host u))"

definition SpiHost_get_read_buffer :: "'k Syscalls \<Rightarrow> ('k Userland, TockError, byte list) eff" where
  "SpiHost_get_read_buffer S u =
     (let buf = sys_shared S HOST_DRIVER_NUMBER 0 (kern u); n = read_write_length (ul_host u) in
      if n \<le> length buf then (Ok (take n buf), u) else (Panic, u))"

definition user_host :: "'k Syscalls \<Rightarrow> 'k Userland SpiHost" where
  "user_host S = \<lparr>read_write_bytes = SpiHost_read_write_bytes S, wait_read_write_done = SpiHost_wait_read_write_done S,
     host_read_buffer = SpiHost_get_read_buffer S\<rparr>"

definition SpiHostH1_set_passthrough :: "'k Syscalls \<Rightarrow> bool \<Rightarrow> ('k Userland, TockError, unit) eff" where
  "SpiHostH1_set_passthrough S enabled = ignore_result (command S HOST_H1_DRIVER_NUMBER 1 (bool_arg enabled) 0)"

definition SpiHostH1_set_wait_busy_clear_in_transactions :: "'k Syscalls \<Rightarrow> bool \<Rightarrow> ('k Userland, TockError, unit) eff" where
  "SpiHostH1_set_wait_busy_clear_in_transactions S enabled = ignore_result (command S HOST_H1_DRIVER_NUMBER 2 (bool_arg enabled) 0)"

definition user_host_h1 :: "'k Syscalls \<Rightarrow> 'k Userland SpiHostH1" where
  "user_host_h1 S = \<lparr>set_passthrough = SpiHostH1_set_passthrough S,
     set_wait_busy_clear_in_transactions = SpiHostH1_set_wait_busy_clear_in_transactions S\<rparr>"

section \<open>Reset, global security and fuses\<close>

text \<open>The trait \<^verbatim>\<open>Reset\<close>. A reset command that returns is a panic.\<close>

record 's Reset =
  reset_chip :: "('s, TockError, unit) eff"
  get_reset_source :: "('s, TockError, ResetSource) eff"

definition Reset_reset :: "'k Syscalls \<Rightarrow> ('k Userland, TockError, unit) eff" where
  "Reset_reset S = eff_bind (command S RESET_DRIVER_NUMBER 1 0 0) (\<lambda>_. panic)"

text \<open>Read a message the kernel leaves in a shared buffer.\<close>

definition read_shared :: "'k Syscalls \<Rightarrow> nat \<Rightarrow> nat \<Rightarrow> nat \<Rightarrow> nat \<Rightarrow> ('k Userland, TockError, byte list) eff" where
  "read_shared S driver nr cmd len u =
     (case with_share S driver nr (replicate len 0) (command S driver cmd 0 0) u of
        ((Ok _, buffer), u) \<Rightarrow> (Ok buffer, u) | ((Err e, _), u) \<Rightarrow> (Err e, u) | ((Panic, _), u) \<Rightarrow> (Panic, u))"

definition or_format :: "(reader, 'e, 'a) eff \<Rightarrow> byte list \<Rightarrow> ('s, TockError, 'a) eff" where
  "or_format from_wire buffer = (case fst (from_wire buffer) of Ok x \<Rightarrow> ret x | Err _ \<Rightarrow> throw FormatError | Panic \<Rightarrow> panic)"

definition Reset_get_reset_source :: "'k Syscalls \<Rightarrow> ('k Userland, TockError, ResetSource) eff" where
  "Reset_get_reset_source S = eff_bind (read_shared S RESET_DRIVER_NUMBER 0 2 RESET_SOURCE_LEN) (or_format ResetSource_from_wire)"

definition user_reset :: "'k Syscalls \<Rightarrow> 'k Userland Reset" where
  "user_reset S = \<lparr>reset_chip = Reset_reset S, get_reset_source = Reset_get_reset_source S\<rparr>"

definition get_runtime_segment_info :: "'k Syscalls \<Rightarrow> ('k Userland, TockError, RuntimeSegmentInfo) eff" where
  "get_runtime_segment_info S = eff_bind (read_shared S GLOBALSEC_DRIVER_NUMBER 0 1 RUNTIME_SEGMENT_INFO_LEN) (or_format RuntimeSegmentInfo_from_wire)"

definition GlobalSec_initialize :: "'k Syscalls \<Rightarrow> ('k Userland, TockError, unit) eff" where
  "GlobalSec_initialize S =
     eff_bind (command S GLOBALSEC_DRIVER_NUMBER 0 0 0) (\<lambda>_.
     eff_bind (get_runtime_segment_info S) (\<lambda>info u. (Ok (), u\<lparr>ul_segments := info\<rparr>)))"

text \<open>The trait \<^verbatim>\<open>GlobalSec\<close>: the object does not change once it is initialised.\<close>

definition get_active_ro :: "'k Userland \<Rightarrow> SegmentInfo" where "get_active_ro u = active_ro (ul_segments u)"
definition get_active_rw :: "'k Userland \<Rightarrow> SegmentInfo" where "get_active_rw u = active_rw (ul_segments u)"
definition get_inactive_ro :: "'k Userland \<Rightarrow> SegmentInfo" where "get_inactive_ro u = inactive_ro (ul_segments u)"
definition get_inactive_rw :: "'k Userland \<Rightarrow> SegmentInfo" where "get_inactive_rw u = inactive_rw (ul_segments u)"

definition get_dev_id :: "'k Syscalls \<Rightarrow> ('k Userland, TockError, u64) eff" where
  "get_dev_id S = eff_bind (read_shared S FUSE_DRIVER_NUMBER 0 1 8) (\<lambda>dev_id_buffer. BE_read 8 dev_id_buffer)"

end
