(* ===== verification/Firmware_Controller.thy ===== *)
theory Firmware_Controller
  imports User_Devices
begin

text \<open>
  Firmware updates in user space: the controller of \<^verbatim>\<open>userspace/otpilot/src/firmware_controller.rs\<close>, on top of
  the flash trait of \<^verbatim>\<open>flash.rs\<close>. Waiting for a flash operation may never end.
\<close>

section \<open>The firmware controller\<close>

datatype FirmwareControllerError = FcTock | FlashReadError | FlashWriteError | FlashOperationFailed

text \<open>\<open>write_buf\<close> is the static buffer \<^verbatim>\<open>WRITE_BUF\<close>.\<close>

record 's FirmwareController =
  fc_erase_segment :: SegmentInfo
  fc_erase_page :: nat
  fc_write_segment :: SegmentInfo
  fc_write_offset :: nat
  fc_write_length :: nat
  write_buf :: "byte list"
  fc_flash :: 's

definition FirmwareController_new :: "'s \<Rightarrow> 's FirmwareController" where
  "FirmwareController_new s = \<lparr>fc_erase_segment = UNKNOWN_SEGMENT, fc_erase_page = 0, fc_write_segment = UNKNOWN_SEGMENT,
     fc_write_offset = 0, fc_write_length = 0, write_buf = replicate MAX_BUFFER_LENGTH 0, fc_flash = s\<rparr>"

definition on_fc_flash :: "('s \<Rightarrow> 'a \<times> 's) \<Rightarrow> ('s FirmwareController, 'e, 'a) eff" where
  "on_fc_flash f c = (case f (fc_flash c) of (r, s) \<Rightarrow> (Ok r, c\<lparr>fc_flash := s\<rparr>))"

definition check_operation_result :: "'s UFlash \<Rightarrow> ('s FirmwareController, FirmwareControllerError, unit) eff" where
  "check_operation_result U c =
     (let flash_op_result = u_result U (fc_flash c);
          c = c\<lparr>fc_flash := u_clear U (fc_flash c)\<rparr> in
      if flash_op_result < 0 then (Err FlashOperationFailed, c) else (Ok (), c))"

definition wait_operation_done :: "'s UFlash \<Rightarrow> ('s FirmwareController, 'e, unit) peff" where
  "wait_operation_done U c = map_option (\<lambda>s. (Ok (), c\<lparr>fc_flash := s\<rparr>)) (u_wait U (fc_flash c))"

definition erase_segment_start :: "'s UFlash \<Rightarrow> SegmentInfo \<Rightarrow> ('s FirmwareController, FirmwareControllerError, unit) eff" where
  "erase_segment_start U segment c =
     (let c = c\<lparr>fc_erase_segment := segment, fc_erase_page := unat (seg_start_page segment)\<rparr> in
      eff_bind (on_fc_flash (u_erase U (fc_erase_page c))) (\<lambda>ok. if ok then ret () else throw FcTock) c)"

text \<open>The last page is computed in 32 bits.\<close>

definition erase_segment_continue :: "'s UFlash \<Rightarrow> ('s FirmwareController, FirmwareControllerError, bool) eff" where
  "erase_segment_continue U c =
     (if unat (seg_start_page (fc_erase_segment c) + seg_page_count (fc_erase_segment c) - 1) \<le> fc_erase_page c
      then (Ok False, c)
      else
        let c = c\<lparr>fc_erase_page := fc_erase_page c + 1\<rparr> in
        eff_bind (on_fc_flash (u_erase U (fc_erase_page c))) (\<lambda>ok. if ok then ret True else throw FcTock) c)"

definition get_write_flash_offset :: "'s FirmwareController \<Rightarrow> nat" where
  "get_write_flash_offset c = (unat (seg_address (fc_write_segment c)) + fc_write_offset c) mod 2 ^ 32"

text \<open>Copying past the end of the static buffer panics.\<close>

definition write_segment_chunk :: "'s UFlash \<Rightarrow> SegmentInfo \<Rightarrow> nat \<Rightarrow> byte list \<Rightarrow> ('s FirmwareController, FirmwareControllerError, unit) eff" where
  "write_segment_chunk U segment offset data c =
     (let c = c\<lparr>fc_write_segment := segment, fc_write_offset := offset, fc_write_length := length data\<rparr> in
      if length (write_buf c) < length data then (Panic, c\<lparr>write_buf := take (length (write_buf c)) data\<rparr>)
      else
        let c = c\<lparr>write_buf := data @ drop (length data) (write_buf c)\<rparr> in
        eff_bind (on_fc_flash (u_write U (get_write_flash_offset c) (write_buf c) (fc_write_length c)))
          (\<lambda>ok. if ok then ret () else throw FlashWriteError) c)"

fun compare_bytes :: "nat \<Rightarrow> byte list \<Rightarrow> byte list \<Rightarrow> bool option" where
  "compare_bytes 0 rs ws = Some True"
| "compare_bytes (Suc n) (r # rs) (w # ws) = (if r \<noteq> w then Some False else compare_bytes n rs ws)"
| "compare_bytes (Suc n) _ _ = None"

definition verify_segment_chunk :: "'s UFlash \<Rightarrow> ('s FirmwareController, FirmwareControllerError, bool) eff" where
  "verify_segment_chunk U c =
     eff_bind (on_fc_flash (u_read U (get_write_flash_offset c) (replicate MAX_BUFFER_LENGTH 0) (fc_write_length c)))
       (\<lambda>r. case r of None \<Rightarrow> throw FlashReadError
          | Some read_buf \<Rightarrow> (case compare_bytes (fc_write_length c) read_buf (write_buf c) of
              None \<Rightarrow> panic | Some b \<Rightarrow> ret b)) c"

text \<open>One round of the loop of \<open>erase_segment\<close>: whether there was another page.\<close>

definition erase_round :: "'s UFlash \<Rightarrow> ('s FirmwareController, FirmwareControllerError, bool) peff" where
  "erase_round U =
     peff_bind (returning (erase_segment_continue U)) (\<lambda>again.
       if again then
         peff_bind (wait_operation_done U) (\<lambda>_.
         peff_bind (returning (check_operation_result U)) (\<lambda>_.
         returning (ret True)))
       else returning (ret False))"

partial_function (option) erase_loop :: "'s UFlash \<Rightarrow> 's FirmwareController
    \<Rightarrow> ((FirmwareControllerError, unit) outcome \<times> 's FirmwareController) option" where
  "erase_loop U c =
     Option.bind (erase_round U c) (\<lambda>(r, c).
       case r of Ok again \<Rightarrow> if again then erase_loop U c else Some (Ok (), c)
       | Err e \<Rightarrow> Some (Err e, c) | Panic \<Rightarrow> Some (Panic, c))"

definition erase_segment :: "'s UFlash \<Rightarrow> SegmentInfo \<Rightarrow> ('s FirmwareController, FirmwareControllerError, unit) peff" where
  "erase_segment U segment =
     peff_bind (returning (erase_segment_start U segment)) (\<lambda>_.
     peff_bind (wait_operation_done U) (\<lambda>_.
     peff_bind (returning (check_operation_result U)) (\<lambda>_.
     erase_loop U)))"

definition write_and_verify_segment_chunk :: "'s UFlash \<Rightarrow> SegmentInfo \<Rightarrow> nat \<Rightarrow> byte list \<Rightarrow> ('s FirmwareController, FirmwareControllerError, bool) peff" where
  "write_and_verify_segment_chunk U segment offset data =
     peff_bind (returning (write_segment_chunk U segment offset data)) (\<lambda>_.
     peff_bind (wait_operation_done U) (\<lambda>_.
     peff_bind (returning (check_operation_result U)) (\<lambda>_.
     returning (verify_segment_chunk U))))"

definition get_max_write_chunk_length :: nat where
  "get_max_write_chunk_length = MAX_BUFFER_LENGTH"

text \<open>The build information of a segment: \<open>None\<close> for any error.\<close>

definition get_build_info :: "'s UFlash \<Rightarrow> SegmentInfo \<Rightarrow> 's \<Rightarrow> BuildInfo option \<times> 's" where
  "get_build_info U segment s =
     (case u_read U ((unat (seg_address segment) + BUILD_INFO_OFFSET) mod 2 ^ 32) (replicate BUILD_INFO_LEN 0) BUILD_INFO_LEN s of
        (None, s) \<Rightarrow> (None, s)
      | (Some buf, s) \<Rightarrow> (case fst (BuildInfo_from_wire buf) of Ok b \<Rightarrow> (Some b, s) | _ \<Rightarrow> (None, s)))"

section \<open>The pages a segment erase touches\<close>

text \<open>Any flash, with a log of what it was asked to erase and to write.\<close>

datatype flash_op = EraseOp nat | WriteOp nat nat

definition logged :: "'s UFlash \<Rightarrow> ('s \<times> flash_op list) UFlash" where
  "logged U = \<lparr>u_read = (\<lambda>off buf len (s, l). case u_read U off buf len s of (r, s') \<Rightarrow> (r, (s', l))),
     u_write = (\<lambda>off buf len (s, l). case u_write U off buf len s of (r, s') \<Rightarrow> (r, (s', l @ [WriteOp off len]))),
     u_erase = (\<lambda>page (s, l). case u_erase U page s of (r, s') \<Rightarrow> (r, (s', l @ [EraseOp page]))),
     u_wait = (\<lambda>(s, l). map_option (\<lambda>s'. (s', l)) (u_wait U s)),
     u_result = (\<lambda>(s, l). u_result U s),
     u_clear = (\<lambda>(s, l). (u_clear U s, l))\<rparr>"

definition flash_log :: "('s \<times> flash_op list) FirmwareController \<Rightarrow> flash_op list" where
  "flash_log c = snd (fc_flash c)"

abbreviation last_page :: "SegmentInfo \<Rightarrow> nat" where
  "last_page seg \<equiv> unat (seg_start_page seg + seg_page_count seg - 1)"

lemma logged_wait:
  assumes "\<And>s. u_wait U s \<noteq> None"
  shows "\<exists>c'. wait_operation_done (logged U) c = Some (Ok (), c') \<and> flash_log c' = flash_log c
    \<and> fc_erase_page c' = fc_erase_page c \<and> fc_erase_segment c' = fc_erase_segment c"
proof -
  obtain s l where f: "fc_flash c = (s, l)" by force
  obtain s' where "u_wait U s = Some s'" using assms by auto
  then show ?thesis using f by (simp add: wait_operation_done_def logged_def flash_log_def)
qed

lemma logged_check:
  "\<exists>r c'. check_operation_result (logged U) c = (r, c') \<and> r \<noteq> Panic \<and> flash_log c' = flash_log c
    \<and> fc_erase_page c' = fc_erase_page c \<and> fc_erase_segment c' = fc_erase_segment c"
  by (cases "fc_flash c") (auto simp: check_operation_result_def Let_def logged_def flash_log_def)

lemma logged_erase:
  "\<exists>ok c'. on_fc_flash (u_erase (logged U) page) c = (Ok ok, c') \<and> flash_log c' = flash_log c @ [EraseOp page]
    \<and> fc_erase_page c' = fc_erase_page c \<and> fc_erase_segment c' = fc_erase_segment c"
proof -
  obtain s l where f: "fc_flash c = (s, l)" by force
  obtain ok s' where "u_erase U page s = (ok, s')" by force
  then show ?thesis using f by (auto simp: on_fc_flash_def logged_def flash_log_def)
qed

text \<open>A round before the last page asks for the next page; what it returns then does not matter here.\<close>

lemma erase_round_next:
  assumes "\<And>s. u_wait U s \<noteq> None" and "fc_erase_page c < last_page (fc_erase_segment c)"
  shows "\<exists>r c'. erase_round (logged U) c = Some (r, c') \<and> (r = Ok True \<or> (\<exists>e. r = Err e))
    \<and> flash_log c' = flash_log c @ [EraseOp (Suc (fc_erase_page c))]
    \<and> fc_erase_page c' = Suc (fc_erase_page c) \<and> fc_erase_segment c' = fc_erase_segment c"
proof -
  let ?c = "c\<lparr>fc_erase_page := fc_erase_page c + 1\<rparr>"
  obtain ok c1 where c1: "on_fc_flash (u_erase (logged U) (Suc (fc_erase_page c))) ?c
      = ((Ok ok, c1) :: (FirmwareControllerError, bool) outcome \<times> _)"
      "flash_log c1 = flash_log c @ [EraseOp (Suc (fc_erase_page c))]" "fc_erase_page c1 = Suc (fc_erase_page c)"
      "fc_erase_segment c1 = fc_erase_segment c"
    using logged_erase [of U "Suc (fc_erase_page c)" ?c] by (auto simp: flash_log_def)
  have cont: "erase_segment_continue (logged U) c = (if ok then ret True else throw FcTock) c1"
    using assms(2) c1(1) by (simp add: erase_segment_continue_def Let_def)
  obtain c2 where c2: "wait_operation_done (logged U) c1
      = (Some (Ok (), c2) :: ((FirmwareControllerError, unit) outcome \<times> _) option)" "flash_log c2 = flash_log c1"
      "fc_erase_page c2 = fc_erase_page c1" "fc_erase_segment c2 = fc_erase_segment c1"
    using logged_wait [OF assms(1), of c1] by blast
  obtain r c3 where c3: "check_operation_result (logged U) c2 = (r, c3)" "r \<noteq> Panic" "flash_log c3 = flash_log c2"
      "fc_erase_page c3 = fc_erase_page c2" "fc_erase_segment c3 = fc_erase_segment c2"
    using logged_check [of U c2] by blast
  show ?thesis
    using cont c1 c2 c3 by (cases ok; cases r) (simp_all add: erase_round_def)
qed

lemma erase_loop_pages:
  assumes wait: "\<And>s. u_wait U s \<noteq> None" and "fc_erase_page c \<le> last_page (fc_erase_segment c)"
  shows "\<exists>r c' q. erase_loop (logged U) c = Some (r, c') \<and> r \<noteq> Panic
    \<and> flash_log c' = flash_log c @ map EraseOp [Suc (fc_erase_page c)..<q]
    \<and> q \<le> Suc (last_page (fc_erase_segment c)) \<and> (r = Ok () \<longrightarrow> q = Suc (last_page (fc_erase_segment c)))"
  using assms(2)
proof (induction "last_page (fc_erase_segment c) - fc_erase_page c" arbitrary: c)
  case 0
  then have "erase_segment_continue (logged U) c = (Ok False, c)"
    by (simp add: erase_segment_continue_def)
  then have "erase_round (logged U) c = Some (Ok False, c)"
    by (simp add: erase_round_def peff_bind_def)
  then have "erase_loop (logged U) c = Some (Ok (), c)"
    by (subst erase_loop.simps) simp
  then show ?case using 0 by (intro exI [of _ "Ok ()"] exI [of _ c] exI [of _ "Suc (fc_erase_page c)"]) auto
next
  case (Suc n)
  then have less: "fc_erase_page c < last_page (fc_erase_segment c)" by simp
  obtain r c1 where c1: "erase_round (logged U) c = Some (r, c1)" "r = Ok True \<or> (\<exists>e. r = Err e)"
      "flash_log c1 = flash_log c @ [EraseOp (Suc (fc_erase_page c))]" "fc_erase_page c1 = Suc (fc_erase_page c)"
      "fc_erase_segment c1 = fc_erase_segment c"
    using erase_round_next [OF wait less] by blast
  show ?case
  proof (cases "r = Ok True")
    case True
    have "n = last_page (fc_erase_segment c1) - fc_erase_page c1" "fc_erase_page c1 \<le> last_page (fc_erase_segment c1)"
      using Suc.hyps(2) c1 less by auto
    from Suc.hyps(1) [OF this] obtain r' c' q where r': "erase_loop (logged U) c1 = Some (r', c')" "r' \<noteq> Panic"
        "flash_log c' = flash_log c1 @ map EraseOp [Suc (fc_erase_page c1)..<q]"
        "q \<le> Suc (last_page (fc_erase_segment c))" "r' = Ok () \<longrightarrow> q = Suc (last_page (fc_erase_segment c))"
      using c1 by auto
    moreover have "erase_loop (logged U) c = erase_loop (logged U) c1"
      using c1(1) True by (subst erase_loop.simps) simp
    moreover have "[EraseOp (Suc (fc_erase_page c))] @ map EraseOp [Suc (fc_erase_page c1)..<q]
        = map EraseOp [Suc (fc_erase_page c)..<max q (Suc (Suc (fc_erase_page c)))]"
      using c1(4) by (cases "Suc (Suc (fc_erase_page c)) \<le> q") (auto simp: upt_conv_Cons)
    ultimately show ?thesis
      using c1 less
      by (intro exI [of _ r'] exI [of _ c'] exI [of _ "max q (Suc (Suc (fc_erase_page c)))"]) auto
  next
    case False
    with c1 obtain e where "r = Err e" by blast
    then have "erase_loop (logged U) c = Some (Err e, c1)"
      using c1(1) by (subst erase_loop.simps) simp
    then show ?thesis
      using c1 less by (intro exI [of _ "Err e"] exI [of _ c1] exI [of _ "Suc (Suc (fc_erase_page c))"]) auto
  qed
qed

lemma last_page_fits:
  assumes "seg_page_count seg \<noteq> 0" and "unat (seg_start_page seg) + unat (seg_page_count seg) \<le> 2 ^ 32"
  shows "Suc (last_page seg) = unat (seg_start_page seg) + unat (seg_page_count seg)"
proof -
  let ?a = "seg_start_page seg" and ?b = "seg_page_count seg"
  have b: "unat (?b - 1) = unat ?b - 1" "0 < unat ?b"
    using assms(1) by (simp_all add: unat_minus_one unat_gt_0)
  then have "unat ?a + unat (?b - 1) < 2 ^ LENGTH(32)"
    using assms(2) by simp
  then have "unat (?a + (?b - 1)) = unat ?a + unat (?b - 1)"
    by (rule unat_add_lem [THEN iffD1])
  then show ?thesis
    using b by (simp add: algebra_simps)
qed


text \<open>A flash that accepts every operation, for evaluation.\<close>

definition eager_flash :: "unit UFlash" where
  "eager_flash = \<lparr>u_read = (\<lambda>off buf len s. (Some buf, s)), u_write = (\<lambda>off buf len s. (True, s)), u_erase = (\<lambda>page s. (True, s)),
     u_wait = Some, u_result = (\<lambda>s. 0), u_clear = id\<rparr>"


section \<open>Writing and verifying a chunk\<close>

lemma compare_bytes_True:
  "compare_bytes n rs ws = Some True \<Longrightarrow> take n rs = take n ws"
  by (induction n rs ws rule: compare_bytes.induct) (auto split: if_splits)

lemma compare_bytes_total:
  "\<lbrakk>n \<le> length rs; n \<le> length ws\<rbrakk> \<Longrightarrow> compare_bytes n rs ws = Some (take n rs = take n ws)"
  by (induction n rs ws rule: compare_bytes.induct) auto

lemma write_segment_chunk_Ok:
  assumes "write_segment_chunk U seg off data c = (Ok (), c')"
  shows "length data \<le> length (write_buf c)
    \<and> u_write U ((unat (seg_address seg) + off) mod 2 ^ 32) (write_buf c') (length data) (fc_flash c) = (True, fc_flash c')
    \<and> write_buf c' = data @ drop (length data) (write_buf c)
    \<and> fc_write_segment c' = seg \<and> fc_write_offset c' = off \<and> fc_write_length c' = length data"
  using assms
  by (auto simp: write_segment_chunk_def Let_def get_write_flash_offset_def eff_bind_Ok_iff on_fc_flash_def
      split: if_splits prod.splits)

lemma wait_operation_done_Ok:
  "wait_operation_done U c = Some (Ok (), c') \<Longrightarrow> \<exists>s. u_wait U (fc_flash c) = Some s \<and> c' = c\<lparr>fc_flash := s\<rparr>"
  by (auto simp: wait_operation_done_def)

lemma check_operation_result_Ok:
  "check_operation_result U c = (Ok (), c') \<Longrightarrow> 0 \<le> u_result U (fc_flash c) \<and> c' = c\<lparr>fc_flash := u_clear U (fc_flash c)\<rparr>"
  by (auto simp: check_operation_result_def Let_def split: if_splits)

lemma verify_segment_chunk_True:
  assumes "verify_segment_chunk U c = (Ok True, c')"
  shows "\<exists>rb. u_read U (get_write_flash_offset c) (replicate MAX_BUFFER_LENGTH 0) (fc_write_length c) (fc_flash c) = (Some rb, fc_flash c')
    \<and> take (fc_write_length c) rb = take (fc_write_length c) (write_buf c)"
  using assms
  by (auto simp: verify_segment_chunk_def eff_bind_Ok_iff on_fc_flash_def compare_bytes_True
      split: prod.splits option.splits)

text \<open>C33. A chunk is reported as verified only when the flash accepted exactly the chunk at its place in the segment, the
  operation completed without an error, and reading the same place back afterwards gave the bytes of the chunk.
\<close>

theorem write_and_verify_reads_back:
  assumes "write_and_verify_segment_chunk U seg off data c = Some (Ok True, c')"
  shows "let place = (unat (seg_address seg) + off) mod 2 ^ 32 in
    length data \<le> length (write_buf c)
    \<and> (\<exists>s s' rb. u_write U place (data @ drop (length data) (write_buf c)) (length data) (fc_flash c) = (True, s)
        \<and> u_wait U s = Some s' \<and> 0 \<le> u_result U s'
        \<and> u_read U place (replicate MAX_BUFFER_LENGTH 0) (length data) (u_clear U s') = (Some rb, fc_flash c')
        \<and> take (length data) rb = data)"
proof -
  obtain c1 c2 c3 where steps: "write_segment_chunk U seg off data c = (Ok (), c1)"
      "wait_operation_done U c1 = (Some (Ok (), c2) :: ((FirmwareControllerError, unit) outcome \<times> _) option)"
      "check_operation_result U c2 = (Ok (), c3)" "verify_segment_chunk U c3 = (Ok True, c')"
    using assms by (auto simp: write_and_verify_segment_chunk_def peff_bind_Ok_iff)
  note w = write_segment_chunk_Ok [OF steps(1)]
  obtain s where s: "u_wait U (fc_flash c1) = Some s" "c2 = c1\<lparr>fc_flash := s\<rparr>"
    using wait_operation_done_Ok [OF steps(2)] by blast
  have c3: "0 \<le> u_result U s" "c3 = c1\<lparr>fc_flash := u_clear U s\<rparr>"
    using check_operation_result_Ok [OF steps(3)] s by simp_all
  show ?thesis
    using verify_segment_chunk_True [OF steps(4)] w s c3
    by (auto simp: Let_def get_write_flash_offset_def)
qed

text \<open>A flash that remembers the last buffer written to it.\<close>

definition echo_flash :: "byte list UFlash" where
  "echo_flash = \<lparr>u_read = (\<lambda>off buf len s. (Some s, s)), u_write = (\<lambda>off buf len s. (True, buf)), u_erase = (\<lambda>page s. (True, s)),
     u_wait = Some, u_result = (\<lambda>s. 0), u_clear = id\<rparr>"

theorem write_and_verify_reads_back_witness:
  "take 2 (fc_flash (snd (the (write_and_verify_segment_chunk echo_flash UNKNOWN_SEGMENT 8 [1, 2] (FirmwareController_new []))))) = [1, 2]"
proof -
  let ?c = "FirmwareController_new []"
  let ?run = "write_and_verify_segment_chunk echo_flash UNKNOWN_SEGMENT 8 [1, 2] ?c"
  have run: "?run = Some (Ok True, snd (the ?run))"
    by (simp add: write_and_verify_segment_chunk_def peff_bind_def write_segment_chunk_def FirmwareController_new_def
        echo_flash_def on_fc_flash_def wait_operation_done_def check_operation_result_def verify_segment_chunk_def
        MAX_BUFFER_LENGTH_def numeral_eq_Suc Let_def)
  have echo: "u_read echo_flash off buf n s = (Some rb, s') \<Longrightarrow> rb = s'" for off buf n s rb s'
    by (auto simp: echo_flash_def)
  obtain s buf n off rb where rb: "u_read echo_flash off buf n s = (Some rb, fc_flash (snd (the ?run)))"
      "take (length [1, 2 :: byte]) rb = [1, 2]"
    using write_and_verify_reads_back [OF run] unfolding Let_def by blast
  have "(2 :: nat) = length [1, 2 :: byte]" by simp
  then show ?thesis
    using echo [OF rb(1)] rb(2) by (simp only:)
qed

section \<open>No operation leaves its segment\<close>

text \<open>
  The erase and write requests a segment allows, and the segments for which no computation of the controller wraps
  around 32 bits.
\<close>

fun within_segment :: "SegmentInfo \<Rightarrow> flash_op \<Rightarrow> bool" where
  "within_segment seg (EraseOp page) \<longleftrightarrow>
     unat (seg_start_page seg) \<le> page \<and> page < unat (seg_start_page seg) + unat (seg_page_count seg)"
| "within_segment seg (WriteOp off len) \<longleftrightarrow>
     unat (seg_address seg) \<le> off \<and> off + len \<le> unat (seg_address seg) + unat (seg_size seg)"

definition segment_fits :: "SegmentInfo \<Rightarrow> bool" where
  "segment_fits seg \<longleftrightarrow> seg_page_count seg \<noteq> 0
     \<and> unat (seg_start_page seg) + unat (seg_page_count seg) \<le> 2 ^ 32
     \<and> unat (seg_address seg) + unat (seg_size seg) + MAX_BUFFER_LENGTH \<le> 2 ^ 32"

definition log_grows :: "('op \<Rightarrow> bool) \<Rightarrow> 'op list \<Rightarrow> 'op list \<Rightarrow> bool" where
  "log_grows P l l' \<longleftrightarrow> (\<exists>ops. l' = l @ ops \<and> (\<forall>op\<in>set ops. P op))"

lemma log_grows_refl [simp]: "log_grows P l l"
  by (simp add: log_grows_def)

lemma log_grows_one: "P op \<Longrightarrow> log_grows P l (l @ [op])"
  by (simp add: log_grows_def)

lemma log_grows_trans: "\<lbrakk>log_grows P l l'; log_grows P l' l''\<rbrakk> \<Longrightarrow> log_grows P l l''"
  by (auto simp: log_grows_def)

lemma log_grows_mono: "\<lbrakk>log_grows P l l'; \<And>op. P op \<Longrightarrow> Q op\<rbrakk> \<Longrightarrow> log_grows Q l l'"
  by (auto simp: log_grows_def)

abbreviation fc_grows :: "(flash_op \<Rightarrow> bool) \<Rightarrow> ('s \<times> flash_op list) FirmwareController \<Rightarrow> ('s \<times> flash_op list) FirmwareController \<Rightarrow> bool" where
  "fc_grows P c c' \<equiv> log_grows P (flash_log c) (flash_log c')"

lemma wait_log:
  "wait_operation_done (logged U) c = Some (r, c') \<Longrightarrow> flash_log c' = flash_log c
    \<and> fc_erase_page c' = fc_erase_page c \<and> fc_erase_segment c' = fc_erase_segment c"
  by (cases "fc_flash c") (auto simp: wait_operation_done_def logged_def flash_log_def)

lemma check_log:
  "check_operation_result (logged U) c = (r, c') \<Longrightarrow> flash_log c' = flash_log c
    \<and> fc_erase_page c' = fc_erase_page c \<and> fc_erase_segment c' = fc_erase_segment c"
  using logged_check [of U c] by auto

text \<open>A wait and a check, whatever comes of them.\<close>

lemma wait_check_log:
  assumes "peff_bind (wait_operation_done (logged U)) (\<lambda>_. peff_bind (returning (check_operation_result (logged U))) (\<lambda>_. f)) c = Some (r, c')"
    and "\<And>c1. flash_log c1 = flash_log c \<Longrightarrow> fc_erase_page c1 = fc_erase_page c \<Longrightarrow> fc_erase_segment c1 = fc_erase_segment c
      \<Longrightarrow> f c1 = Some (r, c') \<Longrightarrow> Q"
    and "flash_log c' = flash_log c \<Longrightarrow> (\<And>a. r \<noteq> Ok a) \<Longrightarrow> Q"
  shows Q
  using assms
  by (auto simp: peff_bind_def split: option.splits prod.splits outcome.splits dest!: wait_log check_log)

lemma erase_round_log:
  assumes "erase_round (logged U) c = Some (r, c')"
  shows "(r = Ok False \<and> c' = c) \<or>
    (fc_erase_page c < last_page (fc_erase_segment c) \<and> flash_log c' = flash_log c @ [EraseOp (Suc (fc_erase_page c))]
      \<and> (r = Ok True \<longrightarrow> fc_erase_page c' = Suc (fc_erase_page c) \<and> fc_erase_segment c' = fc_erase_segment c))"
proof (cases "fc_erase_page c < last_page (fc_erase_segment c)")
  case False
  then have "erase_segment_continue (logged U) c = (Ok False, c)"
    by (simp add: erase_segment_continue_def)
  then show ?thesis
    using assms by (simp add: erase_round_def peff_bind_def)
next
  case True
  let ?c = "c\<lparr>fc_erase_page := fc_erase_page c + 1\<rparr>"
  obtain ok c1 where c1: "on_fc_flash (u_erase (logged U) (Suc (fc_erase_page c))) ?c
      = ((Ok ok, c1) :: (FirmwareControllerError, bool) outcome \<times> _)"
      "flash_log c1 = flash_log c @ [EraseOp (Suc (fc_erase_page c))]" "fc_erase_page c1 = Suc (fc_erase_page c)"
      "fc_erase_segment c1 = fc_erase_segment c"
    using logged_erase [of U "Suc (fc_erase_page c)" ?c] by (auto simp: flash_log_def)
  have "erase_segment_continue (logged U) c = (if ok then ret True else throw FcTock) c1"
    using True c1(1) by (simp add: erase_segment_continue_def Let_def)
  then show ?thesis
    using assms c1 True
    by (cases ok) (auto simp: erase_round_def elim!: wait_check_log)
qed

lemma erase_loop_log:
  assumes "erase_loop (logged U) c = Some (r, c')" and "segment_fits (fc_erase_segment c)"
    and "unat (seg_start_page (fc_erase_segment c)) \<le> fc_erase_page c"
  shows "fc_grows (within_segment (fc_erase_segment c)) c c'"
proof -
  let ?P = "\<lambda>V c y. V = logged U \<longrightarrow> segment_fits (fc_erase_segment c) \<longrightarrow> unat (seg_start_page (fc_erase_segment c)) \<le> fc_erase_page c
    \<longrightarrow> fc_grows (within_segment (fc_erase_segment c)) c (snd y)"
  have "?P (logged U) c (r, c')"
  proof (rule erase_loop.raw_induct [where P = ?P, OF _ assms(1)], intro impI)
    fix f V c and y :: "(FirmwareControllerError, unit) outcome \<times> _"
    assume IH: "\<And>V c y. f V c = Some y \<Longrightarrow> ?P V c y"
      and eq: "Option.bind (erase_round V c) (\<lambda>(r, c). case r of Ok again \<Rightarrow> if again then f V c else Some (Ok (), c)
        | Err e \<Rightarrow> Some (Err e, c) | Panic \<Rightarrow> Some (Panic, c)) = Some y"
      and V: "V = logged U" and fits: "segment_fits (fc_erase_segment c)"
      and ge: "unat (seg_start_page (fc_erase_segment c)) \<le> fc_erase_page c"
    obtain r1 c1 where r1: "erase_round (logged U) c = Some (r1, c1)"
      using eq V by (auto simp: bind_eq_Some_conv)
    have last: "Suc (last_page (fc_erase_segment c)) = unat (seg_start_page (fc_erase_segment c)) + unat (seg_page_count (fc_erase_segment c))"
      using fits by (intro last_page_fits) (auto simp: segment_fits_def)
    show "fc_grows (within_segment (fc_erase_segment c)) c (snd y)"
      using erase_round_log [OF r1]
    proof
      assume "r1 = Ok False \<and> c1 = c"
      then show ?thesis using eq V r1 by auto
    next
      assume next': "fc_erase_page c < last_page (fc_erase_segment c) \<and> flash_log c1 = flash_log c @ [EraseOp (Suc (fc_erase_page c))]
        \<and> (r1 = Ok True \<longrightarrow> fc_erase_page c1 = Suc (fc_erase_page c) \<and> fc_erase_segment c1 = fc_erase_segment c)"
      then have one: "fc_grows (within_segment (fc_erase_segment c)) c c1"
        using ge last by (auto intro!: log_grows_one)
      show ?thesis
      proof (cases "r1 = Ok True")
        case True
        then have "f (logged U) c1 = Some y" using eq V r1 by simp
        then show ?thesis
          using IH [of "logged U" c1 y] next' True fits ge one log_grows_trans by fastforce
      next
        case False
        then have "snd y = c1"
          using eq V r1 by (cases r1) auto
        then show ?thesis using one by simp
      qed
    qed
  qed
  then show ?thesis using assms by simp
qed

lemma erase_segment_log:
  assumes fits: "segment_fits seg"
  shows "moves (fc_grows (within_segment seg)) (erase_segment (logged U) seg)"
proof (rule movesI)
  fix c r c'
  assume run: "erase_segment (logged U) seg c = Some (r, c')"
  let ?p = "unat (seg_start_page seg)"
  let ?c = "c\<lparr>fc_erase_segment := seg, fc_erase_page := ?p\<rparr>"
  obtain ok c1 where c1: "on_fc_flash (u_erase (logged U) ?p) ?c = ((Ok ok, c1) :: (FirmwareControllerError, bool) outcome \<times> _)"
      "flash_log c1 = flash_log c @ [EraseOp ?p]" "fc_erase_page c1 = ?p" "fc_erase_segment c1 = seg"
    using logged_erase [of U ?p ?c] by (auto simp: flash_log_def)
  have start: "erase_segment_start (logged U) seg c = (if ok then ret () else throw FcTock) c1"
    using c1(1) by (simp add: erase_segment_start_def Let_def)
  have one: "fc_grows (within_segment seg) c c1"
    using c1(2) fits by (auto intro!: log_grows_one simp: segment_fits_def unat_gt_0)
  show "fc_grows (within_segment seg) c c'"
  proof (cases ok)
    case False
    then show ?thesis using run start one by (simp add: erase_segment_def peff_bind_def)
  next
    case True
    then have "peff_bind (wait_operation_done (logged U)) (\<lambda>_. peff_bind (returning (check_operation_result (logged U))) (\<lambda>_. erase_loop (logged U))) c1 = Some (r, c')"
      using run start by (simp add: erase_segment_def peff_bind_def)
    then show ?thesis
    proof (rule wait_check_log)
      fix c2
      assume "flash_log c2 = flash_log c1" "fc_erase_page c2 = fc_erase_page c1" "fc_erase_segment c2 = fc_erase_segment c1"
        "erase_loop (logged U) c2 = Some (r, c')"
      then show ?thesis
        using erase_loop_log [of U c2 r c'] fits c1 log_grows_trans [OF one] by simp
    qed (use one in simp)
  qed
qed

lemma write_chunk_place:
  assumes "segment_fits seg" and "off < unat (seg_size seg)"
    and "off + n \<le> unat (seg_size seg)"
  shows "within_segment seg (WriteOp ((unat (seg_address seg) + off) mod 2 ^ 32) n)"
  using assms by (simp add: segment_fits_def)

lemma write_and_verify_log:
  assumes fits: "segment_fits seg" and off: "off < unat (seg_size seg)" and le: "off + length data \<le> unat (seg_size seg)"
  shows "moves (fc_grows (within_segment seg)) (write_and_verify_segment_chunk (logged U) seg off data)"
proof (rule movesI)
  fix c r c'
  assume run: "write_and_verify_segment_chunk (logged U) seg off data c = Some (r, c')"
  obtain r1 c1 where r1: "write_segment_chunk (logged U) seg off data c = (r1, c1)" by force
  have one: "fc_grows (within_segment seg) c c1"
    using r1 write_chunk_place [OF fits off le]
    by (auto simp: write_segment_chunk_def Let_def get_write_flash_offset_def eff_bind_def on_fc_flash_def flash_log_def logged_def
        intro!: log_grows_one split: if_splits prod.splits)
  have verify: "flash_log c2 = flash_log c1 \<Longrightarrow> verify_segment_chunk (logged U) c2 = (r, c') \<Longrightarrow> flash_log c' = flash_log c1" for c2
    by (auto simp: verify_segment_chunk_def eff_bind_def on_fc_flash_def flash_log_def logged_def split: prod.splits option.splits)
  show "fc_grows (within_segment seg) c c'"
  proof (cases r1)
    case (Ok _)
    then have "peff_bind (wait_operation_done (logged U)) (\<lambda>_. peff_bind (returning (check_operation_result (logged U)))
        (\<lambda>_. returning (verify_segment_chunk (logged U)))) c1 = Some (r, c')"
      using run r1 by (simp add: write_and_verify_segment_chunk_def peff_bind_def)
    then have "flash_log c' = flash_log c1"
      by (rule wait_check_log) (auto dest: verify)
    then show ?thesis using one by simp
  qed (use run r1 one in \<open>simp_all add: write_and_verify_segment_chunk_def peff_bind_def\<close>)
qed

end
