(* ===== verification/Spi_Processor.thy ===== *)
theory Spi_Processor
  imports Firmware_Controller Payload
begin

text \<open>
  The SPI processor of \<^verbatim>\<open>userspace/otpilot/src/spi_processor.rs\<close>: it takes the packets the SPI device received,
  answers the messages of the mailbox and passes the other writes on to the flash chip behind the SPI host.
\<close>

section \<open>State, environment and errors\<close>

definition SPI_FLASH_SIZE :: u32 where
  "SPI_FLASH_SIZE = 0x4000000"

definition SPI_MAILBOX_ADDRESS :: u32 where
  "SPI_MAILBOX_ADDRESS = 0x80000"

definition SPI_MAILBOX_SIZE :: u32 where
  "SPI_MAILBOX_SIZE = word_of_nat MAX_READ_BUFFER_SIZE"

definition SPI_TX_BUF_SIZE :: nat where
  "SPI_TX_BUF_SIZE = 512"

datatype 'm SpiProcessorError =
    SPE_FromWire FromWireError
  | SPE_ToWire ToWireError
  | SPE_Tock
  | SPE_Manticore 'm
  | UnsupportedFirmwareOperation fw_ContentType
  | UnsupportedOpCode OpCode
  | InvalidAddress "u32 option"
  | SPE_Format

text \<open>
  \<open>spi_tx_buf\<close> is the static \<^verbatim>\<open>SPI_TX_BUF\<close>; the state of all device modules is the one the firmware
  controller holds.
\<close>

record ('s, 'h) SpiProcessor =
  manticore_handler :: 'h
  print_flash_headers :: bool
  firmware :: "'s FirmwareController"
  spi_tx_buf :: "byte list"

abbreviation world :: "('s, 'h) SpiProcessor \<Rightarrow> 's" where
  "world p \<equiv> fc_flash (firmware p)"

abbreviation set_world :: "'s \<Rightarrow> ('s, 'h) SpiProcessor \<Rightarrow> ('s, 'h) SpiProcessor" where
  "set_world s p \<equiv> p\<lparr>firmware := (firmware p)\<lparr>fc_flash := s\<rparr>\<rparr>"

text \<open>
  The modules the processor calls. \<open>segments\<close> is what the global security module gives; it does not change once
  the module is initialised. The Manticore protocol server reads a request and writes its answer to the output
  buffer; it gives the length of the answer.
\<close>

record ('s, 'h, 'm) Modules =
  env_flash :: "'s UFlash"
  env_device :: "'s SpiDevice"
  env_host :: "'s SpiHost"
  env_host_h1 :: "'s SpiHostH1"
  env_reset :: "'s Reset"
  segments :: RuntimeSegmentInfo
  manticore_request :: "byte list \<Rightarrow> byte list \<Rightarrow> 'h \<Rightarrow> (('m, nat) outcome \<times> byte list) \<times> 'h"

type_synonym ('s, 'h, 'm, 'a) spi = "(('s, 'h) SpiProcessor, 'm SpiProcessorError, 'a) eff"
type_synonym ('s, 'h, 'm, 'a) pspi = "(('s, 'h) SpiProcessor, 'm SpiProcessorError, 'a) peff"

definition on_world :: "('s, TockError, 'a) eff \<Rightarrow> ('s, 'h, 'm, 'a) spi" where
  "on_world m p = (case m (world p) of
     (Ok a, s) \<Rightarrow> (Ok a, set_world s p) | (Err _, s) \<Rightarrow> (Err SPE_Tock, set_world s p) | (Panic, s) \<Rightarrow> (Panic, set_world s p))"

text \<open>A firmware operation, its error as a value.\<close>

definition on_firmware :: "('s FirmwareController, FirmwareControllerError, 'a) peff
    \<Rightarrow> ('s, 'h, 'm, FirmwareControllerError + 'a) pspi" where
  "on_firmware m p = (case m (firmware p) of None \<Rightarrow> None
     | Some (Ok a, c) \<Rightarrow> Some (Ok (Inr a), p\<lparr>firmware := c\<rparr>)
     | Some (Err e, c) \<Rightarrow> Some (Ok (Inl e), p\<lparr>firmware := c\<rparr>)
     | Some (Panic, c) \<Rightarrow> Some (Panic, p\<lparr>firmware := c\<rparr>))"

text \<open>Reading a message from the received bytes: the result, and the bytes that are left.\<close>

definition parse :: "(reader, FromWireError, 'a) eff \<Rightarrow> byte list \<Rightarrow> ('s, 'h, 'm, 'a \<times> byte list) spi" where
  "parse from_wire data = (case from_wire data of
     (Ok x, rest) \<Rightarrow> ret (x, rest) | (Err e, _) \<Rightarrow> throw (SPE_FromWire e) | (Panic, _) \<Rightarrow> panic)"

text \<open>Writing to the transmit buffer from a position on: slicing past its end panics.\<close>

definition tx_write :: "nat \<Rightarrow> (Cursor, ToWireError, 'a) eff \<Rightarrow> ('s, 'h, 'm, 'a) spi" where
  "tx_write off m p =
     (if length (spi_tx_buf p) < off then (Panic, p)
      else case m (Cursor_new (drop off (spi_tx_buf p))) of (r, c) \<Rightarrow>
        let p = p\<lparr>spi_tx_buf := take off (spi_tx_buf p) @ cur_buf c\<rparr> in
        case r of Ok a \<Rightarrow> (Ok a, p) | Err e \<Rightarrow> (Err (SPE_ToWire e), p) | Panic \<Rightarrow> (Panic, p))"

section \<open>Sending answers\<close>

definition u16_try_from :: "nat \<Rightarrow> ('s, 'h, 'm, u16) spi" where
  "u16_try_from n = (if n \<le> 65535 then ret (word_of_nat n) else throw (SPE_FromWire OutOfRange))"

definition send_data :: "('s, 'h, 'm) Modules \<Rightarrow> pl_ContentType \<Rightarrow> u16 \<Rightarrow> ('s, 'h, 'm, unit) spi" where
  "send_data E content_type content_len p =
     (let header = \<lparr>pl_content = content_type, pl_content_len = content_len, pl_checksum = 0\<rparr> in
      if length (spi_tx_buf p) < pl_HEADER_LEN then (Panic, p)
      else
        eff_bind (compute_checksum header (drop pl_HEADER_LEN (spi_tx_buf p))) (\<lambda>checksum.
        eff_bind (tx_write 0 (pl_Header_to_wire Cursor_write_bytes (header\<lparr>pl_checksum := checksum\<rparr>))) (\<lambda>_ p.
          if length (spi_tx_buf p) < pl_HEADER_LEN + unat content_len then (Panic, p)
          else on_world (end_transaction_with_data (env_device E)
                 (take (pl_HEADER_LEN + unat content_len) (spi_tx_buf p)) True True) p)) p)"

text \<open>A header and a message in the transmit buffer, behind the place of the envelope: their length.\<close>

definition tx_message :: "(Cursor, ToWireError, unit) eff \<Rightarrow> (Cursor, ToWireError, unit) eff \<Rightarrow> ('s, 'h, 'm, u16) spi" where
  "tx_message header_to_wire msg_to_wire =
     eff_bind (tx_write pl_HEADER_LEN
       (eff_bind header_to_wire (\<lambda>_. eff_bind msg_to_wire (\<lambda>_ c. (Ok (Cursor_consumed_len c), c))))) u16_try_from"

definition send_error :: "('s, 'h, 'm) Modules \<Rightarrow> er_ContentType \<Rightarrow> (Cursor, ToWireError, unit) eff \<Rightarrow> ('s, 'h, 'm, unit) spi" where
  "send_error E content msg_to_wire =
     eff_bind (tx_message (er_Header_to_wire Cursor_write_bytes \<lparr>er_content = content\<rparr>) msg_to_wire) (send_data E Error_PL)"

definition process_manticore :: "('s, 'h, 'm) Modules \<Rightarrow> byte list \<Rightarrow> ('s, 'h, 'm, unit) spi" where
  "process_manticore E data p =
     (if length (spi_tx_buf p) < pl_HEADER_LEN then (Panic, p)
      else case manticore_request E data (drop pl_HEADER_LEN (spi_tx_buf p)) (manticore_handler p) of ((r, out), h) \<Rightarrow>
        let p = p\<lparr>manticore_handler := h, spi_tx_buf := take pl_HEADER_LEN (spi_tx_buf p) @ out\<rparr> in
        case r of Ok manticore_len \<Rightarrow> eff_bind (u16_try_from manticore_len) (send_data E Manticore_PL) p
        | Err e \<Rightarrow> (Err (SPE_Manticore e), p)
        | Panic \<Rightarrow> (Panic, p))"

definition send_firmware_response :: "('s, 'h, 'm) Modules \<Rightarrow> fw_ContentType \<Rightarrow> (Cursor, ToWireError, unit) eff \<Rightarrow> ('s, 'h, 'm, unit) spi" where
  "send_firmware_response E content msg_to_wire =
     eff_bind (tx_message (fw_Header_to_wire Cursor_write_bytes \<lparr>fw_content = content\<rparr>) msg_to_wire) (send_data E Firmware_PL)"

section \<open>Firmware messages\<close>

definition process_firmware_inactive_segments :: "('s, 'h, 'm) Modules \<Rightarrow> byte list \<Rightarrow> ('s, 'h, 'm, unit) spi" where
  "process_firmware_inactive_segments E data =
     eff_bind (parse InactiveSegmentsInfoRequest_from_wire data) (\<lambda>_.
       send_firmware_response E InactiveSegmentsInfoResponse_T
         (InactiveSegmentsInfoResponse_to_wire Cursor_write_bytes
           \<lparr>isr_ro = inactive_ro (segments E), isr_rw = inactive_rw (segments E)\<rparr>))"

text \<open>The inactive segment a request names, RW before RO.\<close>

definition select_segment :: "('s, 'h, 'm) Modules \<Rightarrow> SegmentAndLocation \<Rightarrow> SegmentInfo option" where
  "select_segment E sal =
     (if sal = seg_identifier (inactive_rw (segments E)) then Some (inactive_rw (segments E))
      else if sal = seg_identifier (inactive_ro (segments E)) then Some (inactive_ro (segments E))
      else None)"

definition send_update_prepare_response :: "('s, 'h, 'm) Modules \<Rightarrow> SegmentAndLocation \<Rightarrow> u16 \<Rightarrow> UpdatePrepareResult \<Rightarrow> ('s, 'h, 'm, unit) spi" where
  "send_update_prepare_response E sal len r =
     send_firmware_response E UpdatePrepareResponse_T (UpdatePrepareResponse_to_wire Cursor_write_bytes
       \<lparr>upp_segment_and_location = sal, upp_max_chunk_length = len, upp_result = r\<rparr>)"

definition process_firmware_update_prepare :: "('s, 'h, 'm) Modules \<Rightarrow> byte list \<Rightarrow> ('s, 'h, 'm, unit) pspi" where
  "process_firmware_update_prepare E data =
     peff_bind (returning (parse UpdatePrepareRequest_from_wire data)) (\<lambda>(req, _).
       let sal = upq_segment_and_location req in
       case select_segment E sal of
         None \<Rightarrow> returning (send_update_prepare_response E sal 0 InvalidSegmentAndLocation_UP)
       | Some segment \<Rightarrow>
           peff_bind (on_firmware (erase_segment (env_flash E) segment)) (\<lambda>r.
             returning (case r of
                Inr _ \<Rightarrow> send_update_prepare_response E sal (word_of_nat get_max_write_chunk_length) Success_UP
              | Inl _ \<Rightarrow> send_update_prepare_response E sal 0 Error_UP)))"

definition send_firmware_write_chunk_response :: "('s, 'h, 'm) Modules \<Rightarrow> WriteChunkRequest \<Rightarrow> WriteChunkResult \<Rightarrow> ('s, 'h, 'm, unit) spi" where
  "send_firmware_write_chunk_response E req r =
     send_firmware_response E WriteChunkResponse_T (WriteChunkResponse_to_wire Cursor_write_bytes
       \<lparr>wcp_segment_and_location = wcq_segment_and_location req, wcp_offset = wcq_offset req, wcp_result = r\<rparr>)"

text \<open>The end of the chunk is computed in 32 bits.\<close>

definition process_firmware_write_chunk :: "('s, 'h, 'm) Modules \<Rightarrow> byte list \<Rightarrow> ('s, 'h, 'm, unit) pspi" where
  "process_firmware_write_chunk E data =
     peff_bind (returning (parse WriteChunkRequest_from_wire data)) (\<lambda>(req, _).
       case select_segment E (wcq_segment_and_location req) of
         None \<Rightarrow> returning (send_firmware_write_chunk_response E req InvalidSegmentAndLocation_WC)
       | Some segment \<Rightarrow>
           if seg_size segment \<le> wcq_offset req
           then returning (send_firmware_write_chunk_response E req InvalidOffset_WC)
           else if seg_size segment < wcq_offset req + word_of_nat (length (wcq_data req))
             \<or> get_max_write_chunk_length < length (wcq_data req)
           then returning (send_firmware_write_chunk_response E req DataTooLong_WC)
           else peff_bind (on_firmware (write_and_verify_segment_chunk (env_flash E) segment (unat (wcq_offset req)) (wcq_data req))) (\<lambda>r.
             returning (send_firmware_write_chunk_response E req
               (case r of Inl _ \<Rightarrow> Error_WC | Inr b \<Rightarrow> if b then Success_WC else CompareFailed_WC))))"

definition send_firmware_reboot_response :: "('s, 'h, 'm) Modules \<Rightarrow> RebootRequest \<Rightarrow> RebootResult \<Rightarrow> ('s, 'h, 'm, unit) spi" where
  "send_firmware_reboot_response E req r =
     send_firmware_response E RebootResponse_T (RebootResponse_to_wire Cursor_write_bytes
       \<lparr>rbp_time = rbq_time req, rbp_result = r\<rparr>)"

definition process_firmware_reboot :: "('s, 'h, 'm) Modules \<Rightarrow> byte list \<Rightarrow> ('s, 'h, 'm, unit) spi" where
  "process_firmware_reboot E data =
     eff_bind (parse RebootRequest_from_wire data) (\<lambda>(req, _) p.
       case rbq_time req of
         Immediate \<Rightarrow> (case reset_chip (env_reset E) (world p) of
             (Ok _, s) \<Rightarrow> send_firmware_reboot_response E req Success_RB (set_world s p)
           | (Err _, s) \<Rightarrow> send_firmware_reboot_response E req Error_RB (set_world s p)
           | (Panic, s) \<Rightarrow> (Panic, set_world s p))
       | Delayed \<Rightarrow> send_firmware_reboot_response E req Error_RB p)"

definition process_firmware :: "('s, 'h, 'm) Modules \<Rightarrow> byte list \<Rightarrow> ('s, 'h, 'm, unit) pspi" where
  "process_firmware E data =
     peff_bind (returning (parse fw_Header_from_wire data)) (\<lambda>(header, data).
       case fw_content header of
         InactiveSegmentsInfoRequest_T \<Rightarrow> returning (process_firmware_inactive_segments E data)
       | UpdatePrepareRequest_T \<Rightarrow> process_firmware_update_prepare E data
       | WriteChunkRequest_T \<Rightarrow> process_firmware_write_chunk E data
       | RebootRequest_T \<Rightarrow> returning (process_firmware_reboot E data)
       | _ \<Rightarrow> returning (throw (UnsupportedFirmwareOperation (fw_content header))))"

section \<open>The mailbox\<close>

text \<open>Slicing the received data to the announced length panics when it is shorter.\<close>

definition content_slice :: "pl_Header \<Rightarrow> byte list \<Rightarrow> ('s, 'h, 'm, byte list) spi" where
  "content_slice header data =
     (if length data < unat (pl_content_len header) then panic else ret (take (unat (pl_content_len header)) data))"

definition process_spi_payload :: "('s, 'h, 'm) Modules \<Rightarrow> byte list \<Rightarrow> ('s, 'h, 'm, unit) pspi" where
  "process_spi_payload E data =
     peff_bind (returning (parse pl_Header_from_wire data)) (\<lambda>(header, data).
     peff_bind (returning (compute_checksum header data)) (\<lambda>checksum.
       if pl_checksum header \<noteq> checksum
       then returning (send_error E BadChecksum_T (BadChecksum_to_wire Cursor_write_bytes BadChecksum))
       else case pl_content header of
         Manticore_PL \<Rightarrow> returning (eff_bind (content_slice header data) (process_manticore E))
       | Firmware_PL \<Rightarrow> peff_bind (returning (content_slice header data)) (process_firmware E)
       | _ \<Rightarrow> returning (send_error E ContentTypeNotSupported_T (ContentTypeNotSupported_to_wire Cursor_write_bytes ContentTypeNotSupported))))"

section \<open>Passing writes on to the flash chip\<close>

text \<open>The trait \<^verbatim>\<open>Address\<close> with its two types.\<close>

record 'a AddrType =
  at_read :: "(reader, io_error, 'a) eff"
  at_write :: "'a \<Rightarrow> (Cursor, io_error, unit) eff"
  at_into :: "'a \<Rightarrow> u32"
  at_try_from :: "u32 \<Rightarrow> 'a option"

definition addr_u24 :: "u24 AddrType" where
  "addr_u24 = \<lparr>at_read = read_be_u24, at_write = write_be_u24 Cursor_write_bytes, at_into = ucast, at_try_from = u24_try_from\<rparr>"

definition addr_u32 :: "u32 AddrType" where
  "addr_u32 = \<lparr>at_read = read_be_u32, at_write = write_be_u32 Cursor_write_bytes, at_into = (\<lambda>a. a), at_try_from = u32_try_from\<rparr>"

text \<open>One transaction in the buffer: the header, a dummy byte where the op code has one, and as much data as fits.\<close>

definition host_tx :: "'a AddrType \<Rightarrow> 'a flash_Header \<Rightarrow> byte list \<Rightarrow> (Cursor, ToWireError, nat) eff" where
  "host_tx A header data =
     eff_bind (flash_Header_to_wire (at_write A) Cursor_write_bytes header) (\<lambda>_.
     eff_bind (if has_dummy_byte (opcode header) then to_io (Cursor_write_bytes [0]) else ret ()) (\<lambda>_ c.
       let n = min (MAX_READ_BUFFER_LENGTH - Cursor_consumed_len c) (length data) in
       eff_bind (to_io (Cursor_write_bytes (take n data))) (\<lambda>_. ret n) c))"

definition wait_host :: "('s, 'h, 'm) Modules \<Rightarrow> ('s, 'h, 'm, unit) pspi" where
  "wait_host E p = map_option (\<lambda>s. (Ok (), set_world s p)) (wait_read_write_done (env_host E) (world p))"

text \<open>Send one transaction: how much of the data went with it.\<close>

definition host_transaction :: "('s, 'h, 'm) Modules \<Rightarrow> 'a AddrType \<Rightarrow> 'a flash_Header \<Rightarrow> byte list \<Rightarrow> ('s, 'h, 'm, nat) pspi" where
  "host_transaction E A header data =
     (case host_tx A header data (Cursor_new (replicate MAX_READ_BUFFER_LENGTH 0xff)) of
        (Ok n, c) \<Rightarrow>
          peff_bind (returning (on_world (set_wait_busy_clear_in_transactions (env_host_h1 E) (wait_busy_clear (opcode header))))) (\<lambda>_.
          peff_bind (returning (on_world (read_write_bytes (env_host E) (cur_buf c) (Cursor_consumed_len c)))) (\<lambda>_.
          peff_bind (wait_host E) (\<lambda>_.
          returning (ret n))))
      | (Err e, _) \<Rightarrow> returning (throw (SPE_ToWire e))
      | (Panic, _) \<Rightarrow> returning panic)"

text \<open>The address of the next transaction; the sum wraps at 32 bits.\<close>

definition next_header :: "'a AddrType \<Rightarrow> 'a flash_Header \<Rightarrow> nat \<Rightarrow> ('s, 'h, 'm, 'a flash_Header) spi" where
  "next_header A header n =
     (case haddress header of None \<Rightarrow> ret header
      | Some addr \<Rightarrow> (case at_try_from A (at_into A addr + word_of_nat n) of
          None \<Rightarrow> throw (SPE_FromWire OutOfRange) | Some a \<Rightarrow> ret (header\<lparr>haddress := Some a\<rparr>)))"

text \<open>One round of the loop: the header and the data that are left.\<close>

definition host_round :: "('s, 'h, 'm) Modules \<Rightarrow> 'a AddrType \<Rightarrow> ('s, 'h, 'm, unit) pspi \<Rightarrow> 'a flash_Header \<Rightarrow> byte list
    \<Rightarrow> ('s, 'h, 'm, 'a flash_Header \<times> byte list) pspi" where
  "host_round E A pre_transaction_fn header data =
     peff_bind pre_transaction_fn (\<lambda>_.
     peff_bind (host_transaction E A header data) (\<lambda>n.
     peff_bind (returning (next_header A header n)) (\<lambda>header.
     returning (ret (header, drop n data)))))"

partial_function (option) spi_host_send :: "('s, 'h, 'm) Modules \<Rightarrow> 'a AddrType \<Rightarrow> ('s, 'h, 'm, unit) pspi \<Rightarrow> 'a flash_Header \<Rightarrow> byte list
    \<Rightarrow> ('s, 'h) SpiProcessor \<Rightarrow> (('m SpiProcessorError, unit) outcome \<times> ('s, 'h) SpiProcessor) option" where
  "spi_host_send E A pre_transaction_fn header data p =
     Option.bind (host_round E A pre_transaction_fn header data p) (\<lambda>(r, p).
       case r of
         Ok x \<Rightarrow> if snd x = [] then Some (Ok (), p) else spi_host_send E A pre_transaction_fn (fst x) (snd x) p
       | Err e \<Rightarrow> Some (Err e, p) | Panic \<Rightarrow> Some (Panic, p))"

definition spi_host_write_enable :: "('s, 'h, 'm) Modules \<Rightarrow> ('s, 'h, 'm, unit) pspi" where
  "spi_host_write_enable E = spi_host_send E addr_u32 (returning (ret ())) \<lparr>opcode = WriteEnable, haddress = None\<rparr> []"

definition spi_host_write :: "('s, 'h, 'm) Modules \<Rightarrow> 'a AddrType \<Rightarrow> 'a flash_Header \<Rightarrow> byte list \<Rightarrow> ('s, 'h, 'm, unit) pspi" where
  "spi_host_write E A header data = spi_host_send E A (spi_host_write_enable E) header data"

section \<open>Packets\<close>

definition clear_device_status :: "('s, 'h, 'm) Modules \<Rightarrow> bool \<Rightarrow> bool \<Rightarrow> ('s, 'h, 'm, unit) spi" where
  "clear_device_status E clear_busy clear_write_enable =
     on_world (end_transaction_with_status (env_device E) clear_busy clear_write_enable)"

definition is_mailbox_address :: "u32 \<Rightarrow> bool" where
  "is_mailbox_address addr \<longleftrightarrow> SPI_MAILBOX_ADDRESS \<le> addr \<and> addr < SPI_MAILBOX_ADDRESS + SPI_MAILBOX_SIZE"

definition when_write_enabled :: "('s, 'h, 'm) Modules \<Rightarrow> ('s, 'h, 'm, unit) pspi \<Rightarrow> ('s, 'h, 'm, unit) pspi" where
  "when_write_enabled E m =
     peff_bind (\<lambda>p. if is_write_enable_set (env_device E) (world p) then m p else Some (Ok (), p)) (\<lambda>_.
     returning (clear_device_status E True True))"

definition process_spi_header :: "('s, 'h, 'm) Modules \<Rightarrow> 'a AddrType \<Rightarrow> 'a flash_Header \<Rightarrow> byte list \<Rightarrow> ('s, 'h, 'm, unit) pspi" where
  "process_spi_header E A header rx_buf =
     (if has_dummy_byte (opcode header) \<and> rx_buf = [] then returning panic
      else
        let data = (if has_dummy_byte (opcode header) then drop 1 rx_buf else rx_buf);
            address = get_address (at_into A) header in
        if opcode header = PageProgram then
          (case address of
             Some addr \<Rightarrow>
               if is_mailbox_address addr then when_write_enabled E (process_spi_payload E data)
               else when_write_enabled E (spi_host_write E A header data)
           | None \<Rightarrow> returning (throw (InvalidAddress address)))
        else if opcode header \<in> {SectorErase, BlockErase32KB, BlockErase64KB} then
          (case address of
             Some addr \<Rightarrow>
               if is_mailbox_address addr then returning (clear_device_status E True True)
               else when_write_enabled E (spi_host_write E A header data)
           | None \<Rightarrow> returning (throw (InvalidAddress address)))
        else if opcode header \<in> {ChipErase, ChipErase2} then when_write_enabled E (spi_host_write E A header data)
        else returning (throw (UnsupportedOpCode (opcode header))))"

definition process_spi_packet :: "('s, 'h, 'm) Modules \<Rightarrow> byte list \<Rightarrow> ('s, 'h, 'm, unit) pspi" where
  "process_spi_packet E rx_buf p =
     (case get_address_mode (env_device E) (world p) of
        ThreeByte \<Rightarrow> peff_bind (returning (parse (flash_Header_from_wire (at_read addr_u24)) rx_buf))
          (\<lambda>(header, rx_buf). process_spi_header E addr_u24 header rx_buf) p
      | FourByte \<Rightarrow> peff_bind (returning (parse (flash_Header_from_wire (at_read addr_u32)) rx_buf))
          (\<lambda>(header, rx_buf). process_spi_header E addr_u32 header rx_buf) p)"

text \<open>What the event loop does with a received packet; an error of the last call is ignored.\<close>

definition handle_transaction :: "('s, 'h, 'm) Modules \<Rightarrow> ('s, 'h, 'm, unit) pspi" where
  "handle_transaction E p =
     (if \<not> have_transaction (env_device E) (world p) then Some (Ok (), p)
      else peff_bind (returning (on_world (device_read_buffer (env_device E)))) (\<lambda>rx_buf p.
        case process_spi_packet E rx_buf p of
          Some (Err why, p) \<Rightarrow>
            if is_busy_set (env_device E) (world p) then
              (case end_transaction_with_status (env_device E) True False (world p) of
                 (Panic, s) \<Rightarrow> Some (Panic, set_world s p) | (_, s) \<Rightarrow> Some (Ok (), set_world s p))
            else Some (Ok (), set_world (end_transaction (env_device E) (world p)) p)
        | r \<Rightarrow> r) p)"

end
