(* ===== verification/Spi_Safety.thy ===== *)
theory Spi_Safety
  imports Spi_Processor
begin

text \<open>
  No packet makes the SPI processor erase or write flash outside the inactive firmware segments. Any modules are put under
  a log of the flash requests, and every handler is shown to extend the log by allowed requests only.
\<close>

section \<open>Modules under a log\<close>

definition lift_eff :: "('s, 'e, 'a) eff \<Rightarrow> ('s \<times> 'l, 'e, 'a) eff" where
  "lift_eff m sl = (case m (fst sl) of (r, s) \<Rightarrow> (r, (s, snd sl)))"

definition lift_query :: "('s \<Rightarrow> 'a) \<Rightarrow> 's \<times> 'l \<Rightarrow> 'a" where
  "lift_query f sl = f (fst sl)"

definition lift_wait :: "('s \<Rightarrow> 's option) \<Rightarrow> 's \<times> 'l \<Rightarrow> ('s \<times> 'l) option" where
  "lift_wait f sl = map_option (\<lambda>s. (s, snd sl)) (f (fst sl))"

definition audited :: "('s, 'h, 'm) Modules \<Rightarrow> ('s \<times> flash_op list, 'h, 'm) Modules" where
  "audited E = \<lparr>env_flash = logged (env_flash E),
     env_device = \<lparr>have_transaction = lift_query (have_transaction (env_device E)), device_read_buffer = lift_eff (device_read_buffer (env_device E)),
       is_busy_set = lift_query (is_busy_set (env_device E)), is_write_enable_set = lift_query (is_write_enable_set (env_device E)),
       end_transaction = (\<lambda>sl. (end_transaction (env_device E) (fst sl), snd sl)),
       end_transaction_with_status = (\<lambda>b w. lift_eff (end_transaction_with_status (env_device E) b w)),
       end_transaction_with_data = (\<lambda>d b w. lift_eff (end_transaction_with_data (env_device E) d b w)),
       get_address_mode = lift_query (get_address_mode (env_device E))\<rparr>,
     env_host = \<lparr>read_write_bytes = (\<lambda>d n. lift_eff (read_write_bytes (env_host E) d n)),
       wait_read_write_done = lift_wait (wait_read_write_done (env_host E)), host_read_buffer = lift_eff (host_read_buffer (env_host E))\<rparr>,
     env_host_h1 = \<lparr>set_passthrough = (\<lambda>b. lift_eff (set_passthrough (env_host_h1 E) b)),
       set_wait_busy_clear_in_transactions = (\<lambda>b. lift_eff (set_wait_busy_clear_in_transactions (env_host_h1 E) b))\<rparr>,
     env_reset = \<lparr>reset_chip = lift_eff (reset_chip (env_reset E)), get_reset_source = lift_eff (get_reset_source (env_reset E))\<rparr>,
     segments = segments E,
     manticore_request = manticore_request E\<rparr>"

abbreviation spi_log :: "('s \<times> flash_op list, 'h) SpiProcessor \<Rightarrow> flash_op list" where
  "spi_log p \<equiv> flash_log (firmware p)"

definition inactive_only :: "RuntimeSegmentInfo \<Rightarrow> flash_op \<Rightarrow> bool" where
  "inactive_only info op \<longleftrightarrow> within_segment (inactive_rw info) op \<or> within_segment (inactive_ro info) op"

definition grows :: "(flash_op \<Rightarrow> bool) \<Rightarrow> ('s \<times> flash_op list, 'h) SpiProcessor \<Rightarrow> ('s \<times> flash_op list, 'h) SpiProcessor \<Rightarrow> bool" where
  "grows P p p' \<longleftrightarrow> log_grows P (spi_log p) (spi_log p')"

lemma grows_order [simp, moves_intros]: "reflp (grows P)" "transp (grows P)"
  using log_grows_trans by (auto intro!: reflpI transpI simp: grows_def)

section \<open>Code that sends no flash request\<close>

text \<open>Code that leaves the log alone, whatever requests are allowed.\<close>

definition silent :: "('s \<times> flash_op list, 'h, 'm, 'a) pspi \<Rightarrow> bool" where
  "silent m \<longleftrightarrow> moves (\<lambda>p p'. spi_log p' = spi_log p) m"

lemma silent_grows: "silent m \<Longrightarrow> moves (grows P) m"
  by (auto simp: silent_def moves_def grows_def)

lemma silent_returning_grows [moves_intros]: "silent (returning m) \<Longrightarrow> moves (grows P) (returning m)"
  by (rule silent_grows)

lemma log_eq_order: "reflp (\<lambda>p p'. spi_log p' = spi_log p)" "transp (\<lambda>p p'. spi_log p' = spi_log p)"
  by (auto intro: reflpI transpI)

named_theorems silent_intros \<open>code that sends no flash request\<close>

lemma silent_bind [silent_intros]: "\<lbrakk>silent m; \<And>a. silent (f a)\<rbrakk> \<Longrightarrow> silent (peff_bind m f)"
  unfolding silent_def by (rule moves_bind [OF log_eq_order(2)])

lemma silent_eff_bind [silent_intros]:
  "\<lbrakk>silent (returning m); \<And>a. silent (returning (f a))\<rbrakk> \<Longrightarrow> silent (returning (eff_bind m f))"
  unfolding silent_def by (rule moves_eff_bind [OF log_eq_order(2)])

lemma silent_simple [silent_intros]: "silent (returning (ret a))" "silent (returning (throw e))" "silent (returning panic)"
  unfolding silent_def by (rule moves_simple [OF log_eq_order(1)])+

text \<open>Code that looks at the state before it decides what to do.\<close>

lemma silent_look: "(\<And>q. silent (F q)) \<Longrightarrow> silent (\<lambda>p. F p p)"
  by (auto simp: silent_def moves_def)

lemma silent_look_eff: "(\<And>q. silent (returning (F q))) \<Longrightarrow> silent (returning (\<lambda>p. F p p))"
  by (auto simp: silent_def moves_def)

lemma silent_if [silent_intros]: "\<lbrakk>silent m; silent m'\<rbrakk> \<Longrightarrow> silent (if b then m else m')"
  by simp

lemma silent_on_world [silent_intros]: "silent (returning (on_world (lift_eff m)))"
  by (auto simp: silent_def moves_def on_world_def lift_eff_def flash_log_def split: prod.splits outcome.splits)

lemma silent_parse [silent_intros]: "silent (returning (parse r d))"
  by (auto simp: silent_def moves_def parse_def split: prod.splits outcome.splits)

lemma silent_checksum [silent_intros]: "silent (returning (compute_checksum h d))"
  by (auto simp: silent_def moves_def compute_checksum_def)

lemma silent_tx_write [silent_intros]: "silent (returning (tx_write off m))"
  by (auto simp: silent_def moves_def tx_write_def Let_def split: prod.splits outcome.splits if_splits)

lemma silent_u16 [silent_intros]: "silent (returning (u16_try_from n))"
  by (auto simp: silent_def moves_def u16_try_from_def)

lemma audited_device [simp]:
  "env_flash (audited E) = logged (env_flash E)" "segments (audited E) = segments E"
  "end_transaction_with_status (env_device (audited E)) b w = lift_eff (end_transaction_with_status (env_device E) b w)"
  "end_transaction_with_data (env_device (audited E)) d b w = lift_eff (end_transaction_with_data (env_device E) d b w)"
  "read_write_bytes (env_host (audited E)) d n = lift_eff (read_write_bytes (env_host E) d n)"
  "set_wait_busy_clear_in_transactions (env_host_h1 (audited E)) b = lift_eff (set_wait_busy_clear_in_transactions (env_host_h1 E) b)"
  by (simp_all add: audited_def)

lemma audited_queries [simp]:
  "is_write_enable_set (env_device (audited E)) s = is_write_enable_set (env_device E) (fst s)"
  "get_address_mode (env_device (audited E)) s = get_address_mode (env_device E) (fst s)"
  by (simp_all add: audited_def lift_query_def)

lemma silent_send_data [silent_intros]: "silent (returning (send_data (audited E) ct len))"
proof -
  let ?h = "\<lparr>pl_content = ct, pl_content_len = len, pl_checksum = 0\<rparr>"
  let ?n = "pl_HEADER_LEN + unat len"
  let ?send = "\<lambda>q. if length (spi_tx_buf q) < ?n then panic
    else on_world (lift_eff (end_transaction_with_data (env_device E) (take ?n (spi_tx_buf q)) True True))"
  let ?all = "\<lambda>q. if length (spi_tx_buf q) < pl_HEADER_LEN then panic
    else eff_bind (compute_checksum ?h (drop pl_HEADER_LEN (spi_tx_buf q))) (\<lambda>checksum.
      eff_bind (tx_write 0 (pl_Header_to_wire Cursor_write_bytes (?h\<lparr>pl_checksum := checksum\<rparr>))) (\<lambda>_ p. ?send p p))"
  have send: "silent (returning (?send q))" for q
    by (simp add: silent_intros)
  have "silent (returning (?all q))" for q
    by (cases "length (spi_tx_buf q) < pl_HEADER_LEN") (auto intro!: silent_intros silent_look_eff [OF send])
  then have "silent (returning (\<lambda>p. ?all p p))"
    by (rule silent_look_eff)
  moreover have "send_data (audited E) ct len = (\<lambda>p. ?all p p)"
    by (rule ext) (simp add: send_data_def Let_def if_apply cong: if_cong)
  ultimately show ?thesis by simp
qed

lemma silent_tx_message [silent_intros]: "silent (returning (tx_message h m))"
  by (simp add: tx_message_def silent_intros)

lemma silent_responses [silent_intros]:
  "silent (returning (send_error (audited E) ct m))"
  "silent (returning (send_firmware_response (audited E) fct m))"
  "silent (returning (send_update_prepare_response (audited E) sal n ur))"
  "silent (returning (send_firmware_write_chunk_response (audited E) wreq wr))"
  "silent (returning (send_firmware_reboot_response (audited E) rreq rr))"
  by (simp_all add: send_error_def send_firmware_response_def send_update_prepare_response_def
      send_firmware_write_chunk_response_def send_firmware_reboot_response_def silent_intros)

lemma silent_manticore [silent_intros]: "silent (returning (process_manticore (audited E) d))"
proof -
  have u16: "silent (returning (eff_bind (u16_try_from n) (send_data (audited E) Manticore_PL)))" for n
    by (intro silent_intros)
  have step: "spi_log p' = spi_log q"
    if "eff_bind (u16_try_from n) (send_data (audited E) Manticore_PL) q = (r, p')" for n q r p'
    using u16 [of n] that by (auto simp: silent_def moves_def)
  show ?thesis
    by (auto simp: silent_def moves_def process_manticore_def Let_def dest!: step split: if_splits prod.splits outcome.splits)
qed

lemma silent_inactive_segments [silent_intros]: "silent (returning (process_firmware_inactive_segments (audited E) d))"
  by (simp add: process_firmware_inactive_segments_def silent_intros)

lemma silent_reboot [silent_intros]: "silent (returning (process_firmware_reboot (audited E) d))"
proof -
  have reply: "spi_log p' = spi_log q" if "send_firmware_reboot_response (audited E) req rr q = (r, p')" for req rr q r p'
    using silent_responses(5) [of E req rr] that by (auto simp: silent_def moves_def)
  have "silent (returning (\<lambda>p. case rbq_time req of
         Immediate \<Rightarrow> (case reset_chip (env_reset (audited E)) (world p) of
             (Ok _, s) \<Rightarrow> send_firmware_reboot_response (audited E) req Success_RB (set_world s p)
           | (Err _, s) \<Rightarrow> send_firmware_reboot_response (audited E) req Error_RB (set_world s p)
           | (Panic, s) \<Rightarrow> (Panic, set_world s p))
       | Delayed \<Rightarrow> send_firmware_reboot_response (audited E) req Error_RB p))" for req
    by (cases "rbq_time req")
       (auto simp: silent_def moves_def audited_def lift_eff_def flash_log_def dest!: reply [unfolded audited_def] split: prod.splits outcome.splits)
  then show ?thesis
    by (auto simp: process_firmware_reboot_def intro!: silent_intros)
qed

section \<open>The SPI host\<close>

lemma silent_wait_host [silent_intros]: "silent (wait_host (audited E))"
  by (auto simp: silent_def moves_def wait_host_def audited_def lift_wait_def flash_log_def)

lemma silent_transaction [silent_intros]: "silent (host_transaction (audited E) A h d)"
  by (auto simp: host_transaction_def intro!: silent_intros split: prod.splits outcome.splits)

lemma silent_next_header [silent_intros]: "silent (returning (next_header A h n))"
  by (auto simp: next_header_def intro!: silent_intros split: option.splits)

lemma silent_round: "silent pre \<Longrightarrow> silent (host_round (audited E) A pre h d)"
  by (auto simp: host_round_def intro!: silent_intros)

lemma silent_host_send:
  assumes pre: "silent pre"
  shows "silent (spi_host_send (audited E) A pre h d)"
proof -
  let ?P = "\<lambda>F B q h d p y. F = audited E \<longrightarrow> q = pre \<longrightarrow> spi_log (snd y) = spi_log p"
  have "?P (audited E) A pre h d p y" if "spi_host_send (audited E) A pre h d p = Some y" for p y
  proof (rule spi_host_send.raw_induct [where P = ?P, OF _ that], intro impI)
    fix f F B q h d p and y :: "('c SpiProcessorError, unit) outcome \<times> _"
    assume IH: "\<And>F B q h d p y. f F B q h d p = Some y \<Longrightarrow> ?P F B q h d p y"
      and eq: "Option.bind (host_round F B q h d p) (\<lambda>(r, p). case r of
           Ok x \<Rightarrow> if snd x = [] then Some (Ok (), p) else f F B q (fst x) (snd x) p
         | Err e \<Rightarrow> Some (Err e, p) | Panic \<Rightarrow> Some (Panic, p)) = Some y"
      and F: "F = audited E" and q: "q = pre"
    obtain r1 p1 where r1: "host_round (audited E) B pre h d p = Some (r1, p1)"
      using eq F q by (auto simp: bind_eq_Some_conv)
    have "spi_log p1 = spi_log p"
      using silent_round [OF pre, of E B h d] r1 by (auto simp: silent_def moves_def)
    then show "spi_log (snd y) = spi_log p"
      using eq F q r1 IH by (cases r1) (fastforce split: if_splits)+
  qed
  then show ?thesis
    by (fastforce simp: silent_def moves_def)
qed

lemma silent_write_enable [silent_intros]: "silent (spi_host_write_enable (audited E))"
  unfolding spi_host_write_enable_def by (rule silent_host_send) (rule silent_simple)

lemma silent_host_write [silent_intros]: "silent (spi_host_write (audited E) A h d)"
  unfolding spi_host_write_def by (rule silent_host_send) (rule silent_write_enable)

section \<open>Firmware messages\<close>

lemma on_firmware_grows:
  assumes "moves (fc_grows P) m"
  shows "moves (grows P) (on_firmware m)"
  using assms by (auto simp: moves_def on_firmware_def grows_def split: option.splits prod.splits outcome.splits)

lemma select_segment_inactive:
  "select_segment E sal = Some seg \<Longrightarrow> seg = inactive_rw (segments E) \<or> seg = inactive_ro (segments E)"
  by (auto simp: select_segment_def split: if_splits)

lemma fc_grows_inactive:
  assumes "moves (fc_grows (within_segment seg)) m" and "seg = inactive_rw info \<or> seg = inactive_ro info"
  shows "moves (fc_grows (inactive_only info)) m"
proof (rule movesI)
  fix c r c'
  assume "m c = Some (r, c')"
  then have "fc_grows (within_segment seg) c c'"
    using assms(1) by (simp add: moves_def)
  then show "fc_grows (inactive_only info) c c'"
    by (rule log_grows_mono) (use assms(2) in \<open>auto simp: inactive_only_def\<close>)
qed

text \<open>What is assumed of the segments: neither inactive segment reaches the end of the address or page numbers.\<close>

definition segments_fit :: "RuntimeSegmentInfo \<Rightarrow> bool" where
  "segments_fit info \<longleftrightarrow> segment_fits (inactive_rw info) \<and> segment_fits (inactive_ro info)"

lemma selected_fits: "\<lbrakk>segments_fit (segments E); select_segment E sal = Some seg\<rbrakk> \<Longrightarrow> segment_fits seg"
  using select_segment_inactive by (fastforce simp: segments_fit_def)

lemma update_prepare_grows:
  assumes "segments_fit (segments E)"
  shows "moves (grows (inactive_only (segments E))) (process_firmware_update_prepare (audited E) d)"
proof -
  have "moves (grows (inactive_only (segments E))) (on_firmware (erase_segment (logged (env_flash E)) seg))"
    if "select_segment (audited E) sal = Some seg" for seg sal
    using selected_fits [of "audited E"] select_segment_inactive [OF that] that assms
    by (intro on_firmware_grows fc_grows_inactive [OF erase_segment_log]) auto
  then show ?thesis
    by (auto simp: process_firmware_update_prepare_def Let_def intro!: moves_intros silent_intros
        split: option.splits sum.splits)
qed

text \<open>The checks of the request exclude a wrap-around in the sum of offset and length.\<close>

lemma chunk_inside:
  fixes off size :: u32
  assumes "\<not> size \<le> off" and "\<not> (size < off + word_of_nat n \<or> MAX_BUFFER_LENGTH < n)" and "unat size + MAX_BUFFER_LENGTH \<le> 2 ^ 32"
  shows "unat off < unat size \<and> unat off + n \<le> unat size"
proof -
  have off: "unat off < unat size"
    using assms(1) by (simp add: word_le_nat_alt)
  have n: "n \<le> 128" and lt: "unat off + n < 2 ^ 32"
    using assms off by (simp_all add: MAX_BUFFER_LENGTH_def)
  then have "unat (off + word_of_nat n) = unat off + n"
    by (simp add: unat_word_ariths unat_of_nat)
  then show ?thesis
    using assms(2) off by (simp add: word_less_nat_alt)
qed

lemma write_chunk_grows:
  assumes "segments_fit (segments E)"
  shows "moves (grows (inactive_only (segments E))) (process_firmware_write_chunk (audited E) d)"
proof -
  have step: "moves (grows (inactive_only (segments E)))
      (on_firmware (write_and_verify_segment_chunk (logged (env_flash E)) seg (unat (wcq_offset req)) (wcq_data req)))"
    if seg: "select_segment (audited E) sal = Some seg" and g1: "\<not> seg_size seg \<le> wcq_offset req"
      and g2: "\<not> (seg_size seg < wcq_offset req + word_of_nat (length (wcq_data req)) \<or> MAX_BUFFER_LENGTH < length (wcq_data req))"
    for seg sal req
  proof -
    have fits: "segment_fits seg"
      using selected_fits [of "audited E"] seg assms by simp
    then have "unat (seg_size seg) + MAX_BUFFER_LENGTH \<le> 2 ^ 32"
      by (simp add: segment_fits_def)
    from chunk_inside [OF g1 g2 this] fits select_segment_inactive [OF seg] show ?thesis
      by (intro on_firmware_grows fc_grows_inactive [OF write_and_verify_log]) auto
  qed
  show ?thesis
    by (auto simp: process_firmware_write_chunk_def get_max_write_chunk_length_def
        intro!: moves_intros silent_intros intro: step split: option.splits)
qed

lemma firmware_grows:
  assumes "segments_fit (segments E)"
  shows "moves (grows (inactive_only (segments E))) (process_firmware (audited E) d)"
  using update_prepare_grows [OF assms] write_chunk_grows [OF assms]
  by (auto simp: process_firmware_def intro!: moves_intros silent_intros split: fw_ContentType.splits)

lemma payload_grows:
  assumes "segments_fit (segments E)"
  shows "moves (grows (inactive_only (segments E))) (process_spi_payload (audited E) d)"
proof -
  have "silent (returning (content_slice h x))" for h x
    by (auto simp: content_slice_def intro: silent_intros)
  then show ?thesis
    using firmware_grows [OF assms]
    by (auto simp: process_spi_payload_def intro!: moves_intros silent_intros split: pl_ContentType.splits)
qed

section \<open>Packets\<close>

text \<open>A packet that may reach the mailbox: a page program to a mailbox address.\<close>

definition mailbox_program :: "'a AddrType \<Rightarrow> 'a flash_Header \<Rightarrow> bool" where
  "mailbox_program A h \<longleftrightarrow> opcode h = PageProgram \<and> (\<exists>a. get_address (at_into A) h = Some a \<and> is_mailbox_address a)"

lemma silent_clear_status [silent_intros]: "silent (returning (clear_device_status (audited E) b w))"
  by (simp add: clear_device_status_def silent_intros)

lemma when_write_enabled_moves:
  assumes "moves (grows P) m"
  shows "moves (grows P) (when_write_enabled (audited E) m)"
  unfolding when_write_enabled_def
proof (intro moves_intros silent_intros)
  show "moves (grows P) (\<lambda>p. if is_write_enable_set (env_device (audited E)) (world p) then m p else Some (Ok (), p))"
    using assms by (auto simp: moves_def grows_def split: if_splits)
qed

lemma header_grows:
  assumes "mailbox_program A h \<Longrightarrow> moves (grows P) (process_spi_payload (audited E) d)"
  shows "moves (grows P) (process_spi_header (audited E) A h d)"
proof -
  have host: "moves (grows P) (when_write_enabled (audited E) (spi_host_write (audited E) A h x))" for x
    by (intro when_write_enabled_moves silent_grows silent_intros)
  have mailbox: "opcode h = PageProgram \<Longrightarrow> get_address (at_into A) h = Some a \<Longrightarrow> is_mailbox_address a
      \<Longrightarrow> moves (grows P) (when_write_enabled (audited E) (process_spi_payload (audited E) d))" for a
    by (rule when_write_enabled_moves) (use assms in \<open>auto simp: mailbox_program_def\<close>)
  show ?thesis
    using host mailbox
    by (auto simp: process_spi_header_def Let_def intro!: moves_intros silent_intros split: option.splits)
qed

lemma packet_moves:
  fixes p :: "('s \<times> flash_op list, 'h) SpiProcessor"
  assumes "\<And>A h d. moves (grows P) (process_spi_header (audited E) (A :: u24 AddrType) h d)"
    and "\<And>A h d. moves (grows P) (process_spi_header (audited E) (A :: u32 AddrType) h d)"
    and "process_spi_packet (audited E) rx p = Some (r, p')"
  shows "grows P p p'"
proof -
  have "moves (grows P) (peff_bind (returning (parse (flash_Header_from_wire (at_read addr_u24)) rx))
      (\<lambda>(header, rx_buf). process_spi_header (audited E) addr_u24 header rx_buf))"
    "moves (grows P) (peff_bind (returning (parse (flash_Header_from_wire (at_read addr_u32)) rx))
      (\<lambda>(header, rx_buf). process_spi_header (audited E) addr_u32 header rx_buf))"
    using assms(1,2) by (auto intro!: moves_intros silent_intros)
  then show ?thesis
    using assms(3) by (auto simp: process_spi_packet_def moves_def split: AddressMode.splits)
qed

text \<open>C1. When the application knows two inactive firmware segments that are not empty and fit the addresses of the flash, as it
  does when the boot loader started a known image: whatever bytes arrive over SPI and whatever the modules do, a packet makes
  the application erase only pages of these two segments and write only inside them, and no request reaches the running
  firmware or any other part of the flash. (With an unknown image the inactive segments are unknown, of no pages at all, and
  erasing runs on behind them.)
\<close>

theorem packets_stay_in_inactive_segments:
  assumes "segments_fit (segments E)" and "process_spi_packet (audited E) rx p = Some (r, p')"
  shows "\<exists>ops. spi_log p' = spi_log p @ ops \<and> (\<forall>op\<in>set ops. inactive_only (segments E) op)"
proof -
  have "grows (inactive_only (segments E)) p p'"
    using assms(2) by (rule packet_moves [rotated 2]) (rule header_grows, rule payload_grows [OF assms(1)])+
  then show ?thesis by (simp add: grows_def log_grows_def)
qed

lemma write_protected:
  assumes "\<not> is_write_enable_set (env_device (audited E)) (world p)" and "when_write_enabled (audited E) m p = Some (r, p')"
  shows "spi_log p' = spi_log p"
proof -
  have "returning (clear_device_status (audited E) True True) p = Some (r, p')"
    using assms by (simp add: when_write_enabled_def peff_bind_def)
  then show ?thesis
    using silent_clear_status [of E True True] unfolding silent_def moves_def by blast
qed

lemma header_silent:
  assumes "process_spi_header (audited E) A h d p = Some (r, p')"
    and "\<not> (mailbox_program A h \<and> is_write_enable_set (env_device (audited E)) (world p))"
  shows "spi_log p' = spi_log p"
proof (cases "mailbox_program A h")
  case True
  then have "when_write_enabled (audited E) (process_spi_payload (audited E) d) p = Some (r, p')"
    using assms(1) by (auto simp: mailbox_program_def process_spi_header_def Let_def)
  then show ?thesis
    using write_protected assms(2) True by blast
next
  case False
  then have "moves (grows (\<lambda>_. False)) (process_spi_header (audited E) A h d)"
    by (intro header_grows) simp
  then have "grows (\<lambda>_. False) p p'"
    using assms(1) by (simp add: moves_def)
  then show ?thesis by (auto simp: grows_def log_grows_def)
qed

text \<open>The header of a packet is a page program to the mailbox, in the address mode the device is in.\<close>

definition mailbox_packet :: "AddressMode \<Rightarrow> byte list \<Rightarrow> bool" where
  "mailbox_packet mode rx =
     (case mode of
        ThreeByte \<Rightarrow> (case fst (flash_Header_from_wire read_be_u24 rx) of Ok h \<Rightarrow> mailbox_program addr_u24 h | _ \<Rightarrow> False)
      | FourByte \<Rightarrow> (case fst (flash_Header_from_wire read_be_u32 rx) of Ok h \<Rightarrow> mailbox_program addr_u32 h | _ \<Rightarrow> False))"

lemma parse_bind_silent:
  assumes "peff_bind (returning (parse rd rx)) (\<lambda>(h, d). f h d) p = Some (r, p')"
    and "\<And>h d. rd rx = (Ok h, d) \<Longrightarrow> f h d p = Some (r, p') \<Longrightarrow> spi_log p' = spi_log p"
  shows "spi_log p' = spi_log p"
  using assms by (auto simp: peff_bind_def parse_def split: prod.splits outcome.splits)

text \<open>C3. A packet reaches the firmware flash only as a page program to the mailbox that arrived with the write enable bit set:
  any other packet, and any packet while the bit is clear, sends no erase and no write request.
\<close>

theorem flash_only_through_mailbox:
  assumes "process_spi_packet (audited E) rx p = Some (r, p')" and "spi_log p' \<noteq> spi_log p"
  shows "is_write_enable_set (env_device E) (fst (world p)) \<and> mailbox_packet (get_address_mode (env_device E) (fst (world p))) rx"
proof -
  have "spi_log p' = spi_log p" if no: "\<not> ?thesis"
  proof (cases "get_address_mode (env_device E) (fst (world p))")
    case ThreeByte
    then show ?thesis
      using assms(1) no
      by (auto simp: process_spi_packet_def mailbox_packet_def addr_u24_def intro!: header_silent elim!: parse_bind_silent)
  next
    case FourByte
    then show ?thesis
      using assms(1) no
      by (auto simp: process_spi_packet_def mailbox_packet_def addr_u32_def intro!: header_silent elim!: parse_bind_silent)
  qed
  then show ?thesis using assms(2) by blast
qed

section \<open>An example\<close>

text \<open>Modules that accept everything, with an inactive RW segment of two pages, and a processor with a small transmit buffer.\<close>

definition demo_segment :: "SegmentAndLocation \<Rightarrow> u32 \<Rightarrow> SegmentInfo" where
  "demo_segment sal page = \<lparr>seg_identifier = sal, seg_address = page * 2048, seg_size = 4096, seg_start_page = page, seg_page_count = 2\<rparr>"

definition demo_modules :: "(unit, unit, unit) Modules" where
  "demo_modules = \<lparr>env_flash = eager_flash,
     env_device = \<lparr>have_transaction = (\<lambda>_. True), device_read_buffer = ret [], is_busy_set = (\<lambda>_. True),
       is_write_enable_set = (\<lambda>_. True), end_transaction = (\<lambda>s. s), end_transaction_with_status = (\<lambda>_ _. ret ()),
       end_transaction_with_data = (\<lambda>_ _ _. ret ()), get_address_mode = (\<lambda>_. ThreeByte)\<rparr>,
     env_host = \<lparr>read_write_bytes = (\<lambda>_ _. ret ()), wait_read_write_done = Some, host_read_buffer = ret []\<rparr>,
     env_host_h1 = \<lparr>set_passthrough = (\<lambda>_. ret ()), set_wait_busy_clear_in_transactions = (\<lambda>_. ret ())\<rparr>,
     env_reset = \<lparr>reset_chip = panic, get_reset_source = throw FormatError\<rparr>,
     segments = \<lparr>active_ro = demo_segment RoA 0, active_rw = demo_segment RwA 2, inactive_ro = demo_segment RoB 4, inactive_rw = demo_segment RwB 6\<rparr>,
     manticore_request = (\<lambda>_ out h. ((Err (), out), h))\<rparr>"

definition demo_processor :: "(unit \<times> flash_op list, unit) SpiProcessor" where
  "demo_processor = \<lparr>manticore_handler = (), print_flash_headers = False, firmware = FirmwareController_new ((), []), spi_tx_buf = replicate 16 255\<rparr>"

text \<open>A page program to the mailbox with the request to prepare the update of the inactive RW segment.\<close>

definition demo_content :: "byte list" where
  "demo_content = concat (fw_Header_enc \<lparr>fw_content = UpdatePrepareRequest_T\<rparr>) @ concat (UpdatePrepareRequest_enc \<lparr>upq_segment_and_location = RwB\<rparr>)"

definition demo_packet :: "byte list" where
  "demo_packet = concat (flash_Header_enc (\<lambda>a. be_bytes 3 (unat a)) \<lparr>opcode = PageProgram, haddress = Some (0x80000 :: u24)\<rparr>)
     @ concat (pl_Header_enc \<lparr>pl_content = Firmware_PL, pl_content_len = 2, pl_checksum = 0x1b\<rparr>) @ demo_content"

lemma demo_content: "demo_content = [1, 4]"
  by (simp add: demo_content_def fw_Header_enc_def UpdatePrepareRequest_enc_def)

lemma demo_crc: "Crc8_get (Crc8_add (Crc8_add (Crc8_add Crc8_init [2]) [0, 2]) [1, 4]) = 0x1b"
  by code_simp

lemma demo_checksum: "compute_checksum \<lparr>pl_content = Firmware_PL, pl_content_len = 2, pl_checksum = 0x1b\<rparr> demo_content s = (Ok 0x1b, s)"
proof -
  have "be_bytes 2 2 = [0, 2]" by code_simp
  then show ?thesis
    using demo_crc by (simp add: compute_checksum_def demo_content)
qed

lemma demo_erase: "\<exists>c. erase_segment (logged eager_flash) (demo_segment RwB 6) (FirmwareController_new ((), [])) = Some (Ok (), c)
   \<and> flash_log c = [EraseOp 6, EraseOp 7]"
  by (simp add: erase_segment_def erase_segment_start_def FirmwareController_new_def demo_segment_def eager_flash_def logged_def
      erase_loop.simps erase_round_def erase_segment_continue_def on_fc_flash_def wait_operation_done_def check_operation_result_def
      peff_bind_def flash_log_def Let_def)

lemma length_demo: "length demo_content = 2"
  by (simp add: demo_content)

lemma demo_flash [simp]: "env_flash demo_modules = eager_flash"
  by (simp add: demo_modules_def)

lemma demo_firmware:
  assumes "firmware p = FirmwareController_new ((), [])"
  shows "\<exists>r p'. process_firmware (audited demo_modules) demo_content p = Some (r, p') \<and> spi_log p' = [EraseOp 6, EraseOp 7]"
proof -
  let ?E = "audited demo_modules"
  let ?reply = "send_update_prepare_response ?E RwB (word_of_nat get_max_write_chunk_length) Success_UP"
  obtain c where c: "erase_segment (logged eager_flash) (demo_segment RwB 6) (firmware p) = Some (Ok (), c)" "flash_log c = [EraseOp 6, EraseOp 7]"
    using demo_erase assms by auto
  obtain r p' where reply: "?reply (p\<lparr>firmware := c\<rparr>) = (r, p')" by force
  have sel: "select_segment ?E RwB = Some (demo_segment RwB 6)"
    by (simp add: select_segment_def demo_modules_def demo_segment_def)
  have "process_firmware_update_prepare ?E (concat (UpdatePrepareRequest_enc \<lparr>upq_segment_and_location = RwB\<rparr>)) p = Some (r, p')"
    using c(1) sel reply upq.dec_enc [of "\<lparr>upq_segment_and_location = RwB\<rparr>" "[]"]
    by (simp add: process_firmware_update_prepare_def parse_def peff_bind_def on_firmware_def)
  then have "process_firmware ?E demo_content p = Some (r, p')"
    by (simp add: process_firmware_def demo_content_def parse_def fw_hdr.dec_enc peff_bind_def)
  moreover have "spi_log p' = flash_log c"
    using silent_responses(3) [of demo_modules RwB "word_of_nat get_max_write_chunk_length" Success_UP] reply
    by (auto simp: silent_def moves_def)
  ultimately show ?thesis using c(2) by auto
qed

lemma demo_run:
  "\<exists>r p'. process_spi_packet (audited demo_modules) demo_packet demo_processor = Some (r, p') \<and> spi_log p' = [EraseOp 6, EraseOp 7]"
proof -
  let ?E = "audited demo_modules"
  let ?h = "\<lparr>pl_content = Firmware_PL, pl_content_len = 2, pl_checksum = 0x1b\<rparr>"
  obtain r p1 where p1: "process_firmware ?E demo_content demo_processor = Some (r, p1)" "spi_log p1 = [EraseOp 6, EraseOp 7]"
    using demo_firmware [of demo_processor] by (auto simp: demo_processor_def)
  have "process_spi_payload ?E (concat (pl_Header_enc ?h) @ demo_content) demo_processor = Some (r, p1)"
    using p1(1) by (simp add: process_spi_payload_def parse_def pl_hdr.dec_enc peff_bind_def demo_checksum content_slice_def length_demo)
  then have "when_write_enabled ?E (process_spi_payload ?E (concat (pl_Header_enc ?h) @ demo_content)) demo_processor
      = (case r of Ok _ \<Rightarrow> returning (clear_device_status ?E True True) p1 | Err e \<Rightarrow> Some (Err e, p1) | Panic \<Rightarrow> Some (Panic, p1))"
    by (simp add: when_write_enabled_def peff_bind_def demo_modules_def split: outcome.splits)
  moreover have "\<exists>r' p'. (case r of Ok _ \<Rightarrow> returning (clear_device_status ?E True True) p1 | Err e \<Rightarrow> Some (Err e, p1) | Panic \<Rightarrow> Some (Panic, p1))
      = Some (r', p') \<and> spi_log p' = spi_log p1"
    using silent_clear_status [of demo_modules True True]
    by (cases r; cases "clear_device_status ?E True True p1") (auto simp: silent_def moves_def)
  moreover have "process_spi_packet ?E demo_packet demo_processor
      = when_write_enabled ?E (process_spi_payload ?E (concat (pl_Header_enc ?h) @ demo_content)) demo_processor"
    by (simp add: process_spi_packet_def demo_packet_def parse_def addr_u24_def addr24.header_dec_enc flash_Header_valid_def peff_bind_def
        process_spi_header_def get_address_def is_mailbox_address_def SPI_MAILBOX_ADDRESS_def SPI_MAILBOX_SIZE_def MAX_READ_BUFFER_SIZE_def
        demo_modules_def)
  ultimately show ?thesis using p1(2) by metis
qed

lemma demo_fits: "segments_fit (segments demo_modules)"
  by (simp add: segments_fit_def segment_fits_def demo_modules_def demo_segment_def MAX_BUFFER_LENGTH_def)

theorem packets_stay_in_inactive_segments_witness:
  "\<exists>r p'. process_spi_packet (audited demo_modules) demo_packet demo_processor = Some (r, p')
    \<and> (\<exists>ops. spi_log p' = spi_log demo_processor @ ops \<and> (\<forall>op\<in>set ops. inactive_only (segments demo_modules) op))"
  using demo_run packets_stay_in_inactive_segments [OF demo_fits] by metis

theorem flash_only_through_mailbox_witness:
  "is_write_enable_set (env_device demo_modules) (fst (world demo_processor))
    \<and> mailbox_packet (get_address_mode (env_device demo_modules) (fst (world demo_processor))) demo_packet"
proof -
  have "spi_log demo_processor = []"
    by (simp add: demo_processor_def FirmwareController_new_def flash_log_def)
  then show ?thesis
    using demo_run flash_only_through_mailbox [of demo_modules demo_packet demo_processor] by fastforce
qed

section \<open>Packets that panic\<close>

text \<open>C30. Two malformed packets stop the application with a panic instead of an error: a mailbox message whose header announces
  more content than arrived, and a fast read command with nothing after its dummy byte.
\<close>

theorem malformed_packets_panic:
  fixes a b :: u24
  assumes mode: "get_address_mode (env_device E) (world p) = ThreeByte" and we: "is_write_enable_set (env_device E) (world p)"
    and short: "length rest < unat (pl_content_len h)" and mailbox: "is_mailbox_address (ucast a)"
  shows "process_spi_packet E (concat (flash_Header_enc (\<lambda>a. be_bytes 3 (unat a)) \<lparr>opcode = PageProgram, haddress = Some a\<rparr>)
        @ concat (pl_Header_enc h) @ rest) p = Some (Panic, p)
    \<and> process_spi_packet E (concat (flash_Header_enc (\<lambda>a. be_bytes 3 (unat a)) \<lparr>opcode = FastRead, haddress = Some b\<rparr>)) p
        = Some (Panic, p)"
proof
  have "process_spi_payload E (concat (pl_Header_enc h) @ rest) p = Some (Panic, p)"
    using short by (simp add: process_spi_payload_def parse_def pl_hdr.dec_enc peff_bind_def compute_checksum_def)
  then show "process_spi_packet E (concat (flash_Header_enc (\<lambda>a. be_bytes 3 (unat a)) \<lparr>opcode = PageProgram, haddress = Some a\<rparr>)
        @ concat (pl_Header_enc h) @ rest) p = Some (Panic, p)"
    using mode we mailbox
    by (simp add: process_spi_packet_def parse_def addr_u24_def addr24.header_dec_enc flash_Header_valid_def peff_bind_def
        process_spi_header_def get_address_def when_write_enabled_def)
  show "process_spi_packet E (concat (flash_Header_enc (\<lambda>a. be_bytes 3 (unat a)) \<lparr>opcode = FastRead, haddress = Some b\<rparr>)) p
        = Some (Panic, p)"
    using mode addr24.header_dec_enc [of "\<lparr>opcode = FastRead, haddress = Some b\<rparr>" "[]"]
    by (simp add: process_spi_packet_def parse_def addr_u24_def flash_Header_valid_def peff_bind_def process_spi_header_def)
qed

definition demo_state :: "(unit, unit) SpiProcessor" where
  "demo_state = \<lparr>manticore_handler = (), print_flash_headers = False, firmware = FirmwareController_new (), spi_tx_buf = []\<rparr>"

theorem malformed_packets_panic_witness:
  "process_spi_packet demo_modules (concat (flash_Header_enc (\<lambda>a. be_bytes 3 (unat a)) \<lparr>opcode = PageProgram, haddress = Some (0x80000 :: u24)\<rparr>)
      @ concat (pl_Header_enc \<lparr>pl_content = Firmware_PL, pl_content_len = 9, pl_checksum = 0\<rparr>) @ [1, 2]) demo_state = Some (Panic, demo_state)"
  using malformed_packets_panic [of demo_modules demo_state "[1, 2]" "\<lparr>pl_content = Firmware_PL, pl_content_len = 9, pl_checksum = 0\<rparr>" "0x80000"]
  by (simp add: demo_modules_def is_mailbox_address_def SPI_MAILBOX_ADDRESS_def SPI_MAILBOX_SIZE_def MAX_READ_BUFFER_SIZE_def)

end
