(* ===== verification/Spi_Host_Write.thy ===== *)
theory Spi_Host_Write
  imports Spi_Processor
begin

text \<open>
  How a write that does not fit into the buffer of the SPI host is split into transactions: each carries as much data as
  fits, the addresses follow on, and a write enable command goes before each.
\<close>

section \<open>What goes over the bus\<close>

text \<open>A host that keeps a tape of the transactions it is asked for, and accepts them all.\<close>

definition tape_host :: "byte list list SpiHost" where
  "tape_host = \<lparr>read_write_bytes = (\<lambda>buf n tape. (Ok (), tape @ [take n buf])), wait_read_write_done = Some, host_read_buffer = ret []\<rparr>"

definition tape_host_h1 :: "byte list list SpiHostH1" where
  "tape_host_h1 = \<lparr>set_passthrough = (\<lambda>_. ret ()), set_wait_busy_clear_in_transactions = (\<lambda>_. ret ())\<rparr>"

definition on_tape :: "(byte list list, 'h, 'm) Modules \<Rightarrow> bool" where
  "on_tape E \<longleftrightarrow> env_host E = tape_host \<and> env_host_h1 E = tape_host_h1"

abbreviation taped :: "byte list list \<Rightarrow> (byte list list, 'h) SpiProcessor \<Rightarrow> (byte list list, 'h) SpiProcessor" where
  "taped ts p \<equiv> set_world (world p @ ts) p"

text \<open>The data cut into pieces of the given size, each with its address.\<close>

function chunks :: "nat \<Rightarrow> nat \<Rightarrow> byte list \<Rightarrow> (nat \<times> byte list) list" where
  "chunks room a data = (a, take room data) # (if length data \<le> room \<or> room = 0 then [] else chunks room (a + room) (drop room data))"
  by auto
termination by (relation "measure (\<lambda>(room, a, data). length data)") auto

declare chunks.simps [simp del]

lemma chunks_data: "0 < room \<Longrightarrow> concat (map snd (chunks room a data)) = data"
  by (induction room a data rule: chunks.induct) (subst chunks.simps, auto)

lemma chunks_small: "\<lbrakk>0 < room; (b, d) \<in> set (chunks room a data)\<rbrakk> \<Longrightarrow> length d \<le> room \<and> a \<le> b \<and> b + length d \<le> a + length data"
proof (induction room a data rule: chunks.induct)
  case (1 room a data)
  from "1.prems"(2) consider "b = a" "d = take room data"
    | "\<not> length data \<le> room" "(b, d) \<in> set (chunks room (a + room) (drop room data))"
    by (subst (asm) chunks.simps) (auto split: if_splits)
  then show ?case
  proof cases
    case 2
    then show ?thesis using "1.IH" "1.prems"(1) by fastforce
  qed auto
qed

text \<open>The transactions of a write: before each piece a write enable command.\<close>

definition write_tape :: "OpCode \<Rightarrow> nat \<Rightarrow> nat \<Rightarrow> byte list \<Rightarrow> byte list list" where
  "write_tape op k a data =
     concat (map (\<lambda>(b, d). [[OpCode_to_wire_value WriteEnable], OpCode_to_wire_value op # be_bytes k b @ d])
       (chunks (MAX_READ_BUFFER_LENGTH - 1 - k) a data))"

text \<open>The result of the loop: the address after the last piece must exist too.\<close>

definition send_result :: "nat \<Rightarrow> nat \<Rightarrow> byte list \<Rightarrow> ('m SpiProcessorError, unit) outcome" where
  "send_result lim a data = (if a + length data = lim \<and> lim < 2 ^ 32 then Err (SPE_FromWire OutOfRange) else Ok ())"

section \<open>Address types\<close>

text \<open>What the loop relies on: addresses of \<open>k\<close> bytes, big-endian, for the numbers below \<open>lim\<close>.\<close>

locale host_address =
  fixes A :: "'a AddrType" and k lim :: nat
  assumes header_to_wire: "flash_Header_valid h \<Longrightarrow> flash_Header_to_wire (at_write A) Cursor_write_bytes h
      = to_io (write_seq Cursor_write_bytes (flash_Header_enc (\<lambda>a. be_bytes k (unat (at_into A a))) h))"
    and k_small: "k \<le> 4"
    and lim_max: "lim \<le> 2 ^ 32"
    and in_range: "unat v < lim \<Longrightarrow> \<exists>a. at_try_from A v = Some a \<and> at_into A a = v"
    and out_of_range: "lim \<le> unat v \<Longrightarrow> at_try_from A v = None"
    and into_less: "unat (at_into A a) < lim"
begin

abbreviation enc :: "'a flash_Header \<Rightarrow> byte list list" where
  "enc \<equiv> flash_Header_enc (\<lambda>a. be_bytes k (unat (at_into A a)))"

lemma enc_length: "\<not> has_dummy_byte (opcode h) \<Longrightarrow> length (concat (enc h)) \<le> 5"
  using k_small by (simp add: flash_Header_enc_def)

lemma host_tx_spec:
  fixes data :: "byte list"
  assumes "flash_Header_valid h" and dummy: "\<not> has_dummy_byte (opcode h)"
  defines "n \<equiv> min (MAX_READ_BUFFER_LENGTH - length (concat (enc h))) (length data)"
  shows "\<exists>c. host_tx A h data (Cursor_new (replicate MAX_READ_BUFFER_LENGTH 0xff)) = (Ok n, c)
    \<and> take (Cursor_consumed_len c) (cur_buf c) = concat (enc h) @ take n data"
proof -
  let ?c0 = "Cursor_new (replicate MAX_READ_BUFFER_LENGTH 0xff)"
  have len: "length (concat (enc h)) \<le> 5" by (rule enc_length [OF dummy])
  obtain c1 where c1: "write_seq Cursor_write_bytes (enc h) ?c0 = (Ok (), c1)" "Cursor_inv c1"
      "Cursor_consumed_bytes c1 = concat (enc h)" "length (cur_buf c1) - cursor c1 = MAX_READ_BUFFER_LENGTH - length (concat (enc h))"
    using cursor_w.write_seq_fits [of ?c0 "enc h"] len by (auto simp: MAX_READ_BUFFER_LENGTH_def)
  have hdr: "flash_Header_to_wire (at_write A) Cursor_write_bytes h ?c0 = (Ok (), c1)"
    using header_to_wire [OF assms(1)] c1(1) by (simp add: to_io_def)
  have used: "Cursor_consumed_len c1 = length (concat (enc h))"
    using c1 consumed_len_bytes by simp
  obtain c2 where c2: "Cursor_write_bytes (take n data) c1 = (Ok (), c2)" "Cursor_inv c2"
      "Cursor_consumed_bytes c2 = concat (enc h) @ take n data"
    using cursor_w.write_fits [of c1 "take n data"] c1 by (auto simp: n_def)
  have "host_tx A h data ?c0 = (Ok n, c2)"
    using hdr dummy c2(1) used by (simp add: host_tx_def Let_def n_def to_io_def)
  then show ?thesis
    using c2(3) by (auto simp: Cursor_consumed_bytes_def Cursor_consumed_len_def)
qed

lemma host_transaction_tape:
  fixes data :: "byte list"
  assumes "on_tape E" and "flash_Header_valid h" and "\<not> has_dummy_byte (opcode h)"
  defines "n \<equiv> min (MAX_READ_BUFFER_LENGTH - length (concat (enc h))) (length data)"
  shows "host_transaction E A h data p = Some (Ok n, taped [concat (enc h) @ take n data] p)"
proof -
  obtain c where "host_tx A h data (Cursor_new (replicate MAX_READ_BUFFER_LENGTH 0xff)) = (Ok n, c)"
      "take (Cursor_consumed_len c) (cur_buf c) = concat (enc h) @ take n data"
    using host_tx_spec [OF assms(2,3)] unfolding n_def by blast
  then show ?thesis
    using assms(1)
    by (simp add: host_transaction_def peff_bind_def on_world_def on_tape_def tape_host_def tape_host_h1_def wait_host_def)
qed

lemma next_address:
  assumes "unat (at_into A a) + n \<le> lim" and "n \<le> 128"
  shows "unat (at_into A a) + n = lim \<and> lim < 2 ^ 32 \<and> at_try_from A (at_into A a + word_of_nat n) = None
    \<or> (\<exists>b. at_try_from A (at_into A a + word_of_nat n) = Some b \<and> (unat (at_into A a) + n < lim \<longrightarrow> unat (at_into A b) = unat (at_into A a) + n)
        \<and> \<not> (unat (at_into A a) + n = lim \<and> lim < 2 ^ 32))"
proof -
  let ?s = "unat (at_into A a) + n"
  have v: "unat (at_into A a + word_of_nat n) = ?s mod 2 ^ 32"
    using assms(2) by (simp add: unat_word_ariths unat_of_nat mod_add_right_eq)
  consider "?s < lim" | "?s = lim" "lim < 2 ^ 32" | "?s = lim" "lim = 2 ^ 32"
    using assms(1) lim_max by linarith
  then show ?thesis
  proof cases
    case 1
    then have "unat (at_into A a + word_of_nat n) = ?s"
      using v lim_max by simp
    then show ?thesis
      using in_range [of "at_into A a + word_of_nat n"] 1 by auto
  next
    case 2
    then show ?thesis using v out_of_range [of "at_into A a + word_of_nat n"] by simp
  next
    case 3
    then have "unat (at_into A a + word_of_nat n) < lim"
      using v by simp
    then show ?thesis using in_range 3 by fastforce
  qed
qed

lemma send_tape:
  assumes tape: "on_tape E" and pre: "\<And>p. pre p = Some (Ok (), taped [[OpCode_to_wire_value WriteEnable]] p)"
    and op: "has_address op" "\<not> has_dummy_byte op"
    and range: "unat (at_into A a) + length data \<le> lim"
  shows "spi_host_send E A pre \<lparr>opcode = op, haddress = Some a\<rparr> data p
    = Some (send_result lim (unat (at_into A a)) data, taped (write_tape op k (unat (at_into A a)) data) p)"
  using range
proof (induction "length data" arbitrary: a data p rule: less_induct)
  case less
  let ?h = "\<lparr>opcode = op, haddress = Some a\<rparr>"
  let ?room = "MAX_READ_BUFFER_LENGTH - 1 - k"
  let ?a = "unat (at_into A a)"
  define n where "n = min ?room (length data)"
  let ?piece = "OpCode_to_wire_value op # be_bytes k ?a @ take n data"
  let ?sent = "[[OpCode_to_wire_value WriteEnable], ?piece]"
  have enc: "concat (enc ?h) = OpCode_to_wire_value op # be_bytes k ?a"
    using op by (simp add: flash_Header_enc_def)
  have room: "0 < ?room" "?room \<le> 127"
    using k_small by (simp_all add: MAX_READ_BUFFER_LENGTH_def)
  have trans: "host_transaction E A ?h data q = Some (Ok n, taped [?piece] q)" for q
    using host_transaction_tape [OF tape, of ?h data q] op enc by (simp add: flash_Header_valid_def n_def)
  have sum: "?a + n \<le> lim" "n \<le> 128"
    using less.prems room by (auto simp: n_def)
  have round: "host_round E A pre ?h data p = (case at_try_from A (at_into A a + word_of_nat n) of
      None \<Rightarrow> Some (Err (SPE_FromWire OutOfRange), taped ?sent p)
    | Some b \<Rightarrow> Some (Ok (\<lparr>opcode = op, haddress = Some b\<rparr>, drop n data), taped ?sent p))"
    using pre trans by (simp add: host_round_def next_header_def peff_bind_def split: option.splits)
  show ?case
  proof (cases "length data \<le> ?room")
    case True
    then have n: "n = length data" by (simp add: n_def)
    have "write_tape op k ?a data = ?sent"
      using True n by (simp add: write_tape_def chunks.simps [of _ ?a])
    then show ?thesis
      using round next_address [OF sum] n
      by (subst spi_host_send.simps) (auto simp: send_result_def)
  next
    case False
    then have n: "n = ?room" by (simp add: n_def)
    have lt: "?a + n < lim"
      using less.prems False n by simp
    then obtain b where b: "at_try_from A (at_into A a + word_of_nat n) = Some b" "unat (at_into A b) = ?a + n"
      using next_address [OF sum] by auto
    have "spi_host_send E A pre ?h data p = spi_host_send E A pre \<lparr>opcode = op, haddress = Some b\<rparr> (drop n data) (taped ?sent p)"
      using round b(1) False n by (subst spi_host_send.simps) simp
    also have "\<dots> = Some (send_result lim (?a + n) (drop n data), taped (write_tape op k (?a + n) (drop n data)) (taped ?sent p))"
      using less.hyps [of "drop n data" b "taped ?sent p"] less.prems b(2) False n room by simp
    also have "send_result lim (?a + n) (drop n data) = (send_result lim ?a data :: ('m SpiProcessorError, unit) outcome)"
      using False n by (simp add: send_result_def)
    also have "taped (write_tape op k (?a + n) (drop n data)) (taped ?sent p) = taped (write_tape op k ?a data) p"
      using False n room by (simp add: write_tape_def chunks.simps [of _ ?a])
    finally show ?thesis .
  qed
qed

end

lemma unat_into_u24: "unat (at_into addr_u24 a) = unat a"
proof -
  have "unat a < 2 ^ 32"
    using unsigned_less [of a, where ?'a = nat] by simp
  then show ?thesis
    by (simp add: addr_u24_def unsigned_ucast_eq take_bit_nat_eq_self)
qed

interpretation host24: host_address addr_u24 3 "2 ^ 24"
proof
  show "flash_Header_valid h \<Longrightarrow> flash_Header_to_wire (at_write addr_u24) Cursor_write_bytes h
      = to_io (write_seq Cursor_write_bytes (flash_Header_enc (\<lambda>a. be_bytes 3 (unat (at_into addr_u24 a))) h))" for h
    using flash_Header24_to_wire_seq [of h Cursor_write_bytes] by (simp add: unat_into_u24) (simp add: addr_u24_def)
  show "unat v < 2 ^ 24 \<Longrightarrow> \<exists>a. at_try_from addr_u24 v = Some a \<and> at_into addr_u24 a = v" for v
    using u32_ucast_ucast [of v] by (auto simp: addr_u24_def u24_try_from_def word_le_nat_alt)
  show "2 ^ 24 \<le> unat v \<Longrightarrow> at_try_from addr_u24 v = None" for v
    by (simp add: addr_u24_def u24_try_from_def word_le_nat_alt)
  show "unat (at_into addr_u24 a) < 2 ^ 24" for a
    using u24_le [of a] by (simp add: addr_u24_def word_le_nat_alt)
qed simp_all

interpretation host32: host_address addr_u32 4 "2 ^ 32"
proof
  show "flash_Header_valid h \<Longrightarrow> flash_Header_to_wire (at_write addr_u32) Cursor_write_bytes h
      = to_io (write_seq Cursor_write_bytes (flash_Header_enc (\<lambda>a. be_bytes 4 (unat (at_into addr_u32 a))) h))" for h
    using flash_Header32_to_wire_seq [of h Cursor_write_bytes] by (simp add: addr_u32_def)
  show "unat (at_into addr_u32 a) < 2 ^ 32" for a
    using unsigned_less [of a, where ?'a = nat] by (simp add: addr_u32_def)
  show "2 ^ 32 \<le> unat v \<Longrightarrow> at_try_from addr_u32 v = None" for v
    using unsigned_less [of v, where ?'a = nat] by simp
qed (simp_all add: addr_u32_def u32_try_from_def)

lemma write_enable_tape:
  assumes "on_tape E"
  shows "spi_host_write_enable E p = Some (Ok (), taped [[OpCode_to_wire_value WriteEnable]] p)"
proof -
  let ?h = "\<lparr>opcode = WriteEnable, haddress = None\<rparr> :: u32 flash_Header"
  have "host_transaction E addr_u32 ?h [] p = Some (Ok 0, taped [[OpCode_to_wire_value WriteEnable]] p)"
    using host32.host_transaction_tape [OF assms, of ?h "[]"] by (simp add: flash_Header_valid_def flash_Header_enc_def)
  then have "host_round E addr_u32 (returning (ret ())) ?h [] p = Some (Ok (?h, []), taped [[OpCode_to_wire_value WriteEnable]] p)"
    by (simp add: host_round_def peff_bind_def next_header_def)
  then show ?thesis
    unfolding spi_host_write_enable_def by (subst spi_host_send.simps) simp
qed

section \<open>Properties\<close>

text \<open>C9. A page program or erase passed on to the flash chip returns and reaches the bus as transactions of at most 128 bytes: the pieces
  of the data in order, each at its own address and each after a write enable command. In three-byte mode a write that
  ends exactly at the top of the address space is sent completely and then reported as an error.
\<close>

theorem host_write_splits:
  assumes "on_tape E" and "has_address op" and "\<not> has_dummy_byte op"
    and "unat a24 + length data24 \<le> 2 ^ 24" and "unat a32 + length data32 \<le> 2 ^ 32"
  shows "spi_host_write E addr_u24 \<lparr>opcode = op, haddress = Some a24\<rparr> data24 p
      = Some (if unat a24 + length data24 = 2 ^ 24 then Err (SPE_FromWire OutOfRange) else Ok (),
          taped (write_tape op 3 (unat a24) data24) p)
    \<and> spi_host_write E addr_u32 \<lparr>opcode = op, haddress = Some a32\<rparr> data32 p
      = Some (Ok (), taped (write_tape op 4 (unat a32) data32) p)
    \<and> concat (map snd (chunks 124 (unat a24) data24)) = data24
    \<and> concat (map snd (chunks 123 (unat a32) data32)) = data32"
proof -
  have into: "unat (at_into addr_u24 a24) = unat a24" "unat (at_into addr_u32 a32) = unat a32"
    by (simp_all add: unat_into_u24 addr_u32_def)
  show ?thesis
    using host24.send_tape [OF assms(1) write_enable_tape [OF assms(1)] assms(2,3), of a24 data24 p]
      host32.send_tape [OF assms(1) write_enable_tape [OF assms(1)] assms(2,3), of a32 data32 p] assms(4,5)
    by (simp add: spi_host_write_def into send_result_def chunks_data)
qed

definition tape_modules :: "(byte list list, unit, unit) Modules" where
  "tape_modules = \<lparr>env_flash = \<lparr>u_read = (\<lambda>_ buf _ s. (Some buf, s)), u_write = (\<lambda>_ _ _ s. (True, s)), u_erase = (\<lambda>_ s. (True, s)),
       u_wait = Some, u_result = (\<lambda>_. 0), u_clear = id\<rparr>,
     env_device = \<lparr>have_transaction = (\<lambda>_. True), device_read_buffer = ret [], is_busy_set = (\<lambda>_. True),
       is_write_enable_set = (\<lambda>_. True), end_transaction = (\<lambda>s. s), end_transaction_with_status = (\<lambda>_ _. ret ()),
       end_transaction_with_data = (\<lambda>_ _ _. ret ()), get_address_mode = (\<lambda>_. ThreeByte)\<rparr>,
     env_host = tape_host, env_host_h1 = tape_host_h1,
     env_reset = \<lparr>reset_chip = panic, get_reset_source = throw FormatError\<rparr>,
     segments = UNKNOWN_RUNTIME_SEGMENT_INFO, manticore_request = (\<lambda>_ out h. ((Err (), out), h))\<rparr>"

definition tape_processor :: "(byte list list, unit) SpiProcessor" where
  "tape_processor = \<lparr>manticore_handler = (), print_flash_headers = False, firmware = FirmwareController_new [], spi_tx_buf = []\<rparr>"

theorem host_write_splits_witness:
  "spi_host_write tape_modules addr_u24 \<lparr>opcode = PageProgram, haddress = Some 0xfffffe\<rparr> [7, 9] tape_processor
     = Some (Err (SPE_FromWire OutOfRange), taped [[0x06], [0x02, 0xff, 0xff, 0xfe, 7, 9]] tape_processor)
   \<and> spi_host_write tape_modules addr_u32 \<lparr>opcode = PageProgram, haddress = Some 0\<rparr> (replicate 200 1) tape_processor
     = Some (Ok (), taped (write_tape PageProgram 4 0 (replicate 200 1)) tape_processor)"
proof -
  have tape: "on_tape tape_modules"
    by (simp add: on_tape_def tape_modules_def)
  have "be_bytes 3 16777214 = [0xff, 0xff, 0xfe]"
    using be_bytes_be_val [of "[0xff, 0xff, 0xfe]" 3] by (simp add: be_val_def)
  then have "write_tape PageProgram 3 16777214 [7, 9] = [[0x06], [0x02, 0xff, 0xff, 0xfe, 7, 9]]"
    by (simp add: write_tape_def chunks.simps [of _ _ "[7, 9]"] MAX_READ_BUFFER_LENGTH_def)
  then show ?thesis
    using host_write_splits [OF tape, of PageProgram "0xfffffe" "[7, 9]" 0 "replicate 200 1" tape_processor] by simp
qed

end
