(* ===== verification/Sfdp.thy ===== *)
theory Sfdp
  imports Flash_Protocol
begin

text \<open>
  The SFDP table (JEDEC JESD216A) of \<^verbatim>\<open>userspace/otpilot/src/sfdp.rs\<close>: what the application tells a SPI master about
  the flash chip it stands for, with a vendor table that gives the place of the mailbox.
\<close>

section \<open>The table\<close>

datatype SfdpTableError = TargetLenTooSmall

text \<open>Byte \<open>n\<close> of a 32-bit word, \<^verbatim>\<open>((w >> 8 * n) & 0xff) as u8\<close>.\<close>

definition byte_of :: "nat \<Rightarrow> u32 \<Rightarrow> byte" where
  "byte_of n w = ucast (drop_bit (8 * n) w AND 0xff)"

definition sfdp_headers :: "byte list" where
  "sfdp_headers =
    [0x53, 0x46, 0x44, 0x50,
     0x05, 0x01, 0x01, 0xff,
     0x00, 0x05, 0x01, 0x10,
     0x18, 0x00, 0x00, 0xFF,
     0x26, 0x00, 0x01, 0x04,
     0x58, 0x00, 0x00, 0x09]"

definition basic_1 :: "AddressMode \<Rightarrow> bool \<Rightarrow> byte list" where
  "basic_1 startup_address_mode support_address_mode_switch =
    [push_bit 0 0x1 OR push_bit 2 0x1 OR push_bit 3 0x0 OR push_bit 4 0x1 OR push_bit 5 0x0,
     0x20,
     push_bit 0 0x0
       OR push_bit 1 (case startup_address_mode of ThreeByte \<Rightarrow> if support_address_mode_switch then 1 else 0 | FourByte \<Rightarrow> 2)
       OR push_bit 3 0x0 OR push_bit 4 0x0 OR push_bit 5 0x0 OR push_bit 6 0x0 OR push_bit 7 0x0,
     0x0]"

definition basic_2 :: "u32 \<Rightarrow> byte list" where
  "basic_2 image_size_bits =
    [byte_of 0 image_size_bits, byte_of 1 image_size_bits, byte_of 2 image_size_bits,
     ucast (drop_bit 24 image_size_bits AND 0x7f) OR push_bit 7 0]"

definition basic_3_to_9 :: "byte list" where
  "basic_3_to_9 =
    [0x0, 0x0, 0x0, 0x0,
     0x8, 0x3b, 0x0, 0x0,
     0xee, 0xff, 0xff, 0xff,
     0xff, 0xff, 0x00, 0x00,
     0xff, 0xff, 0x00, 0x00,
     12, 0x20, 0, 0,
     0, 0, 0, 0]"

definition basic_10_11 :: "byte list" where
  "basic_10_11 =
    [push_bit 0 1 OR push_bit 4 0, push_bit 1 2 OR push_bit 3 0, 0x0, 0x0,
     push_bit 0 1 OR push_bit 4 8,
     push_bit 0 0xf OR push_bit 5 1 OR push_bit 6 3,
     push_bit 0 3 OR push_bit 2 1 OR push_bit 3 0xf OR push_bit 7 1,
     push_bit 0 1 OR push_bit 5 3 OR push_bit 7 1]"

definition basic_12_14 :: "byte list" where
  "basic_12_14 =
    [0x0, push_bit 0 1, 0x0, push_bit 7 1,
     0x00, 0x00, 0x00, 0x00,
     push_bit 0 3 OR push_bit 2 1, 0x0, 0x0, push_bit 7 1]"

definition basic_15 :: "byte list" where
  "basic_15 = [0x0, 0x0, 0x0, 0xff]"

definition basic_16 :: "AddressMode \<Rightarrow> bool \<Rightarrow> byte list" where
  "basic_16 startup_address_mode support_address_mode_switch =
    [push_bit 0 0x2 OR push_bit 7 1,
     push_bit 0 0x0 OR (if support_address_mode_switch then push_bit 6 1 else 0),
     (if startup_address_mode = ThreeByte then push_bit 3 1 else 0) OR (if startup_address_mode = ThreeByte then push_bit 5 1 else 0),
     (if startup_address_mode = FourByte then push_bit 6 1 else if support_address_mode_switch then 1 else 0)]"

definition google_table :: "u32 \<Rightarrow> u32 \<Rightarrow> u32 \<Rightarrow> byte list" where
  "google_table mailbox_offset mailbox_size google_capabilities =
    [0x47, 0x4f, 0x4f, 0x47,
     byte_of 0 mailbox_offset, byte_of 1 mailbox_offset, byte_of 2 mailbox_offset, byte_of 3 mailbox_offset,
     byte_of 0 mailbox_size, byte_of 1 mailbox_size, byte_of 2 mailbox_size, byte_of 3 mailbox_size,
     byte_of 0 google_capabilities, byte_of 1 google_capabilities, byte_of 2 google_capabilities, byte_of 3 google_capabilities]"

definition sfdp_table :: "u32 \<Rightarrow> AddressMode \<Rightarrow> bool \<Rightarrow> u32 \<Rightarrow> u32 \<Rightarrow> u32 \<Rightarrow> byte list" where
  "sfdp_table bits mode switch off sz caps =
     sfdp_headers @ basic_1 mode switch @ basic_2 bits @ basic_3_to_9 @ basic_10_11 @ basic_12_14 @ basic_15 @ basic_16 mode switch
     @ google_table off sz caps"

text \<open>The loops copy the table and fill the rest of the buffer.\<close>

primrec copy_bytes :: "nat \<Rightarrow> byte list \<Rightarrow> byte list \<Rightarrow> byte list" where
  "copy_bytes 0 src data = data"
| "copy_bytes (Suc n) src data = (copy_bytes n src data)[n := src ! n]"

primrec fill_bytes :: "nat \<Rightarrow> nat \<Rightarrow> byte list \<Rightarrow> byte list" where
  "fill_bytes start 0 data = data"
| "fill_bytes start (Suc n) data = (fill_bytes start n data)[start + n := NOT 0]"

definition get_table :: "byte list \<Rightarrow> u32 \<Rightarrow> AddressMode \<Rightarrow> bool \<Rightarrow> u32 \<Rightarrow> u32 \<Rightarrow> u32 \<Rightarrow> (SfdpTableError, unit) outcome \<times> byte list" where
  "get_table data image_size_bits startup_address_mode support_address_mode_switch mailbox_offset mailbox_size google_capabilities =
     (let sfdp = sfdp_table image_size_bits startup_address_mode support_address_mode_switch mailbox_offset mailbox_size google_capabilities in
      if length data < length sfdp then (Err TargetLenTooSmall, data)
      else (Ok (), fill_bytes (length sfdp) (length data - length sfdp) (copy_bytes (length sfdp) sfdp data)))"

section \<open>Reading the table\<close>

text \<open>
  The master's view (JESD216A): parameter header \<open>n\<close> is the double word \<open>2 + 2 * n\<close>; its fourth byte is the length of
  the parameter table in double words, and the next three bytes point to it.
\<close>

definition dword :: "byte list \<Rightarrow> nat \<Rightarrow> nat" where
  "dword t i = le_val (take 4 (drop (4 * i) t))"

definition parameter_table :: "byte list \<Rightarrow> nat \<Rightarrow> byte list" where
  "parameter_table t n =
     (let h = drop (8 + 8 * n) t in take (4 * unat (h ! 3)) (drop (le_val (take 3 (drop 4 h))) t))"

lemma length_sfdp_table [simp]: "length (sfdp_table bits mode switch off sz caps) = 104"
  by (simp add: sfdp_table_def sfdp_headers_def basic_1_def basic_2_def basic_3_to_9_def basic_10_11_def basic_12_14_def
      basic_15_def basic_16_def google_table_def)

lemma copy_bytes_spec: "\<lbrakk>n \<le> length src; n \<le> length data\<rbrakk> \<Longrightarrow> copy_bytes n src data = take n src @ drop n data"
proof (induction n)
  case (Suc n)
  then show ?case
    by (simp add: list_update_append take_Suc_conv_app_nth Cons_nth_drop_Suc [symmetric])
qed simp

lemma fill_bytes_spec: "start + n \<le> length data \<Longrightarrow> fill_bytes start n data = take start data @ replicate n (NOT 0) @ drop (start + n) data"
proof (induction n)
  case (Suc n)
  then show ?case
    by (simp add: list_update_append Cons_nth_drop_Suc [symmetric] replicate_append_same [symmetric])
qed simp

lemma byte_of_nat: "byte_of n w = word_of_nat (unat w div 256 ^ n)"
proof -
  have mask: "(0xff :: u32) = mask 8"
    by (simp add: mask_eq_exp_minus_1)
  have "byte_of n w = ucast (drop_bit (8 * n) w)"
    unfolding byte_of_def mask by (rule bit_word_eqI) (auto simp: bit_ucast_iff bit_and_iff bit_mask_iff)
  moreover have "unat w mod 2 ^ 32 = unat w"
    using unsigned_less [of w, where ?'a = nat] by simp
  ultimately have "unat (byte_of n w) = unat w div 256 ^ n mod 256"
    by (simp add: unsigned_ucast_eq unsigned_drop_bit_eq take_bit_nat_def drop_bit_nat_def power_mult)
  then show ?thesis
    by (metis unat_byte_of_nat word_unat_eq_iff)
qed


lemma byte_of_le: "[byte_of 0 w, byte_of 1 w, byte_of 2 w, byte_of 3 w] = le_bytes 4 (unat w)"
proof -
  have "le_bytes (Suc k) n = word_of_nat n # le_bytes k (n div 256)" "le_bytes 0 n = []" for k n
    by (simp_all add: le_bytes_def)
  then have "le_bytes (Suc (Suc (Suc (Suc 0)))) (unat w) = [byte_of 0 w, byte_of 1 w, byte_of 2 w, byte_of 3 w]"
    by (simp add: byte_of_nat div_mult2_eq [symmetric])
  moreover have "4 = Suc (Suc (Suc (Suc 0)))" by simp
  ultimately show ?thesis by metis
qed

lemma google_table_le:
  "google_table off sz caps = [0x47, 0x4f, 0x4f, 0x47] @ le_bytes 4 (unat off) @ le_bytes 4 (unat sz) @ le_bytes 4 (unat caps)"
  by (simp add: google_table_def byte_of_le [symmetric])

lemma dword_skip: "length xs = 4 * n \<Longrightarrow> dword (xs @ ys) (n + i) = dword ys i"
  by (simp add: dword_def add_mult_distrib2)

lemma unat_le: "le_val (le_bytes 4 (unat (w :: u32))) = unat w"
  using unsigned_less [of w, where ?'a = nat] by simp

lemma dword_google:
  "dword (google_table off sz caps) 1 = unat off" "dword (google_table off sz caps) 2 = unat sz" "dword (google_table off sz caps) 3 = unat caps"
  by (simp_all add: google_table_le dword_def unat_le del: le_val_le_bytes)

lemma parameter_google:
  "parameter_table (sfdp_table bits mode switch off sz caps) 1 = google_table off sz caps"
  by (simp add: parameter_table_def Let_def sfdp_table_def sfdp_headers_def basic_1_def basic_2_def basic_3_to_9_def
      basic_10_11_def basic_12_14_def basic_15_def basic_16_def le_val_def be_val_def google_table_def)


text \<open>The density field holds the low 31 bits of the size.\<close>

lemma basic_2_le: "basic_2 bits = le_bytes 4 (unat bits mod 2 ^ 31)"
proof -
  let ?m = "take_bit 31 bits"
  have masks: "(0xff :: u32) = mask 8" "(0x7f :: u32) = mask 7"
    by (simp_all add: mask_eq_exp_minus_1)
  have "byte_of 0 bits = byte_of 0 ?m" "byte_of 1 bits = byte_of 1 ?m" "byte_of 2 bits = byte_of 2 ?m"
    unfolding byte_of_def masks
    by (rule bit_word_eqI; auto simp: bit_ucast_iff bit_and_iff bit_mask_iff bit_take_bit_iff bit_drop_bit_eq)+
  moreover have "ucast (drop_bit 24 bits AND 0x7f) OR push_bit 7 0 = byte_of 3 ?m"
    unfolding byte_of_def masks
    by (rule bit_word_eqI) (auto simp: bit_ucast_iff bit_and_iff bit_mask_iff bit_take_bit_iff bit_drop_bit_eq)
  moreover have "unat ?m = unat bits mod 2 ^ 31"
    by (simp add: unsigned_take_bit_eq take_bit_nat_def)
  ultimately show ?thesis
    using byte_of_le [of ?m] by (simp add: basic_2_def)
qed

lemma parameter_basic:
  "parameter_table (sfdp_table bits mode switch off sz caps) 0
    = basic_1 mode switch @ basic_2 bits @ basic_3_to_9 @ basic_10_11 @ basic_12_14 @ basic_15 @ basic_16 mode switch"
  by (simp add: parameter_table_def Let_def sfdp_table_def sfdp_headers_def basic_1_def basic_2_def basic_3_to_9_def
      basic_10_11_def basic_12_14_def basic_15_def basic_16_def le_val_def be_val_def google_table_def)

lemma density: "dword (parameter_table (sfdp_table bits mode switch off sz caps) 0) 1 = unat bits mod 2 ^ 31"
proof -
  have "length (basic_1 mode switch) = 4 * 1"
    by (simp add: basic_1_def)
  then show ?thesis
    using dword_skip [of "basic_1 mode switch" 1 _ 0] by (simp add: parameter_basic dword_def basic_2_le)
qed

lemma address_bytes:
  "dword (parameter_table (sfdp_table bits mode switch off sz caps) 0) 0 div 2 ^ 17 mod 4
    = (case mode of ThreeByte \<Rightarrow> if switch then 1 else 0 | FourByte \<Rightarrow> 2)"
proof -
  have "dword (parameter_table (sfdp_table bits mode switch off sz caps) 0) 0 = le_val (basic_1 mode switch)"
    by (simp add: parameter_basic dword_def basic_1_def)
  also have "\<dots> div 2 ^ 17 mod 4 = (case mode of ThreeByte \<Rightarrow> if switch then 1 else 0 | FourByte \<Rightarrow> 2)"
    by (cases mode) (simp_all add: basic_1_def le_val_def be_val_def)
  finally show ?thesis .
qed

section \<open>Properties\<close>

text \<open>
  How the comment of the source and the standard read the second double word: below two gibibits the density is one bit more than
  the field, above it is a power of two.
\<close>

definition read_density :: "byte list \<Rightarrow> nat" where
  "read_density basic = (let n = dword basic 1 in if n < 2 ^ 31 then n + 1 else 2 ^ (n mod 2 ^ 31))"

text \<open>C31. The table is refused exactly when the buffer is shorter than its 104 bytes and otherwise fills the whole buffer. A
  master that follows the pointers of its headers finds the basic table of 16 double words with the address mode, and the vendor
  table with the mailbox offset, the mailbox size and the capabilities as they were given. The density that it reads is one bit
  more than the low 31 bits of the given size, because the field holds the size itself: the comment beside it wants one less, and
  a size of two gibibits or more loses its highest bit.
\<close>

theorem get_table_readable:
  "let t = sfdp_table bits mode switch off sz caps in
   get_table data bits mode switch off sz caps
     = (if length data < 104 then (Err TargetLenTooSmall, data) else (Ok (), t @ replicate (length data - 104) (NOT 0)))
   \<and> length (parameter_table t 0) = 4 * 16
   \<and> read_density (parameter_table t 0) = unat bits mod 2 ^ 31 + 1
   \<and> dword (parameter_table t 0) 0 div 2 ^ 17 mod 4 = (case mode of ThreeByte \<Rightarrow> if switch then 1 else 0 | FourByte \<Rightarrow> 2)
   \<and> take 4 (parameter_table t 1) = [0x47, 0x4f, 0x4f, 0x47]
   \<and> dword (parameter_table t 1) 1 = unat off \<and> dword (parameter_table t 1) 2 = unat sz \<and> dword (parameter_table t 1) 3 = unat caps"
proof -
  let ?t = "sfdp_table bits mode switch off sz caps"
  have "get_table data bits mode switch off sz caps
      = (if length data < 104 then (Err TargetLenTooSmall, data) else (Ok (), ?t @ replicate (length data - 104) (NOT 0)))"
    by (simp add: get_table_def Let_def copy_bytes_spec fill_bytes_spec)
  moreover have "length (parameter_table ?t 0) = 4 * 16"
    by (simp add: parameter_basic basic_1_def basic_2_def basic_3_to_9_def basic_10_11_def basic_12_14_def basic_15_def basic_16_def)
  moreover have "read_density (parameter_table ?t 0) = unat bits mod 2 ^ 31 + 1"
    unfolding read_density_def density Let_def by simp
  moreover have "take 4 (google_table off sz caps) = [0x47, 0x4f, 0x4f, 0x47]"
    by (simp add: google_table_def)
  ultimately show ?thesis
    unfolding Let_def parameter_google by (intro conjI address_bytes dword_google)
qed

end
