(* ===== verification/Grants.thy ===== *)
theory Grants
  imports Prelude
begin

text \<open>
  The grants of the Tock kernel, as the system call drivers of \<^verbatim>\<open>kernel/h1_syscalls\<close> use them.
\<close>

section \<open>Operations\<close>

text \<open>
  A grant of the Tock kernel: the data of the applications that have one, in the order of the process table. Entering it
  creates the data of an application on first use, unless the kernel has no memory for it (\<open>alloc\<close>).
\<close>

type_synonym 'd grant = "(nat \<times> 'd) list"

fun grant_put :: "nat \<Rightarrow> 'd \<Rightarrow> 'd grant \<Rightarrow> 'd grant" where
  "grant_put app d [] = [(app, d)]"
| "grant_put app d ((k, v) # g) =
     (if k = app then (app, d) # g else if app < k then (app, d) # (k, v) # g else (k, v) # grant_put app d g)"

definition grant_enter :: "(nat \<Rightarrow> bool) \<Rightarrow> 'd \<Rightarrow> nat \<Rightarrow> ('d \<Rightarrow> 'a \<times> 'd) \<Rightarrow> 'd grant \<Rightarrow> 'a option \<times> 'd grant" where
  "grant_enter alloc dflt app f g =
     (case map_of g app of
        Some d \<Rightarrow> (case f d of (a, d) \<Rightarrow> (Some a, grant_put app d g))
      | None \<Rightarrow> if alloc app then (case f dflt of (a, d) \<Rightarrow> (Some a, grant_put app d g)) else (None, g))"

fun grant_each :: "(nat \<Rightarrow> 'd \<Rightarrow> ('s, 'e, 'd) eff) \<Rightarrow> 'd grant \<Rightarrow> ('s, 'e, 'd grant) eff" where
  "grant_each f [] = ret []"
| "grant_each f ((app, d) # g) = eff_bind (f app d) (\<lambda>d. eff_bind (grant_each f g) (\<lambda>g. ret ((app, d) # g)))"

definition grant_ok :: "'d grant \<Rightarrow> bool" where
  "grant_ok g \<longleftrightarrow> sorted (map fst g) \<and> distinct (map fst g)"

lemma set_grant_put: "set (map fst (grant_put app d g)) = insert app (set (map fst g))"
  by (induction app d g rule: grant_put.induct) auto

lemma grant_put_ok: "grant_ok g \<Longrightarrow> grant_ok (grant_put app d g)"
proof (induction app d g rule: grant_put.induct)
  case (2 app d k v g)
  then have "grant_ok g" "\<forall>x\<in>set (map fst g). k < x"
    by (auto simp: grant_ok_def order_le_less)
  then show ?case
    using 2 set_grant_put [of app d g] by (auto simp: grant_ok_def)
qed (simp add: grant_ok_def)

lemma map_of_grant_put: "grant_ok g \<Longrightarrow> map_of (grant_put app d g) = (map_of g)(app \<mapsto> d)"
proof (induction app d g rule: grant_put.induct)
  case (2 app d k v g)
  then have ok: "grant_ok g" and less: "\<forall>x\<in>set (map fst g). k < x"
    by (auto simp: grant_ok_def order_le_less)
  have "map_of g app = None" if "app < k"
    using less that by (force simp: map_of_eq_None_iff)
  then show ?case
    using 2 ok by (auto simp: fun_eq_iff)
qed simp

text \<open>Entering a grant changes the data of one application.\<close>

lemma grant_enter_cases:
  assumes "grant_enter alloc dflt app f g = (r, g')" and "grant_ok g"
  obtains (no) "r = None" "g' = g" "map_of g app = None"
  | (yes) a d d' where "r = Some a" "f d = (a, d')" "d = (case map_of g app of Some d \<Rightarrow> d | None \<Rightarrow> dflt)"
      "grant_ok g'" "map_of g' = (map_of g)(app \<mapsto> d')" "set (map fst g') = insert app (set (map fst g))"
  using assms
  by (auto simp: grant_enter_def grant_put_ok map_of_grant_put set_grant_put simp del: set_map split: option.splits if_splits prod.splits)

end
