(* ===== verification/Flash_Syscalls.thy ===== *)
theory Flash_Syscalls
  imports Flash_Driver Grants
begin

text \<open>
  The flash system calls of \<^verbatim>\<open>kernel/h1_syscalls/src/flash.rs\<close>: applications erase pages and read and write bytes;
  the driver moves them between the buffers the applications share and the words of the flash.
\<close>

section \<open>State\<close>

definition BYTES_PER_WORD :: nat where
  "BYTES_PER_WORD = 4"

record FlashApp =
  app_write_buffer :: "byte list option"
  app_read_buffer :: "byte list option"
  operation_done_callback :: bool

definition FlashApp_default :: FlashApp where
  "FlashApp_default = \<lparr>app_write_buffer = None, app_read_buffer = None, operation_done_callback = False\<rparr>"

text \<open>\<open>fs_scheduled\<close> lists the callbacks the driver scheduled: application and result.\<close>

record 's FlashSyscalls =
  fs_device :: 's
  fs_write_buffer :: "u32 list option"
  fs_apps :: "FlashApp grant"
  current_user :: "nat option"
  fs_scheduled :: "(nat \<times> ReturnCode) list"

definition FlashSyscalls_new :: "'s \<Rightarrow> u32 list \<Rightarrow> 's FlashSyscalls" where
  "FlashSyscalls_new d buf = \<lparr>fs_device = d, fs_write_buffer = Some buf, fs_apps = [], current_user = None, fs_scheduled = []\<rparr>"

section \<open>Operations\<close>

text \<open>A closure run on the data of an application: without memory for it the call fails.\<close>

definition enter_app :: "(nat \<Rightarrow> bool) \<Rightarrow> nat \<Rightarrow> ReturnCode \<Rightarrow> (FlashApp \<Rightarrow> ReturnCode \<times> FlashApp) \<Rightarrow> 's FlashSyscalls \<Rightarrow> ReturnCode \<times> 's FlashSyscalls" where
  "enter_app alloc app failure f s =
     (case grant_enter alloc FlashApp_default app f (fs_apps s) of
        (Some rc, g) \<Rightarrow> (rc, s\<lparr>fs_apps := g\<rparr>) | (None, g) \<Rightarrow> (failure, s\<lparr>fs_apps := g\<rparr>))"

definition on_device :: "('s, unit, 'a) eff \<Rightarrow> ('s FlashSyscalls, unit, 'a) eff" where
  "on_device m s = (case m (fs_device s) of (r, d) \<Rightarrow> (r, s\<lparr>fs_device := d\<rparr>))"

definition fs_erase :: "(nat \<Rightarrow> bool) \<Rightarrow> 's Flash \<Rightarrow> nat \<Rightarrow> nat \<Rightarrow> ('s FlashSyscalls, unit, ReturnCode) eff" where
  "fs_erase alloc D caller_id page s =
     (case grant_enter alloc FlashApp_default caller_id (\<lambda>d. ((), d)) (fs_apps s) of
        (None, g) \<Rightarrow> (Ok ENOMEM, s\<lparr>fs_apps := g\<rparr>)
      | (Some _, g) \<Rightarrow> on_device (flash_erase D page) (s\<lparr>fs_apps := g\<rparr>))"

text \<open>The bytes of one word, as far as they lie before the end.\<close>

fun put_bytes :: "nat \<Rightarrow> nat \<Rightarrow> byte list \<Rightarrow> byte list \<Rightarrow> byte list" where
  "put_bytes len i [] buf = buf"
| "put_bytes len i (b # bs) buf = put_bytes len (Suc i) bs (if i < len then buf[i := b] else buf)"

function read_words :: "(nat \<Rightarrow> ReturnCode) \<Rightarrow> nat \<Rightarrow> nat \<Rightarrow> nat \<Rightarrow> byte list \<Rightarrow> ReturnCode \<times> byte list" where
  "read_words rd offset len idx buf =
     (if len \<le> idx then (SUCCESS, buf)
      else case rd ((offset + idx) mod 2 ^ 32 div BYTES_PER_WORD) of
        SuccessWithValue v \<Rightarrow>
          read_words rd offset len (idx + BYTES_PER_WORD) (put_bytes len idx (le_bytes 4 (unat (word_of_nat v :: u32))) buf)
      | SUCCESS \<Rightarrow> (FAIL, buf)
      | failure \<Rightarrow> (failure, buf))"
  by auto
termination by (relation "measure (\<lambda>(rd, offset, len, idx, buf). len - idx)") (auto simp: BYTES_PER_WORD_def)

declare read_words.simps [simp del]

definition fs_read :: "(nat \<Rightarrow> bool) \<Rightarrow> 's Flash \<Rightarrow> nat \<Rightarrow> nat \<Rightarrow> nat \<Rightarrow> ('s FlashSyscalls, unit, ReturnCode) eff" where
  "fs_read alloc D caller_id offset read_len s =
     (if offset mod BYTES_PER_WORD \<noteq> 0 then (Ok EINVAL, s)
      else case enter_app alloc caller_id ENOMEM (\<lambda>d. case app_read_buffer d of
             None \<Rightarrow> (ENOMEM, d)
           | Some read_buffer \<Rightarrow>
               (case read_words (\<lambda>w. flash_read D w (fs_device s)) offset (min (length read_buffer) read_len) 0 read_buffer of
                  (rc, buf) \<Rightarrow> (rc, d\<lparr>app_read_buffer := Some buf\<rparr>))) s of
        (rc, s) \<Rightarrow> (Ok rc, s))"

text \<open>The words taken from the application's buffer: what the driver hands to the flash.\<close>

fun copy_words :: "nat \<Rightarrow> byte list \<Rightarrow> u32 list" where
  "copy_words 0 app_buf = []"
| "copy_words (Suc n) app_buf = word_of_nat (le_val (take 4 app_buf)) # copy_words n (drop 4 app_buf)"

definition write_words :: "u32 list \<Rightarrow> byte list \<Rightarrow> nat \<Rightarrow> nat" where
  "write_words buffer app_buf len = min (length buffer) (min (length app_buf) len div BYTES_PER_WORD)"

definition fs_write :: "(nat \<Rightarrow> bool) \<Rightarrow> 's Flash \<Rightarrow> nat \<Rightarrow> nat \<Rightarrow> nat \<Rightarrow> ('s FlashSyscalls, unit, ReturnCode) eff" where
  "fs_write alloc D caller_id target len s =
     (if target mod BYTES_PER_WORD \<noteq> 0 \<or> len mod BYTES_PER_WORD \<noteq> 0 then (Ok EINVAL, s)
      else case grant_enter alloc FlashApp_default caller_id (\<lambda>d. (app_write_buffer d, d)) (fs_apps s) of
        (None, g) \<Rightarrow> (Ok ENOMEM, s\<lparr>fs_apps := g\<rparr>)
      | (Some None, g) \<Rightarrow> (Ok ENOMEM, s\<lparr>fs_apps := g\<rparr>)
      | (Some (Some app_buf), g) \<Rightarrow>
          (case fs_write_buffer s of
             None \<Rightarrow> (Ok ENOMEM, s\<lparr>fs_apps := g\<rparr>)
           | Some buffer \<Rightarrow>
               eff_bind (on_device (flash_write D (target div BYTES_PER_WORD) (copy_words (write_words buffer app_buf len) app_buf)))
                 (\<lambda>(rc, buffer) s. (Ok rc, s\<lparr>fs_write_buffer := buffer\<rparr>))
                 (s\<lparr>fs_apps := g, fs_write_buffer := None\<rparr>)))"

text \<open>Completion: the application that used the driver first is told.\<close>

definition report_done :: "(nat \<Rightarrow> bool) \<Rightarrow> ReturnCode \<Rightarrow> 's FlashSyscalls \<Rightarrow> 's FlashSyscalls" where
  "report_done alloc rc s =
     (case current_user s of
        None \<Rightarrow> s
      | Some app \<Rightarrow>
          (case grant_enter alloc FlashApp_default app (\<lambda>d. (operation_done_callback d, d)) (fs_apps s) of
             (Some True, g) \<Rightarrow> s\<lparr>fs_apps := g, fs_scheduled := fs_scheduled s @ [(app, rc)]\<rparr>
           | (_, g) \<Rightarrow> s\<lparr>fs_apps := g\<rparr>))"

definition fs_erase_done :: "(nat \<Rightarrow> bool) \<Rightarrow> ReturnCode \<Rightarrow> 's FlashSyscalls \<Rightarrow> 's FlashSyscalls" where
  "fs_erase_done alloc rc s = report_done alloc rc s"

definition fs_write_done :: "(nat \<Rightarrow> bool) \<Rightarrow> u32 list \<Rightarrow> ReturnCode \<Rightarrow> 's FlashSyscalls \<Rightarrow> 's FlashSyscalls" where
  "fs_write_done alloc write_buffer rc s = report_done alloc rc (s\<lparr>fs_write_buffer := Some write_buffer\<rparr>)"

definition fs_subscribe :: "(nat \<Rightarrow> bool) \<Rightarrow> nat \<Rightarrow> bool \<Rightarrow> nat \<Rightarrow> 's FlashSyscalls \<Rightarrow> ReturnCode \<times> 's FlashSyscalls" where
  "fs_subscribe alloc subscribe_num cb app s =
     (if subscribe_num = 0 then enter_app alloc app ENOMEM (\<lambda>d. (SUCCESS, d\<lparr>operation_done_callback := cb\<rparr>)) s else (ENOSUPPORT, s))"

definition fs_command :: "(nat \<Rightarrow> bool) \<Rightarrow> 's Flash \<Rightarrow> nat \<Rightarrow> nat \<Rightarrow> nat \<Rightarrow> nat \<Rightarrow> ('s FlashSyscalls, unit, ReturnCode) eff" where
  "fs_command alloc D command_num arg1 arg2 caller_id s =
     (let s = (if current_user s = None then s\<lparr>current_user := Some caller_id\<rparr> else s) in
      if command_num = 0 then (Ok SUCCESS, s)
      else if command_num = 1 then fs_erase alloc D caller_id arg1 s
      else if command_num = 2 then fs_write alloc D caller_id arg1 arg2 s
      else if command_num = 3 then fs_read alloc D caller_id arg1 arg2 s
      else (Ok ENOSUPPORT, s))"

definition fs_allow :: "(nat \<Rightarrow> bool) \<Rightarrow> nat \<Rightarrow> nat \<Rightarrow> byte list option \<Rightarrow> 's FlashSyscalls \<Rightarrow> ReturnCode \<times> 's FlashSyscalls" where
  "fs_allow alloc app minor_num shared s =
     (if minor_num = 0 then enter_app alloc app FAIL (\<lambda>d. (SUCCESS, d\<lparr>app_write_buffer := shared\<rparr>)) s
      else if minor_num = 1 then enter_app alloc app FAIL (\<lambda>d. (SUCCESS, d\<lparr>app_read_buffer := shared\<rparr>)) s
      else (ENOSUPPORT, s))"

section \<open>Reading\<close>

text \<open>The flash as bytes: little-endian words.\<close>

definition flash_byte :: "(nat \<Rightarrow> u32) \<Rightarrow> nat \<Rightarrow> byte" where
  "flash_byte m k = le_bytes 4 (unat (m (k div 4))) ! (k mod 4)"

lemma put_bytes_spec:
  "\<lbrakk>i \<le> len; len \<le> length buf\<rbrakk> \<Longrightarrow>
    put_bytes len i bs buf = take i buf @ take (len - i) bs @ drop (min len (i + length bs)) buf"
proof (induction len i bs buf rule: put_bytes.induct)
  case (2 len i b bs buf)
  show ?case
  proof (cases "i < len")
    case True
    then have "put_bytes len i (b # bs) buf = take (Suc i) (buf[i := b]) @ take (len - Suc i) bs @ drop (min len (Suc i + length bs)) (buf[i := b])"
      using 2 by simp
    then show ?thesis
      using True 2(3) by (simp add: take_Suc_conv_app_nth Suc_diff_Suc [symmetric] min_def)
  next
    case False
    then have "put_bytes len i (b # bs) buf = put_bytes len (Suc i) bs buf" "i = len" using 2(2) by auto
    moreover have "put_bytes len j cs buf = buf" if "len \<le> j" for j cs
      using that by (induction len j cs buf rule: put_bytes.induct) auto
    ultimately show ?thesis by simp
  qed
qed (simp add: min_def)

lemma word_bytes:
  assumes "offset mod 4 = 0" "idx mod 4 = 0" and n: "n \<le> 4"
  shows "map (\<lambda>i. flash_byte m (offset + i)) [idx..<idx + n] = take n (le_bytes 4 (unat (m ((offset + idx) div 4))))"
proof (rule nth_equalityI)
  fix i
  assume "i < length (map (\<lambda>i. flash_byte m (offset + i)) [idx..<idx + n])"
  then have i: "i < n" "i < 4" using n by auto
  have "(offset + (idx + i)) mod 4 = i" "(offset + (idx + i)) div 4 = (offset + idx) div 4"
    using assms i(2) by presburger+
  then show "map (\<lambda>i. flash_byte m (offset + i)) [idx..<idx + n] ! i = take n (le_bytes 4 (unat (m ((offset + idx) div 4)))) ! i"
    using i by (simp add: flash_byte_def)
qed (use n in simp)

lemma read_words_spec:
  assumes rd: "\<And>w. rd w = SuccessWithValue (unat (m w))" and off: "offset mod 4 = 0" and fits: "offset + len \<le> 2 ^ 32"
  shows "\<lbrakk>idx mod 4 = 0; idx \<le> len; len \<le> length buf\<rbrakk> \<Longrightarrow> read_words rd offset len idx buf
    = (SUCCESS, take idx buf @ map (\<lambda>i. flash_byte m (offset + i)) [idx..<len] @ drop len buf)"
proof (induction "len - idx" arbitrary: idx buf rule: less_induct)
  case less
  show ?case
  proof (cases "idx = len")
    case True
    then show ?thesis by (subst read_words.simps) simp
  next
    case False
    let ?w = "le_bytes 4 (unat (m ((offset + idx) div 4)))"
    let ?buf = "put_bytes len idx ?w buf"
    let ?n = "min 4 (len - idx)"
    have buf: "?buf = take idx buf @ take ?n ?w @ drop (idx + ?n) buf"
    proof -
      have "min len (idx + length ?w) = idx + ?n" "take (len - idx) ?w = take ?n ?w"
        using less.prems by (auto simp: min_def)
      then show ?thesis
        using put_bytes_spec [of idx len buf ?w] less.prems by simp
    qed
    have step: "read_words rd offset len idx buf = read_words rd offset len (idx + 4) ?buf"
      using rd off fits less.prems False by (subst read_words.simps) (simp add: BYTES_PER_WORD_def)
    have bytes: "map (\<lambda>i. flash_byte m (offset + i)) [idx..<idx + ?n] = take ?n ?w"
      using word_bytes [OF off less.prems(1), of ?n] by simp
    show ?thesis
    proof (cases "idx + 4 \<le> len")
      case True
      have "read_words rd offset len (idx + 4) ?buf
          = (SUCCESS, take (idx + 4) ?buf @ map (\<lambda>i. flash_byte m (offset + i)) [idx + 4..<len] @ drop len ?buf)"
        using less.hyps [of "idx + 4" ?buf] less.prems True buf by (auto simp: mod_add_right_eq)
      moreover have "take (idx + 4) ?buf = take idx buf @ map (\<lambda>i. flash_byte m (offset + i)) [idx..<idx + 4]"
        using bytes True less.prems buf by simp
      moreover have "drop len ?buf = drop len buf"
        using buf True less.prems by simp
      moreover have "[idx..<len] = [idx..<idx + 4] @ [idx + 4..<len]"
        using True by (metis le_add1 le_iff_add upt_add_eq_append)
      ultimately show ?thesis using step by simp
    next
      case nomore: False
      then have n: "?n = len - idx" "idx + ?n = len" using less.prems by auto
      have "read_words rd offset len (idx + 4) ?buf = (SUCCESS, ?buf)"
        using nomore by (subst read_words.simps) simp
      then show ?thesis using step buf bytes n by simp
    qed
  qed
qed

text \<open>A read at a word boundary fills the shared buffer with the bytes of the flash from that offset on, up to the shorter of
  the buffer and the requested length, and leaves the rest of the buffer alone; an unaligned offset is refused.
\<close>

theorem fs_read_bytes:
  assumes "map_of (fs_apps s) app = Some d" and "app_read_buffer d = Some buf" and "grant_ok (fs_apps s)"
    and "\<And>w. flash_read D w (fs_device s) = SuccessWithValue (unat (m w))" and "offset + len \<le> 2 ^ 32"
  shows "\<exists>s'. fs_command alloc D 3 offset len app s = (Ok (if offset mod 4 = 0 then SUCCESS else EINVAL), s')
    \<and> fs_device s' = fs_device s
    \<and> map_option app_read_buffer (map_of (fs_apps s') app)
      = Some (Some (if offset mod 4 = 0
          then map (\<lambda>i. flash_byte m (offset + i)) [0..<min (length buf) len] @ drop (min (length buf) len) buf else buf))"
proof -
  let ?n = "min (length buf) len"
  have "read_words (\<lambda>w. flash_read D w (fs_device s)) offset ?n 0 buf
      = (SUCCESS, map (\<lambda>i. flash_byte m (offset + i)) [0..<?n] @ drop ?n buf)" if "offset mod 4 = 0"
    using read_words_spec [OF assms(4) that, of ?n 0 buf] assms(5) by simp
  then show ?thesis
    using assms(1-3)
    by (auto simp: fs_command_def Let_def fs_read_def enter_app_def grant_enter_def map_of_grant_put BYTES_PER_WORD_def)
qed

text \<open>A flash that holds the same word everywhere and accepts every write, with one application that shares its buffers.\<close>

definition plain_flash :: "unit Flash" where
  "plain_flash = \<lparr>flash_erase = (\<lambda>_. ret SUCCESS), flash_read = (\<lambda>_ _. SuccessWithValue 0x04030201), flash_write = (\<lambda>_ _. ret (SUCCESS, None))\<rparr>"

definition demo_syscalls :: "unit FlashSyscalls" where
  "demo_syscalls = (FlashSyscalls_new () (replicate 32 0))\<lparr>fs_apps :=
     [(1, \<lparr>app_write_buffer = Some [1, 2, 3, 4, 5], app_read_buffer = Some [0, 0, 0, 0, 0, 0], operation_done_callback = True\<rparr>)]\<rparr>"

theorem fs_read_bytes_witness:
  "\<exists>s'. fs_command (\<lambda>_. True) plain_flash 3 8 5 1 demo_syscalls = (Ok SUCCESS, s')
    \<and> map_option app_read_buffer (map_of (fs_apps s') 1) = Some (Some [1, 2, 3, 4, 1, 0])"
proof -
  have bytes: "le_bytes 4 0x04030201 = [1, 2, 3, 4]"
    using le_bytes_le_val [of "[1, 2, 3, 4]" 4] by (simp add: le_val_def be_val_def)
  have "flash_byte (\<lambda>_. 0x04030201) 8 = 1" "flash_byte (\<lambda>_. 0x04030201) 9 = 2" "flash_byte (\<lambda>_. 0x04030201) 10 = 3"
    "flash_byte (\<lambda>_. 0x04030201) 11 = 4" "flash_byte (\<lambda>_. 0x04030201) 12 = 1"
    by (simp_all add: flash_byte_def bytes)
  then show ?thesis
    using fs_read_bytes [of demo_syscalls 1 _ "[0, 0, 0, 0, 0, 0]" plain_flash "\<lambda>_. 0x04030201" 8 5 "\<lambda>_. True"]
    by (auto simp: demo_syscalls_def FlashSyscalls_new_def plain_flash_def grant_ok_def)
qed

section \<open>Writing\<close>

lemma length_copy_words [simp]: "length (copy_words n bs) = n"
  by (induction n bs rule: copy_words.induct) auto

lemma copy_words_bytes: "4 * n \<le> length bs \<Longrightarrow> concat (map (\<lambda>w. le_bytes 4 (unat w)) (copy_words n bs)) = take (4 * n) bs"
proof (induction n bs rule: copy_words.induct)
  case (2 n bs)
  have "le_val (take 4 bs) < 2 ^ 32"
    using be_val_less [of "rev (take 4 bs)"] "2.prems" by (simp add: le_val_def)
  then have "unat (word_of_nat (le_val (take 4 bs)) :: u32) = le_val (take 4 bs)"
    by (simp add: unat_of_nat)
  then have "le_bytes 4 (unat (word_of_nat (le_val (take 4 bs)) :: u32)) = take 4 bs"
    using "2.prems" by simp
  then show ?case
    using 2 by (simp add: take_add [of 4 "4 * n" bs, symmetric])
qed simp

lemma write_words_le: "write_words buf bs len \<le> length buf" "write_words buf bs len \<le> len div 4" "4 * write_words buf bs len \<le> length bs"
proof -
  have "min (length bs) len div 4 \<le> len div 4" "4 * (min (length bs) len div 4) \<le> length bs"
    by (simp_all add: div_le_mono)
  then show "write_words buf bs len \<le> length buf" "write_words buf bs len \<le> len div 4" "4 * write_words buf bs len \<le> length bs"
    unfolding write_words_def BYTES_PER_WORD_def by linarith+
qed

text \<open>An accepted write hands the flash the leading words of the application's buffer. Its completion gives the driver back
  only the words that were written: from then on no write of any application transfers more words than this one did,
  although each is still reported as successful.
\<close>

theorem fs_write_shrinks:
  assumes "map_of (fs_apps s) app = Some d" and "app_write_buffer d = Some bs" and "grant_ok (fs_apps s)"
    and "fs_write_buffer s = Some buf" and "target mod 4 = 0" and "len mod 4 = 0"
  defines "words \<equiv> copy_words (write_words buf bs len) bs"
  assumes "flash_write D (target div 4) words (fs_device s) = (Ok (SUCCESS, None), dev')"
  shows "\<exists>s1. fs_command alloc D 2 target len app s = (Ok SUCCESS, s1) \<and> fs_device s1 = dev'
    \<and> concat (map (\<lambda>w. le_bytes 4 (unat w)) words) = take (4 * min (length buf) (min (length bs) len div 4)) bs
    \<and> fs_write_buffer (fs_write_done alloc words rc s1) = Some words
    \<and> (\<forall>bs2 len2. write_words words bs2 len2 \<le> len div 4)"
proof -
  have "fs_write_buffer (report_done alloc rc s1) = fs_write_buffer s1" for rc and s1 :: "'a FlashSyscalls"
    by (auto simp: report_done_def split: option.splits prod.splits bool.splits)
  moreover have "write_words words bs2 len2 \<le> len div 4" for bs2 len2
    using write_words_le(1) [of words bs2 len2] write_words_le(2) [of buf bs len] by (simp add: words_def)
  moreover have "concat (map (\<lambda>w. le_bytes 4 (unat w)) words) = take (4 * min (length buf) (min (length bs) len div 4)) bs"
    using copy_words_bytes [OF write_words_le(3) [of buf bs len]] by (simp add: words_def write_words_def BYTES_PER_WORD_def)
  ultimately show ?thesis
    using assms
    by (auto simp: fs_command_def Let_def fs_write_def grant_enter_def fs_write_done_def on_device_def BYTES_PER_WORD_def)
qed

theorem fs_write_shrinks_witness:
  "\<exists>s1. fs_command (\<lambda>_. True) plain_flash 2 0 4 1 demo_syscalls = (Ok SUCCESS, s1)
    \<and> length (the (fs_write_buffer (fs_write_done (\<lambda>_. True) (copy_words 1 [1, 2, 3, 4, 5]) SUCCESS s1))) = 1"
proof -
  have "write_words (replicate 32 0) [1, 2, 3, 4, 5] 4 = 1"
    by (simp add: write_words_def BYTES_PER_WORD_def)
  then show ?thesis
    using fs_write_shrinks [of demo_syscalls 1 _ "[1, 2, 3, 4, 5]" "replicate 32 0" 0 4 plain_flash "()" "\<lambda>_. True" SUCCESS]
    by (auto simp: demo_syscalls_def FlashSyscalls_new_def plain_flash_def grant_ok_def)
qed

end
