(* ===== verification/Nv_Syscall.thy ===== *)
theory Nv_Syscall
  imports Nv_Counter Grants
begin

text \<open>
  The system call driver of the non-volatile counter, \<^verbatim>\<open>kernel/h1_syscalls/src/nvcounter_syscall.rs\<close>: it shares
  one counter among all applications and reports each increment to the application that asked for it.
\<close>

section \<open>The driver\<close>

text \<open>The trait \<^verbatim>\<open>NvCounter\<close>.\<close>

record 'c NvCounter =
  nvc_initialize :: "('c, unit, ReturnCode) eff"
  nvc_read_and_increment :: "('c, unit, ReturnCode) eff"

definition flash_counter :: "'s Flash \<Rightarrow> 's FlashCounter NvCounter" where
  "flash_counter D = \<lparr>nvc_initialize = FlashCounter_initialize D, nvc_read_and_increment = read_and_increment D\<rparr>"

text \<open>\<open>callback\<close> tells whether a callback is subscribed.\<close>

record NvApp =
  wants_increment :: bool
  callback :: bool

definition NvApp_default :: NvApp where
  "NvApp_default = \<lparr>wants_increment = False, callback = False\<rparr>"

text \<open>\<open>scheduled\<close> lists the callbacks the driver scheduled: application, code and value.\<close>

record 'c NvCounterSyscall =
  op_ongoing :: bool
  current_app :: nat
  ns_grant :: "NvApp grant"
  init_failed :: bool
  nvcounter :: 'c
  ns_value :: nat
  scheduled :: "(nat \<times> nat \<times> nat) list"

definition NvCounterSyscall_new :: "'c \<Rightarrow> 'c NvCounterSyscall" where
  "NvCounterSyscall_new c = \<lparr>op_ongoing = False, current_app = 0, ns_grant = [], init_failed = False, nvcounter = c,
     ns_value = 0, scheduled = []\<rparr>"

definition on_counter :: "('c, unit, 'a) eff \<Rightarrow> ('c NvCounterSyscall, unit, 'a) eff" where
  "on_counter m s = (case m (nvcounter s) of (r, c) \<Rightarrow> (r, s\<lparr>nvcounter := c\<rparr>))"

definition schedule :: "nat \<Rightarrow> NvApp \<Rightarrow> nat \<Rightarrow> nat \<Rightarrow> 'c NvCounterSyscall \<Rightarrow> 'c NvCounterSyscall" where
  "schedule app d code v s = (if callback d then s\<lparr>scheduled := scheduled s @ [(app, code, v)]\<rparr> else s)"

definition for_each_app :: "(nat \<Rightarrow> NvApp \<Rightarrow> ('c NvCounterSyscall, unit, NvApp) eff) \<Rightarrow> ('c NvCounterSyscall, unit, unit) eff" where
  "for_each_app f s = eff_bind (grant_each f (ns_grant s)) (\<lambda>g s. (Ok (), s\<lparr>ns_grant := g\<rparr>)) s"

definition fail_app :: "nat \<Rightarrow> NvApp \<Rightarrow> ('c NvCounterSyscall, unit, NvApp) eff" where
  "fail_app app d s =
     (if \<not> wants_increment d then (Ok d, s)
      else (Ok (d\<lparr>wants_increment := False\<rparr>), schedule app d 0 0 s))"

definition handle_failed_init :: "('c NvCounterSyscall, unit, unit) eff" where
  "handle_failed_init s = for_each_app fail_app (s\<lparr>init_failed := True\<rparr>)"

definition NvCounterSyscall_initialize :: "'c NvCounter \<Rightarrow> ('c NvCounterSyscall, unit, unit) eff" where
  "NvCounterSyscall_initialize N =
     eff_bind (on_counter (nvc_initialize N)) (\<lambda>rc. if rc \<noteq> SUCCESS then handle_failed_init else ret ())"

text \<open>What \<open>do_next_op\<close> does for one application: start its increment, then report the finished one.\<close>

definition start_app :: "'c NvCounter \<Rightarrow> nat \<Rightarrow> NvApp \<Rightarrow> ('c NvCounterSyscall, unit, NvApp) eff" where
  "start_app N app d s =
     (if \<not> op_ongoing s \<and> wants_increment d then
        eff_bind (on_counter (nvc_read_and_increment N)) (\<lambda>rc s.
          (Ok (d\<lparr>wants_increment := False\<rparr>),
           case rc of SuccessWithValue v \<Rightarrow> s\<lparr>ns_value := v, op_ongoing := True, current_app := app\<rparr>
           | _ \<Rightarrow> schedule app d 0 0 s)) s
      else (Ok d, s))"

definition serve_app :: "'c NvCounter \<Rightarrow> nat option \<Rightarrow> nat \<Rightarrow> nat \<Rightarrow> NvApp \<Rightarrow> ('c NvCounterSyscall, unit, NvApp) eff" where
  "serve_app N callback_id callback_code app d =
     eff_bind (start_app N app d) (\<lambda>d s.
       (Ok d, if Some app = callback_id then schedule app d callback_code (ns_value s) s else s))"

definition nvs_do_next_op :: "'c NvCounter \<Rightarrow> nat option \<Rightarrow> nat \<Rightarrow> ('c NvCounterSyscall, unit, unit) eff" where
  "nvs_do_next_op N callback_id callback_code = for_each_app (serve_app N callback_id callback_code)"

definition nvs_read_and_increment :: "(nat \<Rightarrow> bool) \<Rightarrow> 'c NvCounter \<Rightarrow> nat \<Rightarrow> ('c NvCounterSyscall, unit, ReturnCode) eff" where
  "nvs_read_and_increment alloc N app s =
     (if init_failed s then (Ok FAIL, s)
      else case grant_enter alloc NvApp_default app (\<lambda>d. (wants_increment d, d)) (ns_grant s) of
        (None, g) \<Rightarrow> (Ok ENOMEM, s\<lparr>ns_grant := g\<rparr>)
      | (Some True, g) \<Rightarrow> (Ok EBUSY, s\<lparr>ns_grant := g\<rparr>)
      | (Some False, g) \<Rightarrow>
          let s = s\<lparr>ns_grant := g\<rparr> in
          if \<not> op_ongoing s then
            eff_bind (on_counter (nvc_read_and_increment N)) (\<lambda>rc s.
              case rc of SuccessWithValue v \<Rightarrow> (Ok SUCCESS, s\<lparr>ns_value := v, op_ongoing := True, current_app := app\<rparr>)
              | _ \<Rightarrow> (Ok FAIL, s)) s
          else
            (case grant_enter alloc NvApp_default app (\<lambda>d. ((), d\<lparr>wants_increment := True\<rparr>)) (ns_grant s) of
               (None, g) \<Rightarrow> (Ok ENOMEM, s\<lparr>ns_grant := g\<rparr>) | (Some _, g) \<Rightarrow> (Ok SUCCESS, s\<lparr>ns_grant := g\<rparr>)))"

definition set_increment_callback :: "(nat \<Rightarrow> bool) \<Rightarrow> bool \<Rightarrow> nat \<Rightarrow> ('c NvCounterSyscall, unit, ReturnCode) eff" where
  "set_increment_callback alloc cb app s =
     (case grant_enter alloc NvApp_default app (\<lambda>d. ((), d\<lparr>callback := cb\<rparr>)) (ns_grant s) of
        (None, g) \<Rightarrow> (Ok ENOMEM, s\<lparr>ns_grant := g\<rparr>) | (Some _, g) \<Rightarrow> (Ok SUCCESS, s\<lparr>ns_grant := g\<rparr>))"

definition nvs_command :: "(nat \<Rightarrow> bool) \<Rightarrow> 'c NvCounter \<Rightarrow> nat \<Rightarrow> nat \<Rightarrow> ('c NvCounterSyscall, unit, ReturnCode) eff" where
  "nvs_command alloc N minor_num app =
     (if minor_num = 0 then ret SUCCESS else if minor_num = 1 then nvs_read_and_increment alloc N app else ret ENOSUPPORT)"

definition nvs_subscribe :: "(nat \<Rightarrow> bool) \<Rightarrow> nat \<Rightarrow> bool \<Rightarrow> nat \<Rightarrow> ('c NvCounterSyscall, unit, ReturnCode) eff" where
  "nvs_subscribe alloc minor_num cb app =
     (if minor_num = 0 then set_increment_callback alloc cb app else ret ENOSUPPORT)"

definition initialize_done :: "'c NvCounter \<Rightarrow> ReturnCode \<Rightarrow> ('c NvCounterSyscall, unit, unit) eff" where
  "initialize_done N status s =
     (if status = SUCCESS then nvs_do_next_op N None 0 (s\<lparr>init_failed := False, ns_value := 0\<rparr>)
      else handle_failed_init s)"

definition increment_done :: "'c NvCounter \<Rightarrow> ReturnCode \<Rightarrow> ('c NvCounterSyscall, unit, unit) eff" where
  "increment_done N status s =
     (if status = SUCCESS
      then nvs_do_next_op N (Some (current_app s)) 2 (s\<lparr>op_ongoing := False, ns_value := (ns_value s + 1) mod 2 ^ 32\<rparr>)
      else nvs_do_next_op N (Some (current_app s)) 1 (s\<lparr>op_ongoing := False\<rparr>))"

section \<open>Every accepted request is answered once\<close>

definition answers :: "'c NvCounterSyscall \<Rightarrow> nat \<Rightarrow> nat" where
  "answers s a = length (filter (\<lambda>c. fst c = a) (scheduled s))"

definition waits :: "NvApp grant \<Rightarrow> nat \<Rightarrow> bool" where
  "waits g a = (case map_of g a of Some d \<Rightarrow> wants_increment d | None \<Rightarrow> False)"

definition listens :: "NvApp grant \<Rightarrow> nat \<Rightarrow> bool" where
  "listens g a = (case map_of g a of Some d \<Rightarrow> callback d | None \<Rightarrow> False)"

definition runs :: "'c NvCounterSyscall \<Rightarrow> nat \<Rightarrow> bool" where
  "runs s a \<longleftrightarrow> op_ongoing s \<and> current_app s = a"

text \<open>The requests of an application that are accepted and not yet answered: one that waits and one in progress.\<close>

definition pending :: "'c NvCounterSyscall \<Rightarrow> nat \<Rightarrow> nat" where
  "pending s a = of_bool (waits (ns_grant s) a) + of_bool (runs s a)"

text \<open>While nothing is in progress nobody waits.\<close>

definition nvs_inv :: "'c NvCounterSyscall \<Rightarrow> bool" where
  "nvs_inv s \<longleftrightarrow> grant_ok (ns_grant s)
     \<and> (if op_ongoing s then current_app s \<in> set (map fst (ns_grant s)) else (\<forall>a. \<not> waits (ns_grant s) a))"

lemma answers_schedule: "answers (schedule app d code v s) a = answers s a + of_bool (a = app \<and> callback d)"
  by (simp add: answers_def schedule_def)

lemma schedule_sel [simp]:
  "op_ongoing (schedule app d code v s) = op_ongoing s" "current_app (schedule app d code v s) = current_app s"
  "ns_grant (schedule app d code v s) = ns_grant s" "runs (schedule app d code v s) = runs s"
  by (simp_all add: schedule_def runs_def fun_eq_iff)

lemma answers_upd [simp]:
  "answers (s\<lparr>ns_value := v\<rparr>) a = answers s a" "answers (s\<lparr>op_ongoing := b\<rparr>) a = answers s a"
  "answers (s\<lparr>current_app := n\<rparr>) a = answers s a" "answers (s\<lparr>nvcounter := c\<rparr>) a = answers s a"
  "answers (s\<lparr>ns_grant := g\<rparr>) a = answers s a" "answers (s\<lparr>init_failed := b\<rparr>) a = answers s a"
  by (simp_all add: answers_def)

text \<open>
  What one visit of an application does: \<open>extra\<close> tells whether it also reports a finished operation. Applications other
  than the visited one see no change.
\<close>

definition visit_ok :: "bool \<Rightarrow> nat \<Rightarrow> NvApp \<Rightarrow> NvApp \<Rightarrow> 'c NvCounterSyscall \<Rightarrow> 'c NvCounterSyscall \<Rightarrow> bool" where
  "visit_ok extra app d d' s s' \<longleftrightarrow> callback d' = callback d \<and> ns_grant s' = ns_grant s
     \<and> (op_ongoing s \<longrightarrow> op_ongoing s')
     \<and> (\<forall>a. a \<noteq> app \<longrightarrow> answers s' a = answers s a \<and> runs s' a = runs s a)
     \<and> (runs s' app \<longrightarrow> \<not> runs s app \<longrightarrow> \<not> op_ongoing s)
     \<and> (callback d \<longrightarrow> answers s' app + of_bool (wants_increment d') + of_bool (runs s' app)
          = answers s app + of_bool (wants_increment d) + of_bool (runs s app) + of_bool extra)"

lemma start_app_visit:
  assumes "start_app N app d s = (Ok d', s')"
  shows "visit_ok False app d d' s s' \<and> (\<not> op_ongoing s' \<longrightarrow> \<not> wants_increment d')"
proof (cases "\<not> op_ongoing s \<and> wants_increment d")
  case True
  then obtain rc c where "nvc_read_and_increment N (nvcounter s) = (Ok rc, c)" and d': "d' = d\<lparr>wants_increment := False\<rparr>"
      and s': "s' = (case rc of SuccessWithValue v \<Rightarrow> s\<lparr>nvcounter := c, ns_value := v, op_ongoing := True, current_app := app\<rparr>
           | _ \<Rightarrow> schedule app d 0 0 (s\<lparr>nvcounter := c\<rparr>))"
    using assms by (auto simp: start_app_def eff_bind_Ok_iff on_counter_def split: prod.splits)
  then show ?thesis
    using True by (cases rc) (auto simp: visit_ok_def runs_def answers_schedule)
next
  case False
  then show ?thesis
    using assms by (auto simp: start_app_def visit_ok_def)
qed

lemma serve_app_visit:
  assumes "serve_app N cb code app d s = (Ok d', s')"
  shows "visit_ok (cb = Some app) app d d' s s' \<and> (\<not> op_ongoing s' \<longrightarrow> \<not> wants_increment d')"
proof -
  obtain s1 where s1: "start_app N app d s = (Ok d', s1)" "s' = (if Some app = cb then schedule app d' code (ns_value s1) s1 else s1)"
    using assms by (auto simp: serve_app_def eff_bind_Ok_iff)
  then show ?thesis
    using start_app_visit [OF s1(1)] by (auto simp: visit_ok_def answers_schedule)
qed

lemma fail_app_visit:
  "fail_app app d s = (Ok d', s') \<Longrightarrow> visit_ok False app d d' s s' \<and> \<not> wants_increment d'"
  by (auto simp: fail_app_def visit_ok_def answers_schedule split: if_splits)

lemma waits_Cons [simp]: "waits ((k, d) # g) a = (if a = k then wants_increment d else waits g a)"
  by (simp add: waits_def)

lemma listens_Cons [simp]: "listens ((k, d) # g) a = (if a = k then callback d else listens g a)"
  by (simp add: listens_def)

lemma waits_listens_Nil [simp]: "\<not> waits [] a" "\<not> listens [] a"
  by (simp_all add: waits_def listens_def)

lemma not_in_grant: "a \<notin> set (map fst g) \<Longrightarrow> \<not> waits g a \<and> \<not> listens g a"
proof -
  assume "a \<notin> set (map fst g)"
  then have "map_of g a = None" by (simp add: map_of_eq_None_iff)
  then show ?thesis by (simp add: waits_def listens_def)
qed

text \<open>The same for a walk over all applications.\<close>

definition walk_ok :: "(nat \<Rightarrow> bool) \<Rightarrow> NvApp grant \<Rightarrow> NvApp grant \<Rightarrow> 'c NvCounterSyscall \<Rightarrow> 'c NvCounterSyscall \<Rightarrow> bool" where
  "walk_ok extra g g' s s' \<longleftrightarrow> map fst g' = map fst g \<and> ns_grant s' = ns_grant s \<and> (op_ongoing s \<longrightarrow> op_ongoing s')
     \<and> (\<forall>a. listens g' a = listens g a)
     \<and> (\<forall>a. a \<notin> set (map fst g) \<longrightarrow> answers s' a = answers s a \<and> runs s' a = runs s a)
     \<and> (\<forall>a. listens g a \<longrightarrow> answers s' a + of_bool (waits g' a) + of_bool (runs s' a)
          = answers s a + of_bool (waits g a) + of_bool (runs s a) + of_bool (extra a))"

lemma grant_each_walk:
  assumes visit: "\<And>app d s d' s'. f app d s = (Ok d', s') \<Longrightarrow> visit_ok (extra app) app d d' s s'"
    and "grant_each f g s = (Ok g', s')" and "distinct (map fst g)"
  shows "walk_ok extra g g' s s'"
  using assms(2,3)
proof (induction g arbitrary: s g')
  case Nil
  then show ?case by (simp add: walk_ok_def)
next
  case (Cons x g)
  obtain app d where x: "x = (app, d)" by force
  obtain d1 s1 g1 where s1: "f app d s = (Ok d1, s1)" "grant_each f g s1 = (Ok g1, s')" "g' = (app, d1) # g1"
    using Cons.prems(1) x by (auto simp: eff_bind_Ok_iff)
  have v: "visit_ok (extra app) app d d1 s s1"
    by (rule visit [OF s1(1)])
  have w: "walk_ok extra g g1 s1 s'"
    using Cons.IH [OF s1(2)] Cons.prems(2) x by simp
  have "app \<notin> set (map fst g)"
    using Cons.prems(2) x by simp
  then show ?case
    using v w x s1(3) not_in_grant [of app g] unfolding walk_ok_def visit_ok_def by auto
qed

lemma grant_each_idle:
  assumes mono: "\<And>app d s d' s'. f app d s = (Ok d', s') \<Longrightarrow> (op_ongoing s \<longrightarrow> op_ongoing s') \<and> (op_ongoing s' \<or> \<not> wants_increment d')"
    and "grant_each f g s = (Ok g', s')"
  shows "(op_ongoing s \<longrightarrow> op_ongoing s') \<and> (op_ongoing s' \<or> (\<forall>a. \<not> waits g' a))"
  using assms(2)
proof (induction g arbitrary: s g')
  case (Cons x g)
  obtain app d where x: "x = (app, d)" by force
  obtain d1 s1 g1 where s1: "f app d s = (Ok d1, s1)" "grant_each f g s1 = (Ok g1, s')" "g' = (app, d1) # g1"
    using Cons.prems(1) x by (auto simp: eff_bind_Ok_iff)
  then show ?case
    using mono [OF s1(1)] Cons.IH [OF s1(2)] by auto
qed simp

text \<open>Conservation: what is pending is answered, plus what is reported, nothing else.\<close>

definition conserves :: "(nat \<Rightarrow> nat) \<Rightarrow> 'c NvCounterSyscall \<Rightarrow> 'c NvCounterSyscall \<Rightarrow> bool" where
  "conserves extra s s' \<longleftrightarrow> (\<forall>a. listens (ns_grant s) a \<longrightarrow>
     listens (ns_grant s') a \<and> answers s' a + pending s' a = answers s a + pending s a + extra a)"

lemma for_each_app_conserves:
  assumes "\<And>app d s d' s'. f app d s = (Ok d', s') \<Longrightarrow> visit_ok (extra app) app d d' s s' \<and> (op_ongoing s' \<or> \<not> wants_increment d')"
    and "for_each_app f s = (Ok (), s')" and "grant_ok (ns_grant s)"
    and "op_ongoing s \<Longrightarrow> current_app s \<in> set (map fst (ns_grant s))"
  shows "nvs_inv s' \<and> conserves (\<lambda>a. of_bool (extra a)) s s'"
proof -
  obtain g s1 where g: "grant_each f (ns_grant s) s = (Ok g, s1)" "s' = s1\<lparr>ns_grant := g\<rparr>"
    using assms(2) by (auto simp: for_each_app_def eff_bind_Ok_iff)
  have visit: "\<And>app d s d' s'. f app d s = (Ok d', s') \<Longrightarrow> visit_ok (extra app) app d d' s s'"
    using assms(1) by blast
  have w: "walk_ok extra (ns_grant s) g s s1"
    using grant_each_walk [OF visit g(1)] assms(3) by (simp add: grant_ok_def)
  have idle: "op_ongoing s1 \<or> (\<forall>a. \<not> waits g a)"
    using grant_each_idle [OF _ g(1)] assms(1) unfolding visit_ok_def by blast
  have "current_app s1 \<in> set (map fst g)" if "op_ongoing s1"
    using w that assms(4) unfolding walk_ok_def runs_def by metis
  moreover have "grant_ok g"
    using w assms(3) by (simp add: walk_ok_def grant_ok_def)
  ultimately have "nvs_inv s'"
    using idle g(2) by (auto simp: nvs_inv_def)
  moreover have "conserves (\<lambda>a. of_bool (extra a)) s s'"
    using w g(2) by (auto simp: conserves_def walk_ok_def pending_def runs_def)
  ultimately show ?thesis ..
qed

lemma do_next_op_conserves:
  assumes "nvs_do_next_op N cb code s = (Ok (), s')" and "grant_ok (ns_grant s)"
    and "op_ongoing s \<Longrightarrow> current_app s \<in> set (map fst (ns_grant s))"
  shows "nvs_inv s' \<and> conserves (\<lambda>a. of_bool (cb = Some a)) s s'"
proof (rule for_each_app_conserves)
  show "for_each_app (serve_app N cb code) s = (Ok (), s')"
    using assms(1) by (simp add: nvs_do_next_op_def)
  show "visit_ok (cb = Some app) app d d' s s' \<and> (op_ongoing s' \<or> \<not> wants_increment d')"
    if "serve_app N cb code app d s = (Ok d', s')" for app d s d' s'
    using serve_app_visit [OF that] by blast
qed (use assms in auto)

lemma handle_failed_init_conserves:
  assumes "handle_failed_init s = (Ok (), s')" and "nvs_inv s"
  shows "nvs_inv s' \<and> conserves (\<lambda>_. 0) s s'"
proof -
  have "nvs_inv s' \<and> conserves (\<lambda>a. of_bool False) (s\<lparr>init_failed := True\<rparr>) s'"
  proof (rule for_each_app_conserves)
    show "for_each_app fail_app (s\<lparr>init_failed := True\<rparr>) = (Ok (), s')"
      using assms(1) by (simp add: handle_failed_init_def)
    show "visit_ok False app d d' s s' \<and> (op_ongoing s' \<or> \<not> wants_increment d')" if "fail_app app d s = (Ok d', s')" for app d s d' s'
      using fail_app_visit [OF that] by blast
  qed (use assms(2) in \<open>auto simp: nvs_inv_def\<close>)
  then show ?thesis
    by (simp add: conserves_def pending_def runs_def)
qed

lemma increment_done_conserves:
  assumes "increment_done N status s = (Ok (), s')" and "nvs_inv s" and "op_ongoing s"
  shows "nvs_inv s' \<and> conserves (\<lambda>_. 0) s s'"
proof -
  obtain s1 code where s1: "nvs_do_next_op N (Some (current_app s)) code s1 = (Ok (), s')" "ns_grant s1 = ns_grant s"
      "\<not> op_ongoing s1" "scheduled s1 = scheduled s"
    using assms(1) by (auto simp: increment_done_def split: if_splits)
  have "nvs_inv s' \<and> conserves (\<lambda>a. of_bool (Some (current_app s) = Some a)) s1 s'"
    using assms(2) s1(2,3) by (intro do_next_op_conserves [OF s1(1)]) (auto simp: nvs_inv_def)
  then show ?thesis
    using s1 assms(3) by (auto simp: conserves_def pending_def runs_def answers_def)
qed

lemma initialize_done_conserves:
  assumes "initialize_done N status s = (Ok (), s')" and "nvs_inv s"
  shows "nvs_inv s' \<and> conserves (\<lambda>_. 0) s s'"
proof (cases "status = SUCCESS")
  case True
  have "nvs_inv s' \<and> conserves (\<lambda>a. of_bool (None = Some a)) (s\<lparr>init_failed := False, ns_value := 0\<rparr>) s'"
    using assms True by (intro do_next_op_conserves) (auto simp: initialize_done_def nvs_inv_def split: if_splits)
  then show ?thesis
    by (simp add: conserves_def pending_def runs_def answers_def)
next
  case False
  then show ?thesis
    using handle_failed_init_conserves assms by (simp add: initialize_done_def)
qed

lemma grant_upd:
  assumes "map_of g' = (map_of g)(app \<mapsto> d')"
  shows "waits g' a = (if a = app then wants_increment d' else waits g a)" "listens g' a = (if a = app then callback d' else listens g a)"
  using assms by (simp_all add: waits_def listens_def)

text \<open>A request of an application that does not wait: it starts when the counter is idle, and waits otherwise.\<close>

lemma request_idle:
  assumes "eff_bind (on_counter (nvc_read_and_increment N)) (\<lambda>rc s. case rc of
      SuccessWithValue v \<Rightarrow> (Ok SUCCESS, s\<lparr>ns_value := v, op_ongoing := True, current_app := app\<rparr>) | _ \<Rightarrow> (Ok FAIL, s)) s = (Ok rc, s')"
    and "nvs_inv s" and "\<not> op_ongoing s" and "app \<in> set (map fst (ns_grant s))"
  shows "nvs_inv s' \<and> conserves (\<lambda>a. of_bool (a = app \<and> rc = SUCCESS)) s s'"
proof -
  obtain rc0 c where c: "(case rc0 of
      SuccessWithValue v \<Rightarrow> (Ok SUCCESS, s\<lparr>nvcounter := c, ns_value := v, op_ongoing := True, current_app := app\<rparr>)
    | _ \<Rightarrow> (Ok FAIL, s\<lparr>nvcounter := c\<rparr>)) = ((Ok rc, s') :: (unit, ReturnCode) outcome \<times> _)"
    using assms(1) by (auto simp: eff_bind_Ok_iff on_counter_def split: prod.splits)
  have started: ?thesis if "rc = SUCCESS" "s' = s\<lparr>nvcounter := c, ns_value := v, op_ongoing := True, current_app := app\<rparr>" for v
    using that assms(2-4) by (simp add: nvs_inv_def conserves_def pending_def runs_def)
  have refused: ?thesis if "rc = FAIL" "s' = s\<lparr>nvcounter := c\<rparr>"
    using that assms(2-4) by (simp add: nvs_inv_def conserves_def pending_def runs_def)
  show ?thesis
    using c started refused by (cases rc0) auto
qed

lemma request_busy:
  assumes "grant_enter alloc NvApp_default app (\<lambda>d. ((), d\<lparr>wants_increment := True\<rparr>)) (ns_grant s) = (r, g)"
    and "nvs_inv s" and "op_ongoing s" and "\<not> waits (ns_grant s) app" and "app \<in> set (map fst (ns_grant s))"
  shows "r = Some () \<and> nvs_inv (s\<lparr>ns_grant := g\<rparr>) \<and> conserves (\<lambda>a. of_bool (a = app)) s (s\<lparr>ns_grant := g\<rparr>)"
proof -
  have "grant_ok (ns_grant s)" using assms(2) by (simp add: nvs_inv_def)
  with assms(1) show ?thesis
  proof (cases rule: grant_enter_cases)
    case no
    then show ?thesis using assms(5) by (simp add: map_of_eq_None_iff)
  next
    case (yes u d d')
    have "listens (ns_grant s) app \<Longrightarrow> callback d'"
      using yes(2,3) by (auto simp: listens_def split: option.splits)
    then show ?thesis
      using assms(2-4) yes grant_upd [OF yes(5)]
      by (auto simp: nvs_inv_def conserves_def pending_def runs_def simp del: set_map)
  qed
qed

lemma request_conserves:
  assumes req: "nvs_read_and_increment alloc N app s = (Ok rc, s')" and inv: "nvs_inv s"
  shows "nvs_inv s' \<and> conserves (\<lambda>a. of_bool (a = app \<and> rc = SUCCESS)) s s'"
proof -
  have same: ?thesis if "s' = s" "rc \<noteq> SUCCESS"
    using that inv by (simp add: conserves_def)
  show ?thesis
  proof (cases "init_failed s")
    case True
    then show ?thesis using req same by (simp add: nvs_read_and_increment_def)
  next
    case False
    obtain r g where enter: "grant_enter alloc NvApp_default app (\<lambda>d. (wants_increment d, d)) (ns_grant s) = (r, g)" by force
    have ok: "grant_ok (ns_grant s)" using inv by (simp add: nvs_inv_def)
    from enter ok show ?thesis
    proof (cases rule: grant_enter_cases)
      case no
      then show ?thesis using req same False enter by (simp add: nvs_read_and_increment_def)
    next
      case (yes w d d')
      let ?s = "s\<lparr>ns_grant := g\<rparr>"
      have sub: "waits g a = waits (ns_grant s) a" "listens (ns_grant s) a \<Longrightarrow> listens g a" for a
        using yes grant_upd [OF yes(5)] by (auto simp: waits_def listens_def NvApp_default_def split: option.splits)
      have inv': "nvs_inv ?s"
        using inv yes(4,6) sub by (auto simp: nvs_inv_def simp del: set_map)
      have trans: "conserves e s s'" if "conserves e ?s s'" for e
        using that sub by (simp add: conserves_def pending_def runs_def)
      have app: "app \<in> set (map fst (ns_grant ?s))"
        using yes(6) by simp
      have w: "waits g app = w"
        using yes(2) grant_upd(1) [OF yes(5), of app] by auto
      consider "w" | "\<not> w" "\<not> op_ongoing s" | "\<not> w" "op_ongoing s" by blast
      then show ?thesis
      proof cases
        case 1
        then have "rc = EBUSY" "s' = ?s"
          using req False enter yes(1) by (simp_all add: nvs_read_and_increment_def)
        then show ?thesis
          using inv' trans [of "\<lambda>_. 0"] by (simp add: conserves_def)
      next
        case 2
        then show ?thesis
          using req False enter yes(1) request_idle [of N app ?s rc s'] inv' app trans
          by (simp add: nvs_read_and_increment_def Let_def)
      next
        case 3
        obtain r2 g2 where e2: "grant_enter alloc NvApp_default app (\<lambda>d. ((), d\<lparr>wants_increment := True\<rparr>)) g = (r2, g2)" by force
        then have "r2 = Some () \<and> nvs_inv (?s\<lparr>ns_grant := g2\<rparr>) \<and> conserves (\<lambda>a. of_bool (a = app)) ?s (?s\<lparr>ns_grant := g2\<rparr>)"
          using request_busy [of alloc app ?s r2 g2] inv' app w 3 by simp
        then show ?thesis
          using req False enter yes(1) e2 3 trans by (auto simp: nvs_read_and_increment_def Let_def)
      qed
    qed
  qed
qed


section \<open>Properties\<close>

text \<open>C38. Each request the driver accepts is answered by exactly one callback. Requests, finished increments and finished
  initializations keep the sum of callbacks and pending requests of every listening application, except that an accepted
  request adds one; and whenever nothing is in progress nobody waits, so that no request is forgotten.
\<close>

theorem nvs_answers_every_request:
  assumes "nvs_inv s" and "listens (ns_grant s) a"
  shows "(\<forall>app rc s'. nvs_command alloc N 1 app s = (Ok rc, s') \<longrightarrow>
      nvs_inv s' \<and> answers s' a + pending s' a = answers s a + pending s a + of_bool (a = app \<and> rc = SUCCESS))
    \<and> (\<forall>status s'. op_ongoing s \<longrightarrow> increment_done N status s = (Ok (), s') \<longrightarrow>
      nvs_inv s' \<and> answers s' a + pending s' a = answers s a + pending s a)
    \<and> (\<forall>status s'. initialize_done N status s = (Ok (), s') \<longrightarrow>
      nvs_inv s' \<and> answers s' a + pending s' a = answers s a + pending s a)"
proof (intro conjI allI impI)
  fix app rc s'
  assume "nvs_command alloc N 1 app s = (Ok rc, s')"
  then have "nvs_inv s' \<and> conserves (\<lambda>a. of_bool (a = app \<and> rc = SUCCESS)) s s'"
    using request_conserves assms(1) by (simp add: nvs_command_def)
  then show "nvs_inv s'" "answers s' a + pending s' a = answers s a + pending s a + of_bool (a = app \<and> rc = SUCCESS)"
    using assms(2) by (simp_all add: conserves_def)
next
  fix status s'
  assume "op_ongoing s" "increment_done N status s = (Ok (), s')"
  then show "nvs_inv s'" "answers s' a + pending s' a = answers s a + pending s a"
    using increment_done_conserves [of N status s s'] assms by (simp_all add: conserves_def)
next
  fix status s'
  assume "initialize_done N status s = (Ok (), s')"
  then show "nvs_inv s'" "answers s' a + pending s' a = answers s a + pending s a"
    using initialize_done_conserves [of N status s s'] assms by (simp_all add: conserves_def)
qed

text \<open>A counter that always has the same value, and a driver with an increment of application 3 in progress.\<close>

definition fixed_counter :: "unit NvCounter" where
  "fixed_counter = \<lparr>nvc_initialize = ret SUCCESS, nvc_read_and_increment = ret (SuccessWithValue 5)\<rparr>"

definition demo_driver :: "unit NvCounterSyscall" where
  "demo_driver = (NvCounterSyscall_new ())\<lparr>op_ongoing := True, current_app := 3, ns_value := 5,
     ns_grant := [(3, \<lparr>wants_increment = False, callback = True\<rparr>)]\<rparr>"

lemma demo_driver_inv: "nvs_inv demo_driver" "listens (ns_grant demo_driver) 3" "op_ongoing demo_driver"
  by (simp_all add: demo_driver_def NvCounterSyscall_new_def nvs_inv_def grant_ok_def)

theorem nvs_answers_every_request_witness:
  "\<exists>s'. increment_done fixed_counter SUCCESS demo_driver = (Ok (), s') \<and> scheduled s' = [(3, 2, 6)]
    \<and> nvs_inv s' \<and> answers s' 3 + pending s' 3 = answers demo_driver 3 + pending demo_driver 3"
proof -
  have "\<exists>s'. increment_done fixed_counter SUCCESS demo_driver = (Ok (), s') \<and> scheduled s' = [(3, 2, 6)]"
    by (simp add: increment_done_def nvs_do_next_op_def for_each_app_def serve_app_def start_app_def demo_driver_def
        NvCounterSyscall_new_def schedule_def)
  then show ?thesis
    using nvs_answers_every_request [OF demo_driver_inv(1,2), where N = fixed_counter] demo_driver_inv(3) by blast
qed

text \<open>An application whose increment is in progress may ask for another one: the request is accepted and waits, where the
  documentation of the system call promises \<open>EBUSY\<close>.
\<close>

theorem nvs_second_request_accepted:
  assumes "nvs_inv s" and "runs s app" and "\<not> waits (ns_grant s) app" and "\<not> init_failed s"
  shows "\<exists>s'. nvs_command alloc N 1 app s = (Ok SUCCESS, s') \<and> waits (ns_grant s') app \<and> runs s' app"
proof -
  have "app \<in> set (map fst (ns_grant s))" and ok: "grant_ok (ns_grant s)" and op: "op_ongoing s"
    using assms(1,2) by (auto simp: nvs_inv_def runs_def split: if_splits)
  then obtain d where d: "map_of (ns_grant s) app = Some d"
    by (metis map_of_eq_None_iff not_None_eq set_map)
  then have "\<not> wants_increment d"
    using assms(3) by (simp add: waits_def)
  then show ?thesis
    using d ok op assms(2,4)
    by (auto simp: nvs_command_def nvs_read_and_increment_def grant_enter_def Let_def map_of_grant_put grant_put_ok waits_def runs_def)
qed

theorem nvs_second_request_accepted_witness:
  "\<exists>s'. nvs_command (\<lambda>_. True) fixed_counter 1 3 demo_driver = (Ok SUCCESS, s') \<and> waits (ns_grant s') 3 \<and> runs s' 3"
  using nvs_second_request_accepted [OF demo_driver_inv(1), of 3 "\<lambda>_. True" fixed_counter]
  by (simp add: demo_driver_def NvCounterSyscall_new_def runs_def)

end
