(* ===== verification/Spi_Device_Hw.thy ===== *)
theory Spi_Device_Hw
  imports Driver_Config Flash_Protocol
begin

text \<open>
  The SPI device of the kernel, \<^verbatim>\<open>kernel/h1/src/spi_device.rs\<close>: the controller that plays a flash chip towards
  the SPI host, its filters for commands passed through to the real chip, and the command memory in which it leaves what
  the host sent. The trait of \<^verbatim>\<open>hil/spi_device.rs\<close> is a record of operations.
\<close>

section \<open>Registers\<close>

text \<open>
  The registers the driver uses, one record per layout the source declares. A \<^verbatim>\<open>write\<close> sets every field it does
  not mention to zero, a \<^verbatim>\<open>modify\<close> keeps it.
\<close>

datatype SpsMode = Generic | SwetlandMode | EepromMode | ModeDisabled

record CTRL =
  MODE :: SpsMode
  CPHA :: bool
  CPOL :: bool
  IDLE_LVL :: bool
  TXBITOR :: bool
  RXBITOR :: bool

record EEPROM_CTRL =
  ADDR_MODE :: bool
  PASSTHRU_DIS :: bool
  EXT_FLASH_DIS :: bool
  INT_FLASH_DIS :: bool
  RAM_DIS :: bool
  MAILBOX_EN :: bool
  FIFO_PREFETCH_LIMIT :: "4 word"
  FAST_DUAL_RD_EN :: bool
  VIRTUAL_ADDR_FILTER_EN :: bool

record BUSY_OPCODE =
  BUSY_EN :: bool
  BUSY_VALUE :: byte

type_synonym PAGE = "23 word"

record RAM_CTRL_PAGE =
  WRAP_MODE :: bool
  INT_LVL :: byte

record CMD_MEM_PTR =
  PTR_VALUE :: "9 word"
  PTR_FULL :: bool

record PASSTHRU_FILTER_RULE =
  VALID :: bool
  FORCE_CMD :: byte
  CMD_MATCH :: byte
  CMD_MATCH_BIT_VECTOR :: byte

record EEPROM_INTERRUPT =
  CMD_ADDR_FIFO_NOT_EMPTY :: bool
  CMD_ADDR_FIFO_OVFL :: bool
  CMD_MEM_OVFL :: bool
  RAM_PAGE0_LVL :: bool
  RAM_PAGE1_LVL :: bool
  RAM_PAGE2_LVL :: bool
  RAM_PAGE3_LVL :: bool

datatype DATA = DATA (BYTE0: byte) (BYTE1: byte) (BYTE2: byte) (BYTE3: byte)

text \<open>
  \<open>cmd_addr_fifo\<close> is the content of the address FIFO, whose top a read removes; the register
  \<^verbatim>\<open>cmd_addr_fifo_empty\<close> tells whether it is empty. The status bits are set by the hardware; a write asks the
  hardware to clear one, which the \<open>_written\<close> fields record, as they do for the interrupt state. What the controller
  does with it is left open.
\<close>

record SpsRegisters =
  sps_ctrl :: CTRL
  eeprom_ctrl :: EEPROM_CTRL
  fast_dual_rd_opcode :: byte
  busy_opcode :: "BUSY_OPCODE list"
  eeprom_status :: byte
  eeprom_busy_status :: bool
  eeprom_busy_status_written :: bool
  eeprom_wel_status :: bool
  eeprom_wel_status_written :: bool
  jedec_id :: "DATA list"
  sfdp :: "DATA list"
  ram_virtual_page :: "PAGE list"
  ram_ctrl_page :: "RAM_CTRL_PAGE list"
  ext_flash_base_page :: PAGE
  ext_flash_limit_page :: PAGE
  ext_flash_trans_bit_vector :: u32
  ext_flash_trans_addr :: u32
  cmd_mem_rptr :: CMD_MEM_PTR
  cmd_addr_fifo :: "CMD_MEM_PTR list"
  passthru_filter_rule :: "PASSTHRU_FILTER_RULE list"
  eeprom_int_enable :: EEPROM_INTERRUPT
  eeprom_int_state_written :: bool
  generic_ram :: "byte list"
  eeprom_cmd_buf :: "byte list"

text \<open>The arrays have the sizes the register map gives them.\<close>

definition sps_sizes :: "SpsRegisters \<Rightarrow> bool" where
  "sps_sizes r \<longleftrightarrow> length (busy_opcode r) = 8 \<and> length (jedec_id r) = 3 \<and> length (sfdp r) = 32
     \<and> length (ram_virtual_page r) = 4 \<and> length (ram_ctrl_page r) = 4 \<and> length (passthru_filter_rule r) = 16
     \<and> length (generic_ram r) = 2048 \<and> length (eeprom_cmd_buf r) = 512"

definition PAGE_SHIFT :: nat where
  "PAGE_SHIFT = 9"

record SpiDeviceConfiguration =
  enable_fastread4b_cmd :: bool
  enable_enterexit4b_cmd :: bool
  startup_address_mode :: AddressMode

definition SpiDeviceConfiguration_default :: SpiDeviceConfiguration where
  "SpiDeviceConfiguration_default =
     \<lparr>enable_fastread4b_cmd = False, enable_enterexit4b_cmd = False, startup_address_mode = ThreeByte\<rparr>"

record SpiDeviceHardware =
  sps_registers :: SpsRegisters
  sps_client :: bool
  sps_config :: SpiDeviceConfiguration

definition SpiDeviceHardware_new :: "SpsRegisters \<Rightarrow> SpiDeviceConfiguration \<Rightarrow> SpiDeviceHardware" where
  "SpiDeviceHardware_new regs c = \<lparr>sps_registers = regs, sps_client = False, sps_config = c\<rparr>"

definition on_regs :: "(SpsRegisters \<Rightarrow> SpsRegisters) \<Rightarrow> SpiDeviceHardware \<Rightarrow> SpiDeviceHardware" where
  "on_regs f d = d\<lparr>sps_registers := f (sps_registers d)\<rparr>"

definition modify_eeprom_ctrl :: "(EEPROM_CTRL \<Rightarrow> EEPROM_CTRL) \<Rightarrow> SpsRegisters \<Rightarrow> SpsRegisters" where
  "modify_eeprom_ctrl f r = r\<lparr>eeprom_ctrl := f (eeprom_ctrl r)\<rparr>"

section \<open>Initialisation\<close>

text \<open>Writing an array of registers from an index on.\<close>

fun write_from :: "nat \<Rightarrow> 'a list \<Rightarrow> 'a list \<Rightarrow> 'a list" where
  "write_from i [] rs = rs"
| "write_from i (v # vs) rs = write_from (Suc i) vs (rs[i := v])"

definition passthru_rule :: "byte \<Rightarrow> byte \<Rightarrow> byte \<Rightarrow> PASSTHRU_FILTER_RULE" where
  "passthru_rule forced cmd vec = \<lparr>VALID = True, FORCE_CMD = forced, CMD_MATCH = cmd, CMD_MATCH_BIT_VECTOR = vec\<rparr>"

definition passthru_rule_clear :: PASSTHRU_FILTER_RULE where
  "passthru_rule_clear = \<lparr>VALID = False, FORCE_CMD = 0, CMD_MATCH = 0, CMD_MATCH_BIT_VECTOR = 0\<rparr>"

text \<open>The rules in the order of their registers.\<close>

definition passthru_rules :: "SpiDeviceConfiguration \<Rightarrow> PASSTHRU_FILTER_RULE list" where
  "passthru_rules c =
     [passthru_rule (OpCode_to_wire_value NormalRead) 0x00 0xf8] @
     (if \<not> enable_fastread4b_cmd c
      then [passthru_rule (OpCode_to_wire_value FastRead) 0x08 0xf8]
      else [passthru_rule (OpCode_to_wire_value FastRead) 0x08 0xfc,
            passthru_rule (OpCode_to_wire_value FastRead4B) 0x0c 0xfc]) @
     [passthru_rule (OpCode_to_wire_value NormalRead) 0x10 0xf0,
      passthru_rule (OpCode_to_wire_value FastReadDualOutput) 0x20 0xe0,
      passthru_rule (OpCode_to_wire_value NormalRead) 0x40 0xc0] @
     (if \<not> enable_enterexit4b_cmd c
      then [passthru_rule (OpCode_to_wire_value NormalRead) 0x80 0x80]
      else [passthru_rule (OpCode_to_wire_value ReadJedec) 0x80 0xe0,
            passthru_rule 0xa0 0xa0 0xf0,
            passthru_rule (OpCode_to_wire_value Enter4ByteAddressMode) 0xb0 0xf8,
            passthru_rule 0xbf 0xb0 0xf8,
            passthru_rule 0xc8 0xc0 0xe0,
            passthru_rule (OpCode_to_wire_value Exit4ByteAddressMode) 0xe0 0xf0,
            passthru_rule 0xff 0xf0 0xf0])"

definition init_passthrough_filters :: "SpiDeviceHardware \<Rightarrow> SpiDeviceHardware" where
  "init_passthrough_filters d =
     on_regs (\<lambda>r.
       let rules = passthru_rules (sps_config d);
           written = write_from 0 rules (passthru_filter_rule r);
           cleared = write_from (length rules) (replicate (length written - length rules) passthru_rule_clear) written in
       modify_eeprom_ctrl (\<lambda>e. e\<lparr>PASSTHRU_DIS := False\<rparr>) (r\<lparr>passthru_filter_rule := cleared\<rparr>)) d"

definition busy_opcode_set :: "OpCode \<Rightarrow> BUSY_OPCODE" where
  "busy_opcode_set op = \<lparr>BUSY_EN = True, BUSY_VALUE = OpCode_to_wire_value op\<rparr>"

definition init_busy_opcodes :: "SpiDeviceHardware \<Rightarrow> SpiDeviceHardware" where
  "init_busy_opcodes d =
     on_regs (\<lambda>r.
       let ops = (if enable_enterexit4b_cmd (sps_config d)
                  then [busy_opcode_set Enter4ByteAddressMode, busy_opcode_set Exit4ByteAddressMode] else [])
                 @ [busy_opcode_set WriteStatusRegister];
           written = write_from 0 ops (busy_opcode r) in
       r\<lparr>busy_opcode := write_from (length ops)
          (replicate (length written - length ops) \<lparr>BUSY_EN = False, BUSY_VALUE = 0\<rparr>) written\<rparr>) d"

definition DATA_ones :: DATA where
  "DATA_ones = DATA 0xff 0xff 0xff 0xff"

definition clear_jedec :: "SpiDeviceHardware \<Rightarrow> SpiDeviceHardware" where
  "clear_jedec = on_regs (\<lambda>r. r\<lparr>jedec_id := map (\<lambda>_. DATA_ones) (jedec_id r)\<rparr>)"

definition clear_sfdp :: "SpiDeviceHardware \<Rightarrow> SpiDeviceHardware" where
  "clear_sfdp = on_regs (\<lambda>r. r\<lparr>sfdp := map (\<lambda>_. DATA_ones) (sfdp r)\<rparr>)"

definition clear_send_data :: "SpiDeviceHardware \<Rightarrow> SpiDeviceHardware" where
  "clear_send_data = on_regs (\<lambda>r. r\<lparr>generic_ram := map (\<lambda>_. 0xff) (generic_ram r)\<rparr>)"

definition clear_rx_interrupt :: "SpiDeviceHardware \<Rightarrow> SpiDeviceHardware" where
  "clear_rx_interrupt = on_regs (\<lambda>r. r\<lparr>eeprom_int_state_written := True\<rparr>)"

definition enable_rx_interrupt :: "SpiDeviceHardware \<Rightarrow> SpiDeviceHardware" where
  "enable_rx_interrupt = on_regs (\<lambda>r. r\<lparr>eeprom_int_enable := (eeprom_int_enable r)\<lparr>CMD_ADDR_FIFO_NOT_EMPTY := True\<rparr>\<rparr>)"

definition disable_rx_interrupt :: "SpiDeviceHardware \<Rightarrow> SpiDeviceHardware" where
  "disable_rx_interrupt = on_regs (\<lambda>r. r\<lparr>eeprom_int_enable := (eeprom_int_enable r)\<lparr>CMD_ADDR_FIFO_NOT_EMPTY := False\<rparr>\<rparr>)"

definition SpiDeviceHardware_set_address_mode :: "AddressMode \<Rightarrow> SpiDeviceHardware \<Rightarrow> SpiDeviceHardware" where
  "SpiDeviceHardware_set_address_mode m =
     on_regs (modify_eeprom_ctrl (\<lambda>e. e\<lparr>ADDR_MODE := (case m of ThreeByte \<Rightarrow> False | FourByte \<Rightarrow> True)\<rparr>))"

definition no_interrupts :: EEPROM_INTERRUPT where
  "no_interrupts = \<lparr>CMD_ADDR_FIFO_NOT_EMPTY = False, CMD_ADDR_FIFO_OVFL = False, CMD_MEM_OVFL = False, RAM_PAGE0_LVL = False,
     RAM_PAGE1_LVL = False, RAM_PAGE2_LVL = False, RAM_PAGE3_LVL = False\<rparr>"

definition disable_everything :: "SpsRegisters \<Rightarrow> SpsRegisters" where
  "disable_everything r =
     r\<lparr>eeprom_int_enable := no_interrupts,
       sps_ctrl := \<lparr>MODE = ModeDisabled, CPHA = False, CPOL = False, IDLE_LVL = False, TXBITOR = False, RXBITOR = False\<rparr>,
       eeprom_ctrl := \<lparr>ADDR_MODE = False, PASSTHRU_DIS = True, EXT_FLASH_DIS = True, INT_FLASH_DIS = True, RAM_DIS = True,
         MAILBOX_EN = False, FIFO_PREFETCH_LIMIT = 2, FAST_DUAL_RD_EN = True, VIRTUAL_ADDR_FILTER_EN = False\<rparr>\<rparr>"

definition set_fast_dual_rd_opcode :: "SpiDeviceHardware \<Rightarrow> SpiDeviceHardware" where
  "set_fast_dual_rd_opcode d =
     on_regs (\<lambda>r. r\<lparr>fast_dual_rd_opcode := OpCode_to_wire_value
        (if enable_fastread4b_cmd (sps_config d) then FastRead4B else FastReadDualOutput)\<rparr>) d"

definition enable_eeprom_mode :: "SpiDeviceHardware \<Rightarrow> SpiDeviceHardware" where
  "enable_eeprom_mode = on_regs (\<lambda>r. r\<lparr>sps_ctrl := (sps_ctrl r)\<lparr>MODE := EepromMode\<rparr>\<rparr>)"

definition SpiDeviceHardware_init :: "SpiDeviceConfiguration \<Rightarrow> SpiDeviceHardware \<Rightarrow> SpiDeviceHardware" where
  "SpiDeviceHardware_init c d =
     (let d = on_regs disable_everything d;
          d = d\<lparr>sps_config := c\<rparr>;
          d = set_fast_dual_rd_opcode d;
          d = init_passthrough_filters d;
          d = clear_jedec d;
          d = clear_sfdp d;
          d = init_busy_opcodes d;
          d = SpiDeviceHardware_set_address_mode (startup_address_mode (sps_config d)) d;
          d = clear_send_data d;
          d = enable_eeprom_mode d in
      enable_rx_interrupt d)"

section \<open>The trait\<close>

record 's SpiDeviceHil =
  hil_configure_addresses :: "AddressConfig \<Rightarrow> 's \<Rightarrow> 's"
  hil_set_address_mode :: "AddressMode \<Rightarrow> 's \<Rightarrow> 's"
  hil_get_address_mode :: "'s \<Rightarrow> AddressMode"
  hil_get_received_data :: "byte list \<Rightarrow> 's \<Rightarrow> nat \<times> byte list \<times> 's"
  hil_put_send_data :: "byte list \<Rightarrow> 's \<Rightarrow> ReturnCode \<times> 's"
  hil_set_status :: "byte \<Rightarrow> 's \<Rightarrow> 's"
  hil_clear_busy :: "'s \<Rightarrow> 's"
  hil_is_write_enable_set :: "'s \<Rightarrow> bool"
  hil_clear_write_enable :: "'s \<Rightarrow> 's"
  hil_set_jedec_id :: "byte list \<Rightarrow> 's \<Rightarrow> ReturnCode \<times> 's"
  hil_set_sfdp :: "byte list \<Rightarrow> 's \<Rightarrow> ReturnCode \<times> 's"

definition SpiDeviceHardware_set_client :: "bool \<Rightarrow> SpiDeviceHardware \<Rightarrow> SpiDeviceHardware" where
  "SpiDeviceHardware_set_client client d = d\<lparr>sps_client := client\<rparr>"

fun configure_ram_pages :: "u32 \<Rightarrow> nat list \<Rightarrow> SpsRegisters \<Rightarrow> SpsRegisters" where
  "configure_ram_pages base [] r = r"
| "configure_ram_pages base (i # is) r =
     configure_ram_pages base is (r\<lparr>ram_virtual_page := (ram_virtual_page r)[i := ucast (base + word_of_nat i)],
                                    ram_ctrl_page := (ram_ctrl_page r)[i := \<lparr>WRAP_MODE = False, INT_LVL = 0\<rparr>]\<rparr>)"

definition SpiDeviceHardware_configure_addresses :: "AddressConfig \<Rightarrow> SpiDeviceHardware \<Rightarrow> SpiDeviceHardware" where
  "SpiDeviceHardware_configure_addresses c = on_regs (\<lambda>r.
     let r = modify_eeprom_ctrl (\<lambda>e. e\<lparr>EXT_FLASH_DIS := True\<rparr>) r;
         r = modify_eeprom_ctrl (\<lambda>e. e\<lparr>VIRTUAL_ADDR_FILTER_EN := False\<rparr>) r;
         r = modify_eeprom_ctrl (\<lambda>e. e\<lparr>RAM_DIS := True\<rparr>) r;
         r = r\<lparr>ext_flash_base_page := ucast (drop_bit PAGE_SHIFT (flash_virtual_base c))\<rparr>;
         r = r\<lparr>ext_flash_limit_page := ucast (0xffffffff :: u32)\<rparr>;
         r = r\<lparr>ext_flash_trans_bit_vector := 0xffffffff\<rparr>;
         r = r\<lparr>ext_flash_trans_addr := flash_physical_base c\<rparr>;
         r = configure_ram_pages (drop_bit PAGE_SHIFT (ram_virtual_base c)) [0..<length (ram_virtual_page r)] r;
         r = modify_eeprom_ctrl (\<lambda>e. e\<lparr>EXT_FLASH_DIS := False\<rparr>) r;
         r = modify_eeprom_ctrl (\<lambda>e. e\<lparr>RAM_DIS := False\<rparr>) r in
     modify_eeprom_ctrl (\<lambda>e. e\<lparr>VIRTUAL_ADDR_FILTER_EN := False\<rparr>) r)"

definition SpiDeviceHardware_get_address_mode :: "SpiDeviceHardware \<Rightarrow> AddressMode" where
  "SpiDeviceHardware_get_address_mode d = (if ADDR_MODE (eeprom_ctrl (sps_registers d)) then FourByte else ThreeByte)"

text \<open>A loop over indices of the command memory that stops after \<open>len\<close> bytes.\<close>

fun copy_cmd :: "byte list \<Rightarrow> nat list \<Rightarrow> nat \<Rightarrow> nat \<Rightarrow> byte list \<Rightarrow> nat \<times> byte list" where
  "copy_cmd mem [] len tgt buf = (tgt, buf)"
| "copy_cmd mem (i # is) len tgt buf =
     (if len \<le> tgt then (tgt, buf) else copy_cmd mem is len (Suc tgt) (buf[tgt := mem ! i]))"

definition SpiDeviceHardware_get_received_data :: "byte list \<Rightarrow> SpiDeviceHardware \<Rightarrow> nat \<times> byte list \<times> SpiDeviceHardware" where
  "SpiDeviceHardware_get_received_data read_buffer d =
     (let r = sps_registers d in
      case cmd_addr_fifo r of
        [] \<Rightarrow> (0, read_buffer, d)
      | fifo_reg # fifo \<Rightarrow>
          let start_addr = unat (PTR_VALUE (cmd_mem_rptr r)); end_addr = unat (PTR_VALUE fifo_reg); mem = eeprom_cmd_buf r;
              (len, buf) =
                (if start_addr < end_addr
                 then let len = min (length read_buffer) (end_addr - start_addr) in
                      (len, snd (copy_cmd mem [start_addr..<end_addr] len 0 read_buffer))
                 else if PTR_FULL fifo_reg \<noteq> PTR_FULL (cmd_mem_rptr r)
                 then let len = min (length read_buffer) (length mem - start_addr + end_addr);
                          (tgt, buf) = copy_cmd mem [start_addr..<length mem] len 0 read_buffer in
                      (len, snd (copy_cmd mem [0..<end_addr] len tgt buf))
                 else (0, read_buffer)) in
          (len, buf, d\<lparr>sps_registers := r\<lparr>cmd_addr_fifo := fifo, cmd_mem_rptr := fifo_reg\<rparr>\<rparr>))"

definition SpiDeviceHardware_put_send_data :: "byte list \<Rightarrow> SpiDeviceHardware \<Rightarrow> ReturnCode \<times> SpiDeviceHardware" where
  "SpiDeviceHardware_put_send_data write_data d =
     (let ram = generic_ram (sps_registers d) in
      if length ram < length write_data then (ESIZE, d)
      else (SUCCESS, on_regs (\<lambda>r. r\<lparr>generic_ram :=
              write_from (length write_data) (replicate (length ram - length write_data) 0xff) (write_from 0 write_data ram)\<rparr>) d))"

definition SpiDeviceHardware_set_status :: "byte \<Rightarrow> SpiDeviceHardware \<Rightarrow> SpiDeviceHardware" where
  "SpiDeviceHardware_set_status status = on_regs (\<lambda>r. r\<lparr>eeprom_status := status\<rparr>)"

definition SpiDeviceHardware_clear_busy :: "SpiDeviceHardware \<Rightarrow> SpiDeviceHardware" where
  "SpiDeviceHardware_clear_busy = on_regs (\<lambda>r. r\<lparr>eeprom_busy_status_written := True\<rparr>)"

definition SpiDeviceHardware_is_busy :: "SpiDeviceHardware \<Rightarrow> bool" where
  "SpiDeviceHardware_is_busy d = eeprom_busy_status (sps_registers d)"

definition is_write_enabled :: "SpiDeviceHardware \<Rightarrow> bool" where
  "is_write_enabled d = eeprom_wel_status (sps_registers d)"

definition SpiDeviceHardware_clear_write_enable :: "SpiDeviceHardware \<Rightarrow> SpiDeviceHardware" where
  "SpiDeviceHardware_clear_write_enable = on_regs (\<lambda>r. r\<lparr>eeprom_wel_status_written := True\<rparr>)"

definition get_data_byte_or_default :: "byte list \<Rightarrow> nat \<Rightarrow> byte \<Rightarrow> byte" where
  "get_data_byte_or_default data idx dflt = (if idx < length data then data ! idx else dflt)"

text \<open>Bytes into 32-bit registers, missing ones as ones: the loop takes steps of four bytes.\<close>

function register_words :: "byte list \<Rightarrow> nat \<Rightarrow> DATA list" where
  "register_words data idx =
     (if length data \<le> idx then []
      else DATA (get_data_byte_or_default data (idx + 0) 0xff) (get_data_byte_or_default data (idx + 1) 0xff)
                (get_data_byte_or_default data (idx + 2) 0xff) (get_data_byte_or_default data (idx + 3) 0xff)
           # register_words data (idx + 4))"
  by auto
termination by (relation "measure (\<lambda>(data, idx). length data - idx)") auto

declare register_words.simps [simp del]

definition write_register_data :: "DATA list \<Rightarrow> byte list \<Rightarrow> ReturnCode \<times> DATA list" where
  "write_register_data regs data =
     (if length regs * 4 < length data then (ESIZE, regs)
      else let ws = register_words data 0 in
           (SUCCESS, write_from (length ws) (replicate (length regs - length ws) DATA_ones) (write_from 0 ws regs)))"

definition SpiDeviceHardware_set_jedec_id :: "byte list \<Rightarrow> SpiDeviceHardware \<Rightarrow> ReturnCode \<times> SpiDeviceHardware" where
  "SpiDeviceHardware_set_jedec_id data d =
     (case write_register_data (jedec_id (sps_registers d)) data of (rc, ws) \<Rightarrow> (rc, on_regs (\<lambda>r. r\<lparr>jedec_id := ws\<rparr>) d))"

definition SpiDeviceHardware_set_sfdp :: "byte list \<Rightarrow> SpiDeviceHardware \<Rightarrow> ReturnCode \<times> SpiDeviceHardware" where
  "SpiDeviceHardware_set_sfdp data d =
     (case write_register_data (sfdp (sps_registers d)) data of (rc, ws) \<Rightarrow> (rc, on_regs (\<lambda>r. r\<lparr>sfdp := ws\<rparr>) d))"

definition h1_spi_device :: "SpiDeviceHardware SpiDeviceHil" where
  "h1_spi_device =
     \<lparr>hil_configure_addresses = SpiDeviceHardware_configure_addresses,
      hil_set_address_mode = SpiDeviceHardware_set_address_mode,
      hil_get_address_mode = SpiDeviceHardware_get_address_mode,
      hil_get_received_data = SpiDeviceHardware_get_received_data,
      hil_put_send_data = SpiDeviceHardware_put_send_data,
      hil_set_status = SpiDeviceHardware_set_status,
      hil_clear_busy = SpiDeviceHardware_clear_busy,
      hil_is_write_enable_set = is_write_enabled,
      hil_clear_write_enable = SpiDeviceHardware_clear_write_enable,
      hil_set_jedec_id = SpiDeviceHardware_set_jedec_id,
      hil_set_sfdp = SpiDeviceHardware_set_sfdp\<rparr>"

text \<open>
  The interrupt handler. The client's state contains the device: \<open>device\<close> reads it, \<open>on_device\<close> changes it.
\<close>

definition handle_interrupt_cmd_addr_fifo_not_empty ::
    "('s \<Rightarrow> SpiDeviceHardware) \<Rightarrow> ((SpiDeviceHardware \<Rightarrow> SpiDeviceHardware) \<Rightarrow> 's \<Rightarrow> 's) \<Rightarrow> (bool \<Rightarrow> bool \<Rightarrow> 's \<Rightarrow> 's) \<Rightarrow> 's \<Rightarrow> 's" where
  "handle_interrupt_cmd_addr_fifo_not_empty device on_device data_available s =
     on_device clear_rx_interrupt
       (if cmd_addr_fifo (sps_registers (device s)) \<noteq> [] \<and> sps_client (device s)
        then data_available (SpiDeviceHardware_is_busy (device s)) (is_write_enabled (device s)) s
        else s)"


section \<open>Arrays of registers\<close>

lemma length_write_from [simp]: "length (write_from i vs rs) = length rs"
  by (induction i vs rs rule: write_from.induct) auto

lemma write_from_eq: "i + length vs \<le> length rs \<Longrightarrow> write_from i vs rs = take i rs @ vs @ drop (i + length vs) rs"
proof (induction i vs rs rule: write_from.induct)
  case (2 i v vs rs)
  then have "take (Suc i) (rs[i := v]) = take i rs @ [v]"
    by (simp add: take_Suc_conv_app_nth)
  with 2 show ?case by simp
qed simp

text \<open>Values from the start, the rest filled: the way every table of the controller is written.\<close>

lemma write_from_fill:
  assumes "length vs \<le> length rs"
  shows "write_from (length vs) (replicate (length rs - length vs) x) (write_from 0 vs rs) = vs @ replicate (length rs - length vs) x"
  using assms by (simp add: write_from_eq)

lemma configure_ram_pages_length [simp]:
  "length (ram_virtual_page (configure_ram_pages b is r)) = length (ram_virtual_page r)"
  "length (ram_ctrl_page (configure_ram_pages b is r)) = length (ram_ctrl_page r)"
  by (induction b "is" r rule: configure_ram_pages.induct) auto

lemma configure_ram_pages_others [simp]:
  "busy_opcode (configure_ram_pages b is r) = busy_opcode r"
  "jedec_id (configure_ram_pages b is r) = jedec_id r"
  "sfdp (configure_ram_pages b is r) = sfdp r"
  "passthru_filter_rule (configure_ram_pages b is r) = passthru_filter_rule r"
  "generic_ram (configure_ram_pages b is r) = generic_ram r"
  "eeprom_cmd_buf (configure_ram_pages b is r) = eeprom_cmd_buf r"
  "eeprom_ctrl (configure_ram_pages b is r) = eeprom_ctrl r"
  "ext_flash_base_page (configure_ram_pages b is r) = ext_flash_base_page r"
  "ext_flash_limit_page (configure_ram_pages b is r) = ext_flash_limit_page r"
  "ext_flash_trans_addr (configure_ram_pages b is r) = ext_flash_trans_addr r"
  "ext_flash_trans_bit_vector (configure_ram_pages b is r) = ext_flash_trans_bit_vector r"
  by (induction b "is" r rule: configure_ram_pages.induct) auto

lemma on_regs_simps [simp]:
  "sps_registers (on_regs f d) = f (sps_registers d)"
  "sps_client (on_regs f d) = sps_client d"
  "sps_config (on_regs f d) = sps_config d"
  by (simp_all add: on_regs_def)

lemmas sps_defs = modify_eeprom_ctrl_def init_passthrough_filters_def init_busy_opcodes_def clear_jedec_def clear_sfdp_def
  clear_send_data_def clear_rx_interrupt_def enable_rx_interrupt_def disable_rx_interrupt_def
  SpiDeviceHardware_set_address_mode_def disable_everything_def set_fast_dual_rd_opcode_def enable_eeprom_mode_def
  SpiDeviceHardware_set_client_def SpiDeviceHardware_configure_addresses_def SpiDeviceHardware_set_status_def
  SpiDeviceHardware_clear_busy_def SpiDeviceHardware_clear_write_enable_def

text \<open>A controller with nothing in it, and one with a packet of three bytes across the end of the command memory.\<close>

definition sps_zero :: SpsRegisters where
  "sps_zero = \<lparr>sps_ctrl = \<lparr>MODE = Generic, CPHA = False, CPOL = False, IDLE_LVL = False, TXBITOR = False, RXBITOR = False\<rparr>,
     eeprom_ctrl = \<lparr>ADDR_MODE = False, PASSTHRU_DIS = False, EXT_FLASH_DIS = False, INT_FLASH_DIS = False, RAM_DIS = False,
       MAILBOX_EN = False, FIFO_PREFETCH_LIMIT = 0, FAST_DUAL_RD_EN = False, VIRTUAL_ADDR_FILTER_EN = False\<rparr>,
     fast_dual_rd_opcode = 0, busy_opcode = replicate 8 \<lparr>BUSY_EN = False, BUSY_VALUE = 0\<rparr>, eeprom_status = 0,
     eeprom_busy_status = False, eeprom_busy_status_written = False, eeprom_wel_status = False, eeprom_wel_status_written = False,
     jedec_id = replicate 3 DATA_ones, sfdp = replicate 32 DATA_ones, ram_virtual_page = replicate 4 0,
     ram_ctrl_page = replicate 4 \<lparr>WRAP_MODE = False, INT_LVL = 0\<rparr>, ext_flash_base_page = 0, ext_flash_limit_page = 0,
     ext_flash_trans_bit_vector = 0, ext_flash_trans_addr = 0, cmd_mem_rptr = \<lparr>PTR_VALUE = 0, PTR_FULL = False\<rparr>,
     cmd_addr_fifo = [], passthru_filter_rule = replicate 16 passthru_rule_clear, eeprom_int_enable = no_interrupts,
     eeprom_int_state_written = False, generic_ram = replicate 2048 0, eeprom_cmd_buf = replicate 512 0\<rparr>"

definition sps_demo :: SpsRegisters where
  "sps_demo = sps_zero\<lparr>cmd_mem_rptr := \<lparr>PTR_VALUE = 510, PTR_FULL = False\<rparr>,
     cmd_addr_fifo := [\<lparr>PTR_VALUE = 1, PTR_FULL = True\<rparr>], eeprom_cmd_buf := 3 # replicate 509 0 @ [1, 2]\<rparr>"

lemma sps_zero_sizes: "sps_sizes sps_zero"
  by (simp add: sps_sizes_def sps_zero_def)

lemma sps_demo_sizes: "sps_sizes sps_demo"
  by (simp add: sps_sizes_def sps_demo_def sps_zero_def)

section \<open>Passing commands through\<close>

text \<open>A valid rule applies to a command that agrees with it on the bits of its vector.\<close>

definition rule_matches :: "PASSTHRU_FILTER_RULE \<Rightarrow> byte \<Rightarrow> bool" where
  "rule_matches p cmd \<longleftrightarrow> VALID p \<and> cmd AND CMD_MATCH_BIT_VECTOR p = CMD_MATCH p AND CMD_MATCH_BIT_VECTOR p"

definition forced_cmds :: "PASSTHRU_FILTER_RULE list \<Rightarrow> byte \<Rightarrow> byte list" where
  "forced_cmds ps cmd = map FORCE_CMD (filter (\<lambda>p. rule_matches p cmd) ps)"

text \<open>The op codes that change the flash chip or unlock a change.\<close>

definition modifies_chip :: "OpCode \<Rightarrow> bool" where
  "modifies_chip op \<longleftrightarrow> op \<in> {WriteStatusRegister, WriteEnable, SectorErase, BlockErase32KB, BlockErase64KB, ChipErase,
     ChipErase2, PageProgram}"

lemma length_passthru_rules: "length (passthru_rules c) \<le> 16"
  by (simp add: passthru_rules_def)

lemma init_filters:
  assumes "length (passthru_filter_rule (sps_registers d)) = 16"
  shows "passthru_filter_rule (sps_registers (SpiDeviceHardware_init c d)) =
    passthru_rules c @ replicate (16 - length (passthru_rules c)) passthru_rule_clear"
  using assms length_passthru_rules [of c] write_from_fill [of "passthru_rules c" "passthru_filter_rule (sps_registers d)" passthru_rule_clear]
  by (simp add: SpiDeviceHardware_init_def sps_defs Let_def)

lemma forced_cmds_append: "forced_cmds (ps @ qs) cmd = forced_cmds ps cmd @ forced_cmds qs cmd"
  by (simp add: forced_cmds_def)

lemma forced_cmds_clear: "forced_cmds (replicate n passthru_rule_clear) cmd = []"
  by (simp add: forced_cmds_def rule_matches_def passthru_rule_clear_def)

lemma forced_by_init:
  assumes "length (passthru_filter_rule (sps_registers d)) = 16"
  shows "forced_cmds (passthru_filter_rule (sps_registers (SpiDeviceHardware_init c d))) cmd = forced_cmds (passthru_rules c) cmd"
  using assms by (simp add: init_filters forced_cmds_append forced_cmds_clear)

text \<open>A vector of leading ones selects a range of commands.\<close>

lemma and_not_mask_eq_iff: "(a :: byte) AND NOT (mask k) = b AND NOT (mask k) \<longleftrightarrow> drop_bit k a = drop_bit k b"
proof
  assume "drop_bit k a = drop_bit k b"
  then have "bit a (k + j) = bit b (k + j)" for j
    by (metis bit_drop_bit_eq comp_apply)
  then have "bit a n = bit b n" if "k \<le> n" for n
    using that by (metis le_add_diff_inverse)
  then show "a AND NOT (mask k) = b AND NOT (mask k)"
    by (intro bit_word_eqI) (auto simp: bit_simps)
next
  assume eq: "a AND NOT (mask k) = b AND NOT (mask k)"
  have "drop_bit k x = drop_bit k (x AND NOT (mask k))" for x :: byte
    by (intro bit_word_eqI) (auto simp: bit_simps dest: bit_imp_le_length)
  then show "drop_bit k a = drop_bit k b"
    using eq by metis
qed

lemma rule_matches_range:
  assumes "vec = NOT (mask k)" and "unat m = q * 2 ^ k"
  shows "rule_matches (passthru_rule f m vec) cmd \<longleftrightarrow> q * 2 ^ k \<le> unat cmd \<and> unat cmd < (q + 1) * 2 ^ k"
proof -
  have "rule_matches (passthru_rule f m vec) cmd \<longleftrightarrow> drop_bit k cmd = drop_bit k m"
    by (simp add: rule_matches_def passthru_rule_def assms(1) and_not_mask_eq_iff)
  also have "\<dots> \<longleftrightarrow> unat cmd div 2 ^ k = q"
    unfolding word_unat_eq_iff unat_drop_bit_eq by (simp add: drop_bit_eq_div assms(2))
  also have "\<dots> \<longleftrightarrow> q * 2 ^ k \<le> unat cmd \<and> unat cmd < (q + 1) * 2 ^ k"
    by (auto simp: mult.commute add.commute intro!: div_nat_eqI dividend_less_times_div)
  finally show ?thesis .
qed

lemma rule_matches_ranges:
  "rule_matches (passthru_rule f 0x00 0xf8) cmd \<longleftrightarrow> unat cmd < 0x08"
  "rule_matches (passthru_rule f 0x08 0xf8) cmd \<longleftrightarrow> 0x08 \<le> unat cmd \<and> unat cmd < 0x10"
  "rule_matches (passthru_rule f 0x08 0xfc) cmd \<longleftrightarrow> 0x08 \<le> unat cmd \<and> unat cmd < 0x0c"
  "rule_matches (passthru_rule f 0x0c 0xfc) cmd \<longleftrightarrow> 0x0c \<le> unat cmd \<and> unat cmd < 0x10"
  "rule_matches (passthru_rule f 0x10 0xf0) cmd \<longleftrightarrow> 0x10 \<le> unat cmd \<and> unat cmd < 0x20"
  "rule_matches (passthru_rule f 0x20 0xe0) cmd \<longleftrightarrow> 0x20 \<le> unat cmd \<and> unat cmd < 0x40"
  "rule_matches (passthru_rule f 0x40 0xc0) cmd \<longleftrightarrow> 0x40 \<le> unat cmd \<and> unat cmd < 0x80"
  "rule_matches (passthru_rule f 0x80 0x80) cmd \<longleftrightarrow> 0x80 \<le> unat cmd \<and> unat cmd < 0x100"
  "rule_matches (passthru_rule f 0x80 0xe0) cmd \<longleftrightarrow> 0x80 \<le> unat cmd \<and> unat cmd < 0xa0"
  "rule_matches (passthru_rule f 0xa0 0xf0) cmd \<longleftrightarrow> 0xa0 \<le> unat cmd \<and> unat cmd < 0xb0"
  "rule_matches (passthru_rule f 0xb0 0xf8) cmd \<longleftrightarrow> 0xb0 \<le> unat cmd \<and> unat cmd < 0xb8"
  "rule_matches (passthru_rule f 0xc0 0xe0) cmd \<longleftrightarrow> 0xc0 \<le> unat cmd \<and> unat cmd < 0xe0"
  "rule_matches (passthru_rule f 0xe0 0xf0) cmd \<longleftrightarrow> 0xe0 \<le> unat cmd \<and> unat cmd < 0xf0"
  "rule_matches (passthru_rule f 0xf0 0xf0) cmd \<longleftrightarrow> 0xf0 \<le> unat cmd \<and> unat cmd < 0x100"
  using rule_matches_range [of "0xf8" 3 "0x00" 0 f cmd] rule_matches_range [of "0xf8" 3 "0x08" 1 f cmd]
    rule_matches_range [of "0xfc" 2 "0x08" 2 f cmd] rule_matches_range [of "0xfc" 2 "0x0c" 3 f cmd]
    rule_matches_range [of "0xf0" 4 "0x10" 1 f cmd] rule_matches_range [of "0xe0" 5 "0x20" 1 f cmd]
    rule_matches_range [of "0xc0" 6 "0x40" 1 f cmd] rule_matches_range [of "0x80" 7 "0x80" 1 f cmd]
    rule_matches_range [of "0xe0" 5 "0x80" 4 f cmd] rule_matches_range [of "0xf0" 4 "0xa0" 10 f cmd]
    rule_matches_range [of "0xf8" 3 "0xb0" 22 f cmd] rule_matches_range [of "0xe0" 5 "0xc0" 6 f cmd]
    rule_matches_range [of "0xf0" 4 "0xe0" 14 f cmd] rule_matches_range [of "0xf0" 4 "0xf0" 15 f cmd]
  by (simp_all add: mask_eq_exp_minus_1)

lemma forced_cmds_simps [simp]:
  "forced_cmds [] cmd = []"
  "forced_cmds (p # ps) cmd = (if rule_matches p cmd then FORCE_CMD p # forced_cmds ps cmd else forced_cmds ps cmd)"
  by (simp_all add: forced_cmds_def)

lemma forced_cmds_Nil_iff: "forced_cmds ps cmd = [] \<longleftrightarrow> list_all (\<lambda>p. \<not> rule_matches p cmd) ps"
  by (induction ps) auto

lemma unmatched_cmds:
  "forced_cmds (passthru_rules c) cmd = [] \<longleftrightarrow> enable_enterexit4b_cmd c \<and> 0xb8 \<le> unat cmd \<and> unat cmd \<le> 0xbf"
proof -
  have "unat cmd < 256"
    using unsigned_less [of cmd] by simp
  then show ?thesis
    unfolding forced_cmds_Nil_iff
    by (cases "enable_fastread4b_cmd c"; cases "enable_enterexit4b_cmd c")
      (simp_all add: passthru_rules_def rule_matches_ranges, arith+)
qed

lemma forced_cmds_values:
  assumes "f \<in> set (forced_cmds (passthru_rules c) cmd)"
  shows "f \<in> {0x03, 0x0b, 0x0c, 0x3b, 0x9f, 0xa0, 0xb7, 0xbf, 0xc8, 0xe9, 0xff}"
proof -
  have "f \<in> FORCE_CMD ` set (passthru_rules c)"
    using assms by (auto simp: forced_cmds_def)
  then show ?thesis
    by (auto simp: passthru_rules_def passthru_rule_def split: if_splits)
qed

text \<open>
  What the flash chip behind the device may see when the host sends a command: the command itself when filtering is switched
  off or when no valid rule applies to it, and otherwise what the applicable rules force it to.
\<close>

definition chip_cmds :: "SpsRegisters \<Rightarrow> byte \<Rightarrow> byte list" where
  "chip_cmds r cmd =
     (let forced = forced_cmds (passthru_filter_rule r) cmd in if PASSTHRU_DIS (eeprom_ctrl r) \<or> forced = [] then [cmd] else forced)"

lemma init_filters_on: "\<not> PASSTHRU_DIS (eeprom_ctrl (sps_registers (SpiDeviceHardware_init c d)))"
  by (simp add: SpiDeviceHardware_init_def sps_defs Let_def)

lemma chip_cmds_cases:
  assumes "f \<in> set (chip_cmds r cmd)" and "\<not> PASSTHRU_DIS (eeprom_ctrl r)"
  obtains (passed) "forced_cmds (passthru_filter_rule r) cmd = []" and "f = cmd"
  | (forced) "f \<in> set (forced_cmds (passthru_filter_rule r) cmd)"
  using assms by (auto simp: chip_cmds_def Let_def split: if_splits)

text \<open>C5. Whatever command the host sends, what reaches the flash chip behind the device, be it the command itself because
  nothing filters it or what a filter turns it into, is none of the commands that change the chip or unlock a change.
\<close>

theorem passthrough_never_modifies:
  assumes "sps_sizes (sps_registers d)" and "modifies_chip op"
  shows "OpCode_to_wire_value op \<notin> set (chip_cmds (sps_registers (SpiDeviceHardware_init c d)) cmd)"
proof
  have sizes: "length (passthru_filter_rule (sps_registers d)) = 16"
    using assms(1) by (simp add: sps_sizes_def)
  assume "OpCode_to_wire_value op \<in> set (chip_cmds (sps_registers (SpiDeviceHardware_init c d)) cmd)"
  then show False
    using init_filters_on
  proof (cases rule: chip_cmds_cases)
    case passed
    then have "0xb8 \<le> unat (OpCode_to_wire_value op) \<and> unat (OpCode_to_wire_value op) \<le> 0xbf"
      by (simp add: forced_by_init [OF sizes] unmatched_cmds)
    then show False
      using assms(2) by (auto simp: modifies_chip_def)
  next
    case forced
    then have "OpCode_to_wire_value op \<in> {0x03, 0x0b, 0x0c, 0x3b, 0x9f, 0xa0, 0xb7, 0xbf, 0xc8, 0xe9, 0xff}"
      unfolding forced_by_init [OF sizes] by (rule forced_cmds_values)
    then show False
      using assms(2) by (auto simp: modifies_chip_def)
  qed
qed

text \<open>A host that sends the page program command makes the chip see a read.\<close>

theorem passthrough_never_modifies_witness:
  "sps_sizes sps_zero \<and> modifies_chip PageProgram \<and>
   chip_cmds (sps_registers (SpiDeviceHardware_init SpiDeviceConfiguration_default
     (SpiDeviceHardware_new sps_zero SpiDeviceConfiguration_default))) (OpCode_to_wire_value PageProgram) =
     [OpCode_to_wire_value NormalRead] \<and>
   OpCode_to_wire_value PageProgram \<notin> set (chip_cmds (sps_registers
     (SpiDeviceHardware_init SpiDeviceConfiguration_default
       (SpiDeviceHardware_new sps_zero SpiDeviceConfiguration_default))) (OpCode_to_wire_value PageProgram))"
proof -
  let ?d = "SpiDeviceHardware_new sps_zero SpiDeviceConfiguration_default"
  have op: "modifies_chip PageProgram" and sizes: "sps_sizes (sps_registers ?d)"
    using sps_zero_sizes by (simp_all add: modifies_chip_def SpiDeviceHardware_new_def)
  have "forced_cmds (passthru_filter_rule (sps_registers (SpiDeviceHardware_init SpiDeviceConfiguration_default ?d)))
      (OpCode_to_wire_value PageProgram) = [OpCode_to_wire_value NormalRead]"
    using sizes by (simp add: forced_by_init sps_sizes_def passthru_rules_def rule_matches_def passthru_rule_def
        SpiDeviceConfiguration_default_def)
  then show ?thesis
    using passthrough_never_modifies [OF sizes op] op sps_zero_sizes init_filters_on
    by (simp add: chip_cmds_def)
qed

text \<open>The commands that no filter applies to: none when the device ignores the address mode commands, and otherwise the eight
  commands the fourth of the additional rules was meant for.
\<close>

theorem passthrough_unmatched:
  assumes "sps_sizes (sps_registers d)"
  shows "{cmd. forced_cmds (passthru_filter_rule (sps_registers (SpiDeviceHardware_init c d))) cmd = []} =
    (if enable_enterexit4b_cmd c then {0xb8, 0xb9, 0xba, 0xbb, 0xbc, 0xbd, 0xbe, 0xbf} else {})"
proof -
  have "0xb8 \<le> unat cmd \<and> unat cmd \<le> 0xbf \<longleftrightarrow> cmd \<in> {0xb8, 0xb9, 0xba, 0xbb, 0xbc, 0xbd, 0xbe, 0xbf}" for cmd :: byte
    by (auto simp: word_unat_eq_iff)
  then show ?thesis
    using assms by (auto simp: forced_by_init sps_sizes_def unmatched_cmds)
qed

theorem passthrough_unmatched_witness:
  "sps_sizes sps_zero \<and>
   {cmd. forced_cmds (passthru_filter_rule (sps_registers (SpiDeviceHardware_init
      \<lparr>enable_fastread4b_cmd = False, enable_enterexit4b_cmd = True, startup_address_mode = ThreeByte\<rparr>
      (SpiDeviceHardware_new sps_zero SpiDeviceConfiguration_default)))) cmd = []} =
   {0xb8, 0xb9, 0xba, 0xbb, 0xbc, 0xbd, 0xbe, 0xbf}"
  using passthrough_unmatched [of "SpiDeviceHardware_new sps_zero SpiDeviceConfiguration_default"
      "\<lparr>enable_fastread4b_cmd = False, enable_enterexit4b_cmd = True, startup_address_mode = ThreeByte\<rparr>"] sps_zero_sizes
  by (simp add: SpiDeviceHardware_new_def)

section \<open>The command memory\<close>

text \<open>
  A pointer into the command memory counts modulo twice its size. The memory holds packets, as the register map documents
  it: the first from the read pointer on, each of the others where the one before ends, the ends in the address FIFO.
\<close>

definition ptr_pos :: "CMD_MEM_PTR \<Rightarrow> nat" where
  "ptr_pos p = unat (PTR_VALUE p) + (if PTR_FULL p then 512 else 0)"

fun pending_packets :: "byte list \<Rightarrow> nat \<Rightarrow> byte list list \<Rightarrow> CMD_MEM_PTR list \<Rightarrow> bool" where
  "pending_packets mem pos [] fifo \<longleftrightarrow> fifo = []"
| "pending_packets mem pos (p # ps) fifo \<longleftrightarrow>
     (case fifo of [] \<Rightarrow> False
      | e # es \<Rightarrow> length p \<le> 512 \<and> (\<forall>i<length p. mem ! ((pos + i) mod 512) = p ! i)
                 \<and> ptr_pos e = (pos + length p) mod 1024 \<and> pending_packets mem (ptr_pos e) ps es)"

definition holds_packets :: "byte list list \<Rightarrow> SpsRegisters \<Rightarrow> bool" where
  "holds_packets ps r \<longleftrightarrow> pending_packets (eeprom_cmd_buf r) (ptr_pos (cmd_mem_rptr r)) ps (cmd_addr_fifo r)"

lemma copy_cmd_append:
  "copy_cmd mem (is @ js) len tgt buf = (case copy_cmd mem is len tgt buf of (tgt, buf) \<Rightarrow> copy_cmd mem js len tgt buf)"
proof (induction mem "is" len tgt buf rule: copy_cmd.induct)
  case (2 mem i "is" len tgt buf)
  then show ?case by (cases js) auto
qed simp

lemma copy_cmd_eq:
  "tgt \<le> len \<Longrightarrow> len \<le> length buf \<Longrightarrow>
   copy_cmd mem is len tgt buf =
     (min len (tgt + length is), take tgt buf @ map ((!) mem) (take (len - tgt) is) @ drop (min len (tgt + length is)) buf)"
proof (induction mem "is" len tgt buf rule: copy_cmd.induct)
  case (2 mem i "is" len tgt buf)
  show ?case
  proof (cases "len \<le> tgt")
    case False
    then have "take (Suc tgt) (buf[tgt := mem ! i]) = take tgt buf @ [mem ! i]"
      using "2.prems" by (simp add: take_Suc_conv_app_nth)
    with False 2 show ?thesis
      by (simp add: Suc_diff_le take_Cons' drop_update_cancel) 
  qed (use "2.prems" in simp)
qed simp

text \<open>The three cases of the driver are those of the position of a packet in the memory.\<close>

lemma packet_indices:
  assumes "start < 512" "stop < 512" "n \<le> 512"
    and pos: "pos = start + (if f then 512 else 0)" and stop: "stop + (if g then 512 else 0) = (pos + n) mod 1024"
  shows "map (\<lambda>i. (pos + i) mod 512) [0..<n] =
    (if start < stop then [start..<stop] else if g \<noteq> f then [start..<512] @ [0..<stop] else [])"
    (is "?l = ?r")
proof -
  have split: "pos + n = stop + (if g then 512 else 0) \<or> pos + n = stop + (if g then 512 else 0) + 1024"
  proof -
    have "pos + n < 2048" using assms by (auto split: if_splits)
    then show ?thesis using stop by (cases "pos + n < 1024") (auto simp: mod_if)
  qed
  have base: "(pos + i) mod 512 = (if start + i < 512 then start + i else start + i - 512)" if "i < n" for i
    using that assms(1,3) unfolding pos by (auto simp: mod_if split: if_splits)
  have len: "length ?r = n"
    using split assms(1-4) by (auto split: if_splits)
  show ?thesis
  proof (rule nth_equalityI)
    show "length ?l = length ?r" using len by simp
    fix i assume "i < length ?l"
    then have i: "i < n" by simp
    then have "?r ! i = (if start + i < 512 then start + i else start + i - 512)"
      using len assms(1,2) by (auto simp: nth_append split: if_splits)
    then show "?l ! i = ?r ! i" using base [OF i] i by simp
  qed
qed

lemma received_by_copy:
  assumes fifo: "cmd_addr_fifo (sps_registers d) = e # es" and mem: "length (eeprom_cmd_buf (sps_registers d)) = 512"
    and "is": "is = (let start = unat (PTR_VALUE (cmd_mem_rptr (sps_registers d))); stop = unat (PTR_VALUE e) in
      if start < stop then [start..<stop]
      else if PTR_FULL e \<noteq> PTR_FULL (cmd_mem_rptr (sps_registers d)) then [start..<512] @ [0..<stop] else [])"
  shows "SpiDeviceHardware_get_received_data buf d =
    (let n = min (length buf) (length is) in
     (n, snd (copy_cmd (eeprom_cmd_buf (sps_registers d)) is n 0 buf),
      d\<lparr>sps_registers := (sps_registers d)\<lparr>cmd_addr_fifo := es, cmd_mem_rptr := e\<rparr>\<rparr>))"
proof -
  have "unat (PTR_VALUE (cmd_mem_rptr (sps_registers d))) < 512"
    using unsigned_less [of "PTR_VALUE (cmd_mem_rptr (sps_registers d))"] by simp
  then show ?thesis
    using mem
    by (simp add: SpiDeviceHardware_get_received_data_def fifo "is" Let_def copy_cmd_append split: prod.split)
qed

lemma get_received_packet:
  assumes "holds_packets (p # ps) (sps_registers d)" and mem: "length (eeprom_cmd_buf (sps_registers d)) = 512"
  obtains f r where "SpiDeviceHardware_get_received_data buf d =
      (min (length buf) (length p), take (length buf) p @ drop (length p) buf,
       d\<lparr>sps_registers := (sps_registers d)\<lparr>cmd_addr_fifo := f, cmd_mem_rptr := r\<rparr>\<rparr>)"
    and "holds_packets ps ((sps_registers d)\<lparr>cmd_addr_fifo := f, cmd_mem_rptr := r\<rparr>)"
proof -
  let ?r = "sps_registers d"
  let ?mem = "eeprom_cmd_buf ?r"
  let ?pos = "ptr_pos (cmd_mem_rptr ?r)"
  obtain e es where fifo: "cmd_addr_fifo ?r = e # es" and p: "length p \<le> 512" "\<forall>i<length p. ?mem ! ((?pos + i) mod 512) = p ! i"
    and e: "ptr_pos e = (?pos + length p) mod 1024" and ps: "pending_packets ?mem (ptr_pos e) ps es"
    using assms(1) by (auto simp: holds_packets_def split: list.splits)
  let ?is = "map (\<lambda>i. (?pos + i) mod 512) [0..<length p]" and ?n = "min (length buf) (length p)"
  have "is": "?is = (let start = unat (PTR_VALUE (cmd_mem_rptr ?r)); stop = unat (PTR_VALUE e) in
      if start < stop then [start..<stop]
      else if PTR_FULL e \<noteq> PTR_FULL (cmd_mem_rptr ?r) then [start..<512] @ [0..<stop] else [])"
    unfolding Let_def using unsigned_less [of "PTR_VALUE (cmd_mem_rptr ?r)"] unsigned_less [of "PTR_VALUE e"] e
    by (intro packet_indices [OF _ _ p(1)]) (simp_all add: ptr_pos_def)
  have "map ((!) ?mem) ?is = p"
    using p(2) by (auto intro: nth_equalityI)
  then have "map ((!) ?mem) (take ?n ?is) = take ?n p"
    by (metis take_map)
  then have "copy_cmd ?mem ?is ?n 0 buf = (?n, take (length buf) p @ drop (length p) buf)"
    using copy_cmd_eq [of 0 ?n buf ?mem ?is] by (simp add: min_def)
  then have "SpiDeviceHardware_get_received_data buf d =
      (?n, take (length buf) p @ drop (length p) buf, d\<lparr>sps_registers := ?r\<lparr>cmd_addr_fifo := es, cmd_mem_rptr := e\<rparr>\<rparr>)"
    using received_by_copy [OF fifo mem "is"] by simp
  moreover have "holds_packets ps (?r\<lparr>cmd_addr_fifo := es, cmd_mem_rptr := e\<rparr>)"
    using ps by (simp add: holds_packets_def)
  ultimately show thesis
    using that by blast
qed

text \<open>C34. The command memory is a queue of packets: a read gives the oldest packet, cut to the buffer, and leaves the others,
  wherever in the ring they lie.
\<close>

theorem packets_received_in_order:
  assumes "holds_packets (p # ps) (sps_registers d)" and "sps_sizes (sps_registers d)"
  shows "\<exists>d'. SpiDeviceHardware_get_received_data buf d =
      (min (length buf) (length p), take (length buf) p @ drop (length p) buf, d') \<and> holds_packets ps (sps_registers d')"
  using get_received_packet [OF assms(1), of buf] assms(2) by (fastforce simp: sps_sizes_def)

lemma sps_demo_packets: "holds_packets [[1, 2, 3]] sps_demo"
  by (auto simp: holds_packets_def sps_demo_def sps_zero_def ptr_pos_def nth_append numeral_3_eq_3 less_Suc_eq)

theorem packets_received_in_order_witness:
  "holds_packets [[1, 2, 3]] sps_demo \<and> sps_sizes sps_demo \<and>
   (\<exists>d'. SpiDeviceHardware_get_received_data [0, 0, 0, 0] (SpiDeviceHardware_new sps_demo SpiDeviceConfiguration_default) =
      (3, [1, 2, 3, 0], d') \<and> holds_packets [] (sps_registers d'))"
  using packets_received_in_order [of "[1, 2, 3]" "[]" "SpiDeviceHardware_new sps_demo SpiDeviceConfiguration_default" "[0, 0, 0, 0]"]
    sps_demo_packets sps_demo_sizes
  by (simp add: SpiDeviceHardware_new_def numeral_3_eq_3)

section \<open>Data for the host\<close>

lemma put_send_data_eq:
  "SpiDeviceHardware_put_send_data data d =
     (if length data \<le> length (generic_ram (sps_registers d))
      then (SUCCESS, on_regs (\<lambda>r. r\<lparr>generic_ram := data @ replicate (length (generic_ram r) - length data) 0xff\<rparr>) d)
      else (ESIZE, d))"
  using write_from_fill [of data "generic_ram (sps_registers d)" "0xff"]
  by (simp add: SpiDeviceHardware_put_send_data_def Let_def on_regs_def not_less)

fun DATA_bytes :: "DATA \<Rightarrow> byte list" where
  "DATA_bytes (DATA a b c d) = [a, b, c, d]"

definition register_bytes :: "DATA list \<Rightarrow> byte list" where
  "register_bytes ws = concat (map DATA_bytes ws)"

lemma length_DATA_bytes [simp]: "length (DATA_bytes w) = 4"
  by (cases w) simp

lemma length_register_bytes [simp]: "length (register_bytes ws) = 4 * length ws"
  by (induction ws) (auto simp: register_bytes_def)

lemma one_word_bytes:
  "[get_data_byte_or_default xs 0 0xff, get_data_byte_or_default xs 1 0xff, get_data_byte_or_default xs 2 0xff,
    get_data_byte_or_default xs 3 0xff] = take 4 xs @ replicate (4 - length xs) 0xff"
  by (cases xs; cases "tl xs"; cases "tl (tl xs)"; cases "tl (tl (tl xs))")
    (auto simp: get_data_byte_or_default_def numeral_eq_Suc)

lemma get_data_byte_drop: "i \<le> length data \<Longrightarrow> get_data_byte_or_default (drop i data) j b = get_data_byte_or_default data (i + j) b"
  by (auto simp: get_data_byte_or_default_def)

lemma register_words_bytes:
  "\<exists>k. k < 4 \<and> register_bytes (register_words data idx) = drop idx data @ replicate k 0xff"
proof (induction data idx rule: register_words.induct)
  case (1 data idx)
  show ?case
  proof (cases "length data \<le> idx")
    case True
    then show ?thesis by (auto simp: register_words.simps [of data idx] register_bytes_def intro: exI [of _ 0])
  next
    case False
    have step: "register_bytes (register_words data idx) =
        take 4 (drop idx data) @ replicate (4 - (length data - idx)) 0xff @ register_bytes (register_words data (idx + 4))"
      using False one_word_bytes [of "drop idx data"]
      by (simp add: register_words.simps [of data idx] register_bytes_def get_data_byte_drop)
    show ?thesis
    proof (cases "idx + 4 \<le> length data")
      case True
      have "take 4 (drop idx data) @ drop (idx + 4) data = drop idx data"
        by (metis add.commute append_take_drop_id drop_drop)
      then show ?thesis
        using 1 [OF False] step True by (auto simp flip: append_assoc)
    next
      case short: False
      then have "register_bytes (register_words data (idx + 4)) = []"
        by (simp add: register_words.simps [of data "idx + 4"] register_bytes_def)
      then show ?thesis
        using step short False by (intro exI [of _ "4 - (length data - idx)"]) auto
    qed
  qed
qed

lemma register_bytes_append: "register_bytes (xs @ ys) = register_bytes xs @ register_bytes ys"
  by (simp add: register_bytes_def)

lemma register_bytes_ones: "register_bytes (replicate n DATA_ones) = replicate (4 * n) 0xff"
  by (induction n) (auto simp: register_bytes_def DATA_ones_def numeral_eq_Suc)

lemma write_register_data_bytes:
  assumes "length data \<le> 4 * length regs"
  shows "\<exists>ws. write_register_data regs data = (SUCCESS, ws) \<and> length ws = length regs
    \<and> register_bytes ws = data @ replicate (4 * length regs - length data) 0xff"
proof -
  obtain k where k: "k < 4" "register_bytes (register_words data 0) = data @ replicate k 0xff"
    using register_words_bytes [of data 0] by auto
  then have len: "4 * length (register_words data 0) = length data + k"
    by (metis length_append length_register_bytes length_replicate)
  let ?ws = "register_words data 0 @ replicate (length regs - length (register_words data 0)) DATA_ones"
  have le: "length (register_words data 0) \<le> length regs"
    using len k(1) assms by linarith
  then have "write_register_data regs data = (SUCCESS, ?ws)"
    using assms write_from_fill [OF le] by (simp add: write_register_data_def Let_def)
  moreover have "register_bytes ?ws = data @ replicate (4 * length regs - length data) 0xff"
    using k(2) len le by (simp add: register_bytes_append register_bytes_ones flip: replicate_add)
  ultimately show ?thesis
    using le by auto
qed

section \<open>The contract of the trait\<close>

text \<open>What every implementation keeps: \<open>inv\<close> is the well-formedness of its state.\<close>

locale spi_device_contract =
  fixes D :: "'s SpiDeviceHil" and inv :: "'s \<Rightarrow> bool"
  assumes configure_inv: "inv s \<Longrightarrow> inv (hil_configure_addresses D c s)"
    and set_mode_inv: "inv s \<Longrightarrow> inv (hil_set_address_mode D m s)"
    and get_set_mode: "hil_get_address_mode D (hil_set_address_mode D m s) = m"
    and receive_inv: "inv s \<Longrightarrow> inv (snd (snd (hil_get_received_data D buf s)))"
    and receive_len: "hil_get_received_data D buf s = (n, buf', s') \<Longrightarrow> inv s \<Longrightarrow> n \<le> length buf \<and> length buf' = length buf"
    and send_inv: "inv s \<Longrightarrow> inv (snd (hil_put_send_data D data s))"
    and status_inv: "inv s \<Longrightarrow> inv (hil_set_status D b s)"
    and clear_busy_inv: "inv s \<Longrightarrow> inv (hil_clear_busy D s)"
    and clear_write_enable_inv: "inv s \<Longrightarrow> inv (hil_clear_write_enable D s)"
    and jedec_inv: "inv s \<Longrightarrow> inv (snd (hil_set_jedec_id D data s))"
    and sfdp_inv: "inv s \<Longrightarrow> inv (snd (hil_set_sfdp D data s))"

lemma length_copy_cmd: "length (snd (copy_cmd mem is len tgt buf)) = length buf"
  by (induction mem "is" len tgt buf rule: copy_cmd.induct) auto

lemma get_received_data_bounds:
  assumes "SpiDeviceHardware_get_received_data buf d = (n, buf', d')"
  shows "n \<le> length buf \<and> length buf' = length buf"
  using assms length_copy_cmd
  by (auto simp: SpiDeviceHardware_get_received_data_def Let_def split: list.splits if_splits prod.splits) (metis snd_conv)+

lemma get_received_data_state:
  obtains f r where "snd (snd (SpiDeviceHardware_get_received_data buf d)) =
    d\<lparr>sps_registers := (sps_registers d)\<lparr>cmd_addr_fifo := f, cmd_mem_rptr := r\<rparr>\<rparr>"
proof (cases "cmd_addr_fifo (sps_registers d)")
  case Nil
  then show thesis
    using that [of "cmd_mem_rptr (sps_registers d)" "[]"] by (simp add: SpiDeviceHardware_get_received_data_def)
next
  case (Cons e es)
  then show thesis
    using that [of e es] by (simp add: SpiDeviceHardware_get_received_data_def Let_def split: prod.split)
qed

lemma write_register_data_length: "write_register_data regs data = (rc, ws) \<Longrightarrow> length ws = length regs"
  by (auto simp: write_register_data_def Let_def split: if_splits)

interpretation h1_sps: spi_device_contract h1_spi_device "\<lambda>d. sps_sizes (sps_registers d)"
proof
  fix s :: SpiDeviceHardware and c m buf data b n buf' s'
  assume sizes: "sps_sizes (sps_registers s)"
  then show "sps_sizes (sps_registers (hil_configure_addresses h1_spi_device c s))"
    "sps_sizes (sps_registers (hil_set_address_mode h1_spi_device m s))"
    "sps_sizes (sps_registers (snd (hil_put_send_data h1_spi_device data s)))"
    "sps_sizes (sps_registers (hil_set_status h1_spi_device b s))"
    "sps_sizes (sps_registers (hil_clear_busy h1_spi_device s))"
    "sps_sizes (sps_registers (hil_clear_write_enable h1_spi_device s))"
    by (simp_all add: h1_spi_device_def sps_sizes_def sps_defs Let_def put_send_data_eq)
  show "sps_sizes (sps_registers (snd (hil_set_jedec_id h1_spi_device data s)))"
    "sps_sizes (sps_registers (snd (hil_set_sfdp h1_spi_device data s)))"
    using sizes
    by (auto simp: h1_spi_device_def sps_sizes_def SpiDeviceHardware_set_jedec_id_def SpiDeviceHardware_set_sfdp_def
          dest: write_register_data_length split: prod.split)
  obtain f r where "snd (snd (SpiDeviceHardware_get_received_data buf s)) =
      s\<lparr>sps_registers := (sps_registers s)\<lparr>cmd_addr_fifo := f, cmd_mem_rptr := r\<rparr>\<rparr>"
    by (rule get_received_data_state)
  then show "sps_sizes (sps_registers (snd (snd (hil_get_received_data h1_spi_device buf s))))"
    using sizes by (simp add: h1_spi_device_def sps_sizes_def)
qed (auto simp: h1_spi_device_def SpiDeviceHardware_get_address_mode_def SpiDeviceHardware_set_address_mode_def
       modify_eeprom_ctrl_def get_received_data_bounds split: AddressMode.split)

lemma init_sizes: "sps_sizes (sps_registers d) \<Longrightarrow> sps_sizes (sps_registers (SpiDeviceHardware_init c d))"
  by (simp add: SpiDeviceHardware_init_def sps_defs Let_def sps_sizes_def)

end
