(* ===== verification/Spi_Device_Syscalls.thy ===== *)
theory Spi_Device_Syscalls
  imports Spi_Device_Hw Grants
begin

text \<open>
  The system calls of the SPI device, \<^verbatim>\<open>kernel/h1_syscalls/src/spi_device.rs\<close>: what the host sends goes to the
  application, except the address mode commands and status writes that the kernel answers itself.
\<close>

section \<open>State\<close>

record SpiApp =
  tx_buffer :: "byte list option"
  rx_buffer :: "byte list option"
  data_received_callback :: bool
  address_mode_handling :: HandlerMode
  address_mode_changed_callback :: bool

definition SpiApp_default :: SpiApp where
  "SpiApp_default = \<lparr>tx_buffer = None, rx_buffer = None, data_received_callback = False,
     address_mode_handling = HandlerMode_default, address_mode_changed_callback = False\<rparr>"

text \<open>The callbacks the driver schedules, with their arguments.\<close>

datatype spi_upcall = DataReceived nat bool bool | AddressModeChanged nat

record 's SpiDeviceSyscall =
  sd_device :: 's
  sd_apps :: "SpiApp grant"
  sd_current_user :: "nat option"
  sd_scheduled :: "(nat \<times> spi_upcall) list"

definition SpiDeviceSyscall_new :: "'s \<Rightarrow> 's SpiDeviceSyscall" where
  "SpiDeviceSyscall_new d = \<lparr>sd_device = d, sd_apps = [], sd_current_user = None, sd_scheduled = []\<rparr>"

section \<open>Operations\<close>

text \<open>A closure run on the data of an application; \<open>None\<close> when the kernel has no memory for it.\<close>

definition sd_enter :: "(nat \<Rightarrow> bool) \<Rightarrow> nat \<Rightarrow> (SpiApp \<Rightarrow> 's SpiDeviceSyscall \<Rightarrow> 'a \<times> SpiApp \<times> 's SpiDeviceSyscall)
    \<Rightarrow> 's SpiDeviceSyscall \<Rightarrow> 'a option \<times> 's SpiDeviceSyscall" where
  "sd_enter alloc app f s =
     (case grant_enter alloc SpiApp_default app (\<lambda>d. case f d s of (a, d, s) \<Rightarrow> ((a, s), d)) (sd_apps s) of
        (None, g) \<Rightarrow> (None, s\<lparr>sd_apps := g\<rparr>)
      | (Some (a, s), g) \<Rightarrow> (Some a, s\<lparr>sd_apps := g\<rparr>))"

definition unwrap_or :: "'a option \<times> 's \<Rightarrow> 'a \<Rightarrow> 'a \<times> 's" where
  "unwrap_or x dflt = (case x of (None, s) \<Rightarrow> (dflt, s) | (Some a, s) \<Rightarrow> (a, s))"

definition on_sd :: "('s \<Rightarrow> 's) \<Rightarrow> 's SpiDeviceSyscall \<Rightarrow> 's SpiDeviceSyscall" where
  "on_sd f s = s\<lparr>sd_device := f (sd_device s)\<rparr>"

definition sd_schedule :: "nat \<Rightarrow> spi_upcall \<Rightarrow> 's SpiDeviceSyscall \<Rightarrow> 's SpiDeviceSyscall" where
  "sd_schedule app c s = s\<lparr>sd_scheduled := sd_scheduled s @ [(app, c)]\<rparr>"

fun is_failure :: "ReturnCode \<Rightarrow> bool" where
  "is_failure (SuccessWithValue v) = False"
| "is_failure SUCCESS = False"
| "is_failure _ = True"

definition clear_bits :: "'s SpiDeviceHil \<Rightarrow> bool \<Rightarrow> bool \<Rightarrow> 's SpiDeviceSyscall \<Rightarrow> 's SpiDeviceSyscall" where
  "clear_bits D clear_busy clear_write_enable s =
     (let s = (if clear_write_enable then on_sd (hil_clear_write_enable D) s else s) in
      if clear_busy then on_sd (hil_clear_busy D) s else s)"

definition sd_send_data :: "(nat \<Rightarrow> bool) \<Rightarrow> 's SpiDeviceHil \<Rightarrow> nat \<Rightarrow> bool \<Rightarrow> bool \<Rightarrow> 's SpiDeviceSyscall \<Rightarrow> ReturnCode \<times> 's SpiDeviceSyscall" where
  "sd_send_data alloc D caller_id clear_busy clear_write_enable s =
     unwrap_or (sd_enter alloc caller_id (\<lambda>app_data s.
       case tx_buffer app_data of
         None \<Rightarrow> (ENOMEM, app_data, s)
       | Some buf \<Rightarrow>
           (case hil_put_send_data D buf (sd_device s) of
              (rc, dev) \<Rightarrow> if is_failure rc then (rc, app_data, s\<lparr>sd_device := dev\<rparr>)
                          else (SUCCESS, app_data, clear_bits D clear_busy clear_write_enable (s\<lparr>sd_device := dev\<rparr>)))) s) ENOMEM"

definition clear_status :: "(nat \<Rightarrow> bool) \<Rightarrow> 's SpiDeviceHil \<Rightarrow> nat \<Rightarrow> bool \<Rightarrow> bool \<Rightarrow> 's SpiDeviceSyscall \<Rightarrow> ReturnCode \<times> 's SpiDeviceSyscall" where
  "clear_status alloc D caller_id clear_busy clear_write_enable s =
     unwrap_or (sd_enter alloc caller_id (\<lambda>app_data s. (SUCCESS, app_data, clear_bits D clear_busy clear_write_enable s)) s) ENOMEM"

definition sd_set_address_mode :: "(nat \<Rightarrow> bool) \<Rightarrow> 's SpiDeviceHil \<Rightarrow> nat \<Rightarrow> AddressMode \<Rightarrow> 's SpiDeviceSyscall \<Rightarrow> ReturnCode \<times> 's SpiDeviceSyscall" where
  "sd_set_address_mode alloc D caller_id m s =
     unwrap_or (sd_enter alloc caller_id (\<lambda>app_data s. (SUCCESS, app_data, on_sd (hil_set_address_mode D m) s)) s) ENOMEM"

definition sd_get_address_mode :: "(nat \<Rightarrow> bool) \<Rightarrow> 's SpiDeviceHil \<Rightarrow> nat \<Rightarrow> 's SpiDeviceSyscall \<Rightarrow> ReturnCode \<times> 's SpiDeviceSyscall" where
  "sd_get_address_mode alloc D caller_id s =
     unwrap_or (sd_enter alloc caller_id (\<lambda>app_data s.
       (SuccessWithValue (usize_from_AddressMode (hil_get_address_mode D (sd_device s))), app_data, s)) s) ENOMEM"

definition set_address_mode_handling :: "(nat \<Rightarrow> bool) \<Rightarrow> nat \<Rightarrow> HandlerMode \<Rightarrow> 's SpiDeviceSyscall \<Rightarrow> ReturnCode \<times> 's SpiDeviceSyscall" where
  "set_address_mode_handling alloc caller_id h s =
     unwrap_or (sd_enter alloc caller_id (\<lambda>app_data s. (SUCCESS, app_data\<lparr>address_mode_handling := h\<rparr>, s)) s) ENOMEM"

text \<open>What the kernel does with the command of a packet; \<open>None\<close> is an unknown op code.\<close>

definition change_address_mode :: "'s SpiDeviceHil \<Rightarrow> nat \<Rightarrow> SpiApp \<Rightarrow> AddressMode \<Rightarrow> 's SpiDeviceSyscall \<Rightarrow> 's SpiDeviceSyscall" where
  "change_address_mode D app app_data m s =
     (let changed = hil_get_address_mode D (sd_device s) \<noteq> m;
          s = (if changed then on_sd (hil_set_address_mode D m) s else s);
          s = on_sd (hil_clear_busy D) s in
      if changed \<and> address_mode_changed_callback app_data
      then sd_schedule app (AddressModeChanged (usize_from_AddressMode m)) s else s)"

definition process_spi_cmd :: "'s SpiDeviceHil \<Rightarrow> nat \<Rightarrow> SpiApp \<Rightarrow> byte \<Rightarrow> byte option \<Rightarrow> 's SpiDeviceSyscall
    \<Rightarrow> HandlerMode option \<times> 's SpiDeviceSyscall" where
  "process_spi_cmd D app app_data spi_cmd maybe_spi_data s =
     (case OpCode_from_wire_value spi_cmd of
        None \<Rightarrow> (None, s)
      | Some op_code \<Rightarrow>
          if op_code = Enter4ByteAddressMode \<or> op_code = Exit4ByteAddressMode
          then (case address_mode_handling app_data of
                  KernelSpace \<Rightarrow>
                    (Some KernelSpace,
                     change_address_mode D app app_data (if op_code = Enter4ByteAddressMode then FourByte else ThreeByte) s)
                | handler_mode \<Rightarrow> (Some handler_mode, s))
          else if op_code = WriteStatusRegister
          then (case maybe_spi_data of
                  Some spi_data \<Rightarrow>
                    (let s = (if hil_is_write_enable_set D (sd_device s)
                              then on_sd (hil_clear_write_enable D) (on_sd (hil_set_status D spi_data) s) else s) in
                     (Some KernelSpace, on_sd (hil_clear_busy D) s))
                | None \<Rightarrow> (Some UserSpace, s))
          else (Some UserSpace, s))"

definition sd_set_jedec_id :: "(nat \<Rightarrow> bool) \<Rightarrow> 's SpiDeviceHil \<Rightarrow> nat \<Rightarrow> 's SpiDeviceSyscall \<Rightarrow> ReturnCode \<times> 's SpiDeviceSyscall" where
  "sd_set_jedec_id alloc D caller_id s =
     unwrap_or (sd_enter alloc caller_id (\<lambda>app_data s.
       case tx_buffer app_data of
         None \<Rightarrow> (ENOMEM, app_data, s)
       | Some buf \<Rightarrow> (case hil_set_jedec_id D buf (sd_device s) of (rc, dev) \<Rightarrow> (rc, app_data, s\<lparr>sd_device := dev\<rparr>))) s) ENOMEM"

definition sd_set_sfdp :: "(nat \<Rightarrow> bool) \<Rightarrow> 's SpiDeviceHil \<Rightarrow> nat \<Rightarrow> 's SpiDeviceSyscall \<Rightarrow> ReturnCode \<times> 's SpiDeviceSyscall" where
  "sd_set_sfdp alloc D caller_id s =
     unwrap_or (sd_enter alloc caller_id (\<lambda>app_data s.
       case tx_buffer app_data of
         None \<Rightarrow> (ENOMEM, app_data, s)
       | Some buf \<Rightarrow> (case hil_set_sfdp D buf (sd_device s) of (rc, dev) \<Rightarrow> (rc, app_data, s\<lparr>sd_device := dev\<rparr>))) s) ENOMEM"

definition sd_configure_addresses :: "(nat \<Rightarrow> bool) \<Rightarrow> 's SpiDeviceHil \<Rightarrow> nat \<Rightarrow> 's SpiDeviceSyscall \<Rightarrow> ReturnCode \<times> 's SpiDeviceSyscall" where
  "sd_configure_addresses alloc D caller_id s =
     unwrap_or (sd_enter alloc caller_id (\<lambda>app_data s.
       case tx_buffer app_data of
         None \<Rightarrow> (ENOMEM, app_data, s)
       | Some buf \<Rightarrow>
           (case fst (AddressConfig_from_wire buf) of
              Ok c \<Rightarrow> (SUCCESS, app_data, on_sd (hil_configure_addresses D c) s)
            | _ \<Rightarrow> (EINVAL, app_data, s))) s) ENOMEM"

section \<open>Data from the host\<close>

text \<open>The bytes the kernel looks at: the first two of what the device wrote.\<close>

definition first_two :: "nat \<Rightarrow> byte list \<Rightarrow> byte option \<times> byte option" where
  "first_two n buf = (if 0 < n then Some (buf ! 0) else None, if 1 < n then Some (buf ! 1) else None)"

definition receive_packet :: "'s SpiDeviceHil \<Rightarrow> SpiApp \<Rightarrow> 's SpiDeviceSyscall
    \<Rightarrow> (nat \<times> byte option \<times> byte option) \<times> SpiApp \<times> 's SpiDeviceSyscall" where
  "receive_packet D app_data s =
     (case rx_buffer app_data of
        Some buf \<Rightarrow>
          (case hil_get_received_data D buf (sd_device s) of
             (n, buf, dev) \<Rightarrow> ((n, first_two n buf), app_data\<lparr>rx_buffer := Some buf\<rparr>, s\<lparr>sd_device := dev\<rparr>))
      | None \<Rightarrow>
          (case hil_get_received_data D [0xff, 0xff] (sd_device s) of
             (n, buf, dev) \<Rightarrow> ((0, first_two n buf), app_data, s\<lparr>sd_device := dev\<rparr>)))"

definition handle_packet :: "'s SpiDeviceHil \<Rightarrow> nat \<Rightarrow> bool \<Rightarrow> bool \<Rightarrow> SpiApp \<Rightarrow> 's SpiDeviceSyscall \<Rightarrow> unit \<times> SpiApp \<times> 's SpiDeviceSyscall" where
  "handle_packet D app busy write_enabled app_data s =
     (case receive_packet D app_data s of
        ((rx_len, maybe_spi_cmd, maybe_spi_data), app_data, s) \<Rightarrow>
          (case (case maybe_spi_cmd of
                   None \<Rightarrow> (UserSpace, s)
                 | Some spi_cmd \<Rightarrow>
                     (case process_spi_cmd D app app_data spi_cmd maybe_spi_data s of
                        (None, s) \<Rightarrow> (UserSpace, s) | (Some h, s) \<Rightarrow> (h, s))) of
             (handler_mode, s) \<Rightarrow>
               ((), app_data,
                if handler_mode = UserSpace \<and> data_received_callback app_data
                then sd_schedule app (DataReceived rx_len busy write_enabled) s else s)))"

definition data_available :: "(nat \<Rightarrow> bool) \<Rightarrow> 's SpiDeviceHil \<Rightarrow> bool \<Rightarrow> bool \<Rightarrow> 's SpiDeviceSyscall \<Rightarrow> 's SpiDeviceSyscall" where
  "data_available alloc D busy write_enabled s =
     (case sd_current_user s of
        None \<Rightarrow> s
      | Some app \<Rightarrow> snd (sd_enter alloc app (handle_packet D app busy write_enabled) s))"

section \<open>The driver interface\<close>

definition sd_subscribe :: "(nat \<Rightarrow> bool) \<Rightarrow> nat \<Rightarrow> bool \<Rightarrow> nat \<Rightarrow> 's SpiDeviceSyscall \<Rightarrow> ReturnCode \<times> 's SpiDeviceSyscall" where
  "sd_subscribe alloc subscribe_num cb app s =
     (if subscribe_num = 0
        then unwrap_or (sd_enter alloc app (\<lambda>d s. (SUCCESS, d\<lparr>data_received_callback := cb\<rparr>, s)) s) ENOMEM
      else if subscribe_num = 1
        then unwrap_or (sd_enter alloc app (\<lambda>d s. (SUCCESS, d\<lparr>address_mode_changed_callback := cb\<rparr>, s)) s) ENOMEM
      else (ENOSUPPORT, s))"

definition sd_command :: "(nat \<Rightarrow> bool) \<Rightarrow> 's SpiDeviceHil \<Rightarrow> nat \<Rightarrow> nat \<Rightarrow> nat \<Rightarrow> nat \<Rightarrow> 's SpiDeviceSyscall \<Rightarrow> ReturnCode \<times> 's SpiDeviceSyscall" where
  "sd_command alloc D command_num arg1 arg2 caller_id s =
     (let s = (if sd_current_user s = None then s\<lparr>sd_current_user := Some caller_id\<rparr> else s) in
      if command_num = 0 then (SUCCESS, s)
      else if command_num = 1 then sd_send_data alloc D caller_id (arg1 \<noteq> 0) (arg2 \<noteq> 0) s
      else if command_num = 2 then clear_status alloc D caller_id (arg1 \<noteq> 0) (arg2 \<noteq> 0) s
      else if command_num = 3 then (case AddressMode_try_from arg1 of
             Some m \<Rightarrow> sd_set_address_mode alloc D caller_id m s | None \<Rightarrow> (EINVAL, s))
      else if command_num = 4 then sd_get_address_mode alloc D caller_id s
      else if command_num = 5 then (case HandlerMode_try_from arg1 of
             Some h \<Rightarrow> set_address_mode_handling alloc caller_id h s | None \<Rightarrow> (EINVAL, s))
      else if command_num = 6 then sd_set_jedec_id alloc D caller_id s
      else if command_num = 7 then sd_set_sfdp alloc D caller_id s
      else if command_num = 8 then sd_configure_addresses alloc D caller_id s
      else (ENOSUPPORT, s))"

definition sd_allow :: "(nat \<Rightarrow> bool) \<Rightarrow> nat \<Rightarrow> nat \<Rightarrow> byte list option \<Rightarrow> 's SpiDeviceSyscall \<Rightarrow> ReturnCode \<times> 's SpiDeviceSyscall" where
  "sd_allow alloc app minor_num shared s =
     (if minor_num = 0 then unwrap_or (sd_enter alloc app (\<lambda>d s. (SUCCESS, d\<lparr>tx_buffer := shared\<rparr>, s)) s) FAIL
      else if minor_num = 1 then unwrap_or (sd_enter alloc app (\<lambda>d s. (SUCCESS, d\<lparr>rx_buffer := shared\<rparr>, s)) s) FAIL
      else (ENOSUPPORT, s))"


section \<open>Well-formed states\<close>

text \<open>
  The states of the driver between calls. Applications make the calls; the hardware changes the device on its own, within
  its well-formedness.
\<close>

inductive sd_reachable :: "(nat \<Rightarrow> bool) \<Rightarrow> 's SpiDeviceHil \<Rightarrow> ('s \<Rightarrow> bool) \<Rightarrow> 's SpiDeviceSyscall \<Rightarrow> bool"
  for alloc D J where
  new: "J d \<Longrightarrow> sd_reachable alloc D J (SpiDeviceSyscall_new d)"
| command: "sd_reachable alloc D J s \<Longrightarrow> sd_reachable alloc D J (snd (sd_command alloc D n a b app s))"
| subscribe: "sd_reachable alloc D J s \<Longrightarrow> sd_reachable alloc D J (snd (sd_subscribe alloc n cb app s))"
| allow: "sd_reachable alloc D J s \<Longrightarrow> sd_reachable alloc D J (snd (sd_allow alloc app n buf s))"
| available: "sd_reachable alloc D J s \<Longrightarrow> sd_reachable alloc D J (data_available alloc D busy we s)"
| hardware: "sd_reachable alloc D J s \<Longrightarrow> J d \<Longrightarrow> sd_reachable alloc D J (s\<lparr>sd_device := d\<rparr>)"

definition sd_ok :: "('s \<Rightarrow> bool) \<Rightarrow> 's SpiDeviceSyscall \<Rightarrow> bool" where
  "sd_ok J s \<longleftrightarrow> J (sd_device s) \<and> grant_ok (sd_apps s)"

lemma snd_unwrap_or [simp]: "snd (unwrap_or x dflt) = snd x"
  by (auto simp: unwrap_or_def split: prod.split option.split)

lemma sd_enter_ok:
  assumes "\<And>d. J (sd_device s) \<Longrightarrow> J (sd_device (snd (snd (f d s))))" and "sd_ok J s"
  shows "sd_ok J (snd (sd_enter alloc app f s))"
proof -
  have "J (sd_device s')" if "f d s = (a, d', s')" for d a d' s'
    using assms(1) [of d] assms(2) that by (simp add: sd_ok_def)
  then show ?thesis
    using assms(2) by (auto simp: sd_ok_def sd_enter_def grant_enter_def grant_put_ok split: option.split prod.split)
qed

lemma on_sd_device [simp]: "sd_device (on_sd f s) = f (sd_device s)"
  by (simp add: on_sd_def)

lemma sd_schedule_device [simp]: "sd_device (sd_schedule app c s) = sd_device s"
  by (simp add: sd_schedule_def)

context spi_device_contract
begin

lemmas device_inv = configure_inv set_mode_inv send_inv status_inv clear_busy_inv clear_write_enable_inv jedec_inv sfdp_inv

lemma clear_bits_inv: "inv (sd_device s) \<Longrightarrow> inv (sd_device (clear_bits D b w s))"
  by (simp add: clear_bits_def Let_def device_inv)

lemma process_spi_cmd_inv: "inv (sd_device s) \<Longrightarrow> inv (sd_device (snd (process_spi_cmd D app a c v s)))"
  by (auto simp: process_spi_cmd_def change_address_mode_def Let_def device_inv split: option.split HandlerMode.split)

lemma device_inv_dest:
  "hil_get_received_data D buf s = (n, buf', s') \<Longrightarrow> inv s \<Longrightarrow> inv s'"
  "hil_put_send_data D data s = (rc, s') \<Longrightarrow> inv s \<Longrightarrow> inv s'"
  "hil_set_jedec_id D data s = (rc, s') \<Longrightarrow> inv s \<Longrightarrow> inv s'"
  "hil_set_sfdp D data s = (rc, s') \<Longrightarrow> inv s \<Longrightarrow> inv s'"
  using receive_inv [of s buf] send_inv [of s data] jedec_inv [of s data] sfdp_inv [of s data] by auto

lemma receive_packet_inv: "inv (sd_device s) \<Longrightarrow> inv (sd_device (snd (snd (receive_packet D a s))))"
  by (auto simp: receive_packet_def dest: device_inv_dest split: option.split prod.split)

lemma handle_packet_inv:
  assumes "inv (sd_device s)"
  shows "inv (sd_device (snd (snd (handle_packet D app b w a s))))"
proof -
  obtain n c v a' s' where r: "receive_packet D a s = ((n, c, v), a', s')"
    by (metis surj_pair)
  have "inv (sd_device s')"
    using receive_packet_inv [OF assms, of a] r by simp
  then have "inv (sd_device (snd (process_spi_cmd D app a' c' v s')))" for c'
    by (rule process_spi_cmd_inv)
  with \<open>inv (sd_device s')\<close> show ?thesis
    by (auto simp: handle_packet_def r split: option.split prod.split) (metis snd_conv)+
qed

lemma simple_calls_ok:
  assumes "sd_ok inv s"
  shows "sd_ok inv (snd (clear_status alloc D app b w s))"
    and "sd_ok inv (snd (sd_set_address_mode alloc D app m s))"
    and "sd_ok inv (snd (sd_get_address_mode alloc D app s))"
    and "sd_ok inv (snd (set_address_mode_handling alloc app h s))"
    and "sd_ok inv (snd (sd_subscribe alloc n cb app s))"
    and "sd_ok inv (snd (sd_allow alloc app n buf s))"
  using assms
  unfolding clear_status_def sd_set_address_mode_def sd_get_address_mode_def set_address_mode_handling_def sd_subscribe_def sd_allow_def
  by (auto intro!: sd_enter_ok clear_bits_inv device_inv)

lemma buffer_calls_ok:
  assumes "sd_ok inv s"
  shows "sd_ok inv (snd (sd_send_data alloc D app b w s))"
    and "sd_ok inv (snd (sd_set_jedec_id alloc D app s))"
    and "sd_ok inv (snd (sd_set_sfdp alloc D app s))"
    and "sd_ok inv (snd (sd_configure_addresses alloc D app s))"
  using assms unfolding sd_send_data_def sd_set_jedec_id_def sd_set_sfdp_def sd_configure_addresses_def
  by (auto intro!: sd_enter_ok clear_bits_inv device_inv split: option.split prod.split outcome.split intro: device_inv_dest)
    (rule device_inv_dest(2), assumption+)+

lemma sd_command_ok:
  assumes "sd_ok inv s"
  shows "sd_ok inv (snd (sd_command alloc D n a b app s))"
proof -
  have "sd_ok inv (if sd_current_user s = None then s\<lparr>sd_current_user := Some app\<rparr> else s)"
    using assms by (simp add: sd_ok_def)
  then show ?thesis
    unfolding sd_command_def Let_def by (auto simp del: if_split split: option.split intro!: simple_calls_ok buffer_calls_ok cong: if_cong)
qed

theorem reachable_ok: "sd_reachable alloc D inv s \<Longrightarrow> sd_ok inv s"
proof (induction rule: sd_reachable.induct)
  case (new d)
  then show ?case by (simp add: sd_ok_def SpiDeviceSyscall_new_def grant_ok_def)
next
  case (command s n a b app)
  then show ?case using sd_command_ok by blast
next
  case (subscribe s n cb app)
  then show ?case by (simp add: simple_calls_ok)
next
  case (allow s app n buf)
  then show ?case by (simp add: simple_calls_ok)
next
  case (available s busy we)
  then show ?case
    by (auto simp: data_available_def intro!: handle_packet_inv sd_enter_ok split: option.split)
next
  case (hardware s d)
  then show ?case by (simp add: sd_ok_def)
qed

end

text \<open>Whatever calls applications make and whatever the hardware does in between, the register arrays of the SPI device keep
  their sizes and the data of the applications stays a table with one entry per application.
\<close>

theorem spi_driver_state_ok:
  assumes "sd_reachable alloc h1_spi_device (\<lambda>d. sps_sizes (sps_registers d)) s"
  shows "sps_sizes (sps_registers (sd_device s)) \<and> sorted (map fst (sd_apps s)) \<and> distinct (map fst (sd_apps s))"
  using h1_sps.reachable_ok [OF assms] by (simp add: sd_ok_def grant_ok_def)

theorem spi_driver_state_ok_witness:
  "sd_reachable (\<lambda>_. True) h1_spi_device (\<lambda>d. sps_sizes (sps_registers d))
     (snd (sd_command (\<lambda>_. True) h1_spi_device 3 1 0 7
       (SpiDeviceSyscall_new (SpiDeviceHardware_new sps_zero SpiDeviceConfiguration_default)))) \<and>
   sps_sizes (sps_registers (sd_device (snd (sd_command (\<lambda>_. True) h1_spi_device 3 1 0 7
       (SpiDeviceSyscall_new (SpiDeviceHardware_new sps_zero SpiDeviceConfiguration_default))))))"
proof -
  have "sd_reachable (\<lambda>_. True) h1_spi_device (\<lambda>d. sps_sizes (sps_registers d))
     (snd (sd_command (\<lambda>_. True) h1_spi_device 3 1 0 7
       (SpiDeviceSyscall_new (SpiDeviceHardware_new sps_zero SpiDeviceConfiguration_default))))"
    by (intro sd_reachable.command sd_reachable.new) (simp add: SpiDeviceHardware_new_def sps_zero_sizes)
  then show ?thesis
    using spi_driver_state_ok by blast
qed

section \<open>What becomes of a packet\<close>

text \<open>
  The specification: the kernel answers address mode commands when the application asked it to, drops them when they are
  disabled, answers status writes, and leaves the rest to the application.
\<close>

datatype verdict = ToUser | Dropped | ModeCommand AddressMode | StatusWrite byte

definition mode_verdict :: "HandlerMode \<Rightarrow> AddressMode \<Rightarrow> verdict" where
  "mode_verdict h m = (case h of KernelSpace \<Rightarrow> ModeCommand m | UserSpace \<Rightarrow> ToUser | Disabled \<Rightarrow> Dropped)"

definition packet_verdict :: "HandlerMode \<Rightarrow> byte list \<Rightarrow> verdict" where
  "packet_verdict h p =
     (if p = [] then ToUser
      else if hd p = 0xb7 then mode_verdict h FourByte
      else if hd p = 0xe9 then mode_verdict h ThreeByte
      else if hd p = 0x01 \<and> tl p \<noteq> [] then StatusWrite (hd (tl p))
      else ToUser)"

fun verdict_regs :: "verdict \<Rightarrow> SpsRegisters \<Rightarrow> SpsRegisters" where
  "verdict_regs ToUser r = r"
| "verdict_regs Dropped r = r"
| "verdict_regs (ModeCommand m) r = r\<lparr>eeprom_ctrl := (eeprom_ctrl r)\<lparr>ADDR_MODE := (m = FourByte)\<rparr>, eeprom_busy_status_written := True\<rparr>"
| "verdict_regs (StatusWrite v) r =
     (if eeprom_wel_status r
      then r\<lparr>eeprom_status := v, eeprom_wel_status_written := True, eeprom_busy_status_written := True\<rparr>
      else r\<lparr>eeprom_busy_status_written := True\<rparr>)"

fun verdict_upcalls :: "verdict \<Rightarrow> SpiApp \<Rightarrow> SpsRegisters \<Rightarrow> nat \<Rightarrow> bool \<Rightarrow> bool \<Rightarrow> spi_upcall list" where
  "verdict_upcalls ToUser a r n busy we = (if data_received_callback a then [DataReceived n busy we] else [])"
| "verdict_upcalls Dropped a r n busy we = []"
| "verdict_upcalls (ModeCommand m) a r n busy we =
     (if address_mode_changed_callback a \<and> ADDR_MODE (eeprom_ctrl r) \<noteq> (m = FourByte)
      then [AddressModeChanged (usize_from_AddressMode m)] else [])"
| "verdict_upcalls (StatusWrite v) a r n busy we = []"

lemma first_two_packet:
  assumes "length p \<le> length buf"
  shows "first_two (length p) (p @ drop (length p) buf) =
    (if p = [] then None else Some (hd p), if p = [] \<or> tl p = [] then None else Some (hd (tl p)))"
  by (cases p; cases "tl p") (auto simp: first_two_def)

lemmas hil_defs = h1_spi_device_def SpiDeviceHardware_clear_busy_def SpiDeviceHardware_set_address_mode_def
  SpiDeviceHardware_get_address_mode_def SpiDeviceHardware_set_status_def SpiDeviceHardware_clear_write_enable_def
  is_write_enabled_def on_regs_def modify_eeprom_ctrl_def on_sd_def sd_schedule_def

lemma change_address_mode_spec:
  "change_address_mode h1_spi_device app a m s =
     s\<lparr>sd_device := on_regs (verdict_regs (ModeCommand m)) (sd_device s),
       sd_scheduled := sd_scheduled s @ map (Pair app) (verdict_upcalls (ModeCommand m) a (sps_registers (sd_device s)) n b w)\<rparr>"
  by (cases m) (auto simp: change_address_mode_def hil_defs Let_def)

lemma process_spi_cmd_spec:
  "process_spi_cmd h1_spi_device app a c v s =
     (let d = packet_verdict (address_mode_handling a) (c # (case v of None \<Rightarrow> [] | Some x \<Rightarrow> [x]));
          h = (case d of ToUser \<Rightarrow> UserSpace | Dropped \<Rightarrow> Disabled | _ \<Rightarrow> KernelSpace) in
      (if OpCode_from_wire_value c = None then None else Some h,
       if d = ToUser then s
       else s\<lparr>sd_device := on_regs (verdict_regs d) (sd_device s),
              sd_scheduled := sd_scheduled s @ map (Pair app) (verdict_upcalls d a (sps_registers (sd_device s)) n b w)\<rparr>))"
proof (cases "c = 0xb7 \<or> c = 0xe9")
  case True
  then have "OpCode_from_wire_value c = Some (if c = 0xb7 then Enter4ByteAddressMode else Exit4ByteAddressMode)"
    by (auto simp: OpCode_from_wire_value_def)
  then show ?thesis
    using True change_address_mode_spec [of app a _ s n b w]
    by (auto simp: process_spi_cmd_def packet_verdict_def mode_verdict_def Let_def on_regs_def split: HandlerMode.split)
next
  case False
  show ?thesis
  proof (cases "c = 0x01")
    case True
    then have "OpCode_from_wire_value c = Some WriteStatusRegister"
      by (simp add: OpCode_from_wire_value_def)
    then show ?thesis
      using True by (auto simp: process_spi_cmd_def packet_verdict_def Let_def hil_defs split: option.split)
  next
    case other: False
    have "OpCode_from_wire_value c \<notin> {Some Enter4ByteAddressMode, Some Exit4ByteAddressMode, Some WriteStatusRegister}"
      using False other by (auto simp: OpCode_from_wire_value_def split: if_splits)
    then show ?thesis
      using False other by (auto simp: process_spi_cmd_def packet_verdict_def Let_def split: option.split)
  qed
qed

lemma sd_enter_Some:
  "map_of (sd_apps s) app = Some a \<Longrightarrow> f a s = (x, a', s') \<Longrightarrow>
   sd_enter alloc app f s = (Some x, s'\<lparr>sd_apps := grant_put app a' (sd_apps s)\<rparr>)"
  by (simp add: sd_enter_def grant_enter_def)

lemma packet_verdict_first_two:
  "p \<noteq> [] \<Longrightarrow> packet_verdict h (hd p # (case if p = [] \<or> tl p = [] then None else Some (hd (tl p)) of None \<Rightarrow> [] | Some x \<Rightarrow> [x]))
     = packet_verdict h p"
  by (cases p) (auto simp: packet_verdict_def)

lemma handle_packet_spec:
  assumes recv: "SpiDeviceHardware_get_received_data buf (sd_device s) = (length p, p @ drop (length p) buf, d)"
    and buf: "rx_buffer a = Some buf" "length p \<le> length buf"
    and a': "a' = a\<lparr>rx_buffer := Some (p @ drop (length p) buf)\<rparr>" and v: "v = packet_verdict (address_mode_handling a) p"
  shows "handle_packet h1_spi_device app busy we a s =
    ((), a', s\<lparr>sd_device := on_regs (verdict_regs v) d,
       sd_scheduled := sd_scheduled s @ map (Pair app) (verdict_upcalls v a (sps_registers d) (length p) busy we)\<rparr>)"
proof (cases "p = []")
  case True
  then show ?thesis
    using assms first_two_packet [OF buf(2)]
    by (simp add: handle_packet_def receive_packet_def h1_spi_device_def packet_verdict_def sd_schedule_def on_regs_def)
next
  case False
  have up: "verdict_upcalls v a' = verdict_upcalls v a" and mode: "address_mode_handling a' = address_mode_handling a"
    by (cases v; auto simp: a' fun_eq_iff) (simp add: a')
  have known: "OpCode_from_wire_value (hd p) \<noteq> None" if "v \<noteq> ToUser"
    using that False by (auto simp: v packet_verdict_def OpCode_from_wire_value_def split: if_splits)
  have "receive_packet h1_spi_device a s = ((length p, Some (hd p), if tl p = [] then None else Some (hd (tl p))), a', s\<lparr>sd_device := d\<rparr>)"
    using assms first_two_packet [OF buf(2)] False by (simp add: receive_packet_def h1_spi_device_def)
  moreover have "packet_verdict (address_mode_handling a') (hd p # (case if tl p = [] then None else Some (hd (tl p)) of None \<Rightarrow> [] | Some x \<Rightarrow> [x])) = v"
    using packet_verdict_first_two [OF False] False by (simp add: v mode)
  ultimately show ?thesis
    using known process_spi_cmd_spec [of app a' "hd p" "if tl p = [] then None else Some (hd (tl p))" "s\<lparr>sd_device := d\<rparr>" "length p" busy we] up
    by (cases v) (auto simp: handle_packet_def Let_def sd_schedule_def on_regs_def a' split: option.split)
qed

lemma packet_handled_eq:
  assumes "holds_packets (p # ps) (sps_registers (sd_device s))" and "sps_sizes (sps_registers (sd_device s))"
    and "sd_current_user s = Some app" and "map_of (sd_apps s) app = Some a"
    and "rx_buffer a = Some buf" and "length p \<le> length buf"
  shows "\<exists>f q. holds_packets ps ((sps_registers (sd_device s))\<lparr>cmd_addr_fifo := f, cmd_mem_rptr := q\<rparr>) \<and>
    data_available alloc h1_spi_device busy we s =
      s\<lparr>sd_device := (sd_device s)\<lparr>sps_registers := verdict_regs (packet_verdict (address_mode_handling a) p)
           ((sps_registers (sd_device s))\<lparr>cmd_addr_fifo := f, cmd_mem_rptr := q\<rparr>)\<rparr>,
        sd_apps := grant_put app (a\<lparr>rx_buffer := Some (p @ drop (length p) buf)\<rparr>) (sd_apps s),
        sd_scheduled := sd_scheduled s @ map (Pair app)
          (verdict_upcalls (packet_verdict (address_mode_handling a) p) a (sps_registers (sd_device s)) (length p) busy we)\<rparr>"
proof -
  let ?r = "sps_registers (sd_device s)" and ?v = "packet_verdict (address_mode_handling a) p"
  have "length (eeprom_cmd_buf ?r) = 512"
    using assms(2) by (simp add: sps_sizes_def)
  then obtain f q where
    recv: "SpiDeviceHardware_get_received_data buf (sd_device s) = (min (length buf) (length p), take (length buf) p @ drop (length p) buf,
        (sd_device s)\<lparr>sps_registers := ?r\<lparr>cmd_addr_fifo := f, cmd_mem_rptr := q\<rparr>\<rparr>)"
    and ps: "holds_packets ps (?r\<lparr>cmd_addr_fifo := f, cmd_mem_rptr := q\<rparr>)"
    by (rule get_received_packet [OF assms(1)])
  have "verdict_upcalls ?v a (?r\<lparr>cmd_addr_fifo := f, cmd_mem_rptr := q\<rparr>) = verdict_upcalls ?v a ?r"
    by (cases ?v) (auto simp: fun_eq_iff)
  then have "handle_packet h1_spi_device app busy we a s =
      ((), a\<lparr>rx_buffer := Some (p @ drop (length p) buf)\<rparr>,
       s\<lparr>sd_device := (sd_device s)\<lparr>sps_registers := verdict_regs ?v (?r\<lparr>cmd_addr_fifo := f, cmd_mem_rptr := q\<rparr>)\<rparr>,
         sd_scheduled := sd_scheduled s @ map (Pair app) (verdict_upcalls ?v a ?r (length p) busy we)\<rparr>)"
    using handle_packet_spec [of buf s p _ a] recv assms(5,6) by (simp add: on_regs_def)
  note enter = sd_enter_Some [where f = "handle_packet h1_spi_device app busy we", OF assms(4) this]
  show ?thesis
    using ps by (intro exI [of _ f] exI [of _ q]) (simp add: data_available_def assms(3) enter)
qed


text \<open>C7. A packet from the host is handled as specified: the application's buffer holds exactly its bytes, the registers and the
  callbacks change as its verdict says, and the next packets stay in the command memory.
\<close>

theorem spi_packet_handled:
  assumes "holds_packets (p # ps) (sps_registers (sd_device s))" and "sps_sizes (sps_registers (sd_device s))"
    and "sd_current_user s = Some app" and "map_of (sd_apps s) app = Some a"
    and "rx_buffer a = Some buf" and "length p \<le> length buf"
  shows "\<exists>f q. holds_packets ps ((sps_registers (sd_device s))\<lparr>cmd_addr_fifo := f, cmd_mem_rptr := q\<rparr>) \<and>
    data_available alloc h1_spi_device busy we s =
      s\<lparr>sd_device := (sd_device s)\<lparr>sps_registers := verdict_regs (packet_verdict (address_mode_handling a) p)
           ((sps_registers (sd_device s))\<lparr>cmd_addr_fifo := f, cmd_mem_rptr := q\<rparr>)\<rparr>,
        sd_apps := grant_put app (a\<lparr>rx_buffer := Some (p @ drop (length p) buf)\<rparr>) (sd_apps s),
        sd_scheduled := sd_scheduled s @ map (Pair app)
          (verdict_upcalls (packet_verdict (address_mode_handling a) p) a (sps_registers (sd_device s)) (length p) busy we)\<rparr>"
  by (rule packet_handled_eq [OF assms])

text \<open>A driver whose application subscribed to everything, and a mode command that lies in the command memory.\<close>

definition demo_app :: SpiApp where
  "demo_app = \<lparr>tx_buffer = None, rx_buffer = Some [0, 0, 0, 0], data_received_callback = True,
     address_mode_handling = KernelSpace, address_mode_changed_callback = True\<rparr>"

definition demo_spi_driver :: "byte list \<Rightarrow> SpiDeviceHardware SpiDeviceSyscall" where
  "demo_spi_driver p = \<lparr>sd_device = SpiDeviceHardware_new (sps_zero\<lparr>eeprom_cmd_buf := p @ replicate (512 - length p) 0,
       cmd_addr_fifo := [\<lparr>PTR_VALUE = word_of_nat (length p), PTR_FULL = False\<rparr>]\<rparr>) SpiDeviceConfiguration_default,
     sd_apps = [(7, demo_app)], sd_current_user = Some 7, sd_scheduled = []\<rparr>"

lemma demo_spi_driver_packets:
  assumes "length p < 512"
  shows "sps_sizes (sps_registers (sd_device (demo_spi_driver p)))" and "holds_packets [p] (sps_registers (sd_device (demo_spi_driver p)))"
  using assms
  by (simp_all add: demo_spi_driver_def SpiDeviceHardware_new_def sps_sizes_def sps_zero_def holds_packets_def ptr_pos_def nth_append
      unat_of_nat)

lemma demo_spi_driver_facts:
  "sps_sizes (sps_registers (sd_device (demo_spi_driver [0xb7])))" "holds_packets [[0xb7]] (sps_registers (sd_device (demo_spi_driver [0xb7])))"
  "sd_current_user (demo_spi_driver [0xb7]) = Some 7" "map_of (sd_apps (demo_spi_driver [0xb7])) 7 = Some demo_app"
  "sd_scheduled (demo_spi_driver [0xb7]) = []" "eeprom_ctrl (sps_registers (sd_device (demo_spi_driver [0xb7]))) = eeprom_ctrl sps_zero"
  by (simp_all add: demo_spi_driver_def SpiDeviceHardware_new_def sps_sizes_def sps_zero_def holds_packets_def ptr_pos_def)

theorem spi_packet_handled_witness:
  "holds_packets [[0xb7]] (sps_registers (sd_device (demo_spi_driver [0xb7]))) \<and>
   sps_sizes (sps_registers (sd_device (demo_spi_driver [0xb7]))) \<and>
   (\<exists>f q. data_available (\<lambda>_. True) h1_spi_device True False (demo_spi_driver [0xb7]) =
      (demo_spi_driver [0xb7])\<lparr>sd_device := (sd_device (demo_spi_driver [0xb7]))\<lparr>sps_registers :=
          verdict_regs (ModeCommand FourByte) ((sps_registers (sd_device (demo_spi_driver [0xb7])))\<lparr>cmd_addr_fifo := f, cmd_mem_rptr := q\<rparr>)\<rparr>,
        sd_apps := [(7, demo_app\<lparr>rx_buffer := Some [0xb7, 0, 0, 0]\<rparr>)],
        sd_scheduled := [(7, AddressModeChanged 1)]\<rparr>)"
proof -
  have "packet_verdict (address_mode_handling demo_app) [0xb7] = ModeCommand FourByte"
    by (simp add: packet_verdict_def mode_verdict_def demo_app_def)
  moreover have "sd_apps (demo_spi_driver [0xb7]) = [(7, demo_app)]" "rx_buffer demo_app = Some [0, 0, 0, 0]"
    by (simp_all add: demo_spi_driver_def demo_app_def)
  ultimately show ?thesis
    using spi_packet_handled [of "[0xb7]" "[]" "demo_spi_driver [0xb7]" 7 demo_app "[0, 0, 0, 0]" "\<lambda>_. True" True False] demo_spi_driver_facts
    by (auto simp: demo_app_def sps_zero_def)
qed

text \<open>An application that subscribed to data is told of every packet, or the kernel has the busy bit cleared, unless the
  packet is an address mode command while their handling is disabled.
\<close>

theorem spi_packet_answered:
  assumes "holds_packets (p # ps) (sps_registers (sd_device s))" and "sps_sizes (sps_registers (sd_device s))"
    and "sd_current_user s = Some app" and "map_of (sd_apps s) app = Some a"
    and "rx_buffer a = Some buf" and "length p \<le> length buf" and "data_received_callback a"
    and "\<not> eeprom_busy_status_written (sps_registers (sd_device s))"
  shows "eeprom_busy_status_written (sps_registers (sd_device (data_available alloc h1_spi_device busy we s))) \<or>
      sd_scheduled (data_available alloc h1_spi_device busy we s) = sd_scheduled s @ [(app, DataReceived (length p) busy we)]
    \<longleftrightarrow> \<not> (address_mode_handling a = Disabled \<and> p \<noteq> [] \<and> hd p \<in> {0xb7, 0xe9})"
proof -
  let ?v = "packet_verdict (address_mode_handling a) p"
  have "?v = Dropped \<longleftrightarrow> address_mode_handling a = Disabled \<and> p \<noteq> [] \<and> hd p \<in> {0xb7, 0xe9}"
    by (auto simp: packet_verdict_def mode_verdict_def split: HandlerMode.split)
  moreover obtain f q where "data_available alloc h1_spi_device busy we s =
      s\<lparr>sd_device := (sd_device s)\<lparr>sps_registers := verdict_regs ?v ((sps_registers (sd_device s))\<lparr>cmd_addr_fifo := f, cmd_mem_rptr := q\<rparr>)\<rparr>,
        sd_apps := grant_put app (a\<lparr>rx_buffer := Some (p @ drop (length p) buf)\<rparr>) (sd_apps s),
        sd_scheduled := sd_scheduled s @ map (Pair app) (verdict_upcalls ?v a (sps_registers (sd_device s)) (length p) busy we)\<rparr>"
    using packet_handled_eq [OF assms(1-6)] by blast
  ultimately show ?thesis
    using assms(7,8) by (cases ?v) auto
qed

theorem spi_packet_answered_witness:
  "eeprom_busy_status_written (sps_registers (sd_device (data_available (\<lambda>_. True) h1_spi_device True False (demo_spi_driver [0xb7])))) \<or>
   sd_scheduled (data_available (\<lambda>_. True) h1_spi_device True False (demo_spi_driver [0xb7])) = [(7, DataReceived 1 True False)]"
proof -
  have "\<not> eeprom_busy_status_written (sps_registers (sd_device (demo_spi_driver [0xb7])))"
    by (simp add: demo_spi_driver_def SpiDeviceHardware_new_def sps_zero_def)
  then show ?thesis
    using spi_packet_answered [of "[0xb7]" "[]" "demo_spi_driver [0xb7]" 7 demo_app "[0, 0, 0, 0]" "\<lambda>_. True" True False] demo_spi_driver_facts
    by (simp add: demo_app_def)
qed

section \<open>The status register\<close>

lemma verdict_regs_status:
  "eeprom_status (verdict_regs v r) \<noteq> eeprom_status r \<Longrightarrow> eeprom_wel_status r \<and> eeprom_wel_status_written (verdict_regs v r)"
  by (cases v) (auto split: if_splits)

lemma process_spi_cmd_status:
  "eeprom_status (sps_registers (sd_device (snd (process_spi_cmd h1_spi_device app a c v s)))) \<noteq> eeprom_status (sps_registers (sd_device s))
   \<Longrightarrow> eeprom_wel_status (sps_registers (sd_device s))
     \<and> eeprom_wel_status_written (sps_registers (sd_device (snd (process_spi_cmd h1_spi_device app a c v s))))"
  using verdict_regs_status
  by (auto simp: process_spi_cmd_spec [of _ _ _ _ _ 0 True True] Let_def split: if_splits)

lemma receive_packet_registers:
  obtains f q where "sps_registers (sd_device (snd (snd (receive_packet h1_spi_device a s)))) =
    (sps_registers (sd_device s))\<lparr>cmd_addr_fifo := f, cmd_mem_rptr := q\<rparr>"
proof -
  define buf where "buf = (case rx_buffer a of Some b \<Rightarrow> b | None \<Rightarrow> [0xff, 0xff])"
  have "sd_device (snd (snd (receive_packet h1_spi_device a s))) = snd (snd (SpiDeviceHardware_get_received_data buf (sd_device s)))"
    by (simp add: receive_packet_def h1_spi_device_def buf_def split: option.split prod.split)
  moreover obtain f q where "snd (snd (SpiDeviceHardware_get_received_data buf (sd_device s))) =
      (sd_device s)\<lparr>sps_registers := (sps_registers (sd_device s))\<lparr>cmd_addr_fifo := f, cmd_mem_rptr := q\<rparr>\<rparr>"
    by (rule get_received_data_state)
  ultimately show thesis
    using that by simp
qed

lemma handle_packet_device:
  obtains c v s' a' where "sps_registers (sd_device s') = sps_registers (sd_device (snd (snd (receive_packet h1_spi_device a s))))"
    and "sd_device (snd (snd (handle_packet h1_spi_device app busy we a s))) \<in> {sd_device s', sd_device (snd (process_spi_cmd h1_spi_device app a' c v s'))}"
proof -
  obtain n c v a' s' where r: "receive_packet h1_spi_device a s = ((n, c, v), a', s')"
    by (metis surj_pair)
  then show thesis
    using that [of s' a' "the c" v]
    by (auto simp: handle_packet_def split: option.splits prod.splits if_splits)
qed

text \<open>C10. The status register changes only while the host has writing enabled, and the driver then asks the hardware to take the
  permission back.
\<close>

theorem status_needs_write_enable:
  assumes "eeprom_status (sps_registers (sd_device (data_available alloc h1_spi_device busy we s))) \<noteq> eeprom_status (sps_registers (sd_device s))"
  shows "eeprom_wel_status (sps_registers (sd_device s))
    \<and> eeprom_wel_status_written (sps_registers (sd_device (data_available alloc h1_spi_device busy we s)))"
proof -
  let ?h = "\<lambda>app a. sd_device (snd (snd (handle_packet h1_spi_device app busy we a s)))"
  obtain app a where dev: "sd_device (data_available alloc h1_spi_device busy we s) = ?h app a"
  proof -
    have "\<exists>app a. sd_device (data_available alloc h1_spi_device busy we s) = ?h app a"
      using assms
      by (auto simp: data_available_def sd_enter_def grant_enter_def split: option.splits prod.splits if_splits) (metis snd_conv)+
    then show thesis using that by blast
  qed
  obtain f q where recv: "sps_registers (sd_device (snd (snd (receive_packet h1_spi_device a s)))) =
      (sps_registers (sd_device s))\<lparr>cmd_addr_fifo := f, cmd_mem_rptr := q\<rparr>"
    by (rule receive_packet_registers)
  obtain c v s' a' where s': "sps_registers (sd_device s') = sps_registers (sd_device (snd (snd (receive_packet h1_spi_device a s))))"
    and h: "?h app a \<in> {sd_device s', sd_device (snd (process_spi_cmd h1_spi_device app a' c v s'))}"
    by (rule handle_packet_device)
  show ?thesis
    using assms h process_spi_cmd_status [of app a' c v s'] unfolding dev by (auto simp: s' recv)
qed

definition demo_status_write :: "SpiDeviceHardware SpiDeviceSyscall" where
  "demo_status_write = on_sd (on_regs (\<lambda>r. r\<lparr>eeprom_wel_status := True\<rparr>)) (demo_spi_driver [0x01, 0x42])"

theorem status_needs_write_enable_witness:
  "eeprom_status (sps_registers (sd_device (data_available (\<lambda>_. True) h1_spi_device True True demo_status_write))) \<noteq>
     eeprom_status (sps_registers (sd_device demo_status_write)) \<and>
   eeprom_wel_status_written (sps_registers (sd_device (data_available (\<lambda>_. True) h1_spi_device True True demo_status_write)))"
proof -
  let ?r = "sps_registers (sd_device demo_status_write)"
  have demo: "sps_sizes ?r" "holds_packets [[0x01, 0x42]] ?r" "sd_current_user demo_status_write = Some 7"
    "map_of (sd_apps demo_status_write) 7 = Some demo_app" "eeprom_status ?r = 0" "eeprom_wel_status ?r"
    by (auto simp: demo_status_write_def on_sd_def demo_spi_driver_def SpiDeviceHardware_new_def sps_sizes_def sps_zero_def
        holds_packets_def ptr_pos_def take_bit_eq_mod less_Suc_eq)
  have "rx_buffer demo_app = Some [0, 0, 0, 0]" "packet_verdict (address_mode_handling demo_app) [0x01, 0x42] = StatusWrite 0x42"
    by (simp_all add: packet_verdict_def demo_app_def)
  then have "eeprom_status (sps_registers (sd_device (data_available (\<lambda>_. True) h1_spi_device True True demo_status_write))) \<noteq> eeprom_status ?r"
    using packet_handled_eq [OF demo(2,1,3,4), of "[0, 0, 0, 0]" "\<lambda>_. True" True True] demo(5,6) by auto
  then show ?thesis
    using status_needs_write_enable by blast
qed

end
