(* ===== verification/Chip_Syscalls.thy ===== *)
theory Chip_Syscalls
  imports Firmware_Controller Flash_Hw Grants
begin

text \<open>
  Three devices of the chip that answer with a message, and their system calls: the memory protection that knows which
  firmware segments are active (\<^verbatim>\<open>kernel/h1/src/globalsec.rs\<close>), the fuses (\<^verbatim>\<open>fuse.rs\<close>) and the
  reset logic (\<^verbatim>\<open>pmu.rs\<close>), with \<^verbatim>\<open>kernel/h1_syscalls/src/{globalsec,fuse,reset}.rs\<close>, and the
  firmware segments of the board (\<^verbatim>\<open>kernel/papa/src/main.rs\<close>).
\<close>

section \<open>Global security\<close>

record REGION_CTRL =
  REGION_EN :: bool
  REGION_RD_EN :: bool
  REGION_WR_EN :: bool

definition region_rw :: REGION_CTRL where
  "region_rw = \<lparr>REGION_EN = True, REGION_RD_EN = True, REGION_WR_EN = True\<rparr>"

text \<open>The registers: four regions each for the processor, the DMA engine and USB, and four flash regions.\<close>

record GlobalSecRegisters =
  cpu0_d_region_ctrl :: "REGION_CTRL list"
  ddma0_region_ctrl :: "REGION_CTRL list"
  dusb0_region_ctrl :: "REGION_CTRL list"
  flash_region0_ctrl :: REGION_CTRL
  flash_region1_ctrl :: REGION_CTRL
  flash_region2_ctrl :: REGION_CTRL
  flash_region3_ctrl :: REGION_CTRL
  flash_region0_base_addr :: u32
  flash_region0_size :: u32
  flash_region1_base_addr :: u32
  flash_region1_size :: u32
  flash_region2_base_addr :: u32
  flash_region2_size :: u32
  flash_region3_base_addr :: u32
  flash_region3_size :: u32

record Segments =
  seg_ro_a :: SegmentInfo
  seg_ro_b :: SegmentInfo
  seg_rw_a :: SegmentInfo
  seg_rw_b :: SegmentInfo

record GlobalSecHardware =
  gs_registers :: GlobalSecRegisters
  runtime_segment_info :: RuntimeSegmentInfo

definition GlobalSecHardware_new :: "GlobalSecRegisters \<Rightarrow> GlobalSecHardware" where
  "GlobalSecHardware_new regs = \<lparr>gs_registers = regs, runtime_segment_info = UNKNOWN_RUNTIME_SEGMENT_INFO\<rparr>"

definition open_all_regions :: "GlobalSecRegisters \<Rightarrow> GlobalSecRegisters" where
  "open_all_regions r = r\<lparr>cpu0_d_region_ctrl := replicate 4 region_rw, ddma0_region_ctrl := replicate 4 region_rw,
     dusb0_region_ctrl := replicate 4 region_rw\<rparr>"

definition choose_ro :: "Segments \<Rightarrow> GlobalSecHardware \<Rightarrow> GlobalSecHardware" where
  "choose_ro segments g =
     (let base = flash_region0_base_addr (gs_registers g); start = word_of_nat H1_FLASH_START; i = runtime_segment_info g in
      if base = start + seg_address (seg_ro_a segments)
      then g\<lparr>runtime_segment_info := i\<lparr>active_ro := seg_ro_a segments, inactive_ro := seg_ro_b segments\<rparr>\<rparr>
      else if base = start + seg_address (seg_ro_b segments)
      then g\<lparr>runtime_segment_info := i\<lparr>active_ro := seg_ro_b segments, inactive_ro := seg_ro_a segments\<rparr>\<rparr>
      else g)"

definition open_inactive_ro :: "GlobalSecHardware \<Rightarrow> GlobalSecHardware" where
  "open_inactive_ro g =
     g\<lparr>gs_registers := (gs_registers g)\<lparr>
        flash_region2_base_addr := word_of_nat H1_FLASH_START + seg_address (inactive_ro (runtime_segment_info g)),
        flash_region2_size := seg_size (inactive_ro (runtime_segment_info g)),
        flash_region2_ctrl := region_rw\<rparr>\<rparr>"

definition choose_rw :: "Segments \<Rightarrow> GlobalSecHardware \<Rightarrow> GlobalSecHardware" where
  "choose_rw segments g =
     (let base = flash_region1_base_addr (gs_registers g); start = word_of_nat H1_FLASH_START; i = runtime_segment_info g in
      if base = start + seg_address (seg_rw_a segments)
      then g\<lparr>runtime_segment_info := i\<lparr>active_rw := seg_rw_a segments, inactive_rw := seg_rw_b segments\<rparr>\<rparr>
      else if base = start + seg_address (seg_rw_b segments)
      then g\<lparr>runtime_segment_info := i\<lparr>active_rw := seg_rw_b segments, inactive_rw := seg_rw_a segments\<rparr>\<rparr>
      else g)"

definition open_inactive_rw :: "GlobalSecHardware \<Rightarrow> GlobalSecHardware" where
  "open_inactive_rw g =
     g\<lparr>gs_registers := (gs_registers g)\<lparr>
        flash_region3_base_addr := word_of_nat H1_FLASH_START + seg_address (inactive_rw (runtime_segment_info g)),
        flash_region3_size := seg_size (inactive_rw (runtime_segment_info g)),
        flash_region3_ctrl := region_rw\<rparr>\<rparr>"

definition GlobalSecHardware_init :: "Segments \<Rightarrow> GlobalSecHardware \<Rightarrow> GlobalSecHardware" where
  "GlobalSecHardware_init segments g =
     (let g = g\<lparr>gs_registers := open_all_regions (gs_registers g)\<rparr>;
          g = choose_ro segments g;
          g = open_inactive_ro g;
          g = choose_rw segments g in
      open_inactive_rw g)"

text \<open>The segments of the board.\<close>

definition get_h1_flash_segment_info :: "SegmentAndLocation \<Rightarrow> u32 \<Rightarrow> u32 \<Rightarrow> SegmentInfo" where
  "get_h1_flash_segment_info i address len =
     \<lparr>seg_identifier = i, seg_address = address, seg_size = len,
      seg_start_page = address div word_of_nat H1_FLASH_PAGE_SIZE, seg_page_count = len div word_of_nat H1_FLASH_PAGE_SIZE\<rparr>"

definition papa_segments :: Segments where
  "papa_segments =
     (let bank_size = word_of_nat H1_FLASH_BANK_SIZE in
      \<lparr>seg_ro_a = get_h1_flash_segment_info RoA 0x0 0x4000,
       seg_ro_b = get_h1_flash_segment_info RoB bank_size 0x4000,
       seg_rw_a = get_h1_flash_segment_info RwA 0x4000 (bank_size - 0x4000),
       seg_rw_b = get_h1_flash_segment_info RwB (bank_size + 0x4000) (bank_size - 0x4000)\<rparr>)"

section \<open>Fuses and reset\<close>

record FuseController =
  dev_id0 :: u32
  dev_id1 :: u32

definition FuseController_get_dev_id :: "FuseController \<Rightarrow> u64" where
  "FuseController_get_dev_id f = push_bit 32 (ucast (dev_id0 f)) OR ucast (dev_id1 f)"

text \<open>The registers of the power unit that the reset code uses; \<open>clear_reset\<close> and \<open>global_reset\<close> are what it wrote.\<close>

record ResetImpl =
  pmu_reset_source :: u32
  pmu_clear_reset :: u32
  pmu_global_reset :: u32
  reset_source :: byte

definition ResetImpl_init :: "ResetImpl \<Rightarrow> ResetImpl" where
  "ResetImpl_init p = p\<lparr>reset_source := ucast (pmu_reset_source p AND 0xff), pmu_clear_reset := 1\<rparr>"

definition ResetImpl_get_reset_source :: "ResetImpl \<Rightarrow> ResetSource" where
  "ResetImpl_get_reset_source p =
     \<lparr>power_on_reset = (reset_source p AND 0x1 \<noteq> 0), low_power_reset = (reset_source p AND 0x2 \<noteq> 0),
      watchdog_reset = (reset_source p AND 0x4 \<noteq> 0), lockup_reset = (reset_source p AND 0x8 \<noteq> 0),
      sysreset = (reset_source p AND 0x10 \<noteq> 0), software_reset = (reset_source p AND 0x20 \<noteq> 0),
      fast_burnout_circuit = (reset_source p AND 0x40 \<noteq> 0), security_breach_reset = (reset_source p AND 0x80 \<noteq> 0)\<rparr>"

section \<open>System calls\<close>

text \<open>The drivers keep one shared buffer per application: the structures of the three files are alike.\<close>

record 'h InfoSyscall =
  info_device :: 'h
  info_apps :: "byte list option grant"
  info_current_user :: "nat option"

definition InfoSyscall_new :: "'h \<Rightarrow> 'h InfoSyscall" where
  "InfoSyscall_new h = \<lparr>info_device = h, info_apps = [], info_current_user = None\<rparr>"

definition info_enter :: "(nat \<Rightarrow> bool) \<Rightarrow> nat \<Rightarrow> ReturnCode \<Rightarrow> (byte list option \<Rightarrow> ReturnCode \<times> byte list option) \<Rightarrow> 'h InfoSyscall
    \<Rightarrow> ReturnCode \<times> 'h InfoSyscall" where
  "info_enter alloc app failure f s =
     (case grant_enter alloc None app f (info_apps s) of
        (None, g) \<Rightarrow> (failure, s\<lparr>info_apps := g\<rparr>) | (Some rc, g) \<Rightarrow> (rc, s\<lparr>info_apps := g\<rparr>))"

definition first_user :: "nat \<Rightarrow> 'h InfoSyscall \<Rightarrow> 'h InfoSyscall" where
  "first_user caller_id s = (if info_current_user s = None then s\<lparr>info_current_user := Some caller_id\<rparr> else s)"

text \<open>A message written at the start of the shared buffer, if there is one.\<close>

definition put_message :: "(Cursor, ToWireError, unit) eff \<Rightarrow> byte list option \<Rightarrow> ReturnCode \<times> byte list option" where
  "put_message to_wire b =
     (case b of
        None \<Rightarrow> (SUCCESS, None)
      | Some buffer \<Rightarrow> (case to_wire (Cursor_new buffer) of
                         (Ok _, c) \<Rightarrow> (SUCCESS, Some (cur_buf c)) | (_, c) \<Rightarrow> (ENOMEM, Some (cur_buf c))))"

definition gs_get_runtime_segment_info :: "(nat \<Rightarrow> bool) \<Rightarrow> nat \<Rightarrow> GlobalSecHardware InfoSyscall \<Rightarrow> ReturnCode \<times> GlobalSecHardware InfoSyscall" where
  "gs_get_runtime_segment_info alloc caller_id s =
     info_enter alloc caller_id ENOMEM
       (put_message (RuntimeSegmentInfo_to_wire Cursor_write_bytes (runtime_segment_info (info_device s)))) s"

definition gs_subscribe :: "nat \<Rightarrow> 'h InfoSyscall \<Rightarrow> ReturnCode \<times> 'h InfoSyscall" where
  "gs_subscribe subscribe_num s = (ENOSUPPORT, s)"

definition gs_command :: "(nat \<Rightarrow> bool) \<Rightarrow> nat \<Rightarrow> nat \<Rightarrow> GlobalSecHardware InfoSyscall \<Rightarrow> ReturnCode \<times> GlobalSecHardware InfoSyscall" where
  "gs_command alloc command_num caller_id s =
     (let s = first_user caller_id s in
      if command_num = 0 then (SUCCESS, s)
      else if command_num = 1 then gs_get_runtime_segment_info alloc caller_id s
      else (ENOSUPPORT, s))"

definition gs_allow :: "(nat \<Rightarrow> bool) \<Rightarrow> nat \<Rightarrow> nat \<Rightarrow> byte list option \<Rightarrow> GlobalSecHardware InfoSyscall \<Rightarrow> ReturnCode \<times> GlobalSecHardware InfoSyscall" where
  "gs_allow alloc app minor_num shared s =
     (if minor_num = 0 then info_enter alloc app FAIL (\<lambda>_. (SUCCESS, shared)) s else (ENOSUPPORT, s))"

text \<open>The bytes of the device identifier go into the buffer one by one, as far as it reaches.\<close>

fun put_id_bytes :: "nat \<Rightarrow> byte list \<Rightarrow> byte list \<Rightarrow> ReturnCode \<times> byte list" where
  "put_id_bytes idx [] buf = (SUCCESS, buf)"
| "put_id_bytes idx (b # bs) buf = (if idx < length buf then put_id_bytes (Suc idx) bs (buf[idx := b]) else (ENOMEM, buf))"

definition fuse_get_dev_id :: "(nat \<Rightarrow> bool) \<Rightarrow> nat \<Rightarrow> FuseController InfoSyscall \<Rightarrow> ReturnCode \<times> FuseController InfoSyscall" where
  "fuse_get_dev_id alloc caller_id s =
     info_enter alloc caller_id ENOMEM (\<lambda>b. case b of
         None \<Rightarrow> (SUCCESS, None)
       | Some dev_id_buffer \<Rightarrow>
           (case put_id_bytes 0 (be_bytes 8 (unat (FuseController_get_dev_id (info_device s)))) dev_id_buffer of
              (rc, buf) \<Rightarrow> (rc, Some buf))) s"

definition fuse_subscribe :: "nat \<Rightarrow> 'h InfoSyscall \<Rightarrow> ReturnCode \<times> 'h InfoSyscall" where
  "fuse_subscribe subscribe_num s = (ENOSUPPORT, s)"

definition fuse_command :: "(nat \<Rightarrow> bool) \<Rightarrow> nat \<Rightarrow> nat \<Rightarrow> FuseController InfoSyscall \<Rightarrow> ReturnCode \<times> FuseController InfoSyscall" where
  "fuse_command alloc command_num caller_id s =
     (let s = first_user caller_id s in
      if command_num = 0 then (SUCCESS, s)
      else if command_num = 1 then fuse_get_dev_id alloc caller_id s
      else (ENOSUPPORT, s))"

definition fuse_allow :: "(nat \<Rightarrow> bool) \<Rightarrow> nat \<Rightarrow> nat \<Rightarrow> byte list option \<Rightarrow> FuseController InfoSyscall \<Rightarrow> ReturnCode \<times> FuseController InfoSyscall" where
  "fuse_allow alloc app minor_num shared s =
     (if minor_num = 0 then info_enter alloc app FAIL (\<lambda>_. (SUCCESS, shared)) s else (ENOSUPPORT, s))"

text \<open>A reset does not return: its result is \<open>None\<close>, with the key written to the register.\<close>

definition GLOBAL_RESET_KEY :: u32 where
  "GLOBAL_RESET_KEY = 0x7041776"

definition ResetImpl_reset_chip :: "ResetImpl \<Rightarrow> ResetImpl" where
  "ResetImpl_reset_chip p = p\<lparr>pmu_global_reset := GLOBAL_RESET_KEY\<rparr>"

definition reset_get_reset_source :: "(nat \<Rightarrow> bool) \<Rightarrow> nat \<Rightarrow> ResetImpl InfoSyscall \<Rightarrow> ReturnCode \<times> ResetImpl InfoSyscall" where
  "reset_get_reset_source alloc caller_id s =
     info_enter alloc caller_id ENOMEM
       (put_message (ResetSource_to_wire Cursor_write_bytes (ResetImpl_get_reset_source (info_device s)))) s"

definition reset_subscribe :: "nat \<Rightarrow> 'h InfoSyscall \<Rightarrow> ReturnCode \<times> 'h InfoSyscall" where
  "reset_subscribe subscribe_num s = (ENOSUPPORT, s)"

definition reset_command :: "(nat \<Rightarrow> bool) \<Rightarrow> nat \<Rightarrow> nat \<Rightarrow> ResetImpl InfoSyscall \<Rightarrow> ReturnCode option \<times> ResetImpl InfoSyscall" where
  "reset_command alloc command_num caller_id s =
     (let s = first_user caller_id s in
      if command_num = 0 then (Some SUCCESS, s)
      else if command_num = 1 then (None, s\<lparr>info_device := ResetImpl_reset_chip (info_device s)\<rparr>)
      else if command_num = 2 then (case reset_get_reset_source alloc caller_id s of (rc, s) \<Rightarrow> (Some rc, s))
      else (Some ENOSUPPORT, s))"

definition reset_allow :: "(nat \<Rightarrow> bool) \<Rightarrow> nat \<Rightarrow> nat \<Rightarrow> byte list option \<Rightarrow> ResetImpl InfoSyscall \<Rightarrow> ReturnCode \<times> ResetImpl InfoSyscall" where
  "reset_allow alloc app minor_num shared s =
     (if minor_num = 0 then info_enter alloc app FAIL (\<lambda>_. (SUCCESS, shared)) s else (ENOSUPPORT, s))"

section \<open>Which firmware may be written\<close>

definition seg_range :: "SegmentInfo \<Rightarrow> nat set" where
  "seg_range s = {unat (seg_address s)..<unat (seg_address s) + unat (seg_size s)}"

text \<open>
  The flash addresses that accept a write: those of the regions that are enabled, and enabled for writing. The first two
  regions are the boot loader's.
\<close>

definition region_writable :: "REGION_CTRL \<Rightarrow> u32 \<Rightarrow> u32 \<Rightarrow> nat set" where
  "region_writable ctrl base len = (if REGION_EN ctrl \<and> REGION_WR_EN ctrl then {unat base..<unat base + unat len} else {})"

definition boot_writable :: "GlobalSecRegisters \<Rightarrow> nat set" where
  "boot_writable r = region_writable (flash_region0_ctrl r) (flash_region0_base_addr r) (flash_region0_size r) \<union>
     region_writable (flash_region1_ctrl r) (flash_region1_base_addr r) (flash_region1_size r)"

definition flash_writable :: "GlobalSecRegisters \<Rightarrow> nat set" where
  "flash_writable r = boot_writable r \<union>
     region_writable (flash_region2_ctrl r) (flash_region2_base_addr r) (flash_region2_size r) \<union>
     region_writable (flash_region3_ctrl r) (flash_region3_base_addr r) (flash_region3_size r)"

lemmas papa_defs = papa_segments_def get_h1_flash_segment_info_def H1_FLASH_START_def H1_FLASH_BANK_SIZE_def H1_FLASH_PAGE_SIZE_def Let_def

lemma papa_segment_values:
  "seg_address (seg_ro_a papa_segments) = 0" "seg_size (seg_ro_a papa_segments) = 0x4000"
  "seg_address (seg_ro_b papa_segments) = 0x40000" "seg_size (seg_ro_b papa_segments) = 0x4000"
  "seg_address (seg_rw_a papa_segments) = 0x4000" "seg_size (seg_rw_a papa_segments) = 0x3c000"
  "seg_address (seg_rw_b papa_segments) = 0x44000" "seg_size (seg_rw_b papa_segments) = 0x3c000"
  by (simp_all add: papa_defs)

lemma papa_segments_fit:
  "segment_fits (seg_ro_a papa_segments)" "segment_fits (seg_ro_b papa_segments)"
  "segment_fits (seg_rw_a papa_segments)" "segment_fits (seg_rw_b papa_segments)"
  by (simp_all add: papa_defs segment_fits_def MAX_BUFFER_LENGTH_def unat_div)

lemma init_segments:
  assumes "flash_region0_base_addr regs = word_of_nat H1_FLASH_START + seg_address (if ro then seg_ro_a papa_segments else seg_ro_b papa_segments)"
    and "flash_region1_base_addr regs = word_of_nat H1_FLASH_START + seg_address (if rw then seg_rw_a papa_segments else seg_rw_b papa_segments)"
  shows "runtime_segment_info (GlobalSecHardware_init papa_segments (GlobalSecHardware_new regs)) =
    \<lparr>active_ro = if ro then seg_ro_a papa_segments else seg_ro_b papa_segments,
     active_rw = if rw then seg_rw_a papa_segments else seg_rw_b papa_segments,
     inactive_ro = if ro then seg_ro_b papa_segments else seg_ro_a papa_segments,
     inactive_rw = if rw then seg_rw_b papa_segments else seg_rw_a papa_segments\<rparr>"
  using assms
  by (cases ro; cases rw) (simp_all add: GlobalSecHardware_init_def GlobalSecHardware_new_def choose_ro_def choose_rw_def open_inactive_ro_def
      open_inactive_rw_def open_all_regions_def Let_def papa_segment_values UNKNOWN_RUNTIME_SEGMENT_INFO_def)

lemma init_regions:
  fixes regs :: GlobalSecRegisters and g :: GlobalSecHardware
  assumes "g = GlobalSecHardware_init segments (GlobalSecHardware_new regs)" and "i = runtime_segment_info g"
  shows "flash_writable (gs_registers g) = boot_writable regs \<union>
    region_writable region_rw (word_of_nat H1_FLASH_START + seg_address (inactive_ro i)) (seg_size (inactive_ro i)) \<union>
    region_writable region_rw (word_of_nat H1_FLASH_START + seg_address (inactive_rw i)) (seg_size (inactive_rw i))"
  using assms
  by (simp add: GlobalSecHardware_init_def GlobalSecHardware_new_def choose_ro_def choose_rw_def open_inactive_ro_def
      open_inactive_rw_def open_all_regions_def Let_def flash_writable_def boot_writable_def)

lemma known_image_segments:
  fixes regs :: GlobalSecRegisters and i :: RuntimeSegmentInfo
  assumes "flash_region0_base_addr regs \<in> {0x40000, 0x80000}" and "flash_region1_base_addr regs \<in> {0x44000, 0x84000}"
    and "i = runtime_segment_info (GlobalSecHardware_init papa_segments (GlobalSecHardware_new regs))"
  shows "i = (let ro = (flash_region0_base_addr regs = 0x40000); rw = (flash_region1_base_addr regs = 0x44000) in
    \<lparr>active_ro = if ro then seg_ro_a papa_segments else seg_ro_b papa_segments,
     active_rw = if rw then seg_rw_a papa_segments else seg_rw_b papa_segments,
     inactive_ro = if ro then seg_ro_b papa_segments else seg_ro_a papa_segments,
     inactive_rw = if rw then seg_rw_b papa_segments else seg_rw_a papa_segments\<rparr>)"
  unfolding assms(3) Let_def using assms(1,2)
  by (intro init_segments) (auto simp: papa_segment_values H1_FLASH_START_def)

lemma opens_inactive:
  fixes regs :: GlobalSecRegisters and g :: GlobalSecHardware
  assumes "flash_region0_base_addr regs \<in> {0x40000, 0x80000}" and "flash_region1_base_addr regs \<in> {0x44000, 0x84000}"
    and "g = GlobalSecHardware_init papa_segments (GlobalSecHardware_new regs)" and "i = runtime_segment_info g"
  shows "flash_writable (gs_registers g) =
      boot_writable regs \<union> (\<lambda>a. H1_FLASH_START + a) ` (seg_range (inactive_ro i) \<union> seg_range (inactive_rw i)) \<and>
    flash_region0_base_addr regs = word_of_nat H1_FLASH_START + seg_address (active_ro i) \<and>
    flash_region1_base_addr regs = word_of_nat H1_FLASH_START + seg_address (active_rw i) \<and>
    segment_fits (inactive_ro i) \<and> segment_fits (inactive_rw i) \<and>
    seg_range (inactive_ro i) \<inter> (seg_range (active_ro i) \<union> seg_range (active_rw i) \<union> seg_range (inactive_rw i)) = {} \<and>
    seg_range (inactive_rw i) \<inter> (seg_range (active_ro i) \<union> seg_range (active_rw i)) = {}"
proof -
  note i = known_image_segments [OF assms(1,2) assms(4) [unfolded assms(3)]]
  have "(\<lambda>a. H1_FLASH_START + a) ` seg_range s =
      region_writable region_rw (word_of_nat H1_FLASH_START + seg_address s) (seg_size s)"
    if "s \<in> {seg_ro_a papa_segments, seg_ro_b papa_segments, seg_rw_a papa_segments, seg_rw_b papa_segments}" for s
    using that by (auto simp: seg_range_def papa_segment_values H1_FLASH_START_def region_writable_def region_rw_def image_add_atLeastLessThan)
  then show ?thesis
    using init_regions [OF assms(3,4)] papa_segments_fit assms(1,2)
    by (auto simp: i Let_def image_Un Un_assoc papa_segment_values H1_FLASH_START_def seg_range_def)
qed

lemma globalsec_inactive_fit:
  assumes "flash_region0_base_addr regs \<in> {0x40000, 0x80000}" and "flash_region1_base_addr regs \<in> {0x44000, 0x84000}"
  shows "segment_fits (inactive_ro (runtime_segment_info (GlobalSecHardware_init papa_segments (GlobalSecHardware_new regs))))"
    and "segment_fits (inactive_rw (runtime_segment_info (GlobalSecHardware_init papa_segments (GlobalSecHardware_new regs))))"
  using opens_inactive [OF assms refl refl] by blast+


definition demo_regs :: GlobalSecRegisters where
  "demo_regs =
     (let locked = \<lparr>REGION_EN = True, REGION_RD_EN = True, REGION_WR_EN = False\<rparr> in
      \<lparr>cpu0_d_region_ctrl = replicate 4 locked, ddma0_region_ctrl = replicate 4 locked, dusb0_region_ctrl = replicate 4 locked,
       flash_region0_ctrl = locked, flash_region1_ctrl = locked, flash_region2_ctrl = locked, flash_region3_ctrl = locked,
       flash_region0_base_addr = 0x40000, flash_region0_size = 0x4000, flash_region1_base_addr = 0x84000,
       flash_region1_size = 0x3c000, flash_region2_base_addr = 0, flash_region2_size = 0, flash_region3_base_addr = 0,
       flash_region3_size = 0\<rparr>)"


text \<open>When the boot loader started an unknown image, both inactive segments stay unknown: they have no pages. The application
  then takes an update request for the unknown segment, and its loop, which computes the last page as one less than the
  first, erases page after page of the whole flash.
\<close>

theorem unknown_boot_erases_on:
  fixes c :: "'s FirmwareController"
  assumes "flash_region0_base_addr regs \<notin> {0x40000, 0x80000}" and "flash_region1_base_addr regs \<notin> {0x44000, 0x84000}"
    and "fc_erase_segment c = inactive_rw (runtime_segment_info (GlobalSecHardware_init papa_segments (GlobalSecHardware_new regs)))"
    and "fc_erase_page c < 2 ^ 32 - 1" and "fst (u_erase U (Suc (fc_erase_page c)) (fc_flash c))"
  shows "\<exists>c'. erase_segment_continue U c = (Ok True, c') \<and> fc_erase_page c' = Suc (fc_erase_page c)"
proof -
  have "inactive_rw (runtime_segment_info (GlobalSecHardware_init papa_segments (GlobalSecHardware_new regs))) = UNKNOWN_SEGMENT"
    using assms(1,2)
    by (auto simp: GlobalSecHardware_init_def GlobalSecHardware_new_def choose_ro_def choose_rw_def open_inactive_ro_def
      open_inactive_rw_def open_all_regions_def Let_def papa_segment_values UNKNOWN_RUNTIME_SEGMENT_INFO_def H1_FLASH_START_def)
  then show ?thesis
    using assms(3-5)
    by (auto simp: erase_segment_continue_def UNKNOWN_SEGMENT_def Let_def eff_bind_def on_fc_flash_def
        unsigned_minus_1_eq_mask mask_eq_exp_minus_1 split: prod.split)
qed

theorem unknown_boot_erases_on_witness:
  "flash_region0_base_addr (demo_regs\<lparr>flash_region0_base_addr := 0, flash_region1_base_addr := 0\<rparr>) \<notin> {0x40000, 0x80000} \<and>
   (\<exists>c'. erase_segment_continue eager_flash (FirmwareController_new ()) = (Ok True, c') \<and> fc_erase_page c' = 1)"
proof -
  let ?regs = "demo_regs\<lparr>flash_region0_base_addr := 0, flash_region1_base_addr := 0\<rparr>"
  have "UNKNOWN_SEGMENT = inactive_rw (runtime_segment_info (GlobalSecHardware_init papa_segments (GlobalSecHardware_new ?regs)))"
    by (simp add: GlobalSecHardware_init_def GlobalSecHardware_new_def choose_ro_def choose_rw_def open_inactive_ro_def
      open_inactive_rw_def open_all_regions_def Let_def papa_segment_values UNKNOWN_RUNTIME_SEGMENT_INFO_def H1_FLASH_START_def)
  then show ?thesis
    using unknown_boot_erases_on [of ?regs "FirmwareController_new ()" eager_flash]
    by (simp add: FirmwareController_new_def eager_flash_def)
qed

section \<open>Messages in shared buffers\<close>

context wire_message
begin

lemma message_in_buffer:
  assumes "valid x" and "length (concat (enc x)) \<le> length buf" and "length buf \<le> usize_max"
  obtains b r where "put_message (to_wire_cursor x) (Some buf) = (SUCCESS, Some b)" and "from_wire b = (Ok x, r)"
proof -
  obtain c where c: "to_wire_cursor x (Cursor_new buf) = (Ok (), c)" "Cursor_consumed_bytes c = concat (enc x)"
    using cursor_roundtrip [OF assms(1,3,2)] by blast
  then have "cur_buf c = concat (enc x) @ drop (cursor c) (cur_buf c)"
    by (metis Cursor_consumed_bytes_def append_take_drop_id)
  then show thesis
    using that [of "cur_buf c" "drop (cursor c) (cur_buf c)"] c(1) dec_enc [OF assms(1)] by (simp add: put_message_def) metis
qed

end

lemma info_enter_put:
  assumes "grant_ok (info_apps s)" and "map_of (info_apps s) app = Some b \<or> alloc app \<and> map_of (info_apps s) app = None \<and> b = None"
    and "f b = (rc, b')"
  shows "info_enter alloc app failure f s = (rc, s\<lparr>info_apps := grant_put app b' (info_apps s)\<rparr>)"
  using assms by (auto simp: info_enter_def grant_enter_def)

lemma put_id_bytes_eq:
  "idx + length bs \<le> length buf \<Longrightarrow> put_id_bytes idx bs buf = (SUCCESS, take idx buf @ bs @ drop (idx + length bs) buf)"
proof (induction idx bs buf rule: put_id_bytes.induct)
  case (2 idx b bs buf)
  then have "take (Suc idx) (buf[idx := b]) = take idx buf @ [b]"
    by (simp add: take_Suc_conv_app_nth)
  with 2 show ?case by simp
qed simp

end
