(* ===== verification/Board.thy ===== *)
theory Board
  imports Spi_Device_Syscalls Chip_Syscalls Spi_Safety
begin

text \<open>
  The board: the application of \<^verbatim>\<open>userspace/otpilot\<close> on the kernel drivers of the SPI device, the global security
  and the fuses, joined the way \<^verbatim>\<open>kernel/papa/src/main.rs\<close> joins them. The other drivers and the queue of
  callbacks belong to the Tock kernel and are parameters.
\<close>

section \<open>The kernel the application sees\<close>

record 'o Kernel =
  k_device :: "SpiDeviceHardware SpiDeviceSyscall"
  k_globalsec :: "GlobalSecHardware InfoSyscall"
  k_fuse :: "FuseController InfoSyscall"
  k_rest :: 'o

text \<open>What a return code is to the caller: a value, or an error.\<close>

fun syscall_value :: "ReturnCode \<Rightarrow> nat option" where
  "syscall_value (SuccessWithValue v) = Some v"
| "syscall_value SUCCESS = Some 0"
| "syscall_value _ = None"

text \<open>
  The drivers by number, for the application \<open>app\<close>. \<open>R\<close> are the system calls of the other drivers,
  \<open>nxt\<close> takes the next callback from the queue.
\<close>

definition board_command :: "(nat \<Rightarrow> bool) \<Rightarrow> nat \<Rightarrow> 'o Syscalls \<Rightarrow> nat \<Rightarrow> nat \<Rightarrow> nat \<Rightarrow> nat \<Rightarrow> 'o Kernel \<Rightarrow> nat option \<times> 'o Kernel" where
  "board_command alloc app R driver nr a b k =
     (if driver = DEVICE_DRIVER_NUMBER
        then (case sd_command alloc h1_spi_device nr a b app (k_device k) of (rc, d) \<Rightarrow> (syscall_value rc, k\<lparr>k_device := d\<rparr>))
      else if driver = GLOBALSEC_DRIVER_NUMBER
        then (case gs_command alloc nr app (k_globalsec k) of (rc, d) \<Rightarrow> (syscall_value rc, k\<lparr>k_globalsec := d\<rparr>))
      else if driver = FUSE_DRIVER_NUMBER
        then (case fuse_command alloc nr app (k_fuse k) of (rc, d) \<Rightarrow> (syscall_value rc, k\<lparr>k_fuse := d\<rparr>))
      else (case sys_command R driver nr a b (k_rest k) of (v, o') \<Rightarrow> (v, k\<lparr>k_rest := o'\<rparr>)))"

definition board_subscribe :: "(nat \<Rightarrow> bool) \<Rightarrow> nat \<Rightarrow> 'o Syscalls \<Rightarrow> nat \<Rightarrow> nat \<Rightarrow> 'o Kernel \<Rightarrow> bool \<times> 'o Kernel" where
  "board_subscribe alloc app R driver nr k =
     (if driver = DEVICE_DRIVER_NUMBER
        then (case sd_subscribe alloc nr True app (k_device k) of (rc, d) \<Rightarrow> (syscall_value rc \<noteq> None, k\<lparr>k_device := d\<rparr>))
      else if driver = GLOBALSEC_DRIVER_NUMBER
        then (case gs_subscribe nr (k_globalsec k) of (rc, d) \<Rightarrow> (syscall_value rc \<noteq> None, k\<lparr>k_globalsec := d\<rparr>))
      else if driver = FUSE_DRIVER_NUMBER
        then (case fuse_subscribe nr (k_fuse k) of (rc, d) \<Rightarrow> (syscall_value rc \<noteq> None, k\<lparr>k_fuse := d\<rparr>))
      else (case sys_subscribe R driver nr (k_rest k) of (v, o') \<Rightarrow> (v, k\<lparr>k_rest := o'\<rparr>)))"

text \<open>Sharing a buffer, and taking it back by sharing nothing.\<close>

definition device_share :: "(nat \<Rightarrow> bool) \<Rightarrow> nat \<Rightarrow> nat \<Rightarrow> byte list option \<Rightarrow> 'o Kernel \<Rightarrow> bool \<times> 'o Kernel" where
  "device_share alloc app nr b k =
     (case sd_allow alloc app nr b (k_device k) of (rc, d) \<Rightarrow> (syscall_value rc \<noteq> None, k\<lparr>k_device := d\<rparr>))"

definition globalsec_share :: "(nat \<Rightarrow> bool) \<Rightarrow> nat \<Rightarrow> nat \<Rightarrow> byte list option \<Rightarrow> 'o Kernel \<Rightarrow> bool \<times> 'o Kernel" where
  "globalsec_share alloc app nr b k =
     (case gs_allow alloc app nr b (k_globalsec k) of (rc, d) \<Rightarrow> (syscall_value rc \<noteq> None, k\<lparr>k_globalsec := d\<rparr>))"

definition fuse_share :: "(nat \<Rightarrow> bool) \<Rightarrow> nat \<Rightarrow> nat \<Rightarrow> byte list option \<Rightarrow> 'o Kernel \<Rightarrow> bool \<times> 'o Kernel" where
  "fuse_share alloc app nr b k =
     (case fuse_allow alloc app nr b (k_fuse k) of (rc, d) \<Rightarrow> (syscall_value rc \<noteq> None, k\<lparr>k_fuse := d\<rparr>))"

definition board_allow :: "(nat \<Rightarrow> bool) \<Rightarrow> nat \<Rightarrow> 'o Syscalls \<Rightarrow> nat \<Rightarrow> nat \<Rightarrow> byte list \<Rightarrow> 'o Kernel \<Rightarrow> bool \<times> 'o Kernel" where
  "board_allow alloc app R driver nr buf k =
     (if driver = DEVICE_DRIVER_NUMBER then device_share alloc app nr (Some buf) k
      else if driver = GLOBALSEC_DRIVER_NUMBER then globalsec_share alloc app nr (Some buf) k
      else if driver = FUSE_DRIVER_NUMBER then fuse_share alloc app nr (Some buf) k
      else (case sys_allow R driver nr buf (k_rest k) of (v, o') \<Rightarrow> (v, k\<lparr>k_rest := o'\<rparr>)))"

definition or_empty :: "'a list option \<Rightarrow> 'a list" where
  "or_empty x = (case x of Some l \<Rightarrow> l | None \<Rightarrow> [])"

definition board_shared :: "nat \<Rightarrow> 'o Syscalls \<Rightarrow> nat \<Rightarrow> nat \<Rightarrow> 'o Kernel \<Rightarrow> byte list" where
  "board_shared app R driver nr k =
     (if driver = DEVICE_DRIVER_NUMBER
        then or_empty (Option.bind (map_of (sd_apps (k_device k)) app) (if nr = 0 then tx_buffer else rx_buffer))
      else if driver = GLOBALSEC_DRIVER_NUMBER then or_empty (Option.bind (map_of (info_apps (k_globalsec k)) app) id)
      else if driver = FUSE_DRIVER_NUMBER then or_empty (Option.bind (map_of (info_apps (k_fuse k)) app) id)
      else sys_shared R driver nr (k_rest k))"

definition board_unallow :: "(nat \<Rightarrow> bool) \<Rightarrow> nat \<Rightarrow> 'o Syscalls \<Rightarrow> nat \<Rightarrow> nat \<Rightarrow> 'o Kernel \<Rightarrow> byte list \<times> 'o Kernel" where
  "board_unallow alloc app R driver nr k =
     (if driver = DEVICE_DRIVER_NUMBER then (board_shared app R driver nr k, snd (device_share alloc app nr None k))
      else if driver = GLOBALSEC_DRIVER_NUMBER then (board_shared app R driver nr k, snd (globalsec_share alloc app nr None k))
      else if driver = FUSE_DRIVER_NUMBER then (board_shared app R driver nr k, snd (fuse_share alloc app nr None k))
      else (case sys_unallow R driver nr (k_rest k) of (b, o') \<Rightarrow> (b, k\<lparr>k_rest := o'\<rparr>)))"

definition board :: "(nat \<Rightarrow> bool) \<Rightarrow> nat \<Rightarrow> 'o Syscalls \<Rightarrow> ('o Kernel \<Rightarrow> (upcall \<times> 'o Kernel) option) \<Rightarrow> 'o Kernel Syscalls" where
  "board alloc app R nxt =
     \<lparr>sys_command = board_command alloc app R, sys_subscribe = board_subscribe alloc app R, sys_allow = board_allow alloc app R,
      sys_shared = board_shared app R, sys_unallow = board_unallow alloc app R, sys_yield = nxt\<rparr>"

text \<open>The interrupt of the SPI device, with the system call driver as its client.\<close>

definition spi_interrupt :: "(nat \<Rightarrow> bool) \<Rightarrow> 'o Kernel \<Rightarrow> 'o Kernel" where
  "spi_interrupt alloc k =
     k\<lparr>k_device := handle_interrupt_cmd_addr_fifo_not_empty sd_device on_sd (data_available alloc h1_spi_device) (k_device k)\<rparr>"

text \<open>A callback as the application's process receives it.\<close>

fun upcall_of :: "spi_upcall \<Rightarrow> upcall" where
  "upcall_of (DataReceived n busy we) = \<lparr>up_driver = DEVICE_DRIVER_NUMBER, up_nr = 0, up_arg1 = word_of_nat n,
     up_arg2 = (if busy then 1 else 0), up_arg3 = (if we then 1 else 0)\<rparr>"
| "upcall_of (AddressModeChanged m) = \<lparr>up_driver = DEVICE_DRIVER_NUMBER, up_nr = 1, up_arg1 = word_of_nat m, up_arg2 = 0, up_arg3 = 0\<rparr>"

text \<open>The drivers after the start of the board, from the contents of the registers and the fuses.\<close>

definition papa_kernel :: "SpsRegisters \<Rightarrow> GlobalSecRegisters \<Rightarrow> FuseController \<Rightarrow> 'o \<Rightarrow> 'o Kernel" where
  "papa_kernel regs gregs f o' =
     \<lparr>k_device = SpiDeviceSyscall_new (SpiDeviceHardware_set_client True
        (SpiDeviceHardware_init
          \<lparr>enable_fastread4b_cmd = False, enable_enterexit4b_cmd = True, startup_address_mode = ThreeByte\<rparr>
          (SpiDeviceHardware_new regs SpiDeviceConfiguration_default))),
      k_globalsec = InfoSyscall_new (GlobalSecHardware_init papa_segments (GlobalSecHardware_new gregs)),
      k_fuse = InfoSyscall_new f,
      k_rest = o'\<rparr>"

section \<open>Starting the application's modules\<close>

lemmas board_defs = board_def board_command_def board_subscribe_def board_allow_def board_shared_def board_unallow_def
  device_share_def globalsec_share_def fuse_share_def or_empty_def driver_numbers

lemma sd_enter_new:
  "sd_apps s = [] \<Longrightarrow> alloc app \<Longrightarrow> f SpiApp_default s = (x, a, s') \<Longrightarrow> sd_enter alloc app f s = (Some x, s'\<lparr>sd_apps := [(app, a)]\<rparr>)"
  by (simp add: sd_enter_def grant_enter_def)

lemma sd_enter_one:
  "sd_apps s = [(app, d)] \<Longrightarrow> f d s = (x, a, s') \<Longrightarrow> sd_enter alloc app f s = (Some x, s'\<lparr>sd_apps := [(app, a)]\<rparr>)"
  by (simp add: sd_enter_def grant_enter_def)

lemmas sd_calls = sd_command_def sd_subscribe_def sd_allow_def sd_get_address_mode_def unwrap_or_def Let_def

definition started_app :: SpiApp where
  "started_app = SpiApp_default\<lparr>rx_buffer := Some (replicate MAX_READ_BUFFER_SIZE 0), data_received_callback := True,
     address_mode_changed_callback := True\<rparr>"

lemma device_initialized:
  assumes "alloc app" and "k_device k = SpiDeviceSyscall_new hw"
  shows "SpiDevice_initialize (board alloc app R nxt) (Userland_new k) =
    (Ok (), (Userland_new (k\<lparr>k_device := \<lparr>sd_device = hw, sd_apps = [(app, started_app)], sd_current_user = Some app, sd_scheduled = []\<rparr>\<rparr>))
       \<lparr>ul_device := \<lparr>received_len = 0, is_busy = False, is_write_enable = False, address_mode = SpiDeviceHardware_get_address_mode hw\<rparr>\<rparr>)"
proof -
  have m: "AddressMode_try_from (usize_from_AddressMode m) = Some m" for m
    by (simp add: AddressMode_roundtrip)
  show ?thesis
    using assms
    by (simp add: SpiDevice_initialize_def User_Devices.command_def User_Devices.subscribe_def User_Devices.allow_def board_defs sd_calls
        SpiDeviceSyscall_new_def sd_enter_new sd_enter_one Userland_new_def eff_bind_def h1_spi_device_def started_app_def m)
qed

section \<open>From the host to the application\<close>

text \<open>The queue of callbacks gives the oldest callback of the driver and removes it.\<close>

definition delivers :: "nat \<Rightarrow> ('o Kernel \<Rightarrow> (upcall \<times> 'o Kernel) option) \<Rightarrow> 'o Kernel \<Rightarrow> bool" where
  "delivers app nxt k \<longleftrightarrow> (case sd_scheduled (k_device k) of
     [] \<Rightarrow> True
   | (a, c) # cs \<Rightarrow> a = app \<longrightarrow> nxt k = Some (upcall_of c, k\<lparr>k_device := (k_device k)\<lparr>sd_scheduled := cs\<rparr>\<rparr>))"

definition set_registers :: "SpsRegisters \<Rightarrow> 'o Kernel \<Rightarrow> 'o Kernel" where
  "set_registers r k = k\<lparr>k_device := on_sd (\<lambda>d. d\<lparr>sps_registers := r\<rparr>) (k_device k)\<rparr>"

lemma holds_packets_length: "holds_packets (p # ps) r \<Longrightarrow> length p \<le> 512 \<and> cmd_addr_fifo r \<noteq> []"
  by (auto simp: holds_packets_def split: list.splits)

subsection \<open>The states of a running board\<close>

text \<open>
  The states of the board after the application has set up the SPI device: system calls of any application to any driver,
  packets, callbacks handed over and changes in the other drivers, in any order. The application never shares another
  receive buffer or takes it back.
\<close>

inductive serving :: "(nat \<Rightarrow> bool) \<Rightarrow> nat \<Rightarrow> 'o Syscalls \<Rightarrow> ('o Kernel \<Rightarrow> (upcall \<times> 'o Kernel) option) \<Rightarrow> 'o Kernel \<Rightarrow> bool"
  for alloc app R nxt where
  started: "SpiDevice_initialize (board alloc app R nxt) (Userland_new (papa_kernel regs gregs f o')) = (Ok (), u) \<Longrightarrow>
    serving alloc app R nxt (kern u)"
| commanded: "serving alloc app R nxt k \<Longrightarrow> serving alloc app R nxt (snd (board_command alloc app' R driver nr a b k))"
| subscribed: "serving alloc app R nxt k \<Longrightarrow> serving alloc app R nxt (snd (board_subscribe alloc app' R driver nr k))"
| allowed: "serving alloc app R nxt k \<Longrightarrow> app' \<noteq> app \<or> driver \<noteq> DEVICE_DRIVER_NUMBER \<or> nr \<noteq> 1 \<Longrightarrow>
    serving alloc app R nxt (snd (board_allow alloc app' R driver nr buf k))"
| unallowed: "serving alloc app R nxt k \<Longrightarrow> app' \<noteq> app \<or> driver \<noteq> DEVICE_DRIVER_NUMBER \<or> nr \<noteq> 1 \<Longrightarrow>
    serving alloc app R nxt (snd (board_unallow alloc app' R driver nr k))"
| interrupted: "serving alloc app R nxt k \<Longrightarrow> serving alloc app R nxt (spi_interrupt alloc (set_registers r k))"
| delivered: "serving alloc app R nxt k \<Longrightarrow> sd_scheduled (k_device k) = c # cs \<Longrightarrow>
    serving alloc app R nxt (k\<lparr>k_device := (k_device k)\<lparr>sd_scheduled := cs\<rparr>\<rparr>)"
| elsewhere: "serving alloc app R nxt k \<Longrightarrow> serving alloc app R nxt (k\<lparr>k_rest := o'\<rparr>)"

text \<open>The device keeps its client, which is a device contract of its own.\<close>

interpretation h1_client: spi_device_contract h1_spi_device sps_client
proof
  fix s :: SpiDeviceHardware and c m buf data b
  assume client: "sps_client s"
  then show "sps_client (hil_configure_addresses h1_spi_device c s)" "sps_client (hil_set_address_mode h1_spi_device m s)"
    "sps_client (snd (hil_put_send_data h1_spi_device data s))" "sps_client (hil_set_status h1_spi_device b s)"
    "sps_client (hil_clear_busy h1_spi_device s)" "sps_client (hil_clear_write_enable h1_spi_device s)"
    by (simp_all add: h1_spi_device_def sps_defs Let_def SpiDeviceHardware_put_send_data_def on_regs_def)
  show "sps_client (snd (hil_set_jedec_id h1_spi_device data s))" "sps_client (snd (hil_set_sfdp h1_spi_device data s))"
    using client by (auto simp: h1_spi_device_def SpiDeviceHardware_set_jedec_id_def SpiDeviceHardware_set_sfdp_def on_regs_def split: prod.split)
  obtain f r where "snd (snd (SpiDeviceHardware_get_received_data buf s)) =
      s\<lparr>sps_registers := (sps_registers s)\<lparr>cmd_addr_fifo := f, cmd_mem_rptr := r\<rparr>\<rparr>"
    by (rule get_received_data_state)
  then show "sps_client (snd (snd (hil_get_received_data h1_spi_device buf s)))"
    using client by (simp add: h1_spi_device_def)
qed (rule h1_sps.get_set_mode, simp add: h1_spi_device_def get_received_data_bounds)

text \<open>What the delivery of packets rests on: the application is the user of the device, it has subscribed to data, and its
  receive buffer has the size of the command memory.
\<close>

definition listening :: "SpiApp \<Rightarrow> bool" where
  "listening a \<longleftrightarrow> data_received_callback a \<and> (case rx_buffer a of Some buf \<Rightarrow> length buf = 512 | None \<Rightarrow> False)"

definition app_listens :: "nat \<Rightarrow> SpiDeviceHardware SpiDeviceSyscall \<Rightarrow> bool" where
  "app_listens app s \<longleftrightarrow> sd_current_user s = Some app \<and> (case map_of (sd_apps s) app of Some a \<Rightarrow> listening a | None \<Rightarrow> False)"

definition app_ready :: "nat \<Rightarrow> SpiDeviceHardware SpiDeviceSyscall \<Rightarrow> bool" where
  "app_ready app s \<longleftrightarrow> sd_ok sps_client s \<and> app_listens app s"

lemma sd_enter_listens:
  assumes "app_listens app s" and "grant_ok (sd_apps s)" and "\<And>d. sd_current_user (snd (snd (f d s))) = sd_current_user s"
    and "\<And>d. app' = app \<Longrightarrow> listening d \<Longrightarrow> listening (fst (snd (f d s)))"
  shows "app_listens app (snd (sd_enter alloc app' f s))"
proof -
  have "sd_current_user s' = sd_current_user s" "app' = app \<Longrightarrow> listening d \<Longrightarrow> listening d'" if "f d s = (a, d', s')" for a d d' s'
    using assms(3,4) [of d] that by simp_all
  then show ?thesis
    using assms(1,2)
    by (auto simp: app_listens_def sd_enter_def grant_enter_def map_of_grant_put split: option.splits prod.splits)
qed

lemma clear_bits_user [simp]: "sd_current_user (clear_bits D b w s) = sd_current_user s"
  by (simp add: clear_bits_def on_sd_def)

lemma status_calls_listen:
  assumes "app_listens app s" and "grant_ok (sd_apps s)"
  shows "app_listens app (snd (clear_status alloc D app' b w s))"
    and "app_listens app (snd (sd_set_address_mode alloc D app' m s))"
    and "app_listens app (snd (sd_get_address_mode alloc D app' s))"
    and "app_listens app (snd (set_address_mode_handling alloc app' h s))"
    and "app_listens app (snd (sd_subscribe alloc n True app' s))"
    and "app' \<noteq> app \<or> n \<noteq> 1 \<Longrightarrow> app_listens app (snd (sd_allow alloc app' n buf s))"
  using assms
  unfolding clear_status_def sd_set_address_mode_def sd_get_address_mode_def set_address_mode_handling_def sd_subscribe_def sd_allow_def
  by (auto intro!: sd_enter_listens simp: on_sd_def listening_def)

lemma buffer_calls_listen:
  assumes "app_listens app s" and "grant_ok (sd_apps s)"
  shows "app_listens app (snd (sd_send_data alloc D app' b w s))"
    and "app_listens app (snd (sd_set_jedec_id alloc D app' s))"
    and "app_listens app (snd (sd_set_sfdp alloc D app' s))"
    and "app_listens app (snd (sd_configure_addresses alloc D app' s))"
  using assms unfolding sd_send_data_def sd_set_jedec_id_def sd_set_sfdp_def sd_configure_addresses_def
  by (auto intro!: sd_enter_listens simp: on_sd_def split: option.split prod.split outcome.split)

lemma sd_command_ready:
  assumes "app_ready app s"
  shows "app_ready app (snd (sd_command alloc h1_spi_device nr a b app' s))"
proof -
  have listens: "app_listens app s" "grant_ok (sd_apps s)" and "sd_current_user s \<noteq> None"
    using assms by (auto simp: app_ready_def sd_ok_def app_listens_def)
  then have "app_listens app (snd (sd_command alloc h1_spi_device nr a b app' s))"
    unfolding sd_command_def Let_def
    by (auto simp del: if_split split: option.split intro!: status_calls_listen buffer_calls_listen cong: if_cong)
  then show ?thesis
    using assms h1_client.sd_command_ok by (simp add: app_ready_def)
qed

lemma sd_subscribe_ready: "app_ready app s \<Longrightarrow> app_ready app (snd (sd_subscribe alloc nr True app' s))"
  using h1_client.simple_calls_ok(5) status_calls_listen(5) by (simp add: app_ready_def sd_ok_def)

lemma sd_allow_ready:
  "app_ready app s \<Longrightarrow> app' \<noteq> app \<or> nr \<noteq> 1 \<Longrightarrow> app_ready app (snd (sd_allow alloc app' nr buf s))"
  using h1_client.simple_calls_ok(6) status_calls_listen(6) by (simp add: app_ready_def sd_ok_def)

lemma handle_packet_keeps:
  shows "sd_current_user (snd (snd (handle_packet h1_spi_device app busy we d s))) = sd_current_user s"
    and "listening d \<Longrightarrow> listening (fst (snd (handle_packet h1_spi_device app busy we d s)))"
proof -
  obtain n c v d1 s1 where r: "receive_packet h1_spi_device d s = ((n, c, v), d1, s1)"
    by (metis surj_pair)
  have keep: "sd_current_user s1 = sd_current_user s" "listening d \<Longrightarrow> listening d1"
    using r by (auto simp: receive_packet_def listening_def h1_spi_device_def split: option.splits prod.splits dest: get_received_data_bounds)
  have "sd_current_user (snd (process_spi_cmd h1_spi_device app d1 c' v s1)) = sd_current_user s1" for c'
    by (auto simp: process_spi_cmd_def change_address_mode_def Let_def on_sd_def sd_schedule_def split: option.split HandlerMode.split)
  then have "sd_current_user s2 = sd_current_user s1" if "process_spi_cmd h1_spi_device app d1 c' v s1 = (h, s2)" for c' h s2
    using that by (metis snd_conv)
  then show "sd_current_user (snd (snd (handle_packet h1_spi_device app busy we d s))) = sd_current_user s"
    and "listening d \<Longrightarrow> listening (fst (snd (handle_packet h1_spi_device app busy we d s)))"
    using keep by (auto simp: handle_packet_def r sd_schedule_def split: option.splits prod.splits if_splits)
qed

lemma interrupt_ready:
  assumes "app_ready app (k_device k)"
  shows "app_ready app (k_device (spi_interrupt alloc (set_registers r k)))"
proof -
  let ?s = "k_device (set_registers r k)"
  have ready: "app_ready app ?s"
    using assms by (simp add: app_ready_def app_listens_def set_registers_def on_sd_def sd_ok_def)
  have "app_ready app (data_available alloc h1_spi_device busy we ?s)" for busy we
  proof -
    have s: "sd_ok sps_client ?s" "app_listens app ?s" "grant_ok (sd_apps ?s)" "sd_current_user ?s = Some app"
      using ready by (auto simp: app_ready_def sd_ok_def app_listens_def)
    have "sd_ok sps_client (snd (sd_enter alloc app (handle_packet h1_spi_device app busy we) ?s))"
      using s(1) by (intro sd_enter_ok h1_client.handle_packet_inv)
    moreover have "app_listens app (snd (sd_enter alloc app (handle_packet h1_spi_device app busy we) ?s))"
      using s(2,3) handle_packet_keeps by (intro sd_enter_listens)
    ultimately show ?thesis
      by (simp add: app_ready_def data_available_def s(4))
  qed
  then show ?thesis
    using ready
    by (auto simp: spi_interrupt_def handle_interrupt_cmd_addr_fifo_not_empty_def app_ready_def app_listens_def sd_ok_def on_sd_def
        clear_rx_interrupt_def on_regs_def)
qed

lemma serving_ready: "serving alloc app R nxt k \<Longrightarrow> alloc app \<Longrightarrow> app_ready app (k_device k)"
proof (induction rule: serving.induct)
  case (started regs gregs f o' u)
  obtain hw where hw: "k_device (papa_kernel regs gregs f o') = SpiDeviceSyscall_new hw" "sps_client hw"
    by (simp add: papa_kernel_def SpiDeviceHardware_set_client_def)
  then show ?case
    using started device_initialized [of alloc app, OF _ hw(1), of R nxt]
    by (auto simp: Userland_new_def app_ready_def app_listens_def sd_ok_def grant_ok_def listening_def started_app_def SpiApp_default_def
        MAX_READ_BUFFER_SIZE_def)
next
  case (commanded k app' driver nr a b)
  then show ?case
    using sd_command_ready [of app "k_device k" alloc nr a b app'] by (auto simp: board_command_def split: prod.split)
next
  case (subscribed k app' driver nr)
  then show ?case
    using sd_subscribe_ready [of app "k_device k" alloc nr app'] by (auto simp: board_subscribe_def split: prod.split)
next
  case (allowed k app' driver nr buf)
  then show ?case
    using sd_allow_ready [of app "k_device k" app' nr alloc "Some buf"]
    by (auto simp: board_allow_def device_share_def globalsec_share_def fuse_share_def split: prod.split)
next
  case (unallowed k app' driver nr)
  then show ?case
    using sd_allow_ready [of app "k_device k" app' nr alloc None]
    by (auto simp: board_unallow_def device_share_def globalsec_share_def fuse_share_def split: prod.split)
next
  case (interrupted k r)
  then show ?case by (simp add: interrupt_ready)
next
  case (delivered k c cs)
  then show ?case by (simp add: app_ready_def app_listens_def sd_ok_def)
qed simp

text \<open>A reply of the application is a sequence of such steps.\<close>

lemma write_share_serving:
  assumes "serving alloc app R nxt (kern u)" and "\<And>u. serving alloc app R nxt (kern u) \<Longrightarrow> serving alloc app R nxt (kern (snd (body u)))"
  shows "serving alloc app R nxt (kern (snd (with_write_share (board alloc app R nxt) DEVICE_DRIVER_NUMBER 0 buf body u)))"
proof -
  let ?B = "board alloc app R nxt"
  obtain r1 u1 where allow: "User_Devices.allow ?B DEVICE_DRIVER_NUMBER 0 buf u = (r1, u1)"
    by (metis surj_pair)
  have "serving alloc app R nxt (snd (board_allow alloc app R DEVICE_DRIVER_NUMBER 0 buf (kern u)))"
    using assms(1) by (intro serving.allowed) simp_all
  then have u1: "serving alloc app R nxt (kern u1)"
    using allow by (auto simp: User_Devices.allow_def board_def split: prod.splits if_splits)
  obtain r2 u2 where body: "body u1 = (r2, u2)"
    by (metis surj_pair)
  then have "serving alloc app R nxt (snd (board_unallow alloc app R DEVICE_DRIVER_NUMBER 0 (kern u2)))"
    using assms(2) [OF u1] by (intro serving.unallowed) simp_all
  then show ?thesis
    using u1 allow body
    by (cases r1) (auto simp: with_write_share_def with_share_def board_def split: prod.split)
qed

lemma command_serving:
  "serving alloc app R nxt (kern u) \<Longrightarrow> serving alloc app R nxt (kern (snd (User_Devices.command (board alloc app R nxt) driver nr a b u)))"
  using serving.commanded [of alloc app R nxt "kern u" app driver nr a b]
  by (auto simp: User_Devices.command_def board_def split: prod.split option.split)

lemma reply_serving:
  assumes "serving alloc app R nxt (kern u)"
  shows "serving alloc app R nxt (kern (snd (end_transaction_with_data (user_device (board alloc app R nxt)) data clear_busy clear_write_enable u)))"
    and "serving alloc app R nxt (kern (snd (end_transaction_with_status (user_device (board alloc app R nxt)) clear_busy clear_write_enable u)))"
proof -
  let ?B = "board alloc app R nxt"
  have ign: "serving alloc app R nxt (kern (snd (ignore_result (User_Devices.command ?B driver nr a b) v)))"
    if "serving alloc app R nxt (kern v)" for driver nr a b v
    using command_serving [OF that, of driver nr a b] by (auto simp: ignore_result_def eff_bind_def split: prod.split outcome.split)
  have fin: "serving alloc app R nxt (kern (SpiDevice_end_transaction u))"
    using assms by (simp add: SpiDevice_end_transaction_def)
  show "serving alloc app R nxt (kern (snd (end_transaction_with_data (user_device ?B) data clear_busy clear_write_enable u)))"
    using write_share_serving [OF fin ign] by (simp add: user_device_def SpiDevice_end_transaction_with_data_def)
  show "serving alloc app R nxt (kern (snd (end_transaction_with_status (user_device ?B) clear_busy clear_write_enable u)))"
    using ign [OF fin] by (simp add: user_device_def SpiDevice_end_transaction_with_status_def)
qed

subsection \<open>The packet the application sees\<close>

definition handling :: "nat \<Rightarrow> 'o Kernel \<Rightarrow> HandlerMode" where
  "handling app k = (case map_of (sd_apps (k_device k)) app of Some a \<Rightarrow> address_mode_handling a | None \<Rightarrow> HandlerMode_default)"

lemma interrupt_delivers:
  assumes "holds_packets (p # ps) r" and "sps_sizes r" and ready: "app_ready app (k_device k)" and "sd_scheduled (k_device k) = []"
    and v: "packet_verdict (handling app k) p = ToUser" and k': "k' = spi_interrupt alloc (set_registers r k)"
  shows "sd_scheduled (k_device k') = [(app, DataReceived (length p) (eeprom_busy_status r) (eeprom_wel_status r))] \<and>
    (\<exists>a rest. map_of (sd_apps (k_device k')) app = Some a \<and> rx_buffer a = Some (p @ rest))"
proof -
  let ?s = "k_device (set_registers r k)"
  have p: "length p \<le> 512" "cmd_addr_fifo r \<noteq> []"
    using holds_packets_length [OF assms(1)] by simp_all
  obtain a buf where a: "map_of (sd_apps ?s) app = Some a" "rx_buffer a = Some buf" "length buf = 512" "data_received_callback a"
    using ready by (auto simp: app_ready_def app_listens_def listening_def set_registers_def on_sd_def split: option.splits)
  have s: "sps_registers (sd_device ?s) = r" "sps_client (sd_device ?s)" "sd_current_user ?s = Some app" "sd_scheduled ?s = []"
      "grant_ok (sd_apps ?s)"
    using ready assms(4) by (auto simp: app_ready_def app_listens_def sd_ok_def set_registers_def on_sd_def)
  have v': "packet_verdict (address_mode_handling a) p = ToUser"
    using v a(1) by (simp add: handling_def set_registers_def on_sd_def)
  obtain d' where d': "data_available alloc h1_spi_device (eeprom_busy_status r) (eeprom_wel_status r) ?s =
      ?s\<lparr>sd_device := d', sd_apps := grant_put app (a\<lparr>rx_buffer := Some (p @ drop (length p) buf)\<rparr>) (sd_apps ?s),
         sd_scheduled := [(app, DataReceived (length p) (eeprom_busy_status r) (eeprom_wel_status r))]\<rparr>"
    using packet_handled_eq [of p ps ?s app a buf alloc "eeprom_busy_status r" "eeprom_wel_status r"] assms(1,2) s a p v' by auto
  show ?thesis
    using s p(2) d'
    by (simp add: k' spi_interrupt_def handle_interrupt_cmd_addr_fifo_not_empty_def SpiDeviceHardware_is_busy_def is_write_enabled_def
        on_sd_def map_of_grant_put)
qed

text \<open>C4. From the setup of the SPI device on, and whatever system calls, packets and replies came before: when the callbacks of
  earlier packets have been handed over, a packet of the host that the kernel does not answer or drop itself reaches the
  application byte for byte, with the busy and write enable bits of the device, and the board is again ready for the next.
\<close>

theorem host_packet_reaches_application:
  assumes "alloc app" and "serving alloc app R nxt (kern u)" and "sd_scheduled (k_device (kern u)) = []"
    and "holds_packets (p # ps) r" and "sps_sizes r" and "p \<noteq> []" and "packet_verdict (handling app (kern u)) p = ToUser"
    and "k = spi_interrupt alloc (set_registers r (kern u))" and "delivers app nxt k"
  shows "\<exists>u'. yieldk (board alloc app R nxt) (u\<lparr>kern := k\<rparr>) = Some u' \<and>
    have_transaction (user_device (board alloc app R nxt)) u' \<and>
    device_read_buffer (user_device (board alloc app R nxt)) u' = (Ok p, u') \<and>
    is_busy_set (user_device (board alloc app R nxt)) u' = eeprom_busy_status r \<and>
    User_Devices.is_write_enable_set (user_device (board alloc app R nxt)) u' = eeprom_wel_status r \<and>
    serving alloc app R nxt (kern u') \<and> sd_scheduled (k_device (kern u')) = []"
proof -
  let ?S = "board alloc app R nxt" and ?c = "DataReceived (length p) (eeprom_busy_status r) (eeprom_wel_status r)"
  obtain a rest where sched: "sd_scheduled (k_device k) = [(app, ?c)]" and a: "map_of (sd_apps (k_device k)) app = Some a" "rx_buffer a = Some (p @ rest)"
    using interrupt_delivers [OF assms(4,5) serving_ready [OF assms(2,1)] assms(3,7,8)] by blast
  let ?k = "k\<lparr>k_device := (k_device k)\<lparr>sd_scheduled := []\<rparr>\<rparr>"
  let ?u = "dispatch (upcall_of ?c) (u\<lparr>kern := ?k\<rparr>)"
  have "nxt k = Some (upcall_of ?c, ?k)"
    using assms(9) by (simp add: delivers_def sched)
  then have "yieldk ?S (u\<lparr>kern := k\<rparr>) = Some ?u"
    by (simp add: yieldk_def board_def)
  moreover have "unat (word_of_nat (length p) :: u32) = length p"
    using holds_packets_length [OF assms(4)] by (simp add: unat_of_nat)
  moreover have "serving alloc app R nxt ?k"
    using serving.delivered [OF serving.interrupted [OF assms(2)], of r "(app, ?c)" "[]"] sched assms(8) by simp
  ultimately show ?thesis
    using assms(6) a
    by (auto simp: user_device_def dispatch_def driver_numbers data_received_def SpiDevice_get_read_buffer_def board_def board_shared_def
        or_empty_def Let_def)
qed

text \<open>No other drivers, and a queue with the callbacks of the SPI device only.\<close>

definition demo_rest :: "unit Syscalls" where
  "demo_rest = \<lparr>sys_command = (\<lambda>d n a b s. (None, s)), sys_subscribe = (\<lambda>d n s. (False, s)), sys_allow = (\<lambda>d n b s. (False, s)),
     sys_shared = (\<lambda>d n s. []), sys_unallow = (\<lambda>d n s. ([], s)), sys_yield = (\<lambda>s. None)\<rparr>"

definition demo_queue :: "unit Kernel \<Rightarrow> (upcall \<times> unit Kernel) option" where
  "demo_queue k = (case sd_scheduled (k_device k) of [] \<Rightarrow> None
     | (a, c) # cs \<Rightarrow> Some (upcall_of c, k\<lparr>k_device := (k_device k)\<lparr>sd_scheduled := cs\<rparr>\<rparr>))"

abbreviation demo_board :: "unit Kernel Syscalls" where
  "demo_board \<equiv> board (\<lambda>_. True) 7 demo_rest demo_queue"

definition demo_fuse :: FuseController where
  "demo_fuse = \<lparr>dev_id0 = 0x12345678, dev_id1 = 0x9abcdef0\<rparr>"

text \<open>A packet of three bytes right after the start, and a second packet.\<close>

theorem host_packet_reaches_application_witness:
  "\<exists>u u' u'' :: unit Kernel Userland. SpiDevice_initialize demo_board (Userland_new (papa_kernel sps_zero demo_regs demo_fuse ())) = (Ok (), u) \<and>
     yieldk demo_board (u\<lparr>kern := spi_interrupt (\<lambda>_. True)
       (set_registers (sps_registers (sd_device (demo_spi_driver [0x03, 0, 0x10]))) (kern u))\<rparr>) = Some u' \<and>
     device_read_buffer (user_device demo_board) u' = (Ok [0x03, 0, 0x10], u') \<and>
     yieldk demo_board (u'\<lparr>kern := spi_interrupt (\<lambda>_. True)
       (set_registers (sps_registers (sd_device (demo_spi_driver [0x0b, 1]))) (kern u'))\<rparr>) = Some u'' \<and>
     device_read_buffer (user_device demo_board) u'' = (Ok [0x0b, 1], u'')"
proof -
  obtain u where init: "SpiDevice_initialize demo_board (Userland_new (papa_kernel sps_zero demo_regs demo_fuse ())) = (Ok (), u)"
      and idle: "sd_scheduled (k_device (kern u)) = []"
    using device_initialized [of "\<lambda>_. True" 7 "papa_kernel sps_zero demo_regs demo_fuse ()" _ demo_rest demo_queue]
    by (auto simp: papa_kernel_def Userland_new_def)
  have verdict: "packet_verdict h [0x03, 0, 0x10] = ToUser" "packet_verdict h [0x0b, 1] = ToUser" for h
    by (simp_all add: packet_verdict_def)
  have queue: "delivers 7 demo_queue k" for k
    by (simp add: delivers_def demo_queue_def split: list.split prod.split)
  note serving = serving.started [OF init]
  obtain u' where u': "yieldk demo_board (u\<lparr>kern := spi_interrupt (\<lambda>_. True)
       (set_registers (sps_registers (sd_device (demo_spi_driver [0x03, 0, 0x10]))) (kern u))\<rparr>) = Some u'"
     "device_read_buffer (user_device demo_board) u' = (Ok [0x03, 0, 0x10], u')"
     "serving (\<lambda>_. True) 7 demo_rest demo_queue (kern u')" "sd_scheduled (k_device (kern u')) = []"
    using host_packet_reaches_application [OF _ serving idle demo_spi_driver_packets(2,1) _ verdict(1) refl queue] by auto
  moreover have "\<exists>u''. yieldk demo_board (u'\<lparr>kern := spi_interrupt (\<lambda>_. True)
       (set_registers (sps_registers (sd_device (demo_spi_driver [0x0b, 1]))) (kern u'))\<rparr>) = Some u'' \<and>
     device_read_buffer (user_device demo_board) u'' = (Ok [0x0b, 1], u'')"
    using host_packet_reaches_application [OF _ u'(3,4) demo_spi_driver_packets(2,1) _ verdict(2) refl queue] by auto
  ultimately show ?thesis
    using init by blast
qed

section \<open>From the application to the host\<close>

text \<open>C11. A reply of at most 2048 bytes ends the transaction and is what the host reads: the memory of the device holds exactly
  its bytes, filled up with ones, and the status bits are cleared as asked.
\<close>

theorem reply_reaches_host:
  assumes "map_of (sd_apps (k_device (kern u))) app = Some a" and "grant_ok (sd_apps (k_device (kern u)))"
    and "sps_sizes (sps_registers (sd_device (k_device (kern u))))" and "length data \<le> 2048"
    and "\<not> eeprom_busy_status_written (sps_registers (sd_device (k_device (kern u))))"
    and "\<not> eeprom_wel_status_written (sps_registers (sd_device (k_device (kern u))))"
  shows "\<exists>u' r. end_transaction_with_data (user_device (board alloc app R nxt)) data clear_busy clear_write_enable u = (Ok (), u') \<and>
    sps_registers (sd_device (k_device (kern u'))) = r \<and> generic_ram r = data @ replicate (2048 - length data) 0xff \<and>
    eeprom_busy_status_written r = clear_busy \<and> eeprom_wel_status_written r = clear_write_enable \<and>
    \<not> have_transaction (user_device (board alloc app R nxt)) u'"
proof -
  let ?g = "sd_apps (k_device (kern u))"
  have put: "map_of (grant_put app x ?g) app = Some x" "map_of (grant_put app y (grant_put app x ?g)) app = Some y" for x y
    using assms(2) by (simp_all add: map_of_grant_put grant_put_ok)
  have ram: "length (generic_ram (sps_registers (sd_device (k_device (kern u))))) = 2048"
    using assms(3) by (simp add: sps_sizes_def)
  show ?thesis
    using assms(1,4-6) ram
    by (cases clear_busy; cases clear_write_enable)
      (simp_all add: user_device_def SpiDevice_end_transaction_with_data_def SpiDevice_end_transaction_def with_write_share_def
        with_share_def ignore_result_def eff_bind_def User_Devices.command_def User_Devices.allow_def board_defs bool_arg_def
        sd_command_def sd_allow_def sd_send_data_def unwrap_or_def Let_def sd_enter_def grant_enter_def put clear_bits_def on_sd_def
        h1_spi_device_def put_send_data_eq SpiDeviceHardware_clear_busy_def SpiDeviceHardware_clear_write_enable_def)
qed

definition demo_userland :: "unit Kernel Userland" where
  "demo_userland = Userland_new ((papa_kernel sps_zero demo_regs demo_fuse ())\<lparr>k_device := demo_spi_driver []\<rparr>)"

theorem reply_reaches_host_witness:
  "\<exists>u'. end_transaction_with_data (user_device demo_board) [1, 2] True True demo_userland = (Ok (), u') \<and>
    generic_ram (sps_registers (sd_device (k_device (kern u')))) = [1, 2] @ replicate 2046 0xff"
proof -
  have "k_device (kern demo_userland) = demo_spi_driver []"
    by (simp add: demo_userland_def Userland_new_def)
  moreover have "map_of (sd_apps (demo_spi_driver [])) 7 = Some demo_app" "grant_ok (sd_apps (demo_spi_driver []))"
    "\<not> eeprom_busy_status_written (sps_registers (sd_device (demo_spi_driver [])))"
    "\<not> eeprom_wel_status_written (sps_registers (sd_device (demo_spi_driver [])))"
    by (simp_all add: demo_spi_driver_def grant_ok_def SpiDeviceHardware_new_def sps_zero_def)
  ultimately show ?thesis
    using reply_reaches_host [of demo_userland 7 demo_app "[1, 2]" "\<lambda>_. True" demo_rest demo_queue True True] demo_spi_driver_packets(1) [of "[]"]
    by auto
qed

section \<open>What the application learns at the start\<close>

lemma info_shared_message:
  assumes "put_message w (Some (replicate n 0)) = (SUCCESS, Some b)"
  shows "info_enter alloc app ENOMEM (put_message w) \<lparr>info_device = h, info_apps = [(app, Some (replicate n 0))], info_current_user = c\<rparr> =
    (SUCCESS, \<lparr>info_device = h, info_apps = [(app, Some b)], info_current_user = c\<rparr>)"
  using assms by (simp add: info_enter_def grant_enter_def)

text \<open>C29. The application of a board whose boot loader started a known image starts with the segments of the kernel, and they
  meet what the safety of its packets rests on.
\<close>

theorem application_knows_segments:
  assumes "alloc app" and "flash_region0_base_addr gregs \<in> {0x40000, 0x80000}" and "flash_region1_base_addr gregs \<in> {0x44000, 0x84000}"
  shows "\<exists>u. GlobalSec_initialize (board alloc app R nxt) (Userland_new (papa_kernel regs gregs f o')) = (Ok (), u) \<and>
    ul_segments u = runtime_segment_info (GlobalSecHardware_init papa_segments (GlobalSecHardware_new gregs)) \<and>
    segments_fit (ul_segments u)"
proof -
  let ?i = "runtime_segment_info (GlobalSecHardware_init papa_segments (GlobalSecHardware_new gregs))"
  have "length (concat (RuntimeSegmentInfo_enc ?i)) = RUNTIME_SEGMENT_INFO_LEN" "RUNTIME_SEGMENT_INFO_LEN \<le> usize_max"
    by (simp_all add: RUNTIME_SEGMENT_INFO_LEN_def SEGMENT_INFO_LEN_def)
  then obtain b r where put: "put_message (RuntimeSegmentInfo_to_wire Cursor_write_bytes ?i) (Some (replicate RUNTIME_SEGMENT_INFO_LEN 0)) = (SUCCESS, Some b)"
      and b: "RuntimeSegmentInfo_from_wire b = (Ok ?i, r)"
    using rsi_m.message_in_buffer [of ?i "replicate RUNTIME_SEGMENT_INFO_LEN 0"] by auto
  have fits: "segments_fit ?i"
    using globalsec_inactive_fit [OF assms(2,3)] by (simp add: segments_fit_def)
  have b': "fst (RuntimeSegmentInfo_from_wire b) = Ok ?i"
    by (simp add: b)
  show ?thesis
    using assms(1) fits
    by (simp add: GlobalSec_initialize_def get_runtime_segment_info_def read_shared_def or_format_def b' with_share_def eff_bind_def
        User_Devices.command_def User_Devices.allow_def board_defs gs_command_def gs_allow_def gs_get_runtime_segment_info_def
        papa_kernel_def InfoSyscall_new_def first_user_def Let_def info_shared_message [OF put] Userland_new_def
        info_enter_def [where f = "\<lambda>_. _"] grant_enter_def)
qed

theorem application_knows_segments_witness:
  "\<exists>u. GlobalSec_initialize demo_board (Userland_new (papa_kernel sps_zero demo_regs demo_fuse ())) = (Ok (), u) \<and> segments_fit (ul_segments u)"
  using application_knows_segments [of "\<lambda>_. True" 7 demo_regs demo_rest demo_queue sps_zero demo_fuse "()"] by (auto simp: demo_regs_def Let_def)

text \<open>The device identifier is the fuses, high word first.\<close>

lemma application_reads_dev_id:
  assumes "alloc app"
  shows "fst (get_dev_id (board alloc app R nxt) (Userland_new (papa_kernel regs gregs f o'))) = Ok (FuseController_get_dev_id f)"
proof -
  have put: "put_id_bytes 0 (be_bytes 8 (unat v)) (replicate 8 0) = (SUCCESS, be_bytes 8 (unat v))" for v :: u64
    using put_id_bytes_eq [of 0 "be_bytes 8 (unat v)" "replicate 8 0"] by simp
  have read: "BE_read 8 (be_bytes 8 (unat v)) = (ret v :: ('s, 'e, u64) eff)" for v :: u64
    using word_of_nat_mod_id [of 8 v] by (simp add: BE_read_def)
  show ?thesis
    using assms
    by (simp add: get_dev_id_def read_shared_def with_share_def eff_bind_def User_Devices.command_def User_Devices.allow_def board_defs
        fuse_command_def fuse_allow_def fuse_get_dev_id_def papa_kernel_def InfoSyscall_new_def first_user_def Let_def Userland_new_def
        info_enter_def grant_enter_def put read)
qed

end
