(* ===== verification/Spi_Host_Hw.thy ===== *)
theory Spi_Host_Hw
  imports Grants
begin

text \<open>
  The SPI host of the kernel, \<^verbatim>\<open>kernel/h1/src/spi_host.rs\<close>: transactions of up to 128 bytes with the flash chip, and the
  two switches of its H1 extension with their system calls (\<^verbatim>\<open>kernel/h1_syscalls/src/spi_host.rs\<close>). The client that
  is told of a finished transaction is a parameter.
\<close>

section \<open>Registers\<close>

record HOST_CTRL =
  H_CPOL :: bool
  H_CPHA :: bool
  CSBSU :: "4 word"
  CSBHLD :: "4 word"
  IDIV :: "12 word"
  CSBPOL :: bool
  H_TXBITOR :: bool
  TXBYTOR :: bool
  H_RXBITOR :: bool
  RXBYTOR :: bool
  ENPASSTHRU :: bool

record XACT =
  START :: bool
  BCNT :: "3 word"
  SIZE :: "7 word"
  RDY_POLL :: bool
  RDY_POLL_DLY :: "5 word"

text \<open>
  \<open>istate_TXDONE\<close> is set by the hardware; a write to the clear register asks for its reset (\<open>istate_clr_written\<close>).
\<close>

record HostRegisters =
  host_ctrl :: HOST_CTRL
  xact :: XACT
  ictrl_TXDONE :: bool
  istate_TXDONE :: bool
  istate_clr_written :: bool
  tx_fifo :: "byte list"
  rx_fifo :: "byte list"

definition host_sizes :: "HostRegisters \<Rightarrow> bool" where
  "host_sizes r \<longleftrightarrow> length (tx_fifo r) = 128 \<and> length (rx_fifo r) = 128"

record SpiHostHardware =
  host_registers :: HostRegisters
  transaction_len :: nat
  host_tx_buffer :: "byte list option"
  host_rx_buffer :: "byte list option"
  host_client :: bool

definition SpiHostHardware_new :: "HostRegisters \<Rightarrow> SpiHostHardware" where
  "SpiHostHardware_new r = \<lparr>host_registers = r, transaction_len = 0, host_tx_buffer = None, host_rx_buffer = None, host_client = False\<rparr>"

definition on_host :: "(HostRegisters \<Rightarrow> HostRegisters) \<Rightarrow> SpiHostHardware \<Rightarrow> SpiHostHardware" where
  "on_host f h = h\<lparr>host_registers := f (host_registers h)\<rparr>"

section \<open>Operations\<close>

definition SpiHostHardware_init :: "SpiHostHardware \<Rightarrow> SpiHostHardware" where
  "SpiHostHardware_init = on_host (\<lambda>r. r\<lparr>
     host_ctrl := \<lparr>H_CPOL = False, H_CPHA = False, CSBSU = 0, CSBHLD = 0, IDIV = 2, CSBPOL = False, H_TXBITOR = True, TXBYTOR = False,
       H_RXBITOR = True, RXBYTOR = False, ENPASSTHRU = False\<rparr>,
     xact := \<lparr>START = False, BCNT = 7, SIZE = 0, RDY_POLL = False, RDY_POLL_DLY = 0\<rparr>\<rparr>)"

definition enable_tx_interrupt :: "SpiHostHardware \<Rightarrow> SpiHostHardware" where
  "enable_tx_interrupt = on_host (\<lambda>r. r\<lparr>ictrl_TXDONE := True\<rparr>)"

definition disable_tx_interrupt :: "SpiHostHardware \<Rightarrow> SpiHostHardware" where
  "disable_tx_interrupt = on_host (\<lambda>r. r\<lparr>ictrl_TXDONE := False\<rparr>)"

text \<open>The loops over the FIFOs.\<close>

fun fifo_put :: "nat \<Rightarrow> byte list \<Rightarrow> byte list \<Rightarrow> byte list" where
  "fifo_put i [] fifo = fifo"
| "fifo_put i (b # bs) fifo = fifo_put (Suc i) bs (fifo[i := b])"

definition read_data :: "byte list \<Rightarrow> SpiHostHardware \<Rightarrow> byte list" where
  "read_data read_buffer h =
     (let read_len = min (length read_buffer) (transaction_len h) in
      fifo_put 0 (map ((!) (rx_fifo (host_registers h))) [0..<read_len]) read_buffer)"

definition start_transaction :: "byte list option \<Rightarrow> byte list option \<Rightarrow> nat \<Rightarrow> SpiHostHardware \<Rightarrow> ReturnCode \<times> SpiHostHardware" where
  "start_transaction write_buffer read_buffer len h =
     (if len = 0 \<or> length (tx_fifo (host_registers h)) < len \<or> length (rx_fifo (host_registers h)) < len then (ESIZE, h)
      else
        let h = on_host (\<lambda>r. r\<lparr>xact := (xact r)\<lparr>BCNT := 7\<rparr>\<rparr>) h;
            h = on_host (\<lambda>r. r\<lparr>xact := (xact r)\<lparr>SIZE := word_of_nat (len - 1)\<rparr>\<rparr>) h;
            tx_buf_len = (case write_buffer of None \<Rightarrow> 0 | Some tx_buf \<Rightarrow> min (length tx_buf) len);
            h = on_host (\<lambda>r. r\<lparr>tx_fifo := fifo_put 0 (case write_buffer of None \<Rightarrow> [] | Some tx_buf \<Rightarrow> take tx_buf_len tx_buf) (tx_fifo r)\<rparr>) h;
            h = on_host (\<lambda>r. r\<lparr>tx_fifo := fifo_put tx_buf_len (replicate (len - tx_buf_len) 0xff) (tx_fifo r)\<rparr>) h;
            h = (case write_buffer of None \<Rightarrow> h | Some buf \<Rightarrow> h\<lparr>host_tx_buffer := Some buf\<rparr>);
            h = (case read_buffer of None \<Rightarrow> h | Some buf \<Rightarrow> h\<lparr>host_rx_buffer := Some buf\<rparr>);
            h = h\<lparr>transaction_len := len\<rparr>;
            h = on_host (\<lambda>r. r\<lparr>istate_clr_written := True\<rparr>) h;
            h = enable_tx_interrupt h in
        (SUCCESS, on_host (\<lambda>r. r\<lparr>xact := (xact r)\<lparr>START := True\<rparr>\<rparr>) h))"

text \<open>
  The interrupt handler, over a state that contains the hardware: \<open>hw\<close> reads it, \<open>on_hw\<close> changes it, and
  \<open>read_write_done\<close> is what the client does.
\<close>

definition host_handle_interrupt :: "('s \<Rightarrow> SpiHostHardware) \<Rightarrow> ((SpiHostHardware \<Rightarrow> SpiHostHardware) \<Rightarrow> 's \<Rightarrow> 's)
    \<Rightarrow> (byte list \<Rightarrow> byte list option \<Rightarrow> nat \<Rightarrow> 's \<Rightarrow> 's) \<Rightarrow> 's \<Rightarrow> 's" where
  "host_handle_interrupt hw on_hw read_write_done s =
     on_hw disable_tx_interrupt
       (if istate_TXDONE (host_registers (hw s))
        then let s = on_hw (on_host (\<lambda>r. r\<lparr>istate_clr_written := True\<rparr>)) s in
             if host_client (hw s)
             then (case host_tx_buffer (hw s) of
                     None \<Rightarrow> s
                   | Some tx_buf \<Rightarrow>
                       let rx_buf = map_option (\<lambda>b. read_data b (hw s)) (host_rx_buffer (hw s)); len = transaction_len (hw s) in
                       read_write_done tx_buf rx_buf len (on_hw (\<lambda>h. h\<lparr>host_tx_buffer := None, host_rx_buffer := None\<rparr>) s))
             else s
        else s)"

definition spi_device_spi_host_passthrough :: "bool \<Rightarrow> SpiHostHardware \<Rightarrow> SpiHostHardware" where
  "spi_device_spi_host_passthrough enabled = on_host (\<lambda>r. r\<lparr>host_ctrl := (host_ctrl r)\<lparr>ENPASSTHRU := enabled\<rparr>\<rparr>)"

definition wait_busy_clear_in_transactions :: "bool \<Rightarrow> SpiHostHardware \<Rightarrow> SpiHostHardware" where
  "wait_busy_clear_in_transactions enabled = on_host (\<lambda>r. r\<lparr>xact := (xact r)\<lparr>RDY_POLL := enabled\<rparr>\<rparr>)"

definition SpiHostHardware_set_client :: "SpiHostHardware \<Rightarrow> SpiHostHardware" where
  "SpiHostHardware_set_client h = h\<lparr>host_client := True\<rparr>"

definition host_is_busy :: "SpiHostHardware \<Rightarrow> bool" where
  "host_is_busy h = istate_TXDONE (host_registers h)"

definition host_read_write_bytes :: "byte list \<Rightarrow> byte list option \<Rightarrow> nat \<Rightarrow> SpiHostHardware \<Rightarrow> ReturnCode \<times> SpiHostHardware" where
  "host_read_write_bytes write_buffer read_buffer len h =
     (if host_is_busy h then (EBUSY, h) else start_transaction (Some write_buffer) read_buffer len h)"

section \<open>System calls\<close>

text \<open>The applications have no data of their own here.\<close>

record SpiHostSyscall =
  hs_device :: SpiHostHardware
  hs_apps :: "unit grant"
  hs_current_user :: "nat option"

definition SpiHostSyscall_new :: "SpiHostHardware \<Rightarrow> SpiHostSyscall" where
  "SpiHostSyscall_new h = \<lparr>hs_device = h, hs_apps = [], hs_current_user = None\<rparr>"

definition hs_enter :: "(nat \<Rightarrow> bool) \<Rightarrow> nat \<Rightarrow> (SpiHostHardware \<Rightarrow> SpiHostHardware) \<Rightarrow> SpiHostSyscall \<Rightarrow> ReturnCode \<times> SpiHostSyscall" where
  "hs_enter alloc app f s =
     (case grant_enter alloc () app (\<lambda>d. ((), d)) (hs_apps s) of
        (None, g) \<Rightarrow> (ENOMEM, s\<lparr>hs_apps := g\<rparr>)
      | (Some _, g) \<Rightarrow> (SUCCESS, s\<lparr>hs_device := f (hs_device s), hs_apps := g\<rparr>))"

definition hs_passthrough :: "(nat \<Rightarrow> bool) \<Rightarrow> nat \<Rightarrow> bool \<Rightarrow> SpiHostSyscall \<Rightarrow> ReturnCode \<times> SpiHostSyscall" where
  "hs_passthrough alloc caller_id enable = hs_enter alloc caller_id (spi_device_spi_host_passthrough enable)"

definition hs_wait_busy_clear :: "(nat \<Rightarrow> bool) \<Rightarrow> nat \<Rightarrow> bool \<Rightarrow> SpiHostSyscall \<Rightarrow> ReturnCode \<times> SpiHostSyscall" where
  "hs_wait_busy_clear alloc caller_id enable = hs_enter alloc caller_id (wait_busy_clear_in_transactions enable)"

definition hs_subscribe :: "nat \<Rightarrow> SpiHostSyscall \<Rightarrow> ReturnCode \<times> SpiHostSyscall" where
  "hs_subscribe subscribe_num s = (ENOSUPPORT, s)"

definition hs_command :: "(nat \<Rightarrow> bool) \<Rightarrow> nat \<Rightarrow> nat \<Rightarrow> nat \<Rightarrow> SpiHostSyscall \<Rightarrow> ReturnCode \<times> SpiHostSyscall" where
  "hs_command alloc command_num arg1 caller_id s =
     (let s = (if hs_current_user s = None then s\<lparr>hs_current_user := Some caller_id\<rparr> else s) in
      if command_num = 0 then (SUCCESS, s)
      else if command_num = 1 then hs_passthrough alloc caller_id (arg1 \<noteq> 0) s
      else if command_num = 2 then hs_wait_busy_clear alloc caller_id (arg1 \<noteq> 0) s
      else (ENOSUPPORT, s))"

definition hs_allow :: "nat \<Rightarrow> SpiHostSyscall \<Rightarrow> ReturnCode \<times> SpiHostSyscall" where
  "hs_allow minor_num s = (ENOSUPPORT, s)"

section \<open>Transactions\<close>

lemma fifo_put_eq: "i + length bs \<le> length f \<Longrightarrow> fifo_put i bs f = take i f @ bs @ drop (i + length bs) f"
proof (induction i bs f rule: fifo_put.induct)
  case (2 i b bs f)
  then have "take (Suc i) (f[i := b]) = take i f @ [b]"
    by (simp add: take_Suc_conv_app_nth)
  with 2 show ?case by simp
qed simp

text \<open>What a transaction sends: the buffer, cut or filled up with ones to the length of the transaction.\<close>

definition sent_bytes :: "byte list \<Rightarrow> nat \<Rightarrow> byte list" where
  "sent_bytes buf len = take len (buf @ replicate len 0xff)"

lemma read_data_eq:
  assumes "transaction_len h \<le> length (rx_fifo (host_registers h))"
  shows "read_data buf h = take (length buf) (take (transaction_len h) (rx_fifo (host_registers h))) @ drop (transaction_len h) buf"
proof -
  let ?n = "min (length buf) (transaction_len h)"
  have "map ((!) (rx_fifo (host_registers h))) [0..<?n] = take ?n (rx_fifo (host_registers h))"
    using assms by (intro nth_equalityI) auto
  then show ?thesis
    using assms fifo_put_eq [of 0 "take ?n (rx_fifo (host_registers h))" buf]
    by (simp add: read_data_def Let_def min_def)
qed

text \<open>A transaction of 1 to 128 bytes is started with exactly the bytes of the buffer, cut to its length or filled up with
  ones, so nothing left in the FIFO goes out; any other length is refused and changes nothing.
\<close>

theorem start_transaction_sends:
  assumes "host_sizes (host_registers h)"
  shows "if 0 < len \<and> len \<le> 128
    then \<exists>h'. start_transaction (Some buf) rx len h = (SUCCESS, h') \<and> take len (tx_fifo (host_registers h')) = sent_bytes buf len \<and>
      drop len (tx_fifo (host_registers h')) = drop len (tx_fifo (host_registers h)) \<and> unat (SIZE (xact (host_registers h'))) = len - 1 \<and>
      START (xact (host_registers h')) \<and> ictrl_TXDONE (host_registers h') \<and> host_tx_buffer h' = Some buf \<and>
      transaction_len h' = len \<and> host_sizes (host_registers h')
    else start_transaction (Some buf) rx len h = (ESIZE, h)"
proof (cases "0 < len \<and> len \<le> 128")
  case True
  let ?f = "tx_fifo (host_registers h)" and ?n = "min (length buf) len"
  have len: "length ?f = 128" "length (rx_fifo (host_registers h)) = 128"
    using assms by (simp_all add: host_sizes_def)
  have fifo: "fifo_put ?n (replicate (len - ?n) 0xff) (fifo_put 0 (take ?n buf) ?f) = sent_bytes buf len @ drop len ?f"
    using True len by (simp add: fifo_put_eq sent_bytes_def min_def)
  have sent: "length (sent_bytes buf len) = len"
    by (simp add: sent_bytes_def)
  have "len - 1 < 2 ^ 7"
    using True by (simp, arith)
  then have size: "unat (word_of_nat (len - 1) :: 7 word) = len - 1"
    by (simp only: unat_of_nat) simp
  show ?thesis
    using True len fifo sent size
    by (simp add: start_transaction_def Let_def on_host_def enable_tx_interrupt_def host_sizes_def split: option.split)
next
  case False
  then show ?thesis
    using assms by (auto simp: start_transaction_def host_sizes_def)
qed

definition host_zero :: SpiHostHardware where
  "host_zero = SpiHostHardware_init (SpiHostHardware_new \<lparr>host_ctrl = \<lparr>H_CPOL = False, H_CPHA = False, CSBSU = 0, CSBHLD = 0, IDIV = 0,
       CSBPOL = False, H_TXBITOR = False, TXBYTOR = False, H_RXBITOR = False, RXBYTOR = False, ENPASSTHRU = False\<rparr>,
     xact = \<lparr>START = False, BCNT = 0, SIZE = 0, RDY_POLL = False, RDY_POLL_DLY = 0\<rparr>, ictrl_TXDONE = False, istate_TXDONE = False,
     istate_clr_written = False, tx_fifo = replicate 128 0x55, rx_fifo = replicate 128 0\<rparr>)"

lemma host_zero_sizes: "host_sizes (host_registers host_zero)"
  by (simp add: host_zero_def SpiHostHardware_init_def SpiHostHardware_new_def on_host_def host_sizes_def)

theorem start_transaction_sends_witness:
  "host_sizes (host_registers host_zero) \<and>
   (\<exists>h'. start_transaction (Some [1, 2]) None 4 host_zero = (SUCCESS, h') \<and> take 4 (tx_fifo (host_registers h')) = [1, 2, 0xff, 0xff])"
  using start_transaction_sends [OF host_zero_sizes, of 4 "[1, 2]" None] host_zero_sizes
  by (auto simp: sent_bytes_def numeral_eq_Suc)

text \<open>A client that starts the next transaction when it is told of the last one never hears of it: the handler disables the
  interrupt after the client has returned, while the new transaction runs.
\<close>

theorem restart_in_callback_unreported:
  assumes "host_sizes (host_registers h)" and "istate_TXDONE (host_registers h)" and "host_client h" and "host_tx_buffer h = Some tx"
    and "0 < len" and "len \<le> 128"
    and "h' = host_handle_interrupt (\<lambda>h. h) (\<lambda>f h. f h)
      (\<lambda>tx rx _ h. snd (host_read_write_bytes tx rx len (on_host (\<lambda>r. r\<lparr>istate_TXDONE := False\<rparr>) h))) h"
  shows "START (xact (host_registers h')) \<and> host_tx_buffer h' = Some tx \<and> \<not> ictrl_TXDONE (host_registers h')"
  using assms
  by (simp add: host_handle_interrupt_def host_read_write_bytes_def host_is_busy_def start_transaction_def disable_tx_interrupt_def
      enable_tx_interrupt_def on_host_def Let_def host_sizes_def split: option.split)

theorem restart_in_callback_unreported_witness:
  "\<not> ictrl_TXDONE (host_registers (host_handle_interrupt (\<lambda>h. h) (\<lambda>f h. f h)
      (\<lambda>tx rx _ h. snd (host_read_write_bytes tx rx 2 (on_host (\<lambda>r. r\<lparr>istate_TXDONE := False\<rparr>) h)))
      (SpiHostHardware_set_client (host_zero\<lparr>host_registers := (host_registers host_zero)\<lparr>istate_TXDONE := True\<rparr>, host_tx_buffer := Some [1, 2]\<rparr>))))"
  using restart_in_callback_unreported [of "SpiHostHardware_set_client
      (host_zero\<lparr>host_registers := (host_registers host_zero)\<lparr>istate_TXDONE := True\<rparr>, host_tx_buffer := Some [1, 2]\<rparr>)" "[1, 2]" 2, OF _ _ _ _ _ _ refl]
    host_zero_sizes by (simp add: SpiHostHardware_set_client_def host_sizes_def)

text \<open>The busy test is true once a transaction is over, and false while it runs.\<close>

lemma running_transaction_replaced:
  assumes "host_sizes (host_registers h)" and "START (xact (host_registers h))" and "\<not> istate_TXDONE (host_registers h)"
    and "0 < len" and "len \<le> 128"
  shows "\<exists>h'. host_read_write_bytes tx rx len h = (SUCCESS, h') \<and> host_tx_buffer h' = Some tx"
  using assms
  by (simp add: host_read_write_bytes_def host_is_busy_def start_transaction_def enable_tx_interrupt_def on_host_def Let_def host_sizes_def
      split: option.split)

end
