(* ===== verification/Bmc_Control.thy ===== *)
theory Bmc_Control
  imports Spi_Processor
begin

text \<open>
  Control of the baseboard management controller by the application \<^verbatim>\<open>userspace/otpilot\<close>: the GPIO, alarm and console
  modules over the system calls (\<^verbatim>\<open>gpio.rs\<close>, \<^verbatim>\<open>gpio_control.rs\<close>, \<^verbatim>\<open>alarm.rs\<close>,
  \<^verbatim>\<open>console_reader.rs\<close>), and on top of their traits the SPI host helper, the GPIO and the console processor
  (\<^verbatim>\<open>spi_host_helper.rs\<close>, \<^verbatim>\<open>gpio_processor.rs\<close>, \<^verbatim>\<open>console_processor.rs\<close>). Messages on the
  console are left out.
\<close>

section \<open>Event counters\<close>

text \<open>\<^verbatim>\<open>core::usize::MAX\<close> is \<open>usize_max\<close>.\<close>

definition Events_add :: "nat \<Rightarrow> nat" where
  "Events_add c = (if c < usize_max - 1 then c + 1 else c)"

definition Events_consume :: "nat \<Rightarrow> nat \<times> nat" where
  "Events_consume c = (c, if 0 < c then c - 1 else c)"

definition Events_clear :: "nat \<Rightarrow> nat \<times> nat" where
  "Events_clear c = (c, 0)"

definition Events_has_any :: "nat \<Rightarrow> bool" where
  "Events_has_any c \<longleftrightarrow> 0 < c"

section \<open>GPIO\<close>

definition MAX_GPIOS :: nat where
  "MAX_GPIOS = 4"

datatype GpioValue = Low | High

datatype FloatingState = PullNone | PullUp | PullDown

datatype InterruptEdge = EitherEdge | RisingEdge | FallingEdge

fun usize_from_FloatingState :: "FloatingState \<Rightarrow> nat" where
  "usize_from_FloatingState PullNone = 0"
| "usize_from_FloatingState PullUp = 1"
| "usize_from_FloatingState PullDown = 2"

fun usize_from_InterruptEdge :: "InterruptEdge \<Rightarrow> nat" where
  "usize_from_InterruptEdge EitherEdge = 0"
| "usize_from_InterruptEdge RisingEdge = 1"
| "usize_from_InterruptEdge FallingEdge = 2"

record GpioImpl =
  num_gpios :: nat
  gpio_events :: "nat option list"

definition GpioImpl_new :: GpioImpl where
  "GpioImpl_new = \<lparr>num_gpios = 0, gpio_events = replicate MAX_GPIOS None\<rparr>"

definition GPIO_DRIVER_NUMBER :: nat where "GPIO_DRIVER_NUMBER = 0x00004"
definition ALARM_DRIVER_NUMBER :: nat where "ALARM_DRIVER_NUMBER = 0x00000"
definition CONSOLE_DRIVER_NUMBER :: nat where "CONSOLE_DRIVER_NUMBER = 1"

record AlarmImpl =
  clock_frequency :: nat
  alarm_id :: "nat option"
  alarm_expired :: bool

definition AlarmImpl_new :: AlarmImpl where
  "AlarmImpl_new = \<lparr>clock_frequency = usize_max, alarm_id = None, alarm_expired = False\<rparr>"

text \<open>While the buffer of the console reader is shared its content is with the kernel.\<close>

definition CONSOLE_MAX_READ_BUFFER_SIZE :: nat where
  "CONSOLE_MAX_READ_BUFFER_SIZE = 512"

record ConsoleReaderImpl =
  console_read_buffer :: "byte list"
  console_shared :: bool
  console_received_len :: nat

definition ConsoleReaderImpl_new :: ConsoleReaderImpl where
  "ConsoleReaderImpl_new = \<lparr>console_read_buffer = replicate CONSOLE_MAX_READ_BUFFER_SIZE 0, console_shared = False, console_received_len = 0\<rparr>"

text \<open>The static objects of these modules beside those of the device modules.\<close>

record 'k Pilot =
  pl_user :: "'k Userland"
  pl_gpio :: GpioImpl
  pl_alarm :: AlarmImpl
  pl_console :: ConsoleReaderImpl

definition on_user :: "('k Userland \<Rightarrow> 'a \<times> 'k Userland) \<Rightarrow> 'k Pilot \<Rightarrow> 'a \<times> 'k Pilot" where
  "on_user m p = (case m (pl_user p) of (r, u) \<Rightarrow> (r, p\<lparr>pl_user := u\<rparr>))"

definition pcommand :: "'k Syscalls \<Rightarrow> nat \<Rightarrow> nat \<Rightarrow> nat \<Rightarrow> nat \<Rightarrow> ('k Pilot, TockError, nat) eff" where
  "pcommand S driver nr a b = on_user (command S driver nr a b)"

definition psubscribe :: "'k Syscalls \<Rightarrow> nat \<Rightarrow> nat \<Rightarrow> ('k Pilot, TockError, unit) eff" where
  "psubscribe S driver nr = on_user (subscribe S driver nr)"

definition modify_pl :: "('k Pilot \<Rightarrow> 'k Pilot) \<Rightarrow> ('k Pilot, 'e, unit) eff" where
  "modify_pl f p = (Ok (), f p)"

definition GpioImpl_initialize :: "'k Syscalls \<Rightarrow> ('k Pilot, TockError, unit) eff" where
  "GpioImpl_initialize S =
     eff_bind (pcommand S GPIO_DRIVER_NUMBER 0 0 0) (\<lambda>n.
     eff_bind (modify_pl (\<lambda>p. p\<lparr>pl_gpio := \<lparr>num_gpios = n, gpio_events =
        map (\<lambda>i. if i < min n (length (gpio_events (pl_gpio p))) then Some 0 else gpio_events (pl_gpio p) ! i)
            [0..<length (gpio_events (pl_gpio p))]\<rparr>\<rparr>)) (\<lambda>_.
     psubscribe S GPIO_DRIVER_NUMBER 0))"

definition add_event :: "nat \<Rightarrow> GpioImpl \<Rightarrow> GpioImpl" where
  "add_event gpio_num g =
     (if length (gpio_events g) \<le> gpio_num then g
      else g\<lparr>gpio_events := (gpio_events g)[gpio_num := map_option Events_add (gpio_events g ! gpio_num)]\<rparr>)"

definition GpioImpl_enable_output :: "'k Syscalls \<Rightarrow> nat \<Rightarrow> ('k Pilot, TockError, unit) eff" where
  "GpioImpl_enable_output S gpio_num = ignore_result (pcommand S GPIO_DRIVER_NUMBER 1 gpio_num 0)"

definition GpioImpl_enable_input :: "'k Syscalls \<Rightarrow> nat \<Rightarrow> FloatingState \<Rightarrow> ('k Pilot, TockError, unit) eff" where
  "GpioImpl_enable_input S gpio_num fs = ignore_result (pcommand S GPIO_DRIVER_NUMBER 5 gpio_num (usize_from_FloatingState fs))"

definition GpioImpl_disable :: "'k Syscalls \<Rightarrow> nat \<Rightarrow> ('k Pilot, TockError, unit) eff" where
  "GpioImpl_disable S gpio_num = ignore_result (pcommand S GPIO_DRIVER_NUMBER 9 gpio_num 0)"

definition GpioImpl_write :: "'k Syscalls \<Rightarrow> nat \<Rightarrow> GpioValue \<Rightarrow> ('k Pilot, TockError, unit) eff" where
  "GpioImpl_write S gpio_num v = ignore_result (pcommand S GPIO_DRIVER_NUMBER (case v of High \<Rightarrow> 2 | Low \<Rightarrow> 3) gpio_num 0)"

definition GpioImpl_toggle :: "'k Syscalls \<Rightarrow> nat \<Rightarrow> ('k Pilot, TockError, unit) eff" where
  "GpioImpl_toggle S gpio_num = ignore_result (pcommand S GPIO_DRIVER_NUMBER 4 gpio_num 0)"

definition GpioImpl_read :: "'k Syscalls \<Rightarrow> nat \<Rightarrow> ('k Pilot, TockError, GpioValue) eff" where
  "GpioImpl_read S gpio_num =
     eff_bind (pcommand S GPIO_DRIVER_NUMBER 6 gpio_num 0) (\<lambda>v. if v = 0 then ret Low else if v = 1 then ret High else throw FormatError)"

definition GpioImpl_enable_events :: "'k Syscalls \<Rightarrow> nat \<Rightarrow> InterruptEdge \<Rightarrow> ('k Pilot, TockError, unit) eff" where
  "GpioImpl_enable_events S gpio_num edge = ignore_result (pcommand S GPIO_DRIVER_NUMBER 7 gpio_num (usize_from_InterruptEdge edge))"

definition GpioImpl_disable_events :: "'k Syscalls \<Rightarrow> nat \<Rightarrow> InterruptEdge \<Rightarrow> ('k Pilot, TockError, unit) eff" where
  "GpioImpl_disable_events S gpio_num edge = ignore_result (pcommand S GPIO_DRIVER_NUMBER 8 gpio_num (usize_from_InterruptEdge edge))"

definition GpioImpl_has_event :: "nat \<Rightarrow> GpioImpl \<Rightarrow> bool" where
  "GpioImpl_has_event gpio_num g \<longleftrightarrow>
     \<not> length (gpio_events g) \<le> gpio_num \<and> (case gpio_events g ! gpio_num of Some c \<Rightarrow> Events_has_any c | None \<Rightarrow> False)"

definition GpioImpl_take_event :: "(nat \<Rightarrow> nat \<times> nat) \<Rightarrow> nat \<Rightarrow> GpioImpl \<Rightarrow> bool \<times> GpioImpl" where
  "GpioImpl_take_event f gpio_num g =
     (if length (gpio_events g) \<le> gpio_num then (False, g)
      else case gpio_events g ! gpio_num of
             Some c \<Rightarrow> (0 < fst (f c), g\<lparr>gpio_events := (gpio_events g)[gpio_num := Some (snd (f c))]\<rparr>)
           | None \<Rightarrow> (False, g))"

definition GpioImpl_consume_event :: "nat \<Rightarrow> GpioImpl \<Rightarrow> bool \<times> GpioImpl" where
  "GpioImpl_consume_event = GpioImpl_take_event Events_consume"

definition GpioImpl_clear_event :: "nat \<Rightarrow> GpioImpl \<Rightarrow> bool \<times> GpioImpl" where
  "GpioImpl_clear_event = GpioImpl_take_event Events_clear"

section \<open>The pins of the board\<close>

datatype GpioPin = BMC_SRST_N | BMC_CPU_RST_N | SYS_RSTMON_N | BMC_RSTMON_N

fun usize_from_GpioPin :: "GpioPin \<Rightarrow> nat" where
  "usize_from_GpioPin BMC_SRST_N = 0"
| "usize_from_GpioPin BMC_CPU_RST_N = 1"
| "usize_from_GpioPin SYS_RSTMON_N = 2"
| "usize_from_GpioPin BMC_RSTMON_N = 3"

definition GpioPin_try_from :: "nat \<Rightarrow> GpioPin option" where
  "GpioPin_try_from item = (if item = 0 then Some BMC_SRST_N else if item = 1 then Some BMC_CPU_RST_N
     else if item = 2 then Some SYS_RSTMON_N else if item = 3 then Some BMC_RSTMON_N else None)"

record 's GpioControl =
  gc_have_events :: "'s \<Rightarrow> bool"
  gc_consume_event :: "GpioPin \<Rightarrow> 's \<Rightarrow> bool \<times> 's"
  gc_clear_event :: "GpioPin \<Rightarrow> 's \<Rightarrow> bool \<times> 's"
  gc_set :: "GpioPin \<Rightarrow> GpioValue \<Rightarrow> ('s, TockError, unit) eff"

definition GpioControl_initialize :: "'k Syscalls \<Rightarrow> ('k Pilot, TockError, unit) eff" where
  "GpioControl_initialize S =
     eff_bind (GpioImpl_enable_output S (usize_from_GpioPin BMC_SRST_N)) (\<lambda>_.
     eff_bind (GpioImpl_enable_output S (usize_from_GpioPin BMC_CPU_RST_N)) (\<lambda>_.
     eff_bind (GpioImpl_enable_input S (usize_from_GpioPin SYS_RSTMON_N) PullNone) (\<lambda>_.
     eff_bind (GpioImpl_enable_events S (usize_from_GpioPin SYS_RSTMON_N) RisingEdge) (\<lambda>_.
     eff_bind (GpioImpl_enable_input S (usize_from_GpioPin BMC_RSTMON_N) PullNone) (\<lambda>_.
     GpioImpl_enable_events S (usize_from_GpioPin BMC_RSTMON_N) RisingEdge)))))"

definition on_gpio :: "(GpioImpl \<Rightarrow> 'a \<times> GpioImpl) \<Rightarrow> 'k Pilot \<Rightarrow> 'a \<times> 'k Pilot" where
  "on_gpio f p = (case f (pl_gpio p) of (a, g) \<Rightarrow> (a, p\<lparr>pl_gpio := g\<rparr>))"

definition pilot_gpio :: "'k Syscalls \<Rightarrow> 'k Pilot GpioControl" where
  "pilot_gpio S =
     \<lparr>gc_have_events = (\<lambda>p. GpioImpl_has_event (usize_from_GpioPin SYS_RSTMON_N) (pl_gpio p)
                          \<or> GpioImpl_has_event (usize_from_GpioPin BMC_RSTMON_N) (pl_gpio p)),
      gc_consume_event = (\<lambda>pin. on_gpio (GpioImpl_consume_event (usize_from_GpioPin pin))),
      gc_clear_event = (\<lambda>pin. on_gpio (GpioImpl_clear_event (usize_from_GpioPin pin))),
      gc_set = (\<lambda>pin. GpioImpl_write S (usize_from_GpioPin pin))\<rparr>"

section \<open>Alarm\<close>

record 's AlarmTrait =
  al_get_clock_frequency :: "'s \<Rightarrow> nat"
  al_set :: "nat \<Rightarrow> ('s, TockError, unit) eff"
  al_is_expired :: "'s \<Rightarrow> bool"
  al_clear :: "('s, TockError, unit) eff"

definition on_alarm :: "(AlarmImpl \<Rightarrow> AlarmImpl) \<Rightarrow> 'k Pilot \<Rightarrow> 'k Pilot" where
  "on_alarm f p = p\<lparr>pl_alarm := f (pl_alarm p)\<rparr>"

definition AlarmImpl_initialize :: "'k Syscalls \<Rightarrow> ('k Pilot, TockError, unit) eff" where
  "AlarmImpl_initialize S =
     eff_bind (pcommand S ALARM_DRIVER_NUMBER 0 0 0) (\<lambda>_.
     eff_bind (pcommand S ALARM_DRIVER_NUMBER 1 0 0) (\<lambda>f.
     eff_bind (modify_pl (on_alarm (\<lambda>a. a\<lparr>clock_frequency := f\<rparr>))) (\<lambda>_.
     psubscribe S ALARM_DRIVER_NUMBER 0)))"

definition AlarmImpl_alarm_expired :: "nat \<Rightarrow> AlarmImpl \<Rightarrow> AlarmImpl" where
  "AlarmImpl_alarm_expired expired_id a =
     (case alarm_id a of Some i \<Rightarrow> if i = expired_id then a\<lparr>alarm_expired := True\<rparr> else a | None \<Rightarrow> a)"

definition AlarmImpl_set :: "'k Syscalls \<Rightarrow> nat \<Rightarrow> ('k Pilot, TockError, unit) eff" where
  "AlarmImpl_set S ticks =
     eff_bind (modify_pl (on_alarm (\<lambda>a. a\<lparr>alarm_expired := False\<rparr>))) (\<lambda>_.
     eff_bind (modify_pl (on_alarm (\<lambda>a. a\<lparr>alarm_id := None\<rparr>))) (\<lambda>_.
     eff_bind (pcommand S ALARM_DRIVER_NUMBER 5 ticks 0) (\<lambda>i.
     modify_pl (on_alarm (\<lambda>a. a\<lparr>alarm_id := Some i\<rparr>)))))"

definition AlarmImpl_is_expired :: "AlarmImpl \<Rightarrow> bool" where
  "AlarmImpl_is_expired a \<longleftrightarrow> alarm_id a \<noteq> None \<and> alarm_expired a"

definition AlarmImpl_clear :: "'k Syscalls \<Rightarrow> ('k Pilot, TockError, unit) eff" where
  "AlarmImpl_clear S p =
     (if alarm_expired (pl_alarm p) then (Ok (), on_alarm (\<lambda>a. a\<lparr>alarm_expired := False, alarm_id := None\<rparr>) p)
      else case alarm_id (pl_alarm p) of
             Some i \<Rightarrow> eff_bind (pcommand S ALARM_DRIVER_NUMBER 3 i 0) (\<lambda>_. modify_pl (on_alarm (\<lambda>a. a\<lparr>alarm_id := None\<rparr>))) p
           | None \<Rightarrow> (Ok (), p))"

definition pilot_alarm :: "'k Syscalls \<Rightarrow> 'k Pilot AlarmTrait" where
  "pilot_alarm S = \<lparr>al_get_clock_frequency = (\<lambda>p. clock_frequency (pl_alarm p)), al_set = AlarmImpl_set S,
     al_is_expired = (\<lambda>p. AlarmImpl_is_expired (pl_alarm p)), al_clear = AlarmImpl_clear S\<rparr>"

section \<open>Console input\<close>

definition ConsoleReader_initialize :: "'k Syscalls \<Rightarrow> ('k Pilot, TockError, unit) eff" where
  "ConsoleReader_initialize S = eff_bind (pcommand S CONSOLE_DRIVER_NUMBER 0 0 0) (\<lambda>_. psubscribe S CONSOLE_DRIVER_NUMBER 2)"

definition ConsoleReader_read_done :: "nat \<Rightarrow> ConsoleReaderImpl \<Rightarrow> ConsoleReaderImpl" where
  "ConsoleReader_read_done arg2 c = c\<lparr>console_received_len := arg2\<rparr>"

text \<open>Dropping the old share takes the buffer back from the kernel.\<close>

definition ConsoleReader_drop_share :: "'k Syscalls \<Rightarrow> 'k Pilot \<Rightarrow> 'k Pilot" where
  "ConsoleReader_drop_share S p =
     (if console_shared (pl_console p)
      then case sys_unallow S CONSOLE_DRIVER_NUMBER 2 (kern (pl_user p)) of (buf, k) \<Rightarrow>
        p\<lparr>pl_user := (pl_user p)\<lparr>kern := k\<rparr>, pl_console := (pl_console p)\<lparr>console_read_buffer := buf, console_shared := False\<rparr>\<rparr>
      else p)"

definition ConsoleReader_allow_read :: "'k Syscalls \<Rightarrow> nat \<Rightarrow> ('k Pilot, TockError, unit) eff" where
  "ConsoleReader_allow_read S len =
     eff_bind (modify_pl (ConsoleReader_drop_share S)) (\<lambda>_.
     eff_bind (modify_pl (\<lambda>p. p\<lparr>pl_console := (pl_console p)\<lparr>console_received_len := 0\<rparr>\<rparr>)) (\<lambda>_ p.
       let read_len = min (length (console_read_buffer (pl_console p))) len in
       eff_bind (on_user (allow S CONSOLE_DRIVER_NUMBER 2 (console_read_buffer (pl_console p)))) (\<lambda>_.
       eff_bind (modify_pl (\<lambda>p. p\<lparr>pl_console := (pl_console p)\<lparr>console_shared := True\<rparr>\<rparr>)) (\<lambda>_.
       ignore_result (pcommand S CONSOLE_DRIVER_NUMBER 2 read_len 0))) p))"

definition ConsoleReader_abort_read :: "'k Syscalls \<Rightarrow> ('k Pilot, TockError, unit) eff" where
  "ConsoleReader_abort_read S = ignore_result (pcommand S CONSOLE_DRIVER_NUMBER 3 0 0)"

definition ConsoleReader_have_data :: "ConsoleReaderImpl \<Rightarrow> bool" where
  "ConsoleReader_have_data c \<longleftrightarrow> 0 < console_received_len c"

definition ConsoleReader_get_data :: "'k Syscalls \<Rightarrow> ('k Pilot, TockError, byte list) eff" where
  "ConsoleReader_get_data S p =
     (let buf = (if console_shared (pl_console p) then sys_shared S CONSOLE_DRIVER_NUMBER 2 (kern (pl_user p))
                 else console_read_buffer (pl_console p));
          n = console_received_len (pl_console p) in
      if n \<le> length buf then (Ok (take n buf), p) else (Panic, p))"

text \<open>The callbacks of these modules.\<close>

definition pilot_dispatch :: "upcall \<Rightarrow> 'k Pilot \<Rightarrow> 'k Pilot" where
  "pilot_dispatch c p =
     (if up_driver c = GPIO_DRIVER_NUMBER \<and> up_nr c = 0 then p\<lparr>pl_gpio := add_event (unat (up_arg1 c)) (pl_gpio p)\<rparr>
      else if up_driver c = ALARM_DRIVER_NUMBER \<and> up_nr c = 0 then on_alarm (AlarmImpl_alarm_expired (unat (up_arg2 c))) p
      else if up_driver c = CONSOLE_DRIVER_NUMBER \<and> up_nr c = 2
        then p\<lparr>pl_console := ConsoleReader_read_done (unat (up_arg2 c)) (pl_console p)\<rparr>
      else p\<lparr>pl_user := dispatch c (pl_user p)\<rparr>)"

text \<open>Waiting in the whole application: any callback may come first.\<close>

definition pilot_yieldk :: "'k Syscalls \<Rightarrow> 'k Pilot \<Rightarrow> 'k Pilot option" where
  "pilot_yieldk S p = map_option (\<lambda>(c, k). pilot_dispatch c (p\<lparr>pl_user := (pl_user p)\<lparr>kern := k\<rparr>\<rparr>)) (sys_yield S (kern (pl_user p)))"

partial_function (option) pilot_yield_until :: "'k Syscalls \<Rightarrow> ('k Pilot \<Rightarrow> bool) \<Rightarrow> 'k Pilot \<Rightarrow> 'k Pilot option" where
  "pilot_yield_until S stop p = (if stop p then Some p else Option.bind (pilot_yieldk S p) (pilot_yield_until S stop))"

section \<open>The device modules in the whole application\<close>

definition pilot_flash :: "'k Syscalls \<Rightarrow> 'k Pilot UFlash" where
  "pilot_flash S = \<lparr>u_read = (\<lambda>offset buf len. on_user (UserFlash_read S offset buf len)),
     u_write = (\<lambda>offset buf len. on_user (UserFlash_write S offset buf len)), u_erase = (\<lambda>page. on_user (UserFlash_erase S page)),
     u_wait = pilot_yield_until S (\<lambda>p. operation_done (ul_flash (pl_user p))),
     u_result = (\<lambda>p. operation_result (ul_flash (pl_user p))), u_clear = (\<lambda>p. p\<lparr>pl_user := UserFlash_clear (pl_user p)\<rparr>)\<rparr>"

definition pilot_device :: "'k Syscalls \<Rightarrow> 'k Pilot SpiDevice" where
  "pilot_device S = \<lparr>have_transaction = (\<lambda>p. have_transaction (user_device S) (pl_user p)),
     device_read_buffer = on_user (device_read_buffer (user_device S)),
     is_busy_set = (\<lambda>p. is_busy_set (user_device S) (pl_user p)),
     is_write_enable_set = (\<lambda>p. is_write_enable_set (user_device S) (pl_user p)),
     end_transaction = (\<lambda>p. p\<lparr>pl_user := end_transaction (user_device S) (pl_user p)\<rparr>),
     end_transaction_with_status = (\<lambda>b w. on_user (end_transaction_with_status (user_device S) b w)),
     end_transaction_with_data = (\<lambda>d b w. on_user (end_transaction_with_data (user_device S) d b w)),
     get_address_mode = (\<lambda>p. get_address_mode (user_device S) (pl_user p))\<rparr>"

definition pilot_host :: "'k Syscalls \<Rightarrow> 'k Pilot SpiHost" where
  "pilot_host S = \<lparr>read_write_bytes = (\<lambda>buf len. on_user (SpiHost_read_write_bytes S buf len)),
     wait_read_write_done = pilot_yield_until S (\<lambda>p. read_write_done (ul_host (pl_user p))),
     host_read_buffer = on_user (SpiHost_get_read_buffer S)\<rparr>"

definition pilot_host_h1 :: "'k Syscalls \<Rightarrow> 'k Pilot SpiHostH1" where
  "pilot_host_h1 S = \<lparr>set_passthrough = (\<lambda>b. on_user (SpiHostH1_set_passthrough S b)),
     set_wait_busy_clear_in_transactions = (\<lambda>b. on_user (SpiHostH1_set_wait_busy_clear_in_transactions S b))\<rparr>"

definition pilot_reset :: "'k Syscalls \<Rightarrow> 'k Pilot Reset" where
  "pilot_reset S = \<lparr>reset_chip = on_user (Reset_reset S), get_reset_source = on_user (Reset_get_reset_source S)\<rparr>"

section \<open>The SPI host helper and the GPIO processor\<close>

text \<open>The modules they reach through traits.\<close>

record 's BmcModules =
  bm_gpio :: "'s GpioControl"
  bm_alarm :: "'s AlarmTrait"
  bm_host :: "'s SpiHost"
  bm_host_h1 :: "'s SpiHostH1"
  bm_set_address_mode :: "AddressMode \<Rightarrow> ('s, TockError, unit) eff"
  bm_get_address_mode :: "'s \<Rightarrow> AddressMode"

definition pilot_modules :: "'k Syscalls \<Rightarrow> 'k Pilot BmcModules" where
  "pilot_modules S = \<lparr>bm_gpio = pilot_gpio S, bm_alarm = pilot_alarm S, bm_host = pilot_host S, bm_host_h1 = pilot_host_h1 S,
     bm_set_address_mode = (\<lambda>m. on_user (SpiDevice_set_address_mode S m)),
     bm_get_address_mode = (\<lambda>p. address_mode (ul_device (pl_user p)))\<rparr>"

definition wait_done :: "'s SpiHost \<Rightarrow> ('s, 'e, unit) peff" where
  "wait_done H s = map_option (\<lambda>s. (Ok (), s)) (wait_read_write_done H s)"

definition enter_4b :: "'s SpiHost \<Rightarrow> ('s, TockError, unit) peff" where
  "enter_4b H = peff_bind (returning (read_write_bytes H [0xb7] 1)) (\<lambda>_. wait_done H)"

definition exit_4b :: "'s SpiHost \<Rightarrow> ('s, TockError, unit) peff" where
  "exit_4b H = peff_bind (returning (read_write_bytes H [0xe9] 1)) (\<lambda>_. wait_done H)"

text \<open>The static \<^verbatim>\<open>TXBUFFER\<close> is overwritten as a whole: its new content and the length of the header.\<close>

definition create_tx_buf :: "byte \<Rightarrow> u32 \<Rightarrow> byte list \<times> nat" where
  "create_tx_buf cmd addr = (cmd # be_bytes 4 (unat addr) @ replicate (MAX_READ_BUFFER_LENGTH - 5) 0xff, 5)"

definition helper_read_data :: "'s SpiHost \<Rightarrow> u32 \<Rightarrow> nat \<Rightarrow> ('s, TockError, byte list) peff" where
  "helper_read_data H addr rx_len =
     (case create_tx_buf 0x03 addr of (tx, tx_len) \<Rightarrow>
        peff_bind (returning (read_write_bytes H tx (tx_len + rx_len))) (\<lambda>_.
        peff_bind (wait_done H) (\<lambda>_.
        peff_bind (returning (host_read_buffer H)) (\<lambda>buf.
        returning (if tx_len \<le> length buf then ret (drop tx_len buf) else panic)))))"

definition read_and_print_data :: "'s SpiHost \<Rightarrow> u32 \<Rightarrow> ('s, TockError, unit) peff" where
  "read_and_print_data H addr = peff_bind (helper_read_data H addr 8) (\<lambda>rx_buf. returning (ret ()))"

text \<open>The processor works on its own fields and the state of the modules.\<close>

record GpioProcessor =
  ignore_bmc_rstmon_n_events :: bool
  initial_address_mode :: AddressMode
  alarm_ticks :: nat

definition ALARM_MSECS :: u64 where "ALARM_MSECS = 62"
definition MSECS_IN_SEC :: u64 where "MSECS_IN_SEC = 1000"

definition GpioProcessor_new :: "'s BmcModules \<Rightarrow> 's \<Rightarrow> GpioProcessor" where
  "GpioProcessor_new E s =
     (let ticks = (word_of_nat (al_get_clock_frequency (bm_alarm E) s) * ALARM_MSECS) div MSECS_IN_SEC in
      \<lparr>ignore_bmc_rstmon_n_events = False, initial_address_mode = bm_get_address_mode E s, alarm_ticks = unat (ucast ticks :: u32)\<rparr>)"

type_synonym ('s, 'a) gp = "(GpioProcessor \<times> 's, TockError, 'a) peff"

definition on_modules :: "('s, TockError, 'a) peff \<Rightarrow> ('s, 'a) gp" where
  "on_modules m gs = map_option (\<lambda>(r, s). (r, (fst gs, s))) (m (snd gs))"

definition set_alarm :: "'s BmcModules \<Rightarrow> ('s, unit) gp" where
  "set_alarm E gs = (case gs of (g, s) \<Rightarrow>
     on_modules (returning (al_set (bm_alarm E) (alarm_ticks g))) (g\<lparr>ignore_bmc_rstmon_n_events := True\<rparr>, s))"

definition set_bmc_cpu_rst :: "'s BmcModules \<Rightarrow> bool \<Rightarrow> ('s, unit) gp" where
  "set_bmc_cpu_rst E asserted =
     (if asserted then on_modules (returning (gc_set (bm_gpio E) BMC_CPU_RST_N Low))
      else peff_bind (on_modules (returning (gc_set (bm_gpio E) BMC_CPU_RST_N High))) (\<lambda>_. set_alarm E))"

definition set_bmc_srst :: "'s BmcModules \<Rightarrow> bool \<Rightarrow> ('s, unit) gp" where
  "set_bmc_srst E asserted =
     (if asserted then on_modules (returning (gc_set (bm_gpio E) BMC_SRST_N Low))
      else peff_bind (on_modules (returning (gc_set (bm_gpio E) BMC_SRST_N High))) (\<lambda>_. set_alarm E))"

definition gp_query :: "('s \<Rightarrow> 'a \<times> 's) \<Rightarrow> ('s, 'a) gp" where
  "gp_query f gs = (case f (snd gs) of (a, s) \<Rightarrow> Some (Ok a, (fst gs, s)))"

definition handle_bmc_rstmon :: "'s BmcModules \<Rightarrow> ('s, unit) gp" where
  "handle_bmc_rstmon E =
     peff_bind (set_bmc_cpu_rst E True) (\<lambda>_.
     peff_bind (on_modules (returning (set_passthrough (bm_host_h1 E) False))) (\<lambda>_.
     peff_bind (on_modules (enter_4b (bm_host E))) (\<lambda>_.
     peff_bind (on_modules (read_and_print_data (bm_host E) 0)) (\<lambda>_.
     peff_bind (\<lambda>gs. on_modules (case initial_address_mode (fst gs) of
        ThreeByte \<Rightarrow> exit_4b (bm_host E) | FourByte \<Rightarrow> enter_4b (bm_host E)) gs) (\<lambda>_.
     peff_bind (\<lambda>gs. on_modules (returning (bm_set_address_mode E (initial_address_mode (fst gs)))) gs) (\<lambda>_.
     peff_bind (on_modules (returning (set_passthrough (bm_host_h1 E) True))) (\<lambda>_.
     peff_bind (gp_query (gc_clear_event (bm_gpio E) BMC_RSTMON_N)) (\<lambda>_.
     set_bmc_cpu_rst E False))))))))"

definition process_gpio_events :: "'s BmcModules \<Rightarrow> ('s, unit) gp" where
  "process_gpio_events E =
     peff_bind (gp_query (gc_consume_event (bm_gpio E) BMC_RSTMON_N)) (\<lambda>bmc_rstmon_n.
     peff_bind (\<lambda>gs. if bmc_rstmon_n \<and> \<not> ignore_bmc_rstmon_n_events (fst gs) then handle_bmc_rstmon E gs else Some (Ok (), gs)) (\<lambda>_.
     peff_bind (gp_query (gc_consume_event (bm_gpio E) SYS_RSTMON_N)) (\<lambda>sys_rstmon_n. returning (ret ()))))"

definition gp_alarm_expired :: "'s BmcModules \<Rightarrow> ('s, unit) gp" where
  "gp_alarm_expired E gs = (case gs of (g, s) \<Rightarrow>
     on_modules (returning (al_clear (bm_alarm E))) (g\<lparr>ignore_bmc_rstmon_n_events := False\<rparr>, s))"

section \<open>Console commands\<close>

text \<open>
  \<open>data\<close> is what the console reader received. Command \<^verbatim>\<open>i\<close> reads the build information of the four
  segments; the first error ends it.
\<close>

definition read_build_info :: "'s UFlash \<Rightarrow> SegmentInfo \<Rightarrow> ('s, TockError, BuildInfo) eff" where
  "read_build_info U seg s = (case get_build_info U seg s of (Some b, s) \<Rightarrow> (Ok b, s) | (None, s) \<Rightarrow> (Err FormatError, s))"

definition print_firmware_info :: "'s UFlash \<Rightarrow> RuntimeSegmentInfo \<Rightarrow> ('s, TockError, unit) eff" where
  "print_firmware_info U info =
     eff_bind (read_build_info U (active_ro info)) (\<lambda>_.
     eff_bind (read_build_info U (active_rw info)) (\<lambda>_.
     eff_bind (read_build_info U (inactive_ro info)) (\<lambda>_.
     ignore_result (read_build_info U (inactive_rw info)))))"

definition process_input :: "'s BmcModules \<Rightarrow> 's UFlash \<Rightarrow> RuntimeSegmentInfo \<Rightarrow> 's Reset \<Rightarrow> byte list \<Rightarrow> ('s, unit) gp" where
  "process_input E U info R data =
     (if length data < 1 then returning (ret ())
      else if data ! 0 = of_char CHR ''?'' then returning (ret ())
      else if data ! 0 = of_char CHR ''1'' then set_bmc_cpu_rst E True
      else if data ! 0 = of_char CHR ''!'' then set_bmc_cpu_rst E False
      else if data ! 0 = of_char CHR ''2'' then set_bmc_srst E True
      else if data ! 0 = of_char CHR ''@'' then set_bmc_srst E False
      else if data ! 0 = of_char CHR ''i'' then on_modules (returning (print_firmware_info U info))
      else if data ! 0 = of_char CHR ''R'' then on_modules (returning (reset_chip R))
      else returning (ret ()))"

section \<open>Waiting in the whole application\<close>

text \<open>
  The device modules see the same callbacks in the whole application as alone: the drivers have different numbers, so the
  other modules' callbacks do not reach them.
\<close>

lemmas pilot_driver_numbers = driver_numbers GPIO_DRIVER_NUMBER_def ALARM_DRIVER_NUMBER_def CONSOLE_DRIVER_NUMBER_def

lemma pilot_dispatch_user [simp]: "pl_user (pilot_dispatch c p) = dispatch c (pl_user p)"
  by (simp add: pilot_dispatch_def dispatch_def pilot_driver_numbers on_alarm_def)

lemma pilot_yieldk_user: "map_option pl_user (pilot_yieldk S p) = yieldk S (pl_user p)"
  by (simp add: pilot_yieldk_def yieldk_def option.map_comp comp_def case_prod_unfold)

lemma pilot_yield_until_sound:
  fixes p :: "'k Pilot"
  assumes "pilot_yield_until S (\<lambda>p. A (pl_user p)) p = Some p'"
  shows "yield_until S A (pl_user p) = Some (pl_user p')"
proof -
  let ?P = "\<lambda>S (Q :: 'k Pilot \<Rightarrow> bool) (p :: 'k Pilot) (p' :: 'k Pilot). Q = (\<lambda>p. A (pl_user p)) \<longrightarrow> yield_until S A (pl_user p) = Some (pl_user p')"
  have "?P S (\<lambda>p. A (pl_user p)) p p'"
  proof (rule pilot_yield_until.raw_induct [where P = ?P, OF _ assms], intro impI)
    fix f S Q and p p' :: "'k Pilot"
    assume IH: "\<And>S Q p p'. f S Q p = Some p' \<Longrightarrow> ?P S Q p p'"
      and eq: "(if Q p then Some p else Option.bind (pilot_yieldk S p) (f S Q)) = Some p'" and Q: "Q = (\<lambda>p. A (pl_user p))"
    show "yield_until S A (pl_user p) = Some (pl_user p')"
    proof (cases "A (pl_user p)")
      case True
      with eq Q show ?thesis
        by (simp add: yield_until.simps)
    next
      case False
      with eq Q obtain q where q: "pilot_yieldk S p = Some q" "f S Q q = Some p'"
        by (auto simp: bind_eq_Some_conv)
      have "yieldk S (pl_user p) = Some (pl_user q)"
        using pilot_yieldk_user [of S p] q(1) by simp
      with False IH [OF q(2)] Q show ?thesis
        by (subst yield_until.simps) simp
    qed
  qed
  then show ?thesis
    by simp
qed

lemma pilot_yield_until_complete:
  fixes p :: "'k Pilot"
  assumes "yield_until S A (pl_user p) = Some u'"
  shows "\<exists>p'. pilot_yield_until S (\<lambda>p. A (pl_user p)) p = Some p'"
proof -
  let ?P = "\<lambda>S Q u u'. Q = A \<longrightarrow> (\<forall>p :: 'k Pilot. pl_user p = u \<longrightarrow> (\<exists>p'. pilot_yield_until S (\<lambda>p. A (pl_user p)) p = Some p'))"
  have "?P S A (pl_user p) u'"
  proof (rule yield_until.raw_induct [where P = ?P, OF _ assms], intro impI allI)
    fix f S Q u u' and p :: "'k Pilot"
    assume IH: "\<And>S Q u u'. f S Q u = Some u' \<Longrightarrow> ?P S Q u u'"
      and eq: "(if Q u then Some u else Option.bind (yieldk S u) (f S Q)) = Some u'" and Q: "Q = A" and p: "pl_user p = u"
    show "\<exists>p'. pilot_yield_until S (\<lambda>p. A (pl_user p)) p = Some p'"
    proof (cases "A u")
      case True
      with p show ?thesis
        by (simp add: pilot_yield_until.simps)
    next
      case False
      with eq Q obtain v where v: "yieldk S u = Some v" "f S Q v = Some u'"
        by (auto simp: bind_eq_Some_conv)
      obtain q where "pilot_yieldk S p = Some q" "pl_user q = v"
        using pilot_yieldk_user [of S p] v(1) p by auto
      with IH [OF v(2)] Q False p show ?thesis
        by (subst pilot_yield_until.simps) auto
    qed
  qed
  then show ?thesis
    by simp
qed

lemma pilot_yield_until_user:
  "map_option pl_user (pilot_yield_until S (\<lambda>p. A (pl_user p)) p) = yield_until S A (pl_user p)"
proof (cases "pilot_yield_until S (\<lambda>p. A (pl_user p)) p")
  case None
  then show ?thesis
    using pilot_yield_until_complete [of S A p] by (cases "yield_until S A (pl_user p)") auto
next
  case (Some p')
  then show ?thesis
    by (simp add: pilot_yield_until_sound)
qed

section \<open>GPIO events\<close>

datatype gpio_op = Callback nat | Consume nat | Clear nat

fun gpio_step :: "gpio_op \<Rightarrow> GpioImpl \<Rightarrow> bool option \<times> GpioImpl" where
  "gpio_step (Callback i) g = (None, add_event i g)"
| "gpio_step (Consume i) g = apfst Some (GpioImpl_consume_event i g)"
| "gpio_step (Clear i) g = apfst Some (GpioImpl_clear_event i g)"

fun gpio_run :: "gpio_op list \<Rightarrow> GpioImpl \<Rightarrow> bool option list" where
  "gpio_run [] g = []"
| "gpio_run (x # xs) g = (case gpio_step x g of (r, g) \<Rightarrow> r # gpio_run xs g)"

text \<open>The specification: how many events are pending, without a bound; pins from \<open>n\<close> on have none.\<close>

fun pending_step :: "nat \<Rightarrow> gpio_op \<Rightarrow> (nat \<Rightarrow> nat) \<Rightarrow> bool option \<times> (nat \<Rightarrow> nat)" where
  "pending_step n (Callback i) c = (None, if i < n then c(i := c i + 1) else c)"
| "pending_step n (Consume i) c = (Some (0 < c i), c(i := c i - 1))"
| "pending_step n (Clear i) c = (Some (0 < c i), c(i := 0))"

fun pending_run :: "nat \<Rightarrow> gpio_op list \<Rightarrow> (nat \<Rightarrow> nat) \<Rightarrow> bool option list" where
  "pending_run n [] c = []"
| "pending_run n (x # xs) c = (case pending_step n x c of (r, c) \<Rightarrow> r # pending_run n xs c)"

definition counts :: "nat \<Rightarrow> GpioImpl \<Rightarrow> (nat \<Rightarrow> nat) \<Rightarrow> bool" where
  "counts n g c \<longleftrightarrow> n \<le> length (gpio_events g)
     \<and> (\<forall>i. if i < n then gpio_events g ! i = Some (c i) else (i < length (gpio_events g) \<longrightarrow> gpio_events g ! i = None) \<and> c i = 0)"

lemma counts_Callback:
  assumes "counts n g c" and "\<forall>i. c i < usize_max - 1"
  shows "counts n (add_event i g) (if i < n then c(i := c i + 1) else c)"
proof (cases "i < n")
  case True
  then have "gpio_events g ! i = Some (c i)" "i < length (gpio_events g)"
    using assms(1) by (auto simp: counts_def dest: spec [of _ i])
  with True assms show ?thesis
    by (auto simp: counts_def add_event_def Events_add_def nth_list_update)
next
  case False
  then have "add_event i g = g"
    using assms(1) by (auto simp: counts_def add_event_def list_update_same_conv dest: spec [of _ i])
  with False assms(1) show ?thesis
    by simp
qed

lemma counts_take:
  assumes "counts n g c" and "\<And>k. fst (f k) = k" and "snd (f 0) = 0"
  shows "fst (GpioImpl_take_event f i g) = (0 < c i)" and "counts n (snd (GpioImpl_take_event f i g)) (c(i := snd (f (c i))))"
proof -
  have ev: "if i < n then gpio_events g ! i = Some (c i) else (i < length (gpio_events g) \<longrightarrow> gpio_events g ! i = None) \<and> c i = 0"
    and n: "n \<le> length (gpio_events g)"
    using assms(1) by (auto simp: counts_def)
  show "fst (GpioImpl_take_event f i g) = (0 < c i)"
    using ev n by (auto simp: GpioImpl_take_event_def assms(2) split: if_splits)
  show "counts n (snd (GpioImpl_take_event f i g)) (c(i := snd (f (c i))))"
  proof (cases "i < n")
    case True
    with ev n have "GpioImpl_take_event f i g = (0 < c i, g\<lparr>gpio_events := (gpio_events g)[i := Some (snd (f (c i)))]\<rparr>)"
      by (simp add: GpioImpl_take_event_def assms(2))
    with True assms(1) show ?thesis
      by (auto simp: counts_def nth_list_update)
  next
    case False
    with ev have "snd (GpioImpl_take_event f i g) = g" "c(i := snd (f (c i))) = c"
      by (auto simp: GpioImpl_take_event_def assms(3))
    with assms(1) show ?thesis
      by simp
  qed
qed

lemma counts_step:
  assumes "counts n g c" and "\<forall>i. c i < usize_max - 1"
  shows "fst (gpio_step x g) = fst (pending_step n x c) \<and> counts n (snd (gpio_step x g)) (snd (pending_step n x c))"
proof (cases x)
  case (Callback i)
  then show ?thesis
    using counts_Callback [OF assms, of i] by simp
next
  case (Consume i)
  have "snd (Events_consume k) = k - 1" for k
    by (simp add: Events_consume_def)
  with Consume show ?thesis
    using counts_take [OF assms(1), of Events_consume i] by (simp add: GpioImpl_consume_event_def Events_consume_def)
next
  case (Clear i)
  then show ?thesis
    using counts_take [OF assms(1), of Events_clear i] by (simp add: GpioImpl_clear_event_def Events_clear_def)
qed

lemma pending_step_bound:
  assumes "\<forall>i. c i < m"
  shows "\<forall>i. snd (pending_step n x c) i < Suc m"
proof (cases x)
  case (Callback i)
  then show ?thesis
    using assms by (auto simp: less_SucI)
qed (use assms in \<open>auto simp: less_SucI intro: less_imp_diff_less\<close>)

lemma gpio_run_counts:
  assumes "counts n g c" and "\<forall>i. c i < m" and "m + length ops \<le> usize_max - 1"
  shows "gpio_run ops g = pending_run n ops c"
  using assms
proof (induction ops arbitrary: g c m)
  case (Cons x ops)
  have "\<forall>i. c i < usize_max - 1"
    using Cons.prems(2,3) by (auto intro: order.strict_trans2)
  note step = counts_step [OF Cons.prems(1) this, of x]
  have "gpio_run ops (snd (gpio_step x g)) = pending_run n ops (snd (pending_step n x c))"
    by (rule Cons.IH [OF step [THEN conjunct2] pending_step_bound [OF Cons.prems(2)]]) (use Cons.prems(3) in simp)
  with step show ?case
    by (simp add: case_prod_unfold)
qed simp

section \<open>The alarm\<close>

text \<open>
  What the GPIO processor relies on: \<open>running\<close> is the alarm that was set last, and the callback of an
  alarm makes it expire only when it is that one.
\<close>

locale alarm_contract =
  fixes A :: "'s AlarmTrait" and running :: "'s \<Rightarrow> nat option" and fire :: "nat \<Rightarrow> 's \<Rightarrow> 's"
  assumes set_Ok: "al_set A t s = (Ok (), s') \<Longrightarrow> (\<exists>i. running s' = Some i) \<and> \<not> al_is_expired A s'"
    and set_failed: "\<lbrakk>al_set A t s = (r, s'); r \<noteq> Ok ()\<rbrakk> \<Longrightarrow> running s' = None"
    and fire_running [simp]: "running (fire i s) = running s"
    and fire_expired: "al_is_expired A (fire i s) \<longleftrightarrow> running s = Some i \<or> al_is_expired A s"
    and stopped: "running s = None \<Longrightarrow> \<not> al_is_expired A s"
begin

lemma running_fold [simp]: "running (fold fire xs s) = running s"
  by (induction xs arbitrary: s) simp_all

lemma expired_fold: "al_is_expired A (fold fire xs s) \<longleftrightarrow> al_is_expired A s \<or> (\<exists>i\<in>set xs. running s = Some i)"
  by (induction xs arbitrary: s) (auto simp: fire_expired)

lemma expires_exactly:
  assumes "al_set A t s = (Ok (), s')" and "running s' = Some i"
  shows "al_is_expired A (fold fire xs s') \<longleftrightarrow> i \<in> set xs"
  using set_Ok [OF assms(1)] assms(2) by (auto simp: expired_fold)

lemma lost_alarm:
  assumes "al_set A t s = (r, s')" and "r \<noteq> Ok ()"
  shows "\<not> al_is_expired A (fold fire xs s')"
  using stopped set_failed [OF assms] by simp

end

lemma pcommand_cases:
  obtains (Ok) v k where "pcommand S d n a b p = (Ok v, p\<lparr>pl_user := (pl_user p)\<lparr>kern := k\<rparr>\<rparr>)"
  | (Err) k where "pcommand S d n a b p = (Err SyscallError, p\<lparr>pl_user := (pl_user p)\<lparr>kern := k\<rparr>\<rparr>)"
  by (cases "sys_command S d n a b (kern (pl_user p))"; cases "fst (sys_command S d n a b (kern (pl_user p)))")
    (auto simp: pcommand_def on_user_def command_def)

definition alarm_running :: "'k Pilot \<Rightarrow> nat option" where
  "alarm_running p = alarm_id (pl_alarm p)"

definition alarm_fires :: "nat \<Rightarrow> 'k Pilot \<Rightarrow> 'k Pilot" where
  "alarm_fires i p = on_alarm (AlarmImpl_alarm_expired i) p"

lemma AlarmImpl_set_cases:
  obtains (Ok) i k where "AlarmImpl_set S t p = (Ok (), p\<lparr>pl_user := (pl_user p)\<lparr>kern := k\<rparr>, pl_alarm := (pl_alarm p)\<lparr>alarm_expired := False, alarm_id := Some i\<rparr>\<rparr>)"
  | (Err) k where "AlarmImpl_set S t p = (Err SyscallError, p\<lparr>pl_alarm := (pl_alarm p)\<lparr>alarm_expired := False, alarm_id := None\<rparr>, pl_user := (pl_user p)\<lparr>kern := k\<rparr>\<rparr>)"
proof -
  let ?p = "p\<lparr>pl_alarm := (pl_alarm p)\<lparr>alarm_expired := False, alarm_id := None\<rparr>\<rparr>"
  show ?thesis
  proof (cases rule: pcommand_cases [of S ALARM_DRIVER_NUMBER 5 t 0 ?p])
    case (Ok v k)
    show ?thesis
      by (rule that(1) [of v k]) (use Ok in \<open>simp add: AlarmImpl_set_def modify_pl_def on_alarm_def eff_bind_def\<close>)
  next
    case (Err k)
    show ?thesis
      by (rule that(2) [of k]) (use Err in \<open>simp add: AlarmImpl_set_def modify_pl_def on_alarm_def eff_bind_def\<close>)
  qed
qed

interpretation pa: alarm_contract "pilot_alarm S" alarm_running alarm_fires
proof unfold_locales
  fix t s r s'
  show "(\<exists>i. alarm_running s' = Some i) \<and> \<not> al_is_expired (pilot_alarm S) s'" if "al_set (pilot_alarm S) t s = (Ok (), s')"
    using that by (cases rule: AlarmImpl_set_cases [of S t s]) (auto simp: pilot_alarm_def alarm_running_def AlarmImpl_is_expired_def)
  show "alarm_running s' = None" if "al_set (pilot_alarm S) t s = (r, s')" "r \<noteq> Ok ()"
    using that by (cases rule: AlarmImpl_set_cases [of S t s]) (auto simp: pilot_alarm_def alarm_running_def)
qed (auto simp: pilot_alarm_def alarm_running_def alarm_fires_def on_alarm_def AlarmImpl_alarm_expired_def AlarmImpl_is_expired_def split: option.splits)

lemma alarm_ticks_exact:
  assumes "al_get_clock_frequency (bm_alarm E) s \<le> usize_max"
  shows "alarm_ticks (GpioProcessor_new E s) = al_get_clock_frequency (bm_alarm E) s * 62 div 1000"
proof -
  let ?f = "al_get_clock_frequency (bm_alarm E) s"
  have "unat (word_of_nat ?f * 62 :: u64) = ?f * 62"
    using assms by (simp add: unat_mult_lem [THEN iffD1] unat_of_nat)
  then have "unat ((word_of_nat ?f * 62 :: u64) div 1000) = ?f * 62 div 1000"
    by (simp add: unat_div)
  then show ?thesis
    using assms by (simp add: GpioProcessor_new_def ALARM_MSECS_def MSECS_IN_SEC_def unsigned_ucast_eq take_bit_nat_def)
qed

section \<open>Properties\<close>

lemma GpioImpl_initialize_counts:
  assumes "GpioImpl_initialize S p = (Ok (), p')" and "pl_gpio p = GpioImpl_new"
  shows "counts (min (num_gpios (pl_gpio p')) MAX_GPIOS) (pl_gpio p') (\<lambda>_. 0)"
proof -
  obtain n p1 where p1: "pcommand S GPIO_DRIVER_NUMBER 0 0 0 p = (Ok n, p1)" "pl_gpio p1 = GpioImpl_new"
    using assms by (cases rule: pcommand_cases [of S GPIO_DRIVER_NUMBER 0 0 0 p]) (auto simp: GpioImpl_initialize_def eff_bind_def)
  have "pl_gpio p' = \<lparr>num_gpios = n, gpio_events = map (\<lambda>i. if i < min n MAX_GPIOS then Some 0 else None) [0..<MAX_GPIOS]\<rparr>"
    using assms(1) p1 by (auto simp: GpioImpl_initialize_def eff_bind_def modify_pl_def psubscribe_def subscribe_def on_user_def GpioImpl_new_def
        split: prod.splits if_splits)
  then show ?thesis
    by (auto simp: counts_def)
qed

text \<open>C16. No GPIO event is lost or invented: after its initialisation the module answers every sequence of event callbacks and
  \<^verbatim>\<open>consume_event\<close> and \<^verbatim>\<open>clear_event\<close> calls, on any pins, like unbounded counters of pending events,
  as long as the sequence is shorter than the largest count.
\<close>

theorem gpio_events_counted:
  assumes "GpioImpl_initialize S p = (Ok (), p')" and "pl_gpio p = GpioImpl_new" and "length ops < usize_max - 1"
  shows "gpio_run ops (pl_gpio p') = pending_run (min (num_gpios (pl_gpio p')) MAX_GPIOS) ops (\<lambda>_. 0)"
  by (rule gpio_run_counts [where m = 1, OF GpioImpl_initialize_counts [OF assms(1,2)]]) (use assms(3) in simp_all)

definition four_pins :: "unit Syscalls" where
  "four_pins = \<lparr>sys_command = (\<lambda>_ _ _ _ k. (Some 4, k)), sys_subscribe = (\<lambda>_ _ k. (True, k)), sys_allow = (\<lambda>_ _ _ k. (True, k)),
     sys_shared = (\<lambda>_ _ _. []), sys_unallow = (\<lambda>_ _ k. ([], k)), sys_yield = (\<lambda>k. None)\<rparr>"

definition fresh_pilot :: "'k \<Rightarrow> 'k Pilot" where
  "fresh_pilot k = \<lparr>pl_user = Userland_new k, pl_gpio = GpioImpl_new, pl_alarm = AlarmImpl_new, pl_console = ConsoleReaderImpl_new\<rparr>"

theorem gpio_events_counted_witness:
  "\<exists>p'. GpioImpl_initialize four_pins (fresh_pilot ()) = (Ok (), p') \<and>
     gpio_run [Callback 3, Callback 3, Consume 3, Callback 9, Consume 3, Consume 3, Callback 2, Clear 2, Clear 2] (pl_gpio p')
       = [None, None, Some True, None, Some True, Some False, None, Some True, Some False]"
proof -
  obtain p' where eq: "GpioImpl_initialize four_pins (fresh_pilot ()) = (Ok (), p')" and n: "num_gpios (pl_gpio p') = 4"
    by (simp add: GpioImpl_initialize_def pcommand_def psubscribe_def on_user_def command_def subscribe_def four_pins_def eff_bind_def modify_pl_def fresh_pilot_def)
  have "pl_gpio (fresh_pilot ()) = GpioImpl_new"
    by (simp add: fresh_pilot_def)
  from gpio_events_counted [OF eq this, of "[Callback 3, Callback 3, Consume 3, Callback 9, Consume 3, Consume 3, Callback 2, Clear 2, Clear 2]"] eq n
  show ?thesis
    by (auto simp: MAX_GPIOS_def)
qed

lemma set_alarm_failed:
  assumes "set_alarm (pilot_modules S) (g, p) = Some (Err e, g', p')"
  shows "ignore_bmc_rstmon_n_events g'" and "\<not> al_is_expired (pilot_alarm S) (fold alarm_fires ids p')"
proof -
  obtain r where r: "al_set (pilot_alarm S) (alarm_ticks g) p = (Err e, p')" and g': "g' = g\<lparr>ignore_bmc_rstmon_n_events := True\<rparr>"
    using assms by (auto simp: set_alarm_def on_modules_def pilot_modules_def split: prod.splits)
  show "ignore_bmc_rstmon_n_events g'" "\<not> al_is_expired (pilot_alarm S) (fold alarm_fires ids p')"
    using g' pa.lost_alarm [OF r] by simp_all
qed

lemma ignored_events:
  assumes "ignore_bmc_rstmon_n_events g"
  shows "process_gpio_events E (g, s) = Some (Ok (), g, snd (gc_consume_event (bm_gpio E) SYS_RSTMON_N (snd (gc_consume_event (bm_gpio E) BMC_RSTMON_N s))))"
  using assms by (auto simp: process_gpio_events_def peff_bind_def gp_query_def ret_def split: prod.splits)

text \<open>When the kernel refuses the alarm after a release of the BMC, the events of its reset are ignored and no callback of any
  alarm ends this: the flag is set before the request, and without a running alarm nothing expires.
\<close>

theorem lost_alarm_ignores_resets:
  assumes "set_alarm (pilot_modules S) (g, p) = Some (Err e, g', p')"
  shows "\<not> al_is_expired (pilot_alarm S) (fold alarm_fires ids p')
    \<and> process_gpio_events E (g', s) = Some (Ok (), g', snd (gc_consume_event (bm_gpio E) SYS_RSTMON_N (snd (gc_consume_event (bm_gpio E) BMC_RSTMON_N s))))"
  using set_alarm_failed(2) [OF assms, of ids] ignored_events [OF set_alarm_failed(1) [OF assms]] by simp

definition no_alarms :: "unit Syscalls" where
  "no_alarms = four_pins\<lparr>sys_command := (\<lambda>_ _ _ _ k. (None, k))\<rparr>"

theorem lost_alarm_ignores_resets_witness:
  "\<exists>g' p'. set_alarm (pilot_modules no_alarms) (GpioProcessor_new (pilot_modules no_alarms) (fresh_pilot ()), fresh_pilot ()) = Some (Err SyscallError, g', p')
     \<and> \<not> al_is_expired (pilot_alarm no_alarms) (fold alarm_fires [0, 1, 2] p')"
proof -
  obtain g' p' where eq: "set_alarm (pilot_modules no_alarms) (GpioProcessor_new (pilot_modules no_alarms) (fresh_pilot ()), fresh_pilot ()) = Some (Err SyscallError, g', p')"
    by (simp add: set_alarm_def on_modules_def pilot_modules_def pilot_alarm_def AlarmImpl_set_def modify_pl_def eff_bind_def pcommand_def on_user_def command_def no_alarms_def)
  have "\<not> al_is_expired (pilot_alarm no_alarms) (fold alarm_fires [0, 1, 2] p')"
    using lost_alarm_ignores_resets [OF eq, of "[0, 1, 2]" "pilot_modules no_alarms" "fresh_pilot ()"] by (rule conjunct1)
  with eq show ?thesis
    by blast
qed

end
