(* ===== verification/Otpilot_Main.thy ===== *)
theory Otpilot_Main
  imports Bmc_Control Sfdp
begin

text \<open>
  The program of \<^verbatim>\<open>userspace/otpilot/src/main.rs\<close>: start-up and the event loop over all modules. Printed messages
  and the initialisation of the static objects are left out. The text of the banner and the Manticore server are parameters.
\<close>

section \<open>Start-up\<close>

definition run_host_helper_demo :: "'k Syscalls \<Rightarrow> ('k Pilot, TockError, unit) peff" where
  "run_host_helper_demo S =
     peff_bind (returning (set_passthrough (pilot_host_h1 S) False)) (\<lambda>_.
     peff_bind (enter_4b (pilot_host S)) (\<lambda>_.
     peff_bind (read_and_print_data (pilot_host S) 0) (\<lambda>_.
     (\<lambda>p. if get_address_mode (pilot_device S) p = ThreeByte then exit_4b (pilot_host S) p else Some (Ok (), p)))))"

record Identity =
  identity_version :: "byte list"
  identity_ro_version :: "byte list"
  identity_rw_version :: "byte list"
  identity_device_id :: "byte list"

definition store_build_info :: "'s UFlash \<Rightarrow> SegmentInfo \<Rightarrow> byte list \<Rightarrow> 's \<Rightarrow> byte list \<times> 's" where
  "store_build_info U segment_info buf s =
     (case get_build_info U segment_info s of
        (Some build_info, s) \<Rightarrow> (cur_buf (snd (BuildInfo_to_wire Cursor_write_bytes build_info (Cursor_new buf))), s)
      | (None, s) \<Rightarrow> (buf, s))"

text \<open>Copy as much of the source as fits.\<close>

definition copy_prefix :: "byte list \<Rightarrow> byte list \<Rightarrow> byte list" where
  "copy_prefix dst src = (let max_len = min (length dst) (length src) in take max_len src @ drop max_len dst)"

definition make_identity :: "'k Syscalls \<Rightarrow> byte list \<Rightarrow> ('k Pilot, TockError, Identity) eff" where
  "make_identity S banner p =
     (let info = ul_segments (pl_user p);
          version = copy_prefix (replicate 32 0) banner;
          (ro_version, p) = store_build_info (pilot_flash S) (active_ro info) (replicate 32 0) p;
          (rw_version, p) = store_build_info (pilot_flash S) (active_rw info) (replicate 32 0) p in
      eff_bind (on_user (get_dev_id S)) (\<lambda>dev_id.
        ret \<lparr>identity_version = version, identity_ro_version = ro_version, identity_rw_version = rw_version,
             identity_device_id = copy_prefix (replicate 64 0) (be_bytes 8 (unat dev_id))\<rparr>) p)"

definition JEDEC_ID :: "byte list" where
  "JEDEC_ID = [0x26, 0x31, 0x19]"

definition main_address_config :: AddressConfig where
  "main_address_config = \<lparr>flash_virtual_base = 0, flash_physical_base = 0, flash_physical_size = SPI_FLASH_SIZE,
     ram_virtual_base = SPI_MAILBOX_ADDRESS, virtual_size = SPI_FLASH_SIZE\<rparr>"

definition main_sfdp :: "AddressMode \<Rightarrow> (SfdpTableError, unit) outcome \<times> byte list" where
  "main_sfdp mode = get_table (replicate 128 0xff) (SPI_FLASH_SIZE * 8) mode (mode = ThreeByte) SPI_MAILBOX_ADDRESS
     (word_of_nat MAX_READ_BUFFER_SIZE) 0"

definition setup_device :: "'k Syscalls \<Rightarrow> ('k Pilot, TockError, unit) eff" where
  "setup_device S =
     eff_bind (on_user (SpiDevice_set_address_mode_handling S KernelSpace)) (\<lambda>_.
     eff_bind (on_user (SpiDevice_configure_addresses S main_address_config)) (\<lambda>_.
     eff_bind (on_user (SpiDevice_set_jedec_id S JEDEC_ID)) (\<lambda>_ p.
       case main_sfdp (get_address_mode (pilot_device S) p) of
         (Ok _, sfdp) \<Rightarrow> on_user (SpiDevice_set_sfdp S sfdp) p
       | (Err _, _) \<Rightarrow> (Err FormatError, p)
       | (Panic, _) \<Rightarrow> (Panic, p))))"

text \<open>A result that is thrown away.\<close>

definition attempt :: "('s, 'e, 'a) peff \<Rightarrow> ('s, 'e, unit) peff" where
  "attempt m s = map_option (\<lambda>(r, s). (case r of Panic \<Rightarrow> Panic | _ \<Rightarrow> Ok (), s)) (m s)"

text \<open>Everything \<^verbatim>\<open>run\<close> does before its loop; the result is the identity and the state with the GPIO processor.\<close>

definition prepare :: "'k Syscalls \<Rightarrow> byte list \<Rightarrow> ('k Pilot, TockError, Identity \<times> GpioProcessor) peff" where
  "prepare S banner =
     peff_bind (run_host_helper_demo S) (\<lambda>_.
     peff_bind (returning (make_identity S banner)) (\<lambda>identity p.
       let g = GpioProcessor_new (pilot_modules S) p in
       peff_bind (returning (setup_device S)) (\<lambda>_.
       peff_bind (returning (set_passthrough (pilot_host_h1 S) True)) (\<lambda>_.
       returning (ret (identity, g)))) p))"

definition release_bmc :: "'k Syscalls \<Rightarrow> ('k Pilot, unit) gp" where
  "release_bmc S =
     peff_bind (attempt (set_bmc_cpu_rst (pilot_modules S) False)) (\<lambda>_.
     peff_bind (attempt (set_bmc_srst (pilot_modules S) False)) (\<lambda>_.
     on_modules (returning (ConsoleReader_allow_read S 1))))"

section \<open>The event loop\<close>

text \<open>The state of the loop: the two processors; the first holds the state of the modules.\<close>

type_synonym ('k, 'h) loop_state = "('k Pilot, 'h) SpiProcessor \<times> GpioProcessor"

definition on_spi :: "('k Pilot, 'h, 'm, unit) pspi \<Rightarrow> (('k, 'h) loop_state, TockError, unit) peff" where
  "on_spi m = (\<lambda>(p, g). map_option (\<lambda>(r, p). (case r of Panic \<Rightarrow> Panic | _ \<Rightarrow> Ok (), (p, g))) (m p))"

definition on_gpio_processor :: "('k Pilot, 'a) gp \<Rightarrow> (('k, 'h) loop_state, TockError, 'a) peff" where
  "on_gpio_processor m = (\<lambda>(p, g). map_option (\<lambda>(r, g, s). (r, (set_world s p, g))) (m (g, world p)))"

definition some_event :: "'k Syscalls \<Rightarrow> 'k Pilot \<Rightarrow> bool" where
  "some_event S p \<longleftrightarrow> have_transaction (pilot_device S) p \<or> ConsoleReader_have_data (pl_console p)
     \<or> gc_have_events (pilot_gpio S) p \<or> al_is_expired (pilot_alarm S) p"

definition wait_for_event :: "'k Syscalls \<Rightarrow> (('k, 'h) loop_state, TockError, unit) peff" where
  "wait_for_event S = (\<lambda>(p, g). map_option (\<lambda>s. (Ok (), (set_world s p, g))) (pilot_yield_until S (some_event S) (world p)))"

definition handle_console :: "'k Syscalls \<Rightarrow> (('k, 'h) loop_state, TockError, unit) peff" where
  "handle_console S st =
     (if ConsoleReader_have_data (pl_console (world (fst st))) then
        peff_bind (attempt (on_gpio_processor (peff_bind (on_modules (returning (ConsoleReader_get_data S))) (\<lambda>data gs.
          process_input (pilot_modules S) (pilot_flash S) (ul_segments (pl_user (snd gs))) (pilot_reset S) data gs)))) (\<lambda>_.
        on_gpio_processor (on_modules (returning (ConsoleReader_allow_read S 1)))) st
      else Some (Ok (), st))"

definition handle_gpio :: "'k Syscalls \<Rightarrow> (('k, 'h) loop_state, TockError, unit) peff" where
  "handle_gpio S st =
     (if gc_have_events (pilot_gpio S) (world (fst st)) then attempt (on_gpio_processor (process_gpio_events (pilot_modules S))) st
      else Some (Ok (), st))"

definition handle_alarm :: "'k Syscalls \<Rightarrow> (('k, 'h) loop_state, TockError, unit) peff" where
  "handle_alarm S st =
     (if al_is_expired (pilot_alarm S) (world (fst st)) then attempt (on_gpio_processor (gp_alarm_expired (pilot_modules S))) st
      else Some (Ok (), st))"

text \<open>\<open>E\<close> are the modules of the SPI processor; \<open>handle_transaction\<close> reports no error.\<close>

definition event_round :: "'k Syscalls \<Rightarrow> ('k Pilot, 'h, 'm) Modules \<Rightarrow> (('k, 'h) loop_state, TockError, unit) peff" where
  "event_round S E =
     peff_bind (wait_for_event S) (\<lambda>_.
     peff_bind (on_spi (handle_transaction E)) (\<lambda>_.
     peff_bind (handle_console S) (\<lambda>_.
     peff_bind (handle_gpio S) (\<lambda>_.
     handle_alarm S))))"

partial_function (option) event_loop :: "'k Syscalls \<Rightarrow> ('k Pilot, 'h, 'm) Modules \<Rightarrow> (('k, 'h) loop_state, TockError, unit) peff" where
  "event_loop S E st = Option.bind (event_round S E st) (\<lambda>(r, st). case r of
     Ok _ \<Rightarrow> event_loop S E st | Err e \<Rightarrow> Some (Err e, st) | Panic \<Rightarrow> Some (Panic, st))"

definition main_modules :: "'k Syscalls \<Rightarrow> (byte list \<Rightarrow> byte list \<Rightarrow> 'h \<Rightarrow> (('m, nat) outcome \<times> byte list) \<times> 'h) \<Rightarrow> RuntimeSegmentInfo
    \<Rightarrow> ('k Pilot, 'h, 'm) Modules" where
  "main_modules S request info = \<lparr>env_flash = pilot_flash S, env_device = pilot_device S, env_host = pilot_host S,
     env_host_h1 = pilot_host_h1 S, env_reset = pilot_reset S, segments = info, manticore_request = request\<rparr>"

definition run_main :: "'k Syscalls \<Rightarrow> (Identity \<Rightarrow> 'h) \<Rightarrow> (byte list \<Rightarrow> byte list \<Rightarrow> 'h \<Rightarrow> (('m, nat) outcome \<times> byte list) \<times> 'h)
    \<Rightarrow> byte list \<Rightarrow> ('k Pilot, TockError, unit) peff" where
  "run_main S handler_new request banner =
     peff_bind (prepare S banner) (\<lambda>(identity, g) s.
       case release_bmc S (g, s) of
         None \<Rightarrow> None
       | Some (Ok _, g, s) \<Rightarrow>
           map_option (\<lambda>(r, st). (r, world (fst st)))
             (event_loop S (main_modules S request (ul_segments (pl_user s)))
               (\<lparr>manticore_handler = handler_new identity, print_flash_headers = False, firmware = FirmwareController_new s,
                 spi_tx_buf = replicate SPI_TX_BUF_SIZE 0xff\<rparr>, g))
       | Some (Err e, g, s) \<Rightarrow> Some (Err e, s)
       | Some (Panic, g, s) \<Rightarrow> Some (Panic, s))"

section \<open>How the loop ends\<close>

lemma attempt_Err: "attempt m s \<noteq> Some (Err e, s')"
  by (auto simp: attempt_def split: outcome.splits)

lemma attempt_not_Err [simp]: "attempt m s = Some (Err e, s') \<longleftrightarrow> False"
  by (simp add: attempt_Err)

lemma on_spi_Err [simp]: "on_spi m st = Some (Err e, st') \<longleftrightarrow> False"
  by (auto simp: on_spi_def split: outcome.splits prod.splits)

lemma wait_for_event_Err [simp]: "wait_for_event S st = Some (Err e, st') \<longleftrightarrow> False"
  by (auto simp: wait_for_event_def split: prod.splits)

lemma handle_quiet [simp]: "handle_gpio S st = Some (Err e, st') \<longleftrightarrow> False" "handle_alarm S st = Some (Err e, st') \<longleftrightarrow> False"
  by (simp_all add: handle_gpio_def handle_alarm_def)

lemma peff_bind_Err_iff:
  "peff_bind m f s = Some (Err e, t) \<longleftrightarrow> m s = Some (Err e, t) \<or> (\<exists>a s'. m s = Some (Ok a, s') \<and> f a s' = Some (Err e, t))"
  by (auto simp: peff_bind_def split: option.splits prod.splits outcome.splits)

definition console_failed :: "'k Syscalls \<Rightarrow> TockError \<Rightarrow> 'k Pilot \<Rightarrow> bool" where
  "console_failed S e s \<longleftrightarrow> (\<exists>p. ConsoleReader_allow_read S 1 p = (Err e, s))"

lemma handle_console_Err:
  assumes "handle_console S st = Some (Err e, st')"
  shows "console_failed S e (world (fst st'))"
  using assms
  by (auto simp: handle_console_def console_failed_def peff_bind_Err_iff on_gpio_processor_def on_modules_def split: if_splits prod.splits)

lemma event_round_Err:
  assumes "event_round S E st = Some (Err e, st')"
  shows "console_failed S e (world (fst st'))"
  using assms by (auto simp: event_round_def peff_bind_Err_iff intro: handle_console_Err)

lemma event_loop_Some:
  assumes "event_loop S E st = Some (r, st')"
  shows "r = Panic \<or> (\<exists>e. r = Err e \<and> console_failed S e (world (fst st')))"
proof -
  let ?P = "\<lambda>S E (st :: ('a, 'b) loop_state) y. fst y = Panic \<or> (\<exists>e. fst y = Err e \<and> console_failed S e (world (fst (snd y :: ('a, 'b) loop_state))))"
  have "?P S E st (r, st')"
  proof (rule event_loop.raw_induct [where P = ?P, OF _ assms])
    fix f S E and st :: "('a, 'b) loop_state" and y
    assume IH: "\<And>S E st y. f S E st = Some y \<Longrightarrow> ?P S E st y"
      and eq: "Option.bind (event_round S E st) (\<lambda>(r, st). case r of
        Ok _ \<Rightarrow> f S E st | Err e \<Rightarrow> Some (Err e, st) | Panic \<Rightarrow> Some (Panic, st)) = Some y"
    then obtain r1 st1 where r1: "event_round S E st = Some (r1, st1)"
      by (auto simp: bind_eq_Some_conv)
    show "?P S E st y"
    proof (cases r1)
      case (Ok a)
      with eq r1 have "f S E st1 = Some y"
        by simp
      then show ?thesis
        by (rule IH)
    next
      case (Err e)
      with eq r1 event_round_Err [of S E st e st1] show ?thesis
        by auto
    qed (use eq r1 in auto)
  qed
  then show ?thesis
    by simp
qed

text \<open>The event loop never returns with success: it ends by a panic or with the error of a refused request for console
  input. No packet, console command, GPIO event or alarm whose handling fails ends it.
\<close>

theorem event_loop_ends:
  assumes "event_loop S E st = Some (r, st')"
  shows "r = Panic \<or> (\<exists>e. r = Err e \<and> console_failed S e (world (fst st')))"
  by (rule event_loop_Some [OF assms])

definition no_console :: "unit Syscalls" where
  "no_console = four_pins\<lparr>sys_allow := (\<lambda>_ _ _ k. (False, k))\<rparr>"

definition question_mark :: "(unit, unit) loop_state" where
  "question_mark = (\<lparr>manticore_handler = (), print_flash_headers = False,
     firmware = FirmwareController_new ((fresh_pilot ())\<lparr>pl_console := \<lparr>console_read_buffer = [63], console_shared = False, console_received_len = 1\<rparr>\<rparr>),
     spi_tx_buf = []\<rparr>, GpioProcessor_new (pilot_modules no_console) (fresh_pilot ()))"

theorem event_loop_ends_witness:
  "\<exists>st' e. event_loop no_console (main_modules no_console (\<lambda>_ out h. ((Err (), out), h)) UNKNOWN_RUNTIME_SEGMENT_INFO) question_mark = Some (Err e, st')
     \<and> console_failed no_console e (world (fst st'))"
proof -
  let ?E = "main_modules no_console (\<lambda>_ out h. ((Err (), out), h)) UNKNOWN_RUNTIME_SEGMENT_INFO :: (unit Pilot, unit, unit) Modules"
  have idle: "handle_transaction ?E (fst question_mark) = Some (Ok (), fst question_mark)"
    by (simp add: handle_transaction_def main_modules_def pilot_device_def user_device_def question_mark_def fresh_pilot_def Userland_new_def FirmwareController_new_def)
  have wait: "wait_for_event no_console question_mark = Some (Ok (), question_mark)"
    by (simp add: wait_for_event_def pilot_yield_until.simps some_event_def ConsoleReader_have_data_def question_mark_def FirmwareController_new_def)
  obtain st' where con: "handle_console no_console question_mark = Some (Err SyscallError, st')"
    by (simp add: handle_console_def ConsoleReader_have_data_def question_mark_def FirmwareController_new_def attempt_def on_gpio_processor_def
        peff_bind_def on_modules_def ConsoleReader_get_data_def process_input_def ret_def ConsoleReader_allow_read_def eff_bind_def modify_pl_def
        ConsoleReader_drop_share_def on_user_def allow_def no_console_def Let_def)
  have "event_round no_console ?E question_mark = Some (Err SyscallError, st')"
    using idle wait con by (simp add: event_round_def peff_bind_def on_spi_def case_prod_unfold)
  then have "event_loop no_console ?E question_mark = Some (Err SyscallError, st')"
    by (simp add: event_loop.simps)
  with event_loop_ends [OF this] show ?thesis
    by auto
qed

end
