(* ===== verification/Sys_Trace.thy ===== *)
theory Sys_Trace
  imports Otpilot_Main
begin

text \<open>
  What the application asks of the kernel: any system calls are put under a log of those that succeed, and the start-up
  and the handling of a reset of the baseboard management controller are shown to follow their scripts up to the first failure.
\<close>

section \<open>System calls under a log\<close>

datatype sys_event = Cmd (ev_driver: nat) nat nat nat | Share (ev_driver: nat) nat "byte list" | Subscr (ev_driver: nat) nat

text \<open>Requests to the flash driver are not recorded: their errors do not matter at start-up.\<close>

definition note_event :: "bool \<Rightarrow> sys_event \<Rightarrow> sys_event list \<Rightarrow> sys_event list" where
  "note_event ok ev l = (if ok \<and> ev_driver ev \<noteq> FLASH_DRIVER_NUMBER then l @ [ev] else l)"

definition traced :: "'k Syscalls \<Rightarrow> ('k \<times> sys_event list) Syscalls" where
  "traced S =
     \<lparr>sys_command = (\<lambda>d n a b (k, l). case sys_command S d n a b k of (r, k) \<Rightarrow> (r, k, note_event (r \<noteq> None) (Cmd d n a b) l)),
      sys_subscribe = (\<lambda>d n (k, l). case sys_subscribe S d n k of (ok, k) \<Rightarrow> (ok, k, note_event ok (Subscr d n) l)),
      sys_allow = (\<lambda>d n buf (k, l). case sys_allow S d n buf k of (ok, k) \<Rightarrow> (ok, k, note_event ok (Share d n buf) l)),
      sys_shared = (\<lambda>d n (k, l). sys_shared S d n k),
      sys_unallow = (\<lambda>d n (k, l). case sys_unallow S d n k of (buf, k) \<Rightarrow> (buf, k, l)),
      sys_yield = (\<lambda>(k, l). map_option (\<lambda>(c, k). (c, k, l)) (sys_yield S k))\<rparr>"

abbreviation user_trace :: "('k \<times> sys_event list) Userland \<Rightarrow> sys_event list" where
  "user_trace u \<equiv> snd (kern u)"

abbreviation trace :: "('k \<times> sys_event list) Pilot \<Rightarrow> sys_event list" where
  "trace p \<equiv> user_trace (pl_user p)"

section \<open>Code that follows a script\<close>

text \<open>
  Code follows a script when it extends the log by a prefix of it: by all of it when it succeeds, by less when it reports an
  error. \<open>I\<close> is what the code leaves alone.
\<close>

definition follows :: "sys_event list \<Rightarrow> sys_event list \<Rightarrow> ('e, 'a) outcome \<Rightarrow> sys_event list \<Rightarrow> bool" where
  "follows evs l r l' \<longleftrightarrow> (\<exists>n\<le>length evs. l' = l @ take n evs \<and> (is_ok r \<longrightarrow> n = length evs) \<and> (\<not> is_ok r \<and> \<not> is_panic r \<longrightarrow> n < length evs))"

definition performs :: "('s \<Rightarrow> bool) \<Rightarrow> ('s \<Rightarrow> sys_event list) \<Rightarrow> ('s, 'e, 'a) peff \<Rightarrow> sys_event list \<Rightarrow> bool" where
  "performs I tr m evs \<longleftrightarrow> (\<forall>s r s'. I s \<longrightarrow> m s = Some (r, s') \<longrightarrow> I s' \<and> follows evs (tr s) r (tr s'))"

named_theorems performs_intros \<open>scripts of the building blocks\<close>

lemma performsI:
  assumes "\<And>s r s'. \<lbrakk>I s; m s = Some (r, s')\<rbrakk> \<Longrightarrow> I s' \<and> follows evs (tr s) r (tr s')"
  shows "performs I tr m evs"
  using assms by (auto simp: performs_def)

lemma performsD:
  assumes "performs I tr m evs" and "I s" and "m s = Some (r, s')"
  shows "I s'" and "follows evs (tr s) r (tr s')"
  using assms by (auto simp: performs_def)

lemma follows_append:
  assumes "follows a l (Ok x) l'" and "follows b l' r l''"
  shows "follows (a @ b) l r l''"
proof -
  obtain n where n: "n \<le> length b" "l'' = l' @ take n b" "is_ok r \<longrightarrow> n = length b" "\<not> is_ok r \<and> \<not> is_panic r \<longrightarrow> n < length b"
    using assms(2) by (auto simp: follows_def)
  have "l' = l @ a"
    using assms(1) by (auto simp: follows_def)
  with n show ?thesis
    unfolding follows_def by (intro exI [of _ "length a + n"]) auto
qed

lemma follows_stop:
  assumes "follows a l r l'" and "\<not> is_ok r" and "\<not> is_ok r'" and "is_panic r' = is_panic r"
  shows "follows (a @ b) l r' l'"
proof -
  obtain n where "n \<le> length a" "l' = l @ take n a" "\<not> is_panic r \<longrightarrow> n < length a"
    using assms(1,2) by (auto simp: follows_def)
  with assms(2-4) show ?thesis
    unfolding follows_def by (intro exI [of _ n]) auto
qed

lemma performs_bind [performs_intros]:
  assumes m: "performs I tr m a" and f: "\<And>x. performs I tr (f x) b"
  shows "performs I tr (peff_bind m f) (a @ b)"
proof (rule performsI)
  fix s r s'
  assume I: "I s" and eq: "peff_bind m f s = Some (r, s')"
  then obtain r1 s1 where r1: "m s = Some (r1, s1)"
    by (auto simp: peff_bind_def split: option.splits)
  note m1 = performsD [OF m I r1]
  show "I s' \<and> follows (a @ b) (tr s) r (tr s')"
  proof (cases r1)
    case (Ok x)
    then have eq': "f x s1 = Some (r, s')"
      using eq r1 by simp
    show ?thesis
      using performsD [OF f m1(1) eq'] m1(2) Ok by (auto intro: follows_append)
  next
    case (Err e)
    then show ?thesis
      using m1 eq r1 follows_stop [of a "tr s" r1 "tr s1" "Err e"] by auto
  next
    case Panic
    then show ?thesis
      using m1 eq r1 follows_stop [of a "tr s" r1 "tr s1" Panic] by auto
  qed
qed

lemma eff_bind_returning: "returning (eff_bind m f) = peff_bind (returning m) (\<lambda>x. returning (f x))"
  by (rule ext) (auto simp: peff_bind_def eff_bind_def split: prod.splits outcome.splits)

lemma performs_eff_bind [performs_intros]:
  "\<lbrakk>performs I tr (returning m) a; \<And>x. performs I tr (returning (f x)) b\<rbrakk> \<Longrightarrow> performs I tr (returning (eff_bind m f)) (a @ b)"
  unfolding eff_bind_returning by (rule performs_bind)

lemma follows_nil [simp]: "follows [] l r l' \<longleftrightarrow> l' = l \<and> (is_ok r \<or> is_panic r)"
  by (auto simp: follows_def)

lemma performs_silent:
  assumes "\<And>s r s'. \<lbrakk>I s; m s = Some (r, s')\<rbrakk> \<Longrightarrow> I s' \<and> tr s' = tr s \<and> (is_ok r \<or> is_panic r)"
  shows "performs I tr m []"
  using assms by (auto simp: performs_def)

lemma performs_ret [performs_intros]: "performs I tr (returning (ret x)) []"
  by (rule performs_silent) (auto simp: ret_def)

lemma performs_panic [performs_intros]: "performs I tr (returning panic) []"
  by (rule performs_silent) (auto simp: panic_def)

lemma performs_if [performs_intros]: "\<lbrakk>performs I tr m a; performs I tr m' a\<rbrakk> \<Longrightarrow> performs I tr (if b then m else m') a"
  by simp

lemma performs_ignore [performs_intros]: "performs I tr (returning m) a \<Longrightarrow> performs I tr (returning (ignore_result m)) a"
  using performs_eff_bind [OF _ performs_ret, of I tr m a "\<lambda>_. ()"] by (simp add: ignore_result_def)

lemma performs_look: "(\<And>q. I q \<Longrightarrow> performs I tr (F q) a) \<Longrightarrow> performs I tr (\<lambda>p. F p p) a"
  unfolding performs_def by blast

text \<open>One system call.\<close>

lemma follows_one: "follows [ev] l r l' \<longleftrightarrow> is_ok r \<and> l' = l @ [ev] \<or> \<not> is_ok r \<and> l' = l \<or> is_panic r \<and> l' = l @ [ev]"
  by (cases r) (auto simp: follows_def le_Suc_eq intro: exI [of _ 0] exI [of _ 1])

lemma performs_one:
  assumes "\<And>s r s'. \<lbrakk>I s; m s = Some (r, s')\<rbrakk> \<Longrightarrow> I s' \<and> (is_ok r \<and> tr s' = tr s @ [ev] \<or> \<not> is_ok r \<and> tr s' = tr s)"
  shows "performs I tr m [ev]"
  using assms by (auto simp: performs_def follows_one)

lemma performs_command [performs_intros]:
  assumes "d \<noteq> FLASH_DRIVER_NUMBER" and "\<And>u k. I u \<Longrightarrow> I (u\<lparr>kern := k\<rparr>)"
  shows "performs I user_trace (returning (command (traced S) d n a b)) [Cmd d n a b]"
  by (rule performs_one)
    (use assms in \<open>auto simp: command_def traced_def note_event_def split: prod.splits option.splits\<close>)

lemma performs_subscribe [performs_intros]:
  assumes "d \<noteq> FLASH_DRIVER_NUMBER" and "\<And>u k. I u \<Longrightarrow> I (u\<lparr>kern := k\<rparr>)"
  shows "performs I user_trace (returning (subscribe (traced S) d n)) [Subscr d n]"
  by (rule performs_one)
    (use assms in \<open>auto simp: subscribe_def traced_def note_event_def split: prod.splits if_splits\<close>)

lemma performs_allow [performs_intros]:
  assumes "d \<noteq> FLASH_DRIVER_NUMBER" and "\<And>u k. I u \<Longrightarrow> I (u\<lparr>kern := k\<rparr>)"
  shows "performs I user_trace (returning (allow (traced S) d n buf)) [Share d n buf]"
  by (rule performs_one)
    (use assms in \<open>auto simp: allow_def traced_def note_event_def split: prod.splits if_splits\<close>)

lemma performs_with_write_share [performs_intros]:
  assumes d: "d \<noteq> FLASH_DRIVER_NUMBER" and I: "\<And>u k. I u \<Longrightarrow> I (u\<lparr>kern := k\<rparr>)" and body: "performs I user_trace (returning body) b"
  shows "performs I user_trace (returning (with_write_share (traced S) d n buf body)) ([Share d n buf] @ b)"
proof -
  have "performs I user_trace (returning (\<lambda>u. case body u of (r, u) \<Rightarrow>
      case sys_unallow (traced S) d n (kern u) of (_, k) \<Rightarrow> (r, u\<lparr>kern := k\<rparr>))) b"
  proof (rule performsI)
    fix s r s'
    assume s: "I s" and "returning (\<lambda>u. case body u of (r, u) \<Rightarrow>
      case sys_unallow (traced S) d n (kern u) of (_, k) \<Rightarrow> (r, u\<lparr>kern := k\<rparr>)) s = Some (r, s')"
    then obtain s1 k where b: "returning body s = Some (r, s1)" and s': "s' = s1\<lparr>kern := k\<rparr>" and k: "snd k = user_trace s1"
      by (auto simp: traced_def split: prod.splits)
    from performsD [OF body s b] show "I s' \<and> follows b (user_trace s) r (user_trace s')"
      using I s' k by simp
  qed
  moreover have "with_write_share (traced S) d n buf body = eff_bind (allow (traced S) d n buf) (\<lambda>_ u. case body u of (r, u) \<Rightarrow>
      case sys_unallow (traced S) d n (kern u) of (_, k) \<Rightarrow> (r, u\<lparr>kern := k\<rparr>))"
    by (rule ext) (auto simp: with_write_share_def with_share_def eff_bind_def split: prod.splits outcome.splits)
  ultimately show ?thesis
    using performs_eff_bind [OF performs_allow [where I = I and S = S and n = n and buf = buf, OF d I]] by simp
qed

section \<open>The application's building blocks\<close>

lemma performs_on_user [performs_intros]:
  assumes "performs (\<lambda>_. True) user_trace (returning m) a"
  shows "performs (\<lambda>_. True) trace (returning (on_user m)) a"
  using assms by (auto simp: performs_def on_user_def split: prod.splits)


lemma pilot_wait_trace:
  assumes "pilot_yield_until (traced S) stop p = Some p'"
  shows "trace p' = trace p"
proof -
  let ?P = "\<lambda>T (Q :: ('a \<times> sys_event list) Pilot \<Rightarrow> bool) (p :: ('a \<times> sys_event list) Pilot) (p' :: ('a \<times> sys_event list) Pilot). T = traced S \<longrightarrow> trace p' = trace p"
  have "?P (traced S) stop p p'"
  proof (rule pilot_yield_until.raw_induct [where P = ?P, OF _ assms], intro impI)
    fix f T Q and p p' :: "('a \<times> sys_event list) Pilot"
    assume IH: "\<And>T Q p p'. f T Q p = Some p' \<Longrightarrow> ?P T Q p p'"
      and eq: "(if Q p then Some p else Option.bind (pilot_yieldk T p) (f T Q)) = Some p'" and T: "T = traced S"
    show "trace p' = trace p"
    proof (cases "Q p")
      case False
      with eq T obtain q where q: "pilot_yieldk (traced S) p = Some q" "f T Q q = Some p'"
        by (auto simp: bind_eq_Some_conv)
      have "trace q = trace p"
        using q(1) by (auto simp: pilot_yieldk_def traced_def dispatch_def split: prod.splits)
      with IH [OF q(2)] T show ?thesis
        by simp
    qed (use eq in simp)
  qed
  then show ?thesis
    by simp
qed

lemma performs_pcommand [performs_intros]:
  "d \<noteq> FLASH_DRIVER_NUMBER \<Longrightarrow> performs (\<lambda>_. True) trace (returning (pcommand (traced S) d n a b)) [Cmd d n a b]"
  unfolding pcommand_def by (intro performs_on_user performs_command) auto

text \<open>The requests of a transaction of the SPI host, and of the GPIO pins, the alarm and the pass-through switch.\<close>

definition transfer :: "byte list \<Rightarrow> nat \<Rightarrow> sys_event list" where
  "transfer buf len = [Share HOST_DRIVER_NUMBER 1 buf, Subscr HOST_DRIVER_NUMBER 0, Cmd HOST_DRIVER_NUMBER 2 len 0]"

definition drive_pin :: "GpioPin \<Rightarrow> GpioValue \<Rightarrow> sys_event" where
  "drive_pin pin v = Cmd GPIO_DRIVER_NUMBER (case v of High \<Rightarrow> 2 | Low \<Rightarrow> 3) (usize_from_GpioPin pin) 0"

definition passthrough :: "bool \<Rightarrow> sys_event" where
  "passthrough on = Cmd HOST_H1_DRIVER_NUMBER 1 (bool_arg on) 0"

lemma performs_init:
  assumes "performs I tr (returning m) a" and "\<And>s. I (f s)" and "\<And>s. tr (f s) = tr s"
  shows "performs (\<lambda>_. True) tr (returning (eff_bind (\<lambda>s. (Ok x, f s)) (\<lambda>_. m))) a"
proof (rule performsI)
  fix s r s'
  assume "returning (eff_bind (\<lambda>s. (Ok x, f s)) (\<lambda>_. m)) s = Some (r, s')"
  then have "returning m (f s) = Some (r, s')"
    by (simp add: eff_bind_def)
  from performsD [OF assms(1,2) this] show "True \<and> follows a (tr s) r (tr s')"
    by (simp add: assms(3))
qed

lemma performs_transfer:
  "performs (\<lambda>_. True) trace (returning (read_write_bytes (pilot_host (traced S)) buf len)) (transfer buf len)"
proof -
  let ?I = "\<lambda>u :: ('a \<times> sys_event list) Userland. read_write_length (ul_host u) = len"
  have send: "performs ?I user_trace (returning (ignore_result (\<lambda>u. command (traced S) HOST_DRIVER_NUMBER 2 (read_write_length (ul_host u)) 0 u)))
      [Cmd HOST_DRIVER_NUMBER 2 len 0]"
  proof (rule performs_ignore)
    have "performs ?I user_trace (returning (command (traced S) HOST_DRIVER_NUMBER 2 len 0)) [Cmd HOST_DRIVER_NUMBER 2 len 0]"
      by (rule performs_command) (simp_all add: driver_numbers)
    then show "performs ?I user_trace (returning (\<lambda>u. command (traced S) HOST_DRIVER_NUMBER 2 (read_write_length (ul_host u)) 0 u)) [Cmd HOST_DRIVER_NUMBER 2 len 0]"
      by (simp add: performs_def)
  qed
  have "performs ?I user_trace (returning (eff_bind (subscribe (traced S) HOST_DRIVER_NUMBER 0)
      (\<lambda>_. ignore_result (\<lambda>u. command (traced S) HOST_DRIVER_NUMBER 2 (read_write_length (ul_host u)) 0 u))))
      ([Subscr HOST_DRIVER_NUMBER 0] @ [Cmd HOST_DRIVER_NUMBER 2 len 0])"
    by (intro performs_eff_bind send performs_subscribe) (simp_all add: driver_numbers)
  then have "performs (\<lambda>_. True) user_trace (returning (eff_bind (\<lambda>u. (Ok (), u\<lparr>ul_host := \<lparr>read_write_length = len, read_write_done = False\<rparr>\<rparr>))
      (\<lambda>_. eff_bind (subscribe (traced S) HOST_DRIVER_NUMBER 0)
      (\<lambda>_. ignore_result (\<lambda>u. command (traced S) HOST_DRIVER_NUMBER 2 (read_write_length (ul_host u)) 0 u)))))
      ([Subscr HOST_DRIVER_NUMBER 0] @ [Cmd HOST_DRIVER_NUMBER 2 len 0])"
    by (rule performs_init) simp_all
  from performs_with_write_share [OF _ _ this] show ?thesis
    by (simp add: pilot_host_def SpiHost_read_write_bytes_def transfer_def driver_numbers performs_on_user)
qed

lemma performs_wait_done [performs_intros]: "performs (\<lambda>_. True) trace (wait_done (pilot_host (traced S))) []"
  by (rule performs_silent) (auto simp: wait_done_def pilot_host_def pilot_wait_trace)

lemma performs_enter_4b: "performs (\<lambda>_. True) trace (enter_4b (pilot_host (traced S))) (transfer [0xb7] 1)"
  unfolding enter_4b_def by (rule performs_bind [OF performs_transfer performs_wait_done, simplified])

lemma performs_exit_4b: "performs (\<lambda>_. True) trace (exit_4b (pilot_host (traced S))) (transfer [0xe9] 1)"
  unfolding exit_4b_def by (rule performs_bind [OF performs_transfer performs_wait_done, simplified])

definition read_request :: "u32 \<Rightarrow> sys_event list" where
  "read_request addr = transfer (0x03 # be_bytes 4 (unat addr) @ replicate (MAX_READ_BUFFER_LENGTH - 5) 0xff) 13"

lemma performs_read_buffer: "performs (\<lambda>_. True) trace (returning (host_read_buffer (pilot_host (traced S)))) []"
  by (rule performs_silent) (auto simp: pilot_host_def on_user_def SpiHost_get_read_buffer_def Let_def split: if_splits)

lemma performs_read_and_print_data: "performs (\<lambda>_. True) trace (read_and_print_data (pilot_host (traced S)) addr) (read_request addr)"
proof -
  let ?tx = "0x03 # be_bytes 4 (unat addr) @ replicate (MAX_READ_BUFFER_LENGTH - 5) 0xff"
  have "performs (\<lambda>_. True) trace (helper_read_data (pilot_host (traced S)) addr 8) (transfer ?tx (5 + 8) @ ([] @ ([] @ [])))"
    unfolding helper_read_data_def create_tx_buf_def prod.case
    by (intro performs_bind performs_transfer performs_wait_done performs_read_buffer) (simp add: performs_ret performs_panic)
  from performs_bind [OF this performs_ret] show ?thesis
    by (simp add: read_and_print_data_def read_request_def)
qed

lemma performs_passthrough:
  "performs (\<lambda>_. True) trace (returning (set_passthrough (pilot_host_h1 (traced S)) b)) [passthrough b]"
  by (simp add: pilot_host_h1_def SpiHostH1_set_passthrough_def passthrough_def)
    (intro performs_on_user performs_ignore performs_command; simp add: driver_numbers)

lemma performs_pin: "performs (\<lambda>_. True) trace (returning (gc_set (pilot_gpio (traced S)) pin v)) [drive_pin pin v]"
  by (simp add: pilot_gpio_def GpioImpl_write_def drive_pin_def) (intro performs_ignore performs_pcommand; simp add: pilot_driver_numbers)

lemma performs_modify: "(\<And>p. trace (f p) = trace p) \<Longrightarrow> performs (\<lambda>_. True) trace (returning (modify_pl f)) []"
  by (rule performs_silent) (auto simp: modify_pl_def)

lemma performs_alarm: "performs (\<lambda>_. True) trace (returning (al_set (pilot_alarm (traced S)) t)) [Cmd ALARM_DRIVER_NUMBER 5 t 0]"
proof -
  have "performs (\<lambda>_. True) trace (returning (AlarmImpl_set (traced S) t)) ([] @ ([] @ ([Cmd ALARM_DRIVER_NUMBER 5 t 0] @ [])))"
    unfolding AlarmImpl_set_def
    by (intro performs_eff_bind performs_modify performs_pcommand) (simp_all add: on_alarm_def pilot_driver_numbers)
  then show ?thesis
    by (simp add: pilot_alarm_def)
qed

lemma performs_mode:
  "performs (\<lambda>_. True) trace (returning (on_user (SpiDevice_set_address_mode (traced S) m))) [Cmd DEVICE_DRIVER_NUMBER 3 (usize_from_AddressMode m) 0]"
proof -
  have "performs (\<lambda>_. True) user_trace (returning (SpiDevice_set_address_mode (traced S) m)) ([Cmd DEVICE_DRIVER_NUMBER 3 (usize_from_AddressMode m) 0] @ [])"
    unfolding SpiDevice_set_address_mode_def
    by (intro performs_eff_bind performs_command performs_silent) (auto simp: driver_numbers)
  then show ?thesis
    by (simp add: performs_on_user)
qed

section \<open>A reset of the BMC\<close>

abbreviation gp_trace :: "GpioProcessor \<times> ('k \<times> sys_event list) Pilot \<Rightarrow> sys_event list" where
  "gp_trace gs \<equiv> trace (snd gs)"

definition gp_is :: "AddressMode \<Rightarrow> nat \<Rightarrow> GpioProcessor \<times> 's \<Rightarrow> bool" where
  "gp_is m t gs \<longleftrightarrow> initial_address_mode (fst gs) = m \<and> alarm_ticks (fst gs) = t"

lemma performs_on_modules:
  assumes "performs (\<lambda>_. True) trace m a"
  shows "performs (gp_is md t) gp_trace (on_modules m) a"
  using assms by (auto simp: performs_def on_modules_def gp_is_def)

lemma performs_set_alarm: "performs (gp_is md t) gp_trace (set_alarm (pilot_modules (traced S))) [Cmd ALARM_DRIVER_NUMBER 5 t 0]"
proof (rule performsI)
  fix gs r gs'
  assume gs: "gp_is md t gs" and eq: "set_alarm (pilot_modules (traced S)) gs = Some (r, gs')"
  let ?gs = "((fst gs)\<lparr>ignore_bmc_rstmon_n_events := True\<rparr>, snd gs)"
  have *: "on_modules (returning (al_set (pilot_alarm (traced S)) t)) ?gs = Some (r, gs')" "gp_is md t ?gs"
    using gs eq by (auto simp: set_alarm_def gp_is_def pilot_modules_def split: prod.splits)
  show "gp_is md t gs' \<and> follows [Cmd ALARM_DRIVER_NUMBER 5 t 0] (gp_trace gs) r (gp_trace gs')"
    using performsD [OF performs_on_modules [OF performs_alarm] *(2,1)] by simp
qed

definition bmc_script :: "AddressMode \<Rightarrow> nat \<Rightarrow> sys_event list" where
  "bmc_script mode ticks =
     [drive_pin BMC_CPU_RST_N Low, passthrough False]
     @ transfer [0xb7] 1 @ read_request 0
     @ transfer (case mode of ThreeByte \<Rightarrow> [0xe9] | FourByte \<Rightarrow> [0xb7]) 1
     @ [Cmd DEVICE_DRIVER_NUMBER 3 (usize_from_AddressMode mode) 0, passthrough True, drive_pin BMC_CPU_RST_N High, Cmd ALARM_DRIVER_NUMBER 5 ticks 0]"

lemma performs_look_mode:
  assumes "performs (gp_is md t) tr (F md) a"
  shows "performs (gp_is md t) tr (\<lambda>gs. F (initial_address_mode (fst gs)) gs) a"
proof (rule performsI)
  fix gs r gs'
  assume gs: "gp_is md t gs" and "F (initial_address_mode (fst gs)) gs = Some (r, gs')"
  then have "F md gs = Some (r, gs')"
    by (simp add: gp_is_def)
  from performsD [OF assms gs this] show "gp_is md t gs' \<and> follows a (tr gs) r (tr gs')"
    by simp
qed

lemma performs_restore:
  "performs (gp_is md t) gp_trace (\<lambda>gs. on_modules (case initial_address_mode (fst gs) of
      ThreeByte \<Rightarrow> exit_4b (pilot_host (traced S)) | FourByte \<Rightarrow> enter_4b (pilot_host (traced S))) gs)
    (transfer (case md of ThreeByte \<Rightarrow> [0xe9] | FourByte \<Rightarrow> [0xb7]) 1)"
  by (rule performs_look_mode, rule performs_on_modules, cases md) (simp_all only: AddressMode.case performs_enter_4b performs_exit_4b)

lemma performs_restore_mode:
  "performs (gp_is md t) gp_trace (\<lambda>gs. on_modules (returning (on_user (SpiDevice_set_address_mode (traced S) (initial_address_mode (fst gs))))) gs)
    [Cmd DEVICE_DRIVER_NUMBER 3 (usize_from_AddressMode md) 0]"
  by (rule performs_look_mode) (intro performs_on_modules performs_mode)

lemma performs_clear_event:
  "performs (gp_is md t) gp_trace (gp_query (gc_clear_event (pilot_gpio (traced S)) pin)) []"
  by (rule performs_silent) (auto simp: gp_query_def pilot_gpio_def on_gpio_def gp_is_def split: prod.splits)

lemma performs_handle_bmc_rstmon:
  "performs (gp_is md t) gp_trace (handle_bmc_rstmon (pilot_modules (traced S))) (bmc_script md t)"
proof -
  let ?b = "[drive_pin BMC_CPU_RST_N High] @ [Cmd ALARM_DRIVER_NUMBER 5 t 0]"
  have "performs (gp_is md t) gp_trace (handle_bmc_rstmon (pilot_modules (traced S)))
     ([drive_pin BMC_CPU_RST_N Low] @ [passthrough False] @ transfer [0xb7] 1 @ read_request 0
      @ transfer (case md of ThreeByte \<Rightarrow> [0xe9] | FourByte \<Rightarrow> [0xb7]) 1
      @ [Cmd DEVICE_DRIVER_NUMBER 3 (usize_from_AddressMode md) 0] @ [passthrough True] @ [] @ ?b)"
    unfolding handle_bmc_rstmon_def set_bmc_cpu_rst_def pilot_modules_def BmcModules.simps if_True if_False
    by (intro performs_bind performs_on_modules performs_pin performs_passthrough performs_enter_4b performs_read_and_print_data
        performs_restore performs_restore_mode performs_clear_event performs_set_alarm [unfolded pilot_modules_def])
  then show ?thesis
    by (simp add: bmc_script_def)
qed

text \<open>The level of the reset pin of the BMC after a log.\<close>

definition cpu_level :: "sys_event list \<Rightarrow> GpioValue option" where
  "cpu_level l = fold (\<lambda>ev c. if ev = drive_pin BMC_CPU_RST_N High then Some High else if ev = drive_pin BMC_CPU_RST_N Low then Some Low else c) l None"

lemma cpu_level_append:
  "cpu_level (l @ l') = (if drive_pin BMC_CPU_RST_N High \<in> set l' \<or> drive_pin BMC_CPU_RST_N Low \<in> set l' then cpu_level l' else cpu_level l)"
proof (induction l' rule: rev_induct)
  case (snoc ev l')
  then show ?case
    by (auto simp: cpu_level_def)
qed simp

lemma drive_pin_distinct [simp]:
  "drive_pin pin v \<noteq> passthrough b" "drive_pin pin v \<notin> set (transfer buf len)" "drive_pin pin High \<noteq> drive_pin pin Low" "drive_pin pin Low \<noteq> drive_pin pin High"
  "drive_pin pin v \<noteq> Cmd DEVICE_DRIVER_NUMBER n a b'" "drive_pin pin v \<noteq> Cmd ALARM_DRIVER_NUMBER n a b'" "drive_pin pin v \<notin> set (read_request addr)"
  by (auto simp: drive_pin_def passthrough_def transfer_def read_request_def pilot_driver_numbers split: GpioValue.splits)

text \<open>On the way through the script the BMC is held in reset, from the first request until it is let go.\<close>

lemma bmc_script_holds:
  assumes "0 < n" and "n \<le> length (bmc_script mode ticks) - 2"
  shows "cpu_level (l @ take n (bmc_script mode ticks)) = Some Low"
proof -
  let ?mid = "[passthrough False] @ transfer [0xb7] 1 @ read_request 0 @ transfer (case mode of ThreeByte \<Rightarrow> [0xe9] | FourByte \<Rightarrow> [0xb7]) 1
      @ [Cmd DEVICE_DRIVER_NUMBER 3 (usize_from_AddressMode mode) 0, passthrough True]"
  have script: "bmc_script mode ticks = drive_pin BMC_CPU_RST_N Low # ?mid @ [drive_pin BMC_CPU_RST_N High, Cmd ALARM_DRIVER_NUMBER 5 ticks 0]"
    by (simp add: bmc_script_def)
  then have "n \<le> Suc (length ?mid)"
    using assms(2) by simp
  then have take: "take n (bmc_script mode ticks) = drive_pin BMC_CPU_RST_N Low # take (n - 1) ?mid"
    using assms(1) by (simp only: script take_Cons') (simp add: take_Cons')
  have "drive_pin BMC_CPU_RST_N v \<notin> set ?mid" for v
    by simp
  then have "drive_pin BMC_CPU_RST_N v \<notin> set (take (n - 1) ?mid)" for v
    using in_set_takeD by fast
  then have "cpu_level ([drive_pin BMC_CPU_RST_N Low] @ take (n - 1) ?mid) = Some Low"
    unfolding cpu_level_append by (simp add: cpu_level_def)
  then show ?thesis
    unfolding take by (subst cpu_level_append) simp
qed

lemma bmc_script_level:
  assumes "n \<le> length (bmc_script mode ticks)"
  shows "cpu_level (l @ take n (bmc_script mode ticks)) =
    (if n = 0 then cpu_level l else if n \<le> length (bmc_script mode ticks) - 2 then Some Low else Some High)"
proof (cases "length (bmc_script mode ticks) - 2 < n")
  case True
  let ?released = "[drive_pin BMC_CPU_RST_N High, Cmd ALARM_DRIVER_NUMBER 5 ticks 0]"
  obtain held where script: "bmc_script mode ticks = held @ ?released"
    by (simp add: bmc_script_def)
  with True have "take n (bmc_script mode ticks) = held @ drive_pin BMC_CPU_RST_N High # take (n - length held - 1) (tl ?released)"
    by (simp add: take_Cons')
  moreover have "cpu_level (drive_pin BMC_CPU_RST_N High # take k (tl ?released)) = Some High" for k
    using drive_pin_distinct(6) [symmetric] by (cases k) (simp_all add: cpu_level_def)
  ultimately show ?thesis
    using True by (simp add: cpu_level_append flip: append_assoc)
qed (use bmc_script_holds in auto)

section \<open>Start-up\<close>

lemma performs_on_user_if:
  assumes "performs I user_trace (returning m) a"
  shows "performs (\<lambda>p. I (pl_user p)) trace (returning (on_user m)) a"
  using assms by (auto simp: performs_def on_user_def split: prod.splits)

definition keeps_kern :: "('k Userland \<Rightarrow> bool) \<Rightarrow> bool" where
  "keeps_kern I \<longleftrightarrow> (\<forall>u k. I u \<longrightarrow> I (u\<lparr>kern := k\<rparr>))"

lemma performs_device_message:
  assumes "keeps_kern I"
  shows "performs I user_trace (returning (with_write_share (traced S) DEVICE_DRIVER_NUMBER 0 buf (ignore_result (command (traced S) DEVICE_DRIVER_NUMBER n 0 0))))
    [Share DEVICE_DRIVER_NUMBER 0 buf, Cmd DEVICE_DRIVER_NUMBER n 0 0]"
proof -
  have "performs I user_trace (returning (ignore_result (command (traced S) DEVICE_DRIVER_NUMBER n 0 0))) [Cmd DEVICE_DRIVER_NUMBER n 0 0]"
    using assms by (intro performs_ignore performs_command) (auto simp: driver_numbers keeps_kern_def)
  from performs_with_write_share [OF _ _ this] show ?thesis
    using assms by (auto simp: driver_numbers keeps_kern_def)
qed

lemma configure_addresses_message:
  "SpiDevice_configure_addresses S c = with_write_share S DEVICE_DRIVER_NUMBER 0 (concat (AddressConfig_enc c))
     (ignore_result (command S DEVICE_DRIVER_NUMBER 8 0 0))"
proof -
  have "AddressConfig_to_wire Cursor_write_bytes c (Cursor_new (replicate ADDRESS_CONFIG_LEN 0))
      = (Ok (), \<lparr>cur_buf = concat (AddressConfig_enc c), cursor = ADDRESS_CONFIG_LEN\<rparr>)"
    by (simp add: AddressConfig_to_wire_def write_be_u32_def to_io_def eff_bind_def Cursor_write_bytes_def Cursor_consume_def
        Cursor_new_def AddressConfig_enc_def ADDRESS_CONFIG_LEN_def ret_def Let_def)
  then show ?thesis
    by (simp add: SpiDevice_configure_addresses_def)
qed

lemma main_sfdp_Ok: "fst (main_sfdp m) = Ok ()"
  by (simp add: main_sfdp_def get_table_def Let_def)

definition setup_script :: "AddressMode \<Rightarrow> sys_event list" where
  "setup_script mode =
     [Cmd DEVICE_DRIVER_NUMBER 5 2 0,
      Share DEVICE_DRIVER_NUMBER 0 (concat (AddressConfig_enc main_address_config)), Cmd DEVICE_DRIVER_NUMBER 8 0 0,
      Share DEVICE_DRIVER_NUMBER 0 JEDEC_ID, Cmd DEVICE_DRIVER_NUMBER 6 0 0,
      Share DEVICE_DRIVER_NUMBER 0 (snd (main_sfdp mode)), Cmd DEVICE_DRIVER_NUMBER 7 0 0,
      passthrough True]"

definition in_mode :: "AddressMode \<Rightarrow> 'k Userland \<Rightarrow> bool" where
  "in_mode m u \<longleftrightarrow> address_mode (ul_device u) = m"

lemma in_mode_kern [simp]: "keeps_kern (in_mode m)"
  by (simp add: keeps_kern_def in_mode_def)

lemma performs_setup_device:
  "performs (\<lambda>p. in_mode md (pl_user p)) trace (returning (setup_device (traced S))) (butlast (setup_script md))"
proof -
  let ?I = "\<lambda>p. in_mode md (pl_user p)"
  let ?msg = "\<lambda>buf n. [Share DEVICE_DRIVER_NUMBER 0 buf, Cmd DEVICE_DRIVER_NUMBER n 0 0]"
  have a: "performs ?I trace (returning (on_user (SpiDevice_set_address_mode_handling (traced S) KernelSpace))) [Cmd DEVICE_DRIVER_NUMBER 5 2 0]"
    unfolding SpiDevice_set_address_mode_handling_def usize_from_HandlerMode.simps
    by (intro performs_on_user_if performs_ignore performs_command) (auto simp: driver_numbers in_mode_def)
  have b: "performs ?I trace (returning (on_user (SpiDevice_configure_addresses (traced S) main_address_config)))
      (?msg (concat (AddressConfig_enc main_address_config)) 8)"
    unfolding configure_addresses_message by (intro performs_on_user_if performs_device_message in_mode_kern)
  have c: "performs ?I trace (returning (on_user (SpiDevice_set_jedec_id (traced S) JEDEC_ID))) (?msg JEDEC_ID 6)"
    unfolding SpiDevice_set_jedec_id_def by (intro performs_on_user_if performs_device_message in_mode_kern)
  have d: "performs ?I trace (returning (on_user (SpiDevice_set_sfdp (traced S) (snd (main_sfdp md))))) (?msg (snd (main_sfdp md)) 7)"
    unfolding SpiDevice_set_sfdp_def by (intro performs_on_user_if performs_device_message in_mode_kern)
  have e: "performs ?I trace (returning (\<lambda>p. case main_sfdp (get_address_mode (pilot_device (traced S)) p) of
         (Ok _, sfdp) \<Rightarrow> on_user (SpiDevice_set_sfdp (traced S) sfdp) p
       | (Err _, _) \<Rightarrow> (Err FormatError, p) | (Panic, _) \<Rightarrow> (Panic, p))) (?msg (snd (main_sfdp md)) 7)"
  proof (rule performsI)
    fix p r p'
    assume p: "?I p" and eq: "returning (\<lambda>p. case main_sfdp (get_address_mode (pilot_device (traced S)) p) of
         (Ok _, sfdp) \<Rightarrow> on_user (SpiDevice_set_sfdp (traced S) sfdp) p
       | (Err _, _) \<Rightarrow> (Err FormatError, p) | (Panic, _) \<Rightarrow> (Panic, p)) p = Some (r, p')"
    obtain t where t: "main_sfdp md = (Ok (), t)"
      using main_sfdp_Ok [of md] by (cases "main_sfdp md") auto
    have "get_address_mode (pilot_device (traced S)) p = md"
      using p by (simp add: pilot_device_def user_device_def in_mode_def)
    with eq t have "returning (on_user (SpiDevice_set_sfdp (traced S) (snd (main_sfdp md)))) p = Some (r, p')"
      by simp
    from performsD [OF d p this] show "?I p' \<and> follows (?msg (snd (main_sfdp md)) 7) (trace p) r (trace p')"
      by simp
  qed
  have "performs ?I trace (returning (setup_device (traced S))) ([Cmd DEVICE_DRIVER_NUMBER 5 2 0]
      @ ?msg (concat (AddressConfig_enc main_address_config)) 8 @ ?msg JEDEC_ID 6 @ ?msg (snd (main_sfdp md)) 7)"
    unfolding setup_device_def by (intro performs_eff_bind a b c e)
  then show ?thesis
    by (simp add: setup_script_def)
qed

text \<open>Before the device is set up no GPIO pin is driven.\<close>

definition not_gpio :: "sys_event \<Rightarrow> bool" where
  "not_gpio ev \<longleftrightarrow> ev_driver ev \<noteq> GPIO_DRIVER_NUMBER"

definition pins_untouched :: "('k \<times> sys_event list) Pilot \<Rightarrow> ('k \<times> sys_event list) Pilot \<Rightarrow> bool" where
  "pins_untouched p p' \<longleftrightarrow> log_grows not_gpio (trace p) (trace p')"

lemma pins_untouched_order [simp]: "reflp pins_untouched" "transp pins_untouched"
  using log_grows_trans by (auto intro!: reflpI transpI simp: pins_untouched_def)

lemma follows_log_grows: "\<lbrakk>follows evs l r l'; \<forall>ev\<in>set evs. D ev\<rbrakk> \<Longrightarrow> log_grows D l l'"
  by (auto simp: follows_def log_grows_def dest: in_set_takeD)

lemma performs_moves: "\<lbrakk>performs (\<lambda>_. True) trace m evs; \<forall>ev\<in>set evs. not_gpio ev\<rbrakk> \<Longrightarrow> moves pins_untouched m"
  by (auto simp: moves_def pins_untouched_def performs_def intro: follows_log_grows)

lemma script_not_gpio [simp]: "\<forall>ev\<in>set (transfer buf len). not_gpio ev" "\<forall>ev\<in>set (read_request a). not_gpio ev" "not_gpio (passthrough b)"
  by (auto simp: transfer_def read_request_def passthrough_def not_gpio_def pilot_driver_numbers)

lemma demo_untouched: "moves pins_untouched (run_host_helper_demo (traced S))"
proof -
  note ms = performs_moves [OF performs_exit_4b] performs_moves [OF performs_enter_4b] performs_moves [OF performs_read_and_print_data]
    performs_moves [OF performs_passthrough]
  have "moves pins_untouched (\<lambda>p. if get_address_mode (pilot_device (traced S)) p = ThreeByte then exit_4b (pilot_host (traced S)) p else Some (Ok (), p))"
    using ms(1) by (auto simp: moves_def reflpD [OF pins_untouched_order(1)])
  with ms(2-4) show ?thesis
    unfolding run_host_helper_demo_def by (intro moves_bind pins_untouched_order(2)) simp_all
qed

lemma flash_calls_silent:
  "command (traced S) FLASH_DRIVER_NUMBER n a b u = (r, u') \<Longrightarrow> user_trace u' = user_trace u"
  "allow (traced S) FLASH_DRIVER_NUMBER n buf u = (x, u') \<Longrightarrow> user_trace u' = user_trace u"
  by (auto simp: command_def allow_def traced_def note_event_def split: prod.splits option.splits)

lemma unallow_silent: "sys_unallow (traced S) d n k = (buf, k') \<Longrightarrow> snd k' = snd k"
  by (auto simp: traced_def split: prod.splits)

lemma with_flash_share_silent:
  assumes "with_share (traced S) FLASH_DRIVER_NUMBER n buf body u = (x, u')" and "\<And>u r u'. body u = (r, u') \<Longrightarrow> user_trace u' = user_trace u"
  shows "user_trace u' = user_trace u"
proof (cases "allow (traced S) FLASH_DRIVER_NUMBER n buf u")
  case (Pair r u1)
  note u1 = flash_calls_silent(2) [OF Pair]
  show ?thesis
  proof (cases r)
    case (Ok a)
    with assms(1) Pair obtain r2 u2 k where "body u1 = (r2, u2)" "sys_unallow (traced S) FLASH_DRIVER_NUMBER n (kern u2) = (snd x, k)" "u' = u2\<lparr>kern := k\<rparr>"
      by (auto simp: with_share_def split: prod.splits)
    with assms(2) unallow_silent u1 show ?thesis
      by (metis Userland.select_convs(5) Userland.surjective Userland.update_convs(5))
  qed (use assms(1) Pair u1 in \<open>auto simp: with_share_def\<close>)
qed

lemma flash_read_silent: "trace (snd (u_read (pilot_flash (traced S)) a b n p)) = trace p"
  by (auto simp: pilot_flash_def on_user_def UserFlash_read_def split: prod.splits dest!: with_flash_share_silent flash_calls_silent(1))

lemma store_build_info_silent: "trace (snd (store_build_info (pilot_flash (traced S)) seg buf p)) = trace p"
  using flash_read_silent [of S]
  by (auto simp: store_build_info_def get_build_info_def split: prod.splits option.splits outcome.splits) (metis snd_conv)+

lemma dev_id_untouched: "moves pins_untouched (returning (on_user (get_dev_id (traced S))))"
proof -
  have note_ev: "log_grows not_gpio l (note_event b ev l)" if "not_gpio ev" for b ev l
    using that by (simp add: note_event_def log_grows_one)
  have calls: "allow (traced S) FUSE_DRIVER_NUMBER n buf u = (x, u') \<Longrightarrow> log_grows not_gpio (user_trace u) (user_trace u')"
    "command (traced S) FUSE_DRIVER_NUMBER n a b u = (y, u') \<Longrightarrow> log_grows not_gpio (user_trace u) (user_trace u')" for n buf u x u' a b y
    by (auto simp: command_def allow_def traced_def not_gpio_def pilot_driver_numbers intro!: note_ev split: prod.splits option.splits)
  have share: "log_grows not_gpio (user_trace u) (user_trace u')"
    if "with_share (traced S) FUSE_DRIVER_NUMBER n buf (command (traced S) FUSE_DRIVER_NUMBER c a b) u = (x, u')" for n buf c a b u u' x
  proof (cases "allow (traced S) FUSE_DRIVER_NUMBER n buf u")
    case (Pair r u1)
    note u1 = calls(1) [OF Pair]
    show ?thesis
    proof (cases r)
      case (Ok a')
      with that Pair obtain r2 u2 k where u2: "command (traced S) FUSE_DRIVER_NUMBER c a b u1 = (r2, u2)"
          and k: "sys_unallow (traced S) FUSE_DRIVER_NUMBER n (kern u2) = (snd x, k)" "u' = u2\<lparr>kern := k\<rparr>"
        by (auto simp: with_share_def split: prod.splits)
      from log_grows_trans [OF u1 calls(2) [OF u2]] unallow_silent [OF k(1)] k(2) show ?thesis
        by simp
    qed (use that Pair u1 in \<open>auto simp: with_share_def\<close>)
  qed
  have "log_grows not_gpio (user_trace u) (user_trace u')" if "get_dev_id (traced S) u = (r, u')" for u r u'
  proof -
    obtain x u1 where x: "with_share (traced S) FUSE_DRIVER_NUMBER 0 (replicate 8 0) (command (traced S) FUSE_DRIVER_NUMBER 1 0 0) u = (x, u1)"
      by (cases "with_share (traced S) FUSE_DRIVER_NUMBER 0 (replicate 8 0) (command (traced S) FUSE_DRIVER_NUMBER 1 0 0) u")
    have "u' = u1"
      using that x by (auto simp: get_dev_id_def read_shared_def eff_bind_def BE_read_def ret_def panic_def split: prod.splits outcome.splits if_splits)
    with share [OF x] show ?thesis
      by simp
  qed
  then show ?thesis
    by (auto simp: moves_def pins_untouched_def on_user_def split: prod.splits)
qed

lemma identity_untouched: "moves pins_untouched (returning (make_identity (traced S) banner))"
proof (rule movesI)
  fix p r p'
  assume eq: "returning (make_identity (traced S) banner) p = Some (r, p')"
  let ?st = "\<lambda>seg q. store_build_info (pilot_flash (traced S)) seg (replicate 32 0) q"
  let ?p1 = "snd (?st (active_ro (ul_segments (pl_user p))) p)"
  let ?p2 = "snd (?st (active_rw (ul_segments (pl_user p))) ?p1)"
  obtain d q where d: "on_user (get_dev_id (traced S)) ?p2 = (d, q)"
    by (cases "on_user (get_dev_id (traced S)) ?p2")
  have "p' = q"
    using eq d by (auto simp: make_identity_def Let_def eff_bind_def ret_def case_prod_unfold split: outcome.splits)
  moreover have "pins_untouched ?p2 q"
    using dev_id_untouched [of S] d by (auto simp: moves_def)
  moreover have "trace ?p2 = trace p"
    by (simp only: store_build_info_silent)
  ultimately show "pins_untouched p p'"
    by (simp add: pins_untouched_def)
qed

lemma prepare_trace:
  assumes "prepare (traced S) banner p = Some (r, p')"
  shows "\<exists>early. (\<forall>ev\<in>set early. not_gpio ev) \<and>
     (if is_ok r then \<exists>mode. trace p' = trace p @ early @ setup_script mode else trace p' = trace p @ early)"
proof -
  let ?configure = "\<lambda>(identity :: Identity, g :: GpioProcessor). peff_bind (returning (setup_device (traced S))) (\<lambda>_.
    peff_bind (returning (set_passthrough (pilot_host_h1 (traced S)) True)) (\<lambda>_. returning (ret (identity, g))))"
  let ?pre = "peff_bind (run_host_helper_demo (traced S)) (\<lambda>_. returning (make_identity (traced S) banner))"
  have pre: "moves pins_untouched ?pre"
    by (intro moves_bind pins_untouched_order(2) demo_untouched identity_untouched)
  obtain r1 p1 where p1: "?pre p = Some (r1, p1)"
    using assms by (auto simp: prepare_def peff_bind_def split: option.splits prod.splits outcome.splits)
  then have "pins_untouched p p1"
    using pre unfolding moves_def by blast
  then obtain early where early: "trace p1 = trace p @ early" "\<forall>ev\<in>set early. not_gpio ev"
    by (auto simp: pins_untouched_def log_grows_def)
  show ?thesis
  proof (cases r1)
    case (Ok identity)
    define g where "g = GpioProcessor_new (pilot_modules (traced S)) p1"
    have eq: "?configure (identity, g) p1 = Some (r, p')"
      using assms p1 Ok by (auto simp: prepare_def peff_bind_def Let_def g_def split: option.splits prod.splits outcome.splits)
    define md where "md = address_mode (ul_device (pl_user p1))"
    let ?I = "\<lambda>p. in_mode md (pl_user p)"
    have thru: "performs ?I trace (returning (set_passthrough (pilot_host_h1 (traced S)) True)) [passthrough True]"
      by (simp add: pilot_host_h1_def SpiHostH1_set_passthrough_def passthrough_def)
        (intro performs_on_user_if performs_ignore performs_command; simp add: driver_numbers in_mode_def)
    have "performs ?I trace (?configure (identity, g)) (butlast (setup_script md) @ [passthrough True] @ [])"
      unfolding prod.case by (intro performs_bind performs_setup_device thru performs_ret)
    moreover have "butlast (setup_script md) @ [passthrough True] @ [] = setup_script md"
      by (simp add: setup_script_def)
    ultimately have f: "follows (setup_script md) (trace p1) r (trace p')"
      using performsD(2) [of ?I trace "?configure (identity, g)" _ p1] eq by (simp add: in_mode_def md_def)
    show ?thesis
    proof (cases "is_ok r")
      case True
      with f early show ?thesis
        by (intro exI [of _ early]) (auto simp: follows_def)
    next
      case False
      have "\<forall>ev\<in>set (setup_script md). not_gpio ev"
        by (auto simp: setup_script_def not_gpio_def passthrough_def pilot_driver_numbers)
      from follows_log_grows [OF f this] obtain more' where "trace p' = trace p1 @ more'" "\<forall>ev\<in>set more'. not_gpio ev"
        by (auto simp: log_grows_def)
      with False early show ?thesis
        by (intro exI [of _ "early @ more'"]) auto
    qed
  next
    case (Err e)
    with assms p1 have "p' = p1" "r = Err e"
      by (auto simp: prepare_def peff_bind_def split: option.splits prod.splits outcome.splits)
    with early show ?thesis
      by auto
  next
    case Panic
    with assms p1 have "p' = p1" "r = Panic"
      by (auto simp: prepare_def peff_bind_def split: option.splits prod.splits outcome.splits)
    with early show ?thesis
      by auto
  qed
qed

section \<open>Properties\<close>

text \<open>
  A kernel that grants every request and finishes every transaction at once.
\<close>

definition kind_kernel :: "unit Syscalls" where
  "kind_kernel = \<lparr>sys_command = (\<lambda>_ _ _ _ k. (Some 0, k)), sys_subscribe = (\<lambda>_ _ k. (True, k)), sys_allow = (\<lambda>_ _ _ k. (True, k)),
     sys_shared = (\<lambda>_ _ _. replicate 128 0), sys_unallow = (\<lambda>_ _ k. (replicate 8 0, k)),
     sys_yield = (\<lambda>k. Some (\<lparr>up_driver = HOST_DRIVER_NUMBER, up_nr = 0, up_arg1 = 0, up_arg2 = 0, up_arg3 = 0\<rparr>, k))\<rparr>"

definition demo_gpio_processor :: GpioProcessor where
  "demo_gpio_processor = \<lparr>ignore_bmc_rstmon_n_events = False, initial_address_mode = ThreeByte, alarm_ticks = 62\<rparr>"

lemma kind_wait: "pilot_yield_until (traced kind_kernel) (\<lambda>p. read_write_done (ul_host (pl_user p))) p
    = Some (p\<lparr>pl_user := (pl_user p)\<lparr>ul_host := (ul_host (pl_user p))\<lparr>read_write_done := True\<rparr>\<rparr>\<rparr>)"
proof -
  have "((), trace p) = kern (pl_user p)"
    by (simp add: prod_eq_iff)
  then have "(pl_user p)\<lparr>kern := ((), trace p)\<rparr> = pl_user p"
    by (cases "pl_user p") simp
  then have y: "pilot_yieldk (traced kind_kernel) p = Some (p\<lparr>pl_user := (pl_user p)\<lparr>ul_host := (ul_host (pl_user p))\<lparr>read_write_done := True\<rparr>\<rparr>\<rparr>)"
    by (simp add: pilot_yieldk_def traced_def kind_kernel_def pilot_dispatch_def dispatch_def SpiHost_read_write_done_def
        pilot_driver_numbers case_prod_unfold)
  show ?thesis
    by (subst pilot_yield_until.simps, cases "read_write_done (ul_host (pl_user p))") (simp_all add: y pilot_yield_until.simps)
qed

lemma kind_calls:
  "command (traced kind_kernel) d n a b u = (Ok 0, u\<lparr>kern := ((), note_event True (Cmd d n a b) (user_trace u))\<rparr>)"
  "subscribe (traced kind_kernel) d n u = (Ok (), u\<lparr>kern := ((), note_event True (Subscr d n) (user_trace u))\<rparr>)"
  "allow (traced kind_kernel) d n buf u = (Ok (), u\<lparr>kern := ((), note_event True (Share d n buf) (user_trace u))\<rparr>)"
  "sys_unallow (traced kind_kernel) d n k = (replicate 8 0, k)"
  "sys_shared (traced kind_kernel) d n k = replicate 128 0"
  by (auto simp: command_def subscribe_def allow_def traced_def kind_kernel_def split: prod.splits)

text \<open>With it every request of the modules succeeds.\<close>

definition succeeds :: "('s, 'e, 'a) peff \<Rightarrow> bool" where
  "succeeds m \<longleftrightarrow> (\<forall>s. \<exists>a s'. m s = Some (Ok a, s'))"

lemma succeeds_bind: "\<lbrakk>succeeds m; \<And>a. succeeds (f a)\<rbrakk> \<Longrightarrow> succeeds (peff_bind m f)"
  unfolding succeeds_def by (metis peff_bind_Ok)

lemma succeeds_on_modules: "succeeds m \<Longrightarrow> succeeds (on_modules m)"
  by (fastforce simp: succeeds_def on_modules_def)

lemma succeeds_transfer: "succeeds (returning (read_write_bytes (pilot_host (traced kind_kernel)) buf len))"
  by (simp add: succeeds_def pilot_host_def on_user_def SpiHost_read_write_bytes_def with_write_share_def with_share_def
      eff_bind_def ignore_result_def ret_def kind_calls)

lemma succeeds_wait: "succeeds (wait_done (pilot_host (traced kind_kernel)))"
  by (simp add: succeeds_def wait_done_def pilot_host_def kind_wait)

lemma succeeds_requests:
  "succeeds (returning (set_passthrough (pilot_host_h1 (traced kind_kernel)) b))"
  "succeeds (returning (gc_set (pilot_gpio (traced kind_kernel)) pin v))"
  "succeeds (returning (al_set (pilot_alarm (traced kind_kernel)) t))"
  "succeeds (returning (on_user (SpiDevice_set_address_mode (traced kind_kernel) m)))"
  by (simp_all add: succeeds_def pilot_host_h1_def pilot_gpio_def pilot_alarm_def on_user_def SpiHostH1_set_passthrough_def
      GpioImpl_write_def AlarmImpl_set_def SpiDevice_set_address_mode_def pcommand_def modify_pl_def on_alarm_def eff_bind_def ignore_result_def ret_def kind_calls)

lemma succeeds_4b: "succeeds (enter_4b (pilot_host (traced kind_kernel)))" "succeeds (exit_4b (pilot_host (traced kind_kernel)))"
  unfolding enter_4b_def exit_4b_def by (intro succeeds_bind succeeds_transfer succeeds_wait)+

lemma succeeds_read: "succeeds (read_and_print_data (pilot_host (traced kind_kernel)) addr)"
  by (simp add: succeeds_def read_and_print_data_def helper_read_data_def create_tx_buf_def peff_bind_def wait_done_def pilot_host_def
      on_user_def SpiHost_read_write_bytes_def SpiHost_get_read_buffer_def with_write_share_def with_share_def
      eff_bind_def ignore_result_def ret_def kind_calls kind_wait)

lemma succeeds_set_alarm: "succeeds (set_alarm (pilot_modules (traced kind_kernel)))"
  using succeeds_on_modules [OF succeeds_requests(3)] by (auto simp: succeeds_def set_alarm_def pilot_modules_def split: prod.splits)

lemma succeeds_handle_bmc_rstmon: "succeeds (handle_bmc_rstmon (pilot_modules (traced kind_kernel)))"
proof -
  have look: "(\<And>q. succeeds (F q)) \<Longrightarrow> succeeds (\<lambda>gs. F gs gs)" for F :: "'x \<Rightarrow> ('x, TockError, unit) peff"
    by (simp add: succeeds_def)
  have mode: "succeeds (\<lambda>gs. on_modules (case initial_address_mode (fst gs) of
      ThreeByte \<Rightarrow> exit_4b (pilot_host (traced kind_kernel)) | FourByte \<Rightarrow> enter_4b (pilot_host (traced kind_kernel))) gs)"
    by (rule look) (simp add: succeeds_4b succeeds_on_modules split: AddressMode.split)
  have set_mode: "succeeds (\<lambda>gs. on_modules (returning (on_user (SpiDevice_set_address_mode (traced kind_kernel) (initial_address_mode (fst gs))))) gs)"
    by (rule look) (intro succeeds_on_modules succeeds_requests)
  have clear: "succeeds (gp_query f)" for f :: "'a \<Rightarrow> bool \<times> 'a"
    by (simp add: succeeds_def gp_query_def case_prod_unfold)
  show ?thesis
    unfolding handle_bmc_rstmon_def set_bmc_cpu_rst_def if_True if_False
    by (intro succeeds_bind succeeds_set_alarm)
      (simp_all only: pilot_modules_def BmcModules.simps mode set_mode clear succeeds_on_modules succeeds_4b succeeds_read succeeds_requests)
qed

text \<open>C12. A reset of the BMC is handled in a fixed order: the reset of its processor is asserted, the pass-through is switched off,
  the flash chip is read over the SPI host and brought back to the initial address mode, the pass-through is switched on and
  only then the reset is let go and the alarm set. Whatever the kernel refuses and whatever callbacks come in between, the
  application has done exactly a prefix of this, all of it when it reports success. So when the kernel refuses the very
  first request nothing has changed, when it refuses one of those in between the reset stays asserted, and when it refuses
  only the last, the alarm, the reset has been let go.
\<close>

theorem bmc_reset_fail_safe:
  assumes "handle_bmc_rstmon (pilot_modules (traced S)) (g, p) = Some (r, g', p')"
  shows "let script = bmc_script (initial_address_mode g) (alarm_ticks g) in
    \<exists>n\<le>length script. trace p' = trace p @ take n script \<and> (is_ok r \<longrightarrow> n = length script)
      \<and> (\<not> is_ok r \<and> \<not> is_panic r \<longrightarrow> n < length script)
      \<and> cpu_level (trace p') = (if n = 0 then cpu_level (trace p) else if n \<le> length script - 2 then Some Low else Some High)"
proof -
  let ?script = "bmc_script (initial_address_mode g) (alarm_ticks g)"
  have "gp_is (initial_address_mode g) (alarm_ticks g) (g, p)"
    by (simp add: gp_is_def)
  from performsD(2) [OF performs_handle_bmc_rstmon this assms] obtain n where
    n: "n \<le> length ?script" "trace p' = trace p @ take n ?script" "is_ok r \<longrightarrow> n = length ?script" "\<not> is_ok r \<and> \<not> is_panic r \<longrightarrow> n < length ?script"
    by (auto simp: follows_def)
  with bmc_script_level [OF n(1), of "trace p"] show ?thesis
    unfolding Let_def by (intro exI [of _ n]) simp
qed

theorem bmc_reset_fail_safe_witness:
  "\<exists>g' p'. handle_bmc_rstmon (pilot_modules (traced kind_kernel)) (demo_gpio_processor, fresh_pilot ((), [])) = Some (Ok (), g', p')
     \<and> trace p' = bmc_script ThreeByte 62"
proof -
  obtain g' p' where eq: "handle_bmc_rstmon (pilot_modules (traced kind_kernel)) (demo_gpio_processor, fresh_pilot ((), [])) = Some (Ok (), g', p')"
    using succeeds_handle_bmc_rstmon by (force simp: succeeds_def)
  have "trace p' = bmc_script ThreeByte 62"
    using bmc_reset_fail_safe [OF eq] by (simp add: Let_def demo_gpio_processor_def fresh_pilot_def Userland_new_def)
  with eq show ?thesis
    by blast
qed

lemma succeeds_identity: "succeeds (returning (make_identity (traced kind_kernel) banner))"
  unfolding succeeds_def
proof
  fix p
  let ?p1 = "snd (store_build_info (pilot_flash (traced kind_kernel)) (active_ro (ul_segments (pl_user p))) (replicate 32 0) p)"
  let ?p2 = "snd (store_build_info (pilot_flash (traced kind_kernel)) (active_rw (ul_segments (pl_user p))) (replicate 32 0) ?p1)"
  obtain v q where "on_user (get_dev_id (traced kind_kernel)) ?p2 = (Ok v, q)"
    by (simp add: on_user_def get_dev_id_def read_shared_def with_share_def eff_bind_def BE_read_def ret_def kind_calls)
  then show "\<exists>a s'. returning (make_identity (traced kind_kernel) banner) p = Some (Ok a, s')"
    by (simp add: make_identity_def Let_def case_prod_unfold eff_bind_def ret_def)
qed

lemma succeeds_setup: "succeeds (returning (setup_device (traced kind_kernel)))"
proof -
  have msg: "\<exists>s'. with_write_share (traced kind_kernel) d n buf (ignore_result (command (traced kind_kernel) d' n' a b)) s = (Ok (), s')" for d n buf d' n' a b s
    by (simp add: with_write_share_def with_share_def eff_bind_def ignore_result_def ret_def kind_calls)
  have s: "\<exists>s'. on_user (SpiDevice_set_address_mode_handling (traced kind_kernel) m) s = (Ok (), s')"
    "\<exists>s'. on_user (SpiDevice_configure_addresses (traced kind_kernel) c) s = (Ok (), s')"
    "\<exists>s'. on_user (SpiDevice_set_jedec_id (traced kind_kernel) d) s = (Ok (), s')"
    "\<exists>s'. on_user (SpiDevice_set_sfdp (traced kind_kernel) d) s = (Ok (), s')" for m c d s
    using msg by (auto simp: on_user_def SpiDevice_set_address_mode_handling_def configure_addresses_message SpiDevice_set_jedec_id_def
        SpiDevice_set_sfdp_def ignore_result_def eff_bind_def ret_def kind_calls split: prod.splits) (metis prod.inject)+
  have t: "\<exists>t. main_sfdp m = (Ok (), t)" for m
    using main_sfdp_Ok [of m] by (cases "main_sfdp m") auto
  show ?thesis
    unfolding succeeds_def
  proof
    fix p
    obtain p1 where p1: "on_user (SpiDevice_set_address_mode_handling (traced kind_kernel) KernelSpace) p = (Ok (), p1)"
      using s(1) by blast
    obtain p2 where p2: "on_user (SpiDevice_configure_addresses (traced kind_kernel) main_address_config) p1 = (Ok (), p2)"
      using s(2) by blast
    obtain p3 where p3: "on_user (SpiDevice_set_jedec_id (traced kind_kernel) JEDEC_ID) p2 = (Ok (), p3)"
      using s(3) by blast
    obtain t where t: "main_sfdp (get_address_mode (pilot_device (traced kind_kernel)) p3) = (Ok (), t)"
      using t by blast
    obtain p4 where p4: "on_user (SpiDevice_set_sfdp (traced kind_kernel) t) p3 = (Ok (), p4)"
      using s(4) by blast
    show "\<exists>a s'. returning (setup_device (traced kind_kernel)) p = Some (Ok a, s')"
      by (simp add: setup_device_def eff_bind_def p1 p2 p3 p4 t)
  qed
qed

lemma succeeds_demo: "succeeds (run_host_helper_demo (traced kind_kernel))"
proof -
  have "succeeds (\<lambda>p. if get_address_mode (pilot_device (traced kind_kernel)) p = ThreeByte then exit_4b (pilot_host (traced kind_kernel)) p
      else Some (Ok (), p))"
    using succeeds_4b(2) by (simp add: succeeds_def)
  then show ?thesis
    unfolding run_host_helper_demo_def by (intro succeeds_bind succeeds_4b succeeds_read succeeds_requests)
qed

lemma succeeds_prepare: "succeeds (prepare (traced kind_kernel) banner)"
proof -
  have "succeeds (peff_bind (returning (setup_device (traced kind_kernel))) (\<lambda>_.
       peff_bind (returning (set_passthrough (pilot_host_h1 (traced kind_kernel)) True)) (\<lambda>_.
       returning (ret x))))" for x :: "Identity \<times> GpioProcessor"
    by (intro succeeds_bind succeeds_setup succeeds_requests) (simp add: succeeds_def ret_def)
  then have "succeeds (\<lambda>p. let g = GpioProcessor_new (pilot_modules (traced kind_kernel)) p in
       peff_bind (returning (setup_device (traced kind_kernel))) (\<lambda>_.
       peff_bind (returning (set_passthrough (pilot_host_h1 (traced kind_kernel)) True)) (\<lambda>_.
       returning (ret (identity, g)))) p)" for identity :: Identity
    by (simp add: succeeds_def Let_def)
  then show ?thesis
    unfolding prepare_def by (intro succeeds_bind succeeds_demo succeeds_identity)
qed



end
