(* ===== verification/Uart.thy ===== *)
theory Uart
  imports Prelude
begin

text \<open>
  The UART driver of \<^verbatim>\<open>kernel/h1/src/uart.rs\<close>: transmission and reception through the FIFOs of the controller, in
  pieces, driven by interrupts. Callbacks are the last thing a handler does, so handlers return them as events.
\<close>

section \<open>Registers and state\<close>

text \<open>
  Of the controller the model has the registers the driver writes and both FIFOs: how many bytes fit into the transmit FIFO
  now, what was put into it, and what waits in the receive FIFO. Bit 0 of \<^verbatim>\<open>state\<close> is set when nothing fits, bit 7 when
  nothing waits. The controller drains and fills the FIFOs between two calls of the driver. \<open>ut_clock\<close> is the
  clock of the controller.
\<close>

record Uart =
  ut_nco :: u32
  ut_control :: u32
  ut_interrupt_control :: u32
  ut_interrupt_state :: u32
  ut_room :: nat
  ut_sent :: "byte list"
  ut_fifo :: "byte list"
  ut_clock :: bool
  ut_tx_buffer :: "byte list option"
  ut_tx_limit :: nat
  ut_tx_cursor :: nat
  ut_rx_buffer :: "byte list option"
  ut_rx_limit :: nat
  ut_rx_cursor :: nat
  ut_tx_client :: bool
  ut_rx_client :: bool

datatype uart_event = Transmitted "byte list" nat ReturnCode | Received "byte list" nat ReturnCode

definition enable_tx :: "Uart \<Rightarrow> Uart" where
  "enable_tx u = u\<lparr>ut_clock := True, ut_control := ut_control u OR 1\<rparr>"

definition disable_tx :: "Uart \<Rightarrow> Uart" where
  "disable_tx u = (let ctrl = ut_control u AND NOT 1; u = u\<lparr>ut_control := ctrl\<rparr> in
     if ctrl AND 3 = 0 then u\<lparr>ut_clock := False\<rparr> else u)"

definition enable_rx :: "Uart \<Rightarrow> Uart" where
  "enable_rx u = u\<lparr>ut_clock := True, ut_control := ut_control u OR 2, ut_interrupt_control := ut_interrupt_control u OR 2\<rparr>"

definition disable_rx :: "Uart \<Rightarrow> Uart" where
  "disable_rx u = (let ctrl = ut_control u AND NOT 2; u = u\<lparr>ut_control := ctrl\<rparr>;
       u = (if ctrl AND 3 = 0 then u\<lparr>ut_clock := False\<rparr> else u) in
     u\<lparr>ut_interrupt_control := ut_interrupt_control u AND NOT 2\<rparr>)"

definition clear_interrupt :: "u32 \<Rightarrow> Uart \<Rightarrow> Uart" where
  "clear_interrupt bits u = u\<lparr>ut_interrupt_state := ut_interrupt_state u AND NOT bits\<rparr>"

text \<open>Writing ones to \<^verbatim>\<open>state\<close> has no effect the driver relies on.\<close>

definition uart_config :: "u32 \<Rightarrow> Uart \<Rightarrow> Uart" where
  "uart_config baudrate u = clear_interrupt (NOT 0) (u\<lparr>ut_nco := (push_bit 14 1 * baudrate) div 375000\<rparr>)"

section \<open>Transmission\<close>

text \<open>The loop over the bytes that are left; it stops when the FIFO is full.\<close>

fun put_bytes_fifo :: "byte list \<Rightarrow> Uart \<Rightarrow> Uart" where
  "put_bytes_fifo [] u = u"
| "put_bytes_fifo (b # bs) u =
     (if ut_room u = 0 then u
      else put_bytes_fifo bs (u\<lparr>ut_tx_cursor := ut_tx_cursor u + 1, ut_sent := ut_sent u @ [b], ut_room := ut_room u - 1\<rparr>))"

definition send_remaining_bytes :: "(Uart, unit, int) eff" where
  "send_remaining_bytes u =
     (let enable = (\<lambda>u. u\<lparr>ut_interrupt_control := ut_interrupt_control u OR 1\<rparr>) in
      case ut_tx_buffer u of
        None \<Rightarrow> (Ok 0, enable u)
      | Some bytes \<Rightarrow>
          let init_cursor = ut_tx_cursor u; limit = ut_tx_limit u in
          if init_cursor = limit then (Ok (- 1), u)
          else if limit < init_cursor \<or> length bytes < limit then (Panic, u)
          else let u = put_bytes_fifo (drop init_cursor (take limit bytes)) u in
            (Ok (int (ut_tx_cursor u) - int init_cursor), enable u))"

definition handle_tx_interrupt :: "(Uart, unit, uart_event list) eff" where
  "handle_tx_interrupt u =
     eff_bind send_remaining_bytes (\<lambda>nwritten u.
       if nwritten = - 1 \<and> ut_tx_client u then
         (case ut_tx_buffer u of
            Some buf \<Rightarrow> (Ok [Transmitted buf (ut_tx_limit u) SUCCESS], u\<lparr>ut_tx_buffer := None\<rparr>)
          | None \<Rightarrow> (Ok [], u))
       else (Ok [], u)) (clear_interrupt 1 u)"

definition transmit_buffer :: "byte list \<Rightarrow> nat \<Rightarrow> (Uart, unit, ReturnCode \<times> byte list option) eff" where
  "transmit_buffer tx_buffer tx_len u =
     (if ut_tx_buffer u \<noteq> None then (Ok (EBUSY, Some tx_buffer), u)
      else eff_bind send_remaining_bytes (\<lambda>_. ret (SUCCESS, None))
        (u\<lparr>ut_tx_buffer := Some tx_buffer, ut_tx_cursor := 0, ut_tx_limit := tx_len\<rparr>))"

definition transmit_word :: "u32 \<Rightarrow> Uart \<Rightarrow> ReturnCode" where
  "transmit_word w u = FAIL"

definition transmit_abort :: "Uart \<Rightarrow> ReturnCode" where
  "transmit_abort u = (if ut_tx_buffer u \<noteq> None then FAIL else SUCCESS)"

definition set_transmit_client :: "Uart \<Rightarrow> Uart" where
  "set_transmit_client u = u\<lparr>ut_tx_client := True\<rparr>"

text \<open>
  The synchronous output for debugging busy-waits on the state register: \<open>tick\<close> is what the controller does
  between two reads, \<open>idle\<close> whether the transmitter reports that it is done.
\<close>

partial_function (option) wait_room :: "(Uart \<Rightarrow> Uart) \<Rightarrow> Uart \<Rightarrow> Uart option" where
  "wait_room tick u = (if ut_room u = 0 then wait_room tick (tick u) else Some u)"

partial_function (option) wait_idle :: "(Uart \<Rightarrow> Uart) \<Rightarrow> (Uart \<Rightarrow> bool) \<Rightarrow> Uart \<Rightarrow> Uart option" where
  "wait_idle tick idle u = (if idle u then Some u else wait_idle tick idle (tick u))"

fun send_all :: "(Uart \<Rightarrow> Uart) \<Rightarrow> byte list \<Rightarrow> Uart \<Rightarrow> Uart option" where
  "send_all tick [] u = Some u"
| "send_all tick (b # bs) u = Option.bind (wait_room tick u) (\<lambda>u. send_all tick bs (u\<lparr>ut_sent := ut_sent u @ [b], ut_room := ut_room u - 1\<rparr>))"

definition send_bytes_sync :: "(Uart \<Rightarrow> Uart) \<Rightarrow> (Uart \<Rightarrow> bool) \<Rightarrow> byte list \<Rightarrow> Uart \<Rightarrow> Uart option" where
  "send_bytes_sync tick idle bytes u = Option.bind (send_all tick bytes (enable_tx u)) (wait_idle tick idle)"

section \<open>Reception\<close>

definition purge_rx_fifo :: "Uart \<Rightarrow> Uart" where
  "purge_rx_fifo u = u\<lparr>ut_fifo := []\<rparr>"

text \<open>The loop that moves bytes from the FIFO to the buffer; a place outside the buffer would be a panic.\<close>

fun drain_fifo :: "byte list \<Rightarrow> byte list \<Rightarrow> Uart \<Rightarrow> (unit, byte list) outcome \<times> Uart" where
  "drain_fifo [] buf u = (Ok buf, u\<lparr>ut_fifo := []\<rparr>)"
| "drain_fifo (b # bs) buf u =
     (if ut_rx_cursor u < ut_rx_limit u then
        (if ut_rx_cursor u < length buf
         then drain_fifo bs (buf[ut_rx_cursor u := b]) (u\<lparr>ut_rx_cursor := ut_rx_cursor u + 1\<rparr>)
         else (Panic, u\<lparr>ut_fifo := bs\<rparr>))
      else (Ok buf, u\<lparr>ut_fifo := b # bs\<rparr>))"

definition read_rx_fifo :: "(Uart, unit, uart_event list) eff" where
  "read_rx_fifo u =
     (case ut_rx_buffer u of
        None \<Rightarrow> (Ok [], u)
      | Some buf \<Rightarrow>
          eff_bind (drain_fifo (ut_fifo u) buf) (\<lambda>buf u.
            let u = u\<lparr>ut_rx_buffer := Some buf\<rparr> in
            if 0 < ut_rx_limit u \<and> ut_rx_limit u \<le> ut_rx_cursor u \<and> ut_rx_client u
            then (Ok [Received buf (ut_rx_limit u) SUCCESS], u\<lparr>ut_rx_buffer := None\<rparr>)
            else (Ok [], u)) u)"

definition handle_rx_interrupt :: "(Uart, unit, uart_event list) eff" where
  "handle_rx_interrupt u = read_rx_fifo (clear_interrupt 2 u)"

definition set_receive_client :: "Uart \<Rightarrow> Uart" where
  "set_receive_client u = enable_rx (purge_rx_fifo (u\<lparr>ut_rx_client := True\<rparr>))"

definition receive_buffer :: "byte list \<Rightarrow> nat \<Rightarrow> (Uart, unit, (ReturnCode \<times> byte list option) \<times> uart_event list) eff" where
  "receive_buffer rx_buffer rx_len u =
     (if ut_rx_buffer u \<noteq> None then (Ok ((EBUSY, Some rx_buffer), []), u)
      else if length rx_buffer < rx_len then (Ok ((ENOMEM, Some rx_buffer), []), u)
      else eff_bind read_rx_fifo (\<lambda>evs. ret ((SUCCESS, None), evs))
        (u\<lparr>ut_rx_buffer := Some rx_buffer, ut_rx_cursor := 0, ut_rx_limit := rx_len\<rparr>))"

definition receive_word :: "Uart \<Rightarrow> ReturnCode" where
  "receive_word u = FAIL"

definition receive_abort :: "Uart \<Rightarrow> (ReturnCode \<times> uart_event list) \<times> Uart" where
  "receive_abort u =
     (case ut_rx_buffer u of
        Some buf \<Rightarrow> if ut_rx_client u then ((SUCCESS, [Received buf (ut_rx_limit u) ECANCEL]), u\<lparr>ut_rx_buffer := None\<rparr>) else ((SUCCESS, []), u)
      | None \<Rightarrow> ((SUCCESS, []), u))"

definition uart_configure :: "u32 \<Rightarrow> Uart \<Rightarrow> ReturnCode \<times> Uart" where
  "uart_configure baud_rate u = (SUCCESS, uart_config baud_rate u)"

section \<open>Transmission in pieces\<close>

lemma put_bytes_fifo_eq:
  "put_bytes_fifo bs u = (let n = min (ut_room u) (length bs) in
     u\<lparr>ut_tx_cursor := ut_tx_cursor u + n, ut_sent := ut_sent u @ take n bs, ut_room := ut_room u - n\<rparr>)"
  by (induction bs u rule: put_bytes_fifo.induct) (auto simp: Let_def min_def take_Cons')

text \<open>
  A run of occasions for a transmit interrupt, before each of which the controller has made room for some bytes. The handler runs
  when the driver has enabled the interrupt, bit 0 of the interrupt control register, and otherwise nothing happens.
\<close>

definition tx_enabled :: "Uart \<Rightarrow> bool" where
  "tx_enabled u \<longleftrightarrow> bit (ut_interrupt_control u) 0"

fun tx_interrupts :: "nat list \<Rightarrow> (Uart, unit, uart_event list) eff" where
  "tx_interrupts [] u = (Ok [], u)"
| "tx_interrupts (room # rooms) u =
     (let u = u\<lparr>ut_room := room\<rparr> in
      if tx_enabled u then eff_bind handle_tx_interrupt (\<lambda>evs. eff_bind (tx_interrupts rooms) (\<lambda>evs'. ret (evs @ evs'))) u
      else tx_interrupts rooms u)"

text \<open>The state of a transmission of \<open>len\<close> bytes of \<open>bs\<close>: the bytes up to the cursor have been sent.\<close>

definition sending :: "byte list \<Rightarrow> nat \<Rightarrow> byte list \<Rightarrow> Uart \<Rightarrow> bool" where
  "sending bs len before u \<longleftrightarrow> ut_tx_buffer u = Some bs \<and> ut_tx_limit u = len \<and> len \<le> length bs \<and> ut_tx_cursor u \<le> len
     \<and> ut_sent u = before @ take (ut_tx_cursor u) bs \<and> ut_tx_client u"

lemma take_drop_take: "c \<le> len \<Longrightarrow> take c bs @ take n (drop c (take len bs)) = take (min (c + n) len) bs"
  by (simp add: drop_take take_add [symmetric] min_def)

lemma send_remaining_sending:
  assumes "sending bs len before u" and "ut_tx_cursor u < len"
  obtains u' where "send_remaining_bytes u = (Ok (int (min (ut_room u) (len - ut_tx_cursor u))), u')" and "sending bs len before u'"
    and "ut_tx_cursor u' = ut_tx_cursor u + min (ut_room u) (len - ut_tx_cursor u)" and "tx_enabled u'"
proof -
  let ?n = "min (ut_room u) (len - ut_tx_cursor u)"
  let ?u = "put_bytes_fifo (drop (ut_tx_cursor u) (take len bs)) u"
  have u: "?u = u\<lparr>ut_tx_cursor := ut_tx_cursor u + ?n, ut_sent := ut_sent u @ take ?n (drop (ut_tx_cursor u) (take len bs)), ut_room := ut_room u - ?n\<rparr>"
    using assms by (simp add: put_bytes_fifo_eq Let_def sending_def)
  let ?v = "?u\<lparr>ut_interrupt_control := ut_interrupt_control ?u OR 1\<rparr>"
  have "sending bs len before ?v"
    using assms take_drop_take [of "ut_tx_cursor u" len bs ?n] by (simp add: u sending_def)
  moreover have "send_remaining_bytes u = (Ok (int ?n), ?v)" "ut_tx_cursor ?v = ut_tx_cursor u + ?n"
    using assms by (simp_all add: send_remaining_bytes_def sending_def u Let_def)
  moreover have "tx_enabled ?v"
    by (simp add: tx_enabled_def bit_or_iff)
  ultimately show thesis
    using that [of ?v] by simp
qed

lemma tx_interrupt_sending:
  assumes "sending bs len before u" and "ut_tx_cursor u < len"
  obtains u' where "handle_tx_interrupt u = (Ok [], u')" and "sending bs len before u'"
    and "ut_tx_cursor u' = ut_tx_cursor u + min (ut_room u) (len - ut_tx_cursor u)" and "tx_enabled u'"
proof -
  let ?u = "clear_interrupt 1 u"
  have "sending bs len before ?u" "ut_tx_cursor ?u < len" and eq: "ut_tx_cursor ?u = ut_tx_cursor u" "ut_room ?u = ut_room u"
    using assms by (simp_all add: sending_def clear_interrupt_def)
  then obtain u' where u': "send_remaining_bytes ?u = (Ok (int (min (ut_room u) (len - ut_tx_cursor u))), u')" "sending bs len before u'"
      "ut_tx_cursor u' = ut_tx_cursor u + min (ut_room u) (len - ut_tx_cursor u)" "tx_enabled u'"
    by (metis send_remaining_sending)
  moreover have "int (min (ut_room u) (len - ut_tx_cursor u)) \<noteq> - 1"
    by linarith
  ultimately show thesis
    using that [of u'] by (simp add: handle_tx_interrupt_def eff_bind_def)
qed

lemma tx_interrupt_last:
  assumes "sending bs len before u" and "ut_tx_cursor u = len"
  obtains u' where "handle_tx_interrupt u = (Ok [Transmitted bs len SUCCESS], u')" and "ut_tx_buffer u' = None"
    and "ut_sent u' = before @ take len bs"
  using assms that [of "(clear_interrupt 1 u)\<lparr>ut_tx_buffer := None\<rparr>"]
  by (simp add: handle_tx_interrupt_def eff_bind_def send_remaining_bytes_def sending_def clear_interrupt_def)

lemma tx_interrupt_idle:
  assumes "ut_tx_buffer u = None"
  obtains u' where "handle_tx_interrupt u = (Ok [], u')" and "ut_tx_buffer u' = None" and "ut_sent u' = ut_sent u"
  using assms that by (simp add: handle_tx_interrupt_def eff_bind_def send_remaining_bytes_def clear_interrupt_def)

lemma tx_interrupts_idle:
  assumes "ut_tx_buffer u = None"
  shows "\<exists>u'. tx_interrupts rooms u = (Ok [], u') \<and> ut_tx_buffer u' = None \<and> ut_sent u' = ut_sent u"
  using assms
proof (induction rooms arbitrary: u)
  case (Cons room rooms)
  have "ut_tx_buffer (u\<lparr>ut_room := room\<rparr>) = None"
    using Cons.prems by simp
  then obtain u1 where "handle_tx_interrupt (u\<lparr>ut_room := room\<rparr>) = (Ok [], u1)" "ut_tx_buffer u1 = None" "ut_sent u1 = ut_sent u"
    by (rule tx_interrupt_idle) simp
  with Cons.IH [of u1] Cons.IH [of "u\<lparr>ut_room := room\<rparr>"] Cons.prems show ?case
    by (auto simp: eff_bind_def ret_def Let_def)
qed simp

lemma tx_interrupts_sending:
  assumes "sending bs len before u" and "tx_enabled u"
  shows "\<exists>u' evs. tx_interrupts rooms u = (Ok evs, u') \<and>
     (evs = [] \<and> sending bs len before u' \<and> \<not> ((\<forall>room\<in>set rooms. 0 < room) \<and> len - ut_tx_cursor u < length rooms)
      \<or> evs = [Transmitted bs len SUCCESS] \<and> ut_tx_buffer u' = None \<and> ut_sent u' = before @ take len bs)"
  using assms
proof (induction rooms arbitrary: u)
  case (Cons room rooms)
  let ?u = "u\<lparr>ut_room := room\<rparr>"
  have u: "sending bs len before ?u" and on: "tx_enabled ?u"
    using Cons.prems by (simp_all add: sending_def tx_enabled_def)
  show ?case
  proof (cases "ut_tx_cursor ?u < len")
    case True
    then obtain u1 where u1: "handle_tx_interrupt ?u = (Ok [], u1)" "sending bs len before u1"
        "ut_tx_cursor u1 = ut_tx_cursor u + min room (len - ut_tx_cursor u)" "tx_enabled u1"
      using tx_interrupt_sending [OF u True] by auto
    obtain u' evs where u': "tx_interrupts rooms u1 = (Ok evs, u')"
        "evs = [] \<and> sending bs len before u' \<and> \<not> ((\<forall>room\<in>set rooms. 0 < room) \<and> len - ut_tx_cursor u1 < length rooms)
         \<or> evs = [Transmitted bs len SUCCESS] \<and> ut_tx_buffer u' = None \<and> ut_sent u' = before @ take len bs"
      using Cons.IH [OF u1(2,4)] by blast
    have "len - ut_tx_cursor u1 < length rooms" if "0 < room" "len - ut_tx_cursor u < length (room # rooms)"
      using that u1(3) True by (auto simp: min_def)
    with u1(1) u' on show ?thesis
      by (auto simp: eff_bind_def ret_def)
  next
    case False
    with u have "ut_tx_cursor ?u = len"
      by (simp add: sending_def)
    then obtain u1 where "handle_tx_interrupt ?u = (Ok [Transmitted bs len SUCCESS], u1)" "ut_tx_buffer u1 = None" "ut_sent u1 = before @ take len bs"
      using tx_interrupt_last [OF u] by auto
    with tx_interrupts_idle [of u1 rooms] on show ?thesis
      by (auto simp: eff_bind_def ret_def)
  qed
qed simp

lemma transmit_sending:
  assumes "ut_tx_buffer u = None" and "ut_tx_client u" and "0 < len" and "len \<le> length bs"
  obtains u' where "transmit_buffer bs len u = (Ok (SUCCESS, None), u')" and "sending bs len (ut_sent u) u'" and "tx_enabled u'"
proof -
  let ?u = "u\<lparr>ut_tx_buffer := Some bs, ut_tx_cursor := 0, ut_tx_limit := len\<rparr>"
  have "sending bs len (ut_sent u) ?u" "ut_tx_cursor ?u < len"
    using assms by (simp_all add: sending_def)
  then obtain u' where "send_remaining_bytes ?u = (Ok (int (min (ut_room ?u) (len - ut_tx_cursor ?u))), u')" "sending bs len (ut_sent u) u'" "tx_enabled u'"
    by (rule send_remaining_sending)
  then show thesis
    using that [of u'] assms(1) by (simp add: transmit_buffer_def eff_bind_def ret_def)
qed

section \<open>Reception in pieces\<close>

definition receiving :: "byte list \<Rightarrow> nat \<Rightarrow> byte list \<Rightarrow> Uart \<Rightarrow> bool" where
  "receiving buf len got u \<longleftrightarrow> ut_rx_buffer u = Some (got @ drop (length got) buf) \<and> ut_rx_limit u = len \<and> ut_rx_cursor u = length got
     \<and> length got < len \<and> len \<le> length buf \<and> ut_rx_client u"

lemma drain_fifo_eq:
  assumes "ut_rx_cursor u = length got" and "length got \<le> ut_rx_limit u" and "ut_rx_limit u \<le> length buf"
  shows "drain_fifo f (got @ drop (length got) buf) u = (let k = min (length f) (ut_rx_limit u - length got) in
     (Ok (got @ take k f @ drop (length got + k) buf), u\<lparr>ut_rx_cursor := length got + k, ut_fifo := drop k f\<rparr>))"
  using assms
proof (induction f arbitrary: got u)
  case Nil
  then show ?case
    by (simp add: Let_def)
next
  case (Cons b f)
  show ?case
  proof (cases "length got < ut_rx_limit u")
    case True
    let ?u = "u\<lparr>ut_rx_cursor := ut_rx_cursor u + 1\<rparr>"
    have "drop (length got) buf = buf ! length got # drop (Suc (length got)) buf"
      using True Cons.prems by (simp add: Cons_nth_drop_Suc)
    then have upd: "(got @ drop (length got) buf)[length got := b] = (got @ [b]) @ drop (length (got @ [b])) buf"
      by simp
    have "drain_fifo (b # f) (got @ drop (length got) buf) u = drain_fifo f ((got @ [b]) @ drop (length (got @ [b])) buf) ?u"
      using True Cons.prems upd by simp
    also have "\<dots> = (let k = min (length f) (ut_rx_limit ?u - length (got @ [b])) in
     (Ok ((got @ [b]) @ take k f @ drop (length (got @ [b]) + k) buf), ?u\<lparr>ut_rx_cursor := length (got @ [b]) + k, ut_fifo := drop k f\<rparr>))"
      using True Cons.prems by (intro Cons.IH) simp_all
    finally have step: "drain_fifo (b # f) (got @ drop (length got) buf) u = (let k = min (length f) (ut_rx_limit ?u - length (got @ [b])) in
     (Ok ((got @ [b]) @ take k f @ drop (length (got @ [b]) + k) buf), ?u\<lparr>ut_rx_cursor := length (got @ [b]) + k, ut_fifo := drop k f\<rparr>))" .
    obtain m where "ut_rx_limit u = Suc (length got + m)"
      using less_imp_Suc_add [OF True] by auto
    then show ?thesis
      unfolding step by (simp add: Let_def)
  next
    case False
    with Cons.prems show ?thesis
      by (simp add: Let_def)
  qed
qed

lemma read_rx_fifo_receiving:
  assumes "receiving buf len got u"
  shows "\<exists>u'. if length (got @ ut_fifo u) < len
     then read_rx_fifo u = (Ok [], u') \<and> receiving buf len (got @ ut_fifo u) u' \<and> ut_fifo u' = []
     else read_rx_fifo u = (Ok [Received (take len (got @ ut_fifo u) @ drop len buf) len SUCCESS], u')
       \<and> ut_rx_buffer u' = None \<and> ut_fifo u' = drop len (got @ ut_fifo u)"
proof -
  let ?k = "min (length (ut_fifo u)) (len - length got)"
  have "drain_fifo (ut_fifo u) (got @ drop (length got) buf) u
      = (Ok (got @ take ?k (ut_fifo u) @ drop (length got + ?k) buf), u\<lparr>ut_rx_cursor := length got + ?k, ut_fifo := drop ?k (ut_fifo u)\<rparr>)"
    using drain_fifo_eq [of u got buf "ut_fifo u"] assms by (simp add: receiving_def Let_def)
  note drain = this
  show ?thesis
  proof (cases "length (got @ ut_fifo u) < len")
    case True
    then have "?k = length (ut_fifo u)"
      by simp
    with True drain assms show ?thesis
      by (simp add: read_rx_fifo_def receiving_def eff_bind_def Let_def)
  next
    case False
    then have "?k = len - length got"
      by simp
    with False drain assms show ?thesis
      by (simp add: read_rx_fifo_def receiving_def eff_bind_def Let_def)
  qed
qed

fun rx_interrupts :: "byte list list \<Rightarrow> (Uart, unit, uart_event list) eff" where
  "rx_interrupts [] u = (Ok [], u)"
| "rx_interrupts (bytes # arrivals) u =
     eff_bind handle_rx_interrupt (\<lambda>evs. eff_bind (rx_interrupts arrivals) (\<lambda>evs'. ret (evs @ evs'))) (u\<lparr>ut_fifo := ut_fifo u @ bytes\<rparr>)"

lemma rx_interrupts_idle:
  assumes "ut_rx_buffer u = None"
  shows "\<exists>u'. rx_interrupts arrivals u = (Ok [], u') \<and> ut_rx_buffer u' = None \<and> ut_fifo u' = ut_fifo u @ concat arrivals"
  using assms
proof (induction arrivals arbitrary: u)
  case (Cons bytes arrivals)
  let ?u = "(clear_interrupt 2 (u\<lparr>ut_fifo := ut_fifo u @ bytes\<rparr>))"
  have "handle_rx_interrupt (u\<lparr>ut_fifo := ut_fifo u @ bytes\<rparr>) = (Ok [], ?u)" "ut_rx_buffer ?u = None" "ut_fifo ?u = ut_fifo u @ bytes"
    using Cons.prems by (simp_all add: handle_rx_interrupt_def read_rx_fifo_def clear_interrupt_def)
  with Cons.IH [of ?u] show ?case
    by (auto simp: eff_bind_def ret_def)
qed simp

text \<open>What a reception of \<open>len\<close> bytes ends with, given all bytes that arrive.\<close>

definition reception :: "byte list \<Rightarrow> nat \<Rightarrow> byte list \<Rightarrow> uart_event list \<Rightarrow> Uart \<Rightarrow> bool" where
  "reception buf len stream evs u \<longleftrightarrow>
     (if length stream < len then evs = [] \<and> receiving buf len stream u \<and> ut_fifo u = []
      else evs = [Received (take len stream @ drop len buf) len SUCCESS] \<and> ut_rx_buffer u = None \<and> ut_fifo u = drop len stream)"

lemma rx_interrupts_receiving:
  assumes "receiving buf len got u" and "ut_fifo u = []"
  shows "\<exists>evs u'. rx_interrupts arrivals u = (Ok evs, u') \<and> reception buf len (got @ concat arrivals) evs u'"
  using assms
proof (induction arrivals arbitrary: got u)
  case Nil
  then show ?case
    by (simp add: reception_def receiving_def)
next
  case (Cons bytes arrivals)
  let ?u = "clear_interrupt 2 (u\<lparr>ut_fifo := ut_fifo u @ bytes\<rparr>)"
  have u: "receiving buf len got ?u" "ut_fifo ?u = bytes"
    using Cons.prems by (simp_all add: receiving_def clear_interrupt_def)
  have h: "handle_rx_interrupt (u\<lparr>ut_fifo := ut_fifo u @ bytes\<rparr>) = read_rx_fifo ?u"
    by (simp add: handle_rx_interrupt_def)
  show ?case
  proof (cases "length (got @ bytes) < len")
    case True
    then obtain u1 where u1: "read_rx_fifo ?u = (Ok [], u1)" "receiving buf len (got @ bytes) u1" "ut_fifo u1 = []"
      using read_rx_fifo_receiving [OF u(1)] u(2) by auto
    with Cons.IH [OF u1(2,3)] h show ?thesis
      by (auto simp: eff_bind_def ret_def)
  next
    case False
    then obtain u1 where u1: "read_rx_fifo ?u = (Ok [Received (take len (got @ bytes) @ drop len buf) len SUCCESS], u1)"
        "ut_rx_buffer u1 = None" "ut_fifo u1 = drop len (got @ bytes)"
      using read_rx_fifo_receiving [OF u(1)] u(2) by auto
    obtain u' where "rx_interrupts arrivals u1 = (Ok [], u')" "ut_rx_buffer u' = None" "ut_fifo u' = ut_fifo u1 @ concat arrivals"
      using rx_interrupts_idle [OF u1(2)] by blast
    with u1 h False show ?thesis
      by (auto simp: eff_bind_def ret_def reception_def)
  qed
qed

section \<open>Properties\<close>

text \<open>C15. A transmission of at least one byte sends the first \<open>len\<close> bytes of the buffer in order, however little room the FIFO has
  at each interrupt, and the client gets its buffer back exactly once, after the last byte: the driver enables the interrupt and
  keeps it enabled until then. When every interrupt finds room this takes no more than \<open>len + 1\<close> interrupts. A transmission
  of no bytes does not enable the interrupt and may never be reported (\<open>uart_empty_requests_hang\<close>).
\<close>

theorem uart_transmits:
  assumes "ut_tx_buffer u = None" and "ut_tx_client u" and "0 < len" and "len \<le> length bs"
  shows "\<exists>u1 u2 evs. transmit_buffer bs len u = (Ok (SUCCESS, None), u1) \<and> tx_interrupts rooms u1 = (Ok evs, u2)
    \<and> (evs = [] \<and> (\<exists>n\<le>len. ut_sent u2 = ut_sent u @ take n bs) \<or> evs = [Transmitted bs len SUCCESS] \<and> ut_sent u2 = ut_sent u @ take len bs \<and> ut_tx_buffer u2 = None)
    \<and> ((\<forall>room\<in>set rooms. 0 < room) \<and> len < length rooms \<longrightarrow> evs \<noteq> [])"
proof -
  obtain u1 where u1: "transmit_buffer bs len u = (Ok (SUCCESS, None), u1)" "sending bs len (ut_sent u) u1" "tx_enabled u1"
    using transmit_sending [OF assms] by blast
  from tx_interrupts_sending [OF u1(2,3), of rooms] u1(1) show ?thesis
    by (auto simp: sending_def)
qed

definition idle_uart :: Uart where
  "idle_uart = \<lparr>ut_nco = 0, ut_control = 0, ut_interrupt_control = 0, ut_interrupt_state = 0, ut_room = 1, ut_sent = [], ut_fifo = [7],
     ut_clock = False, ut_tx_buffer = None, ut_tx_limit = 0, ut_tx_cursor = 0, ut_rx_buffer = None, ut_rx_limit = 0, ut_rx_cursor = 0,
     ut_tx_client = True, ut_rx_client = True\<rparr>"

theorem uart_transmits_witness:
  "\<exists>u1 u2. transmit_buffer [1, 2, 3, 4] 3 idle_uart = (Ok (SUCCESS, None), u1) \<and> tx_interrupts [1, 1, 2, 1] u1 = (Ok [Transmitted [1, 2, 3, 4] 3 SUCCESS], u2)
     \<and> ut_sent u2 = [1, 2, 3]"
proof -
  have "ut_tx_buffer idle_uart = None" "ut_tx_client idle_uart" "0 < (3 :: nat)" "3 \<le> length ([1, 2, 3, 4] :: byte list)"
    by (simp_all add: idle_uart_def)
  from uart_transmits [OF this, of "[1, 1, 2, 1]"] show ?thesis
    by (auto simp: idle_uart_def)
qed

text \<open>A reception fills the buffer with the bytes in the order of their arrival, over any number of interrupts, and reports it
  exactly once when it is complete; the bytes beyond it stay in the FIFO.
\<close>

theorem uart_receives:
  assumes "ut_rx_buffer u = None" and "ut_rx_client u" and "0 < len" and "len \<le> length buf"
  shows "\<exists>evs u1 evs' u2. receive_buffer buf len u = (Ok ((SUCCESS, None), evs), u1) \<and> rx_interrupts arrivals u1 = (Ok evs', u2)
    \<and> reception buf len (ut_fifo u @ concat arrivals) (evs @ evs') u2"
proof -
  let ?u = "u\<lparr>ut_rx_buffer := Some buf, ut_rx_cursor := 0, ut_rx_limit := len\<rparr>"
  have u: "receiving buf len [] ?u"
    using assms by (simp add: receiving_def)
  have rb: "receive_buffer buf len u = eff_bind read_rx_fifo (\<lambda>evs. ret ((SUCCESS, None), evs)) ?u"
    using assms by (simp add: receive_buffer_def)
  show ?thesis
  proof (cases "length (ut_fifo u) < len")
    case True
    then obtain u1 where u1: "read_rx_fifo ?u = (Ok [], u1)" "receiving buf len (ut_fifo u) u1" "ut_fifo u1 = []"
      using read_rx_fifo_receiving [OF u] by auto
    with rx_interrupts_receiving [OF u1(2,3), of arrivals] rb show ?thesis
      by (auto simp: eff_bind_def ret_def)
  next
    case False
    then obtain u1 where u1: "read_rx_fifo ?u = (Ok [Received (take len (ut_fifo u) @ drop len buf) len SUCCESS], u1)"
        "ut_rx_buffer u1 = None" "ut_fifo u1 = drop len (ut_fifo u)"
      using read_rx_fifo_receiving [OF u] by auto
    with rx_interrupts_idle [OF u1(2), of arrivals] rb False show ?thesis
      by (auto simp: eff_bind_def ret_def reception_def)
  qed
qed

theorem uart_receives_witness:
  "\<exists>evs u1 evs' u2. receive_buffer [0, 0, 0, 9] 3 idle_uart = (Ok ((SUCCESS, None), evs), u1) \<and> rx_interrupts [[8], [], [6, 5]] u1 = (Ok evs', u2)
     \<and> evs @ evs' = [Received [7, 8, 6, 9] 3 SUCCESS] \<and> ut_fifo u2 = [5]"
proof -
  have "ut_rx_buffer idle_uart = None" "ut_rx_client idle_uart" "0 < (3 :: nat)" "3 \<le> length ([0, 0, 0, 9] :: byte list)"
    by (simp_all add: idle_uart_def)
  from uart_receives [OF this, of "[[8], [], [6, 5]]"] show ?thesis
    by (auto simp: idle_uart_def reception_def)
qed

text \<open>A transmission of no bytes and a reception of no bytes are accepted and never reported: the transmission does not enable the
  transmit interrupt, so that nothing happens when no earlier one has enabled it, and no arrival completes the reception. From
  then on the UART answers \<^verbatim>\<open>EBUSY\<close>.
\<close>

lemma tx_interrupts_off: "\<not> tx_enabled u \<Longrightarrow> \<exists>n. tx_interrupts rooms u = (Ok [], u\<lparr>ut_room := n\<rparr>)"
proof (induction rooms arbitrary: u)
  case (Cons room rooms)
  with Cons.IH [of "u\<lparr>ut_room := room\<rparr>"] show ?case
    by (simp add: tx_enabled_def)
next
  case Nil
  have "u = u\<lparr>ut_room := ut_room u\<rparr>"
    by simp
  then show ?case
    by (metis tx_interrupts.simps(1))
qed

theorem uart_empty_requests_hang:
  assumes "ut_tx_buffer u = None" and "ut_rx_buffer u = None" and "\<not> tx_enabled u"
  shows "(\<exists>u1 u2. transmit_buffer bs 0 u = (Ok (SUCCESS, None), u1) \<and> tx_interrupts rooms u1 = (Ok [], u2)
      \<and> transmit_buffer bs' n u2 = (Ok (EBUSY, Some bs'), u2))
    \<and> (\<exists>u1 u2. receive_buffer bs 0 u = (Ok ((SUCCESS, None), []), u1) \<and> rx_interrupts arrivals u1 = (Ok [], u2)
      \<and> receive_buffer bs' n u2 = (Ok ((EBUSY, Some bs'), []), u2))"
proof
  let ?t = "u\<lparr>ut_tx_buffer := Some bs, ut_tx_cursor := 0, ut_tx_limit := 0\<rparr>"
  have "transmit_buffer bs 0 u = (Ok (SUCCESS, None), ?t)" "\<not> tx_enabled ?t"
    using assms(1,3) by (simp_all add: transmit_buffer_def send_remaining_bytes_def eff_bind_def ret_def tx_enabled_def)
  with tx_interrupts_off [of ?t rooms] show "\<exists>u1 u2. transmit_buffer bs 0 u = (Ok (SUCCESS, None), u1) \<and> tx_interrupts rooms u1 = (Ok [], u2)
      \<and> transmit_buffer bs' n u2 = (Ok (EBUSY, Some bs'), u2)"
    by (auto simp: transmit_buffer_def)
  have stuck: "\<exists>u2. rx_interrupts arrivals v = (Ok [], u2) \<and> ut_rx_buffer u2 = Some bs" if "ut_rx_buffer v = Some bs" "ut_rx_limit v = 0" for v
    using that
  proof (induction arrivals arbitrary: v)
    case (Cons bytes arrivals)
    let ?v = "clear_interrupt 2 (v\<lparr>ut_fifo := ut_fifo v @ bytes\<rparr>)"
    have "drain_fifo f bs v' = (Ok bs, v'\<lparr>ut_fifo := f\<rparr>)" if "ut_rx_limit v' = 0" for f v'
      using that by (cases f) simp_all
    then have "handle_rx_interrupt (v\<lparr>ut_fifo := ut_fifo v @ bytes\<rparr>) = (Ok [], ?v)"
      using Cons.prems by (simp add: handle_rx_interrupt_def read_rx_fifo_def clear_interrupt_def eff_bind_def)
    moreover have "ut_rx_buffer ?v = Some bs" "ut_rx_limit ?v = 0"
      using Cons.prems by (simp_all add: clear_interrupt_def)
    ultimately show ?case
      using Cons.IH [of ?v] by (auto simp: eff_bind_def ret_def)
  qed simp
  let ?u = "u\<lparr>ut_rx_buffer := Some bs, ut_rx_cursor := 0, ut_rx_limit := 0\<rparr>"
  have "drain_fifo f bs ?u = (Ok bs, ?u\<lparr>ut_fifo := f\<rparr>)" for f
    by (cases f) simp_all
  then have "receive_buffer bs 0 u = (Ok ((SUCCESS, None), []), ?u)"
    using assms(2) by (simp add: receive_buffer_def read_rx_fifo_def eff_bind_def ret_def)
  with stuck [of ?u] show "\<exists>u1 u2. receive_buffer bs 0 u = (Ok ((SUCCESS, None), []), u1) \<and> rx_interrupts arrivals u1 = (Ok [], u2)
      \<and> receive_buffer bs' n u2 = (Ok ((EBUSY, Some bs'), []), u2)"
    by (auto simp: receive_buffer_def)
qed

theorem uart_empty_requests_hang_witness:
  "\<exists>u1 u2. transmit_buffer [1, 2] 0 idle_uart = (Ok (SUCCESS, None), u1) \<and> tx_interrupts [1, 1] u1 = (Ok [], u2)
     \<and> transmit_buffer [3] 1 u2 = (Ok (EBUSY, Some [3]), u2)"
proof -
  have "ut_tx_buffer idle_uart = None" "ut_rx_buffer idle_uart = None" "\<not> tx_enabled idle_uart"
    by (simp_all add: idle_uart_def tx_enabled_def)
  from uart_empty_requests_hang [OF this, of "[1, 2]" "[1, 1]" "[3]" 1] show ?thesis
    by auto
qed

text \<open>
  The baud rate divisor is exact for rates below 262144; from there on the product does not fit into 32 bits.
\<close>

lemma uart_baud_rate:
  assumes "unat rate < 2 ^ 18"
  shows "unat (ut_nco (uart_config rate u)) = 2 ^ 20 * unat rate div 24000000"
proof -
  have "unat (16384 * rate :: u32) = 16384 * unat rate"
    using assms by (simp add: unat_word_ariths)
  then show ?thesis
    by (simp add: uart_config_def clear_interrupt_def unat_div)
qed

lemma uart_baud_rate_wraps: "ut_nco (uart_config 262144 u) = 0"
  by (simp add: uart_config_def clear_interrupt_def)

end
