(* ===== verification/Byte_Words.thy ===== *)
theory Byte_Words
  imports Prelude
begin

text \<open>
  Byte strings and the little-endian words the code makes of them by shifts, in the drivers of the crypto engines and
  of the attestation data.
\<close>

text \<open>The words of a byte string, little endian.\<close>

definition le_word :: "byte list \<Rightarrow> nat \<Rightarrow> u32" where
  "le_word bs i = (ucast (bs ! (4 * i)) :: u32) OR push_bit 8 (ucast (bs ! (4 * i + 1))) OR push_bit 16 (ucast (bs ! (4 * i + 2)))
     OR push_bit 24 (ucast (bs ! (4 * i + 3)))"

definition word_bytes :: "u32 \<Rightarrow> byte list" where
  "word_bytes w = [ucast w, ucast (drop_bit 8 w), ucast (drop_bit 16 w), ucast (drop_bit 24 w)]"

text \<open>A string of whole words.\<close>

definition bytes_words :: "byte list \<Rightarrow> u32 list" where
  "bytes_words bs = map (le_word bs) [0..<length bs div 4]"

lemma length_word_bytes [simp]: "length (word_bytes w) = 4"
  by (simp add: word_bytes_def)

text \<open>Four single updates put a word into a byte string.\<close>

lemma update_word:
  assumes "i + 4 \<le> length out" and "length w = 4"
  shows "out[i := w ! 0, i + 1 := w ! 1, i + 2 := w ! 2, i + 3 := w ! 3] = take i out @ w @ drop (i + 4) out"
proof -
  have split: "out = take i out @ out ! i # out ! (i + 1) # out ! (i + 2) # out ! (i + 3) # drop (i + 4) out"
    using assms(1) by (simp add: id_take_nth_drop [of i] Cons_nth_drop_Suc numeral_eq_Suc)
  obtain a b c d where "w = [a, b, c, d]"
    using assms(2) by (auto simp: length_Suc_conv numeral_eq_Suc)
  then show ?thesis
    using assms(1) by (subst split) (simp add: list_update_append numeral_eq_Suc)
qed

lemma le_word_bytes: "le_word (word_bytes w) 0 = w"
proof (rule bit_word_eqI)
  fix n
  assume n: "n < LENGTH(32)"
  then consider "n < 8" | "8 \<le> n" "n < 16" | "16 \<le> n" "n < 24" | "24 \<le> n"
    by linarith
  then show "bit (le_word (word_bytes w) 0) n \<longleftrightarrow> bit w n"
    using n by cases (auto simp: le_word_def word_bytes_def bit_simps)
qed

lemma byte_high_bit: "8 \<le> k \<Longrightarrow> \<not> bit (a :: byte) (k + n)"
  using bit_imp_le_length [of a "k + n"] by auto

lemma bytes_le_word: "length bs = 4 \<Longrightarrow> word_bytes (le_word bs 0) = bs"
proof -
  assume "length bs = 4"
  then obtain a b c d where bs: "bs = [a, b, c, d]"
    by (auto simp: length_Suc_conv numeral_eq_Suc)
  have "ucast (drop_bit k (le_word bs 0)) = (bs ! (k div 8) :: byte)" if "k \<in> {0, 8, 16, 24}" for k
    using that by (intro bit_word_eqI) (auto simp: bs le_word_def bit_simps byte_high_bit)
  from this [of 0] this [of 8] this [of 16] this [of 24] show ?thesis
    by (simp add: word_bytes_def bs)
qed

lemma le_word_take: "4 * i + 4 \<le> length bs \<Longrightarrow> le_word bs i = le_word (take 4 (drop (4 * i) bs)) 0"
  by (simp add: le_word_def)

lemma bytes_words_Cons: "length c = 4 \<Longrightarrow> bytes_words (c @ bs) = le_word c 0 # bytes_words bs"
proof -
  assume c: "length c = 4"
  have "le_word (c @ bs) (Suc i) = le_word bs i" for i
    using c by (simp add: le_word_def nth_append add.commute)
  moreover have "le_word (c @ bs) 0 = le_word c 0"
    using c by (simp add: le_word_def nth_append)
  moreover have "[0..<length (c @ bs) div 4] = 0 # map Suc [0..<length bs div 4]"
  proof -
    have "length (c @ bs) div 4 = Suc (length bs div 4)"
      using c by simp
    then show ?thesis
      by (simp only: map_Suc_upt) (simp add: upt_conv_Cons del: upt_Suc)
  qed
  ultimately show ?thesis
    by (simp add: bytes_words_def comp_def)
qed

lemma bytes_words_bytes: "bytes_words (concat (map word_bytes ws)) = ws"
proof (induction ws)
  case Nil
  then show ?case
    by (simp add: bytes_words_def)
next
  case (Cons w ws)
  then show ?case
    by (simp add: bytes_words_Cons le_word_bytes)
qed

lemma words_bytes_words:
  assumes "length bs = 4 * n"
  shows "concat (map word_bytes (bytes_words bs)) = bs"
  using assms
proof (induction n arbitrary: bs)
  case 0
  then show ?case
    by (simp add: bytes_words_def)
next
  case (Suc n)
  define c where "c = take 4 bs"
  define ds where "ds = drop 4 bs"
  have bs: "bs = c @ ds" and len: "length c = 4" "length ds = 4 * n"
    using Suc.prems by (simp_all add: c_def ds_def)
  show ?case
    unfolding bs bytes_words_Cons [OF len(1)] using Suc.IH [OF len(2)] bytes_le_word [OF len(1)] by simp
qed

lemma length_bytes_words [simp]: "length (bytes_words bs) = length bs div 4"
  by (simp add: bytes_words_def)

end
