(* ===== verification/Digest.thy ===== *)
theory Digest
  imports Grants Byte_Words
begin

text \<open>
  The SHA engine of \<^verbatim>\<open>kernel/h1/src/crypto/sha.rs\<close> behind the trait of \<^verbatim>\<open>hil/digest.rs\<close>, and the
  system calls of \<^verbatim>\<open>kernel/h1_syscalls/src/digest.rs\<close> that share it among applications.
\<close>

section \<open>The trait\<close>

datatype DigestMode = Sha1 | Sha256 | Sha256Hmac

fun output_size :: "DigestMode \<Rightarrow> nat" where
  "output_size Sha1 = 160 div 8"
| "output_size Sha256 = 256 div 8"
| "output_size Sha256Hmac = 256 div 8"

datatype DigestError = EngineNotSupported | NotConfigured | DigestBufferTooSmall nat | DigestTimeout

text \<open>The errors of \<^verbatim>\<open>hil/common.rs\<close>; an application sees the negative of their number.\<close>

datatype SyscallError = SE_Unknown | SE_InvalidArgument | SE_InvalidState | SE_OutOfRange | SE_NotImplemented | SE_ResourceBusy | SE_InternalError

fun isize_from_SyscallError :: "SyscallError \<Rightarrow> int" where
  "isize_from_SyscallError SE_Unknown = - 1"
| "isize_from_SyscallError SE_InvalidArgument = - 2"
| "isize_from_SyscallError SE_InvalidState = - 3"
| "isize_from_SyscallError SE_OutOfRange = - 4"
| "isize_from_SyscallError SE_NotImplemented = - 5"
| "isize_from_SyscallError SE_ResourceBusy = - 6"
| "isize_from_SyscallError SE_InternalError = - 7"

fun SyscallError_from_DigestError :: "DigestError \<Rightarrow> SyscallError" where
  "SyscallError_from_DigestError EngineNotSupported = SE_NotImplemented"
| "SyscallError_from_DigestError NotConfigured = SE_InvalidState"
| "SyscallError_from_DigestError (DigestBufferTooSmall _) = SE_OutOfRange"
| "SyscallError_from_DigestError DigestTimeout = SE_ResourceBusy"

text \<open>\<open>dg_finalize\<close> gives the output buffer back; it may wait for ever.\<close>

record 's DigestEngine =
  dg_initialize :: "DigestMode \<Rightarrow> ('s, DigestError, unit) eff"
  dg_initialize_hmac :: "byte list \<Rightarrow> ('s, DigestError, unit) eff"
  dg_initialize_certificate :: "u32 \<Rightarrow> ('s, DigestError, unit) eff"
  dg_update :: "byte list \<Rightarrow> ('s, DigestError, nat) eff"
  dg_finalize :: "byte list \<Rightarrow> 's \<Rightarrow> (((DigestError, nat) outcome \<times> byte list) \<times> 's) option"
  dg_finalize_hidden :: "('s, DigestError, nat) peff"

section \<open>The engine\<close>

text \<open>
  The registers the driver uses. Bytes written to \<^verbatim>\<open>input_fifo\<close> are collected in \<open>sha_message\<close>; the
  trigger \<^verbatim>\<open>Go\<close> begins a new message. What the engine does while the driver waits is the parameter
  \<open>tick\<close>.
\<close>

record ShaRegisters =
  sha_cfg_en :: u32
  sha_trig :: u32
  sha_itop :: u32
  sha_use_cert :: u32
  sha_key_w :: "u32 list"
  sha_sts_h :: "u32 list"
  sha_message :: "byte list"

record ShaEngine =
  sha_regs :: ShaRegisters
  current_mode :: "DigestMode option"

definition ShaTrigMask_Go :: u32 where "ShaTrigMask_Go = 0x1"
definition ShaTrigMask_Stop :: u32 where "ShaTrigMask_Stop = 0x8"
definition ShaCfgEnMask_Sha1 :: u32 where "ShaCfgEnMask_Sha1 = 0x02"
definition ShaCfgEnMask_Livestream :: u32 where "ShaCfgEnMask_Livestream = 0x10"
definition ShaCfgEnMask_Hmac :: u32 where "ShaCfgEnMask_Hmac = 0x20"
definition ShaCfgEnMask_IntEnDone :: u32 where "ShaCfgEnMask_IntEnDone = 0x10000"
definition CertBits :: u32 where "CertBits = 0x3f"
definition CertEnable :: u32 where "CertEnable = 0x40"
definition HMAC_KEY_SIZE_BYTES :: nat where "HMAC_KEY_SIZE_BYTES = 32"

lemmas sha_masks = ShaTrigMask_Go_def ShaTrigMask_Stop_def ShaCfgEnMask_Sha1_def ShaCfgEnMask_Livestream_def ShaCfgEnMask_Hmac_def
  ShaCfgEnMask_IntEnDone_def CertBits_def CertEnable_def

definition trigger :: "u32 \<Rightarrow> ShaRegisters \<Rightarrow> ShaRegisters" where
  "trigger v r = r\<lparr>sha_trig := v, sha_message := (if v AND ShaTrigMask_Go \<noteq> 0 then [] else sha_message r)\<rparr>"

definition on_sha :: "(ShaRegisters \<Rightarrow> ShaRegisters) \<Rightarrow> ShaEngine \<Rightarrow> ShaEngine" where
  "on_sha f e = e\<lparr>sha_regs := f (sha_regs e)\<rparr>"

definition ShaEngine_handle_interrupt :: "ShaEngine \<Rightarrow> ShaEngine" where
  "ShaEngine_handle_interrupt = on_sha (\<lambda>r. r\<lparr>sha_itop := 0\<rparr>)"

definition sha_flags :: "DigestMode \<Rightarrow> u32" where
  "sha_flags mode = (let flags = ShaCfgEnMask_Livestream OR ShaCfgEnMask_IntEnDone in
     case mode of Sha1 \<Rightarrow> flags OR ShaCfgEnMask_Sha1 | Sha256 \<Rightarrow> flags | Sha256Hmac \<Rightarrow> flags OR ShaCfgEnMask_Hmac)"

definition sha_initialize :: "DigestMode \<Rightarrow> (ShaEngine, DigestError, unit) eff" where
  "sha_initialize mode e = (Ok (), on_sha (\<lambda>r.
     let r = r\<lparr>sha_itop := 0\<rparr>; r = trigger ShaTrigMask_Stop r; r = r\<lparr>sha_cfg_en := sha_flags mode\<rparr> in
     trigger ShaTrigMask_Go r) (e\<lparr>current_mode := Some mode\<rparr>))"

definition sha_initialize_hmac :: "byte list \<Rightarrow> (ShaEngine, DigestError, unit) eff" where
  "sha_initialize_hmac key e =
     (let e = on_sha (\<lambda>r. r\<lparr>sha_itop := 0\<rparr>) (e\<lparr>current_mode := Some Sha256Hmac\<rparr>) in
      if length key < HMAC_KEY_SIZE_BYTES then (Err (DigestBufferTooSmall HMAC_KEY_SIZE_BYTES), e)
      else (Ok (), on_sha (\<lambda>r.
        let r = r\<lparr>sha_key_w := map (le_word key) [0..<HMAC_KEY_SIZE_BYTES div 4]\<rparr>;
            r = r\<lparr>sha_cfg_en := ShaCfgEnMask_Livestream OR ShaCfgEnMask_IntEnDone OR ShaCfgEnMask_Hmac\<rparr> in
        trigger ShaTrigMask_Go r) e))"

definition sha_initialize_certificate :: "u32 \<Rightarrow> (ShaEngine, DigestError, unit) eff" where
  "sha_initialize_certificate certificate_id e = (Ok (), on_sha (\<lambda>r.
     let r = r\<lparr>sha_itop := 0\<rparr>; r = r\<lparr>sha_use_cert := certificate_id AND CertBits OR CertEnable\<rparr>;
         r = r\<lparr>sha_cfg_en := ShaCfgEnMask_IntEnDone\<rparr> in
     trigger ShaTrigMask_Go r) e)"

definition sha_update :: "byte list \<Rightarrow> (ShaEngine, DigestError, nat) eff" where
  "sha_update data e =
     (if current_mode e = None then (Err NotConfigured, e)
      else (Ok (length data), on_sha (\<lambda>r. r\<lparr>sha_message := sha_message r @ data\<rparr>) e))"

partial_function (option) wait_itop :: "(ShaRegisters \<Rightarrow> ShaRegisters) \<Rightarrow> ShaRegisters \<Rightarrow> ShaRegisters option" where
  "wait_itop tick r = (if sha_itop r = 0 then wait_itop tick (tick r) else Some r)"

text \<open>Stop the engine and wait for the end of the calculation.\<close>

definition finish_digest :: "(ShaRegisters \<Rightarrow> ShaRegisters) \<Rightarrow> ShaRegisters \<Rightarrow> ShaRegisters option" where
  "finish_digest tick r = wait_itop tick (trigger ShaTrigMask_Stop (r\<lparr>sha_itop := 0\<rparr>))"

text \<open>The loop that copies the digest; \<open>n\<close> words from word \<open>i\<close> on.\<close>

fun copy_digest :: "u32 list \<Rightarrow> nat \<Rightarrow> nat \<Rightarrow> byte list \<Rightarrow> byte list" where
  "copy_digest sts i 0 output = output"
| "copy_digest sts i (Suc n) output =
     (let w = word_bytes (sts ! i) in
      copy_digest sts (Suc i) n (output[i * 4 := w ! 0, i * 4 + 1 := w ! 1, i * 4 + 2 := w ! 2, i * 4 + 3 := w ! 3]))"

definition sha_finalize :: "(ShaRegisters \<Rightarrow> ShaRegisters) \<Rightarrow> byte list \<Rightarrow> ShaEngine \<Rightarrow> (((DigestError, nat) outcome \<times> byte list) \<times> ShaEngine) option" where
  "sha_finalize tick output e =
     (case current_mode e of
        None \<Rightarrow> Some ((Err NotConfigured, output), e)
      | Some mode \<Rightarrow>
          if length output < output_size mode then Some ((Err (DigestBufferTooSmall (output_size mode)), output), e)
          else map_option (\<lambda>r. ((Ok (output_size mode), copy_digest (sha_sts_h r) 0 (output_size mode div 4) output),
                               e\<lparr>sha_regs := r\<lparr>sha_itop := 0\<rparr>\<rparr>)) (finish_digest tick (sha_regs e)))"

definition sha_finalize_hidden :: "(ShaRegisters \<Rightarrow> ShaRegisters) \<Rightarrow> (ShaEngine, DigestError, nat) peff" where
  "sha_finalize_hidden tick e = map_option (\<lambda>r. (Ok 0, e\<lparr>sha_regs := r\<lparr>sha_itop := 0\<rparr>\<rparr>)) (finish_digest tick (sha_regs e))"

definition sha_engine :: "(ShaRegisters \<Rightarrow> ShaRegisters) \<Rightarrow> ShaEngine DigestEngine" where
  "sha_engine tick = \<lparr>dg_initialize = sha_initialize, dg_initialize_hmac = sha_initialize_hmac,
     dg_initialize_certificate = sha_initialize_certificate, dg_update = sha_update, dg_finalize = sha_finalize tick,
     dg_finalize_hidden = sha_finalize_hidden tick\<rparr>"

section \<open>System calls\<close>

record DigestApp =
  dg_input_buffer :: "byte list option"
  dg_output_buffer :: "byte list option"

definition DigestApp_default :: DigestApp where
  "DigestApp_default = \<lparr>dg_input_buffer = None, dg_output_buffer = None\<rparr>"

record 's DigestDriver =
  dg_engine :: 's
  dg_apps :: "DigestApp grant"
  dg_current_user :: "nat option"

definition DigestDriver_new :: "'s \<Rightarrow> 's DigestDriver" where
  "DigestDriver_new e = \<lparr>dg_engine = e, dg_apps = [], dg_current_user = None\<rparr>"

text \<open>A closure run on the data of an application and the driver.\<close>

definition dg_enter :: "(nat \<Rightarrow> bool) \<Rightarrow> nat \<Rightarrow> (DigestApp \<Rightarrow> ('s DigestDriver, unit, ReturnCode \<times> DigestApp) peff)
    \<Rightarrow> ('s DigestDriver, unit, ReturnCode) peff" where
  "dg_enter alloc app f s =
     (case (case map_of (dg_apps s) app of Some d \<Rightarrow> Some d | None \<Rightarrow> if alloc app then Some DigestApp_default else None) of
        None \<Rightarrow> Some (Ok ENOMEM, s)
      | Some d \<Rightarrow> peff_bind (f d) (\<lambda>(rc, d) s. Some (Ok rc, s\<lparr>dg_apps := grant_put app d (dg_apps s)\<rparr>)) s)"

definition on_engine :: "('s, DigestError, 'a) eff \<Rightarrow> 's DigestDriver \<Rightarrow> (DigestError, 'a) outcome \<times> 's DigestDriver" where
  "on_engine m s = (case m (dg_engine s) of (r, e) \<Rightarrow> (r, s\<lparr>dg_engine := e\<rparr>))"

text \<open>The return code of an engine error; \<open>unconfigured\<close> is what the command makes of \<^verbatim>\<open>NotConfigured\<close>.\<close>

fun digest_code :: "ReturnCode \<Rightarrow> (DigestError, 'a) outcome \<Rightarrow> (unit, ReturnCode) outcome" where
  "digest_code unconfigured (Ok _) = Ok SUCCESS"
| "digest_code unconfigured (Err EngineNotSupported) = Ok ENOSUPPORT"
| "digest_code unconfigured (Err NotConfigured) = Ok unconfigured"
| "digest_code unconfigured (Err (DigestBufferTooSmall _)) = Ok ESIZE"
| "digest_code unconfigured (Err DigestTimeout) = Ok FAIL"
| "digest_code unconfigured Panic = Panic"

definition with_code :: "ReturnCode \<Rightarrow> DigestApp \<Rightarrow> (DigestError, 'a) outcome \<times> 's DigestDriver \<Rightarrow> ((unit, ReturnCode \<times> DigestApp) outcome \<times> 's DigestDriver) option" where
  "with_code unconfigured d rs = (case rs of (r, s) \<Rightarrow>
     Some (case digest_code unconfigured r of Ok rc \<Rightarrow> (Ok (rc, d), s) | Err e \<Rightarrow> (Err e, s) | Panic \<Rightarrow> (Panic, s)))"

definition command_initialize :: "(nat \<Rightarrow> bool) \<Rightarrow> 's DigestEngine \<Rightarrow> nat \<Rightarrow> nat \<Rightarrow> ('s DigestDriver, unit, ReturnCode) peff" where
  "command_initialize alloc D r2 caller = dg_enter alloc caller (\<lambda>app s.
     if dg_current_user s \<noteq> None then Some (Ok (EBUSY, app), s)
     else let s = s\<lparr>dg_current_user := Some caller\<rparr> in
       if r2 = 0 then with_code FAIL app (on_engine (dg_initialize D Sha1) s)
       else if r2 = 1 then with_code FAIL app (on_engine (dg_initialize D Sha256) s)
       else if r2 = 2 then
         (case dg_input_buffer app of
            None \<Rightarrow> Some (Ok (ENOMEM, app), s)
          | Some key \<Rightarrow> with_code FAIL app (on_engine (dg_initialize_hmac D key) s))
       else Some (Ok (EINVAL, app), s))"

definition command_update :: "(nat \<Rightarrow> bool) \<Rightarrow> 's DigestEngine \<Rightarrow> nat \<Rightarrow> nat \<Rightarrow> ('s DigestDriver, unit, ReturnCode) peff" where
  "command_update alloc D r2 caller = dg_enter alloc caller (\<lambda>app s.
     if dg_current_user s \<noteq> Some caller then Some (Ok (EBUSY, app), s)
     else case dg_input_buffer app of
            None \<Rightarrow> Some (Ok (ENOMEM, app), s)
          | Some input_buffer \<Rightarrow>
              if length input_buffer < r2 then Some (Ok (ESIZE, app), s)
              else with_code ERESERVE app (on_engine (dg_update D (take r2 input_buffer)) s))"

definition command_finalize :: "(nat \<Rightarrow> bool) \<Rightarrow> 's DigestEngine \<Rightarrow> nat \<Rightarrow> ('s DigestDriver, unit, ReturnCode) peff" where
  "command_finalize alloc D caller = dg_enter alloc caller (\<lambda>app s.
     if dg_current_user s \<noteq> Some caller then Some (Ok (EBUSY, app), s)
     else let s = s\<lparr>dg_current_user := None\<rparr> in
       case dg_output_buffer app of
         Some output \<Rightarrow>
           (case dg_finalize D output (dg_engine s) of
              None \<Rightarrow> None
            | Some ((r, output), e) \<Rightarrow> with_code FAIL (app\<lparr>dg_output_buffer := Some output\<rparr>) (r, s\<lparr>dg_engine := e\<rparr>))
       | None \<Rightarrow>
           (case dg_finalize_hidden D (dg_engine s) of
              None \<Rightarrow> None
            | Some (r, e) \<Rightarrow> with_code FAIL app (r, s\<lparr>dg_engine := e\<rparr>)))"

definition command_certificate_init :: "(nat \<Rightarrow> bool) \<Rightarrow> 's DigestEngine \<Rightarrow> nat \<Rightarrow> nat \<Rightarrow> ('s DigestDriver, unit, ReturnCode) peff" where
  "command_certificate_init alloc D r2 caller = dg_enter alloc caller (\<lambda>app s.
     if dg_current_user s \<noteq> None then Some (Ok (EBUSY, app), s)
     else let s = s\<lparr>dg_current_user := Some caller\<rparr> in
       case on_engine (dg_initialize_certificate D (word_of_nat r2)) s of
         (Ok _, s) \<Rightarrow> Some (Ok (SUCCESS, app), if dg_input_buffer app = None then s\<lparr>dg_current_user := None\<rparr> else s)
       | (r, s) \<Rightarrow> with_code FAIL app (r, s))"

definition digest_command :: "(nat \<Rightarrow> bool) \<Rightarrow> 's DigestEngine \<Rightarrow> nat \<Rightarrow> nat \<Rightarrow> nat \<Rightarrow> ('s DigestDriver, unit, ReturnCode) peff" where
  "digest_command alloc D minor_num r2 caller =
     (if minor_num = 0 then returning (ret SUCCESS)
      else if minor_num = 1 then command_initialize alloc D r2 caller
      else if minor_num = 2 then command_update alloc D r2 caller
      else if minor_num = 3 then command_finalize alloc D caller
      else if minor_num = 4 then (\<lambda>s. Some (Ok (if dg_current_user s \<noteq> None then EBUSY else SUCCESS), s))
      else if minor_num = 5 then command_certificate_init alloc D r2 caller
      else returning (ret ENOSUPPORT))"

definition digest_allow :: "(nat \<Rightarrow> bool) \<Rightarrow> nat \<Rightarrow> nat \<Rightarrow> byte list option \<Rightarrow> ('s DigestDriver, unit, ReturnCode) peff" where
  "digest_allow alloc app_id allow_num buf =
     (if allow_num = 0 then dg_enter alloc app_id (\<lambda>app s. Some (Ok (SUCCESS, app\<lparr>dg_input_buffer := buf\<rparr>), s))
      else if allow_num = 1 then dg_enter alloc app_id (\<lambda>app s. Some (Ok (SUCCESS, app\<lparr>dg_output_buffer := buf\<rparr>), s))
      else returning (ret ENOSUPPORT))"

section \<open>The engine under the documented hardware\<close>

text \<open>
  \<open>hash\<close> is what the hardware computes of its configuration, the key and the message. It has eight words, and once
  stopped the engine finishes after some time and leaves them in \<^verbatim>\<open>sts_h\<close>.
\<close>

definition computes :: "(u32 \<Rightarrow> u32 list \<Rightarrow> byte list \<Rightarrow> u32 list) \<Rightarrow> (ShaRegisters \<Rightarrow> ShaRegisters) \<Rightarrow> bool" where
  "computes hash tick \<longleftrightarrow> (\<forall>cfg key msg. length (hash cfg key msg) = 8) \<and>
     (\<forall>r. sha_trig r = ShaTrigMask_Stop \<longrightarrow> sha_itop r = 0 \<longrightarrow> (\<exists>n. sha_itop ((tick ^^ n) r) \<noteq> 0 \<and> (\<forall>m<n. sha_itop ((tick ^^ m) r) = 0)
        \<and> sha_sts_h ((tick ^^ n) r) = hash (sha_cfg_en r) (sha_key_w r) (sha_message r)))"

lemma wait_itop_returns:
  assumes "sha_itop ((tick ^^ n) r) \<noteq> 0" and "\<forall>m<n. sha_itop ((tick ^^ m) r) = 0"
  shows "wait_itop tick r = Some ((tick ^^ n) r)"
  using assms
proof (induction n arbitrary: r)
  case 0
  then show ?case
    by (simp add: wait_itop.simps)
next
  case (Suc n)
  have "(tick ^^ Suc m) r = (tick ^^ m) (tick r)" for m
    by (metis comp_apply funpow_Suc_right)
  moreover have "sha_itop r = 0"
    using Suc.prems(2) by (metis funpow_0 zero_less_Suc)
  moreover have "\<forall>m<n. sha_itop ((tick ^^ Suc m) r) = 0"
    using Suc.prems(2) by (metis Suc_mono)
  ultimately show ?case
    using Suc.IH [of "tick r"] Suc.prems(1) by (simp add: wait_itop.simps [of tick r])
qed

lemma finish_digest_computes:
  assumes "computes hash tick"
  obtains r' where "finish_digest tick r = Some r'" and "sha_sts_h r' = hash (sha_cfg_en r) (sha_key_w r) (sha_message r)"
proof -
  let ?r = "trigger ShaTrigMask_Stop (r\<lparr>sha_itop := 0\<rparr>)"
  have "sha_trig ?r = ShaTrigMask_Stop" "sha_itop ?r = 0" "sha_message ?r = sha_message r" "sha_cfg_en ?r = sha_cfg_en r" "sha_key_w ?r = sha_key_w r"
    by (simp_all add: trigger_def sha_masks)
  with assms obtain n where "sha_itop ((tick ^^ n) ?r) \<noteq> 0" "\<forall>m<n. sha_itop ((tick ^^ m) ?r) = 0"
      "sha_sts_h ((tick ^^ n) ?r) = hash (sha_cfg_en r) (sha_key_w r) (sha_message r)"
    unfolding computes_def by metis
  then show thesis
    using that [of "(tick ^^ n) ?r"] by (simp add: finish_digest_def wait_itop_returns)
qed

lemma copy_digest_eq:
  assumes "i + n \<le> length sts" and "4 * (i + n) \<le> length out"
  shows "copy_digest sts i n out = take (4 * i) out @ concat (map word_bytes (take n (drop i sts))) @ drop (4 * (i + n)) out"
  using assms
proof (induction n arbitrary: i out)
  case (Suc n)
  let ?w = "word_bytes (sts ! i)"
  let ?o = "out[i * 4 := ?w ! 0, i * 4 + 1 := ?w ! 1, i * 4 + 2 := ?w ! 2, i * 4 + 3 := ?w ! 3]"
  have o: "?o = take (4 * i) out @ ?w @ drop (4 * i + 4) out"
    using Suc.prems(2) update_word [of "4 * i" out ?w] by (simp add: mult.commute)
  define out' where "out' = take (4 * i) out @ ?w @ drop (4 * i + 4) out"
  have len: "length out' = length out" "take (4 * Suc i) out' = take (4 * i) out @ ?w" "drop (4 * (Suc i + n)) out' = drop (4 * (i + Suc n)) out"
    using Suc.prems(2) by (simp_all add: out'_def ac_simps)
  have "copy_digest sts i (Suc n) out = copy_digest sts (Suc i) n out'"
    using o by (simp only: copy_digest.simps Let_def out'_def)
  also have "\<dots> = take (4 * Suc i) out' @ concat (map word_bytes (take n (drop (Suc i) sts))) @ drop (4 * (Suc i + n)) out'"
    using Suc.prems len(1) by (intro Suc.IH) simp_all
  also have "\<dots> = take (4 * i) out @ concat (map word_bytes (sts ! i # take n (drop (Suc i) sts))) @ drop (4 * (i + Suc n)) out"
    by (simp only: len list.map concat.simps append_assoc)
  also have "sts ! i # take n (drop (Suc i) sts) = take (Suc n) (drop i sts)"
    using Suc.prems(1) by (simp add: Cons_nth_drop_Suc [symmetric])
  finally show ?case .
qed simp

section \<open>Sessions\<close>

text \<open>The system calls of several applications, in the order they arrive.\<close>

datatype DigestCall = DgCommand (dg_minor: nat) (dg_r2: nat) (dg_caller: nat) | DgAllow (dg_number: nat) (dg_buffer: "byte list option") (dg_caller: nat)

fun digest_call :: "(nat \<Rightarrow> bool) \<Rightarrow> 's DigestEngine \<Rightarrow> DigestCall \<Rightarrow> ('s DigestDriver, unit, ReturnCode) peff" where
  "digest_call alloc D (DgCommand minor r2 caller) = digest_command alloc D minor r2 caller"
| "digest_call alloc D (DgAllow n buf caller) = digest_allow alloc caller n buf"

fun digest_calls :: "(nat \<Rightarrow> bool) \<Rightarrow> 's DigestEngine \<Rightarrow> DigestCall list \<Rightarrow> ('s DigestDriver, unit, ReturnCode list) peff" where
  "digest_calls alloc D [] = returning (ret [])"
| "digest_calls alloc D (c # cs) = peff_bind (digest_call alloc D c) (\<lambda>rc. peff_bind (digest_calls alloc D cs) (\<lambda>rcs. returning (ret (rc # rcs))))"

text \<open>
  The data application \<open>app\<close> feeds by a sequence of calls, when its input buffer is \<open>b\<close> at the beginning; the calls of
  the others are passed over. A session lasts until the application finalises it.
\<close>

fun call_buffer :: "nat \<Rightarrow> byte list option \<Rightarrow> DigestCall \<Rightarrow> byte list option" where
  "call_buffer app b (DgAllow n b' c) = (if c = app \<and> n = 0 then b' else b)"
| "call_buffer app b (DgCommand m r2 c) = b"

fun call_data :: "nat \<Rightarrow> byte list option \<Rightarrow> DigestCall \<Rightarrow> byte list" where
  "call_data app (Some d) (DgCommand m r2 c) = (if c = app \<and> m = 2 \<and> r2 \<le> length d then take r2 d else [])"
| "call_data app _ _ = []"

fun fed_data :: "nat \<Rightarrow> byte list option \<Rightarrow> DigestCall list \<Rightarrow> byte list" where
  "fed_data app b [] = []"
| "fed_data app b (c # cs) = call_data app b c @ fed_data app (call_buffer app b c) cs"

fun session_call :: "nat \<Rightarrow> DigestCall \<Rightarrow> bool" where
  "session_call app (DgAllow n b c) \<longleftrightarrow> c = app \<longrightarrow> n \<noteq> 1"
| "session_call app (DgCommand m r2 c) \<longleftrightarrow> c = app \<longrightarrow> m \<noteq> 3"

text \<open>The state in the middle of a session.\<close>

definition in_session :: "nat \<Rightarrow> DigestMode \<Rightarrow> u32 list \<Rightarrow> byte list \<Rightarrow> byte list option \<Rightarrow> byte list \<Rightarrow> ShaEngine DigestDriver \<Rightarrow> bool" where
  "in_session app mode key msg buf out s \<longleftrightarrow> grant_ok (dg_apps s) \<and> dg_current_user s = Some app
     \<and> map_of (dg_apps s) app = Some \<lparr>dg_input_buffer = buf, dg_output_buffer = Some out\<rparr>
     \<and> current_mode (dg_engine s) = Some mode \<and> sha_cfg_en (sha_regs (dg_engine s)) = sha_flags mode
     \<and> sha_key_w (sha_regs (dg_engine s)) = key \<and> sha_message (sha_regs (dg_engine s)) = msg"

lemmas digest_commands = digest_command_def command_initialize_def command_update_def command_finalize_def command_certificate_init_def

lemma dg_enter_found:
  assumes "map_of (dg_apps s) c = Some d" and "f d s = Some (Ok (rc, d'), s')"
  shows "dg_enter alloc c f s = Some (Ok rc, s'\<lparr>dg_apps := grant_put c d' (dg_apps s')\<rparr>)"
  using assms by (simp add: dg_enter_def peff_bind_def)

text \<open>A closure that changes at most the data of its own application leaves the others and the engine alone.\<close>

definition spares :: "nat \<Rightarrow> ('s DigestDriver, unit, ReturnCode) peff \<Rightarrow> 's DigestDriver \<Rightarrow> bool" where
  "spares app m s \<longleftrightarrow> (\<exists>rc s'. m s = Some (Ok rc, s') \<and> dg_engine s' = dg_engine s \<and> dg_current_user s' = dg_current_user s
     \<and> map_of (dg_apps s') app = map_of (dg_apps s) app \<and> grant_ok (dg_apps s'))"

lemma dg_enter_spares:
  assumes "\<And>d. \<exists>rc d'. f d s = Some (Ok (rc, d'), s)" and "c \<noteq> app" and "grant_ok (dg_apps s)"
  shows "spares app (dg_enter alloc c f) s"
proof (cases "map_of (dg_apps s) c = None \<and> \<not> alloc c")
  case True
  with assms(3) show ?thesis
    by (simp add: spares_def dg_enter_def)
next
  case False
  define d where "d = (case map_of (dg_apps s) c of Some d \<Rightarrow> d | None \<Rightarrow> DigestApp_default)"
  obtain rc d' where f: "f d s = Some (Ok (rc, d'), s)"
    using assms(1) by blast
  have "dg_enter alloc c f s = peff_bind (f d) (\<lambda>(rc, d) s. Some (Ok rc, s\<lparr>dg_apps := grant_put c d (dg_apps s)\<rparr>)) s"
    using False by (auto simp: dg_enter_def d_def split: option.splits)
  then have "dg_enter alloc c f s = Some (Ok rc, s\<lparr>dg_apps := grant_put c d' (dg_apps s)\<rparr>)"
    using f by simp
  then show ?thesis
    using assms(2,3) by (simp add: spares_def map_of_grant_put grant_put_ok)
qed

text \<open>A call of another application is refused or concerns its own buffers only, whatever the engine is.\<close>

lemma other_call:
  assumes "dg_current_user s = Some app" and "dg_caller c \<noteq> app" and "grant_ok (dg_apps s)"
  shows "spares app (digest_call alloc D c) s"
proof (cases c)
  case c: (DgCommand m r2 caller)
  have "spares app (command_initialize alloc D r2 caller) s" "spares app (command_update alloc D r2 caller) s"
      "spares app (command_finalize alloc D caller) s" "spares app (command_certificate_init alloc D r2 caller) s"
    using assms unfolding command_initialize_def command_update_def command_finalize_def command_certificate_init_def c
    by (auto intro!: dg_enter_spares)
  moreover have "spares app (returning (ret rc)) s" "spares app (\<lambda>s. Some (Ok (if dg_current_user s \<noteq> None then EBUSY else SUCCESS), s)) s" for rc
    using assms(3) by (simp_all add: spares_def ret_def)
  ultimately show ?thesis
    by (simp add: c digest_command_def)
next
  case c: (DgAllow n buf caller)
  then show ?thesis
    using assms(2,3) by (auto simp: digest_allow_def spares_def ret_def intro!: dg_enter_spares [unfolded spares_def])
qed

text \<open>A call of the application itself.\<close>

lemma session_put:
  assumes "in_session app mode key msg buf out s"
  shows "map_of (dg_apps s) app = Some \<lparr>dg_input_buffer = buf, dg_output_buffer = Some out\<rparr>" "dg_current_user s = Some app"
    and "in_session app mode key msg buf out (s\<lparr>dg_apps := grant_put app \<lparr>dg_input_buffer = buf, dg_output_buffer = Some out\<rparr> (dg_apps s)\<rparr>)"
  using assms by (simp_all add: in_session_def map_of_grant_put grant_put_ok)

lemma own_update:
  assumes "in_session app mode key msg buf out s"
  shows "\<exists>rc s'. command_update alloc (sha_engine tick) r2 app s = Some (Ok rc, s')
    \<and> in_session app mode key (msg @ call_data app buf (DgCommand 2 r2 app)) buf out s'"
proof (cases "\<exists>b. buf = Some b \<and> r2 \<le> length b")
  case True
  then obtain b where b: "buf = Some b" "r2 \<le> length b"
    by blast
  let ?d = "\<lparr>dg_input_buffer = buf, dg_output_buffer = Some out\<rparr>"
  let ?s = "s\<lparr>dg_engine := on_sha (\<lambda>r. r\<lparr>sha_message := sha_message r @ take r2 b\<rparr>) (dg_engine s), dg_apps := grant_put app ?d (dg_apps s)\<rparr>"
  have "command_update alloc (sha_engine tick) r2 app s = Some (Ok SUCCESS, ?s)"
    using assms b by (simp add: command_update_def dg_enter_def peff_bind_def sha_engine_def sha_update_def with_code_def on_engine_def in_session_def)
  moreover have "in_session app mode key (msg @ take r2 b) buf out ?s"
    using assms by (simp add: in_session_def on_sha_def map_of_grant_put grant_put_ok)
  ultimately show ?thesis
    using b by simp
next
  case False
  have "call_data app buf (DgCommand 2 r2 app) = []"
    using False by (cases buf) auto
  moreover obtain rc where "command_update alloc (sha_engine tick) r2 app s
      = Some (Ok rc, s\<lparr>dg_apps := grant_put app \<lparr>dg_input_buffer = buf, dg_output_buffer = Some out\<rparr> (dg_apps s)\<rparr>)"
    using False session_put(1,2) [OF assms] by (cases buf) (auto simp: command_update_def dg_enter_def peff_bind_def)
  ultimately show ?thesis
    using session_put(3) [OF assms] by auto
qed

lemma own_command:
  assumes "in_session app mode key msg buf out s" and "m \<noteq> 3"
  shows "\<exists>rc s'. digest_command alloc (sha_engine tick) m r2 app s = Some (Ok rc, s')
    \<and> in_session app mode key (msg @ call_data app buf (DgCommand m r2 app)) buf out s'"
proof -
  note put = session_put [OF assms(1)]
  have busy: "\<exists>s'. command_initialize alloc D r2 app s = Some (Ok EBUSY, s') \<and> in_session app mode key msg buf out s'"
      "\<exists>s'. command_certificate_init alloc D r2 app s = Some (Ok EBUSY, s') \<and> in_session app mode key msg buf out s'" for D
    using put(3) by (auto simp add: command_initialize_def command_certificate_init_def dg_enter_found [OF put(1)] put(2))
  have none: "m' \<noteq> 2 \<Longrightarrow> call_data app buf (DgCommand m' r2 app) = []" for m'
    by (cases buf) simp_all
  consider "m = 0 \<or> m = 4 \<or> 5 < m" | "m = 1" | "m = 2" | "m = 5"
    using assms(2) by linarith
  then show ?thesis
    using assms(1) busy [of "sha_engine tick"] own_update [OF assms(1), of alloc tick r2] none by cases (auto simp: digest_command_def ret_def)
qed

lemma own_call:
  assumes "in_session app mode key msg buf out s" and "session_call app c" and "dg_caller c = app"
  shows "\<exists>rc s'. digest_call alloc (sha_engine tick) c s = Some (Ok rc, s')
    \<and> in_session app mode key (msg @ call_data app buf c) (call_buffer app buf c) out s'"
proof (cases c)
  case (DgCommand m r2 caller)
  then show ?thesis
    using own_command [OF assms(1), of m alloc tick r2] assms(2,3) by simp
next
  case c: (DgAllow n b caller)
  have "call_data app buf c = []"
    by (cases buf) (simp_all add: c)
  then show ?thesis
    using assms by (auto simp: c digest_allow_def dg_enter_def peff_bind_def ret_def map_of_grant_put grant_put_ok in_session_def)
qed

lemma session_step:
  assumes "in_session app mode key msg buf out s" and "session_call app c"
  obtains rc s' where "digest_call alloc (sha_engine tick) c s = Some (Ok rc, s')"
    and "in_session app mode key (msg @ call_data app buf c) (call_buffer app buf c) out s'"
proof (cases "dg_caller c = app")
  case True
  then show thesis
    using own_call [OF assms True, of alloc tick] that by blast
next
  case False
  have "dg_current_user s = Some app" "grant_ok (dg_apps s)"
    using assms(1) by (simp_all add: in_session_def)
  from other_call [OF this(1) False this(2), of alloc "sha_engine tick"] this(1) obtain rc s' where *: "digest_call alloc (sha_engine tick) c s = Some (Ok rc, s')"
      "dg_engine s' = dg_engine s" "dg_current_user s' = Some app" "map_of (dg_apps s') app = map_of (dg_apps s) app" "grant_ok (dg_apps s')"
    unfolding spares_def by metis
  have "call_data app buf c = []" "call_buffer app buf c = buf"
    using False by (cases c; cases buf; simp)+
  with * assms(1) have "in_session app mode key (msg @ call_data app buf c) (call_buffer app buf c) out s'"
    by (simp add: in_session_def)
  with *(1) show thesis
    by (rule that)
qed

lemma digest_calls_append:
  assumes "digest_calls alloc D xs s = Some (Ok rs, s1)" and "digest_calls alloc D ys s1 = Some (Ok rs', s')"
  shows "digest_calls alloc D (xs @ ys) s = Some (Ok (rs @ rs'), s')"
  using assms by (induction xs arbitrary: s rs) (auto simp: peff_bind_Ok_iff ret_def)

lemma session_steps:
  assumes "in_session app mode key msg buf out s" and "list_all (session_call app) cs"
  obtains rcs s' buf' where "digest_calls alloc (sha_engine tick) cs s = Some (Ok rcs, s')"
    and "in_session app mode key (msg @ fed_data app buf cs) buf' out s'"
  using assms
proof (induction cs arbitrary: msg buf s thesis)
  case Nil
  then show ?case
    by (simp add: ret_def)
next
  case (Cons c cs)
  obtain rc s1 where s1: "digest_call alloc (sha_engine tick) c s = Some (Ok rc, s1)"
      "in_session app mode key (msg @ call_data app buf c) (call_buffer app buf c) out s1"
    using session_step [OF Cons.prems(2)] Cons.prems(3) by (metis list.pred_inject(2))
  obtain rcs s' buf' where s': "digest_calls alloc (sha_engine tick) cs s1 = Some (Ok rcs, s')"
      "in_session app mode key ((msg @ call_data app buf c) @ fed_data app (call_buffer app buf c) cs) buf' out s'"
    using Cons.IH [OF _ s1(2)] Cons.prems(3) by (metis list.pred_inject(2))
  have "digest_calls alloc (sha_engine tick) (c # cs) s = Some (Ok (rc # rcs), s')"
    using s1(1) s'(1) by (simp add: ret_def)
  with s'(2) Cons.prems(1) show ?case
    by simp
qed

section \<open>Properties\<close>

definition digest_of :: "(u32 \<Rightarrow> u32 list \<Rightarrow> byte list \<Rightarrow> u32 list) \<Rightarrow> DigestMode \<Rightarrow> u32 list \<Rightarrow> byte list \<Rightarrow> byte list" where
  "digest_of hash mode key msg = concat (map word_bytes (take (output_size mode div 4) (hash (sha_flags mode) key msg)))"

lemma finalize_session:
  assumes "in_session app mode key msg buf out s" and "computes hash tick" and "output_size mode \<le> length out"
  obtains s' d where "digest_call alloc (sha_engine tick) (DgCommand 3 0 app) s = Some (Ok SUCCESS, s')" and "dg_current_user s' = None"
    and "map_of (dg_apps s') app = Some d" and "dg_output_buffer d = Some (digest_of hash mode key msg @ drop (output_size mode) out)"
proof -
  obtain r where r: "finish_digest tick (sha_regs (dg_engine s)) = Some r" "sha_sts_h r = hash (sha_flags mode) key msg"
    using finish_digest_computes [OF assms(2), of "sha_regs (dg_engine s)"] assms(1) by (auto simp: in_session_def)
  have "length (sha_sts_h r) = 8" "output_size mode \<le> 32" "4 * (output_size mode div 4) = output_size mode"
    using assms(2) r(2) by (simp_all add: computes_def, (cases mode; simp)+)
  then have copy: "copy_digest (sha_sts_h r) 0 (output_size mode div 4) out = digest_of hash mode key msg @ drop (output_size mode) out"
    using assms(3) by (simp add: copy_digest_eq digest_of_def r(2))
  let ?d = "\<lparr>dg_input_buffer = buf, dg_output_buffer = Some (digest_of hash mode key msg @ drop (output_size mode) out)\<rparr>"
  let ?e = "(dg_engine s)\<lparr>sha_regs := r\<lparr>sha_itop := 0\<rparr>\<rparr>"
  let ?s = "s\<lparr>dg_current_user := None, dg_engine := ?e, dg_apps := grant_put app ?d (dg_apps s)\<rparr>"
  have "sha_finalize tick out (dg_engine s) = Some ((Ok (output_size mode), digest_of hash mode key msg @ drop (output_size mode) out), ?e)"
    using assms(1,3) r(1) copy by (simp add: sha_finalize_def in_session_def)
  then have "digest_call alloc (sha_engine tick) (DgCommand 3 0 app) s = Some (Ok SUCCESS, ?s)"
    using assms(1) by (simp add: digest_commands dg_enter_def peff_bind_def with_code_def sha_engine_def in_session_def)
  then show thesis
    using that [of ?s ?d] assms(1) by (simp add: map_of_grant_put in_session_def)
qed

lemma open_session:
  assumes "grant_ok (dg_apps s)" and "dg_current_user s = None" and "map_of (dg_apps s) app = Some d"
    and mode: "mode = Sha1 \<and> m = 0 \<or> mode = Sha256 \<and> m = 1" and "dg_output_buffer d = Some out"
  obtains s' where "digest_call alloc (sha_engine tick) (DgCommand 1 m app) s = Some (Ok SUCCESS, s')"
    and "in_session app mode (sha_key_w (sha_regs (dg_engine s))) [] (dg_input_buffer d) out s'"
proof -
  let ?e = "snd (sha_initialize mode (dg_engine s))"
  let ?s = "s\<lparr>dg_current_user := Some app, dg_engine := ?e, dg_apps := grant_put app d (dg_apps s)\<rparr>"
  have "digest_call alloc (sha_engine tick) (DgCommand 1 m app) s = Some (Ok SUCCESS, ?s)"
    using assms(2,3) mode
    by (auto simp: digest_commands dg_enter_def peff_bind_def with_code_def on_engine_def sha_engine_def sha_initialize_def)
  moreover have "in_session app mode (sha_key_w (sha_regs (dg_engine s))) [] (dg_input_buffer d) out ?s"
    using assms by (cases d) (simp add: in_session_def map_of_grant_put grant_put_ok sha_initialize_def on_sha_def trigger_def Let_def sha_masks)
  ultimately show thesis
    by (rule that)
qed

text \<open>C14. A digest session computes the digest of the data its application gave it, whatever the other applications do
  meanwhile: application \<open>app\<close>, which has shared an output buffer, initialises a SHA-1 or SHA-256 digest of the free
  engine; then any calls of any applications follow, those of \<open>app\<close> itself being updates, exchanges of its input
  buffer, or calls that are refused; then \<open>app\<close> finalises. With hardware that computes \<open>hash\<close> every call returns, the
  buffer begins with the digest of exactly the bytes \<open>app\<close> fed and keeps the rest of its content, and the
  driver is free again.
\<close>

theorem digest_session_computes:
  assumes "computes hash tick" and "grant_ok (dg_apps s)" and "dg_current_user s = None" and "map_of (dg_apps s) app = Some d"
    and "mode = Sha1 \<and> m = 0 \<or> mode = Sha256 \<and> m = 1" and "dg_output_buffer d = Some out" and "output_size mode \<le> length out"
    and "list_all (session_call app) cs"
  shows "\<exists>rcs s' d'. digest_calls alloc (sha_engine tick) ([DgCommand 1 m app] @ cs @ [DgCommand 3 0 app]) s = Some (Ok (SUCCESS # rcs @ [SUCCESS]), s')
    \<and> dg_current_user s' = None \<and> map_of (dg_apps s') app = Some d'
    \<and> dg_output_buffer d' = Some (digest_of hash mode (sha_key_w (sha_regs (dg_engine s))) (fed_data app (dg_input_buffer d) cs) @ drop (output_size mode) out)"
proof -
  let ?key = "sha_key_w (sha_regs (dg_engine s))"
  obtain s1 where s1: "digest_call alloc (sha_engine tick) (DgCommand 1 m app) s = Some (Ok SUCCESS, s1)"
      "in_session app mode ?key [] (dg_input_buffer d) out s1"
    using open_session [OF assms(2-6), of alloc tick] by metis
  obtain rcs s2 buf where s2: "digest_calls alloc (sha_engine tick) cs s1 = Some (Ok rcs, s2)"
      "in_session app mode ?key ([] @ fed_data app (dg_input_buffer d) cs) buf out s2"
    using session_steps [OF s1(2) assms(8)] by metis
  obtain s' d' where s': "digest_call alloc (sha_engine tick) (DgCommand 3 0 app) s2 = Some (Ok SUCCESS, s')" "dg_current_user s' = None"
      "map_of (dg_apps s') app = Some d'"
      "dg_output_buffer d' = Some (digest_of hash mode ?key ([] @ fed_data app (dg_input_buffer d) cs) @ drop (output_size mode) out)"
    using finalize_session [OF s2(2) assms(1,7)] by metis
  have "digest_calls alloc (sha_engine tick) [DgCommand 3 0 app] s2 = Some (Ok [SUCCESS], s')"
    using s'(1) by (simp add: ret_def del: digest_call.simps)
  from digest_calls_append [OF s2(1) this]
  have "digest_calls alloc (sha_engine tick) ([DgCommand 1 m app] @ cs @ [DgCommand 3 0 app]) s = Some (Ok (SUCCESS # rcs @ [SUCCESS]), s')"
    using s1(1) by (simp add: ret_def del: digest_call.simps)
  with s' show ?thesis
    by auto
qed

text \<open>An engine that finishes at once with the length of the message in every word.\<close>

definition demo_tick :: "ShaRegisters \<Rightarrow> ShaRegisters" where
  "demo_tick r = r\<lparr>sha_itop := 1, sha_sts_h := replicate 8 (word_of_nat (length (sha_message r)))\<rparr>"

definition demo_hash :: "u32 \<Rightarrow> u32 list \<Rightarrow> byte list \<Rightarrow> u32 list" where
  "demo_hash cfg key msg = replicate 8 (word_of_nat (length msg))"

definition demo_digest :: "ShaEngine DigestDriver" where
  "demo_digest = (DigestDriver_new \<lparr>sha_regs = \<lparr>sha_cfg_en = 0, sha_trig = 0, sha_itop = 0, sha_use_cert = 0, sha_key_w = replicate 8 0,
     sha_sts_h = replicate 8 0, sha_message = []\<rparr>, current_mode = None\<rparr>)
     \<lparr>dg_apps := [(7, \<lparr>dg_input_buffer = Some [1, 2], dg_output_buffer = Some (replicate 21 9)\<rparr>)]\<rparr>"

definition demo_calls :: "DigestCall list" where
  "demo_calls = [DgCommand 2 2 7, DgCommand 1 0 8, DgAllow 0 (Some [3]) 8, DgCommand 2 5 7, DgAllow 0 (Some [4, 5]) 7, DgCommand 2 1 8, DgCommand 2 1 7]"

lemma demo_computes: "computes demo_hash demo_tick"
  unfolding computes_def by (auto simp: demo_tick_def demo_hash_def intro!: exI [of _ 1])

lemma demo_digest_of: "digest_of demo_hash Sha1 key [1, 2, 4] = concat (replicate 5 [3, 0, 0, 0])"
proof -
  have "word_bytes 3 = [3, 0, 0, 0]"
    by (simp add: word_bytes_def)
  then show ?thesis
    by (simp add: digest_of_def demo_hash_def)
qed

theorem digest_session_computes_witness:
  "\<exists>rcs s' d. digest_calls (\<lambda>_. True) (sha_engine demo_tick) ([DgCommand 1 0 7] @ demo_calls @ [DgCommand 3 0 7]) demo_digest = Some (Ok (SUCCESS # rcs @ [SUCCESS]), s')
     \<and> dg_current_user s' = None \<and> map_of (dg_apps s') 7 = Some d \<and> dg_output_buffer d = Some (concat (replicate 5 [3, 0, 0, 0]) @ [9])"
proof -
  let ?d = "\<lparr>dg_input_buffer = Some [1, 2], dg_output_buffer = Some (replicate 21 9)\<rparr>"
  have "grant_ok (dg_apps demo_digest)" "dg_current_user demo_digest = None" "map_of (dg_apps demo_digest) 7 = Some ?d"
    by (simp_all add: demo_digest_def DigestDriver_new_def grant_ok_def)
  note * = digest_session_computes [OF demo_computes this, of Sha1 0 "replicate 21 9" demo_calls "\<lambda>_. True"]
  have "fed_data 7 (dg_input_buffer ?d) demo_calls = [1, 2, 4]" "drop (output_size Sha1) (replicate 21 (9 :: byte)) = [9]"
      "list_all (session_call 7) demo_calls" "output_size Sha1 \<le> length (replicate 21 (9 :: byte))"
    by (simp_all add: demo_calls_def)
  then show ?thesis
    using * by (simp only: demo_digest_of) simp
qed

text \<open>An initialisation that fails keeps the engine: a command with an unknown digest mode, or for a keyed digest without
  a key, answers an error to a free driver, but the driver records the caller as its user, and until that application
  finalises, which it has no reason to do, every initialisation of every application answers busy.
\<close>

theorem failed_initialize_reserves:
  assumes "dg_current_user s = None" and "map_of (dg_apps s) app = Some d" and "2 < m \<or> m = 2 \<and> dg_input_buffer d = None" and "alloc other"
  shows "\<exists>rc s'. digest_command alloc D 1 m app s = Some (Ok rc, s') \<and> (rc = EINVAL \<or> rc = ENOMEM) \<and> dg_current_user s' = Some app
    \<and> (\<forall>m'. fst (the (digest_command alloc D 1 m' other s')) = Ok EBUSY)"
proof -
  let ?s = "s\<lparr>dg_current_user := Some app, dg_apps := grant_put app d (dg_apps s)\<rparr>"
  obtain rc where "digest_command alloc D 1 m app s = Some (Ok rc, ?s)" "rc = EINVAL \<or> rc = ENOMEM"
    using assms(1-3) by (auto simp: digest_commands dg_enter_def peff_bind_def)
  moreover have "fst (the (digest_command alloc D 1 m' other ?s)) = Ok EBUSY" for m'
    using assms(4) by (auto simp: digest_commands dg_enter_def peff_bind_def split: option.splits)
  ultimately show ?thesis
    by auto
qed

theorem failed_initialize_reserves_witness:
  "\<exists>rc s'. digest_command (\<lambda>_. True) (sha_engine demo_tick) 1 3 7 demo_digest = Some (Ok rc, s') \<and> (rc = EINVAL \<or> rc = ENOMEM)
     \<and> dg_current_user s' = Some 7 \<and> (\<forall>m. fst (the (digest_command (\<lambda>_. True) (sha_engine demo_tick) 1 m 8 s')) = Ok EBUSY)"
proof -
  have "dg_current_user demo_digest = None" "map_of (dg_apps demo_digest) 7 = Some \<lparr>dg_input_buffer = Some [1, 2], dg_output_buffer = Some (replicate 21 9)\<rparr>"
    by (simp_all add: demo_digest_def DigestDriver_new_def)
  from failed_initialize_reserves [OF this, of 3 "\<lambda>_. True" 8 "sha_engine demo_tick"] show ?thesis
    by simp
qed

end
