(* ===== verification/Aes.thy ===== *)
theory Aes
  imports Digest
begin

text \<open>
  The AES engine of \<^verbatim>\<open>kernel/h1/src/crypto/aes.rs\<close> and the system calls of
  \<^verbatim>\<open>kernel/h1_syscalls/src/aes.rs\<close> that encrypt single blocks with it.
\<close>

section \<open>Registers\<close>

datatype KeySize = KeySize128 | KeySize192 | KeySize256

fun u32_of_KeySize :: "KeySize \<Rightarrow> u32" where
  "u32_of_KeySize KeySize128 = 0x0"
| "u32_of_KeySize KeySize192 = 0x2"
| "u32_of_KeySize KeySize256 = 0x4"

datatype CipherMode = Ecb | Ctr | Cbc | Gcm

fun u32_of_CipherMode :: "CipherMode \<Rightarrow> u32" where
  "u32_of_CipherMode Ecb = 0x0"
| "u32_of_CipherMode Ctr = 0x8"
| "u32_of_CipherMode Cbc = 0x10"
| "u32_of_CipherMode Gcm = 0x18"

definition Mode_Encrypt :: u32 where "Mode_Encrypt = 0x20"
definition CtrEndian_Little :: u32 where "CtrEndian_Little = 0x40"
definition AesModule_Enable :: u32 where "AesModule_Enable = 0x80"

datatype AesInterrupt = WFIFOOverflow | RFIFOOverflow | RFIFOUnderflow | DoneCipher | DoneKeyExpansion | DoneWipeSecrets

fun usize_of_AesInterrupt :: "AesInterrupt \<Rightarrow> nat" where
  "usize_of_AesInterrupt WFIFOOverflow = 0"
| "usize_of_AesInterrupt RFIFOOverflow = 1"
| "usize_of_AesInterrupt RFIFOUnderflow = 2"
| "usize_of_AesInterrupt DoneCipher = 3"
| "usize_of_AesInterrupt DoneKeyExpansion = 4"
| "usize_of_AesInterrupt DoneWipeSecrets = 5"

definition ParsedInterrupt_from :: "nat \<Rightarrow> AesInterrupt option" where
  "ParsedInterrupt_from n =
     (if n = 104 then Some DoneCipher else if n = 105 then Some DoneKeyExpansion else if n = 106 then Some DoneWipeSecrets
      else if n = 107 then Some RFIFOOverflow else if n = 108 then Some RFIFOUnderflow else if n = 109 then Some WFIFOOverflow else None)"

text \<open>
  \<open>aes_written\<close> lists the words written to \<^verbatim>\<open>wfifo_data\<close> and \<open>aes_room\<close> is the room left in that FIFO;
  \<open>aes_rfifo\<close> holds the words the engine has computed.
\<close>

record AesRegisters =
  aes_ctrl :: u32
  aes_written :: "u32 list"
  aes_room :: nat
  aes_rfifo :: "u32 list"
  aes_key :: "u32 list"
  aes_key_start :: u32
  aes_ctr :: "u32 list"
  aes_wipe_secrets :: u32
  aes_int_enable :: u32
  aes_int_state :: u32

record AesEngine =
  aes_regs :: AesRegisters
  aes_client :: bool
  aes_output :: "byte list option"
  aes_input :: "byte list option"
  aes_read_index :: nat
  aes_write_index :: nat
  aes_stop_index :: nat

definition AesEngine_new :: "AesRegisters \<Rightarrow> AesEngine" where
  "AesEngine_new r = \<lparr>aes_regs = r, aes_client = False, aes_output = None, aes_input = None, aes_read_index = 0, aes_write_index = 0, aes_stop_index = 0\<rparr>"

section \<open>The engine\<close>

definition on_aes :: "(AesRegisters \<Rightarrow> AesRegisters) \<Rightarrow> AesEngine \<Rightarrow> AesEngine" where
  "on_aes f e = e\<lparr>aes_regs := f (aes_regs e)\<rparr>"

definition aes_enable_interrupt :: "AesInterrupt \<Rightarrow> AesRegisters \<Rightarrow> AesRegisters" where
  "aes_enable_interrupt i r = r\<lparr>aes_int_enable := aes_int_enable r OR push_bit (usize_of_AesInterrupt i) 1\<rparr>"

definition aes_clear_interrupt :: "AesInterrupt \<Rightarrow> AesRegisters \<Rightarrow> AesRegisters" where
  "aes_clear_interrupt i r = r\<lparr>aes_int_state := push_bit (usize_of_AesInterrupt i) 1\<rparr>"

definition aes_enable_all_interrupts :: "AesRegisters \<Rightarrow> AesRegisters" where
  "aes_enable_all_interrupts r = fold aes_enable_interrupt [WFIFOOverflow, RFIFOOverflow, RFIFOUnderflow, DoneCipher, DoneKeyExpansion, DoneWipeSecrets] r"

definition aes_setup :: "AesRegisters \<Rightarrow> AesRegisters" where
  "aes_setup r =
     (let r = aes_enable_interrupt DoneKeyExpansion (aes_enable_interrupt DoneCipher r) in r\<lparr>aes_ctrl := aes_ctrl r OR AesModule_Enable\<rparr>)"

definition aes_set_client :: "AesEngine \<Rightarrow> AesEngine" where
  "aes_set_client e = e\<lparr>aes_client := True\<rparr>"

definition set_cipher_mode :: "CipherMode \<Rightarrow> AesRegisters \<Rightarrow> AesRegisters" where
  "set_cipher_mode mode r =
     (let control = aes_ctrl r; control = control AND NOT 0x18; control = control OR push_bit 3 (u32_of_CipherMode mode) in r\<lparr>aes_ctrl := control\<rparr>)"

definition set_encrypt_mode :: "bool \<Rightarrow> AesRegisters \<Rightarrow> AesRegisters" where
  "set_encrypt_mode encrypt r =
     (if encrypt then r\<lparr>aes_ctrl := aes_ctrl r OR Mode_Encrypt\<rparr> else r\<lparr>aes_ctrl := aes_ctrl r AND NOT Mode_Encrypt\<rparr>)"

definition set_mode_aes128ecb :: "bool \<Rightarrow> AesRegisters \<Rightarrow> AesRegisters" where
  "set_mode_aes128ecb encrypting r = set_encrypt_mode encrypting (set_cipher_mode Ecb r)"

definition set_mode_aes128cbc :: "bool \<Rightarrow> AesRegisters \<Rightarrow> AesRegisters" where
  "set_mode_aes128cbc encrypting r = set_encrypt_mode encrypting (set_cipher_mode Cbc r)"

definition set_mode_aes128ctr :: "bool \<Rightarrow> AesRegisters \<Rightarrow> AesRegisters" where
  "set_mode_aes128ctr _ r = set_encrypt_mode True (set_cipher_mode Ctr r)"

text \<open>The engine clears \<^verbatim>\<open>key_start\<close> when it has expanded the key; what it does meanwhile is \<open>tick\<close>.\<close>

partial_function (option) wait_key_start :: "(AesRegisters \<Rightarrow> AesRegisters) \<Rightarrow> AesRegisters \<Rightarrow> AesRegisters option" where
  "wait_key_start tick r = (if aes_key_start r \<noteq> 0 then wait_key_start tick (tick r) else Some r)"

definition install_key :: "(AesRegisters \<Rightarrow> AesRegisters) \<Rightarrow> KeySize \<Rightarrow> u32 list \<Rightarrow> AesRegisters \<Rightarrow> AesRegisters option" where
  "install_key tick key_size key r =
     wait_key_start tick (r\<lparr>aes_ctrl := aes_ctrl r AND NOT 0x6 OR push_bit 1 (u32_of_KeySize key_size), aes_key := key, aes_key_start := 1\<rparr>)"

definition aes_set_key :: "(AesRegisters \<Rightarrow> AesRegisters) \<Rightarrow> byte list \<Rightarrow> (AesEngine, unit, ReturnCode) peff" where
  "aes_set_key tick key e =
     (if length key \<noteq> 16 then Some (Ok ESIZE, e)
      else map_option (\<lambda>r. (Ok SUCCESS, e\<lparr>aes_regs := r\<rparr>))
        (install_key tick KeySize128 (map (le_word key) [0..<4] @ replicate 4 0) (aes_regs e)))"

definition aes_set_iv :: "byte list \<Rightarrow> AesEngine \<Rightarrow> ReturnCode \<times> AesEngine" where
  "aes_set_iv iv e =
     (if length iv \<noteq> 16 then (ESIZE, e) else (SUCCESS, on_aes (\<lambda>r. r\<lparr>aes_ctr := map (le_word iv) [0..<4]\<rparr>) e))"

text \<open>The words of a block, as \<^verbatim>\<open>chunks(4)\<close> cuts it; the last may be shorter.\<close>

fun word_chunks :: "byte list \<Rightarrow> byte list list" where
  "word_chunks (a # b # c # d # bs) = [a, b, c, d] # word_chunks bs"
| "word_chunks [] = []"
| "word_chunks bs = [bs]"

fun chunk_word :: "nat \<Rightarrow> byte list \<Rightarrow> u32 \<Rightarrow> u32" where
  "chunk_word i [] accm = accm"
| "chunk_word i (b # bs) accm = chunk_word (Suc i) bs (accm OR push_bit (i * 8) (ucast b))"

definition put_wfifo :: "u32 \<Rightarrow> AesRegisters \<Rightarrow> AesRegisters" where
  "put_wfifo w r = r\<lparr>aes_written := aes_written r @ [w], aes_room := aes_room r - 1\<rparr>"

fun write_block :: "byte list list \<Rightarrow> nat \<Rightarrow> nat \<Rightarrow> AesRegisters \<Rightarrow> nat \<times> nat \<times> AesRegisters" where
  "write_block [] bytes words r = (bytes, words, r)"
| "write_block (w # ws) bytes words r =
     (if aes_room r = 0 \<or> 16 \<le> bytes then (bytes, words, r)
      else write_block ws (bytes + length w) (Suc words) (put_wfifo (chunk_word 0 w 0) r))"

definition AesEngine_crypt :: "byte list \<Rightarrow> AesRegisters \<Rightarrow> nat \<times> AesRegisters" where
  "AesEngine_crypt input r =
     (case write_block (word_chunks input) 0 0 r of (bytes, words, r) \<Rightarrow> (bytes, (put_wfifo 0 ^^ (4 - words)) r))"

fun read_fifo :: "u32 list \<Rightarrow> nat \<Rightarrow> byte list \<Rightarrow> nat \<times> byte list \<times> u32 list" where
  "read_fifo [] i output = (i, output, [])"
| "read_fifo (w # ws) i output =
     (if i + 3 < length output
      then read_fifo ws (i + 4) (output[i := word_bytes w ! 0, i + 1 := word_bytes w ! 1, i + 2 := word_bytes w ! 2, i + 3 := word_bytes w ! 3])
      else (i, output, w # ws))"

definition aes_read_data :: "byte list \<Rightarrow> AesEngine \<Rightarrow> (nat \<times> byte list) \<times> AesEngine" where
  "aes_read_data output e =
     (case read_fifo (aes_rfifo (aes_regs e)) 0 output of (i, output, ws) \<Rightarrow> ((i, output), on_aes (\<lambda>r. r\<lparr>aes_rfifo := ws\<rparr>) e))"

definition aes_finish :: "AesRegisters \<Rightarrow> AesRegisters" where
  "aes_finish r = r\<lparr>aes_int_enable := 0, aes_ctrl := 0, aes_wipe_secrets := 1\<rparr>"

definition AES128_BLOCK_SIZE :: nat where "AES128_BLOCK_SIZE = 16"
definition AES128_KEY_SIZE :: nat where "AES128_KEY_SIZE = 16"

definition try_set_indices :: "nat \<Rightarrow> nat \<Rightarrow> AesEngine \<Rightarrow> bool \<times> AesEngine" where
  "try_set_indices start stop e =
     (if stop < start then (False, e)
      else if (stop - start) mod AES128_BLOCK_SIZE \<noteq> 0 then (False, e)
      else case aes_input e of
        None \<Rightarrow>
          if (case aes_output e of None \<Rightarrow> False | Some dest \<Rightarrow> stop \<le> length dest)
          then (True, e\<lparr>aes_write_index := start, aes_read_index := start, aes_stop_index := stop\<rparr>) else (False, e)
      | Some source \<Rightarrow>
          if stop - start = length source \<and> (case aes_output e of None \<Rightarrow> False | Some dest \<Rightarrow> stop \<le> length dest)
          then (True, e\<lparr>aes_write_index := 0, aes_read_index := start, aes_stop_index := stop\<rparr>) else (False, e))"

text \<open>The slice of a buffer that is handed to the engine panics out of range.\<close>

definition crypt_slice :: "nat \<Rightarrow> nat \<Rightarrow> byte list \<Rightarrow> (AesEngine, unit, unit) eff" where
  "crypt_slice start stop buf e =
     (if length buf < stop then (Panic, e) else (Ok (), on_aes (\<lambda>r. snd (AesEngine_crypt (drop start (take stop buf)) r)) e))"

definition aes128_crypt :: "byte list option \<Rightarrow> byte list \<Rightarrow> nat \<Rightarrow> nat \<Rightarrow> (AesEngine, unit, (ReturnCode \<times> byte list option \<times> byte list) option) eff" where
  "aes128_crypt source dest start stop e =
     (if aes_input e \<noteq> None then (Ok (Some (EBUSY, source, dest)), e)
      else case try_set_indices start stop (e\<lparr>aes_input := source, aes_output := Some dest\<rparr>) of
        (True, e) \<Rightarrow>
          eff_bind (crypt_slice start stop (case aes_input e of Some buf \<Rightarrow> buf | None \<Rightarrow> case aes_output e of Some buf \<Rightarrow> buf | None \<Rightarrow> []))
            (\<lambda>_. ret None) e
      | (False, e) \<Rightarrow>
          (case aes_output e of
             None \<Rightarrow> (Panic, e)
           | Some obuf \<Rightarrow> (Ok (Some (EINVAL, aes_input e, obuf)), e\<lparr>aes_input := None, aes_output := None\<rparr>)))"

section \<open>System calls\<close>

record AesApp =
  ae_key :: "byte list option"
  ae_input_buffer :: "byte list option"
  ae_output_buffer :: "byte list option"
  ae_iv_buffer :: "byte list option"
  ae_crypto_callback :: bool

definition AesApp_default :: AesApp where
  "AesApp_default = \<lparr>ae_key = None, ae_input_buffer = None, ae_output_buffer = None, ae_iv_buffer = None, ae_crypto_callback = False\<rparr>"

text \<open>\<open>ae_scheduled\<close> lists the callbacks the driver scheduled: application and number of bytes.\<close>

record AesDriver =
  ae_device :: AesEngine
  ae_apps :: "AesApp grant"
  ae_current_user :: "nat option"
  ae_buffer :: "byte list option"
  ae_scheduled :: "(nat \<times> nat) list"

definition AesDriver_new :: "AesEngine \<Rightarrow> AesDriver" where
  "AesDriver_new e = \<lparr>ae_device = e, ae_apps = [], ae_current_user = None, ae_buffer = None, ae_scheduled = []\<rparr>"

definition on_ae_regs :: "(AesRegisters \<Rightarrow> AesRegisters) \<Rightarrow> AesDriver \<Rightarrow> AesDriver" where
  "on_ae_regs f s = s\<lparr>ae_device := on_aes f (ae_device s)\<rparr>"

definition on_ae_device :: "(AesEngine, unit, 'a) peff \<Rightarrow> (AesDriver, unit, 'a) peff" where
  "on_ae_device m s = map_option (\<lambda>(r, e). (r, s\<lparr>ae_device := e\<rparr>)) (m (ae_device s))"

definition AesDriver_initialize :: "byte list \<Rightarrow> AesDriver \<Rightarrow> byte list option \<times> AesDriver" where
  "AesDriver_initialize input_buffer s =
     (let s = on_ae_regs aes_setup s in
      if length input_buffer \<noteq> AES128_BLOCK_SIZE then (Some input_buffer, s) else (None, s\<lparr>ae_buffer := Some input_buffer\<rparr>))"

definition ae_enter :: "(nat \<Rightarrow> bool) \<Rightarrow> nat \<Rightarrow> ReturnCode \<Rightarrow> (AesApp \<Rightarrow> (AesDriver, unit, ReturnCode \<times> AesApp) peff) \<Rightarrow> (AesDriver, unit, ReturnCode) peff" where
  "ae_enter alloc app failure f s =
     (case (case map_of (ae_apps s) app of Some d \<Rightarrow> Some d | None \<Rightarrow> if alloc app then Some AesApp_default else None) of
        None \<Rightarrow> Some (Ok failure, s)
      | Some d \<Rightarrow> peff_bind (f d) (\<lambda>(rc, d) s. Some (Ok rc, s\<lparr>ae_apps := grant_put app d (ae_apps s)\<rparr>)) s)"

text \<open>The copy of the input into the buffer of the kernel, and the request to the engine.\<close>

definition start_block :: "byte list \<Rightarrow> (AesDriver, unit, ReturnCode) peff" where
  "start_block src s =
     (if length src < AES128_BLOCK_SIZE then Some (Panic, s)
      else case ae_buffer s of
        None \<Rightarrow> Some (Panic, s)
      | Some buf \<Rightarrow>
          if length buf < AES128_BLOCK_SIZE then Some (Panic, s)
          else peff_bind (on_ae_device (returning (aes128_crypt None (take AES128_BLOCK_SIZE src @ drop AES128_BLOCK_SIZE buf) 0 AES128_BLOCK_SIZE)))
            (\<lambda>opt s. Some (case opt of
               Some (rcode, _, obuf) \<Rightarrow> (Ok rcode, s\<lparr>ae_buffer := Some obuf\<rparr>)
             | None \<Rightarrow> (Ok SUCCESS, s))) (s\<lparr>ae_buffer := None\<rparr>))"

definition run_aes :: "(AesRegisters \<Rightarrow> AesRegisters) \<Rightarrow> (nat \<Rightarrow> bool) \<Rightarrow> nat \<Rightarrow> (AesDriver, unit, ReturnCode) peff" where
  "run_aes tick alloc caller = ae_enter alloc caller ENOMEM (\<lambda>app s.
     case ae_input_buffer app of
       None \<Rightarrow> Some (Ok (ENOMEM, app), s)
     | Some src \<Rightarrow>
         (case ae_key app of
            None \<Rightarrow> Some (Ok (ENOMEM, app), s)
          | Some key \<Rightarrow>
              if ae_buffer s = None then Some (Ok (ENOMEM, app), s)
              else if length key \<noteq> AES128_KEY_SIZE then Some (Ok (EINVAL, app\<lparr>ae_key := None\<rparr>), s)
              else peff_bind (on_ae_device (aes_set_key tick key)) (\<lambda>_.
                   peff_bind (start_block src) (\<lambda>rc. returning (ret (rc, app)))) s))"

text \<open>
  The completion: the output buffer is filled first, and what is left of the result goes to the input buffer; the
  number of bytes of the second copy is reported.
\<close>

definition ae_fill :: "byte list option \<Rightarrow> AesEngine \<Rightarrow> (nat \<times> byte list option) \<times> AesEngine" where
  "ae_fill buf e = (case buf of None \<Rightarrow> ((0, None), e) | Some b \<Rightarrow> (case aes_read_data b e of ((n, b), e) \<Rightarrow> ((n, Some b), e)))"

definition crypt_done :: "(nat \<Rightarrow> bool) \<Rightarrow> byte list \<Rightarrow> AesDriver \<Rightarrow> AesDriver" where
  "crypt_done alloc output_buffer s =
     (case ae_current_user s of
        None \<Rightarrow> s
      | Some user \<Rightarrow>
          (case (case map_of (ae_apps s) user of Some d \<Rightarrow> Some d | None \<Rightarrow> if alloc user then Some AesApp_default else None) of
             None \<Rightarrow> s
           | Some app \<Rightarrow>
               (case ae_fill (ae_output_buffer app) (ae_device s) of ((_, out), e) \<Rightarrow>
               (case ae_fill (ae_input_buffer app) e of ((val, inp), e) \<Rightarrow>
                  s\<lparr>ae_device := e, ae_apps := grant_put user (app\<lparr>ae_output_buffer := out, ae_input_buffer := inp\<rparr>) (ae_apps s),
                    ae_current_user := None, ae_scheduled := ae_scheduled s @ (if ae_crypto_callback app then [(user, val)] else [])\<rparr>))))
     \<lparr>ae_buffer := Some output_buffer\<rparr>"

definition aes_handle_interrupt :: "(nat \<Rightarrow> bool) \<Rightarrow> nat \<Rightarrow> (AesDriver, unit, unit) eff" where
  "aes_handle_interrupt alloc n s =
     (case ParsedInterrupt_from n of
        None \<Rightarrow> (Panic, s)
      | Some i \<Rightarrow>
          eff_bind (\<lambda>s.
            if aes_client (ae_device s) \<and> i = DoneCipher then
              (case aes_output (ae_device s) of
                 None \<Rightarrow> (Panic, s)
               | Some output_buffer \<Rightarrow>
                   (Ok (), crypt_done alloc output_buffer (s\<lparr>ae_device := (ae_device s)\<lparr>aes_input := None, aes_output := None\<rparr>\<rparr>)))
            else (Ok (), s))
          (\<lambda>_ s. (Ok (), on_ae_regs (aes_clear_interrupt i) s)) s)"

definition ae_subscribe :: "(nat \<Rightarrow> bool) \<Rightarrow> nat \<Rightarrow> bool \<Rightarrow> nat \<Rightarrow> (AesDriver, unit, ReturnCode) peff" where
  "ae_subscribe alloc num callback app_id =
     (if num = 0 then ae_enter alloc app_id ENOMEM (\<lambda>app s. Some (Ok (SUCCESS, app\<lparr>ae_crypto_callback := callback\<rparr>), s))
      else returning (ret ENOSUPPORT))"

definition ae_command_ctr :: "(AesRegisters \<Rightarrow> AesRegisters) \<Rightarrow> (nat \<Rightarrow> bool) \<Rightarrow> nat \<Rightarrow> (AesDriver, unit, ReturnCode) peff" where
  "ae_command_ctr tick alloc caller = peff_bind
     (ae_enter alloc caller ENOMEM (\<lambda>app s.
        let s = on_ae_regs (set_mode_aes128ctr True) s in
        case ae_iv_buffer app of
          None \<Rightarrow> Some (Ok (ENOMEM, app), s)
        | Some iv \<Rightarrow> Some (Ok (SUCCESS, app), s\<lparr>ae_device := snd (aes_set_iv iv (ae_device s))\<rparr>)))
     (\<lambda>rc. if rc = SUCCESS then run_aes tick alloc caller else returning (ret rc))"

definition ae_install_key :: "(AesRegisters \<Rightarrow> AesRegisters) \<Rightarrow> (nat \<Rightarrow> bool) \<Rightarrow> nat \<Rightarrow> (AesDriver, unit, ReturnCode) peff" where
  "ae_install_key tick alloc caller = ae_enter alloc caller ENOMEM (\<lambda>app s.
     case ae_key app of
       None \<Rightarrow> Some (Ok (ENOMEM, app), s)
     | Some key \<Rightarrow>
         if length key = AES128_KEY_SIZE then peff_bind (on_ae_device (aes_set_key tick key)) (\<lambda>_. returning (ret (SUCCESS, app))) s
         else Some (Ok (SUCCESS, app), s))"

definition aes_command :: "(AesRegisters \<Rightarrow> AesRegisters) \<Rightarrow> (nat \<Rightarrow> bool) \<Rightarrow> nat \<Rightarrow> nat \<Rightarrow> (AesDriver, unit, ReturnCode) peff" where
  "aes_command tick alloc num caller s0 =
     (let s = (if ae_current_user s0 = None then s0\<lparr>ae_current_user := Some caller\<rparr> else s0) in
      if num = 0 then Some (Ok SUCCESS, s)
      else if num = 1 then run_aes tick alloc caller (on_ae_regs (set_mode_aes128ecb True) s)
      else if num = 2 then run_aes tick alloc caller (on_ae_regs (set_mode_aes128ecb False) s)
      else if num = 3 \<or> num = 4 then ae_command_ctr tick alloc caller s
      else if num = 5 then run_aes tick alloc caller (on_ae_regs (set_mode_aes128cbc True) s)
      else if num = 6 then run_aes tick alloc caller (on_ae_regs (set_mode_aes128cbc False) s)
      else if num = 7 then ae_install_key tick alloc caller s
      else Some (Ok ENOSUPPORT, s\<lparr>ae_current_user := None\<rparr>))"

text \<open>A shared buffer must have the size of a block, which is also the size of a key.\<close>

definition ae_share :: "(byte list option \<Rightarrow> AesApp \<Rightarrow> AesApp) \<Rightarrow> byte list option \<Rightarrow> AesApp \<Rightarrow> (AesDriver, unit, ReturnCode \<times> AesApp) peff" where
  "ae_share f buf app s =
     (case buf of
        Some b \<Rightarrow> if length b \<noteq> AES128_BLOCK_SIZE then Some (Ok (ESIZE, app), s) else Some (Ok (SUCCESS, f buf app), s)
      | None \<Rightarrow> Some (Ok (SUCCESS, f None app), s))"

definition ae_allow :: "(nat \<Rightarrow> bool) \<Rightarrow> nat \<Rightarrow> nat \<Rightarrow> byte list option \<Rightarrow> (AesDriver, unit, ReturnCode) peff" where
  "ae_allow alloc app_id num buf =
     (if num = 0 then ae_enter alloc app_id FAIL (ae_share (\<lambda>b app. app\<lparr>ae_key := b\<rparr>) buf)
      else if num = 1 then ae_enter alloc app_id FAIL (ae_share (\<lambda>b app. app\<lparr>ae_input_buffer := b\<rparr>) buf)
      else if num = 2 then ae_enter alloc app_id FAIL (ae_share (\<lambda>b app. app\<lparr>ae_output_buffer := b\<rparr>) buf)
      else if num = 3 then ae_enter alloc app_id FAIL (ae_share (\<lambda>b app. app\<lparr>ae_iv_buffer := b\<rparr>) buf)
      else returning (ret ENOSUPPORT))"

section \<open>Blocks\<close>

text \<open>
  What is relied on of the engine: it expands every key in a finite time without touching other registers, and
  it computes \<open>cipher\<close> of the direction, the key registers and the last four words written.
\<close>

definition expands_keys :: "(AesRegisters \<Rightarrow> AesRegisters) \<Rightarrow> bool" where
  "expands_keys tick \<longleftrightarrow> (\<forall>r. \<exists>n. (tick ^^ n) r = r\<lparr>aes_key_start := 0\<rparr> \<and> (\<forall>m<n. aes_key_start ((tick ^^ m) r) \<noteq> 0))"

definition run_cipher :: "(bool \<Rightarrow> u32 list \<Rightarrow> u32 list \<Rightarrow> u32 list) \<Rightarrow> AesDriver \<Rightarrow> AesDriver" where
  "run_cipher cipher = on_ae_regs (\<lambda>r. r\<lparr>aes_rfifo := cipher (aes_ctrl r AND Mode_Encrypt \<noteq> 0) (aes_key r)
     (drop (length (aes_written r) - 4) (aes_written r)), aes_room := aes_room r + 4\<rparr>)"

definition key_words :: "byte list \<Rightarrow> u32 list" where
  "key_words key = map (le_word key) [0..<4] @ replicate 4 0"

definition block_words :: "byte list \<Rightarrow> u32 list" where
  "block_words b = map (le_word b) [0..<4]"

lemma length_block_words [simp]: "length (block_words b) = 4"
  by (simp add: block_words_def)

lemma wait_key_start_returns:
  assumes "\<forall>m<n. aes_key_start ((tick ^^ m) r) \<noteq> 0" and "aes_key_start ((tick ^^ n) r) = 0"
  shows "wait_key_start tick r = Some ((tick ^^ n) r)"
  using assms
proof (induction n arbitrary: r)
  case 0
  then show ?case
    by (simp add: wait_key_start.simps)
next
  case (Suc n)
  have "aes_key_start r \<noteq> 0"
    using Suc.prems(1) by (metis funpow_0 zero_less_Suc)
  moreover have "wait_key_start tick (tick r) = Some ((tick ^^ n) (tick r))"
    using Suc.prems by (intro Suc.IH) (auto simp: funpow_Suc_right simp del: funpow.simps)
  ultimately show ?case
    by (subst wait_key_start.simps) (simp add: funpow_Suc_right del: funpow.simps)
qed

lemma set_key_installs:
  assumes "expands_keys tick" and "length key = 16"
  shows "aes_set_key tick key e = Some (Ok SUCCESS, on_aes (\<lambda>r. r\<lparr>aes_ctrl := aes_ctrl r AND NOT 0x6, aes_key := key_words key, aes_key_start := 0\<rparr>) e)"
proof -
  let ?r = "(aes_regs e)\<lparr>aes_ctrl := aes_ctrl (aes_regs e) AND NOT 0x6, aes_key := key_words key, aes_key_start := 1\<rparr>"
  obtain n where n: "(tick ^^ n) ?r = ?r\<lparr>aes_key_start := 0\<rparr>" "\<forall>m<n. aes_key_start ((tick ^^ m) ?r) \<noteq> 0"
    using assms(1) unfolding expands_keys_def by blast
  then have "wait_key_start tick ?r = Some (?r\<lparr>aes_key_start := 0\<rparr>)"
    using wait_key_start_returns [of n tick ?r] by simp
  then show ?thesis
    using assms(2) by (simp add: aes_set_key_def install_key_def key_words_def on_aes_def)
qed

lemma length_16:
  assumes "length bs = 16"
  obtains a1 a2 a3 a4 a5 a6 a7 a8 a9 a10 a11 a12 a13 a14 a15 a16 where "bs = [a1, a2, a3, a4, a5, a6, a7, a8, a9, a10, a11, a12, a13, a14, a15, a16]"
  using assms by (auto simp: length_Suc_conv numeral_eq_Suc)

lemma write_block_words:
  assumes "length b = 16" and "4 \<le> aes_room r"
  shows "AesEngine_crypt b r = (16, r\<lparr>aes_written := aes_written r @ block_words b, aes_room := aes_room r - 4\<rparr>)"
proof -
  obtain a1 a2 a3 a4 a5 a6 a7 a8 a9 a10 a11 a12 a13 a14 a15 a16 where b: "b = [a1, a2, a3, a4, a5, a6, a7, a8, a9, a10, a11, a12, a13, a14, a15, a16]"
    using assms(1) by (rule length_16)
  have "block_words b = map (\<lambda>w. chunk_word 0 w 0) [[a1, a2, a3, a4], [a5, a6, a7, a8], [a9, a10, a11, a12], [a13, a14, a15, a16]]"
    by (simp add: block_words_def b le_word_def upt_rec numeral_eq_Suc or.assoc)
  then show ?thesis
    using assms(2) by (simp add: AesEngine_crypt_def b put_wfifo_def)
qed

lemma read_fifo_words:
  assumes "4 * length ws + i \<le> length out"
  shows "read_fifo ws i out = (i + 4 * length ws, take i out @ concat (map word_bytes ws) @ drop (i + 4 * length ws) out, [])"
  using assms
proof (induction ws arbitrary: i out)
  case (Cons w ws)
  let ?w = "word_bytes w"
  let ?o = "out[i := ?w ! 0, i + 1 := ?w ! 1, i + 2 := ?w ! 2, i + 3 := ?w ! 3]"
  have o: "?o = take i out @ ?w @ drop (i + 4) out"
    using Cons.prems by (intro update_word) simp_all
  have "read_fifo (w # ws) i out = read_fifo ws (i + 4) ?o"
    using Cons.prems by (simp only: read_fifo.simps) simp
  also have "\<dots> = (i + 4 + 4 * length ws, take (i + 4) ?o @ concat (map word_bytes ws) @ drop (i + 4 + 4 * length ws) ?o, [])"
    using Cons.prems by (intro Cons.IH) simp
  finally show ?case
    using Cons.prems unfolding o by (simp add: ac_simps)
qed simp

text \<open>The state after a block was handed to the engine.\<close>

definition block_started :: "byte list \<Rightarrow> byte list \<Rightarrow> AesDriver \<Rightarrow> AesDriver" where
  "block_started key inp s = s\<lparr>ae_buffer := None, ae_device := (ae_device s)\<lparr>aes_output := Some inp, aes_input := None, aes_write_index := 0,
     aes_read_index := 0, aes_stop_index := 16, aes_regs := (aes_regs (ae_device s))\<lparr>aes_ctrl := aes_ctrl (aes_regs (ae_device s)) AND NOT 0x6,
       aes_key := key_words key, aes_key_start := 0, aes_written := aes_written (aes_regs (ae_device s)) @ block_words inp,
       aes_room := aes_room (aes_regs (ae_device s)) - 4\<rparr>\<rparr>\<rparr>"

lemma run_aes_starts:
  assumes "expands_keys tick" and "map_of (ae_apps s) app = Some d" and "ae_key d = Some key" and "length key = 16"
    and "ae_input_buffer d = Some inp" and "length inp = 16" and "ae_buffer s = Some buf" and "length buf = 16"
    and "aes_input (ae_device s) = None" and "4 \<le> aes_room (aes_regs (ae_device s))"
  shows "run_aes tick alloc app s = Some (Ok SUCCESS, (block_started key inp s)\<lparr>ae_apps := grant_put app d (ae_apps s)\<rparr>)"
proof -
  let ?s = "s\<lparr>ae_device := on_aes (\<lambda>r. r\<lparr>aes_ctrl := aes_ctrl r AND NOT 0x6, aes_key := key_words key, aes_key_start := 0\<rparr>) (ae_device s)\<rparr>"
  have key: "on_ae_device (aes_set_key tick key) s = Some (Ok SUCCESS, ?s)"
    by (simp add: on_ae_device_def set_key_installs [OF assms(1,4)])
  have "start_block inp ?s = Some (Ok SUCCESS, block_started key inp s)"
    using assms(6-10)
    by (simp add: start_block_def AES128_BLOCK_SIZE_def on_ae_device_def aes128_crypt_def try_set_indices_def crypt_slice_def write_block_words on_aes_def
        peff_bind_def ret_def block_started_def)
  with key have "peff_bind (on_ae_device (aes_set_key tick key)) (\<lambda>_. peff_bind (start_block inp) (\<lambda>rc. returning (ret (rc, d)))) s
      = Some (Ok (SUCCESS, d), block_started key inp s)"
    by (simp add: ret_def)
  then show ?thesis
    using assms(2-8) by (simp add: run_aes_def ae_enter_def AES128_KEY_SIZE_def block_started_def)
qed

text \<open>The completion of a block, for the application the driver takes for its user.\<close>

definition deliver :: "byte list \<Rightarrow> AesApp \<Rightarrow> AesApp" where
  "deliver result d = (case ae_output_buffer d of Some _ \<Rightarrow> d\<lparr>ae_output_buffer := Some result\<rparr>
     | None \<Rightarrow> case ae_input_buffer d of Some _ \<Rightarrow> d\<lparr>ae_input_buffer := Some result\<rparr> | None \<Rightarrow> d)"

definition block_sized :: "AesApp \<Rightarrow> bool" where
  "block_sized d \<longleftrightarrow> (\<forall>b. ae_output_buffer d = Some b \<or> ae_input_buffer d = Some b \<longrightarrow> length b = 16)"

lemma ae_fill_block:
  assumes "aes_rfifo (aes_regs e) = ws" and "length ws = 4" and "length b = 16"
  shows "ae_fill (Some b) e = ((16, Some (concat (map word_bytes ws))), on_aes (\<lambda>r. r\<lparr>aes_rfifo := []\<rparr>) e)"
  using assms by (simp add: ae_fill_def aes_read_data_def read_fifo_words)

lemma ae_fill_nothing:
  assumes "aes_rfifo (aes_regs e) = [] \<or> b = None"
  shows "ae_fill b e = ((0, b), e)"
  using assms by (cases e) (auto simp: ae_fill_def aes_read_data_def on_aes_def split: option.splits)

lemma interrupt_completes:
  assumes "aes_client (ae_device s)" and "aes_output (ae_device s) = Some buf" and "ae_current_user s = Some u" and "grant_ok (ae_apps s)"
    and "map_of (ae_apps s) u = Some d" and "block_sized d" and "aes_rfifo (aes_regs (ae_device s)) = ws" and "length ws = 4"
  obtains s' where "aes_handle_interrupt alloc 104 s = (Ok (), s')" and "ae_current_user s' = None" and "ae_buffer s' = Some buf"
    and "map_of (ae_apps s') = (map_of (ae_apps s))(u \<mapsto> deliver (concat (map word_bytes ws)) d)"
    and "ae_scheduled s' = ae_scheduled s @ (if ae_crypto_callback d
           then [(u, if ae_output_buffer d = None \<and> ae_input_buffer d \<noteq> None then 16 else 0)] else [])"
proof -
  let ?e = "(ae_device s)\<lparr>aes_input := None, aes_output := None\<rparr>"
  have *: "aes_handle_interrupt alloc 104 s = (Ok (), on_ae_regs (aes_clear_interrupt DoneCipher) (crypt_done alloc buf (s\<lparr>ae_device := ?e\<rparr>)))"
    using assms(1,2) by (simp add: aes_handle_interrupt_def ParsedInterrupt_from_def)
  define v where "v = (if ae_output_buffer d = None \<and> ae_input_buffer d \<noteq> None then 16 else 0 :: nat)"
  obtain n e1 e' where fill: "ae_fill (ae_output_buffer d) ?e = ((n, ae_output_buffer (deliver (concat (map word_bytes ws)) d)), e1)"
      "ae_fill (ae_input_buffer d) e1 = ((v, ae_input_buffer (deliver (concat (map word_bytes ws)) d)), e')"
  proof (cases "ae_output_buffer d")
    case None
    then show thesis
      using assms(6-8) that [of 0 ?e]
      by (cases "ae_input_buffer d") (simp_all add: ae_fill_block ae_fill_nothing block_sized_def deliver_def v_def)
  next
    case (Some out)
    let ?e1 = "on_aes (\<lambda>r. r\<lparr>aes_rfifo := []\<rparr>) ?e"
    have "ae_fill (ae_output_buffer d) ?e = ((16, Some (concat (map word_bytes ws))), ?e1)"
      using assms(6-8) Some by (simp add: ae_fill_block block_sized_def)
    moreover have "ae_fill (ae_input_buffer d) ?e1 = ((0, ae_input_buffer d), ?e1)"
      by (rule ae_fill_nothing) (simp add: on_aes_def)
    ultimately show thesis
      using Some that by (simp add: deliver_def v_def)
  qed
  let ?d = "deliver (concat (map word_bytes ws)) d"
  have "d\<lparr>ae_output_buffer := ae_output_buffer ?d, ae_input_buffer := ae_input_buffer ?d\<rparr> = ?d"
    by (simp add: deliver_def split: option.splits)
  with fill have "crypt_done alloc buf (s\<lparr>ae_device := ?e\<rparr>) = s\<lparr>ae_device := e', ae_apps := grant_put u ?d (ae_apps s), ae_current_user := None,
      ae_scheduled := ae_scheduled s @ (if ae_crypto_callback d then [(u, v)] else []), ae_buffer := Some buf\<rparr>"
    using assms(3,5) by (simp add: crypt_done_def)
  with * show thesis
    using that assms(4) by (simp add: on_ae_regs_def map_of_grant_put v_def)
qed

text \<open>Both halves together, for the electronic code book.\<close>

lemma ecb_block:
  assumes "expands_keys tick" and "grant_ok (ae_apps s)" and "map_of (ae_apps s) app = Some d" and "ae_key d = Some key" and "length key = 16"
    and "ae_input_buffer d = Some inp" and "length inp = 16" and "ae_buffer s = Some buf" and "length buf = 16"
    and "aes_input (ae_device s) = None" and "4 \<le> aes_room (aes_regs (ae_device s))" and "aes_client (ae_device s)"
    and "u = (case ae_current_user s of None \<Rightarrow> app | Some u \<Rightarrow> u)" and "map_of (ae_apps s) u = Some du" and "block_sized du"
    and "\<And>b k w. length (cipher b k w) = 4" and "num = 1 \<or> num = 2"
  obtains s1 s2 where "aes_command tick alloc num app s = Some (Ok SUCCESS, s1)" and "aes_handle_interrupt alloc 104 (run_cipher cipher s1) = (Ok (), s2)"
    and "ae_current_user s2 = None" and "ae_buffer s2 = Some inp"
    and "map_of (ae_apps s2) = (map_of (ae_apps s))(u \<mapsto> deliver (concat (map word_bytes (cipher (num = 1) (key_words key) (block_words inp)))) du)"
    and "ae_scheduled s2 = ae_scheduled s @ (if ae_crypto_callback du
           then [(u, if ae_output_buffer du = None \<and> ae_input_buffer du \<noteq> None then 16 else 0)] else [])"
proof -
  let ?s = "on_ae_regs (set_mode_aes128ecb (num = 1)) (s\<lparr>ae_current_user := Some u\<rparr>)"
  let ?s1 = "(block_started key inp ?s)\<lparr>ae_apps := grant_put app d (ae_apps s)\<rparr>"
  have dev: "ae_apps ?s = ae_apps s" "ae_buffer ?s = ae_buffer s" "aes_input (ae_device ?s) = aes_input (ae_device s)"
      "aes_room (aes_regs (ae_device ?s)) = aes_room (aes_regs (ae_device s))"
    by (simp_all add: on_ae_regs_def on_aes_def set_mode_aes128ecb_def set_encrypt_mode_def set_cipher_mode_def Let_def)
  have run: "run_aes tick alloc app ?s = Some (Ok SUCCESS, ?s1)"
    using run_aes_starts [of tick ?s app d key inp buf] assms(1,3-11) dev by simp
  have c1: "aes_command tick alloc num app s = Some (Ok SUCCESS, ?s1)"
  proof -
    have "(if ae_current_user s = None then s\<lparr>ae_current_user := Some app\<rparr> else s) = s\<lparr>ae_current_user := Some u\<rparr>"
      using assms(13) by (cases s) (auto split: option.splits)
    then show ?thesis
      using run assms(17) by (auto simp: aes_command_def)
  qed
  have put: "map_of (grant_put app d (ae_apps s)) = map_of (ae_apps s)"
    using assms(2,3) by (simp add: map_of_grant_put fun_upd_idem)
  let ?t = "run_cipher cipher ?s1"
  have enc: "(aes_ctrl (aes_regs (ae_device ?s1)) AND Mode_Encrypt \<noteq> 0) = (num = 1)"
    by (simp add: block_started_def on_ae_regs_def on_aes_def set_mode_aes128ecb_def set_encrypt_mode_def set_cipher_mode_def Let_def Mode_Encrypt_def
        and.assoc bit.conj_disj_distrib2)
  have t: "aes_client (ae_device ?t)" "aes_output (ae_device ?t) = Some inp" "ae_current_user ?t = Some u" "grant_ok (ae_apps ?t)"
      "map_of (ae_apps ?t) u = Some du" "aes_rfifo (aes_regs (ae_device ?t)) = cipher (num = 1) (key_words key) (block_words inp)"
    using assms(2,12,14) enc by (simp_all add: run_cipher_def on_ae_regs_def on_aes_def block_started_def put grant_put_ok)
  from interrupt_completes [OF t(1-5) assms(15) t(6) assms(16), of alloc] obtain s2 where s2: "aes_handle_interrupt alloc 104 ?t = (Ok (), s2)"
      "ae_current_user s2 = None" "ae_buffer s2 = Some inp"
      "map_of (ae_apps s2) = (map_of (ae_apps ?t))(u \<mapsto> deliver (concat (map word_bytes (cipher (num = 1) (key_words key) (block_words inp)))) du)"
      "ae_scheduled s2 = ae_scheduled ?t @ (if ae_crypto_callback du
           then [(u, if ae_output_buffer du = None \<and> ae_input_buffer du \<noteq> None then 16 else 0)] else [])"
    by blast
  moreover have "map_of (ae_apps ?t) = map_of (ae_apps s)" "ae_scheduled ?t = ae_scheduled s"
    by (simp_all add: run_cipher_def on_ae_regs_def block_started_def put)
  ultimately show thesis
    using that [OF c1 s2(1)] by simp
qed

section \<open>The cipher mode\<close>

definition cipher_field :: "AesDriver \<Rightarrow> u32" where
  "cipher_field s = aes_ctrl (aes_regs (ae_device s)) AND 0x18"

definition stays_ecb :: "AesDriver \<Rightarrow> AesDriver \<Rightarrow> bool" where
  "stays_ecb s s' \<longleftrightarrow> (cipher_field s = 0 \<longrightarrow> cipher_field s' = 0)"

lemma stays_ecb_order: "stays_ecb s s" "stays_ecb s t \<Longrightarrow> stays_ecb t u \<Longrightarrow> stays_ecb s u"
  by (simp_all add: stays_ecb_def)

lemma set_cipher_mode_field: "aes_ctrl (set_cipher_mode mode r) AND 0x18 = 0"
  by (cases mode) (simp_all add: set_cipher_mode_def Let_def bit.conj_disj_distrib2 and.assoc)

lemma set_encrypt_mode_field: "aes_ctrl (set_encrypt_mode b r) AND 0x18 = aes_ctrl r AND 0x18"
  by (cases b) (simp_all add: set_encrypt_mode_def Mode_Encrypt_def bit.conj_disj_distrib2 and.assoc)

lemma mode_field [simp]:
  "cipher_field (on_ae_regs (set_mode_aes128ecb b) s) = 0" "cipher_field (on_ae_regs (set_mode_aes128cbc b) s) = 0"
  "cipher_field (on_ae_regs (set_mode_aes128ctr b) s) = 0"
  by (simp_all add: cipher_field_def on_ae_regs_def on_aes_def set_mode_aes128ecb_def set_mode_aes128cbc_def set_mode_aes128ctr_def
      set_encrypt_mode_field set_cipher_mode_field)

lemma ecb_laws: "transp stays_ecb" "reflp stays_ecb"
  by (auto simp: stays_ecb_def intro!: transpI reflpI)

lemmas ecb_intros = moves_bind [OF ecb_laws(1)] moves_simple [OF ecb_laws(2)]

lemma ecb_set_key:
  assumes "expands_keys tick"
  shows "moves stays_ecb (on_ae_device (aes_set_key tick key))"
proof (rule movesI)
  fix s r s'
  assume "on_ae_device (aes_set_key tick key) s = Some (r, s')"
  moreover have "(w AND - 7) AND 0x18 = w AND 0x18" for w :: u32
    by (simp add: and.assoc)
  ultimately show "stays_ecb s s'"
    using set_key_installs [OF assms, of key "ae_device s"]
    by (cases "length key = 16") (auto simp: on_ae_device_def aes_set_key_def stays_ecb_def cipher_field_def on_aes_def)
qed

lemma crypt_ctrl: "aes_ctrl (snd (AesEngine_crypt b r)) = aes_ctrl r"
proof -
  have "aes_ctrl (snd (snd (write_block ws n m r))) = aes_ctrl r" for ws n m
    by (induction ws n m r rule: write_block.induct) (simp_all add: put_wfifo_def)
  moreover have "aes_ctrl ((put_wfifo 0 ^^ n) r) = aes_ctrl r" for n r
    by (induction n) (simp_all add: put_wfifo_def)
  ultimately show ?thesis
    by (simp add: AesEngine_crypt_def split: prod.splits) (metis snd_conv)
qed

lemma ecb_start_block: "moves stays_ecb (start_block src)"
proof (rule movesI)
  fix s r s'
  assume *: "start_block src s = Some (r, s')"
  have "aes_ctrl (aes_regs (snd (aes128_crypt so de a b e))) = aes_ctrl (aes_regs e)" for so de a b e
    by (auto simp: aes128_crypt_def try_set_indices_def crypt_slice_def on_aes_def crypt_ctrl eff_bind_def ret_def split: option.splits)
  then have "cipher_field s' = cipher_field s"
    using * by (auto simp: start_block_def on_ae_device_def peff_bind_def cipher_field_def split: if_splits option.splits outcome.splits prod.splits)
      (metis snd_conv)+
  then show "stays_ecb s s'"
    by (simp add: stays_ecb_def)
qed

lemma ecb_enter:
  assumes "\<And>d. moves stays_ecb (f d)"
  shows "moves stays_ecb (ae_enter alloc app rc f)"
proof (rule movesI)
  fix s r s'
  assume "ae_enter alloc app rc f s = Some (r, s')"
  then consider "s' = s" | d r1 s1 where "f d s = Some (r1, s1)" "cipher_field s' = cipher_field s1"
    by (force simp: ae_enter_def peff_bind_def cipher_field_def split: option.splits if_splits outcome.splits prod.splits)
  then show "stays_ecb s s'"
    using assms by cases (auto simp: moves_def stays_ecb_def)
qed

lemma ecb_same: "(\<And>s. \<exists>r s'. m s = Some (r, s') \<and> cipher_field s' = cipher_field s) \<Longrightarrow> moves stays_ecb m"
  by (rule movesI) (metis option.inject prod.inject stays_ecb_def)

lemma ecb_run_aes:
  assumes "expands_keys tick"
  shows "moves stays_ecb (run_aes tick alloc app)"
  unfolding run_aes_def
proof (rule ecb_enter, rule movesI)
  fix d s r s'
  assume *: "(case ae_input_buffer d of None \<Rightarrow> Some (Ok (ENOMEM, d), s)
     | Some src \<Rightarrow> (case ae_key d of None \<Rightarrow> Some (Ok (ENOMEM, d), s)
          | Some key \<Rightarrow>
              if ae_buffer s = None then Some (Ok (ENOMEM, d), s)
              else if length key \<noteq> AES128_KEY_SIZE then Some (Ok (EINVAL, d\<lparr>ae_key := None\<rparr>), s)
              else peff_bind (on_ae_device (aes_set_key tick key)) (\<lambda>_. peff_bind (start_block src) (\<lambda>rc. returning (ret (rc, d)))) s)) = Some (r, s')"
  have "moves stays_ecb (peff_bind (on_ae_device (aes_set_key tick key)) (\<lambda>_. peff_bind (start_block src) (\<lambda>rc. returning (ret (rc, d)))))" for key src
    by (intro ecb_intros ecb_set_key ecb_start_block assms)
  then show "stays_ecb s s'"
    using * by (auto simp: moves_def stays_ecb_order split: option.splits if_splits)
qed

lemma ecb_install_key:
  assumes "expands_keys tick"
  shows "moves stays_ecb (ae_install_key tick alloc app)"
  unfolding ae_install_key_def
proof (rule ecb_enter, rule movesI)
  fix d s r s'
  assume *: "(case ae_key d of None \<Rightarrow> Some (Ok (ENOMEM, d), s)
     | Some key \<Rightarrow>
         if length key = AES128_KEY_SIZE then peff_bind (on_ae_device (aes_set_key tick key)) (\<lambda>_. returning (ret (SUCCESS, d))) s
         else Some (Ok (SUCCESS, d), s)) = Some (r, s')"
  have "moves stays_ecb (peff_bind (on_ae_device (aes_set_key tick key)) (\<lambda>_. returning (ret (SUCCESS, d))))" for key
    by (intro ecb_intros ecb_set_key assms)
  then show "stays_ecb s s'"
    using * by (auto simp: moves_def stays_ecb_order split: option.splits if_splits)
qed

lemma ecb_command_ctr:
  assumes "expands_keys tick"
  shows "moves stays_ecb (ae_command_ctr tick alloc app)"
  unfolding ae_command_ctr_def
proof (intro ecb_intros ecb_enter)
  show "moves stays_ecb (\<lambda>s. let s = on_ae_regs (set_mode_aes128ctr True) s in
        case ae_iv_buffer d of None \<Rightarrow> Some (Ok (ENOMEM, d), s)
        | Some iv \<Rightarrow> Some (Ok (SUCCESS, d), s\<lparr>ae_device := snd (aes_set_iv iv (ae_device s))\<rparr>))" for d
    using mode_field(3) [unfolded cipher_field_def]
    by (auto intro!: movesI simp: stays_ecb_def Let_def aes_set_iv_def cipher_field_def on_aes_def split: option.splits)
  show "moves stays_ecb (if rc = SUCCESS then run_aes tick alloc app else returning (ret rc))" for rc
    by (simp add: ecb_run_aes [OF assms] ecb_intros)
qed

lemma ecb_command:
  assumes "expands_keys tick"
  shows "moves stays_ecb (aes_command tick alloc num app)"
proof (rule movesI)
  fix s r s'
  assume *: "aes_command tick alloc num app s = Some (r, s')"
  define t where "t = (if ae_current_user s = None then s\<lparr>ae_current_user := Some app\<rparr> else s)"
  have t: "cipher_field t = cipher_field s" "cipher_field (t\<lparr>ae_current_user := None\<rparr>) = cipher_field s"
    by (simp_all add: t_def cipher_field_def)
  have "moves stays_ecb (run_aes tick alloc app)" "moves stays_ecb (ae_install_key tick alloc app)" "moves stays_ecb (ae_command_ctr tick alloc app)"
    by (rule ecb_run_aes ecb_install_key ecb_command_ctr, rule assms)+
  then show "stays_ecb s s'"
    using * t unfolding aes_command_def t_def [symmetric] Let_def moves_def stays_ecb_def by (auto split: if_splits)
qed

lemma ecb_interrupt: "aes_handle_interrupt alloc n s = (r, s') \<Longrightarrow> cipher_field s' = cipher_field s"
proof -
  have fill: "aes_ctrl (aes_regs (snd (ae_fill b e))) = aes_ctrl (aes_regs e)" for b e
    by (auto simp: ae_fill_def aes_read_data_def on_aes_def split: option.splits prod.splits)
  have finished: "cipher_field (crypt_done alloc buf s) = cipher_field s" for buf s
    unfolding crypt_done_def cipher_field_def
    by (auto split: option.splits prod.splits) (metis fill snd_conv)+
  assume "aes_handle_interrupt alloc n s = (r, s')"
  moreover have "cipher_field (on_ae_regs (aes_clear_interrupt i) s) = cipher_field s" for i s
    by (simp add: cipher_field_def on_ae_regs_def on_aes_def aes_clear_interrupt_def)
  moreover have "cipher_field (s\<lparr>ae_device := (ae_device s)\<lparr>aes_input := None, aes_output := None\<rparr>\<rparr>) = cipher_field s"
    by (simp add: cipher_field_def)
  ultimately show ?thesis
    using finished by (auto simp: aes_handle_interrupt_def eff_bind_def split: option.splits if_splits)
qed

text \<open>Everything that happens to a driver: system calls, interrupts, and the engine, which leaves the control register alone.\<close>

inductive aes_reachable :: "(AesRegisters \<Rightarrow> AesRegisters) \<Rightarrow> (nat \<Rightarrow> bool) \<Rightarrow> AesDriver \<Rightarrow> AesDriver \<Rightarrow> bool" for tick alloc s0 where
  start: "aes_reachable tick alloc s0 s0"
| command: "aes_reachable tick alloc s0 s \<Longrightarrow> aes_command tick alloc num app s = Some (r, s') \<Longrightarrow> aes_reachable tick alloc s0 s'"
| allow: "aes_reachable tick alloc s0 s \<Longrightarrow> ae_allow alloc app num b s = Some (r, s') \<Longrightarrow> aes_reachable tick alloc s0 s'"
| subscribe: "aes_reachable tick alloc s0 s \<Longrightarrow> ae_subscribe alloc num cb app s = Some (r, s') \<Longrightarrow> aes_reachable tick alloc s0 s'"
| interrupt: "aes_reachable tick alloc s0 s \<Longrightarrow> aes_handle_interrupt alloc n s = (r, s') \<Longrightarrow> aes_reachable tick alloc s0 s'"
| engine: "aes_reachable tick alloc s0 s \<Longrightarrow> (\<And>r. aes_ctrl (f r) = aes_ctrl r) \<Longrightarrow> aes_reachable tick alloc s0 (on_ae_regs f s)"

lemma ecb_share: "moves stays_ecb (ae_allow alloc app num b)" "moves stays_ecb (ae_subscribe alloc num cb app)"
proof -
  have "moves stays_ecb (ae_share f b d)" for f d
    by (auto intro!: movesI simp: ae_share_def stays_ecb_order split: option.splits if_splits)
  then show "moves stays_ecb (ae_allow alloc app num b)"
    by (simp add: ae_allow_def ecb_enter ecb_intros)
  show "moves stays_ecb (ae_subscribe alloc num cb app)"
    by (auto simp: ae_subscribe_def stays_ecb_order intro!: ecb_intros ecb_enter, auto intro: movesI simp: stays_ecb_order)
qed

section \<open>Properties\<close>

text \<open>C17. The commands for electronic code book mode encrypt and decrypt a block: the key and the input of the calling application reach
  the engine as little-endian words in the right order with the right direction, and when the engine has computed \<open>cipher\<close> of
  them, the completion puts the result into the buffers of the application that the driver has recorded as its user and schedules
  the callback of that application. That is the caller if the driver had no user, or the caller itself; an application that sent any
  command before, and whose command has not been completed, is recorded instead and gets the result (\<open>aes_result_misdirected\<close>). The
  result goes to the output buffer, or to the input buffer if there is no other, and the number of bytes the callback reports is
  16 only in the second case. Afterwards the driver has no user and its own buffer back.
\<close>

theorem aes_block_computed:
  assumes "expands_keys tick" and "grant_ok (ae_apps s)" and "map_of (ae_apps s) app = Some d" and "ae_key d = Some key" and "length key = 16"
    and "ae_input_buffer d = Some inp" and "length inp = 16" and "ae_buffer s = Some buf" and "length buf = 16"
    and "aes_input (ae_device s) = None" and "4 \<le> aes_room (aes_regs (ae_device s))" and "aes_client (ae_device s)"
    and "user = (case ae_current_user s of None \<Rightarrow> app | Some u \<Rightarrow> u)" and "map_of (ae_apps s) user = Some du" and "block_sized du"
    and "\<And>b k w. length (cipher b k w) = 4" and "num = 1 \<or> num = 2"
  shows "\<exists>s1 s2. aes_command tick alloc num app s = Some (Ok SUCCESS, s1) \<and> aes_handle_interrupt alloc 104 (run_cipher cipher s1) = (Ok (), s2)
    \<and> ae_current_user s2 = None \<and> ae_buffer s2 \<noteq> None
    \<and> map_of (ae_apps s2) = (map_of (ae_apps s))(user \<mapsto> deliver (concat (map word_bytes (cipher (num = 1) (key_words key) (block_words inp)))) du)
    \<and> ae_scheduled s2 = ae_scheduled s @ (if ae_crypto_callback du
         then [(user, if ae_output_buffer du = None \<and> ae_input_buffer du \<noteq> None then 16 else 0)] else [])"
  by (rule ecb_block [OF assms, of alloc]) auto

text \<open>The driver hands a result to the wrong application: any command, even the check that the driver exists, makes its
  caller the current user when there is none, and only a completion removes it. When another application then decrypts a block,
  its plain text goes to the buffers of the first one, which also gets the callback.
\<close>

theorem aes_result_misdirected:
  assumes "expands_keys tick" and "grant_ok (ae_apps s)" and "map_of (ae_apps s) app = Some d" and "ae_key d = Some key" and "length key = 16"
    and "ae_input_buffer d = Some inp" and "length inp = 16" and "ae_buffer s = Some buf" and "length buf = 16"
    and "aes_input (ae_device s) = None" and "4 \<le> aes_room (aes_regs (ae_device s))" and "aes_client (ae_device s)"
    and "ae_current_user s = None" and "map_of (ae_apps s) other = Some d'" and "block_sized d'" and "other \<noteq> app"
    and "ae_output_buffer d' \<noteq> None" and "ae_crypto_callback d'" and "\<And>b k w. length (cipher b k w) = 4"
  shows "\<exists>s0 s1 s2. aes_command tick alloc 0 other s = Some (Ok SUCCESS, s0) \<and> aes_command tick alloc 2 app s0 = Some (Ok SUCCESS, s1)
    \<and> aes_handle_interrupt alloc 104 (run_cipher cipher s1) = (Ok (), s2)
    \<and> map_of (ae_apps s2) other = Some (d'\<lparr>ae_output_buffer := Some (concat (map word_bytes (cipher False (key_words key) (block_words inp))))\<rparr>)
    \<and> map_of (ae_apps s2) app = Some d \<and> ae_scheduled s2 = ae_scheduled s @ [(other, 0)]"
proof -
  let ?s = "s\<lparr>ae_current_user := Some other\<rparr>"
  have s0: "aes_command tick alloc 0 other s = Some (Ok SUCCESS, ?s)"
    using assms(13) by (simp add: aes_command_def)
  show ?thesis
    by (rule ecb_block [of tick ?s app d key inp buf other d' cipher 2 alloc]) (use assms s0 in \<open>auto simp: deliver_def\<close>)
qed

text \<open>The engine never leaves the electronic code book mode. The driver shifts mode values that are already in place, so that the counter
  mode command sets the byte order of the counter instead and the chaining mode command the enable bit: in every
  reachable state the cipher mode field of the control register is that of the electronic code book.
\<close>

theorem aes_always_ecb:
  assumes "aes_reachable tick alloc s0 s" and "expands_keys tick" and "cipher_field s0 = u32_of_CipherMode Ecb"
  shows "cipher_field s = u32_of_CipherMode Ecb"
  using assms
proof (induction rule: aes_reachable.induct)
  case (engine s f)
  then show ?case
    by (simp add: cipher_field_def on_ae_regs_def on_aes_def)
qed (use ecb_command ecb_share ecb_interrupt in \<open>auto simp: moves_def stays_ecb_def\<close>)

text \<open>An engine that expands keys at once and a driver with two applications.\<close>

definition demo_expand :: "AesRegisters \<Rightarrow> AesRegisters" where
  "demo_expand r = r\<lparr>aes_key_start := 0\<rparr>"

definition demo_cipher :: "bool \<Rightarrow> u32 list \<Rightarrow> u32 list \<Rightarrow> u32 list" where
  "demo_cipher enc key ws = (if enc then [1, 1, 1, 1] else [2, 2, 2, 2])"

definition demo_aes :: AesDriver where
  "demo_aes = (AesDriver_new (AesEngine_new \<lparr>aes_ctrl = 0x80, aes_written = [], aes_room = 4, aes_rfifo = [], aes_key = replicate 8 0, aes_key_start = 0,
     aes_ctr = replicate 4 0, aes_wipe_secrets = 0, aes_int_enable = 0, aes_int_state = 0\<rparr>))
     \<lparr>ae_buffer := Some (replicate 16 0),
      ae_apps := [(1, \<lparr>ae_key = Some (replicate 16 7), ae_input_buffer = Some (replicate 16 8), ae_output_buffer = None, ae_iv_buffer = None, ae_crypto_callback = True\<rparr>),
        (2, \<lparr>ae_key = None, ae_input_buffer = None, ae_output_buffer = Some (replicate 16 0), ae_iv_buffer = None, ae_crypto_callback = True\<rparr>)]\<rparr>"

definition demo_aes_client :: AesDriver where
  "demo_aes_client = demo_aes\<lparr>ae_device := aes_set_client (ae_device demo_aes)\<rparr>"

lemma demo_expands: "expands_keys demo_expand"
  unfolding expands_keys_def
proof
  fix r
  show "\<exists>n. (demo_expand ^^ n) r = r\<lparr>aes_key_start := 0\<rparr> \<and> (\<forall>m<n. aes_key_start ((demo_expand ^^ m) r) \<noteq> 0)"
    by (cases "aes_key_start r = 0"; cases r) (auto simp: demo_expand_def intro: exI [of _ 0] exI [of _ 1])
qed

lemmas demo_aes_defs = demo_aes_client_def demo_aes_def AesDriver_new_def AesEngine_new_def aes_set_client_def grant_ok_def block_sized_def demo_cipher_def

theorem aes_block_computed_witness:
  "\<exists>s1 s2. aes_command demo_expand (\<lambda>_. True) 1 1 demo_aes_client = Some (Ok SUCCESS, s1)
     \<and> aes_handle_interrupt (\<lambda>_. True) 104 (run_cipher demo_cipher s1) = (Ok (), s2) \<and> ae_scheduled s2 = [(1, 16)]"
proof -
  let ?d = "\<lparr>ae_key = Some (replicate 16 7), ae_input_buffer = Some (replicate 16 8), ae_output_buffer = None, ae_iv_buffer = None, ae_crypto_callback = True\<rparr>"
  have "\<exists>s1 s2. aes_command demo_expand (\<lambda>_. True) 1 1 demo_aes_client = Some (Ok SUCCESS, s1)
    \<and> aes_handle_interrupt (\<lambda>_. True) 104 (run_cipher demo_cipher s1) = (Ok (), s2) \<and> ae_current_user s2 = None \<and> ae_buffer s2 \<noteq> None
    \<and> map_of (ae_apps s2) = (map_of (ae_apps demo_aes_client))(1 \<mapsto> deliver (concat (map word_bytes (demo_cipher ((1 :: nat) = 1) (key_words (replicate 16 7)) (block_words (replicate 16 8))))) ?d)
    \<and> ae_scheduled s2 = ae_scheduled demo_aes_client @ (if ae_crypto_callback ?d
         then [(1, if ae_output_buffer ?d = None \<and> ae_input_buffer ?d \<noteq> None then 16 else 0)] else [])"
    by (rule aes_block_computed [where buf = "replicate 16 0" and d = ?d, OF demo_expands]) (simp_all add: demo_aes_defs)
  then show ?thesis
    by (auto simp: demo_aes_defs)
qed

theorem aes_result_misdirected_witness:
  "\<exists>s0 s1 s2. aes_command demo_expand (\<lambda>_. True) 0 2 demo_aes_client = Some (Ok SUCCESS, s0)
     \<and> aes_command demo_expand (\<lambda>_. True) 2 1 s0 = Some (Ok SUCCESS, s1)
     \<and> aes_handle_interrupt (\<lambda>_. True) 104 (run_cipher demo_cipher s1) = (Ok (), s2) \<and> ae_scheduled s2 = [(2, 0)]"
proof -
  let ?d = "\<lparr>ae_key = Some (replicate 16 7), ae_input_buffer = Some (replicate 16 8), ae_output_buffer = None, ae_iv_buffer = None, ae_crypto_callback = True\<rparr>"
  let ?e = "\<lparr>ae_key = None, ae_input_buffer = None, ae_output_buffer = Some (replicate 16 0), ae_iv_buffer = None, ae_crypto_callback = True\<rparr>"
  have "\<exists>s0 s1 s2. aes_command demo_expand (\<lambda>_. True) 0 2 demo_aes_client = Some (Ok SUCCESS, s0)
    \<and> aes_command demo_expand (\<lambda>_. True) 2 1 s0 = Some (Ok SUCCESS, s1)
    \<and> aes_handle_interrupt (\<lambda>_. True) 104 (run_cipher demo_cipher s1) = (Ok (), s2)
    \<and> map_of (ae_apps s2) 2 = Some (?e\<lparr>ae_output_buffer := Some (concat (map word_bytes (demo_cipher False (key_words (replicate 16 7)) (block_words (replicate 16 8)))))\<rparr>)
    \<and> map_of (ae_apps s2) 1 = Some ?d \<and> ae_scheduled s2 = ae_scheduled demo_aes_client @ [(2, 0)]"
    by (rule aes_result_misdirected [where buf = "replicate 16 0", OF demo_expands]) (simp_all add: demo_aes_defs)
  then show ?thesis
    by (auto simp: demo_aes_defs)
qed

theorem aes_always_ecb_witness:
  "\<exists>s. aes_command demo_expand (\<lambda>_. True) 3 1 demo_aes_client = Some (Ok ENOMEM, s) \<and> cipher_field s = u32_of_CipherMode Ecb"
proof -
  obtain s where s: "aes_command demo_expand (\<lambda>_. True) 3 1 demo_aes_client = Some (Ok ENOMEM, s)"
    by (simp add: aes_command_def ae_command_ctr_def ae_enter_def demo_aes_defs peff_bind_def ret_def Let_def)
  have "cipher_field demo_aes_client = u32_of_CipherMode Ecb"
    by (simp add: demo_aes_defs cipher_field_def)
  from aes_always_ecb [OF command [OF start s] demo_expands this] s show ?thesis
    by blast
qed

end
