(* ===== verification/Pmu.thy ===== *)
theory Pmu
  imports Prelude
begin

text \<open>
  The clocks and the module reset of the power management unit, \<^verbatim>\<open>kernel/h1/src/pmu.rs\<close>. The reset source and the chip
  reset of that file are in the theory of the chip's system calls.
\<close>

section \<open>Clocks\<close>

datatype PeripheralClock0 = Clk_Camo0 | Clk_Crypto0 | Clk_Dma0 | Clk_Flash0 | Clk_Fuse0 | Clk_GlobalSec | Clk_GlobalSecTimer | Clk_GlobalSecHs | Clk_Gpio0 | Clk_Gpio1 | Clk_I2C0 | Clk_I2C1 | Clk_I2CS0 | Clk_KeyMgr0 | Clk_PeriAPB0 | Clk_PeriAPB1 | Clk_PeriAPB2 | Clk_PeriAPB2Timer | Clk_PeriAPB3 | Clk_PeriAPB3Timer | Clk_PeriAPB3HS | Clk_PinMux | Clk_Pmu | Clk_RBox0 | Clk_Rdd0 | Clk_Rtc0 | Clk_Rtc0Timer | Clk_Spi0Hs | Clk_Spi1Hs | Clk_Sps0 | Clk_Sps0TimerHs | Clk_Swdp0 | Clk_Temp0

datatype PeripheralClock1 = Clk_TimeHs0Timer | Clk_TimeHs1Timer | Clk_TimeLs0 | Clk_TimeUs0Timer | Clk_Trng0 | Clk_Uart0Timer | Clk_Uart1Timer | Clk_Uart2Timer | Clk_Usb0 | Clk_Usb0TimerHs | Clk_Volt0 | Clk_Watchdog0 | Clk_Xo0 | Clk_Xo0Timer | Clk_PeripheralMasterMatrix | Clk_PeripheralMatrix

text \<open>The discriminants the compiler gives the constructors, in order.\<close>

fun clock0_number :: "PeripheralClock0 \<Rightarrow> nat" where
  "clock0_number Clk_Camo0 = 0"
| "clock0_number Clk_Crypto0 = 1"
| "clock0_number Clk_Dma0 = 2"
| "clock0_number Clk_Flash0 = 3"
| "clock0_number Clk_Fuse0 = 4"
| "clock0_number Clk_GlobalSec = 5"
| "clock0_number Clk_GlobalSecTimer = 6"
| "clock0_number Clk_GlobalSecHs = 7"
| "clock0_number Clk_Gpio0 = 8"
| "clock0_number Clk_Gpio1 = 9"
| "clock0_number Clk_I2C0 = 10"
| "clock0_number Clk_I2C1 = 11"
| "clock0_number Clk_I2CS0 = 12"
| "clock0_number Clk_KeyMgr0 = 13"
| "clock0_number Clk_PeriAPB0 = 14"
| "clock0_number Clk_PeriAPB1 = 15"
| "clock0_number Clk_PeriAPB2 = 16"
| "clock0_number Clk_PeriAPB2Timer = 17"
| "clock0_number Clk_PeriAPB3 = 18"
| "clock0_number Clk_PeriAPB3Timer = 19"
| "clock0_number Clk_PeriAPB3HS = 20"
| "clock0_number Clk_PinMux = 21"
| "clock0_number Clk_Pmu = 22"
| "clock0_number Clk_RBox0 = 23"
| "clock0_number Clk_Rdd0 = 24"
| "clock0_number Clk_Rtc0 = 25"
| "clock0_number Clk_Rtc0Timer = 26"
| "clock0_number Clk_Spi0Hs = 27"
| "clock0_number Clk_Spi1Hs = 28"
| "clock0_number Clk_Sps0 = 29"
| "clock0_number Clk_Sps0TimerHs = 30"
| "clock0_number Clk_Swdp0 = 31"
| "clock0_number Clk_Temp0 = 32"

fun clock1_number :: "PeripheralClock1 \<Rightarrow> nat" where
  "clock1_number Clk_TimeHs0Timer = 0"
| "clock1_number Clk_TimeHs1Timer = 1"
| "clock1_number Clk_TimeLs0 = 2"
| "clock1_number Clk_TimeUs0Timer = 3"
| "clock1_number Clk_Trng0 = 4"
| "clock1_number Clk_Uart0Timer = 5"
| "clock1_number Clk_Uart1Timer = 6"
| "clock1_number Clk_Uart2Timer = 7"
| "clock1_number Clk_Usb0 = 8"
| "clock1_number Clk_Usb0TimerHs = 9"
| "clock1_number Clk_Volt0 = 10"
| "clock1_number Clk_Watchdog0 = 11"
| "clock1_number Clk_Xo0 = 12"
| "clock1_number Clk_Xo0Timer = 13"
| "clock1_number Clk_PeripheralMasterMatrix = 14"
| "clock1_number Clk_PeripheralMatrix = 15"

datatype PeripheralClock = Bank0 PeripheralClock0 | Bank1 PeripheralClock1

text \<open>
  Writing a one to an enable or disable register turns the clock of that bit on or off; the clocks that run
  are \<open>pmu_clocks0\<close> and \<open>pmu_clocks1\<close>.
\<close>

record PMURegisters =
  pmu_reset :: u32
  pmu_reset0 :: u32
  pmu_clocks0 :: u32
  pmu_clocks1 :: u32

definition peripheral_clocks0_enable :: "u32 \<Rightarrow> PMURegisters \<Rightarrow> PMURegisters" where
  "peripheral_clocks0_enable v r = r\<lparr>pmu_clocks0 := pmu_clocks0 r OR v\<rparr>"

definition peripheral_clocks0_disable :: "u32 \<Rightarrow> PMURegisters \<Rightarrow> PMURegisters" where
  "peripheral_clocks0_disable v r = r\<lparr>pmu_clocks0 := pmu_clocks0 r AND NOT v\<rparr>"

definition peripheral_clocks1_enable :: "u32 \<Rightarrow> PMURegisters \<Rightarrow> PMURegisters" where
  "peripheral_clocks1_enable v r = r\<lparr>pmu_clocks1 := pmu_clocks1 r OR v\<rparr>"

definition peripheral_clocks1_disable :: "u32 \<Rightarrow> PMURegisters \<Rightarrow> PMURegisters" where
  "peripheral_clocks1_disable v r = r\<lparr>pmu_clocks1 := pmu_clocks1 r AND NOT v\<rparr>"

text \<open>\<open>1 << n\<close> on 32 bits without overflow checks: the shift distance is taken modulo 32.\<close>

definition one_shl :: "nat \<Rightarrow> u32" where
  "one_shl n = push_bit (n mod 32) 1"

fun Clock_enable :: "PeripheralClock \<Rightarrow> PMURegisters \<Rightarrow> PMURegisters" where
  "Clock_enable (Bank0 clock) = peripheral_clocks0_enable (one_shl (clock0_number clock))"
| "Clock_enable (Bank1 clock) = peripheral_clocks1_enable (one_shl (clock1_number clock))"

fun Clock_disable :: "PeripheralClock \<Rightarrow> PMURegisters \<Rightarrow> PMURegisters" where
  "Clock_disable (Bank0 clock) = peripheral_clocks0_disable (one_shl (clock0_number clock))"
| "Clock_disable (Bank1 clock) = peripheral_clocks1_disable (one_shl (clock1_number clock))"

text \<open>The value is computed from \<^verbatim>\<open>reset0\<close> and written to \<^verbatim>\<open>reset\<close>.\<close>

definition reset_dcrypto :: "PMURegisters \<Rightarrow> PMURegisters" where
  "reset_dcrypto r = r\<lparr>pmu_reset := pmu_reset0 r AND NOT 0x2\<rparr>"

section \<open>Properties\<close>

fun clock_runs :: "PMURegisters \<Rightarrow> PeripheralClock \<Rightarrow> bool" where
  "clock_runs r (Bank0 clock) = bit (pmu_clocks0 r) (clock0_number clock mod 32)"
| "clock_runs r (Bank1 clock) = bit (pmu_clocks1 r) (clock1_number clock mod 32)"

definition clocks0 :: "PeripheralClock0 list" where
  "clocks0 = [Clk_Camo0, Clk_Crypto0, Clk_Dma0, Clk_Flash0, Clk_Fuse0, Clk_GlobalSec, Clk_GlobalSecTimer, Clk_GlobalSecHs, Clk_Gpio0, Clk_Gpio1, Clk_I2C0, Clk_I2C1, Clk_I2CS0, Clk_KeyMgr0, Clk_PeriAPB0, Clk_PeriAPB1, Clk_PeriAPB2, Clk_PeriAPB2Timer, Clk_PeriAPB3, Clk_PeriAPB3Timer, Clk_PeriAPB3HS, Clk_PinMux, Clk_Pmu, Clk_RBox0, Clk_Rdd0, Clk_Rtc0, Clk_Rtc0Timer, Clk_Spi0Hs, Clk_Spi1Hs, Clk_Sps0, Clk_Sps0TimerHs, Clk_Swdp0, Clk_Temp0]"

definition clocks1 :: "PeripheralClock1 list" where
  "clocks1 = [Clk_TimeHs0Timer, Clk_TimeHs1Timer, Clk_TimeLs0, Clk_TimeUs0Timer, Clk_Trng0, Clk_Uart0Timer, Clk_Uart1Timer, Clk_Uart2Timer, Clk_Usb0, Clk_Usb0TimerHs, Clk_Volt0, Clk_Watchdog0, Clk_Xo0, Clk_Xo0Timer, Clk_PeripheralMasterMatrix, Clk_PeripheralMatrix]"

lemma clocks_nth: "clocks0 ! clock0_number c = c" "clocks1 ! clock1_number d = d"
  by (cases c; simp add: clocks0_def) (cases d; simp add: clocks1_def)

lemma clock_number_inject: "clock0_number c = clock0_number c' \<longleftrightarrow> c = c'" "clock1_number d = clock1_number d' \<longleftrightarrow> d = d'"
  by (metis clocks_nth)+

lemma clock_number_less: "c \<noteq> Clk_Temp0 \<Longrightarrow> clock0_number c < 32" "clock1_number d < 32"
  by (cases c; simp) (cases d; simp)

lemma bit_one_shl: "n < 32 \<Longrightarrow> bit (one_shl n) m \<longleftrightarrow> m = n"
  by (auto simp: one_shl_def bit_simps)

text \<open>Switching a clock leaves the others alone, for all clocks that have a bit of their own.\<close>

lemma clock_switched:
  assumes "c \<noteq> Bank0 Clk_Temp0" and "d \<noteq> Bank0 Clk_Temp0"
  shows "clock_runs (Clock_enable c r) d \<longleftrightarrow> c = d \<or> clock_runs r d" "clock_runs (Clock_disable c r) d \<longleftrightarrow> c \<noteq> d \<and> clock_runs r d"
  using assms clock_number_less
  by (cases c; cases d; auto simp: peripheral_clocks0_enable_def peripheral_clocks0_disable_def peripheral_clocks1_enable_def peripheral_clocks1_disable_def
      bit_simps bit_one_shl clock_number_inject)+

text \<open>The first bank has 33 clocks for 32 bits: the last shares its bit with the first.\<close>

lemma temp_clock_aliases: "Clock_enable (Bank0 Clk_Temp0) = Clock_enable (Bank0 Clk_Camo0)"
  by (simp add: one_shl_def)

lemma reset_dcrypto_keeps_reset0: "pmu_reset0 (reset_dcrypto r) = pmu_reset0 r"
  by (simp add: reset_dcrypto_def)

end
