(* ===== verification/Dcrypto.thy ===== *)
theory Dcrypto
  imports Pmu Byte_Words
begin

text \<open>
  The crypto coprocessor of \<^verbatim>\<open>kernel/h1/src/crypto/dcrypto.rs\<close> and the system calls of
  \<^verbatim>\<open>kernel/h1_syscalls/src/dcrypto.rs\<close>: an application runs a program on its data in the memories of the coprocessor.
\<close>

section \<open>Engine\<close>

definition DROM_SIZE :: nat where "DROM_SIZE = 1024"
definition DMEM_SIZE :: nat where "DMEM_SIZE = 1024"
definition IMEM_SIZE :: nat where "IMEM_SIZE = 1024"

definition RAND_STALL_EN :: u32 where "RAND_STALL_EN = 0x1"
definition RAND_STALL_EN_MASK :: u32 where "RAND_STALL_EN_MASK = NOT RAND_STALL_EN"
definition RAND_STALL_FREQ_6 :: u32 where "RAND_STALL_FREQ_6 = push_bit 1 3"
definition RAND_STALL_FREQ_MASK :: u32 where "RAND_STALL_FREQ_MASK = NOT (push_bit 1 0x3)"

datatype HwState = HwHalt | HwRun | HwBreak | HwWipe | HwUnknown

datatype DcryptoState = DUninitialized | DHalt | DStarting | DRunning | DBreak | DWiping

datatype ProgramFault = FaultBreak | DataAccess | LoopOverflow | LoopUnderflow | ModOperandRange | StackOverflow | Fault | FaultTrap | FaultUnknown

fun usize_from_ProgramFault :: "ProgramFault \<Rightarrow> nat" where
  "usize_from_ProgramFault FaultBreak = 7"
| "usize_from_ProgramFault DataAccess = 5"
| "usize_from_ProgramFault LoopOverflow = 3"
| "usize_from_ProgramFault LoopUnderflow = 4"
| "usize_from_ProgramFault ModOperandRange = 11"
| "usize_from_ProgramFault StackOverflow = 2"
| "usize_from_ProgramFault Fault = 10"
| "usize_from_ProgramFault FaultTrap = 8"
| "usize_from_ProgramFault FaultUnknown = 12"

datatype InterruptFlag = CommandReceive | CommandDone | PCStackOverflow | LoopStackOverflow | LoopStackUnderflow | DMemPointersOverflow
  | DrfPointersOverflow | FlagBreak | FlagTrap | FlagDoneWipeSecrets | FlagProgramFault | OperandOutofRange

fun flag_bit :: "InterruptFlag \<Rightarrow> u32" where
  "flag_bit CommandReceive = 1"
| "flag_bit CommandDone = push_bit 1 1"
| "flag_bit PCStackOverflow = push_bit 2 1"
| "flag_bit LoopStackOverflow = push_bit 3 1"
| "flag_bit LoopStackUnderflow = push_bit 4 1"
| "flag_bit DMemPointersOverflow = push_bit 5 1"
| "flag_bit DrfPointersOverflow = push_bit 6 1"
| "flag_bit FlagBreak = push_bit 7 1"
| "flag_bit FlagTrap = push_bit 8 1"
| "flag_bit FlagDoneWipeSecrets = push_bit 9 1"
| "flag_bit FlagProgramFault = push_bit 10 1"
| "flag_bit OperandOutofRange = push_bit 11 1"

text \<open>The calls of \<^verbatim>\<open>DcryptoClient\<close> the engine makes.\<close>

datatype dcrypto_event = ExecutionComplete ReturnCode ProgramFault

record DcryptoRegisters =
  dc_control :: u32
  dc_int_enable :: u32
  dc_int_state :: u32
  dc_host_cmd :: u32
  dc_status :: u32
  dc_rand_stall :: u32
  dc_wipe_secrets :: u32

text \<open>The memories are there from the beginning; the driver reaches them once they are mapped.\<close>

record DcryptoEngine =
  dc_regs :: DcryptoRegisters
  dc_pmu :: PMURegisters
  dc_client :: bool
  dc_state :: DcryptoState
  dc_mapped :: bool
  dc_dmem :: "u32 list"
  dc_imem :: "u32 list"

definition DcryptoEngine_new :: "DcryptoRegisters \<Rightarrow> PMURegisters \<Rightarrow> u32 list \<Rightarrow> u32 list \<Rightarrow> DcryptoEngine" where
  "DcryptoEngine_new r pmu dmem imem =
     \<lparr>dc_regs = r, dc_pmu = pmu, dc_client = False, dc_state = DUninitialized, dc_mapped = False, dc_dmem = dmem, dc_imem = imem\<rparr>"

definition on_dc_regs :: "(DcryptoRegisters \<Rightarrow> DcryptoRegisters) \<Rightarrow> DcryptoEngine \<Rightarrow> DcryptoEngine" where
  "on_dc_regs f e = e\<lparr>dc_regs := f (dc_regs e)\<rparr>"

text \<open>A one written to a bit of the interrupt state clears it.\<close>

definition clear_int_state :: "u32 \<Rightarrow> DcryptoRegisters \<Rightarrow> DcryptoRegisters" where
  "clear_int_state v r = r\<lparr>dc_int_state := dc_int_state r AND NOT v\<rparr>"

definition configure_stall :: "DcryptoRegisters \<Rightarrow> DcryptoRegisters" where
  "configure_stall r =
     (let stall = dc_rand_stall r; stall = stall AND RAND_STALL_EN_MASK; r = r\<lparr>dc_rand_stall := stall\<rparr>;
          stall = stall AND RAND_STALL_FREQ_MASK; stall = stall OR RAND_STALL_FREQ_6; r = r\<lparr>dc_rand_stall := stall\<rparr>;
          stall = stall OR RAND_STALL_EN in
      r\<lparr>dc_rand_stall := stall\<rparr>)"

definition enabled_interrupts :: u32 where
  "enabled_interrupts = flag_bit CommandDone OR flag_bit DMemPointersOverflow OR flag_bit DrfPointersOverflow OR flag_bit LoopStackOverflow
     OR flag_bit LoopStackUnderflow OR flag_bit OperandOutofRange OR flag_bit PCStackOverflow OR flag_bit FlagProgramFault OR flag_bit FlagTrap"

definition dcrypto_initialize :: "DcryptoEngine \<Rightarrow> ReturnCode \<times> DcryptoEngine" where
  "dcrypto_initialize e =
     (let e = e\<lparr>dc_mapped := True\<rparr> in
      if dc_state e \<noteq> DUninitialized then (EALREADY, e)
      else
        (let e = e\<lparr>dc_pmu := reset_dcrypto (Clock_enable (Bank0 Clk_Crypto0) (dc_pmu e))\<rparr>;
             e = on_dc_regs configure_stall e;
             e = e\<lparr>dc_dmem := replicate DMEM_SIZE 0xdddddddd, dc_imem := replicate IMEM_SIZE 0xdddddddd\<rparr>;
             e = on_dc_regs (clear_int_state 0xffffffff) e;
             e = on_dc_regs (\<lambda>r. r\<lparr>dc_int_enable := enabled_interrupts\<rparr>) e;
             e = on_dc_regs (\<lambda>r. r\<lparr>dc_control := 1\<rparr>) e;
             e = on_dc_regs (\<lambda>r. r\<lparr>dc_control := 0\<rparr>) e in
         (SUCCESS, e\<lparr>dc_state := DHalt\<rparr>)))"

definition fault_cause :: "nat \<Rightarrow> ProgramFault" where
  "fault_cause nvic =
     (if nvic = 1 then DataAccess else if nvic = 3 then DataAccess else if nvic = 6 then LoopOverflow else if nvic = 7 then LoopUnderflow
      else if nvic = 8 then ModOperandRange else if nvic = 9 then StackOverflow else if nvic = 10 then Fault else if nvic = 11 then FaultTrap
      else FaultUnknown)"

definition fault_flag :: "nat \<Rightarrow> InterruptFlag option" where
  "fault_flag nvic =
     (if nvic = 1 then Some DMemPointersOverflow else if nvic = 3 then Some DrfPointersOverflow else if nvic = 6 then Some LoopStackOverflow
      else if nvic = 7 then Some LoopStackUnderflow else if nvic = 8 then Some OperandOutofRange else if nvic = 9 then Some PCStackOverflow
      else if nvic = 10 then Some FlagProgramFault else if nvic = 11 then Some FlagTrap else None)"

definition hw_state :: "u32 \<Rightarrow> HwState" where
  "hw_state status =
     (let s = status AND 0x3 in if s = 0 then HwHalt else if s = 1 then HwRun else if s = 2 then HwBreak else if s = 3 then HwWipe else HwUnknown)"

fun state_of_hw :: "HwState \<Rightarrow> DcryptoState" where
  "state_of_hw HwBreak = DBreak"
| "state_of_hw HwHalt = DHalt"
| "state_of_hw HwRun = DRunning"
| "state_of_hw HwWipe = DWiping"
| "state_of_hw HwUnknown = DUninitialized"

definition handle_error_interrupt :: "nat \<Rightarrow> (DcryptoEngine, unit, dcrypto_event list) eff" where
  "handle_error_interrupt nvic e =
     (case fault_flag nvic of
        None \<Rightarrow> (Panic, e)
      | Some flag \<Rightarrow>
          (let cause = fault_cause nvic;
               e = on_dc_regs (clear_int_state (flag_bit flag)) e;
               new_state = state_of_hw (hw_state (dc_status (dc_regs e)));
               e = e\<lparr>dc_state := new_state\<rparr> in
           if new_state \<noteq> DRunning \<and> (cause = DataAccess \<or> cause = DataAccess \<or> cause = LoopOverflow \<or> cause = LoopUnderflow \<or> cause = StackOverflow)
             \<and> dc_client e
           then (Ok [ExecutionComplete FAIL cause], e) else (Ok [], e)))"

definition handle_receive_interrupt :: "(DcryptoEngine, unit, unit) eff" where
  "handle_receive_interrupt e =
     (if dc_state e \<noteq> DStarting then (Panic, e)
      else (Ok (), (on_dc_regs (clear_int_state (flag_bit CommandReceive)) e)\<lparr>dc_state := DRunning\<rparr>))"

definition handle_done_interrupt :: "(DcryptoEngine, unit, dcrypto_event list) eff" where
  "handle_done_interrupt e =
     (if dc_state e \<in> {DRunning, DBreak, DHalt} then
        (let fault = (if dc_state e = DBreak then FaultBreak else FaultUnknown);
             e = (on_dc_regs (clear_int_state (flag_bit CommandDone)) e)\<lparr>dc_state := DHalt\<rparr> in
         (Ok (if dc_client e then [ExecutionComplete SUCCESS fault] else []), e))
      else (Panic, e))"

definition handle_break_interrupt :: "(DcryptoEngine, unit, unit) eff" where
  "handle_break_interrupt e = (Panic, e)"

definition handle_wipe_interrupt :: "DcryptoEngine \<Rightarrow> DcryptoEngine" where
  "handle_wipe_interrupt = on_dc_regs (clear_int_state (flag_bit FlagDoneWipeSecrets))"

definition dcrypto_set_client :: "DcryptoEngine \<Rightarrow> DcryptoEngine" where
  "dcrypto_set_client e = e\<lparr>dc_client := True\<rparr>"

text \<open>The check the four transfers make; \<open>count\<close> is in words, the length of the buffer in bytes.\<close>

definition transfer_too_long :: "nat \<Rightarrow> nat \<Rightarrow> nat \<Rightarrow> byte list \<Rightarrow> bool" where
  "transfer_too_long mem_size offset count data \<longleftrightarrow> mem_size < offset \<or> mem_size < count \<or> mem_size < offset + count \<or> length data < count"

text \<open>The loops; an index out of range is a panic. \<open>load_words\<close> starts at the beginning of the memory whatever the offset is.\<close>

fun load_words :: "u32 list \<Rightarrow> nat \<Rightarrow> nat \<Rightarrow> byte list \<Rightarrow> byte list option" where
  "load_words mem i 0 data = Some data"
| "load_words mem i (Suc n) data =
     (if length mem \<le> i \<or> length data \<le> 4 * i + 3 then None
      else let w = word_bytes (mem ! i) in
        load_words mem (Suc i) n (data[4 * i := w ! 0, 4 * i + 1 := w ! 1, 4 * i + 2 := w ! 2, 4 * i + 3 := w ! 3]))"

fun store_words :: "byte list \<Rightarrow> nat \<Rightarrow> nat \<Rightarrow> nat \<Rightarrow> u32 list \<Rightarrow> u32 list option" where
  "store_words data offset i 0 mem = Some mem"
| "store_words data offset i (Suc n) mem =
     (if length data \<le> 4 * i + 3 \<or> length mem \<le> offset + i then None
      else store_words data offset (Suc i) n (mem[offset + i := le_word data i]))"

definition dcrypto_read_data :: "byte list \<Rightarrow> nat \<Rightarrow> nat \<Rightarrow> DcryptoEngine \<Rightarrow> (unit, ReturnCode \<times> byte list) outcome" where
  "dcrypto_read_data data offset count e =
     (if transfer_too_long DMEM_SIZE offset count data then Ok (ESIZE, data)
      else if \<not> dc_mapped e then Ok (SUCCESS, data)
      else case load_words (dc_dmem e) 0 count data of None \<Rightarrow> Panic | Some data \<Rightarrow> Ok (SUCCESS, data))"

definition dcrypto_write_data :: "byte list \<Rightarrow> nat \<Rightarrow> nat \<Rightarrow> (DcryptoEngine, unit, ReturnCode) eff" where
  "dcrypto_write_data data offset count e =
     (if transfer_too_long DMEM_SIZE offset count data then (Ok ESIZE, e)
      else if dc_state e \<noteq> DHalt then (Ok EBUSY, e)
      else if \<not> dc_mapped e then (Ok SUCCESS, e)
      else case store_words data offset 0 count (dc_dmem e) of None \<Rightarrow> (Panic, e) | Some mem \<Rightarrow> (Ok SUCCESS, e\<lparr>dc_dmem := mem\<rparr>))"

definition dcrypto_read_instructions :: "byte list \<Rightarrow> nat \<Rightarrow> nat \<Rightarrow> DcryptoEngine \<Rightarrow> (unit, ReturnCode \<times> byte list) outcome" where
  "dcrypto_read_instructions instructions offset count e =
     (if transfer_too_long IMEM_SIZE offset count instructions then Ok (ESIZE, instructions)
      else if \<not> dc_mapped e then Ok (SUCCESS, instructions)
      else case load_words (dc_imem e) 0 count instructions of None \<Rightarrow> Panic | Some data \<Rightarrow> Ok (SUCCESS, data))"

definition dcrypto_write_instructions :: "byte list \<Rightarrow> nat \<Rightarrow> nat \<Rightarrow> (DcryptoEngine, unit, ReturnCode) eff" where
  "dcrypto_write_instructions instructions offset count e =
     (if transfer_too_long IMEM_SIZE offset count instructions then (Ok ESIZE, e)
      else if dc_state e \<noteq> DHalt then (Ok EBUSY, e)
      else if \<not> dc_mapped e then (Ok SUCCESS, e)
      else case store_words instructions offset 0 count (dc_imem e) of None \<Rightarrow> (Panic, e) | Some mem \<Rightarrow> (Ok SUCCESS, e\<lparr>dc_imem := mem\<rparr>))"

text \<open>The interrupt state is cleared until no start or done interrupt is left; what the engine does meanwhile is \<open>tick\<close>.\<close>

definition clear_round :: "(DcryptoRegisters \<Rightarrow> DcryptoRegisters) \<Rightarrow> DcryptoRegisters \<Rightarrow> DcryptoRegisters" where
  "clear_round tick r = tick (clear_int_state 0xffffffff r)"

partial_function (option) clear_interrupts :: "(DcryptoRegisters \<Rightarrow> DcryptoRegisters) \<Rightarrow> DcryptoRegisters \<Rightarrow> DcryptoRegisters option" where
  "clear_interrupts tick r =
     (if dc_int_state (clear_round tick r) AND 0x3 \<noteq> 0 then clear_interrupts tick (clear_round tick r) else Some (clear_round tick r))"

definition dcrypto_execute_instruction :: "(DcryptoRegisters \<Rightarrow> DcryptoRegisters) \<Rightarrow> u32 \<Rightarrow> bool \<Rightarrow> (DcryptoEngine, unit, ReturnCode) peff" where
  "dcrypto_execute_instruction tick instruction is_call e =
     (if dc_state e \<noteq> DHalt then Some (Ok EBUSY, e)
      else map_option (\<lambda>r. (Ok SUCCESS, e\<lparr>dc_regs := r\<lparr>dc_host_cmd := instruction\<rparr>, dc_state := (if is_call then DRunning else dc_state e)\<rparr>))
        (clear_interrupts tick (dc_regs e)))"

definition dcrypto_call_imem :: "(DcryptoRegisters \<Rightarrow> DcryptoRegisters) \<Rightarrow> nat \<Rightarrow> (DcryptoEngine, unit, ReturnCode) peff" where
  "dcrypto_call_imem tick address e =
     (if IMEM_SIZE - 4 < address then Some (Ok ESIZE, e) else dcrypto_execute_instruction tick (0x08000000 + word_of_nat address) True e)"

definition dcrypto_reset :: "DcryptoEngine \<Rightarrow> ReturnCode" where
  "dcrypto_reset e = FAIL"

definition dcrypto_wipe_secrets :: "DcryptoEngine \<Rightarrow> ReturnCode \<times> DcryptoEngine" where
  "dcrypto_wipe_secrets e = (SUCCESS, on_dc_regs (\<lambda>r. r\<lparr>dc_wipe_secrets := 0\<rparr>) (e\<lparr>dc_state := DWiping\<rparr>))"

section \<open>System calls\<close>

record DcryptoApp =
  da_program :: "byte list option"
  da_data_buffer :: "byte list option"
  da_callback :: bool

definition DcryptoApp_default :: DcryptoApp where
  "DcryptoApp_default = \<lparr>da_program = None, da_data_buffer = None, da_callback = False\<rparr>"

text \<open>One application record serves all applications. \<open>dd_scheduled\<close> lists the results and fault numbers of the callbacks.\<close>

record DcryptoDriver =
  dd_device :: DcryptoEngine
  dd_app :: DcryptoApp
  dd_busy :: bool
  dd_scheduled :: "(ReturnCode \<times> nat) list"

definition DcryptoDriver_new :: "DcryptoEngine \<Rightarrow> DcryptoDriver" where
  "DcryptoDriver_new e = \<lparr>dd_device = e, dd_app = DcryptoApp_default, dd_busy = False, dd_scheduled = []\<rparr>"

definition on_dd_device :: "(DcryptoEngine, unit, 'a) peff \<Rightarrow> (DcryptoDriver, unit, 'a) peff" where
  "on_dd_device m s = map_option (\<lambda>(r, e). (r, s\<lparr>dd_device := e\<rparr>)) (m (dd_device s))"

definition run_program :: "(DcryptoRegisters \<Rightarrow> DcryptoRegisters) \<Rightarrow> nat \<Rightarrow> (DcryptoDriver, unit, ReturnCode) peff" where
  "run_program tick instruction s =
     (case (da_data_buffer (dd_app s), da_program (dd_app s)) of
        (Some data, Some program) \<Rightarrow>
          peff_bind (on_dd_device (returning (dcrypto_write_data data 0 (length data div 4)))) (\<lambda>rval.
          if rval \<noteq> SUCCESS then returning (ret rval)
          else peff_bind (on_dd_device (returning (dcrypto_write_instructions program 0 (length program div 4)))) (\<lambda>rval.
          if rval \<noteq> SUCCESS then returning (ret rval) else on_dd_device (dcrypto_call_imem tick instruction))) s
      | _ \<Rightarrow> Some (Ok ENOMEM, s))"

definition dd_subscribe :: "nat \<Rightarrow> bool \<Rightarrow> DcryptoDriver \<Rightarrow> ReturnCode \<times> DcryptoDriver" where
  "dd_subscribe num callback s =
     (if num = 0 then (SUCCESS, s\<lparr>dd_app := (dd_app s)\<lparr>da_callback := callback\<rparr>\<rparr>) else (ENOSUPPORT, s))"

definition dd_command :: "(DcryptoRegisters \<Rightarrow> DcryptoRegisters) \<Rightarrow> nat \<Rightarrow> nat \<Rightarrow> (DcryptoDriver, unit, ReturnCode) peff" where
  "dd_command tick num instruction s =
     (if num = 0 then Some (Ok SUCCESS, s)
      else if num = 1 then if dd_busy s then Some (Ok EBUSY, s) else run_program tick instruction (s\<lparr>dd_busy := True\<rparr>)
      else Some (Ok ENOSUPPORT, s))"

definition dd_allow :: "nat \<Rightarrow> byte list option \<Rightarrow> DcryptoDriver \<Rightarrow> ReturnCode \<times> DcryptoDriver" where
  "dd_allow num buf s =
     (if num = 0 then (SUCCESS, s\<lparr>dd_app := (dd_app s)\<lparr>da_data_buffer := buf\<rparr>\<rparr>)
      else if num = 1 then (SUCCESS, s\<lparr>dd_app := (dd_app s)\<lparr>da_program := buf\<rparr>\<rparr>)
      else (ENOSUPPORT, s))"

definition execution_complete :: "ReturnCode \<Rightarrow> ProgramFault \<Rightarrow> (DcryptoDriver, unit, unit) eff" where
  "execution_complete error fault s0 =
     (let s = s0\<lparr>dd_busy := False\<rparr> in
      if \<not> da_callback (dd_app s) then (Ok (), s)
      else case da_data_buffer (dd_app s) of
        None \<Rightarrow> (Panic, s)
      | Some data \<Rightarrow>
          (case dcrypto_read_data data 0 (length data div 4) (dd_device s) of
             Ok (_, data) \<Rightarrow> (Ok (), s\<lparr>dd_app := (dd_app s)\<lparr>da_data_buffer := Some data\<rparr>,
                 dd_scheduled := dd_scheduled s @ [(error, usize_from_ProgramFault fault)]\<rparr>)
           | _ \<Rightarrow> (Panic, s)))"

fun dd_events :: "dcrypto_event list \<Rightarrow> (DcryptoDriver, unit, unit) eff" where
  "dd_events [] = ret ()"
| "dd_events (ExecutionComplete error fault # evs) = eff_bind (execution_complete error fault) (\<lambda>_. dd_events evs)"

text \<open>The interrupts of the engine, with its client.\<close>

definition dd_interrupt :: "(DcryptoEngine, unit, dcrypto_event list) eff \<Rightarrow> (DcryptoDriver, unit, unit) eff" where
  "dd_interrupt handler s =
     (case handler (dd_device s) of
        (Ok evs, e) \<Rightarrow> dd_events evs (s\<lparr>dd_device := e\<rparr>) | (Err x, e) \<Rightarrow> (Err x, s\<lparr>dd_device := e\<rparr>) | (Panic, e) \<Rightarrow> (Panic, s\<lparr>dd_device := e\<rparr>))"

definition reset_complete :: "(DcryptoDriver, unit, unit) eff" where
  "reset_complete s = (Panic, s)"

definition secret_wipe_complete :: "(DcryptoDriver, unit, unit) eff" where
  "secret_wipe_complete s = (Panic, s)"

section \<open>Transfers\<close>

lemma store_words_eq:
  assumes "4 * (i + n) \<le> length data" and "offset + i + n \<le> length mem"
  shows "store_words data offset i n mem = Some (take (offset + i) mem @ map (le_word data) [i..<i + n] @ drop (offset + i + n) mem)"
  using assms
proof (induction n arbitrary: i mem)
  case (Suc n)
  let ?mem = "mem[offset + i := le_word data i]"
  have "store_words data offset i (Suc n) mem = store_words data offset (Suc i) n ?mem"
    using Suc.prems by simp
  also have "\<dots> = Some (take (offset + Suc i) ?mem @ map (le_word data) [Suc i..<Suc i + n] @ drop (offset + Suc i + n) ?mem)"
    using Suc.prems by (intro Suc.IH) simp_all
  also have "take (offset + Suc i) ?mem = take (offset + i) mem @ [le_word data i]"
    using Suc.prems(2) by (simp add: take_Suc_conv_app_nth)
  finally show ?case
    by (simp add: upt_conv_Cons del: upt_Suc store_words.simps)
qed simp

lemma store_all_words:
  "4 * n \<le> length data \<Longrightarrow> n \<le> length mem \<Longrightarrow> store_words data 0 0 n mem = Some (map (le_word data) [0..<n] @ drop n mem)"
  using store_words_eq [of 0 n data 0 mem] by simp

lemma load_words_eq:
  assumes "4 * (i + n) \<le> length data" and "i + n \<le> length mem"
  shows "load_words mem i n data = Some (take (4 * i) data @ concat (map word_bytes (take n (drop i mem))) @ drop (4 * (i + n)) data)"
  using assms
proof (induction n arbitrary: i data)
  case (Suc n)
  let ?w = "word_bytes (mem ! i)"
  define d where "d = take (4 * i) data @ ?w @ drop (4 * i + 4) data"
  have upd: "data[4 * i := ?w ! 0, 4 * i + 1 := ?w ! 1, 4 * i + 2 := ?w ! 2, 4 * i + 3 := ?w ! 3] = d"
    unfolding d_def using Suc.prems(1) by (intro update_word) simp_all
  have step: "load_words mem i (Suc n) data = load_words mem (Suc i) n d"
    using Suc.prems by (simp add: upd [symmetric] Let_def)
  have "load_words mem (Suc i) n d = Some (take (4 * Suc i) d @ concat (map word_bytes (take n (drop (Suc i) mem))) @ drop (4 * (Suc i + n)) d)"
    using Suc.prems by (intro Suc.IH) (simp_all add: d_def)
  moreover have "take (4 * Suc i) d = take (4 * i) data @ ?w" "drop (4 * (Suc i + n)) d = drop (4 * (i + Suc n)) data"
    using Suc.prems(1) by (simp_all add: d_def ac_simps)
  moreover have "take (Suc n) (drop i mem) = mem ! i # take n (drop (Suc i) mem)"
    using Suc.prems(2) by (simp add: Cons_nth_drop_Suc [symmetric])
  ultimately show ?case
    using step by simp
qed simp

lemma load_all_words:
  "4 * n \<le> length data \<Longrightarrow> n \<le> length mem \<Longrightarrow> load_words mem 0 n data = Some (concat (map word_bytes (take n mem)) @ drop (4 * n) data)"
  using load_words_eq [of 0 n data mem] by simp

text \<open>What is relied on of the engine: clearing its interrupts ends, and changes nothing else.\<close>

definition settles :: "(DcryptoRegisters \<Rightarrow> DcryptoRegisters) \<Rightarrow> bool" where
  "settles tick \<longleftrightarrow> (\<forall>r. \<exists>n v. (clear_round tick ^^ Suc n) r = r\<lparr>dc_int_state := v\<rparr> \<and> v AND 0x3 = 0
     \<and> (\<forall>m<n. dc_int_state ((clear_round tick ^^ Suc m) r) AND 0x3 \<noteq> 0))"

lemma clear_interrupts_returns:
  assumes "\<forall>m<n. dc_int_state ((clear_round tick ^^ Suc m) r) AND 0x3 \<noteq> 0" and "dc_int_state ((clear_round tick ^^ Suc n) r) AND 0x3 = 0"
  shows "clear_interrupts tick r = Some ((clear_round tick ^^ Suc n) r)"
  using assms
proof (induction n arbitrary: r)
  case 0
  then show ?case
    by (simp add: clear_interrupts.simps)
next
  case (Suc n)
  have "dc_int_state (clear_round tick r) AND 0x3 \<noteq> 0"
    using Suc.prems(1) by (metis funpow_simps_right(2) funpow_0 comp_apply zero_less_Suc)
  moreover have "clear_interrupts tick (clear_round tick r) = Some ((clear_round tick ^^ Suc n) (clear_round tick r))"
    using Suc.prems by (intro Suc.IH) (auto simp: funpow_Suc_right simp del: funpow.simps)
  ultimately show ?case
    by (subst clear_interrupts.simps) (simp add: funpow_Suc_right del: funpow.simps)
qed

lemma call_imem_starts:
  assumes "settles tick" and "dc_state e = DHalt" and "address \<le> IMEM_SIZE - 4"
  obtains v where "dcrypto_call_imem tick address e
    = Some (Ok SUCCESS, e\<lparr>dc_regs := (dc_regs e)\<lparr>dc_int_state := v, dc_host_cmd := 0x08000000 + word_of_nat address\<rparr>, dc_state := DRunning\<rparr>)"
proof -
  obtain n v where n: "(clear_round tick ^^ Suc n) (dc_regs e) = (dc_regs e)\<lparr>dc_int_state := v\<rparr>" "v AND 0x3 = 0"
      "\<forall>m<n. dc_int_state ((clear_round tick ^^ Suc m) (dc_regs e)) AND 0x3 \<noteq> 0"
    using assms(1) unfolding settles_def by metis
  then have "clear_interrupts tick (dc_regs e) = Some ((dc_regs e)\<lparr>dc_int_state := v\<rparr>)"
    using clear_interrupts_returns [of n tick "dc_regs e"] by simp
  then show thesis
    using that assms(2,3) by (simp add: dcrypto_call_imem_def dcrypto_execute_instruction_def)
qed

section \<open>Properties\<close>

definition engine_ok :: "DcryptoEngine \<Rightarrow> bool" where
  "engine_ok e \<longleftrightarrow> dc_mapped e \<and> dc_client e \<and> length (dc_dmem e) = DMEM_SIZE \<and> length (dc_imem e) = IMEM_SIZE"

lemmas mem_sizes = DMEM_SIZE_def IMEM_SIZE_def

lemma write_transfers:
  assumes "dc_state e = DHalt" and "engine_ok e" and "length data div 4 \<le> DMEM_SIZE"
  shows "dcrypto_write_data data 0 (length data div 4) e = (Ok SUCCESS, e\<lparr>dc_dmem := bytes_words data @ drop (length data div 4) (dc_dmem e)\<rparr>)"
    and "dcrypto_write_instructions data 0 (length data div 4) e = (Ok SUCCESS, e\<lparr>dc_imem := bytes_words data @ drop (length data div 4) (dc_imem e)\<rparr>)"
  using assms
  by (simp_all add: dcrypto_write_data_def dcrypto_write_instructions_def transfer_too_long_def engine_ok_def store_all_words bytes_words_def mem_sizes)

lemma complete_reads:
  assumes "engine_ok (dd_device s)" and "da_callback (dd_app s)" and "da_data_buffer (dd_app s) = Some data" and "length data div 4 \<le> DMEM_SIZE"
  shows "execution_complete error fault s = (Ok (), s\<lparr>dd_busy := False, dd_scheduled := dd_scheduled s @ [(error, usize_from_ProgramFault fault)],
    dd_app := (dd_app s)\<lparr>da_data_buffer := Some (concat (map word_bytes (take (length data div 4) (dc_dmem (dd_device s)))) @ drop (4 * (length data div 4)) data)\<rparr>\<rparr>)"
  using assms
  by (simp add: execution_complete_def dcrypto_read_data_def transfer_too_long_def engine_ok_def load_all_words mem_sizes)

text \<open>C18. A program runs on the data of the application and its result comes back: for buffers that fit the memories, the run command
  copies data and program word by word to the beginning of the two memories, calls the given address and answers
  success. When the coprocessor is done, having left any contents in its data memory, the buffer of the application holds
  the first words of them, a remainder of less than a word is untouched, and the callback is scheduled.
\<close>

theorem dcrypto_program_runs:
  assumes "settles tick" and "engine_ok (dd_device s)" and "dc_state (dd_device s) = DHalt" and "\<not> dd_busy s" and "da_callback (dd_app s)"
    and "da_data_buffer (dd_app s) = Some data" and "da_program (dd_app s) = Some program"
    and "length data div 4 \<le> DMEM_SIZE" and "length program div 4 \<le> IMEM_SIZE" and "address \<le> IMEM_SIZE - 4" and "length result = DMEM_SIZE"
  shows "\<exists>s1 s2. dd_command tick 1 address s = Some (Ok SUCCESS, s1)
    \<and> dc_dmem (dd_device s1) = bytes_words data @ drop (length data div 4) (dc_dmem (dd_device s))
    \<and> dc_imem (dd_device s1) = bytes_words program @ drop (length program div 4) (dc_imem (dd_device s))
    \<and> dc_host_cmd (dc_regs (dd_device s1)) = 0x08000000 + word_of_nat address \<and> dc_state (dd_device s1) = DRunning \<and> dd_busy s1
    \<and> dd_interrupt handle_done_interrupt (s1\<lparr>dd_device := (dd_device s1)\<lparr>dc_dmem := result\<rparr>\<rparr>) = (Ok (), s2)
    \<and> da_data_buffer (dd_app s2) = Some (concat (map word_bytes (take (length data div 4) result)) @ drop (4 * (length data div 4)) data)
    \<and> dd_scheduled s2 = dd_scheduled s @ [(SUCCESS, 12)] \<and> \<not> dd_busy s2 \<and> dc_state (dd_device s2) = DHalt"
proof -
  let ?e1 = "(dd_device s)\<lparr>dc_dmem := bytes_words data @ drop (length data div 4) (dc_dmem (dd_device s))\<rparr>"
  let ?e2 = "?e1\<lparr>dc_imem := bytes_words program @ drop (length program div 4) (dc_imem (dd_device s))\<rparr>"
  have ok1: "engine_ok ?e1" "dc_state ?e1 = DHalt"
    using assms(2,3,8) by (simp_all add: engine_ok_def)
  have ok2: "engine_ok ?e2" "dc_state ?e2 = DHalt"
    using assms(2,3,8,9) by (simp_all add: engine_ok_def)
  obtain v where v: "dcrypto_call_imem tick address ?e2
      = Some (Ok SUCCESS, ?e2\<lparr>dc_regs := (dc_regs ?e2)\<lparr>dc_int_state := v, dc_host_cmd := 0x08000000 + word_of_nat address\<rparr>, dc_state := DRunning\<rparr>)"
    using call_imem_starts [OF assms(1) ok2(2) assms(10)] by metis
  let ?e3 = "?e2\<lparr>dc_regs := (dc_regs ?e2)\<lparr>dc_int_state := v, dc_host_cmd := 0x08000000 + word_of_nat address\<rparr>, dc_state := DRunning\<rparr>"
  let ?s1 = "s\<lparr>dd_busy := True, dd_device := ?e3\<rparr>"
  have w2: "dcrypto_write_instructions program 0 (length program div 4) ?e1 = (Ok SUCCESS, ?e2)"
    using write_transfers(2) [OF ok1(2,1), of program] assms(9) by (simp add: mem_sizes)
  have c: "dd_command tick 1 address s = Some (Ok SUCCESS, ?s1)"
    using assms(4,6,7) write_transfers(1) [OF assms(3,2,8)] w2 v
    by (simp add: dd_command_def run_program_def peff_bind_def on_dd_device_def)
  let ?t = "?s1\<lparr>dd_device := (dd_device ?s1)\<lparr>dc_dmem := result\<rparr>\<rparr>"
  let ?e4 = "(on_dc_regs (clear_int_state (flag_bit CommandDone)) (dd_device ?t))\<lparr>dc_state := DHalt\<rparr>"
  have d: "handle_done_interrupt (dd_device ?t) = (Ok [ExecutionComplete SUCCESS FaultUnknown], ?e4)"
    using assms(2) by (simp add: handle_done_interrupt_def engine_ok_def on_dc_regs_def)
  have "execution_complete SUCCESS FaultUnknown (?t\<lparr>dd_device := ?e4\<rparr>) = (Ok (), ?t\<lparr>dd_device := ?e4, dd_busy := False,
      dd_scheduled := dd_scheduled s @ [(SUCCESS, 12)], dd_app := (dd_app s)\<lparr>da_data_buffer :=
        Some (concat (map word_bytes (take (length data div 4) result)) @ drop (4 * (length data div 4)) data)\<rparr>\<rparr>)"
    using complete_reads [of "?t\<lparr>dd_device := ?e4\<rparr>" data SUCCESS FaultUnknown] assms(2,5,6,8,9,11)
    by (simp add: engine_ok_def on_dc_regs_def)
  with c d show ?thesis
    by (simp add: dd_interrupt_def eff_bind_def ret_def)
qed

text \<open>Sequences of system calls.\<close>

datatype DcryptoCall = DcCommand nat nat | DcAllow nat "byte list option" | DcSubscribe nat bool

fun dcrypto_call :: "(DcryptoRegisters \<Rightarrow> DcryptoRegisters) \<Rightarrow> DcryptoCall \<Rightarrow> (DcryptoDriver, unit, ReturnCode) peff" where
  "dcrypto_call tick (DcCommand num instruction) s = dd_command tick num instruction s"
| "dcrypto_call tick (DcAllow num buf) s = (case dd_allow num buf s of (rc, s) \<Rightarrow> Some (Ok rc, s))"
| "dcrypto_call tick (DcSubscribe num cb) s = (case dd_subscribe num cb s of (rc, s) \<Rightarrow> Some (Ok rc, s))"

fun dcrypto_calls :: "(DcryptoRegisters \<Rightarrow> DcryptoRegisters) \<Rightarrow> DcryptoCall list \<Rightarrow> (DcryptoDriver, unit, unit) peff" where
  "dcrypto_calls tick [] = returning (ret ())"
| "dcrypto_calls tick (c # cs) = peff_bind (dcrypto_call tick c) (\<lambda>_. dcrypto_calls tick cs)"

lemma busy_calls:
  assumes "dd_busy s"
  obtains s' where "dcrypto_calls tick cs s = Some (Ok (), s')" and "dd_busy s'"
  using assms
proof (induction cs arbitrary: s thesis)
  case Nil
  then show ?case
    by (simp add: ret_def)
next
  case (Cons c cs)
  have "\<exists>rc s1. dcrypto_call tick c s = Some (Ok rc, s1) \<and> dd_busy s1"
    using Cons.prems(2) by (cases c) (auto simp: dd_command_def dd_allow_def dd_subscribe_def)
  then obtain rc s1 where s1: "dcrypto_call tick c s = Some (Ok rc, s1)" "dd_busy s1"
    by blast
  obtain s' where "dcrypto_calls tick cs s1 = Some (Ok (), s')" "dd_busy s'"
    using Cons.IH [OF _ s1(2)] by metis
  then show ?case
    using Cons.prems(1) s1(1) by simp
qed

text \<open>A run that fails blocks the coprocessor: the command marks the driver as busy before it looks for the buffers, and only the
  completion of a program unmarks it. After a run without buffers every later run answers busy, whatever buffers and
  callbacks are given in between.
\<close>

theorem dcrypto_failed_run_blocks:
  assumes "\<not> dd_busy s" and "da_data_buffer (dd_app s) = None \<or> da_program (dd_app s) = None"
  shows "\<exists>s1 s2. dd_command tick 1 address s = Some (Ok ENOMEM, s1) \<and> dcrypto_calls tick cs s1 = Some (Ok (), s2)
    \<and> dd_command tick 1 address' s2 = Some (Ok EBUSY, s2)"
proof -
  let ?s1 = "s\<lparr>dd_busy := True\<rparr>"
  have "dd_command tick 1 address s = Some (Ok ENOMEM, ?s1)"
    using assms by (auto simp: dd_command_def run_program_def split: option.splits)
  moreover obtain s2 where "dcrypto_calls tick cs ?s1 = Some (Ok (), s2)" "dd_busy s2"
    using busy_calls [of ?s1] by auto
  ultimately show ?thesis
    by (auto simp: dd_command_def)
qed

text \<open>An application can make the kernel panic: it starts a program, takes its data buffer back while the program runs, and the
  completion finds none.
\<close>

theorem dcrypto_revoked_buffer_panics:
  assumes "engine_ok (dd_device s)" and "dc_state (dd_device s) = DRunning" and "da_callback (dd_app s)"
  shows "\<exists>s1. dd_allow 0 None s = (SUCCESS, s1) \<and> fst (dd_interrupt handle_done_interrupt s1) = Panic"
  using assms
  by (simp add: dd_allow_def dd_interrupt_def handle_done_interrupt_def engine_ok_def on_dc_regs_def execution_complete_def eff_bind_def)

text \<open>As many words as the buffer has bytes, which the self test of the driver asks for, pass the check and panic.\<close>

lemma dcrypto_byte_count_panics:
  assumes "dc_state e = DHalt" and "dc_mapped e" and "length (dc_imem e) = IMEM_SIZE" and "0 < length data" and "length data \<le> IMEM_SIZE"
  shows "fst (dcrypto_write_instructions data 0 (length data) e) = Panic"
proof -
  have "store_words data 0 i n mem = None" if "length data < 4 * (i + n)" "0 < n" for i n mem
    using that
  proof (induction n arbitrary: i mem)
    case (Suc n)
    show ?case
    proof (cases "length data \<le> 4 * i + 3 \<or> length mem \<le> 0 + i")
      case False
      then have "store_words data 0 (Suc i) n (mem[0 + i := le_word data i]) = None"
        using Suc.prems by (intro Suc.IH) (cases n; simp)+
      then show ?thesis
        by simp
    qed simp
  qed simp
  then show ?thesis
    using assms by (simp add: dcrypto_write_instructions_def transfer_too_long_def)
qed

text \<open>Wiping secrets is never left again: its interrupt does not reset the state, and a program cannot be started in it.\<close>

lemma dcrypto_wipe_final:
  "dc_state (handle_wipe_interrupt (snd (dcrypto_wipe_secrets e))) = DWiping"
  "dcrypto_call_imem tick address (snd (dcrypto_wipe_secrets e)) \<in> {Some (Ok ESIZE, snd (dcrypto_wipe_secrets e)), Some (Ok EBUSY, snd (dcrypto_wipe_secrets e))}"
  by (simp_all add: dcrypto_wipe_secrets_def handle_wipe_interrupt_def on_dc_regs_def dcrypto_call_imem_def dcrypto_execute_instruction_def)

text \<open>The offset of a read is ignored.\<close>

lemma dcrypto_read_offset_ignored:
  "\<not> transfer_too_long DMEM_SIZE offset count data \<Longrightarrow> dcrypto_read_data data offset count e = dcrypto_read_data data 0 count e"
  by (auto simp: dcrypto_read_data_def transfer_too_long_def)

section \<open>Witnesses\<close>

definition demo_dcrypto :: DcryptoDriver where
  "demo_dcrypto = (DcryptoDriver_new (dcrypto_set_client (snd (dcrypto_initialize (DcryptoEngine_new
     \<lparr>dc_control = 0, dc_int_enable = 0, dc_int_state = 0, dc_host_cmd = 0, dc_status = 0, dc_rand_stall = 0, dc_wipe_secrets = 0\<rparr>
     \<lparr>pmu_reset = 0, pmu_reset0 = 0, pmu_clocks0 = 0, pmu_clocks1 = 0\<rparr> (replicate 1024 0) (replicate 1024 0))))))
     \<lparr>dd_app := \<lparr>da_program = Some [0, 0, 0, 0x0c], da_data_buffer = Some [1, 2, 3, 4, 5], da_callback = True\<rparr>\<rparr>"

lemma demo_settles: "settles (\<lambda>r. r)"
  unfolding settles_def
proof
  fix r :: DcryptoRegisters
  have "(clear_round (\<lambda>r. r) ^^ Suc 0) r = r\<lparr>dc_int_state := 0\<rparr>"
  proof -
    have "NOT (0xffffffff :: u32) = 0"
      by (simp add: eq_neg_iff_add_eq_0)
    then show ?thesis
      by (simp only: clear_round_def clear_int_state_def funpow.simps comp_apply id_apply and_zero_eq)
  qed
  then show "\<exists>n v. (clear_round (\<lambda>r. r) ^^ Suc n) r = r\<lparr>dc_int_state := v\<rparr> \<and> v AND 0x3 = 0
      \<and> (\<forall>m<n. dc_int_state ((clear_round (\<lambda>r. r) ^^ Suc m) r) AND 0x3 \<noteq> 0)"
    by (intro exI [of _ 0]) auto
qed

lemma demo_dcrypto_ready:
  "engine_ok (dd_device demo_dcrypto)" "dc_state (dd_device demo_dcrypto) = DHalt" "\<not> dd_busy demo_dcrypto" "da_callback (dd_app demo_dcrypto)"
  "da_data_buffer (dd_app demo_dcrypto) = Some [1, 2, 3, 4, 5]" "da_program (dd_app demo_dcrypto) = Some [0, 0, 0, 0x0c]" "dd_scheduled demo_dcrypto = []"
  by (simp_all add: demo_dcrypto_def DcryptoDriver_new_def dcrypto_set_client_def dcrypto_initialize_def DcryptoEngine_new_def Let_def on_dc_regs_def
      engine_ok_def mem_sizes)

theorem dcrypto_program_runs_witness:
  "\<exists>s1 s2. dd_command (\<lambda>r. r) 1 0 demo_dcrypto = Some (Ok SUCCESS, s1)
     \<and> dd_interrupt handle_done_interrupt (s1\<lparr>dd_device := (dd_device s1)\<lparr>dc_dmem := replicate 1024 7\<rparr>\<rparr>) = (Ok (), s2)
     \<and> da_data_buffer (dd_app s2) = Some [7, 0, 0, 0, 5] \<and> dd_scheduled s2 = [(SUCCESS, 12)]"
proof -
  have "concat (map word_bytes (take (length [1, 2, 3, 4, 5 :: byte] div 4) (replicate 1024 7))) @ drop (4 * (length [1, 2, 3, 4, 5 :: byte] div 4)) [1, 2, 3, 4, 5]
      = [7, 0, 0, 0, 5]"
    by (simp add: word_bytes_def)
  moreover note dcrypto_program_runs [OF demo_settles demo_dcrypto_ready(1-6), of 0 "replicate 1024 7"]
  ultimately show ?thesis
    unfolding demo_dcrypto_ready(7) by (simp add: mem_sizes) blast
qed

theorem dcrypto_failed_run_blocks_witness:
  "\<exists>s1 s2. dd_command (\<lambda>r. r) 1 0 (demo_dcrypto\<lparr>dd_app := DcryptoApp_default\<rparr>) = Some (Ok ENOMEM, s1)
     \<and> dcrypto_calls (\<lambda>r. r) [DcAllow 0 (Some [1, 2, 3, 4]), DcAllow 1 (Some [0, 0, 0, 0x0c])] s1 = Some (Ok (), s2)
     \<and> dd_command (\<lambda>r. r) 1 0 s2 = Some (Ok EBUSY, s2)"
  by (rule dcrypto_failed_run_blocks) (simp_all add: demo_dcrypto_ready(3) DcryptoApp_default_def)

theorem dcrypto_revoked_buffer_panics_witness:
  "\<exists>s1. dd_allow 0 None (demo_dcrypto\<lparr>dd_device := (dd_device demo_dcrypto)\<lparr>dc_state := DRunning\<rparr>\<rparr>) = (SUCCESS, s1)
     \<and> fst (dd_interrupt handle_done_interrupt s1) = Panic"
  by (rule dcrypto_revoked_buffer_panics) (use demo_dcrypto_ready(1,4) in \<open>simp_all add: engine_ok_def\<close>)

end
