(* ===== verification/Personality.thy ===== *)
theory Personality
  imports Nv_System Grants Byte_Words
begin

text \<open>
  The attestation data of the device, \<^verbatim>\<open>kernel/h1/src/personality.rs\<close> with \<^verbatim>\<open>hil/personality.rs\<close>, and its system
  calls, \<^verbatim>\<open>kernel/h1_syscalls/src/personality.rs\<close>.
\<close>

section \<open>Data\<close>

record PersonalityData =
  pd_checksum :: "u32 list"
  pd_salt :: "u32 list"
  pd_pub_x :: "u32 list"
  pd_pub_y :: "u32 list"
  pd_certificate_hash :: "u32 list"
  pd_certificate_len :: u32
  pd_certificate :: "byte list"

text \<open>The memory of the structure, as the words the code transmutes it to, and back.\<close>

definition PersonalityData_ok :: "PersonalityData \<Rightarrow> bool" where
  "PersonalityData_ok d \<longleftrightarrow> length (pd_checksum d) = 8 \<and> length (pd_salt d) = 8 \<and> length (pd_pub_x d) = 8 \<and> length (pd_pub_y d) = 8
     \<and> length (pd_certificate_hash d) = 8 \<and> length (pd_certificate d) = 2048 - (4 + 5 * 32)"

definition PersonalityData_words :: "PersonalityData \<Rightarrow> u32 list" where
  "PersonalityData_words d = pd_checksum d @ pd_salt d @ pd_pub_x d @ pd_pub_y d @ pd_certificate_hash d @ [pd_certificate_len d]
     @ bytes_words (pd_certificate d)"

definition PersonalityData_of :: "u32 list \<Rightarrow> PersonalityData" where
  "PersonalityData_of ws = \<lparr>pd_checksum = take 8 ws, pd_salt = take 8 (drop 8 ws), pd_pub_x = take 8 (drop 16 ws), pd_pub_y = take 8 (drop 24 ws),
     pd_certificate_hash = take 8 (drop 32 ws), pd_certificate_len = ws ! 40, pd_certificate = concat (map word_bytes (drop 41 ws))\<rparr>"

section \<open>The driver\<close>

definition PERSONALITY_ADDRESS :: nat where "PERSONALITY_ADDRESS = H1_FLASH_SIZE - 3 * H1_FLASH_PAGE_SIZE"
definition PERSONALITY_ADDRESS_U32 :: nat where "PERSONALITY_ADDRESS_U32 = PERSONALITY_ADDRESS div 4"
definition PERSONALITY_SIZE :: nat where "PERSONALITY_SIZE = H1_FLASH_PAGE_SIZE"
definition PAGE_SIZE_U32 :: nat where "PAGE_SIZE_U32 = H1_FLASH_PAGE_SIZE div 4"

datatype PersonalityState = PIdle | ErasingU8 | WritingU8 | ErasingStruct | WritingStruct

datatype personality_event = SetDone ReturnCode | SetU8Done ReturnCode

text \<open>\<open>pd_flash\<close> is the state of the flash; \<open>pd_has_flash\<close> says whether it has been attached.\<close>

record 's PersonalityDriver =
  pd_state :: PersonalityState
  pd_client :: bool
  pd_has_flash :: bool
  pd_flash :: 's
  pd_write_buffer :: "u32 list option"

definition PersonalityDriver_new :: "'s \<Rightarrow> 's PersonalityDriver" where
  "PersonalityDriver_new f = \<lparr>pd_state = PIdle, pd_client = False, pd_has_flash = False, pd_flash = f, pd_write_buffer = None\<rparr>"

definition pd_set_flash :: "'s PersonalityDriver \<Rightarrow> 's PersonalityDriver" where
  "pd_set_flash p = p\<lparr>pd_has_flash := True\<rparr>"

definition pd_set_buffer :: "u32 list \<Rightarrow> 's PersonalityDriver \<Rightarrow> 's PersonalityDriver" where
  "pd_set_buffer buf p = p\<lparr>pd_write_buffer := Some buf\<rparr>"

definition pd_set_client :: "'s PersonalityDriver \<Rightarrow> 's PersonalityDriver" where
  "pd_set_client p = p\<lparr>pd_client := True\<rparr>"

definition on_pd_flash :: "('s, unit, 'a) eff \<Rightarrow> ('s PersonalityDriver, unit, 'a) eff" where
  "on_pd_flash m p = (case m (pd_flash p) of (r, f) \<Rightarrow> (r, p\<lparr>pd_flash := f\<rparr>))"

definition pd_start_write :: "'s Flash \<Rightarrow> nat \<Rightarrow> ('s PersonalityDriver, unit, bool) eff" where
  "pd_start_write D target p =
     (if \<not> pd_has_flash p then (Ok False, p)
      else case pd_write_buffer p of
        None \<Rightarrow> (Ok False, p)
      | Some buf \<Rightarrow>
          eff_bind (on_pd_flash (flash_write D target buf)) (\<lambda>(_, opt) p.
            case opt of None \<Rightarrow> (Ok True, p) | Some buf \<Rightarrow> (Ok False, p\<lparr>pd_write_buffer := Some buf\<rparr>)) (p\<lparr>pd_write_buffer := None\<rparr>))"

text \<open>The loops that read the page, word by word, into words or into bytes; a failure leaves the rest alone.\<close>

fun read_page :: "(nat \<Rightarrow> ReturnCode) \<Rightarrow> nat \<Rightarrow> nat \<Rightarrow> u32 list \<Rightarrow> ReturnCode \<times> u32 list" where
  "read_page rd i 0 ws = (SUCCESS, ws)"
| "read_page rd i (Suc n) ws =
     (case rd (PERSONALITY_ADDRESS_U32 + i) of
        SuccessWithValue v \<Rightarrow> read_page rd (Suc i) n (ws[i := word_of_nat v])
      | result \<Rightarrow> (result, ws))"

definition pd_get :: "'s Flash \<Rightarrow> PersonalityData \<Rightarrow> 's PersonalityDriver \<Rightarrow> ReturnCode \<times> PersonalityData" where
  "pd_get D data p =
     (if \<not> pd_has_flash p then (ENOMEM, data)
      else case read_page (\<lambda>i. flash_read D i (pd_flash p)) 0 PAGE_SIZE_U32 (PersonalityData_words data) of
        (rc, ws) \<Rightarrow> (rc, PersonalityData_of ws))"

fun read_page_u8 :: "(nat \<Rightarrow> ReturnCode) \<Rightarrow> nat \<Rightarrow> nat \<Rightarrow> byte list \<Rightarrow> ReturnCode \<times> byte list" where
  "read_page_u8 rd i 0 bs = (SUCCESS, bs)"
| "read_page_u8 rd i (Suc n) bs =
     (case rd (PERSONALITY_ADDRESS_U32 + i) of
        SuccessWithValue v \<Rightarrow>
          (let w = word_bytes (word_of_nat v) in
           read_page_u8 rd (Suc i) n (bs[4 * i := w ! 0, 4 * i + 1 := w ! 1, 4 * i + 2 := w ! 2, 4 * i + 3 := w ! 3]))
      | result \<Rightarrow> (result, bs))"

definition pd_get_u8 :: "'s Flash \<Rightarrow> byte list \<Rightarrow> 's PersonalityDriver \<Rightarrow> ReturnCode \<times> byte list" where
  "pd_get_u8 D data p =
     (if length data < PERSONALITY_SIZE then (ESIZE, data)
      else if \<not> pd_has_flash p then (ENOMEM, data)
      else read_page_u8 (\<lambda>i. flash_read D i (pd_flash p)) 0 PAGE_SIZE_U32 data)"

definition personality_page :: nat where
  "personality_page = PERSONALITY_ADDRESS div H1_FLASH_PAGE_SIZE"

text \<open>
  Both setters erase the page and keep the new contents in the buffer, if it is there. A buffer shorter than a page is a panic of
  \<^verbatim>\<open>set\<close>; \<^verbatim>\<open>set_u8\<close> would write past its end, which is undefined and also shown as a panic.
\<close>

definition pd_begin :: "'s Flash \<Rightarrow> PersonalityState \<Rightarrow> u32 list \<Rightarrow> ('s PersonalityDriver, unit, ReturnCode) eff" where
  "pd_begin D next_state ws p =
     (if \<not> pd_has_flash p then (Ok ENOMEM, p)
      else eff_bind (on_pd_flash (flash_erase D personality_page)) (\<lambda>rval p.
        if rval = SUCCESS then
          (case pd_write_buffer p of
             None \<Rightarrow> (Ok SUCCESS, p)
           | Some buffer \<Rightarrow>
               if length buffer < PAGE_SIZE_U32 then (Panic, p)
               else (Ok SUCCESS, p\<lparr>pd_state := next_state, pd_write_buffer := Some (ws @ drop PAGE_SIZE_U32 buffer)\<rparr>))
        else (Ok rval, p)) p)"

definition pd_set :: "'s Flash \<Rightarrow> PersonalityData \<Rightarrow> ('s PersonalityDriver, unit, ReturnCode) eff" where
  "pd_set D data p = (if pd_state p \<noteq> PIdle then (Ok EBUSY, p) else pd_begin D ErasingStruct (PersonalityData_words data) p)"

definition pd_set_u8 :: "'s Flash \<Rightarrow> byte list \<Rightarrow> ('s PersonalityDriver, unit, ReturnCode) eff" where
  "pd_set_u8 D data p =
     (if length data < PERSONALITY_SIZE then (Ok ESIZE, p)
      else if pd_state p \<noteq> PIdle then (Ok EBUSY, p)
      else pd_begin D ErasingU8 (bytes_words (take (min (length data) H1_FLASH_PAGE_SIZE) data)) p)"

definition tell :: "personality_event \<Rightarrow> 's PersonalityDriver \<Rightarrow> personality_event list" where
  "tell ev p = (if pd_client p then [ev] else [])"

definition pd_erase_done :: "'s Flash \<Rightarrow> ReturnCode \<Rightarrow> ('s PersonalityDriver, unit, personality_event list) eff" where
  "pd_erase_done D _ p =
     (case pd_state p of
        ErasingStruct \<Rightarrow> eff_bind (pd_start_write D PERSONALITY_ADDRESS_U32) (\<lambda>ok p.
          if ok then (Ok [], p\<lparr>pd_state := WritingStruct\<rparr>) else (Ok (tell (SetDone FAIL) p), p\<lparr>pd_state := PIdle\<rparr>)) p
      | ErasingU8 \<Rightarrow> eff_bind (pd_start_write D PERSONALITY_ADDRESS_U32) (\<lambda>ok p.
          if ok then (Ok [], p\<lparr>pd_state := WritingU8\<rparr>) else (Ok (tell (SetU8Done FAIL) p), p\<lparr>pd_state := PIdle\<rparr>)) p
      | _ \<Rightarrow> (Ok [], p))"

text \<open>The buffer that comes back is dropped.\<close>

definition pd_write_done :: "u32 list \<Rightarrow> ReturnCode \<Rightarrow> 's PersonalityDriver \<Rightarrow> personality_event list \<times> 's PersonalityDriver" where
  "pd_write_done _ rcode p =
     (case pd_state p of
        WritingStruct \<Rightarrow> (tell (SetDone rcode) p, p\<lparr>pd_state := PIdle\<rparr>)
      | WritingU8 \<Rightarrow> (tell (SetU8Done rcode) p, p\<lparr>pd_state := PIdle\<rparr>)
      | _ \<Rightarrow> ([], p))"

section \<open>System calls\<close>

record PersonalityApp =
  pa_data :: "byte list option"
  pa_callback :: bool

definition PersonalityApp_default :: PersonalityApp where
  "PersonalityApp_default = \<lparr>pa_data = None, pa_callback = False\<rparr>"

record 's PersonalitySyscall =
  ps_device :: "'s PersonalityDriver"
  ps_apps :: "PersonalityApp grant"
  ps_busy :: bool
  ps_current_user :: "nat option"
  ps_scheduled :: "(nat \<times> ReturnCode) list"

definition PersonalitySyscall_new :: "'s PersonalityDriver \<Rightarrow> 's PersonalitySyscall" where
  "PersonalitySyscall_new d = \<lparr>ps_device = d, ps_apps = [], ps_busy = False, ps_current_user = None, ps_scheduled = []\<rparr>"

definition ps_enter :: "(nat \<Rightarrow> bool) \<Rightarrow> nat \<Rightarrow> (PersonalityApp \<Rightarrow> ('s PersonalitySyscall, unit, ReturnCode \<times> PersonalityApp) eff)
    \<Rightarrow> ('s PersonalitySyscall, unit, ReturnCode) eff" where
  "ps_enter alloc app f s =
     (case (case map_of (ps_apps s) app of Some d \<Rightarrow> Some d | None \<Rightarrow> if alloc app then Some PersonalityApp_default else None) of
        None \<Rightarrow> (Ok ENOMEM, s)
      | Some d \<Rightarrow> eff_bind (f d) (\<lambda>(rc, d) s. (Ok rc, s\<lparr>ps_apps := grant_put app d (ps_apps s)\<rparr>)) s)"

definition on_ps_device :: "('s PersonalityDriver, unit, 'a) eff \<Rightarrow> ('s PersonalitySyscall, unit, 'a) eff" where
  "on_ps_device m s = (case m (ps_device s) of (r, d) \<Rightarrow> (r, s\<lparr>ps_device := d\<rparr>))"

definition ps_subscribe :: "(nat \<Rightarrow> bool) \<Rightarrow> nat \<Rightarrow> bool \<Rightarrow> nat \<Rightarrow> ('s PersonalitySyscall, unit, ReturnCode) eff" where
  "ps_subscribe alloc num callback app_id =
     (if num = 0 then ps_enter alloc app_id (\<lambda>d. ret (SUCCESS, d\<lparr>pa_callback := callback\<rparr>)) else ret ENOSUPPORT)"

definition ps_command :: "'s Flash \<Rightarrow> (nat \<Rightarrow> bool) \<Rightarrow> nat \<Rightarrow> nat \<Rightarrow> ('s PersonalitySyscall, unit, ReturnCode) eff" where
  "ps_command D alloc num app_id s =
     (if num = 0 then (Ok SUCCESS, s)
      else if num = 1 then
        (if ps_busy s then (Ok EBUSY, s)
         else ps_enter alloc app_id (\<lambda>d s. case pa_data d of
             None \<Rightarrow> (Ok (ENOMEM, d), s)
           | Some data \<Rightarrow> (Ok (SUCCESS, d\<lparr>pa_data := Some (snd (pd_get_u8 D data (ps_device s)))\<rparr>), s)) s)
      else if num = 2 then
        (if ps_busy s then (Ok EBUSY, s)
         else ps_enter alloc app_id (\<lambda>d. case pa_data d of
             None \<Rightarrow> ret (ENOMEM, d)
           | Some data \<Rightarrow> eff_bind (on_ps_device (pd_set_u8 D data)) (\<lambda>_ s. (Ok (SUCCESS, d), s\<lparr>ps_current_user := Some app_id\<rparr>))) s)
      else (Ok ENOSUPPORT, s))"

definition ps_allow :: "(nat \<Rightarrow> bool) \<Rightarrow> nat \<Rightarrow> nat \<Rightarrow> byte list option \<Rightarrow> ('s PersonalitySyscall, unit, ReturnCode) eff" where
  "ps_allow alloc app_id num buf =
     (if num = 0 then ps_enter alloc app_id (\<lambda>d. ret (SUCCESS, d\<lparr>pa_data := buf\<rparr>)) else ret ENOSUPPORT)"

text \<open>The two completions do the same.\<close>

definition ps_set_done :: "(nat \<Rightarrow> bool) \<Rightarrow> ReturnCode \<Rightarrow> 's PersonalitySyscall \<Rightarrow> 's PersonalitySyscall" where
  "ps_set_done alloc rval s =
     (case ps_current_user s of
        None \<Rightarrow> s
      | Some user \<Rightarrow>
          (case grant_enter alloc PersonalityApp_default user (\<lambda>d. (pa_callback d, d)) (ps_apps s) of
             (None, g) \<Rightarrow> s\<lparr>ps_apps := g\<rparr>
           | (Some cb, g) \<Rightarrow> s\<lparr>ps_apps := g, ps_current_user := None, ps_scheduled := ps_scheduled s @ (if cb then [(user, rval)] else [])\<rparr>))"

fun ps_event :: "(nat \<Rightarrow> bool) \<Rightarrow> personality_event \<Rightarrow> 's PersonalitySyscall \<Rightarrow> 's PersonalitySyscall" where
  "ps_event alloc (SetDone rval) = ps_set_done alloc rval"
| "ps_event alloc (SetU8Done rval) = ps_set_done alloc rval"

definition ps_erase_done :: "'s Flash \<Rightarrow> (nat \<Rightarrow> bool) \<Rightarrow> ReturnCode \<Rightarrow> ('s PersonalitySyscall, unit, unit) eff" where
  "ps_erase_done D alloc rc = eff_bind (on_ps_device (pd_erase_done D rc)) (\<lambda>evs s. (Ok (), fold (ps_event alloc) evs s))"

definition ps_write_done :: "(nat \<Rightarrow> bool) \<Rightarrow> u32 list \<Rightarrow> ReturnCode \<Rightarrow> 's PersonalitySyscall \<Rightarrow> 's PersonalitySyscall" where
  "ps_write_done alloc data rc s = (case pd_write_done data rc (ps_device s) of (evs, d) \<Rightarrow> fold (ps_event alloc) evs (s\<lparr>ps_device := d\<rparr>))"

section \<open>The memory of the structure\<close>

lemma length_PersonalityData_words: "PersonalityData_ok d \<Longrightarrow> length (PersonalityData_words d) = PAGE_SIZE_U32"
  by (simp add: PersonalityData_ok_def PersonalityData_words_def PAGE_SIZE_U32_def H1_FLASH_PAGE_SIZE_def)

lemma PersonalityData_of_words: "PersonalityData_ok d \<Longrightarrow> PersonalityData_of (PersonalityData_words d) = d"
proof -
  assume ok: "PersonalityData_ok d"
  then have "concat (map word_bytes (bytes_words (pd_certificate d))) = pd_certificate d"
    by (intro words_bytes_words [of _ 471]) (simp add: PersonalityData_ok_def)
  then show ?thesis
    using ok by (simp add: PersonalityData_ok_def PersonalityData_words_def PersonalityData_of_def nth_append)
qed

section \<open>Reading\<close>

lemma read_page_words:
  assumes "\<And>j. j < n \<Longrightarrow> rd (PERSONALITY_ADDRESS_U32 + i + j) = SuccessWithValue (unat (m j))" and "i + n \<le> length ws"
  shows "read_page rd i n ws = (SUCCESS, take i ws @ map m [0..<n] @ drop (i + n) ws)"
  using assms
proof (induction n arbitrary: i ws m)
  case (Suc n)
  have 0: "rd (PERSONALITY_ADDRESS_U32 + i) = SuccessWithValue (unat (m 0))"
    using Suc.prems(1) [of 0] by simp
  have "read_page rd (Suc i) n (ws[i := m 0]) = (SUCCESS, take (Suc i) (ws[i := m 0]) @ map (\<lambda>j. m (Suc j)) [0..<n] @ drop (Suc i + n) (ws[i := m 0]))"
    using Suc.prems(1) [of "Suc _"] Suc.prems(2) by (intro Suc.IH) simp_all
  moreover have "take (Suc i) (ws[i := m 0]) = take i ws @ [m 0]"
    using Suc.prems(2) by (simp add: take_Suc_conv_app_nth)
  moreover have "map m [0..<Suc n] = m 0 # map (\<lambda>j. m (Suc j)) [0..<n]"
    by (simp add: upt_conv_Cons map_Suc_upt [symmetric] del: upt_Suc)
  ultimately show ?case
    using 0 by simp
qed simp

lemma read_page_u8_words:
  assumes "\<And>j. j < n \<Longrightarrow> rd (PERSONALITY_ADDRESS_U32 + i + j) = SuccessWithValue (unat (m j))" and "4 * (i + n) \<le> length bs"
  shows "read_page_u8 rd i n bs = (SUCCESS, take (4 * i) bs @ concat (map (\<lambda>j. word_bytes (m j)) [0..<n]) @ drop (4 * (i + n)) bs)"
  using assms
proof (induction n arbitrary: i bs m)
  case (Suc n)
  have 0: "rd (PERSONALITY_ADDRESS_U32 + i) = SuccessWithValue (unat (m 0))"
    using Suc.prems(1) [of 0] by simp
  let ?w = "word_bytes (m 0)"
  define bs' where "bs' = take (4 * i) bs @ ?w @ drop (4 * i + 4) bs"
  have upd: "bs[4 * i := ?w ! 0, 4 * i + 1 := ?w ! 1, 4 * i + 2 := ?w ! 2, 4 * i + 3 := ?w ! 3] = bs'"
    unfolding bs'_def using Suc.prems(2) by (intro update_word) simp_all
  have step: "read_page_u8 rd i (Suc n) bs = read_page_u8 rd (Suc i) n bs'"
    using 0 by (simp add: upd [symmetric] Let_def)
  have IH: "read_page_u8 rd (Suc i) n bs' = (SUCCESS, take (4 * Suc i) bs' @ concat (map (\<lambda>j. word_bytes (m (Suc j))) [0..<n]) @ drop (4 * (Suc i + n)) bs')"
    using Suc.prems(1) [of "Suc _"] Suc.prems(2) by (intro Suc.IH) (simp_all add: bs'_def)
  have "take (4 * Suc i) bs' = take (4 * i) bs @ ?w" "drop (4 * (Suc i + n)) bs' = drop (4 * (i + Suc n)) bs"
    using Suc.prems(2) by (simp_all add: bs'_def ac_simps)
  moreover have "map (\<lambda>j. word_bytes (m j)) [0..<Suc n] = ?w # map (\<lambda>j. word_bytes (m (Suc j))) [0..<n]"
    by (simp add: upt_conv_Cons map_Suc_upt [symmetric] del: upt_Suc)
  ultimately show ?case
    using step IH by (simp del: upt_Suc)
qed simp

section \<open>Properties\<close>

text \<open>The flash that completes the erase of a page.\<close>

definition erase_page :: "nat \<Rightarrow> FlashDev \<Rightarrow> FlashDev" where
  "erase_page page f = f\<lparr>cells := dev_full (DErase page) (cells f), base := dev_full (DErase page) (cells f), pending := None\<rparr>"

lemmas personality_consts = PERSONALITY_ADDRESS_U32_def PERSONALITY_ADDRESS_def PERSONALITY_SIZE_def PAGE_SIZE_U32_def personality_page_def
  H1_FLASH_SIZE_def H1_FLASH_PAGE_SIZE_def

text \<open>A flash that takes at most 32 words at a time, as its interface documents, refuses the write after the erase.\<close>

lemma personality_write_refused:
  assumes "\<And>t data f. MAX_WRITE_SIZE < length data \<Longrightarrow> flash_write D t data f = (Ok (ESIZE, Some data), f)"
    and "pd_state p = ErasingU8" and "pd_has_flash p" and "pd_write_buffer p = Some buf" and "PAGE_SIZE_U32 \<le> length buf"
  shows "pd_erase_done D rc p = (Ok (tell (SetU8Done FAIL) p), p\<lparr>pd_state := PIdle\<rparr>)"
proof -
  have "MAX_WRITE_SIZE < length buf"
    using assms(5) by (simp add: personality_consts MAX_WRITE_SIZE_def)
  with assms have "pd_start_write D PERSONALITY_ADDRESS_U32 p = (Ok False, p)"
    by (cases p) (simp add: pd_start_write_def on_pd_flash_def eff_bind_def)
  then show ?thesis
    using assms(2) by (simp add: pd_erase_done_def eff_bind_def)
qed

lemma refuses_long_writes:
  "MAX_WRITE_SIZE < length data \<Longrightarrow> flash_write (FlashImpl_flash A H) t data d = (Ok (ESIZE, Some data), d)"
  "MAX_WRITE_SIZE < length data \<Longrightarrow> flash_write dev_flash t data f = (Ok (ESIZE, Some data), f)"
  by (simp_all add: FlashImpl_flash_def FlashImpl_write_def dev_flash_def dev_write_def Let_def)

lemma ones_bytes: "concat (map (\<lambda>j. word_bytes 0xFFFFFFFF) [0..<n]) = replicate (4 * n) 0xff"
proof (induction n)
  case (Suc n)
  have "word_bytes 0xFFFFFFFF = [0xff, 0xff, 0xff, 0xff]"
    by (simp add: word_bytes_def)
  moreover have "replicate 4 x = [x, x, x, x]" for x :: byte
    by (simp add: numeral_eq_Suc)
  ultimately have "word_bytes 0xFFFFFFFF = replicate 4 0xff"
    by metis
  with Suc show ?case
    by (simp add: replicate_add [symmetric] add.commute)
qed simp

text \<open>Storing the attestation data destroys it: an update is accepted and erases the page, but the write of the whole page that
  follows the erase is longer than the 32 words the flash takes, so that it is refused and the update ends with a
  failure. From then on the device reads as ones.
\<close>

theorem personality_update_destroys:
  assumes "pd_state p = PIdle" and "pd_has_flash p" and "pd_client p" and "pd_write_buffer p = Some buf" and "length buf = PAGE_SIZE_U32"
    and "pending (pd_flash p) = None" and "PERSONALITY_SIZE \<le> length data"
  shows "\<exists>p1 p2. pd_set_u8 dev_flash data p = (Ok SUCCESS, p1)
    \<and> pd_erase_done dev_flash SUCCESS (p1\<lparr>pd_flash := erase_page personality_page (pd_flash p1)\<rparr>) = (Ok [SetU8Done FAIL], p2)
    \<and> pd_state p2 = PIdle \<and> pending (pd_flash p2) = None
    \<and> (\<forall>out. length out = PERSONALITY_SIZE \<longrightarrow> pd_get_u8 dev_flash out p2 = (SUCCESS, replicate PERSONALITY_SIZE 0xff))"
proof -
  let ?ws = "bytes_words (take 2048 data)"
  let ?p1 = "p\<lparr>pd_flash := (pd_flash p)\<lparr>pending := Some (DErase personality_page)\<rparr>, pd_state := ErasingU8, pd_write_buffer := Some ?ws\<rparr>"
  have set1: "pd_set_u8 dev_flash data p = (Ok SUCCESS, ?p1)"
    using assms by (simp add: pd_set_u8_def pd_begin_def on_pd_flash_def eff_bind_def dev_flash_def dev_erase_def personality_consts FLASH_WORDS_def
        WORDS_PER_PAGE_def)
  let ?q = "?p1\<lparr>pd_flash := erase_page personality_page (pd_flash ?p1)\<rparr>"
  let ?p2 = "?q\<lparr>pd_state := PIdle\<rparr>"
  have len: "length ?ws = PAGE_SIZE_U32"
    using assms(7) by (simp add: personality_consts)
  have done2: "pd_erase_done dev_flash SUCCESS ?q = (Ok [SetU8Done FAIL], ?p2)"
    using personality_write_refused [OF refuses_long_writes(2), of ?q ?ws SUCCESS] assms(2,3) len by (simp add: tell_def)
  have "pd_get_u8 dev_flash out ?p2 = (SUCCESS, replicate PERSONALITY_SIZE 0xff)" if out: "length out = PERSONALITY_SIZE" for out
  proof -
    have "flash_read dev_flash (PERSONALITY_ADDRESS_U32 + 0 + j) (pd_flash ?p2) = SuccessWithValue (unat (0xFFFFFFFF :: u32))" if "j < PAGE_SIZE_U32" for j
    proof -
      have "(129536 + j) div 512 = 253"
        using that by (simp add: personality_consts)
      with that show ?thesis
        by (simp add: dev_flash_def dev_read_def erase_page_def personality_consts FLASH_WORDS_def WORDS_PER_PAGE_def)
    qed
    from read_page_u8_words [of PAGE_SIZE_U32 "\<lambda>i. flash_read dev_flash i (pd_flash ?p2)" 0 "\<lambda>_. 0xFFFFFFFF" out, OF this]
    have "pd_get_u8 dev_flash out ?p2 = (SUCCESS, concat (map (\<lambda>j. word_bytes 0xFFFFFFFF) [0..<PAGE_SIZE_U32]))"
      using assms(2) out by (simp add: pd_get_u8_def personality_consts)
    also have "concat (map (\<lambda>j. word_bytes 0xFFFFFFFF) [0..<PAGE_SIZE_U32]) = replicate (4 * PAGE_SIZE_U32) 0xff"
      by (rule ones_bytes)
    also have "4 * PAGE_SIZE_U32 = PERSONALITY_SIZE"
      by (simp add: personality_consts)
    finally show ?thesis .
  qed
  with set1 done2 show ?thesis
    by (intro exI [of _ ?p1] exI [of _ ?p2]) (simp add: erase_page_def)
qed

definition demo_personality :: "FlashDev PersonalityDriver" where
  "demo_personality = pd_set_client (pd_set_buffer (replicate 512 0) (pd_set_flash (PersonalityDriver_new \<lparr>cells = \<lambda>_. 5, base = \<lambda>_. 5, pending = None\<rparr>)))"

lemmas demo_personality_defs = demo_personality_def pd_set_client_def pd_set_buffer_def pd_set_flash_def PersonalityDriver_new_def

theorem personality_update_destroys_witness:
  "\<exists>p1 p2. pd_set_u8 dev_flash (replicate 2048 1) demo_personality = (Ok SUCCESS, p1)
    \<and> pd_erase_done dev_flash SUCCESS (p1\<lparr>pd_flash := erase_page personality_page (pd_flash p1)\<rparr>) = (Ok [SetU8Done FAIL], p2)
    \<and> pd_get_u8 dev_flash (replicate 2048 0) p2 = (SUCCESS, replicate 2048 0xff)"
proof -
  have size: "PERSONALITY_SIZE = 2048"
    by (simp add: personality_consts)
  have "pd_state demo_personality = PIdle" "pd_has_flash demo_personality" "pd_client demo_personality"
      "pd_write_buffer demo_personality = Some (replicate 512 0)" "length (replicate 512 (0 :: u32)) = PAGE_SIZE_U32"
      "pending (pd_flash demo_personality) = None" "PERSONALITY_SIZE \<le> length (replicate 2048 (1 :: byte))"
    by (simp_all only: size) (simp_all add: demo_personality_defs personality_consts)
  from personality_update_destroys [OF this] show ?thesis
    unfolding size by (metis length_replicate)
qed

text \<open>
  A write during another is reported as accepted and takes over its callback: while an update is in progress the driver
  refuses the data of a second application, but the system call answers success and records that application as
  the user, so that the result of the first update is reported to the second application and to nobody else.
\<close>

theorem personality_write_misreported:
  assumes "pd_state (ps_device s) \<noteq> PIdle" and "\<not> ps_busy s" and "grant_ok (ps_apps s)" and "map_of (ps_apps s) app = Some d"
    and "pa_data d = Some data" and "pa_callback d" and "ev = SetDone rc \<or> ev = SetU8Done rc"
  shows "\<exists>s'. ps_command D alloc 2 app s = (Ok SUCCESS, s') \<and> ps_device s' = ps_device s
    \<and> ps_scheduled (ps_event alloc ev s') = ps_scheduled s @ [(app, rc)] \<and> ps_current_user (ps_event alloc ev s') = None"
proof -
  let ?s = "s\<lparr>ps_current_user := Some app, ps_apps := grant_put app d (ps_apps s)\<rparr>"
  have "fst (pd_set_u8 D data (ps_device s)) \<noteq> Panic \<and> (\<exists>rc. pd_set_u8 D data (ps_device s) = (Ok rc, ps_device s))"
    using assms(1) by (simp add: pd_set_u8_def)
  then have "ps_command D alloc 2 app s = (Ok SUCCESS, ?s)"
    using assms(2,4,5) by (auto simp: ps_command_def ps_enter_def on_ps_device_def eff_bind_def)
  moreover have "map_of (ps_apps ?s) app = Some d"
    using assms(3) by (simp add: map_of_grant_put)
  ultimately show ?thesis
    using assms(6,7) by (auto simp: ps_set_done_def grant_enter_def)
qed

theorem personality_write_misreported_witness:
  "\<exists>s s'. ps_command dev_flash (\<lambda>_. True) 2 4 s = (Ok SUCCESS, s') \<and> ps_device s' = ps_device s
    \<and> ps_scheduled (ps_event (\<lambda>_. True) (SetU8Done FAIL) s') = [(4, FAIL)]"
proof -
  let ?s = "(PersonalitySyscall_new (demo_personality\<lparr>pd_state := ErasingU8\<rparr>))\<lparr>ps_apps := [(4, \<lparr>pa_data = Some [], pa_callback = True\<rparr>)],
    ps_current_user := Some 3\<rparr>"
  have "\<exists>s'. ps_command dev_flash (\<lambda>_. True) 2 4 ?s = (Ok SUCCESS, s') \<and> ps_device s' = ps_device ?s
      \<and> ps_scheduled (ps_event (\<lambda>_. True) (SetU8Done FAIL) s') = ps_scheduled ?s @ [(4, FAIL)]
      \<and> ps_current_user (ps_event (\<lambda>_. True) (SetU8Done FAIL) s') = None"
    by (rule personality_write_misreported [where d = "\<lparr>pa_data = Some [], pa_callback = True\<rparr>" and data = "[]"]) (simp_all add: PersonalitySyscall_new_def grant_ok_def)
  moreover have "ps_scheduled ?s = []"
    by (simp add: PersonalitySyscall_new_def)
  ultimately have "\<exists>s'. ps_command dev_flash (\<lambda>_. True) 2 4 ?s = (Ok SUCCESS, s') \<and> ps_device s' = ps_device ?s
      \<and> ps_scheduled (ps_event (\<lambda>_. True) (SetU8Done FAIL) s') = [(4, FAIL)]"
    by (metis append_Nil)
  then show ?thesis
    by (rule exI [of _ ?s])
qed

text \<open>The structure is read back as it lies in the flash.\<close>

lemma personality_get_reads:
  assumes "pd_has_flash p" and "PersonalityData_ok d" and "PersonalityData_ok kept"
    and "\<And>j. j < PAGE_SIZE_U32 \<Longrightarrow> flash_read D (PERSONALITY_ADDRESS_U32 + j) (pd_flash p) = SuccessWithValue (unat (PersonalityData_words kept ! j))"
  shows "pd_get D d p = (SUCCESS, kept)"
proof -
  note len = length_PersonalityData_words [OF assms(2)] length_PersonalityData_words [OF assms(3)]
  have "read_page (\<lambda>i. flash_read D i (pd_flash p)) 0 PAGE_SIZE_U32 (PersonalityData_words d)
      = (SUCCESS, take 0 (PersonalityData_words d) @ map ((!) (PersonalityData_words kept)) [0..<PAGE_SIZE_U32] @ drop (0 + PAGE_SIZE_U32) (PersonalityData_words d))"
    using assms(4) len by (intro read_page_words) simp_all
  also have "map ((!) (PersonalityData_words kept)) [0..<PAGE_SIZE_U32] = PersonalityData_words kept"
    using len(2) by (metis map_nth)
  finally show ?thesis
    using assms(1) len by (simp add: pd_get_def PersonalityData_of_words [OF assms(3)])
qed

end
