(* ===== verification/Timers.thy ===== *)
theory Timers
  imports Prelude
begin

text \<open>
  The alarm timer of \<^verbatim>\<open>kernel/h1/src/timels.rs\<close>, the free running counters of \<^verbatim>\<open>timeus.rs\<close> and the entropy source of
  \<^verbatim>\<open>trng.rs\<close>.
\<close>

section \<open>The alarm timer\<close>

text \<open>
  A counter that runs down to zero and then interrupts. A value written to \<^verbatim>\<open>load\<close> is loaded into it. The
  32-bit ticks of the Tock kernel (\<^verbatim>\<open>Ticks32\<close>) are machine words with wrapping sums and the order of numbers.
\<close>

record Timels =
  tl_control :: u32
  tl_reload :: u32
  tl_value :: u32
  tl_interrupt_enable :: u32
  tl_interrupt_ack :: u32
  tl_interrupt_wakeup_ack :: u32
  tl_client :: bool
  tl_now :: u32

definition Timels_new :: "u32 \<Rightarrow> u32 \<Rightarrow> u32 \<Rightarrow> Timels" where
  "Timels_new control reload v = \<lparr>tl_control = control, tl_reload = reload, tl_value = v, tl_interrupt_enable = 0, tl_interrupt_ack = 0,
     tl_interrupt_wakeup_ack = 0, tl_client = False, tl_now = 0\<rparr>"

text \<open>The first component says whether the client was called.\<close>

definition timels_handle_interrupt :: "Timels \<Rightarrow> bool \<times> Timels" where
  "timels_handle_interrupt t =
     (let t = t\<lparr>tl_interrupt_ack := 1\<rparr>; t = t\<lparr>tl_interrupt_wakeup_ack := 1\<rparr>; t = t\<lparr>tl_control := 0\<rparr>;
          t = t\<lparr>tl_now := tl_now t + tl_reload t\<rparr>; t = t\<lparr>tl_reload := 0\<rparr> in
      (tl_client t, t))"

definition Freq256Khz :: u32 where "Freq256Khz = 256000"

definition timels_now :: "Timels \<Rightarrow> u32" where
  "timels_now t = (let cur = tl_value t; reload = tl_reload t; elapsed = reload - cur in tl_now t + elapsed)"

definition timels_set_alarm :: "u32 \<Rightarrow> u32 \<Rightarrow> Timels \<Rightarrow> Timels" where
  "timels_set_alarm reference dt t =
     (let t = t\<lparr>tl_control := 0\<rparr>; now = timels_now t; target = reference + dt;
          distance = (if target \<le> now then 1 else target - now);
          t = t\<lparr>tl_value := distance\<rparr>; t = t\<lparr>tl_reload := distance\<rparr>; t = t\<lparr>tl_interrupt_enable := 1\<rparr> in
      t\<lparr>tl_control := 1\<rparr>)"

definition timels_get_alarm :: "Timels \<Rightarrow> u32" where
  "timels_get_alarm t = tl_reload t"

definition timels_set_alarm_client :: "Timels \<Rightarrow> Timels" where
  "timels_set_alarm_client t = t\<lparr>tl_client := True\<rparr>"

definition timels_is_armed :: "Timels \<Rightarrow> bool" where
  "timels_is_armed t \<longleftrightarrow> tl_control t AND 1 = 1 \<and> tl_value t \<noteq> 0"

definition timels_disarm :: "Timels \<Rightarrow> ReturnCode \<times> Timels" where
  "timels_disarm t = (SUCCESS, t\<lparr>tl_control := 0\<rparr>)"

definition timels_minimum_dt :: "Timels \<Rightarrow> u32" where
  "timels_minimum_dt t = 1"

text \<open>One tick of the clock: the timer counts while its control bit is set and it has not arrived at zero.\<close>

definition timels_tick :: "Timels \<Rightarrow> Timels" where
  "timels_tick t = (if tl_control t AND 1 = 1 \<and> tl_value t \<noteq> 0 then t\<lparr>tl_value := tl_value t - 1\<rparr> else t)"

lemma timels_ticks:
  assumes "tl_control t AND 1 = 1" and "n \<le> unat (tl_value t)"
  shows "(timels_tick ^^ n) t = t\<lparr>tl_value := tl_value t - word_of_nat n\<rparr>"
  using assms(2)
proof (induction n)
  case (Suc n)
  then have IH: "(timels_tick ^^ n) t = t\<lparr>tl_value := tl_value t - word_of_nat n\<rparr>"
    by simp
  have "tl_value t \<noteq> word_of_nat n"
    using Suc.prems unsigned_less [of "tl_value t"] by (auto simp: unat_of_nat)
  then have "timels_tick (t\<lparr>tl_value := tl_value t - word_of_nat n\<rparr>) = t\<lparr>tl_value := tl_value t - word_of_nat (Suc n)\<rparr>"
    using assms(1) by (simp add: timels_tick_def algebra_simps)
  then show ?case
    using IH by simp
qed simp

definition timels_distance :: "u32 \<Rightarrow> Timels \<Rightarrow> u32" where
  "timels_distance target t = (if target \<le> timels_now t then 1 else target - timels_now t)"

lemma set_alarm_armed:
  "timels_set_alarm reference dt t = t\<lparr>tl_control := 1, tl_value := timels_distance (reference + dt) t,
     tl_reload := timels_distance (reference + dt) t, tl_interrupt_enable := 1\<rparr>"
  by (simp add: timels_set_alarm_def timels_distance_def timels_now_def Let_def)

text \<open>C19. An alarm expires after exactly its distance, whatever state the timer was in: the distance of the target from the clock,
  or one tick when the 32-bit target is not above the clock, be it past or wrapped around. The timer is armed until then and not
  afterwards, its interrupt calls the client, and the clock gains one on each tick and keeps its reading over the
  interrupt. The ticks that an earlier alarm had counted when the new one was set, running or disarmed, are lost: the clock goes on
  from where that alarm started, so it is right when there was none.
\<close>

theorem timels_alarm_exact:
  "\<exists>d s. timels_set_alarm reference dt t = s
    \<and> d = (if reference + dt \<le> timels_now t then 1 else unat (reference + dt - timels_now t))
    \<and> (\<forall>k\<le>d. timels_now ((timels_tick ^^ k) s) + (tl_reload t - tl_value t) = timels_now t + word_of_nat k
        \<and> (timels_is_armed ((timels_tick ^^ k) s) \<longleftrightarrow> k < d))
    \<and> fst (timels_handle_interrupt ((timels_tick ^^ d) s)) = tl_client t
    \<and> timels_now (snd (timels_handle_interrupt ((timels_tick ^^ d) s))) = timels_now ((timels_tick ^^ d) s)"
proof -
  let ?w = "timels_distance (reference + dt) t"
  let ?s = "timels_set_alarm reference dt t"
  have d: "(if reference + dt \<le> timels_now t then 1 else unat (reference + dt - timels_now t)) = unat ?w"
    by (simp add: timels_distance_def)
  have ticks: "(timels_tick ^^ k) ?s = ?s\<lparr>tl_value := ?w - word_of_nat k\<rparr>" if "k \<le> unat ?w" for k
    using timels_ticks [of ?s k] that by (simp add: set_alarm_armed)
  have armed: "?w - word_of_nat k \<noteq> 0 \<longleftrightarrow> k < unat ?w" if "k \<le> unat ?w" for k
  proof -
    have "?w = word_of_nat k \<longleftrightarrow> k = unat ?w"
      using that unsigned_less [of ?w] by (auto simp: unat_of_nat)
    then show ?thesis
      using that by auto
  qed
  have "timels_now ((timels_tick ^^ k) ?s) + (tl_reload t - tl_value t) = timels_now t + word_of_nat k
      \<and> (timels_is_armed ((timels_tick ^^ k) ?s) \<longleftrightarrow> k < unat ?w)" if "k \<le> unat ?w" for k
    using ticks [OF that] armed [OF that] by (simp add: set_alarm_armed timels_now_def timels_is_armed_def Let_def)
  moreover have "fst (timels_handle_interrupt ((timels_tick ^^ unat ?w) ?s)) = tl_client t"
      "timels_now (snd (timels_handle_interrupt ((timels_tick ^^ unat ?w) ?s))) = timels_now ((timels_tick ^^ unat ?w) ?s)"
    using ticks [of "unat ?w"] by (simp_all add: set_alarm_armed timels_handle_interrupt_def Let_def timels_now_def)
  ultimately show ?thesis
    unfolding d by blast
qed

theorem timels_alarm_exact_witness:
  "\<exists>s. timels_set_alarm 100 20 ((Timels_new 0 0 0)\<lparr>tl_now := 110, tl_client := True\<rparr>) = s \<and> timels_is_armed ((timels_tick ^^ 9) s)
     \<and> fst (timels_handle_interrupt ((timels_tick ^^ 10) s)) \<and> timels_now (snd (timels_handle_interrupt ((timels_tick ^^ 10) s))) = 120"
proof -
  let ?t = "(Timels_new 0 0 0)\<lparr>tl_now := 110, tl_client := True\<rparr>"
  have now: "timels_now ?t = 110" "tl_reload ?t - tl_value ?t = 0" "tl_client ?t"
    by (simp_all add: timels_now_def Timels_new_def)
  have d: "(if 100 + 20 \<le> timels_now ?t then 1 else unat (100 + 20 - timels_now ?t)) = 10"
    by (simp add: now)
  from timels_alarm_exact [of 100 20 ?t, unfolded d] obtain s where s: "timels_set_alarm 100 20 ?t = s"
      "\<forall>k\<le>10. timels_now ((timels_tick ^^ k) s) + (tl_reload ?t - tl_value ?t) = timels_now ?t + word_of_nat k
        \<and> (timels_is_armed ((timels_tick ^^ k) s) \<longleftrightarrow> k < 10)"
      "fst (timels_handle_interrupt ((timels_tick ^^ 10) s)) = tl_client ?t"
      "timels_now (snd (timels_handle_interrupt ((timels_tick ^^ 10) s))) = timels_now ((timels_tick ^^ 10) s)"
    by blast
  then have "timels_is_armed ((timels_tick ^^ 9) s)" "timels_now ((timels_tick ^^ 10) s) + (tl_reload ?t - tl_value ?t) = timels_now ?t + word_of_nat 10"
    by (auto dest: spec [of _ 9] spec [of _ 10])
  then show ?thesis
    using s now by simp
qed

text \<open>Setting an alarm while another one runs puts the clock back: the ticks that the timer has counted since it was last set are in
  its registers only, and setting the alarm overwrites them without adding them to the software clock. Right
  afterwards the clock reads that many ticks less than right before.
\<close>

theorem timels_set_alarm_loses_time:
  assumes "k \<le> unat (tl_value t)" and "tl_control t AND 1 = 1"
  shows "timels_now (timels_set_alarm reference dt ((timels_tick ^^ k) t)) + (tl_reload t - tl_value t) + word_of_nat k = timels_now ((timels_tick ^^ k) t)"
proof -
  have "(timels_tick ^^ k) t = t\<lparr>tl_value := tl_value t - word_of_nat k\<rparr>"
    using assms by (intro timels_ticks)
  then show ?thesis
    by (simp add: timels_set_alarm_def timels_now_def Let_def algebra_simps)
qed

theorem timels_set_alarm_loses_time_witness:
  "timels_now (timels_set_alarm 50 7 ((timels_tick ^^ 50) (Timels_new 1 100 100))) + (100 - 100) + 50 = timels_now ((timels_tick ^^ 50) (Timels_new 1 100 100))"
proof -
  have "50 \<le> unat (tl_value (Timels_new 1 100 100))" "tl_control (Timels_new 1 100 100) AND 1 = 1"
    by (simp_all add: Timels_new_def)
  from timels_set_alarm_loses_time [OF this, of 50 7] show ?thesis
    by (simp add: Timels_new_def)
qed

text \<open>A target behind the end of the 32-bit range counts as past: the alarm comes after one tick.\<close>

lemma timels_wrapped_target_expires:
  assumes "reference + dt \<le> timels_now t"
  shows "tl_reload (timels_set_alarm reference dt t) = 1"
  using assms by (simp add: timels_set_alarm_def timels_now_def Let_def)

section \<open>The free running counters\<close>

record TimeusCounter =
  tu_wrapping :: bool
  tu_max_value :: u32
  tu_divider :: u32
  tu_current_value :: u32

record Timeus =
  tu_counters :: "TimeusCounter list"
  tu_idx :: nat

definition Timeus_new :: "TimeusCounter list \<Rightarrow> nat \<Rightarrow> Timeus" where
  "Timeus_new regs idx = \<lparr>tu_counters = regs, tu_idx = idx\<rparr>"

text \<open>An index past the four counters panics.\<close>

definition timeus_counter :: "Timeus \<Rightarrow> (unit, TimeusCounter) outcome" where
  "timeus_counter t = (if tu_idx t < length (tu_counters t) then Ok (tu_counters t ! tu_idx t) else Panic)"

definition timeus_now :: "Timeus \<Rightarrow> (unit, u32) outcome" where
  "timeus_now t = (case timeus_counter t of Ok c \<Rightarrow> Ok (tu_current_value c) | Err e \<Rightarrow> Err e | Panic \<Rightarrow> Panic)"

definition timeus_start :: "(Timeus, unit, unit) eff" where
  "timeus_start t =
     (case timeus_counter t of
        Ok c \<Rightarrow> (Ok (), t\<lparr>tu_counters := (tu_counters t)[tu_idx t := c\<lparr>tu_max_value := NOT 0, tu_divider := 1, tu_wrapping := True\<rparr>]\<rparr>)
      | Err e \<Rightarrow> (Err e, t) | Panic \<Rightarrow> (Panic, t))"

lemma timeus_start_others:
  assumes "tu_idx t < length (tu_counters t)" and "j \<noteq> tu_idx t"
  shows "\<exists>t'. timeus_start t = (Ok (), t') \<and> timeus_now t' = timeus_now t \<and> tu_counters t' ! j = tu_counters t ! j"
  using assms by (simp add: timeus_start_def timeus_counter_def timeus_now_def)

section \<open>The entropy source\<close>

text \<open>
  The words the generator has ready are \<open>tg_ready\<close>. A client takes a number of them and says whether it wants more; a client is a
  function from the words to that answer.
\<close>

record Trng =
  tg_interrupt_enable :: u32
  tg_interrupt_state :: u32
  tg_post_processing_control :: u32
  tg_go_event :: u32
  tg_timeout_counter :: u32
  tg_timeout_max_try_num :: u32
  tg_stop_work :: u32
  tg_fsm_state :: u32
  tg_slice_max_upper_limit :: u32
  tg_slice_min_lower_limit :: u32
  tg_power_down_b :: u32
  tg_ready :: "u32 list"

type_synonym entropy_client = "u32 list \<Rightarrow> nat \<times> bool"

text \<open>The iterator \<^verbatim>\<open>Iter\<close> over the ready words.\<close>

definition trng_next :: "Trng \<Rightarrow> u32 option \<times> Trng" where
  "trng_next t = (case tg_ready t of [] \<Rightarrow> (None, t) | w # ws \<Rightarrow> (Some w, t\<lparr>tg_ready := ws\<rparr>))"

fun take_entropy :: "nat \<Rightarrow> Trng \<Rightarrow> u32 list \<times> Trng" where
  "take_entropy 0 t = ([], t)"
| "take_entropy (Suc n) t =
     (case trng_next t of (None, t) \<Rightarrow> ([], t) | (Some w, t) \<Rightarrow> (case take_entropy n t of (ws, t) \<Rightarrow> (w # ws, t)))"

definition serve_client :: "entropy_client option \<Rightarrow> Trng \<Rightarrow> u32 list \<times> Trng" where
  "serve_client client t =
     (case client of
        None \<Rightarrow> ([], t)
      | Some c \<Rightarrow> (case c (tg_ready t) of (n, more_wanted) \<Rightarrow>
          (case take_entropy n t of (ws, t) \<Rightarrow> (ws, if more_wanted then t\<lparr>tg_interrupt_enable := 1\<rparr> else t))))"

definition trng_handle_interrupt :: "entropy_client option \<Rightarrow> Trng \<Rightarrow> u32 list \<times> Trng" where
  "trng_handle_interrupt client t = serve_client client (t\<lparr>tg_interrupt_enable := 0, tg_interrupt_state := 1\<rparr>)"

definition trng_init :: "Trng \<Rightarrow> Trng" where
  "trng_init t = t\<lparr>tg_post_processing_control := 0xa, tg_slice_max_upper_limit := 1, tg_slice_min_lower_limit := 0, tg_timeout_counter := 0x7ff,
     tg_timeout_max_try_num := 4, tg_power_down_b := 1, tg_go_event := 1\<rparr>"

definition trng_get :: "entropy_client option \<Rightarrow> Trng \<Rightarrow> (ReturnCode \<times> u32 list) \<times> Trng" where
  "trng_get client t =
     (if tg_ready t = [] then
        (let t = (if tg_fsm_state t AND 0x8 \<noteq> 0 then t\<lparr>tg_stop_work := 1, tg_go_event := 1\<rparr> else t) in
         ((SUCCESS, []), t\<lparr>tg_interrupt_enable := 1\<rparr>))
      else (case serve_client client t of (ws, t) \<Rightarrow> ((SUCCESS, ws), t)))"

definition trng_cancel :: "Trng \<Rightarrow> ReturnCode" where
  "trng_cancel t = FAIL"

text \<open>Every word is handed out once, in order, and a client that wants more is called again.\<close>

lemma take_entropy_eq: "take_entropy n t = (take n (tg_ready t), t\<lparr>tg_ready := drop n (tg_ready t)\<rparr>)"
proof (induction n arbitrary: t)
  case (Suc n)
  then show ?case
    by (cases "tg_ready t"; cases t) (simp_all add: trng_next_def)
qed simp

lemma trng_interrupt_serves:
  assumes "c (tg_ready t) = (n, more_wanted)"
  shows "\<exists>t'. trng_handle_interrupt (Some c) t = (take n (tg_ready t), t') \<and> tg_ready t' = drop n (tg_ready t)
    \<and> (tg_interrupt_enable t' = 1 \<longleftrightarrow> more_wanted)"
  using assms by (simp add: trng_handle_interrupt_def serve_client_def take_entropy_eq)

end
