(* ===== verification/Usb_Types.thy ===== *)
theory Usb_Types
  imports Byte_Words
begin

text \<open>
  The data of the USB device driver: \<^verbatim>\<open>usb/constants.rs\<close>, \<^verbatim>\<open>usb/types.rs\<close> and
  \<^verbatim>\<open>usb/serialize.rs\<close>: the standard descriptors with their binary forms, the setup request, and the copy of a
  structure into a word buffer.
\<close>

section \<open>Constants\<close>

definition STRING_LANG :: byte where "STRING_LANG = 0"
definition STRING_VENDOR :: byte where "STRING_VENDOR = 1"
definition STRING_BOARD :: byte where "STRING_BOARD = 2"
definition STRING_PLATFORM :: byte where "STRING_PLATFORM = 3"
definition STRING_INTERFACE2 :: byte where "STRING_INTERFACE2 = 6"

definition MAX_CONTROL_ENDPOINTS :: u16 where "MAX_CONTROL_ENDPOINTS = 3"
definition MAX_NORMAL_ENDPOINTS :: u16 where "MAX_NORMAL_ENDPOINTS = 16"
definition MAX_PACKET_SIZE :: u16 where "MAX_PACKET_SIZE = 64"
definition U2F_REPORT_SIZE :: u16 where "U2F_REPORT_SIZE = 64"

definition RX_FIFO_SIZE :: u16 where
  "RX_FIFO_SIZE = (4 * MAX_CONTROL_ENDPOINTS + 6) + (2 * (MAX_PACKET_SIZE div 4 + 1)) + (2 * MAX_NORMAL_ENDPOINTS) + 1"

definition TX_FIFO_SIZE :: u16 where
  "TX_FIFO_SIZE = 2 * MAX_PACKET_SIZE div 4"

datatype Descriptor = DescDevice | DescConfiguration | DescString | DescInterface | DescEndpoint | DescDeviceQualifier | DescHidDevice
  | DescReport | DescUnknown

fun u8_of_Descriptor :: "Descriptor \<Rightarrow> byte" where
  "u8_of_Descriptor DescDevice = 0x01"
| "u8_of_Descriptor DescConfiguration = 0x02"
| "u8_of_Descriptor DescString = 0x03"
| "u8_of_Descriptor DescInterface = 0x04"
| "u8_of_Descriptor DescEndpoint = 0x05"
| "u8_of_Descriptor DescDeviceQualifier = 0x06"
| "u8_of_Descriptor DescHidDevice = 0x21"
| "u8_of_Descriptor DescReport = 0x22"
| "u8_of_Descriptor DescUnknown = 0xFF"

definition Descriptor_from_u8 :: "byte \<Rightarrow> Descriptor" where
  "Descriptor_from_u8 t =
     (if t = 0x01 then DescDevice else if t = 0x02 then DescConfiguration else if t = 0x03 then DescString
      else if t = 0x04 then DescInterface else if t = 0x05 then DescEndpoint else if t = 0x06 then DescEndpoint
      else if t = 0x21 then DescHidDevice else if t = 0x22 then DescReport else DescUnknown)"

definition GET_DESCRIPTOR_DEVICE :: u32 where "GET_DESCRIPTOR_DEVICE = 1"
definition GET_DESCRIPTOR_CONFIGURATION :: u32 where "GET_DESCRIPTOR_CONFIGURATION = 2"
definition GET_DESCRIPTOR_STRING :: u32 where "GET_DESCRIPTOR_STRING = 3"
definition GET_DESCRIPTOR_INTERFACE :: u32 where "GET_DESCRIPTOR_INTERFACE = 4"
definition GET_DESCRIPTOR_DEVICE_QUALIFIER :: u32 where "GET_DESCRIPTOR_DEVICE_QUALIFIER = 6"

definition U2F_REPORT_DESCRIPTOR :: "byte list" where
  "U2F_REPORT_DESCRIPTOR =
     [0x06, 0xD0, 0xF1, 0x09, 0x01, 0xA1, 0x01, 0x09, 0x20, 0x15, 0x00, 0x26, 0xFF, 0x00, 0x75, 0x08, 0x95, 0x40, 0x81, 0x02, 0x09, 0x21,
      0x15, 0x00, 0x26, 0xFF, 0x00, 0x75, 0x08, 0x95, 0x40, 0x91, 0x02, 0xC0]"

section \<open>Copying a structure into a buffer\<close>

text \<open>
  \<^verbatim>\<open>serialize\<close> copies \<open>length\<close> elements of the type of the destination, and these are words:
  \<^verbatim>\<open>copy_nonoverlapping\<close> counts elements, while \<open>length\<close> counts bytes. The copy reads the memory behind
  the object (\<open>after\<close>), and a copy of more words than the buffer has writes behind the buffer, which has no defined
  behaviour.
\<close>

datatype MemoryError = WriteOverrun

definition memory_at :: "byte list \<Rightarrow> (nat \<Rightarrow> byte) \<Rightarrow> nat \<Rightarrow> byte list" where
  "memory_at obj after n = map (\<lambda>i. if i < length obj then obj ! i else after (i - length obj)) [0..<n]"

definition serialize :: "(nat \<Rightarrow> byte) \<Rightarrow> byte list \<Rightarrow> u32 list \<Rightarrow> (MemoryError, nat \<times> u32 list) outcome" where
  "serialize after obj buffer =
     (let len = length buffer * 4; n = (if len < length obj then len else length obj)
      in if length buffer < n then Err WriteOverrun else Ok (n, bytes_words (memory_at obj after (4 * n)) @ drop n buffer))"

section \<open>Descriptors\<close>

record DeviceDescriptor =
  dd_b_length :: byte
  dd_b_descriptor_type :: byte
  bcd_usb :: u16
  b_device_class :: byte
  b_device_sub_class :: byte
  b_device_protocol :: byte
  b_max_packet_size0 :: byte
  id_vendor :: u16
  id_product :: u16
  bcd_device :: u16
  i_manufacturer :: byte
  i_product :: byte
  i_serial_number :: byte
  b_num_configurations :: byte

text \<open>The bytes of a half word, and those of the structure, which \<^verbatim>\<open>repr(C)\<close> lays out without padding.\<close>

definition half_bytes :: "u16 \<Rightarrow> byte list" where
  "half_bytes w = [ucast w, ucast (drop_bit 8 w)]"

definition DeviceDescriptor_bytes :: "DeviceDescriptor \<Rightarrow> byte list" where
  "DeviceDescriptor_bytes d =
     [dd_b_length d, dd_b_descriptor_type d] @ half_bytes (bcd_usb d) @
     [b_device_class d, b_device_sub_class d, b_device_protocol d, b_max_packet_size0 d] @
     half_bytes (id_vendor d) @ half_bytes (id_product d) @ half_bytes (bcd_device d) @
     [i_manufacturer d, i_product d, i_serial_number d, b_num_configurations d]"

text \<open>The assignments to the first elements of a byte slice, which panic when the slice is shorter, with the number of bytes written.\<close>

definition put_u8s :: "byte list \<Rightarrow> byte list \<Rightarrow> (MemoryError, nat \<times> byte list) outcome" where
  "put_u8s bs buf = (if length buf < length bs then Panic else Ok (length bs, bs @ drop (length bs) buf))"

record ConfigurationDescriptor =
  cd_b_length :: byte
  cd_b_descriptor_type :: byte
  w_total_length :: u16
  b_num_interfaces :: byte
  b_configuration_value :: byte
  i_configuration :: byte
  cd_bm_attributes :: byte
  b_max_power :: byte

definition CONFIGURATION_DESCRIPTOR_LENGTH :: byte where
  "CONFIGURATION_DESCRIPTOR_LENGTH = 9"

definition ConfigurationDescriptor_new :: "byte \<Rightarrow> byte \<Rightarrow> byte \<Rightarrow> ConfigurationDescriptor" where
  "ConfigurationDescriptor_new num_interfaces configuration max_power =
     \<lparr>cd_b_length = CONFIGURATION_DESCRIPTOR_LENGTH, cd_b_descriptor_type = u8_of_Descriptor DescConfiguration,
      w_total_length = ucast CONFIGURATION_DESCRIPTOR_LENGTH, b_num_interfaces = num_interfaces, b_configuration_value = 1,
      i_configuration = configuration, cd_bm_attributes = 0x80, b_max_power = max_power\<rparr>"

definition ConfigurationDescriptor_into_u32_buf :: "ConfigurationDescriptor \<Rightarrow> u32 list \<Rightarrow> nat \<times> u32 list" where
  "ConfigurationDescriptor_into_u32_buf d buf =
     (unat CONFIGURATION_DESCRIPTOR_LENGTH,
      buf[0 := ucast (cd_b_length d) OR push_bit 8 (ucast (cd_b_descriptor_type d)) OR push_bit 16 (ucast (w_total_length d)),
          1 := ucast (b_num_interfaces d) OR push_bit 8 (ucast (b_configuration_value d)) OR push_bit 16 (ucast (i_configuration d))
               OR push_bit 24 (ucast (cd_bm_attributes d)),
          2 := ucast (b_max_power d)])"

definition ConfigurationDescriptor_bytes :: "ConfigurationDescriptor \<Rightarrow> byte list" where
  "ConfigurationDescriptor_bytes d =
     [cd_b_length d, cd_b_descriptor_type d, ucast (w_total_length d), ucast (drop_bit 8 (w_total_length d)), b_num_interfaces d,
      b_configuration_value d, i_configuration d, cd_bm_attributes d, b_max_power d]"

definition ConfigurationDescriptor_into_u8_buf :: "ConfigurationDescriptor \<Rightarrow> byte list \<Rightarrow> (MemoryError, nat \<times> byte list) outcome" where
  "ConfigurationDescriptor_into_u8_buf d buf = put_u8s (ConfigurationDescriptor_bytes d) buf"

definition set_total_length :: "u16 \<Rightarrow> ConfigurationDescriptor \<Rightarrow> ConfigurationDescriptor" where
  "set_total_length len d = d\<lparr>w_total_length := len\<rparr>"

record StringDescriptor =
  sd_b_length :: byte
  sd_b_descriptor_type :: byte
  b_string :: "u16 list"

definition StringDescriptor_new :: "u16 list \<Rightarrow> StringDescriptor" where
  "StringDescriptor_new str = \<lparr>sd_b_length = word_of_nat (length str * 2 + 2), sd_b_descriptor_type = u8_of_Descriptor DescString, b_string = str\<rparr>"

definition put_char :: "nat \<Rightarrow> u16 \<Rightarrow> u32 list \<Rightarrow> (MemoryError, u32 list) outcome" where
  "put_char i c buf =
     (if i mod 2 = 1 then (if i div 2 + 1 < length buf then Ok (buf[i div 2 + 1 := ucast c]) else Panic)
      else if i div 2 < length buf then Ok (buf[i div 2 := buf ! (i div 2) OR push_bit 16 (ucast c)]) else Panic)"

fun put_chars :: "nat \<Rightarrow> u16 list \<Rightarrow> u32 list \<Rightarrow> (MemoryError, u32 list) outcome" where
  "put_chars i [] buf = Ok buf"
| "put_chars i (c # cs) buf = (case put_char i c buf of Ok buf \<Rightarrow> put_chars (Suc i) cs buf | Err e \<Rightarrow> Err e | Panic \<Rightarrow> Panic)"

definition StringDescriptor_into_u32_buf :: "StringDescriptor \<Rightarrow> u32 list \<Rightarrow> (MemoryError, nat \<times> u32 list) outcome" where
  "StringDescriptor_into_u32_buf d buf =
     (case b_string d of
        [] \<Rightarrow> Ok (2, buf[0 := ucast (sd_b_length d) OR push_bit 8 (ucast (sd_b_descriptor_type d))])
      | c # cs \<Rightarrow>
          (case put_chars 1 cs (buf[0 := ucast (sd_b_length d) OR push_bit 8 (ucast (sd_b_descriptor_type d)) OR push_bit 16 (ucast c)]) of
             Ok buf \<Rightarrow> Ok (2 + 2 * length (b_string d), buf) | Err e \<Rightarrow> Err e | Panic \<Rightarrow> Panic))"

record InterfaceDescriptor =
  id_b_length :: byte
  id_b_descriptor_type :: byte
  b_interface_number :: byte
  b_alternate_setting :: byte
  b_num_endpoints :: byte
  b_interface_class :: byte
  b_interface_sub_class :: byte
  b_interface_protocol :: byte
  i_interface :: byte

definition InterfaceDescriptor_new :: "byte \<Rightarrow> byte \<Rightarrow> byte \<Rightarrow> byte \<Rightarrow> byte \<Rightarrow> InterfaceDescriptor" where
  "InterfaceDescriptor_new interface_string which cls sub_class protocol =
     \<lparr>id_b_length = 9, id_b_descriptor_type = 4, b_interface_number = which, b_alternate_setting = 0, b_num_endpoints = 2,
      b_interface_class = cls, b_interface_sub_class = sub_class, b_interface_protocol = protocol, i_interface = interface_string\<rparr>"

definition InterfaceDescriptor_into_u32_buf :: "InterfaceDescriptor \<Rightarrow> u32 list \<Rightarrow> nat \<times> u32 list" where
  "InterfaceDescriptor_into_u32_buf d buf =
     (9, buf[0 := ucast (id_b_length d) OR push_bit 8 (ucast (id_b_descriptor_type d)) OR push_bit 16 (ucast (b_interface_number d))
                  OR push_bit 24 (ucast (b_alternate_setting d)),
             1 := ucast (b_num_endpoints d) OR push_bit 8 (ucast (b_interface_class d)) OR push_bit 16 (ucast (b_interface_sub_class d))
                  OR push_bit 24 (ucast (b_interface_protocol d)),
             2 := ucast (i_interface d)])"

definition InterfaceDescriptor_bytes :: "InterfaceDescriptor \<Rightarrow> byte list" where
  "InterfaceDescriptor_bytes d =
     [id_b_length d, id_b_descriptor_type d, b_interface_number d, b_alternate_setting d, b_num_endpoints d, b_interface_class d,
      b_interface_sub_class d, b_interface_protocol d, i_interface d]"

definition InterfaceDescriptor_into_u8_buf :: "InterfaceDescriptor \<Rightarrow> byte list \<Rightarrow> (MemoryError, nat \<times> byte list) outcome" where
  "InterfaceDescriptor_into_u8_buf d buf = put_u8s (InterfaceDescriptor_bytes d) buf"

datatype EndpointTransferType = EtControl | EtIsochronous | EtBulk | EtInterrupt
datatype EndpointSynchronizationType = EsNone | EsAsynchronous | EsAdaptive | EsSynchronous
datatype EndpointUsageType = EuData | EuFeedback | EuExplicitFeedback | EuReserved

fun u8_of_transfer :: "EndpointTransferType \<Rightarrow> byte" where
  "u8_of_transfer EtControl = 0"
| "u8_of_transfer EtIsochronous = 1"
| "u8_of_transfer EtBulk = 2"
| "u8_of_transfer EtInterrupt = 3"

fun u8_of_synchronization :: "EndpointSynchronizationType \<Rightarrow> byte" where
  "u8_of_synchronization EsNone = 0"
| "u8_of_synchronization EsAsynchronous = 1"
| "u8_of_synchronization EsAdaptive = 2"
| "u8_of_synchronization EsSynchronous = 3"

fun u8_of_usage :: "EndpointUsageType \<Rightarrow> byte" where
  "u8_of_usage EuData = 0"
| "u8_of_usage EuFeedback = 1"
| "u8_of_usage EuExplicitFeedback = 2"
| "u8_of_usage EuReserved = 3"

record EndpointAttributes =
  ea_transfer :: EndpointTransferType
  ea_synchronization :: EndpointSynchronizationType
  ea_usage :: EndpointUsageType

definition u8_from_EndpointAttributes :: "EndpointAttributes \<Rightarrow> byte" where
  "u8_from_EndpointAttributes a =
     (case ea_transfer a of EtIsochronous \<Rightarrow> u8_of_transfer (ea_transfer a)
      | _ \<Rightarrow> u8_of_transfer (ea_transfer a) OR push_bit 2 (u8_of_synchronization (ea_synchronization a)) OR push_bit 4 (u8_of_usage (ea_usage a)))"

definition EndpointAttributes_from_u8 :: "byte \<Rightarrow> EndpointAttributes" where
  "EndpointAttributes_from_u8 v =
     \<lparr>ea_transfer = (if v AND 3 = 0 then EtControl else if v AND 3 = 1 then EtIsochronous else if v AND 3 = 2 then EtBulk
        else if v AND 3 = 3 then EtInterrupt else EtControl),
      ea_synchronization = (if drop_bit 2 v AND 3 = 0 then EsNone else if drop_bit 2 v AND 3 = 1 then EsAsynchronous
        else if drop_bit 2 v AND 3 = 2 then EsAdaptive else if drop_bit 2 v AND 3 = 3 then EsSynchronous else EsNone),
      ea_usage = (if drop_bit 4 v AND 3 = 0 then EuData else if drop_bit 4 v AND 3 = 1 then EuFeedback
        else if drop_bit 4 v AND 3 = 2 then EuExplicitFeedback else EuReserved)\<rparr>"

record EndpointDescriptor =
  ed_b_length :: byte
  ed_b_descriptor_type :: byte
  b_endpoint_address :: byte
  ed_bm_attributes :: byte
  w_max_packet_size :: u16
  b_interval :: byte

definition EndpointDescriptor_new :: "byte \<Rightarrow> EndpointAttributes \<Rightarrow> byte \<Rightarrow> EndpointDescriptor" where
  "EndpointDescriptor_new address attributes interval =
     \<lparr>ed_b_length = 7, ed_b_descriptor_type = u8_of_Descriptor DescInterface, b_endpoint_address = address,
      ed_bm_attributes = u8_from_EndpointAttributes attributes, w_max_packet_size = MAX_PACKET_SIZE, b_interval = interval\<rparr>"

definition EndpointDescriptor_bytes :: "EndpointDescriptor \<Rightarrow> byte list" where
  "EndpointDescriptor_bytes d =
     [7, u8_of_Descriptor DescEndpoint, b_endpoint_address d, ed_bm_attributes d, ucast (w_max_packet_size d),
      ucast (drop_bit 8 (w_max_packet_size d)), b_interval d]"

definition EndpointDescriptor_into_u8_buf :: "EndpointDescriptor \<Rightarrow> byte list \<Rightarrow> (MemoryError, nat \<times> byte list) outcome" where
  "EndpointDescriptor_into_u8_buf d buf = put_u8s (EndpointDescriptor_bytes d) buf"

record HidDeviceDescriptor =
  hd_b_length :: byte
  hd_b_descriptor_type :: byte
  w_release :: u16
  b_country :: byte
  b_descriptors :: byte
  b_sub_descriptor_type :: byte
  w_sub_descriptor_length :: u16

definition HidDeviceDescriptor_new :: HidDeviceDescriptor where
  "HidDeviceDescriptor_new =
     \<lparr>hd_b_length = 9, hd_b_descriptor_type = u8_of_Descriptor DescHidDevice, w_release = 0x0100, b_country = 0, b_descriptors = 1,
      b_sub_descriptor_type = 34, w_sub_descriptor_length = 34\<rparr>"

definition HidDeviceDescriptor_bytes :: "HidDeviceDescriptor \<Rightarrow> byte list" where
  "HidDeviceDescriptor_bytes d =
     [hd_b_length d, hd_b_descriptor_type d, ucast (w_release d), ucast (drop_bit 8 (w_release d)), b_country d, b_descriptors d,
      b_sub_descriptor_type d, ucast (w_sub_descriptor_length d), ucast (drop_bit 8 (w_sub_descriptor_length d))]"

definition HidDeviceDescriptor_into_u8_buf :: "HidDeviceDescriptor \<Rightarrow> byte list \<Rightarrow> (MemoryError, nat \<times> byte list) outcome" where
  "HidDeviceDescriptor_into_u8_buf d buf = put_u8s (HidDeviceDescriptor_bytes d) buf"

section \<open>Setup requests\<close>

datatype SetupRequestType = GetStatus | ClearFeature | ReservedRequest | SetFeature | SetAddress | GetDescriptor | SetDescriptor
  | GetConfiguration | SetConfiguration | GetInterface | SetInterface | SynchFrame | UndefinedRequest

datatype SetupClassRequestType = UndefinedClassRequest | SetIdle
datatype SetupDirection = HostToDevice | DeviceToHost
datatype SetupRequestClass = ClassStandard | ClassClass | ClassVendor | ClassReserved
datatype SetupRecipient = ToDevice | ToInterface | ToEndpoint | ToOther | ToReserved

record SetupRequest =
  bm_request_type :: byte
  b_request :: byte
  w_value :: u16
  w_index :: u16
  w_length :: u16

definition SetupRequest_new :: "u32 list \<Rightarrow> SetupRequest" where
  "SetupRequest_new buf =
     \<lparr>bm_request_type = ucast (buf ! 0 AND 0xff), b_request = ucast (drop_bit 8 (buf ! 0 AND 0x0000ff00)),
      w_value = ucast (drop_bit 16 (buf ! 0 AND 0xffff0000)), w_index = ucast (buf ! 1 AND 0x0000ffff),
      w_length = ucast (drop_bit 16 (buf ! 1 AND 0xffff0000))\<rparr>"

definition SetupRequest_parse :: "u32 list \<Rightarrow> SetupRequest \<Rightarrow> SetupRequest" where
  "SetupRequest_parse buf req =
     req\<lparr>bm_request_type := ucast (buf ! 0 AND 0xff), b_request := ucast (drop_bit 8 (buf ! 0 AND 0x0000ff00)),
         w_value := ucast (drop_bit 16 (buf ! 0 AND 0xffff0000)), w_index := ucast (buf ! 1 AND 0x0000ffff),
         w_length := ucast (drop_bit 16 (buf ! 1 AND 0xffff0000))\<rparr>"

definition data_direction :: "SetupRequest \<Rightarrow> SetupDirection" where
  "data_direction r = (if drop_bit 7 (bm_request_type r AND 0x80) = 0 then HostToDevice else DeviceToHost)"

definition req_type :: "SetupRequest \<Rightarrow> SetupRequestClass" where
  "req_type r = (let v = drop_bit 5 (bm_request_type r AND 0x60) in
     if v = 0 then ClassStandard else if v = 1 then ClassClass else if v = 2 then ClassVendor else ClassReserved)"

definition recipient :: "SetupRequest \<Rightarrow> SetupRecipient" where
  "recipient r = (let v = bm_request_type r AND 0x1f in
     if v = 0 then ToDevice else if v = 1 then ToInterface else if v = 2 then ToEndpoint else if v = 3 then ToOther else ToReserved)"

definition class_request :: "SetupRequest \<Rightarrow> SetupClassRequestType" where
  "class_request r = (if b_request r = 10 then SetIdle else UndefinedClassRequest)"

definition request :: "SetupRequest \<Rightarrow> SetupRequestType" where
  "request r = (let b = b_request r in
     if b = 0 then GetStatus else if b = 1 then ClearFeature else if b = 2 then ReservedRequest else if b = 3 then SetFeature
     else if b = 4 then ReservedRequest else if b = 5 then SetAddress else if b = 6 then GetDescriptor else if b = 7 then SetDescriptor
     else if b = 8 then GetConfiguration else if b = 9 then SetConfiguration else if b = 10 then GetInterface
     else if b = 11 then SetInterface else if b = 12 then SynchFrame else UndefinedRequest)"

section \<open>Frames of the U2F channel\<close>

record U2fHidCommandFrame =
  uf_channel_id :: u32
  uf_command :: byte
  uf_bcount_high :: byte
  uf_bcount_low :: byte
  uf_data :: "byte list"

definition U2fHidCommandFrame_into_u32_buf :: "U2fHidCommandFrame \<Rightarrow> u32 list \<Rightarrow> u32 list" where
  "U2fHidCommandFrame_into_u32_buf f buf =
     buf[0 := uf_channel_id f,
         1 := ucast (uf_command f) OR push_bit 8 (ucast (uf_bcount_high f)) OR push_bit 16 (ucast (uf_bcount_low f))
              OR push_bit 24 (ucast (uf_data f ! 0))]"

section \<open>Bytes of word buffers\<close>

definition words_bytes :: "u32 list \<Rightarrow> byte list" where
  "words_bytes ws = concat (map word_bytes ws)"

lemma words_bytes_simps [simp]:
  "words_bytes [] = []"
  "words_bytes (w # ws) = word_bytes w @ words_bytes ws"
  "words_bytes (vs @ ws) = words_bytes vs @ words_bytes ws"
  by (simp_all add: words_bytes_def)

lemma length_words_bytes [simp]: "length (words_bytes ws) = 4 * length ws"
  by (induction ws) simp_all

lemma word_bytes_bytes:
  "word_bytes (ucast (a :: byte) OR push_bit 8 (ucast (b :: byte)) OR push_bit 16 (ucast (c :: byte)) OR push_bit 24 (ucast (d :: byte))) = [a, b, c, d]"
  using bytes_le_word [of "[a, b, c, d]"] by (simp add: le_word_def)

lemma half_bit: "16 \<le> k \<Longrightarrow> \<not> bit (a :: u16) (k + n)"
  using bit_imp_le_length [of a "k + n"] by auto

lemma word_bytes_half:
  "word_bytes (ucast (a :: byte) OR push_bit 8 (ucast (b :: byte)) OR push_bit 16 (ucast (c :: u16))) = [a, b] @ half_bytes c"
proof -
  have "ucast (c :: u16) = (ucast (ucast c :: byte) :: u32) OR push_bit 8 (ucast (ucast (drop_bit 8 c) :: byte))"
    by (rule bit_word_eqI) (auto simp: bit_simps dest: bit_imp_le_length)
  then have "push_bit 16 (ucast c :: u32) = push_bit 16 (ucast (ucast c :: byte)) OR push_bit 24 (ucast (ucast (drop_bit 8 c) :: byte))"
    by (simp only: push_bit_or push_bit_push_bit) simp
  then show ?thesis
    using word_bytes_bytes [of a b "ucast c" "ucast (drop_bit 8 c)"] by (simp only: or.assoc half_bytes_def) simp
qed

lemma word_bytes_halves: "word_bytes (ucast (c :: u16) OR push_bit 16 (ucast (d :: u16))) = half_bytes c @ half_bytes d"
proof -
  have "ucast (c :: u16) = (ucast (ucast c :: byte) :: u32) OR push_bit 8 (ucast (ucast (drop_bit 8 c) :: byte))"
    by (rule bit_word_eqI) (auto simp: bit_simps dest: bit_imp_le_length)
  then show ?thesis
    using word_bytes_half [of "ucast c" "ucast (drop_bit 8 c)" d] by (simp add: half_bytes_def or.assoc)
qed

lemma word_bytes_byte: "word_bytes (ucast (a :: byte)) = [a, 0, 0, 0]"
  using word_bytes_bytes [of a 0 0 0] by simp

lemma word_bytes_char: "word_bytes (ucast (c :: u16)) = half_bytes c @ [0, 0]"
  using word_bytes_halves [of c 0] by (simp add: half_bytes_def)

lemma length_half_bytes [simp]: "length (half_bytes c) = 2"
  by (simp add: half_bytes_def)

section \<open>The binary forms\<close>

text \<open>A copy of a structure into a buffer with as many words as the structure has bytes starts with the bytes of the structure, whatever lies behind it.\<close>

lemma serialize_bytes:
  assumes "length obj \<le> length buffer"
  obtains buffer' where "serialize after obj buffer = Ok (length obj, buffer')" "length buffer' = length buffer"
    "take (length obj) (words_bytes buffer') = obj"
proof
  let ?n = "length obj" and ?m = "memory_at obj after (4 * length obj)"
  let ?b = "bytes_words ?m @ drop ?n buffer"
  show "serialize after obj buffer = Ok (?n, ?b)"
    using assms by (simp add: serialize_def Let_def)
  show "length ?b = length buffer"
    using assms by (simp add: memory_at_def)
  have "words_bytes (bytes_words ?m) = ?m"
    unfolding words_bytes_def by (rule words_bytes_words [of _ ?n]) (simp add: memory_at_def)
  then show "take ?n (words_bytes ?b) = obj"
    by (auto intro!: nth_equalityI simp: memory_at_def nth_append)
qed

lemma interface_bytes:
  assumes "3 \<le> length buf"
  shows "take 9 (words_bytes (snd (InterfaceDescriptor_into_u32_buf d buf))) = InterfaceDescriptor_bytes d"
proof -
  obtain w0 w1 w2 ws where "buf = w0 # w1 # w2 # ws"
    using assms by (auto simp: Suc_le_length_iff numeral_3_eq_3)
  then show ?thesis
    by (simp add: InterfaceDescriptor_into_u32_buf_def InterfaceDescriptor_bytes_def word_bytes_bytes word_bytes_byte)
qed

lemma configuration_bytes:
  assumes "3 \<le> length buf"
  shows "take 9 (words_bytes (snd (ConfigurationDescriptor_into_u32_buf d buf))) = ConfigurationDescriptor_bytes d"
proof -
  obtain w0 w1 w2 ws where "buf = w0 # w1 # w2 # ws"
    using assms by (auto simp: Suc_le_length_iff numeral_3_eq_3)
  then show ?thesis
    by (simp add: ConfigurationDescriptor_into_u32_buf_def ConfigurationDescriptor_bytes_def word_bytes_bytes word_bytes_half word_bytes_byte
        half_bytes_def)
qed

text \<open>The words of the characters behind the first, two to a word.\<close>

fun char_words :: "u16 list \<Rightarrow> u32 list" where
  "char_words [] = []"
| "char_words [c] = [ucast c]"
| "char_words (c # d # cs) = (ucast c OR push_bit 16 (ucast d)) # char_words cs"

lemma length_char_words: "length (char_words cs) = (length cs + 1) div 2"
  by (induction cs rule: char_words.induct) simp_all

lemma char_words_bytes: "take (2 * length cs) (words_bytes (char_words cs)) = concat (map half_bytes cs)"
  by (induction cs rule: char_words.induct) (simp_all add: word_bytes_halves word_bytes_char)

lemma put_chars_words:
  assumes "k + (length cs + 1) div 2 \<le> length buf" and "0 < k"
  shows "put_chars (2 * k - 1) cs buf = Ok (take k buf @ char_words cs @ drop (k + length (char_words cs)) buf)"
  using assms
proof (induction cs arbitrary: k buf rule: char_words.induct)
  case (2 c)
  then have "k < length buf"
    by simp
  moreover have "(2 * k - 1) mod 2 = 1" "(2 * k - 1) div 2 + 1 = k"
    using "2.prems"(2) by presburger+
  ultimately show ?case
    by (simp add: put_char_def upd_conv_take_nth_drop)
next
  case (3 c d cs)
  have k: "k < length buf"
    using "3.prems"(1) by simp
  have "(2 * k - 1) mod 2 = 1" "(2 * k - 1) div 2 + 1 = k"
    using "3.prems"(2) by presburger+
  then have c1: "put_char (2 * k - 1) c buf = Ok (buf[k := ucast c])"
    using k by (simp add: put_char_def)
  have i: "Suc (2 * k - 1) = 2 * k" "Suc (2 * k) = 2 * Suc k - 1"
    using "3.prems"(2) by presburger+
  let ?b = "buf[k := ucast c OR push_bit 16 (ucast d)]"
  have "put_chars (2 * k - 1) (c # d # cs) buf = put_chars (2 * Suc k - 1) cs ?b"
  proof -
    have "put_char (2 * k) d (buf[k := ucast c]) = Ok ?b"
      using k by (simp add: put_char_def)
    then show ?thesis
      by (simp only: put_chars.simps c1 i(1) outcome.case i(2))
  qed
  also have "\<dots> = Ok (take (Suc k) ?b @ char_words cs @ drop (Suc k + length (char_words cs)) ?b)"
    using "3.prems" by (intro "3.IH") simp_all
  finally show ?case
    using k by (simp add: take_Suc_conv_app_nth)
qed simp

definition StringDescriptor_bytes :: "StringDescriptor \<Rightarrow> byte list" where
  "StringDescriptor_bytes d = [sd_b_length d, sd_b_descriptor_type d] @ concat (map half_bytes (b_string d))"

lemma string_bytes:
  assumes "length (b_string d) < 2 * length buf"
  obtains buf' where "StringDescriptor_into_u32_buf d buf = Ok (length (StringDescriptor_bytes d), buf')" "length buf' = length buf"
    "take (length (StringDescriptor_bytes d)) (words_bytes buf') = StringDescriptor_bytes d"
proof -
  have len: "length (StringDescriptor_bytes d) = 2 + 2 * length (b_string d)"
    by (simp add: StringDescriptor_bytes_def length_concat comp_def sum_list_triv)
  obtain w ws where buf: "buf = w # ws"
    using assms by (cases buf) auto
  show thesis
  proof (cases "b_string d")
    case Nil
    then show thesis
      using that [of "buf[0 := ucast (sd_b_length d) OR push_bit 8 (ucast (sd_b_descriptor_type d))]"] buf len
        word_bytes_bytes [of "sd_b_length d" "sd_b_descriptor_type d" 0 0]
      by (simp add: StringDescriptor_into_u32_buf_def StringDescriptor_bytes_def)
  next
    case (Cons c cs)
    let ?h = "ucast (sd_b_length d) OR push_bit 8 (ucast (sd_b_descriptor_type d)) OR push_bit 16 (ucast c) :: u32"
    let ?b = "?h # char_words cs @ drop (length (char_words cs)) ws"
    have room: "1 + (length cs + 1) div 2 \<le> length (buf[0 := ?h])"
      using assms Cons buf by simp
    have "put_chars 1 cs (buf[0 := ?h]) = Ok ?b"
      using put_chars_words [OF room] buf by simp
    then have 1: "StringDescriptor_into_u32_buf d buf = Ok (length (StringDescriptor_bytes d), ?b)"
      using Cons len by (simp add: StringDescriptor_into_u32_buf_def)
    have 2: "length ?b = length buf"
      using room buf by (simp add: length_char_words)
    have "2 * length cs \<le> 4 * length (char_words cs)"
      by (simp add: length_char_words)
    then have 3: "take (length (StringDescriptor_bytes d)) (words_bytes ?b) = StringDescriptor_bytes d"
      using Cons len by (simp add: word_bytes_half StringDescriptor_bytes_def char_words_bytes)
    from that [OF 1 2 3] show thesis .
  qed
qed

text \<open>The attributes of an endpoint come back from their byte, except that those of an isochronous endpoint lose all but its type.\<close>

lemma endpoint_attributes_roundtrip:
  fixes a :: EndpointAttributes
  shows "EndpointAttributes_from_u8 (u8_from_EndpointAttributes a) =
    (if ea_transfer a = EtIsochronous then a\<lparr>ea_synchronization := EsNone, ea_usage := EuData\<rparr> else a)"
  by (cases a; cases "ea_transfer a"; cases "ea_synchronization a"; cases "ea_usage a")
    (simp_all add: EndpointAttributes_from_u8_def u8_from_EndpointAttributes_def)

text \<open>The words of a setup packet, as the host sends it.\<close>

definition setup_words :: "SetupRequest \<Rightarrow> u32 list" where
  "setup_words r = [ucast (bm_request_type r) OR push_bit 8 (ucast (b_request r)) OR push_bit 16 (ucast (w_value r)),
     ucast (w_index r) OR push_bit 16 (ucast (w_length r))]"

lemma setup_fields:
  fixes a b :: byte and c d e :: u16
  defines "x \<equiv> ucast a OR push_bit 8 (ucast b) OR push_bit 16 (ucast c) :: u32" and "y \<equiv> ucast d OR push_bit 16 (ucast e) :: u32"
  shows "ucast (x AND 0xff) = a" "ucast (drop_bit 8 (x AND 0xff00)) = b" "ucast (drop_bit 16 (x AND 0xffff0000)) = c"
    "ucast (y AND 0xffff) = d" "ucast (drop_bit 16 (y AND 0xffff0000)) = e"
proof -
  have m: "(0xff :: u32) = mask 8" "(0xffff :: u32) = mask 16" "(0xff00 :: u32) = push_bit 8 (mask 8)" "(0xffff0000 :: u32) = push_bit 16 (mask 16)"
    by (simp_all add: mask_numeral)
  show "ucast (x AND 0xff) = a" "ucast (drop_bit 8 (x AND 0xff00)) = b" "ucast (drop_bit 16 (x AND 0xffff0000)) = c"
    "ucast (y AND 0xffff) = d" "ucast (drop_bit 16 (y AND 0xffff0000)) = e"
    unfolding m x_def y_def
    by (rule bit_word_eqI; auto simp: bit_simps dest: bit_imp_le_length)+
qed

lemma setup_roundtrip:
  fixes r :: SetupRequest
  shows "SetupRequest_new (setup_words r @ rest) = r"
proof -
  have "SetupRequest_new (setup_words r @ rest) =
    \<lparr>bm_request_type = bm_request_type r, b_request = b_request r, w_value = w_value r, w_index = w_index r, w_length = w_length r\<rparr>"
    unfolding SetupRequest_new_def setup_words_def by (simp only: append_Cons nth_Cons_0 One_nat_def nth_Cons_Suc setup_fields)
  then show ?thesis
    by simp
qed

lemma parse_new:
  fixes r :: SetupRequest
  shows "SetupRequest_parse buf r = SetupRequest_new buf"
  by (simp add: SetupRequest_parse_def SetupRequest_new_def)

end
