(* ===== verification/Usb_Registers.thy ===== *)
theory Usb_Registers
  imports Usb_Types
begin

text \<open>
  The registers of the USB controller and its DMA descriptors (\<^verbatim>\<open>usb/registers.rs\<close>): the bit fields of every
  register, the operations on them, and that no two fields of a register share a bit, so that changing one leaves the others.
\<close>

section \<open>Bit fields\<close>

text \<open>
  A field is an offset and a width. A field with a value is a mask and the bits under it; \<^verbatim>\<open>+\<close> joins them,
  \<^verbatim>\<open>write\<close> replaces the register, \<^verbatim>\<open>modify\<close> only the named fields.
\<close>

type_synonym field = "nat \<times> nat"

definition field_mask :: "field \<Rightarrow> u32" where
  "field_mask f = push_bit (fst f) (mask (snd f))"

definition fval :: "field \<Rightarrow> u32 \<Rightarrow> u32 \<times> u32" where
  "fval f v = (field_mask f, push_bit (fst f) (v AND mask (snd f)))"

definition join_fields :: "(u32 \<times> u32) list \<Rightarrow> u32 \<times> u32" where
  "join_fields fvs = (foldr (OR) (map fst fvs) 0, foldr (OR) (map snd fvs) 0)"

definition reg_write :: "(u32 \<times> u32) list \<Rightarrow> u32" where
  "reg_write fvs = snd (join_fields fvs)"

definition reg_modify :: "(u32 \<times> u32) list \<Rightarrow> u32 \<Rightarrow> u32" where
  "reg_modify fvs r = (r AND NOT (fst (join_fields fvs))) OR snd (join_fields fvs)"

definition reg_is_set :: "field \<Rightarrow> u32 \<Rightarrow> bool" where
  "reg_is_set f r \<longleftrightarrow> r AND field_mask f \<noteq> 0"

definition field_get :: "field \<Rightarrow> u32 \<Rightarrow> u32" where
  "field_get f r = drop_bit (fst f) r AND mask (snd f)"

section \<open>The registers\<close>

datatype AhbConfig = Ahb_GlobalInterruptMask | Ahb_BurstLength | Ahb_DmaEnable | Ahb_NonPeriodicTxFifoEmptyLevel
  | Ahb_PeriodicTxFifoEmptyLevel | Ahb_RemoteMemorySupport | Ahb_NotifyAllDmaWrite | Ahb_AhbSingleSupport | Ahb_InverseDescEndianness

fun AhbConfig_field :: "AhbConfig \<Rightarrow> nat \<times> nat" where
  "AhbConfig_field Ahb_GlobalInterruptMask = (0, 1)"
| "AhbConfig_field Ahb_BurstLength = (1, 4)"
| "AhbConfig_field Ahb_DmaEnable = (5, 1)"
| "AhbConfig_field Ahb_NonPeriodicTxFifoEmptyLevel = (7, 1)"
| "AhbConfig_field Ahb_PeriodicTxFifoEmptyLevel = (8, 1)"
| "AhbConfig_field Ahb_RemoteMemorySupport = (21, 1)"
| "AhbConfig_field Ahb_NotifyAllDmaWrite = (22, 1)"
| "AhbConfig_field Ahb_AhbSingleSupport = (23, 1)"
| "AhbConfig_field Ahb_InverseDescEndianness = (24, 1)"

datatype UsbConfiguration = Uc_TimeoutCalibration | Uc_PhysicalInterface | Uc_UlpiUtmiSelect | Uc_FullSpeedSerialInterfaceSelect
  | Uc_PhySelect | Uc_UlpiDdrSelect | Uc_SrpCapable | Uc_HnpCapable | Uc_UsbTurnaroundTime

fun UsbConfiguration_field :: "UsbConfiguration \<Rightarrow> nat \<times> nat" where
  "UsbConfiguration_field Uc_TimeoutCalibration = (0, 3)"
| "UsbConfiguration_field Uc_PhysicalInterface = (3, 1)"
| "UsbConfiguration_field Uc_UlpiUtmiSelect = (4, 1)"
| "UsbConfiguration_field Uc_FullSpeedSerialInterfaceSelect = (5, 1)"
| "UsbConfiguration_field Uc_PhySelect = (6, 1)"
| "UsbConfiguration_field Uc_UlpiDdrSelect = (7, 1)"
| "UsbConfiguration_field Uc_SrpCapable = (8, 1)"
| "UsbConfiguration_field Uc_HnpCapable = (9, 1)"
| "UsbConfiguration_field Uc_UsbTurnaroundTime = (10, 4)"

datatype UsbReset = Rst_AhbMasterIdle | Rst_DmaRequestSignal | Rst_TxFifoNumber | Rst_TxFifoFlush | Rst_RxFifoFlush
  | Rst_InTokenSequenceLearningQueueFlush | Rst_HostFrameCounterReset | Rst_PiuFsDedicatedControllerSoftReset

fun UsbReset_field :: "UsbReset \<Rightarrow> nat \<times> nat" where
  "UsbReset_field Rst_AhbMasterIdle = (31, 1)"
| "UsbReset_field Rst_DmaRequestSignal = (30, 1)"
| "UsbReset_field Rst_TxFifoNumber = (6, 5)"
| "UsbReset_field Rst_TxFifoFlush = (5, 1)"
| "UsbReset_field Rst_RxFifoFlush = (4, 1)"
| "UsbReset_field Rst_InTokenSequenceLearningQueueFlush = (3, 1)"
| "UsbReset_field Rst_HostFrameCounterReset = (2, 1)"
| "UsbReset_field Rst_PiuFsDedicatedControllerSoftReset = (1, 1)"

datatype Interrupt = Int_CurrentMode | Int_ModeMismatch | Int_OTG | Int_StartOfFrame | Int_RxFifoNotEmpty | Int_NonPeriodicTxFifoEmpty
  | Int_GlobalInNak | Int_GlobalOutNak | Int_EarlySuspend | Int_Suspend | Int_Reset | Int_EnumerationDone | Int_OutIsochronousPacketDropped
  | Int_EndOfPeriodicFrame | Int_RestoreDone | Int_EndpointMismatch | Int_InEndpoints | Int_OutEndpoints
  | Int_IncompleteIsochronousInTransfer | Int_IncompletePeriodicTransfer | Int_DataFetchSuspended | Int_ResetDetected | Int_ConnectIDChange
  | Int_DisconnectDetected | Int_SessionRequest | Int_ResumeWakeup

fun Interrupt_field :: "Interrupt \<Rightarrow> nat \<times> nat" where
  "Interrupt_field Int_CurrentMode = (0, 1)"
| "Interrupt_field Int_ModeMismatch = (1, 1)"
| "Interrupt_field Int_OTG = (2, 1)"
| "Interrupt_field Int_StartOfFrame = (3, 1)"
| "Interrupt_field Int_RxFifoNotEmpty = (4, 1)"
| "Interrupt_field Int_NonPeriodicTxFifoEmpty = (5, 1)"
| "Interrupt_field Int_GlobalInNak = (6, 1)"
| "Interrupt_field Int_GlobalOutNak = (7, 1)"
| "Interrupt_field Int_EarlySuspend = (10, 1)"
| "Interrupt_field Int_Suspend = (11, 1)"
| "Interrupt_field Int_Reset = (12, 1)"
| "Interrupt_field Int_EnumerationDone = (13, 1)"
| "Interrupt_field Int_OutIsochronousPacketDropped = (14, 1)"
| "Interrupt_field Int_EndOfPeriodicFrame = (15, 1)"
| "Interrupt_field Int_RestoreDone = (16, 1)"
| "Interrupt_field Int_EndpointMismatch = (17, 1)"
| "Interrupt_field Int_InEndpoints = (18, 1)"
| "Interrupt_field Int_OutEndpoints = (19, 1)"
| "Interrupt_field Int_IncompleteIsochronousInTransfer = (20, 1)"
| "Interrupt_field Int_IncompletePeriodicTransfer = (21, 1)"
| "Interrupt_field Int_DataFetchSuspended = (22, 1)"
| "Interrupt_field Int_ResetDetected = (23, 1)"
| "Interrupt_field Int_ConnectIDChange = (28, 1)"
| "Interrupt_field Int_DisconnectDetected = (29, 1)"
| "Interrupt_field Int_SessionRequest = (30, 1)"
| "Interrupt_field Int_ResumeWakeup = (31, 1)"

datatype Gpio = Gpio_Gpi | Gpio_GpoRegister | Gpio_GpoValue | Gpio_GpoOperation

fun Gpio_field :: "Gpio \<Rightarrow> nat \<times> nat" where
  "Gpio_field Gpio_Gpi = (0, 16)"
| "Gpio_field Gpio_GpoRegister = (16, 4)"
| "Gpio_field Gpio_GpoValue = (20, 8)"
| "Gpio_field Gpio_GpoOperation = (31, 1)"

datatype DeviceConfig = Dcfg_DeviceSpeed | Dcfg_DeviceAddress | Dcfg_PeriodicFrameInterval | Dcfg_EnableDeviceOutNak | Dcfg_XcvrDelay
  | Dcfg_ErraticErrorInterruptMask | Dcfg_InEndpointMismatchCount | Dcfg_EnableScatterGatherDMAInDeviceMode | Dcfg_PeriodicScheduling
  | Dcfg_ResumeValidationPeriod

fun DeviceConfig_field :: "DeviceConfig \<Rightarrow> nat \<times> nat" where
  "DeviceConfig_field Dcfg_DeviceSpeed = (0, 2)"
| "DeviceConfig_field Dcfg_DeviceAddress = (4, 7)"
| "DeviceConfig_field Dcfg_PeriodicFrameInterval = (11, 2)"
| "DeviceConfig_field Dcfg_EnableDeviceOutNak = (13, 1)"
| "DeviceConfig_field Dcfg_XcvrDelay = (14, 1)"
| "DeviceConfig_field Dcfg_ErraticErrorInterruptMask = (15, 1)"
| "DeviceConfig_field Dcfg_InEndpointMismatchCount = (18, 5)"
| "DeviceConfig_field Dcfg_EnableScatterGatherDMAInDeviceMode = (23, 1)"
| "DeviceConfig_field Dcfg_PeriodicScheduling = (24, 2)"
| "DeviceConfig_field Dcfg_ResumeValidationPeriod = (26, 6)"

datatype DeviceControl = Dctl_RemoteWakeupSignaling | Dctl_SoftDisconnect | Dctl_GlobalNonPeriodicInNakStatus | Dctl_GlobalOutNakStatus
  | Dctl_TestControl | Dctl_SetGlobalNonPeriodicInNak | Dctl_ClearGlobalNonPeriodicInNak | Dctl_SetGlobalOutNak | Dctl_ClearGlobalOutNak
  | Dctl_PowerOnProgrammingDone | Dctl_GlobalMultiCount | Dctl_IgnoreFrameNumber | Dctl_NakOnBabbleError | Dctl_EnableContinueOnBna
  | Dctl_DeepSleepBESLReject

fun DeviceControl_field :: "DeviceControl \<Rightarrow> nat \<times> nat" where
  "DeviceControl_field Dctl_RemoteWakeupSignaling = (0, 1)"
| "DeviceControl_field Dctl_SoftDisconnect = (1, 1)"
| "DeviceControl_field Dctl_GlobalNonPeriodicInNakStatus = (2, 1)"
| "DeviceControl_field Dctl_GlobalOutNakStatus = (3, 1)"
| "DeviceControl_field Dctl_TestControl = (4, 3)"
| "DeviceControl_field Dctl_SetGlobalNonPeriodicInNak = (7, 1)"
| "DeviceControl_field Dctl_ClearGlobalNonPeriodicInNak = (8, 1)"
| "DeviceControl_field Dctl_SetGlobalOutNak = (9, 1)"
| "DeviceControl_field Dctl_ClearGlobalOutNak = (10, 1)"
| "DeviceControl_field Dctl_PowerOnProgrammingDone = (11, 1)"
| "DeviceControl_field Dctl_GlobalMultiCount = (13, 2)"
| "DeviceControl_field Dctl_IgnoreFrameNumber = (15, 1)"
| "DeviceControl_field Dctl_NakOnBabbleError = (16, 1)"
| "DeviceControl_field Dctl_EnableContinueOnBna = (17, 1)"
| "DeviceControl_field Dctl_DeepSleepBESLReject = (18, 1)"

datatype InEndpointInterruptMask = In_TransferCompleted | In_EndpointDisabled | In_AhbError | In_Timeout | In_InTokenReceivedWhenTxFifoEmpty
  | In_InTokenEndpointMismatched | In_InEndpointNakEffective | In_TxFifoUnderrun | In_BufferNotAvailable | In_NAK

fun InEndpointInterruptMask_field :: "InEndpointInterruptMask \<Rightarrow> nat \<times> nat" where
  "InEndpointInterruptMask_field In_TransferCompleted = (0, 1)"
| "InEndpointInterruptMask_field In_EndpointDisabled = (1, 1)"
| "InEndpointInterruptMask_field In_AhbError = (2, 1)"
| "InEndpointInterruptMask_field In_Timeout = (3, 1)"
| "InEndpointInterruptMask_field In_InTokenReceivedWhenTxFifoEmpty = (4, 1)"
| "InEndpointInterruptMask_field In_InTokenEndpointMismatched = (5, 1)"
| "InEndpointInterruptMask_field In_InEndpointNakEffective = (6, 1)"
| "InEndpointInterruptMask_field In_TxFifoUnderrun = (8, 1)"
| "InEndpointInterruptMask_field In_BufferNotAvailable = (9, 1)"
| "InEndpointInterruptMask_field In_NAK = (13, 1)"

datatype OutEndpointInterruptMask = Out_TransferCompleted | Out_EndpointDisabled | Out_AhbError | Out_SetupPhaseDone
  | Out_OutTokenReceivedWhenEndpointDisabled | Out_StatusPhaseReceived | Out_BackToBackSetupPacketsReceived | Out_OutPacketError
  | Out_BnaInterrupt | Out_BabbleError | Out_Nak | Out_Nyet

fun OutEndpointInterruptMask_field :: "OutEndpointInterruptMask \<Rightarrow> nat \<times> nat" where
  "OutEndpointInterruptMask_field Out_TransferCompleted = (0, 1)"
| "OutEndpointInterruptMask_field Out_EndpointDisabled = (1, 1)"
| "OutEndpointInterruptMask_field Out_AhbError = (2, 1)"
| "OutEndpointInterruptMask_field Out_SetupPhaseDone = (3, 1)"
| "OutEndpointInterruptMask_field Out_OutTokenReceivedWhenEndpointDisabled = (4, 1)"
| "OutEndpointInterruptMask_field Out_StatusPhaseReceived = (5, 1)"
| "OutEndpointInterruptMask_field Out_BackToBackSetupPacketsReceived = (6, 1)"
| "OutEndpointInterruptMask_field Out_OutPacketError = (8, 1)"
| "OutEndpointInterruptMask_field Out_BnaInterrupt = (9, 1)"
| "OutEndpointInterruptMask_field Out_BabbleError = (12, 1)"
| "OutEndpointInterruptMask_field Out_Nak = (13, 1)"
| "OutEndpointInterruptMask_field Out_Nyet = (14, 1)"

datatype AllEndpointInterrupt = IN_EP nat | OUT_EP nat

fun AllEndpointInterrupt_field :: "AllEndpointInterrupt \<Rightarrow> nat \<times> nat" where
  "AllEndpointInterrupt_field (IN_EP i) = (i, 1)"
| "AllEndpointInterrupt_field (OUT_EP i) = (16 + i, 1)"

datatype EndpointControl = Ep_MaximumPacketSize | Ep_NextEndpoint | Ep_UsbActiveEndpoint | Ep_NakStatus | Ep_EndpointType | Ep_SnoopMode
  | Ep_Stall | Ep_TxFifoNumber | Ep_ClearNak | Ep_SetNak | Ep_Disable | Ep_Enable

fun EndpointControl_field :: "EndpointControl \<Rightarrow> nat \<times> nat" where
  "EndpointControl_field Ep_MaximumPacketSize = (0, 11)"
| "EndpointControl_field Ep_NextEndpoint = (11, 4)"
| "EndpointControl_field Ep_UsbActiveEndpoint = (15, 1)"
| "EndpointControl_field Ep_NakStatus = (17, 1)"
| "EndpointControl_field Ep_EndpointType = (18, 2)"
| "EndpointControl_field Ep_SnoopMode = (20, 1)"
| "EndpointControl_field Ep_Stall = (21, 1)"
| "EndpointControl_field Ep_TxFifoNumber = (22, 4)"
| "EndpointControl_field Ep_ClearNak = (26, 1)"
| "EndpointControl_field Ep_SetNak = (27, 1)"
| "EndpointControl_field Ep_Disable = (30, 1)"
| "EndpointControl_field Ep_Enable = (31, 1)"

section \<open>DMA descriptors\<close>

definition Df_LAST :: u32 where "Df_LAST = push_bit 27 1"
definition Df_SHORT :: u32 where "Df_SHORT = push_bit 26 1"
definition Df_IOC :: u32 where "Df_IOC = push_bit 25 1"
definition Df_SETUP_READY :: u32 where "Df_SETUP_READY = push_bit 24 1"
definition Df_STATUS_MASK :: u32 where "Df_STATUS_MASK = push_bit 30 3"
definition Df_HOST_READY :: u32 where "Df_HOST_READY = push_bit 30 0"
definition Df_DMA_BUSY :: u32 where "Df_DMA_BUSY = push_bit 30 1"
definition Df_DMA_DONE :: u32 where "Df_DMA_DONE = push_bit 30 2"
definition Df_HOST_BUSY :: u32 where "Df_HOST_BUSY = push_bit 30 3"

definition Df_bytes :: "u32 \<Rightarrow> u16 \<Rightarrow> u32" where
  "Df_bytes f n = f OR ucast n"

text \<open>
  The address in a descriptor names a buffer of the driver and the byte in it; the address registers name a descriptor.
\<close>

datatype BufferAddress = NoBuffer | Ep0OutBuffer nat | Ep0InBuffer nat | Ep1OutBuffer | Ep1InBuffer
datatype DescriptorAddress = NoDescriptor | Ep0OutDescriptor nat | Ep0InDescriptor nat | Ep1OutDescriptor | Ep1InDescriptor

record DMADescriptor =
  desc_flags :: u32
  desc_addr :: BufferAddress

section \<open>The register file\<close>

text \<open>The registers the driver uses; the endpoint registers are indexed by the endpoint.\<close>

record Endpoint =
  ep_control :: u32
  ep_interrupt :: u32
  ep_dma_address :: DescriptorAddress

record USBRegisters =
  ur_ahb_config :: u32
  ur_configuration :: u32
  ur_reset :: u32
  ur_interrupt_status :: u32
  ur_interrupt_mask :: u32
  ur_receive_fifo_size :: u32
  ur_transmit_fifo_size :: u32
  ur_gpio :: u32
  ur_device_in_ep_tx_fifo_size :: "u32 list"
  ur_device_config :: u32
  ur_device_control :: u32
  ur_device_in_ep_interrupt_mask :: u32
  ur_device_out_ep_interrupt_mask :: u32
  ur_device_all_ep_interrupt :: u32
  ur_device_all_ep_interrupt_mask :: u32
  ur_in_endpoints :: "nat \<Rightarrow> Endpoint"
  ur_out_endpoints :: "nat \<Rightarrow> Endpoint"

section \<open>Fields do not overlap\<close>

locale register_layout =
  fixes field_of :: "'f \<Rightarrow> field" and valid :: "'f \<Rightarrow> bool"
  assumes in_word: "valid f \<Longrightarrow> fst (field_of f) + snd (field_of f) \<le> 32"
    and disjoint: "valid f \<Longrightarrow> valid g \<Longrightarrow> f \<noteq> g \<Longrightarrow>
      fst (field_of f) + snd (field_of f) \<le> fst (field_of g) \<or> fst (field_of g) + snd (field_of g) \<le> fst (field_of f)"
begin

lemma modify_get: "valid f \<Longrightarrow> field_get (field_of f) (reg_modify [fval (field_of f) v] r) = v AND mask (snd (field_of f))"
  using in_word [of f]
  by (intro bit_word_eqI)
    (auto simp: field_get_def reg_modify_def join_fields_def fval_def field_mask_def bit_simps)

lemma modify_other:
  assumes "valid f" "valid g" "f \<noteq> g"
  shows "field_get (field_of g) (reg_modify [fval (field_of f) v] r) = field_get (field_of g) r"
  using disjoint [OF assms] in_word [OF assms(2)]
  by (intro bit_word_eqI)
    (auto simp: field_get_def reg_modify_def join_fields_def fval_def field_mask_def bit_simps)

end

interpretation ahb: register_layout AhbConfig_field "\<lambda>_. True"
proof
  fix f g :: AhbConfig
  show "fst (AhbConfig_field f) + snd (AhbConfig_field f) \<le> 32"
    by (cases f) simp_all
  assume "f \<noteq> g"
  then show "fst (AhbConfig_field f) + snd (AhbConfig_field f) \<le> fst (AhbConfig_field g) \<or> fst (AhbConfig_field g) + snd (AhbConfig_field g) \<le> fst (AhbConfig_field f)"
    by (cases f; cases g; simp)
qed

interpretation usbcfg: register_layout UsbConfiguration_field "\<lambda>_. True"
proof
  fix f g :: UsbConfiguration
  show "fst (UsbConfiguration_field f) + snd (UsbConfiguration_field f) \<le> 32"
    by (cases f) simp_all
  assume "f \<noteq> g"
  then show "fst (UsbConfiguration_field f) + snd (UsbConfiguration_field f) \<le> fst (UsbConfiguration_field g) \<or> fst (UsbConfiguration_field g) + snd (UsbConfiguration_field g) \<le> fst (UsbConfiguration_field f)"
    by (cases f; cases g; simp)
qed

interpretation rst: register_layout UsbReset_field "\<lambda>_. True"
proof
  fix f g :: UsbReset
  show "fst (UsbReset_field f) + snd (UsbReset_field f) \<le> 32"
    by (cases f) simp_all
  assume "f \<noteq> g"
  then show "fst (UsbReset_field f) + snd (UsbReset_field f) \<le> fst (UsbReset_field g) \<or> fst (UsbReset_field g) + snd (UsbReset_field g) \<le> fst (UsbReset_field f)"
    by (cases f; cases g; simp)
qed

interpretation intr: register_layout Interrupt_field "\<lambda>_. True"
proof
  fix f g :: Interrupt
  show "fst (Interrupt_field f) + snd (Interrupt_field f) \<le> 32"
    by (cases f) simp_all
  assume "f \<noteq> g"
  then show "fst (Interrupt_field f) + snd (Interrupt_field f) \<le> fst (Interrupt_field g) \<or> fst (Interrupt_field g) + snd (Interrupt_field g) \<le> fst (Interrupt_field f)"
    by (cases f; cases g; simp)
qed

interpretation gpo: register_layout Gpio_field "\<lambda>_. True"
proof
  fix f g :: Gpio
  show "fst (Gpio_field f) + snd (Gpio_field f) \<le> 32"
    by (cases f) simp_all
  assume "f \<noteq> g"
  then show "fst (Gpio_field f) + snd (Gpio_field f) \<le> fst (Gpio_field g) \<or> fst (Gpio_field g) + snd (Gpio_field g) \<le> fst (Gpio_field f)"
    by (cases f; cases g; simp)
qed

interpretation devcfg: register_layout DeviceConfig_field "\<lambda>_. True"
proof
  fix f g :: DeviceConfig
  show "fst (DeviceConfig_field f) + snd (DeviceConfig_field f) \<le> 32"
    by (cases f) simp_all
  assume "f \<noteq> g"
  then show "fst (DeviceConfig_field f) + snd (DeviceConfig_field f) \<le> fst (DeviceConfig_field g) \<or> fst (DeviceConfig_field g) + snd (DeviceConfig_field g) \<le> fst (DeviceConfig_field f)"
    by (cases f; cases g; simp)
qed

interpretation devctl: register_layout DeviceControl_field "\<lambda>_. True"
proof
  fix f g :: DeviceControl
  show "fst (DeviceControl_field f) + snd (DeviceControl_field f) \<le> 32"
    by (cases f) simp_all
  assume "f \<noteq> g"
  then show "fst (DeviceControl_field f) + snd (DeviceControl_field f) \<le> fst (DeviceControl_field g) \<or> fst (DeviceControl_field g) + snd (DeviceControl_field g) \<le> fst (DeviceControl_field f)"
    by (cases f; cases g; simp)
qed

interpretation inint: register_layout InEndpointInterruptMask_field "\<lambda>_. True"
proof
  fix f g :: InEndpointInterruptMask
  show "fst (InEndpointInterruptMask_field f) + snd (InEndpointInterruptMask_field f) \<le> 32"
    by (cases f) simp_all
  assume "f \<noteq> g"
  then show "fst (InEndpointInterruptMask_field f) + snd (InEndpointInterruptMask_field f) \<le> fst (InEndpointInterruptMask_field g) \<or> fst (InEndpointInterruptMask_field g) + snd (InEndpointInterruptMask_field g) \<le> fst (InEndpointInterruptMask_field f)"
    by (cases f; cases g; simp)
qed

interpretation outint: register_layout OutEndpointInterruptMask_field "\<lambda>_. True"
proof
  fix f g :: OutEndpointInterruptMask
  show "fst (OutEndpointInterruptMask_field f) + snd (OutEndpointInterruptMask_field f) \<le> 32"
    by (cases f) simp_all
  assume "f \<noteq> g"
  then show "fst (OutEndpointInterruptMask_field f) + snd (OutEndpointInterruptMask_field f) \<le> fst (OutEndpointInterruptMask_field g) \<or> fst (OutEndpointInterruptMask_field g) + snd (OutEndpointInterruptMask_field g) \<le> fst (OutEndpointInterruptMask_field f)"
    by (cases f; cases g; simp)
qed

interpretation epctl: register_layout EndpointControl_field "\<lambda>_. True"
proof
  fix f g :: EndpointControl
  show "fst (EndpointControl_field f) + snd (EndpointControl_field f) \<le> 32"
    by (cases f) simp_all
  assume "f \<noteq> g"
  then show "fst (EndpointControl_field f) + snd (EndpointControl_field f) \<le> fst (EndpointControl_field g) \<or> fst (EndpointControl_field g) + snd (EndpointControl_field g) \<le> fst (EndpointControl_field f)"
    by (cases f; cases g; simp)
qed

fun valid_endpoint :: "AllEndpointInterrupt \<Rightarrow> bool" where
  "valid_endpoint (IN_EP i) = (i < 16)"
| "valid_endpoint (OUT_EP i) = (i < 16)"

interpretation allep: register_layout AllEndpointInterrupt_field valid_endpoint
proof
  fix f g :: AllEndpointInterrupt
  show "valid_endpoint f \<Longrightarrow> fst (AllEndpointInterrupt_field f) + snd (AllEndpointInterrupt_field f) \<le> 32"
    by (cases f) simp_all
  assume "valid_endpoint f" "valid_endpoint g" "f \<noteq> g"
  then show "fst (AllEndpointInterrupt_field f) + snd (AllEndpointInterrupt_field f) \<le> fst (AllEndpointInterrupt_field g) \<or>
    fst (AllEndpointInterrupt_field g) + snd (AllEndpointInterrupt_field g) \<le> fst (AllEndpointInterrupt_field f)"
    by (cases f; cases g) auto
qed

end
