(* ===== verification/Usb_Device.thy ===== *)
theory Usb_Device
  imports Usb_Registers Pmu
begin

text \<open>
  The driver of the USB controller (\<^verbatim>\<open>usb/mod.rs\<close>): its state, the control transfers on endpoint 0, the frames of the
  U2F interface on endpoint 1, the interrupt handler and the initialization.
\<close>

section \<open>State\<close>

datatype USBState = WaitingForSetupPacket | DataStageIn | NoDataStage

text \<open>
  The cells of the driver. The receive buffers and the status bits of the descriptors are also written by the controller,
  between the calls of the driver. \<open>us_u2f_client\<close> says whether the client is set.
\<close>

record USB =
  us_regs :: USBRegisters
  us_state :: USBState
  ep0_out_descriptors :: "DMADescriptor list option"
  ep0_out_buffers :: "u32 list list option"
  ep0_in_descriptors :: "DMADescriptor list option"
  ep0_in_buffers :: "u32 list option"
  next_ep0_out_idx :: nat
  last_ep0_out_idx :: nat
  ep1_out_descriptor :: "DMADescriptor option"
  ep1_out_buffer :: "u32 list option"
  ep1_in_descriptor :: "DMADescriptor option"
  ep1_in_buffer :: "u32 list option"
  us_device_class :: byte
  us_vendor_id :: u16
  us_product_id :: u16
  configuration_descriptor :: "byte list option"
  configuration_total_length :: u16
  configuration_current_value :: byte
  us_strings :: "StringDescriptor list option"
  us_u2f_client :: bool

definition USB_new :: "USBRegisters \<Rightarrow> USB" where
  "USB_new r = \<lparr>us_regs = r, us_state = WaitingForSetupPacket, ep0_out_descriptors = None, ep0_out_buffers = None,
     ep0_in_descriptors = None, ep0_in_buffers = None, next_ep0_out_idx = 0, last_ep0_out_idx = 0, ep1_out_descriptor = None,
     ep1_out_buffer = None, ep1_in_descriptor = None, ep1_in_buffer = None, us_device_class = 0x00, us_vendor_id = 0x0011,
     us_product_id = 0x7788, configuration_descriptor = None, configuration_total_length = 0, configuration_current_value = 0,
     us_strings = None, us_u2f_client = False\<rparr>"

text \<open>Code that may panic, wait for the controller forever, or overrun a buffer.\<close>

type_synonym 'a usb = "(USB, MemoryError, 'a) peff"

section \<open>Accesses\<close>

definition on_usb_regs :: "(USBRegisters \<Rightarrow> USBRegisters) \<Rightarrow> USB \<Rightarrow> USB" where
  "on_usb_regs f u = u\<lparr>us_regs := f (us_regs u)\<rparr>"

definition on_in_ep :: "nat \<Rightarrow> (Endpoint \<Rightarrow> Endpoint) \<Rightarrow> USB \<Rightarrow> USB" where
  "on_in_ep i f = on_usb_regs (\<lambda>r. r\<lparr>ur_in_endpoints := (ur_in_endpoints r)(i := f (ur_in_endpoints r i))\<rparr>)"

definition on_out_ep :: "nat \<Rightarrow> (Endpoint \<Rightarrow> Endpoint) \<Rightarrow> USB \<Rightarrow> USB" where
  "on_out_ep i f = on_usb_regs (\<lambda>r. r\<lparr>ur_out_endpoints := (ur_out_endpoints r)(i := f (ur_out_endpoints r i))\<rparr>)"

definition write_control :: "(EndpointControl \<times> u32) list \<Rightarrow> Endpoint \<Rightarrow> Endpoint" where
  "write_control fs = ep_control_update (\<lambda>_. reg_write (map (\<lambda>(f, v). fval (EndpointControl_field f) v) fs))"

definition modify_control :: "(EndpointControl \<times> u32) list \<Rightarrow> Endpoint \<Rightarrow> Endpoint" where
  "modify_control fs = ep_control_update (reg_modify (map (\<lambda>(f, v). fval (EndpointControl_field f) v) fs))"

definition modify_all_ep_mask :: "(AllEndpointInterrupt \<times> u32) list \<Rightarrow> USB \<Rightarrow> USB" where
  "modify_all_ep_mask fs = on_usb_regs (ur_device_all_ep_interrupt_mask_update (reg_modify (map (\<lambda>(f, v). fval (AllEndpointInterrupt_field f) v) fs)))"

definition modify_device_control :: "(DeviceControl \<times> u32) list \<Rightarrow> USB \<Rightarrow> USB" where
  "modify_device_control fs = on_usb_regs (ur_device_control_update (reg_modify (map (\<lambda>(f, v). fval (DeviceControl_field f) v) fs)))"

text \<open>Interrupt registers clear the bits that are written to them.\<close>

definition clear_ep_interrupts :: "u32 \<Rightarrow> Endpoint \<Rightarrow> Endpoint" where
  "clear_ep_interrupts bits = ep_interrupt_update (\<lambda>w. w AND NOT bits)"

text \<open>The assignments to the flags of the descriptors of endpoint 0; the indices stay below the numbers of descriptors.\<close>

definition set_next_out_flags :: "u32 \<Rightarrow> USB \<Rightarrow> USB" where
  "set_next_out_flags f u =
     u\<lparr>ep0_out_descriptors := map_option (\<lambda>ds. ds[next_ep0_out_idx u := (ds ! next_ep0_out_idx u)\<lparr>desc_flags := f\<rparr>]) (ep0_out_descriptors u)\<rparr>"

definition set_in_flags :: "u32 \<Rightarrow> USB \<Rightarrow> USB" where
  "set_in_flags f u = u\<lparr>ep0_in_descriptors := map_option (\<lambda>ds. ds[0 := (ds ! 0)\<lparr>desc_flags := f\<rparr>]) (ep0_in_descriptors u)\<rparr>"

section \<open>Waiting for the controller\<close>

text \<open>The controller changes its registers between two reads of a loop; \<open>tick\<close> is one such step.\<close>

partial_function (option) wait_tx_flush :: "(USBRegisters \<Rightarrow> USBRegisters) \<Rightarrow> USBRegisters \<Rightarrow> USBRegisters option" where
  "wait_tx_flush tick r = (if reg_is_set (UsbReset_field Rst_TxFifoFlush) (ur_reset r) then wait_tx_flush tick (tick r) else Some r)"

definition flush_tx_fifo :: "(USBRegisters \<Rightarrow> USBRegisters) \<Rightarrow> byte \<Rightarrow> unit usb" where
  "flush_tx_fifo tick fifo_num u =
     (let n = (if fifo_num < 16 then ucast fifo_num else 16) :: u32
      in map_option (\<lambda>r. (Ok (), u\<lparr>us_regs := r\<rparr>))
        (wait_tx_flush tick ((us_regs u)\<lparr>ur_reset := reg_write [fval (UsbReset_field Rst_TxFifoFlush) 1, fval (UsbReset_field Rst_TxFifoNumber) n]\<rparr>)))"

definition flush_rx_fifo :: "(USBRegisters \<Rightarrow> USBRegisters) \<Rightarrow> unit usb" where
  "flush_rx_fifo tick u =
     map_option (\<lambda>r. (Ok (), u\<lparr>us_regs := r\<rparr>))
       (wait_tx_flush tick ((us_regs u)\<lparr>ur_reset := reg_write [fval (UsbReset_field Rst_TxFifoFlush) 1]\<rparr>))"

text \<open>A loop with a limit on its rounds: whether the condition ended it.\<close>

fun poll :: "(USBRegisters \<Rightarrow> USBRegisters) \<Rightarrow> UsbReset \<Rightarrow> nat \<Rightarrow> USBRegisters \<Rightarrow> bool \<times> USBRegisters" where
  "poll tick f timeout r =
     (if reg_is_set (UsbReset_field f) (ur_reset r)
      then (case timeout of 0 \<Rightarrow> (False, r) | Suc timeout \<Rightarrow> poll tick f timeout (tick r))
      else (True, r))"

declare poll.simps [simp del]

definition soft_reset :: "(USBRegisters \<Rightarrow> USBRegisters) \<Rightarrow> USB \<Rightarrow> USB" where
  "soft_reset tick u =
     (case poll tick Rst_PiuFsDedicatedControllerSoftReset 10000
             ((us_regs u)\<lparr>ur_reset := reg_write [fval (UsbReset_field Rst_PiuFsDedicatedControllerSoftReset) 1]\<rparr>) of
        (False, r) \<Rightarrow> u\<lparr>us_regs := r\<rparr>
      | (True, r) \<Rightarrow> u\<lparr>us_regs := snd (poll tick Rst_AhbMasterIdle 10000 r)\<rparr>)"

section \<open>Endpoint 0\<close>

definition init_ep0_descriptors :: "USB \<Rightarrow> USB" where
  "init_ep0_descriptors u =
     (let u = (case (ep0_out_descriptors u, ep0_out_buffers u) of
                 (Some ds, Some bufs) \<Rightarrow>
                   on_out_ep 0 (ep_dma_address_update (\<lambda>_. Ep0OutDescriptor 0))
                     (u\<lparr>ep0_out_descriptors := Some (map (\<lambda>i. if i < length bufs then \<lparr>desc_flags = Df_HOST_BUSY, desc_addr = Ep0OutBuffer i\<rparr> else ds ! i) [0..<length ds]),
                        next_ep0_out_idx := 0\<rparr>)
               | _ \<Rightarrow> u)
      in case (ep0_in_buffers u, ep0_in_descriptors u) of
           (Some buf, Some ds) \<Rightarrow>
             on_in_ep 0 (ep_dma_address_update (\<lambda>_. Ep0InDescriptor 0))
               (u\<lparr>ep0_in_descriptors := Some (map (\<lambda>i. \<lparr>desc_flags = Df_HOST_BUSY, desc_addr = Ep0InBuffer (i * 64)\<rparr>) [0..<length ds])\<rparr>)
         | _ \<Rightarrow> u)"

definition expect_setup_packet :: "USB \<Rightarrow> USB" where
  "expect_setup_packet u =
     on_out_ep 0 (write_control [(Ep_Enable, 1), (Ep_ClearNak, 1)])
       (modify_all_ep_mask [(OUT_EP 0, 1), (IN_EP 0, 0)]
         (set_next_out_flags (Df_bytes (Df_HOST_READY OR Df_LAST OR Df_IOC) 64)
           (u\<lparr>us_state := WaitingForSetupPacket\<rparr>)))"

definition usb_reset :: "USB \<Rightarrow> USB" where
  "usb_reset u =
     expect_setup_packet (init_ep0_descriptors
       (on_usb_regs (ur_device_config_update (reg_modify [fval (DeviceConfig_field Dcfg_DeviceAddress) 0]))
         (u\<lparr>us_state := WaitingForSetupPacket\<rparr>)))"

datatype TableCase = CaseA | CaseB | CaseC | CaseD | CaseE

definition decode_interrupt :: "u32 \<Rightarrow> TableCase" where
  "decode_interrupt device_out_int =
     (if reg_is_set (OutEndpointInterruptMask_field Out_TransferCompleted) device_out_int
      then (if reg_is_set (OutEndpointInterruptMask_field Out_SetupPhaseDone) device_out_int then CaseC
            else if reg_is_set (OutEndpointInterruptMask_field Out_StatusPhaseReceived) device_out_int then CaseE
            else CaseA)
      else (if reg_is_set (OutEndpointInterruptMask_field Out_SetupPhaseDone) device_out_int then CaseB else CaseD))"

definition swap_ep0_out_descriptors :: "USB \<Rightarrow> USB" where
  "swap_ep0_out_descriptors u =
     (case ep0_out_descriptors u of
        None \<Rightarrow> u
      | Some ds \<Rightarrow>
          (let noi = (next_ep0_out_idx u + 1) mod length ds
           in on_out_ep 0 (ep_dma_address_update (\<lambda>_. Ep0OutDescriptor noi))
                (u\<lparr>last_ep0_out_idx := next_ep0_out_idx u, next_ep0_out_idx := noi\<rparr>)))"

definition stall_both_fifos :: "(USBRegisters \<Rightarrow> USBRegisters) \<Rightarrow> unit usb" where
  "stall_both_fifos tick u =
     peff_bind (flush_tx_fifo tick 0) (\<lambda>_. returning (\<lambda>u. (Ok (), on_in_ep 0 (write_control [(Ep_Enable, 1), (Ep_Stall, 1)]) u)))
       (on_out_ep 0 (write_control [(Ep_Enable, 1), (Ep_Stall, 1)])
         (modify_all_ep_mask [(OUT_EP 0, 1), (IN_EP 0, 0)]
           (set_next_out_flags (Df_bytes (Df_LAST OR Df_IOC) 64) (u\<lparr>us_state := WaitingForSetupPacket\<rparr>))))"

definition handle_unexpected_packet :: "(USBRegisters \<Rightarrow> USBRegisters) \<Rightarrow> unit usb" where
  "handle_unexpected_packet tick = stall_both_fifos tick"

definition handle_bad_packet :: "(USBRegisters \<Rightarrow> USBRegisters) \<Rightarrow> unit usb" where
  "handle_bad_packet tick = stall_both_fifos tick"

text \<open>The steps that both replies share, behind the flush: the address, the two endpoints and the interrupt mask.\<close>

definition start_control_in :: "TableCase \<Rightarrow> USB \<Rightarrow> USB" where
  "start_control_in transfer_type u =
     (let control = (if transfer_type = CaseC then [(Ep_Enable, 1), (Ep_ClearNak, 1)] else [(Ep_Enable, 1)])
      in modify_all_ep_mask [(IN_EP 0, 1), (OUT_EP 0, 1)]
           (on_out_ep 0 (write_control control)
             (set_next_out_flags (Df_bytes (Df_HOST_READY OR Df_LAST OR Df_IOC) 64)
               (on_in_ep 0 (write_control control)
                 (on_in_ep 0 (ep_dma_address_update (\<lambda>_. Ep0InDescriptor 0)) u)))))"

definition expect_data_phase_in :: "(USBRegisters \<Rightarrow> USBRegisters) \<Rightarrow> TableCase \<Rightarrow> unit usb" where
  "expect_data_phase_in tick transfer_type u =
     (let u = u\<lparr>us_state := DataStageIn\<rparr>
      in if ep0_in_descriptors u = None then Some (Ok (), u)
         else peff_bind (flush_tx_fifo tick 0) (\<lambda>_. returning (\<lambda>u. (Ok (), start_control_in transfer_type u))) u)"

definition expect_status_phase_in :: "(USBRegisters \<Rightarrow> USBRegisters) \<Rightarrow> TableCase \<Rightarrow> unit usb" where
  "expect_status_phase_in tick transfer_type u =
     (let u = u\<lparr>us_state := NoDataStage\<rparr>
      in case ep0_in_descriptors u of
           None \<Rightarrow> Some (Ok (), u)
         | Some ds \<Rightarrow>
             (let ds = (if ep0_in_buffers u = None then ds else ds[0 := (ds ! 0)\<lparr>desc_addr := Ep0InBuffer 0\<rparr>]);
                  u = set_in_flags (Df_bytes (Df_HOST_READY OR Df_LAST OR Df_SHORT OR Df_IOC) 0) (u\<lparr>ep0_in_descriptors := Some ds\<rparr>)
              in peff_bind (flush_tx_fifo tick 0) (\<lambda>_. returning (\<lambda>u. (Ok (), start_control_in transfer_type u))) u))"

section \<open>Endpoint 1\<close>

definition ep1_tx_fifo_is_ready :: "USB \<Rightarrow> bool" where
  "ep1_tx_fifo_is_ready u =
     (case ep1_in_descriptor u of None \<Rightarrow> False
      | Some d \<Rightarrow> desc_flags d AND Df_STATUS_MASK = Df_DMA_DONE \<or> desc_flags d AND Df_STATUS_MASK = Df_HOST_BUSY)"

definition ep1_rx_fifo_is_ready :: "USB \<Rightarrow> bool" where
  "ep1_rx_fifo_is_ready u =
     (case ep1_out_descriptor u of None \<Rightarrow> False | Some d \<Rightarrow> desc_flags d AND Df_DMA_DONE = Df_DMA_DONE)"

definition ep1_flags :: u32 where
  "ep1_flags = Df_bytes (Df_LAST OR Df_HOST_READY OR Df_IOC) U2F_REPORT_SIZE"

definition ep1_enable_tx :: "USB \<Rightarrow> USB" where
  "ep1_enable_tx u =
     (case ep1_in_descriptor u of None \<Rightarrow> u
      | Some d \<Rightarrow> on_in_ep 1 (modify_control [(Ep_Enable, 1), (Ep_ClearNak, 1)]) (u\<lparr>ep1_in_descriptor := Some (d\<lparr>desc_flags := ep1_flags\<rparr>)\<rparr>))"

definition ep1_enable_rx :: "USB \<Rightarrow> ReturnCode \<times> USB" where
  "ep1_enable_rx u =
     (case ep1_out_descriptor u of None \<Rightarrow> (FAIL, u)
      | Some d \<Rightarrow>
          (SUCCESS, on_out_ep 1 (modify_control [(Ep_Enable, 1), (Ep_ClearNak, 1)]) (u\<lparr>ep1_out_descriptor := Some (d\<lparr>desc_flags := ep1_flags\<rparr>)\<rparr>)))"

definition set_u2f_client :: "USB \<Rightarrow> USB" where
  "set_u2f_client u = u\<lparr>us_u2f_client := True\<rparr>"

text \<open>The four steps of the preparation of endpoint 1: the descriptors with the addresses of their buffers, then the endpoints.\<close>

definition prepare_ep1_out :: "USB \<Rightarrow> USB" where
  "prepare_ep1_out u =
     (case (ep1_out_descriptor u, ep1_out_buffer u) of
        (Some d, Some b) \<Rightarrow>
          on_out_ep 1 (ep_dma_address_update (\<lambda>_. Ep1OutDescriptor))
            (u\<lparr>ep1_out_descriptor := Some (d\<lparr>desc_flags := ep1_flags, desc_addr := Ep1OutBuffer\<rparr>)\<rparr>)
      | _ \<Rightarrow> u)"

definition prepare_ep1_in :: "USB \<Rightarrow> USB" where
  "prepare_ep1_in u =
     (case (ep1_in_descriptor u, ep1_in_buffer u) of
        (Some d, Some b) \<Rightarrow>
          on_in_ep 1 (ep_dma_address_update (\<lambda>_. Ep1InDescriptor))
            (u\<lparr>ep1_in_descriptor := Some (d\<lparr>desc_flags := Df_LAST OR Df_HOST_BUSY OR Df_IOC, desc_addr := Ep1InBuffer\<rparr>)\<rparr>)
      | _ \<Rightarrow> u)"

definition activate_ep1_out :: "USB \<Rightarrow> USB" where
  "activate_ep1_out u =
     (case (ep1_out_descriptor u, ep1_out_buffer u) of
        (Some d, Some b) \<Rightarrow>
          on_out_ep 1 (write_control [(Ep_Enable, 1), (Ep_ClearNak, 1), (Ep_UsbActiveEndpoint, 1), (Ep_EndpointType, 3),
            (Ep_MaximumPacketSize, ucast U2F_REPORT_SIZE)]) u
      | _ \<Rightarrow> u)"

definition activate_ep1_in :: "USB \<Rightarrow> USB" where
  "activate_ep1_in u =
     (case (ep1_in_descriptor u, ep1_in_buffer u) of
        (Some d, Some b) \<Rightarrow>
          on_in_ep 1 (write_control [(Ep_UsbActiveEndpoint, 1), (Ep_TxFifoNumber, 1), (Ep_EndpointType, 3),
            (Ep_MaximumPacketSize, ucast U2F_REPORT_SIZE)]) u
      | _ \<Rightarrow> u)"

definition setup_u2f_descriptors :: "USB \<Rightarrow> USB" where
  "setup_u2f_descriptors u =
     modify_all_ep_mask [(OUT_EP 1, 1), (IN_EP 1, 1)] (activate_ep1_in (activate_ep1_out (prepare_ep1_in (prepare_ep1_out u))))"

definition force_reconnect :: "ReturnCode usb" where
  "force_reconnect u = Some (Panic, u)"

definition usb_enable_rx :: "USB \<Rightarrow> ReturnCode \<times> USB" where
  "usb_enable_rx u = (SUCCESS, snd (ep1_enable_rx u))"

definition iface_respond :: "USB \<Rightarrow> ReturnCode" where
  "iface_respond u = FAIL"

definition transmit_ready :: "USB \<Rightarrow> bool" where
  "transmit_ready u = ep1_tx_fifo_is_ready u"

definition put_frame :: "u32 list \<Rightarrow> USB \<Rightarrow> ReturnCode \<times> USB" where
  "put_frame frame u =
     (if \<not> ep1_tx_fifo_is_ready u then (EBUSY, u)
      else (SUCCESS, ep1_enable_tx (u\<lparr>ep1_in_buffer := map_option (\<lambda>b. frame @ drop (length frame) b) (ep1_in_buffer u)\<rparr>)))"

text \<open>The loop that puts bytes into words, from byte \<open>i\<close> on: the first byte of a word replaces it, the others are or-ed in.\<close>

fun put_bytes_words :: "nat \<Rightarrow> byte list \<Rightarrow> u32 list \<Rightarrow> u32 list" where
  "put_bytes_words i [] buf = buf"
| "put_bytes_words i (c # cs) buf =
     put_bytes_words (Suc i) cs
       (buf[i div 4 := if i mod 4 = 0 then ucast c else buf ! (i div 4) OR push_bit (8 * (i mod 4)) (ucast c)])"

definition put_slice :: "byte list \<Rightarrow> USB \<Rightarrow> ReturnCode \<times> USB" where
  "put_slice s u =
     (if 64 < length s then (ESIZE, u)
      else if \<not> ep1_tx_fifo_is_ready u then (EBUSY, u)
      else (SUCCESS, ep1_enable_tx (u\<lparr>ep1_in_buffer := map_option (put_bytes_words 0 s) (ep1_in_buffer u)\<rparr>)))"

definition get_frame :: "u32 list \<Rightarrow> USB \<Rightarrow> u32 list" where
  "get_frame frame u = (case ep1_out_buffer u of None \<Rightarrow> frame | Some b \<Rightarrow> take 16 b)"

definition get_slice :: "byte list \<Rightarrow> USB \<Rightarrow> ReturnCode \<times> byte list" where
  "get_slice s u =
     (if 64 < length s then (ESIZE, s)
      else (SUCCESS, case ep1_out_buffer u of None \<Rightarrow> s
        | Some b \<Rightarrow> map (\<lambda>i. ucast (drop_bit (8 * (i mod 4)) (b ! (i div 4)) AND 0xff)) [0..<length s]))"

section \<open>Descriptors of the device\<close>

definition generate_device_descriptor :: "USB \<Rightarrow> DeviceDescriptor" where
  "generate_device_descriptor u =
     \<lparr>dd_b_length = 18, dd_b_descriptor_type = 1, bcd_usb = 0x0200, b_device_class = us_device_class u, b_device_sub_class = 0x00,
      b_device_protocol = 0x00, b_max_packet_size0 = ucast MAX_PACKET_SIZE, id_vendor = us_vendor_id u, id_product = us_product_id u,
      bcd_device = 0x0100, i_manufacturer = STRING_VENDOR, i_product = STRING_BOARD, i_serial_number = STRING_LANG,
      b_num_configurations = 1\<rparr>"

text \<open>One step of the assembly: the next descriptor into its slice of the buffer, and the size.\<close>

definition put_descriptor :: "(byte list \<Rightarrow> (MemoryError, nat \<times> byte list) outcome) \<Rightarrow> nat \<Rightarrow> (nat \<times> byte list, MemoryError, unit) eff" where
  "put_descriptor into_u8_buf len = (\<lambda>(pos, desc).
     if length desc < pos + len then (Panic, (pos, desc))
     else case into_u8_buf (take len (drop pos desc)) of
            Ok (n, s) \<Rightarrow> (Ok (), (pos + n, take pos desc @ s @ drop (pos + len) desc))
          | Err e \<Rightarrow> (Err e, (pos, desc)) | Panic \<Rightarrow> (Panic, (pos, desc)))"

definition u2f_attributes :: EndpointAttributes where
  "u2f_attributes = \<lparr>ea_transfer = EtInterrupt, ea_synchronization = EsNone, ea_usage = EuData\<rparr>"

definition put_interfaces :: "(nat \<times> byte list, MemoryError, unit) eff" where
  "put_interfaces =
     eff_bind (put_descriptor (InterfaceDescriptor_into_u8_buf (InterfaceDescriptor_new STRING_INTERFACE2 0 3 0 0)) 9) (\<lambda>_.
     eff_bind (put_descriptor (HidDeviceDescriptor_into_u8_buf HidDeviceDescriptor_new) 9) (\<lambda>_.
     eff_bind (put_descriptor (EndpointDescriptor_into_u8_buf (EndpointDescriptor_new 0x01 u2f_attributes 2)) 7) (\<lambda>_.
     put_descriptor (EndpointDescriptor_into_u8_buf (EndpointDescriptor_new 0x81 u2f_attributes 2)) 7)))"

definition generate_full_configuration_descriptor :: "unit usb" where
  "generate_full_configuration_descriptor u =
     (case configuration_descriptor u of
        None \<Rightarrow> Some (Ok (), u)
      | Some desc \<Rightarrow>
          (case put_interfaces (unat CONFIGURATION_DESCRIPTOR_LENGTH, desc) of
             (Ok _, (n, desc)) \<Rightarrow>
               (case put_descriptor (ConfigurationDescriptor_into_u8_buf
                       (set_total_length (word_of_nat n) (ConfigurationDescriptor_new 1 STRING_PLATFORM 50))) 9 (0, desc) of
                  (Ok _, (_, desc)) \<Rightarrow> Some (Ok (), u\<lparr>configuration_descriptor := Some desc, configuration_total_length := word_of_nat n\<rparr>)
                | (Err e, _) \<Rightarrow> Some (Err e, u) | (Panic, _) \<Rightarrow> Some (Panic, u))
           | (Err e, _) \<Rightarrow> Some (Err e, u) | (Panic, _) \<Rightarrow> Some (Panic, u)))"

section \<open>Requests\<close>

text \<open>The reply of \<open>len\<close> bytes from the start of the buffer.\<close>

definition reply_in :: "(USBRegisters \<Rightarrow> USBRegisters) \<Rightarrow> TableCase \<Rightarrow> nat \<Rightarrow> unit usb" where
  "reply_in tick transfer_type len u =
     expect_data_phase_in tick transfer_type
       (set_in_flags (Df_bytes (Df_HOST_READY OR Df_LAST OR Df_SHORT OR Df_IOC) (word_of_nat len)) u)"

definition serialize_in :: "(nat \<Rightarrow> byte) \<Rightarrow> byte list \<Rightarrow> nat usb" where
  "serialize_in after obj u =
     (case ep0_in_buffers u of
        None \<Rightarrow> Some (Ok 0, u)
      | Some buf \<Rightarrow>
          (case serialize after obj buf of
             Ok (n, buf) \<Rightarrow> Some (Ok n, u\<lparr>ep0_in_buffers := Some buf\<rparr>) | Err e \<Rightarrow> Some (Err e, u) | Panic \<Rightarrow> Some (Panic, u)))"

definition get_device_descriptor :: "(USBRegisters \<Rightarrow> USBRegisters) \<Rightarrow> (nat \<Rightarrow> byte) \<Rightarrow> TableCase \<Rightarrow> SetupRequest \<Rightarrow> unit usb" where
  "get_device_descriptor tick after transfer_type req u =
     peff_bind (serialize_in after (DeviceDescriptor_bytes (generate_device_descriptor u)))
       (\<lambda>n. reply_in tick transfer_type (min n (unat (w_length req)))) u"

definition get_configuration_descriptor :: "(USBRegisters \<Rightarrow> USBRegisters) \<Rightarrow> TableCase \<Rightarrow> SetupRequest \<Rightarrow> unit usb" where
  "get_configuration_descriptor tick transfer_type req u =
     (case (ep0_in_buffers u, configuration_descriptor u) of
        (Some buf, Some desc) \<Rightarrow>
          reply_in tick transfer_type (unat (min (configuration_total_length u) (w_length req)))
            (u\<lparr>ep0_in_buffers := Some (map (le_word desc) [0..<16] @ drop 16 buf)\<rparr>)
      | _ \<Rightarrow> reply_in tick transfer_type 0 u)"

definition get_interface_descriptor :: "(USBRegisters \<Rightarrow> USBRegisters) \<Rightarrow> TableCase \<Rightarrow> SetupRequest \<Rightarrow> unit usb" where
  "get_interface_descriptor tick transfer_type req u =
     (case ep0_in_buffers u of
        Some buf \<Rightarrow>
          (case InterfaceDescriptor_into_u32_buf (InterfaceDescriptor_new STRING_INTERFACE2 0 0x03 0 0) buf of
             (n, buf) \<Rightarrow> reply_in tick transfer_type (min n (unat (w_length req))) (u\<lparr>ep0_in_buffers := Some buf\<rparr>))
      | None \<Rightarrow> reply_in tick transfer_type 0 u)"

definition get_string_descriptor :: "(USBRegisters \<Rightarrow> USBRegisters) \<Rightarrow> TableCase \<Rightarrow> SetupRequest \<Rightarrow> unit usb" where
  "get_string_descriptor tick transfer_type req u =
     (case us_strings u of
        None \<Rightarrow> Some (Ok (), u)
      | Some strs \<Rightarrow>
          (let index = unat (w_value req AND 0xff)
           in if length strs \<le> index then Some (Panic, u)
              else case ep0_in_buffers u of
                     None \<Rightarrow> reply_in tick transfer_type 0 u
                   | Some buf \<Rightarrow>
                       (case StringDescriptor_into_u32_buf (strs ! index) buf of
                          Ok (n, buf) \<Rightarrow> reply_in tick transfer_type (min n (unat (w_length req))) (u\<lparr>ep0_in_buffers := Some buf\<rparr>)
                        | Err e \<Rightarrow> Some (Err e, u) | Panic \<Rightarrow> Some (Panic, u))))"

definition get_descriptor :: "(USBRegisters \<Rightarrow> USBRegisters) \<Rightarrow> (nat \<Rightarrow> byte) \<Rightarrow> TableCase \<Rightarrow> SetupRequest \<Rightarrow> unit usb" where
  "get_descriptor tick after transfer_type req =
     (let descriptor_type = ucast (drop_bit 8 (w_value req)) :: u32
      in if descriptor_type = GET_DESCRIPTOR_DEVICE then get_device_descriptor tick after transfer_type req
         else if descriptor_type = GET_DESCRIPTOR_CONFIGURATION then get_configuration_descriptor tick transfer_type req
         else if descriptor_type = GET_DESCRIPTOR_INTERFACE then get_interface_descriptor tick transfer_type req
         else if descriptor_type = GET_DESCRIPTOR_DEVICE_QUALIFIER then stall_both_fifos tick
         else if descriptor_type = GET_DESCRIPTOR_STRING then get_string_descriptor tick transfer_type req
         else handle_unexpected_packet tick)"

definition handle_standard_device_to_host :: "(USBRegisters \<Rightarrow> USBRegisters) \<Rightarrow> (nat \<Rightarrow> byte) \<Rightarrow> TableCase \<Rightarrow> SetupRequest \<Rightarrow> unit usb" where
  "handle_standard_device_to_host tick after transfer_type req u =
     (case request req of
        GetDescriptor \<Rightarrow> get_descriptor tick after transfer_type req u
      | GetConfiguration \<Rightarrow>
          peff_bind (serialize_in after [configuration_current_value u])
            (\<lambda>n. reply_in tick transfer_type (min n (unat (w_length req)))) u
      | GetStatus \<Rightarrow>
          expect_status_phase_in tick transfer_type
            (set_in_flags (Df_bytes (Df_HOST_READY OR Df_LAST OR Df_SHORT OR Df_IOC) 2)
              (u\<lparr>ep0_in_buffers := map_option (\<lambda>buf. buf[0 := 0]) (ep0_in_buffers u)\<rparr>))
      | _ \<Rightarrow> handle_unexpected_packet tick u)"

definition handle_standard_host_to_device :: "TableCase \<Rightarrow> SetupRequest \<Rightarrow> unit usb" where
  "handle_standard_host_to_device transfer_type req u = Some (Panic, u)"

definition handle_standard_no_data_phase :: "(USBRegisters \<Rightarrow> USBRegisters) \<Rightarrow> TableCase \<Rightarrow> SetupRequest \<Rightarrow> unit usb" where
  "handle_standard_no_data_phase tick transfer_type req u =
     (case request req of
        GetStatus \<Rightarrow> handle_unexpected_packet tick u
      | SetAddress \<Rightarrow>
          expect_status_phase_in tick transfer_type
            (setup_u2f_descriptors
              (on_usb_regs (ur_device_config_update (reg_modify [fval (DeviceConfig_field Dcfg_DeviceAddress) (ucast (w_value req AND 0x7f))])) u))
      | SetConfiguration \<Rightarrow> expect_status_phase_in tick transfer_type (u\<lparr>configuration_current_value := ucast (w_value req)\<rparr>)
      | _ \<Rightarrow> handle_unexpected_packet tick u)"

text \<open>The report descriptor: a request of another length is refused, and then answered nevertheless.\<close>

definition get_report_descriptor :: "(USBRegisters \<Rightarrow> USBRegisters) \<Rightarrow> TableCase \<Rightarrow> SetupRequest \<Rightarrow> unit usb" where
  "get_report_descriptor tick transfer_type req =
     (let len = unat (w_length req)
      in peff_bind (if length U2F_REPORT_DESCRIPTOR \<noteq> len then handle_bad_packet tick else returning (ret ())) (\<lambda>_ u.
           case ep0_in_buffers u of
             None \<Rightarrow> Some (Ok (), u)
           | Some buf \<Rightarrow>
               if length U2F_REPORT_DESCRIPTOR < len then Some (Panic, u)
               else reply_in tick transfer_type len (u\<lparr>ep0_in_buffers := Some (put_bytes_words 0 (take len U2F_REPORT_DESCRIPTOR) buf)\<rparr>)))"

definition handle_standard_interface_to_host :: "(USBRegisters \<Rightarrow> USBRegisters) \<Rightarrow> TableCase \<Rightarrow> SetupRequest \<Rightarrow> unit usb" where
  "handle_standard_interface_to_host tick transfer_type req =
     (case request req of
        GetDescriptor \<Rightarrow>
          (case Descriptor_from_u8 (ucast (drop_bit 8 (w_value req))) of
             DescReport \<Rightarrow> get_report_descriptor tick transfer_type req
           | _ \<Rightarrow> handle_unexpected_packet tick)
      | _ \<Rightarrow> handle_unexpected_packet tick)"

definition handle_standard_host_to_interface :: "(USBRegisters \<Rightarrow> USBRegisters) \<Rightarrow> TableCase \<Rightarrow> SetupRequest \<Rightarrow> unit usb" where
  "handle_standard_host_to_interface tick transfer_type req = handle_unexpected_packet tick"

definition handle_class_interface_to_host :: "(USBRegisters \<Rightarrow> USBRegisters) \<Rightarrow> TableCase \<Rightarrow> SetupRequest \<Rightarrow> unit usb" where
  "handle_class_interface_to_host tick transfer_type req = handle_unexpected_packet tick"

definition handle_class_host_to_interface :: "(USBRegisters \<Rightarrow> USBRegisters) \<Rightarrow> TableCase \<Rightarrow> SetupRequest \<Rightarrow> unit usb" where
  "handle_class_host_to_interface tick transfer_type req =
     (case class_request req of SetIdle \<Rightarrow> stall_both_fifos tick | _ \<Rightarrow> handle_unexpected_packet tick)"

definition handle_request :: "(USBRegisters \<Rightarrow> USBRegisters) \<Rightarrow> (nat \<Rightarrow> byte) \<Rightarrow> TableCase \<Rightarrow> SetupRequest \<Rightarrow> unit usb" where
  "handle_request tick after transfer_type req =
     (if req_type req = ClassStandard then
        (if recipient req = ToDevice then
           (if data_direction req = DeviceToHost then handle_standard_device_to_host tick after transfer_type req
            else if 0 < w_length req then handle_standard_host_to_device transfer_type req
            else handle_standard_no_data_phase tick transfer_type req)
         else if recipient req = ToInterface then
           (if data_direction req = DeviceToHost then handle_standard_interface_to_host tick transfer_type req
            else handle_standard_host_to_interface tick transfer_type req)
         else returning (ret ()))
      else if req_type req = ClassClass \<and> recipient req = ToInterface then
        (if data_direction req = DeviceToHost then handle_class_interface_to_host tick transfer_type req
         else handle_class_host_to_interface tick transfer_type req)
      else returning (ret ()))"

definition handle_setup :: "(USBRegisters \<Rightarrow> USBRegisters) \<Rightarrow> (nat \<Rightarrow> byte) \<Rightarrow> TableCase \<Rightarrow> unit usb" where
  "handle_setup tick after transfer_type u =
     (case ep0_out_buffers u of
        None \<Rightarrow> Some (Ok (), u)
      | Some bufs \<Rightarrow> handle_request tick after transfer_type (SetupRequest_new (bufs ! last_ep0_out_idx u)) u)"

section \<open>Interrupts\<close>

text \<open>The reaction to an IN token in a data or status stage, and to the end of an IN transfer.\<close>

definition in_detected :: "USB \<Rightarrow> USB" where
  "in_detected u = on_out_ep 0 (write_control [(Ep_Enable, 1), (Ep_ClearNak, 1)]) (on_in_ep 0 (write_control [(Ep_Enable, 1), (Ep_ClearNak, 1)]) u)"

definition in_completed :: "bool \<Rightarrow> u32 \<Rightarrow> USB \<Rightarrow> USB" where
  "in_completed in_interrupt ints u =
     (if in_interrupt \<and> reg_is_set (InEndpointInterruptMask_field In_TransferCompleted) ints
      then on_in_ep 0 (write_control [(Ep_Enable, 1)]) u else u)"

definition setup_or_wait :: "(USBRegisters \<Rightarrow> USBRegisters) \<Rightarrow> (nat \<Rightarrow> byte) \<Rightarrow> TableCase \<Rightarrow> bool \<Rightarrow> unit usb" where
  "setup_or_wait tick after transfer_type setup_ready u =
     (if setup_ready then handle_setup tick after transfer_type u else Some (Ok (), expect_setup_packet u))"

text \<open>The three states of the driver, behind the bookkeeping of the interrupt.\<close>

definition control_event :: "(USBRegisters \<Rightarrow> USBRegisters) \<Rightarrow> (nat \<Rightarrow> byte) \<Rightarrow> bool \<Rightarrow> bool \<Rightarrow> u32 \<Rightarrow> TableCase \<Rightarrow> bool \<Rightarrow> unit usb" where
  "control_event tick after out_interrupt in_interrupt in_ints transfer_type setup_ready u =
     (case us_state u of
        WaitingForSetupPacket \<Rightarrow>
          (if transfer_type = CaseA \<or> transfer_type = CaseC then
             (if setup_ready then handle_setup tick after transfer_type u else handle_unexpected_packet tick u)
           else if transfer_type = CaseB then stall_both_fifos tick u
           else Some (Ok (), u))
      | DataStageIn \<Rightarrow>
          (let u = in_completed in_interrupt in_ints u
           in if out_interrupt then
                (if transfer_type = CaseB then Some (Ok (), in_detected u)
                 else if transfer_type = CaseA \<or> transfer_type = CaseC then setup_or_wait tick after transfer_type setup_ready u
                 else Some (Ok (), u))
              else Some (Ok (), u))
      | NoDataStage \<Rightarrow>
          (let u = in_completed in_interrupt in_ints u
           in if out_interrupt then
                (if transfer_type = CaseB then Some (Ok (), in_detected u)
                 else if transfer_type = CaseA \<or> transfer_type = CaseC then setup_or_wait tick after transfer_type setup_ready u
                 else Some (Ok (), expect_setup_packet u))
              else Some (Ok (), u)))"

definition handle_endpoint0_events :: "(USBRegisters \<Rightarrow> USBRegisters) \<Rightarrow> (nat \<Rightarrow> byte) \<Rightarrow> bool \<Rightarrow> bool \<Rightarrow> unit usb" where
  "handle_endpoint0_events tick after out_interrupt in_interrupt u =
     (let out_ints = ep_interrupt (ur_out_endpoints (us_regs u) 0);
          in_ints = ep_interrupt (ur_in_endpoints (us_regs u) 0);
          u = (if out_interrupt then on_out_ep 0 (clear_ep_interrupts out_ints) u else u);
          u = (if in_interrupt then on_in_ep 0 (clear_ep_interrupts in_ints) u else u);
          u = (if out_interrupt \<and> reg_is_set (OutEndpointInterruptMask_field Out_TransferCompleted) out_ints
               then swap_ep0_out_descriptors u else u);
          transfer_type = decode_interrupt out_ints
      in case ep0_out_descriptors u of
           None \<Rightarrow> Some (Panic, u)
         | Some descs \<Rightarrow>
             (let setup_ready = (desc_flags (descs ! last_ep0_out_idx u) AND Df_SETUP_READY = Df_SETUP_READY)
              in control_event tick after out_interrupt in_interrupt in_ints transfer_type setup_ready u))"

text \<open>The client of the U2F interface, with a state of its own; its calls may use the driver.\<close>

record 'c UsbHidU2fClient =
  cl_reconnected :: "USB \<times> 'c \<Rightarrow> USB \<times> 'c"
  cl_frame_received :: "USB \<times> 'c \<Rightarrow> USB \<times> 'c"
  cl_frame_transmitted :: "USB \<times> 'c \<Rightarrow> USB \<times> 'c"

definition handle_endpoint1_events :: "'c UsbHidU2fClient \<Rightarrow> bool \<Rightarrow> bool \<Rightarrow> USB \<times> 'c \<Rightarrow> USB \<times> 'c" where
  "handle_endpoint1_events client out_interrupt in_interrupt s =
     (let s = (if in_interrupt
               then (let ints = ep_interrupt (ur_in_endpoints (us_regs (fst s)) 1); s = apfst (on_in_ep 1 (clear_ep_interrupts ints)) s
                     in if reg_is_set (InEndpointInterruptMask_field In_TransferCompleted) ints \<and> us_u2f_client (fst s)
                        then cl_frame_transmitted client s else s)
               else s)
      in if out_interrupt
         then (let ints = ep_interrupt (ur_out_endpoints (us_regs (fst s)) 1); s = apfst (on_out_ep 1 (clear_ep_interrupts ints)) s
               in if reg_is_set (OutEndpointInterruptMask_field Out_TransferCompleted) ints \<and> us_u2f_client (fst s)
                  then cl_frame_received client s else s)
         else s)"

text \<open>An operation of the driver beside the state of the client.\<close>

definition beside :: "'a usb \<Rightarrow> (USB \<times> 'c, MemoryError, 'a) peff" where
  "beside m s = map_option (\<lambda>(r, u). (r, (u, snd s))) (m (fst s))"

definition handle_endpoints :: "(USBRegisters \<Rightarrow> USBRegisters) \<Rightarrow> (nat \<Rightarrow> byte) \<Rightarrow> 'c UsbHidU2fClient \<Rightarrow> (USB \<times> 'c, MemoryError, unit) peff" where
  "handle_endpoints tick after client s =
     (let pending = ur_device_all_ep_interrupt (us_regs (fst s));
          ep0_out = reg_is_set (AllEndpointInterrupt_field (OUT_EP 0)) pending;
          ep0_in = reg_is_set (AllEndpointInterrupt_field (IN_EP 0)) pending;
          ep1_out = reg_is_set (AllEndpointInterrupt_field (OUT_EP 1)) pending;
          ep1_in = reg_is_set (AllEndpointInterrupt_field (IN_EP 1)) pending
      in if ep0_out \<or> ep0_in then beside (handle_endpoint0_events tick after ep0_out ep0_in) s
         else if ep1_out \<or> ep1_in then Some (Ok (), handle_endpoint1_events client ep1_out ep1_in s)
         else Some (Ok (), s))"

definition handle_interrupt :: "(USBRegisters \<Rightarrow> USBRegisters) \<Rightarrow> (nat \<Rightarrow> byte) \<Rightarrow> 'c UsbHidU2fClient \<Rightarrow> (USB \<times> 'c, MemoryError, unit) peff" where
  "handle_interrupt tick after client s =
     (let status = ur_interrupt_status (us_regs (fst s));
          imask = ur_interrupt_mask (us_regs (fst s));
          s = (if reg_is_set (Interrupt_field Int_StartOfFrame) imask \<and> reg_is_set (Interrupt_field Int_StartOfFrame) status
               then apfst (on_usb_regs (ur_interrupt_mask_update (reg_modify [fval (Interrupt_field Int_StartOfFrame) 0]))) s else s);
          s = (if reg_is_set (Interrupt_field Int_Reset) status \<or> reg_is_set (Interrupt_field Int_ResetDetected) status
               then apfst usb_reset s else s)
      in peff_bind
           (if reg_is_set (Interrupt_field Int_InEndpoints) status \<or> reg_is_set (Interrupt_field Int_OutEndpoints) status
            then handle_endpoints tick after client else returning (ret ()))
           (\<lambda>_. returning (\<lambda>s.
              let s = (if reg_is_set (Interrupt_field Int_GlobalOutNak) status
                       then apfst (modify_device_control [(Dctl_ClearGlobalOutNak, 1)]) s else s);
                  s = (if reg_is_set (Interrupt_field Int_GlobalInNak) status
                       then apfst (modify_device_control [(Dctl_ClearGlobalNonPeriodicInNak, 1)]) s else s)
              in (Ok (), apfst (on_usb_regs (ur_interrupt_status_update (\<lambda>w. w AND NOT status))) s))) s)"

section \<open>Initialization\<close>

definition setup_data_fifos :: "(USBRegisters \<Rightarrow> USBRegisters) \<Rightarrow> unit usb" where
  "setup_data_fifos tick u =
     peff_bind (flush_tx_fifo tick 0x10) (\<lambda>_. flush_rx_fifo tick)
       (on_usb_regs (\<lambda>r. r\<lparr>ur_receive_fifo_size := ucast RX_FIFO_SIZE AND 0xffff,
          ur_transmit_fifo_size := push_bit 16 (ucast TX_FIFO_SIZE) OR (ucast RX_FIFO_SIZE AND 0xffff),
          ur_device_in_ep_tx_fifo_size :=
            map (\<lambda>i. push_bit 16 (ucast TX_FIFO_SIZE) OR ucast (RX_FIFO_SIZE + word_of_nat i * TX_FIFO_SIZE)) [0..<15]\<rparr>) u)"

datatype PHY = PHY_A | PHY_B

text \<open>The buffers and descriptors that the board gives to the driver.\<close>

record UsbMemory =
  um_ep0_out_descriptors :: "DMADescriptor list"
  um_ep0_out_buffers :: "u32 list list"
  um_ep0_in_descriptors :: "DMADescriptor list"
  um_ep0_in_buffers :: "u32 list"
  um_ep1_out_descriptor :: DMADescriptor
  um_ep1_out_buffer :: "u32 list"
  um_ep1_in_descriptor :: DMADescriptor
  um_ep1_in_buffer :: "u32 list"
  um_configuration_buffer :: "byte list"

definition STATIC_USB_MEMORY :: UsbMemory where
  "STATIC_USB_MEMORY =
     \<lparr>um_ep0_out_descriptors = replicate 2 \<lparr>desc_flags = Df_HOST_BUSY, desc_addr = NoBuffer\<rparr>,
      um_ep0_out_buffers = replicate 2 (replicate 16 0),
      um_ep0_in_descriptors = replicate 4 \<lparr>desc_flags = Df_HOST_BUSY, desc_addr = NoBuffer\<rparr>,
      um_ep0_in_buffers = replicate (16 * 4) 0,
      um_ep1_out_descriptor = \<lparr>desc_flags = Df_HOST_BUSY, desc_addr = NoBuffer\<rparr>,
      um_ep1_out_buffer = replicate 16 0,
      um_ep1_in_descriptor = \<lparr>desc_flags = Df_HOST_BUSY, desc_addr = NoBuffer\<rparr>,
      um_ep1_in_buffer = replicate 16 0,
      um_configuration_buffer = replicate 64 0\<rparr>"

definition install_memory :: "UsbMemory \<Rightarrow> byte option \<Rightarrow> u16 option \<Rightarrow> u16 option \<Rightarrow> StringDescriptor list \<Rightarrow> USB \<Rightarrow> USB" where
  "install_memory m device_class vendor_id product_id strings u =
     u\<lparr>ep0_out_descriptors := Some (um_ep0_out_descriptors m), ep0_out_buffers := Some (um_ep0_out_buffers m),
       ep0_in_descriptors := Some (um_ep0_in_descriptors m), ep0_in_buffers := Some (um_ep0_in_buffers m),
       ep1_out_descriptor := Some (um_ep1_out_descriptor m), ep1_out_buffer := Some (um_ep1_out_buffer m),
       ep1_in_descriptor := Some (um_ep1_in_descriptor m), ep1_in_buffer := Some (um_ep1_in_buffer m),
       configuration_descriptor := Some (um_configuration_buffer m), us_strings := Some strings,
       us_device_class := (case device_class of Some c \<Rightarrow> c | None \<Rightarrow> us_device_class u),
       us_vendor_id := (case vendor_id of Some v \<Rightarrow> v | None \<Rightarrow> us_vendor_id u),
       us_product_id := (case product_id of Some p \<Rightarrow> p | None \<Rightarrow> us_product_id u)\<rparr>"

definition usb_configuration_word :: u32 where
  "usb_configuration_word = reg_write [fval (UsbConfiguration_field Uc_PhySelect) 1, fval (UsbConfiguration_field Uc_FullSpeedSerialInterfaceSelect) 0,
     fval (UsbConfiguration_field Uc_UsbTurnaroundTime) 14, fval (UsbConfiguration_field Uc_TimeoutCalibration) 7]"

text \<open>From the masking of all interrupts up to the FIFOs.\<close>

definition core_initialization :: "(USBRegisters \<Rightarrow> USBRegisters) \<Rightarrow> PHY \<Rightarrow> USB \<Rightarrow> USB" where
  "core_initialization tick phy u =
     (let sel_phy = (case phy of PHY_A \<Rightarrow> 4 | PHY_B \<Rightarrow> 5) :: u32;
          u = on_usb_regs (\<lambda>r. r\<lparr>ur_interrupt_mask := 0, ur_device_all_ep_interrupt_mask := 0, ur_device_in_ep_interrupt_mask := 0,
                ur_device_out_ep_interrupt_mask := 0,
                ur_gpio := reg_write [fval (Gpio_field Gpio_GpoOperation) 1, fval (Gpio_field Gpio_GpoRegister) 0, fval (Gpio_field Gpio_GpoValue) sel_phy],
                ur_configuration := usb_configuration_word\<rparr>) u;
          u = soft_reset tick u;
          u = on_usb_regs (\<lambda>r. r\<lparr>ur_configuration := usb_configuration_word,
                ur_ahb_config := reg_write [fval (AhbConfig_field Ahb_GlobalInterruptMask) 1, fval (AhbConfig_field Ahb_DmaEnable) 1,
                  fval (AhbConfig_field Ahb_NonPeriodicTxFifoEmptyLevel) 1]\<rparr>) u;
          u = modify_device_control [(Dctl_SoftDisconnect, 1)] u
      in on_usb_regs (ur_device_config_update (reg_modify [fval (DeviceConfig_field Dcfg_DeviceSpeed) 3,
           fval (DeviceConfig_field Dcfg_EnableScatterGatherDMAInDeviceMode) 1])) u)"

definition unmask_and_connect :: "USB \<Rightarrow> USB" where
  "unmask_and_connect u =
     (let u = on_usb_regs (\<lambda>r. r\<lparr>
                ur_out_endpoints := (\<lambda>i. if i < 16 then clear_ep_interrupts (NOT 0) (ur_out_endpoints r i) else ur_out_endpoints r i),
                ur_in_endpoints := (\<lambda>i. if i < 16 then clear_ep_interrupts (NOT 0) (ur_in_endpoints r i) else ur_in_endpoints r i),
                ur_interrupt_status := ur_interrupt_status r AND NOT (NOT 0),
                ur_device_out_ep_interrupt_mask := reg_write (map (\<lambda>f. fval (OutEndpointInterruptMask_field f) 1)
                  [Out_TransferCompleted, Out_EndpointDisabled, Out_SetupPhaseDone]),
                ur_device_in_ep_interrupt_mask := reg_write (map (\<lambda>f. fval (InEndpointInterruptMask_field f) 1)
                  [In_TransferCompleted, In_EndpointDisabled]),
                ur_interrupt_mask := reg_write (map (\<lambda>f. fval (Interrupt_field f) 1)
                  [Int_GlobalOutNak, Int_GlobalInNak, Int_Reset, Int_EnumerationDone, Int_InEndpoints, Int_OutEndpoints, Int_EarlySuspend,
                   Int_Suspend, Int_StartOfFrame])\<rparr>) u;
          u = modify_device_control [(Dctl_PowerOnProgrammingDone, 1)] u;
          u = modify_device_control [(Dctl_PowerOnProgrammingDone, 0)] u;
          u = modify_device_control [(Dctl_ClearGlobalOutNak, 1), (Dctl_ClearGlobalNonPeriodicInNak, 1)] u
      in modify_device_control [(Dctl_SoftDisconnect, 0)] u)"

definition usb_init :: "(USBRegisters \<Rightarrow> USBRegisters) \<Rightarrow> UsbMemory \<Rightarrow> PHY \<Rightarrow> byte option \<Rightarrow> u16 option \<Rightarrow> u16 option \<Rightarrow> StringDescriptor list
    \<Rightarrow> (USB \<times> PMURegisters, MemoryError, unit) peff" where
  "usb_init tick m phy device_class vendor_id product_id strings s =
     peff_bind (beside generate_full_configuration_descriptor) (\<lambda>_ s.
       peff_bind (beside (setup_data_fifos tick)) (\<lambda>_. returning (\<lambda>s. (Ok (), apfst unmask_and_connect s)))
         (core_initialization tick phy (fst s), Clock_enable (Bank1 Clk_Usb0TimerHs) (Clock_enable (Bank1 Clk_Usb0) (snd s))))
       (apfst (install_memory m device_class vendor_id product_id strings) s)"

end
