(* ===== verification/Usb_Control.thy ===== *)
theory Usb_Control
  imports Usb_Device
begin

text \<open>
  What the USB driver does with the control transfers of the host: the replies to the standard requests, the requests it
  ignores and those it panics on, that it always prepares for the next packet, and the configuration it announces.
\<close>

section \<open>Words of the registers\<close>

lemmas reg_field_simps = reg_write_def reg_modify_def join_fields_def fval_def field_mask_def reg_is_set_def

lemma control_words [simp]:
  "write_control [(Ep_Enable, 1), (Ep_ClearNak, 1)] e = e\<lparr>ep_control := 0x84000000\<rparr>"
  "write_control [(Ep_Enable, 1), (Ep_Stall, 1)] e = e\<lparr>ep_control := 0x80200000\<rparr>"
  "write_control [(Ep_Enable, 1)] e = e\<lparr>ep_control := 0x80000000\<rparr>"
  by (simp_all add: write_control_def reg_field_simps)

lemma ep_mask_words [simp]:
  "modify_all_ep_mask [(OUT_EP 0, 1), (IN_EP 0, 0)] u = on_usb_regs (ur_device_all_ep_interrupt_mask_update (\<lambda>m. m AND NOT 0x10001 OR 0x10000)) u"
  "modify_all_ep_mask [(IN_EP 0, 1), (OUT_EP 0, 1)] u = on_usb_regs (ur_device_all_ep_interrupt_mask_update (\<lambda>m. m AND NOT 0x10001 OR 0x10001)) u"
  "modify_all_ep_mask [(OUT_EP 1, 1), (IN_EP 1, 1)] u = on_usb_regs (ur_device_all_ep_interrupt_mask_update (\<lambda>m. m AND NOT 0x20002 OR 0x20002)) u"
  by (simp_all add: modify_all_ep_mask_def reg_field_simps on_usb_regs_def)

lemmas flag_defs = Df_LAST_def Df_SHORT_def Df_IOC_def Df_SETUP_READY_def Df_STATUS_MASK_def Df_HOST_READY_def Df_DMA_BUSY_def
  Df_DMA_DONE_def Df_HOST_BUSY_def Df_bytes_def

text \<open>An OUT descriptor that is ready for a packet: host ready, last, interrupt on completion, 64 bytes.\<close>

definition ARMED :: u32 where
  "ARMED = 0x0A000040"

lemma armed_words [simp]:
  "Df_bytes (Df_HOST_READY OR Df_LAST OR Df_IOC) 64 = ARMED"
  "Df_bytes (Df_LAST OR Df_IOC) 64 = ARMED"
  by (simp_all add: flag_defs ARMED_def)

lemmas usb_ops = on_usb_regs_def on_in_ep_def on_out_ep_def set_next_out_flags_def set_in_flags_def

section \<open>Flushing a FIFO\<close>

text \<open>
  What the loops rely on: while the driver waits, the controller changes nothing but the reset register, and clears the flush
  bit of it after some time.
\<close>

definition flushes :: "(USBRegisters \<Rightarrow> USBRegisters) \<Rightarrow> bool" where
  "flushes tick \<longleftrightarrow> (\<forall>r. \<exists>w. tick r = r\<lparr>ur_reset := w\<rparr>) \<and>
     (\<forall>r. \<exists>n. \<not> reg_is_set (UsbReset_field Rst_TxFifoFlush) (ur_reset ((tick ^^ n) r)))"

lemma wait_tx_flush_ends:
  assumes "flushes tick"
  obtains w where "wait_tx_flush tick r = Some (r\<lparr>ur_reset := w\<rparr>)"
proof -
  obtain n where "\<not> reg_is_set (UsbReset_field Rst_TxFifoFlush) (ur_reset ((tick ^^ n) r))"
    using assms unfolding flushes_def by blast
  then have "\<exists>w. wait_tx_flush tick r = Some (r\<lparr>ur_reset := w\<rparr>)"
  proof (induction n arbitrary: r)
    case 0
    then have "wait_tx_flush tick r = Some (r\<lparr>ur_reset := ur_reset r\<rparr>)"
      by (subst wait_tx_flush.simps) simp
    then show ?case ..
  next
    case (Suc n)
    show ?case
    proof (cases "reg_is_set (UsbReset_field Rst_TxFifoFlush) (ur_reset r)")
      case True
      obtain w where t: "tick r = r\<lparr>ur_reset := w\<rparr>"
        using assms by (auto simp: flushes_def)
      obtain v where "wait_tx_flush tick (tick r) = Some ((tick r)\<lparr>ur_reset := v\<rparr>)"
        using Suc.IH [of "tick r"] Suc.prems by (auto simp: funpow_swap1)
      then have "wait_tx_flush tick r = Some (r\<lparr>ur_reset := v\<rparr>)"
        using True t by (subst wait_tx_flush.simps) simp
      then show ?thesis ..
    next
      case False
      then have "wait_tx_flush tick r = Some (r\<lparr>ur_reset := ur_reset r\<rparr>)"
        by (subst wait_tx_flush.simps) simp
      then show ?thesis ..
    qed
  qed
  then show ?thesis
    using that by blast
qed

definition after_flush :: "(USBRegisters \<Rightarrow> USBRegisters) \<Rightarrow> USB \<Rightarrow> USB" where
  "after_flush tick u = (case flush_tx_fifo tick 0 u of Some (_, u) \<Rightarrow> u | None \<Rightarrow> u)"

lemma after_flush_regs: 
  assumes "flushes tick"
  obtains w where "after_flush tick u = u\<lparr>us_regs := (us_regs u)\<lparr>ur_reset := w\<rparr>\<rparr>" "flush_tx_fifo tick 0 u = Some (Ok (), after_flush tick u)"
proof -
  let ?r = "(us_regs u)\<lparr>ur_reset := reg_write [fval (UsbReset_field Rst_TxFifoFlush) 1, fval (UsbReset_field Rst_TxFifoNumber) 0]\<rparr>"
  obtain w where "wait_tx_flush tick ?r = Some (?r\<lparr>ur_reset := w\<rparr>)"
    using wait_tx_flush_ends [OF assms] .
  then have "flush_tx_fifo tick 0 u = Some (Ok (), u\<lparr>us_regs := (us_regs u)\<lparr>ur_reset := w\<rparr>\<rparr>)"
    by (simp add: flush_tx_fifo_def)
  with that [of w] show ?thesis
    by (simp add: after_flush_def)
qed

text \<open>A flush changes nothing but the reset register.\<close>

lemma flush_ok: "flushes tick \<Longrightarrow> flush_tx_fifo tick 0 u = Some (Ok (), after_flush tick u)"
  using after_flush_regs by metis

lemma after_flush_simps [simp]:
  assumes "flushes tick"
  shows "us_state (after_flush tick u) = us_state u" "ep0_out_descriptors (after_flush tick u) = ep0_out_descriptors u"
    "ep0_out_buffers (after_flush tick u) = ep0_out_buffers u" "ep0_in_descriptors (after_flush tick u) = ep0_in_descriptors u"
    "ep0_in_buffers (after_flush tick u) = ep0_in_buffers u" "next_ep0_out_idx (after_flush tick u) = next_ep0_out_idx u"
    "last_ep0_out_idx (after_flush tick u) = last_ep0_out_idx u" "ep1_out_descriptor (after_flush tick u) = ep1_out_descriptor u"
    "ep1_out_buffer (after_flush tick u) = ep1_out_buffer u" "ep1_in_descriptor (after_flush tick u) = ep1_in_descriptor u"
    "ep1_in_buffer (after_flush tick u) = ep1_in_buffer u" "configuration_descriptor (after_flush tick u) = configuration_descriptor u"
    "configuration_total_length (after_flush tick u) = configuration_total_length u"
    "configuration_current_value (after_flush tick u) = configuration_current_value u" "us_strings (after_flush tick u) = us_strings u"
    "ur_in_endpoints (us_regs (after_flush tick u)) = ur_in_endpoints (us_regs u)"
    "ur_out_endpoints (us_regs (after_flush tick u)) = ur_out_endpoints (us_regs u)"
    "ur_device_config (us_regs (after_flush tick u)) = ur_device_config (us_regs u)"
    "ur_device_all_ep_interrupt_mask (us_regs (after_flush tick u)) = ur_device_all_ep_interrupt_mask (us_regs u)"
  by (rule after_flush_regs [OF assms, where u = u], simp)+

section \<open>Listening\<close>

text \<open>The memory of endpoint 0 after initialization, and the indices in it.\<close>

definition usb_wf :: "USB \<Rightarrow> bool" where
  "usb_wf u \<longleftrightarrow>
     (case (ep0_out_descriptors u, ep0_out_buffers u, ep0_in_descriptors u, ep0_in_buffers u, us_strings u) of
        (Some ods, Some obs, Some ids, Some ib, Some strs) \<Rightarrow>
          length ods = 2 \<and> length obs = 2 \<and> length ids = 4 \<and> length ib = 64 \<and> (\<forall>s\<in>set strs. length (b_string s) < 128)
      | _ \<Rightarrow> False) \<and>
     (case configuration_descriptor u of Some c \<Rightarrow> length c = 64 | None \<Rightarrow> False) \<and> configuration_total_length u \<le> 64 \<and> next_ep0_out_idx u < 2 \<and> last_ep0_out_idx u < 2"

lemma usb_wfE:
  assumes "usb_wf u"
  obtains ods obs ids ib strs c where "ep0_out_descriptors u = Some ods" "ep0_out_buffers u = Some obs" "ep0_in_descriptors u = Some ids"
    "ep0_in_buffers u = Some ib" "us_strings u = Some strs" "configuration_descriptor u = Some c" "length ods = 2" "length obs = 2"
    "length ids = 4" "length ib = 64" "\<forall>s\<in>set strs. length (b_string s) < 128" "length c = 64" "configuration_total_length u \<le> 64"
    "next_ep0_out_idx u < 2" "last_ep0_out_idx u < 2"
  using assms by (auto simp: usb_wf_def split: option.splits)

text \<open>
  The driver listens: the descriptor that the controller uses next is ready for a packet, the OUT endpoint is enabled and its
  interrupt is not masked.
\<close>

definition listening :: "USB \<Rightarrow> bool" where
  "listening u \<longleftrightarrow> usb_wf u \<and> desc_flags (the (ep0_out_descriptors u) ! next_ep0_out_idx u) = ARMED \<and>
     reg_is_set (EndpointControl_field Ep_Enable) (ep_control (ur_out_endpoints (us_regs u) 0)) \<and>
     reg_is_set (AllEndpointInterrupt_field (OUT_EP 0)) (ur_device_all_ep_interrupt_mask (us_regs u))"

text \<open>The bytes that the controller sends for the next IN token of the host.\<close>

definition in_reply :: "USB \<Rightarrow> byte list" where
  "in_reply u = take (unat (desc_flags (the (ep0_in_descriptors u) ! 0) AND 0xffff)) (words_bytes (the (ep0_in_buffers u)))"

definition stalled :: "USB \<Rightarrow> bool" where
  "stalled u \<longleftrightarrow> us_state u = WaitingForSetupPacket \<and>
     reg_is_set (EndpointControl_field Ep_Stall) (ep_control (ur_in_endpoints (us_regs u) 0)) \<and>
     reg_is_set (EndpointControl_field Ep_Stall) (ep_control (ur_out_endpoints (us_regs u) 0))"

text \<open>The IN descriptor is ready, the IN endpoint enabled and its interrupt not masked.\<close>

definition usb_sending :: "USB \<Rightarrow> bool" where
  "usb_sending u \<longleftrightarrow> desc_flags (the (ep0_in_descriptors u) ! 0) AND Df_STATUS_MASK = Df_HOST_READY \<and>
     ep_dma_address (ur_in_endpoints (us_regs u) 0) = Ep0InDescriptor 0 \<and>
     reg_is_set (EndpointControl_field Ep_Enable) (ep_control (ur_in_endpoints (us_regs u) 0)) \<and>
     reg_is_set (AllEndpointInterrupt_field (IN_EP 0)) (ur_device_all_ep_interrupt_mask (us_regs u))"

text \<open>What the control of a transfer leaves alone.\<close>

definition same_device :: "USB \<Rightarrow> USB \<Rightarrow> bool" where
  "same_device u v \<longleftrightarrow> ur_device_config (us_regs v) = ur_device_config (us_regs u) \<and>
     configuration_current_value v = configuration_current_value u \<and> configuration_total_length v = configuration_total_length u \<and>
     configuration_descriptor v = configuration_descriptor u \<and> us_strings v = us_strings u \<and>
     ep0_out_buffers v = ep0_out_buffers u \<and> next_ep0_out_idx v = next_ep0_out_idx u \<and> last_ep0_out_idx v = last_ep0_out_idx u"

lemma mask_bits [simp]:
  "reg_is_set (31, Suc 0) 0x84000000" "reg_is_set (31, Suc 0) 0x80200000" "reg_is_set (31, Suc 0) 0x80000000" "reg_is_set (21, Suc 0) 0x80200000"
  "reg_is_set (16, Suc 0) (m OR 0x10000)" "reg_is_set (16, Suc 0) (m OR 0x10001)" "reg_is_set (0, Suc 0) (m OR 0x10001)"
  by (simp_all add: reg_field_simps word_ao_dist)

lemma stall_effect:
  assumes "flushes tick" "usb_wf u"
  obtains v where "stall_both_fifos tick u = Some (Ok (), v)" "listening v" "stalled v" "same_device u v"
proof -
  let ?u = "on_out_ep 0 (write_control [(Ep_Enable, 1), (Ep_Stall, 1)]) (modify_all_ep_mask [(OUT_EP 0, 1), (IN_EP 0, 0)]
    (set_next_out_flags (Df_bytes (Df_LAST OR Df_IOC) 64) (u\<lparr>us_state := WaitingForSetupPacket\<rparr>)))"
  let ?v = "on_in_ep 0 (write_control [(Ep_Enable, 1), (Ep_Stall, 1)]) (after_flush tick ?u)"
  have "stall_both_fifos tick u = Some (Ok (), ?v)"
    using assms(1) by (simp add: stall_both_fifos_def flush_ok)
  moreover from assms(2) have "listening ?v" "stalled ?v" "same_device u ?v"
    by (rule usb_wfE; simp add: listening_def stalled_def same_device_def usb_wf_def usb_ops assms(1))+
  ultimately show ?thesis
    using that by blast
qed

lemma low_half: "(0x0E000000 OR ucast (w :: u16)) AND 0xffff = (ucast w :: u32)"
proof -
  have m: "(0xffff :: u32) = mask 16"
    by (simp add: mask_numeral)
  have "ucast w AND 0xffff = (ucast w :: u32)"
    unfolding m by (rule bit_word_eqI) (auto simp: bit_simps dest: bit_imp_le_length)
  then show ?thesis
    by (simp add: word_ao_dist)
qed

lemma high_status: "(0x0E000000 OR ucast (w :: u16)) AND 0xC0000000 = (0 :: u32)"
proof -
  have m: "(0xC0000000 :: u32) = push_bit 30 (mask 2)"
    by (simp add: mask_numeral)
  have "ucast w AND 0xC0000000 = (0 :: u32)"
    unfolding m by (rule bit_word_eqI) (auto simp: bit_simps dest: bit_imp_le_length)
  then show ?thesis
    by (simp add: word_ao_dist)
qed

lemma reply_flags: "Df_bytes (Df_HOST_READY OR Df_LAST OR Df_SHORT OR Df_IOC) n = 0x0E000000 OR ucast n"
  by (simp add: flag_defs)

lemma start_control_in_fields [simp]:
  "us_state (start_control_in transfer_type u) = us_state u"
  "ep0_in_descriptors (start_control_in transfer_type u) = ep0_in_descriptors u"
  "ep0_in_buffers (start_control_in transfer_type u) = ep0_in_buffers u"
  by (simp_all add: start_control_in_def Let_def usb_ops)

lemma start_control_in_same: "same_device u (start_control_in transfer_type u)"
  by (simp add: start_control_in_def same_device_def Let_def usb_ops)

lemma start_control_in_listening:
  assumes "usb_wf u"
  shows "listening (start_control_in transfer_type u)"
proof (cases "transfer_type = CaseC")
  case True
  with assms show ?thesis
    by - (rule usb_wfE, assumption, simp add: start_control_in_def listening_def usb_wf_def usb_ops)
next
  case False
  with assms show ?thesis
    by - (rule usb_wfE, assumption, simp add: start_control_in_def listening_def usb_wf_def usb_ops)
qed

lemma start_control_in_sending:
  assumes "desc_flags (the (ep0_in_descriptors u) ! 0) AND Df_STATUS_MASK = Df_HOST_READY"
  shows "usb_sending (start_control_in transfer_type u)"
  using assms by (cases "transfer_type = CaseC") (simp_all add: start_control_in_def usb_sending_def usb_ops)

lemma wf_updates:
  assumes "usb_wf u"
  shows "usb_wf (u\<lparr>us_state := st\<rparr>)" "usb_wf (set_in_flags f u)" "length ds = 4 \<Longrightarrow> usb_wf (u\<lparr>ep0_in_descriptors := Some ds\<rparr>)"
    "flushes tick \<Longrightarrow> usb_wf (after_flush tick u)"
    "length b = 64 \<Longrightarrow> usb_wf (u\<lparr>ep0_in_buffers := Some b\<rparr>)" "usb_wf (u\<lparr>configuration_current_value := c\<rparr>)" "usb_wf (on_usb_regs g u)"
  using assms by (rule usb_wfE; simp add: usb_wf_def set_in_flags_def on_usb_regs_def)+

lemma same_updates:
  "same_device u (u\<lparr>us_state := st\<rparr>)" "same_device u (set_in_flags f u)" "same_device u (u\<lparr>ep0_in_descriptors := ds\<rparr>)"
  "flushes tick \<Longrightarrow> same_device u (after_flush tick u)" "same_device u (u\<lparr>ep0_in_buffers := b\<rparr>)"
  by (simp_all add: same_device_def set_in_flags_def)

lemma same_trans [trans]: "same_device u v \<Longrightarrow> same_device v w \<Longrightarrow> same_device u w"
  by (simp add: same_device_def)

text \<open>A reply sends the first bytes of the buffer.\<close>

lemma reply_effect:
  assumes "flushes tick" "usb_wf u" "n < 65536"
  obtains v where "reply_in tick transfer_type n u = Some (Ok (), v)" "listening v" "usb_sending v" "us_state v = DataStageIn" "same_device u v"
    "in_reply v = take n (words_bytes (the (ep0_in_buffers u)))"
proof
  let ?u = "(set_in_flags (0x0E000000 OR ucast (word_of_nat n :: u16)) u)\<lparr>us_state := DataStageIn\<rparr>"
  let ?f = "after_flush tick ?u"
  let ?v = "start_control_in transfer_type ?f"
  have n: "unat (ucast (word_of_nat n :: u16) :: u32) = n"
    using assms(3) by (simp add: unsigned_ucast_eq take_bit_nat_eq_self unat_of_nat)
  obtain ds where ds: "ep0_in_descriptors u = Some ds" "length ds = 4"
    using assms(2) by (rule usb_wfE)
  then have d: "desc_flags (the (ep0_in_descriptors ?f) ! 0) = 0x0E000000 OR ucast (word_of_nat n :: u16)"
    using assms(1) by (simp add: set_in_flags_def)
  show "reply_in tick transfer_type n u = Some (Ok (), ?v)"
    using ds by (simp add: reply_in_def expect_data_phase_in_def reply_flags set_in_flags_def flush_ok assms(1))
  show "listening ?v"
    using assms by (intro start_control_in_listening wf_updates)
  show "usb_sending ?v"
    by (rule start_control_in_sending) (simp add: d high_status Df_STATUS_MASK_def Df_HOST_READY_def)
  show "us_state ?v = DataStageIn"
    using assms(1) by simp
  show "same_device u ?v"
    using same_updates(2) same_updates(1) same_updates(4) [OF assms(1)] start_control_in_same by (meson same_trans)
  show "in_reply ?v = take n (words_bytes (the (ep0_in_buffers u)))"
    unfolding in_reply_def start_control_in_fields d low_half n using assms(1) by (simp add: set_in_flags_def)
qed

lemma status_effect:
  assumes "flushes tick" "usb_wf u"
  obtains v where "expect_status_phase_in tick transfer_type u = Some (Ok (), v)" "listening v" "usb_sending v" "us_state v = NoDataStage"
    "same_device u v" "in_reply v = []"
proof -
  obtain ds ib where ds: "ep0_in_descriptors u = Some ds" "length ds = 4" "ep0_in_buffers u = Some ib"
    using assms(2) by (rule usb_wfE)
  let ?u = "set_in_flags (0x0E000000 OR ucast (0 :: u16)) (u\<lparr>us_state := NoDataStage, ep0_in_descriptors := Some (ds[0 := (ds ! 0)\<lparr>desc_addr := Ep0InBuffer 0\<rparr>])\<rparr>)"
  let ?f = "after_flush tick ?u"
  let ?v = "start_control_in transfer_type ?f"
  have d: "desc_flags (the (ep0_in_descriptors ?f) ! 0) = 0x0E000000 OR ucast (0 :: u16)"
    using assms(1) ds by (simp add: set_in_flags_def)
  show thesis
  proof (rule that)
    show "expect_status_phase_in tick transfer_type u = Some (Ok (), ?v)"
      using ds by (simp add: expect_status_phase_in_def reply_flags Let_def flush_ok assms(1))
      show "listening ?v"
      using assms ds by (intro start_control_in_listening wf_updates) simp_all
    show "usb_sending ?v"
      by (rule start_control_in_sending, unfold d) (simp add: Df_STATUS_MASK_def Df_HOST_READY_def)
    show "us_state ?v = NoDataStage"
      using assms(1) by (simp add: set_in_flags_def)
    show "same_device u ?v"
      using same_updates(1,3,2) same_updates(4) [OF assms(1)] start_control_in_same by (meson same_trans)
    show "in_reply ?v = []"
      unfolding in_reply_def start_control_in_fields d low_half by simp
  qed
qed

lemma expect_setup_effect: "usb_wf u \<Longrightarrow> listening (expect_setup_packet u) \<and> us_state (expect_setup_packet u) = WaitingForSetupPacket"
  by (erule usb_wfE) (simp add: expect_setup_packet_def listening_def usb_wf_def usb_ops)

lemma usb_reset_effect:
  assumes "usb_wf u"
  shows "listening (usb_reset u)" "us_state (usb_reset u) = WaitingForSetupPacket"
    "field_get (DeviceConfig_field Dcfg_DeviceAddress) (ur_device_config (us_regs (usb_reset u))) = 0"
proof -
  let ?u = "init_ep0_descriptors (on_usb_regs (ur_device_config_update (reg_modify [fval (DeviceConfig_field Dcfg_DeviceAddress) 0]))
    (u\<lparr>us_state := WaitingForSetupPacket\<rparr>))"
  from assms have wf: "usb_wf ?u" and regs: "ur_device_config (us_regs ?u) = reg_modify [fval (DeviceConfig_field Dcfg_DeviceAddress) 0] (ur_device_config (us_regs u))"
    by (rule usb_wfE; simp add: init_ep0_descriptors_def usb_wf_def usb_ops)+
  show "listening (usb_reset u)" "us_state (usb_reset u) = WaitingForSetupPacket"
    using expect_setup_effect [OF wf] by (simp_all add: usb_reset_def)
  have "ur_device_config (us_regs (usb_reset u)) = ur_device_config (us_regs ?u)"
    by (simp add: usb_reset_def expect_setup_packet_def usb_ops)
  then show "field_get (DeviceConfig_field Dcfg_DeviceAddress) (ur_device_config (us_regs (usb_reset u))) = 0"
    using devcfg.modify_get [of Dcfg_DeviceAddress 0] regs by simp
qed

section \<open>The outcome of a request\<close>

text \<open>The standard requests to an endpoint, class requests to the device, and all vendor requests are not looked at.\<close>

definition request_ignored :: "SetupRequest \<Rightarrow> bool" where
  "request_ignored req \<longleftrightarrow> \<not> (req_type req = ClassStandard \<and> recipient req \<in> {ToDevice, ToInterface}) \<and>
     \<not> (req_type req = ClassClass \<and> recipient req = ToInterface)"

text \<open>A request with data for the device, for a string that does not exist, or for more of the report descriptor than there is.\<close>

definition request_panics :: "USB \<Rightarrow> SetupRequest \<Rightarrow> bool" where
  "request_panics u req \<longleftrightarrow> req_type req = ClassStandard \<and>
     (recipient req = ToDevice \<and> data_direction req = HostToDevice \<and> 0 < w_length req \<or>
      recipient req = ToDevice \<and> data_direction req = DeviceToHost \<and> request req = GetDescriptor \<and>
        drop_bit 8 (w_value req) = 3 \<and> length (the (us_strings u)) \<le> unat (w_value req AND 0xff) \<or>
      recipient req = ToInterface \<and> data_direction req = DeviceToHost \<and> request req = GetDescriptor \<and>
        drop_bit 8 (w_value req) = 0x22 \<and> 34 < w_length req)"

text \<open>What a request for data asks for, and the driver has.\<close>

definition requested_bytes :: "USB \<Rightarrow> SetupRequest \<Rightarrow> byte list option" where
  "requested_bytes u req =
     (if req_type req = ClassStandard \<and> recipient req = ToDevice \<and> data_direction req = DeviceToHost then
        (case request req of
           GetDescriptor \<Rightarrow>
             (if drop_bit 8 (w_value req) = 1 then Some (DeviceDescriptor_bytes (generate_device_descriptor u))
              else if drop_bit 8 (w_value req) = 2 then Some (take (unat (configuration_total_length u)) (the (configuration_descriptor u)))
              else if drop_bit 8 (w_value req) = 4 then Some (InterfaceDescriptor_bytes (InterfaceDescriptor_new STRING_INTERFACE2 0 3 0 0))
              else if drop_bit 8 (w_value req) = 3 \<and> unat (w_value req AND 0xff) < length (the (us_strings u))
              then Some (StringDescriptor_bytes (the (us_strings u) ! unat (w_value req AND 0xff)))
              else None)
         | GetConfiguration \<Rightarrow> Some [configuration_current_value u]
         | _ \<Rightarrow> None)
      else if req_type req = ClassStandard \<and> recipient req = ToInterface \<and> data_direction req = DeviceToHost \<and> request req = GetDescriptor \<and>
        drop_bit 8 (w_value req) = 0x22 \<and> w_length req \<le> 34
      then Some U2F_REPORT_DESCRIPTOR
      else None)"

definition usb_answers :: "USB \<Rightarrow> nat \<Rightarrow> byte list \<Rightarrow> ((MemoryError, unit) outcome \<times> USB) option \<Rightarrow> bool" where
  "usb_answers u n bs r \<longleftrightarrow> (\<exists>v. r = Some (Ok (), v) \<and> listening v \<and> usb_sending v \<and> us_state v = DataStageIn \<and> same_device u v \<and> in_reply v = take n bs)"

lemma reply_answers:
  assumes "flushes tick" "usb_wf u" "length b = 64" "take (length bs) (words_bytes b) = bs"
  shows "usb_answers u (unat (n :: u16)) bs (reply_in tick transfer_type (min (length bs) (unat n)) (u\<lparr>ep0_in_buffers := Some b\<rparr>))"
proof -
  have "unat n < 2 ^ LENGTH(16)"
    by (rule unsigned_less)
  then have n: "min (length bs) (unat n) < 65536"
    by simp
  obtain v where v: "reply_in tick transfer_type (min (length bs) (unat n)) (u\<lparr>ep0_in_buffers := Some b\<rparr>) = Some (Ok (), v)" "listening v" "usb_sending v"
    "us_state v = DataStageIn" "same_device (u\<lparr>ep0_in_buffers := Some b\<rparr>) v" "in_reply v = take (min (length bs) (unat n)) (words_bytes b)"
    using reply_effect [OF assms(1) wf_updates(5) [OF assms(2,3)] n] by auto
  have "take (min (length bs) (unat n)) (words_bytes b) = take (unat n) bs"
    using assms(4) by (metis min.commute take_take)
  then show ?thesis
    using v same_trans [OF same_updates(5)] unfolding usb_answers_def by fastforce
qed

lemma descriptor_type:
  fixes w :: u16
  shows "(ucast (drop_bit 8 w) :: u32) = 1 \<longleftrightarrow> drop_bit 8 w = 1" "(ucast (drop_bit 8 w) :: u32) = 2 \<longleftrightarrow> drop_bit 8 w = 2"
    "(ucast (drop_bit 8 w) :: u32) = 3 \<longleftrightarrow> drop_bit 8 w = 3" "(ucast (drop_bit 8 w) :: u32) = 4 \<longleftrightarrow> drop_bit 8 w = 4"
    "(ucast (drop_bit 8 w) :: u32) = 6 \<longleftrightarrow> drop_bit 8 w = 6"
proof -
  have down: "ucast (ucast x :: u32) = x" for x :: u16
    by (rule bit_word_eqI) (simp add: bit_simps)
  have up: "(ucast x :: u32) = ucast y \<longleftrightarrow> x = y" for x y :: u16
    using down by metis
  show "(ucast (drop_bit 8 w) :: u32) = 1 \<longleftrightarrow> drop_bit 8 w = 1" "(ucast (drop_bit 8 w) :: u32) = 2 \<longleftrightarrow> drop_bit 8 w = 2"
    "(ucast (drop_bit 8 w) :: u32) = 3 \<longleftrightarrow> drop_bit 8 w = 3" "(ucast (drop_bit 8 w) :: u32) = 4 \<longleftrightarrow> drop_bit 8 w = 4"
    "(ucast (drop_bit 8 w) :: u32) = 6 \<longleftrightarrow> drop_bit 8 w = 6"
    using up [of "drop_bit 8 w" 1] up [of "drop_bit 8 w" 2] up [of "drop_bit 8 w" 3] up [of "drop_bit 8 w" 4] up [of "drop_bit 8 w" 6] by simp_all
qed

lemma report_type:
  fixes w :: u16
  shows "Descriptor_from_u8 (ucast (drop_bit 8 w)) = DescReport \<longleftrightarrow> drop_bit 8 w = 0x22"
proof -
  have w: "ucast (ucast (drop_bit 8 w) :: byte) = drop_bit 8 w"
    by (rule bit_word_eqI) (auto simp: bit_simps dest: bit_imp_le_length)
  have "Descriptor_from_u8 b = DescReport \<longleftrightarrow> b = 0x22" for b
    by (simp add: Descriptor_from_u8_def)
  moreover have "ucast (drop_bit 8 w) = (0x22 :: byte) \<longleftrightarrow> drop_bit 8 w = 0x22"
  proof
    assume "ucast (drop_bit 8 w) = (0x22 :: byte)"
    with w show "drop_bit 8 w = 0x22"
      by (simp only:) simp
  qed simp
  ultimately show ?thesis
    by simp
qed

lemma serialize_answers:
  assumes "flushes tick" "usb_wf u" "length obj \<le> 64"
  shows "usb_answers u (unat (n :: u16)) obj
    (peff_bind (serialize_in after obj) (\<lambda>k. reply_in tick transfer_type (min k (unat n))) u)"
proof -
  obtain ib where ib: "ep0_in_buffers u = Some ib" "length ib = 64"
    using assms(2) by (rule usb_wfE)
  obtain b where b: "serialize after obj ib = Ok (length obj, b)" "length b = length ib" "take (length obj) (words_bytes b) = obj"
    using serialize_bytes [of obj ib after] assms(3) ib(2) by auto
  have "peff_bind (serialize_in after obj) (\<lambda>k. reply_in tick transfer_type (min k (unat n))) u =
    reply_in tick transfer_type (min (length obj) (unat n)) (u\<lparr>ep0_in_buffers := Some b\<rparr>)"
    using ib b by (simp add: serialize_in_def)
  with reply_answers [OF assms(1,2), of b obj n transfer_type] b ib show ?thesis
    by simp
qed

lemma configuration_answers:
  assumes "flushes tick" "usb_wf u"
  shows "usb_answers u (unat (w_length req)) (take (unat (configuration_total_length u)) (the (configuration_descriptor u)))
    (get_configuration_descriptor tick transfer_type req u)"
proof -
  obtain ib c where w: "ep0_in_buffers u = Some ib" "length ib = 64" "configuration_descriptor u = Some c" "length c = 64"
    "configuration_total_length u \<le> 64"
    using assms(2) by (rule usb_wfE)
  let ?t = "unat (configuration_total_length u)"
  let ?b = "map (le_word c) [0..<16] @ drop 16 ib"
  have t: "?t \<le> 64"
    using w(5) by (simp add: word_le_nat_alt)
  have "words_bytes (map (le_word c) [0..<16]) = c"
    using words_bytes_words [of c 16] w(4) by (simp add: words_bytes_def bytes_words_def)
  then have b: "take (length (take ?t c)) (words_bytes ?b) = take ?t c"
    using t w(4) by simp
  have m: "unat (min (configuration_total_length u) (w_length req)) = min (length (take ?t c)) (unat (w_length req))"
    using t w(4) by (simp add: min_def word_le_nat_alt)
  have "length ?b = 64"
    using w(2) by simp
  from reply_answers [OF assms this b, of "w_length req" transfer_type] show ?thesis
    unfolding get_configuration_descriptor_def w(1,3) prod.case option.case m option.sel .
qed

lemma interface_answers:
  assumes "flushes tick" "usb_wf u"
  shows "usb_answers u (unat (w_length req)) (InterfaceDescriptor_bytes (InterfaceDescriptor_new STRING_INTERFACE2 0 3 0 0))
    (get_interface_descriptor tick transfer_type req u)"
proof -
  obtain ib where ib: "ep0_in_buffers u = Some ib" "length ib = 64"
    using assms(2) by (rule usb_wfE)
  let ?d = "InterfaceDescriptor_new STRING_INTERFACE2 0 3 0 0"
  let ?r = "InterfaceDescriptor_into_u32_buf ?d ib"
  have r: "?r = (length (InterfaceDescriptor_bytes ?d), snd ?r)" "length (snd ?r) = 64"
    using ib(2) by (simp_all add: InterfaceDescriptor_into_u32_buf_def InterfaceDescriptor_bytes_def)
  have "length (InterfaceDescriptor_bytes ?d) = 9"
    by (simp add: InterfaceDescriptor_bytes_def)
  then have "take (length (InterfaceDescriptor_bytes ?d)) (words_bytes (snd ?r)) = InterfaceDescriptor_bytes ?d"
    using interface_bytes [of ib ?d] ib(2) by simp
  from reply_answers [OF assms r(2) this, of "w_length req" transfer_type] show ?thesis
    unfolding get_interface_descriptor_def ib(1) option.case by (subst r(1)) (simp only: prod.case)
qed

lemma string_answers:
  assumes "flushes tick" "usb_wf u" "unat (w_value req AND 0xff) < length (the (us_strings u))"
  shows "usb_answers u (unat (w_length req)) (StringDescriptor_bytes (the (us_strings u) ! unat (w_value req AND 0xff)))
    (get_string_descriptor tick transfer_type req u)"
proof -
  obtain ib strs where ib: "ep0_in_buffers u = Some ib" "length ib = 64" and s: "us_strings u = Some strs" "\<forall>s\<in>set strs. length (b_string s) < 128"
    using assms(2) by (rule usb_wfE)
  let ?d = "strs ! unat (w_value req AND 0xff)"
  have "length (b_string ?d) < 2 * length ib"
    using s assms(3) ib(2) by simp
  then obtain b where b: "StringDescriptor_into_u32_buf ?d ib = Ok (length (StringDescriptor_bytes ?d), b)" "length b = length ib"
    "take (length (StringDescriptor_bytes ?d)) (words_bytes b) = StringDescriptor_bytes ?d"
    by (rule string_bytes)
  with reply_answers [OF assms(1,2), of b "StringDescriptor_bytes ?d" "w_length req" transfer_type] ib s assms(3) show ?thesis
    by (simp add: get_string_descriptor_def Let_def)
qed

section \<open>Bytes put into words\<close>

text \<open>The words that the byte loop makes: the bytes in order, with zeros up to the end of the last word.\<close>

fun byte_words :: "byte list \<Rightarrow> u32 list" where
  "byte_words [] = []"
| "byte_words [a] = [ucast a]"
| "byte_words [a, b] = [ucast a OR push_bit 8 (ucast b)]"
| "byte_words [a, b, c] = [ucast a OR push_bit 8 (ucast b) OR push_bit 16 (ucast c)]"
| "byte_words (a # b # c # d # bs) = (ucast a OR push_bit 8 (ucast b) OR push_bit 16 (ucast c) OR push_bit 24 (ucast d)) # byte_words bs"

lemma length_byte_words: "length (byte_words bs) = (length bs + 3) div 4"
  by (induction bs rule: byte_words.induct) simp_all

lemma byte_words_bytes: "words_bytes (byte_words bs) = bs @ replicate (4 * length (byte_words bs) - length bs) 0"
proof (induction bs rule: byte_words.induct)
  case (3 a b)
  then show ?case
    using word_bytes_bytes [of a b 0 0] by (simp add: numeral_eq_Suc)
next
  case (4 a b c)
  then show ?case
    using word_bytes_bytes [of a b c 0] by simp
next
  case (5 a b c d bs)
  then show ?case
    by (simp add: word_bytes_bytes)
qed (simp_all add: word_bytes_byte numeral_eq_Suc)

lemma index_4:
  "(4 * k) div 4 = (k :: nat)" "(4 * k) mod 4 = (0 :: nat)" "Suc (4 * k) div 4 = k" "Suc (4 * k) mod 4 = 1" "Suc (Suc (4 * k)) div 4 = k"
  "Suc (Suc (4 * k)) mod 4 = 2" "Suc (Suc (Suc (4 * k))) div 4 = k" "Suc (Suc (Suc (4 * k))) mod 4 = 3" "Suc (Suc (Suc (Suc (4 * k)))) = 4 * Suc k"
  by presburger+

lemma put_bytes_words_eq:
  assumes "k + length (byte_words bs) \<le> length buf"
  shows "put_bytes_words (4 * k) bs buf = take k buf @ byte_words bs @ drop (k + length (byte_words bs)) buf"
  using assms
proof (induction bs arbitrary: k buf rule: byte_words.induct)
  case (5 a b c d bs)
  let ?w = "ucast a OR push_bit 8 (ucast b) OR push_bit 16 (ucast c) OR push_bit 24 (ucast d) :: u32"
  have k: "k < length buf"
    using "5.prems" by simp
  have "put_bytes_words (4 * k) (a # b # c # d # bs) buf = put_bytes_words (4 * Suc k) bs (buf[k := ?w])"
    using k by (simp only: put_bytes_words.simps index_4) (simp add: or.assoc)
  also have "\<dots> = take (Suc k) (buf[k := ?w]) @ byte_words bs @ drop (Suc k + length (byte_words bs)) (buf[k := ?w])"
    using "5.prems" by (intro "5.IH") simp
  finally show ?case
    using k by (simp add: take_Suc_conv_app_nth)
qed (simp_all only: put_bytes_words.simps index_4, simp_all add: upd_conv_take_nth_drop nth_append or.assoc)

lemma put_bytes_words_bytes:
  assumes "length bs \<le> 4 * length buf"
  shows "length (put_bytes_words 0 bs buf) = length buf"
    "words_bytes (put_bytes_words 0 bs buf) =
       bs @ replicate (4 * ((length bs + 3) div 4) - length bs) 0 @ drop (4 * ((length bs + 3) div 4)) (words_bytes buf)"
proof -
  have len: "length (byte_words bs) \<le> length buf"
    using assms by (simp add: length_byte_words)
  then have e: "put_bytes_words 0 bs buf = byte_words bs @ drop (length (byte_words bs)) buf"
    using put_bytes_words_eq [of 0 bs buf] by simp
  then show "length (put_bytes_words 0 bs buf) = length buf"
    using len by simp
  have "words_bytes (drop n ws) = drop (4 * n) (words_bytes ws)" for n ws
    by (induction ws arbitrary: n) (simp_all add: drop_Cons' diff_mult_distrib2)
  then show "words_bytes (put_bytes_words 0 bs buf) =
       bs @ replicate (4 * ((length bs + 3) div 4) - length bs) 0 @ drop (4 * ((length bs + 3) div 4)) (words_bytes buf)"
    unfolding e by (simp add: byte_words_bytes length_byte_words)
qed

lemma report_answers:
  assumes "flushes tick" "usb_wf u" "w_length req \<le> 34"
  shows "usb_answers u (unat (w_length req)) U2F_REPORT_DESCRIPTOR (get_report_descriptor tick transfer_type req u)"
proof -
  have n: "unat (w_length req) \<le> 34"
    using assms(3) by (simp add: word_le_nat_alt)
  have D: "length U2F_REPORT_DESCRIPTOR = 34"
    by (simp add: U2F_REPORT_DESCRIPTOR_def)
  obtain u' where u': "(if length U2F_REPORT_DESCRIPTOR \<noteq> unat (w_length req) then handle_bad_packet tick else returning (ret ())) u = Some (Ok (), u')"
    "usb_wf u'" "same_device u u'"
  proof (cases "length U2F_REPORT_DESCRIPTOR = unat (w_length req)")
    case True
    then show ?thesis
      using that [of u] assms(2) by (simp add: same_device_def)
  next
    case False
    obtain v where "stall_both_fifos tick u = Some (Ok (), v)" "listening v" "same_device u v"
      using stall_effect [OF assms(1,2)] by metis
    then show ?thesis
      using that [of v] False by (simp add: handle_bad_packet_def listening_def)
  qed
  obtain ib where ib: "ep0_in_buffers u' = Some ib" "length ib = 64"
    using u'(2) by (rule usb_wfE)
  let ?bs = "take (unat (w_length req)) U2F_REPORT_DESCRIPTOR"
  let ?b = "put_bytes_words 0 ?bs ib"
  have len: "length ?bs = unat (w_length req)"
    using n D by simp
  have "length ?b = 64" "take (length ?bs) (words_bytes ?b) = ?bs"
    using put_bytes_words_bytes [of ?bs ib] ib(2) n D by simp_all
  from reply_answers [OF assms(1) u'(2) this, of "w_length req" transfer_type]
  have "usb_answers u' (unat (w_length req)) ?bs (reply_in tick transfer_type (unat (w_length req)) (u'\<lparr>ep0_in_buffers := Some ?b\<rparr>))"
    unfolding len by simp
  moreover have "get_report_descriptor tick transfer_type req u = reply_in tick transfer_type (unat (w_length req)) (u'\<lparr>ep0_in_buffers := Some ?b\<rparr>)"
    unfolding get_report_descriptor_def Let_def by (subst peff_bind_Ok [where m = "if _ then _ else _", OF u'(1)]) (use ib n D in simp)
  ultimately show ?thesis
    using same_trans [OF u'(3)] unfolding usb_answers_def by (metis take_take min.idem)
qed

lemma report_panics:
  assumes "flushes tick" "usb_wf u" "34 < w_length req"
  shows "\<exists>v. get_report_descriptor tick transfer_type req u = Some (Panic, v)"
proof -
  have n: "34 < unat (w_length req)"
    using assms(3) by (simp add: word_less_nat_alt)
  have D: "length U2F_REPORT_DESCRIPTOR = 34"
    by (simp add: U2F_REPORT_DESCRIPTOR_def)
  obtain v where v: "stall_both_fifos tick u = Some (Ok (), v)" "listening v"
    using stall_effect [OF assms(1,2)] by metis
  obtain ib where "ep0_in_buffers v = Some ib"
    using v(2) unfolding listening_def by (metis usb_wfE)
  with v(1) n D show ?thesis
    by (simp add: get_report_descriptor_def handle_bad_packet_def Let_def)
qed

section \<open>The control transfers\<close>

text \<open>
  A request for data that the driver has is answered with that data, cut to the length that the host asks for, whatever the
  buffers held and whatever lies behind the structures that are copied.
\<close>

lemma request_answered:
  assumes "flushes tick" "usb_wf u" "requested_bytes u req = Some bs"
  shows "usb_answers u (unat (w_length req)) bs (handle_request tick after transfer_type req u)"
proof -
  have dev: "length (DeviceDescriptor_bytes (generate_device_descriptor u)) \<le> 64"
    by (simp add: DeviceDescriptor_bytes_def half_bytes_def)
  note types = descriptor_type GET_DESCRIPTOR_DEVICE_def GET_DESCRIPTOR_CONFIGURATION_def GET_DESCRIPTOR_INTERFACE_def
    GET_DESCRIPTOR_DEVICE_QUALIFIER_def GET_DESCRIPTOR_STRING_def
  consider (device) "req_type req = ClassStandard" "recipient req = ToDevice" "data_direction req = DeviceToHost"
    | (report) "req_type req = ClassStandard" "recipient req = ToInterface" "data_direction req = DeviceToHost" "request req = GetDescriptor"
      "drop_bit 8 (w_value req) = 0x22" "w_length req \<le> 34" "bs = U2F_REPORT_DESCRIPTOR"
    using assms(3) by (auto simp: requested_bytes_def split: if_splits)
  then show ?thesis
  proof cases
    case device
    then have *: "handle_request tick after transfer_type req u = handle_standard_device_to_host tick after transfer_type req u"
      by (simp add: handle_request_def)
    show ?thesis
    proof (cases "request req = GetDescriptor")
      case True
      then show ?thesis
        using device assms(3) configuration_answers [OF assms(1,2), of req transfer_type] interface_answers [OF assms(1,2), of req transfer_type]
          string_answers [OF assms(1,2), of req transfer_type] serialize_answers [OF assms(1,2) dev, of "w_length req" after transfer_type]
        by (auto simp: requested_bytes_def * handle_standard_device_to_host_def get_descriptor_def Let_def types get_device_descriptor_def
            split: if_splits)
    next
      case False
      then have "request req = GetConfiguration" "bs = [configuration_current_value u]"
        using device assms(3) by (auto simp: requested_bytes_def split: SetupRequestType.splits)
      then show ?thesis
        using serialize_answers [OF assms(1,2), of "[configuration_current_value u]" "w_length req" after transfer_type]
        by (simp add: * handle_standard_device_to_host_def)
    qed
  next
    case report
    then show ?thesis
      using report_answers [OF assms(1,2), of req transfer_type]
      by (simp add: handle_request_def handle_standard_interface_to_host_def Descriptor_from_u8_def)
  qed
qed

lemma wf_simps [simp]:
  "usb_wf (on_usb_regs g u) = usb_wf u" "usb_wf (on_in_ep i f u) = usb_wf u" "usb_wf (on_out_ep i f u) = usb_wf u"
  "usb_wf (modify_all_ep_mask fs u) = usb_wf u" "usb_wf (u\<lparr>ep1_out_descriptor := d\<rparr>) = usb_wf u" "usb_wf (u\<lparr>ep1_in_descriptor := d\<rparr>) = usb_wf u"
  by (simp_all add: usb_wf_def usb_ops modify_all_ep_mask_def)

lemma device_config_simps [simp]:
  "ur_device_config (us_regs (on_in_ep i f u)) = ur_device_config (us_regs u)"
  "ur_device_config (us_regs (on_out_ep i f u)) = ur_device_config (us_regs u)"
  "ur_device_config (us_regs (modify_all_ep_mask fs u)) = ur_device_config (us_regs u)"
  by (simp_all add: usb_ops modify_all_ep_mask_def)

lemma ep1_wf:
  "usb_wf (prepare_ep1_out u) = usb_wf u" "usb_wf (prepare_ep1_in u) = usb_wf u" "usb_wf (activate_ep1_out u) = usb_wf u"
  "usb_wf (activate_ep1_in u) = usb_wf u"
  by (simp_all add: prepare_ep1_out_def prepare_ep1_in_def activate_ep1_out_def activate_ep1_in_def split: option.split)

lemma ep1_device_config:
  "ur_device_config (us_regs (prepare_ep1_out u)) = ur_device_config (us_regs u)"
  "ur_device_config (us_regs (prepare_ep1_in u)) = ur_device_config (us_regs u)"
  "ur_device_config (us_regs (activate_ep1_out u)) = ur_device_config (us_regs u)"
  "ur_device_config (us_regs (activate_ep1_in u)) = ur_device_config (us_regs u)"
  by (simp_all add: prepare_ep1_out_def prepare_ep1_in_def activate_ep1_out_def activate_ep1_in_def split: option.split)

lemma setup_u2f_fields:
  "usb_wf (setup_u2f_descriptors u) = usb_wf u"
  "ur_device_config (us_regs (setup_u2f_descriptors u)) = ur_device_config (us_regs u)"
  unfolding setup_u2f_descriptors_def wf_simps device_config_simps ep1_wf ep1_device_config by (rule refl)+

text \<open>Requests that ask for data which the driver does not have are refused; the status of the device is sent as an empty reply.\<close>

definition carries_on :: "((MemoryError, unit) outcome \<times> USB) option \<Rightarrow> bool" where
  "carries_on r \<longleftrightarrow> (\<exists>v. r = Some (Ok (), v) \<and> listening v \<and> (stalled v \<or> usb_sending v))"

lemma stall_carries_on: "flushes tick \<Longrightarrow> usb_wf u \<Longrightarrow> carries_on (stall_both_fifos tick u)"
  unfolding carries_on_def by (metis stall_effect)

lemma status_carries_on: "flushes tick \<Longrightarrow> usb_wf u \<Longrightarrow> carries_on (expect_status_phase_in tick transfer_type u)"
  unfolding carries_on_def by (metis status_effect)

lemma device_to_host_carries_on:
  assumes "flushes tick" "usb_wf u" "requested_bytes u req = None" "\<not> request_panics u req"
    and dev: "req_type req = ClassStandard" "recipient req = ToDevice" "data_direction req = DeviceToHost"
  shows "carries_on (handle_standard_device_to_host tick after transfer_type req u)"
proof (cases "request req")
  case GetStatus
  obtain ib where "ep0_in_buffers u = Some ib" "length ib = 64"
    using assms(2) by (rule usb_wfE)
  then have "usb_wf (set_in_flags f (u\<lparr>ep0_in_buffers := map_option (\<lambda>buf. buf[0 := 0]) (ep0_in_buffers u)\<rparr>))" for f
    using assms(2) by (simp add: wf_updates)
  then show ?thesis
    using GetStatus status_carries_on [OF assms(1)] by (simp add: handle_standard_device_to_host_def)
next
  case GetDescriptor
  then have "drop_bit 8 (w_value req) \<noteq> 1" "drop_bit 8 (w_value req) \<noteq> 2" "drop_bit 8 (w_value req) \<noteq> 3" "drop_bit 8 (w_value req) \<noteq> 4"
    using assms(3,4) dev by (auto simp: requested_bytes_def request_panics_def split: if_splits)
  then show ?thesis
    using GetDescriptor stall_carries_on [OF assms(1,2)]
    by (simp add: handle_standard_device_to_host_def get_descriptor_def descriptor_type GET_DESCRIPTOR_DEVICE_def GET_DESCRIPTOR_CONFIGURATION_def
        GET_DESCRIPTOR_INTERFACE_def GET_DESCRIPTOR_DEVICE_QUALIFIER_def GET_DESCRIPTOR_STRING_def handle_unexpected_packet_def)
next
  case GetConfiguration
  then show ?thesis
    using assms(3) dev by (simp add: requested_bytes_def)
qed (use stall_carries_on [OF assms(1,2)] in \<open>simp_all add: handle_standard_device_to_host_def handle_unexpected_packet_def\<close>)

lemma no_data_carries_on:
  assumes "flushes tick" "usb_wf u"
  shows "carries_on (handle_standard_no_data_phase tick transfer_type req u)"
  using stall_carries_on [OF assms] status_carries_on [OF assms(1)] assms(2)
  by (simp add: handle_standard_no_data_phase_def handle_unexpected_packet_def setup_u2f_fields wf_updates(6) split: SetupRequestType.split)

lemma interface_carries_on:
  assumes "flushes tick" "usb_wf u" "requested_bytes u req = None" "\<not> request_panics u req"
    and dev: "req_type req = ClassStandard" "recipient req = ToInterface" "data_direction req = DeviceToHost"
  shows "carries_on (handle_standard_interface_to_host tick transfer_type req u)"
proof (cases "request req = GetDescriptor \<and> Descriptor_from_u8 (ucast (drop_bit 8 (w_value req))) = DescReport")
  case True
  then show ?thesis
    using assms(3,4) dev by (auto simp: requested_bytes_def request_panics_def report_type split: if_splits)
next
  case False
  then show ?thesis
    using stall_carries_on [OF assms(1,2)]
    by (auto simp: handle_standard_interface_to_host_def handle_unexpected_packet_def split: SetupRequestType.split Descriptor.split)
qed

text \<open>
  Every request is answered, refused, ignored or kills the kernel; the cases are exactly those of the two predicates. Unless
  it is ignored or kills the kernel, the driver listens for the next packet, and has stalled the endpoint or sends.
\<close>

lemma request_outcome:
  assumes "flushes tick" "usb_wf u"
  obtains (panics) v where "request_panics u req" "handle_request tick after transfer_type req u = Some (Panic, v)"
    | (ignored) "\<not> request_panics u req" "request_ignored req" "handle_request tick after transfer_type req u = Some (Ok (), u)"
    | (handled) "\<not> request_panics u req" "\<not> request_ignored req" "carries_on (handle_request tick after transfer_type req u)"
proof (cases "requested_bytes u req")
  case (Some bs)
  then have "\<not> request_panics u req" "\<not> request_ignored req"
    by (auto simp: requested_bytes_def request_panics_def request_ignored_def not_less split: if_splits)
  moreover have "carries_on (handle_request tick after transfer_type req u)"
    using request_answered [OF assms Some, of after transfer_type] unfolding usb_answers_def carries_on_def by blast
  ultimately show ?thesis
    by (rule handled)
next
  case None
  consider (p) "request_panics u req" | (i) "\<not> request_panics u req" "request_ignored req" | (h) "\<not> request_panics u req" "\<not> request_ignored req"
    by blast
  then show ?thesis
  proof cases
    case p
    then have "\<exists>v. handle_request tick after transfer_type req u = Some (Panic, v)"
      using report_panics [OF assms, of req transfer_type] assms(2)
      by (auto simp: request_panics_def handle_request_def handle_standard_host_to_device_def handle_standard_device_to_host_def get_descriptor_def Let_def
          descriptor_type GET_DESCRIPTOR_DEVICE_def GET_DESCRIPTOR_CONFIGURATION_def GET_DESCRIPTOR_INTERFACE_def
          GET_DESCRIPTOR_DEVICE_QUALIFIER_def GET_DESCRIPTOR_STRING_def get_string_descriptor_def handle_standard_interface_to_host_def
          Descriptor_from_u8_def elim!: usb_wfE)
    with panics p show ?thesis
      by blast
  next
    case i
    then have "handle_request tick after transfer_type req u = Some (Ok (), u)"
      by (cases "recipient req") (auto simp: request_ignored_def handle_request_def)
    with ignored i show ?thesis
      by blast
  next
    case h
    have "carries_on (handle_request tick after transfer_type req u)"
    proof (cases "req_type req = ClassStandard \<and> recipient req = ToDevice")
      case True
      then show ?thesis
        using device_to_host_carries_on [OF assms None h(1)] no_data_carries_on [OF assms] h(1)
        by (cases "data_direction req") (auto simp: handle_request_def request_panics_def)
    next
      case False
      then show ?thesis
        using interface_carries_on [OF assms None h(1)] stall_carries_on [OF assms] h(2)
        by (cases "data_direction req") (auto simp: handle_request_def request_ignored_def handle_standard_host_to_interface_def
            handle_class_interface_to_host_def handle_class_host_to_interface_def handle_unexpected_packet_def split: SetupClassRequestType.split)
    qed
    with handled h show ?thesis
      by blast
  qed
qed

end
