(* ===== verification/Usb_Session.thy ===== *)
theory Usb_Session
  imports Usb_Control
begin

text \<open>
  The USB driver on the bus: setup packets in every state of the driver, sequences of events on endpoint 0, the initialization, and examples.
\<close>

section \<open>Packets\<close>

text \<open>
  What the controller does with a packet for endpoint 0: it writes it to the buffer of the descriptor that the driver gave it
  last, marks the descriptor as done, as a setup packet if it is one, and raises interrupts of the two endpoints.
\<close>

definition deliver_packet :: "bool \<Rightarrow> u32 list \<Rightarrow> u32 \<Rightarrow> u32 \<Rightarrow> USB \<Rightarrow> USB" where
  "deliver_packet setup_bit packet out_ints in_ints u =
     (let i = next_ep0_out_idx u;
          flags = Df_DMA_DONE OR Df_LAST OR Df_IOC OR (if setup_bit then Df_SETUP_READY else 0)
      in on_in_ep 0 (ep_interrupt_update (\<lambda>_. in_ints)) (on_out_ep 0 (ep_interrupt_update (\<lambda>_. out_ints))
        (u\<lparr>ep0_out_buffers := map_option (\<lambda>bs. bs[i := packet]) (ep0_out_buffers u),
           ep0_out_descriptors := map_option (\<lambda>ds. ds[i := (ds ! i)\<lparr>desc_flags := flags\<rparr>]) (ep0_out_descriptors u)\<rparr>)))"

text \<open>The interrupts alone.\<close>

definition raise_ints :: "u32 \<Rightarrow> u32 \<Rightarrow> USB \<Rightarrow> USB" where
  "raise_ints out_ints in_ints u = on_in_ep 0 (ep_interrupt_update (\<lambda>_. in_ints)) (on_out_ep 0 (ep_interrupt_update (\<lambda>_. out_ints)) u)"

text \<open>The driver on a packet, behind the bookkeeping.\<close>

definition booked :: "bool \<Rightarrow> bool \<Rightarrow> u32 list \<Rightarrow> u32 \<Rightarrow> u32 \<Rightarrow> USB \<Rightarrow> USB" where
  "booked in_interrupt setup_bit packet out_ints in_ints u =
     swap_ep0_out_descriptors ((if in_interrupt then on_in_ep 0 (clear_ep_interrupts in_ints) else (\<lambda>u. u))
       (on_out_ep 0 (clear_ep_interrupts out_ints) (deliver_packet setup_bit packet out_ints in_ints u)))"

lemma booked_state:
  fixes in_interrupt setup_bit packet out_ints in_ints
  assumes "usb_wf u"
  defines "v \<equiv> booked in_interrupt setup_bit packet out_ints in_ints u"
  shows "usb_wf v" "us_state v = us_state u" "us_strings v = us_strings u" "last_ep0_out_idx v = next_ep0_out_idx u"
    "next_ep0_out_idx v = 1 - next_ep0_out_idx u" "the (ep0_out_buffers v) ! last_ep0_out_idx v = packet"
    "the (ep0_out_descriptors v) ! next_ep0_out_idx v = the (ep0_out_descriptors u) ! next_ep0_out_idx v"
    "desc_flags (the (ep0_out_descriptors v) ! last_ep0_out_idx v) AND Df_SETUP_READY = (if setup_bit then Df_SETUP_READY else 0)"
proof -
  obtain ods obs ids ib strs c where w: "ep0_out_descriptors u = Some ods" "ep0_out_buffers u = Some obs" "ep0_in_descriptors u = Some ids"
    "ep0_in_buffers u = Some ib" "us_strings u = Some strs" "configuration_descriptor u = Some c" "length ods = 2" "length obs = 2"
    "length ids = 4" "length ib = 64" "\<forall>s\<in>set strs. length (b_string s) < 128" "length c = 64" "configuration_total_length u \<le> 64"
    "next_ep0_out_idx u < 2" "last_ep0_out_idx u < 2"
    using assms(1) by (rule usb_wfE)
  have i: "next_ep0_out_idx u = 0 \<or> next_ep0_out_idx u = 1"
    using w(14) by linarith
  then have m: "Suc (next_ep0_out_idx u) mod 2 = 1 - next_ep0_out_idx u"
    by auto
  note defs = v_def booked_def deliver_packet_def swap_ep0_out_descriptors_def usb_ops Let_def
  show "usb_wf v"
    using w i m by (cases in_interrupt) (auto simp: usb_wf_def defs)
  show "us_state v = us_state u" "us_strings v = us_strings u" "last_ep0_out_idx v = next_ep0_out_idx u"
    "next_ep0_out_idx v = 1 - next_ep0_out_idx u"
    using w m by (cases in_interrupt; simp add: defs)+
  show "the (ep0_out_buffers v) ! last_ep0_out_idx v = packet"
    using w m by (cases in_interrupt; simp add: defs)
  show "the (ep0_out_descriptors v) ! next_ep0_out_idx v = the (ep0_out_descriptors u) ! next_ep0_out_idx v"
    using w m i by (cases in_interrupt; auto simp: defs)
  show "desc_flags (the (ep0_out_descriptors v) ! last_ep0_out_idx v) AND Df_SETUP_READY = (if setup_bit then Df_SETUP_READY else 0)"
    using w m by (cases in_interrupt; cases setup_bit; simp add: defs flag_defs)
qed

lemma transfer_completed:
  assumes "decode_interrupt out_ints \<in> {CaseA, CaseC, CaseE}"
  shows "reg_is_set (OutEndpointInterruptMask_field Out_TransferCompleted) out_ints"
  using assms by (simp add: decode_interrupt_def split: if_splits)

lemma any_packet_event:
  assumes "usb_wf u" "decode_interrupt out_ints \<in> {CaseA, CaseC, CaseE}"
  shows "handle_endpoint0_events tick after True in_interrupt (deliver_packet setup_bit packet out_ints in_ints u) =
    control_event tick after True in_interrupt in_ints (decode_interrupt out_ints) setup_bit (booked in_interrupt setup_bit packet out_ints in_ints u)"
proof -
  let ?u = "deliver_packet setup_bit packet out_ints in_ints u" and ?v = "booked in_interrupt setup_bit packet out_ints in_ints u"
  have r: "ep_interrupt (ur_out_endpoints (us_regs ?u) 0) = out_ints" "ep_interrupt (ur_in_endpoints (us_regs ?u) 0) = in_ints"
    by (simp_all add: deliver_packet_def Let_def usb_ops)
  obtain ds where ds: "ep0_out_descriptors ?v = Some ds"
    using booked_state(1) [OF assms(1)] by (rule usb_wfE)
  have b: "desc_flags (ds ! last_ep0_out_idx ?v) AND Df_SETUP_READY = Df_SETUP_READY \<longleftrightarrow> setup_bit"
    using booked_state(8) [OF assms(1), of in_interrupt setup_bit packet out_ints in_ints] ds by (simp add: flag_defs)
  have "(if True \<and> reg_is_set (OutEndpointInterruptMask_field Out_TransferCompleted) out_ints
     then swap_ep0_out_descriptors (if in_interrupt then on_in_ep 0 (clear_ep_interrupts in_ints) (on_out_ep 0 (clear_ep_interrupts out_ints) ?u)
       else on_out_ep 0 (clear_ep_interrupts out_ints) ?u) else x) = ?v" for x
    using transfer_completed [OF assms(2)] by (simp add: booked_def)
  then show ?thesis
    unfolding handle_endpoint0_events_def Let_def r if_True by (simp add: ds b)
qed

lemma packet_event:
  assumes "usb_wf u" "decode_interrupt out_ints = CaseA \<or> decode_interrupt out_ints = CaseC"
  shows "handle_endpoint0_events tick after True in_interrupt (deliver_packet setup_bit packet out_ints in_ints u) =
    control_event tick after True in_interrupt in_ints (decode_interrupt out_ints) setup_bit (booked in_interrupt setup_bit packet out_ints in_ints u)"
  using assms by (intro any_packet_event) auto

lemma in_completed_simps:
  "usb_wf (in_completed i ints u) = usb_wf u" "us_strings (in_completed i ints u) = us_strings u"
  "ep0_out_buffers (in_completed i ints u) = ep0_out_buffers u" "last_ep0_out_idx (in_completed i ints u) = last_ep0_out_idx u"
  "next_ep0_out_idx (in_completed i ints u) = next_ep0_out_idx u" "ep0_out_descriptors (in_completed i ints u) = ep0_out_descriptors u"
  "us_state (in_completed i ints u) = us_state u"
  by (simp_all add: in_completed_def) (simp_all add: usb_ops)

lemma in_completed_device:
  "requested_bytes (in_completed i ints u) req = requested_bytes u req" "request_panics (in_completed i ints u) req = request_panics u req"
  "same_device u (in_completed i ints u)"
proof -
  let ?v = "in_completed i ints u"
  have "us_strings ?v = us_strings u" "configuration_descriptor ?v = configuration_descriptor u"
    "configuration_total_length ?v = configuration_total_length u" "configuration_current_value ?v = configuration_current_value u"
    "generate_device_descriptor ?v = generate_device_descriptor u" and s: "same_device u ?v"
    by (simp_all add: in_completed_def usb_ops generate_device_descriptor_def same_device_def)
  then show "requested_bytes ?v req = requested_bytes u req" "request_panics ?v req = request_panics u req"
    by (simp_all add: requested_bytes_def request_panics_def cong: if_cong SetupRequestType.case_cong)
  show "same_device u ?v"
    by (fact s)
qed

lemma booked_device:
  "requested_bytes (booked in_interrupt setup_bit packet out_ints in_ints u) req = requested_bytes u req"
  "request_panics (booked in_interrupt setup_bit packet out_ints in_ints u) req = request_panics u req"
proof -
  let ?v = "booked in_interrupt setup_bit packet out_ints in_ints u"
  have "us_strings ?v = us_strings u" "configuration_descriptor ?v = configuration_descriptor u"
    "configuration_total_length ?v = configuration_total_length u" "configuration_current_value ?v = configuration_current_value u"
    "generate_device_descriptor ?v = generate_device_descriptor u"
    by (simp_all add: booked_def deliver_packet_def swap_ep0_out_descriptors_def usb_ops Let_def generate_device_descriptor_def split: option.split)
  then show "requested_bytes ?v req = requested_bytes u req" "request_panics ?v req = request_panics u req"
    by (simp_all add: requested_bytes_def request_panics_def cong: if_cong SetupRequestType.case_cong)
qed

text \<open>In every state of the driver a setup packet starts the request in it.\<close>

lemma setup_event:
  assumes "usb_wf u" "decode_interrupt out_ints = CaseA \<or> decode_interrupt out_ints = CaseC"
  obtains v where "handle_endpoint0_events tick after True in_interrupt (deliver_packet True packet out_ints in_ints u) =
      handle_request tick after (decode_interrupt out_ints) (SetupRequest_new packet) v"
    "usb_wf v" "next_ep0_out_idx v = 1 - next_ep0_out_idx u" "\<And>req. requested_bytes v req = requested_bytes u req"
    "\<And>req. request_panics v req = request_panics u req"
    "the (ep0_out_descriptors v) ! next_ep0_out_idx v = the (ep0_out_descriptors u) ! (1 - next_ep0_out_idx u)"
proof -
  let ?b = "booked in_interrupt True packet out_ints in_ints u"
  let ?v = "if us_state ?b = WaitingForSetupPacket then ?b else in_completed in_interrupt in_ints ?b"
  obtain obs where o: "ep0_out_buffers ?b = Some obs"
    using booked_state(1) [OF assms(1)] by (rule usb_wfE)
  have p: "obs ! last_ep0_out_idx ?b = packet"
    using booked_state(6) [OF assms(1), of in_interrupt True packet out_ints in_ints] o by simp
  have "handle_endpoint0_events tick after True in_interrupt (deliver_packet True packet out_ints in_ints u) =
    handle_request tick after (decode_interrupt out_ints) (SetupRequest_new packet) ?v"
    unfolding packet_event [OF assms] control_event_def using assms(2) o p
    by (cases "us_state ?b") (auto simp: Let_def setup_or_wait_def handle_setup_def in_completed_simps)
  moreover have "usb_wf ?v" "next_ep0_out_idx ?v = 1 - next_ep0_out_idx u"
    "the (ep0_out_descriptors ?v) ! next_ep0_out_idx ?v = the (ep0_out_descriptors u) ! (1 - next_ep0_out_idx u)"
    using booked_state [OF assms(1), of in_interrupt True packet out_ints in_ints] by (simp_all add: in_completed_simps)
  moreover have "requested_bytes ?v req = requested_bytes u req" "request_panics ?v req = request_panics u req" for req
    by (simp_all add: in_completed_device booked_device)
  ultimately show ?thesis
    using that [of ?v] by metis
qed

text \<open>A setup packet is handled in every state of the driver.\<close>

lemma setup_packet_outcome:
  assumes "flushes tick" "usb_wf u" "decode_interrupt out_ints = CaseA \<or> decode_interrupt out_ints = CaseC"
  shows "\<exists>r v. handle_endpoint0_events tick after True in_interrupt (deliver_packet True packet out_ints in_ints u) = Some (r, v) \<and>
    (r = Panic \<longleftrightarrow> request_panics u (SetupRequest_new packet)) \<and>
    (\<not> request_panics u (SetupRequest_new packet) \<and> \<not> request_ignored (SetupRequest_new packet) \<longrightarrow>
      r = Ok () \<and> listening v \<and> (stalled v \<or> usb_sending v)) \<and>
    (request_ignored (SetupRequest_new packet) \<longrightarrow>
      r = Ok () \<and> the (ep0_out_descriptors v) ! next_ep0_out_idx v = the (ep0_out_descriptors u) ! (1 - next_ep0_out_idx u))"
proof -
  let ?req = "SetupRequest_new packet"
  obtain v where v: "handle_endpoint0_events tick after True in_interrupt (deliver_packet True packet out_ints in_ints u) =
      handle_request tick after (decode_interrupt out_ints) ?req v" "usb_wf v" "\<And>req. request_panics v req = request_panics u req"
    "the (ep0_out_descriptors v) ! next_ep0_out_idx v = the (ep0_out_descriptors u) ! (1 - next_ep0_out_idx u)"
    using setup_event [OF assms(2,3)] by metis
  have x: "\<not> request_ignored ?req" if "request_panics u ?req"
    using that by (auto simp: request_panics_def request_ignored_def)
  show ?thesis
    by (rule request_outcome [OF assms(1) v(2), of ?req after "decode_interrupt out_ints"])
      (use v x in \<open>auto simp: carries_on_def\<close>)
qed

text \<open>C26. A setup packet is handled in every state of the driver. The kernel panics exactly on the requests of
  \<open>request_panics\<close>; a request that is not ignored leaves the driver listening for the next packet, with the
  endpoint stalled or a reply to send; an ignored one leaves the other descriptor as it was.
\<close>

theorem usb_setup_packet:
  assumes "flushes tick" "usb_wf u" "decode_interrupt out_ints = CaseA \<or> decode_interrupt out_ints = CaseC"
  shows "\<exists>r v. handle_endpoint0_events tick after True in_interrupt (deliver_packet True packet out_ints in_ints u) = Some (r, v) \<and>
    (r = Panic \<longleftrightarrow> request_panics u (SetupRequest_new packet)) \<and>
    (\<not> request_panics u (SetupRequest_new packet) \<and> \<not> request_ignored (SetupRequest_new packet) \<longrightarrow>
      r = Ok () \<and> listening v \<and> (stalled v \<or> usb_sending v)) \<and>
    (request_ignored (SetupRequest_new packet) \<longrightarrow>
      r = Ok () \<and> the (ep0_out_descriptors v) ! next_ep0_out_idx v = the (ep0_out_descriptors u) ! (1 - next_ep0_out_idx u))"
  by (rule setup_packet_outcome [OF assms])

text \<open>C25. A request for data that the driver has, in a setup packet, is answered: the driver sends the descriptor or the value, cut
  to the length that the host asks for, independent of what the buffers held before and of the memory behind the structures.
\<close>

theorem usb_reply_sent:
  assumes "flushes tick" "usb_wf u" "decode_interrupt out_ints = CaseA \<or> decode_interrupt out_ints = CaseC"
    "requested_bytes u (SetupRequest_new packet) = Some bs"
  shows "\<exists>v. handle_endpoint0_events tick after True in_interrupt (deliver_packet True packet out_ints in_ints u) = Some (Ok (), v) \<and>
    listening v \<and> usb_sending v \<and> us_state v = DataStageIn \<and> in_reply v = take (unat (w_length (SetupRequest_new packet))) bs"
proof -
  let ?req = "SetupRequest_new packet"
  obtain v where v: "handle_endpoint0_events tick after True in_interrupt (deliver_packet True packet out_ints in_ints u) =
      handle_request tick after (decode_interrupt out_ints) ?req v" "usb_wf v" "requested_bytes v ?req = Some bs"
    using setup_event [OF assms(2,3)] assms(4) by metis
  from request_answered [OF assms(1) v(2,3), of after "decode_interrupt out_ints"] show ?thesis
    unfolding usb_answers_def v(1) by blast
qed

section \<open>Sequences of control transfers\<close>

text \<open>
  The controller reports a packet in one of three ways (\<open>CaseA\<close>, \<open>CaseC\<close>, \<open>CaseE\<close>). The driver drops two kinds of packets
  without making the other descriptor ready: a setup packet with a request that it ignores, and a packet reported together with
  the status phase, unless it is in the status phase itself.
\<close>

definition deafening :: "USB \<Rightarrow> bool \<Rightarrow> u32 list \<Rightarrow> u32 \<Rightarrow> bool" where
  "deafening u setup_bit packet out_ints \<longleftrightarrow>
     (if decode_interrupt out_ints = CaseE then us_state u \<noteq> NoDataStage else setup_bit \<and> request_ignored (SetupRequest_new packet))"

text \<open>
  The events of endpoint 0: a reset of the bus, a packet, setup or not, that is not of these two kinds, and interrupts without a
  packet.
\<close>

inductive control_step :: "(USBRegisters \<Rightarrow> USBRegisters) \<Rightarrow> (nat \<Rightarrow> byte) \<Rightarrow> USB \<Rightarrow> USB \<Rightarrow> bool" for tick after where
  bus_reset: "control_step tick after u (usb_reset u)"
| packet: "decode_interrupt out_ints \<in> {CaseA, CaseC, CaseE} \<Longrightarrow> \<not> deafening u setup_bit words out_ints \<Longrightarrow>
    handle_endpoint0_events tick after True in_interrupt (deliver_packet setup_bit words out_ints in_ints u) = Some (Ok (), v) \<Longrightarrow> control_step tick after u v"
| no_packet: "decode_interrupt out_ints \<in> {CaseB, CaseD} \<Longrightarrow>
    handle_endpoint0_events tick after out_interrupt in_interrupt (raise_ints out_ints in_ints u) = Some (Ok (), v) \<Longrightarrow> control_step tick after u v"

lemma listening_simps [simp]:
  "listening (on_in_ep i f u) = listening u"
  "listening (on_out_ep 0 (ep_interrupt_update g) u) = listening u"
  "listening (on_out_ep 0 (clear_ep_interrupts ints) u) = listening u"
  by (simp_all add: listening_def) (simp_all add: usb_ops clear_ep_interrupts_def)

lemma listening_in_detected: "listening u \<Longrightarrow> listening (in_detected u)"
  by (simp add: in_detected_def listening_def) (simp add: usb_ops)

lemma listening_in_completed: "listening (in_completed i ints u) = listening u"
  by (simp add: in_completed_def)

lemma other_packet_listening:
  assumes "flushes tick" "usb_wf u" "decode_interrupt out_ints = CaseA \<or> decode_interrupt out_ints = CaseC"
    "handle_endpoint0_events tick after True in_interrupt (deliver_packet False packet out_ints in_ints u) = Some (Ok (), v)"
  shows "listening v"
proof -
  let ?b = "booked in_interrupt False packet out_ints in_ints u"
  have wf: "usb_wf ?b"
    by (rule booked_state [OF assms(2)])
  have "listening (expect_setup_packet (in_completed in_interrupt in_ints ?b))"
    using expect_setup_effect wf by (simp add: in_completed_simps)
  moreover have "listening w" if "stall_both_fifos tick ?b = Some (Ok (), w)" for w
    using stall_carries_on [OF assms(1) wf] that by (auto simp: carries_on_def)
  ultimately show ?thesis
    using assms(3,4) unfolding packet_event [OF assms(2,3)] control_event_def
    by (auto simp: Let_def setup_or_wait_def handle_unexpected_packet_def split: USBState.splits)
qed

lemma status_packet_listening:
  assumes "usb_wf u" "decode_interrupt out_ints = CaseE" "us_state u = NoDataStage"
  shows "\<exists>v. handle_endpoint0_events tick after True in_interrupt (deliver_packet setup_bit packet out_ints in_ints u) = Some (Ok (), v) \<and> listening v"
proof -
  let ?b = "booked in_interrupt setup_bit packet out_ints in_ints u"
  have b: "usb_wf ?b" "us_state ?b = NoDataStage"
    using booked_state [OF assms(1)] assms(3) by simp_all
  then have "listening (expect_setup_packet (in_completed in_interrupt in_ints ?b))"
    using expect_setup_effect by (simp add: in_completed_simps)
  then show ?thesis
    using any_packet_event [OF assms(1), of out_ints tick after in_interrupt setup_bit packet in_ints] assms(2) b(2)
    by (simp add: control_event_def Let_def)
qed

lemma no_packet_listening:
  assumes "flushes tick" "listening u" "decode_interrupt out_ints = CaseB \<or> decode_interrupt out_ints = CaseD"
    "handle_endpoint0_events tick after out_interrupt in_interrupt (raise_ints out_ints in_ints u) = Some (Ok (), v)"
  shows "listening v"
proof -
  let ?u = "raise_ints out_ints in_ints u"
  let ?o = "if out_interrupt then on_out_ep 0 (clear_ep_interrupts out_ints) ?u else ?u"
  let ?i = "if in_interrupt then on_in_ep 0 (clear_ep_interrupts in_ints) ?o else ?o"
  have r: "ep_interrupt (ur_out_endpoints (us_regs ?u) 0) = out_ints" "ep_interrupt (ur_in_endpoints (us_regs ?u) 0) = in_ints"
    by (simp_all add: raise_ints_def usb_ops)
  have l: "listening ?i"
    using assms(2) by (simp add: raise_ints_def)
  then have wf: "usb_wf ?i"
    by (simp add: listening_def)
  obtain ds where ds: "ep0_out_descriptors ?i = Some ds"
    using wf by (rule usb_wfE)
  have n: "\<not> reg_is_set (OutEndpointInterruptMask_field Out_TransferCompleted) out_ints"
    using assms(3) by (simp add: decode_interrupt_def split: if_splits)
  obtain b where h: "control_event tick after out_interrupt in_interrupt in_ints (decode_interrupt out_ints) b ?i = Some (Ok (), v)"
    using assms(4) ds n unfolding handle_endpoint0_events_def Let_def r by (simp split: if_splits)
  have "listening w" if "stall_both_fifos tick ?i = Some (Ok (), w)" for w
    using stall_carries_on [OF assms(1) wf] that by (auto simp: carries_on_def)
  moreover have "listening (in_completed in_interrupt in_ints ?i)" "listening (in_detected (in_completed in_interrupt in_ints ?i))"
    "listening (expect_setup_packet (in_completed in_interrupt in_ints ?i))"
    using l wf listening_in_detected expect_setup_effect by (simp_all add: listening_in_completed in_completed_simps)
  ultimately show ?thesis
    using h l assms(3) unfolding control_event_def
    by (auto simp: Let_def setup_or_wait_def handle_unexpected_packet_def split: USBState.splits if_splits)
qed

lemma control_step_listening:
  assumes "control_step tick after u v" "flushes tick" "listening u"
  shows "listening v"
  using assms(1)
proof cases
  case bus_reset
  then show ?thesis
    using assms(3) usb_reset_effect(1) [of u] by (simp add: listening_def)
next
  case (packet out_ints setup_bit words in_interrupt in_ints)
  have wf: "usb_wf u"
    using assms(3) by (simp add: listening_def)
  consider "decode_interrupt out_ints = CaseE" | "decode_interrupt out_ints = CaseA \<or> decode_interrupt out_ints = CaseC"
    using packet(1) by blast
  then show ?thesis
  proof cases
    case 1
    then show ?thesis
      using status_packet_listening [OF wf 1, of tick after in_interrupt setup_bit words in_ints] packet(2,3) by (auto simp: deafening_def)
  next
    case 2
    then have "\<not> (setup_bit \<and> request_ignored (SetupRequest_new words))"
      using packet(2) by (auto simp: deafening_def)
    then show ?thesis
      using setup_packet_outcome [OF assms(2) wf 2, of after in_interrupt words in_ints] other_packet_listening [OF assms(2) wf 2] packet(3)
      by (cases setup_bit) auto
  qed
next
  case (no_packet out_ints out_interrupt in_interrupt in_ints)
  then show ?thesis
    using no_packet_listening [OF assms(2,3)] by blast
qed

text \<open>C24. From the first reset of the bus on, the driver listens after every event of endpoint 0, however the controller reports
  it, as long as the kernel does not panic and the host sends neither of the two kinds of packets that the driver drops (a
  setup packet with an ignored request, and a packet reported with the status phase outside of it): the next descriptor is
  ready, the endpoint is enabled, its interrupt is not masked.
\<close>

theorem usb_keeps_listening:
  assumes "flushes tick" "usb_wf u" "(control_step tick after)\<^sup>*\<^sup>* (usb_reset u) v"
  shows "listening v"
  using assms(3)
proof (induction rule: rtranclp_induct)
  case base
  then show ?case
    using usb_reset_effect(1) [OF assms(2)] .
next
  case (step v w)
  then show ?case
    using control_step_listening [OF _ assms(1)] by blast
qed

text \<open>The two exceptions are real. A request that the driver ignores, such as the standard request to clear the halt of an
  endpoint, is accepted and never answered, and so is a packet that the controller reports together with the status phase: after
  the first of these behind a reset of the bus, the descriptor that the controller uses next is still busy for the host, no
  packet can arrive any more, and only another reset helps.
\<close>

theorem usb_dropped_packet_deafens:
  assumes "flushes tick" "usb_wf u" "decode_interrupt out_ints \<in> {CaseA, CaseC, CaseE}"
    "deafening (usb_reset u) setup_bit packet out_ints"
  shows "\<exists>v. handle_endpoint0_events tick after True in_interrupt (deliver_packet setup_bit packet out_ints in_ints (usb_reset u)) = Some (Ok (), v) \<and>
    \<not> listening v \<and> desc_flags (the (ep0_out_descriptors v) ! next_ep0_out_idx v) = Df_HOST_BUSY"
proof -
  have wf: "usb_wf (usb_reset u)"
    using usb_reset_effect [OF assms(2)] by (simp add: listening_def)
  obtain ods obs where o: "ep0_out_descriptors u = Some ods" "length ods = 2" "ep0_out_buffers u = Some obs" "length obs = 2"
    using assms(2) by (rule usb_wfE)
  have idle: "next_ep0_out_idx (usb_reset u) = 0" "us_state (usb_reset u) = WaitingForSetupPacket"
      and busy: "desc_flags (the (ep0_out_descriptors (usb_reset u)) ! 1) = Df_HOST_BUSY"
    using o by (simp_all add: usb_reset_def init_ep0_descriptors_def expect_setup_packet_def usb_ops Let_def split: option.split)
  have "\<exists>v. handle_endpoint0_events tick after True in_interrupt (deliver_packet setup_bit packet out_ints in_ints (usb_reset u)) = Some (Ok (), v) \<and>
      the (ep0_out_descriptors v) ! next_ep0_out_idx v = the (ep0_out_descriptors (usb_reset u)) ! 1"
  proof (cases "decode_interrupt out_ints = CaseE")
    case True
    then show ?thesis
      using any_packet_event [OF wf assms(3), of tick after in_interrupt setup_bit packet in_ints] idle
        booked_state [OF wf, of in_interrupt setup_bit packet out_ints in_ints] by (simp add: control_event_def)
  next
    case False
    then have "decode_interrupt out_ints = CaseA \<or> decode_interrupt out_ints = CaseC" "setup_bit" "request_ignored (SetupRequest_new packet)"
      using assms(3,4) by (auto simp: deafening_def)
    then show ?thesis
      using setup_packet_outcome [OF assms(1) wf, of out_ints after in_interrupt packet in_ints] idle by auto
  qed
  moreover have "Df_HOST_BUSY \<noteq> ARMED"
    by (simp add: flag_defs ARMED_def)
  ultimately show ?thesis
    using busy unfolding listening_def by metis
qed

section \<open>Address, status and configuration\<close>

text \<open>
  The request that sets the address of the device stores its seven bits in the address field and changes no other field of
  the register; the answer is the empty status packet.
\<close>

theorem usb_set_address:
  assumes "flushes tick" "usb_wf u" "req_type req = ClassStandard" "recipient req = ToDevice" "data_direction req = HostToDevice"
    "w_length req = 0" "request req = SetAddress"
  shows "\<exists>v. handle_request tick after transfer_type req u = Some (Ok (), v) \<and> us_state v = NoDataStage \<and> listening v \<and> usb_sending v \<and> in_reply v = [] \<and>
    field_get (DeviceConfig_field Dcfg_DeviceAddress) (ur_device_config (us_regs v)) = ucast (w_value req AND 0x7f) \<and>
    (\<forall>f. f = Dcfg_DeviceAddress \<or> field_get (DeviceConfig_field f) (ur_device_config (us_regs v)) = field_get (DeviceConfig_field f) (ur_device_config (us_regs u)))"
proof -
  let ?a = "ucast (w_value req AND 0x7f) :: u32"
  let ?c = "reg_modify [fval (DeviceConfig_field Dcfg_DeviceAddress) ?a] (ur_device_config (us_regs u))"
  let ?u = "setup_u2f_descriptors (on_usb_regs (ur_device_config_update (reg_modify [fval (DeviceConfig_field Dcfg_DeviceAddress) ?a])) u)"
  have wf: "usb_wf ?u"
    using assms(2) by (simp add: setup_u2f_fields)
  have c: "ur_device_config (us_regs ?u) = ?c"
    by (simp add: setup_u2f_fields on_usb_regs_def)
  have h: "handle_request tick after transfer_type req u = expect_status_phase_in tick transfer_type ?u"
    using assms(3-7) by (simp add: handle_request_def handle_standard_no_data_phase_def)
  obtain v where v: "expect_status_phase_in tick transfer_type ?u = Some (Ok (), v)" "listening v" "usb_sending v" "us_state v = NoDataStage"
    "same_device ?u v" "in_reply v = []"
    using status_effect [OF assms(1) wf] by metis
  have d: "ur_device_config (us_regs v) = ?c"
    using v(5) c by (simp add: same_device_def)
  have m7: "(0x7f :: u16) = mask 7" "(mask 7 :: u32) = 0x7f"
    by (simp_all add: mask_numeral)
  have "?a AND mask 7 = ?a"
    unfolding m7(1) by (rule bit_word_eqI) (auto simp: bit_simps)
  then have "field_get (DeviceConfig_field Dcfg_DeviceAddress) ?c = ?a"
    using devcfg.modify_get [of Dcfg_DeviceAddress ?a] by simp
  moreover have "f = Dcfg_DeviceAddress \<or> field_get (DeviceConfig_field f) ?c = field_get (DeviceConfig_field f) (ur_device_config (us_regs u))" for f
    using devcfg.modify_other [of Dcfg_DeviceAddress f ?a] by blast
  ultimately show ?thesis
    using v h d by auto
qed

text \<open>
  The request for the status of the device: the two bytes are prepared, and then the reply is made empty.
\<close>

lemma usb_get_status_empty:
  assumes "flushes tick" "usb_wf u" "req_type req = ClassStandard" "recipient req = ToDevice" "data_direction req = DeviceToHost"
    "request req = GetStatus"
  shows "\<exists>v. handle_request tick after transfer_type req u = Some (Ok (), v) \<and> usb_sending v \<and> in_reply v = []"
proof -
  obtain ib where ib: "ep0_in_buffers u = Some ib" "length ib = 64"
    using assms(2) by (rule usb_wfE)
  then have wf: "usb_wf (set_in_flags f (u\<lparr>ep0_in_buffers := map_option (\<lambda>buf. buf[0 := 0]) (ep0_in_buffers u)\<rparr>))" for f
    using assms(2) by (simp add: wf_updates)
  from status_effect [OF assms(1) wf] assms(3-6) show ?thesis
    by (simp add: handle_request_def handle_standard_device_to_host_def) metis
qed

text \<open>A configuration as a host reads it: a sequence of descriptors, each of which starts with its length.\<close>

function split_descriptors :: "byte list \<Rightarrow> byte list list" where
  "split_descriptors bs =
     (if bs = [] \<or> unat (hd bs) < 2 \<or> length bs < unat (hd bs) then []
      else take (unat (hd bs)) bs # split_descriptors (drop (unat (hd bs)) bs))"
  by pat_completeness auto
termination
  by (relation "measure length") auto

declare split_descriptors.simps [simp del]

definition full_configuration :: "byte list" where
  "full_configuration =
     ConfigurationDescriptor_bytes (set_total_length 41 (ConfigurationDescriptor_new 1 STRING_PLATFORM 50)) @
     InterfaceDescriptor_bytes (InterfaceDescriptor_new STRING_INTERFACE2 0 3 0 0) @ HidDeviceDescriptor_bytes HidDeviceDescriptor_new @
     EndpointDescriptor_bytes (EndpointDescriptor_new 0x01 u2f_attributes 2) @ EndpointDescriptor_bytes (EndpointDescriptor_new 0x81 u2f_attributes 2)"

lemma put_descriptor_ok:
  assumes "length bs = len" "pos + len \<le> length desc"
  shows "put_descriptor (put_u8s bs) len (pos, desc) = (Ok (), (pos + len, take pos desc @ bs @ drop (pos + len) desc))"
  using assms by (simp add: put_descriptor_def put_u8s_def)

lemma into_u8_bufs:
  "InterfaceDescriptor_into_u8_buf i = put_u8s (InterfaceDescriptor_bytes i)" "HidDeviceDescriptor_into_u8_buf h = put_u8s (HidDeviceDescriptor_bytes h)"
  "EndpointDescriptor_into_u8_buf e = put_u8s (EndpointDescriptor_bytes e)"
  "ConfigurationDescriptor_into_u8_buf c = put_u8s (ConfigurationDescriptor_bytes c)"
  by (simp_all add: fun_eq_iff InterfaceDescriptor_into_u8_buf_def HidDeviceDescriptor_into_u8_buf_def EndpointDescriptor_into_u8_buf_def
      ConfigurationDescriptor_into_u8_buf_def)

lemma generate_configuration:
  assumes "configuration_descriptor u = Some desc" "length desc = 64"
  shows "generate_full_configuration_descriptor u =
    Some (Ok (), u\<lparr>configuration_descriptor := Some (full_configuration @ drop 41 desc), configuration_total_length := 41\<rparr>)"
proof -
  let ?i = "InterfaceDescriptor_bytes (InterfaceDescriptor_new STRING_INTERFACE2 0 3 0 0)" and ?h = "HidDeviceDescriptor_bytes HidDeviceDescriptor_new"
  let ?o = "EndpointDescriptor_bytes (EndpointDescriptor_new 0x01 u2f_attributes 2)" and ?n = "EndpointDescriptor_bytes (EndpointDescriptor_new 0x81 u2f_attributes 2)"
  have len: "length ?i = 9" "length ?h = 9" "length ?o = 7" "length ?n = 7" "length (ConfigurationDescriptor_bytes c) = 9" for c
    by (simp_all add: InterfaceDescriptor_bytes_def HidDeviceDescriptor_bytes_def EndpointDescriptor_bytes_def ConfigurationDescriptor_bytes_def)
  have "put_interfaces (9, desc) = (Ok (), (41, take 9 desc @ ?i @ ?h @ ?o @ ?n @ drop 41 desc))"
    using assms(2) len by (simp add: put_interfaces_def into_u8_bufs put_descriptor_ok)
  then show ?thesis
    using assms len by (simp add: generate_full_configuration_descriptor_def CONFIGURATION_DESCRIPTOR_LENGTH_def into_u8_bufs
        put_descriptor_ok full_configuration_def)
qed

text \<open>The configuration that the driver generates, whatever its buffer held, is well formed: it splits into one configuration,
  one interface, one HID and two endpoint descriptors, which fill exactly the announced total length of 41 bytes; the numbers
  of interfaces and endpoints and the length of the report descriptor that they announce are those there are.
\<close>

theorem usb_configuration_well_formed:
  assumes "configuration_descriptor u = Some desc" "length desc = 64"
  shows "\<exists>v d. generate_full_configuration_descriptor u = Some (Ok (), v) \<and> configuration_descriptor v = Some d \<and> length d = 64 \<and>
    (let n = unat (configuration_total_length v); ds = split_descriptors (take n d) in
      concat ds = take n d \<and> map (\<lambda>x. x ! 1) ds = map u8_of_Descriptor [DescConfiguration, DescInterface, DescHidDevice, DescEndpoint, DescEndpoint] \<and>
      n = unat (d ! 2) + 256 * unat (d ! 3) \<and> unat (d ! 4) = length (filter (\<lambda>x. x ! 1 = u8_of_Descriptor DescInterface) ds) \<and>
      unat (ds ! 1 ! 4) = length (filter (\<lambda>x. x ! 1 = u8_of_Descriptor DescEndpoint) ds) \<and>
      unat (ds ! 2 ! 7) + 256 * unat (ds ! 2 ! 8) = length U2F_REPORT_DESCRIPTOR)"
proof -
  have f: "full_configuration = [9, 2, 41, 0, 1, 1, 3, 128, 50, 9, 4, 0, 0, 2, 3, 0, 0, 6, 9, 33, 0, 1, 0, 1, 34, 34, 0, 7, 5, 1, 3, 64, 0, 2, 7, 5, 129, 3, 64, 0, 2]"
    by (simp add: full_configuration_def ConfigurationDescriptor_bytes_def InterfaceDescriptor_bytes_def HidDeviceDescriptor_bytes_def
        EndpointDescriptor_bytes_def set_total_length_def ConfigurationDescriptor_new_def InterfaceDescriptor_new_def HidDeviceDescriptor_new_def
        EndpointDescriptor_new_def u8_from_EndpointAttributes_def u2f_attributes_def STRING_PLATFORM_def STRING_INTERFACE2_def
        CONFIGURATION_DESCRIPTOR_LENGTH_def MAX_PACKET_SIZE_def)
  have "split_descriptors full_configuration = [[9, 2, 41, 0, 1, 1, 3, 128, 50], [9, 4, 0, 0, 2, 3, 0, 0, 6], [9, 33, 0, 1, 0, 1, 34, 34, 0], [7, 5, 1, 3, 64, 0, 2],
    [7, 5, 129, 3, 64, 0, 2]]"
    unfolding f by (simp add: split_descriptors.simps)
  moreover have "take 41 (full_configuration @ drop 41 desc) = full_configuration" "length full_configuration = 41"
    unfolding f by simp_all
  ultimately show ?thesis
    using generate_configuration [OF assms] assms(2) by (simp add: Let_def U2F_REPORT_DESCRIPTOR_def f nth_append)
qed

section \<open>Initialization\<close>

lemma poll_regs: "flushes tick \<Longrightarrow> \<exists>w. snd (poll tick f n r) = r\<lparr>ur_reset := w\<rparr>"
proof (induction n arbitrary: r)
  case 0
  have "snd (poll tick f 0 r) = r\<lparr>ur_reset := ur_reset r\<rparr>"
    by (subst poll.simps) simp
  then show ?case ..
next
  case (Suc n)
  obtain w where t: "tick r = r\<lparr>ur_reset := w\<rparr>"
    using Suc.prems by (auto simp: flushes_def)
  obtain x where x: "snd (poll tick f n (tick r)) = (tick r)\<lparr>ur_reset := x\<rparr>"
    using Suc.IH [OF Suc.prems] by blast
  show ?case
  proof (cases "reg_is_set (UsbReset_field f) (ur_reset r)")
    case True
    then have "snd (poll tick f (Suc n) r) = r\<lparr>ur_reset := x\<rparr>"
      using x t by (subst poll.simps) simp
    then show ?thesis ..
  next
    case False
    then have "snd (poll tick f (Suc n) r) = r\<lparr>ur_reset := ur_reset r\<rparr>"
      by (subst poll.simps) simp
    then show ?thesis ..
  qed
qed

text \<open>The soft reset ends, whatever the controller does, and changes nothing but the reset register.\<close>

lemma soft_reset_regs:
  assumes "flushes tick"
  obtains w where "soft_reset tick u = u\<lparr>us_regs := (us_regs u)\<lparr>ur_reset := w\<rparr>\<rparr>"
proof -
  let ?r = "(us_regs u)\<lparr>ur_reset := reg_write [fval (UsbReset_field Rst_PiuFsDedicatedControllerSoftReset) 1]\<rparr>"
  obtain b r where p: "poll tick Rst_PiuFsDedicatedControllerSoftReset 10000 ?r = (b, r)"
    by fastforce
  then obtain x where r: "r = ?r\<lparr>ur_reset := x\<rparr>"
    using poll_regs [OF assms, of Rst_PiuFsDedicatedControllerSoftReset 10000 ?r] by auto
  obtain y where y: "snd (poll tick Rst_AhbMasterIdle 10000 r) = r\<lparr>ur_reset := y\<rparr>"
    using poll_regs [OF assms] by blast
  show ?thesis
  proof (cases b)
    case True
    then have "soft_reset tick u = u\<lparr>us_regs := (us_regs u)\<lparr>ur_reset := y\<rparr>\<rparr>"
      using p y r by (simp add: soft_reset_def)
    then show ?thesis
      by (rule that)
  next
    case False
    then have "soft_reset tick u = u\<lparr>us_regs := (us_regs u)\<lparr>ur_reset := x\<rparr>\<rparr>"
      using p r by (simp add: soft_reset_def)
    then show ?thesis
      by (rule that)
  qed
qed

lemma flushes_regs:
  assumes "flushes tick"
  obtains w where "flush_tx_fifo tick k u = Some (Ok (), u\<lparr>us_regs := (us_regs u)\<lparr>ur_reset := w\<rparr>\<rparr>)"
proof -
  let ?r = "\<lambda>n. (us_regs u)\<lparr>ur_reset := reg_write [fval (UsbReset_field Rst_TxFifoFlush) 1, fval (UsbReset_field Rst_TxFifoNumber) n]\<rparr>"
  obtain w where "wait_tx_flush tick (?r (if k < 16 then ucast k else 16)) = Some ((?r (if k < 16 then ucast k else 16))\<lparr>ur_reset := w\<rparr>)"
    using wait_tx_flush_ends [OF assms] .
  then show ?thesis
    by (intro that [of w]) (simp add: flush_tx_fifo_def Let_def)
qed

lemma flushes_rx_regs:
  assumes "flushes tick"
  obtains w where "flush_rx_fifo tick u = Some (Ok (), u\<lparr>us_regs := (us_regs u)\<lparr>ur_reset := w\<rparr>\<rparr>)"
proof -
  let ?r = "(us_regs u)\<lparr>ur_reset := reg_write [fval (UsbReset_field Rst_TxFifoFlush) 1]\<rparr>"
  obtain w where "wait_tx_flush tick ?r = Some (?r\<lparr>ur_reset := w\<rparr>)"
    using wait_tx_flush_ends [OF assms] .
  then show ?thesis
    by (intro that [of w]) (simp add: flush_rx_fifo_def)
qed

text \<open>The FIFO memory: the receive FIFO from word 0 on, then the transmit FIFOs.\<close>

definition fifo_words :: "u32 list" where
  "fifo_words = map (\<lambda>i. push_bit 16 (ucast TX_FIFO_SIZE) OR ucast (RX_FIFO_SIZE + word_of_nat i * TX_FIFO_SIZE)) [0..<15]"

lemma setup_data_fifos_regs:
  assumes "flushes tick"
  obtains w where "setup_data_fifos tick u = Some (Ok (), u\<lparr>us_regs := (us_regs u)\<lparr>ur_receive_fifo_size := 85,
    ur_transmit_fifo_size := 0x200055, ur_device_in_ep_tx_fifo_size := fifo_words, ur_reset := w\<rparr>\<rparr>)"
proof -
  let ?u = "u\<lparr>us_regs := (us_regs u)\<lparr>ur_receive_fifo_size := 85, ur_transmit_fifo_size := 0x200055, ur_device_in_ep_tx_fifo_size := fifo_words\<rparr>\<rparr>"
  obtain x where x: "flush_tx_fifo tick 0x10 ?u = Some (Ok (), ?u\<lparr>us_regs := (us_regs ?u)\<lparr>ur_reset := x\<rparr>\<rparr>)"
    using flushes_regs [OF assms] .
  obtain w where w: "flush_rx_fifo tick (?u\<lparr>us_regs := (us_regs ?u)\<lparr>ur_reset := x\<rparr>\<rparr>) =
    Some (Ok (), ?u\<lparr>us_regs := (us_regs ?u)\<lparr>ur_reset := x\<rparr>, us_regs := (us_regs ?u)\<lparr>ur_reset := x, ur_reset := w\<rparr>\<rparr>)"
    using flushes_rx_regs [OF assms, of "?u\<lparr>us_regs := (us_regs ?u)\<lparr>ur_reset := x\<rparr>\<rparr>"] by simp metis
  have "setup_data_fifos tick u = peff_bind (flush_tx_fifo tick 0x10) (\<lambda>_. flush_rx_fifo tick) ?u"
    by (simp add: setup_data_fifos_def on_usb_regs_def fifo_words_def RX_FIFO_SIZE_def TX_FIFO_SIZE_def MAX_CONTROL_ENDPOINTS_def MAX_NORMAL_ENDPOINTS_def
        MAX_PACKET_SIZE_def)
  also have "\<dots> = flush_rx_fifo tick (?u\<lparr>us_regs := (us_regs ?u)\<lparr>ur_reset := x\<rparr>\<rparr>)"
    by (rule peff_bind_Ok [where m = "flush_tx_fifo tick 0x10"]) (fact x)
  finally show ?thesis
    using w by (intro that [of w]) simp
qed

text \<open>The FIFO of endpoint 0 and the first FIFO of the others are given the same words of the memory.\<close>

lemma tx_fifos_overlap:
  assumes "flushes tick" "setup_data_fifos tick u = Some (Ok (), v)"
  shows "ur_device_in_ep_tx_fifo_size (us_regs v) ! 0 = ur_transmit_fifo_size (us_regs v)"
proof -
  have "fifo_words ! 0 = 0x200055"
    by (simp add: fifo_words_def RX_FIFO_SIZE_def TX_FIFO_SIZE_def MAX_CONTROL_ENDPOINTS_def MAX_NORMAL_ENDPOINTS_def MAX_PACKET_SIZE_def)
  moreover obtain w where "v = u\<lparr>us_regs := (us_regs u)\<lparr>ur_receive_fifo_size := 85, ur_transmit_fifo_size := 0x200055, ur_device_in_ep_tx_fifo_size := fifo_words, ur_reset := w\<rparr>\<rparr>"
    using setup_data_fifos_regs [OF assms(1), of u] assms(2) by auto
  ultimately show ?thesis
    by simp
qed

text \<open>The memory that the board gives: two receive buffers, four send descriptors, and buffers of 64 bytes for each of them.\<close>

definition memory_ok :: "UsbMemory \<Rightarrow> bool" where
  "memory_ok m \<longleftrightarrow> length (um_ep0_out_descriptors m) = 2 \<and> length (um_ep0_out_buffers m) = 2 \<and> length (um_ep0_in_descriptors m) = 4 \<and>
     length (um_ep0_in_buffers m) = 64 \<and> length (um_configuration_buffer m) = 64"

lemma unmask_wf: "usb_wf (unmask_and_connect u) = usb_wf u"
  by (simp add: unmask_and_connect_def modify_device_control_def)

lemma core_wf:
  assumes "flushes tick"
  shows "usb_wf (core_initialization tick phy u) = usb_wf u"
proof -
  have "usb_wf (soft_reset tick v) = usb_wf v" for v
    by (rule soft_reset_regs [OF assms, where u = v]) (simp add: usb_wf_def)
  then show ?thesis
    unfolding core_initialization_def Let_def modify_device_control_def by simp
qed

definition configured :: "UsbMemory \<Rightarrow> byte option \<Rightarrow> u16 option \<Rightarrow> u16 option \<Rightarrow> StringDescriptor list \<Rightarrow> USB \<Rightarrow> USB" where
  "configured m device_class vendor_id product_id strings u = (install_memory m device_class vendor_id product_id strings u)
     \<lparr>configuration_descriptor := Some (full_configuration @ drop 41 (um_configuration_buffer m)), configuration_total_length := 41\<rparr>"

lemma configured_wf:
  assumes "memory_ok m" "\<forall>s\<in>set strings. length (b_string s) < 128"
  shows "usb_wf (configured m device_class vendor_id product_id strings (USB_new r))"
proof -
  have "length full_configuration = 41"
    by (simp add: full_configuration_def ConfigurationDescriptor_bytes_def InterfaceDescriptor_bytes_def HidDeviceDescriptor_bytes_def
        EndpointDescriptor_bytes_def)
  then show ?thesis
    using assms by (simp add: configured_def usb_wf_def memory_ok_def install_memory_def USB_new_def)
qed

lemma connect_registers:
  "\<not> reg_is_set (DeviceControl_field Dctl_SoftDisconnect) (ur_device_control (us_regs (unmask_and_connect u)))"
  "ur_interrupt_mask (us_regs (unmask_and_connect u)) = 0xC3CC8"
  by (simp_all add: unmask_and_connect_def modify_device_control_def on_usb_regs_def Let_def reg_field_simps bit_eq_iff) (auto simp: bit_simps)

lemma usb_init_connects:
  assumes "flushes tick" "memory_ok m" "\<forall>s\<in>set strings. length (b_string s) < 128"
  shows "\<exists>v p'. usb_init tick m phy device_class vendor_id product_id strings (USB_new r, p) = Some (Ok (), (v, p')) \<and>
    clock_runs p' (Bank1 Clk_Usb0) \<and> clock_runs p' (Bank1 Clk_Usb0TimerHs) \<and> usb_wf v \<and> configuration_total_length v = 41 \<and>
    us_vendor_id v = (case vendor_id of Some x \<Rightarrow> x | None \<Rightarrow> 0x0011) \<and> ur_interrupt_mask (us_regs v) = 0xC3CC8 \<and>
    \<not> reg_is_set (DeviceControl_field Dctl_SoftDisconnect) (ur_device_control (us_regs v)) \<and>
    listening (usb_reset v) \<and> field_get (DeviceConfig_field Dcfg_DeviceAddress) (ur_device_config (us_regs (usb_reset v))) = 0"
proof -
  let ?c = "configured m device_class vendor_id product_id strings (USB_new r)"
  let ?i = "core_initialization tick phy ?c"
  let ?p = "Clock_enable (Bank1 Clk_Usb0TimerHs) (Clock_enable (Bank1 Clk_Usb0) p)"
  obtain w where w: "setup_data_fifos tick ?i = Some (Ok (), ?i\<lparr>us_regs := (us_regs ?i)\<lparr>ur_receive_fifo_size := 85,
    ur_transmit_fifo_size := 0x200055, ur_device_in_ep_tx_fifo_size := fifo_words, ur_reset := w\<rparr>\<rparr>)"
    using setup_data_fifos_regs [OF assms(1)] .
  let ?f = "?i\<lparr>us_regs := (us_regs ?i)\<lparr>ur_receive_fifo_size := 85,
    ur_transmit_fifo_size := 0x200055, ur_device_in_ep_tx_fifo_size := fifo_words, ur_reset := w\<rparr>\<rparr>"
  let ?v = "unmask_and_connect ?f"
  have g: "generate_full_configuration_descriptor (install_memory m device_class vendor_id product_id strings (USB_new r)) = Some (Ok (), ?c)"
    using generate_configuration [of "install_memory m device_class vendor_id product_id strings (USB_new r)" "um_configuration_buffer m"] assms(2)
    by (simp add: configured_def install_memory_def memory_ok_def)
  have "usb_init tick m phy device_class vendor_id product_id strings (USB_new r, p) = Some (Ok (), (?v, ?p))"
    using g w by (simp add: usb_init_def beside_def peff_bind_def del: Clock_enable.simps)
  moreover have "usb_wf ?i"
    using configured_wf [OF assms(2,3)] core_wf [OF assms(1)] by simp
  then have wf: "usb_wf ?v"
    by (simp add: unmask_wf) (simp add: usb_wf_def)
  have fields: "configuration_total_length (unmask_and_connect x) = configuration_total_length x" "us_vendor_id (unmask_and_connect x) = us_vendor_id x" for x
    by (simp_all add: unmask_and_connect_def modify_device_control_def on_usb_regs_def)
  have "configuration_total_length (soft_reset tick x) = configuration_total_length x" "us_vendor_id (soft_reset tick x) = us_vendor_id x" for x
    by (rule soft_reset_regs [OF assms(1), where u = x], simp)+
  then have "configuration_total_length (core_initialization tick phy x) = configuration_total_length x"
    "us_vendor_id (core_initialization tick phy x) = us_vendor_id x" for x
    by (simp_all add: core_initialization_def modify_device_control_def on_usb_regs_def Let_def)
  then have "configuration_total_length ?v = 41" "us_vendor_id ?v = (case vendor_id of Some x \<Rightarrow> x | None \<Rightarrow> 0x0011)"
    by (simp_all add: fields) (simp_all add: configured_def install_memory_def USB_new_def split: option.split)
  moreover have "clock_runs ?p (Bank1 Clk_Usb0)" "clock_runs ?p (Bank1 Clk_Usb0TimerHs)"
    by (simp_all add: clock_switched del: Clock_enable.simps clock_runs.simps)
  ultimately show ?thesis
    using wf connect_registers [of ?f] usb_reset_effect [OF wf] by blast
qed

text \<open>Initialization of a new driver returns with the memory and the strings of the board in place, the configuration generated, the
  two clocks running, the interrupts for resets and endpoints unmasked, and the device connected; the first reset of the bus makes
  the driver listen at address 0.
\<close>

theorem usb_boots:
  assumes "flushes tick" "memory_ok m" "\<forall>s\<in>set strings. length (b_string s) < 128"
  shows "\<exists>v p'. usb_init tick m phy device_class vendor_id product_id strings (USB_new r, p) = Some (Ok (), (v, p')) \<and>
    clock_runs p' (Bank1 Clk_Usb0) \<and> clock_runs p' (Bank1 Clk_Usb0TimerHs) \<and> usb_wf v \<and> configuration_total_length v = 41 \<and>
    us_vendor_id v = (case vendor_id of Some x \<Rightarrow> x | None \<Rightarrow> 0x0011) \<and> ur_interrupt_mask (us_regs v) = 0xC3CC8 \<and>
    \<not> reg_is_set (DeviceControl_field Dctl_SoftDisconnect) (ur_device_control (us_regs v)) \<and>
    listening (usb_reset v) \<and> field_get (DeviceConfig_field Dcfg_DeviceAddress) (ur_device_config (us_regs (usb_reset v))) = 0"
  using assms by (rule usb_init_connects)

section \<open>Examples\<close>

text \<open>A controller that flushes at once, and the driver with the memory of the board and seven strings.\<close>

definition demo_flush :: "USBRegisters \<Rightarrow> USBRegisters" where
  "demo_flush r = r\<lparr>ur_reset := ur_reset r AND NOT 0x20\<rparr>"

definition demo_usb_regs :: USBRegisters where
  "demo_usb_regs = \<lparr>ur_ahb_config = 0, ur_configuration = 0, ur_reset = 0, ur_interrupt_status = 0, ur_interrupt_mask = 0, ur_receive_fifo_size = 0,
     ur_transmit_fifo_size = 0, ur_gpio = 0, ur_device_in_ep_tx_fifo_size = replicate 15 0, ur_device_config = 0, ur_device_control = 0,
     ur_device_in_ep_interrupt_mask = 0, ur_device_out_ep_interrupt_mask = 0, ur_device_all_ep_interrupt = 0, ur_device_all_ep_interrupt_mask = 0,
     ur_in_endpoints = (\<lambda>_. \<lparr>ep_control = 0, ep_interrupt = 0, ep_dma_address = NoDescriptor\<rparr>),
     ur_out_endpoints = (\<lambda>_. \<lparr>ep_control = 0, ep_interrupt = 0, ep_dma_address = NoDescriptor\<rparr>)\<rparr>"

definition demo_strings :: "StringDescriptor list" where
  "demo_strings = map StringDescriptor_new [[0x0409], [0x47], [0x47, 0x32], [0x50], [0x53], [0x42], [0x55, 0x32, 0x46]]"

definition demo_usb :: USB where
  "demo_usb = configured STATIC_USB_MEMORY None (Some 0x18d1) (Some 0x5026) demo_strings (USB_new demo_usb_regs)"

definition demo_setup_packet :: "byte \<Rightarrow> byte \<Rightarrow> u16 \<Rightarrow> u16 \<Rightarrow> u32 list" where
  "demo_setup_packet t r v n = setup_words \<lparr>bm_request_type = t, b_request = r, w_value = v, w_index = 0, w_length = n\<rparr> @ replicate 14 0"

lemma demo_request [simp]:
  "SetupRequest_new (demo_setup_packet t r v n) = \<lparr>bm_request_type = t, b_request = r, w_value = v, w_index = 0, w_length = n\<rparr>"
  unfolding demo_setup_packet_def by (rule setup_roundtrip)

lemma demo_flushes: "flushes demo_flush"
proof -
  have "\<exists>n. \<not> reg_is_set (UsbReset_field Rst_TxFifoFlush) (ur_reset ((demo_flush ^^ n) r))" for r
    by (rule exI [of _ 1]) (simp add: demo_flush_def reg_field_simps and.assoc)
  moreover have "\<exists>w. demo_flush r = r\<lparr>ur_reset := w\<rparr>" for r
    by (auto simp: demo_flush_def)
  ultimately show ?thesis
    unfolding flushes_def by blast
qed

lemma demo_memory_ok: "memory_ok STATIC_USB_MEMORY" "\<forall>s\<in>set demo_strings. length (b_string s) < 128"
  by (simp_all add: memory_ok_def STATIC_USB_MEMORY_def demo_strings_def StringDescriptor_new_def)

lemma demo_usb_wf: "usb_wf demo_usb"
  unfolding demo_usb_def by (rule configured_wf [OF demo_memory_ok])

lemma demo_strings_length: "length (the (us_strings demo_usb)) = 7"
  by (simp add: demo_usb_def configured_def install_memory_def demo_strings_def)

lemma demo_case: "decode_interrupt 9 = CaseC"
  by (simp add: decode_interrupt_def reg_field_simps)

theorem usb_setup_packet_witness:
  "flushes demo_flush \<and> usb_wf demo_usb \<and> decode_interrupt 9 = CaseC \<and>
   (\<exists>v. handle_endpoint0_events demo_flush (\<lambda>_. 0) True False (deliver_packet True (demo_setup_packet 0x80 0 0 2) 9 0 demo_usb) = Some (Ok (), v) \<and> listening v) \<and>
   (\<exists>v. handle_endpoint0_events demo_flush (\<lambda>_. 0) True False (deliver_packet True (demo_setup_packet 0x80 6 0x0307 255) 9 0 demo_usb) = Some (Panic, v))"
proof -
  let ?a = "demo_setup_packet 0x80 0 0 2" and ?b = "demo_setup_packet 0x80 6 0x0307 255"
  have 1: "\<not> request_panics demo_usb (SetupRequest_new ?a)" "\<not> request_ignored (SetupRequest_new ?a)"
    by (simp_all add: request_panics_def request_ignored_def req_type_def recipient_def request_def data_direction_def)
  have 2: "request_panics demo_usb (SetupRequest_new ?b)"
    by (simp add: request_panics_def req_type_def recipient_def request_def data_direction_def demo_strings_length)
  show ?thesis
    using usb_setup_packet [OF demo_flushes demo_usb_wf, of 9 "\<lambda>_. 0" False ?a 0] usb_setup_packet [OF demo_flushes demo_usb_wf, of 9 "\<lambda>_. 0" False ?b 0]
      demo_flushes demo_usb_wf demo_case 1 2 by auto
qed

theorem usb_reply_sent_witness:
  "flushes demo_flush \<and> usb_wf demo_usb \<and> decode_interrupt 9 = CaseC \<and>
   (\<exists>v. handle_endpoint0_events demo_flush (\<lambda>_. 0) True False (deliver_packet True (demo_setup_packet 0x80 6 0x0100 10) 9 0 demo_usb) = Some (Ok (), v) \<and>
     in_reply v = [18, 1, 0, 2, 0, 0, 0, 64, 0xd1, 0x18])"
proof -
  let ?a = "demo_setup_packet 0x80 6 0x0100 10"
  let ?d = "DeviceDescriptor_bytes (generate_device_descriptor demo_usb)"
  have 1: "requested_bytes demo_usb (SetupRequest_new ?a) = Some ?d"
    by (simp add: requested_bytes_def req_type_def recipient_def request_def data_direction_def)
  have "take 10 ?d = [18, 1, 0, 2, 0, 0, 0, 64, 0xd1, 0x18]"
    by (simp add: DeviceDescriptor_bytes_def generate_device_descriptor_def half_bytes_def demo_usb_def configured_def install_memory_def
        USB_new_def MAX_PACKET_SIZE_def)
  then show ?thesis
    using usb_reply_sent [OF demo_flushes demo_usb_wf _ 1, of 9 "\<lambda>_. 0" False 0] demo_flushes demo_usb_wf demo_case by auto
qed

text \<open>A reset of the bus, the request that sets the address, and the packet that ends its status phase.\<close>

theorem usb_keeps_listening_witness:
  "flushes demo_flush \<and> usb_wf demo_usb \<and>
   (\<exists>v w. handle_endpoint0_events demo_flush (\<lambda>_. 0) True False (deliver_packet True (demo_setup_packet 0 5 0x12 0) 9 0 (usb_reset demo_usb)) = Some (Ok (), v) \<and>
     handle_endpoint0_events demo_flush (\<lambda>_. 0) True True (deliver_packet False (replicate 16 0) 0x21 1 v) = Some (Ok (), w) \<and>
     (control_step demo_flush (\<lambda>_. 0))\<^sup>*\<^sup>* (usb_reset demo_usb) w \<and> listening v \<and> listening w)"
proof -
  let ?a = "demo_setup_packet 0 5 0x12 0"
  have wf: "usb_wf (usb_reset demo_usb)"
    using usb_reset_effect [OF demo_usb_wf] by (simp add: listening_def)
  have a: "\<not> request_panics u (SetupRequest_new ?a)" "\<not> request_ignored (SetupRequest_new ?a)" for u
    by (simp_all add: request_panics_def request_ignored_def req_type_def recipient_def request_def data_direction_def)
  obtain v where v: "handle_endpoint0_events demo_flush (\<lambda>_. 0) True False (deliver_packet True ?a 9 0 (usb_reset demo_usb)) = Some (Ok (), v)"
      and state: "us_state v = NoDataStage"
  proof -
    obtain u where u: "handle_endpoint0_events demo_flush (\<lambda>_. 0) True False (deliver_packet True ?a 9 0 (usb_reset demo_usb)) =
        handle_request demo_flush (\<lambda>_. 0) CaseC (SetupRequest_new ?a) u" "usb_wf u"
      using setup_event [OF wf, of 9 demo_flush "\<lambda>_. 0" False ?a 0] demo_case by metis
    show thesis
      using usb_set_address [OF demo_flushes u(2), of "SetupRequest_new ?a" "\<lambda>_. 0" CaseC] u(1) that
      by (auto simp: req_type_def recipient_def request_def data_direction_def)
  qed
  have e: "decode_interrupt 0x21 = CaseE"
    by (simp add: decode_interrupt_def reg_field_simps)
  have s1: "control_step demo_flush (\<lambda>_. 0) (usb_reset demo_usb) v"
    using a demo_case by (intro control_step.packet [OF _ _ v]) (simp_all add: deafening_def)
  then have l: "listening v"
    using usb_keeps_listening [OF demo_flushes demo_usb_wf] by blast
  obtain w where w: "handle_endpoint0_events demo_flush (\<lambda>_. 0) True True (deliver_packet False (replicate 16 0) 0x21 1 v) = Some (Ok (), w)"
      "control_step demo_flush (\<lambda>_. 0) v w"
    using status_packet_listening [OF _ e state, of demo_flush "\<lambda>_. 0" True False "replicate 16 0" 1] l e state
      control_step.packet [of "0x21" v False "replicate 16 0" demo_flush "\<lambda>_. 0" True 1]
    by (auto simp: listening_def deafening_def)
  show ?thesis
    using v w s1 l usb_keeps_listening [OF demo_flushes demo_usb_wf] demo_flushes demo_usb_wf
    by (metis (no_types, lifting) rtranclp.rtrancl_into_rtrancl r_into_rtranclp)
qed

theorem usb_dropped_packet_deafens_witness:
  "flushes demo_flush \<and> usb_wf demo_usb \<and> decode_interrupt 9 = CaseC \<and> request_ignored (SetupRequest_new (demo_setup_packet 0x02 1 0 0)) \<and>
   (\<exists>v. handle_endpoint0_events demo_flush (\<lambda>_. 0) True False (deliver_packet True (demo_setup_packet 0x02 1 0 0) 9 0 (usb_reset demo_usb)) = Some (Ok (), v) \<and>
     \<not> listening v)"
proof -
  have i: "request_ignored (SetupRequest_new (demo_setup_packet 0x02 1 0 0))"
    by (simp add: request_ignored_def req_type_def recipient_def)
  then have "deafening (usb_reset demo_usb) True (demo_setup_packet 0x02 1 0 0) 9"
    by (simp add: deafening_def demo_case)
  then show ?thesis
    using usb_dropped_packet_deafens [OF demo_flushes demo_usb_wf, of 9 True "demo_setup_packet 0x02 1 0 0" "\<lambda>_. 0" False 0]
      demo_flushes demo_usb_wf demo_case i by auto
qed

theorem usb_set_address_witness:
  "\<exists>v. handle_request demo_flush (\<lambda>_. 0) CaseC (SetupRequest_new (demo_setup_packet 0 5 0x12 0)) demo_usb = Some (Ok (), v) \<and>
     field_get (DeviceConfig_field Dcfg_DeviceAddress) (ur_device_config (us_regs v)) = 0x12"
  using usb_set_address [OF demo_flushes demo_usb_wf, of "SetupRequest_new (demo_setup_packet 0 5 0x12 0)" "\<lambda>_. 0" CaseC]
  by (auto simp: req_type_def recipient_def request_def data_direction_def)

theorem usb_configuration_well_formed_witness:
  "\<exists>v. generate_full_configuration_descriptor (install_memory STATIC_USB_MEMORY None None None demo_strings (USB_new demo_usb_regs)) = Some (Ok (), v) \<and>
     length (the (configuration_descriptor v)) = 64"
  using usb_configuration_well_formed [of "install_memory STATIC_USB_MEMORY None None None demo_strings (USB_new demo_usb_regs)" "replicate 64 0"]
  by (auto simp: install_memory_def STATIC_USB_MEMORY_def)

theorem usb_boots_witness:
  "flushes demo_flush \<and> memory_ok STATIC_USB_MEMORY \<and>
   (\<exists>v p'. usb_init demo_flush STATIC_USB_MEMORY PHY_A None (Some 0x18d1) (Some 0x5026) demo_strings
      (USB_new demo_usb_regs, \<lparr>pmu_reset = 0, pmu_reset0 = 0, pmu_clocks0 = 0, pmu_clocks1 = 0\<rparr>) = Some (Ok (), (v, p')) \<and>
      us_vendor_id v = 0x18d1 \<and> listening (usb_reset v))"
  using usb_boots [OF demo_flushes demo_memory_ok, of PHY_A None "Some 0x18d1" "Some 0x5026" demo_usb_regs "\<lparr>pmu_reset = 0, pmu_reset0 = 0, pmu_clocks0 = 0, pmu_clocks1 = 0\<rparr>"]
    demo_flushes demo_memory_ok by auto

end
