(* ===== verification/U2f_Driver.thy ===== *)
theory U2f_Driver
  imports Usb_Session Grants
begin

text \<open>
  The system calls of the U2F interface (\<^verbatim>\<open>usb/driver.rs\<close>) over the trait of the endpoints
  (\<^verbatim>\<open>usb/u2f.rs\<close>), and both on the USB driver: frames of 64 bytes between applications and the host.
\<close>

section \<open>State\<close>

text \<open>The operations of the endpoints that the system calls use.\<close>

record 's UsbHidU2f =
  hid_enable_rx :: "'s \<Rightarrow> ReturnCode \<times> 's"
  hid_get_slice :: "byte list \<Rightarrow> 's \<Rightarrow> ReturnCode \<times> byte list"
  hid_transmit_ready :: "'s \<Rightarrow> bool"
  hid_put_slice :: "byte list \<Rightarrow> 's \<Rightarrow> ReturnCode \<times> 's"

definition usb_u2f :: "USB UsbHidU2f" where
  "usb_u2f = \<lparr>hid_enable_rx = usb_enable_rx, hid_get_slice = get_slice, hid_transmit_ready = transmit_ready, hid_put_slice = put_slice\<rparr>"

record U2fApp =
  u2_tx_callback :: bool
  u2_rx_callback :: bool
  u2_connection_callback :: bool
  u2_tx_buffer :: "byte list option"
  u2_rx_buffer :: "byte list option"

definition U2fApp_default :: U2fApp where
  "U2fApp_default = \<lparr>u2_tx_callback = False, u2_rx_callback = False, u2_connection_callback = False, u2_tx_buffer = None, u2_rx_buffer = None\<rparr>"

text \<open>The callbacks that are scheduled, in order.\<close>

datatype u2f_upcall = TransmitDone | ReceiveDone | Reconnected

record U2fSyscallDriver =
  u2_apps :: "U2fApp grant"
  u2_busy :: bool
  u2_scheduled :: "(nat \<times> u2f_upcall) list"

definition U2fSyscallDriver_new :: U2fSyscallDriver where
  "U2fSyscallDriver_new = \<lparr>u2_apps = [], u2_busy = False, u2_scheduled = []\<rparr>"

section \<open>Callbacks of the endpoints\<close>

definition schedule_all :: "(U2fApp \<Rightarrow> bool) \<Rightarrow> u2f_upcall \<Rightarrow> U2fSyscallDriver \<Rightarrow> U2fSyscallDriver" where
  "schedule_all subscribed c d = d\<lparr>u2_scheduled := u2_scheduled d @ map (\<lambda>(app, _). (app, c)) (filter (\<lambda>(_, a). subscribed a) (u2_apps d))\<rparr>"

definition u2_reconnected :: "'s \<times> U2fSyscallDriver \<Rightarrow> 's \<times> U2fSyscallDriver" where
  "u2_reconnected = apsnd (schedule_all u2_connection_callback Reconnected)"

definition u2_frame_received :: "'s UsbHidU2f \<Rightarrow> 's \<times> U2fSyscallDriver \<Rightarrow> 's \<times> U2fSyscallDriver" where
  "u2_frame_received H = (\<lambda>(s, d).
     (s, schedule_all u2_rx_callback ReceiveDone
       (d\<lparr>u2_apps := map (\<lambda>(app, a). (app, a\<lparr>u2_rx_buffer := map_option (\<lambda>buf. snd (hid_get_slice H buf s)) (u2_rx_buffer a)\<rparr>)) (u2_apps d)\<rparr>)))"

definition u2_frame_transmitted :: "'s \<times> U2fSyscallDriver \<Rightarrow> 's \<times> U2fSyscallDriver" where
  "u2_frame_transmitted = apsnd (schedule_all u2_tx_callback TransmitDone)"

definition u2f_client :: "U2fSyscallDriver UsbHidU2fClient" where
  "u2f_client = \<lparr>cl_reconnected = u2_reconnected, cl_frame_received = u2_frame_received usb_u2f, cl_frame_transmitted = u2_frame_transmitted\<rparr>"

section \<open>System calls\<close>

definition u2_enter :: "(nat \<Rightarrow> bool) \<Rightarrow> nat \<Rightarrow> (U2fApp \<Rightarrow> U2fApp) \<Rightarrow> U2fSyscallDriver \<Rightarrow> ReturnCode \<times> U2fSyscallDriver" where
  "u2_enter alloc app f d =
     (case grant_enter alloc U2fApp_default app (\<lambda>a. ((), f a)) (u2_apps d) of
        (None, g) \<Rightarrow> (ENOMEM, d\<lparr>u2_apps := g\<rparr>) | (Some _, g) \<Rightarrow> (SUCCESS, d\<lparr>u2_apps := g\<rparr>))"

definition u2_allow :: "(nat \<Rightarrow> bool) \<Rightarrow> nat \<Rightarrow> nat \<Rightarrow> byte list option \<Rightarrow> U2fSyscallDriver \<Rightarrow> ReturnCode \<times> U2fSyscallDriver" where
  "u2_allow alloc app allow_num buf d =
     (if allow_num = 1 then u2_enter alloc app (\<lambda>a. a\<lparr>u2_tx_buffer := buf\<rparr>) d
      else if allow_num = 2 then u2_enter alloc app (\<lambda>a. a\<lparr>u2_rx_buffer := buf\<rparr>) d
      else (ENOSUPPORT, d))"

definition u2_subscribe :: "(nat \<Rightarrow> bool) \<Rightarrow> nat \<Rightarrow> nat \<Rightarrow> bool \<Rightarrow> U2fSyscallDriver \<Rightarrow> ReturnCode \<times> U2fSyscallDriver" where
  "u2_subscribe alloc app subscribe_num callback d =
     (if subscribe_num = 1 then u2_enter alloc app (\<lambda>a. a\<lparr>u2_tx_callback := callback\<rparr>) d
      else if subscribe_num = 2 then u2_enter alloc app (\<lambda>a. a\<lparr>u2_rx_callback := callback\<rparr>) d
      else if subscribe_num = 3 then u2_enter alloc app (\<lambda>a. a\<lparr>u2_connection_callback := callback\<rparr>) d
      else (ENOSUPPORT, d))"

text \<open>The loop that waits for the endpoint; \<open>dma\<close> is a step of the controller.\<close>

partial_function (option) wait_transmit_ready :: "('s \<Rightarrow> bool) \<Rightarrow> ('s \<Rightarrow> 's) \<Rightarrow> 's \<Rightarrow> 's option" where
  "wait_transmit_ready ready dma s = (if \<not> ready s then wait_transmit_ready ready dma (dma s) else Some s)"

definition u2_transmit :: "'s UsbHidU2f \<Rightarrow> ('s \<Rightarrow> 's) \<Rightarrow> U2fApp \<Rightarrow> 's \<Rightarrow> (ReturnCode \<times> 's) option" where
  "u2_transmit H dma a s =
     (case (u2_tx_callback a, u2_tx_buffer a) of
        (True, Some buf) \<Rightarrow>
          map_option (\<lambda>s. if hid_transmit_ready H s then hid_put_slice H buf s else (EBUSY, s)) (wait_transmit_ready (hid_transmit_ready H) dma s)
      | _ \<Rightarrow> Some (ERESERVE, s))"

definition u2_command :: "(nat \<Rightarrow> bool) \<Rightarrow> 's UsbHidU2f \<Rightarrow> ('s \<Rightarrow> 's) \<Rightarrow> nat \<Rightarrow> nat \<Rightarrow> 's \<times> U2fSyscallDriver \<Rightarrow> (ReturnCode \<times> 's \<times> U2fSyscallDriver) option" where
  "u2_command alloc H dma app command_num = (\<lambda>(s, d).
     if command_num = 0 then Some (SUCCESS, s, d)
     else if command_num = 1 then
       (case grant_enter alloc U2fApp_default app (\<lambda>a. (a, a)) (u2_apps d) of
          (None, g) \<Rightarrow> Some (ENOMEM, s, d\<lparr>u2_apps := g\<rparr>)
        | (Some a, g) \<Rightarrow> map_option (\<lambda>(r, s). (r, s, d\<lparr>u2_apps := g\<rparr>)) (u2_transmit H dma a s))
     else if command_num = 2 then (case hid_enable_rx H s of (r, s) \<Rightarrow> Some (r, s, d))
     else Some (ENOSUPPORT, s, d))"

section \<open>Waiting for the endpoint\<close>

lemma wait_ready:
  assumes "wait_transmit_ready ready dma s = Some t"
  shows "ready t"
  using assms by (rule wait_transmit_ready.raw_induct [where P = "\<lambda>ready dma s t. ready t", rotated]) (auto split: if_splits)

text \<open>The wait ends if the controller makes the endpoint ready at some time, and keeps what the controller keeps.\<close>

lemma wait_ends:
  assumes "ready ((dma ^^ n) s)" "P s" "\<And>x. P x \<Longrightarrow> P (dma x)"
  obtains t where "wait_transmit_ready ready dma s = Some t" "ready t" "P t"
proof -
  have "\<exists>t. wait_transmit_ready ready dma s = Some t \<and> P t"
    using assms(1,2)
  proof (induction n arbitrary: s)
    case 0
    then have "wait_transmit_ready ready dma s = Some s"
      by (subst wait_transmit_ready.simps) simp
    with 0 show ?case
      by blast
  next
    case (Suc n)
    show ?case
    proof (cases "ready s")
      case True
      then have "wait_transmit_ready ready dma s = Some s"
        by (subst wait_transmit_ready.simps) simp
      with Suc.prems show ?thesis
        by blast
    next
      case False
      then have "wait_transmit_ready ready dma s = wait_transmit_ready ready dma (dma s)"
        by (subst wait_transmit_ready.simps) simp
      then show ?thesis
        using Suc.IH [of "dma s"] Suc.prems assms(3) by (simp add: funpow_swap1)
    qed
  qed
  then obtain t where t: "wait_transmit_ready ready dma s = Some t" "P t"
    by blast
  from that [OF t(1) wait_ready [OF t(1)] t(2)] show ?thesis .
qed

section \<open>The contract of the endpoints\<close>

text \<open>
  What the system calls rely on: \<open>sent\<close> is the frame that the endpoints have handed over for the host, if they have,
  \<open>received\<close> the last frame of the host. A slice of up to a frame is put at the start of the frame, a longer one is refused.
\<close>

locale u2f_endpoints =
  fixes H :: "'s UsbHidU2f" and invar :: "'s \<Rightarrow> bool" and sent :: "'s \<Rightarrow> byte list option" and received :: "'s \<Rightarrow> byte list"
  assumes put_ok: "invar s \<Longrightarrow> hid_transmit_ready H s \<Longrightarrow> length bs \<le> 64 \<Longrightarrow>
      \<exists>t frame. hid_put_slice H bs s = (SUCCESS, t) \<and> invar t \<and> sent t = Some frame \<and> length frame = 64 \<and> take (length bs) frame = bs"
    and put_big: "64 < length bs \<Longrightarrow> hid_put_slice H bs s = (ESIZE, s)"
    and get_ok: "invar s \<Longrightarrow> length buf \<le> 64 \<Longrightarrow> hid_get_slice H buf s = (SUCCESS, take (length buf) (received s))"
    and get_big: "64 < length buf \<Longrightarrow> hid_get_slice H buf s = (ESIZE, buf)"
begin

lemma transmit_sent:
  assumes "u2_tx_callback a" "u2_tx_buffer a = Some buf" "length buf \<le> 64" "wait_transmit_ready (hid_transmit_ready H) dma s = Some t" "invar t"
  shows "\<exists>v frame. u2_transmit H dma a s = Some (SUCCESS, v) \<and> invar v \<and> sent v = Some frame \<and> length frame = 64 \<and> take (length buf) frame = buf"
  using put_ok [OF assms(5) wait_ready [OF assms(4)] assms(3)] assms wait_ready [OF assms(4)] by (auto simp: u2_transmit_def)

lemma received_copied:
  assumes "invar s" "(app, a) \<in> set (u2_apps d)" "u2_rx_buffer a = Some buf" "length buf \<le> 64"
  shows "(app, a\<lparr>u2_rx_buffer := Some (take (length buf) (received s))\<rparr>) \<in> set (u2_apps (snd (u2_frame_received H (s, d))))"
  using assms get_ok [OF assms(1,4)] by (force simp: u2_frame_received_def schedule_all_def)

end

section \<open>The endpoints of the USB driver\<close>

definition u2f_wf :: "USB \<Rightarrow> bool" where
  "u2f_wf u \<longleftrightarrow> (case (ep1_in_descriptor u, ep1_in_buffer u, ep1_out_buffer u) of (Some d, Some b, Some c) \<Rightarrow> length b = 16 \<and> length c = 16 | _ \<Rightarrow> False)"

text \<open>
  The frame that the controller has to send on endpoint 1: there is one when the descriptor is ready for it, the endpoint is
  enabled and its NAK is cleared; then it is as many bytes of the buffer as the descriptor says.
\<close>

definition u2f_sent :: "USB \<Rightarrow> byte list option" where
  "u2f_sent u =
     (case (ep1_in_descriptor u, ep1_in_buffer u) of
        (Some d, Some b) \<Rightarrow>
          (let control = ep_control (ur_in_endpoints (us_regs u) 1) in
           if desc_flags d AND Df_STATUS_MASK = Df_HOST_READY \<and> reg_is_set (EndpointControl_field Ep_Enable) control
             \<and> reg_is_set (EndpointControl_field Ep_ClearNak) control
           then Some (take (unat (desc_flags d AND 0xffff)) (words_bytes b)) else None)
      | _ \<Rightarrow> None)"

definition u2f_received :: "USB \<Rightarrow> byte list" where
  "u2f_received u = words_bytes (the (ep1_out_buffer u))"

lemma u2f_wfE:
  assumes "u2f_wf u"
  obtains d b c where "ep1_in_descriptor u = Some d" "ep1_in_buffer u = Some b" "ep1_out_buffer u = Some c" "length b = 16" "length c = 16"
  using assms by (auto simp: u2f_wf_def split: option.splits)

text \<open>A frame of 64 bytes: the slice, zeros up to the end of its last word, and then what the buffer held before.\<close>

lemma put_slice_frame:
  assumes "u2f_wf u" "transmit_ready u" "length bs \<le> 64"
  obtains v where "put_slice bs u = (SUCCESS, v)" "u2f_wf v" "u2f_received v = u2f_received u"
    "u2f_sent v = Some (bs @ replicate (4 * ((length bs + 3) div 4) - length bs) 0 @ drop (4 * ((length bs + 3) div 4)) (words_bytes (the (ep1_in_buffer u))))"
proof -
  obtain d b c where w: "ep1_in_descriptor u = Some d" "ep1_in_buffer u = Some b" "ep1_out_buffer u = Some c" "length b = 16" "length c = 16"
    using assms(1) by (rule u2f_wfE)
  let ?v = "ep1_enable_tx (u\<lparr>ep1_in_buffer := map_option (put_bytes_words 0 bs) (ep1_in_buffer u)\<rparr>)"
  have f: "ep1_flags AND 0xffff = 64" "ep1_flags AND Df_STATUS_MASK = Df_HOST_READY"
    by (simp_all add: ep1_flags_def flag_defs U2F_REPORT_SIZE_def)
  have "put_slice bs u = (SUCCESS, ?v)"
    using assms(2,3) by (simp add: put_slice_def transmit_ready_def)
  moreover have "u2f_wf ?v" "u2f_received ?v = u2f_received u"
    using w assms(3) f by (simp_all add: u2f_wf_def u2f_received_def ep1_enable_tx_def usb_ops put_bytes_words_bytes)
  moreover have "reg_is_set (EndpointControl_field Ep_Enable) (ep_control (ur_in_endpoints (us_regs ?v) 1))"
    "reg_is_set (EndpointControl_field Ep_ClearNak) (ep_control (ur_in_endpoints (us_regs ?v) 1))"
    using w by (simp_all add: ep1_enable_tx_def usb_ops modify_control_def reg_field_simps word_ao_dist)
  then have "u2f_sent ?v = Some (take 64 (words_bytes (put_bytes_words 0 bs b)))"
    using w f by (simp add: u2f_sent_def ep1_enable_tx_def usb_ops Let_def)
  moreover have "take 64 (words_bytes (put_bytes_words 0 bs b)) = words_bytes (put_bytes_words 0 bs b)"
    using w(4) assms(3) by (simp add: put_bytes_words_bytes(1))
  ultimately show ?thesis
    using that [of ?v] put_bytes_words_bytes(2) [of bs b] w assms(3) by simp
qed

lemma nth_words_bytes: "i < 4 * length ws \<Longrightarrow> words_bytes ws ! i = ucast (drop_bit (8 * (i mod 4)) (ws ! (i div 4)))"
proof (induction ws arbitrary: i)
  case (Cons w ws)
  show ?case
  proof (cases "i < 4")
    case True
    then have "i = 0 \<or> i = 1 \<or> i = 2 \<or> i = 3"
      by linarith
    then show ?thesis
      by (auto simp: word_bytes_def nth_append)
  next
    case False
    then obtain j where "i = j + 4"
      by (metis add.commute le_add_diff_inverse2 not_less)
    moreover have "(j + 4) div 4 = Suc (j div 4)"
      by simp
    ultimately show ?thesis
      using Cons by (simp add: nth_append)
  qed
qed simp

lemma get_slice_received:
  assumes "u2f_wf u" "length buf \<le> 64"
  shows "get_slice buf u = (SUCCESS, take (length buf) (u2f_received u))"
proof -
  obtain d b c where w: "ep1_out_buffer u = Some c" "length c = 16"
    using assms(1) by (rule u2f_wfE)
  have "ucast (x AND 0xff) = (ucast x :: byte)" for x :: u32
  proof -
    have m: "(0xff :: u32) = mask 8"
      by (simp add: mask_numeral)
    show ?thesis
      unfolding m by (rule bit_word_eqI) (auto simp: bit_simps)
  qed
  then have "map (\<lambda>i. ucast (drop_bit (8 * (i mod 4)) (c ! (i div 4)) AND 0xff)) [0..<length buf] = take (length buf) (words_bytes c)"
    using assms(2) w by (intro nth_equalityI) (auto simp: nth_words_bytes)
  then show ?thesis
    using assms(2) w by (simp add: get_slice_def u2f_received_def)
qed

interpretation usbep: u2f_endpoints usb_u2f u2f_wf u2f_sent u2f_received
proof
  fix s :: USB and bs buf :: "byte list"
  show "\<exists>t frame. hid_put_slice usb_u2f bs s = (SUCCESS, t) \<and> u2f_wf t \<and> u2f_sent t = Some frame \<and> length frame = 64 \<and> take (length bs) frame = bs"
    if s: "u2f_wf s" and r: "hid_transmit_ready usb_u2f s" and l: "length bs \<le> 64"
  proof -
    obtain b where b: "ep1_in_buffer s = Some b" "length b = 16"
      using s by (rule u2f_wfE)
    have t: "transmit_ready s"
      using r by (simp add: usb_u2f_def)
    obtain v where "put_slice bs s = (SUCCESS, v)" "u2f_wf v" "u2f_sent v = Some (bs @ replicate (4 * ((length bs + 3) div 4) - length bs) 0 @
        drop (4 * ((length bs + 3) div 4)) (words_bytes (the (ep1_in_buffer s))))"
      using put_slice_frame [OF s t l] by metis
    then show ?thesis
      using b l by (simp add: usb_u2f_def)
  qed
  show "hid_put_slice usb_u2f bs s = (ESIZE, s)" if "64 < length bs"
    using that by (simp add: usb_u2f_def put_slice_def)
  show "hid_get_slice usb_u2f buf s = (SUCCESS, take (length buf) (u2f_received s))" if "u2f_wf s" "length buf \<le> 64"
    using that get_slice_received by (simp add: usb_u2f_def)
  show "hid_get_slice usb_u2f buf s = (ESIZE, buf)" if "64 < length buf"
    using that by (simp add: usb_u2f_def get_slice_def)
qed

section \<open>Frames between applications and the host\<close>

text \<open>C27. An application that has subscribed and shared a buffer of at most a frame, and sends it: if the controller ever finishes the
  frame before, the call returns success and has handed a frame to the controller, with the descriptor ready and the endpoint
  enabled; the frame has 64 bytes and starts with the bytes of the buffer.
\<close>

theorem u2f_transmit_sent:
  assumes "u2f_wf u" "map_of (u2_apps d) app = Some a" "u2_tx_callback a" "u2_tx_buffer a = Some buf" "length buf \<le> 64"
    "transmit_ready ((dma ^^ n) u)" "\<And>x. u2f_wf x \<Longrightarrow> u2f_wf (dma x)"
  shows "\<exists>v e frame. u2_command alloc usb_u2f dma app 1 (u, d) = Some (SUCCESS, v, e) \<and> u2f_wf v \<and>
    u2f_sent v = Some frame \<and> length frame = 64 \<and> take (length buf) frame = buf"
proof -
  have r: "hid_transmit_ready usb_u2f = transmit_ready"
    by (simp add: usb_u2f_def)
  obtain t where t: "wait_transmit_ready (hid_transmit_ready usb_u2f) dma u = Some t" "u2f_wf t"
    using wait_ends [where ready = transmit_ready and P = u2f_wf, OF assms(6,1,7)] unfolding r by metis
  obtain v frame where "u2_transmit usb_u2f dma a u = Some (SUCCESS, v)" "u2f_wf v" "u2f_sent v = Some frame" "length frame = 64"
    "take (length buf) frame = buf"
    using usbep.transmit_sent [OF assms(3-5) t] by blast
  then show ?thesis
    using assms(2) by (simp add: u2_command_def grant_enter_def)
qed

text \<open>C28. A frame that is shorter than 64 bytes is sent as 64 bytes: behind its last word follow the bytes of the frame that was sent
  before it, whichever application that frame came from.
\<close>

theorem u2f_short_frame_leaks:
  assumes "u2f_wf u" "transmit_ready u" "length secret = 64" "length bs \<le> 64" "put_slice secret u = (SUCCESS, v)" "transmit_ready (dma v)"
    "ep1_in_buffer (dma v) = ep1_in_buffer v" "u2f_wf (dma v)"
  shows "\<exists>w frame. put_slice bs (dma v) = (SUCCESS, w) \<and> u2f_sent w = Some frame \<and> length frame = 64 \<and>
    drop (4 * ((length bs + 3) div 4)) frame = drop (4 * ((length bs + 3) div 4)) secret"
proof -
  obtain b where b: "ep1_in_buffer u = Some b" "length b = 16"
    using assms(1) by (rule u2f_wfE)
  obtain c where c: "ep1_in_buffer (dma v) = Some c" "length c = 16"
    using assms(8) by (rule u2f_wfE)
  have "ep1_in_buffer v = Some (put_bytes_words 0 secret b)"
    using assms(2,3,5) b by (auto simp: put_slice_def transmit_ready_def ep1_enable_tx_def usb_ops split: option.splits)
  then have "words_bytes c = secret"
    using assms(3,7) b c put_bytes_words_bytes(2) [of secret b] by simp
  then obtain w where "put_slice bs (dma v) = (SUCCESS, w)"
    "u2f_sent w = Some (bs @ replicate (4 * ((length bs + 3) div 4) - length bs) 0 @ drop (4 * ((length bs + 3) div 4)) secret)"
    using put_slice_frame [OF assms(8,6,4)] c(1) by (metis option.sel)
  moreover have "length bs \<le> 4 * ((length bs + 3) div 4)" "4 * ((length bs + 3) div 4) \<le> 64"
    using assms(4) by presburger+
  ultimately show ?thesis
    using assms(3) by simp
qed

text \<open>The interrupt of a frame from the host copies the frame into the buffer of every application that has shared one of at most a
  frame, and schedules the callback of every one that has subscribed.
\<close>

theorem u2f_frame_delivered:
  assumes "u2f_wf u" "us_u2f_client u" "ur_interrupt_status (us_regs u) = 0x80000" "ur_device_all_ep_interrupt (us_regs u) = 0x20000"
    "reg_is_set (OutEndpointInterruptMask_field Out_TransferCompleted) (ep_interrupt (ur_out_endpoints (us_regs u) 1))"
    "(app, a) \<in> set (u2_apps d)" "u2_rx_buffer a = Some buf" "length buf \<le> 64" "u2_rx_callback a"
  shows "\<exists>v e. handle_interrupt tick after u2f_client (u, d) = Some (Ok (), (v, e)) \<and>
    (app, a\<lparr>u2_rx_buffer := Some (take (length buf) (u2f_received u))\<rparr>) \<in> set (u2_apps e) \<and>
    (app, ReceiveDone) \<in> set (drop (length (u2_scheduled d)) (u2_scheduled e))"
proof -
  let ?ints = "ep_interrupt (ur_out_endpoints (us_regs u) 1)"
  let ?u = "on_out_ep 1 (clear_ep_interrupts ?ints) u"
  let ?e = "snd (u2_frame_received usb_u2f (?u, d))"
  have wf: "u2f_wf ?u" "u2f_received ?u = u2f_received u"
    using assms(1) by (simp_all add: u2f_wf_def u2f_received_def usb_ops)
  have "handle_endpoint1_events u2f_client True False (u, d) = (?u, ?e)"
    using assms(2,5) by (simp add: handle_endpoint1_events_def Let_def u2f_client_def u2_frame_received_def usb_ops)
  moreover have "reg_is_set (16, Suc 0) 0x20000 = False" "reg_is_set (0, Suc 0) 0x20000 = False" "reg_is_set (17, Suc 0) 0x20000 = True"
    "reg_is_set (Suc 0, Suc 0) 0x20000 = False" "reg_is_set (19, Suc 0) 0x80000 = True"
    "reg_is_set (12, Suc 0) 0x80000 = False" "reg_is_set (23, Suc 0) 0x80000 = False" "reg_is_set (3, Suc 0) 0x80000 = False"
    "reg_is_set (7, Suc 0) 0x80000 = False" "reg_is_set (6, Suc 0) 0x80000 = False"
    by (simp_all add: reg_field_simps)
  ultimately have "handle_interrupt tick after u2f_client (u, d) = Some (Ok (), (on_usb_regs (ur_interrupt_status_update (\<lambda>w. w AND NOT 0x80000)) ?u, ?e))"
    using assms(3,4) by (simp add: handle_interrupt_def handle_endpoints_def Let_def peff_bind_def)
  moreover have "(app, a\<lparr>u2_rx_buffer := Some (take (length buf) (u2f_received u))\<rparr>) \<in> set (u2_apps ?e)"
    using usbep.received_copied [OF wf(1) assms(6-8)] wf(2) by simp
  moreover have "(app, ReceiveDone) \<in> set (drop (length (u2_scheduled d)) (u2_scheduled ?e))"
    using assms(6,9) by (force simp: u2_frame_received_def schedule_all_def)
  ultimately show ?thesis
    by blast
qed

text \<open>An application whose buffer is longer than a frame is told of a frame that was not copied.\<close>

lemma long_buffer_not_filled:
  assumes "(app, a) \<in> set (u2_apps d)" "u2_rx_buffer a = Some buf" "64 < length buf" "u2_rx_callback a"
  shows "(app, a) \<in> set (u2_apps (snd (u2_frame_received usb_u2f (u, d))))"
    "(app, ReceiveDone) \<in> set (u2_scheduled (snd (u2_frame_received usb_u2f (u, d))))"
proof -
  have "a\<lparr>u2_rx_buffer := Some buf\<rparr> = a"
    using assms(2) by (metis U2fApp.surjective U2fApp.update_convs(5) old.unit.exhaust)
  then show "(app, a) \<in> set (u2_apps (snd (u2_frame_received usb_u2f (u, d))))"
    using assms usbep.get_big [OF assms(3)]
    by (simp add: u2_frame_received_def schedule_all_def) (rule image_eqI [of _ _ "(app, a)"], simp_all)
  show "(app, ReceiveDone) \<in> set (u2_scheduled (snd (u2_frame_received usb_u2f (u, d))))"
    using assms(1,4) by (force simp: u2_frame_received_def schedule_all_def)
qed

section \<open>Examples\<close>

definition demo_frame_usb :: USB where
  "demo_frame_usb = setup_u2f_descriptors demo_usb"

definition demo_u2f_app :: "byte list \<Rightarrow> U2fApp" where
  "demo_u2f_app b = \<lparr>u2_tx_callback = True, u2_rx_callback = True, u2_connection_callback = False, u2_tx_buffer = Some b, u2_rx_buffer = Some (replicate 4 0)\<rparr>"

definition demo_u2f :: U2fSyscallDriver where
  "demo_u2f = \<lparr>u2_apps = [(1, demo_u2f_app [1, 2, 3])], u2_busy = False, u2_scheduled = []\<rparr>"

lemma demo_ep1:
  "ep1_in_descriptor demo_usb = Some \<lparr>desc_flags = Df_HOST_BUSY, desc_addr = NoBuffer\<rparr>" "ep1_in_buffer demo_usb = Some (replicate 16 0)"
  "ep1_out_descriptor demo_usb = Some \<lparr>desc_flags = Df_HOST_BUSY, desc_addr = NoBuffer\<rparr>" "ep1_out_buffer demo_usb = Some (replicate 16 0)"
  by (simp_all add: demo_usb_def configured_def install_memory_def STATIC_USB_MEMORY_def)

lemma demo_u2f_ready: "u2f_wf demo_usb" "transmit_ready demo_usb"
  by (simp_all add: u2f_wf_def transmit_ready_def ep1_tx_fifo_is_ready_def demo_ep1 flag_defs)

text \<open>The controller has sent the frame.\<close>

definition demo_sent :: "USB \<Rightarrow> USB" where
  "demo_sent u = u\<lparr>ep1_in_descriptor := map_option (\<lambda>d. d\<lparr>desc_flags := Df_DMA_DONE\<rparr>) (ep1_in_descriptor u)\<rparr>"

text \<open>A frame that the controller still has to send, and one that waits for it.\<close>

theorem u2f_transmit_sent_witness:
  "\<exists>u v e frame. put_slice (replicate 64 7) demo_usb = (SUCCESS, u) \<and> \<not> transmit_ready u \<and>
     u2_command (\<lambda>_. True) usb_u2f demo_sent 1 1 (u, demo_u2f) = Some (SUCCESS, v, e) \<and> u2f_sent v = Some frame \<and> take 3 frame = [1, 2, 3]"
proof -
  obtain u where u: "put_slice (replicate 64 7) demo_usb = (SUCCESS, u)" "u2f_wf u" "u2f_sent u \<noteq> None"
    by (rule put_slice_frame [OF demo_u2f_ready, of "replicate 64 7"]) auto
  have busy: "\<not> transmit_ready u"
    using u(3) by (auto simp: u2f_sent_def transmit_ready_def ep1_tx_fifo_is_ready_def flag_defs Let_def split: option.splits if_splits)
  have sent: "transmit_ready ((demo_sent ^^ 1) u)" "u2f_wf (demo_sent x)" if "u2f_wf x" for x
    using u(2) that by (auto simp: transmit_ready_def ep1_tx_fifo_is_ready_def demo_sent_def u2f_wf_def flag_defs split: option.splits)
  have app: "map_of (u2_apps demo_u2f) 1 = Some (demo_u2f_app [1, 2, 3])" "u2_tx_callback (demo_u2f_app [1, 2, 3])"
    "u2_tx_buffer (demo_u2f_app [1, 2, 3]) = Some [1, 2, 3]" "length [1, 2, 3 :: byte] \<le> 64"
    by (simp_all add: demo_u2f_def demo_u2f_app_def)
  obtain v e frame where "u2_command (\<lambda>_. True) usb_u2f demo_sent 1 1 (u, demo_u2f) = Some (SUCCESS, v, e)" "u2f_sent v = Some frame"
    "take (length [1, 2, 3 :: byte]) frame = [1, 2, 3]"
    using u2f_transmit_sent [OF u(2) app sent(1) [OF u(2)] sent(2), of "\<lambda>_. True"] by blast
  then show ?thesis
    using u(1) busy by (intro exI) (auto simp: numeral_3_eq_3)
qed

theorem u2f_short_frame_leaks_witness:
  "\<exists>v w. put_slice (replicate 64 7) demo_usb = (SUCCESS, v) \<and> put_slice [1, 2] (demo_sent v) = (SUCCESS, w) \<and>
     map_option (drop 4) (u2f_sent w) = Some (replicate 60 7)"
proof -
  obtain v where v: "put_slice (replicate 64 7) demo_usb = (SUCCESS, v)" "u2f_wf v"
    using put_slice_frame [OF demo_u2f_ready, of "replicate 64 7"] by auto
  obtain d where "ep1_in_descriptor v = Some d"
    using v(2) by (rule u2f_wfE)
  then have "transmit_ready (demo_sent v)" "ep1_in_buffer (demo_sent v) = ep1_in_buffer v" "u2f_wf (demo_sent v)"
    using v(2) by (simp_all add: transmit_ready_def ep1_tx_fifo_is_ready_def demo_sent_def u2f_wf_def flag_defs)
  then show ?thesis
    using u2f_short_frame_leaks [OF demo_u2f_ready, of "replicate 64 7" "[1, 2]" v demo_sent] v(1) by auto
qed

definition demo_received :: USB where
  "demo_received = on_out_ep 1 (ep_interrupt_update (\<lambda>_. 1))
     (on_usb_regs (\<lambda>r. r\<lparr>ur_interrupt_status := 0x80000, ur_device_all_ep_interrupt := 0x20000\<rparr>)
       (demo_usb\<lparr>us_u2f_client := True, ep1_out_buffer := Some (0x04030201 # replicate 15 0)\<rparr>))"

theorem u2f_frame_delivered_witness:
  "\<exists>v e. handle_interrupt demo_flush (\<lambda>_. 0) u2f_client (demo_received, demo_u2f) = Some (Ok (), (v, e)) \<and>
     (1, (demo_u2f_app [1, 2, 3])\<lparr>u2_rx_buffer := Some [1, 2, 3, 4]\<rparr>) \<in> set (u2_apps e)"
proof -
  have "u2f_wf demo_received" "us_u2f_client demo_received" "ur_interrupt_status (us_regs demo_received) = 0x80000"
    "ur_device_all_ep_interrupt (us_regs demo_received) = 0x20000"
    "reg_is_set (OutEndpointInterruptMask_field Out_TransferCompleted) (ep_interrupt (ur_out_endpoints (us_regs demo_received) 1))"
    by (simp_all add: demo_received_def u2f_wf_def usb_ops demo_ep1 reg_field_simps)
  moreover have "take 4 (u2f_received demo_received) = [1, 2, 3, 4]"
    by (simp add: u2f_received_def demo_received_def usb_ops word_bytes_def)
  ultimately show ?thesis
    using u2f_frame_delivered [of demo_received 1 "demo_u2f_app [1, 2, 3]" demo_u2f "replicate 4 0" demo_flush "\<lambda>_. 0"]
    by (auto simp: demo_u2f_def demo_u2f_app_def numeral_3_eq_3)
qed

end
