(* ===== verification/Pinmux.thy ===== *)
theory Pinmux
  imports Prelude
begin

text \<open>
  The pin multiplexer, \<^verbatim>\<open>kernel/h1/src/pinmux.rs\<close>: which function drives a pad, and which pad a peripheral listens to.
\<close>

section \<open>Pads, selections and functions\<close>

text \<open>The pins of a GPIO port, and the lines of a test bus.\<close>

datatype Pin =
  P0 | P1 | P2 | P3 | P4 | P5 | P6 | P7 | P8 | P9 | P10 | P11 | P12 | P13 | P14 | P15

datatype Line = L0 | L1 | L2 | L3 | L4 | L5 | L6 | L7

text \<open>The pads that have a pair of registers (select and control).\<close>

datatype Pad =
  Pad_diom0 | Pad_diom1 | Pad_diom2 | Pad_diom3 | Pad_diom4 | Pad_dioa0 | Pad_dioa1 | Pad_dioa2 | Pad_dioa3 | Pad_dioa4
  | Pad_dioa5 | Pad_dioa6 | Pad_dioa7 | Pad_dioa8 | Pad_dioa9 | Pad_dioa10 | Pad_dioa11 | Pad_dioa12 | Pad_dioa13 | Pad_dioa14
  | Pad_diob0 | Pad_diob1 | Pad_diob2 | Pad_diob3 | Pad_diob4 | Pad_diob5 | Pad_diob6 | Pad_diob7 | Pad_resetb | Pad_vio0
  | Pad_vio1

text \<open>The pads that a peripheral can select as its input.\<close>

datatype SelectablePin =
  Sel_Disconnected | Vio1 | Vio0 | Diob7 | Diob6 | Diob5 | Diob4 | Diob3 | Diob2 | Diob1 | Diob0 | Dioa14 | Dioa13 | Dioa12
  | Dioa11 | Dioa10 | Dioa9 | Dioa8 | Dioa7 | Dioa6 | Dioa5 | Dioa4 | Dioa3 | Dioa2 | Dioa1 | Dioa0 | Diom4 | Diom3 | Diom2
  | Diom1 | Diom0

text \<open>
  What can drive a pad. The functions of a port, and the lines of a test bus, are one constructor with the pin or line as its
  argument. A peripheral has one input register; it is named by the function of the same name (\<^verbatim>\<open>gpio0_gpio3\<close> is
  \<open>Gpio0Gpio P3\<close>, \<^verbatim>\<open>uart0_rx\<close> is \<open>Uart0Rx\<close>).
\<close>

datatype Function =
  DefaultFunction | Gpio0Gpio Pin | Gpio1Gpio Pin | I2C0Scl | I2C0Sda | I2C1Scl | I2C1SDA | I2cs0Scl | I2cs0Sda | PmuBrownoutDet
  | PmuTestbus Line | Rtc0RtcClkTest | Spi1Spiclk | Spi1Spicsb | Spi1Spimiso | Spi1Spimosi | Sps0Testbus Line | Temp0TstAdcClk
  | Temp0TstAdcHiSer | Temp0TstAdcLoSer | Temp0TstAdcVldSer | Trng0TrngRoDiv | Trng0TrngRoRefDiv | Uart0Cts | Uart0Rts | Uart0Rx
  | Uart0Tx | Uart1Cts | Uart1Rts | Uart1Rx | Uart1Tx | Uart2Cts | Uart2Rts | Uart2Rx | Uart2Tx | Usb0ExtDmPullupEn
  | Usb0ExtDpRpu1Enb | Usb0ExtDpRpu2Enb | Usb0ExtFsEdgeSel | Usb0ExtRxDmi | Usb0ExtRxDpi | Usb0ExtRxRcv | Usb0ExtSuspendb
  | Usb0ExtTxDmo | Usb0ExtTxDpo | Usb0ExtTxOeb | Volt0TstNegGlitchDet | Volt0TstPosGlitchDet | Xo0Testbus Line

text \<open>The discriminants the source gives the constructors.\<close>

fun pin_number :: "Pin \<Rightarrow> nat" where
  "pin_number P0 = 0"
| "pin_number P1 = 1"
| "pin_number P2 = 2"
| "pin_number P3 = 3"
| "pin_number P4 = 4"
| "pin_number P5 = 5"
| "pin_number P6 = 6"
| "pin_number P7 = 7"
| "pin_number P8 = 8"
| "pin_number P9 = 9"
| "pin_number P10 = 10"
| "pin_number P11 = 11"
| "pin_number P12 = 12"
| "pin_number P13 = 13"
| "pin_number P14 = 14"
| "pin_number P15 = 15"

fun line_number :: "Line \<Rightarrow> nat" where
  "line_number L0 = 0"
| "line_number L1 = 1"
| "line_number L2 = 2"
| "line_number L3 = 3"
| "line_number L4 = 4"
| "line_number L5 = 5"
| "line_number L6 = 6"
| "line_number L7 = 7"

fun selectable_number :: "SelectablePin \<Rightarrow> nat" where
  "selectable_number Sel_Disconnected = 0"
| "selectable_number Vio1 = 1"
| "selectable_number Vio0 = 2"
| "selectable_number Diob7 = 3"
| "selectable_number Diob6 = 4"
| "selectable_number Diob5 = 5"
| "selectable_number Diob4 = 6"
| "selectable_number Diob3 = 7"
| "selectable_number Diob2 = 8"
| "selectable_number Diob1 = 9"
| "selectable_number Diob0 = 10"
| "selectable_number Dioa14 = 11"
| "selectable_number Dioa13 = 12"
| "selectable_number Dioa12 = 13"
| "selectable_number Dioa11 = 14"
| "selectable_number Dioa10 = 15"
| "selectable_number Dioa9 = 16"
| "selectable_number Dioa8 = 17"
| "selectable_number Dioa7 = 18"
| "selectable_number Dioa6 = 19"
| "selectable_number Dioa5 = 20"
| "selectable_number Dioa4 = 21"
| "selectable_number Dioa3 = 22"
| "selectable_number Dioa2 = 23"
| "selectable_number Dioa1 = 24"
| "selectable_number Dioa0 = 25"
| "selectable_number Diom4 = 26"
| "selectable_number Diom3 = 27"
| "selectable_number Diom2 = 28"
| "selectable_number Diom1 = 29"
| "selectable_number Diom0 = 30"

fun function_number :: "Function \<Rightarrow> nat" where
  "function_number DefaultFunction = 0"
| "function_number (Gpio0Gpio p) = 1 + pin_number p"
| "function_number (Gpio1Gpio p) = 17 + pin_number p"
| "function_number I2C0Scl = 33"
| "function_number I2C0Sda = 34"
| "function_number I2C1Scl = 35"
| "function_number I2C1SDA = 36"
| "function_number I2cs0Scl = 37"
| "function_number I2cs0Sda = 38"
| "function_number PmuBrownoutDet = 39"
| "function_number (PmuTestbus l) = 40 + line_number l"
| "function_number Rtc0RtcClkTest = 48"
| "function_number Spi1Spiclk = 49"
| "function_number Spi1Spicsb = 50"
| "function_number Spi1Spimiso = 51"
| "function_number Spi1Spimosi = 52"
| "function_number (Sps0Testbus l) = 53 + line_number l"
| "function_number Temp0TstAdcClk = 61"
| "function_number Temp0TstAdcHiSer = 62"
| "function_number Temp0TstAdcLoSer = 63"
| "function_number Temp0TstAdcVldSer = 64"
| "function_number Trng0TrngRoDiv = 65"
| "function_number Trng0TrngRoRefDiv = 66"
| "function_number Uart0Cts = 67"
| "function_number Uart0Rts = 68"
| "function_number Uart0Rx = 69"
| "function_number Uart0Tx = 70"
| "function_number Uart1Cts = 71"
| "function_number Uart1Rts = 72"
| "function_number Uart1Rx = 73"
| "function_number Uart1Tx = 74"
| "function_number Uart2Cts = 75"
| "function_number Uart2Rts = 76"
| "function_number Uart2Rx = 77"
| "function_number Uart2Tx = 78"
| "function_number Usb0ExtDmPullupEn = 79"
| "function_number Usb0ExtDpRpu1Enb = 80"
| "function_number Usb0ExtDpRpu2Enb = 81"
| "function_number Usb0ExtFsEdgeSel = 82"
| "function_number Usb0ExtRxDmi = 83"
| "function_number Usb0ExtRxDpi = 84"
| "function_number Usb0ExtRxRcv = 85"
| "function_number Usb0ExtSuspendb = 86"
| "function_number Usb0ExtTxDmo = 87"
| "function_number Usb0ExtTxDpo = 88"
| "function_number Usb0ExtTxOeb = 89"
| "function_number Volt0TstNegGlitchDet = 90"
| "function_number Volt0TstPosGlitchDet = 91"
| "function_number (Xo0Testbus l) = 92 + line_number l"

section \<open>The registers\<close>

text \<open>The fields of \<^verbatim>\<open>Registers\<close>, in their order.\<close>

definition all_pins :: "Pin list" where
  "all_pins = [P0, P1, P2, P3, P4, P5, P6, P7, P8, P9, P10, P11, P12, P13, P14, P15]"

definition all_lines :: "Line list" where
  "all_lines = [L0, L1, L2, L3, L4, L5, L6, L7]"

definition pad_fields :: "Pad list" where
  "pad_fields = [
     Pad_diom0, Pad_diom1, Pad_diom2, Pad_diom3, Pad_diom4, Pad_dioa0, Pad_dioa1, Pad_dioa2, Pad_dioa3, Pad_dioa4, Pad_dioa5
     , Pad_dioa6, Pad_dioa7, Pad_dioa8, Pad_dioa9, Pad_dioa10, Pad_dioa11, Pad_dioa12, Pad_dioa13, Pad_dioa14, Pad_diob0
     , Pad_diob1, Pad_diob2, Pad_diob3, Pad_diob4, Pad_diob5, Pad_diob6, Pad_diob7, Pad_resetb, Pad_vio0, Pad_vio1]"

definition peripheral_fields :: "Function list" where
  "peripheral_fields = map Gpio0Gpio all_pins @ map Gpio1Gpio all_pins @
     [I2C0Scl, I2C0Sda, I2C1Scl, I2C1SDA, I2cs0Scl, I2cs0Sda, PmuBrownoutDet] @
     map PmuTestbus all_lines @
     [Rtc0RtcClkTest, Spi1Spiclk, Spi1Spicsb, Spi1Spimiso, Spi1Spimosi] @
     map Sps0Testbus all_lines @
     [Temp0TstAdcClk, Temp0TstAdcHiSer, Temp0TstAdcLoSer, Temp0TstAdcVldSer, Trng0TrngRoDiv, Trng0TrngRoRefDiv, Uart0Cts, Uart0Rts
      , Uart0Rx, Uart0Tx, Uart1Cts, Uart1Rts, Uart1Rx, Uart1Tx, Uart2Cts, Uart2Rts, Uart2Rx, Uart2Tx, Usb0ExtDmPullupEn
      , Usb0ExtDpRpu1Enb, Usb0ExtDpRpu2Enb, Usb0ExtFsEdgeSel, Usb0ExtRxDmi, Usb0ExtRxDpi, Usb0ExtRxRcv, Usb0ExtSuspendb
      , Usb0ExtTxDmo, Usb0ExtTxDpo, Usb0ExtTxOeb, Volt0TstNegGlitchDet, Volt0TstPosGlitchDet] @
     map Xo0Testbus all_lines"

record PinmuxPin =
  pad_select :: Function
  pad_control :: u32

record PinmuxRegisters =
  mux_pads :: "Pad \<Rightarrow> PinmuxPin"
  mux_peripherals :: "Function \<Rightarrow> SelectablePin"

definition pad_select_set :: "Pad \<Rightarrow> Function \<Rightarrow> PinmuxRegisters \<Rightarrow> PinmuxRegisters" where
  "pad_select_set d f m = m\<lparr>mux_pads := (mux_pads m)(d := (mux_pads m d)\<lparr>pad_select := f\<rparr>)\<rparr>"

definition pad_control_set :: "Pad \<Rightarrow> u32 \<Rightarrow> PinmuxRegisters \<Rightarrow> PinmuxRegisters" where
  "pad_control_set d c m = m\<lparr>mux_pads := (mux_pads m)(d := (mux_pads m d)\<lparr>pad_control := c\<rparr>)\<rparr>"

definition peripheral_select_set :: "Function \<Rightarrow> SelectablePin \<Rightarrow> PinmuxRegisters \<Rightarrow> PinmuxRegisters" where
  "peripheral_select_set f s m = m\<lparr>mux_peripherals := (mux_peripherals m)(f := s)\<rparr>"

text \<open>The offsets of the fields from \<^verbatim>\<open>PINMUX\<close>: two words for a pad, one for a peripheral.\<close>

definition PINMUX :: nat where "PINMUX = 0x40060000"

fun index_of :: "'a \<Rightarrow> 'a list \<Rightarrow> nat" where
  "index_of x [] = 0"
| "index_of x (y # ys) = (if x = y then 0 else 1 + index_of x ys)"

definition pad_select_address :: "Pad \<Rightarrow> nat" where
  "pad_select_address d = PINMUX + 8 * index_of d pad_fields"

definition pad_control_address :: "Pad \<Rightarrow> nat" where
  "pad_control_address d = PINMUX + 8 * index_of d pad_fields + 4"

definition peripheral_address :: "Function \<Rightarrow> nat" where
  "peripheral_address f = PINMUX + 8 * length pad_fields + 4 * index_of f peripheral_fields"

text \<open>
  The order of the fields and the discriminants agree: the register of a peripheral is at the offset its function number
  gives, and the pads are in the reverse order of the selections. So no two peripherals share a register.
\<close>

lemmas peripheral_layout = peripheral_fields_def all_pins_def all_lines_def

lemma peripheral_fields_nth:
  "f \<noteq> DefaultFunction \<Longrightarrow> peripheral_fields ! (function_number f - 1) = f \<and> index_of f peripheral_fields = function_number f - 1"
proof (cases f)
  case (Gpio0Gpio p)
  then show ?thesis by (cases p) (simp_all add: peripheral_layout)
next
  case (Gpio1Gpio p)
  then show ?thesis by (cases p) (simp_all add: peripheral_layout)
next
  case (PmuTestbus l)
  then show ?thesis by (cases l) (simp_all add: peripheral_layout)
next
  case (Sps0Testbus l)
  then show ?thesis by (cases l) (simp_all add: peripheral_layout)
next
  case (Xo0Testbus l)
  then show ?thesis by (cases l) (simp_all add: peripheral_layout)
qed (simp_all add: peripheral_layout)

lemma length_pad_fields [simp]: "length pad_fields = 31"
  by (simp add: pad_fields_def)

lemma peripheral_address_eq:
  "f \<noteq> DefaultFunction \<Longrightarrow> peripheral_address f = PINMUX + 248 + 4 * (function_number f - 1)"
  by (simp add: peripheral_address_def peripheral_fields_nth)

lemma peripheral_address_inj:
  assumes "f \<noteq> DefaultFunction" and "g \<noteq> DefaultFunction" and "peripheral_address f = peripheral_address g"
  shows "f = g"
proof -
  from assms have "function_number f - 1 = function_number g - 1"
    by (simp add: peripheral_address_eq)
  then show ?thesis
    using peripheral_fields_nth [OF assms(1)] peripheral_fields_nth [OF assms(2)] by metis
qed

end
