(* ===== verification/Gpio.thy ===== *)
theory Gpio
  imports Pinmux
begin

text \<open>
  The pins of \<^verbatim>\<open>kernel/h1/src/gpio.rs\<close>: two ports of sixteen pins, their directions, levels, pulls and interrupts, over the
  registers of the ports and of the pin multiplexer.
\<close>

section \<open>State\<close>

text \<open>
  The registers of a port. The controller has pairs of registers to set and to clear the bits of one value: writing ones to
  \<^verbatim>\<open>output_enable\<close> or \<^verbatim>\<open>output_disable\<close> changes \<open>outputs\<close>, and likewise for the enabled interrupts,
  their type and their polarity; reading the first of a pair gives the value. Writing ones to the status clears those bits.
\<close>

record PortRegisters =
  data_in :: u32
  data_out :: u32
  outputs :: u32
  interrupts :: u32
  interrupt_type :: u32
  interrupt_pol :: u32
  interrupt_status :: u32

datatype PortBase = GPIO0_BASE | GPIO1_BASE

text \<open>A pin of the driver has a port and a number that never change; \<open>pin_change\<close> and \<open>pin_client\<close> are its cells.\<close>

record GPIOPin =
  pin_change :: bool
  pin_client :: bool

definition GPIOPin_new :: GPIOPin where
  "GPIOPin_new = \<lparr>pin_change = False, pin_client = False\<rparr>"

record GpioState =
  gp_ports :: "PortBase \<Rightarrow> PortRegisters"
  gp_cells :: "PortBase \<Rightarrow> Pin \<Rightarrow> GPIOPin"
  gp_mux :: PinmuxRegisters

definition Gpio_new :: "(PortBase \<Rightarrow> PortRegisters) \<Rightarrow> PinmuxRegisters \<Rightarrow> GpioState" where
  "Gpio_new ports m = \<lparr>gp_ports = ports, gp_cells = (\<lambda>b p. GPIOPin_new), gp_mux = m\<rparr>"

type_synonym pin_id = "PortBase \<times> Pin"

text \<open>The arrays of pins.\<close>

definition PORT0 :: "pin_id list" where
  "PORT0 = [(GPIO0_BASE, P0), (GPIO0_BASE, P1), (GPIO0_BASE, P2), (GPIO0_BASE, P3), (GPIO0_BASE, P4), (GPIO0_BASE, P5),
     (GPIO0_BASE, P6), (GPIO0_BASE, P7), (GPIO0_BASE, P8), (GPIO0_BASE, P9), (GPIO0_BASE, P10), (GPIO0_BASE, P11),
     (GPIO0_BASE, P12), (GPIO0_BASE, P13), (GPIO0_BASE, P14), (GPIO0_BASE, P15)]"

definition PORT1 :: "pin_id list" where
  "PORT1 = [(GPIO1_BASE, P0), (GPIO1_BASE, P1), (GPIO1_BASE, P2), (GPIO1_BASE, P3), (GPIO1_BASE, P4), (GPIO1_BASE, P5),
     (GPIO1_BASE, P6), (GPIO1_BASE, P7), (GPIO1_BASE, P8), (GPIO1_BASE, P9), (GPIO1_BASE, P10), (GPIO1_BASE, P11),
     (GPIO1_BASE, P12), (GPIO1_BASE, P13), (GPIO1_BASE, P14), (GPIO1_BASE, P15)]"

definition pin_mask :: "Pin \<Rightarrow> u32" where
  "pin_mask p = push_bit (pin_number p) 1"

definition on_port :: "PortBase \<Rightarrow> (PortRegisters \<Rightarrow> PortRegisters) \<Rightarrow> GpioState \<Rightarrow> GpioState" where
  "on_port b f g = g\<lparr>gp_ports := (gp_ports g)(b := f (gp_ports g b))\<rparr>"

definition on_cell :: "pin_id \<Rightarrow> (GPIOPin \<Rightarrow> GPIOPin) \<Rightarrow> GpioState \<Rightarrow> GpioState" where
  "on_cell i f g = (case i of (b, p) \<Rightarrow> g\<lparr>gp_cells := (gp_cells g)(b := (gp_cells g b)(p := f (gp_cells g b p)))\<rparr>)"

text \<open>The registers that set and clear bits.\<close>

definition output_enable_set :: "u32 \<Rightarrow> PortRegisters \<Rightarrow> PortRegisters" where
  "output_enable_set m r = r\<lparr>outputs := outputs r OR m\<rparr>"

definition interrupt_enable_set :: "u32 \<Rightarrow> PortRegisters \<Rightarrow> PortRegisters" where
  "interrupt_enable_set m r = r\<lparr>interrupts := interrupts r OR m\<rparr>"

definition interrupt_disable_set :: "u32 \<Rightarrow> PortRegisters \<Rightarrow> PortRegisters" where
  "interrupt_disable_set m r = r\<lparr>interrupts := interrupts r AND NOT m\<rparr>"

definition interrupt_type_set :: "u32 \<Rightarrow> PortRegisters \<Rightarrow> PortRegisters" where
  "interrupt_type_set m r = r\<lparr>interrupt_type := interrupt_type r OR m\<rparr>"

definition interrupt_pol_set :: "u32 \<Rightarrow> PortRegisters \<Rightarrow> PortRegisters" where
  "interrupt_pol_set m r = r\<lparr>interrupt_pol := interrupt_pol r OR m\<rparr>"

definition interrupt_pol_clear :: "u32 \<Rightarrow> PortRegisters \<Rightarrow> PortRegisters" where
  "interrupt_pol_clear m r = r\<lparr>interrupt_pol := interrupt_pol r AND NOT m\<rparr>"

definition interrupt_status_set :: "u32 \<Rightarrow> PortRegisters \<Rightarrow> PortRegisters" where
  "interrupt_status_set m r = r\<lparr>interrupt_status := interrupt_status r AND NOT m\<rparr>"

section \<open>The pad behind a pin\<close>

text \<open>The input register of a pin.\<close>

fun pin_peripheral :: "pin_id \<Rightarrow> Function" where
  "pin_peripheral (GPIO0_BASE, p) = Gpio0Gpio p"
| "pin_peripheral (GPIO1_BASE, p) = Gpio1Gpio p"

fun selected_pad :: "SelectablePin \<Rightarrow> Pad option" where
  "selected_pad Diob7 = Some Pad_diob7"
| "selected_pad Diob6 = Some Pad_diob6"
| "selected_pad Diob5 = Some Pad_diob5"
| "selected_pad Diob4 = Some Pad_diob4"
| "selected_pad Diob3 = Some Pad_diob3"
| "selected_pad Diob2 = Some Pad_diob2"
| "selected_pad Diob1 = Some Pad_diob1"
| "selected_pad Diob0 = Some Pad_diob0"
| "selected_pad Dioa14 = Some Pad_dioa14"
| "selected_pad Dioa13 = Some Pad_dioa13"
| "selected_pad Dioa12 = Some Pad_dioa12"
| "selected_pad Dioa11 = Some Pad_dioa11"
| "selected_pad Dioa10 = Some Pad_dioa10"
| "selected_pad Dioa9 = Some Pad_dioa9"
| "selected_pad Dioa8 = Some Pad_dioa8"
| "selected_pad Dioa7 = Some Pad_dioa7"
| "selected_pad Dioa6 = Some Pad_dioa6"
| "selected_pad Dioa5 = Some Pad_dioa5"
| "selected_pad Dioa4 = Some Pad_dioa4"
| "selected_pad Dioa3 = Some Pad_dioa3"
| "selected_pad Dioa2 = Some Pad_dioa2"
| "selected_pad Dioa1 = Some Pad_dioa1"
| "selected_pad Dioa0 = Some Pad_dioa0"
| "selected_pad Diom4 = Some Pad_diom4"
| "selected_pad Diom3 = Some Pad_diom3"
| "selected_pad Diom2 = Some Pad_diom2"
| "selected_pad Diom1 = Some Pad_diom1"
| "selected_pad Diom0 = Some Pad_diom0"
| "selected_pad _ = None"

definition get_pinmux_pin :: "pin_id \<Rightarrow> GpioState \<Rightarrow> Pad option" where
  "get_pinmux_pin i g = selected_pad (mux_peripherals (gp_mux g) (pin_peripheral i))"

section \<open>Configuration\<close>

datatype Configuration = InputOutput | InputOnly

datatype PinFloatingState = FloatPullUp | FloatPullDown | FloatPullNone

definition pin_is_output :: "pin_id \<Rightarrow> GpioState \<Rightarrow> bool" where
  "pin_is_output i g = (case i of (b, p) \<Rightarrow> outputs (gp_ports g b) AND pin_mask p \<noteq> 0)"

definition pin_is_input :: "pin_id \<Rightarrow> GpioState \<Rightarrow> bool" where
  "pin_is_input i g = True"

definition pin_configuration :: "pin_id \<Rightarrow> GpioState \<Rightarrow> Configuration" where
  "pin_configuration i g = (if pin_is_output i g then InputOutput else InputOnly)"

definition make_output :: "pin_id \<Rightarrow> GpioState \<Rightarrow> Configuration \<times> GpioState" where
  "make_output i g = (case i of (b, p) \<Rightarrow> (InputOutput, on_port b (output_enable_set (pin_mask p)) g))"

definition disable_output :: "pin_id \<Rightarrow> GpioState \<Rightarrow> Configuration \<times> GpioState" where
  "disable_output i g = (case i of (b, p) \<Rightarrow> (InputOnly, on_port b (output_enable_set (pin_mask p)) g))"

definition make_input :: "pin_id \<Rightarrow> GpioState \<Rightarrow> Configuration \<times> GpioState" where
  "make_input i g = (pin_configuration i g, g)"

definition disable_input :: "pin_id \<Rightarrow> GpioState \<Rightarrow> Configuration \<times> GpioState" where
  "disable_input i g = (pin_configuration i g, g)"

definition PULLDOWN_BIT :: u32 where "PULLDOWN_BIT = push_bit 3 1"
definition PULLUP_BIT :: u32 where "PULLUP_BIT = push_bit 4 1"

fun pull_control :: "PinFloatingState \<Rightarrow> u32 \<Rightarrow> u32" where
  "pull_control FloatPullUp c = c AND NOT PULLDOWN_BIT OR PULLUP_BIT"
| "pull_control FloatPullDown c = c AND NOT PULLUP_BIT OR PULLDOWN_BIT"
| "pull_control FloatPullNone c = c AND NOT (PULLDOWN_BIT OR PULLUP_BIT)"

definition set_floating_state :: "pin_id \<Rightarrow> PinFloatingState \<Rightarrow> GpioState \<Rightarrow> GpioState" where
  "set_floating_state i st g =
     (case get_pinmux_pin i g of
        Some d \<Rightarrow> g\<lparr>gp_mux := pad_control_set d (pull_control st (pad_control (mux_pads (gp_mux g) d))) (gp_mux g)\<rparr>
      | None \<Rightarrow> g)"

definition floating_state :: "pin_id \<Rightarrow> GpioState \<Rightarrow> PinFloatingState" where
  "floating_state i g =
     (case get_pinmux_pin i g of
        Some d \<Rightarrow>
          (let pulldown = (pad_control (mux_pads (gp_mux g) d) AND PULLDOWN_BIT \<noteq> 0);
               pullup = (pad_control (mux_pads (gp_mux g) d) AND PULLUP_BIT \<noteq> 0) in
           case (pullup, pulldown) of (True, False) \<Rightarrow> FloatPullUp | (False, True) \<Rightarrow> FloatPullDown | _ \<Rightarrow> FloatPullNone)
      | None \<Rightarrow> FloatPullNone)"

definition deactivate_to_low_power :: "pin_id \<Rightarrow> GpioState \<Rightarrow> GpioState" where
  "deactivate_to_low_power i g = set_floating_state i FloatPullNone (snd (disable_output i g))"

section \<open>Levels\<close>

definition pin_read :: "pin_id \<Rightarrow> GpioState \<Rightarrow> bool" where
  "pin_read i g = (case i of (b, p) \<Rightarrow> data_in (gp_ports g b) AND pin_mask p \<noteq> 0)"

definition pin_set :: "pin_id \<Rightarrow> GpioState \<Rightarrow> GpioState" where
  "pin_set i g = (case i of (b, p) \<Rightarrow> on_port b (\<lambda>r. r\<lparr>data_out := data_out r OR pin_mask p\<rparr>) g)"

definition pin_clear :: "pin_id \<Rightarrow> GpioState \<Rightarrow> GpioState" where
  "pin_clear i g = (case i of (b, p) \<Rightarrow> on_port b (\<lambda>r. r\<lparr>data_out := data_out r AND NOT (pin_mask p)\<rparr>) g)"

definition pin_toggle :: "pin_id \<Rightarrow> GpioState \<Rightarrow> bool \<times> GpioState" where
  "pin_toggle i g =
     (case i of (b, p) \<Rightarrow>
        let bit_to_flip = pin_mask p; new_value = data_out (gp_ports g b) XOR bit_to_flip in
        (new_value AND bit_to_flip \<noteq> 0, on_port b (\<lambda>r. r\<lparr>data_out := new_value\<rparr>) g))"

section \<open>Interrupts\<close>

datatype Edge = Rising | Falling | Either

definition pin_set_client :: "pin_id \<Rightarrow> GpioState \<Rightarrow> GpioState" where
  "pin_set_client i = on_cell i (\<lambda>c. c\<lparr>pin_client := True\<rparr>)"

definition enable_interrupts :: "pin_id \<Rightarrow> Edge \<Rightarrow> GpioState \<Rightarrow> GpioState" where
  "enable_interrupts i mode g =
     (case i of (b, p) \<Rightarrow>
        let m = pin_mask p;
            g = (case mode of
                   Rising \<Rightarrow> on_cell i (\<lambda>c. c\<lparr>pin_change := False\<rparr>) (on_port b (interrupt_pol_set m) g)
                 | Falling \<Rightarrow> on_cell i (\<lambda>c. c\<lparr>pin_change := False\<rparr>) (on_port b (interrupt_pol_clear m) g)
                 | Either \<Rightarrow>
                     (let g = on_cell i (\<lambda>c. c\<lparr>pin_change := True\<rparr>) g in
                      if pin_read i g then on_port b (interrupt_pol_clear m) g else on_port b (interrupt_pol_set m) g))
        in on_port b (interrupt_enable_set m) (on_port b (interrupt_type_set m) g))"

definition disable_interrupts :: "pin_id \<Rightarrow> GpioState \<Rightarrow> GpioState" where
  "disable_interrupts i g = (case i of (b, p) \<Rightarrow> on_port b (interrupt_disable_set (pin_mask p)) g)"

definition is_pending :: "pin_id \<Rightarrow> GpioState \<Rightarrow> bool" where
  "is_pending i g = (case i of (b, p) \<Rightarrow> interrupt_status (gp_ports g b) AND pin_mask p \<noteq> 0)"

text \<open>The first component says whether the client's \<^verbatim>\<open>fired\<close> was called.\<close>

definition pin_handle_interrupt :: "pin_id \<Rightarrow> GpioState \<Rightarrow> bool \<times> GpioState" where
  "pin_handle_interrupt i g =
     (case i of (b, p) \<Rightarrow>
        let m = pin_mask p;
            g = on_port b (interrupt_status_set m) g;
            g = (if pin_change (gp_cells g b p) then
                   if interrupt_pol (gp_ports g b) AND m \<noteq> 0 then on_port b (interrupt_pol_clear m) g
                   else on_port b (interrupt_pol_set m) g
                 else g)
        in (pin_client (gp_cells g b p), g))"

section \<open>A bank of independent pins\<close>

text \<open>
  What the driver promises of a bank: an operation on a pin changes what is seen of that pin as \<open>spec\<close> says, and nothing of
  any other pin. Then the history of a pin alone determines it, whatever happens on the others.
\<close>

locale pin_bank =
  fixes view :: "'i \<Rightarrow> 's \<Rightarrow> 'v"
    and perform :: "'o \<Rightarrow> 'i \<Rightarrow> 's \<Rightarrow> 's"
    and spec :: "'o \<Rightarrow> 'v \<Rightarrow> 'v"
  assumes own: "view i (perform x i s) = spec x (view i s)"
    and other: "i \<noteq> j \<Longrightarrow> view j (perform x i s) = view j s"
begin

lemma history:
  "view j (fold (\<lambda>(x, i). perform x i) ops s) = fold spec (map fst (filter (\<lambda>(x, i). i = j) ops)) (view j s)"
proof (induction ops arbitrary: s)
  case (Cons a ops)
  then show ?case
    by (cases a) (auto simp: own other)
qed simp

lemma interleaving:
  assumes "\<And>i. filter (\<lambda>(x, k). k = i) ops = filter (\<lambda>(x, k). k = i) ops'"
  shows "view j (fold (\<lambda>(x, i). perform x i) ops s) = view j (fold (\<lambda>(x, i). perform x i) ops' s)"
  by (simp add: history assms)

end

text \<open>What there is to see of a pin, and the operations; \<open>PinLevel\<close> is a change of the level from outside.\<close>

record PinView =
  v_output :: bool
  v_level :: bool
  v_input :: bool
  v_enabled :: bool
  v_edge :: bool
  v_rising :: bool
  v_pending :: bool
  v_change :: bool
  v_client :: bool

definition pin_view :: "pin_id \<Rightarrow> GpioState \<Rightarrow> PinView" where
  "pin_view i g = (case i of (b, p) \<Rightarrow>
     \<lparr>v_output = bit (outputs (gp_ports g b)) (pin_number p), v_level = bit (data_out (gp_ports g b)) (pin_number p),
      v_input = bit (data_in (gp_ports g b)) (pin_number p), v_enabled = bit (interrupts (gp_ports g b)) (pin_number p),
      v_edge = bit (interrupt_type (gp_ports g b)) (pin_number p), v_rising = bit (interrupt_pol (gp_ports g b)) (pin_number p),
      v_pending = bit (interrupt_status (gp_ports g b)) (pin_number p), v_change = pin_change (gp_cells g b p),
      v_client = pin_client (gp_cells g b p)\<rparr>)"

datatype pin_op = OpOutput | OpDisableOutput | OpInput | OpDisableInput | OpSet | OpClear | OpToggle | OpClient | OpEnable Edge
  | OpDisable | OpInterrupt | PinLevel bool | PinEdge

definition drive_input :: "pin_id \<Rightarrow> bool \<Rightarrow> GpioState \<Rightarrow> GpioState" where
  "drive_input i level g = (case i of (b, p) \<Rightarrow>
     on_port b (\<lambda>r. r\<lparr>data_in := (if level then data_in r OR pin_mask p else data_in r AND NOT (pin_mask p))\<rparr>) g)"

definition raise_status :: "pin_id \<Rightarrow> GpioState \<Rightarrow> GpioState" where
  "raise_status i g = (case i of (b, p) \<Rightarrow> on_port b (\<lambda>r. r\<lparr>interrupt_status := interrupt_status r OR pin_mask p\<rparr>) g)"

fun pin_perform :: "pin_op \<Rightarrow> pin_id \<Rightarrow> GpioState \<Rightarrow> GpioState" where
  "pin_perform OpOutput i g = snd (make_output i g)"
| "pin_perform OpDisableOutput i g = snd (disable_output i g)"
| "pin_perform OpInput i g = snd (make_input i g)"
| "pin_perform OpDisableInput i g = snd (disable_input i g)"
| "pin_perform OpSet i g = pin_set i g"
| "pin_perform OpClear i g = pin_clear i g"
| "pin_perform OpToggle i g = snd (pin_toggle i g)"
| "pin_perform OpClient i g = pin_set_client i g"
| "pin_perform (OpEnable e) i g = enable_interrupts i e g"
| "pin_perform OpDisable i g = disable_interrupts i g"
| "pin_perform OpInterrupt i g = snd (pin_handle_interrupt i g)"
| "pin_perform (PinLevel l) i g = drive_input i l g"
| "pin_perform PinEdge i g = raise_status i g"

fun pin_spec :: "pin_op \<Rightarrow> PinView \<Rightarrow> PinView" where
  "pin_spec OpOutput v = v\<lparr>v_output := True\<rparr>"
| "pin_spec OpDisableOutput v = v\<lparr>v_output := True\<rparr>"
| "pin_spec OpInput v = v"
| "pin_spec OpDisableInput v = v"
| "pin_spec OpSet v = v\<lparr>v_level := True\<rparr>"
| "pin_spec OpClear v = v\<lparr>v_level := False\<rparr>"
| "pin_spec OpToggle v = v\<lparr>v_level := \<not> v_level v\<rparr>"
| "pin_spec OpClient v = v\<lparr>v_client := True\<rparr>"
| "pin_spec (OpEnable Rising) v = v\<lparr>v_rising := True, v_change := False, v_edge := True, v_enabled := True\<rparr>"
| "pin_spec (OpEnable Falling) v = v\<lparr>v_rising := False, v_change := False, v_edge := True, v_enabled := True\<rparr>"
| "pin_spec (OpEnable Either) v = v\<lparr>v_rising := \<not> v_input v, v_change := True, v_edge := True, v_enabled := True\<rparr>"
| "pin_spec OpDisable v = v\<lparr>v_enabled := False\<rparr>"
| "pin_spec OpInterrupt v = v\<lparr>v_pending := False, v_rising := (if v_change v then \<not> v_rising v else v_rising v)\<rparr>"
| "pin_spec (PinLevel l) v = v\<lparr>v_input := l\<rparr>"
| "pin_spec PinEdge v = v\<lparr>v_pending := True\<rparr>"

lemma pin_number_less [simp]: "pin_number p < 32"
  by (cases p) simp_all

lemma pin_number_nth: "all_pins ! pin_number p = p"
  by (cases p) (simp_all add: all_pins_def)

lemma pin_number_inj [simp]: "pin_number p = pin_number q \<longleftrightarrow> p = q"
  by (metis pin_number_nth)

lemma bit_pin_mask [simp]: "bit (pin_mask p) (pin_number q) \<longleftrightarrow> p = q"
  by (auto simp: pin_mask_def bit_simps)

lemma and_single_bit: "w AND push_bit n (1 :: u32) = 0 \<longleftrightarrow> \<not> bit w n"
  by (simp add: and_exp_eq_0_iff_not_bit)

lemma and_pin_mask [simp]: "w AND pin_mask p = 0 \<longleftrightarrow> \<not> bit w (pin_number p)"
  unfolding pin_mask_def by (rule and_single_bit)

lemma bit_ops [simp]:
  "bit (w OR pin_mask p) (pin_number q) \<longleftrightarrow> bit w (pin_number q) \<or> p = q"
  "bit (w AND NOT (pin_mask p)) (pin_number q) \<longleftrightarrow> bit w (pin_number q) \<and> p \<noteq> q"
  "bit (w XOR pin_mask p) (pin_number q) \<longleftrightarrow> bit w (pin_number q) \<noteq> (p = q)"
  by (auto simp: bit_simps)

lemmas port_defs = on_port_def on_cell_def output_enable_set_def interrupt_enable_set_def interrupt_disable_set_def
  interrupt_type_set_def interrupt_pol_set_def interrupt_pol_clear_def interrupt_status_set_def

lemmas pin_defs = make_output_def disable_output_def make_input_def disable_input_def pin_set_def pin_clear_def pin_toggle_def
  pin_set_client_def enable_interrupts_def disable_interrupts_def pin_handle_interrupt_def drive_input_def raise_status_def
  pin_read_def port_defs

lemma pin_view_own: "pin_view i (pin_perform x i g) = pin_spec x (pin_view i g)"
proof (cases i)
  case (Pair b p)
  show ?thesis
  proof (cases x)
    case (OpEnable e)
    then show ?thesis
      unfolding Pair by (cases e) (simp_all add: pin_view_def pin_defs Let_def)
  qed (simp_all add: Pair pin_view_def pin_defs Let_def)
qed

lemma pin_view_other: "i \<noteq> j \<Longrightarrow> pin_view j (pin_perform x i g) = pin_view j g"
proof (cases i; cases j)
  fix b p c q
  assume "i \<noteq> j" and ij: "i = (b, p)" "j = (c, q)"
  then show ?thesis
  proof (cases x)
    case (OpEnable e)
    then show ?thesis
      using \<open>i \<noteq> j\<close> unfolding ij by (cases e) (auto simp: pin_view_def pin_defs Let_def)
  qed (auto simp: pin_view_def pin_defs Let_def)
qed

interpretation gpio: pin_bank pin_view pin_perform pin_spec
  by unfold_locales (simp_all add: pin_view_own pin_view_other)

text \<open>C21. The pins are independent: after any sequence of operations on any pins, with changes of level from outside in between,
  what is seen of a pin (direction, level, interrupt settings, client) is what its own operations make of it.
\<close>

theorem gpio_pins_independent:
  "pin_view j (fold (\<lambda>(x, i). pin_perform x i) ops g) = fold pin_spec (map fst (filter (\<lambda>(x, i). i = j) ops)) (pin_view j g)"
  by (rule gpio.history)

section \<open>Either edge\<close>

text \<open>
  The controller has no interrupt on both edges; the driver waits for one edge and turns the polarity around in the handler.
  \<open>armed\<close>: the edge it waits for is the one that the level can make next.
\<close>

definition armed :: "PinView \<Rightarrow> bool" where
  "armed v \<longleftrightarrow> v_enabled v \<and> v_edge v \<and> v_change v \<and> v_rising v = (\<not> v_input v)"

text \<open>Every change of the level is followed by its interrupt before the next one; the output may be used meanwhile.\<close>

inductive served :: "bool \<Rightarrow> pin_op list \<Rightarrow> bool" where
  served_done: "served l []"
| served_change: "l' \<noteq> l \<Longrightarrow> served l' ops \<Longrightarrow> served l (PinLevel l' # PinEdge # OpInterrupt # ops)"
| served_quiet: "x \<in> {OpOutput, OpSet, OpClear, OpToggle, OpInput, OpClient} \<Longrightarrow> served l ops \<Longrightarrow> served l (x # ops)"

lemma armed_change:
  assumes "armed v" and "l' \<noteq> v_input v"
  shows "armed (pin_spec OpInterrupt (pin_spec PinEdge (pin_spec (PinLevel l') v)))"
  using assms by (cases l') (simp_all add: armed_def)

lemma armed_quiet:
  assumes "x \<in> {OpOutput, OpSet, OpClear, OpToggle, OpInput, OpClient}"
  shows "armed (pin_spec x v) = armed v" and "v_input (pin_spec x v) = v_input v"
  using assms by (elim insertE; simp add: armed_def)+

lemma served_armed:
  "served l ops \<Longrightarrow> v_input v = l \<Longrightarrow> armed v \<Longrightarrow> armed (fold pin_spec ops v)"
proof (induction arbitrary: v rule: served.induct)
  case (served_change l' l ops)
  let ?v = "pin_spec OpInterrupt (pin_spec PinEdge (pin_spec (PinLevel l') v))"
  from served_change have "armed ?v" by (intro armed_change) auto
  moreover have "v_input ?v = l'" by simp
  ultimately have "armed (fold pin_spec ops ?v)" by (rule served_change(3) [rotated])
  then show ?case by simp
next
  case (served_quiet x l ops)
  then show ?case
    by (simp add: armed_quiet)
qed simp

text \<open>C23. An interrupt on either edge: once a pin is set to it, and as long as every change of its level is served before the
  next one, the pin waits for the edge that comes next, whatever is done with the other pins.
\<close>

theorem gpio_either_edge:
  assumes "served (v_input (pin_view i g)) (map fst (filter (\<lambda>(x, k). k = i) ops))"
  shows "armed (pin_view i (fold (\<lambda>(x, k). pin_perform x k) ops (enable_interrupts i Either g)))"
proof -
  have "pin_view i (enable_interrupts i Either g) = pin_spec (OpEnable Either) (pin_view i g)"
    using pin_view_own [of i "OpEnable Either" g] by simp
  then show ?thesis
    using assms unfolding gpio.history by (intro served_armed) (simp_all add: armed_def)
qed

text \<open>Two changes before the handler runs: afterwards the pin waits for an edge that the level cannot make next.\<close>

lemma gpio_missed_edge:
  assumes "armed (pin_view i g)"
  shows "\<not> armed (pin_view i (fold (\<lambda>x. pin_perform x i)
    [PinLevel (\<not> v_input (pin_view i g)), PinEdge, PinLevel (v_input (pin_view i g)), OpInterrupt] g))"
  using assms by (simp add: pin_view_own armed_def del: pin_perform.simps)

section \<open>Directions and pulls\<close>

lemma pin_is_output_view: "pin_is_output i g \<longleftrightarrow> v_output (pin_view i g)"
  by (cases i) (simp add: pin_is_output_def pin_view_def)

lemma set_floating_state_ports [simp]:
  "gp_ports (set_floating_state i st g) = gp_ports g" "gp_cells (set_floating_state i st g) = gp_cells g"
  by (simp_all add: set_floating_state_def split: option.split)

lemma pin_view_floating [simp]: "pin_view j (set_floating_state i st g) = pin_view j g"
  by (cases j) (simp add: pin_view_def)

text \<open>Switching an output off switches it on: \<^verbatim>\<open>disable_output\<close> writes the enable register. The pin drives its pad
  afterwards although the call says that it is an input, also after \<^verbatim>\<open>deactivate_to_low_power\<close>.
\<close>

theorem gpio_disable_output_drives:
  "fst (disable_output i g) = InputOnly \<and> pin_is_output i (snd (disable_output i g))
   \<and> pin_configuration i (snd (disable_output i g)) = InputOutput \<and> pin_is_output i (deactivate_to_low_power i g)"
proof -
  have "v_output (pin_view i (snd (disable_output i g)))"
    using pin_view_own [of i OpDisableOutput g] by simp
  then show ?thesis
    by (cases i) (simp add: pin_is_output_view pin_configuration_def deactivate_to_low_power_def, simp add: disable_output_def)
qed

lemma bit_pull_bits [simp]:
  "bit PULLUP_BIT n \<longleftrightarrow> n = 4" "bit PULLDOWN_BIT n \<longleftrightarrow> n = 3"
  unfolding PULLUP_BIT_def PULLDOWN_BIT_def bit_push_bit_iff by (auto simp: bit_1_iff)

lemma pull_other_bits:
  "n \<noteq> 3 \<Longrightarrow> n \<noteq> 4 \<Longrightarrow> bit (pull_control st c) n = bit c n"
  by (cases st) (auto simp: bit_simps dest: bit_imp_le_length)

lemma pull_bits:
  "pull_control st c AND PULLUP_BIT = 0 \<longleftrightarrow> st \<noteq> FloatPullUp"
  "pull_control st c AND PULLDOWN_BIT = 0 \<longleftrightarrow> st \<noteq> FloatPullDown"
proof -
  have "pull_control st c AND PULLUP_BIT = 0 \<longleftrightarrow> \<not> bit (pull_control st c) 4"
    "pull_control st c AND PULLDOWN_BIT = 0 \<longleftrightarrow> \<not> bit (pull_control st c) 3"
    unfolding PULLUP_BIT_def PULLDOWN_BIT_def by (rule and_single_bit)+
  then show "pull_control st c AND PULLUP_BIT = 0 \<longleftrightarrow> st \<noteq> FloatPullUp" "pull_control st c AND PULLDOWN_BIT = 0 \<longleftrightarrow> st \<noteq> FloatPullDown"
    by (cases st; simp add: bit_simps)+
qed

text \<open>The pull of a pin: what is set is what is read back, provided the pin is connected to a pad; the other bits of the
  pad's control register stay, and so does the pull of every pin that is connected to another pad.
\<close>

theorem gpio_floating_roundtrip:
  assumes "get_pinmux_pin i g = Some d"
  shows "floating_state i (set_floating_state i st g) = st
    \<and> (\<forall>n. n \<noteq> 3 \<longrightarrow> n \<noteq> 4 \<longrightarrow> bit (pad_control (mux_pads (gp_mux (set_floating_state i st g)) d)) n = bit (pad_control (mux_pads (gp_mux g) d)) n)
    \<and> (\<forall>j. get_pinmux_pin j g \<noteq> Some d \<longrightarrow> floating_state j (set_floating_state i st g) = floating_state j g)"
proof (intro conjI allI impI)
  let ?g = "set_floating_state i st g"
  have g: "?g = g\<lparr>gp_mux := pad_control_set d (pull_control st (pad_control (mux_pads (gp_mux g) d))) (gp_mux g)\<rparr>"
    using assms by (simp add: set_floating_state_def)
  have read: "pad_control (mux_pads (gp_mux ?g) d) = pull_control st (pad_control (mux_pads (gp_mux g) d))"
    by (simp add: g pad_control_set_def)
  have others: "e \<noteq> d \<Longrightarrow> mux_pads (gp_mux ?g) e = mux_pads (gp_mux g) e" for e
    by (simp add: g pad_control_set_def)
  have same: "get_pinmux_pin j ?g = get_pinmux_pin j g" for j
    by (simp add: g get_pinmux_pin_def pad_control_set_def)
  show "floating_state i ?g = st"
    unfolding floating_state_def same assms by (simp add: read pull_bits Let_def) (cases st; simp)
  show "floating_state j ?g = floating_state j g" if "get_pinmux_pin j g \<noteq> Some d" for j
    using that unfolding floating_state_def same by (auto simp: others split: option.split)
  show "bit (pad_control (mux_pads (gp_mux ?g) d)) n = bit (pad_control (mux_pads (gp_mux g) d)) n" if "n \<noteq> 3" "n \<noteq> 4" for n
    using that by (simp add: read pull_other_bits)
qed

text \<open>A pin on a pad with its pull-up on, an output meanwhile, and two served changes of its level among operations on another pin.\<close>

definition gpio_demo :: GpioState where
  "gpio_demo = Gpio_new (\<lambda>b. \<lparr>data_in = 0, data_out = 0, outputs = 0, interrupts = 0, interrupt_type = 0, interrupt_pol = 0, interrupt_status = 0\<rparr>)
     \<lparr>mux_pads = (\<lambda>d. \<lparr>pad_select = DefaultFunction, pad_control = 0\<rparr>), mux_peripherals = (\<lambda>f. Diob0)\<rparr>"

theorem gpio_floating_witness:
  "floating_state (GPIO0_BASE, P2) (set_floating_state (GPIO0_BASE, P2) FloatPullUp gpio_demo) = FloatPullUp"
proof -
  have "get_pinmux_pin (GPIO0_BASE, P2) gpio_demo = Some Pad_diob0"
    by (simp add: gpio_demo_def Gpio_new_def get_pinmux_pin_def)
  from gpio_floating_roundtrip [OF this] show ?thesis by blast
qed

theorem gpio_either_edge_witness:
  "armed (pin_view (GPIO0_BASE, P2) (fold (\<lambda>(x, k). pin_perform x k)
     [(PinLevel True, (GPIO0_BASE, P2)), (PinEdge, (GPIO0_BASE, P2)), (PinLevel True, (GPIO0_BASE, P3)), (OpInterrupt, (GPIO0_BASE, P2)),
      (OpSet, (GPIO1_BASE, P2)), (OpToggle, (GPIO0_BASE, P2)), (PinLevel False, (GPIO0_BASE, P2)), (PinEdge, (GPIO0_BASE, P2)),
      (OpInterrupt, (GPIO0_BASE, P2))]
     (enable_interrupts (GPIO0_BASE, P2) Either gpio_demo)))"
  by (rule gpio_either_edge)
    (simp add: gpio_demo_def Gpio_new_def pin_view_def served_change [OF _ served_quiet] served_change [OF _ served_done])

end
