(* ===== verification/Chip.thy ===== *)
theory Chip
  imports Gpio Aes Dcrypto Digest Spi_Host_Hw Board Timers Uart U2f_Driver
begin

text \<open>
  The chip, \<^verbatim>\<open>kernel/h1/src/chip.rs\<close>: the peripherals with their drivers, and the dispatch of the interrupts to their
  handlers.
\<close>

section \<open>State\<close>

text \<open>
  A driver whose client is in this repository contains it. The calls to the clients that are part of the Tock kernel (pins,
  alarms, serial ports, SPI host, entropy) are recorded as events.
\<close>

datatype chip_event = PinFired pin_id | AlarmFired nat | UartEvent nat uart_event | SpiHostDone nat "byte list" "byte list option" nat
  | EntropyAvailable "u32 list"

record Hotel =
  ch_dcrypto :: DcryptoDriver
  ch_aes :: AesDriver
  ch_sha :: ShaEngine
  ch_spi_host0 :: SpiHostHardware
  ch_spi_host1 :: SpiHostHardware
  ch_spi_device :: "SpiDeviceHardware SpiDeviceSyscall"
  ch_timels0 :: Timels
  ch_timels1 :: Timels
  ch_trng :: Trng
  ch_uart0 :: Uart
  ch_uart1 :: Uart
  ch_uart2 :: Uart
  ch_usb :: "USB \<times> U2fSyscallDriver"
  ch_gpio :: GpioState
  ch_events :: "chip_event list"

text \<open>
  What the handlers need from outside: whether an application's grant can be entered, what the USB controller does while the
  driver waits and what lies behind a structure that it copies, and the client of the entropy source.
\<close>

record ChipWorld =
  cw_alloc :: "nat \<Rightarrow> bool"
  cw_usb_tick :: "USBRegisters \<Rightarrow> USBRegisters"
  cw_usb_after :: "nat \<Rightarrow> byte"
  cw_entropy :: "entropy_client option"

type_synonym 'a chip = "(Hotel, MemoryError option, 'a) peff"

definition emit :: "chip_event list \<Rightarrow> Hotel \<Rightarrow> Hotel" where
  "emit evs c = c\<lparr>ch_events := ch_events c @ evs\<rparr>"

text \<open>A handler that runs on one part of the chip; what it returns becomes events.\<close>

definition on_part :: "(Hotel \<Rightarrow> 'p) \<Rightarrow> ('p \<Rightarrow> Hotel \<Rightarrow> Hotel) \<Rightarrow> ('a \<Rightarrow> chip_event list) \<Rightarrow> ('p, 'e, 'a) eff \<Rightarrow> unit chip" where
  "on_part get put evs m c =
     (case m (get c) of
        (Ok a, p) \<Rightarrow> Some (Ok (), emit (evs a) (put p c))
      | (Err e, p) \<Rightarrow> Some (Err None, put p c)
      | (Panic, p) \<Rightarrow> Some (Panic, put p c))"

definition on_uart0 :: "(Uart, unit, uart_event list) eff \<Rightarrow> unit chip" where
  "on_uart0 = on_part ch_uart0 (\<lambda>u c. c\<lparr>ch_uart0 := u\<rparr>) (map (UartEvent 0))"

definition on_uart1 :: "(Uart, unit, uart_event list) eff \<Rightarrow> unit chip" where
  "on_uart1 = on_part ch_uart1 (\<lambda>u c. c\<lparr>ch_uart1 := u\<rparr>) (map (UartEvent 1))"

definition on_uart2 :: "(Uart, unit, uart_event list) eff \<Rightarrow> unit chip" where
  "on_uart2 = on_part ch_uart2 (\<lambda>u c. c\<lparr>ch_uart2 := u\<rparr>) (map (UartEvent 2))"

definition on_dcrypto :: "(DcryptoDriver, unit, unit) eff \<Rightarrow> unit chip" where
  "on_dcrypto = on_part ch_dcrypto (\<lambda>d c. c\<lparr>ch_dcrypto := d\<rparr>) (\<lambda>_. [])"

definition silently :: "('s, unit, unit) eff \<Rightarrow> ('s, unit, 'a list) eff" where
  "silently m = eff_bind m (\<lambda>_. ret [])"

definition spi_host0_interrupt :: "Hotel \<Rightarrow> Hotel" where
  "spi_host0_interrupt = host_handle_interrupt ch_spi_host0 (\<lambda>f c. c\<lparr>ch_spi_host0 := f (ch_spi_host0 c)\<rparr>)
     (\<lambda>tx rx n. emit [SpiHostDone 0 tx rx n])"

definition spi_host1_interrupt :: "Hotel \<Rightarrow> Hotel" where
  "spi_host1_interrupt = host_handle_interrupt ch_spi_host1 (\<lambda>f c. c\<lparr>ch_spi_host1 := f (ch_spi_host1 c)\<rparr>)
     (\<lambda>tx rx n. emit [SpiHostDone 1 tx rx n])"

definition spi_device_interrupt :: "ChipWorld \<Rightarrow> Hotel \<Rightarrow> Hotel" where
  "spi_device_interrupt w c = c\<lparr>ch_spi_device :=
     handle_interrupt_cmd_addr_fifo_not_empty sd_device on_sd (data_available (cw_alloc w) h1_spi_device) (ch_spi_device c)\<rparr>"

definition timels0_interrupt :: "Hotel \<Rightarrow> Hotel" where
  "timels0_interrupt c = (case timels_handle_interrupt (ch_timels0 c) of (fired, t) \<Rightarrow>
     emit (if fired then [AlarmFired 0] else []) (c\<lparr>ch_timels0 := t\<rparr>))"

definition timels1_interrupt :: "Hotel \<Rightarrow> Hotel" where
  "timels1_interrupt c = (case timels_handle_interrupt (ch_timels1 c) of (fired, t) \<Rightarrow>
     emit (if fired then [AlarmFired 1] else []) (c\<lparr>ch_timels1 := t\<rparr>))"

definition trng_interrupt :: "ChipWorld \<Rightarrow> Hotel \<Rightarrow> Hotel" where
  "trng_interrupt w c = (case trng_handle_interrupt (cw_entropy w) (ch_trng c) of (ws, t) \<Rightarrow>
     emit (if cw_entropy w = None then [] else [EntropyAvailable ws]) (c\<lparr>ch_trng := t\<rparr>))"

definition usb_interrupt :: "ChipWorld \<Rightarrow> unit chip" where
  "usb_interrupt w c = map_option (\<lambda>(r, u). (case r of Ok x \<Rightarrow> Ok x | Err e \<Rightarrow> Err (Some e) | Panic \<Rightarrow> Panic, c\<lparr>ch_usb := u\<rparr>))
     (Usb_Device.handle_interrupt (cw_usb_tick w) (cw_usb_after w) u2f_client (ch_usb c))"

text \<open>A pin of an array; an index outside it would be a panic.\<close>

definition pin_interrupt :: "pin_id list \<Rightarrow> nat \<Rightarrow> unit chip" where
  "pin_interrupt pins k c =
     (if k < length pins then
        (case pin_handle_interrupt (pins ! k) (ch_gpio c) of (fired, g) \<Rightarrow>
           Some (Ok (), emit (if fired then [PinFired (pins ! k)] else []) (c\<lparr>ch_gpio := g\<rparr>)))
      else Some (Panic, c))"

definition finish :: "(Hotel \<Rightarrow> Hotel) \<Rightarrow> unit chip" where
  "finish f c = Some (Ok (), f c)"

section \<open>Dispatch\<close>

definition service_interrupt :: "ChipWorld \<Rightarrow> nat \<Rightarrow> unit chip" where
  "service_interrupt w n =
     (if n \<in> {1, 3, 6, 7, 8, 9, 10, 11} then on_dcrypto (dd_interrupt (handle_error_interrupt n))
      else if n = 2 then on_dcrypto (dd_interrupt (\<lambda>e. (Ok [], handle_wipe_interrupt e)))
      else if n = 4 then on_dcrypto (dd_interrupt handle_done_interrupt)
      else if n = 5 then on_dcrypto (dd_interrupt (silently handle_receive_interrupt))
      else if 104 \<le> n \<and> n \<le> 109 then on_part ch_aes (\<lambda>a c. c\<lparr>ch_aes := a\<rparr>) (\<lambda>_. []) (aes_handle_interrupt (cw_alloc w) n)
      else if n = 110 then finish (\<lambda>c. c\<lparr>ch_sha := ShaEngine_handle_interrupt (ch_sha c)\<rparr>)
      else if n = 111 then finish (\<lambda>c. c)
      else if n = 127 then finish spi_host0_interrupt
      else if n = 128 then finish spi_host1_interrupt
      else if n = 131 then finish (spi_device_interrupt w)
      else if n = 159 then finish timels0_interrupt
      else if n = 160 then finish timels1_interrupt
      else if n = 169 then finish (trng_interrupt w)
      else if n = 174 then on_uart0 handle_rx_interrupt
      else if n = 177 then on_uart0 handle_tx_interrupt
      else if n = 181 then on_uart1 handle_rx_interrupt
      else if n = 184 then on_uart1 handle_tx_interrupt
      else if n = 188 then on_uart2 handle_rx_interrupt
      else if n = 191 then on_uart2 handle_tx_interrupt
      else if n = 193 then usb_interrupt w
      else if 65 \<le> n \<and> n \<le> 80 then pin_interrupt PORT0 (n - 65)
      else if n = 81 then finish (\<lambda>c. c)
      else if 82 \<le> n \<and> n \<le> 97 then pin_interrupt PORT1 (n - 82)
      else if n = 98 then finish (\<lambda>c. c)
      else (\<lambda>c. Some (Panic, c)))"

text \<open>
  The interrupt controller belongs to the Cortex-M support: the next pending interrupt, clearing and enabling one. \<open>arrive\<close>
  is what becomes pending while the handler of an interrupt runs.
\<close>

record 'n Nvic =
  nv_next_pending :: "'n \<Rightarrow> nat option"
  nv_clear_pending :: "nat \<Rightarrow> 'n \<Rightarrow> 'n"
  nv_enable :: "nat \<Rightarrow> 'n \<Rightarrow> 'n"

definition has_pending_interrupts :: "'n Nvic \<Rightarrow> 'n \<Rightarrow> bool" where
  "has_pending_interrupts nv s = (nv_next_pending nv s \<noteq> None)"

partial_function (option) service_pending_interrupts ::
    "'n Nvic \<Rightarrow> (nat \<Rightarrow> 'n \<Rightarrow> 'n) \<Rightarrow> ChipWorld \<Rightarrow> 'n \<Rightarrow> Hotel \<Rightarrow> ((MemoryError option, unit) outcome \<times> 'n \<times> Hotel) option" where
  "service_pending_interrupts nv arrive w s c =
     (case nv_next_pending nv s of
        None \<Rightarrow> Some (Ok (), s, c)
      | Some n \<Rightarrow>
          (case service_interrupt w n c of
             None \<Rightarrow> None
           | Some (r, c) \<Rightarrow>
               (case r of
                  Ok _ \<Rightarrow> service_pending_interrupts nv arrive w (nv_enable nv n (nv_clear_pending nv n (arrive n s))) c
                | Err e \<Rightarrow> Some (Err e, arrive n s, c)
                | Panic \<Rightarrow> Some (Panic, arrive n s, c))))"

section \<open>Which handler runs\<close>

definition known_interrupts :: "nat set" where
  "known_interrupts = {1..11} \<union> {65..98} \<union> {104..111} \<union> {127, 128, 131, 159, 160, 169, 174, 177, 181, 184, 188, 191, 193}"

lemma length_ports [simp]: "length PORT0 = 16" "length PORT1 = 16"
  by (simp_all add: PORT0_def PORT1_def)

lemma ports_nth: "k < 16 \<Longrightarrow> PORT0 ! k = (GPIO0_BASE, all_pins ! k) \<and> PORT1 ! k = (GPIO1_BASE, all_pins ! k)"
  by (simp add: less_Suc_eq numeral_eq_Suc) (auto simp: PORT0_def PORT1_def all_pins_def)

lemma pins_in_order: "k < 16 \<Longrightarrow> pin_number (all_pins ! k) = k"
  by (simp add: less_Suc_eq numeral_eq_Suc) (auto simp: all_pins_def)

text \<open>An interrupt that the chip does not know stops the kernel with a panic, and nothing is changed; every number that it passes
  to the cryptographic engines is one that their handlers know.
\<close>

theorem chip_unexpected_interrupt:
  "(n \<notin> known_interrupts \<longrightarrow> service_interrupt w n c = Some (Panic, c))
   \<and> (n \<in> {1, 3, 6, 7, 8, 9, 10, 11} \<longrightarrow> fault_flag n \<noteq> None) \<and> (n \<in> {104..109} \<longrightarrow> ParsedInterrupt_from n \<noteq> None)"
  by (auto simp: known_interrupts_def service_interrupt_def fault_flag_def ParsedInterrupt_from_def)

section \<open>All pending interrupts are served\<close>

text \<open>What the interrupt controller promises; \<open>pend\<close> are the pending interrupts.\<close>

definition nvic_ok :: "'n Nvic \<Rightarrow> ('n \<Rightarrow> nat set) \<Rightarrow> bool" where
  "nvic_ok nv pend \<longleftrightarrow>
     (\<forall>s. finite (pend s)
        \<and> (case nv_next_pending nv s of None \<Rightarrow> pend s = {} | Some n \<Rightarrow> n \<in> pend s)
        \<and> (\<forall>n. pend (nv_clear_pending nv n s) = pend s - {n} \<and> pend (nv_enable nv n s) = pend s))"

lemma nvic_none: "nvic_ok nv pend \<Longrightarrow> nv_next_pending nv s = None \<longleftrightarrow> pend s = {}"
  unfolding nvic_ok_def by (metis (mono_tags, lifting) empty_iff not_None_eq option.simps(4,5))

lemma nvic_some:
  assumes "nvic_ok nv pend" and "nv_next_pending nv s = Some n"
  shows "n \<in> pend s" and "finite (pend s)" and "pend (nv_enable nv n (nv_clear_pending nv n s)) = pend s - {n}"
proof -
  have "case nv_next_pending nv s of None \<Rightarrow> pend s = {} | Some n \<Rightarrow> n \<in> pend s"
    using assms(1) by (simp add: nvic_ok_def)
  with assms(2) show "n \<in> pend s" by simp
  show "finite (pend s)" "pend (nv_enable nv n (nv_clear_pending nv n s)) = pend s - {n}"
    using assms(1) by (simp_all add: nvic_ok_def)
qed

fun serve_all :: "ChipWorld \<Rightarrow> nat list \<Rightarrow> unit chip" where
  "serve_all w [] = returning (ret ())"
| "serve_all w (n # ns) = peff_bind (service_interrupt w n) (\<lambda>_. serve_all w ns)"

lemma service_pending_order:
  assumes "nvic_ok nv pend"
  shows "\<exists>ns s'. distinct ns \<and> set ns = pend s \<and> pend s' = {} \<and>
    (\<forall>c c'. serve_all w ns c = Some (Ok (), c') \<longrightarrow> service_pending_interrupts nv (\<lambda>n s. s) w s c = Some (Ok (), s', c'))"
proof (induction "card (pend s)" arbitrary: s rule: less_induct)
  case less
  show ?case
  proof (cases "nv_next_pending nv s")
    case None
    with assms have "pend s = {}" by (simp add: nvic_none)
    with None show ?thesis
      by (intro exI [of _ "[]"] exI [of _ s]) (simp add: service_pending_interrupts.simps [of nv] returning_def ret_def)
  next
    case (Some n)
    let ?s = "nv_enable nv n (nv_clear_pending nv n s)"
    have n: "n \<in> pend s" "finite (pend s)" and less_pend: "pend ?s = pend s - {n}"
      using nvic_some [OF assms Some] by simp_all
    have "card (pend ?s) < card (pend s)"
      unfolding less_pend using n by (intro card_Diff1_less)
    from less [OF this] obtain ns s' where ns: "distinct ns" "set ns = pend s - {n}" "pend s' = {}"
      "\<And>c c'. serve_all w ns c = Some (Ok (), c') \<Longrightarrow> service_pending_interrupts nv (\<lambda>n s. s) w ?s c = Some (Ok (), s', c')"
      unfolding less_pend by blast
    show ?thesis
    proof (intro exI [of _ "n # ns"] exI [of _ s'] conjI allI impI)
      show "distinct (n # ns)" "set (n # ns) = pend s" "pend s' = {}"
        using ns(1,2,3) n(1) by auto
      fix c c'
      assume "serve_all w (n # ns) c = Some (Ok (), c')"
      then obtain c1 where "service_interrupt w n c = Some (Ok (), c1)" "serve_all w ns c1 = Some (Ok (), c')"
        by (auto simp: peff_bind_def split: option.splits prod.splits outcome.splits)
      then show "service_pending_interrupts nv (\<lambda>n s. s) w s c = Some (Ok (), s', c')"
        using ns(4) Some by (simp add: service_pending_interrupts.simps [of nv _ w s])
    qed
  qed
qed

text \<open>The pin of an interrupt number.\<close>

definition irq_pin :: "nat \<Rightarrow> pin_id option" where
  "irq_pin n = (if 65 \<le> n \<and> n \<le> 80 then Some (GPIO0_BASE, all_pins ! (n - 65))
     else if 82 \<le> n \<and> n \<le> 97 then Some (GPIO1_BASE, all_pins ! (n - 82)) else None)"

definition pin_events :: "GpioState \<Rightarrow> nat \<Rightarrow> chip_event list" where
  "pin_events g n = (case irq_pin n of Some i \<Rightarrow> if v_client (pin_view i g) then [PinFired i] else [] | None \<Rightarrow> [])"

lemma pin_handle_interrupt_fired: "fst (pin_handle_interrupt i g) = v_client (pin_view i g)"
  by (cases i) (simp add: pin_handle_interrupt_def pin_view_def Let_def port_defs)

lemma pin_interrupt_eq:
  assumes "k < length pins"
  shows "pin_interrupt pins k c = Some (Ok (), emit (if v_client (pin_view (pins ! k) (ch_gpio c)) then [PinFired (pins ! k)] else [])
    (c\<lparr>ch_gpio := pin_perform OpInterrupt (pins ! k) (ch_gpio c)\<rparr>))"
  using assms by (simp add: pin_interrupt_def pin_handle_interrupt_fired [symmetric] split: prod.split)

lemma service_pin_interrupt:
  assumes "n \<in> {65..98}"
  shows "service_interrupt w n c = Some (Ok (), emit (pin_events (ch_gpio c) n)
    (case irq_pin n of Some i \<Rightarrow> c\<lparr>ch_gpio := pin_perform OpInterrupt i (ch_gpio c)\<rparr> | None \<Rightarrow> c))"
proof -
  have "n \<in> {65..80} \<or> n = 81 \<or> n \<in> {82..97} \<or> n = 98" using assms by auto
  then consider (p0) "65 \<le> n" "n \<le> 80" | (c0) "n = 81" | (p1) "82 \<le> n" "n \<le> 97" | (c1) "n = 98" by auto
  then show ?thesis
  proof cases
    case p0
    then have "service_interrupt w n c = pin_interrupt PORT0 (n - 65) c" by (simp add: service_interrupt_def)
    with p0 show ?thesis by (simp add: pin_interrupt_eq ports_nth pin_events_def irq_pin_def)
  next
    case p1
    then have "service_interrupt w n c = pin_interrupt PORT1 (n - 82) c" by (simp add: service_interrupt_def)
    with p1 show ?thesis by (simp add: pin_interrupt_eq ports_nth pin_events_def irq_pin_def)
  qed (simp_all add: service_interrupt_def finish_def emit_def pin_events_def irq_pin_def)
qed

lemma client_kept [simp]: "v_client (pin_view j (snd (pin_handle_interrupt i g))) = v_client (pin_view j g)"
  using pin_view_own [of i OpInterrupt g] pin_view_other [of i j OpInterrupt g] by (cases "i = j") simp_all

lemma pin_events_kept [simp]: "pin_events (snd (pin_handle_interrupt i g)) = pin_events g"
  by (rule ext) (simp add: pin_events_def split: option.split)

lemma serve_pins:
  assumes "set ns \<subseteq> {65..98}"
  shows "\<exists>c'. serve_all w ns c = Some (Ok (), c') \<and> ch_events c' = ch_events c @ concat (map (pin_events (ch_gpio c)) ns)"
  using assms
proof (induction ns arbitrary: c)
  case (Cons n ns)
  define c1 where "c1 = emit (pin_events (ch_gpio c) n)
    (case irq_pin n of Some i \<Rightarrow> c\<lparr>ch_gpio := pin_perform OpInterrupt i (ch_gpio c)\<rparr> | None \<Rightarrow> c)"
  from Cons.prems have "service_interrupt w n c = Some (Ok (), c1)"
    by (simp add: service_pin_interrupt c1_def)
  moreover have "pin_events (ch_gpio c1) = pin_events (ch_gpio c)" "ch_events c1 = ch_events c @ pin_events (ch_gpio c) n"
    by (simp_all add: c1_def emit_def split: option.split)
  ultimately show ?case
    using Cons.IH [of c1] Cons.prems by (auto simp: peff_bind_def)
qed (simp add: returning_def ret_def)

lemma irq_pin_inj: "irq_pin n = Some i \<Longrightarrow> irq_pin m = Some i \<Longrightarrow> n = m"
proof -
  assume "irq_pin n = Some i" "irq_pin m = Some i"
  then have "(65 \<le> n \<and> n \<le> 80 \<and> 65 \<le> m \<and> m \<le> 80 \<and> all_pins ! (n - 65) = all_pins ! (m - 65))
    \<or> (82 \<le> n \<and> n \<le> 97 \<and> 82 \<le> m \<and> m \<le> 97 \<and> all_pins ! (n - 82) = all_pins ! (m - 82))"
    by (auto simp: irq_pin_def split: if_splits)
  then show "n = m"
  proof
    assume a: "65 \<le> n \<and> n \<le> 80 \<and> 65 \<le> m \<and> m \<le> 80 \<and> all_pins ! (n - 65) = all_pins ! (m - 65)"
    then have "n - 65 < 16" "m - 65 < 16" by linarith+
    with a have "n - 65 = m - 65" using pins_in_order by metis
    with a show ?thesis by linarith
  next
    assume a: "82 \<le> n \<and> n \<le> 97 \<and> 82 \<le> m \<and> m \<le> 97 \<and> all_pins ! (n - 82) = all_pins ! (m - 82)"
    then have "n - 82 < 16" "m - 82 < 16" by linarith+
    with a have "n - 82 = m - 82" using pins_in_order by metis
    with a show ?thesis by linarith
  qed
qed

lemma distinct_pin_events:
  "distinct ns \<Longrightarrow> distinct (concat (map (pin_events g) ns))"
proof (induction ns)
  case (Cons n ns)
  have "PinFired i \<notin> set (concat (map (pin_events g) ns))" if "irq_pin n = Some i" for i
    using that Cons.prems irq_pin_inj by (fastforce simp: pin_events_def split: option.splits if_splits)
  with Cons show ?case
    by (auto simp: pin_events_def [of g n] split: option.split)
qed simp

lemma set_pin_events:
  "set (concat (map (pin_events g) ns)) = {PinFired i |i n. n \<in> set ns \<and> irq_pin n = Some i \<and> v_client (pin_view i g)}"
  by (auto simp: pin_events_def split: option.splits if_splits)

text \<open>C22. The interrupts of the pins are served: whatever pins have pending interrupts, and in whatever order the controller gives
  them, the loop ends with nothing pending, and the client of every such pin has been called exactly once.
\<close>

theorem chip_serves_pins:
  assumes "nvic_ok nv pend" and "pend s \<subseteq> {65..98}"
  shows "\<exists>s' c' evs. service_pending_interrupts nv (\<lambda>n s. s) w s c = Some (Ok (), s', c') \<and> pend s' = {}
    \<and> \<not> has_pending_interrupts nv s' \<and> ch_events c' = ch_events c @ evs \<and> distinct evs
    \<and> set evs = {PinFired i |i n. n \<in> pend s \<and> irq_pin n = Some i \<and> v_client (pin_view i (ch_gpio c))}"
proof -
  from service_pending_order [OF assms(1), of s w] obtain ns s' where ns: "distinct ns" "set ns = pend s" "pend s' = {}"
    "\<And>c c'. serve_all w ns c = Some (Ok (), c') \<Longrightarrow> service_pending_interrupts nv (\<lambda>n s. s) w s c = Some (Ok (), s', c')"
    by blast
  from serve_pins [of ns w c] assms(2) ns(2) obtain c' where c': "serve_all w ns c = Some (Ok (), c')"
    "ch_events c' = ch_events c @ concat (map (pin_events (ch_gpio c)) ns)"
    by auto
  have "\<not> has_pending_interrupts nv s'"
    using nvic_none [OF assms(1), of s'] ns(3) by (simp add: has_pending_interrupts_def)
  with ns(3) ns(4) [OF c'(1)] c'(2) distinct_pin_events [OF ns(1)] set_pin_events [of "ch_gpio c" ns] show ?thesis
    unfolding ns(2) by blast
qed

text \<open>A controller that keeps the pending interrupts in a list.\<close>

definition list_nvic :: "nat list Nvic" where
  "list_nvic = \<lparr>nv_next_pending = (\<lambda>s. case s of [] \<Rightarrow> None | n # _ \<Rightarrow> Some n), nv_clear_pending = (\<lambda>n. filter (\<lambda>m. m \<noteq> n)), nv_enable = (\<lambda>_ s. s)\<rparr>"

lemma list_nvic_ok: "nvic_ok list_nvic set"
  by (auto simp: nvic_ok_def list_nvic_def split: list.split)

theorem chip_serves_pins_witness:
  "\<forall>w c. \<exists>s' c' evs. service_pending_interrupts list_nvic (\<lambda>n s. s) w [67, 81, 68] c = Some (Ok (), s', c') \<and> set s' = {}
    \<and> \<not> has_pending_interrupts list_nvic s' \<and> ch_events c' = ch_events c @ evs \<and> distinct evs
    \<and> set evs = {PinFired i |i n. n \<in> set [67, 81, 68] \<and> irq_pin n = Some i \<and> v_client (pin_view i (ch_gpio c))}"
proof (intro allI)
  fix w c
  show "\<exists>s' c' evs. service_pending_interrupts list_nvic (\<lambda>n s. s) w [67, 81, 68] c = Some (Ok (), s', c') \<and> set s' = {}
    \<and> \<not> has_pending_interrupts list_nvic s' \<and> ch_events c' = ch_events c @ evs \<and> distinct evs
    \<and> set evs = {PinFired i |i n. n \<in> set [67, 81, 68] \<and> irq_pin n = Some i \<and> v_client (pin_view i (ch_gpio c))}"
    by (rule chip_serves_pins [OF list_nvic_ok]) simp
qed

theorem chip_unexpected_interrupt_witness:
  "\<forall>w c. service_interrupt w 54 c = Some (Panic, c)"
  using chip_unexpected_interrupt [of 54] by (simp add: known_interrupts_def)

end
