(* ===== verification/Startup.thy ===== *)
theory Startup
  imports Uart
begin

text \<open>
  The start of the chip, \<^verbatim>\<open>kernel/h1/src/lib.rs\<close>: the vectors, the copy of the initialised data and the clearing of the zero
  segment; and the console writer of \<^verbatim>\<open>io.rs\<close>.
\<close>

section \<open>Vectors\<close>

datatype Vector = V_estack | V_reset_handler | V_unhandled_interrupt | V_hard_fault_handler | V_svc_handler | V_systick_handler
  | V_generic_isr

definition BASE_VECTORS :: "Vector list" where
  "BASE_VECTORS = [V_estack, V_reset_handler, V_unhandled_interrupt, V_hard_fault_handler, V_unhandled_interrupt, V_unhandled_interrupt,
     V_unhandled_interrupt, V_unhandled_interrupt, V_unhandled_interrupt, V_unhandled_interrupt, V_unhandled_interrupt, V_svc_handler,
     V_unhandled_interrupt, V_unhandled_interrupt, V_unhandled_interrupt, V_systick_handler]"

definition IRQS :: "Vector list" where
  "IRQS = replicate 255 V_generic_isr"

text \<open>The panic of an unexpected exception and the number that it reports; \<open>ipsr\<close> is the status register.\<close>

definition unhandled_interrupt :: "u32 \<Rightarrow> u32 \<times> (unit, unit) outcome" where
  "unhandled_interrupt ipsr = (ipsr AND 0x1ff, Panic)"

section \<open>The segments in memory\<close>

text \<open>
  Memory as words at their addresses. The symbols of the linker are the addresses of the segments; a pointer to a word moves by
  four.
\<close>

type_synonym ram = "nat \<Rightarrow> u32"

record LinkerSymbols =
  ls_szero :: nat
  ls_ezero :: nat
  ls_etext :: nat
  ls_srelocate :: nat
  ls_erelocate :: nat

function relocate :: "nat \<Rightarrow> nat \<Rightarrow> nat \<Rightarrow> ram \<Rightarrow> ram" where
  "relocate pdest pend psrc m = (if pdest < pend then relocate (pdest + 4) pend (psrc + 4) (m(pdest := m psrc)) else m)"
  by pat_completeness auto
termination
  by (relation "measure (\<lambda>(pdest, pend, psrc, m). pend - pdest)") auto

function clear_segment :: "nat \<Rightarrow> nat \<Rightarrow> ram \<Rightarrow> ram" where
  "clear_segment pdest pzero m = (if pdest < pzero then clear_segment (pdest + 4) pzero (m(pdest := 0)) else m)"
  by pat_completeness auto
termination
  by (relation "measure (\<lambda>(pdest, pzero, m). pzero - pdest)") auto

declare relocate.simps [simp del] clear_segment.simps [simp del]

definition init_memory :: "LinkerSymbols \<Rightarrow> ram \<Rightarrow> ram" where
  "init_memory l m =
     (let pdest = ls_srelocate l; pend = ls_erelocate l; psrc = ls_etext l;
          m = (if psrc \<noteq> pdest then relocate pdest pend psrc m else m)
      in clear_segment (ls_szero l) (ls_ezero l) m)"

text \<open>The interrupt controller, as the Cortex-M support offers it.\<close>

record 'n NvicReset =
  nv_disable_all :: "'n \<Rightarrow> 'n"
  nv_clear_all_pending :: "'n \<Rightarrow> 'n"
  nv_enable_all :: "'n \<Rightarrow> 'n"

definition h1_init :: "LinkerSymbols \<Rightarrow> 'n NvicReset \<Rightarrow> ram \<times> 'n \<Rightarrow> ram \<times> 'n" where
  "h1_init l nv s = (case s of (m, n) \<Rightarrow> (init_memory l m, nv_enable_all nv (nv_clear_all_pending nv (nv_disable_all nv n))))"

section \<open>The console writer\<close>

definition Writer_write_str :: "(Uart \<Rightarrow> Uart) \<Rightarrow> (Uart \<Rightarrow> bool) \<Rightarrow> byte list \<Rightarrow> (Uart, unit, unit) peff" where
  "Writer_write_str tick idle s u = map_option (\<lambda>u. (Ok (), u)) (send_bytes_sync tick idle s u)"

definition IoWrite_write :: "(Uart \<Rightarrow> Uart) \<Rightarrow> (Uart \<Rightarrow> bool) \<Rightarrow> byte list \<Rightarrow> Uart \<Rightarrow> Uart option" where
  "IoWrite_write tick idle buf u = send_bytes_sync tick idle buf u"

section \<open>After the start\<close>

text \<open>The words of a segment, as the loops go through it.\<close>

definition segment :: "nat \<Rightarrow> nat \<Rightarrow> nat set" where
  "segment start stop = {start + 4 * k |k. start + 4 * k < stop}"

lemma segment_Suc: "start < stop \<Longrightarrow> segment start stop = insert start (segment (start + 4) stop)"
proof (intro set_eqI iffI)
  fix a
  assume "a \<in> segment start stop" and "start < stop"
  then obtain k where k: "a = start + 4 * k" "start + 4 * k < stop" by (auto simp: segment_def)
  show "a \<in> insert start (segment (start + 4) stop)"
  proof (cases k)
    case (Suc j)
    with k show ?thesis by (auto simp: segment_def intro!: exI [of _ j])
  qed (use k in simp)
next
  fix a
  assume "a \<in> insert start (segment (start + 4) stop)" and less: "start < stop"
  then consider "a = start" | k where "a = start + 4 + 4 * k" "start + 4 + 4 * k < stop" by (auto simp: segment_def)
  then show "a \<in> segment start stop"
  proof cases
    case 1
    with less show ?thesis by (auto simp: segment_def intro!: exI [of _ 0])
  next
    case 2
    then show ?thesis by (auto simp: segment_def intro!: exI [of _ "Suc k"])
  qed
qed

lemma segment_empty: "\<not> start < stop \<Longrightarrow> segment start stop = {}"
  by (auto simp: segment_def)

lemma segment_bounds: "a \<in> segment start stop \<Longrightarrow> start \<le> a \<and> a < stop"
  by (auto simp: segment_def)

lemma clear_segment_eq: "clear_segment pdest pzero m = (\<lambda>a. if a \<in> segment pdest pzero then 0 else m a)"
proof (induction pdest pzero m rule: clear_segment.induct)
  case (1 pdest pzero m)
  show ?case
  proof (cases "pdest < pzero")
    case True
    have "clear_segment pdest pzero m = clear_segment (pdest + 4) pzero (m(pdest := 0))"
      using True by (subst clear_segment.simps) simp
    then show ?thesis
      unfolding 1 [OF True] by (auto simp: segment_Suc [OF True])
  next
    case False
    then show ?thesis
      by (subst clear_segment.simps) (simp add: segment_empty)
  qed
qed

text \<open>A copy forwards is right when the destination starts before the source, or after its end.\<close>

lemma relocate_eq:
  assumes "pdest \<le> psrc \<or> psrc + (pend - pdest) \<le> pdest"
  shows "relocate pdest pend psrc m = (\<lambda>a. if a \<in> segment pdest pend then m (psrc + (a - pdest)) else m a)"
  using assms
proof (induction pdest pend psrc m rule: relocate.induct)
  case (1 pdest pend psrc m)
  show ?case
  proof (cases "pdest < pend")
    case True
    let ?m = "m(pdest := m psrc)"
    have "relocate pdest pend psrc m = relocate (pdest + 4) pend (psrc + 4) ?m"
      using True by (subst relocate.simps) simp
    also have "\<dots> = (\<lambda>a. if a \<in> segment (pdest + 4) pend then ?m (psrc + 4 + (a - (pdest + 4))) else ?m a)"
      using True 1(2) by (intro 1(1)) auto
    also have "\<dots> = (\<lambda>a. if a \<in> segment pdest pend then m (psrc + (a - pdest)) else m a)"
    proof
      fix a
      show "(if a \<in> segment (pdest + 4) pend then ?m (psrc + 4 + (a - (pdest + 4))) else ?m a)
        = (if a \<in> segment pdest pend then m (psrc + (a - pdest)) else m a)"
      proof (cases "a \<in> segment (pdest + 4) pend")
        case True
        then have "pdest + 4 \<le> a" "a < pend" using segment_bounds by blast+
        then show ?thesis
          using True 1(2) by (auto simp: segment_Suc [OF \<open>pdest < pend\<close>])
      next
        case False
        then show ?thesis
          by (auto simp: segment_Suc [OF True])
      qed
    qed
    finally show ?thesis .
  next
    case False
    then show ?thesis
      by (subst relocate.simps) (simp add: segment_empty)
  qed
qed

text \<open>After the start every word of the data segment has its initial value from behind the text segment, every word of the zero
  segment is zero, and the rest of the memory is as before, for segments that do not overlap.
\<close>

theorem startup_memory:
  assumes "ls_srelocate l \<le> ls_etext l \<or> ls_etext l + (ls_erelocate l - ls_srelocate l) \<le> ls_srelocate l"
    and "segment (ls_szero l) (ls_ezero l) \<inter> segment (ls_srelocate l) (ls_erelocate l) = {}"
  shows "(\<forall>a \<in> segment (ls_srelocate l) (ls_erelocate l). init_memory l m a = m (ls_etext l + (a - ls_srelocate l)))
    \<and> (\<forall>a \<in> segment (ls_szero l) (ls_ezero l). init_memory l m a = 0)
    \<and> (\<forall>a. a \<notin> segment (ls_srelocate l) (ls_erelocate l) \<longrightarrow> a \<notin> segment (ls_szero l) (ls_ezero l) \<longrightarrow> init_memory l m a = m a)"
proof -
  have copied: "(if ls_etext l \<noteq> ls_srelocate l then relocate (ls_srelocate l) (ls_erelocate l) (ls_etext l) m else m)
      = (\<lambda>a. if a \<in> segment (ls_srelocate l) (ls_erelocate l) then m (ls_etext l + (a - ls_srelocate l)) else m a)"
    using relocate_eq [OF assms(1), of m] segment_bounds by fastforce
  show ?thesis
    unfolding init_memory_def Let_def clear_segment_eq copied using assms(2) by auto
qed

definition demo_symbols :: LinkerSymbols where
  "demo_symbols = \<lparr>ls_szero = 0x10010, ls_ezero = 0x10020, ls_etext = 0x4100, ls_srelocate = 0x10000, ls_erelocate = 0x1000c\<rparr>"

theorem startup_memory_witness:
  "init_memory demo_symbols (\<lambda>a. of_nat a) 0x10004 = 0x4104 \<and> init_memory demo_symbols (\<lambda>a. of_nat a) 0x10014 = 0"
proof -
  have data: "0x10004 \<in> segment (ls_srelocate demo_symbols) (ls_erelocate demo_symbols)"
    and zero: "0x10014 \<in> segment (ls_szero demo_symbols) (ls_ezero demo_symbols)"
    by (auto simp: demo_symbols_def segment_def intro!: exI [of _ 1])
  have "segment (ls_szero demo_symbols) (ls_ezero demo_symbols) \<inter> segment (ls_srelocate demo_symbols) (ls_erelocate demo_symbols) = {}"
    by (auto simp: demo_symbols_def dest!: segment_bounds)
  then have "(\<forall>a \<in> segment (ls_srelocate demo_symbols) (ls_erelocate demo_symbols).
        init_memory demo_symbols (\<lambda>a. of_nat a) a = of_nat (ls_etext demo_symbols + (a - ls_srelocate demo_symbols)))
      \<and> (\<forall>a \<in> segment (ls_szero demo_symbols) (ls_ezero demo_symbols). init_memory demo_symbols (\<lambda>a. of_nat a) a = 0)"
    using startup_memory [of demo_symbols "\<lambda>a. of_nat a"] by (simp add: demo_symbols_def)
  with data zero show ?thesis by (auto simp: demo_symbols_def)
qed

end
