(* ===== verification/Boards.thy ===== *)
theory Boards
  imports Chip Startup Pmu Personality Nv_Syscall Bmc_Control Usb_Session
begin

text \<open>
  The two boards, \<^verbatim>\<open>kernel/papa/src/main.rs\<close> and \<^verbatim>\<open>kernel/golf2/src/main.rs\<close>: clocks and pins at the start, the drivers
  that are started, the protection of the flash, the strings of the USB device, and the numbers under which applications reach
  the drivers.
\<close>

section \<open>Clocks and pins at the start\<close>

text \<open>The writes of \<^verbatim>\<open>reset_handler\<close> to the power management unit, the multiplexer and the ports, one after the other.\<close>

datatype boot_step = ClockOn PeripheralClock | PadSelect Pad Function | PadControl Pad u32 | PeripheralSelect Function SelectablePin
  | PinClear pin_id | PinOutput pin_id | PinInput pin_id

fun boot_run :: "boot_step \<Rightarrow> PMURegisters \<times> GpioState \<Rightarrow> PMURegisters \<times> GpioState" where
  "boot_run (ClockOn k) (r, g) = (Clock_enable k r, g)"
| "boot_run (PadSelect d f) (r, g) = (r, g\<lparr>gp_mux := pad_select_set d f (gp_mux g)\<rparr>)"
| "boot_run (PadControl d v) (r, g) = (r, g\<lparr>gp_mux := pad_control_set d v (gp_mux g)\<rparr>)"
| "boot_run (PeripheralSelect f s) (r, g) = (r, g\<lparr>gp_mux := peripheral_select_set f s (gp_mux g)\<rparr>)"
| "boot_run (PinClear i) (r, g) = (r, pin_clear i g)"
| "boot_run (PinOutput i) (r, g) = (r, snd (make_output i g))"
| "boot_run (PinInput i) (r, g) = (r, snd (make_input i g))"

definition GPIO_INPUT_EN :: u32 where "GPIO_INPUT_EN = push_bit 2 1"
definition GPIO_PULLUP_EN :: u32 where "GPIO_PULLUP_EN = push_bit 4 1"

definition timer_clocks :: "boot_step list" where
  "timer_clocks = [ClockOn (Bank1 Clk_TimeUs0Timer), ClockOn (Bank1 Clk_TimeLs0)]"

definition papa_pins :: "boot_step list" where
  "papa_pins =
     [ClockOn (Bank0 Clk_Gpio0),
      PadSelect Pad_diob2 (Gpio0Gpio P0), PeripheralSelect (Gpio0Gpio P0) Diob2,
      PadSelect Pad_diob6 (Gpio0Gpio P1), PeripheralSelect (Gpio0Gpio P1) Diob6,
      PadSelect Pad_diob0 (Gpio0Gpio P2), PadControl Pad_diob0 (GPIO_INPUT_EN OR GPIO_PULLUP_EN), PeripheralSelect (Gpio0Gpio P2) Diob0,
      PadSelect Pad_diob7 (Gpio0Gpio P3), PadControl Pad_diob7 (GPIO_INPUT_EN OR GPIO_PULLUP_EN), PeripheralSelect (Gpio0Gpio P3) Diob7,
      PadSelect Pad_dioa0 Uart0Tx, PadControl Pad_diom0 (GPIO_INPUT_EN OR GPIO_PULLUP_EN), PeripheralSelect Uart0Rx Diom0,
      PadControl Pad_dioa11 (GPIO_INPUT_EN OR GPIO_PULLUP_EN),
      PadControl Pad_dioa6 (GPIO_INPUT_EN OR GPIO_PULLUP_EN), PadControl Pad_dioa12 (GPIO_INPUT_EN OR GPIO_PULLUP_EN),
      PadControl Pad_dioa2 (GPIO_INPUT_EN OR GPIO_PULLUP_EN)]"

definition papa_reset_lines :: "boot_step list" where
  "papa_reset_lines =
     [PinClear (PORT0 ! 0), PinOutput (PORT0 ! 0), PinClear (PORT0 ! 1), PinOutput (PORT0 ! 1),
      PinClear (PORT0 ! 2), PinInput (PORT0 ! 2), PinClear (PORT0 ! 3), PinInput (PORT0 ! 3)]"

definition papa_boot :: "boot_step list" where
  "papa_boot = timer_clocks @ papa_pins @ papa_reset_lines"

text \<open>The pins that the GPIO driver of the Tock kernel gives to applications, by their index.\<close>

definition papa_capsule_pins :: "pin_id list" where
  "papa_capsule_pins = [PORT0 ! 0, PORT0 ! 1, PORT0 ! 2, PORT0 ! 3]"

definition golf_pins :: "boot_step list" where
  "golf_pins =
     [ClockOn (Bank0 Clk_Gpio0),
      PadSelect Pad_dioa11 (Gpio0Gpio P0),
      PeripheralSelect (Gpio0Gpio P1) Diom2, PadSelect Pad_diom2 (Gpio0Gpio P1), PadControl Pad_diom2 (push_bit 2 1 OR push_bit 4 1),
      PadSelect Pad_diob1 Uart0Tx, PadControl Pad_diob6 (push_bit 2 1 OR push_bit 4 1), PeripheralSelect Uart0Rx Diob6]"

definition golf_boot :: "boot_step list" where
  "golf_boot = timer_clocks @ golf_pins"

definition golf_capsule_pins :: "pin_id list" where
  "golf_capsule_pins = [PORT0 ! 0, PORT0 ! 1]"

section \<open>The drivers that are started\<close>

text \<open>
  The calls of \<^verbatim>\<open>reset_handler\<close> on the drivers of the chip, in their order. The objects of the Tock kernel that are joined to
  them are not modelled. The SPI device of papa is started in \<open>papa_kernel\<close>.
\<close>

definition start_uart :: "Hotel \<Rightarrow> Hotel" where
  "start_uart c = c\<lparr>ch_uart0 := uart_config 115200 (set_transmit_client (ch_uart0 c))\<rparr>"

definition start_alarm :: "Hotel \<Rightarrow> Hotel" where
  "start_alarm c = c\<lparr>ch_timels0 := timels_set_alarm_client (ch_timels0 c)\<rparr>"

definition start_engines :: "byte list \<Rightarrow> Hotel \<Rightarrow> Hotel" where
  "start_engines aes_buf c =
     (let c = c\<lparr>ch_aes := (ch_aes c)\<lparr>ae_device := aes_set_client (ae_device (ch_aes c))\<rparr>\<rparr>;
          c = c\<lparr>ch_aes := snd (AesDriver_initialize aes_buf (ch_aes c))\<rparr>;
          c = c\<lparr>ch_dcrypto := (ch_dcrypto c)\<lparr>dd_device := snd (dcrypto_initialize (dd_device (ch_dcrypto c)))\<rparr>\<rparr>
      in c\<lparr>ch_dcrypto := (ch_dcrypto c)\<lparr>dd_device := dcrypto_set_client (dd_device (ch_dcrypto c))\<rparr>\<rparr>)"

definition start_trng :: "Hotel \<Rightarrow> Hotel" where
  "start_trng c = c\<lparr>ch_trng := trng_init (ch_trng c)\<rparr>"

definition papa_start :: "byte list \<Rightarrow> Hotel \<Rightarrow> Hotel" where
  "papa_start aes_buf c =
     (let c = start_trng (start_engines aes_buf (start_alarm (start_uart c))) in c\<lparr>ch_spi_host0 := SpiHostHardware_init (ch_spi_host0 c)\<rparr>)"

definition golf_start :: "byte list \<Rightarrow> Hotel \<Rightarrow> Hotel" where
  "golf_start aes_buf c =
     (let c = start_engines aes_buf (start_alarm (start_uart c)); c = c\<lparr>ch_usb := apfst set_u2f_client (ch_usb c)\<rparr> in start_trng c)"

section \<open>Protection of the flash on golf2\<close>

text \<open>The stores to the registers of the global security, by their addresses.\<close>

definition GLOBALSEC_BASE :: nat where "GLOBALSEC_BASE = 0x40090000"

definition FLASH_REGION2_BASE :: nat where "FLASH_REGION2_BASE = GLOBALSEC_BASE + 0x240"
definition FLASH_REGION2_SIZE :: nat where "FLASH_REGION2_SIZE = GLOBALSEC_BASE + 0x244"
definition FLASH_REGION2_CTRL :: nat where "FLASH_REGION2_CTRL = GLOBALSEC_BASE + 0x0e8"

definition golf_globalsec :: "(nat \<times> u32) list" where
  "golf_globalsec =
     (let FLASH_START = 0x40000; FLASH_SIZE = 512 * 1024; FLASH_PAGE_SIZE = 2048 in
      [(GLOBALSEC_BASE + 0x0, NOT 0), (GLOBALSEC_BASE + 0x4, NOT 0), (GLOBALSEC_BASE + 0x8, NOT 0), (GLOBALSEC_BASE + 0xc, NOT 0),
       (GLOBALSEC_BASE + 0x80, NOT 0), (GLOBALSEC_BASE + 0x84, NOT 0), (GLOBALSEC_BASE + 0x88, NOT 0), (GLOBALSEC_BASE + 0x8c, NOT 0),
       (GLOBALSEC_BASE + 0xc0, NOT 0), (GLOBALSEC_BASE + 0xc4, NOT 0), (GLOBALSEC_BASE + 0xc8, NOT 0), (GLOBALSEC_BASE + 0xcc, NOT 0),
       (FLASH_REGION2_BASE, word_of_nat (FLASH_START + FLASH_SIZE - 3 * FLASH_PAGE_SIZE)),
       (FLASH_REGION2_SIZE, word_of_nat (3 * FLASH_PAGE_SIZE - 1)),
       (FLASH_REGION2_CTRL, 0b111)])"

definition volatile_stores :: "(nat \<times> u32) list \<Rightarrow> ram \<Rightarrow> ram" where
  "volatile_stores ws m = fold (\<lambda>(a, v) m. m(a := v)) ws m"

section \<open>Strings of the USB device on golf2\<close>

definition golf_strings :: "StringDescriptor list" where
  "golf_strings =
     [\<lparr>sd_b_length = 4, sd_b_descriptor_type = u8_of_Descriptor DescString, b_string = [0x0409]\<rparr>,
      \<lparr>sd_b_length = 24, sd_b_descriptor_type = u8_of_Descriptor DescString,
        b_string = [0x0047, 0x006f, 0x006f, 0x0067, 0x006c, 0x0065, 0x0020, 0x0049, 0x006e, 0x0063, 0x002e]\<rparr>,
      \<lparr>sd_b_length = 14, sd_b_descriptor_type = u8_of_Descriptor DescString, b_string = [0x0070, 0x0072, 0x006f, 0x0074, 0x006f, 0x0032]\<rparr>,
      \<lparr>sd_b_length = 54, sd_b_descriptor_type = u8_of_Descriptor DescString,
        b_string = [0x0070, 0x0072, 0x006F, 0x0074, 0x006F, 0x0032, 0x005F, 0x0076, 0x0031, 0x002E, 0x0031, 0x002E, 0x0038, 0x0037, 0x0031,
          0x0033, 0x002D, 0x0030, 0x0031, 0x0033, 0x0032, 0x0031, 0x0037, 0x0064, 0x0039, 0x0031]\<rparr>,
      \<lparr>sd_b_length = 12, sd_b_descriptor_type = u8_of_Descriptor DescString, b_string = [0x0053, 0x0068, 0x0065, 0x006C, 0x006C, 0x006C]\<rparr>,
      \<lparr>sd_b_length = 8, sd_b_descriptor_type = u8_of_Descriptor DescString, b_string = [0x0042, 0x004C, 0x0041, 0x0048]\<rparr>,
      \<lparr>sd_b_length = 20, sd_b_descriptor_type = u8_of_Descriptor DescString,
        b_string = [0x0048, 0x006F, 0x0074, 0x0065, 0x006C, 0x0020, 0x0055, 0x0032, 0x0046]\<rparr>]"

definition golf_usb_init :: "(USBRegisters \<Rightarrow> USBRegisters) \<Rightarrow> (USB \<times> PMURegisters, MemoryError, unit) peff" where
  "golf_usb_init tick = usb_init tick STATIC_USB_MEMORY PHY_A None (Some 0x18d1) (Some 0x5026) golf_strings"

section \<open>The numbers of the drivers\<close>

text \<open>The numbers of the drivers of the Tock kernel; those of the drivers of this repository are in the source.\<close>

record TockNumbers =
  tn_alarm :: nat
  tn_console :: nat
  tn_gpio :: nat
  tn_low_level_debug :: nat
  tn_rng :: nat
  tn_spi_controller :: nat
  tn_ipc :: nat

datatype BoardDriver = D_timer | D_console | D_gpio | D_low_level_debug | D_rng | D_spi_host_syscalls | D_h1_spi_host_syscalls
  | D_h1_spi_device_syscalls | D_aes | D_dcrypto | D_digest | D_flash_syscalls | D_fuse_syscalls | D_globalsec_syscalls
  | D_reset_syscalls | D_ipc | D_u2f_usb | D_nvcounter | D_personality

definition papa_with_driver :: "TockNumbers \<Rightarrow> nat \<Rightarrow> BoardDriver option" where
  "papa_with_driver t n =
     (if n = tn_alarm t then Some D_timer else if n = tn_console t then Some D_console else if n = tn_gpio t then Some D_gpio
      else if n = tn_low_level_debug t then Some D_low_level_debug else if n = tn_rng t then Some D_rng
      else if n = tn_spi_controller t then Some D_spi_host_syscalls else if n = 0x40020 then Some D_h1_spi_host_syscalls
      else if n = 0x40030 then Some D_h1_spi_device_syscalls else if n = 0x40010 then Some D_aes else if n = 0x40004 then Some D_dcrypto
      else if n = 0x40003 then Some D_digest else if n = 0x40040 then Some D_flash_syscalls else if n = 0x40050 then Some D_fuse_syscalls
      else if n = 0x40060 then Some D_globalsec_syscalls else if n = 0x40070 then Some D_reset_syscalls else if n = tn_ipc t then Some D_ipc
      else None)"

definition golf_with_driver :: "TockNumbers \<Rightarrow> nat \<Rightarrow> BoardDriver option" where
  "golf_with_driver t n =
     (if n = tn_alarm t then Some D_timer else if n = tn_console t then Some D_console else if n = tn_gpio t then Some D_gpio
      else if n = tn_low_level_debug t then Some D_low_level_debug else if n = tn_rng t then Some D_rng
      else if n = 0x20008 then Some D_u2f_usb else if n = 0x40010 then Some D_aes else if n = 0x40004 then Some D_dcrypto
      else if n = 0x40003 then Some D_digest else if n = 0x80040000 then Some D_nvcounter else if n = 0x5000b then Some D_personality
      else if n = tn_ipc t then Some D_ipc else None)"

section \<open>What the pins do during the start\<close>

text \<open>The states that a start passes through, the first and the last included.\<close>

fun boot_states :: "boot_step list \<Rightarrow> PMURegisters \<times> GpioState \<Rightarrow> (PMURegisters \<times> GpioState) list" where
  "boot_states [] s = [s]"
| "boot_states (x # xs) s = s # boot_states xs (boot_run x s)"

text \<open>What a step does with what is seen of a pin.\<close>

fun boot_view :: "boot_step \<Rightarrow> pin_id \<Rightarrow> PinView \<Rightarrow> PinView" where
  "boot_view (PinClear j) i v = (if i = j then v\<lparr>v_level := False\<rparr> else v)"
| "boot_view (PinOutput j) i v = (if i = j then v\<lparr>v_output := True\<rparr> else v)"
| "boot_view _ i v = v"

fun view_states :: "boot_step list \<Rightarrow> pin_id \<Rightarrow> PinView \<Rightarrow> PinView list" where
  "view_states [] i v = [v]"
| "view_states (x # xs) i v = v # view_states xs i (boot_view x i v)"

lemma pin_view_mux [simp]: "pin_view i (g\<lparr>gp_mux := m\<rparr>) = pin_view i g"
  by (cases i) (simp add: pin_view_def)

lemma boot_run_view: "pin_view i (snd (boot_run x s)) = boot_view x i (pin_view i (snd s))"
proof (cases s)
  case (Pair r g)
  show ?thesis
  proof (cases x)
    case (PinClear j)
    then show ?thesis
      using pin_view_own [of j OpClear g] pin_view_other [of j i OpClear g] by (simp add: Pair)
  next
    case (PinOutput j)
    then show ?thesis
      using pin_view_own [of j OpOutput g] pin_view_other [of j i OpOutput g] by (simp add: Pair)
  next
    case (PinInput j)
    then show ?thesis by (simp add: Pair make_input_def)
  qed (simp_all add: Pair)
qed

lemma boot_states_views: "map (\<lambda>s. pin_view i (snd s)) (boot_states xs s) = view_states xs i (pin_view i (snd s))"
  by (induction xs arbitrary: s) (simp_all add: boot_run_view)

lemma boot_states_safe:
  assumes "\<forall>v \<in> set (view_states xs i (pin_view i (snd s))). P v" and "t \<in> set (boot_states xs s)"
  shows "P (pin_view i (snd t))"
proof -
  have "pin_view i (snd t) \<in> set (map (\<lambda>s. pin_view i (snd s)) (boot_states xs s))" using assms(2) by simp
  with assms(1) show ?thesis by (simp only: boot_states_views)
qed

lemmas papa_boot_steps = papa_boot_def timer_clocks_def papa_pins_def papa_reset_lines_def PORT0_def

text \<open>What a step does with the multiplexer and the clocks.\<close>

fun boot_mux_step :: "boot_step \<Rightarrow> PinmuxRegisters \<Rightarrow> PinmuxRegisters" where
  "boot_mux_step (PadSelect d f) = pad_select_set d f"
| "boot_mux_step (PadControl d v) = pad_control_set d v"
| "boot_mux_step (PeripheralSelect f p) = peripheral_select_set f p"
| "boot_mux_step _ = (\<lambda>m. m)"

lemma boot_mux: "gp_mux (snd (fold boot_run xs s)) = fold boot_mux_step xs (gp_mux (snd s))"
proof (induction xs arbitrary: s)
  case (Cons x xs)
  have "gp_mux (snd (boot_run x s)) = boot_mux_step x (gp_mux (snd s))"
    by (cases s; cases x) (auto simp: pin_clear_def make_output_def make_input_def on_port_def split: prod.split)
  with Cons show ?case by simp
qed simp

lemma boot_views: "pin_view i (snd (fold boot_run xs s)) = fold (\<lambda>x. boot_view x i) xs (pin_view i (snd s))"
  by (induction xs arbitrary: s) (simp_all add: boot_run_view)

lemmas mux_writes = pad_select_set_def pad_control_set_def peripheral_select_set_def

text \<open>The pads on which the board has the lines of the application.\<close>

fun papa_pad :: "GpioPin \<Rightarrow> Pad" where
  "papa_pad BMC_SRST_N = Pad_diob2"
| "papa_pad BMC_CPU_RST_N = Pad_diob6"
| "papa_pad SYS_RSTMON_N = Pad_diob0"
| "papa_pad BMC_RSTMON_N = Pad_diob7"

definition papa_pin :: "GpioPin \<Rightarrow> pin_id" where
  "papa_pin p = papa_capsule_pins ! usize_from_GpioPin p"

lemma papa_pin_simps [simp]:
  "papa_pin BMC_SRST_N = (GPIO0_BASE, P0)" "papa_pin BMC_CPU_RST_N = (GPIO0_BASE, P1)"
  "papa_pin SYS_RSTMON_N = (GPIO0_BASE, P2)" "papa_pin BMC_RSTMON_N = (GPIO0_BASE, P3)"
  by (simp_all add: papa_pin_def papa_capsule_pins_def PORT0_def)

lemma papa_routing:
  "get_pinmux_pin (papa_pin p) (snd (fold boot_run papa_boot s)) = Some (papa_pad p)"
  "pad_select (mux_pads (gp_mux (snd (fold boot_run papa_boot s))) (papa_pad p)) = pin_peripheral (papa_pin p)"
  unfolding get_pinmux_pin_def boot_mux by (cases p; simp add: papa_boot_steps mux_writes)+

lemma papa_pulls:
  "p \<in> {SYS_RSTMON_N, BMC_RSTMON_N} \<Longrightarrow> floating_state (papa_pin p) (snd (fold boot_run papa_boot s)) = FloatPullUp"
  unfolding floating_state_def papa_routing boot_mux
  by (auto simp: papa_boot_steps mux_writes PULLUP_BIT_def PULLDOWN_BIT_def GPIO_INPUT_EN_def GPIO_PULLUP_EN_def)

lemma papa_lines:
  assumes "p \<in> {BMC_SRST_N, BMC_CPU_RST_N}" and "\<not> v_output v"
  shows "\<forall>u \<in> set (view_states papa_boot (papa_pin p) v). \<not> (v_output u \<and> v_level u)"
    and "fold (\<lambda>x. boot_view x (papa_pin p)) papa_boot v = v\<lparr>v_level := False, v_output := True\<rparr>"
  using assms by (elim insertE emptyE; simp add: papa_boot_steps)+

lemma papa_monitors:
  assumes "p \<in> {SYS_RSTMON_N, BMC_RSTMON_N}"
  shows "v_output (fold (\<lambda>x. boot_view x (papa_pin p)) papa_boot v) = v_output v"
  using assms by (elim insertE emptyE; simp add: papa_boot_steps)

text \<open>C20. The start of papa holds the management controller in reset: if the ports come out of the chip's reset with their outputs off,
  then at no moment of the start is a reset line driven high, at its end both are driven low, and the pins that the application
  knows as the lines are connected, in both directions, to the pads of these lines; the two monitored lines are inputs that are
  pulled up.
\<close>

theorem papa_holds_bmc_in_reset:
  assumes "\<forall>p. \<not> v_output (pin_view (papa_pin p) (snd s))"
  shows "(\<forall>t \<in> set (boot_states papa_boot s). \<forall>p \<in> {BMC_SRST_N, BMC_CPU_RST_N}.
            \<not> (v_output (pin_view (papa_pin p) (snd t)) \<and> v_level (pin_view (papa_pin p) (snd t))))
    \<and> (let g = snd (fold boot_run papa_boot s) in
        (\<forall>p \<in> {BMC_SRST_N, BMC_CPU_RST_N}. v_output (pin_view (papa_pin p) g) \<and> \<not> v_level (pin_view (papa_pin p) g))
      \<and> (\<forall>p \<in> {SYS_RSTMON_N, BMC_RSTMON_N}. \<not> v_output (pin_view (papa_pin p) g) \<and> floating_state (papa_pin p) g = FloatPullUp)
      \<and> (\<forall>p. get_pinmux_pin (papa_pin p) g = Some (papa_pad p) \<and> pad_select (mux_pads (gp_mux g) (papa_pad p)) = pin_peripheral (papa_pin p)))"
proof (intro conjI ballI)
  fix t p
  assume t: "t \<in> set (boot_states papa_boot s)" and p: "p \<in> {BMC_SRST_N, BMC_CPU_RST_N}"
  show "\<not> (v_output (pin_view (papa_pin p) (snd t)) \<and> v_level (pin_view (papa_pin p) (snd t)))"
    using boot_states_safe [OF papa_lines(1) t] assms p by blast
next
  let ?g = "snd (fold boot_run papa_boot s)"
  have low: "v_output (pin_view (papa_pin p) ?g)" "\<not> v_level (pin_view (papa_pin p) ?g)" if "p \<in> {BMC_SRST_N, BMC_CPU_RST_N}" for p
    using papa_lines(2) [OF that] assms by (simp_all add: boot_views)
  have off: "\<not> v_output (pin_view (papa_pin p) ?g)" if "p \<in> {SYS_RSTMON_N, BMC_RSTMON_N}" for p
    using papa_monitors [OF that] assms by (simp add: boot_views)
  show "let g = ?g in
        (\<forall>p \<in> {BMC_SRST_N, BMC_CPU_RST_N}. v_output (pin_view (papa_pin p) g) \<and> \<not> v_level (pin_view (papa_pin p) g))
      \<and> (\<forall>p \<in> {SYS_RSTMON_N, BMC_RSTMON_N}. \<not> v_output (pin_view (papa_pin p) g) \<and> floating_state (papa_pin p) g = FloatPullUp)
      \<and> (\<forall>p. get_pinmux_pin (papa_pin p) g = Some (papa_pad p) \<and> pad_select (mux_pads (gp_mux g) (papa_pad p)) = pin_peripheral (papa_pin p))"
    unfolding Let_def by (intro conjI ballI allI low off papa_pulls papa_routing)
qed

theorem papa_holds_bmc_witness:
  "v_output (pin_view (papa_pin BMC_SRST_N) (snd (fold boot_run papa_boot (\<lparr>pmu_reset = 0, pmu_reset0 = 0, pmu_clocks0 = 0, pmu_clocks1 = 0\<rparr>, gpio_demo))))
   \<and> \<not> v_level (pin_view (papa_pin BMC_SRST_N) (snd (fold boot_run papa_boot (\<lparr>pmu_reset = 0, pmu_reset0 = 0, pmu_clocks0 = 0, pmu_clocks1 = 0\<rparr>, gpio_demo))))
   \<and> floating_state (papa_pin BMC_RSTMON_N) (snd (fold boot_run papa_boot (\<lparr>pmu_reset = 0, pmu_reset0 = 0, pmu_clocks0 = 0, pmu_clocks1 = 0\<rparr>, gpio_demo))) = FloatPullUp"
proof -
  have "\<forall>p. \<not> v_output (pin_view (papa_pin p) (snd (\<lparr>pmu_reset = 0, pmu_reset0 = 0, pmu_clocks0 = 0, pmu_clocks1 = 0\<rparr>, gpio_demo)))"
    by (auto simp: gpio_demo_def Gpio_new_def pin_view_def split: prod.split)
  from papa_holds_bmc_in_reset [OF this] show ?thesis by (simp add: Let_def)
qed

text \<open>
  The switch of golf2 is read from its pad, which is pulled up; the pad of its lamp is driven by the first pin, whose pull has no effect
  as long as the pin has no input connected.
\<close>

lemma golf_routing:
  "get_pinmux_pin (golf_capsule_pins ! 1) (snd (fold boot_run golf_boot s)) = Some Pad_diom2"
  "floating_state (golf_capsule_pins ! 1) (snd (fold boot_run golf_boot s)) = FloatPullUp"
  "pad_select (mux_pads (gp_mux (snd (fold boot_run golf_boot s))) Pad_dioa11) = pin_peripheral (golf_capsule_pins ! 0)"
  "mux_peripherals (gp_mux (snd s)) (Gpio0Gpio P0) = Sel_Disconnected \<Longrightarrow> get_pinmux_pin (golf_capsule_pins ! 0) (snd (fold boot_run golf_boot s)) = None"
  unfolding floating_state_def get_pinmux_pin_def boot_mux
  by (simp_all add: golf_boot_def timer_clocks_def golf_pins_def golf_capsule_pins_def PORT0_def mux_writes PULLUP_BIT_def PULLDOWN_BIT_def)

lemma boot_clocks: "clock_runs (fst (fold boot_run xs s)) k" if "ClockOn k \<in> set xs" and "k \<noteq> Bank0 Clk_Temp0" and "ClockOn (Bank0 Clk_Temp0) \<notin> set xs"
  using that(1,3)
proof (induction xs rule: rev_induct)
  case (snoc x xs)
  obtain r g where rg: "fold boot_run xs s = (r, g)" by (cases "fold boot_run xs s")
  show ?case
  proof (cases "ClockOn k \<in> set xs")
    case True
    with snoc rg have "clock_runs r k" by simp
    with that(2) snoc.prems(2) show ?thesis
      by (cases x) (auto simp: rg clock_switched)
  next
    case False
    with snoc.prems have "x = ClockOn k" by auto
    with that(2) show ?thesis by (simp add: rg clock_switched)
  qed
qed simp

text \<open>On both boards the clocks of the timers and of the port run after the start.\<close>

lemma boards_clocks:
  "k \<in> {Bank1 Clk_TimeUs0Timer, Bank1 Clk_TimeLs0, Bank0 Clk_Gpio0} \<Longrightarrow>
     clock_runs (fst (fold boot_run papa_boot s)) k \<and> clock_runs (fst (fold boot_run golf_boot s)) k"
  by (intro conjI boot_clocks) (auto simp: papa_boot_steps golf_boot_def golf_pins_def)

section \<open>What is ready after the start\<close>

text \<open>The engines have their clients, the AES driver its buffer, and the entropy source is on.\<close>

definition engines_ready :: "byte list \<Rightarrow> Hotel \<Rightarrow> bool" where
  "engines_ready aes_buf c \<longleftrightarrow> dc_client (dd_device (ch_dcrypto c)) \<and> dc_mapped (dd_device (ch_dcrypto c)) \<and> dc_state (dd_device (ch_dcrypto c)) = DHalt
     \<and> aes_client (ae_device (ch_aes c)) \<and> ae_buffer (ch_aes c) = Some aes_buf \<and> tl_client (ch_timels0 c) \<and> tg_power_down_b (ch_trng c) = 1
     \<and> ut_tx_client (ch_uart0 c)"

lemma dcrypto_started:
  assumes "dc_state e = DUninitialized"
  shows "dc_mapped (snd (dcrypto_initialize e))" "dc_state (snd (dcrypto_initialize e)) = DHalt"
  using assms by (simp_all add: dcrypto_initialize_def on_dc_regs_def Let_def)

lemma aes_started:
  assumes "length buf = AES128_BLOCK_SIZE"
  shows "ae_buffer (snd (AesDriver_initialize buf s)) = Some buf" "aes_client (ae_device (snd (AesDriver_initialize buf s))) = aes_client (ae_device s)"
  using assms by (simp_all add: AesDriver_initialize_def on_ae_regs_def on_aes_def Let_def)

text \<open>
  After the start of either board the cryptographic engines are initialised and have their clients, the AES driver has its
  buffer, and the entropy source is powered, provided they had not been started before; on golf2 the USB device has its client.
\<close>

lemma boards_start_ready:
  assumes "dc_state (dd_device (ch_dcrypto c)) = DUninitialized" and "length aes_buf = AES128_BLOCK_SIZE"
  shows "engines_ready aes_buf (papa_start aes_buf c)" and "engines_ready aes_buf (golf_start aes_buf c)"
    and "us_u2f_client (fst (ch_usb (golf_start aes_buf c)))"
  using assms
  by (simp_all add: engines_ready_def papa_start_def golf_start_def start_trng_def start_engines_def start_alarm_def start_uart_def Let_def set_u2f_client_def
      dcrypto_started aes_started dcrypto_set_client_def aes_set_client_def timels_set_alarm_client_def trng_init_def uart_config_def
      clear_interrupt_def set_transmit_client_def)

section \<open>The protected flash of golf2\<close>

text \<open>Whether the third region lets a byte of the flash be read and written. Its last address is its base plus the size register.\<close>

definition region2_writable :: "ram \<Rightarrow> nat \<Rightarrow> bool" where
  "region2_writable m a \<longleftrightarrow> m FLASH_REGION2_CTRL = 0b111 \<and> unat (m FLASH_REGION2_BASE) \<le> a
     \<and> a \<le> unat (m FLASH_REGION2_BASE) + unat (m FLASH_REGION2_SIZE)"

text \<open>On golf2 the region of the flash that can be written is exactly the page of the personality and the two pages of the
  counter.
\<close>

theorem golf_flash_region:
  "region2_writable (volatile_stores golf_globalsec m) a \<longleftrightarrow>
     (\<exists>page \<in> {personality_page, page_number Page.High, page_number Page.Low}.
        H1_FLASH_START + page * H1_FLASH_PAGE_SIZE \<le> a \<and> a < H1_FLASH_START + (page + 1) * H1_FLASH_PAGE_SIZE)"
proof -
  have stores: "volatile_stores golf_globalsec m FLASH_REGION2_CTRL = 0b111" "volatile_stores golf_globalsec m FLASH_REGION2_BASE = 0xbe800"
    "volatile_stores golf_globalsec m FLASH_REGION2_SIZE = 0x17ff"
    by (simp_all add: volatile_stores_def golf_globalsec_def Let_def GLOBALSEC_BASE_def FLASH_REGION2_BASE_def FLASH_REGION2_SIZE_def
        FLASH_REGION2_CTRL_def)
  show ?thesis
    unfolding region2_writable_def stores
    by (simp add: personality_page_def PERSONALITY_ADDRESS_def H1_FLASH_SIZE_def H1_FLASH_PAGE_SIZE_def H1_FLASH_START_def) linarith
qed

section \<open>The strings of golf2\<close>

text \<open>The length that a string of golf2 declares is that of its descriptor for all strings but those with the indices 4 and 5: a
  host that believes the declared length reads ''Shell'' for ''Shelll'' and ''BLA'' for ''BLAH''.
\<close>

theorem golf_string_lengths:
  "filter (\<lambda>i. unat (sd_b_length (golf_strings ! i)) \<noteq> length (StringDescriptor_bytes (golf_strings ! i))) [0..<length golf_strings] = [4, 5]
   \<and> take (unat (sd_b_length (golf_strings ! 4)) - 2) (drop 2 (StringDescriptor_bytes (golf_strings ! 4)))
       = concat (map half_bytes [0x53, 0x68, 0x65, 0x6c, 0x6c])
   \<and> take (unat (sd_b_length (golf_strings ! 5)) - 2) (drop 2 (StringDescriptor_bytes (golf_strings ! 5)))
       = concat (map half_bytes [0x42, 0x4c, 0x41])"
  by (simp add: golf_strings_def StringDescriptor_bytes_def half_bytes_def upt_rec)

text \<open>The USB device of golf2 starts: it is connected under the identifiers of the board, and listens after the first reset of the bus.\<close>

lemma golf_usb_connects:
  assumes "flushes tick"
  shows "\<exists>v p'. golf_usb_init tick (USB_new r, p) = Some (Ok (), (v, p')) \<and> us_vendor_id v = 0x18d1 \<and> listening (usb_reset v)"
proof -
  have "\<forall>s \<in> set golf_strings. length (b_string s) < 128" by (simp add: golf_strings_def)
  from usb_init_connects [OF assms demo_memory_ok(1) this, of PHY_A None "Some 0x18d1" "Some 0x5026" r p] show ?thesis
    unfolding golf_usb_init_def by auto
qed

section \<open>Reaching the drivers\<close>

text \<open>The numbers that the Tock kernel documents for its drivers.\<close>

definition tock_numbers :: TockNumbers where
  "tock_numbers = \<lparr>tn_alarm = 0, tn_console = 1, tn_gpio = 4, tn_low_level_debug = 8, tn_rng = 0x40001, tn_spi_controller = 0x20001,
     tn_ipc = 0x10000\<rparr>"

fun driver_number :: "TockNumbers \<Rightarrow> BoardDriver \<Rightarrow> nat" where
  "driver_number t D_timer = tn_alarm t"
| "driver_number t D_console = tn_console t"
| "driver_number t D_gpio = tn_gpio t"
| "driver_number t D_low_level_debug = tn_low_level_debug t"
| "driver_number t D_rng = tn_rng t"
| "driver_number t D_spi_host_syscalls = tn_spi_controller t"
| "driver_number t D_ipc = tn_ipc t"
| "driver_number t D_h1_spi_host_syscalls = 0x40020"
| "driver_number t D_h1_spi_device_syscalls = 0x40030"
| "driver_number t D_aes = 0x40010"
| "driver_number t D_dcrypto = 0x40004"
| "driver_number t D_digest = 0x40003"
| "driver_number t D_flash_syscalls = 0x40040"
| "driver_number t D_fuse_syscalls = 0x40050"
| "driver_number t D_globalsec_syscalls = 0x40060"
| "driver_number t D_reset_syscalls = 0x40070"
| "driver_number t D_u2f_usb = 0x20008"
| "driver_number t D_nvcounter = 0x80040000"
| "driver_number t D_personality = 0x5000b"

definition tock_driver_numbers :: "TockNumbers \<Rightarrow> nat list" where
  "tock_driver_numbers t = [tn_alarm t, tn_console t, tn_gpio t, tn_low_level_debug t, tn_rng t, tn_spi_controller t, tn_ipc t]"

definition numbers_apart :: "TockNumbers \<Rightarrow> bool" where
  "numbers_apart t \<longleftrightarrow> distinct (tock_driver_numbers t) \<and> set (tock_driver_numbers t) \<inter>
     {0x40020, 0x40030, 0x40010, 0x40004, 0x40003, 0x40040, 0x40050, 0x40060, 0x40070, 0x20008, 0x80040000, 0x5000b} = {}"

text \<open>The numbers that the application has for drivers of the Tock kernel.\<close>

definition otpilot_numbers :: "TockNumbers \<Rightarrow> bool" where
  "otpilot_numbers t \<longleftrightarrow> tn_alarm t = ALARM_DRIVER_NUMBER \<and> tn_console t = CONSOLE_DRIVER_NUMBER \<and> tn_gpio t = GPIO_DRIVER_NUMBER
     \<and> tn_spi_controller t = HOST_DRIVER_NUMBER"

lemma papa_dispatch:
  "numbers_apart t \<Longrightarrow> d \<notin> {D_u2f_usb, D_nvcounter, D_personality} \<Longrightarrow> papa_with_driver t (driver_number t d) = Some d"
  by (cases d) (auto simp: numbers_apart_def tock_driver_numbers_def papa_with_driver_def)

lemma golf_dispatch:
  "numbers_apart t \<Longrightarrow> d \<in> {D_timer, D_console, D_gpio, D_low_level_debug, D_rng, D_u2f_usb, D_aes, D_dcrypto, D_digest, D_nvcounter, D_personality, D_ipc}
    \<Longrightarrow> golf_with_driver t (driver_number t d) = Some d"
  by (cases d) (auto simp: numbers_apart_def tock_driver_numbers_def golf_with_driver_def)

text \<open>The drivers of the boards can be reached: if the numbers of the Tock kernel's own drivers differ from each other and from those
  of this repository, no driver of papa or golf2 hides another one, and every number that the application of the secure
  microcontroller uses reaches the driver on papa that it means.
\<close>

theorem boards_dispatch:
  assumes "numbers_apart t" and "otpilot_numbers t"
  shows "(\<forall>d. d \<notin> {D_u2f_usb, D_nvcounter, D_personality} \<longrightarrow> papa_with_driver t (driver_number t d) = Some d)
    \<and> (\<forall>d \<in> {D_timer, D_console, D_gpio, D_low_level_debug, D_rng, D_u2f_usb, D_aes, D_dcrypto, D_digest, D_nvcounter, D_personality, D_ipc}.
        golf_with_driver t (driver_number t d) = Some d)
    \<and> map (papa_with_driver t) [FLASH_DRIVER_NUMBER, DEVICE_DRIVER_NUMBER, HOST_DRIVER_NUMBER, HOST_H1_DRIVER_NUMBER, RESET_DRIVER_NUMBER,
        GLOBALSEC_DRIVER_NUMBER, FUSE_DRIVER_NUMBER, GPIO_DRIVER_NUMBER, ALARM_DRIVER_NUMBER, CONSOLE_DRIVER_NUMBER]
      = map Some [D_flash_syscalls, D_h1_spi_device_syscalls, D_spi_host_syscalls, D_h1_spi_host_syscalls, D_reset_syscalls,
        D_globalsec_syscalls, D_fuse_syscalls, D_gpio, D_timer, D_console]"
proof (intro conjI allI impI ballI)
  have eq: "[FLASH_DRIVER_NUMBER, DEVICE_DRIVER_NUMBER, HOST_DRIVER_NUMBER, HOST_H1_DRIVER_NUMBER, RESET_DRIVER_NUMBER, GLOBALSEC_DRIVER_NUMBER,
      FUSE_DRIVER_NUMBER, GPIO_DRIVER_NUMBER, ALARM_DRIVER_NUMBER, CONSOLE_DRIVER_NUMBER]
    = map (driver_number t) [D_flash_syscalls, D_h1_spi_device_syscalls, D_spi_host_syscalls, D_h1_spi_host_syscalls, D_reset_syscalls,
      D_globalsec_syscalls, D_fuse_syscalls, D_gpio, D_timer, D_console]"
    using assms(2) by (simp add: otpilot_numbers_def driver_numbers)
  show "map (papa_with_driver t) [FLASH_DRIVER_NUMBER, DEVICE_DRIVER_NUMBER, HOST_DRIVER_NUMBER, HOST_H1_DRIVER_NUMBER, RESET_DRIVER_NUMBER,
        GLOBALSEC_DRIVER_NUMBER, FUSE_DRIVER_NUMBER, GPIO_DRIVER_NUMBER, ALARM_DRIVER_NUMBER, CONSOLE_DRIVER_NUMBER]
      = map Some [D_flash_syscalls, D_h1_spi_device_syscalls, D_spi_host_syscalls, D_h1_spi_host_syscalls, D_reset_syscalls,
        D_globalsec_syscalls, D_fuse_syscalls, D_gpio, D_timer, D_console]"
    unfolding eq by (simp add: papa_dispatch [OF assms(1)] del: driver_number.simps)
qed (use papa_dispatch [OF assms(1)] golf_dispatch [OF assms(1)] in blast)+

theorem boards_dispatch_witness:
  "numbers_apart tock_numbers \<and> otpilot_numbers tock_numbers \<and> papa_with_driver tock_numbers 0x40040 = Some D_flash_syscalls"
proof -
  have "numbers_apart tock_numbers" "otpilot_numbers tock_numbers"
    by (simp_all add: numbers_apart_def tock_numbers_def tock_driver_numbers_def otpilot_numbers_def ALARM_DRIVER_NUMBER_def
        CONSOLE_DRIVER_NUMBER_def GPIO_DRIVER_NUMBER_def HOST_DRIVER_NUMBER_def)
  with boards_dispatch [OF this] show ?thesis by (simp add: driver_numbers)
qed

end
