(* ===== verification/Spec2Isabelle.thy ===== *)
theory Spec2Isabelle
  imports Std_Write Bit_Buf Firmware_Protocol Flash_Protocol Payload Driver_Config Mux_Flash Nv_Safety Spi_Safety Spi_Host_Write Sfdp Flash_Syscalls Nv_Syscall Board Spi_Host_Hw Sys_Trace Uart Aes Dcrypto Personality Timers U2f_Driver Boards
begin

text \<open>
  tock-on-titan: the Tock drivers for the H1 security chip and the application that runs on it as a root of trust in front
  of a SPI flash chip. A SPI host (a baseboard management controller, BMC) reaches the flash chip through the H1. The kernel
  filters its commands, answers some of them itself and hands the rest to the application \<^verbatim>\<open>otpilot\<close>, which
  serves a mailbox inside the flash address space (firmware updates of the H1, Manticore requests), forwards other writes to
  the chip and controls the reset pins of the BMC. Beside this the kernel has flash storage with a virtualizer, a
  non-volatile counter and the system calls for all of them.

  Layers, from the bottom. All paths are below \<^verbatim>\<open>src/\<close>.

  \<^item> Shared vocabulary. \<^verbatim>\<open>Prelude\<close> has the machine types, the outcome of a Rust call (\<^verbatim>\<open>Ok\<close>, \<^verbatim>\<open>Err\<close> or a panic), state-passing
    combinators for the operator \<^verbatim>\<open>?\<close>, and big- and little-endian strings. \<^verbatim>\<open>Grants\<close> has the grants of the Tock kernel as the
    system call drivers use them.
  \<^item> Wire formats, \<^verbatim>\<open>shared-lib/spiutils/src\<close>. \<^verbatim>\<open>Wire_Io\<close> (\<^verbatim>\<open>io.rs\<close>: readers, writers, cursors), \<^verbatim>\<open>Std_Write\<close> (the adapter
    \<^verbatim>\<open>StdWrite\<close>), \<^verbatim>\<open>Bit_Buf\<close> (\<^verbatim>\<open>BitBuf\<close>), \<^verbatim>\<open>Wire\<close> (\<^verbatim>\<open>protocol/wire.rs\<close>, the traits as locales), \<^verbatim>\<open>Firmware_Protocol\<close>
    (\<^verbatim>\<open>protocol/firmware.rs\<close>, \<^verbatim>\<open>driver/firmware.rs\<close>, \<^verbatim>\<open>compat/firmware.rs\<close>), \<^verbatim>\<open>Flash_Protocol\<close> (\<^verbatim>\<open>protocol/flash.rs\<close>), \<^verbatim>\<open>Payload\<close>
    (\<^verbatim>\<open>protocol/payload.rs\<close>, \<^verbatim>\<open>protocol/error.rs\<close>), \<^verbatim>\<open>Driver_Config\<close> (\<^verbatim>\<open>driver/reset.rs\<close>, \<^verbatim>\<open>driver/spi_device.rs\<close>). Shown: round
    trips through cursors, decoders accept exactly what encoders write, short buffers are errors, the checksum is CRC-8 and
    detects every corruption of one byte, the bit buffer is a queue, and \<^verbatim>\<open>StdWrite\<close> never returns on a full slice.
  \<^item> Flash storage, \<^verbatim>\<open>kernel/h1/src/hil/flash\<close>. \<^verbatim>\<open>Flash_Hw\<close> (\<^verbatim>\<open>hardware.rs\<close>, \<^verbatim>\<open>h1_hw.rs\<close>, \<^verbatim>\<open>fake.rs\<close>), \<^verbatim>\<open>Smart_Program\<close>
    (\<^verbatim>\<open>smart_program.rs\<close>), \<^verbatim>\<open>Flash_Driver\<close> (\<^verbatim>\<open>driver.rs\<close>, \<^verbatim>\<open>flash.rs\<close>), \<^verbatim>\<open>Mux_Flash\<close> (\<^verbatim>\<open>virtual_flash.rs\<close>), \<^verbatim>\<open>Flash_Syscalls\<close>
    (\<^verbatim>\<open>kernel/h1_syscalls/src/flash.rs\<close>). Shown: smart programming ends for any behaviour of the controller, each accepted
    operation has exactly one completion within a bounded number of alarms, the virtualizer works for one user at a time
    and starts waiting users, and reads return the bytes of the flash.
  \<^item> The non-volatile counter, \<^verbatim>\<open>kernel/h1/src/nvcounter\<close>. \<^verbatim>\<open>Nv_Counter\<close> (\<^verbatim>\<open>internal.rs\<close>, \<^verbatim>\<open>capsule.rs\<close>, \<^verbatim>\<open>traits.rs\<close>),
    \<^verbatim>\<open>Nv_Page\<close> (what a page denotes), \<^verbatim>\<open>Nv_System\<close> (a step relation of calls, completions, torn operations and power losses
    over the documented flash), \<^verbatim>\<open>Nv_Safety\<close> (no value ever goes back, exact increments, completion), \<^verbatim>\<open>Nv_Syscall\<close>
    (\<^verbatim>\<open>kernel/h1_syscalls/src/nvcounter_syscall.rs\<close>: every accepted request is answered once).
  \<^item> SPI, \<^verbatim>\<open>kernel/h1/src\<close>. \<^verbatim>\<open>Spi_Device_Hw\<close> (\<^verbatim>\<open>spi_device.rs\<close>: no command that changes the flash chip passes the
    filters, and the command memory is a queue of packets), \<^verbatim>\<open>Spi_Device_Syscalls\<close> (\<^verbatim>\<open>kernel/h1_syscalls/src/spi_device.rs\<close>: every packet gets the answer its specification
    gives it), \<^verbatim>\<open>Spi_Host_Hw\<close> (\<^verbatim>\<open>spi_host.rs\<close> and \<^verbatim>\<open>kernel/h1_syscalls/src/spi_host.rs\<close>: transactions of up to 128 bytes).
  \<^item> Other chip devices. \<^verbatim>\<open>Chip_Syscalls\<close> (\<^verbatim>\<open>globalsec.rs\<close>, \<^verbatim>\<open>fuse.rs\<close>, \<^verbatim>\<open>pmu.rs\<close> with their system calls: after the start of
    a known image the flash that accepts writes is what the boot loader left open and the inactive firmware segments; with an
    unknown image the segments are unknown and erasing runs on).
  \<^item> Peripherals, \<^verbatim>\<open>kernel/h1/src\<close> and \<^verbatim>\<open>kernel/h1_syscalls/src\<close>. \<^verbatim>\<open>Byte_Words\<close> (byte strings as little-endian words), \<^verbatim>\<open>Uart\<close>
    (\<^verbatim>\<open>uart.rs\<close>: a buffer of at least one byte is sent and received completely and in order, whatever room and data each
    interrupt finds; empty requests need not complete), \<^verbatim>\<open>Digest\<close> (\<^verbatim>\<open>crypto/sha.rs\<close>, \<^verbatim>\<open>hil/digest.rs\<close>, \<^verbatim>\<open>h1_syscalls/digest.rs\<close>: a session computes the digest
    of exactly what its application fed, whatever the others do meanwhile), \<^verbatim>\<open>Aes\<close> (\<^verbatim>\<open>crypto/aes.rs\<close>, \<^verbatim>\<open>h1_syscalls/aes.rs\<close>: a
    block is computed and delivered to the recorded user, but the engine never leaves the electronic code book and the recorded
    user can be the wrong application), \<^verbatim>\<open>Pmu\<close> (clocks and module reset of \<^verbatim>\<open>pmu.rs\<close>), \<^verbatim>\<open>Dcrypto\<close> (\<^verbatim>\<open>crypto/dcrypto.rs\<close>, \<^verbatim>\<open>h1_syscalls/dcrypto.rs\<close>: a
    program runs on the data of the application and its result comes back; how a failed run blocks the driver and how an
    application makes the kernel panic), \<^verbatim>\<open>Personality\<close> (\<^verbatim>\<open>personality.rs\<close>, \<^verbatim>\<open>hil/personality.rs\<close>,
    \<^verbatim>\<open>h1_syscalls/personality.rs\<close>: an update of the attestation data destroys it), \<^verbatim>\<open>Timers\<close> (\<^verbatim>\<open>timels.rs\<close>, \<^verbatim>\<open>timeus.rs\<close>,
    \<^verbatim>\<open>trng.rs\<close>: an alarm expires after exactly the distance of its target, a past or wrapped target after one tick; how setting
    an alarm puts the clock back).
  \<^item> USB, \<^verbatim>\<open>kernel/h1/src/usb\<close>. \<^verbatim>\<open>Usb_Types\<close> (\<^verbatim>\<open>constants.rs\<close>, \<^verbatim>\<open>types.rs\<close>, \<^verbatim>\<open>serialize.rs\<close>: descriptors with their binary forms and
    the setup request), \<^verbatim>\<open>Usb_Registers\<close> (\<^verbatim>\<open>registers.rs\<close>: the bit fields, proved disjoint through a locale), \<^verbatim>\<open>Usb_Device\<close>
    (\<^verbatim>\<open>mod.rs\<close>: endpoint 0, endpoint 1, interrupts, initialization), \<^verbatim>\<open>Usb_Control\<close> (what every request does: the bytes of the
    replies, the requests that are ignored and those that panic), \<^verbatim>\<open>Usb_Session\<close> (packets and sequences of events: the driver
    keeps listening, whatever way the controller reports them, and the two kinds of packets that make it deaf; the generated configuration; initialization), \<^verbatim>\<open>U2f_Driver\<close> (\<^verbatim>\<open>u2f.rs\<close>,
    \<^verbatim>\<open>driver.rs\<close>: the contract of the endpoints as a locale, interpreted on the USB driver; frames from and to applications, and
    what a short frame leaks). The loops that wait for a flush take a step function of the controller; the theorems assume of
    it that it changes only the reset register and clears the flush bit at some time.
  \<^item> Pins, chip and boards. \<^verbatim>\<open>Pinmux\<close> (\<^verbatim>\<open>kernel/h1/src/pinmux.rs\<close>), \<^verbatim>\<open>Gpio\<close> (\<^verbatim>\<open>gpio.rs\<close>: a bank of independent pins as a locale,
    interrupts on either edge, pulls; switching an output off switches it on), \<^verbatim>\<open>Startup\<close> (\<^verbatim>\<open>lib.rs\<close>, \<^verbatim>\<open>io.rs\<close>: the segments of the
    memory after the start), \<^verbatim>\<open>Chip\<close> (\<^verbatim>\<open>chip.rs\<close>: all peripherals in one state and the dispatch of the interrupts; every pending
    interrupt of a pin is served exactly once), \<^verbatim>\<open>Boards\<close> (\<^verbatim>\<open>kernel/papa/src/main.rs\<close>, \<^verbatim>\<open>kernel/golf2/src/main.rs\<close>: the start of papa
    never lets the management controller out of reset; the writable flash of golf2 is exactly what its drivers use; every driver
    is reached under its number). The interrupt controller and the numbers of the Tock kernel's drivers are parameters.
  \<^item> The application, \<^verbatim>\<open>userspace/otpilot/src\<close>. \<^verbatim>\<open>User_Devices\<close> (\<^verbatim>\<open>flash.rs\<close>, \<^verbatim>\<open>spi_device.rs\<close>, \<^verbatim>\<open>spi_host.rs\<close>, \<^verbatim>\<open>spi_host_h1.rs\<close>,
    \<^verbatim>\<open>reset.rs\<close>, \<^verbatim>\<open>globalsec.rs\<close>, \<^verbatim>\<open>fuse.rs\<close> over the system calls), \<^verbatim>\<open>Firmware_Controller\<close> (\<^verbatim>\<open>firmware_controller.rs\<close>: erase,
    write, verify), \<^verbatim>\<open>Spi_Processor\<close> (\<^verbatim>\<open>spi_processor.rs\<close>: packets, mailbox, firmware requests, forwarded writes),
    \<^verbatim>\<open>Spi_Safety\<close> (whatever bytes arrive, only the inactive segments are erased or written, as long as the application knows
    two that are not empty, which it does after the start of a known image), \<^verbatim>\<open>Spi_Host_Write\<close> (how long
    writes are split), \<^verbatim>\<open>Sfdp\<close> (\<^verbatim>\<open>sfdp.rs\<close>, the table byte by byte).
  \<^item> Control of the BMC, \<^verbatim>\<open>userspace/otpilot/src\<close>. \<^verbatim>\<open>Bmc_Control\<close> (\<^verbatim>\<open>gpio.rs\<close>, \<^verbatim>\<open>gpio_control.rs\<close>, \<^verbatim>\<open>alarm.rs\<close>, \<^verbatim>\<open>console_reader.rs\<close>,
    \<^verbatim>\<open>spi_host_helper.rs\<close>, \<^verbatim>\<open>gpio_processor.rs\<close>, \<^verbatim>\<open>console_processor.rs\<close>: no GPIO event is lost, a refused alarm makes later
    resets ignored), \<^verbatim>\<open>Otpilot_Main\<close> (\<^verbatim>\<open>main.rs\<close>: start-up and the event loop, and how the loop can end), \<^verbatim>\<open>Sys_Trace\<close> (under a
    log of the granted system calls, a reset of the BMC and the start-up follow a fixed script up to the first failure, and
    the level of the reset line of the BMC at each failure).
  \<^item> The composition. \<^verbatim>\<open>Board\<close> joins the application's device modules with the kernel drivers the way
    \<^verbatim>\<open>kernel/papa/src/main.rs\<close> does: in every state after the setup of the SPI device, when the callbacks of earlier
    packets have been handed over, a packet of the host reaches the application byte for byte; a reply reaches the host; and the
    application starts with the segments of the kernel.

  State is a record per component and every operation is a function on it, with the order of effects of the source. Traits
  and callbacks are dictionaries of operations (\<^verbatim>\<open>Hardware\<close>, \<^verbatim>\<open>Alarm\<close>, \<^verbatim>\<open>Flash\<close>, \<^verbatim>\<open>SpiDevice\<close>, and others) or locales
  (\<^verbatim>\<open>bounded_writer\<close>, \<^verbatim>\<open>wire_codec\<close>, \<^verbatim>\<open>wire_message\<close>, \<^verbatim>\<open>spi_address\<close>, \<^verbatim>\<open>spi_device_contract\<close>, and others) that are interpreted
  on the definitions of the component that provides them.

  Bounds. A \<^verbatim>\<open>usize\<close> is 32 bits wide: additions and products that can wrap are taken modulo two to the 32nd, slices out of
  range are panics. Loops with a bound of their own are structurally recursive. Loops that wait for hardware or a callback are
  partial functions into \<^verbatim>\<open>option\<close>, where \<^verbatim>\<open>None\<close> means that they do not return; statements that they return are made as such
  (for erasing a segment, for the flash operations and for the counter). No fuel is used.

  Parameters. The Tock kernel outside this repository (process memory for grants, the queue of callbacks, the alarm), the
  system call layer \<^verbatim>\<open>libtock\<close>, the Manticore server and what the hardware does by itself are arguments, with what
  is relied on as hypotheses of the theorem concerned.

  Not modelled. The boards join
  their drivers to objects of the Tock kernel (grants, virtual alarms and serial ports, scheduler), which are not part of the
  repository. Tests, host tools and applications in C are left aside.
\<close>

end
